(* ===== verification/Probe_Prelude.thy ===== *)
theory Probe_Prelude
  imports Complex_Main "HOL-Library.Word" "HOL-Library.Char_ord" "HOL-Library.List_Lexorder"
    "HOL-Library.Monad_Syntax"
begin

text \<open>
  The prelude of the CensorPulse development: the Go notions every component uses.
  Bytes are \<open>8 word\<close>, Go strings are char lists (a Go string is a byte sequence and
  \<open>char\<close> is a byte), fixed-size byte arrays are byte lists whose length a well-formedness
  predicate fixes. A run-time panic of Go (an index or a slice out of range) is the value
  \<open>None\<close> of the option monad, so that a parser which never panics is a parser whose model is
  never \<open>None\<close>; an error return is a value of a sum type inside that monad.
  Times are nanoseconds since the Unix epoch as unbounded integers.
\<close>

named_theorems go_defs \<open>definitions of the Go primitives that may panic\<close>
named_theorems str_simps \<open>facts about the string helpers\<close>
named_theorems len_simps \<open>lengths of encodings\<close>

type_synonym byte = "8 word"
type_synonym bytes = "byte list"
type_synonym time = int
type_synonym duration = int

section \<open>Indexing and slicing with Go's run-time checks\<close>

definition ix :: "'a list \<Rightarrow> nat \<Rightarrow> 'a option" where
  "ix xs i = (if i < length xs then Some (xs ! i) else None)"

definition slc :: "'a list \<Rightarrow> nat \<Rightarrow> nat \<Rightarrow> 'a list option" where
  "slc xs i j = (if i \<le> j \<and> j \<le> length xs then Some (take (j - i) (drop i xs)) else None)"

definition from_ix :: "'a list \<Rightarrow> nat \<Rightarrow> 'a list option" where
  "from_ix xs i = (if i \<le> length xs then Some (drop i xs) else None)"

lemma ix_Some [go_defs]: "i < length xs \<Longrightarrow> ix xs i = Some (xs ! i)"
  by (simp add: ix_def)

lemma slc_Some [go_defs]: "i \<le> j \<Longrightarrow> j \<le> length xs \<Longrightarrow> slc xs i j = Some (take (j - i) (drop i xs))"
  by (simp add: slc_def)

lemma from_ix_Some [go_defs]: "i \<le> length xs \<Longrightarrow> from_ix xs i = Some (drop i xs)"
  by (simp add: from_ix_def)

lemma ix_None_iff: "ix xs i = None \<longleftrightarrow> length xs \<le> i"
  by (simp add: ix_def)

lemma ix_append_left: "i < length xs \<Longrightarrow> ix (xs @ ys) i = ix xs i"
  by (simp add: ix_def nth_append)

lemma ix_append_right: "length xs \<le> i \<Longrightarrow> ix (xs @ ys) i = ix ys (i - length xs)"
  by (auto simp: ix_def nth_append)

lemma ix_Cons_pos: "0 < i \<Longrightarrow> ix (x # xs) i = ix xs (i - 1)"
  by (auto simp: ix_def)

lemma ix_Cons_0: "ix (x # xs) 0 = Some x"
  by (simp add: ix_def)

lemma slc_append_left: "j \<le> length xs \<Longrightarrow> slc (xs @ ys) i j = slc xs i j"
  by (simp add: slc_def)

lemma slc_append_right:
  "length xs \<le> i \<Longrightarrow> i \<le> j \<Longrightarrow> slc (xs @ ys) i j = slc ys (i - length xs) (j - length xs)"
  by (auto simp: slc_def)

lemma slc_Cons_pos: "0 < i \<Longrightarrow> i \<le> j \<Longrightarrow> slc (x # xs) i j = slc xs (i - 1) (j - 1)"
  using slc_append_right [of "[x]" i j xs] by (auto simp: Suc_le_eq)

lemma slc_all: "j = length xs \<Longrightarrow> slc xs 0 j = Some xs"
  by (simp add: slc_def)

lemma slc_append_all: "j = length xs \<Longrightarrow> slc (xs @ ys) 0 j = Some xs"
  by (simp add: slc_def)

lemmas slicing = ix_append_left ix_append_right ix_Cons_pos ix_Cons_0
  slc_append_left slc_append_right slc_Cons_pos slc_all slc_append_all

section \<open>Big-endian integers\<close>

primrec be_bytes :: "nat \<Rightarrow> nat \<Rightarrow> bytes" where
  "be_bytes 0 v = []"
| "be_bytes (Suc n) v = be_bytes n (v div 256) @ [word_of_nat v]"

definition be_nat :: "bytes \<Rightarrow> nat" where
  "be_nat bs = foldl (\<lambda>acc b. acc * 256 + unat b) 0 bs"

lemma length_be_bytes [simp, len_simps]: "length (be_bytes n v) = n"
  by (induction n arbitrary: v) auto

lemma be_nat_Nil [simp]: "be_nat [] = 0"
  by (simp add: be_nat_def)

lemma be_nat_snoc [simp]: "be_nat (bs @ [b]) = be_nat bs * 256 + unat b"
  by (simp add: be_nat_def)

lemma unat_byte_less: "unat (x :: byte) < 256"
  using unsigned_less [where ?'a = nat, of x] by simp

lemma unat_word_of_nat_byte: "unat (word_of_nat v :: byte) = v mod 256"
  by (simp add: unat_of_nat)

lemma be_nat_be_bytes: "be_nat (be_bytes n v) = v mod 256 ^ n"
proof (induction n arbitrary: v)
  case 0
  show ?case by simp
next
  case (Suc n)
  have "be_nat (be_bytes (Suc n) v) = (v div 256 mod 256 ^ n) * 256 + v mod 256"
    by (simp add: Suc.IH unat_word_of_nat_byte)
  also have "\<dots> = v mod (256 * 256 ^ n)"
    by (simp add: mod_mult2_eq)
  finally show ?case by simp
qed

lemma be_nat_less: "be_nat bs < 256 ^ length bs"
proof (induction bs rule: rev_induct)
  case Nil
  show ?case by simp
next
  case (snoc b bs)
  show ?case using snoc unat_byte_less [of b] by simp
qed

lemma be_bytes_be_nat: "be_bytes (length bs) (be_nat bs) = bs"
proof (induction bs rule: rev_induct)
  case Nil
  show ?case by simp
next
  case (snoc b bs)
  have b: "unat b < 256"
    by (rule unat_byte_less)
  then have "(be_nat bs * 256 + unat b) div 256 = be_nat bs"
    by simp
  moreover have "(word_of_nat (be_nat bs * 256 + unat b) :: byte) = b"
  proof -
    have "unat (word_of_nat (be_nat bs * 256 + unat b) :: byte) = unat b"
      using b by (simp only: unat_word_of_nat_byte) simp
    then show ?thesis by (rule unsigned_word_eqI)
  qed
  ultimately show ?case using snoc by simp
qed

definition be16 :: "16 word \<Rightarrow> bytes" where
  "be16 w = be_bytes 2 (unat w)"

definition be32 :: "32 word \<Rightarrow> bytes" where
  "be32 w = be_bytes 4 (unat w)"

definition be64 :: "64 word \<Rightarrow> bytes" where
  "be64 w = be_bytes 8 (unat w)"

definition be24 :: "nat \<Rightarrow> bytes" where
  "be24 v = be_bytes 3 v"

definition get_be :: "nat \<Rightarrow> bytes \<Rightarrow> nat \<Rightarrow> nat option" where
  "get_be n b off = map_option be_nat (slc b off (off + n))"

definition u16 :: "bytes \<Rightarrow> nat \<Rightarrow> 16 word option" where
  "u16 b off = map_option word_of_nat (get_be 2 b off)"

definition u32 :: "bytes \<Rightarrow> nat \<Rightarrow> 32 word option" where
  "u32 b off = map_option word_of_nat (get_be 4 b off)"

definition u64 :: "bytes \<Rightarrow> nat \<Rightarrow> 64 word option" where
  "u64 b off = map_option word_of_nat (get_be 8 b off)"

lemma length_be [simp, len_simps]:
  "length (be16 a) = 2" "length (be32 b) = 4" "length (be64 c) = 8" "length (be24 n) = 3"
  by (simp_all add: be16_def be32_def be64_def be24_def)

lemma get_be_Some [go_defs]:
  "off + n \<le> length b \<Longrightarrow> get_be n b off = Some (be_nat (take n (drop off b)))"
  by (simp add: get_be_def slc_def)

lemma u16_Some [go_defs]: "off + 2 \<le> length b \<Longrightarrow> u16 b off = Some (word_of_nat (be_nat (take 2 (drop off b))))"
  by (simp add: u16_def go_defs)

lemma u32_Some [go_defs]: "off + 4 \<le> length b \<Longrightarrow> u32 b off = Some (word_of_nat (be_nat (take 4 (drop off b))))"
  by (simp add: u32_def go_defs)

lemma u64_Some [go_defs]: "off + 8 \<le> length b \<Longrightarrow> u64 b off = Some (word_of_nat (be_nat (take 8 (drop off b))))"
  by (simp add: u64_def go_defs)

lemma get_be_append_left: "off + n \<le> length xs \<Longrightarrow> get_be n (xs @ ys) off = get_be n xs off"
  by (simp add: get_be_def slc_append_left)

lemma get_be_append_right:
  "length xs \<le> off \<Longrightarrow> get_be n (xs @ ys) off = get_be n ys (off - length xs)"
  by (simp add: get_be_def slc_append_right)

lemma get_be_Cons: "0 < off \<Longrightarrow> get_be n (x # xs) off = get_be n xs (off - 1)"
  by (simp add: get_be_def slc_Cons_pos)

lemma unat_mod_len:
  "unat (a :: 16 word) mod 65536 = unat a" "unat (b :: 32 word) mod 4294967296 = unat b"
  "unat (c :: 64 word) mod 18446744073709551616 = unat c"
  using unsigned_less [where ?'a = nat, of a] unsigned_less [where ?'a = nat, of b]
    unsigned_less [where ?'a = nat, of c] by simp_all

lemma be_nat_be [simp]:
  "be_nat (be16 a) = unat a" "be_nat (be32 b) = unat b" "be_nat (be64 c) = unat c"
  by (simp_all add: be16_def be32_def be64_def be_nat_be_bytes unat_mod_len)

lemma get_be_be:
  "get_be 2 (be16 a) 0 = Some (unat a)" "get_be 2 (be16 a @ ys) 0 = Some (unat a)"
  "get_be 4 (be32 b) 0 = Some (unat b)" "get_be 4 (be32 b @ ys) 0 = Some (unat b)"
  "get_be 8 (be64 c) 0 = Some (unat c)" "get_be 8 (be64 c @ ys) 0 = Some (unat c)"
  by (simp_all add: get_be_def slc_all slc_append_all)

lemmas getting = get_be_append_left get_be_append_right get_be_Cons get_be_be

lemma u16_be16:
  "u16 (be16 a) 0 = Some a" "u16 (be16 a @ ys) 0 = Some a"
  by (simp_all add: u16_def getting)

lemma u32_be32:
  "u32 (be32 a) 0 = Some a" "u32 (be32 a @ ys) 0 = Some a"
  by (simp_all add: u32_def getting)

lemma u64_be64:
  "u64 (be64 a) 0 = Some a" "u64 (be64 a @ ys) 0 = Some a"
  by (simp_all add: u64_def getting)

lemma u_append_left:
  "off + 2 \<le> length xs \<Longrightarrow> u16 (xs @ ys) off = u16 xs off"
  "off + 4 \<le> length xs \<Longrightarrow> u32 (xs @ ys) off = u32 xs off"
  "off + 8 \<le> length xs \<Longrightarrow> u64 (xs @ ys) off = u64 xs off"
  by (simp_all add: u16_def u32_def u64_def get_be_append_left)

lemma u_append_right:
  "length xs \<le> off \<Longrightarrow> u16 (xs @ ys) off = u16 ys (off - length xs)"
  "length xs \<le> off \<Longrightarrow> u32 (xs @ ys) off = u32 ys (off - length xs)"
  "length xs \<le> off \<Longrightarrow> u64 (xs @ ys) off = u64 ys (off - length xs)"
  by (simp_all add: u16_def u32_def u64_def get_be_append_right)

lemma u_Cons:
  "0 < off \<Longrightarrow> u16 (x # xs) off = u16 xs (off - 1)"
  "0 < off \<Longrightarrow> u32 (x # xs) off = u32 xs (off - 1)"
  "0 < off \<Longrightarrow> u64 (x # xs) off = u64 xs (off - 1)"
  by (simp_all add: u16_def u32_def u64_def get_be_Cons)

lemmas reading = u16_be16 u32_be32 u64_be64 u_append_left u_append_right u_Cons

section \<open>Strings\<close>

definition bytes_of :: "string \<Rightarrow> bytes" where
  "bytes_of s = map (\<lambda>c. word_of_nat (of_char c)) s"

definition str_of :: "bytes \<Rightarrow> string" where
  "str_of b = map (\<lambda>x. char_of (unat x)) b"

lemma length_bytes_of [simp, len_simps]: "length (bytes_of s) = length s"
  by (simp add: bytes_of_def)

lemma length_str_of [simp, len_simps]: "length (str_of b) = length b"
  by (simp add: str_of_def)

lemma bytes_of_append [simp]: "bytes_of (s @ t) = bytes_of s @ bytes_of t"
  by (simp add: bytes_of_def)

lemma str_of_bytes_of [simp]: "str_of (bytes_of s) = s"
proof -
  have "char_of (unat (word_of_nat (of_char c) :: byte)) = c" for c :: char
  proof -
    have "(of_char c :: nat) < 256"
      by (rule nat_of_char_less_256)
    then show ?thesis by (simp add: unat_word_of_nat_byte)
  qed
  then show ?thesis by (simp add: str_of_def bytes_of_def comp_def)
qed

lemma bytes_of_str_of [simp]: "bytes_of (str_of b) = b"
proof -
  have "(word_of_nat (of_char (char_of (unat x) :: char)) :: byte) = x" for x :: byte
    by (simp add: of_char_of mod_less unat_byte_less)
  then show ?thesis by (simp add: str_of_def bytes_of_def comp_def map_idI)
qed

definition has_prefix :: "'a list \<Rightarrow> 'a list \<Rightarrow> bool" where
  "has_prefix s p = (take (length p) s = p)"

definition has_suffix :: "'a list \<Rightarrow> 'a list \<Rightarrow> bool" where
  "has_suffix s p = (length p \<le> length s \<and> drop (length s - length p) s = p)"

definition trim_prefix :: "'a list \<Rightarrow> 'a list \<Rightarrow> 'a list" where
  "trim_prefix s p = (if has_prefix s p then drop (length p) s else s)"

definition trim_suffix :: "'a list \<Rightarrow> 'a list \<Rightarrow> 'a list" where
  "trim_suffix s p = (if has_suffix s p then take (length s - length p) s else s)"

fun str_contains :: "'a list \<Rightarrow> 'a list \<Rightarrow> bool" where
  "str_contains [] p = (p = [])"
| "str_contains (c # s) p = (has_prefix (c # s) p \<or> str_contains s p)"

fun split_on :: "'a \<Rightarrow> 'a list \<Rightarrow> 'a list list" where
  "split_on d [] = [[]]"
| "split_on d (c # s) =
     (if c = d then [] # split_on d s
      else (case split_on d s of [] \<Rightarrow> [[c]] | w # ws \<Rightarrow> (c # w) # ws))"

fun join_with :: "'a list \<Rightarrow> 'a list list \<Rightarrow> 'a list" where
  "join_with sep [] = []"
| "join_with sep [w] = w"
| "join_with sep (w # ws) = w @ sep @ join_with sep ws"

text \<open>\<open>LastIndexByte\<close>.\<close>

fun find_index_last :: "'a \<Rightarrow> 'a list \<Rightarrow> nat option" where
  "find_index_last d [] = None"
| "find_index_last d (c # s) =
     (case find_index_last d s of Some i \<Rightarrow> Some (i + 1) | None \<Rightarrow> if c = d then Some 0 else None)"

fun str_cut :: "'a \<Rightarrow> 'a list \<Rightarrow> 'a list \<times> 'a list \<times> bool" where
  "str_cut d [] = ([], [], False)"
| "str_cut d (c # s) =
     (if c = d then ([], s, True)
      else (case str_cut d s of (a, r, found) \<Rightarrow> (c # a, r, found)))"

lemma has_prefix_append [simp, str_simps]: "has_prefix (p @ s) p"
  by (simp add: has_prefix_def)

lemma has_prefix_iff: "has_prefix s p \<longleftrightarrow> (\<exists>r. s = p @ r)"
  by (metis append_eq_conv_conj append_take_drop_id has_prefix_def)

lemma has_suffix_append [simp, str_simps]: "has_suffix (s @ p) p"
  by (simp add: has_suffix_def)

lemma trim_prefix_append [simp, str_simps]: "trim_prefix (p @ s) p = s"
  by (simp add: trim_prefix_def)

lemma trim_suffix_append [simp, str_simps]: "trim_suffix (s @ p) p = s"
  by (simp add: trim_suffix_def)

lemma split_on_nonempty [simp]: "split_on d s \<noteq> []"
  by (induction s) (auto split: list.splits)

lemma split_on_no_delim: "d \<notin> set s \<Longrightarrow> split_on d s = [s]"
  by (induction s) auto

lemma split_on_append: "d \<notin> set w \<Longrightarrow> split_on d (w @ d # s) = w # split_on d s"
  by (induction w) auto

lemma split_on_join:
  "ws \<noteq> [] \<Longrightarrow> (\<forall>w \<in> set ws. d \<notin> set w) \<Longrightarrow> split_on d (join_with [d] ws) = ws"
proof (induction "[d]" ws rule: join_with.induct)
  case (2 w)
  then show ?case by (simp add: split_on_no_delim)
next
  case (3 w v vs)
  then show ?case by (simp add: split_on_append)
qed simp

lemma join_split_on: "join_with [d] (split_on d s) = s"
proof (induction s)
  case (Cons c s)
  then show ?case
    by (cases "split_on d s"; cases "tl (split_on d s)") auto
qed simp

lemma delim_cut: "d \<notin> set w \<Longrightarrow> d \<notin> set w' \<Longrightarrow> w @ d # s = w' @ d # s' \<longleftrightarrow> w = w' \<and> s = s'"
proof (induction w arbitrary: w')
  case Nil
  then show ?case by (cases w') auto
next
  case (Cons c w)
  then show ?case by (cases w') auto
qed

lemma list_all_concat: "list_all p (concat (map f xs)) = list_all (\<lambda>x. list_all p (f x)) xs"
  by (induction xs) simp_all

lemma list_all_True: "list_all (\<lambda>_. True) xs"
  by (simp add: list_all_iff)

section \<open>Integers\<close>

text \<open>\<open>int\<close> and \<open>int64\<close> sums wrap, division truncates towards zero.\<close>

definition wrap64 :: "int \<Rightarrow> int" where
  "wrap64 i = signed_take_bit 63 i"

definition go_quot :: "int \<Rightarrow> int \<Rightarrow> int" where
  "go_quot a b = (if (a < 0) = (b < 0) then \<bar>a\<bar> div \<bar>b\<bar> else - (\<bar>a\<bar> div \<bar>b\<bar>))"

lemma wrap64_id: "- (2 ^ 63) \<le> i \<Longrightarrow> i < 2 ^ 63 \<Longrightarrow> wrap64 i = i"
  by (simp add: wrap64_def signed_take_bit_int_eq_self)

section \<open>Decimal numbers\<close>

definition digit_char :: "nat \<Rightarrow> char" where
  "digit_char d = char_of (48 + d)"

fun utoa :: "nat \<Rightarrow> string" where
  "utoa n = (if n < 10 then [digit_char n] else utoa (n div 10) @ [digit_char (n mod 10)])"

declare utoa.simps [simp del]

definition itoa :: "int \<Rightarrow> string" where
  "itoa i = (if i < 0 then CHR ''-'' # utoa (nat (- i)) else utoa (nat i))"

definition is_digit :: "char \<Rightarrow> bool" where
  "is_digit c = (48 \<le> (of_char c :: nat) \<and> (of_char c :: nat) \<le> 57)"

definition digits_val :: "string \<Rightarrow> nat" where
  "digits_val s = foldl (\<lambda>acc c. acc * 10 + (of_char c - 48)) 0 s"

text \<open>
  \<open>strconv.Atoi\<close> on a 64-bit platform: an optional sign, at least one decimal digit and
  nothing else, in the range of \<open>int64\<close>; \<open>None\<close> is its error.
\<close>

definition atoi :: "string \<Rightarrow> int option" where
  "atoi s =
     (let neg = (s \<noteq> [] \<and> hd s = CHR ''-'');
          ds = (if s \<noteq> [] \<and> (hd s = CHR ''-'' \<or> hd s = CHR ''+'') then tl s else s)
      in if ds = [] \<or> \<not> list_all is_digit ds then None
         else let v = (if neg then - int (digits_val ds) else int (digits_val ds))
              in if - (2 ^ 63) \<le> v \<and> v < 2 ^ 63 then Some v else None)"

text \<open>The value \<open>Atoi\<close> returns next to an error its caller ignores: 0 after a syntax error, the nearest
  end of the range after an overflow.\<close>

definition atoi_val :: "string \<Rightarrow> int" where
  "atoi_val s =
     (let neg = (s \<noteq> [] \<and> hd s = CHR ''-'');
          ds = (if s \<noteq> [] \<and> (hd s = CHR ''-'' \<or> hd s = CHR ''+'') then tl s else s)
      in if ds = [] \<or> \<not> list_all is_digit ds then 0
         else max (- (2 ^ 63)) (min (2 ^ 63 - 1)
                (if neg then - int (digits_val ds) else int (digits_val ds))))"

lemma atoi_val_atoi: "atoi s = Some v \<Longrightarrow> atoi_val s = v"
  by (auto simp: atoi_def atoi_val_def Let_def split: if_splits)

lemma of_char_digit_char: "d < 10 \<Longrightarrow> (of_char (digit_char d) :: nat) = 48 + d"
  by (simp add: digit_char_def of_char_of)

lemma digit_char_digit: "d < 10 \<Longrightarrow> is_digit (digit_char d)"
  by (simp add: is_digit_def of_char_digit_char)

lemma utoa_digits: "list_all is_digit (utoa n)"
proof (induction n rule: utoa.induct)
  case (1 n)
  then show ?case
    by (subst utoa.simps) (auto simp: digit_char_digit)
qed

lemma utoa_nonempty [simp]: "utoa n \<noteq> []"
  by (subst utoa.simps) simp

lemma digits_val_utoa: "digits_val (utoa n) = n"
proof (induction n rule: utoa.induct)
  case (1 n)
  show ?case
  proof (cases "n < 10")
    case True
    then show ?thesis
      by (subst utoa.simps) (simp add: digits_val_def of_char_digit_char)
  next
    case False
    with 1 have IH: "digits_val (utoa (n div 10)) = n div 10" by simp
    have "digits_val (utoa n) = digits_val (utoa (n div 10)) * 10 + n mod 10"
      using False by (subst utoa.simps) (simp add: digits_val_def of_char_digit_char)
    with IH show ?thesis by simp
  qed
qed

lemma utoa_hd: "hd (utoa n) \<noteq> CHR ''-''" "hd (utoa n) \<noteq> CHR ''+''"
proof -
  have "is_digit (hd (utoa n))"
    using utoa_digits [of n] by (cases "utoa n") auto
  then show "hd (utoa n) \<noteq> CHR ''-''" "hd (utoa n) \<noteq> CHR ''+''"
    by (auto simp: is_digit_def)
qed

lemma atoi_itoa: "- (2 ^ 63) \<le> i \<Longrightarrow> i < 2 ^ 63 \<Longrightarrow> atoi (itoa i) = Some i"
  using utoa_hd [of "nat i"]
  by (cases "i < 0") (auto simp: itoa_def atoi_def utoa_digits digits_val_utoa Let_def)

section \<open>Hexadecimal\<close>

definition hex_digit :: "nat \<Rightarrow> char" where
  "hex_digit d = (if d < 10 then char_of (48 + d) else char_of (87 + d))"

definition hex_val :: "char \<Rightarrow> nat option" where
  "hex_val c =
     (let n = (of_char c :: nat)
      in if 48 \<le> n \<and> n \<le> 57 then Some (n - 48)
         else if 97 \<le> n \<and> n \<le> 102 then Some (n - 87)
         else if 65 \<le> n \<and> n \<le> 70 then Some (n - 55)
         else None)"

definition hex_encode :: "bytes \<Rightarrow> string" where
  "hex_encode b = concat (map (\<lambda>x. [hex_digit (unat x div 16), hex_digit (unat x mod 16)]) b)"

fun hex_decode :: "string \<Rightarrow> bytes option" where
  "hex_decode [] = Some []"
| "hex_decode [c] = None"
| "hex_decode (c # d # s) =
     do { h \<leftarrow> hex_val c; l \<leftarrow> hex_val d; r \<leftarrow> hex_decode s; Some (word_of_nat (16 * h + l) # r) }"

lemma length_hex_encode [simp, len_simps]: "length (hex_encode b) = 2 * length b"
  by (induction b) (auto simp: hex_encode_def)

lemma hex_val_digit: "d < 16 \<Longrightarrow> hex_val (hex_digit d) = Some d"
  by (auto simp: hex_val_def hex_digit_def of_char_of Let_def)

lemma hex_decode_encode: "hex_decode (hex_encode b) = Some b"
proof (induction b)
  case Nil
  show ?case by (simp add: hex_encode_def)
next
  case (Cons x b)
  have "unat x div 16 < 16"
    using unat_byte_less [of x] by simp
  moreover have "(word_of_nat (16 * (unat x div 16) + unat x mod 16) :: byte) = x"
    by simp
  ultimately show ?case using Cons
    by (simp add: hex_encode_def hex_val_digit del: of_nat_add of_nat_mult)
qed

lemma hex_decode_length: "hex_decode s = Some b \<Longrightarrow> length s = 2 * length b"
  by (induction s arbitrary: b rule: hex_decode.induct) (auto split: Option.bind_splits)

lemma hex_encode_inj: "hex_encode a = hex_encode b \<longleftrightarrow> a = b"
  by (metis hex_decode_encode option.inject)

section \<open>Maps with Go's zero value\<close>

definition lookup_str :: "('k \<rightharpoonup> string) \<Rightarrow> 'k \<Rightarrow> string" where
  "lookup_str m k = (case m k of None \<Rightarrow> [] | Some v \<Rightarrow> v)"

lemma lookup_str_upd [simp]:
  "lookup_str (m(k \<mapsto> v)) j = (if j = k then v else lookup_str m j)"
  by (simp add: lookup_str_def)

lemma lookup_str_empty [simp]: "lookup_str Map.empty k = []"
  by (simp add: lookup_str_def)

end
