(* ===== verification/Sha256.thy ===== *)
theory Sha256
  imports Probe_Prelude
begin

text \<open>
  The hash functions of Go's standard library the probe relies on: SHA-256
  (\<open>crypto/sha256\<close>) and HMAC (\<open>crypto/hmac\<close>) over it. They are defined, not assumed, so that
  every statement about an authenticated message of the protocol is a statement about the very
  bytes on the wire. The only facts the rest of the development needs are the output lengths,
  collected in the locale \<open>mac_scheme\<close>.
\<close>

unbundle bit_operations_syntax

section \<open>Exclusive or of byte strings\<close>

definition xor_bytes :: "bytes \<Rightarrow> bytes \<Rightarrow> bytes" where
  "xor_bytes a b = map2 (XOR) a b"

lemma xor_bytes_cancel: "length a \<le> length k \<Longrightarrow> xor_bytes (xor_bytes a k) k = a"
proof (induction a arbitrary: k)
  case (Cons x a)
  then show ?case by (cases k) (simp_all add: xor_bytes_def ac_simps)
qed (simp add: xor_bytes_def)

lemma length_xor_bytes [simp, len_simps]: "length (xor_bytes a b) = min (length a) (length b)"
  by (simp add: xor_bytes_def)

section \<open>SHA-256\<close>

type_synonym w32 = "32 word"

definition ror32 :: "nat \<Rightarrow> w32 \<Rightarrow> w32" where
  "ror32 n w = drop_bit n w OR push_bit (32 - n) w"

definition small_sigma0 :: "w32 \<Rightarrow> w32" where
  "small_sigma0 w = ror32 7 w XOR ror32 18 w XOR drop_bit 3 w"

definition small_sigma1 :: "w32 \<Rightarrow> w32" where
  "small_sigma1 w = ror32 17 w XOR ror32 19 w XOR drop_bit 10 w"

definition big_sigma0 :: "w32 \<Rightarrow> w32" where
  "big_sigma0 w = ror32 2 w XOR ror32 13 w XOR ror32 22 w"

definition big_sigma1 :: "w32 \<Rightarrow> w32" where
  "big_sigma1 w = ror32 6 w XOR ror32 11 w XOR ror32 25 w"

text \<open>The round constants (fractional parts of the cube roots of the first 64 primes) and the
  initial state (fractional parts of the square roots of the first eight).\<close>

definition sha256_k :: "w32 list" where
  "sha256_k =
     [1116352408, 1899447441, 3049323471, 3921009573, 961987163, 1508970993,
      2453635748, 2870763221, 3624381080, 310598401, 607225278, 1426881987,
      1925078388, 2162078206, 2614888103, 3248222580, 3835390401, 4022224774,
      264347078, 604807628, 770255983, 1249150122, 1555081692, 1996064986,
      2554220882, 2821834349, 2952996808, 3210313671, 3336571891, 3584528711,
      113926993, 338241895, 666307205, 773529912, 1294757372, 1396182291,
      1695183700, 1986661051, 2177026350, 2456956037, 2730485921, 2820302411,
      3259730800, 3345764771, 3516065817, 3600352804, 4094571909, 275423344,
      430227734, 506948616, 659060556, 883997877, 958139571, 1322822218,
      1537002063, 1747873779, 1955562222, 2024104815, 2227730452, 2361852424,
      2428436474, 2756734187, 3204031479, 3329325298]"

type_synonym sha_state = "w32 \<times> w32 \<times> w32 \<times> w32 \<times> w32 \<times> w32 \<times> w32 \<times> w32"

definition sha256_init :: sha_state where
  "sha256_init = (1779033703, 3144134277, 1013904242, 2773480762, 1359893119, 2600822924, 528734635, 1541459225)"

fun sha256_step :: "w32 \<Rightarrow> w32 \<Rightarrow> sha_state \<Rightarrow> sha_state" where
  "sha256_step k w (a, b, c, d, e, f, g, h) =
     (let t1 = h + big_sigma1 e + ((e AND f) XOR (NOT e AND g)) + k + w;
          t2 = big_sigma0 a + ((a AND b) XOR (a AND c) XOR (b AND c))
      in (t1 + t2, a, b, c, d + t1, e, f, g))"

text \<open>The message schedule is a sliding window of sixteen words.\<close>

fun sha256_rounds :: "w32 list \<Rightarrow> w32 list \<Rightarrow> sha_state \<Rightarrow> sha_state" where
  "sha256_rounds [] win st = st"
| "sha256_rounds (k # ks) [] st = st"
| "sha256_rounds (k # ks) (w # win) st =
     sha256_rounds ks
       (win @ [small_sigma1 (win ! 13) + win ! 8 + small_sigma0 (win ! 0) + w])
       (sha256_step k w st)"

fun add_state :: "sha_state \<Rightarrow> sha_state \<Rightarrow> sha_state" where
  "add_state (a, b, c, d, e, f, g, h) (a', b', c', d', e', f', g', h') =
     (a + a', b + b', c + c', d + d', e + e', f + f', g + g', h + h')"

fun words_of_block :: "nat \<Rightarrow> bytes \<Rightarrow> w32 list" where
  "words_of_block 0 b = []"
| "words_of_block (Suc n) b = word_of_nat (be_nat (take 4 b)) # words_of_block n (drop 4 b)"

definition sha256_block :: "sha_state \<Rightarrow> bytes \<Rightarrow> sha_state" where
  "sha256_block st b = add_state st (sha256_rounds sha256_k (words_of_block 16 b) st)"

fun sha256_blocks :: "nat \<Rightarrow> sha_state \<Rightarrow> bytes \<Rightarrow> sha_state" where
  "sha256_blocks 0 st b = st"
| "sha256_blocks (Suc n) st b = sha256_blocks n (sha256_block st (take 64 b)) (drop 64 b)"

definition sha256_pad :: "bytes \<Rightarrow> bytes" where
  "sha256_pad m = m @ [128] @ replicate ((119 - length m mod 64) mod 64) 0 @ be_bytes 8 (8 * length m)"

fun state_bytes :: "sha_state \<Rightarrow> bytes" where
  "state_bytes (a, b, c, d, e, f, g, h) =
     be32 a @ be32 b @ be32 c @ be32 d @ be32 e @ be32 f @ be32 g @ be32 h"

definition sha256 :: "bytes \<Rightarrow> bytes" where
  "sha256 m = (let p = sha256_pad m in state_bytes (sha256_blocks (length p div 64) sha256_init p))"

lemma length_state_bytes: "length (state_bytes st) = 32"
  by (cases st rule: state_bytes.cases) simp

lemma length_sha256 [simp, len_simps]: "length (sha256 m) = 32"
  by (simp add: sha256_def length_state_bytes Let_def)

text \<open>The padded message is a whole number of 64-byte blocks, so that \<open>sha256\<close> consumes all of it.\<close>

lemma length_sha256_pad: "length (sha256_pad m) mod 64 = 0"
proof -
  define r where "r = length m mod 64"
  define z where "z = (119 - r) mod 64"
  have "r < 64" by (simp add: r_def)
  then have "(r + z + 9) mod 64 = 0"
    by (cases "r \<le> 55") (auto simp: z_def mod_if)
  moreover have "length (sha256_pad m) = length m + z + 9"
    by (simp add: sha256_pad_def z_def r_def)
  moreover have "(length m + z + 9) mod 64 = (r + z + 9) mod 64"
    unfolding r_def by (simp add: mod_simps add.assoc)
  ultimately show ?thesis by simp
qed

section \<open>HMAC-SHA256\<close>

definition hmac_key :: "bytes \<Rightarrow> bytes" where
  "hmac_key key = (let k = (if length key > 64 then sha256 key else key) in k @ replicate (64 - length k) 0)"

definition hmac_sha256 :: "bytes \<Rightarrow> bytes \<Rightarrow> bytes" where
  "hmac_sha256 key msg =
     (let k = hmac_key key
      in sha256 (map (\<lambda>b. b XOR 92) k @ sha256 (map (\<lambda>b. b XOR 54) k @ msg)))"

lemma length_hmac_sha256 [simp, len_simps]: "length (hmac_sha256 k m) = 32"
  by (simp add: hmac_sha256_def Let_def)

lemma length_hmac_key: "length (hmac_key key) = 64"
  by (simp add: hmac_key_def Let_def)

text \<open>
  What a user of a message authentication code relies on: a tag of fixed length. A truncated
  tag is the first bytes of a longer one, which is how the probe uses HMAC-SHA256 throughout.
\<close>

locale mac_scheme =
  fixes tag :: "bytes \<Rightarrow> bytes \<Rightarrow> bytes"
    and tag_len :: nat
  assumes tag_length: "length (tag key msg) = tag_len"
begin

text \<open>A message with its tag appended is accepted by recomputing the tag over all but the last
  \<open>tag_len\<close> bytes, whatever the message, and the tag is found at the end.\<close>

lemma tag_split:
  assumes "b = msg @ tag key msg"
  shows "take (length b - tag_len) b = msg" and "drop (length b - tag_len) b = tag key msg"
  using assms by (simp_all add: tag_length)

lemma tagged_length: "length (msg @ tag key msg) = length msg + tag_len"
  by (simp add: tag_length)

end

interpretation sha: mac_scheme hmac_sha256 32
  by unfold_locales simp

end
