(* ===== verification/Codec.thy ===== *)
theory Codec
  imports Probe_Prelude
begin

text \<open>
  The interface of a self-delimiting wire format: an encoder, a decoder that reads one value
  from the front of a buffer and says how many bytes it took (or that the buffer does not hold a
  whole value yet), and the values the encoder accepts. Everything a reader of a byte stream
  relies on follows from the one law: encodings are injective, no encoding is a proper prefix of
  another, and a concatenation of encodings is read back value by value.
\<close>

fun read_all :: "(bytes \<Rightarrow> ('a \<times> nat) option) \<Rightarrow> nat \<Rightarrow> bytes \<Rightarrow> 'a list \<times> bytes" where
  "read_all dec 0 b = ([], b)"
| "read_all dec (Suc fuel) b =
     (case dec b of
        None \<Rightarrow> ([], b)
      | Some (v, n) \<Rightarrow> (case read_all dec fuel (drop n b) of (vs, r) \<Rightarrow> (v # vs, r)))"

locale codec =
  fixes enc :: "'a \<Rightarrow> bytes"
    and dec :: "bytes \<Rightarrow> ('a \<times> nat) option"
    and ok :: "'a \<Rightarrow> bool"
  assumes dec_enc: "ok a \<Longrightarrow> dec (enc a @ rest) = Some (a, length (enc a))"
begin

lemma dec_enc_exact: "ok a \<Longrightarrow> dec (enc a) = Some (a, length (enc a))"
  using dec_enc [of a "[]"] by simp

lemma enc_prefix_free:
  assumes "ok a" "ok b" "enc a @ r = enc b @ s"
  shows "a = b \<and> r = s"
proof -
  have "Some (a, length (enc a)) = Some (b, length (enc b))"
    using dec_enc [OF assms(1), of r] dec_enc [OF assms(2), of s] assms(3) by simp
  with assms(3) show ?thesis by simp
qed

lemma enc_inj: "ok a \<Longrightarrow> ok b \<Longrightarrow> enc a = enc b \<Longrightarrow> a = b"
  using enc_prefix_free [of a b "[]" "[]"] by simp

lemma read_all_concat:
  assumes "\<forall>a \<in> set as. ok a" "dec rest = None" "length as \<le> fuel"
  shows "read_all dec fuel (concat (map enc as) @ rest) = (as, rest)"
  using assms
proof (induction as arbitrary: fuel)
  case Nil
  then show ?case by (cases fuel) auto
next
  case (Cons a as)
  then obtain k where k: "fuel = Suc k" by (cases fuel) auto
  with Cons show ?case
    using dec_enc [of a "concat (map enc as) @ rest"] by simp
qed

end

text \<open>A codec whose decoder never looks past the end of its value: the shape of every
  length-prefixed record of the wire formats here.\<close>

definition len16_enc :: "bytes \<Rightarrow> bytes" where
  "len16_enc b = be16 (word_of_nat (length b)) @ b"

definition len16_dec :: "bytes \<Rightarrow> (bytes \<times> nat) option" where
  "len16_dec b =
     (if length b < 2 then None
      else let n = be_nat (take 2 b)
           in if length b < 2 + n then None else Some (take n (drop 2 b), 2 + n))"

lemma unat_word_of_nat_16: "n < 65536 \<Longrightarrow> unat (word_of_nat n :: 16 word) = n"
  by (simp add: unat_of_nat)

lemma unat_word_of_nat_8: "n < 256 \<Longrightarrow> unat (word_of_nat n :: byte) = n"
  by (simp add: unat_of_nat)

interpretation len16: codec len16_enc len16_dec "\<lambda>b. length b < 65536"
proof unfold_locales
  fix b rest :: bytes
  assume "length b < 65536"
  then show "len16_dec (len16_enc b @ rest) = Some (b, length (len16_enc b))"
    by (simp add: len16_dec_def len16_enc_def unat_word_of_nat_16)
qed

end
