(* ===== verification/Envelope.thy ===== *)
theory Envelope
  imports Sha256 Codec
begin

text \<open>
  The CP1 test envelope (\<open>internal/proto/envelope.go\<close>): the request the client sends inside its
  own transports and the reply the server returns, with their truncated HMAC-SHA256 tags. The
  parsers run in the panic monad of the prelude. The lemmas show that no input makes a parser
  read out of range, that encoding and decoding are inverse, that acceptance means a valid tag
  under the key of the named session, that \<open>RequestLen\<close> frames a stream correctly, and how the
  size of a reply relates to the size of its request.
\<close>

unbundle bit_operations_syntax

section \<open>Constants and data\<close>

definition Magic :: bytes where "Magic = [67, 80, 49]"

definition Version :: byte where "Version = 1"
definition KindRequest :: byte where "KindRequest = 1"
definition KindReply :: byte where "KindReply = 2"
definition flagCookie :: byte where "flagCookie = 1"

abbreviation SessionIDLen :: nat where "SessionIDLen \<equiv> 16"
abbreviation NonceLen :: nat where "NonceLen \<equiv> 12"
abbreviation CookieLen :: nat where "CookieLen \<equiv> 16"
abbreviation MACLen :: nat where "MACLen \<equiv> 16"
abbreviation MaxPayload :: nat where "MaxPayload \<equiv> 8192"

lemmas env_consts = Magic_def Version_def KindRequest_def KindReply_def flagCookie_def

datatype env_error =
    BadTestIDLen nat
  | PayloadTooLarge nat
  | BadCookieLen nat
  | ErrNotEnvelope
  | ErrBadMAC
  | ErrTruncated

record request =
  req_session :: bytes
  req_test :: string
  req_nonce :: bytes
  req_seq :: "32 word"
  req_cookie :: "bytes option"
  req_payload :: bytes
  req_raw :: bytes

record reply =
  rep_session :: bytes
  rep_test :: string
  rep_nonce :: bytes
  rep_seq :: "32 word"
  rep_recv_len :: "16 word"
  rep_sha :: bytes
  rep_seen_at :: time
  rep_replied_at :: time

definition mac :: "bytes \<Rightarrow> bytes \<Rightarrow> bytes" where
  "mac key data = take MACLen (hmac_sha256 key data)"

lemma length_mac [simp, len_simps]: "length (mac k d) = 16"
  by (simp add: mac_def)

interpretation env_mac: mac_scheme mac 16
  by unfold_locales simp

section \<open>Requests\<close>

definition is_envelope :: "bytes \<Rightarrow> bool" where
  "is_envelope b = (length b \<ge> 6 \<and> has_prefix b Magic \<and> b ! 3 = Version)"

definition request_flags :: "request \<Rightarrow> byte" where
  "request_flags r = (case req_cookie r of None \<Rightarrow> 0 | Some _ \<Rightarrow> 0 OR flagCookie)"

definition request_body :: "request \<Rightarrow> bytes" where
  "request_body r =
     Magic @ [Version, KindRequest, request_flags r] @ req_session r @
     [word_of_nat (length (req_test r))] @ bytes_of (req_test r) @ req_nonce r @ be32 (req_seq r) @
     (case req_cookie r of None \<Rightarrow> [] | Some c \<Rightarrow> c) @
     be16 (word_of_nat (length (req_payload r))) @ req_payload r"

definition encode_request :: "request \<Rightarrow> bytes \<Rightarrow> env_error + bytes" where
  "encode_request r key =
     (if length (req_test r) = 0 \<or> length (req_test r) > 255 then Inl (BadTestIDLen (length (req_test r)))
      else if length (req_payload r) > MaxPayload then Inl (PayloadTooLarge (length (req_payload r)))
      else if (case req_cookie r of None \<Rightarrow> False | Some c \<Rightarrow> length c \<noteq> CookieLen)
        then Inl (BadCookieLen (case req_cookie r of None \<Rightarrow> 0 | Some c \<Rightarrow> length c))
      else let buf = request_body r in Inr (buf @ mac key buf))"

definition request_len :: "bytes \<Rightarrow> (nat \<times> nat) option" where
  "request_len b =
     (if length b < 23 then Some (0, 23)
      else do {
        tl \<leftarrow> ix b 22;
        fl \<leftarrow> ix b 5;
        let off = 23 + unat tl + NonceLen + 4 + (if fl AND flagCookie \<noteq> 0 then CookieLen else 0);
        if length b < off + 2 then Some (0, off + 2)
        else do {
          pl \<leftarrow> u16 b off;
          let total = off + 2 + unat pl + MACLen;
          if length b < total then Some (0, total) else Some (total, total)
        }
      })"

text \<open>The zero values of \<open>[SessionIDLen]byte\<close> and \<open>[NonceLen]byte\<close>.\<close>

definition zero_sid :: bytes where "zero_sid = replicate 16 0"
definition zero_nonce :: bytes where "zero_nonce = replicate 12 0"

definition peek_request :: "bytes \<Rightarrow> (bytes \<times> string \<times> bytes \<times> nat) option" where
  "peek_request b =
     (if \<not> is_envelope b \<or> b ! 4 \<noteq> KindRequest \<or> length b < 22 then Some (zero_sid, [], zero_nonce, 0)
      else do {
        sid \<leftarrow> slc b 6 22;
        if length b < 23 then Some (sid, [], zero_nonce, 1)
        else do {
          tl \<leftarrow> ix b 22;
          if length b < 23 + unat tl then Some (sid, [], zero_nonce, 1)
          else do {
            test \<leftarrow> slc b 23 (23 + unat tl);
            if length b < 23 + unat tl + NonceLen then Some (sid, str_of test, zero_nonce, 2)
            else do {
              nonce \<leftarrow> slc b (23 + unat tl) (23 + unat tl + NonceLen);
              Some (sid, str_of test, nonce, 3)
            }
          }
        }
      })"

definition decode_request ::
  "bytes \<Rightarrow> (bytes \<Rightarrow> bytes option) \<Rightarrow> (request option \<times> env_error option) option" where
  "decode_request b0 keyFor =
     (if \<not> is_envelope b0 \<or> b0 ! 4 \<noteq> KindRequest then Some (None, Some ErrNotEnvelope)
      else do {
        (total, need) \<leftarrow> request_len b0;
        if total = 0 then Some (None, Some ErrTruncated)
        else do {
          b \<leftarrow> slc b0 0 total;
          flags \<leftarrow> ix b 5;
          sid \<leftarrow> slc b 6 22;
          tl \<leftarrow> ix b 22;
          let off = 23;
          test \<leftarrow> slc b off (off + unat tl);
          let off = off + unat tl;
          nonce \<leftarrow> slc b off (off + NonceLen);
          let off = off + NonceLen;
          seq \<leftarrow> u32 b off;
          let off = off + 4;
          cookie \<leftarrow> (if flags AND flagCookie \<noteq> 0 then map_option Some (slc b off (off + CookieLen)) else Some None);
          let off = (if flags AND flagCookie \<noteq> 0 then off + CookieLen else off);
          pl \<leftarrow> u16 b off;
          let off = off + 2;
          payload \<leftarrow> slc b off (off + unat pl);
          let off = off + unat pl;
          let r = \<lparr>req_session = sid, req_test = str_of test, req_nonce = nonce, req_seq = seq,
                   req_cookie = cookie, req_payload = payload, req_raw = b\<rparr>;
          case keyFor sid of
            None \<Rightarrow> Some (Some r, Some ErrBadMAC)
          | Some key \<Rightarrow> do {
              got \<leftarrow> slc b off (off + MACLen);
              covered \<leftarrow> slc b 0 off;
              if got \<noteq> mac key covered then Some (Some r, Some ErrBadMAC) else Some (Some r, None)
            }
        }
      })"

section \<open>Replies\<close>

definition unix_nano :: "time \<Rightarrow> 64 word" where
  "unix_nano t = word_of_int t"

definition reply_body :: "request \<Rightarrow> time \<Rightarrow> time \<Rightarrow> bytes" where
  "reply_body req seenAt repliedAt =
     Magic @ [Version, KindReply, 0] @ req_session req @
     [word_of_nat (length (req_test req))] @ bytes_of (req_test req) @ req_nonce req @ be32 (req_seq req) @
     be16 (word_of_nat (length (req_payload req))) @ sha256 (req_payload req) @
     be64 (unix_nano seenAt) @ be64 (unix_nano repliedAt)"

definition encode_reply :: "request \<Rightarrow> time \<Rightarrow> time \<Rightarrow> bytes \<Rightarrow> bytes" where
  "encode_reply req seenAt repliedAt key =
     (let buf = reply_body req seenAt repliedAt in buf @ mac key buf)"

definition reply_len :: "bytes \<Rightarrow> (nat \<times> nat) option" where
  "reply_len b =
     (if length b < 23 then Some (0, 23)
      else do {
        tl \<leftarrow> ix b 22;
        let total = 23 + unat tl + NonceLen + 4 + 2 + 32 + 8 + 8 + MACLen;
        if length b < total then Some (0, total) else Some (total, total)
      })"

definition decode_reply :: "bytes \<Rightarrow> bytes \<Rightarrow> (reply option \<times> env_error option) option" where
  "decode_reply b0 key =
     (if \<not> is_envelope b0 \<or> b0 ! 4 \<noteq> KindReply then Some (None, Some ErrNotEnvelope)
      else do {
        (total, need) \<leftarrow> reply_len b0;
        if total = 0 then Some (None, Some ErrTruncated)
        else do {
          b \<leftarrow> slc b0 0 total;
          sid \<leftarrow> slc b 6 22;
          tl \<leftarrow> ix b 22;
          let off = 23;
          test \<leftarrow> slc b off (off + unat tl);
          let off = off + unat tl;
          nonce \<leftarrow> slc b off (off + NonceLen);
          let off = off + NonceLen;
          seq \<leftarrow> u32 b off;
          let off = off + 4;
          recv \<leftarrow> u16 b off;
          let off = off + 2;
          sha \<leftarrow> slc b off (off + 32);
          let off = off + 32;
          seen \<leftarrow> u64 b off;
          let off = off + 8;
          replied \<leftarrow> u64 b off;
          let off = off + 8;
          let r = \<lparr>rep_session = sid, rep_test = str_of test, rep_nonce = nonce, rep_seq = seq,
                   rep_recv_len = recv, rep_sha = sha, rep_seen_at = sint seen, rep_replied_at = sint replied\<rparr>;
          got \<leftarrow> slc b off (off + MACLen);
          covered \<leftarrow> slc b 0 off;
          if got \<noteq> mac key covered then Some (Some r, Some ErrBadMAC) else Some (Some r, None)
        }
      })"

section \<open>No parser panics\<close>

lemma request_len_cases:
  obtains need where "request_len b = Some (0, need)" "length b < need"
  | total where "request_len b = Some (total, total)" "0 < total" "total \<le> length b" "23 \<le> length b"
      "total = 23 + unat (b ! 22) + 16 + (if b ! 5 AND flagCookie \<noteq> 0 then 16 else 0) + 2
         + unat (word_of_nat (be_nat (take 2 (drop (23 + unat (b ! 22) + 16
             + (if b ! 5 AND flagCookie \<noteq> 0 then 16 else 0)) b))) :: 16 word) + 16"
  by (atomize_elim, cases "length b < 23")
     (auto simp: request_len_def go_defs Let_def not_less)

lemma peek_request_total: "peek_request b \<noteq> None"
  by (auto simp: peek_request_def is_envelope_def go_defs Let_def)

text \<open>
  What a complete request decodes to, as one equation: the fields at their offsets and the
  verdict on the tag. All facts about \<open>decode_request\<close> go through it.
\<close>

definition cookie_len :: "bytes \<Rightarrow> nat" where
  "cookie_len b = (if b ! 5 AND flagCookie \<noteq> 0 then CookieLen else 0)"

definition fixed_end :: "bytes \<Rightarrow> nat" where
  "fixed_end b = 39 + unat (b ! 22) + cookie_len b"

definition request_fields :: "bytes \<Rightarrow> request" where
  "request_fields b =
     \<lparr>req_session = take 16 (drop 6 b), req_test = str_of (take (unat (b ! 22)) (drop 23 b)),
      req_nonce = take 12 (drop (23 + unat (b ! 22)) b),
      req_seq = word_of_nat (be_nat (take 4 (drop (35 + unat (b ! 22)) b))),
      req_cookie = (if b ! 5 AND flagCookie \<noteq> 0 then Some (take 16 (drop (39 + unat (b ! 22)) b)) else None),
      req_payload = take (length b - 18 - fixed_end b) (drop (fixed_end b + 2) b), req_raw = b\<rparr>"

definition tag_verdict :: "bytes \<Rightarrow> (bytes \<Rightarrow> bytes option) \<Rightarrow> env_error option" where
  "tag_verdict b keyFor =
     (case keyFor (take 16 (drop 6 b)) of
        None \<Rightarrow> Some ErrBadMAC
      | Some key \<Rightarrow> if drop (length b - 16) b \<noteq> mac key (take (length b - 16) b) then Some ErrBadMAC else None)"

lemma request_len_total:
  assumes "request_len b = Some (tot, n)" "0 < tot"
  shows "n = tot" "tot \<le> length b"
    "tot = fixed_end b + 2 + unat (word_of_nat (be_nat (take 2 (drop (fixed_end b) b))) :: 16 word) + 16"
  using assms by (cases rule: request_len_cases [of b]; simp add: fixed_end_def cookie_len_def)+

lemma request_len_whole:
  assumes "request_len b0 = Some (tot, n)" "0 < tot" and B: "B = take tot b0"
  shows "length B = tot" "B ! 5 = b0 ! 5" "B ! 22 = b0 ! 22" "fixed_end B = fixed_end b0"
    "tot = fixed_end B + 2 + unat (word_of_nat (be_nat (take 2 (drop (fixed_end B) B))) :: 16 word) + 16"
proof -
  note T = request_len_total [OF assms(1,2)]
  show len: "length B = tot" using T B by simp
  have "39 \<le> tot" using T(3) by (simp add: fixed_end_def)
  then show n: "B ! 5 = b0 ! 5" "B ! 22 = b0 ! 22" using B by auto
  then show f: "fixed_end B = fixed_end b0" by (simp add: fixed_end_def cookie_len_def)
  have "take 2 (drop (fixed_end b0) B) = take 2 (drop (fixed_end b0) b0)"
    using T(3) B by (simp add: drop_take)
  with T(3) f show "tot = fixed_end B + 2 + unat (word_of_nat (be_nat (take 2 (drop (fixed_end B) B))) :: 16 word) + 16"
    by simp
qed

lemma decode_request_eq:
  assumes env: "is_envelope b0" "b0 ! 4 = KindRequest"
    and len: "request_len b0 = Some (tot, n)" "0 < tot"
  shows "decode_request b0 kf = Some (Some (request_fields (take tot b0)), tag_verdict (take tot b0) kf)"
proof -
  define B where "B = take tot b0"
  note W = request_len_whole [OF len B_def]
  define tl where "tl = unat (B ! 22)"
  define o1 where "o1 = 23 + tl + NonceLen + 4"
  define o2 where "o2 = (if B ! 5 AND flagCookie \<noteq> 0 then o1 + CookieLen else o1)"
  define pl where "pl = unat (word_of_nat (be_nat (take 2 (drop o2 B))) :: 16 word)"
  have fe: "fixed_end B = o2" by (simp add: fixed_end_def tl_def cookie_len_def o1_def o2_def)
  have len_B: "length B = o2 + 2 + pl + 16"
    using W(1,5) by (simp only: fe pl_def)
  have o1_le: "o1 \<le> o2" by (simp add: o2_def)
  have s0: "slc b0 0 tot = Some B"
    using request_len_total [OF len] by (simp add: slc_def B_def)
  have s1: "ix B 5 = Some (B ! 5)" "slc B 6 22 = Some (take 16 (drop 6 B))" "ix B 22 = Some (B ! 22)"
    "slc B 23 (23 + tl) = Some (take tl (drop 23 B))"
    "slc B (23 + tl) (23 + tl + 12) = Some (take 12 (drop (23 + tl) B))"
    "u32 B (23 + tl + 12) = Some (word_of_nat (be_nat (take 4 (drop (35 + tl) B))))"
    using len_B o1_le by (simp_all add: go_defs o1_def)
  have s2: "(if B ! 5 AND flagCookie \<noteq> 0 then map_option Some (slc B o1 (o1 + 16)) else Some None)
      = Some (if B ! 5 AND flagCookie \<noteq> 0 then Some (take 16 (drop o1 B)) else None)"
    using len_B by (simp add: go_defs o2_def)
  have s3: "u16 B o2 = Some (word_of_nat (be_nat (take 2 (drop o2 B))))"
    "slc B (o2 + 2) (o2 + 2 + pl) = Some (take pl (drop (o2 + 2) B))"
    "slc B (o2 + 2 + pl) (o2 + 2 + pl + 16) = Some (drop (length B - 16) B)"
    "slc B 0 (o2 + 2 + pl) = Some (take (length B - 16) B)"
    using len_B by (simp_all add: go_defs)
  have fields: "request_fields B = \<lparr>req_session = take 16 (drop 6 B), req_test = str_of (take tl (drop 23 B)),
      req_nonce = take 12 (drop (23 + tl) B), req_seq = word_of_nat (be_nat (take 4 (drop (35 + tl) B))),
      req_cookie = (if B ! 5 AND flagCookie \<noteq> 0 then Some (take 16 (drop o1 B)) else None),
      req_payload = take pl (drop (o2 + 2) B), req_raw = B\<rparr>"
    by (simp add: request_fields_def tl_def o1_def fe len_B add.commute [of 39])
  have d: "tot \<noteq> 0" using len by simp
  note steps = decode_request_def Let_def env len(1) s0 s1 s2 s3 d prod.case option.case
    Option.bind.simps simp_thms if_True if_False
  show ?thesis
    by (cases "kf (take 16 (drop 6 B))")
      (simp_all only: steps fields tag_verdict_def B_def [symmetric] tl_def [symmetric]
        o1_def [symmetric] o2_def [symmetric] pl_def [symmetric] split: if_split, simp)
qed

lemma decode_request_total: "decode_request b kf \<noteq> None"
proof (cases "is_envelope b \<and> b ! 4 = KindRequest")
  case False
  then show ?thesis by (auto simp: decode_request_def)
next
  case True
  show ?thesis
  proof (cases rule: request_len_cases [of b])
    case (1 need)
    with True show ?thesis by (simp add: decode_request_def)
  next
    case (2 tot)
    with True show ?thesis by (simp add: decode_request_eq)
  qed
qed


lemma decode_request_ok:
  assumes "decode_request b kf = Some (req, None)"
  obtains r key where "req = Some r" "kf (req_session r) = Some key"
proof -
  have env: "is_envelope b" "b ! 4 = KindRequest"
    using assms by (auto simp: decode_request_def split: if_splits)
  then obtain tot where tot: "request_len b = Some (tot, tot)" "0 < tot"
    using assms by (cases rule: request_len_cases [of b]) (auto simp: decode_request_def)
  then have "req = Some (request_fields (take tot b))" "tag_verdict (take tot b) kf = None"
    using assms decode_request_eq [OF env tot, of kf] by simp_all
  then show thesis
    using that by (auto simp: tag_verdict_def request_fields_def split: option.splits)
qed

section \<open>Round trip\<close>

definition wf_request :: "request \<Rightarrow> bool" where
  "wf_request r = (length (req_session r) = SessionIDLen \<and> length (req_nonce r) = NonceLen)"

lemma encode_request_Inr:
  "encode_request r key = Inr b \<longleftrightarrow>
     0 < length (req_test r) \<and> length (req_test r) \<le> 255 \<and> length (req_payload r) \<le> MaxPayload \<and>
     (\<forall>c. req_cookie r = Some c \<longrightarrow> length c = CookieLen) \<and> b = request_body r @ mac key (request_body r)"
  by (auto simp: encode_request_def Let_def split: option.splits if_splits)

lemma flag_set: "(0 OR flagCookie) AND flagCookie \<noteq> 0" "(0 :: byte) AND flagCookie = 0"
  by (simp_all add: flagCookie_def)

text \<open>The bytes of an encoded request at the offsets the decoder reads.\<close>

lemma request_body_layout:
  assumes wf: "wf_request r" and enc: "encode_request r key = Inr e" and b: "b = e @ rest"
  defines "n \<equiv> length (req_test r)" and "cl \<equiv> (case req_cookie r of None \<Rightarrow> 0 | Some c \<Rightarrow> length c)"
  shows "is_envelope b" "b ! 4 = KindRequest" "b ! 5 = request_flags r" "unat (b ! 22) = n"
    "cookie_len b = cl" "fixed_end b = 39 + n + cl"
    "take 16 (drop 6 b) = req_session r" "take n (drop 23 b) = bytes_of (req_test r)"
    "take 12 (drop (23 + n) b) = req_nonce r" "take 4 (drop (35 + n) b) = be32 (req_seq r)"
    "take cl (drop (39 + n) b) = (case req_cookie r of None \<Rightarrow> [] | Some c \<Rightarrow> c)"
    "take 2 (drop (39 + n + cl) b) = be16 (word_of_nat (length (req_payload r)))"
    "take (length (req_payload r)) (drop (41 + n + cl) b) = req_payload r"
    "length e = 57 + n + cl + length (req_payload r)"
proof -
  have E: "n \<le> 255" "\<forall>c. req_cookie r = Some c \<longrightarrow> length c = 16"
    "b = request_body r @ mac key (request_body r) @ rest" "e = request_body r @ mac key (request_body r)"
    using enc b by (auto simp: encode_request_Inr n_def)
  have L: "length (req_session r) = 16" "length (req_nonce r) = 12"
    using wf by (auto simp: wf_request_def)
  have u: "unat (word_of_nat n :: byte) = n"
    using E(1) by (simp add: unat_word_of_nat_8)
  note body = E(3,4) request_body_def env_consts
  show "is_envelope b" "b ! 4 = KindRequest" "b ! 5 = request_flags r"
    by (simp_all add: body is_envelope_def has_prefix_def)
  show b22: "unat (b ! 22) = n"
    using u by (simp add: body L nth_append n_def)
  show c: "cookie_len b = cl"
    using \<open>b ! 5 = request_flags r\<close> E(2)
    by (auto simp: cookie_len_def cl_def request_flags_def flagCookie_def split: option.splits)
  show "fixed_end b = 39 + n + cl"
    by (simp add: fixed_end_def b22 c)
  show "take 16 (drop 6 b) = req_session r" "take n (drop 23 b) = bytes_of (req_test r)"
    "take 12 (drop (23 + n) b) = req_nonce r" "take 4 (drop (35 + n) b) = be32 (req_seq r)"
    by (simp_all add: body L n_def drop_Cons')
  show "take cl (drop (39 + n) b) = (case req_cookie r of None \<Rightarrow> [] | Some c \<Rightarrow> c)"
    "take 2 (drop (39 + n + cl) b) = be16 (word_of_nat (length (req_payload r)))"
    "take (length (req_payload r)) (drop (41 + n + cl) b) = req_payload r"
    "length e = 57 + n + cl + length (req_payload r)"
    by (simp_all add: body L n_def cl_def drop_Cons' split: option.split)
qed

lemma request_len_encoded:
  assumes "wf_request r" "encode_request r key = Inr e"
  shows "request_len (e @ rest) = Some (length e, length e)"
proof -
  note lay = request_body_layout [OF assms refl [of "e @ rest"]]
  have pl: "unat (word_of_nat (length (req_payload r)) :: 16 word) = length (req_payload r)"
    using assms(2) by (simp add: encode_request_Inr unat_word_of_nat_16)
  have "23 \<le> length (e @ rest)" using lay(14) by simp
  then show ?thesis
    using lay(4,5,12,14) pl
    by (simp add: request_len_def go_defs Let_def cookie_len_def [symmetric] add.assoc)
qed


lemma request_fields_encoded:
  assumes "wf_request r" "encode_request r key = Inr e"
  shows "request_fields e = r\<lparr>req_raw := e\<rparr>"
proof -
  note lay = request_body_layout [OF assms, of e "[]"]
  have "\<forall>c. req_cookie r = Some c \<longrightarrow> length c = 16"
    using assms(2) by (simp add: encode_request_Inr)
  then have c: "(if e ! 5 AND flagCookie \<noteq> 0 then Some (take 16 (drop (39 + unat (e ! 22)) e)) else None) = req_cookie r"
    using lay(3,4,11) by (cases "req_cookie r") (simp_all add: request_flags_def flagCookie_def)
  show ?thesis
    using lay c by (intro request.equality) (simp_all add: request_fields_def add.assoc)
qed

lemma decode_encoded:
  assumes "wf_request r" "encode_request r key = Inr e" "kf (req_session r) = Some key"
  shows "decode_request (e @ rest) kf = Some (Some (r\<lparr>req_raw := e\<rparr>), None)"
proof -
  note lay = request_body_layout [OF assms(1,2) refl [of "e @ rest"]]
  have pos: "0 < length e" using lay(14) by simp
  have sid: "take 16 (drop 6 e) = req_session r"
    using request_body_layout(7) [OF assms(1,2), of e "[]"] by simp
  have "tag_verdict e kf = None"
    using assms(2,3) sid by (simp add: tag_verdict_def encode_request_Inr)
  with decode_request_eq [OF lay(1,2) request_len_encoded [OF assms(1,2)] pos]
  show ?thesis by (simp add: request_fields_encoded [OF assms(1,2)])
qed

text \<open>For a fixed key, requests are a self-delimiting code.\<close>

definition request_enc :: "bytes \<Rightarrow> request \<Rightarrow> bytes" where
  "request_enc key r = (case encode_request r key of Inl _ \<Rightarrow> [] | Inr e \<Rightarrow> e)"

definition request_dec :: "bytes \<Rightarrow> bytes \<Rightarrow> (request \<times> nat) option" where
  "request_dec key b =
     (case decode_request b (\<lambda>_. Some key) of
        Some (Some r, None) \<Rightarrow> Some (r\<lparr>req_raw := []\<rparr>, length (req_raw r))
      | _ \<Rightarrow> None)"

definition request_ok :: "bytes \<Rightarrow> request \<Rightarrow> bool" where
  "request_ok key r = (wf_request r \<and> req_raw r = [] \<and> (\<exists>e. encode_request r key = Inr e))"

interpretation env: codec "request_enc key" "request_dec key" "request_ok key" for key
proof unfold_locales
  fix r rest
  assume "request_ok key r"
  then obtain e where e: "wf_request r" "req_raw r = []" "encode_request r key = Inr e"
    by (auto simp: request_ok_def)
  then show "request_dec key (request_enc key r @ rest) = Some (r, length (request_enc key r))"
    using decode_encoded [OF e(1,3), of "\<lambda>_. Some key" rest]
    by (simp add: request_dec_def request_enc_def)
qed

section \<open>The statements about requests\<close>

text \<open>C37. Round trip of the request envelope: what EncodeRequest produces, followed by any
  further bytes of the stream, decodes to the same request, with no error, under the
  key of its session.\<close>

theorem request_round_trip:
  assumes "wf_request r" and "encode_request r key = Inr e" and "keyFor (req_session r) = Some key"
  shows "decode_request (e @ rest) keyFor = Some (Some (r\<lparr>req_raw := e\<rparr>), None)"
  using assms by (rule decode_encoded)

definition sample_request :: request where
  "sample_request = \<lparr>req_session = replicate 16 7, req_test = ''udp.echo'', req_nonce = replicate 12 9,
     req_seq = 3, req_cookie = Some (replicate 16 1), req_payload = [1, 2, 3], req_raw = []\<rparr>"

lemma sample_session: "req_session sample_request = replicate 16 7"
  by (simp add: sample_request_def)

lemma sample_request_ok:
  "wf_request sample_request"
  "encode_request sample_request [5] = Inr (request_body sample_request @ mac [5] (request_body sample_request))"
  by (simp_all add: wf_request_def sample_request_def encode_request_Inr)

theorem request_round_trip_witness:
  "decode_request ((request_body sample_request @ mac [5] (request_body sample_request)) @ [0, 1]) (\<lambda>_. Some [5])
     = Some (Some (sample_request\<lparr>req_raw := request_body sample_request @ mac [5] (request_body sample_request)\<rparr>), None)"
  by (rule request_round_trip [OF sample_request_ok]) simp

text \<open>C1. Authenticity: DecodeRequest reports no error only for a prefix of the input that ends
  in the HMAC tag of everything before it, under the key the server holds for the session
  id inside the tagged bytes.\<close>

theorem decoded_request_is_authentic:
  assumes "decode_request b keyFor = Some (Some r, None)"
  shows "\<exists>key msg. keyFor (req_session r) = Some key \<and> req_raw r = msg @ mac key msg
           \<and> take 16 (drop 6 msg) = req_session r \<and> has_prefix b (req_raw r)"
proof -
  have env: "is_envelope b" "b ! 4 = KindRequest"
    using assms by (auto simp: decode_request_def split: if_splits)
  then obtain tot where tot: "request_len b = Some (tot, tot)" "0 < tot" "tot \<le> length b"
    using assms by (cases rule: request_len_cases [of b]) (auto simp: decode_request_def)
  define B where "B = take tot b"
  have r: "r = request_fields B" and v: "tag_verdict B keyFor = None"
    using assms decode_request_eq [OF env tot(1,2), of keyFor] by (simp_all add: B_def)
  then obtain key where key: "keyFor (take 16 (drop 6 B)) = Some key"
      "drop (length B - 16) B = mac key (take (length B - 16) B)"
    by (auto simp: tag_verdict_def split: option.splits if_splits)
  have "length B = tot" "55 \<le> length B"
    using tot request_len_total [OF tot(1,2)] by (simp_all add: B_def fixed_end_def)
  then have "take 16 (drop 6 (take (length B - 16) B)) = take 16 (drop 6 B)"
    by (simp add: drop_take)
  moreover have "B = take (length B - 16) B @ mac key (take (length B - 16) B)"
    using key(2) by (metis append_take_drop_id)
  moreover have "has_prefix b B"
    using tot(3) by (simp add: has_prefix_def B_def)
  ultimately show ?thesis
    using key(1) r by (intro exI [of _ key] exI [of _ "take (length B - 16) B"]) (simp add: request_fields_def)
qed

theorem decoded_request_is_authentic_witness:
  "\<exists>key msg. (Some :: bytes \<Rightarrow> bytes option) (replicate 16 7) = Some key
     \<and> request_enc (replicate 16 7) sample_request = msg @ mac key msg
     \<and> take 16 (drop 6 msg) = replicate 16 7
     \<and> has_prefix (request_enc (replicate 16 7) sample_request) (request_enc (replicate 16 7) sample_request)"
proof -
  define e where "e = request_enc (replicate 16 7) sample_request"
  have enc: "encode_request sample_request (replicate 16 7) = Inr e"
    by (simp add: e_def request_enc_def encode_request_def sample_request_def Let_def)
  have d: "decode_request e Some = Some (Some (sample_request\<lparr>req_raw := e\<rparr>), None)"
    using decode_encoded [OF sample_request_ok(1) enc, of Some "[]"] by (simp add: sample_session)
  from decoded_request_is_authentic [OF d] show ?thesis
    by (simp add: sample_session flip: e_def)
qed


text \<open>Framing: on a proper prefix of an encoded request RequestLen asks for more bytes than
  are there, but never for more than the request has, so a reader that follows it reads
  exactly one envelope from a stream and stops.\<close>

theorem request_len_frames_the_stream:
  assumes "wf_request r" and "encode_request r key = Inr e" and "n < length e"
  shows "\<exists>need. request_len (take n e) = Some (0, need) \<and> n < need \<and> need \<le> length e"
proof -
  note lay = request_body_layout [OF assms(1,2), of e "[]", simplified]
  have pl: "unat (word_of_nat (length (req_payload r)) :: 16 word) = length (req_payload r)"
    using assms(2) by (simp add: encode_request_Inr unat_word_of_nat_16)
  define o2 where "o2 = fixed_end e"
  have len: "length e = o2 + 2 + length (req_payload r) + 16"
    using lay by (simp add: o2_def)
  have o2: "o2 = 39 + unat (e ! 22) + cookie_len e" by (simp add: o2_def fixed_end_def)
  consider "n < 23" | "23 \<le> n" "n < o2 + 2" | "o2 + 2 \<le> n" by linarith
  then show ?thesis
  proof cases
    case 1
    then show ?thesis using assms(3) len o2 by (simp add: request_len_def)
  next
    case 2
    then have "take n e ! 22 = e ! 22" "take n e ! 5 = e ! 5" by auto
    with 2 assms(3) len o2 show ?thesis
      by (auto simp: request_len_def go_defs Let_def cookie_len_def split: if_splits)
  next
    case 3
    then have n: "take n e ! 22 = e ! 22" "take n e ! 5 = e ! 5" "23 \<le> n" using o2 by auto
    have "take 2 (drop o2 (take n e)) = take 2 (drop o2 e)" using 3 by (simp add: drop_take)
    then have w: "u16 (take n e) o2 = Some (word_of_nat (length (req_payload r)))"
      using 3 lay assms(3) by (simp add: go_defs o2_def min_absorb2)
    have "request_len (take n e) = Some (0, length e)"
      using 3 n w pl assms(3) len o2
      by (simp add: request_len_def go_defs Let_def add.assoc flip: cookie_len_def)
    with assms(3) show ?thesis by simp
  qed
qed

theorem request_len_frames_the_stream_witness:
  "\<exists>need. request_len (take 30 (request_body sample_request @ mac [5] (request_body sample_request))) = Some (0, need)
     \<and> 30 < need \<and> need \<le> length (request_body sample_request @ mac [5] (request_body sample_request))"
  using request_len_frames_the_stream [OF sample_request_ok, of 30]
  by (simp add: request_body_def sample_request_def env_consts)

text \<open>PeekRequest attributes a cut request: on the first n bytes of an encoded request it
  returns exactly the identity fields that are complete within those n bytes (zero
  values for the rest) and their count.\<close>

theorem peek_request_reads_complete_fields:
  assumes "wf_request r" and "encode_request r key = Inr e" and "n \<le> length e"
  shows "peek_request (take n e) = Some
     (if n < 22 then (zero_sid, [], zero_nonce, 0)
      else if n < 23 + length (req_test r) then (req_session r, [], zero_nonce, 1)
      else if n < 35 + length (req_test r) then (req_session r, req_test r, zero_nonce, 2)
      else (req_session r, req_test r, req_nonce r, 3))"
proof (cases "n < 22")
  case True
  then show ?thesis using assms(3) by (auto simp: peek_request_def)
next
  case False
  note lay = request_body_layout [OF assms(1,2), of e "[]", simplified]
  have n: "take n e ! 22 = e ! 22" if "23 \<le> n" using that by simp
  have m: "min (length e) n = n" using assms(3) by simp
  have k: "take n e ! 4 = e ! 4" "take n e ! 3 = e ! 3" "take 3 (take n e) = take 3 e"
    using False by auto
  have env: "is_envelope (take n e)" "take n e ! 4 = KindRequest"
    using False lay(1,2) k assms(3) by (simp_all add: is_envelope_def has_prefix_def Magic_def min_def)
  have t: "take a (drop d (take n e)) = take a (drop d e)" if "d + a \<le> n" for a d
    using that by (simp add: drop_take)
  have s1: "slc (take n e) 6 22 = Some (req_session r)"
    using False m lay(7) t [of 6 16] by (simp add: slc_def)
  have s2: "slc (take n e) 23 (23 + length (req_test r)) = Some (bytes_of (req_test r))"
    if "23 + length (req_test r) \<le> n"
    using that m lay(8) t [of 23 "length (req_test r)"] by (simp add: slc_def)
  have s3: "slc (take n e) (23 + length (req_test r)) (23 + length (req_test r) + 12) = Some (req_nonce r)"
    if "35 + length (req_test r) \<le> n"
    using that m lay(9) t [of "23 + length (req_test r)" 12] by (simp add: slc_def)
  show ?thesis
    using False env m n lay(4) s1 s2 s3
    by (auto simp: peek_request_def go_defs)
qed

theorem peek_request_reads_complete_fields_witness:
  "peek_request (take 33 (request_body sample_request @ mac [5] (request_body sample_request)))
     = Some (replicate 16 7, ''udp.echo'', zero_nonce, 2)"
proof -
  have n: "33 \<le> length (request_body sample_request @ mac [5] (request_body sample_request))"
    by (simp add: request_body_def sample_request_def env_consts)
  show ?thesis
    using peek_request_reads_complete_fields [OF sample_request_ok n] by (simp add: sample_request_def)
qed

section \<open>The statements about replies\<close>

definition wf_reply_source :: "request \<Rightarrow> bool" where
  "wf_reply_source r = (wf_request r \<and> length (req_test r) \<le> 255)"

definition in_int64 :: "int \<Rightarrow> bool" where
  "in_int64 t = (- (2 ^ 63) \<le> t \<and> t < 2 ^ 63)"

lemma sint_unix_nano: "in_int64 t \<Longrightarrow> sint (unix_nano t) = t"
  by (simp add: in_int64_def unix_nano_def sint_sbintrunc' signed_take_bit_int_eq_self)

lemma length_encode_reply:
  "wf_request r \<Longrightarrow> length (encode_reply r s t key) = 105 + length (req_test r)"
  by (simp add: encode_reply_def reply_body_def wf_request_def Magic_def Let_def)

lemma reply_len_total: "reply_len b \<noteq> None"
  by (auto simp: reply_len_def go_defs Let_def)

lemma reply_len_cases:
  obtains need where "reply_len b = Some (0, need)" "length b < need"
  | tot where "reply_len b = Some (tot, tot)" "0 < tot" "tot \<le> length b" "tot = 105 + unat (b ! 22)"
  by (atomize_elim, cases "length b < 23")
     (auto simp: reply_len_def go_defs Let_def not_less)

lemma decode_reply_eq:
  assumes env: "is_envelope b0" "b0 ! 4 = KindReply" and len: "105 + unat (b0 ! 22) \<le> length b0"
  defines "m \<equiv> unat (b0 ! 22)" and "B \<equiv> take (105 + unat (b0 ! 22)) b0"
  shows "decode_reply b0 key = Some (Some
     \<lparr>rep_session = take 16 (drop 6 B), rep_test = str_of (take m (drop 23 B)),
      rep_nonce = take 12 (drop (23 + m) B), rep_seq = word_of_nat (be_nat (take 4 (drop (35 + m) B))),
      rep_recv_len = word_of_nat (be_nat (take 2 (drop (39 + m) B))), rep_sha = take 32 (drop (41 + m) B),
      rep_seen_at = sint (word_of_nat (be_nat (take 8 (drop (73 + m) B))) :: 64 word),
      rep_replied_at = sint (word_of_nat (be_nat (take 8 (drop (81 + m) B))) :: 64 word)\<rparr>,
     if drop (89 + m) B \<noteq> mac key (take (89 + m) B) then Some ErrBadMAC else None)"
proof -
  have lB: "length B = 105 + m" and tot: "reply_len b0 = Some (105 + m, 105 + m)"
    using len by (simp_all add: B_def m_def reply_len_def go_defs Let_def)
  have b22: "B ! 22 = b0 ! 22" by (simp add: B_def)
  have s: "slc b0 0 (105 + m) = Some B" using len by (simp add: slc_def B_def m_def)
  show ?thesis
    using env lB b22
    by (simp add: decode_reply_def tot s go_defs Let_def flip: m_def)
qed

lemma decode_reply_total: "decode_reply b key \<noteq> None"
proof (cases rule: reply_len_cases [of b])
  case (1 need)
  then show ?thesis by (simp add: decode_reply_def)
next
  case (2 tot)
  show ?thesis
  proof (cases "is_envelope b \<and> b ! 4 = KindReply")
    case True
    with 2 show ?thesis by (simp add: decode_reply_eq)
  qed (auto simp: decode_reply_def)
qed


lemma reply_layout:
  assumes wf: "wf_reply_source r" and b: "b = encode_reply r s t key @ rest"
  defines "n \<equiv> length (req_test r)"
  shows "is_envelope b" "b ! 4 = KindReply" "unat (b ! 22) = n"
    "take (105 + n) b = encode_reply r s t key"
    "take 16 (drop 6 b) = req_session r" "take n (drop 23 b) = bytes_of (req_test r)"
    "take 12 (drop (23 + n) b) = req_nonce r" "take 4 (drop (35 + n) b) = be32 (req_seq r)"
    "take 2 (drop (39 + n) b) = be16 (word_of_nat (length (req_payload r)))"
    "take 32 (drop (41 + n) b) = sha256 (req_payload r)"
    "take 8 (drop (73 + n) b) = be64 (unix_nano s)" "take 8 (drop (81 + n) b) = be64 (unix_nano t)"
    "take (89 + n) b = reply_body r s t" "take 16 (drop (89 + n) b) = mac key (reply_body r s t)"
proof -
  have L: "length (req_session r) = 16" "length (req_nonce r) = 12" "n \<le> 255"
    using wf by (auto simp: wf_reply_source_def wf_request_def n_def)
  have u: "unat (word_of_nat n :: byte) = n"
    using L(3) by (simp add: unat_word_of_nat_8)
  have lb: "length (reply_body r s t) = 89 + n"
    by (simp add: reply_body_def L n_def Magic_def)
  have b': "b = reply_body r s t @ mac key (reply_body r s t) @ rest"
    by (simp add: b encode_reply_def Let_def)
  show "take (105 + n) b = encode_reply r s t key" "take (89 + n) b = reply_body r s t"
    "take 16 (drop (89 + n) b) = mac key (reply_body r s t)"
    using lb by (simp_all add: b' encode_reply_def Let_def)
  note body = b' reply_body_def env_consts
  show "is_envelope b" "b ! 4 = KindReply" "unat (b ! 22) = n"
    using u by (simp_all add: body is_envelope_def has_prefix_def L nth_append n_def)
  show "take 16 (drop 6 b) = req_session r" "take n (drop 23 b) = bytes_of (req_test r)"
    "take 12 (drop (23 + n) b) = req_nonce r" "take 4 (drop (35 + n) b) = be32 (req_seq r)"
    "take 2 (drop (39 + n) b) = be16 (word_of_nat (length (req_payload r)))"
    "take 32 (drop (41 + n) b) = sha256 (req_payload r)"
    "take 8 (drop (73 + n) b) = be64 (unix_nano s)" "take 8 (drop (81 + n) b) = be64 (unix_nano t)"
    by (simp_all add: body L n_def drop_Cons')
qed

text \<open>Round trip of the reply: the client decodes from EncodeReply's bytes, under the session
  key and whatever follows on the stream, the identity of its request, the length and
  SHA-256 of the payload the server received, and both server times, for times an int64 of
  nanoseconds can hold.\<close>

theorem reply_round_trip:
  assumes "wf_reply_source r" and "in_int64 seen" and "in_int64 replied"
  shows "decode_reply (encode_reply r seen replied key @ rest) key = Some (Some
     \<lparr>rep_session = req_session r, rep_test = req_test r, rep_nonce = req_nonce r, rep_seq = req_seq r,
      rep_recv_len = word_of_nat (length (req_payload r)), rep_sha = sha256 (req_payload r),
      rep_seen_at = seen, rep_replied_at = replied\<rparr>, None)"
proof -
  define e where "e = encode_reply r seen replied key"
  note lay = reply_layout [OF assms(1), of "e @ rest" seen replied key rest, folded e_def, OF refl]
  note lay0 = reply_layout [OF assms(1), of e seen replied key "[]", folded e_def, simplified]
  have len: "length e = 105 + length (req_test r)"
    using assms(1) by (simp add: e_def length_encode_reply wf_reply_source_def)
  have d: "drop (89 + length (req_test r)) e = mac key (reply_body r seen replied)"
    using lay0(14) len by simp
  show ?thesis
    unfolding e_def [symmetric]
    by (subst decode_reply_eq) (use lay lay0 d len assms(2,3) in \<open>simp_all add: sint_unix_nano\<close>)
qed

theorem reply_round_trip_witness:
  "decode_reply (encode_reply sample_request 1700000000000000000 1700000000000500000 [5] @ [9]) [5] = Some (Some
     \<lparr>rep_session = replicate 16 7, rep_test = ''udp.echo'', rep_nonce = replicate 12 9, rep_seq = 3,
      rep_recv_len = 3, rep_sha = sha256 [1, 2, 3],
      rep_seen_at = 1700000000000000000, rep_replied_at = 1700000000000500000\<rparr>, None)"
proof -
  have h: "wf_reply_source sample_request" "in_int64 1700000000000000000" "in_int64 1700000000000500000"
    by (simp_all add: wf_reply_source_def wf_request_def sample_request_def in_int64_def)
  show ?thesis using reply_round_trip [OF h, of "[5]" "[9]"] by (simp add: sample_request_def)
qed

text \<open>C40. Size of the UDP echo: the reply to a request that carries its cookie exceeds the request
  by 32 bytes less the payload, so the echo is an amplifier (by at most 32 bytes) exactly
  for payloads shorter than 32 bytes.\<close>

theorem echo_reply_size:
  assumes "wf_request r" and "encode_request r key = Inr e" and "req_cookie r \<noteq> None"
  shows "length (encode_reply r seen replied key) + length (req_payload r) = length e + 32
         \<and> (length e < length (encode_reply r seen replied key) \<longleftrightarrow> length (req_payload r) < 32)"
proof -
  have "length e = 73 + length (req_test r) + length (req_payload r)"
    using request_body_layout(14) [OF assms(1,2) refl [of "e @ []"]] assms(2,3)
    by (auto simp: encode_request_Inr)
  then show ?thesis using assms(1) by (simp add: length_encode_reply)
qed

theorem echo_reply_size_witness:
  "length (request_body sample_request @ mac [5] (request_body sample_request))
     < length (encode_reply sample_request 1 2 [5])"
proof -
  have "req_cookie sample_request \<noteq> None" "length (req_payload sample_request) < 32"
    by (simp_all add: sample_request_def)
  then show ?thesis using echo_reply_size [OF sample_request_ok, of 1 2] by simp
qed

text \<open>No byte string makes the envelope parsers panic: every index and slice expression of
  RequestLen, PeekRequest, DecodeRequest, ReplyLen and DecodeReply is in range on every input,
  whatever key lookup or key the caller supplies.\<close>

theorem envelope_parsers_never_panic:
  "request_len b \<noteq> None \<and> peek_request b \<noteq> None \<and> decode_request b keyFor \<noteq> None
   \<and> reply_len b \<noteq> None \<and> decode_reply b key \<noteq> None"
  using peek_request_total decode_request_total reply_len_total decode_reply_total
  by (cases rule: request_len_cases [of b]) auto

end
