(* ===== verification/Evidence.thy ===== *)
theory Evidence
  imports Probe_Prelude
begin

text \<open>
  The two halves of the evidence for one flow: the server's \<open>Observation\<close>
  (\<open>internal/model/model.go\<close>) and the client's \<open>Attempt\<close> (\<open>internal/client/attempt.go\<close>), with the
  constants both sides use. Detail maps are partial functions read with Go's zero value
  (\<open>lookup_str\<close>); \<open>time.Time\<close> values are nanoseconds, with Go's zero time as a constant;
  \<open>float64\<close> stage marks in milliseconds are rationals (their arithmetic here is exact).
\<close>

section \<open>Times\<close>

text \<open>The zero \<open>time.Time\<close> is the first of January of year 1.\<close>

definition zero_time :: time where "zero_time = - 62135596800000000000"

abbreviation is_zero_time :: "time \<Rightarrow> bool" where "is_zero_time t \<equiv> t = zero_time"

abbreviation msec :: "int \<Rightarrow> duration" where "msec n \<equiv> n * 1000000"
abbreviation sec :: "int \<Rightarrow> duration" where "sec n \<equiv> n * 1000000000"

text \<open>\<open>Time.Sub\<close> saturates at the range of \<open>Duration\<close>, an \<open>int64\<close>.\<close>

definition sub_time :: "time \<Rightarrow> time \<Rightarrow> duration" where
  "sub_time a b = max (- (2 ^ 63)) (min (2 ^ 63 - 1) (a - b))"

section \<open>Observations\<close>

type_synonym detail = "string \<rightharpoonup> string"

record observation =
  obs_id :: string
  obs_session :: string
  obs_attempt :: string
  obs_test :: string
  obs_nonce :: string
  obs_seq :: "32 word"
  obs_transport :: string
  obs_dst_port :: int
  obs_src_port :: int
  obs_first_seen :: time
  obs_replied_at :: "time option"
  obs_closed_at :: "time option"
  obs_bytes_in :: int
  obs_bytes_out :: int
  obs_payload_sha :: string
  obs_parse :: string
  obs_detail :: detail
  obs_response :: string
  obs_close :: string
  obs_server_error :: string
  obs_unmatched :: bool

definition zero_observation :: observation where
  "zero_observation = \<lparr>obs_id = [], obs_session = [], obs_attempt = [], obs_test = [], obs_nonce = [],
     obs_seq = 0, obs_transport = [], obs_dst_port = 0, obs_src_port = 0, obs_first_seen = zero_time,
     obs_replied_at = None, obs_closed_at = None, obs_bytes_in = 0, obs_bytes_out = 0,
     obs_payload_sha = [], obs_parse = [], obs_detail = Map.empty, obs_response = [], obs_close = [],
     obs_server_error = [], obs_unmatched = False\<rparr>"

definition obs_det :: "observation \<Rightarrow> string \<Rightarrow> string" where
  "obs_det ob k = lookup_str (obs_detail ob) k"

definition ParseEnvelope :: string where "ParseEnvelope = ''cp1_envelope''"
definition ParseTLS :: string where "ParseTLS = ''tls_client_hello''"
definition ParseHTTP :: string where "ParseHTTP = ''http_request''"
definition ParseDNS :: string where "ParseDNS = ''dns_query''"
definition ParseOpenVPN :: string where "ParseOpenVPN = ''openvpn_reset''"
definition ParseWireGuard :: string where "ParseWireGuard = ''wireguard_initiation''"
definition ParseOpenVPNControl :: string where "ParseOpenVPNControl = ''openvpn_control''"
definition ParseOpenVPNData :: string where "ParseOpenVPNData = ''openvpn_data''"
definition ParseWireGuardData :: string where "ParseWireGuardData = ''wireguard_data''"
definition ParseIKE :: string where "ParseIKE = ''ikev2''"
definition ParseESP :: string where "ParseESP = ''esp_udp''"
definition ParseL2TP :: string where "ParseL2TP = ''l2tp_control''"
definition ParseL2TPData :: string where "ParseL2TPData = ''l2tp_data''"
definition ParseSOCKS5 :: string where "ParseSOCKS5 = ''socks5''"
definition ParseVLESS :: string where "ParseVLESS = ''vless''"
definition ParseQUIC :: string where "ParseQUIC = ''quic''"
definition ParseDTLS :: string where "ParseDTLS = ''dtls_client_hello''"
definition ParseSTUN :: string where "ParseSTUN = ''stun_binding''"
definition ParseObfs4 :: string where "ParseObfs4 = ''obfs4_handshake''"
definition ParseUnknown :: string where "ParseUnknown = ''unknown''"
definition ParseEmpty :: string where "ParseEmpty = ''empty''"

lemmas parse_kinds = ParseEnvelope_def ParseTLS_def ParseHTTP_def ParseDNS_def ParseOpenVPN_def
  ParseWireGuard_def ParseOpenVPNControl_def ParseOpenVPNData_def ParseWireGuardData_def ParseIKE_def
  ParseESP_def ParseL2TP_def ParseL2TPData_def ParseSOCKS5_def ParseVLESS_def ParseQUIC_def ParseDTLS_def
  ParseSTUN_def ParseObfs4_def ParseUnknown_def ParseEmpty_def

section \<open>Attempts\<close>

definition OutcomeOK :: string where "OutcomeOK = ''ok''"
definition OutcomeConnectTimeout :: string where "OutcomeConnectTimeout = ''connect_timeout''"
definition OutcomeConnectRefused :: string where "OutcomeConnectRefused = ''connect_refused''"
definition OutcomeConnectReset :: string where "OutcomeConnectReset = ''connect_reset''"
definition OutcomePayloadTimeout :: string where "OutcomePayloadTimeout = ''payload_timeout''"
definition OutcomeMidstreamReset :: string where "OutcomeMidstreamReset = ''midstream_reset''"
definition OutcomeMidstreamEOF :: string where "OutcomeMidstreamEOF = ''midstream_eof''"
definition OutcomeTLSAlert :: string where "OutcomeTLSAlert = ''tls_alert''"
definition OutcomeTLSParse :: string where "OutcomeTLSParse = ''tls_parse_failure''"
definition OutcomeTLSSpoof :: string where "OutcomeTLSSpoof = ''tls_spoof''"
definition OutcomeBulkStall :: string where "OutcomeBulkStall = ''bulk_stall''"
definition OutcomeBulkReset :: string where "OutcomeBulkReset = ''bulk_reset''"
definition OutcomeSessionCut :: string where "OutcomeSessionCut = ''session_cut''"
definition OutcomePacketsCut :: string where "OutcomePacketsCut = ''packets_cut''"
definition OutcomeBurstFreeze :: string where "OutcomeBurstFreeze = ''burst_freeze''"
definition OutcomeCertMismatch :: string where "OutcomeCertMismatch = ''cert_mismatch''"
definition OutcomeHTTPLegalBlock :: string where "OutcomeHTTPLegalBlock = ''http_legal_block''"
definition OutcomeModified :: string where "OutcomeModified = ''modified''"
definition OutcomeUnexpected :: string where "OutcomeUnexpected = ''unexpected_response''"
definition OutcomeDNSTimeout :: string where "OutcomeDNSTimeout = ''dns_timeout''"
definition OutcomeDNSRcode :: string where "OutcomeDNSRcode = ''dns_rcode''"
definition OutcomeDNSMismatch :: string where "OutcomeDNSMismatch = ''dns_answer_mismatch''"
definition OutcomeQUICNoResponse :: string where "OutcomeQUICNoResponse = ''quic_no_response''"
definition OutcomeQUICHandshake :: string where "OutcomeQUICHandshake = ''quic_handshake_failure''"
definition OutcomeServerError :: string where "OutcomeServerError = ''server_error''"
definition OutcomeInconclusive :: string where "OutcomeInconclusive = ''inconclusive''"
definition OutcomeSkipped :: string where "OutcomeSkipped = ''skipped''"

lemmas outcomes = OutcomeOK_def OutcomeConnectTimeout_def OutcomeConnectRefused_def OutcomeConnectReset_def
  OutcomePayloadTimeout_def OutcomeMidstreamReset_def OutcomeMidstreamEOF_def OutcomeTLSAlert_def
  OutcomeTLSParse_def OutcomeTLSSpoof_def OutcomeBulkStall_def OutcomeBulkReset_def OutcomeSessionCut_def
  OutcomePacketsCut_def OutcomeBurstFreeze_def OutcomeCertMismatch_def OutcomeHTTPLegalBlock_def
  OutcomeModified_def OutcomeUnexpected_def OutcomeDNSTimeout_def OutcomeDNSRcode_def OutcomeDNSMismatch_def
  OutcomeQUICNoResponse_def OutcomeQUICHandshake_def OutcomeServerError_def OutcomeInconclusive_def
  OutcomeSkipped_def

text \<open>The outcomes are pairwise different, in both orientations for the simplifier.\<close>

lemma outcomes_distinct:
  "distinct
    [OutcomeOK, OutcomeConnectTimeout, OutcomeConnectRefused, OutcomeConnectReset, OutcomePayloadTimeout,
     OutcomeMidstreamReset, OutcomeMidstreamEOF, OutcomeTLSAlert, OutcomeTLSParse, OutcomeTLSSpoof,
     OutcomeBulkStall, OutcomeBulkReset, OutcomeSessionCut, OutcomePacketsCut, OutcomeBurstFreeze,
     OutcomeCertMismatch, OutcomeHTTPLegalBlock, OutcomeModified, OutcomeUnexpected, OutcomeDNSTimeout,
     OutcomeDNSRcode, OutcomeDNSMismatch, OutcomeQUICNoResponse, OutcomeQUICHandshake,
     OutcomeServerError, OutcomeInconclusive, OutcomeSkipped]"
  "distinct
    [OutcomeSkipped, OutcomeInconclusive, OutcomeServerError, OutcomeQUICHandshake,
     OutcomeQUICNoResponse, OutcomeDNSMismatch, OutcomeDNSRcode, OutcomeDNSTimeout, OutcomeUnexpected,
     OutcomeModified, OutcomeHTTPLegalBlock, OutcomeCertMismatch, OutcomeBurstFreeze, OutcomePacketsCut,
     OutcomeSessionCut, OutcomeBulkReset, OutcomeBulkStall, OutcomeTLSSpoof, OutcomeTLSParse,
     OutcomeTLSAlert, OutcomeMidstreamEOF, OutcomeMidstreamReset, OutcomePayloadTimeout,
     OutcomeConnectReset, OutcomeConnectRefused, OutcomeConnectTimeout, OutcomeOK]"
  by (simp_all add: outcomes)

lemmas outcome_neq [simp] = outcomes_distinct [simplified]

definition RoleBaseline :: string where "RoleBaseline = ''baseline''"
definition RoleVariant :: string where "RoleVariant = ''variant''"
definition RoleControl :: string where "RoleControl = ''control''"

lemmas roles = RoleBaseline_def RoleVariant_def RoleControl_def

record attempt =
  at_id :: string
  at_test :: string
  at_group :: string
  at_role :: string
  at_variant :: string
  at_transport :: string
  at_dst_port :: int
  at_src_port :: int
  at_round :: int
  at_started :: time
  at_stages :: "string \<rightharpoonup> rat"
  at_outcome :: string
  at_error :: string
  at_bytes_out :: int
  at_bytes_in :: int
  at_nonce :: string
  at_attempt_id :: string
  at_detail :: detail
  at_server :: "observation option"
  at_merged :: string
  at_nonces :: "string list"

definition det :: "attempt \<Rightarrow> string \<Rightarrow> string" where
  "det a k = lookup_str (at_detail a) k"

definition set_det :: "string \<Rightarrow> string \<Rightarrow> attempt \<Rightarrow> attempt" where
  "set_det k v a = a\<lparr>at_detail := (at_detail a)(k \<mapsto> v)\<rparr>"

lemma det_set_det [simp]: "det (set_det k v a) j = (if j = k then v else det a j)"
  by (simp add: det_def set_det_def)

lemma set_det_other [simp]:
  "at_test (set_det k v a) = at_test a" "at_outcome (set_det k v a) = at_outcome a"
  "at_server (set_det k v a) = at_server a" "at_stages (set_det k v a) = at_stages a"
  "at_transport (set_det k v a) = at_transport a" "at_dst_port (set_det k v a) = at_dst_port a"
  "at_variant (set_det k v a) = at_variant a" "at_merged (set_det k v a) = at_merged a"
  "at_error (set_det k v a) = at_error a" "at_started (set_det k v a) = at_started a"
  "at_role (set_det k v a) = at_role a" "at_nonce (set_det k v a) = at_nonce a"
  "at_attempt_id (set_det k v a) = at_attempt_id a" "at_src_port (set_det k v a) = at_src_port a"
  "at_round (set_det k v a) = at_round a" "at_nonces (set_det k v a) = at_nonces a"
  by (simp_all add: set_det_def)

definition stage :: "attempt \<Rightarrow> string \<Rightarrow> rat" where
  "stage a k = (case at_stages a k of None \<Rightarrow> 0 | Some v \<Rightarrow> v)"

definition zero_attempt :: attempt where
  "zero_attempt = \<lparr>at_id = [], at_test = [], at_group = [], at_role = [], at_variant = [], at_transport = [],
     at_dst_port = 0, at_src_port = 0, at_round = 0, at_started = zero_time, at_stages = Map.empty,
     at_outcome = [], at_error = [], at_bytes_out = 0, at_bytes_in = 0, at_nonce = [], at_attempt_id = [],
     at_detail = Map.empty, at_server = None, at_merged = [], at_nonces = []\<rparr>"

text \<open>\<open>handshakeTestOf\<close>, which \<open>internal/client/plan.go\<close> and \<open>internal/classify/helpers.go\<close> both define:
  the handshake-only control of a session test, empty when there is none.\<close>

definition handshakeTestOf :: "string \<Rightarrow> string" where
  "handshakeTestOf t =
     (if t = ''wireguard.session'' then ''wireguard.init''
      else if t = ''openvpn.session'' then ''openvpn.reset''
      else if t = ''ikev2.session'' then ''ikev2.init''
      else if t = ''l2tp.session'' then ''l2tp.init''
      else if t = ''socks5.session'' then ''socks5.connect''
      else if t = ''vless.session'' then ''vless.reality''
      else if t = ''tor.link'' then ''tor.handshake''
      else if t = ''obfs4.session'' then ''obfs4.handshake''
      else '''')"

end
