(* ===== verification/Token.thy ===== *)
theory Token
  imports Envelope Evidence
begin

text \<open>
  Session identity (\<open>internal/proto/token.go\<close>): session ids, the per-session envelope key, the bearer
  token of the control API and the UDP cookie, with the parts of \<open>net/netip\<close> and
  \<open>encoding/base64\<close> (the unpadded URL alphabet) they use. The lemmas show that base64 decoding
  inverts encoding, that an issued token verifies until its expiry and not after, and that a
  token is accepted only with a valid tag.
\<close>

section \<open>Addresses\<close>

text \<open>A \<open>netip.Addr\<close>: the zero value, an IPv4 address, or an IPv6 address with its zone.\<close>

datatype addr = AddrZero | Addr4 "32 word" | Addr6 "128 word" string

definition Is4 :: "addr \<Rightarrow> bool" where
  "Is4 a = (case a of Addr4 _ \<Rightarrow> True | _ \<Rightarrow> False)"

definition Is6 :: "addr \<Rightarrow> bool" where
  "Is6 a = (case a of Addr6 _ _ \<Rightarrow> True | _ \<Rightarrow> False)"

definition Is4In6 :: "addr \<Rightarrow> bool" where
  "Is4In6 a = (case a of Addr6 w _ \<Rightarrow> drop_bit 32 w = 65535 | _ \<Rightarrow> False)"

definition Unmap :: "addr \<Rightarrow> addr" where
  "Unmap a = (case a of Addr6 w _ \<Rightarrow> if Is4In6 a then Addr4 (ucast w) else a | _ \<Rightarrow> a)"

definition AsSlice :: "addr \<Rightarrow> bytes" where
  "AsSlice a = (case a of AddrZero \<Rightarrow> [] | Addr4 w \<Rightarrow> be32 w | Addr6 w _ \<Rightarrow> be_bytes 16 (unat w))"

lemma Unmap_not_mapped [simp]: "\<not> Is4In6 (Unmap a)"
  by (auto simp: Unmap_def Is4In6_def split: addr.splits)

lemma Unmap_idem [simp]: "Unmap (Unmap a) = Unmap a"
  by (cases a) (auto simp: Unmap_def Is4In6_def)

section \<open>Base64, unpadded URL alphabet\<close>

definition b64_char :: "nat \<Rightarrow> char" where
  "b64_char v =
     (if v < 26 then char_of (65 + v) else if v < 52 then char_of (71 + v)
      else if v < 62 then char_of (v - 4) else if v = 62 then CHR ''-'' else CHR ''_'')"

definition b64_val :: "char \<Rightarrow> nat option" where
  "b64_val c =
     (let n = (of_char c :: nat)
      in if 65 \<le> n \<and> n \<le> 90 then Some (n - 65)
         else if 97 \<le> n \<and> n \<le> 122 then Some (n - 71)
         else if 48 \<le> n \<and> n \<le> 57 then Some (n + 4)
         else if n = 45 then Some 62
         else if n = 95 then Some 63
         else None)"

fun b64_sextets :: "nat list \<Rightarrow> nat list" where
  "b64_sextets (a # b # c # r) =
     [a div 4, (a mod 4) * 16 + b div 16, (b mod 16) * 4 + c div 64, c mod 64] @ b64_sextets r"
| "b64_sextets [a, b] = [a div 4, (a mod 4) * 16 + b div 16, (b mod 16) * 4]"
| "b64_sextets [a] = [a div 4, (a mod 4) * 16]"
| "b64_sextets [] = []"

text \<open>Trailing bits of a short last group are ignored, a last group of one character is an error.\<close>

fun b64_octets :: "nat list \<Rightarrow> nat list option" where
  "b64_octets (p # q # r # s # t) =
     map_option (\<lambda>o'. [p * 4 + q div 16, (q mod 16) * 16 + r div 4, (r mod 4) * 64 + s] @ o') (b64_octets t)"
| "b64_octets [p, q, r] = Some [p * 4 + q div 16, (q mod 16) * 16 + r div 4]"
| "b64_octets [p, q] = Some [p * 4 + q div 16]"
| "b64_octets [p] = None"
| "b64_octets [] = Some []"

definition b64_encode :: "bytes \<Rightarrow> string" where
  "b64_encode b = map b64_char (b64_sextets (map unat b))"

definition b64_decode :: "string \<Rightarrow> bytes option" where
  "b64_decode s =
     do { vs \<leftarrow> those (map b64_val (List.filter (\<lambda>c. c \<noteq> CHR 0x0A \<and> c \<noteq> CHR 0x0D) s));
          os \<leftarrow> b64_octets vs;
          Some (map word_of_nat os) }"

lemma b64_char_props:
  assumes "v < 64"
  shows "b64_val (b64_char v) = Some v" "b64_char v \<noteq> CHR 0x0A" "b64_char v \<noteq> CHR 0x0D"
proof -
  have "b64_char v \<noteq> c" if "of_char c < (45 :: nat)" for c
    using assms that by (auto simp: b64_char_def of_char_of)
  then show "b64_char v \<noteq> CHR 0x0A" "b64_char v \<noteq> CHR 0x0D"
    by simp_all
  show "b64_val (b64_char v) = Some v"
    using assms by (auto simp: b64_val_def b64_char_def of_char_of Let_def)
qed

lemma b64_sextets_bound: "\<forall>a \<in> set os. a < 256 \<Longrightarrow> \<forall>v \<in> set (b64_sextets os). v < 64"
  by (induction os rule: b64_sextets.induct) auto

lemma b64_octets_sextets: "\<forall>a \<in> set os. a < 256 \<Longrightarrow> b64_octets (b64_sextets os) = Some os"
proof (induction os rule: b64_sextets.induct)
  case (1 a b c r)
  have "((b mod 16) * 4 + c div 64) div 4 = b mod 16" "((b mod 16) * 4 + c div 64) mod 4 = c div 64"
    using 1(2) by auto
  moreover have "((a mod 4) * 16 + b div 16) div 16 = a mod 4" "((a mod 4) * 16 + b div 16) mod 16 = b div 16"
    using 1(2) by auto
  ultimately show ?case using 1 by simp
next
  case (2 a b)
  have "((a mod 4) * 16 + b div 16) div 16 = a mod 4" "((a mod 4) * 16 + b div 16) mod 16 = b div 16"
    using 2 by auto
  then show ?case by simp
qed auto

lemma those_map_Some: "(\<forall>x \<in> set xs. f (g x) = Some x) \<Longrightarrow> those (map (\<lambda>x. f (g x)) xs) = Some xs"
  by (induction xs) auto

lemma b64_decode_encode: "b64_decode (b64_encode b) = Some b"
proof -
  let ?vs = "b64_sextets (map unat b)"
  have bytes: "\<forall>a \<in> set (map unat b). a < 256"
    by (auto intro: unat_byte_less)
  note vs = b64_sextets_bound [OF bytes]
  have "List.filter (\<lambda>c. c \<noteq> CHR 0x0A \<and> c \<noteq> CHR 0x0D) (map b64_char ?vs) = map b64_char ?vs"
    using vs b64_char_props(2,3) by (auto intro!: filter_True)
  moreover have "those (map b64_val (map b64_char ?vs)) = Some ?vs"
    using vs b64_char_props(1) those_map_Some [of ?vs b64_val b64_char] by (simp add: comp_def)
  ultimately have "b64_decode (b64_encode b) = Some (map word_of_nat (map unat b))"
    by (simp add: b64_decode_def b64_encode_def b64_octets_sextets [OF bytes] del: map_map)
  then show ?thesis by (simp add: comp_def)
qed

section \<open>Ids, keys, tokens and cookies\<close>

datatype token_error = BadSessionID | MalformedToken | TokenMACMismatch | TokenExpired

definition ParseSessionID :: "string \<Rightarrow> token_error + bytes" where
  "ParseSessionID s =
     (case hex_decode s of
        None \<Rightarrow> Inl BadSessionID
      | Some b \<Rightarrow> if length b \<noteq> SessionIDLen then Inl BadSessionID else Inr b)"

definition SessionKey :: "bytes \<Rightarrow> bytes \<Rightarrow> bytes" where
  "SessionKey master sid = hmac_sha256 master (bytes_of ''cp1-session-key'' @ sid)"

text \<open>\<open>Time.Unix\<close>: whole seconds, rounded down, as an \<open>int64\<close>. \<open>time.Unix(s, 0)\<close> adds the offset
  of year 1 in \<open>int64\<close> arithmetic, which wraps.\<close>

definition unix_sec :: "time \<Rightarrow> 64 word" where
  "unix_sec t = word_of_int (t div 1000000000)"

definition time_of_unix :: "64 word \<Rightarrow> time" where
  "time_of_unix w = (sint (w + 62135596800) - 62135596800) * 1000000000"

definition token_mac :: "bytes \<Rightarrow> bytes \<Rightarrow> bytes" where
  "token_mac master b = take MACLen (hmac_sha256 master (bytes_of ''cp1-token'' @ b))"

definition Token :: "bytes \<Rightarrow> bytes \<Rightarrow> time \<Rightarrow> string" where
  "Token master sid expiry =
     (let buf = sid @ be64 (unix_sec expiry)
      in b64_encode (buf @ token_mac master buf))"

definition VerifyToken :: "bytes \<Rightarrow> string \<Rightarrow> time \<Rightarrow> bytes \<times> time \<times> token_error option" where
  "VerifyToken master tok now =
     (case b64_decode tok of
        None \<Rightarrow> (zero_sid, zero_time, Some MalformedToken)
      | Some b \<Rightarrow>
          if length b \<noteq> SessionIDLen + 8 + MACLen then (zero_sid, zero_time, Some MalformedToken)
          else if token_mac master (take (SessionIDLen + 8) b) \<noteq> drop (SessionIDLen + 8) b
          then (zero_sid, zero_time, Some TokenMACMismatch)
          else let sid = take SessionIDLen b;
                   expiry = time_of_unix (word_of_nat (be_nat (take 8 (drop SessionIDLen b))))
               in if now > expiry then (sid, expiry, Some TokenExpired) else (sid, expiry, None))"

definition Cookie :: "bytes \<Rightarrow> bytes \<Rightarrow> addr \<Rightarrow> time \<Rightarrow> bytes" where
  "Cookie master sid ip expiry =
     take CookieLen
       (hmac_sha256 master (bytes_of ''cp1-udp-cookie'' @ sid @ AsSlice (Unmap ip) @ be64 (unix_sec expiry)))"

definition VerifyCookie :: "bytes \<Rightarrow> bytes \<Rightarrow> addr \<Rightarrow> time \<Rightarrow> bytes \<Rightarrow> bool" where
  "VerifyCookie master sid ip expiry got =
     (length got = CookieLen \<and> got = Cookie master sid ip expiry)"

lemma length_token_mac [simp, len_simps]: "length (token_mac k b) = 16"
  by (simp add: token_mac_def)

lemma length_Cookie [simp, len_simps]: "length (Cookie k s ip e) = 16"
  by (simp add: Cookie_def)

interpretation token_tag: mac_scheme token_mac 16
  by unfold_locales simp

lemma ParseSessionID_hex: "length sid = 16 \<Longrightarrow> ParseSessionID (hex_encode sid) = Inr sid"
  by (simp add: ParseSessionID_def hex_decode_encode)

lemma ParseSessionID_length: "ParseSessionID s = Inr sid \<Longrightarrow> length sid = 16"
  by (auto simp: ParseSessionID_def split: option.splits if_splits)

text \<open>The expiry survives the token to the second, for every time a \<open>time.Time\<close> holds.\<close>

definition in_time_range :: "time \<Rightarrow> bool" where
  "in_time_range t = (- (2 ^ 63) \<le> t div 1000000000 + 62135596800 \<and> t div 1000000000 + 62135596800 < 2 ^ 63)"

lemma time_of_unix_unix_sec:
  assumes "in_time_range t"
  shows "time_of_unix (unix_sec t) = (t div 1000000000) * 1000000000"
proof -
  have "(word_of_int (t div 1000000000) + 62135596800 :: 64 word)
        = word_of_int (t div 1000000000 + 62135596800)"
    by simp
  moreover have "sint (word_of_int (t div 1000000000 + 62135596800) :: 64 word)
        = t div 1000000000 + 62135596800"
    using sint_unix_nano [of "t div 1000000000 + 62135596800"] assms
    by (simp only: in_time_range_def unix_nano_def in_int64_def)
  ultimately show ?thesis by (simp only: time_of_unix_def unix_sec_def) simp
qed

text \<open>Issue and verify: a token issued for a session verifies under the same master key to the
  same session id and to the expiry rounded down to the second, and is refused as expired exactly
  when the clock has passed that second.\<close>

theorem token_round_trip:
  assumes "length sid = 16" and "in_time_range expiry"
  shows "VerifyToken master (Token master sid expiry) now =
           (let e = (expiry div 1000000000) * 1000000000
            in (sid, e, if now > e then Some TokenExpired else None))"
proof -
  let ?buf = "sid @ be64 (unix_sec expiry)"
  have "b64_decode (Token master sid expiry) = Some (?buf @ token_mac master ?buf)"
    by (simp only: Token_def Let_def b64_decode_encode)
  moreover have "take 8 (drop 16 (?buf @ token_mac master ?buf)) = be64 (unix_sec expiry)"
    using assms(1) by simp
  ultimately show ?thesis
    using assms by (simp add: VerifyToken_def Let_def time_of_unix_unix_sec)
qed

theorem token_round_trip_witness:
  "VerifyToken [7] (Token [7] (replicate 16 9) 1700000000500000000) 1700000001000000000
     = (replicate 16 9, 1700000000000000000, Some TokenExpired)"
proof -
  have "in_time_range 1700000000500000000" by (simp add: in_time_range_def)
  from token_round_trip [OF _ this, of "replicate 16 9" "[7]" 1700000001000000000]
  show ?thesis by (simp add: Let_def)
qed

text \<open>C18. A token is accepted only if it decodes to a session id, an expiry and the truncated
  HMAC of both under the master key, and only while the clock has not passed the expiry it
  carries; the id and expiry returned are those bytes.\<close>

theorem accepted_token_is_authentic:
  assumes "VerifyToken master tok now = (sid, expiry, None)"
  shows "\<exists>e8. b64_decode tok = Some (sid @ e8 @ token_mac master (sid @ e8))
              \<and> length sid = 16 \<and> length e8 = 8
              \<and> expiry = time_of_unix (word_of_nat (be_nat e8)) \<and> now \<le> expiry"
proof -
  obtain b where b: "b64_decode tok = Some b" "length b = 40"
      "token_mac master (take 24 b) = drop 24 b" "sid = take 16 b"
      "expiry = time_of_unix (word_of_nat (be_nat (take 8 (drop 16 b))))" "now \<le> expiry"
    using assms by (auto simp: VerifyToken_def Let_def split: option.splits if_splits)
  let ?e8 = "take 8 (drop 16 b)"
  have "take 24 b = sid @ ?e8"
    using b(4) take_add [of 16 8 b] by simp
  moreover from this have "b = sid @ ?e8 @ token_mac master (sid @ ?e8)"
    using b(3) append_take_drop_id [of 24 b] by simp
  ultimately show ?thesis
    using b by (intro exI [of _ ?e8]) simp
qed

theorem accepted_token_is_authentic_witness:
  "\<exists>e8. b64_decode (Token [7] (replicate 16 9) 1700000000000000000)
          = Some (replicate 16 9 @ e8 @ token_mac [7] (replicate 16 9 @ e8))"
proof -
  have "in_time_range 1700000000000000000" by (simp add: in_time_range_def)
  then have "VerifyToken [7] (Token [7] (replicate 16 9) 1700000000000000000) 5
      = (replicate 16 9, 1700000000000000000, None)"
    by (subst VerifyToken_def) (simp add: Token_def Let_def b64_decode_encode time_of_unix_unix_sec)
  from accepted_token_is_authentic [OF this] show ?thesis by blast
qed

end
