(* ===== verification/Store.thy ===== *)
theory Store
  imports Token "HOL-Library.AList" "HOL-Library.Multiset"
begin

text \<open>
  The server's state (\<open>internal/server/store.go\<close>): sessions with their observations, reservations of
  native handshakes, sliding-window rate limits and the daily bulk quota. The session table is an
  association list (Go iterates it in an unspecified order, and no operation here depends on the
  order), the rate windows are functions that return the empty list for an absent key. Each
  operation runs under the store's mutex, so an execution is a sequence of operations, each with
  the clock value its caller read; \<open>store_step\<close> and \<open>store_run\<close> are that sequence. What comes from
  \<open>crypto/rand\<close>, and \<open>Time.YearDay\<close> (which depends on the time zone), is an argument.
\<close>

section \<open>Data\<close>

record session =
  ses_id :: bytes
  ses_key :: bytes
  ses_expires :: time
  ses_created :: time
  ses_client :: addr
  ses_tests :: "string list"
  ses_obs :: "observation list"

record reservation =
  res_id :: string
  res_session :: bytes
  res_expires :: time
  res_client :: addr
  res_dst_port :: int
  res_transport :: string
  res_kind :: string
  res_test :: string
  res_variant :: string
  res_used :: bool

record bulkUse =
  use_day :: int
  use_bytes :: int

record obsDrops =
  noSession :: "64 word"
  sessionCap :: "64 word"
  globalCap :: "64 word"

definition drops_total :: "obsDrops \<Rightarrow> 64 word" where
  "drops_total d = noSession d + sessionCap d + globalCap d"

definition zero_drops :: obsDrops where
  "zero_drops = \<lparr>noSession = 0, sessionCap = 0, globalCap = 0\<rparr>"

record store =
  sessions :: "(bytes \<times> session) list"
  reservations :: "reservation list"
  obsCount :: int
  obsMax :: int
  retention :: duration
  drops :: obsDrops
  sessRate :: "addr \<Rightarrow> time list"
  attemptRate :: "addr \<Rightarrow> time list"
  sessPerMin :: int
  attPer10Min :: int
  bulkUsed :: "addr \<rightharpoonup> bulkUse"
  bulkPerDay :: int

abbreviation maxLiveSessions :: nat where "maxLiveSessions \<equiv> 4096"
abbreviation bulkGlobalPerDay :: int where "bulkGlobalPerDay \<equiv> 4294967296"
abbreviation maxSessionObservations :: nat where "maxSessionObservations \<equiv> 8192"

section \<open>Operations\<close>

definition rateKey :: "addr \<Rightarrow> addr" where
  "rateKey ip =
     (case Unmap ip of
        Addr6 w _ \<Rightarrow> Addr6 (push_bit 64 (drop_bit 64 w)) ''''
      | a \<Rightarrow> a)"



definition day_use :: "(addr \<rightharpoonup> bulkUse) \<Rightarrow> addr \<Rightarrow> int \<Rightarrow> bulkUse" where
  "day_use m ip day =
     (case m ip of
        None \<Rightarrow> \<lparr>use_day = day, use_bytes = 0\<rparr>
      | Some u \<Rightarrow> if use_day u \<noteq> day then \<lparr>use_day = day, use_bytes = 0\<rparr> else u)"

definition consumeBulk :: "store \<Rightarrow> addr \<Rightarrow> int \<Rightarrow> int \<Rightarrow> store \<times> bool" where
  "consumeBulk s ip n day =
     (let ip = rateKey ip;
          u = day_use (bulkUsed s) ip day;
          g = day_use (bulkUsed s) AddrZero day
      in if bulkPerDay s > 0 \<and> wrap64 (use_bytes u + n) > bulkPerDay s then (s, False)
         else if wrap64 (use_bytes g + n) > bulkGlobalPerDay then (s, False)
         else (s\<lparr>bulkUsed := (bulkUsed s)
                   (ip \<mapsto> u\<lparr>use_bytes := wrap64 (use_bytes u + n)\<rparr>,
                    AddrZero \<mapsto> g\<lparr>use_bytes := wrap64 (use_bytes g + n)\<rparr>)\<rparr>, True))"

definition newStore :: "int \<Rightarrow> duration \<Rightarrow> int \<Rightarrow> int \<Rightarrow> store" where
  "newStore maxObs ret perMin per10Min =
     \<lparr>sessions = [], reservations = [], obsCount = 0, obsMax = maxObs, retention = ret, drops = zero_drops,
      sessRate = (\<lambda>_. []), attemptRate = (\<lambda>_. []), sessPerMin = perMin, attPer10Min = per10Min,
      bulkUsed = Map.empty, bulkPerDay = 67108864\<rparr>"

fun prune :: "time list \<Rightarrow> time \<Rightarrow> time list" where
  "prune [] since = []"
| "prune (t # ts) since = (if t < since then prune ts since else t # ts)"

definition allowSession :: "store \<Rightarrow> addr \<Rightarrow> time \<Rightarrow> store \<times> bool" where
  "allowSession s ip now =
     (if length (sessions s) \<ge> maxLiveSessions then (s, False)
      else let ip = rateKey ip;
               ts = prune (sessRate s ip) (now - sec 60)
           in if int (length ts) \<ge> sessPerMin s then (s\<lparr>sessRate := (sessRate s)(ip := ts)\<rparr>, False)
              else (s\<lparr>sessRate := (sessRate s)(ip := ts @ [now])\<rparr>, True))"

definition allowAttempt :: "store \<Rightarrow> addr \<Rightarrow> time \<Rightarrow> store \<times> bool" where
  "allowAttempt s ip now =
     (let ip = rateKey ip;
          ts = prune (attemptRate s ip) (now - sec 600)
      in if int (length ts) \<ge> attPer10Min s then (s\<lparr>attemptRate := (attemptRate s)(ip := ts)\<rparr>, False)
         else (s\<lparr>attemptRate := (attemptRate s)(ip := ts @ [now])\<rparr>, True))"

definition putSession :: "store \<Rightarrow> session \<Rightarrow> store" where
  "putSession s sess =
     (let sess = (case map_of (sessions s) (ses_id sess) of
                    None \<Rightarrow> sess
                  | Some old \<Rightarrow> sess\<lparr>ses_obs := ses_obs old\<rparr>)
      in s\<lparr>sessions := AList.update (ses_id sess) sess (sessions s)\<rparr>)"

definition getSession :: "store \<Rightarrow> bytes \<Rightarrow> time \<Rightarrow> session option" where
  "getSession s sid now =
     (case map_of (sessions s) sid of
        None \<Rightarrow> None
      | Some sess \<Rightarrow> if now > ses_expires sess then None else Some sess)"

definition keyFor :: "store \<Rightarrow> time \<Rightarrow> bytes \<Rightarrow> bytes option" where
  "keyFor s now sid = map_option ses_key (getSession s sid now)"

definition sessionByHex :: "store \<Rightarrow> string \<Rightarrow> time \<Rightarrow> session option" where
  "sessionByHex s hexID now =
     (case ParseSessionID hexID of Inl _ \<Rightarrow> None | Inr sid \<Rightarrow> getSession s sid now)"

definition sessionKeyByHex :: "store \<Rightarrow> string \<Rightarrow> time \<Rightarrow> bytes option" where
  "sessionKeyByHex s hexID now = map_option ses_key (sessionByHex s hexID now)"

definition reserve :: "store \<Rightarrow> reservation \<Rightarrow> bytes \<Rightarrow> store \<times> string" where
  "reserve s r rnd =
     (let r = r\<lparr>res_id := hex_encode rnd\<rparr>
      in (s\<lparr>reservations := reservations s @ [r]\<rparr>, res_id r))"

text \<open>The guard of the loop of \<open>findReservation\<close>, with \<open>ip\<close> already unmapped.\<close>

definition res_matches :: "addr \<Rightarrow> string \<Rightarrow> int \<Rightarrow> string \<Rightarrow> time \<Rightarrow> reservation \<Rightarrow> bool" where
  "res_matches ip transport dstPort kind now r \<longleftrightarrow>
     \<not> (res_used r \<or> now > res_expires r \<or> res_client r \<noteq> ip \<or> res_transport r \<noteq> transport
        \<or> res_dst_port r \<noteq> dstPort)
     \<and> \<not> (res_kind r \<noteq> '''' \<and> kind \<noteq> '''' \<and> res_kind r \<noteq> kind)"

fun pick_res ::
  "(reservation \<Rightarrow> bool) \<Rightarrow> reservation list \<Rightarrow> nat \<Rightarrow> (nat \<times> reservation) option \<Rightarrow> (nat \<times> reservation) option"
where
  "pick_res p [] i best = best"
| "pick_res p (r # rs) i best =
     pick_res p rs (Suc i)
       (if \<not> p r then best
        else case best of
               None \<Rightarrow> Some (i, r)
             | Some (_, b) \<Rightarrow> if res_expires r > res_expires b then Some (i, r) else best)"

definition findReservation ::
  "store \<Rightarrow> addr \<Rightarrow> string \<Rightarrow> int \<Rightarrow> string \<Rightarrow> time \<Rightarrow> bool \<Rightarrow> store \<times> reservation option"
where
  "findReservation s ip transport dstPort kind now consume =
     (let ip = Unmap ip
      in case pick_res (res_matches ip transport dstPort kind now) (reservations s) 0 None of
           None \<Rightarrow> (s, None)
         | Some (i, r) \<Rightarrow>
             if consume
             then (s\<lparr>reservations := (reservations s)[i := r\<lparr>res_used := True\<rparr>]\<rparr>, Some (r\<lparr>res_used := True\<rparr>))
             else (s, Some r))"

definition peekReservation :: "store \<Rightarrow> addr \<Rightarrow> string \<Rightarrow> int \<Rightarrow> string \<Rightarrow> time \<Rightarrow> string \<times> string" where
  "peekReservation s ip transport dstPort kind now =
     (case snd (findReservation s ip transport dstPort kind now False) of
        Some r \<Rightarrow> (res_test r, res_variant r)
      | None \<Rightarrow> ('''', ''''))"

definition matchReservation ::
  "store \<Rightarrow> addr \<Rightarrow> string \<Rightarrow> int \<Rightarrow> string \<Rightarrow> time \<Rightarrow> store \<times> reservation option"
where
  "matchReservation s ip transport dstPort kind now = findReservation s ip transport dstPort kind now True"

definition attributeReservation ::
  "store \<Rightarrow> addr \<Rightarrow> string \<Rightarrow> int \<Rightarrow> time \<Rightarrow> reservation option"
where
  "attributeReservation s ip transport dstPort now =
     snd (findReservation s ip transport dstPort '''' now False)"

definition applyReservation :: "observation \<Rightarrow> reservation \<Rightarrow> observation" where
  "applyReservation ob r =
     ob\<lparr>obs_session := hex_encode (res_session r), obs_attempt := res_id r, obs_test := res_test r,
        obs_detail := (if res_variant r \<noteq> '''' then (obs_detail ob)(''variant'' \<mapsto> res_variant r) else obs_detail ob)\<rparr>"

definition addObservationAt :: "store \<Rightarrow> observation \<Rightarrow> bytes \<Rightarrow> time \<Rightarrow> store \<times> bool" where
  "addObservationAt s ob rnd now =
     (let ob = (if obs_id ob = '''' then ob\<lparr>obs_id := hex_encode rnd\<rparr> else ob);
          found = (case ParseSessionID (obs_session ob) of
                     Inl _ \<Rightarrow> None
                   | Inr sid \<Rightarrow> if hex_encode sid = obs_session ob
                                then map_option (Pair sid) (map_of (sessions s) sid) else None)
      in case found of
           None \<Rightarrow> (s\<lparr>drops := (drops s)\<lparr>noSession := noSession (drops s) + 1\<rparr>\<rparr>, False)
         | Some (sid, sess) \<Rightarrow>
             if now > ses_expires sess
             then (s\<lparr>drops := (drops s)\<lparr>noSession := noSession (drops s) + 1\<rparr>\<rparr>, False)
             else if length (ses_obs sess) \<ge> maxSessionObservations
             then (s\<lparr>drops := (drops s)\<lparr>sessionCap := sessionCap (drops s) + 1\<rparr>\<rparr>, False)
             else if obsCount s \<ge> obsMax s
             then (s\<lparr>drops := (drops s)\<lparr>globalCap := globalCap (drops s) + 1\<rparr>\<rparr>, False)
             else (s\<lparr>sessions := AList.update sid (sess\<lparr>ses_obs := ses_obs sess @ [ob]\<rparr>) (sessions s),
                     obsCount := obsCount s + 1\<rparr>, True))"

definition observationsFor :: "store \<Rightarrow> string \<Rightarrow> observation list" where
  "observationsFor s sid =
     (case ParseSessionID sid of
        Inl _ \<Rightarrow> []
      | Inr i \<Rightarrow> (case map_of (sessions s) i of
                     None \<Rightarrow> []
                   | Some sess \<Rightarrow> sort_key obs_first_seen (ses_obs sess)))"

definition takeDrops :: "store \<Rightarrow> store \<times> obsDrops \<times> int" where
  "takeDrops s = (s\<lparr>drops := zero_drops\<rparr>, drops s, obsCount s)"

text \<open>The collector: \<open>gc_sessions\<close> is the loop over the session table, with the row counter.\<close>

fun gc_sessions :: "time \<Rightarrow> duration \<Rightarrow> (bytes \<times> session) list \<Rightarrow> int \<Rightarrow> (bytes \<times> session) list \<times> int" where
  "gc_sessions now ret [] cnt = ([], cnt)"
| "gc_sessions now ret ((sid, sess) # rest) cnt =
     (if now > ses_expires sess + sec 60
      then gc_sessions now ret rest (cnt - int (length (ses_obs sess)))
      else let keep = List.filter (\<lambda>ob. sub_time now (obs_first_seen ob) < ret) (ses_obs sess);
               cnt = cnt - (int (length (ses_obs sess)) - int (length keep))
           in case gc_sessions now ret rest cnt of
                (rest', cnt') \<Rightarrow> ((sid, sess\<lparr>ses_obs := keep\<rparr>) # rest', cnt'))"

definition gc_rate :: "(addr \<Rightarrow> time list) \<Rightarrow> time \<Rightarrow> addr \<Rightarrow> time list" where
  "gc_rate m since = (\<lambda>k. if prune (m k) since = [] then [] else m k)"

definition gc :: "store \<Rightarrow> time \<Rightarrow> int \<Rightarrow> store" where
  "gc s now day =
     (case gc_sessions now (retention s) (sessions s) (obsCount s) of
        (ss, cnt) \<Rightarrow>
          s\<lparr>sessions := ss, obsCount := cnt,
            sessRate := gc_rate (sessRate s) (now - sec 60),
            attemptRate := gc_rate (attemptRate s) (now - sec 600),
            bulkUsed := (\<lambda>k. case bulkUsed s k of
                               None \<Rightarrow> None
                             | Some u \<Rightarrow> if use_day u \<noteq> day then None else Some u),
            reservations := List.filter (\<lambda>r. \<not> res_used r \<and> now < res_expires r + sec 60) (reservations s)\<rparr>)"

section \<open>Executions\<close>

text \<open>One operation with the arguments its callers supply. \<open>OpPut\<close> stores a session the way the
  control API creates it, with no rows yet.\<close>

datatype store_op =
    OpPut bytes bytes time time addr "string list"
  | OpReserve reservation bytes
  | OpFind addr string int string bool
  | OpAddObs observation bytes
  | OpGc int
  | OpAllowSession addr
  | OpAllowAttempt addr
  | OpBulk addr int int
  | OpTakeDrops

datatype store_result =
    Done
  | Granted bool
  | Found "reservation option"
  | Issued string

fun store_step :: "store \<Rightarrow> time \<times> store_op \<Rightarrow> store \<times> store_result" where
  "store_step s (now, OpPut sid key expires created ip tests) =
     (putSession s \<lparr>ses_id = sid, ses_key = key, ses_expires = expires, ses_created = created,
                    ses_client = ip, ses_tests = tests, ses_obs = []\<rparr>, Done)"
| "store_step s (now, OpReserve r rnd) = map_prod id Issued (reserve s r rnd)"
| "store_step s (now, OpFind ip tr port kind consume) =
     map_prod id Found (findReservation s ip tr port kind now consume)"
| "store_step s (now, OpAddObs ob rnd) = map_prod id Granted (addObservationAt s ob rnd now)"
| "store_step s (now, OpGc day) = (gc s now day, Done)"
| "store_step s (now, OpAllowSession ip) = map_prod id Granted (allowSession s ip now)"
| "store_step s (now, OpAllowAttempt ip) = map_prod id Granted (allowAttempt s ip now)"
| "store_step s (now, OpBulk ip n day) = map_prod id Granted (consumeBulk s ip n day)"
| "store_step s (now, OpTakeDrops) = (fst (takeDrops s), Done)"

fun store_run :: "store \<Rightarrow> (time \<times> store_op) list \<Rightarrow> store" where
  "store_run s [] = s"
| "store_run s (e # es) = store_run (fst (store_step s e)) es"

end
