(* ===== verification/Store_Inv.thy ===== *)
theory Store_Inv
  imports Store
begin

text \<open>
  What every execution of the store keeps: the row counter is the number of rows held and never
  exceeds its ceiling, no session exceeds its own bound, every row sits under the session it names,
  and only the collector ever removes a row. Then the behaviour of recording and reading
  observations.
\<close>

section \<open>Association lists\<close>

definition rows_total :: "(bytes \<times> session) list \<Rightarrow> nat" where
  "rows_total ss = sum_list (map (\<lambda>p. length (ses_obs (snd p))) ss)"

lemma rows_total_simps [simp]:
  "rows_total [] = 0" "rows_total (p # ss) = length (ses_obs (snd p)) + rows_total ss"
  "rows_total (ss @ ts) = rows_total ss + rows_total ts"
  by (simp_all add: rows_total_def)

lemma update_absent: "map_of ss k = None \<Longrightarrow> AList.update k v ss = ss @ [(k, v)]"
  by (induction ss) (auto split: if_splits)

lemma set_update_subset: "set (AList.update k v ss) \<subseteq> insert (k, v) (set ss)"
  by (induction ss) auto

lemma rows_total_update:
  "map_of ss k = Some old \<Longrightarrow>
     rows_total (AList.update k v ss) + length (ses_obs old) = rows_total ss + length (ses_obs v)"
  by (induction ss) (auto split: if_splits)

section \<open>The invariant\<close>

fun session_ok :: "bytes \<times> session \<Rightarrow> bool" where
  "session_ok (sid, sess) \<longleftrightarrow>
     ses_id sess = sid \<and> length (ses_obs sess) \<le> maxSessionObservations
     \<and> (\<forall>ob \<in> set (ses_obs sess). obs_session ob = hex_encode sid)"

definition store_inv :: "store \<Rightarrow> bool" where
  "store_inv s \<longleftrightarrow>
     distinct (map fst (sessions s)) \<and> (\<forall>p \<in> set (sessions s). session_ok p)
     \<and> obsCount s = int (rows_total (sessions s)) \<and> obsCount s \<le> max 0 (obsMax s)"

lemma store_invD:
  assumes "store_inv s" "map_of (sessions s) sid = Some sess"
  shows "ses_id sess = sid" "length (ses_obs sess) \<le> 8192"
        "\<forall>ob \<in> set (ses_obs sess). obs_session ob = hex_encode sid"
  using assms map_of_SomeD [OF assms(2)] by (fastforce simp: store_inv_def)+

lemma store_inv_sessions_cong:
  "store_inv s \<Longrightarrow> sessions t = sessions s \<Longrightarrow> obsCount t = obsCount s \<Longrightarrow> obsMax t = obsMax s \<Longrightarrow> store_inv t"
  by (simp add: store_inv_def)

lemma store_inv_newStore [simp]: "store_inv (newStore m r p q)"
  by (simp add: store_inv_def newStore_def)

lemma store_inv_update:
  assumes inv: "store_inv s" and ok: "session_ok (sid, v)"
    and cnt: "obsCount t = obsCount s + int (length (ses_obs v))
                 - int (case map_of (sessions s) sid of None \<Rightarrow> 0 | Some old \<Rightarrow> length (ses_obs old))"
    and ceil: "obsCount t \<le> max 0 (obsMax s)"
    and t: "sessions t = AList.update sid v (sessions s)" "obsMax t = obsMax s"
  shows "store_inv t"
proof -
  have "distinct (map fst (sessions t))"
    using inv t by (simp add: store_inv_def distinct_update)
  moreover have "\<forall>p \<in> set (sessions t). session_ok p"
    using inv ok set_update_subset [of sid v "sessions s"] unfolding store_inv_def t by blast
  moreover have "obsCount t = int (rows_total (sessions t))"
  proof (cases "map_of (sessions s) sid")
    case None
    then show ?thesis using cnt t inv by (simp add: update_absent store_inv_def)
  next
    case (Some old)
    then show ?thesis using cnt t inv rows_total_update [OF Some, of v] by (simp add: store_inv_def)
  qed
  ultimately show ?thesis using ceil t by (simp add: store_inv_def)
qed

lemma store_inv_putSession:
  assumes inv: "store_inv s" and sess: "ses_obs sess = []"
  shows "store_inv (putSession s sess)"
proof (cases "map_of (sessions s) (ses_id sess)")
  case None
  show ?thesis
    by (rule store_inv_update [OF inv, of "ses_id sess" sess])
       (use None sess inv in \<open>auto simp: putSession_def store_inv_def\<close>)
next
  case (Some old)
  show ?thesis
    by (rule store_inv_update [OF inv, of "ses_id sess" "sess\<lparr>ses_obs := ses_obs old\<rparr>"])
       (use Some sess inv store_invD [OF inv Some] in \<open>auto simp: putSession_def store_inv_def Let_def\<close>)
qed

text \<open>The session a row is filed under.\<close>

definition row_session :: "store \<Rightarrow> observation \<Rightarrow> time \<Rightarrow> session option" where
  "row_session s ob now =
     (case ParseSessionID (obs_session ob) of
        Inl _ \<Rightarrow> None
      | Inr sid \<Rightarrow> if hex_encode sid = obs_session ob then getSession s sid now else None)"

definition row_accepted :: "store \<Rightarrow> observation \<Rightarrow> time \<Rightarrow> bool" where
  "row_accepted s ob now \<longleftrightarrow>
     (\<exists>sess. row_session s ob now = Some sess \<and> length (ses_obs sess) < maxSessionObservations)
     \<and> obsCount s < obsMax s"

lemma addObservationAt_cases:
  obtains (refused) d where "addObservationAt s ob rnd now = (s\<lparr>drops := d\<rparr>, False)" "\<not> row_accepted s ob now"
    "drops_total d = drops_total (drops s) + 1"
  | (kept) sid sess ob' where "ob' = (if obs_id ob = '''' then ob\<lparr>obs_id := hex_encode rnd\<rparr> else ob)"
    "row_accepted s ob now" "obs_session ob = hex_encode sid" "map_of (sessions s) sid = Some sess"
    "length (ses_obs sess) < 8192" "obsCount s < obsMax s" "now \<le> ses_expires sess" "length sid = 16"
    "addObservationAt s ob rnd now =
       (s\<lparr>sessions := AList.update sid (sess\<lparr>ses_obs := ses_obs sess @ [ob']\<rparr>) (sessions s),
          obsCount := obsCount s + 1\<rparr>, True)"
proof -
  define ob' where "ob' = (if obs_id ob = '''' then ob\<lparr>obs_id := hex_encode rnd\<rparr> else ob)"
  have same: "obs_session ob' = obs_session ob"
    by (simp add: ob'_def)
  have eq: "addObservationAt s ob rnd now =
    (case (case ParseSessionID (obs_session ob) of Inl _ \<Rightarrow> None
           | Inr sid \<Rightarrow> if hex_encode sid = obs_session ob
                        then map_option (Pair sid) (map_of (sessions s) sid) else None) of
       None \<Rightarrow> (s\<lparr>drops := (drops s)\<lparr>noSession := noSession (drops s) + 1\<rparr>\<rparr>, False)
     | Some (sid, sess) \<Rightarrow>
         if now > ses_expires sess then (s\<lparr>drops := (drops s)\<lparr>noSession := noSession (drops s) + 1\<rparr>\<rparr>, False)
         else if length (ses_obs sess) \<ge> 8192
         then (s\<lparr>drops := (drops s)\<lparr>sessionCap := sessionCap (drops s) + 1\<rparr>\<rparr>, False)
         else if obsCount s \<ge> obsMax s
         then (s\<lparr>drops := (drops s)\<lparr>globalCap := globalCap (drops s) + 1\<rparr>\<rparr>, False)
         else (s\<lparr>sessions := AList.update sid (sess\<lparr>ses_obs := ses_obs sess @ [ob']\<rparr>) (sessions s),
                 obsCount := obsCount s + 1\<rparr>, True))"
    unfolding addObservationAt_def Let_def ob'_def [symmetric] same ..
  show thesis
  proof (cases "row_accepted s ob now")
    case True
    then obtain sid sess where "ParseSessionID (obs_session ob) = Inr sid" "hex_encode sid = obs_session ob"
      "getSession s sid now = Some sess" "length (ses_obs sess) < 8192" "obsCount s < obsMax s"
      by (auto simp: row_accepted_def row_session_def split: sum.splits if_splits)
    then show thesis
      by (intro kept [of ob' sid sess])
         (use True in \<open>auto simp: eq ob'_def getSession_def ParseSessionID_length split: option.splits if_splits\<close>)
  next
    case False
    then show thesis
      using eq refused
      by (auto simp: row_accepted_def row_session_def getSession_def drops_total_def
          split: sum.splits option.splits if_splits)
  qed
qed

lemma store_inv_addObservationAt:
  assumes inv: "store_inv s"
  shows "store_inv (fst (addObservationAt s ob rnd now))"
proof (cases rule: addObservationAt_cases [of s ob rnd now])
  case (refused d)
  then show ?thesis by (simp add: store_inv_sessions_cong [OF inv])
next
  case (kept sid sess ob')
  show ?thesis
    by (rule store_inv_update [OF inv, of sid "sess\<lparr>ses_obs := ses_obs sess @ [ob']\<rparr>"])
       (use kept store_invD [OF inv kept(4)] in \<open>auto\<close>)
qed

definition gc_keep :: "time \<Rightarrow> duration \<Rightarrow> (bytes \<times> session) list \<Rightarrow> (bytes \<times> session) list" where
  "gc_keep now ret ss =
     map (\<lambda>p. (fst p, (snd p)\<lparr>ses_obs := List.filter (\<lambda>ob. sub_time now (obs_first_seen ob) < ret) (ses_obs (snd p))\<rparr>))
       (List.filter (\<lambda>p. now \<le> ses_expires (snd p) + sec 60) ss)"

lemma gc_sessions_spec:
  "gc_sessions now ret ss cnt = (gc_keep now ret ss, cnt - int (rows_total ss) + int (rows_total (gc_keep now ret ss)))"
proof (induction now ret ss cnt rule: gc_sessions.induct)
  case (2 now ret sid sess rest cnt)
  then show ?case by (cases "now > ses_expires sess + sec 60") (simp_all add: Let_def gc_keep_def)
qed (simp add: gc_keep_def)

lemma rows_total_gc_keep: "rows_total (gc_keep now ret ss) \<le> rows_total ss"
proof (induction ss)
  case (Cons p ss)
  then show ?case
    using add_mono [OF length_filter_le [of "\<lambda>ob. sub_time now (obs_first_seen ob) < ret" "ses_obs (snd p)"] Cons.IH]
    by (simp add: gc_keep_def)
qed (simp add: gc_keep_def)

lemma store_inv_gc:
  assumes inv: "store_inv s"
  shows "store_inv (gc s now day)"
proof -
  let ?ss = "gc_keep now (retention s) (sessions s)"
  have "distinct (map fst ?ss)"
    using inv by (simp add: gc_keep_def comp_def store_inv_def distinct_map_filter)
  moreover have "\<forall>p \<in> set ?ss. session_ok p"
    using inv unfolding gc_keep_def store_inv_def by (fastforce intro: le_trans [OF length_filter_le])
  moreover have "obsCount s = int (rows_total (sessions s))" "obsCount s \<le> max 0 (obsMax s)"
    using inv by (simp_all add: store_inv_def)
  ultimately show ?thesis
    using rows_total_gc_keep [of now "retention s" "sessions s"]
    by (simp add: gc_def store_inv_def gc_sessions_spec)
qed

lemma findReservation_other:
  "sessions (fst (findReservation s ip tr port kind now c)) = sessions s"
  "obsCount (fst (findReservation s ip tr port kind now c)) = obsCount s"
  "obsMax (fst (findReservation s ip tr port kind now c)) = obsMax s"
  "sessRate (fst (findReservation s ip tr port kind now c)) = sessRate s"
  "attemptRate (fst (findReservation s ip tr port kind now c)) = attemptRate s"
  "bulkUsed (fst (findReservation s ip tr port kind now c)) = bulkUsed s"
  by (simp_all add: findReservation_def Let_def split: option.splits prod.splits)

lemma store_inv_step:
  assumes "store_inv s"
  shows "store_inv (fst (store_step s e))"
proof (cases "(s, e)" rule: store_step.cases)
  case (1 t now sid key expires created ip tests)
  then show ?thesis using assms by (simp add: store_inv_putSession)
next
  case (4 t now ob rnd)
  then show ?thesis using store_inv_addObservationAt [OF assms] by simp
next
  case (5 t now day)
  then show ?thesis using store_inv_gc [OF assms] by simp
next
  case (3 t now ip tr port kind c)
  then show ?thesis using assms by (auto intro: store_inv_sessions_cong simp: findReservation_other)
qed (auto intro!: store_inv_sessions_cong [OF assms]
      simp: reserve_def allowSession_def allowAttempt_def consumeBulk_def takeDrops_def Let_def)

lemma store_inv_run: "store_inv s \<Longrightarrow> store_inv (store_run s es)"
  by (induction es arbitrary: s) (simp_all add: store_inv_step)

lemma obsMax_step: "obsMax (fst (store_step s e)) = obsMax s"
proof (cases "(s, e)" rule: store_step.cases)
  case (4 t now ob rnd)
  then show ?thesis by (cases rule: addObservationAt_cases [of t ob rnd now]) auto
qed (auto simp: reserve_def allowSession_def allowAttempt_def consumeBulk_def takeDrops_def Let_def
      findReservation_other putSession_def gc_def gc_sessions_spec)

lemma obsMax_run: "obsMax (store_run s es) = obsMax s"
  by (induction es arbitrary: s) (simp_all add: obsMax_step)

text \<open>C12. In every state the server can reach, whatever the sequence of operations, arguments and
  clock values: the session table has one entry per id, the row counter is exactly the number of
  observations held and never exceeds the configured ceiling, and every session holds at most 8192
  rows, each naming that session.\<close>

theorem store_rows_bounded:
  "let s = store_run (newStore maxObs ret perMin per10Min) es
   in distinct (map fst (sessions s)) \<and> list_all session_ok (sessions s)
      \<and> obsCount s = int (rows_total (sessions s)) \<and> obsCount s \<le> max 0 maxObs"
  using store_inv_run [OF store_inv_newStore, of maxObs ret perMin per10Min es]
    obsMax_run [of "newStore maxObs ret perMin per10Min" es]
  by (simp add: Let_def store_inv_def list_all_iff newStore_def)

section \<open>Rows of one session\<close>

definition rows :: "store \<Rightarrow> bytes \<Rightarrow> observation list" where
  "rows s sid = (case map_of (sessions s) sid of None \<Rightarrow> [] | Some sess \<Rightarrow> ses_obs sess)"

lemma rows_cong: "sessions t = sessions s \<Longrightarrow> rows t = rows s"
  by (simp add: rows_def fun_eq_iff)

lemma rows_putSession:
  "ses_obs sess = [] \<Longrightarrow> rows (putSession s sess) = rows s"
  by (rule ext) (auto simp: rows_def putSession_def Let_def update_conv' split: option.splits)

lemma rows_addObservationAt:
  "rows (fst (addObservationAt s ob rnd now)) sid =
     rows s sid @ (if row_accepted s ob now \<and> obs_session ob = hex_encode sid
                   then [if obs_id ob = '''' then ob\<lparr>obs_id := hex_encode rnd\<rparr> else ob] else [])"
proof (cases rule: addObservationAt_cases [of s ob rnd now])
  case (refused d)
  then show ?thesis by (simp add: rows_def)
next
  case (kept sid' sess ob')
  then show ?thesis
    by (cases "sid = sid'") (auto simp: rows_def update_conv' hex_encode_inj split: option.splits)
qed

lemma rows_step:
  assumes "\<And>day. snd e \<noteq> OpGc day"
  shows "\<exists>extra. rows (fst (store_step s e)) sid = rows s sid @ extra
                 \<and> (\<forall>ob \<in> set extra. obs_session ob = hex_encode sid)"
proof (cases "(s, e)" rule: store_step.cases)
  case (4 t now ob rnd)
  then show ?thesis by (auto simp: rows_addObservationAt)
next
  case (5 t now day)
  then show ?thesis using assms [of day] by simp
next
  case (1 t now sid key expires created ip tests)
  then show ?thesis by (simp add: rows_putSession)
qed (auto intro!: arg_cong [OF rows_cong, of _ _ "\<lambda>f. f sid"] exI [of _ "[]"]
      simp: reserve_def allowSession_def allowAttempt_def consumeBulk_def takeDrops_def
      Let_def findReservation_other)

text \<open>Nothing but the collector removes an observation: over any sequence of operations without a
  collection, the rows of each session only grow at the end, and only by rows that name that
  session. No other client can push them out.\<close>

theorem observations_are_never_evicted:
  assumes "\<forall>e \<in> set es. \<forall>day. snd e \<noteq> OpGc day"
  shows "\<exists>extra. rows (store_run s es) sid = rows s sid @ extra
                 \<and> (\<forall>ob \<in> set extra. obs_session ob = hex_encode sid)"
  using assms
proof (induction es arbitrary: s)
  case (Cons e es)
  obtain x where "rows (fst (store_step s e)) sid = rows s sid @ x" "\<forall>ob \<in> set x. obs_session ob = hex_encode sid"
    using rows_step [of e s sid] Cons.prems by auto
  moreover obtain y where "rows (store_run (fst (store_step s e)) es) sid = rows (fst (store_step s e)) sid @ y"
      "\<forall>ob \<in> set y. obs_session ob = hex_encode sid"
    using Cons.IH [of "fst (store_step s e)"] Cons.prems by auto
  ultimately show ?case by (intro exI [of _ "x @ y"]) auto
qed simp

definition demo_sid :: bytes where "demo_sid = replicate 16 171"

definition demo_store :: store where
  "demo_store = store_run (newStore 2 (sec 600) 10 1200)
     [(0, OpPut demo_sid [1] (sec 100) 0 (Addr4 7) [''tcp.echo'']),
      (1, OpAddObs (zero_observation\<lparr>obs_id := ''a'', obs_session := hex_encode demo_sid, obs_first_seen := 9\<rparr>) []),
      (2, OpAddObs (zero_observation\<lparr>obs_id := ''b'', obs_session := hex_encode demo_sid, obs_first_seen := 4\<rparr>) [])]"

lemma demo_parse: "ParseSessionID (hex_encode demo_sid) = Inr demo_sid"
  by (simp add: ParseSessionID_hex demo_sid_def)

lemma demo_session:
  "map_of (sessions demo_store) demo_sid =
     Some \<lparr>ses_id = demo_sid, ses_key = [1], ses_expires = sec 100, ses_created = 0, ses_client = Addr4 7,
           ses_tests = [''tcp.echo''],
           ses_obs = [zero_observation\<lparr>obs_id := ''a'', obs_session := hex_encode demo_sid, obs_first_seen := 9\<rparr>,
                      zero_observation\<lparr>obs_id := ''b'', obs_session := hex_encode demo_sid, obs_first_seen := 4\<rparr>]\<rparr>"
  by (simp add: demo_store_def newStore_def putSession_def addObservationAt_def demo_parse)

theorem observations_are_never_evicted_witness:
  "\<exists>extra. rows (store_run demo_store [(3, OpAllowAttempt (Addr4 7)), (4, OpTakeDrops)]) demo_sid
             = rows demo_store demo_sid @ extra"
  using observations_are_never_evicted [of "[(3, OpAllowAttempt (Addr4 7)), (4, OpTakeDrops)]" demo_store demo_sid]
  by auto

text \<open>Recording a row: it is kept exactly when it names a live session in the canonical spelling of
  its id, that session is below its bound and the store below its ceiling; a kept row is appended
  to that session and to no other, and a refused row leaves the rows alone and adds one to the
  refusal counters.\<close>

theorem add_observation_behaviour:
  "snd (addObservationAt s ob rnd now) = row_accepted s ob now
   \<and> rows (fst (addObservationAt s ob rnd now)) sid =
       rows s sid @ (if row_accepted s ob now \<and> obs_session ob = hex_encode sid
                     then [if obs_id ob = '''' then ob\<lparr>obs_id := hex_encode rnd\<rparr> else ob] else [])
   \<and> obsCount (fst (addObservationAt s ob rnd now)) = obsCount s + (if row_accepted s ob now then 1 else 0)
   \<and> drops_total (drops (fst (addObservationAt s ob rnd now)))
       = drops_total (drops s) + (if row_accepted s ob now then 0 else 1)"
  using rows_addObservationAt [of s ob rnd now sid]
  by (cases rule: addObservationAt_cases [of s ob rnd now]) auto

text \<open>Reading a session's observations gives exactly its rows, ordered by the time the flow was first
  seen, rows of the same instant in arrival order, and none of another session.\<close>

theorem observations_for_behaviour:
  assumes "store_inv s" and "map_of (sessions s) sid = Some sess" and "length sid = 16"
  shows "let out = observationsFor s (hex_encode sid)
         in sorted (map obs_first_seen out) \<and> mset out = mset (ses_obs sess)
            \<and> (\<forall>t. List.filter (\<lambda>ob. obs_first_seen ob = t) out
                    = List.filter (\<lambda>ob. obs_first_seen ob = t) (ses_obs sess))
            \<and> (\<forall>ob \<in> set out. obs_session ob = hex_encode sid)"
proof -
  have "observationsFor s (hex_encode sid) = sort_key obs_first_seen (ses_obs sess)"
    using assms by (simp add: observationsFor_def ParseSessionID_hex)
  moreover have "List.filter (\<lambda>ob. obs_first_seen ob = t) (sort_key obs_first_seen (ses_obs sess))
      = List.filter (\<lambda>ob. obs_first_seen ob = t) (ses_obs sess)" for t
    using sort_key_stable [of obs_first_seen t "ses_obs sess"] by (simp add: eq_commute)
  ultimately show ?thesis using store_invD(3) [OF assms(1,2)] by (simp add: Let_def)
qed

theorem observations_for_behaviour_witness:
  "sorted (map obs_first_seen (observationsFor demo_store (hex_encode demo_sid)))
   \<and> length (observationsFor demo_store (hex_encode demo_sid)) = 2"
proof -
  have "store_inv demo_store" unfolding demo_store_def by (intro store_inv_run store_inv_newStore)
  from observations_for_behaviour [OF this demo_session]
  have "sorted (map obs_first_seen (observationsFor demo_store (hex_encode demo_sid)))"
    and m: "mset (observationsFor demo_store (hex_encode demo_sid)) =
      mset [zero_observation\<lparr>obs_id := ''a'', obs_session := hex_encode demo_sid, obs_first_seen := 9\<rparr>,
            zero_observation\<lparr>obs_id := ''b'', obs_session := hex_encode demo_sid, obs_first_seen := 4\<rparr>]"
    by (simp_all add: demo_sid_def Let_def)
  moreover from m have "length (observationsFor demo_store (hex_encode demo_sid)) = 2"
    by (metis size_mset list.size(3,4) One_nat_def add_Suc_right add_0_right numeral_2_eq_2)
  ultimately show ?thesis by simp
qed

lemma map_of_gc_keep:
  "distinct (map fst ss) \<Longrightarrow>
   map_of (gc_keep now ret ss) sid =
     (case map_of ss sid of
        None \<Rightarrow> None
      | Some sess \<Rightarrow> if now \<le> ses_expires sess + sec 60
                     then Some (sess\<lparr>ses_obs := List.filter (\<lambda>ob. sub_time now (obs_first_seen ob) < ret) (ses_obs sess)\<rparr>)
                     else None)"
proof (induction ss)
  case (Cons p ss)
  have "map_of (gc_keep now ret ss) sid = None" if "sid \<notin> fst ` set ss"
    using that by (force simp: gc_keep_def map_of_eq_None_iff)
  moreover have "gc_keep now ret (p # ss) = gc_keep now ret [p] @ gc_keep now ret ss"
    by (simp add: gc_keep_def)
  ultimately show ?case using Cons
    by (cases p) (auto simp: gc_keep_def [of _ _ "[_]"] map_of_eq_None_iff split: option.splits)
qed (simp add: gc_keep_def)

text \<open>Collection: a session that can still be looked up survives it, with exactly the rows younger
  than the retention period; a session more than a minute past its expiry is gone.\<close>

theorem gc_keeps_live_sessions:
  assumes "store_inv s"
  shows "rows (gc s now day) sid =
           (case map_of (sessions s) sid of
              None \<Rightarrow> []
            | Some sess \<Rightarrow> if now \<le> ses_expires sess + sec 60
                           then List.filter (\<lambda>ob. sub_time now (obs_first_seen ob) < retention s) (ses_obs sess)
                           else [])
         \<and> getSession (gc s now day) sid now =
             map_option (\<lambda>sess. sess\<lparr>ses_obs := rows (gc s now day) sid\<rparr>) (getSession s sid now)"
proof -
  have "map_of (sessions (gc s now day)) sid =
     (case map_of (sessions s) sid of
        None \<Rightarrow> None
      | Some sess \<Rightarrow> if now \<le> ses_expires sess + sec 60
                     then Some (sess\<lparr>ses_obs := List.filter (\<lambda>ob. sub_time now (obs_first_seen ob) < retention s) (ses_obs sess)\<rparr>)
                     else None)"
    using assms map_of_gc_keep [of "sessions s" now "retention s" sid]
    by (simp add: gc_def gc_sessions_spec store_inv_def)
  then show ?thesis by (auto simp: rows_def getSession_def split: option.splits)
qed

theorem gc_keeps_live_sessions_witness:
  "map obs_id (rows (gc demo_store (sec 600 + 5) 1) demo_sid) = []
   \<and> map obs_id (rows (gc demo_store (sec 100) 1) demo_sid) = [''a'', ''b'']"
proof -
  have inv: "store_inv demo_store" unfolding demo_store_def by (intro store_inv_run store_inv_newStore)
  have ret: "retention demo_store = sec 600"
    by (simp add: demo_store_def newStore_def putSession_def addObservationAt_def demo_parse)
  show ?thesis
    using gc_keeps_live_sessions [OF inv, of "sec 600 + 5" 1 demo_sid]
      gc_keeps_live_sessions [OF inv, of "sec 100" 1 demo_sid]
    by (simp add: demo_session ret sub_time_def)
qed

section \<open>Sessions that stay in the table\<close>

text \<open>A session that was live at \<open>c\<close> is still found at any earlier time after operations that keep it
  listed: every operation does, but for a collection more than a minute after \<open>c\<close> and for storing a
  session under the same id that is over before \<open>c\<close>.\<close>

fun keeps_listed :: "time \<Rightarrow> time \<times> store_op \<Rightarrow> bool" where
  "keeps_listed c (t, OpGc day) = (t \<le> c + sec 60)"
| "keeps_listed c (t, OpPut sid key expires created ip tests) = (c \<le> expires)"
| "keeps_listed c _ = True"

definition listed :: "bytes \<Rightarrow> time \<Rightarrow> store \<Rightarrow> bool" where
  "listed sid c s \<longleftrightarrow> (\<exists>sess. map_of (sessions s) sid = Some sess \<and> c \<le> ses_expires sess)"

lemma gc_sessions_listed:
  "map_of ss sid = Some sess \<Longrightarrow> now \<le> ses_expires sess + sec 60 \<Longrightarrow>
     \<exists>sess'. map_of (fst (gc_sessions now ret ss cnt)) sid = Some sess' \<and> ses_expires sess' = ses_expires sess"
proof (induction ss arbitrary: cnt)
  case (Cons x ss)
  obtain k b where x: "x = (k, b)" by fastforce
  show ?case
  proof (cases "sid = k")
    case True
    then show ?thesis using Cons.prems x by (auto simp: Let_def split: prod.splits)
  next
    case False
    then have IH: "\<exists>sess'. map_of (fst (gc_sessions now ret ss n)) sid = Some sess' \<and> ses_expires sess' = ses_expires sess" for n
      using Cons x by simp
    show ?thesis using False IH [of "cnt - int (length (ses_obs b))"]
        IH [of "cnt - (int (length (ses_obs b)) - int (length (List.filter (\<lambda>ob. sub_time now (obs_first_seen ob) < ret) (ses_obs b))))"]
      by (auto simp: x Let_def case_prod_beta)
  qed
qed simp

lemma listed_step:
  assumes "listed sid c s" and "keeps_listed c e"
  shows "listed sid c (fst (store_step s e))"
proof -
  obtain t op where e: "e = (t, op)" by fastforce
  show ?thesis
  proof (cases op)
    case (OpGc day)
    obtain sess where s: "map_of (sessions s) sid = Some sess" "c \<le> ses_expires sess" using assms(1) by (auto simp: listed_def)
    have "t \<le> ses_expires sess + sec 60" using assms(2) s(2) e OpGc by simp
    then obtain sess' where "map_of (fst (gc_sessions t (retention s) (sessions s) (obsCount s))) sid = Some sess'" "ses_expires sess' = ses_expires sess"
      using gc_sessions_listed [OF s(1)] by blast
    then show ?thesis using s(2) e OpGc by (auto simp: listed_def gc_def split: prod.splits)
  next
    case (OpAddObs ob rnd)
    then show ?thesis using assms(1) e by (auto simp: listed_def addObservationAt_def Let_def update_conv' split: option.splits sum.splits if_splits)
  qed (use assms e in \<open>auto simp: listed_def putSession_def reserve_def allowSession_def allowAttempt_def consumeBulk_def takeDrops_def findReservation_def Let_def
    update_conv' split: prod.splits option.splits if_splits\<close>)
qed

lemma listed_run: "listed sid c s \<Longrightarrow> list_all (keeps_listed c) ops \<Longrightarrow> listed sid c (store_run s ops)"
  by (induction ops arbitrary: s) (simp_all add: listed_step)

lemma getSession_listed: "getSession s sid c = Some sess \<Longrightarrow> listed sid c s" "listed sid c s \<Longrightarrow> t \<le> c \<Longrightarrow> \<exists>sess. getSession s sid t = Some sess"
  by (auto simp: getSession_def listed_def split: option.splits if_splits)

end
