(* ===== verification/Rate_Limit.thy ===== *)
theory Rate_Limit
  imports Store_Inv
begin

text \<open>
  The interface of a sliding-window rate limiter, and what every client of it can rely on: with a
  clock that never runs backwards, no closed interval of the window's length holds more grants for
  one key than the limit. The store provides it twice, for sessions (a minute) and for
  attempts (ten minutes), in the presence of every other operation of the store and of the
  collector, which forgets windows.
\<close>

fun step_trace :: "('s \<Rightarrow> 'e \<Rightarrow> 's \<times> 'r) \<Rightarrow> 's \<Rightarrow> 'e list \<Rightarrow> ('e \<times> 'r) list" where
  "step_trace step s [] = []"
| "step_trace step s (e # es) = (e, snd (step s e)) # step_trace step (fst (step s e)) es"

definition grant_times ::
  "('o \<Rightarrow> 'r \<Rightarrow> addr option) \<Rightarrow> addr \<Rightarrow> ((time \<times> 'o) \<times> 'r) list \<Rightarrow> time list"
where
  "grant_times grant k tr = map (\<lambda>x. fst (fst x)) (List.filter (\<lambda>x. grant (snd (fst x)) (snd x) = Some k) tr)"

definition in_window :: "duration \<Rightarrow> time \<Rightarrow> time list \<Rightarrow> time list" where
  "in_window len t0 ts = List.filter (\<lambda>t. t0 \<le> t \<and> t \<le> t0 + len) ts"

lemma prune_prune: "c \<le> d \<Longrightarrow> prune (prune ts c) d = prune ts d"
  by (induction ts c rule: prune.induct) auto

lemma prune_snoc: "d \<le> t \<Longrightarrow> prune (ts @ [t]) d = prune ts d @ [t]"
  by (induction ts d rule: prune.induct) auto

lemma prune_sorted: "sorted ts \<Longrightarrow> prune ts d = List.filter (\<lambda>t. d \<le> t) ts"
proof (induction ts d rule: prune.induct)
  case (2 t ts since)
  then show ?case by (auto intro!: filter_True [symmetric])
qed simp

lemma in_window_snoc:
  assumes "sorted ts" "int (length (prune ts (t - len))) < n" "length (in_window len t0 ts) \<le> nat n"
  shows "length (in_window len t0 (ts @ [t])) \<le> nat n"
proof (cases "t0 \<le> t \<and> t \<le> t0 + len")
  case True
  have "length (in_window len t0 ts) \<le> length (List.filter (\<lambda>u. t - len \<le> u) ts)"
    unfolding in_window_def using True by (induction ts) auto
  then show ?thesis
    using True assms(1,2) by (simp add: in_window_def prune_sorted)
next
  case False
  then show ?thesis using assms(3) by (auto simp: in_window_def)
qed

locale rate_limiter =
  fixes step :: "'s \<Rightarrow> time \<times> 'o \<Rightarrow> 's \<times> 'r"
    and grant :: "'o \<Rightarrow> 'r \<Rightarrow> addr option"
    and window :: "'s \<Rightarrow> addr \<Rightarrow> time list"
    and limit :: "'s \<Rightarrow> int"
    and len :: duration
  assumes len_nonneg: "0 \<le> len"
    and limit_step: "limit (fst (step s e)) = limit s"
    and granted: "grant op (snd (step s (t, op))) = Some k \<Longrightarrow>
        window (fst (step s (t, op))) k = prune (window s k) (t - len) @ [t]
        \<and> int (length (prune (window s k) (t - len))) < limit s"
    and not_granted: "grant op (snd (step s (t, op))) \<noteq> Some k \<Longrightarrow>
        window (fst (step s (t, op))) k = window s k
        \<or> window (fst (step s (t, op))) k = prune (window s k) (t - len)"
begin

lemma window_bound_from:
  assumes "sorted (T # map fst es)" "sorted G" "\<forall>u \<in> set G. u \<le> T"
    and "window s k = prune G c" "c \<le> T - len"
    and "length (in_window len t0 G) \<le> nat (limit s)"
  shows "length (in_window len t0 (G @ grant_times grant k (step_trace step s es))) \<le> nat (limit s)"
  using assms
proof (induction es arbitrary: s G c T)
  case Nil
  then show ?case by (simp add: grant_times_def)
next
  case (Cons e es)
  obtain t op where e: "e = (t, op)" by fastforce
  let ?s = "fst (step s e)"
  have t: "T \<le> t" "sorted (t # map fst es)" using Cons.prems(1) e by auto
  note prems = Cons.prems and IH = Cons.IH [of t _ ?s]
  have w: "prune (window s k) (t - len) = prune G (t - len)"
    using prems t by (simp add: prune_prune)
  have le: "u \<le> t" if "u \<in> set G" for u using that prems(3) t(1) by fastforce
  show ?case
  proof (cases "grant op (snd (step s e)) = Some k")
    case True
    then have g: "window ?s k = prune G (t - len) @ [t]" "int (length (prune G (t - len))) < limit s"
      using granted [of op s t k] w e by auto
    have "length (in_window len t0 ((G @ [t]) @ grant_times grant k (step_trace step ?s es))) \<le> nat (limit ?s)"
      by (rule IH [of "G @ [t]" "t - len"])
         (use g t prems le len_nonneg in \<open>auto simp: sorted_append prune_snoc limit_step intro: in_window_snoc\<close>)
    then show ?thesis using True e by (simp add: grant_times_def limit_step)
  next
    case False
    then have "window ?s k = prune G c \<or> window ?s k = prune G (t - len)"
      using not_granted [of op s t k] w e prems by auto
    then obtain c' where "window ?s k = prune G c'" "c' \<le> t - len"
      using prems(5) t(1) by fastforce
    then have "length (in_window len t0 (G @ grant_times grant k (step_trace step ?s es))) \<le> nat (limit ?s)"
      using t prems le by (intro IH [of G c']) (auto simp: limit_step)
    then show ?thesis using False e by (simp add: grant_times_def limit_step)
  qed
qed

lemma window_bound:
  assumes "sorted (map fst es)" "window s k = []"
  shows "length (in_window len t0 (grant_times grant k (step_trace step s es))) \<le> nat (limit s)"
proof (cases es)
  case Nil
  then show ?thesis by (simp add: grant_times_def in_window_def)
next
  case (Cons e es')
  then show ?thesis
    using window_bound_from [of "fst e" es "[]" s k "fst e - len" t0] assms by (simp add: in_window_def)
qed

end

section \<open>The two limiters of the store\<close>

definition sess_grant :: "store_op \<Rightarrow> store_result \<Rightarrow> addr option" where
  "sess_grant op r = (case (op, r) of (OpAllowSession ip, Granted True) \<Rightarrow> Some (rateKey ip) | _ \<Rightarrow> None)"

definition attempt_grant :: "store_op \<Rightarrow> store_result \<Rightarrow> addr option" where
  "attempt_grant op r = (case (op, r) of (OpAllowAttempt ip, Granted True) \<Rightarrow> Some (rateKey ip) | _ \<Rightarrow> None)"

lemma addObservationAt_rates:
  "sessRate (fst (addObservationAt s ob rnd now)) = sessRate s"
  "attemptRate (fst (addObservationAt s ob rnd now)) = attemptRate s"
  "sessPerMin (fst (addObservationAt s ob rnd now)) = sessPerMin s"
  "attPer10Min (fst (addObservationAt s ob rnd now)) = attPer10Min s"
  "bulkUsed (fst (addObservationAt s ob rnd now)) = bulkUsed s"
  "bulkPerDay (fst (addObservationAt s ob rnd now)) = bulkPerDay s"
  "reservations (fst (addObservationAt s ob rnd now)) = reservations s"
  by (cases rule: addObservationAt_cases [of s ob rnd now]; simp)+

lemma findReservation_limits:
  "sessPerMin (fst (findReservation s ip tr port kind now c)) = sessPerMin s"
  "attPer10Min (fst (findReservation s ip tr port kind now c)) = attPer10Min s"
  "bulkPerDay (fst (findReservation s ip tr port kind now c)) = bulkPerDay s"
  by (simp_all add: findReservation_def Let_def split: option.splits prod.splits)

lemmas untouched = addObservationAt_rates findReservation_limits findReservation_other putSession_def
  reserve_def takeDrops_def consumeBulk_def gc_def gc_sessions_spec Let_def

lemma limits_step:
  "sessPerMin (fst (store_step s e)) = sessPerMin s"
  "attPer10Min (fst (store_step s e)) = attPer10Min s"
  "bulkPerDay (fst (store_step s e)) = bulkPerDay s"
  by (cases "(s, e)" rule: store_step.cases; simp add: untouched allowSession_def allowAttempt_def)+

interpretation sess_limit: rate_limiter store_step sess_grant sessRate sessPerMin "sec 60"
proof
  fix s :: store and t op k
  let ?s = "fst (store_step s (t, op))" and ?w = "prune (sessRate s k) (t - sec 60)"
  show "sess_grant op (snd (store_step s (t, op))) = Some k \<Longrightarrow>
      sessRate ?s k = ?w @ [t] \<and> int (length ?w) < sessPerMin s"
    by (cases op) (auto simp: sess_grant_def allowSession_def Let_def split: store_result.splits bool.splits if_splits)
  show "sess_grant op (snd (store_step s (t, op))) \<noteq> Some k \<Longrightarrow> sessRate ?s k = sessRate s k \<or> sessRate ?s k = ?w"
    by (cases op) (auto simp: sess_grant_def allowSession_def allowAttempt_def untouched gc_rate_def split: if_splits)
qed (simp_all add: limits_step)

interpretation attempt_limit: rate_limiter store_step attempt_grant attemptRate attPer10Min "sec 600"
proof
  fix s :: store and t op k
  let ?s = "fst (store_step s (t, op))" and ?w = "prune (attemptRate s k) (t - sec 600)"
  show "attempt_grant op (snd (store_step s (t, op))) = Some k \<Longrightarrow>
      attemptRate ?s k = ?w @ [t] \<and> int (length ?w) < attPer10Min s"
    by (cases op) (auto simp: attempt_grant_def allowAttempt_def Let_def split: store_result.splits bool.splits if_splits)
  show "attempt_grant op (snd (store_step s (t, op))) \<noteq> Some k \<Longrightarrow>
      attemptRate ?s k = attemptRate s k \<or> attemptRate ?s k = ?w"
    by (cases op) (auto simp: attempt_grant_def allowSession_def allowAttempt_def untouched gc_rate_def split: if_splits)
qed (simp_all add: limits_step)

text \<open>C16. Session creation is rate limited: in every execution of the server whose clock does not run
  backwards, interleaved with any other operation and any collection, no closed minute holds more
  than the configured number of sessions granted to one address (one /64 for IPv6).\<close>

theorem session_rate_limit:
  assumes "sorted (map fst es)"
  shows "length (in_window (sec 60) t0
            (grant_times sess_grant k (step_trace store_step (newStore maxObs ret perMin per10Min) es)))
         \<le> nat perMin"
  using sess_limit.window_bound [OF assms, of "newStore maxObs ret perMin per10Min" k t0]
  by (simp add: newStore_def)

definition demo_burst :: "(time \<times> store_op) list" where
  "demo_burst = [(0, OpAllowSession (Addr4 7)), (1, OpAllowSession (Addr4 7)), (2, OpGc 1),
                 (sec 60, OpAllowSession (Addr4 7)), (sec 60 + 2, OpAllowSession (Addr4 7))]"

theorem session_rate_limit_witness:
  "grant_times sess_grant (Addr4 7) (step_trace store_step (newStore 9 (sec 600) 1 9) demo_burst) = [0, sec 60 + 2]
   \<and> length (in_window (sec 60) 2
        (grant_times sess_grant (Addr4 7) (step_trace store_step (newStore 9 (sec 600) 1 9) demo_burst))) \<le> 1"
proof
  show "grant_times sess_grant (Addr4 7) (step_trace store_step (newStore 9 (sec 600) 1 9) demo_burst) = [0, sec 60 + 2]"
    by (simp add: demo_burst_def grant_times_def sess_grant_def allowSession_def newStore_def gc_def gc_rate_def
        rateKey_def Unmap_def Is4In6_def Let_def)
  show "length (in_window (sec 60) 2
        (grant_times sess_grant (Addr4 7) (step_trace store_step (newStore 9 (sec 600) 1 9) demo_burst))) \<le> 1"
    using session_rate_limit [of demo_burst 2 "Addr4 7" 9 "sec 600" 1 9] by (simp add: demo_burst_def)
qed

text \<open>Attempts (reservations and envelopes) are rate limited: under the same conditions no closed ten
  minutes hold more than the configured number of attempts granted to one address.\<close>

theorem attempt_rate_limit:
  assumes "sorted (map fst es)"
  shows "length (in_window (sec 600) t0
            (grant_times attempt_grant k (step_trace store_step (newStore maxObs ret perMin per10Min) es)))
         \<le> nat per10Min"
  using attempt_limit.window_bound [OF assms, of "newStore maxObs ret perMin per10Min" k t0]
  by (simp add: newStore_def)

theorem attempt_rate_limit_witness:
  "length (in_window (sec 600) 0 (grant_times attempt_grant (Addr4 7)
      (step_trace store_step (newStore 9 (sec 600) 1 1) [(0, OpAllowAttempt (Addr4 7)), (5, OpAllowAttempt (Addr4 7))]))) \<le> 1"
  using attempt_rate_limit [of "[(0, OpAllowAttempt (Addr4 7)), (5, OpAllowAttempt (Addr4 7))]" 0 "Addr4 7" 9 "sec 600" 1 1]
  by simp

end
