(* ===== verification/Reservations.thy ===== *)
theory Reservations
  imports Rate_Limit
begin

text \<open>
  Reservations and quotas of the store: a lookup returns the newest open window of the flow and
  changes nothing else, a window is consumed at most once in any execution, and the bytes granted
  on one day stay within the per-address and the global quota.
\<close>

section \<open>Lookup\<close>

fun best_of :: "(reservation \<Rightarrow> bool) \<Rightarrow> reservation list \<Rightarrow> (nat \<times> reservation) option \<Rightarrow> bool" where
  "best_of p rs None \<longleftrightarrow> (\<forall>r \<in> set rs. \<not> p r)"
| "best_of p rs (Some (i, r)) \<longleftrightarrow>
     i < length rs \<and> rs ! i = r \<and> p r \<and> (\<forall>q \<in> set rs. p q \<longrightarrow> res_expires q \<le> res_expires r)"

lemma pick_res_from:
  "best_of p pre best \<Longrightarrow> best_of p (pre @ rs) (pick_res p rs (length pre) best)"
proof (induction rs arbitrary: pre best)
  case (Cons r rs)
  let ?best = "if \<not> p r then best
    else case best of None \<Rightarrow> Some (length pre, r)
         | Some (_, b) \<Rightarrow> if res_expires r > res_expires b then Some (length pre, r) else best"
  have "best_of p (pre @ [r]) ?best"
    using Cons.prems by (cases best) (force simp: nth_append split: prod.splits)+
  from Cons.IH [OF this] show ?case by simp
qed simp

lemma pick_res_best: "best_of p rs (pick_res p rs 0 None)"
  using pick_res_from [of p "[]" None rs] by simp

lemma findReservation_cases:
  obtains (none) "findReservation s ip tr port kind now c = (s, None)"
    "\<forall>r \<in> set (reservations s). \<not> res_matches (Unmap ip) tr port kind now r"
  | (some) i r where "i < length (reservations s)" "reservations s ! i = r"
    "res_matches (Unmap ip) tr port kind now r"
    "\<forall>q \<in> set (reservations s). res_matches (Unmap ip) tr port kind now q \<longrightarrow> res_expires q \<le> res_expires r"
    "findReservation s ip tr port kind now c =
       (if c then (s\<lparr>reservations := (reservations s)[i := r\<lparr>res_used := True\<rparr>]\<rparr>, Some (r\<lparr>res_used := True\<rparr>))
        else (s, Some r))"
proof -
  let ?p = "res_matches (Unmap ip) tr port kind now"
  have b: "best_of ?p (reservations s) (pick_res ?p (reservations s) 0 None)"
    by (rule pick_res_best)
  show thesis
  proof (cases "pick_res ?p (reservations s) 0 None")
    case None
    then show thesis using b none by (simp add: findReservation_def Let_def)
  next
    case (Some x)
    obtain i r where "x = (i, r)" by fastforce
    then show thesis using b Some some [of i r] by (simp add: findReservation_def Let_def)
  qed
qed

text \<open>Finding the reservation of a flow: it returns nothing exactly when no unused, unexpired
  reservation of that address, transport and port (and kind, where both name one) exists;
  otherwise it returns one of those with the latest expiry. Without consuming, the store is
  unchanged; consuming marks exactly that reservation used.\<close>

theorem find_reservation_newest:
  "case findReservation s ip tr port kind now c of
     (s', None) \<Rightarrow> s' = s \<and> List.filter (res_matches (Unmap ip) tr port kind now) (reservations s) = []
   | (s', Some r) \<Rightarrow>
       \<exists>i < length (reservations s).
         let q = reservations s ! i
         in res_matches (Unmap ip) tr port kind now q
            \<and> res_expires q = Max (res_expires ` set (List.filter (res_matches (Unmap ip) tr port kind now) (reservations s)))
            \<and> r = (if c then q\<lparr>res_used := True\<rparr> else q)
            \<and> s' = (if c then s\<lparr>reservations := (reservations s)[i := r]\<rparr> else s)"
proof (cases rule: findReservation_cases [of s ip tr port kind now c])
  case none
  then show ?thesis by simp
next
  case (some i r)
  have "res_expires r = Max (res_expires ` set (List.filter (res_matches (Unmap ip) tr port kind now) (reservations s)))"
    using some(1-4) nth_mem [OF some(1)] by (intro Max_eqI [symmetric]) auto
  then show ?thesis using some by (auto intro!: exI [of _ i] simp: Let_def)
qed

section \<open>A window is consumed at most once\<close>

fun issued :: "(time \<times> store_op) list \<Rightarrow> string list" where
  "issued [] = []"
| "issued ((t, OpReserve r rnd) # es) = hex_encode rnd # issued es"
| "issued (e # es) = issued es"

fun consumed :: "((time \<times> store_op) \<times> store_result) list \<Rightarrow> string list" where
  "consumed [] = []"
| "consumed (((t, OpFind ip tr port kind True), Found (Some r)) # tr') = res_id r # consumed tr'"
| "consumed (x # tr') = consumed tr'"

definition used_up :: "string set \<Rightarrow> store \<Rightarrow> bool" where
  "used_up U s \<longleftrightarrow> distinct (map res_id (reservations s))
     \<and> (\<forall>r \<in> set (reservations s). res_id r \<in> U \<longrightarrow> res_used r)"

lemma used_up_cong: "used_up U s \<Longrightarrow> reservations t = reservations s \<Longrightarrow> used_up U t"
  by (simp add: used_up_def)

lemma used_up_gc: "used_up U s \<Longrightarrow> used_up U (gc s now day)"
  by (auto simp: used_up_def gc_def gc_sessions_spec distinct_map_filter)

lemma used_up_reserve:
  "used_up U s \<Longrightarrow> hex_encode rnd \<notin> res_id ` set (reservations s) \<Longrightarrow> hex_encode rnd \<notin> U
   \<Longrightarrow> used_up U (fst (reserve s r rnd))"
  by (auto simp: used_up_def reserve_def Let_def)

lemma used_up_find:
  assumes "used_up U s" "findReservation s ip tr port kind now True = (s', Some r)"
  shows "res_id r \<notin> U \<and> res_id r \<in> res_id ` set (reservations s) \<and> used_up (insert (res_id r) U) s'
         \<and> map res_id (reservations s') = map res_id (reservations s)"
proof (cases rule: findReservation_cases [of s ip tr port kind now True])
  case none
  then show ?thesis using assms by simp
next
  case (some i q)
  let ?rs = "(reservations s)[i := q\<lparr>res_used := True\<rparr>]"
  have r: "r = q\<lparr>res_used := True\<rparr>" and s': "s' = s\<lparr>reservations := ?rs\<rparr>"
    using some(5) assms(2) by auto
  have mem: "q \<in> set (reservations s)" and unused: "\<not> res_used q"
    using some(1-3) by (auto simp: res_matches_def)
  have ids: "map res_id ?rs = map res_id (reservations s)"
    using some(1,2) by (simp add: map_update list_update_same_conv)
  have "res_used x" if x: "x \<in> set ?rs" and idx: "res_id x \<in> insert (res_id q) U" for x
  proof (cases "x = q\<lparr>res_used := True\<rparr>")
    case False
    obtain j where "j < length ?rs" "?rs ! j = x"
      using x unfolding in_set_conv_nth [of x ?rs] by blast
    with False some(1) have j: "j < length (reservations s)" "j \<noteq> i" "reservations s ! j = x"
      by (auto simp: nth_list_update split: if_splits)
    have "distinct (map res_id (reservations s))"
      using assms(1) by (simp add: used_up_def)
    then have "res_id x \<noteq> res_id q"
      using nth_eq_iff_index_eq [of "map res_id (reservations s)" i j] some(1,2) j by auto
    then show ?thesis using idx j assms(1) by (auto simp: used_up_def)
  qed simp
  then have "used_up (insert (res_id q) U) s'"
    using assms(1) ids unfolding used_up_def s' by simp
  moreover have "res_id q \<notin> U"
    using assms(1) mem unused by (auto simp: used_up_def)
  ultimately show ?thesis using r s' ids mem by simp
qed

lemma consumed_once_from:
  assumes "used_up U s" "distinct (issued es)" "set (issued es) \<inter> (U \<union> res_id ` set (reservations s)) = {}"
  shows "distinct (consumed (step_trace store_step s es)) \<and> set (consumed (step_trace store_step s es)) \<inter> U = {}"
  using assms
proof (induction es arbitrary: s U)
  case (Cons e es)
  let ?s = "fst (store_step s e)"
  have keep: ?case if "used_up U ?s" "res_id ` set (reservations ?s) \<subseteq> res_id ` set (reservations s)"
      "issued (e # es) = issued es" "consumed (step_trace store_step s (e # es)) = consumed (step_trace store_step ?s es)"
  proof -
    have "set (issued es) \<inter> (U \<union> res_id ` set (reservations ?s)) = {}"
      using Cons.prems(3) that(2) unfolding that(3) by blast
    moreover have "distinct (issued es)"
      using Cons.prems(2) unfolding that(3) .
    ultimately show ?thesis
      unfolding that(4) by (intro Cons.IH [OF that(1)])
  qed
  have other: ?case if "reservations ?s = reservations s" "issued (e # es) = issued es"
      "consumed (step_trace store_step s (e # es)) = consumed (step_trace store_step ?s es)"
    using keep [OF used_up_cong [OF Cons.prems(1) that(1)] _ that(2,3)] that(1) by simp
  show ?case
  proof (cases "(s, e)" rule: store_step.cases)
    case (2 t now r rnd)
    then have "used_up U ?s" "set (reservations ?s) = insert (r\<lparr>res_id := hex_encode rnd\<rparr>) (set (reservations s))"
      using Cons.prems used_up_reserve [of U s rnd r] by (auto simp: reserve_def Let_def)
    then show ?thesis using Cons.IH [of U ?s] Cons.prems 2 by auto
  next
    case (3 t now ip tr port kind c)
    show ?thesis
    proof (cases "c \<and> snd (findReservation s ip tr port kind now c) \<noteq> None")
      case True
      then obtain r where r: "findReservation s ip tr port kind now True = (?s, Some r)"
        using 3 by (cases "findReservation s ip tr port kind now c") auto
      note f = used_up_find [OF Cons.prems(1) r]
      have ids: "res_id ` set (reservations ?s) = res_id ` set (reservations s)"
        using f by (metis set_map)
      have iss: "issued (e # es) = issued es" using 3 by simp
      have "snd (store_step s e) = Found (Some r)" using 3 True arg_cong [OF r, of snd] by simp
      then have tail: "consumed (step_trace store_step s (e # es)) = res_id r # consumed (step_trace store_step ?s es)"
        using 3 True by simp
      have "set (issued es) \<inter> (insert (res_id r) U \<union> res_id ` set (reservations ?s)) = {}"
        using Cons.prems(3) f unfolding ids iss by blast
      then have "distinct (consumed (step_trace store_step ?s es))
          \<and> set (consumed (step_trace store_step ?s es)) \<inter> insert (res_id r) U = {}"
        using Cons.IH [of "insert (res_id r) U" ?s] Cons.prems(2) f iss by simp
      then show ?thesis unfolding tail using f by simp
    next
      case False
      have "used_up U ?s \<and> reservations ?s = reservations s"
        using False Cons.prems(1) 3 by (cases rule: findReservation_cases [of s ip tr port kind now c]) auto
      moreover have "consumed (step_trace store_step s (e # es)) = consumed (step_trace store_step ?s es)"
        using 3 False by (cases c; cases "snd (findReservation s ip tr port kind now c)") auto
      moreover have "issued (e # es) = issued es" using 3 by simp
      ultimately show ?thesis by (intro keep) simp_all
    qed
  next
    case (5 t now day)
    then show ?thesis
      using Cons.prems(1) used_up_gc [OF Cons.prems(1), of now day]
      by (intro keep) (auto simp: gc_def gc_sessions_spec)
  qed (rule other; simp add: untouched allowSession_def allowAttempt_def)+
qed simp

text \<open>C17. A reservation is consumed by at most one flow: in every execution in which the random ids
  issued are distinct, the ids returned by consuming lookups are distinct, whatever else happens
  in between, collections included.\<close>

theorem reservation_consumed_once:
  assumes "distinct (issued es)"
  shows "distinct (consumed (step_trace store_step (newStore maxObs ret perMin per10Min) es))"
  using consumed_once_from [of "{}" "newStore maxObs ret perMin per10Min" es] assms
  by (simp add: used_up_def newStore_def)

definition demo_window :: reservation where
  "demo_window = \<lparr>res_id = '''', res_session = demo_sid, res_expires = 50, res_client = Addr4 7,
     res_dst_port = 443, res_transport = ''tcp'', res_kind = ParseTLS, res_test = ''tls.sni'', res_variant = '''',
     res_used = False\<rparr>"

definition demo_flows :: "(time \<times> store_op) list" where
  "demo_flows = [(0, OpReserve demo_window [1]), (1, OpReserve demo_window [2]),
     (2, OpFind (Addr4 7) ''tcp'' 443 ParseTLS True), (3, OpFind (Addr4 7) ''tcp'' 443 ParseTLS True),
     (4, OpFind (Addr4 7) ''tcp'' 443 ParseTLS True)]"

theorem reservation_consumed_once_witness:
  "consumed (step_trace store_step (newStore 9 9 9 9) demo_flows) = [hex_encode [1], hex_encode [2]]
   \<and> distinct (consumed (step_trace store_step (newStore 9 9 9 9) demo_flows))"
proof
  show "consumed (step_trace store_step (newStore 9 9 9 9) demo_flows) = [hex_encode [1], hex_encode [2]]"
    by (simp add: demo_flows_def newStore_def reserve_def findReservation_def res_matches_def demo_window_def
        Let_def Unmap_def)
  show "distinct (consumed (step_trace store_step (newStore 9 9 9 9) demo_flows))"
    by (rule reservation_consumed_once) (simp add: demo_flows_def hex_encode_inj)
qed

section \<open>The bulk quota\<close>

text \<open>The bytes granted by a trace on a day to one address, and to all.\<close>

fun granted_to :: "int \<Rightarrow> addr \<Rightarrow> ((time \<times> store_op) \<times> store_result) list \<Rightarrow> int" where
  "granted_to d k [] = 0"
| "granted_to d k (((t, OpBulk ip n day), Granted True) # tr) = (if day = d \<and> rateKey ip = k then n else 0) + granted_to d k tr"
| "granted_to d k (x # tr) = granted_to d k tr"

fun granted_all :: "int \<Rightarrow> ((time \<times> store_op) \<times> store_result) list \<Rightarrow> int" where
  "granted_all d [] = 0"
| "granted_all d (((t, OpBulk ip n day), Granted True) # tr) = (if day = d then n else 0) + granted_all d tr"
| "granted_all d (x # tr) = granted_all d tr"

text \<open>The days that the bulk requests and the collections of an execution carry, in order. A day is one stretch of
  them when it does not come back once another one has begun. Amounts are such that an \<open>int64\<close> sum
  cannot overflow with them.\<close>

fun day_of :: "time \<times> store_op \<Rightarrow> int list" where
  "day_of (t, OpBulk ip n day) = [day]"
| "day_of (t, OpGc day) = [day]"
| "day_of e = []"

definition days :: "(time \<times> store_op) list \<Rightarrow> int list" where
  "days es = concat (map day_of es)"

definition one_stretch :: "int \<Rightarrow> int list \<Rightarrow> bool" where
  "one_stretch d ds \<longleftrightarrow> d \<notin> set (dropWhile (\<lambda>x. x = d) (dropWhile (\<lambda>x. x \<noteq> d) ds))"

fun amount_ok :: "time \<times> store_op \<Rightarrow> bool" where
  "amount_ok (t, OpBulk ip n day) \<longleftrightarrow> 0 \<le> n \<and> n < 2 ^ 62"
| "amount_ok e \<longleftrightarrow> True"

definition spent :: "store \<Rightarrow> int \<Rightarrow> addr \<Rightarrow> int" where
  "spent s d k = use_bytes (day_use (bulkUsed s) k d)"

definition in_quota :: "store \<Rightarrow> int \<Rightarrow> addr \<Rightarrow> bool" where
  "in_quota s d k \<longleftrightarrow> bulkPerDay s = 67108864 \<and> 0 \<le> spent s d AddrZero \<and> spent s d AddrZero \<le> bulkGlobalPerDay
     \<and> 0 \<le> spent s d k \<and> (k \<noteq> AddrZero \<longrightarrow> spent s d k \<le> 67108864)"

lemma days_Cons [simp]: "days [] = []" "days (e # es) = day_of e @ days es"
  by (simp_all add: days_def)

lemma day_use_gc:
  "day_use (\<lambda>k. case m k of None \<Rightarrow> None | Some u \<Rightarrow> if use_day u \<noteq> d then None else Some u) k d = day_use m k d"
  by (simp add: day_use_def split: option.splits)

lemma day_use_day [simp]: "use_day (day_use m k d) = d"
  by (simp add: day_use_def split: option.splits)

lemma day_use_upd: "use_day u = d \<Longrightarrow> day_use (m(j \<mapsto> u)) k d = (if k = j then u else day_use m k d)"
  by (simp add: day_use_def)

lemma spent_cong: "bulkUsed t = bulkUsed s \<Longrightarrow> spent t d k = spent s d k"
  by (simp add: spent_def)

lemma spent_consumeBulk:
  assumes "in_quota s d (rateKey ip)" "0 \<le> n" "n < 2 ^ 62"
  shows "case consumeBulk s ip n d of
           (s', g) \<Rightarrow> s' = s \<and> \<not> g
             \<or> g \<and> spent s' d k = spent s d k + (if k = AddrZero \<or> k = rateKey ip then n else 0)
               \<and> spent s d AddrZero + n \<le> bulkGlobalPerDay \<and> bulkPerDay s' = bulkPerDay s
               \<and> (rateKey ip \<noteq> AddrZero \<longrightarrow> spent s d (rateKey ip) + n \<le> bulkPerDay s)"
proof -
  have bounds: "0 \<le> spent s d AddrZero" "spent s d AddrZero \<le> bulkGlobalPerDay"
      "0 \<le> spent s d (rateKey ip)" "spent s d (rateKey ip) \<le> bulkGlobalPerDay" "bulkPerDay s = 67108864"
    using assms(1) by (cases "rateKey ip = AddrZero"; simp add: in_quota_def)+
  then have "wrap64 (spent s d (rateKey ip) + n) = spent s d (rateKey ip) + n"
      "wrap64 (spent s d AddrZero + n) = spent s d AddrZero + n"
    using assms(2,3) by (simp_all add: wrap64_id)
  then show ?thesis using bounds(5)
    by (auto simp: consumeBulk_def Let_def spent_def [symmetric]) (auto simp: spent_def day_use_upd)
qed

lemma bulkUsed_other: "day_of e = [] \<Longrightarrow> bulkUsed (fst (store_step s e)) = bulkUsed s"
  by (cases "(s, e)" rule: store_step.cases) (auto simp: allowSession_def allowAttempt_def untouched)

lemma spent_other_step:
  assumes "set (day_of e) \<subseteq> {d}" "\<And>ip n day. snd e \<noteq> OpBulk ip n day"
  shows "spent (fst (store_step s e)) d k = spent s d k"
proof (cases "(s, e)" rule: store_step.cases)
  case (5 t now day)
  then show ?thesis using assms by (simp add: spent_def gc_def gc_sessions_spec day_use_gc)
next
  case (8 t now ip n day)
  then show ?thesis using assms(2) by auto
qed (auto intro: spent_cong simp: allowSession_def allowAttempt_def untouched)

lemma granted_other:
  assumes "d \<notin> set (day_of e) \<or> (\<forall>ip n day. snd e \<noteq> OpBulk ip n day)"
  shows "granted_to d k ((e, r) # tr) = granted_to d k tr" "granted_all d ((e, r) # tr) = granted_all d tr"
proof -
  obtain t op where e: "e = (t, op)" by fastforce
  show "granted_to d k ((e, r) # tr) = granted_to d k tr" "granted_all d ((e, r) # tr) = granted_all d tr"
    using assms unfolding e by (cases op; cases r; cases "r = Granted True"; auto)+
qed

text \<open>Nothing is granted on a day that does not occur.\<close>

lemma granted_never: "d \<notin> set (days es) \<Longrightarrow> granted_to d k (step_trace store_step s es) = 0 \<and> granted_all d (step_trace store_step s es) = 0"
  by (induction es arbitrary: s) (simp_all add: granted_other)

text \<open>From a store within its quota, until the day is over.\<close>

lemma quota_from:
  assumes "d \<notin> set (dropWhile (\<lambda>x. x = d) (days es))" "list_all amount_ok es" "\<And>j. in_quota s d j" "k \<noteq> AddrZero"
  shows "spent s d k + granted_to d k (step_trace store_step s es) \<le> 67108864
         \<and> spent s d AddrZero + granted_all d (step_trace store_step s es) \<le> bulkGlobalPerDay"
  using assms(1-3)
proof (induction es arbitrary: s)
  case Nil
  then show ?case using assms(4) by (simp add: in_quota_def)
next
  case (Cons e es)
  let ?s = "fst (store_step s e)"
  consider (over) x where "day_of e = [x]" "x \<noteq> d" | (bulk) t ip n where "e = (t, OpBulk ip n d)"
    | (other) "set (day_of e) \<subseteq> {d}" "\<And>ip n day. snd e \<noteq> OpBulk ip n day"
    by (cases e rule: day_of.cases) auto
  then show ?case
  proof cases
    case over
    then have "d \<notin> set (days (e # es))" using Cons.prems(1) by auto
    then show ?thesis using granted_never [of d "e # es" k s] Cons.prems(3) [of k] assms(4) by (simp add: in_quota_def)
  next
    case other
    then have sp: "spent ?s d j = spent s d j" for j using spent_other_step by blast
    then have "in_quota ?s d j" for j using Cons.prems(3) [of j] by (simp add: in_quota_def limits_step)
    moreover have "d \<notin> set (dropWhile (\<lambda>x. x = d) (days es))" using Cons.prems(1) other(1) by (cases e rule: day_of.cases) auto
    ultimately show ?thesis using Cons.IH [of ?s] Cons.prems(2) other(2) by (simp add: granted_other sp)
  next
    case bulk
    then have n: "0 \<le> n" "n < 2 ^ 62" using Cons.prems(2) by simp_all
    obtain s' g where c: "consumeBulk s ip n d = (s', g)" by fastforce
    then have s': "?s = s'" by (simp add: bulk)
    note sp = spent_consumeBulk [where ip = ip, OF Cons.prems(3) n]
    have "in_quota s' d j" for j
      using sp [of j] sp [of AddrZero] c Cons.prems(3) [of j] n(1) limits_step(3) [of s e] s'
      by (cases "j = AddrZero") (auto simp: in_quota_def)
    then have "spent s' d k + granted_to d k (step_trace store_step s' es) \<le> 67108864
        \<and> spent s' d AddrZero + granted_all d (step_trace store_step s' es) \<le> bulkGlobalPerDay"
      using Cons.IH [of s'] Cons.prems(1,2) bulk by simp
    then show ?thesis
      using sp [of k] sp [of AddrZero] c bulk s' assms(4) by (cases g) auto
  qed
qed

text \<open>Before the day begins no counter carries it.\<close>

definition not_yet :: "store \<Rightarrow> int \<Rightarrow> bool" where
  "not_yet s d \<longleftrightarrow> bulkPerDay s = 67108864 \<and> (\<forall>k u. bulkUsed s k = Some u \<longrightarrow> use_day u \<noteq> d)"

lemma not_yet_quota: "not_yet s d \<Longrightarrow> in_quota s d j"
proof -
  assume "not_yet s d"
  then have "spent s d i = 0" for i by (auto simp: not_yet_def spent_def day_use_def split: option.splits)
  then show ?thesis using \<open>not_yet s d\<close> by (simp add: in_quota_def not_yet_def)
qed

lemma not_yet_step:
  assumes "not_yet s d" "d \<notin> set (day_of e)"
  shows "not_yet (fst (store_step s e)) d"
proof -
  consider (bulk) t ip n day where "e = (t, OpBulk ip n day)" | (gc) t day where "e = (t, OpGc day)" | (other) "day_of e = []"
    by (cases e rule: day_of.cases) auto
  then show ?thesis
  proof cases
    case other
    then show ?thesis using bulkUsed_other [OF other] limits_step(3) [of s e] assms(1) by (simp add: not_yet_def)
  qed (use assms in \<open>auto simp: not_yet_def consumeBulk_def Let_def gc_def gc_sessions_spec split: option.splits if_splits\<close>)
qed

lemma quota_day:
  assumes "one_stretch d (days es)" "list_all amount_ok es" "not_yet s d" "k \<noteq> AddrZero"
  shows "granted_to d k (step_trace store_step s es) \<le> 67108864 \<and> granted_all d (step_trace store_step s es) \<le> bulkGlobalPerDay"
  using assms(1-3)
proof (induction es arbitrary: s)
  case (Cons e es)
  show ?case
  proof (cases "d \<in> set (day_of e)")
    case True
    then have "d \<notin> set (dropWhile (\<lambda>x. x = d) (days (e # es)))" using Cons.prems(1) by (cases e rule: day_of.cases) (auto simp: one_stretch_def)
    from quota_from [OF this Cons.prems(2) not_yet_quota [OF Cons.prems(3)] assms(4)]
    show ?thesis using not_yet_quota [OF Cons.prems(3), of k] by (simp add: in_quota_def)
  next
    case False
    then have "one_stretch d (days es)" using Cons.prems(1) by (cases e rule: day_of.cases) (auto simp: one_stretch_def)
    then show ?thesis using Cons.IH [OF _ _ not_yet_step [OF Cons.prems(3) False]] Cons.prems(2) False by (simp add: granted_other)
  qed
qed simp

text \<open>C22. The bulk quota: over any execution from a fresh store, on every day, the bytes granted to one address stay
  within 64 MiB and the bytes granted to all addresses within 4 GiB, however many days the execution
  spans and whatever was granted on the others. What is assumed of the day is that it is one stretch: no
  bulk request or collection carries it again after one that carries another day (the code takes the day
  of the year, so this covers a run of up to a year whose clock does not go back over midnight); and of
  the amounts that they are not negative and below 2 to the 62. (64 MiB is the allowance a store starts with; a configuration
  may set another one per address.)\<close>

theorem bulk_quota:
  assumes "one_stretch d (days es)" and "list_all amount_ok es" and "k \<noteq> AddrZero"
  shows "granted_to d k (step_trace store_step (newStore maxObs ret perMin per10Min) es) \<le> 67108864
         \<and> granted_all d (step_trace store_step (newStore maxObs ret perMin per10Min) es) \<le> 4294967296"
  using quota_day [OF assms(1,2) _ assms(3), of "newStore maxObs ret perMin per10Min"]
  by (simp add: not_yet_def newStore_def)

definition demo_bulk :: "(time \<times> store_op) list" where
  "demo_bulk = [(0, OpBulk (Addr4 7) 50000000 4), (1, OpGc 4), (2, OpBulk (Addr4 7) 60000000 5), (3, OpGc 5),
                (4, OpBulk (Addr4 7) 60000000 5), (5, OpBulk (Addr4 7) 7000000 5), (6, OpBulk (Addr4 7) 60000000 6)]"

theorem bulk_quota_witness:
  "granted_to 5 (Addr4 7) (step_trace store_step (newStore 9 9 9 9) demo_bulk) = 67000000
   \<and> granted_to 6 (Addr4 7) (step_trace store_step (newStore 9 9 9 9) demo_bulk) = 60000000
   \<and> granted_to 5 (Addr4 7) (step_trace store_step (newStore 9 9 9 9) demo_bulk) \<le> 67108864"
proof (intro conjI)
  show "granted_to 5 (Addr4 7) (step_trace store_step (newStore 9 9 9 9) demo_bulk) = 67000000"
    "granted_to 6 (Addr4 7) (step_trace store_step (newStore 9 9 9 9) demo_bulk) = 60000000"
    by (simp_all add: demo_bulk_def newStore_def consumeBulk_def gc_def rateKey_def Unmap_def day_use_def Let_def wrap64_id)
  show "granted_to 5 (Addr4 7) (step_trace store_step (newStore 9 9 9 9) demo_bulk) \<le> 67108864"
    using bulk_quota [of 5 demo_bulk "Addr4 7" 9 9 9 9] by (simp add: demo_bulk_def one_stretch_def)
qed

end
