(* ===== verification/Attempt.thy ===== *)
theory Attempt
  imports Evidence
begin

text \<open>
  The client's attempts (\<open>internal/client/attempt.go\<close>): creating and ending an attempt, naming the
  failures of the host itself, the timing of resets and the mapping of Go errors to outcomes.
  A Go \<open>error\<close> is the record of what the code asks of it: its text and the answers of
  \<open>errors.Is\<close> and \<open>errors.As\<close>. The clock is an argument.
\<close>

section \<open>Numbers in text\<close>

text \<open>\<open>strconv.FormatFloat(x, 'f', 0, 64)\<close>: rounded half to even, with the sign kept.\<close>

definition round_half_even :: "rat \<Rightarrow> int" where
  "round_half_even q =
     (let f = \<lfloor>q\<rfloor>; r = q - of_int f
      in if r < 1 / 2 then f else if r > 1 / 2 then f + 1 else if even f then f else f + 1)"

definition format_f0 :: "rat \<Rightarrow> string" where
  "format_f0 q =
     (if q < 0 then CHR ''-'' # utoa (nat (round_half_even (- q))) else utoa (nat (round_half_even q)))"

text \<open>A conversion from \<open>float64\<close> to an integer type truncates toward zero.\<close>

definition trunc_rat :: "rat \<Rightarrow> int" where
  "trunc_rat q = (if q < 0 then - \<lfloor>- q\<rfloor> else \<lfloor>q\<rfloor>)"

text \<open>\<open>strconv.ParseFloat\<close> on decimal notation, the only one the program writes: a sign, digits, and
  an optional fraction.\<close>

definition parse_decimal :: "string \<Rightarrow> rat option" where
  "parse_decimal s =
     (let neg = (s \<noteq> [] \<and> hd s = CHR ''-'');
          u = (if s \<noteq> [] \<and> (hd s = CHR ''-'' \<or> hd s = CHR ''+'') then tl s else s)
      in case str_cut (CHR ''.'') u of
           (i, f, _) \<Rightarrow>
             if (i = [] \<and> f = []) \<or> \<not> list_all is_digit (i @ f) then None
             else let v = of_nat (digits_val i) + of_nat (digits_val f) / 10 ^ length f
                  in Some (if neg then - v else v))"

definition microseconds :: "duration \<Rightarrow> int" where
  "microseconds d = go_quot d 1000"

definition millis :: "duration \<Rightarrow> rat" where
  "millis d = of_int (microseconds d) / 1000"

section \<open>Errors\<close>

datatype errno =
    EADDRNOTAVAIL | EADDRINUSE | EACCES | EPERM | EAFNOSUPPORT | EINVAL | EMFILE | ENFILE | ENOBUFS
  | ENETDOWN | ECONNABORTED | ENETUNREACH | EHOSTUNREACH | ECONNREFUSED | ECONNRESET | EPIPE

record go_error =
  err_text :: string
  err_canceled :: bool
  err_alert :: bool
  err_remote_alert :: bool
  err_record_header :: bool
  err_host :: "string option"
  err_errnos :: "errno list"
  err_eof :: bool
  err_deadline :: bool
  err_net_timeout :: bool

definition err_is :: "go_error \<Rightarrow> errno \<Rightarrow> bool" where
  "err_is e n = (n \<in> set (err_errnos e))"

definition localErrnos :: "(errno \<times> string) list" where
  "localErrnos =
     [(EADDRNOTAVAIL, ''eaddrnotavail''), (EADDRINUSE, ''eaddrinuse''), (EACCES, ''eacces''),
      (EPERM, ''eperm''), (EAFNOSUPPORT, ''eafnosupport''), (EINVAL, ''einval''),
      (EMFILE, ''emfile''), (ENFILE, ''enfile''), (ENOBUFS, ''enobufs''),
      (ENETDOWN, ''enetdown''), (ECONNABORTED, ''econnaborted'')]"

definition LocalNoRoute :: string where "LocalNoRoute = ''no_route''"

abbreviation localSyncWithin :: duration where "localSyncWithin \<equiv> msec 5"

definition dialError :: "go_error option \<Rightarrow> duration \<Rightarrow> bool \<Rightarrow> go_error option" where
  "dialError err elapsed udp =
     (case err of
        None \<Rightarrow> None
      | Some e \<Rightarrow>
          if \<not> udp \<and> elapsed \<ge> localSyncWithin then Some e
          else if err_is e ENETUNREACH \<or> err_is e EHOSTUNREACH then Some (e\<lparr>err_host := Some LocalNoRoute\<rparr>)
          else Some e)"

definition localErrName :: "go_error option \<Rightarrow> string" where
  "localErrName err =
     (case err of
        None \<Rightarrow> ''''
      | Some e \<Rightarrow>
          (case err_host e of
             Some n \<Rightarrow> n
           | None \<Rightarrow> (case List.find (\<lambda>(n, _). err_is e n) localErrnos of
                         Some (_, name) \<Rightarrow> name
                       | None \<Rightarrow> '''')))"

text \<open>\<open>remoteAlert\<close> (\<open>tests_tls.go\<close>), the part \<open>classifyNetErr\<close> uses.\<close>

definition classifyNetErr :: "go_error \<Rightarrow> bool \<Rightarrow> string" where
  "classifyNetErr e afterWrite =
     (if err_canceled e then OutcomeSkipped
      else if err_alert e then OutcomeTLSAlert
      else if err_remote_alert e then OutcomeTLSAlert
      else if err_record_header e then OutcomeTLSSpoof
      else if localErrName (Some e) \<noteq> '''' then OutcomeServerError
      else if err_is e ECONNREFUSED then OutcomeConnectRefused
      else if err_is e ECONNRESET \<or> err_is e EPIPE
      then (if afterWrite then OutcomeMidstreamReset else OutcomeConnectReset)
      else if err_eof e then (if afterWrite then OutcomeMidstreamEOF else OutcomeConnectReset)
      else if err_deadline e then (if afterWrite then OutcomePayloadTimeout else OutcomeConnectTimeout)
      else if err_net_timeout e then (if afterWrite then OutcomePayloadTimeout else OutcomeConnectTimeout)
      else if str_contains (err_text e) ''spki pin mismatch'' then OutcomeCertMismatch
      else if str_contains (err_text e) ''tls:'' \<or> str_contains (err_text e) ''handshake'' then OutcomeTLSParse
      else if str_contains (err_text e) ''no route'' \<or> str_contains (err_text e) ''unreachable''
      then OutcomeConnectTimeout
      else if afterWrite then OutcomeMidstreamEOF else OutcomeConnectReset)"

section \<open>Attempts\<close>

definition newAttempt ::
  "string \<Rightarrow> string \<Rightarrow> string \<Rightarrow> string \<Rightarrow> string \<Rightarrow> string \<Rightarrow> int \<Rightarrow> int \<Rightarrow> time \<Rightarrow> attempt"
where
  "newAttempt aid test grp role variant transport port rnd now =
     zero_attempt\<lparr>at_id := aid, at_test := test, at_group := grp, at_role := role, at_variant := variant,
       at_transport := transport, at_dst_port := port, at_round := rnd, at_started := now\<rparr>"

definition mark :: "string \<Rightarrow> time \<Rightarrow> attempt \<Rightarrow> attempt" where
  "mark stg now a = a\<lparr>at_stages := (at_stages a)(stg \<mapsto> millis (sub_time now (at_started a)))\<rparr>"

definition markSince :: "string \<Rightarrow> time \<Rightarrow> time \<Rightarrow> attempt \<Rightarrow> attempt" where
  "markSince stg start now a = a\<lparr>at_stages := (at_stages a)(stg \<mapsto> millis (sub_time now start))\<rparr>"

definition restart :: "time \<Rightarrow> attempt \<Rightarrow> attempt" where
  "restart now a = (mark ''reserve'' now a)\<lparr>at_started := now\<rparr>"

definition markLocal :: "string \<Rightarrow> attempt \<Rightarrow> attempt" where
  "markLocal name a = set_det ''local_error'' name a"

definition fail :: "string \<Rightarrow> go_error option \<Rightarrow> time \<Rightarrow> attempt \<Rightarrow> attempt" where
  "fail outcome err now a =
     mark ''done'' now
       (case err of
          None \<Rightarrow> a\<lparr>at_outcome := outcome\<rparr>
        | Some e \<Rightarrow>
            let a = a\<lparr>at_outcome := outcome, at_error := err_text e\<rparr>
            in if localErrName err \<noteq> '''' then markLocal (localErrName err) a else a)"

definition ok :: "time \<Rightarrow> attempt \<Rightarrow> attempt" where
  "ok now a = mark ''done'' now (a\<lparr>at_outcome := OutcomeOK\<rparr>)"

definition androidResolverBlocked :: string where
  "androidResolverBlocked = ''resNetworkResult failed: ECONNREFUSED''"

definition LocalFailure :: "attempt \<Rightarrow> string" where
  "LocalFailure a =
     (if at_outcome a = OutcomeOK then ''''
      else if det a ''local_error'' \<noteq> '''' then det a ''local_error''
      else if str_contains (at_error a) ''software caused connection abort'' then ''econnaborted''
      else if str_contains (at_error a) ''operation not permitted'' then ''eperm''
      else if str_contains (det a ''system_error'') androidResolverBlocked then ''resolver_blocked''
      else '''')"

section \<open>Reset timing\<close>

abbreviation rttMaxConnectMs :: rat where "rttMaxConnectMs \<equiv> 1000"
abbreviation rttEarlyShare :: rat where "rttEarlyShare \<equiv> 4 / 5"

definition ResetTiming :: "attempt \<Rightarrow> (rat \<times> rat) option" where
  "ResetTiming a =
     (if at_outcome a \<noteq> OutcomeMidstreamReset then None
      else case (at_stages a ''connect'', at_stages a ''first_write'', at_stages a ''done'') of
             (Some rtt, Some wrote, Some fin) \<Rightarrow>
               if rtt \<le> 0 \<or> fin < wrote then None else Some (fin - wrote, rtt)
           | _ \<Rightarrow> None)"

definition ResetBeforeRTT :: "rat \<Rightarrow> rat \<Rightarrow> bool" where
  "ResetBeforeRTT resetMs rttMs = (rttMs > 0 \<and> rttMs < rttMaxConnectMs \<and> resetMs < rttEarlyShare * rttMs)"

definition UsableRTT :: "rat \<Rightarrow> bool" where
  "UsableRTT rttMs = (rttMs > 0 \<and> rttMs < rttMaxConnectMs)"

definition markResetTiming :: "attempt \<Rightarrow> attempt" where
  "markResetTiming a =
     (case ResetTiming a of
        None \<Rightarrow> a
      | Some (resetMs, rttMs) \<Rightarrow>
          let a = set_det ''reset_ms'' (format_f0 resetMs) a
          in if ResetBeforeRTT resetMs rttMs then set_det ''reset_before_rtt'' ''true'' a else a)"

section \<open>Properties\<close>

lemma format_f0_nonempty [simp]: "format_f0 q \<noteq> []"
  by (simp add: format_f0_def)

lemma ResetTiming_set_det [simp]: "ResetTiming (set_det k v a) = ResetTiming a"
  by (simp add: ResetTiming_def)



text \<open>Errors to outcomes: a cancelled scan is never a finding, a failure of the host itself is
  never a censorship outcome, and an error before the payload was written is never reported as
  one in the middle of the stream.\<close>

theorem classify_net_err_attribution:
  "(err_canceled e \<longrightarrow> classifyNetErr e w = OutcomeSkipped)
   \<and> (localErrName (Some e) \<noteq> '''' \<longrightarrow>
        classifyNetErr e w \<in> {OutcomeServerError, OutcomeSkipped, OutcomeTLSAlert, OutcomeTLSSpoof})
   \<and> classifyNetErr e False \<notin> {OutcomeMidstreamReset, OutcomeMidstreamEOF, OutcomePayloadTimeout}
   \<and> classifyNetErr e w \<noteq> OutcomeOK"
  by (intro conjI) (simp_all add: classifyNetErr_def)

definition demo_eperm :: go_error where
  "demo_eperm = \<lparr>err_text = ''sendto: operation not permitted'', err_canceled = False, err_alert = False,
     err_remote_alert = False, err_record_header = False, err_host = None, err_errnos = [EPERM], err_eof = False,
     err_deadline = False, err_net_timeout = False\<rparr>"

theorem classify_net_err_attribution_witness:
  "classifyNetErr demo_eperm True \<in> {OutcomeServerError, OutcomeSkipped, OutcomeTLSAlert, OutcomeTLSSpoof}"
proof -
  have "localErrName (Some demo_eperm) \<noteq> ''''"
    by (simp add: localErrName_def demo_eperm_def localErrnos_def err_is_def)
  with classify_net_err_attribution [of demo_eperm True] show ?thesis by blast
qed

end
