(* ===== verification/Merge.thy ===== *)
theory Merge
  imports Attempt
begin

text \<open>
  Merging the two halves of the evidence (\<open>internal/client/merge.go\<close>): attaching server
  observations to attempts, the delay estimate, reinterpreting stored attempts, and the merge table
  \<open>mergeVerdict\<close>; with \<open>IsDestTest\<close>, \<open>serveResult\<close> and \<open>judgeDisagreement\<close> of \<open>tests_dest.go\<close>.
\<close>

section \<open>Disagreements of resolvers\<close>

definition IsDestTest :: "string \<Rightarrow> bool" where
  "IsDestTest test = has_prefix test ''dest.''"

record serveResult =
  handshake :: bool
  chain :: string
  why :: string
  outcome :: string

definition unfinished :: "serveResult \<Rightarrow> bool" where
  "unfinished r \<longleftrightarrow>
     outcome r \<in> {OutcomeConnectTimeout, OutcomePayloadTimeout, OutcomeServerError, OutcomeSkipped, OutcomeInconclusive}"

datatype disagreement =
  disagreementGeoDNS | disagreementPoisoned | disagreementUnverified | disagreementNeitherServes

definition judgeDisagreement :: "serveResult \<Rightarrow> serveResult \<Rightarrow> disagreement" where
  "judgeDisagreement sys tr =
     (let sysServes = (handshake sys \<and> (chain sys = ''true'' \<or> (handshake tr \<and> chain tr \<noteq> ''true'')));
          trServes = (handshake tr \<and> (chain tr = ''true'' \<or> \<not> handshake sys))
      in if sysServes then disagreementGeoDNS
         else if unfinished sys \<or> (\<not> trServes \<and> unfinished tr) then disagreementUnverified
         else if trServes then disagreementPoisoned
         else disagreementNeitherServes)"

definition serveResultFrom :: "string \<Rightarrow> serveResult" where
  "serveResultFrom w =
     (case str_cut (CHR '':'') w of
        (stg, what, _) \<Rightarrow>
          if what = ''ok'' \<and> stg \<noteq> ''cert'' then \<lparr>handshake = True, chain = ''true'', why = w, outcome = ''''\<rparr>
          else if stg = ''cert'' then \<lparr>handshake = True, chain = what, why = w, outcome = ''''\<rparr>
          else \<lparr>handshake = False, chain = '''', why = w, outcome = what\<rparr>)"

section \<open>Reinterpreting stored attempts\<close>

definition connectFailedAt :: "attempt \<Rightarrow> rat" where
  "connectFailedAt a =
     (case at_stages a ''done'' of None \<Rightarrow> 1073741824 | Some fin \<Rightarrow> fin - stage a ''first_write'')"

definition unverified_note :: "attempt \<Rightarrow> serveResult \<Rightarrow> serveResult \<Rightarrow> string" where
  "unverified_note a sys tr =
     ''the check did not finish (system address '' @ det a ''verify_ip'' @ '': '' @ why sys @
     ''; trusted address: '' @ why tr @ ''): the disagreement is not verified''"

definition del_det :: "string \<Rightarrow> attempt \<Rightarrow> attempt" where
  "del_det k a = a\<lparr>at_detail := (at_detail a)(k := None)\<rparr>"

definition reinterpret_local :: "attempt \<Rightarrow> attempt" where
  "reinterpret_local a =
     (if LocalFailure a \<noteq> '''' \<and> det a ''local_error'' = ''''
      then let b = markLocal (LocalFailure a) a
           in if at_outcome b \<noteq> OutcomeInconclusive \<and> at_outcome b \<noteq> OutcomeSkipped
              then b\<lparr>at_outcome := OutcomeServerError\<rparr> else b
      else a)"

definition reinterpret_no_route :: "attempt \<Rightarrow> attempt" where
  "reinterpret_no_route a =
     (if at_outcome a = OutcomeConnectTimeout \<and> det a ''local_error'' = '''' \<and> connectFailedAt a < 5
      then (markLocal LocalNoRoute a)\<lparr>at_outcome := OutcomeServerError\<rparr>
      else a)"

definition reinterpret_dns :: "attempt \<Rightarrow> attempt" where
  "reinterpret_dns a =
     (if at_test a = ''dest.dns'' \<and> at_outcome a = OutcomeDNSMismatch \<and> det a ''tamper'' = ''system_address_fails''
      then let sys = serveResultFrom (det a ''verify_system''); tr = serveResultFrom (det a ''verify_trusted'')
           in case judgeDisagreement sys tr of
                disagreementGeoDNS \<Rightarrow> (del_det ''tamper'' a)\<lparr>at_outcome := OutcomeOK, at_error := ''''\<rparr>
              | disagreementNeitherServes \<Rightarrow> (del_det ''tamper'' a)\<lparr>at_outcome := OutcomeOK, at_error := ''''\<rparr>
              | disagreementUnverified \<Rightarrow>
                  let note = unverified_note a sys tr
                  in (set_det ''note'' note (del_det ''tamper'' a))\<lparr>at_outcome := OutcomeInconclusive, at_error := note\<rparr>
              | disagreementPoisoned \<Rightarrow> a
      else a)"

definition reinterpret_reset :: "attempt \<Rightarrow> attempt" where
  "reinterpret_reset a =
     (if at_test a = ''dest.tls'' \<and> det a ''reset_ms'' = '''' then markResetTiming a else a)"

definition reinterpret :: "attempt \<Rightarrow> attempt" where
  "reinterpret a =
     (if at_outcome a = OutcomeOK then a
      else reinterpret_reset (reinterpret_dns (reinterpret_no_route (reinterpret_local a))))"

section \<open>Delays and signatures\<close>

definition server_delay :: "observation \<Rightarrow> duration \<Rightarrow> attempt \<Rightarrow> rat" where
  "server_delay ob skew a =
     (let sent = (case at_stages a ''first_write'' of Some v \<Rightarrow> v | None \<Rightarrow> stage a ''connect'');
          seen = obs_first_seen ob - skew
      in millis (sub_time seen (at_started a)) - sent)"

definition markServerDelay :: "observation \<Rightarrow> duration \<Rightarrow> attempt \<Rightarrow> attempt" where
  "markServerDelay ob skew a =
     (if is_zero_time (obs_first_seen ob) \<or> is_zero_time (at_started a) then a
      else set_det ''server_delay_ms'' (format_f0 (server_delay ob skew a)) a)"

definition serverDelayPastDeadline :: "attempt \<Rightarrow> bool" where
  "serverDelayPastDeadline a =
     (case parse_decimal (det a ''server_delay_ms'') of
        None \<Rightarrow> False
      | Some delay \<Rightarrow> (case at_stages a ''done'' of None \<Rightarrow> False | Some fin \<Rightarrow> delay > fin + 1000))"

definition serverWaitedForClient :: "observation option \<Rightarrow> bool" where
  "serverWaitedForClient s =
     (case s of
        None \<Rightarrow> False
      | Some ob \<Rightarrow>
          str_contains (obs_server_error ob) ''i/o timeout'' \<or> has_suffix (obs_server_error ob) ''EOF''
          \<or> str_contains (obs_server_error ob) ''connection reset'' \<or> obs_close ob = ''timeout''
          \<or> obs_close ob = ''client_eof'' \<or> obs_close ob = ''client_reset'')"

definition isTimeoutErr :: "string \<Rightarrow> bool" where
  "isTimeoutErr e \<longleftrightarrow>
     str_contains e ''deadline exceeded'' \<or> str_contains e ''i/o timeout''
     \<or> str_contains e ''timeout: no recent network activity'' \<or> str_contains e ''Handshake did not complete in time''"

section \<open>Attaching observations\<close>

record obs_index =
  by_nonce :: "string \<rightharpoonup> observation"
  by_attempt :: "string \<rightharpoonup> observation"
  data_seen :: "string \<Rightarrow> int"
  ctl_seen :: "string \<Rightarrow> int"
  dns_obs :: "observation list"

definition empty_index :: obs_index where
  "empty_index = \<lparr>by_nonce = Map.empty, by_attempt = Map.empty, data_seen = (\<lambda>_. 0), ctl_seen = (\<lambda>_. 0), dns_obs = []\<rparr>"

definition nonce_key :: "string \<Rightarrow> string \<Rightarrow> string" where
  "nonce_key test nonce = test @ ''/'' @ nonce"

definition index_nonce :: "observation \<Rightarrow> obs_index \<Rightarrow> obs_index" where
  "index_nonce ob i =
     (if obs_nonce ob = '''' then i
      else let key = nonce_key (obs_test ob) (obs_nonce ob)
           in case by_nonce i key of
                None \<Rightarrow> i\<lparr>by_nonce := (by_nonce i)(key \<mapsto> ob)\<rparr>
              | Some prev \<Rightarrow>
                  if obs_response prev = ''quic_forwarded'' \<and> obs_response ob \<noteq> ''quic_forwarded''
                  then i\<lparr>by_nonce := (by_nonce i)(key \<mapsto> ob)\<rparr> else i)"

definition follow_up :: "observation \<Rightarrow> bool" where
  "follow_up ob \<longleftrightarrow> (obs_det ob ''stage'' = ''transport'' \<or> obs_det ob ''stage'' = ''control'') \<and> obs_transport ob = ''udp''"

definition index_attempt :: "observation \<Rightarrow> obs_index \<Rightarrow> obs_index" where
  "index_attempt ob i =
     (if obs_attempt ob = '''' then i
      else if follow_up ob
      then (if obs_det ob ''auth'' \<noteq> ''failed'' \<and> obs_det ob ''parse'' \<noteq> ''bad_control'' \<and> obs_det ob ''mac'' \<noteq> ''invalid''
            then (if obs_det ob ''stage'' = ''control''
                  then i\<lparr>ctl_seen := (ctl_seen i)(obs_attempt ob := ctl_seen i (obs_attempt ob) + 1)\<rparr>
                  else i\<lparr>data_seen := (data_seen i)(obs_attempt ob := data_seen i (obs_attempt ob) + 1)\<rparr>)
            else i)
      else case by_attempt i (obs_attempt ob) of
             None \<Rightarrow> i\<lparr>by_attempt := (by_attempt i)(obs_attempt ob \<mapsto> ob)\<rparr>
           | Some prev \<Rightarrow>
               if obs_response prev = ''quic_forwarded'' \<or> (obs_parse prev = ParseEmpty \<and> obs_parse ob \<noteq> ParseEmpty)
               then i\<lparr>by_attempt := (by_attempt i)(obs_attempt ob \<mapsto> ob)\<rparr> else i)"

definition index_dns :: "observation \<Rightarrow> obs_index \<Rightarrow> obs_index" where
  "index_dns ob i = (if obs_parse ob = ParseDNS then i\<lparr>dns_obs := dns_obs i @ [ob]\<rparr> else i)"

definition index_obs :: "observation list \<Rightarrow> obs_index" where
  "index_obs obs = fold (\<lambda>ob i. index_dns ob (index_attempt ob (index_nonce ob i))) obs empty_index"

definition attach_to :: "observation \<Rightarrow> duration \<Rightarrow> attempt \<Rightarrow> attempt" where
  "attach_to ob skew a = markServerDelay ob skew (a\<lparr>at_server := Some ob\<rparr>)"

definition mark_session_counts :: "obs_index \<Rightarrow> observation \<Rightarrow> attempt \<Rightarrow> attempt" where
  "mark_session_counts i ob a =
     (if handshakeTestOf (at_test a) = '''' then a
      else let n = (case atoi (obs_det ob ''data_in'') of
                      Some v \<Rightarrow> if obs_transport ob = ''tcp'' then v else data_seen i (at_attempt_id a)
                    | None \<Rightarrow> data_seen i (at_attempt_id a));
               a = set_det ''server_data_seen'' (itoa n) a
           in if det a ''ctl_sent'' \<noteq> ''''
              then let m = (case atoi (obs_det ob ''ctl_in'') of
                              Some v \<Rightarrow> if obs_transport ob = ''tcp'' then v else ctl_seen i (at_attempt_id a)
                            | None \<Rightarrow> ctl_seen i (at_attempt_id a))
                   in set_det ''server_ctl_seen'' (itoa m) a
              else a)"

definition same_tuple :: "attempt \<Rightarrow> observation \<Rightarrow> bool" where
  "same_tuple a ob \<longleftrightarrow> obs_transport ob = ''tcp'' \<and> obs_dst_port ob = at_dst_port a \<and> obs_src_port ob = at_src_port a
     \<and> obs_test ob = at_test a \<and> obs_det ob ''partial'' = ''true''"

definition attach :: "obs_index \<Rightarrow> observation list \<Rightarrow> duration \<Rightarrow> attempt \<Rightarrow> attempt" where
  "attach i obs skew a =
     (case (if at_nonce a \<noteq> '''' then by_nonce i (nonce_key (at_test a) (at_nonce a)) else None) of
        Some ob \<Rightarrow> attach_to ob skew a
      | None \<Rightarrow>
     (case (if at_attempt_id a \<noteq> '''' then by_attempt i (at_attempt_id a) else None) of
        Some ob \<Rightarrow> mark_session_counts i ob (attach_to ob skew a)
      | None \<Rightarrow>
          if has_prefix (at_test a) ''dns.'' \<and> at_nonce a \<noteq> ''''
          then (case List.find (\<lambda>ob. has_prefix (obs_det ob ''qname'') (at_nonce a @ ''.'')) (dns_obs i) of
                  Some ob \<Rightarrow> attach_to ob skew a | None \<Rightarrow> a)
          else if at_transport a = ''tcp'' \<and> at_src_port a \<noteq> 0
          then (case List.find (same_tuple a) obs of Some ob \<Rightarrow> attach_to ob skew a | None \<Rightarrow> a)
          else a))"

definition burst_match :: "attempt \<Rightarrow> observation \<Rightarrow> bool" where
  "burst_match a ob \<longleftrightarrow>
     (obs_attempt ob \<noteq> '''' \<and> obs_attempt ob \<in> set (split_on (CHR '','') (det a ''reservation_ids'')))
     \<or> (obs_test ob = at_test a \<and> obs_nonce ob \<noteq> '''' \<and> obs_nonce ob \<in> set (split_on (CHR '','') (det a ''alpha_nonces'')))"

definition count_itoa :: "('a \<Rightarrow> bool) \<Rightarrow> 'a list \<Rightarrow> string" where
  "count_itoa p xs = itoa (int (length (List.filter p xs)))"

definition mark_burst :: "observation list \<Rightarrow> attempt \<Rightarrow> attempt" where
  "mark_burst obs a =
     (let m = List.filter (burst_match a) obs
      in set_det ''server_alpha_partial''
           (count_itoa (\<lambda>ob. obs_bytes_out ob = 0 \<and> obs_response ob = ''handshake_failed'' \<and> serverWaitedForClient (Some ob)) m)
        (set_det ''server_alpha_hello'' (count_itoa (\<lambda>ob. has_prefix (obs_response ob) ''server_hello'') m)
        (set_det ''server_alpha_answered''
           (count_itoa (\<lambda>ob. obs_bytes_out ob > 0 \<or> has_prefix (obs_response ob) ''server_hello'') m)
        (set_det ''server_alpha_seen'' (count_itoa (\<lambda>_. True) m) a))))"

definition mark_udp_packets :: "obs_index \<Rightarrow> attempt \<Rightarrow> attempt" where
  "mark_udp_packets i a =
     set_det ''server_packets_seen''
       (count_itoa (\<lambda>n. by_nonce i (nonce_key (at_test a) n) \<noteq> None) (at_nonces a)) a"

definition mark_tcp_packets :: "attempt \<Rightarrow> attempt" where
  "mark_tcp_packets a =
     (case at_server a of
        None \<Rightarrow> a
      | Some ob \<Rightarrow>
          if at_test a \<noteq> ''tcp.packets'' then a
          else case (atoi (obs_det ob ''partial_bytes''), atoi (det a ''chunk_bytes'')) of
                 (Some pb, Some cb) \<Rightarrow>
                   if cb > 0 then set_det ''server_packets_seen'' (itoa (go_quot (wrap64 (pb + cb - 1)) cb)) a else a
               | _ \<Rightarrow> a)"

definition merge_one :: "obs_index \<Rightarrow> observation list \<Rightarrow> duration \<Rightarrow> attempt \<Rightarrow> attempt" where
  "merge_one i obs skew a =
     mark_tcp_packets (attach i obs skew
       (if at_test a = ''tls.burst'' then mark_burst obs a
        else if at_test a = ''udp.packets'' then mark_udp_packets i a
        else a))"

definition mergeObservations :: "attempt list \<Rightarrow> observation list \<Rightarrow> duration \<Rightarrow> attempt list" where
  "mergeObservations attempts obs skew = map (merge_one (index_obs obs) obs skew) attempts"

section \<open>The merge table\<close>

text \<open>One definition per group of outcomes of the switch of \<open>mergeVerdict\<close>; \<open>s\<close> is the observation.\<close>

definition replied :: "observation \<Rightarrow> bool" where
  "replied s \<longleftrightarrow> obs_replied_at s \<noteq> None \<or> obs_bytes_out s > 0"

definition verdict_timeout :: "attempt \<Rightarrow> string" where
  "verdict_timeout a =
     (case at_server a of
        None \<Rightarrow> ''uplink_drop_or_route_failure''
      | Some s \<Rightarrow>
          if at_outcome a = OutcomeConnectTimeout \<and> at_transport a = ''tcp''
          then ''connect_diverged_middlebox_or_misattributed''
          else if obs_det s ''cookie'' = ''invalid'' then ''cookie_mismatch_nat_or_multipath''
          else if obs_det s ''mac'' = ''invalid'' then ''uplink_modified''
          else if serverDelayPastDeadline a then ''uplink_delayed_past_deadline''
          else if replied s then ''downlink_drop''
          else if at_transport a = ''tcp'' \<and> obs_bytes_in s = 0 \<and> obs_parse s = ParseEmpty
          then ''uplink_drop_or_route_failure''
          else if obs_server_error s \<noteq> '''' \<and> serverWaitedForClient (Some s) then ''uplink_drop_or_route_failure''
          else if obs_server_error s \<noteq> '''' then ''server_error''
          else if obs_response s = ''silence'' \<or> obs_response s = ''refused'' \<or> obs_response s = '''' then ''server_silent''
          else ''downlink_drop'')"

definition verdict_session_cut :: "attempt \<Rightarrow> string" where
  "verdict_session_cut a =
     (case at_server a of
        None \<Rightarrow> ''uplink_drop_after_handshake''
      | Some s \<Rightarrow>
          let ctl = (atoi_val (det a ''data_sent'') = 0 \<and> det a ''ctl_sent'' \<noteq> '''');
              sent = (if ctl then atoi_val (det a ''ctl_sent'') else atoi_val (det a ''data_sent''));
              saw = (if ctl then atoi_val (det a ''server_ctl_seen'') else atoi_val (det a ''server_data_seen''))
          in if saw < sent then ''uplink_drop_after_handshake'' else ''downlink_drop_after_handshake'')"

definition verdict_packets_cut :: "attempt \<Rightarrow> string" where
  "verdict_packets_cut a =
     (case at_server a of
        None \<Rightarrow> ''uplink_drop_or_route_failure''
      | Some s \<Rightarrow>
          if at_transport a = ''udp''
          then (if atoi_val (det a ''server_packets_seen'') < atoi_val (det a ''packets_sent'')
                then ''uplink_drop_or_route_failure'' else ''downlink_drop'')
          else if obs_det s ''partial'' = ''true'' then ''uplink_drop_or_route_failure''
          else if str_contains (obs_response s) ''echo'' then ''downlink_drop''
          else ''uplink_drop_or_route_failure'')"

definition verdict_burst :: "attempt \<Rightarrow> string" where
  "verdict_burst a =
     (let n = atoi_val (det a ''burst_n'');
          saw = atoi_val (det a ''server_alpha_seen'');
          hello = atoi_val (det a ''server_alpha_hello'');
          old = (atoi (det a ''server_alpha_answered'') = None \<or> atoi (det a ''server_alpha_partial'') = None);
          answered =
            (if old
             then (case at_server a of Some s \<Rightarrow> if obs_bytes_out s > 0 then max hello 1 else hello | None \<Rightarrow> hello)
             else atoi_val (det a ''server_alpha_answered''));
          partial =
            (case at_server a of
               Some s \<Rightarrow>
                 if old \<and> obs_bytes_out s = 0 \<and> obs_response s = ''handshake_failed'' \<and> serverWaitedForClient (Some s)
                 then saw else atoi_val (det a ''server_alpha_partial'')
             | None \<Rightarrow> atoi_val (det a ''server_alpha_partial''))
      in if saw < n then ''uplink_drop_or_route_failure''
         else if answered > 0 then ''downlink_drop''
         else if partial = saw then ''uplink_drop_or_route_failure''
         else ''server_rejected_handshake'')"

definition verdict_bulk :: "attempt \<Rightarrow> string" where
  "verdict_bulk a =
     (case at_server a of
        None \<Rightarrow> ''uplink_drop_or_route_failure''
      | Some s \<Rightarrow>
          if at_outcome a = OutcomeBulkReset \<and> obs_close s = ''client_reset'' then ''rst_injected_bidirectional''
          else if at_outcome a = OutcomeBulkReset then ''rst_injected_or_path_reset''
          else if obs_det s ''bulk'' = ''down'' then ''downlink_drop''
          else let sent = atoi_val (det a ''bulk_bytes''); got = atoi_val (obs_det s ''bulk_up_bytes'')
               in if sent > 0 \<and> got \<ge> sent then ''downlink_drop'' else ''uplink_drop_or_route_failure'')"

definition verdict_handshake :: "attempt \<Rightarrow> string" where
  "verdict_handshake a =
     (if at_outcome a = OutcomeQUICHandshake \<and> isTimeoutErr (at_error a)
      then (if at_server a = None then ''uplink_drop_or_route_failure'' else ''stalled_after_server_saw_it'')
      else case at_server a of
             None \<Rightarrow> ''injected''
           | Some s \<Rightarrow>
               if obs_response s = ''handshake_failed''
               then (if det a ''sni'' \<noteq> obs_det s ''sni'' then ''uplink_modified'' else ''server_rejected_handshake'')
               else ''downlink_modified'')"

definition mergeVerdict :: "attempt \<Rightarrow> string" where
  "mergeVerdict a =
     (let oc = at_outcome a
      in if IsDestTest (at_test a) then oc
         else if oc = OutcomeOK
         then (case at_server a of
                 Some s \<Rightarrow> if obs_det s ''mac'' = ''invalid'' then ''uplink_modified'' else ''ok''
               | None \<Rightarrow> ''ok'')
         else if oc \<in> {OutcomeConnectTimeout, OutcomePayloadTimeout, OutcomeDNSTimeout, OutcomeQUICNoResponse}
         then verdict_timeout a
         else if oc \<in> {OutcomeConnectReset, OutcomeMidstreamReset}
         then (case at_server a of
                 Some s \<Rightarrow> if obs_close s = ''client_reset'' then ''rst_injected_bidirectional''
                            else ''rst_injected_or_path_reset''
               | None \<Rightarrow> ''rst_injected_or_path_reset'')
         else if oc = OutcomeMidstreamEOF
         then (case at_server a of
                 None \<Rightarrow> ''path_closed_before_server''
               | Some s \<Rightarrow> if obs_close s = ''client_reset'' then ''rst_injected_or_path_reset'' else ''server_closed'')
         else if oc = OutcomeConnectRefused
         then (if at_server a \<noteq> None then ''refused_after_server_saw_it'' else ''refused_by_path_or_port_closed'')
         else if oc = OutcomeTLSSpoof
         then (case at_server a of
                 None \<Rightarrow> ''injected''
               | Some s \<Rightarrow> if obs_response s = ''handshake_failed'' then ''server_rejected_handshake''
                            else ''downlink_modified'')
         else if oc = OutcomeSessionCut then verdict_session_cut a
         else if oc = OutcomePacketsCut then verdict_packets_cut a
         else if oc = OutcomeBurstFreeze then verdict_burst a
         else if oc \<in> {OutcomeBulkStall, OutcomeBulkReset} then verdict_bulk a
         else if oc \<in> {OutcomeTLSAlert, OutcomeTLSParse, OutcomeQUICHandshake} then verdict_handshake a
         else if oc \<in> {OutcomeUnexpected, OutcomeModified, OutcomeDNSMismatch, OutcomeDNSRcode, ''dns_injected_race''}
         then (case at_server a of
                 None \<Rightarrow> ''injected''
               | Some s \<Rightarrow> if obs_det s ''mac'' = ''invalid'' then ''uplink_modified''
                            else if replied s then ''downlink_modified'' else ''injected'')
         else if oc = OutcomeCertMismatch then ''tls_mitm_or_wrong_server''
         else if oc = OutcomeServerError then ''server_error''
         else ''inconclusive'')"

definition remerge_one :: "duration \<Rightarrow> attempt \<Rightarrow> attempt" where
  "remerge_one skew a =
     (let b = reinterpret a;
          c = (case at_server b of None \<Rightarrow> b | Some ob \<Rightarrow> markServerDelay ob skew b)
      in c\<lparr>at_merged := mergeVerdict c\<rparr>)"

definition Remerge :: "attempt list \<Rightarrow> duration \<Rightarrow> attempt list" where
  "Remerge attempts skew = map (remerge_one skew) attempts"

end
