(* ===== verification/Merge_Props.thy ===== *)
theory Merge_Props
  imports Merge
begin

text \<open>
  What the merge guarantees: an attempt without a server half never blames the server or the way
  back, an attempt is merged to ok exactly when it was ok and its request arrived unmodified, an
  attached observation belongs to its attempt, and merging a stored report again changes nothing.
\<close>

section \<open>The table\<close>

lemma verdicts_not_ok:
  "verdict_timeout a \<noteq> ''ok''" "verdict_session_cut a \<noteq> ''ok''" "verdict_packets_cut a \<noteq> ''ok''"
  "verdict_burst a \<noteq> ''ok''" "verdict_bulk a \<noteq> ''ok''" "verdict_handshake a \<noteq> ''ok''"
proof -
  show "verdict_timeout a \<noteq> ''ok''"
    by (simp add: verdict_timeout_def split: option.splits)
  show "verdict_session_cut a \<noteq> ''ok''"
    by (simp add: verdict_session_cut_def Let_def split: option.splits)
  show "verdict_packets_cut a \<noteq> ''ok''"
    by (simp add: verdict_packets_cut_def split: option.splits)
  show "verdict_burst a \<noteq> ''ok''"
    by (simp add: verdict_burst_def Let_def)
  show "verdict_bulk a \<noteq> ''ok''"
    by (simp add: verdict_bulk_def Let_def split: option.splits)
  show "verdict_handshake a \<noteq> ''ok''"
    by (simp add: verdict_handshake_def split: option.splits)
qed

lemma mergeVerdict_ok_iff:
  assumes "\<not> IsDestTest (at_test a)"
  shows "mergeVerdict a = ''ok'' \<longleftrightarrow>
           at_outcome a = OutcomeOK \<and> (\<forall>s. at_server a = Some s \<longrightarrow> obs_det s ''mac'' \<noteq> ''invalid'')"
proof (cases "at_outcome a = OutcomeOK")
  case True
  then show ?thesis using assms by (simp add: mergeVerdict_def Let_def split: option.splits)
next
  case False
  have "mergeVerdict a \<noteq> ''ok''"
    unfolding mergeVerdict_def Let_def
    using assms False by (simp add: verdicts_not_ok split: option.splits)
  with False show ?thesis by simp
qed

text \<open>The merged result of an attempt is ok exactly when the client's outcome was ok and the server,
  if it saw the request, found its authentication code intact; for a test of a real destination,
  which has no server half, the merged result is the outcome itself.\<close>

theorem merged_ok_means_ok:
  "(if IsDestTest (at_test a) then mergeVerdict a = at_outcome a
    else (mergeVerdict a = ''ok'') =
      (at_outcome a = OutcomeOK
       \<and> (case at_server a of None \<Rightarrow> True | Some s \<Rightarrow> obs_det s ''mac'' \<noteq> ''invalid'')))"
  using mergeVerdict_ok_iff [of a] by (simp add: mergeVerdict_def [of a] Let_def split: option.splits)

definition path_verdicts :: "string list" where
  "path_verdicts =
     [''ok'', ''uplink_drop_or_route_failure'', ''rst_injected_or_path_reset'', ''path_closed_before_server'',
      ''refused_by_path_or_port_closed'', ''injected'', ''uplink_drop_after_handshake'',
      ''tls_mitm_or_wrong_server'', ''inconclusive'']"

text \<open>C33. For a test against the probe server (any but the tests of real destinations, dest.*, which have no server half
  and keep their own outcome), an attempt without a server observation never merges into a verdict on the server or on
  the way back: unless the outcome is a burst freeze (judged from counts over many flows) or already a server error, the
  result is ok, inconclusive, or one of seven verdicts on the way to the server.\<close>

theorem unseen_never_blames_server:
  assumes "at_server a = None" and "\<not> IsDestTest (at_test a)"
    and "at_outcome a \<notin> {OutcomeBurstFreeze, OutcomeServerError}"
  shows "mergeVerdict a \<in> set path_verdicts"
proof -
  have "verdict_timeout a = ''uplink_drop_or_route_failure''" "verdict_session_cut a = ''uplink_drop_after_handshake''"
      "verdict_packets_cut a = ''uplink_drop_or_route_failure''" "verdict_bulk a = ''uplink_drop_or_route_failure''"
      "verdict_handshake a \<in> {''uplink_drop_or_route_failure'', ''injected''}"
    using assms(1) by (simp_all add: verdict_timeout_def verdict_session_cut_def verdict_packets_cut_def
        verdict_bulk_def verdict_handshake_def)
  then show ?thesis
    unfolding mergeVerdict_def Let_def path_verdicts_def using assms by auto
qed

theorem unseen_never_blames_server_witness:
  "mergeVerdict (zero_attempt\<lparr>at_test := ''tcp.echo'', at_outcome := OutcomePayloadTimeout\<rparr>) \<in> set path_verdicts"
  by (rule unseen_never_blames_server) (simp_all add: zero_attempt_def IsDestTest_def has_prefix_def)

section \<open>Attaching\<close>

text \<open>Every entry of the index is one of the rows and is filed under its own key.\<close>

definition index_sound :: "observation list \<Rightarrow> obs_index \<Rightarrow> bool" where
  "index_sound obs i \<longleftrightarrow>
     (\<forall>k ob. by_nonce i k = Some ob \<longrightarrow> ob \<in> set obs \<and> obs_nonce ob \<noteq> '''' \<and> k = nonce_key (obs_test ob) (obs_nonce ob))
     \<and> (\<forall>k ob. by_attempt i k = Some ob \<longrightarrow> ob \<in> set obs \<and> obs_attempt ob = k \<and> k \<noteq> '''' \<and> \<not> follow_up ob)
     \<and> (\<forall>ob \<in> set (dns_obs i). ob \<in> set obs \<and> obs_parse ob = ParseDNS)"

lemma index_sound_nonce: "index_sound obs i \<Longrightarrow> ob \<in> set obs \<Longrightarrow> index_sound obs (index_nonce ob i)"
  by (auto simp: index_sound_def index_nonce_def Let_def split: option.splits)

lemma index_sound_attempt: "index_sound obs i \<Longrightarrow> ob \<in> set obs \<Longrightarrow> index_sound obs (index_attempt ob i)"
  by (auto simp: index_sound_def index_attempt_def split: option.splits)

lemma index_sound_dns: "index_sound obs i \<Longrightarrow> ob \<in> set obs \<Longrightarrow> index_sound obs (index_dns ob i)"
  by (auto simp: index_sound_def index_dns_def)

lemma index_sound_fold:
  "index_sound obs i \<Longrightarrow> set os \<subseteq> set obs \<Longrightarrow>
   index_sound obs (fold (\<lambda>ob i. index_dns ob (index_attempt ob (index_nonce ob i))) os i)"
  by (induction os arbitrary: i) (auto intro: index_sound_dns index_sound_attempt index_sound_nonce)

lemma index_obs_sound: "index_sound obs (index_obs obs)"
  unfolding index_obs_def by (rule index_sound_fold) (auto simp: index_sound_def empty_index_def)

text \<open>How an observation can belong to an attempt.\<close>

definition belongs :: "attempt \<Rightarrow> observation \<Rightarrow> bool" where
  "belongs a ob \<longleftrightarrow>
     (at_nonce a \<noteq> '''' \<and> nonce_key (obs_test ob) (obs_nonce ob) = nonce_key (at_test a) (at_nonce a))
     \<or> (at_attempt_id a \<noteq> '''' \<and> obs_attempt ob = at_attempt_id a \<and> \<not> follow_up ob)
     \<or> (at_nonce a \<noteq> '''' \<and> has_prefix (at_test a) ''dns.'' \<and> obs_parse ob = ParseDNS
         \<and> has_prefix (obs_det ob ''qname'') (at_nonce a @ ''.''))
     \<or> (at_transport a = ''tcp'' \<and> same_tuple a ob)"

lemma markServerDelay_fields [simp]:
  "at_server (markServerDelay ob skew a) = at_server a"
  "at_test (markServerDelay ob skew a) = at_test a"
  by (simp_all add: markServerDelay_def Let_def)

lemma at_server_attach_to [simp]: "at_server (attach_to ob skew a) = Some ob"
  by (simp add: attach_to_def)

lemma at_server_counts [simp]: "at_server (mark_session_counts i ob a) = at_server a"
  by (simp add: mark_session_counts_def Let_def)

lemma at_server_tcp_packets [simp]: "at_server (mark_tcp_packets a) = at_server a"
  by (simp add: mark_tcp_packets_def split: option.splits)

lemma attach_belongs:
  assumes i: "index_sound obs i" and a: "at_server (attach i obs skew a) = Some ob" "at_server a = None"
  shows "ob \<in> set obs \<and> belongs a ob"
proof -
  consider (nonce) "at_nonce a \<noteq> ''''" "by_nonce i (nonce_key (at_test a) (at_nonce a)) = Some ob"
    | (attempt) "at_attempt_id a \<noteq> ''''" "by_attempt i (at_attempt_id a) = Some ob"
    | (dns) "has_prefix (at_test a) ''dns.''" "at_nonce a \<noteq> ''''"
        "List.find (\<lambda>ob. has_prefix (obs_det ob ''qname'') (at_nonce a @ ''.'')) (dns_obs i) = Some ob"
    | (tuple) "at_transport a = ''tcp''" "List.find (same_tuple a) obs = Some ob"
    using a unfolding attach_def by (auto split: option.splits if_splits)
  then show ?thesis
  proof cases
    case nonce
    then show ?thesis using i by (auto simp: index_sound_def belongs_def)
  next
    case attempt
    then show ?thesis using i by (auto simp: index_sound_def belongs_def)
  next
    case dns
    then have "ob \<in> set (dns_obs i)" "has_prefix (obs_det ob ''qname'') (at_nonce a @ ''.'')"
      by (auto simp: find_Some_iff)
    then show ?thesis using i dns(1,2) by (auto simp: index_sound_def belongs_def)
  next
    case tuple
    then show ?thesis by (auto simp: find_Some_iff belongs_def)
  qed
qed

lemma belongs_cong:
  "at_nonce b = at_nonce a \<Longrightarrow> at_test b = at_test a \<Longrightarrow> at_attempt_id b = at_attempt_id a \<Longrightarrow>
   at_transport b = at_transport a \<Longrightarrow> at_dst_port b = at_dst_port a \<Longrightarrow> at_src_port b = at_src_port a \<Longrightarrow>
   belongs b = belongs a"
  by (simp add: belongs_def same_tuple_def fun_eq_iff)

text \<open>C21. Attribution: an observation attached to an attempt is one the server reported, and it
  belongs to that attempt: the same test and nonce, the same reservation (and not a follow-up
  packet), the DNS query of its nonce, or the same TCP ports of a cut request of its test.\<close>

theorem attached_observation_belongs:
  assumes "j < length attempts" and "at_server (attempts ! j) = None"
    and "at_server (mergeObservations attempts obs skew ! j) = Some ob"
  shows "ob \<in> set obs \<and> belongs (attempts ! j) ob"
proof -
  define a where "a = attempts ! j"
  define b where "b = (if at_test a = ''tls.burst'' then mark_burst obs a
     else if at_test a = ''udp.packets'' then mark_udp_packets (index_obs obs) a else a)"
  have b: "at_server b = None" "belongs b = belongs a"
    using assms(2) by (auto simp: b_def a_def mark_burst_def mark_udp_packets_def Let_def intro!: belongs_cong)
  have "at_server (attach (index_obs obs) obs skew b) = Some ob"
    using assms(1,3) by (simp add: mergeObservations_def merge_one_def a_def [symmetric] b_def [symmetric])
  from attach_belongs [OF index_obs_sound this b(1)] show ?thesis by (simp add: b(2) a_def)
qed

definition demo_obs :: observation where
  "demo_obs = zero_observation\<lparr>obs_test := ''tcp.echo'', obs_nonce := ''abcd'', obs_first_seen := sec 5,
     obs_transport := ''tcp'', obs_parse := ParseEnvelope\<rparr>"

definition demo_attempt :: attempt where
  "demo_attempt = zero_attempt\<lparr>at_test := ''tcp.echo'', at_nonce := ''abcd'', at_started := sec 4,
     at_transport := ''tcp'', at_outcome := OutcomePayloadTimeout\<rparr>"

theorem attached_observation_belongs_witness:
  "belongs demo_attempt demo_obs
   \<and> at_server (mergeObservations [demo_attempt] [demo_obs] 0 ! 0) = Some demo_obs"
proof
  show at: "at_server (mergeObservations [demo_attempt] [demo_obs] 0 ! 0) = Some demo_obs"
    by (simp add: mergeObservations_def merge_one_def attach_def index_obs_def index_nonce_def index_attempt_def index_dns_def empty_index_def
        demo_attempt_def demo_obs_def zero_attempt_def zero_observation_def parse_kinds Let_def)
  show "belongs demo_attempt demo_obs"
    using attached_observation_belongs [OF _ _ at]
    by (simp add: demo_attempt_def zero_attempt_def)
qed

text \<open>The rows that compete for an attempt id.\<close>

definition candidates :: "observation list \<Rightarrow> string \<Rightarrow> observation list" where
  "candidates obs k = List.filter (\<lambda>ob. obs_attempt ob = k \<and> \<not> follow_up ob) obs"

lemma by_attempt_other [simp]:
  "by_attempt (index_dns ob i) = by_attempt i" "by_attempt (index_nonce ob i) = by_attempt i"
  by (simp_all add: index_dns_def index_nonce_def Let_def split: option.splits)

lemma by_attempt_fold:
  assumes "k \<noteq> ''''" "\<forall>ob \<in> set (candidates os k). obs_response ob \<noteq> ''quic_forwarded''"
    and "\<forall>ob. by_attempt i k = Some ob \<longrightarrow> obs_response ob \<noteq> ''quic_forwarded''"
  shows "by_attempt (fold (\<lambda>ob i. index_dns ob (index_attempt ob (index_nonce ob i))) os i) k =
           (case by_attempt i k of
              Some ob \<Rightarrow>
                Some (if obs_parse ob \<noteq> ParseEmpty then ob
                      else case List.find (\<lambda>c. obs_parse c \<noteq> ParseEmpty) (candidates os k) of
                             Some c \<Rightarrow> c | None \<Rightarrow> ob)
            | None \<Rightarrow>
                (case List.find (\<lambda>c. obs_parse c \<noteq> ParseEmpty) (candidates os k) of
                   Some c \<Rightarrow> Some c
                 | None \<Rightarrow> (case candidates os k of [] \<Rightarrow> None | c # _ \<Rightarrow> Some c)))"
  using assms(2,3)
proof (induction os arbitrary: i)
  case Nil
  then show ?case by (simp add: candidates_def split: option.splits)
next
  case (Cons c os)
  define i' where "i' = index_dns c (index_attempt c (index_nonce c i))"
  have upd: "by_attempt i' k =
      (if obs_attempt c = k \<and> \<not> follow_up c
       then (case by_attempt i k of
               None \<Rightarrow> Some c
             | Some ob \<Rightarrow> Some (if obs_parse ob = ParseEmpty \<and> obs_parse c \<noteq> ParseEmpty then c else ob))
       else by_attempt i k)"
    using assms(1) Cons.prems(2) by (simp add: i'_def index_attempt_def split: option.splits)
  have step: "candidates (c # os) k = (if obs_attempt c = k \<and> \<not> follow_up c then c # candidates os k else candidates os k)"
    by (simp add: candidates_def)
  have p1: "\<forall>ob \<in> set (candidates os k). obs_response ob \<noteq> ''quic_forwarded''"
    using Cons.prems(1) unfolding step by (simp split: if_splits)
  have p2: "\<forall>ob. by_attempt i' k = Some ob \<longrightarrow> obs_response ob \<noteq> ''quic_forwarded''"
    using Cons.prems unfolding upd step by (auto split: option.splits if_splits)
  show ?case
    using Cons.IH [OF p1 p2] unfolding upd step
    by (cases "obs_attempt c = k \<and> \<not> follow_up c"; cases "by_attempt i k"; cases "obs_parse c = ParseEmpty")
       (auto simp: i'_def [symmetric] split: option.splits if_splits)
qed

text \<open>Choice among the flows of a reservation: when none is a forwarded QUIC row, an attempt found
  by its reservation gets the first flow that carried anything, and an empty flow only when
  there is no other.\<close>

theorem carrying_flow_wins:
  assumes "k \<noteq> ''''" and "\<forall>ob \<in> set (candidates obs k). obs_response ob \<noteq> ''quic_forwarded''"
  shows "by_attempt (index_obs obs) k =
           (case List.find (\<lambda>c. obs_parse c \<noteq> ParseEmpty) (candidates obs k) of
              Some c \<Rightarrow> Some c
            | None \<Rightarrow> (case candidates obs k of [] \<Rightarrow> None | c # _ \<Rightarrow> Some c))"
  using by_attempt_fold [OF assms, of empty_index] by (simp add: index_obs_def empty_index_def)

theorem carrying_flow_wins_witness:
  "by_attempt (index_obs [zero_observation\<lparr>obs_attempt := ''r1'', obs_parse := ParseEmpty\<rparr>,
                          zero_observation\<lparr>obs_attempt := ''r1'', obs_parse := ParseTLS\<rparr>]) ''r1''
     = Some (zero_observation\<lparr>obs_attempt := ''r1'', obs_parse := ParseTLS\<rparr>)"
proof -
  let ?obs = "[zero_observation\<lparr>obs_attempt := ''r1'', obs_parse := ParseEmpty\<rparr>,
               zero_observation\<lparr>obs_attempt := ''r1'', obs_parse := ParseTLS\<rparr>]"
  have c: "candidates ?obs ''r1'' = ?obs"
    by (simp add: candidates_def follow_up_def obs_det_def zero_observation_def)
  have "\<forall>ob \<in> set (candidates ?obs ''r1''). obs_response ob \<noteq> ''quic_forwarded''"
    unfolding c by (simp add: zero_observation_def)
  from carrying_flow_wins [OF _ this] show ?thesis
    unfolding c by (simp add: parse_kinds)
qed

section \<open>Poisoning\<close>

text \<open>A disagreement of resolvers is called poisoning only when the check of the system address
  ran to its end without serving the name and the trusted address completed a handshake; a check
  that ran out of time or failed on the host never is.\<close>

theorem poisoning_needs_a_refusal:
  "judgeDisagreement sys tr = disagreementPoisoned \<longleftrightarrow>
     \<not> unfinished sys \<and> handshake tr
     \<and> (if handshake sys then chain sys \<noteq> ''true'' \<and> chain tr = ''true'' else True)"
  by (auto simp: judgeDisagreement_def Let_def)

section \<open>Merging again\<close>

lemma del_det_fields [simp]:
  "at_test (del_det k a) = at_test a" "at_server (del_det k a) = at_server a" "at_stages (del_det k a) = at_stages a"
  "at_started (del_det k a) = at_started a"
  by (simp_all add: del_det_def)

lemma det_del_det [simp]: "det (del_det k a) j = (if j = k then '''' else det a j)"
  by (simp add: det_def del_det_def lookup_str_def)

lemma det_updates [simp]:
  "det (a\<lparr>at_outcome := x\<rparr>) k = det a k" "det (a\<lparr>at_error := y\<rparr>) k = det a k" "det (a\<lparr>at_merged := z\<rparr>) k = det a k"
  by (simp_all add: det_def)

text \<open>An attempt that reinterpretation leaves alone.\<close>

definition settled :: "attempt \<Rightarrow> bool" where
  "settled a \<longleftrightarrow> at_outcome a = OutcomeOK \<or>
     (LocalFailure a = '''' \<or> det a ''local_error'' \<noteq> '''')
     \<and> (at_outcome a = OutcomeConnectTimeout \<longrightarrow> det a ''local_error'' \<noteq> '''' \<or> connectFailedAt a \<ge> 5)
     \<and> reinterpret_dns a = a
     \<and> (at_test a = ''dest.tls'' \<longrightarrow> det a ''reset_ms'' \<noteq> '''' \<or> ResetTiming a = None)"

lemma reinterpret_settled: "settled a \<Longrightarrow> reinterpret a = a"
  by (auto simp: settled_def reinterpret_def reinterpret_local_def reinterpret_no_route_def reinterpret_reset_def
      markResetTiming_def Let_def)

lemma at_detail_updates [simp]: "at_test (markLocal n a) = at_test a" "at_outcome (markLocal n a) = at_outcome a"
  "at_server (markLocal n a) = at_server a" "det (markLocal n a) k = (if k = ''local_error'' then n else det a k)"
  by (simp_all add: markLocal_def)

lemma reinterpret_local_spec:
  assumes "at_outcome a \<noteq> OutcomeOK"
  shows "let b = reinterpret_local a
         in at_outcome b \<noteq> OutcomeOK \<and> (LocalFailure b = '''' \<or> det b ''local_error'' \<noteq> '''')"
  using assms by (simp add: reinterpret_local_def Let_def)

lemma reinterpret_no_route_spec:
  assumes "at_outcome a \<noteq> OutcomeOK" "LocalFailure a = '''' \<or> det a ''local_error'' \<noteq> ''''"
  shows "let b = reinterpret_no_route a
         in at_outcome b \<noteq> OutcomeOK \<and> (LocalFailure b = '''' \<or> det b ''local_error'' \<noteq> '''')
            \<and> (at_outcome b = OutcomeConnectTimeout \<longrightarrow> det b ''local_error'' \<noteq> '''' \<or> connectFailedAt b \<ge> 5)"
  using assms by (auto simp: reinterpret_no_route_def Let_def LocalNoRoute_def)

text \<open>The error text of an unverified disagreement does not read as a failure of the host.\<close>

definition clean_checks :: "attempt \<Rightarrow> bool" where
  "clean_checks a \<longleftrightarrow>
     (let note = unverified_note a (serveResultFrom (det a ''verify_system'')) (serveResultFrom (det a ''verify_trusted''))
      in \<not> str_contains note ''software caused connection abort'' \<and> \<not> str_contains note ''operation not permitted'')"

lemma reinterpret_dns_ok:
  "reinterpret_dns a = a \<or> at_test a = ''dest.dns'' \<and> at_outcome (reinterpret_dns a) = OutcomeOK
   \<or> at_test a = ''dest.dns'' \<and> at_outcome (reinterpret_dns a) = OutcomeInconclusive
     \<and> at_error (reinterpret_dns a)
         = unverified_note a (serveResultFrom (det a ''verify_system'')) (serveResultFrom (det a ''verify_trusted''))
     \<and> det (reinterpret_dns a) ''local_error'' = det a ''local_error''
     \<and> det (reinterpret_dns a) ''system_error'' = det a ''system_error''"
  by (simp add: reinterpret_dns_def Let_def split: disagreement.splits)

lemma reinterpret_dns_test [simp]: "at_test (reinterpret_dns a) = at_test a"
  by (simp add: reinterpret_dns_def Let_def split: disagreement.splits)



lemma det_markResetTiming:
  "k \<noteq> ''reset_ms'' \<Longrightarrow> k \<noteq> ''reset_before_rtt'' \<Longrightarrow> det (markResetTiming a) k = det a k"
  "ResetTiming a \<noteq> None \<Longrightarrow> det (markResetTiming a) ''reset_ms'' \<noteq> ''''"
  "ResetTiming (markResetTiming a) = ResetTiming a"
  "at_test (markResetTiming a) = at_test a" "at_outcome (markResetTiming a) = at_outcome a"
  "at_error (markResetTiming a) = at_error a" "at_stages (markResetTiming a) = at_stages a"
  "at_server (markResetTiming a) = at_server a"
  by (auto simp: markResetTiming_def Let_def split: option.splits)

lemma settled_markResetTiming:
  assumes "at_test a = ''dest.tls''" "LocalFailure a = '''' \<or> det a ''local_error'' \<noteq> ''''"
    "at_outcome a = OutcomeConnectTimeout \<longrightarrow> det a ''local_error'' \<noteq> '''' \<or> connectFailedAt a \<ge> 5"
  shows "settled (markResetTiming a)"
proof -
  let ?b = "markResetTiming a"
  have "LocalFailure ?b = LocalFailure a" "connectFailedAt ?b = connectFailedAt a"
    by (simp_all add: LocalFailure_def connectFailedAt_def det_markResetTiming stage_def split: option.splits)
  moreover have "reinterpret_dns ?b = ?b"
    using assms(1) by (simp add: reinterpret_dns_def det_markResetTiming)
  ultimately show ?thesis
    using assms det_markResetTiming(2) [of a] by (auto simp: settled_def det_markResetTiming)
qed

lemma settled_reinterpret:
  assumes "at_test a = ''dest.dns'' \<longrightarrow> clean_checks a"
  shows "settled (reinterpret a)"
proof (cases "at_outcome a = OutcomeOK")
  case True
  then show ?thesis by (simp add: reinterpret_def settled_def)
next
  case False
  define b where "b = reinterpret_no_route (reinterpret_local a)"
  have b: "at_outcome b \<noteq> OutcomeOK" "LocalFailure b = '''' \<or> det b ''local_error'' \<noteq> ''''"
      "at_outcome b = OutcomeConnectTimeout \<longrightarrow> det b ''local_error'' \<noteq> '''' \<or> connectFailedAt b \<ge> 5"
    using reinterpret_local_spec [OF False] reinterpret_no_route_spec [of "reinterpret_local a"]
    by (simp_all add: b_def Let_def)
  have test: "at_test b = at_test a" and dets: "k \<noteq> ''local_error'' \<Longrightarrow> det b k = det a k" for k
    by (simp_all add: b_def reinterpret_no_route_def reinterpret_local_def Let_def)
  have clean: "at_test a = ''dest.dns'' \<Longrightarrow> clean_checks b"
    using assms dets by (simp add: clean_checks_def unverified_note_def)
  have "settled (reinterpret_dns b) \<or> reinterpret_dns b = b \<and> at_test b = ''dest.tls''"
    using reinterpret_dns_ok [of b]
  proof (elim disjE conjE)
    assume "reinterpret_dns b = b"
    then show ?thesis using b by (auto simp: settled_def)
  next
    assume "at_outcome (reinterpret_dns b) = OutcomeOK"
    then show ?thesis by (simp add: settled_def)
  next
    assume d: "at_test b = ''dest.dns''" "at_outcome (reinterpret_dns b) = OutcomeInconclusive"
      "at_error (reinterpret_dns b)
         = unverified_note b (serveResultFrom (det b ''verify_system'')) (serveResultFrom (det b ''verify_trusted''))"
      "det (reinterpret_dns b) ''local_error'' = det b ''local_error''"
      "det (reinterpret_dns b) ''system_error'' = det b ''system_error''"
    then have "LocalFailure (reinterpret_dns b) = '''' \<or> det (reinterpret_dns b) ''local_error'' \<noteq> ''''"
      using b(1,2) clean test by (auto simp: LocalFailure_def clean_checks_def Let_def split: if_splits)
    moreover have "reinterpret_dns (reinterpret_dns b) = reinterpret_dns b"
      using d(2) by (simp add: reinterpret_dns_def [of "reinterpret_dns b"])
    ultimately show ?thesis using d(1,2) by (simp add: settled_def)
  qed
  note dns = this
  have "settled (reinterpret_reset (reinterpret_dns b))"
  proof (cases "at_test b = ''dest.tls''")
    case True
    then have "reinterpret_dns b = b" by (simp add: reinterpret_dns_def)
    moreover have "det b ''reset_ms'' \<noteq> '''' \<Longrightarrow> settled b"
      using b calculation by (simp add: settled_def)
    ultimately show ?thesis
      using settled_markResetTiming [OF True b(2,3)] True by (simp add: reinterpret_reset_def)
  next
    case False
    then show ?thesis using dns by (simp add: reinterpret_reset_def)
  qed
  then show ?thesis using False by (simp add: reinterpret_def b_def)
qed

lemma reinterpret_dns_cong:
  assumes "reinterpret_dns a = a" "at_test b = at_test a" "at_outcome b = at_outcome a"
    "det b ''tamper'' = det a ''tamper''" "det b ''verify_system'' = det a ''verify_system''"
    "det b ''verify_trusted'' = det a ''verify_trusted''"
  shows "reinterpret_dns b = b"
proof -
  have "judgeDisagreement (serveResultFrom (det a ''verify_system'')) (serveResultFrom (det a ''verify_trusted''))
      = disagreementPoisoned"
    if "at_test a = ''dest.dns''" "at_outcome a = OutcomeDNSMismatch" "det a ''tamper'' = ''system_address_fails''"
  proof -
    have "at_outcome (reinterpret_dns a) = OutcomeDNSMismatch"
      unfolding assms(1) by (rule that(2))
    then show ?thesis
      using that unfolding reinterpret_dns_def Let_def by (auto split: disagreement.splits)
  qed
  then show ?thesis using assms(2-) by (auto simp: reinterpret_dns_def Let_def)
qed

lemma settled_cong:
  assumes "settled a" "at_test b = at_test a" "at_outcome b = at_outcome a" "at_error b = at_error a"
    "at_stages b = at_stages a" "\<And>k. k \<noteq> ''server_delay_ms'' \<Longrightarrow> det b k = det a k"
  shows "settled b"
proof -
  have "LocalFailure b = LocalFailure a" "connectFailedAt b = connectFailedAt a" "ResetTiming b = ResetTiming a"
    using assms(2-)
    by (simp_all add: LocalFailure_def connectFailedAt_def ResetTiming_def stage_def split: option.splits)
  moreover have "reinterpret_dns a = a \<Longrightarrow> reinterpret_dns b = b"
    by (rule reinterpret_dns_cong) (use assms in simp_all)
  ultimately show ?thesis
    using assms by (cases "at_outcome a = OutcomeOK") (simp_all add: settled_def)
qed

lemma markServerDelay_keeps [simp]:
  "at_outcome (markServerDelay ob skew a) = at_outcome a" "at_error (markServerDelay ob skew a) = at_error a"
  "at_stages (markServerDelay ob skew a) = at_stages a" "at_started (markServerDelay ob skew a) = at_started a"
  "k \<noteq> ''server_delay_ms'' \<Longrightarrow> det (markServerDelay ob skew a) k = det a k"
  by (simp_all add: markServerDelay_def Let_def)

lemma markServerDelay_again:
  "markServerDelay ob skew ((markServerDelay ob skew a)\<lparr>at_merged := v\<rparr>) = (markServerDelay ob skew a)\<lparr>at_merged := v\<rparr>"
proof -
  have d: "server_delay ob skew (b\<lparr>at_merged := v\<rparr>) = server_delay ob skew b"
    "server_delay ob skew (set_det k t b) = server_delay ob skew b" for b k t
    by (simp_all add: server_delay_def stage_def cong: option.case_cong)
  have "set_det k t ((set_det k t a)\<lparr>at_merged := v\<rparr>) = (set_det k t a)\<lparr>at_merged := v\<rparr>" for k t
    by (simp add: set_det_def)
  then show ?thesis by (simp add: markServerDelay_def d)
qed

lemma verdict_helpers_merged:
  "verdict_timeout (a\<lparr>at_merged := v\<rparr>) = verdict_timeout a"
  "verdict_session_cut (a\<lparr>at_merged := v\<rparr>) = verdict_session_cut a"
  "verdict_packets_cut (a\<lparr>at_merged := v\<rparr>) = verdict_packets_cut a"
  "verdict_burst (a\<lparr>at_merged := v\<rparr>) = verdict_burst a"
  "verdict_bulk (a\<lparr>at_merged := v\<rparr>) = verdict_bulk a"
  "verdict_handshake (a\<lparr>at_merged := v\<rparr>) = verdict_handshake a"
  unfolding verdict_timeout_def verdict_session_cut_def verdict_packets_cut_def verdict_burst_def
    verdict_bulk_def verdict_handshake_def serverDelayPastDeadline_def Let_def
  by (simp_all cong: if_cong option.case_cong)

lemma mergeVerdict_merged [simp]: "mergeVerdict (a\<lparr>at_merged := v\<rparr>) = mergeVerdict a"
  unfolding mergeVerdict_def Let_def verdict_helpers_merged
  by (simp cong: if_cong option.case_cong)

text \<open>Merging is idempotent: re-merging the attempts of a stored report with the same clock skew
  changes nothing the second time, provided the recorded checks of a DNS disagreement do not quote
  the operating system's words for a failure of the host.\<close>

theorem remerge_idempotent:
  assumes "\<forall>a \<in> set attempts. at_test a = ''dest.dns'' \<longrightarrow> clean_checks a"
  shows "Remerge (Remerge attempts skew) skew = Remerge attempts skew"
proof -
  have "remerge_one skew (remerge_one skew a) = remerge_one skew a" if "at_test a = ''dest.dns'' \<longrightarrow> clean_checks a" for a
  proof -
    define b where "b = reinterpret a"
    have s: "settled b" unfolding b_def using that by (rule settled_reinterpret)
    show ?thesis
    proof (cases "at_server b")
      case None
      have "settled (b\<lparr>at_merged := mergeVerdict b\<rparr>)"
        by (rule settled_cong [OF s]) simp_all
      then show ?thesis
        using None by (simp add: remerge_one_def b_def [symmetric] Let_def reinterpret_settled)
    next
      case (Some ob)
      let ?c = "markServerDelay ob skew b"
      have "settled (?c\<lparr>at_merged := mergeVerdict ?c\<rparr>)"
        by (rule settled_cong [OF s]) simp_all
      then show ?thesis
        using Some by (simp add: remerge_one_def b_def [symmetric] Let_def reinterpret_settled markServerDelay_again)
    qed
  qed
  then show ?thesis using assms by (simp add: Remerge_def)
qed

theorem remerge_idempotent_witness:
  "Remerge (Remerge [demo_attempt] 5) 5 = Remerge [demo_attempt] 5"
  by (rule remerge_idempotent) (simp add: demo_attempt_def)

end
