(* ===== verification/Cells.thy ===== *)
theory Cells
  imports Merge "HOL-Library.AList" "HOL-Library.Multiset"
begin

text \<open>
  Aggregation of attempts into cells (\<open>internal/classify/classify.go\<close>, \<open>helpers.go\<close>): cells and
  their keys, measured and unmeasured attempts, pass and fail, the dominant merged result, the
  confidence ladder, medians and the one-line summary. Go maps that are only read by key are
  functions; histograms, which the code iterates, are association lists. The code collects the
  cells from a map and sorts them by key; here they are sorted from the order in which they were
  first seen, which is the same list when no two cells have one key.
\<close>

section \<open>Histograms\<close>

type_synonym hist = "(string \<times> int) list"

definition hist_get :: "hist \<Rightarrow> string \<Rightarrow> int" where
  "hist_get h k = (case map_of h k of None \<Rightarrow> 0 | Some v \<Rightarrow> v)"

definition hist_inc :: "string \<Rightarrow> hist \<Rightarrow> hist" where
  "hist_inc k h = AList.update k (hist_get h k + 1) h"

lemma hist_get_inc [simp]: "hist_get (hist_inc k h) j = hist_get h j + (if j = k then 1 else 0)"
  by (simp add: hist_get_def hist_inc_def update_conv')

lemma hist_get_Nil [simp]: "hist_get [] k = 0"
  by (simp add: hist_get_def)

lemma distinct_hist_inc [simp]: "distinct (map fst h) \<Longrightarrow> distinct (map fst (hist_inc k h))"
  by (simp add: hist_inc_def distinct_update)

section \<open>Cells\<close>

record cell =
  c_test :: string
  c_transport :: string
  c_port :: int
  c_variant :: string
  c_role :: string
  c_total :: int
  c_ok :: int
  c_outcomes :: hist
  c_merged :: hist
  c_server_saw :: int
  c_unmeasured :: int
  c_measured_merged :: "hist option"

definition portKey :: "string \<Rightarrow> int \<Rightarrow> string" where
  "portKey transport port = transport @ ''/'' @ itoa port"

definition familyKey :: "string \<Rightarrow> string \<Rightarrow> int \<Rightarrow> string" where
  "familyKey test transport port = test @ '' '' @ portKey transport port"

definition cellKey :: "string \<Rightarrow> string \<Rightarrow> int \<Rightarrow> string \<Rightarrow> string" where
  "cellKey test transport port variant = familyKey test transport port @ '' '' @ variant"

definition Key :: "cell \<Rightarrow> string" where
  "Key c = cellKey (c_test c) (c_transport c) (c_port c) (c_variant c)"

definition Measured :: "cell \<Rightarrow> int" where
  "Measured c = c_total c - c_unmeasured c"

definition pass :: "cell \<Rightarrow> bool" where
  "pass c \<longleftrightarrow> Measured c > 0 \<and> c_ok c * 2 > Measured c"

definition fails :: "cell \<Rightarrow> bool" where
  "fails c \<longleftrightarrow> Measured c > 0 \<and> c_ok c = 0"

definition unmeasuredMerged :: "string \<Rightarrow> bool" where
  "unmeasuredMerged m \<longleftrightarrow> m = OutcomeServerError \<or> m = OutcomeInconclusive \<or> m = OutcomeSkipped"

text \<open>The loop of \<open>dominant\<close> over a histogram, in the order given.\<close>

fun best_entry :: "hist \<Rightarrow> string \<times> int \<Rightarrow> string \<times> int" where
  "best_entry [] bn = bn"
| "best_entry ((k, v) # h) (best, n) =
     best_entry h (if v > n \<or> (v = n \<and> k < best) then (k, v) else (best, n))"

definition dominant :: "cell \<Rightarrow> string" where
  "dominant c =
     (let hist = (case c_measured_merged c of
                    Some h \<Rightarrow> h
                  | None \<Rightarrow> if Measured c > 0 then List.filter (\<lambda>(k, _). \<not> unmeasuredMerged k) (c_merged c) else []);
          hist = (if Measured c = 0 \<or> hist = [] then c_merged c else hist)
      in fst (best_entry hist ('''', -1)))"

definition unmeasured :: "attempt \<Rightarrow> bool" where
  "unmeasured a \<longleftrightarrow> unmeasuredMerged (at_outcome a) \<or> unmeasuredMerged (at_merged a) \<or> LocalFailure a \<noteq> ''''"

section \<open>Aggregation\<close>

definition left_out :: "attempt \<Rightarrow> bool" where
  "left_out a \<longleftrightarrow> det a ''transient'' = ''true'' \<or> det a ''cancelled'' = ''true''"

definition agg_key :: "attempt \<Rightarrow> string" where
  "agg_key a = at_test a @ ''|'' @ at_transport a @ ''|'' @ itoa (at_dst_port a) @ ''|'' @ at_variant a"

definition new_cell :: "attempt \<Rightarrow> cell" where
  "new_cell a = \<lparr>c_test = at_test a, c_transport = at_transport a, c_port = at_dst_port a, c_variant = at_variant a,
     c_role = at_role a, c_total = 0, c_ok = 0, c_outcomes = [], c_merged = [], c_server_saw = 0, c_unmeasured = 0,
     c_measured_merged = Some []\<rparr>"

definition count_attempt :: "attempt \<Rightarrow> cell \<Rightarrow> cell" where
  "count_attempt a c =
     (let c = c\<lparr>c_total := c_total c + 1, c_outcomes := hist_inc (at_outcome a) (c_outcomes c),
                c_merged := hist_inc (at_merged a) (c_merged c)\<rparr>;
          c = (if unmeasured a then c\<lparr>c_unmeasured := c_unmeasured c + 1\<rparr>
               else if at_outcome a = OutcomeOK
               then c\<lparr>c_ok := c_ok c + 1, c_measured_merged := map_option (hist_inc (at_merged a)) (c_measured_merged c)\<rparr>
               else c\<lparr>c_measured_merged := map_option (hist_inc (at_merged a)) (c_measured_merged c)\<rparr>)
      in if at_server a \<noteq> None then c\<lparr>c_server_saw := c_server_saw c + 1\<rparr> else c)"

definition agg_step :: "attempt \<Rightarrow> (string \<times> cell) list \<Rightarrow> (string \<times> cell) list" where
  "agg_step a m =
     (if left_out a then m
      else AList.update (agg_key a)
             (count_attempt a (case map_of m (agg_key a) of Some c \<Rightarrow> c | None \<Rightarrow> new_cell a)) m)"

definition Aggregate :: "attempt list \<Rightarrow> cell list" where
  "Aggregate attempts = sort_key Key (map snd (fold agg_step attempts []))"

section \<open>The confidence ladder\<close>

abbreviation highMinAttempts :: int where "highMinAttempts \<equiv> 3"
abbreviation mediumMinAttempts :: int where "mediumMinAttempts \<equiv> 2"
abbreviation mediumMaxOKShare :: int where "mediumMaxOKShare \<equiv> 3"

definition confidence :: "cell \<Rightarrow> cell \<Rightarrow> string" where
  "confidence failed passed =
     (let f = Measured failed; p = Measured passed
      in if f \<ge> highMinAttempts \<and> c_ok failed = 0 \<and> p \<ge> highMinAttempts \<and> c_ok passed = p then ''high''
         else if f \<ge> mediumMinAttempts \<and> c_ok failed * mediumMaxOKShare \<le> f \<and> pass passed then ''medium''
         else ''low'')"

section \<open>Helpers\<close>

definition handshakeVariantOf :: "string \<Rightarrow> string" where
  "handshakeVariantOf variant = trim_suffix (trim_suffix variant ''+data'') ''+control''"

definition plainTestFor :: "string \<Rightarrow> string \<Rightarrow> string" where
  "plainTestFor transport name = (if transport = ''udp'' then ''udp.'' @ name else ''tcp.'' @ name)"

definition echoTestFor :: "string \<Rightarrow> string" where
  "echoTestFor transport = plainTestFor transport ''echo''"

fun first_int :: "attempt \<Rightarrow> string list \<Rightarrow> int list" where
  "first_int a [] = []"
| "first_int a (k # ks) = (case atoi (det a k) of Some v \<Rightarrow> [v] | None \<Rightarrow> first_int a ks)"

definition detailInts :: "attempt list \<Rightarrow> string list \<Rightarrow> int list" where
  "detailInts attempts keys = concat (map (\<lambda>a. first_int a keys) attempts)"

definition median :: "int list \<Rightarrow> int" where
  "median v = (if v = [] then 0 else sort v ! (length v div 2))"

definition medianF :: "rat list \<Rightarrow> rat" where
  "medianF v = (if v = [] then 0 else sort v ! (length v div 2))"

definition isAppProtocol :: "string \<Rightarrow> bool" where
  "isAppProtocol test \<longleftrightarrow>
     has_prefix test ''http.'' \<or> has_prefix test ''tls.'' \<or> has_prefix test ''dns.'' \<or> test = ''tor.dir''"

definition directionFrom :: "string \<Rightarrow> string" where
  "directionFrom merged =
     (if merged = ''uplink_drop_after_handshake'' \<or> merged = ''uplink_drop_or_route_failure''
      then ''data stopped on the way to the server''
      else if merged = ''downlink_drop_after_handshake'' \<or> merged = ''downlink_drop''
      then ''the server answered every packet it saw; the answers were dropped on the way back''
      else if merged = ''uplink_delayed_past_deadline''
      then ''the server saw the data only after the client had given up: lost first, retransmitted later''
      else if merged = ''stalled_after_server_saw_it''
      then ''the server saw the first packet; which direction lost the rest is unknown''
      else if merged = ''connect_diverged_middlebox_or_misattributed''
      then ''the client never completed the TCP handshake, yet an empty connection from its address was accepted''
      else merged)"

definition nat_shifted :: "attempt \<Rightarrow> bool" where
  "nat_shifted a \<longleftrightarrow>
     (case at_server a of
        None \<Rightarrow> False
      | Some s \<Rightarrow> at_src_port a \<noteq> 0 \<and> obs_src_port s \<noteq> 0 \<and> at_src_port a \<noteq> obs_src_port s)"

definition natDetected :: "attempt list \<Rightarrow> string option" where
  "natDetected attempts =
     (case List.find nat_shifted attempts of
        None \<Rightarrow> None
      | Some a \<Rightarrow>
          Some (''the client is behind NAT (source port '' @ itoa (at_src_port a)
                @ '' left the client, the server saw ''
                @ itoa (case at_server a of Some s \<Rightarrow> obs_src_port s | None \<Rightarrow> 0) @ '')''))"

section \<open>Verdicts and their summary\<close>

record verdict =
  v_kind :: string
  v_subject :: string
  v_confidence :: string
  v_evidence :: "string list"

definition times_sign :: string where
  "times_sign = [CHR 0xC3, CHR 0x97]"

definition join_kinds :: "hist \<Rightarrow> string" where
  "join_kinds m = join_with '', '' (sort (map (\<lambda>(k, n). k @ times_sign @ itoa n) m))"

definition count_kinds :: "verdict list \<Rightarrow> hist" where
  "count_kinds vs = fold (\<lambda>v. hist_inc (v_kind v)) vs []"

definition summarize :: "verdict list \<Rightarrow> string" where
  "summarize vs =
     (if vs = [] then ''clean: every test family passed on every port; no differential observed''
      else let kinds = count_kinds (List.filter (\<lambda>v. v_confidence v \<noteq> ''low'') vs);
               low = count_kinds (List.filter (\<lambda>v. v_confidence v = ''low'') vs)
           in if kinds = [] then ''low confidence only: '' @ join_kinds low
              else if low = [] then join_kinds kinds
              else join_kinds kinds @ ''; low confidence: '' @ join_kinds low)"

end
