(* ===== verification/Rules.thy ===== *)
theory Rules
  imports Cells
begin

text \<open>
  The differential rules (\<open>internal/classify/rules*.go\<close>). A rule reads the attempts and the cells
  and appends verdicts; only \<open>ruleModification\<close> and \<open>ruleSynAck\<close> also read the verdicts of the rules
  before them. Each rule is a function from the attempts and cells to the verdicts it adds, in the
  order in which the code adds them; where the code walks a Go map (\<open>ruleVariant\<close>, the last loop
  of \<open>ruleSynAck\<close>) the order here is that of first appearance, and the final sort of \<open>classify\<close>
  makes it irrelevant.
\<close>

section \<open>Evidence\<close>

text \<open>\<open>%.nf\<close>: rounded half to even at \<open>n\<close> decimals, with the sign kept.\<close>

definition format_fixed :: "nat \<Rightarrow> rat \<Rightarrow> string" where
  "format_fixed d q =
     (let n = nat (round_half_even (\<bar>q\<bar> * 10 ^ d));
          frac = utoa (n mod 10 ^ d)
      in (if q < 0 then ''-'' else '''') @ utoa (n div 10 ^ d) @
         (if d = 0 then '''' else ''.'' @ replicate (d - length frac) CHR ''0'' @ frac))"

definition mk_verdict :: "string \<Rightarrow> string \<Rightarrow> string \<Rightarrow> string list \<Rightarrow> verdict" where
  "mk_verdict kind subject conf evs = \<lparr>v_kind = kind, v_subject = subject, v_confidence = conf, v_evidence = evs\<rparr>"

lemma mk_verdict_fields [simp]:
  "v_confidence (mk_verdict k s c e) = c" "v_subject (mk_verdict k s c e) = s"
  "v_kind (mk_verdict k s c e) = k" "v_evidence (mk_verdict k s c e) = e"
  by (simp_all add: mk_verdict_def)

definition ev :: "cell \<Rightarrow> string" where
  "ev c = Key c @ '': '' @ itoa (c_ok c) @ ''/'' @ itoa (c_total c) @ '' ok, dominant='' @ dominant c
          @ '', server_saw='' @ itoa (c_server_saw c)"

text \<open>An evidence line that quotes a cell after an introduction.\<close>

definition cite :: "string \<Rightarrow> cell \<Rightarrow> string" where
  "cite pre c = pre @ ev c"

definition baselines :: "cell list \<Rightarrow> cell list" where
  "baselines cs = List.filter (\<lambda>c. c_test c = ''tcp.echo'' \<or> c_test c = ''udp.echo'') cs"

definition find_cell :: "cell list \<Rightarrow> string \<Rightarrow> string \<Rightarrow> int \<Rightarrow> string \<Rightarrow> cell option" where
  "find_cell cs test transport port variant =
     List.find (\<lambda>c. c_test c = test \<and> c_transport c = transport \<and> c_port c = port
                  \<and> (variant = '''' \<or> c_variant c = variant)) cs"

definition handshakeCell :: "cell list \<Rightarrow> cell \<Rightarrow> cell option" where
  "handshakeCell cs c =
     (let hs = handshakeTestOf (c_test c)
      in if hs = '''' then None
         else case find_cell cs hs (c_transport c) (c_port c) (handshakeVariantOf (c_variant c)) of
                Some h \<Rightarrow> Some h
              | None \<Rightarrow>
                  (case find_cell cs hs (c_transport c) (c_port c) (c_variant c) of
                     Some h \<Rightarrow> Some h
                   | None \<Rightarrow> find_cell cs hs (c_transport c) (c_port c) ''''))"

text \<open>\<open>okX \<and> x.pass()\<close> and \<open>okX \<and> x.fail()\<close> of an optional cell.\<close>

definition opt_pass :: "cell option \<Rightarrow> bool" where
  "opt_pass x = (case x of Some c \<Rightarrow> pass c | None \<Rightarrow> False)"

definition opt_fails :: "cell option \<Rightarrow> bool" where
  "opt_fails x = (case x of Some c \<Rightarrow> fails c | None \<Rightarrow> False)"

definition opt_ev :: "string \<Rightarrow> cell option \<Rightarrow> string list" where
  "opt_ev pre x = (case x of Some c \<Rightarrow> [cite pre c] | None \<Rightarrow> [])"

definition cellAttempts :: "attempt list \<Rightarrow> cell \<Rightarrow> (attempt \<Rightarrow> bool) \<Rightarrow> attempt list" where
  "cellAttempts as c also' =
     List.filter (\<lambda>a. at_test a = c_test c \<and> at_dst_port a = c_port c \<and> at_variant a = c_variant c \<and> also' a) as"

section \<open>Rules 1 to 3: the baselines\<close>

definition ruleEndpoint :: "attempt list \<Rightarrow> cell list \<Rightarrow> verdict list" where
  "ruleEndpoint as cs =
     (let bs = baselines cs; bf = List.filter fails bs
      in if length bs > 0 \<and> length bf = length bs
         then [mk_verdict ''endpoint_blocking_suspected'' ''all baseline echo tests'' ''medium''
                 (''control plane reachable but every TCP and UDP echo failed'' # map ev bf)]
         else [])"

definition medianConnect :: "attempt list \<Rightarrow> int \<Rightarrow> rat option" where
  "medianConnect as port =
     (let v = concat (map (\<lambda>a. if at_transport a = ''tcp'' \<and> at_dst_port a = port \<and> at_test a \<noteq> ''tcp.rtt''
                               then (case at_stages a ''connect'' of Some ms \<Rightarrow> if ms > 0 then [ms] else [] | None \<Rightarrow> [])
                               else []) as)
      in if length v < 2 then None else Some (medianF v))"

definition proxyEvidence :: "attempt list \<Rightarrow> cell \<Rightarrow> cell \<Rightarrow> cell \<Rightarrow> string list" where
  "proxyEvidence as f app elsewhere =
     [ev f, cite ''but on the same port: '' app] @
     (if c_server_saw f > 0 \<and> (dominant f = ''downlink_drop'' \<or> dominant f = ''downlink_modified'')
      then [''the server received the opaque payload and answered; the answer never arrived: the path relays only traffic it can parse'']
      else if dominant f = ''uplink_delayed_past_deadline''
      then [''the server received the opaque payload only after the client had given up: the path held the flow instead of relaying it'']
      else []) @
     (if c_transport f = ''tcp''
      then (case medianConnect as (c_port f) of
              Some ms \<Rightarrow> [''median connect on this port '' @ format_fixed 1 ms @ '' ms'']
            | None \<Rightarrow> [])
      else []) @
     [cite ''passing echo elsewhere: '' elsewhere]"

definition port_verdict :: "attempt list \<Rightarrow> cell list \<Rightarrow> string \<Rightarrow> cell \<Rightarrow> cell \<Rightarrow> verdict" where
  "port_verdict as cs tr ctl f =
     (case List.filter (\<lambda>x. c_transport x = tr \<and> c_port x = c_port f \<and> pass x \<and> isAppProtocol (c_test x)) cs of
        [] \<Rightarrow> mk_verdict ''port_blocking_suspected'' (portKey tr (c_port f)) (confidence f ctl)
               [ev f, cite ''passing control: '' ctl]
      | app # _ \<Rightarrow> mk_verdict ''transparent_proxy_suspected'' (portKey tr (c_port f)) (confidence f app)
               (proxyEvidence as f app ctl))"

definition rulePortOrProxy :: "attempt list \<Rightarrow> cell list \<Rightarrow> verdict list" where
  "rulePortOrProxy as cs =
     concat (map (\<lambda>tr.
       let bs = List.filter (\<lambda>c. c_transport c = tr) (baselines cs)
       in case List.filter pass bs of
            [] \<Rightarrow> []
          | ctl # _ \<Rightarrow> map (port_verdict as cs tr ctl) (List.filter (\<lambda>c. \<not> pass c \<and> fails c) bs))
       [''tcp'', ''udp''])"

definition ruleUDP :: "attempt list \<Rightarrow> cell list \<Rightarrow> verdict list" where
  "ruleUDP as cs =
     (let tcpPass = length (List.filter (\<lambda>c. c_transport c = ''tcp'' \<and> pass c) (baselines cs));
          udp = List.filter (\<lambda>c. c_transport c = ''udp'') (baselines cs);
          udpTotal = length udp;
          udpFail = length (List.filter fails udp)
      in if tcpPass > 0 \<and> udpTotal > 0 \<and> udpFail = udpTotal
         then [mk_verdict ''udp_blocking_suspected'' ''all udp ports'' ''medium''
                 [itoa (int udpFail) @ ''/'' @ itoa (int udpTotal) @ '' udp echo cells failed while ''
                  @ itoa (int tcpPass) @ '' tcp echo cells passed'']]
         else [])"

section \<open>Rule 4: protocols\<close>

definition nativeTests :: "string list" where
  "nativeTests =
     [''tcp.bulk'', ''openvpn.reset'', ''wireguard.init'', ''openvpn.session'', ''wireguard.session'', ''ikev2.init'',
      ''ikev2.session'', ''l2tp.init'', ''l2tp.session'', ''socks5.connect'', ''socks5.session'', ''vless.reality'',
      ''vless.session'', ''quic.v1'', ''tls.sni'', ''tls.version'', ''tls.alpn'', ''tls.fingerprint'', ''http.host'',
      ''dns.udp'', ''dns.tcp'', ''dns.dot'', ''tor.handshake'', ''tor.link'', ''tor.dir'', ''obfs4.handshake'',
      ''obfs4.session'', ''dtls.hello'', ''stun.binding'']"

definition familyFails :: "cell list \<Rightarrow> cell \<Rightarrow> bool" where
  "familyFails cs c =
     list_all (\<lambda>x. \<not> (c_port x = c_port c \<and> c_transport x = c_transport c \<and> Measured x > 0 \<and> \<not> fails x))
       (List.filter (\<lambda>x. c_test x = c_test c) cs)"

definition protocol_conf :: "attempt list \<Rightarrow> cell \<Rightarrow> cell \<Rightarrow> string" where
  "protocol_conf as c echo =
     (let conf = confidence c echo
      in if (has_prefix (c_test c) ''ikev2.'' \<or> has_prefix (c_test c) ''l2tp.'') \<and> natDetected as \<noteq> None \<and> conf = ''high''
         then ''medium'' else conf)"

definition alg_evidence :: "attempt list \<Rightarrow> cell \<Rightarrow> string list" where
  "alg_evidence as c =
     (if has_prefix (c_test c) ''ikev2.'' \<or> has_prefix (c_test c) ''l2tp.''
      then [''consumer NAT routers with IPsec / L2TP passthrough ALGs drop or rewrite exactly these packets: a known confound on home networks, not necessarily the censor'']
           @ (case natDetected as of
                Some line \<Rightarrow> [line @ ''; an ALG on it cannot be ruled out from this vantage point'']
              | None \<Rightarrow> [])
      else [])"

fun protocol_loop :: "attempt list \<Rightarrow> cell list \<Rightarrow> string list \<Rightarrow> cell list \<Rightarrow> verdict list" where
  "protocol_loop as cs reported [] = []"
| "protocol_loop as cs reported (c # todo) =
     (if c_test c \<notin> set nativeTests \<or> \<not> fails c then protocol_loop as cs reported todo
      else if opt_pass (handshakeCell cs c) \<or> opt_fails (handshakeCell cs c) then protocol_loop as cs reported todo
      else if familyKey (c_test c) (c_transport c) (c_port c) \<in> set reported then protocol_loop as cs reported todo
      else
        let echo = find_cell cs (echoTestFor (c_transport c)) (c_transport c) (c_port c) '''';
            rnd = find_cell cs (plainTestFor (c_transport c) ''payload.random'') (c_transport c) (c_port c) '''';
            fam = familyKey (c_test c) (c_transport c) (c_port c)
        in case echo of
             None \<Rightarrow> protocol_loop as cs reported todo
           | Some e \<Rightarrow>
               if pass e \<and> opt_fails rnd \<and> c_role c \<noteq> RoleControl
               then mk_verdict ''control_failed_inconclusive'' (Key c) ''low''
                      ([ev c] @ opt_ev ''random-payload control also failed on this port: '' rnd @ [cite ''echo passed: '' e])
                    # protocol_loop as cs reported todo
               else if pass e \<and> (rnd = None \<or> opt_pass rnd) \<and> familyFails cs c \<and> c_role c \<noteq> RoleControl
               then mk_verdict ''protocol_blocking_suspected'' fam (protocol_conf as c e)
                      ([ev c, cite ''passing echo control: '' e] @ opt_ev ''passing random control: '' rnd @ alg_evidence as c)
                    # protocol_loop as cs (fam # reported) todo
               else protocol_loop as cs reported todo)"

definition ruleProtocol :: "attempt list \<Rightarrow> cell list \<Rightarrow> verdict list" where
  "ruleProtocol as cs = protocol_loop as cs [] cs"

section \<open>Rule 5: variants\<close>

definition variantBaseline :: "string \<Rightarrow> cell list \<Rightarrow> cell option" where
  "variantBaseline test cs =
     (let base = fold (\<lambda>c b. if c_role c = RoleBaseline \<or> (b = None \<and> c_role c = RoleControl \<and> has_prefix test ''vless.'')
                             then Some c else b) cs None
      in if opt_pass base then base
         else List.find (\<lambda>c. pass c \<and> c_role c \<noteq> RoleControl) cs)"

definition variantKind :: "string \<Rightarrow> string \<Rightarrow> string" where
  "variantKind test variant =
     (if test = ''tls.sni'' \<or> test = ''http.host''
      then (if has_prefix variant ''trigger:'' then ''sni_or_host_blocking_suspected'' else ''sni_or_host_policy_suspected'')
      else if test = ''tls.fingerprint'' then ''fingerprint_blocking_suspected''
      else if (test = ''vless.reality'' \<or> test = ''vless.session'') \<and> has_prefix variant ''reality:''
      then ''sni_ip_mismatch_blocking_suspected''
      else if test = ''tls.alpn'' then ''alpn_policy_suspected''
      else if test = ''tls.version'' then ''tls_version_policy_suspected''
      else if test = ''dns.udp'' then ''dns_qtype_policy_suspected''
      else if test = ''socks5.connect'' then ''socks5_auth_policy_suspected''
      else if test = ''tor.handshake'' then ''tor_handshake_blocking_suspected''
      else if test = ''dtls.hello'' then ''dtls_fingerprint_blocking_suspected''
      else ''variant_blocking_suspected'')"

definition variant_state :: "cell list \<Rightarrow> string \<Rightarrow> string" where
  "variant_state cs variant =
     (case List.find (\<lambda>c. c_variant c = variant \<and> (fails c \<or> pass c)) cs of
        Some c \<Rightarrow> if fails c then ''fail'' else ''pass''
      | None \<Rightarrow> '''')"

definition torFeatureLine :: "cell list \<Rightarrow> string \<Rightarrow> string" where
  "torFeatureLine cs variant =
     (let hello = variant_state cs ''tor-hello+probe-cert''; cert = variant_state cs ''go-hello+tor-cert''
      in if hello = ''fail'' \<and> cert = ''fail''
         then ''both the tor ClientHello alone and the relay certificate alone fail: two independent rules, or a rule on either feature''
         else if hello = ''fail'' \<and> cert = ''pass''
         then ''the tor ClientHello alone fails while the relay certificate with a plain hello passes: the rule keys on the ClientHello (no SNI + tor cipher list)''
         else if hello = ''pass'' \<and> cert = ''fail''
         then ''the relay certificate alone fails while the tor ClientHello with the probe certificate passes: the rule keys on the TLS 1.2 certificate (www.<random>.com / .net)''
         else if hello = ''pass'' \<and> cert = ''pass'' \<and> variant = ''tor-hello+tor-cert''
         then ''each feature alone passes; only the full tor shape fails: the rule needs both the ClientHello and the certificate''
         else '''')"

definition variant_verdicts :: "cell list \<Rightarrow> string \<Rightarrow> cell list \<Rightarrow> verdict list" where
  "variant_verdicts cs test ps =
     (case variantBaseline test ps of
        None \<Rightarrow> []
      | Some base \<Rightarrow>
          map (\<lambda>v. mk_verdict (variantKind test (c_variant v)) (Key v) (confidence v base)
                    ([ev v, cite ''passing baseline: '' base] @
                     (if test = ''tor.handshake'' \<and> torFeatureLine ps (c_variant v) \<noteq> ''''
                      then [torFeatureLine ps (c_variant v)] else [])))
            (List.filter (\<lambda>v. \<not> (c_role v = RoleBaseline \<or> \<not> fails v \<or> Key v = Key base)
                             \<and> \<not> opt_pass (handshakeCell cs v)) ps))"

definition ruleVariant :: "attempt list \<Rightarrow> cell list \<Rightarrow> verdict list" where
  "ruleVariant as cs =
     concat (map (\<lambda>test.
       let grp = List.filter (\<lambda>c. c_test c = test) cs
       in if IsDestTest test then []
          else concat (map (\<lambda>pk. variant_verdicts cs test
                              (List.filter (\<lambda>c. portKey (c_transport c) (c_port c) = pk) grp))
                         (remdups (map (\<lambda>c. portKey (c_transport c) (c_port c)) grp))))
       (remdups (map c_test cs)))"

section \<open>Rules 5b and 5c: flows that start and then stop\<close>

definition bulk_verdict :: "attempt list \<Rightarrow> cell \<Rightarrow> cell \<Rightarrow> verdict list" where
  "bulk_verdict as c short =
     (if \<not> pass short then []
      else let offsets = detailInts (cellAttempts as c (\<lambda>_. True)) [''bulk_cut_kb''];
               off = (if offsets \<noteq> [] then ''~'' @ itoa (median offsets) @ '' KB'' else ''unknown'');
               kind = (if str_contains (c_variant c) ''trigger:'' \<or> str_contains (c_variant c) ''list:''
                       then ''sni_bulk_cut_suspected'' else ''bulk_transfer_cut_suspected'')
           in [mk_verdict kind (Key c) (confidence c short)
                 [ev c, ''transfer stopped at '' @ off, cite ''short exchange on the same port passed: '' short]])"

definition bulk_cut_of :: "attempt list \<Rightarrow> cell list \<Rightarrow> cell \<Rightarrow> verdict list" where
  "bulk_cut_of as cs c =
     (if c_test c \<noteq> ''tcp.bulk'' \<or> \<not> fails c then []
      else case find_cell cs ''tcp.echo'' (c_transport c) (c_port c) '''' of
             None \<Rightarrow> []
           | Some short \<Rightarrow> bulk_verdict as c short)"

definition ruleBulkCut :: "attempt list \<Rightarrow> cell list \<Rightarrow> verdict list" where
  "ruleBulkCut as cs = concat (map (bulk_cut_of as cs) cs)"

definition packet_counts :: "attempt list \<Rightarrow> cell \<Rightarrow> string list" where
  "packet_counts as c =
     (let failed = cellAttempts as c (\<lambda>a. at_outcome a \<noteq> OutcomeOK);
          sent = detailInts failed [''packets_sent''];
          acked = detailInts failed [''packets_acked''];
          planned = detailInts failed [''packets_planned'']
      in if c_transport c = ''udp'' \<and> acked \<noteq> []
         then [''datagrams answered before the cut: median '' @ itoa (median acked) @ '' of '' @ itoa (median planned)]
         else if sent \<noteq> []
         then [''segments written: median '' @ itoa (median sent) @ '' of '' @ itoa (median planned) @ ''; the reply never came'']
         else [])"

definition packet_bulk_line :: "cell list \<Rightarrow> cell \<Rightarrow> string list" where
  "packet_bulk_line cs c =
     (let bulk = List.filter (\<lambda>x. c_test x = ''tcp.bulk'' \<and> c_port x = c_port c) cs
      in if c_transport c \<noteq> ''tcp'' then []
         else if list_ex fails bulk
         then [''tcp.bulk on the same port was cut as well: the limit is consistent with a per-flow packet count (about 16 KB of 4 KB chunks is also ~25 packets)'']
         else if list_ex (\<lambda>x. \<not> fails x \<and> pass x) bulk
         then [''tcp.bulk (tens of KB in 4 KB chunks) passed on the same port: only a flow of many small packets trips it'']
         else [])"

definition packet_verdict :: "attempt list \<Rightarrow> cell list \<Rightarrow> cell \<Rightarrow> cell \<Rightarrow> verdict list" where
  "packet_verdict as cs c echo =
     (if \<not> pass echo then []
      else [mk_verdict ''packet_count_cut_suspected'' (Key c) (confidence c echo)
              ([ev c, cite ''one-packet echo on the same port passed: '' echo]
               @ packet_counts as c @ packet_bulk_line cs c)])"

definition packet_cut_of :: "attempt list \<Rightarrow> cell list \<Rightarrow> cell \<Rightarrow> verdict list" where
  "packet_cut_of as cs c =
     (if (c_test c \<noteq> ''tcp.packets'' \<and> c_test c \<noteq> ''udp.packets'') \<or> \<not> fails c then []
      else case find_cell cs (echoTestFor (c_transport c)) (c_transport c) (c_port c) '''' of
             None \<Rightarrow> []
           | Some echo \<Rightarrow> packet_verdict as cs c echo)"

definition rulePacketCut :: "attempt list \<Rightarrow> cell list \<Rightarrow> verdict list" where
  "rulePacketCut as cs = concat (map (packet_cut_of as cs) cs)"

definition burstEvidence :: "attempt list \<Rightarrow> cell \<Rightarrow> string list" where
  "burstEvidence as c =
     (let bs = cellAttempts as c (\<lambda>a. det a ''transient'' \<noteq> ''true'');
          fp = (if bs \<noteq> [] then det (last bs) ''fingerprint'' else '''');
          n = (if bs \<noteq> [] then det (last bs) ''burst_n'' else '''');
          alphaOK = detailInts bs [''alpha_ok''];
          seen = detailInts bs [''server_alpha_seen''];
          partial = detailInts bs [''server_alpha_partial'']
      in [ev c] @
         (if alphaOK \<noteq> []
          then [n @ '' parallel handshakes ('' @ fp @ '' parrot, ClientHellos within ~''
                @ itoa (median (detailInts bs [''burst_spread_ms''])) @ '' ms): median '' @ itoa (median alphaOK)
                @ '' passed; the single handshake to another name right after passed'']
          else []) @
         (if seen \<noteq> []
          then [''server saw median '' @ itoa (median seen) @ '' of '' @ n @ '' ClientHellos and sent a ServerHello to ''
                @ itoa (median (detailInts bs [''server_alpha_answered'', ''server_alpha_hello'']))
                @ (if partial \<noteq> [] \<and> median partial > 0
                   then '', '' @ itoa (median partial) @ '' arrived cut mid-hello'' else '''')
                @ '': '' @ directionFrom (dominant c)]
          else []))"

definition burst_conf :: "cell \<Rightarrow> cell option \<Rightarrow> string" where
  "burst_conf c outer =
     (case outer of
        Some ctl \<Rightarrow>
          if pass ctl then confidence c ctl
          else if Measured c \<ge> mediumMinAttempts \<and> hist_get (c_outcomes c) OutcomeBurstFreeze * 2 > Measured c
          then ''medium'' else ''low''
      | None \<Rightarrow>
          if Measured c \<ge> mediumMinAttempts \<and> hist_get (c_outcomes c) OutcomeBurstFreeze * 2 > Measured c
          then ''medium'' else ''low'')"

definition burst_other_lines :: "cell list \<Rightarrow> cell \<Rightarrow> string list" where
  "burst_other_lines cs c =
     concat (map (\<lambda>x.
       if c_test x = ''tls.burst'' \<and> c_port x = c_port c \<and> c_variant x \<noteq> c_variant c
       then (if pass x
             then [''the same burst with the '' @ fst (str_cut (CHR ''-'') (c_variant x))
                   @ '' parrot passed: the rule is fingerprint-dependent ('' @ ev x @ '')'']
             else if fails x
             then [''the same burst with the '' @ fst (str_cut (CHR ''-'') (c_variant x))
                   @ '' parrot failed too: the rule does not depend on the fingerprint ('' @ ev x @ '')'']
             else [])
       else []) cs)"

definition burst_freeze_of :: "attempt list \<Rightarrow> cell list \<Rightarrow> cell \<Rightarrow> verdict list" where
  "burst_freeze_of as cs c =
      (if c_test c \<noteq> ''tls.burst'' \<or> hist_get (c_outcomes c) OutcomeBurstFreeze = 0 \<or> pass c then []
       else let outer = find_cell cs ''tls.sni'' ''tcp'' (c_port c) ''benign''
            in [mk_verdict ''tls_burst_freeze_suspected'' (Key c) (burst_conf c outer)
                  (burstEvidence as c @ opt_ev ''single-handshake baseline on the same port: '' outer
                   @ burst_other_lines cs c)])"

definition ruleBurstFreeze :: "attempt list \<Rightarrow> cell list \<Rightarrow> verdict list" where
  "ruleBurstFreeze as cs = concat (map (burst_freeze_of as cs) cs)"

definition control_channel_lines :: "int list \<Rightarrow> int list \<Rightarrow> int list \<Rightarrow> int list \<Rightarrow> int list \<Rightarrow> string list" where
  "control_channel_lines ctlSent ctlRecv ctlSeen recv firstLoss =
     (if median ctlRecv = 0
      then [''the control channel itself was cut right after the reset: median '' @ itoa (median ctlRecv) @ '' of ''
            @ itoa (median ctlSent) @ '' control packets answered'']
      else if recv \<noteq> [] \<and> median recv = 0
      then [''control channel passed (median '' @ itoa (median ctlRecv) @ '' of '' @ itoa (median ctlSent)
            @ '' control packets answered), data channel cut: not one data packet came back'']
      else if firstLoss \<noteq> [] \<and> median firstLoss > 0
      then [''control channel passed (median '' @ itoa (median ctlRecv) @ '' of '' @ itoa (median ctlSent)
            @ '' control packets answered), data channel cut after '' @ itoa (median firstLoss) @ '' data packets'']
      else [''control channel: median '' @ itoa (median ctlRecv) @ '' of '' @ itoa (median ctlSent) @ '' control packets answered''])
     @ (if ctlSeen \<noteq> [] then [''server saw median '' @ itoa (median ctlSeen) @ '' control packets''] else [])"

definition sessionCutEvidence :: "attempt list \<Rightarrow> cell \<Rightarrow> cell \<Rightarrow> string list" where
  "sessionCutEvidence as c hs =
     (let bs = cellAttempts as c (\<lambda>a. at_transport a = c_transport c);
          recv = detailInts bs [''data_recv'']; sent = detailInts bs [''data_sent''];
          seen = detailInts bs [''server_data_seen''];
          ctlRecv = detailInts bs [''ctl_recv'']; ctlSent = detailInts bs [''ctl_sent''];
          ctlSeen = detailInts bs [''server_ctl_seen''];
          firstLoss = detailInts (cellAttempts as c (\<lambda>a. at_transport a = c_transport c \<and> at_outcome a = OutcomeSessionCut))
                        [''data_first_loss'']
      in [ev c, cite ''handshake on the same port passed: '' hs] @
         (if recv \<noteq> [] \<and> sent \<noteq> []
          then [''data packets answered: median '' @ itoa (median recv) @ '' of '' @ itoa (median sent)] else []) @
         (if ctlSent \<noteq> [] \<and> ctlRecv \<noteq> [] then control_channel_lines ctlSent ctlRecv ctlSeen recv firstLoss
          else if firstLoss \<noteq> [] \<and> median firstLoss > 0
          then [''cut after '' @ itoa (median firstLoss) @ '' data packets''] else []) @
         (if seen \<noteq> []
          then [''server saw median '' @ itoa (median seen) @ '' data packets: '' @ directionFrom (dominant c)] else []))"

definition session_cut_repeats :: "cell \<Rightarrow> bool" where
  "session_cut_repeats c \<longleftrightarrow>
     hist_get (c_outcomes c) OutcomeSessionCut * 3 \<ge> Measured c * 2 \<and> Measured c \<ge> highMinAttempts"

definition session_cut_verdict :: "attempt list \<Rightarrow> cell list \<Rightarrow> cell \<Rightarrow> cell \<Rightarrow> verdict" where
  "session_cut_verdict as cs c hs =
     (let kind = trim_suffix (c_test c) ''.session'' @ ''_session_cut_suspected'';
          evs = sessionCutEvidence as c hs;
          conf = confidence c hs;
          conf = (if c_ok c > 0 \<and> conf = ''high'' then ''medium'' else conf);
          echo = find_cell cs (echoTestFor (c_transport c)) (c_transport c) (c_port c) '''';
          pk = find_cell cs (plainTestFor (c_transport c) ''packets'') (c_transport c) (c_port c) ''''
      in if session_cut_repeats c \<and> pass hs \<and> (opt_pass echo \<or> opt_pass pk)
         then mk_verdict kind (Key c) ''high''
                (evs @ (if opt_pass echo then opt_ev ''baseline on the same port passed: '' echo
                        else opt_ev ''baseline on the same port passed: '' pk))
         else mk_verdict kind (Key c) conf evs)"

definition session_cut_of :: "attempt list \<Rightarrow> cell list \<Rightarrow> cell \<Rightarrow> verdict list" where
  "session_cut_of as cs c =
      (if handshakeTestOf (c_test c) = '''' \<or> pass c \<or> Measured c = 0 then []
       else case handshakeCell cs c of
              None \<Rightarrow> []
            | Some hs \<Rightarrow> if \<not> pass hs then [] else [session_cut_verdict as cs c hs])"

definition ruleSessionCut :: "attempt list \<Rightarrow> cell list \<Rightarrow> verdict list" where
  "ruleSessionCut as cs = concat (map (session_cut_of as cs) cs)"

section \<open>Rule 6: DNS\<close>

definition dnsManipulation :: "cell list \<Rightarrow> verdict list" where
  "dnsManipulation cs =
     concat (map (\<lambda>c.
       if \<not> has_prefix (c_test c) ''dns.'' then []
       else if hist_get (c_outcomes c) OutcomeDNSMismatch + hist_get (c_outcomes c) ''dns_injected_race'' > 0
       then [mk_verdict (if c_test c = ''dns.system'' then ''system_resolver_manipulation_suspected'' else ''dns_manipulation_suspected'')
               (Key c) ''medium'' [ev c, ''answer content did not match the authoritative nonce answer'']]
       else []) cs)"

definition dns_port_of :: "cell list \<Rightarrow> bool \<Rightarrow> cell \<Rightarrow> verdict list" where
  "dns_port_of cs udpOnly c =
      (if \<not> has_prefix (c_test c) ''dns.'' \<or> c_test c = ''dns.system'' \<or> c_test c = ''dns.doh'' \<or> \<not> fails c then []
       else if find_cell cs ''tcp.echo'' (c_transport c) (c_port c) '''' \<noteq> None then []
       else if find_cell cs ''udp.echo'' (c_transport c) (c_port c) '''' \<noteq> None then []
       else if udpOnly \<and> c_test c = ''dns.udp'' then []
       else case List.find (\<lambda>x. c_test x = echoTestFor (c_transport c) \<and> pass x) cs of
              None \<Rightarrow> []
            | Some ctrl \<Rightarrow>
                [mk_verdict ''dns_port_blocking_suspected'' (Key c) (confidence c ctrl)
                   [ev c, cite ''no echo runs on this port; passing echo on another port of the same transport: '' ctrl]])"

definition dnsPortBlocking :: "cell list \<Rightarrow> bool \<Rightarrow> verdict list" where
  "dnsPortBlocking cs udpOnly = concat (map (dns_port_of cs udpOnly) cs)"

definition last_such :: "('a \<Rightarrow> bool) \<Rightarrow> 'a list \<Rightarrow> 'a option" where
  "last_such p xs = fold (\<lambda>x r. if p x then Some x else r) xs None"

definition ruleDNS :: "attempt list \<Rightarrow> cell list \<Rightarrow> verdict list" where
  "ruleDNS as cs =
     (let dnsUDP = last_such (\<lambda>c. c_test c = ''dns.udp'' \<and> c_variant c = ''TXT'') cs;
          dnsTCP = last_such (\<lambda>c. c_test c = ''dns.tcp'') cs;
          udpOnly = (dnsUDP \<noteq> None \<and> opt_pass dnsTCP)
      in dnsManipulation cs @
         (case (dnsUDP, dnsTCP) of
            (Some u, Some t) \<Rightarrow>
              if udpOnly \<and> fails u
              then [mk_verdict ''dns_udp_blocking_suspected'' (Key u) (confidence u t) [ev u, cite ''passing control: '' t]]
              else []
          | _ \<Rightarrow> []) @
         dnsPortBlocking cs udpOnly)"

section \<open>Rules 7 and 8: the path\<close>

definition modificationMerges :: "string list" where
  "modificationMerges =
     [''uplink_modified'', ''downlink_modified'', ''injected'', ''rst_injected_or_path_reset'', ''rst_injected_bidirectional'',
      ''tls_mitm_or_wrong_server'']"

definition flow_rule_test :: "string \<Rightarrow> bool" where
  "flow_rule_test t \<longleftrightarrow> t = ''tcp.bulk'' \<or> t = ''tcp.packets'' \<or> t = ''udp.packets'' \<or> t = ''tls.burst'' \<or> handshakeTestOf t \<noteq> ''''"

text \<open>The index of the last verdict on each subject, taken before the loop (\<open>named\<close>).\<close>

definition named_index :: "verdict list \<Rightarrow> string \<Rightarrow> nat option" where
  "named_index vs subject =
     fold (\<lambda>i r. if v_subject (vs ! i) = subject then Some i else r) [0..<length vs] None"

definition add_evidence :: "string \<Rightarrow> verdict \<Rightarrow> verdict" where
  "add_evidence line v = v\<lparr>v_evidence := v_evidence v @ [line]\<rparr>"

definition modify_one :: "(string \<Rightarrow> nat option) \<Rightarrow> cell \<Rightarrow> string \<Rightarrow> verdict list \<Rightarrow> verdict list" where
  "modify_one named c merged vs =
     (let n = hist_get (c_merged c) merged
      in if n = 0 \<or> merged \<notin> set modificationMerges then vs
         else case named (Key c) of
                Some i \<Rightarrow> vs[i := add_evidence (''mechanism: '' @ itoa n @ ''/'' @ itoa (c_total c) @ '' attempts merged as '' @ merged) (vs ! i)]
              | None \<Rightarrow>
                  vs @ [mk_verdict merged (Key c) (if n \<ge> mediumMinAttempts then ''medium'' else ''low'')
                          [itoa n @ ''/'' @ itoa (c_total c) @ '' attempts classified '' @ merged
                           @ ''; no differential control for this cell'']])"

definition ruleModification :: "cell list \<Rightarrow> verdict list \<Rightarrow> verdict list" where
  "ruleModification cs vs =
     fold (\<lambda>c vs'. if flow_rule_test (c_test c) then vs'
                   else fold (modify_one (named_index vs) c) (sort (map fst (c_merged c))) vs') cs vs"

definition connect_medians :: "attempt list \<Rightarrow> (int \<times> rat) list" where
  "connect_medians as =
     concat (map (\<lambda>p. case medianConnect as p of Some m \<Rightarrow> [(p, m)] | None \<Rightarrow> [])
       (remdups (map at_dst_port (List.filter (\<lambda>a. at_transport a = ''tcp'') as))))"

definition fastConnectPorts :: "attempt list \<Rightarrow> (int \<times> rat) list \<times> rat" where
  "fastConnectPorts as =
     (let meds = connect_medians as; ref = medianF (map snd meds)
      in if length meds < 3 then ([], 0)
         else if ref < 20 then ([], ref)
         else (sort_key fst (List.filter (\<lambda>(p, m). m < ref * (1 / 4) \<and> ref - m > 20) meds), ref))"

definition rtt_suspects :: "attempt list \<Rightarrow> (int \<times> string) list" where
  "rtt_suspects as =
     fold (\<lambda>a m. if at_test a = ''tcp.rtt'' \<and> det a ''synack_suspect'' = ''true''
                 then AList.update (at_dst_port a)
                        (''tcp.rtt on '' @ portKey ''tcp'' (at_dst_port a) @ '': connect '' @ det a ''connect_min_ms''
                         @ '' ms vs payload '' @ det a ''payload_min_ms'' @ '' ms (ratio '' @ det a ''connect_payload_ratio'' @ '')'') m
                 else m) as []"

definition synack_verdict :: "attempt list \<Rightarrow> verdict list \<Rightarrow> rat \<Rightarrow> int \<times> rat \<Rightarrow> verdict" where
  "synack_verdict as vs ref pm =
     (let subject = portKey ''tcp'' (fst pm);
          suspect = map_of (rtt_suspects as) (fst pm);
          proxied = list_ex (\<lambda>v. v_kind v = ''transparent_proxy_suspected'' \<and> v_subject v = subject) vs
      in mk_verdict ''synack_local_termination_suspected'' subject
           (if suspect \<noteq> None \<or> proxied then ''medium'' else ''low'')
           ([''median connect on '' @ subject @ '' is '' @ format_fixed 1 (snd pm) @ '' ms; on the other TCP ports ''
             @ format_fixed 1 ref @ '' ms (ratio '' @ format_fixed 2 (snd pm / ref) @ '')'']
            @ (case suspect of Some s \<Rightarrow> [s] | None \<Rightarrow> [])
            @ (if proxied then [''transparent_proxy_suspected on the same port: the opaque payloads that the proxy cannot parse are the ones that never come back''] else [])
            @ [''a SYN-ACK from a middlebox: transparent proxy / split-TCP; pcap with TTL would confirm'']))"

definition ruleSynAck :: "attempt list \<Rightarrow> verdict list \<Rightarrow> verdict list" where
  "ruleSynAck as vs =
     (case fastConnectPorts as of
        (fast, ref) \<Rightarrow>
          vs @ map (synack_verdict as vs ref) fast
             @ map (\<lambda>(p, s). mk_verdict ''synack_spoof_signal'' (portKey ''tcp'' p) ''low''
                               [s @ ''; no cross-port confirmation; needs pcap/TTL''])
                 (List.filter (\<lambda>(p, s). p \<notin> fst ` set fast) (rtt_suspects as)))"

section \<open>All rules\<close>

definition differential_rules :: "(attempt list \<Rightarrow> cell list \<Rightarrow> verdict list) list" where
  "differential_rules =
     [ruleEndpoint, rulePortOrProxy, ruleUDP, ruleProtocol, ruleVariant, ruleBulkCut, rulePacketCut, ruleBurstFreeze,
      ruleSessionCut, ruleDNS]"

definition run :: "attempt list \<Rightarrow> cell list \<Rightarrow> verdict list" where
  "run as cs = ruleSynAck as (ruleModification cs (concat (map (\<lambda>rule. rule as cs) differential_rules)))"

end
