(* ===== verification/Cells_Props.thy ===== *)
theory Cells_Props
  imports Cells
begin

text \<open>
  What the aggregation guarantees: every attempt that is not left out is counted in exactly one
  cell, the counters of a cell are the counts over its attempts, attempts that measured nothing
  change neither pass nor fail nor the dominant result, the dominant result does not depend on
  the order in which a histogram is walked, and the confidence ladder.
\<close>

section \<open>Histograms and the dominant result\<close>



text \<open>\<open>better\<close> is the order the loop maximises: higher count first, then the smaller text.\<close>

definition better :: "string \<times> int \<Rightarrow> string \<times> int \<Rightarrow> bool" where
  "better p q \<longleftrightarrow> snd p > snd q \<or> (snd p = snd q \<and> fst p < fst q)"

lemma best_entry_step:
  "best_entry (p # h) bn = best_entry h (if better p bn then p else bn)"
  by (cases p; cases bn) (simp add: better_def)

lemma better_trans: "better p q \<Longrightarrow> better q r \<Longrightarrow> better p r"
  by (auto simp: better_def)

lemma better_total: "better p q \<or> p = q \<or> better q p"
  by (cases p; cases q) (auto simp: better_def)

lemma better_irrefl: "\<not> better p p"
  by (simp add: better_def)

lemma best_entry_max: "best_entry h bn \<in> set (bn # h) \<and> (\<forall>p \<in> set (bn # h). \<not> better p (best_entry h bn))"
proof (induction h arbitrary: bn)
  case Nil
  then show ?case by (simp add: better_irrefl)
next
  case (Cons p h)
  let ?bn = "if better p bn then p else bn"
  have "\<not> better q (best_entry h ?bn)" if "q \<in> {p, bn}" for q
  proof
    assume "better q (best_entry h ?bn)"
    moreover have "q = ?bn \<or> better ?bn q"
      using that better_total [of p bn] by auto
    ultimately show False
      using Cons [of ?bn] better_trans [of ?bn q "best_entry h ?bn"] by auto
  qed
  then show ?case using Cons [of ?bn] by (auto simp: best_entry_step)
qed

lemma best_entry_perm:
  assumes "set h = set h'"
  shows "best_entry h bn = best_entry h' bn"
  using best_entry_max [of h bn] best_entry_max [of h' bn] better_total [of "best_entry h bn" "best_entry h' bn"] assms
  by (auto simp del: best_entry.simps)

text \<open>The dominant result of a cell is well defined although the code walks a Go map, whose order
  is random: it is the same for every order of the histograms, and when the cell measured
  something it is one of the most frequent merged results of the measured attempts, the first of
  these in alphabetical order.\<close>

theorem dominant_is_deterministic:
  assumes "set h' = set h" and "c_measured_merged c = Some h" and "h \<noteq> []" and "Measured c \<noteq> 0"
    and "\<forall>(k, n) \<in> set h. n \<ge> 0"
  shows "dominant (c\<lparr>c_measured_merged := Some h'\<rparr>) = dominant c
         \<and> (\<exists>n. (dominant c, n) \<in> set h \<and> (\<forall>(k, m) \<in> set h. m < n \<or> (m = n \<and> dominant c \<le> k)))"
proof -
  have "h' \<noteq> []" using assms(1,3) by auto
  then have d: "dominant (c\<lparr>c_measured_merged := Some h'\<rparr>) = dominant c" "dominant c = fst (best_entry h ('''', -1))"
    using assms(2-4) best_entry_perm [OF assms(1), of "('''', -1)"]
    by (simp_all add: dominant_def Measured_def Let_def)
  let ?b = "best_entry h ('''', -1)"
  have "?b \<noteq> ('''', -1)"
  proof
    assume "?b = ('''', -1)"
    moreover obtain k n where "(k, n) \<in> set h" using assms(3) by (cases h) auto
    ultimately show False
      using best_entry_max [of h "('''', -1)"] assms(5) by (fastforce simp: better_def)
  qed
  then have b: "?b \<in> set h" using best_entry_max [of h "('''', -1)"] by simp
  have "m < snd ?b \<or> (m = snd ?b \<and> fst ?b \<le> k)" if "(k, m) \<in> set h" for k m
    using that best_entry_max [of h "('''', -1)"] by (force simp: better_def)
  then show ?thesis
    using d b by (intro conjI exI [of _ "snd ?b"]) (auto simp: prod_eq_iff)
qed

theorem dominant_is_deterministic_witness:
  "let c = (new_cell zero_attempt)\<lparr>c_total := 3, c_measured_merged := Some [(''injected'', 1), (''downlink_drop'', 2)]\<rparr>
   in dominant (c\<lparr>c_measured_merged := Some [(''downlink_drop'', 2), (''injected'', 1)]\<rparr>) = dominant c"
proof -
  let ?c = "(new_cell zero_attempt)\<lparr>c_total := 3, c_measured_merged := Some [(''injected'', 1), (''downlink_drop'', 2)]\<rparr>"
  have "dominant (?c\<lparr>c_measured_merged := Some [(''downlink_drop'', 2), (''injected'', 1)]\<rparr>) = dominant ?c"
    using dominant_is_deterministic [of "[(''downlink_drop'', 2), (''injected'', 1)]"
        "[(''injected'', 1), (''downlink_drop'', 2)]" ?c]
    by (simp add: Measured_def new_cell_def insert_commute)
  then show ?thesis by (simp only: Let_def)
qed

section \<open>Groups\<close>

definition members :: "string \<Rightarrow> attempt list \<Rightarrow> attempt list" where
  "members k xs = List.filter (\<lambda>a. \<not> left_out a \<and> agg_key a = k) xs"

definition cell_of :: "attempt list \<Rightarrow> cell" where
  "cell_of g = fold count_attempt g (new_cell (hd g))"

lemma members_snoc:
  "members k (xs @ [a]) = members k xs @ (if \<not> left_out a \<and> agg_key a = k then [a] else [])"
  by (simp add: members_def)

lemma cell_of_snoc: "cell_of (g @ [a]) = count_attempt a (if g = [] then new_cell a else cell_of g)"
  by (cases g) (simp_all add: cell_of_def)

lemma cell_of_single: "cell_of [a] = count_attempt a (new_cell a)"
  by (simp add: cell_of_def)

lemma agg_map:
  "distinct (map fst (fold agg_step xs []))
   \<and> map_of (fold agg_step xs []) = (\<lambda>k. if members k xs = [] then None else Some (cell_of (members k xs)))"
proof (induction xs rule: rev_induct)
  case Nil
  then show ?case by (simp add: members_def fun_eq_iff)
next
  case (snoc a xs)
  let ?m = "fold agg_step xs []"
  show ?case
  proof (cases "left_out a")
    case True
    then show ?thesis using snoc by (auto simp: agg_step_def [of a] members_snoc fun_eq_iff)
  next
    case False
    then show ?thesis
      using snoc
      by (auto simp: agg_step_def [of a] members_snoc update_conv' distinct_update cell_of_snoc cell_of_single fun_eq_iff)
  qed
qed

lemma mset_Aggregate: "mset (Aggregate xs) = mset (map snd (fold agg_step xs []))"
  by (simp add: Aggregate_def)

lemma set_Aggregate: "c \<in> set (Aggregate xs) \<longleftrightarrow> (\<exists>k. members k xs \<noteq> [] \<and> c = cell_of (members k xs))"
proof -
  have "c \<in> set (Aggregate xs) \<longleftrightarrow> (\<exists>k. (k, c) \<in> set (fold agg_step xs []))"
    by (force simp: Aggregate_def)
  also have "\<dots> \<longleftrightarrow> (\<exists>k. map_of (fold agg_step xs []) k = Some c)"
    using agg_map [of xs] by (metis map_of_eq_Some_iff)
  finally show ?thesis using agg_map [of xs] by (auto split: if_splits)
qed

lemma count_fold:
  "c_total (fold count_attempt g c) = c_total c + int (length g)"
  "c_unmeasured (fold count_attempt g c) = c_unmeasured c + int (length (List.filter unmeasured g))"
  "c_ok (fold count_attempt g c) = c_ok c + int (length (List.filter (\<lambda>a. \<not> unmeasured a \<and> at_outcome a = OutcomeOK) g))"
  "hist_get (c_outcomes (fold count_attempt g c)) x
     = hist_get (c_outcomes c) x + int (length (List.filter (\<lambda>a. at_outcome a = x) g))"
  "hist_get (c_merged (fold count_attempt g c)) x
     = hist_get (c_merged c) x + int (length (List.filter (\<lambda>a. at_merged a = x) g))"
  "c_server_saw (fold count_attempt g c)
     = c_server_saw c + int (length (List.filter (\<lambda>a. at_server a \<noteq> None) g))"
  by (induction g arbitrary: c) (simp_all add: count_attempt_def Let_def)

lemma count_fold_keeps:
  "c_test (fold count_attempt g c) = c_test c" "c_transport (fold count_attempt g c) = c_transport c"
  "c_port (fold count_attempt g c) = c_port c" "c_variant (fold count_attempt g c) = c_variant c"
  "c_role (fold count_attempt g c) = c_role c"
  by (induction g arbitrary: c) (simp_all add: count_attempt_def Let_def)

lemma count_fold_measured_hist:
  "c_measured_merged (fold count_attempt g c) =
     map_option (fold (\<lambda>a. hist_inc (at_merged a)) (List.filter (\<lambda>a. \<not> unmeasured a) g)) (c_measured_merged c)"
  by (induction g arbitrary: c) (simp_all add: count_attempt_def Let_def option.map_comp comp_def option.map_ident option.map_id)

text \<open>The counters of a cell are what they say: of the attempts of one test, transport, port and
  variant that are neither transient nor cancelled, how many there are, how many measured nothing,
  how many passed, how often each outcome and merged result occurred and how many the server saw.\<close>

theorem aggregate_counts:
  assumes "c \<in> set (Aggregate xs)"
  shows "\<exists>k. let g = members k xs
             in g \<noteq> [] \<and> Key c = cellKey (at_test (hd g)) (at_transport (hd g)) (at_dst_port (hd g)) (at_variant (hd g))
                \<and> c_total c = int (length g)
                \<and> c_unmeasured c = int (length (List.filter unmeasured g))
                \<and> c_ok c = int (length (List.filter (\<lambda>a. \<not> unmeasured a \<and> at_outcome a = OutcomeOK) g))
                \<and> (\<forall>x. hist_get (c_outcomes c) x = int (length (List.filter (\<lambda>a. at_outcome a = x) g)))
                \<and> (\<forall>x. hist_get (c_merged c) x = int (length (List.filter (\<lambda>a. at_merged a = x) g)))
                \<and> c_server_saw c = int (length (List.filter (\<lambda>a. at_server a \<noteq> None) g))"
proof -
  obtain k where k: "members k xs \<noteq> []" "c = cell_of (members k xs)"
    using assms by (auto simp: set_Aggregate)
  then show ?thesis
    by (intro exI [of _ k])
       (simp add: Let_def cell_of_def count_fold count_fold_keeps Key_def new_cell_def)
qed

definition demo_round :: "attempt list" where
  "demo_round =
     [zero_attempt\<lparr>at_test := ''tcp.echo'', at_transport := ''tcp'', at_dst_port := 443, at_outcome := OutcomeOK, at_merged := ''ok''\<rparr>,
      zero_attempt\<lparr>at_test := ''tcp.echo'', at_transport := ''tcp'', at_dst_port := 443, at_outcome := OutcomeServerError,
        at_merged := ''server_error''\<rparr>]"

theorem aggregate_counts_witness:
  "\<exists>c \<in> set (Aggregate demo_round). c_total c = 2 \<and> (\<exists>k. c_total c = int (length (members k demo_round)))"
proof -
  let ?k = "agg_key (hd demo_round)"
  have m: "members ?k demo_round = demo_round"
    by (simp add: members_def demo_round_def left_out_def agg_key_def det_def zero_attempt_def)
  then have c: "cell_of demo_round \<in> set (Aggregate demo_round)"
    by (auto simp: set_Aggregate demo_round_def intro!: exI [of _ ?k])
  moreover have "c_total (cell_of demo_round) = 2"
    by (simp add: cell_of_def count_fold new_cell_def) (simp add: demo_round_def)
  moreover obtain k where "c_total (cell_of demo_round) = int (length (members k demo_round))"
    using aggregate_counts [OF c] by (auto simp: Let_def)
  ultimately show ?thesis using c by blast
qed

section \<open>Every attempt is counted once\<close>

lemma sum_total_step:
  "sum_list (map (\<lambda>p. c_total (snd p)) (AList.update k v m)) =
     sum_list (map (\<lambda>p. c_total (snd p)) m) + c_total v
       - (case map_of m k of None \<Rightarrow> 0 | Some c \<Rightarrow> c_total c)"
  by (induction m) (auto split: option.splits)

lemma sum_total_agg:
  "sum_list (map (\<lambda>p. c_total (snd p)) (fold agg_step xs m)) =
     sum_list (map (\<lambda>p. c_total (snd p)) m) + int (length (List.filter (\<lambda>a. \<not> left_out a) xs))"
proof (induction xs arbitrary: m)
  case (Cons a xs)
  have "c_total (count_attempt a c) = c_total c + 1" for c
    by (simp add: count_attempt_def Let_def)
  then have "sum_list (map (\<lambda>p. c_total (snd p)) (agg_step a m)) =
      sum_list (map (\<lambda>p. c_total (snd p)) m) + (if left_out a then 0 else 1)"
    by (simp add: agg_step_def sum_total_step new_cell_def split: option.splits)
  then show ?case by (simp add: Cons.IH)
qed simp

text \<open>Aggregation is a partition: the totals of the cells add up to the number of attempts that are
  neither transient nor cancelled, and the cells come out sorted by key.\<close>

theorem aggregate_partition:
  "sum_list (map c_total (Aggregate xs)) = int (length (List.filter (\<lambda>a. \<not> left_out a) xs))
   \<and> sorted (map Key (Aggregate xs))"
proof -
  have "sum_mset (image_mset c_total (mset (Aggregate xs))) = sum_mset (image_mset c_total (mset (map snd (fold agg_step xs []))))"
    by (simp only: mset_Aggregate)
  then have "sum_list (map c_total (Aggregate xs)) = sum_list (map c_total (map snd (fold agg_step xs [])))"
    by (simp add: sum_mset_sum_list flip: mset_map)
  then show ?thesis using sum_total_agg [of xs "[]"] by (simp add: comp_def Aggregate_def)
qed

section \<open>Unmeasured attempts are no evidence\<close>

lemma members_filter: "members k (List.filter p xs) = List.filter p (members k xs)"
  by (simp add: members_def conj_commute)

lemma cell_of_measured:
  assumes "g \<noteq> []"
  shows "Measured (cell_of g) = int (length (List.filter (\<lambda>a. \<not> unmeasured a) g))"
    "c_ok (cell_of g) = int (length (List.filter (\<lambda>a. \<not> unmeasured a \<and> at_outcome a = OutcomeOK) g))"
    "c_measured_merged (cell_of g)
       = Some (fold (\<lambda>a. hist_inc (at_merged a)) (List.filter (\<lambda>a. \<not> unmeasured a) g) [])"
  using sum_length_filter_compl [of unmeasured g]
  by (simp_all add: cell_of_def Measured_def count_fold count_fold_measured_hist new_cell_def)

lemma hist_fold_nonempty: "xs \<noteq> [] \<Longrightarrow> fold (\<lambda>a. hist_inc (at_merged a)) xs [] \<noteq> []"
  by (induction xs rule: rev_induct) (simp_all add: hist_inc_def update_nonempty)

text \<open>Attempts that measured nothing (a fault of the host or of the server, a skipped layer, an
  inconclusive check) are no evidence: a cell decides pass and fail, and shows the dominant
  result, exactly as if those attempts had not been made; a cell with no other attempts neither
  passes nor fails.\<close>

theorem unmeasured_is_no_evidence:
  assumes "members k xs \<noteq> []"
  shows "let c = cell_of (members k xs); measured = List.filter (\<lambda>a. \<not> unmeasured a) xs; c' = cell_of (members k measured)
         in c \<in> set (Aggregate xs)
            \<and> (if members k measured = [] then \<not> pass c \<and> \<not> fails c
               else c' \<in> set (Aggregate measured) \<and> Measured c = Measured c' \<and> pass c = pass c' \<and> fails c = fails c'
                    \<and> dominant c = dominant c')"
proof -
  let ?g = "members k xs" and ?ms = "List.filter (\<lambda>a. \<not> unmeasured a) xs"
  let ?g' = "List.filter (\<lambda>a. \<not> unmeasured a) ?g"
  have g': "members k ?ms = ?g'" by (rule members_filter)
  note m = cell_of_measured [OF assms]
  have mem: "cell_of ?g \<in> set (Aggregate xs)" using assms by (auto simp: set_Aggregate)
  show ?thesis
  proof (cases "?g' = []")
    case True
    then show ?thesis using mem by (simp add: Let_def g' pass_def fails_def m)
  next
    case False
    note m' = cell_of_measured [OF False]
    have eq: "Measured (cell_of ?g) = Measured (cell_of ?g')" "c_ok (cell_of ?g) = c_ok (cell_of ?g')"
      "c_measured_merged (cell_of ?g) = c_measured_merged (cell_of ?g')"
      by (simp_all add: m m')
    have "Measured (cell_of ?g') \<noteq> 0" "c_measured_merged (cell_of ?g') \<noteq> Some []"
      using False hist_fold_nonempty [of ?g'] by (simp_all add: m')
    then have "dominant (cell_of ?g) = dominant (cell_of ?g')"
      using eq by (auto simp: dominant_def Let_def m'(3))
    moreover have "cell_of ?g' \<in> set (Aggregate ?ms)"
      using False g' by (auto simp: set_Aggregate intro!: exI [of _ k])
    ultimately show ?thesis
      using mem False eq by (simp add: Let_def g' pass_def fails_def)
  qed
qed

theorem unmeasured_is_no_evidence_witness:
  "pass (cell_of demo_round) \<and> Measured (cell_of demo_round) = 1"
proof -
  let ?k = "agg_key (hd demo_round)"
  have m: "members ?k demo_round = demo_round"
    by (simp add: members_def demo_round_def left_out_def agg_key_def det_def zero_attempt_def)
  have f: "List.filter (\<lambda>a. \<not> unmeasured a) demo_round = [hd demo_round]"
    by (simp add: demo_round_def unmeasured_def unmeasuredMerged_def LocalFailure_def outcomes)
  have g: "members ?k [hd demo_round] = [hd demo_round]"
    by (simp add: members_def demo_round_def left_out_def det_def zero_attempt_def)
  have u: "\<not> unmeasured (hd demo_round)" "at_outcome (hd demo_round) = OutcomeOK"
    by (simp_all add: demo_round_def unmeasured_def unmeasuredMerged_def LocalFailure_def outcomes)
  have "pass (cell_of [hd demo_round])" "Measured (cell_of [hd demo_round]) = 1"
    using cell_of_measured [of "[hd demo_round]"] u by (simp_all add: pass_def)
  then show ?thesis
    using unmeasured_is_no_evidence [of ?k demo_round]
    by (simp add: Let_def m f g) (simp add: demo_round_def)
qed

section \<open>Confidence\<close>

text \<open>The confidence ladder: high exactly when both cells were measured at least three times, the one
  never passing and the other never failing; anything above low needs at least two measured
  attempts of the failing cell, at most one in three of them passing, and a control that passes.\<close>

theorem confidence_ladder:
  "confidence f p \<in> {''high'', ''medium'', ''low''}
   \<and> (confidence f p = ''high'') = (Measured f \<ge> 3 \<and> c_ok f = 0 \<and> Measured p \<ge> 3 \<and> c_ok p = Measured p)
   \<and> (confidence f p \<noteq> ''low'') = (Measured f \<ge> 2 \<and> c_ok f * 3 \<le> Measured f \<and> pass p)"
  by (auto simp: confidence_def Let_def pass_def)

section \<open>Medians\<close>

lemma filter_take_drop: "length (List.filter P s) = length (List.filter P (take n s)) + length (List.filter P (drop n s))"
  by (metis append_take_drop_id filter_append length_append)

lemma filter_drop_Nil: "List.filter P (drop n s) = [] \<Longrightarrow> length (List.filter P s) \<le> n"
  using filter_take_drop [of P s n] length_filter_le [of P "take n s"] by simp

lemma filter_take_Nil: "List.filter P (take n s) = [] \<Longrightarrow> length (List.filter P s) \<le> length s - n"
  using filter_take_drop [of P s n] length_filter_le [of P "drop n s"] by simp

text \<open>The median the evidence quotes is one of the values, with at most half of the values below it
  and at most half above it.\<close>

theorem median_splits:
  assumes "v \<noteq> []"
  shows "median v \<in> set v \<and> 2 * length (List.filter (\<lambda>x. x < median v) v) \<le> length v
         \<and> 2 * length (List.filter (\<lambda>x. x > median v) v) \<le> length v"
proof -
  let ?s = "sort v" and ?i = "length v div 2"
  have i: "?i < length ?s" using assms by (cases v) auto
  have m: "median v = ?s ! ?i" using assms by (simp add: median_def)
  have len: "length (List.filter P ?s) = length (List.filter P v)" for P
    by (metis mset_filter mset_sort size_mset)

  have "x \<ge> median v" if "x \<in> set (drop ?i ?s)" for x
    using that sorted_nth_mono [OF sorted_sort, of ?i _ v] i unfolding m
    by (auto simp: in_set_conv_nth)
  then have "List.filter (\<lambda>x. x < median v) (drop ?i ?s) = []"
    unfolding filter_empty_conv by fastforce
  then have "length (List.filter (\<lambda>x. x < median v) ?s) \<le> ?i"
    by (rule filter_drop_Nil)
  moreover have "x \<le> median v" if "x \<in> set (take (Suc ?i) ?s)" for x
    using that sorted_nth_mono [OF sorted_sort, of _ ?i v] i unfolding m
    by (auto simp: in_set_conv_nth)
  then have "List.filter (\<lambda>x. x > median v) (take (Suc ?i) ?s) = []"
    unfolding filter_empty_conv by fastforce
  then have "length (List.filter (\<lambda>x. x > median v) ?s) \<le> length v - Suc ?i"
    using filter_take_Nil by fastforce
  moreover have "median v \<in> set v" using i m by (metis nth_mem set_sort)
  ultimately show ?thesis using len by auto
qed

theorem median_splits_witness: "median [5, 1, 9] \<in> set [5, 1, 9] \<and> median [5, 1, 9] = 5"
  using median_splits [of "[5, 1, 9]"] by (simp add: median_def)

end
