(* ===== verification/Rules_Props.thy ===== *)
theory Rules_Props
  imports Rules Cells_Props
begin

text \<open>
  What the rules guarantee. The interface \<open>differential_rule\<close> is the contract of a rule that compares
  cells: a verdict of high confidence rests on a cell that was measured at least three times
  without passing and on a control that passed, and both are quoted in its evidence. Every one of
  rules 1 to 6 provides it; rules 7 and 8 keep it and add nothing above medium.
\<close>

section \<open>The contract\<close>

definition quotes :: "cell \<Rightarrow> string list \<Rightarrow> bool" where
  "quotes c evs \<longleftrightarrow> list_ex (\<lambda>line. has_suffix line (ev c)) evs"

definition justified :: "cell list \<Rightarrow> verdict \<Rightarrow> bool" where
  "justified cs v \<longleftrightarrow>
     list_ex (\<lambda>f. list_ex (\<lambda>p. \<not> pass f \<and> Measured f \<ge> 3 \<and> pass p
        \<and> quotes f (v_evidence v) \<and> quotes p (v_evidence v)) cs) cs"

locale differential_rule =
  fixes rule :: "attempt list \<Rightarrow> cell list \<Rightarrow> verdict list"
  assumes ladder: "v \<in> set (rule as cs) \<Longrightarrow> v_confidence v \<in> {''high'', ''medium'', ''low''}"
    and high: "v \<in> set (rule as cs) \<Longrightarrow> v_confidence v = ''high'' \<Longrightarrow> justified cs v"
begin

lemma high_needs_control: "v \<in> set (rule as cs) \<Longrightarrow> \<forall>c \<in> set cs. \<not> pass c \<Longrightarrow> v_confidence v \<noteq> ''high''"
  using high [of v as cs] by (auto simp: justified_def list_ex_iff)

lemma high_needs_measurements: "v \<in> set (rule as cs) \<Longrightarrow> \<forall>c \<in> set cs. Measured c < 3 \<Longrightarrow> v_confidence v \<noteq> ''high''"
  using high [of v as cs] by (force simp: justified_def list_ex_iff)

end

section \<open>Comparisons\<close>

lemma has_suffix_refl [simp]: "has_suffix s s"
  using has_suffix_append [of "[]" s] by simp

lemma has_suffix_cite [simp]: "has_suffix (cite pre c) (ev c)"
  by (simp add: cite_def)

text \<open>A verdict that compares two cells of the scan and quotes both.\<close>

definition compares :: "cell list \<Rightarrow> verdict \<Rightarrow> bool" where
  "compares cs v \<longleftrightarrow>
     (\<exists>f \<in> set cs. \<exists>p \<in> set cs. v_confidence v = confidence f p \<and> quotes f (v_evidence v) \<and> quotes p (v_evidence v))"

lemma comparesI:
  "f \<in> set cs \<Longrightarrow> p \<in> set cs \<Longrightarrow> v_confidence v = confidence f p \<Longrightarrow> quotes f (v_evidence v) \<Longrightarrow> quotes p (v_evidence v)
   \<Longrightarrow> compares cs v"
  unfolding compares_def by blast

lemma confidence_range: "confidence f p \<in> {''high'', ''medium'', ''low''}"
  by (simp add: confidence_def Let_def)

lemma confidence_high: "confidence f p = ''high'' \<Longrightarrow> \<not> pass f \<and> Measured f \<ge> 3 \<and> pass p"
  by (auto simp: confidence_def pass_def Let_def split: if_splits)

lemma compares_justified: "compares cs v \<Longrightarrow> v_confidence v = ''high'' \<Longrightarrow> justified cs v"
  unfolding compares_def justified_def list_ex_iff using confidence_high by metis

lemma comparing_rule:
  assumes "\<And>v as cs. v \<in> set (rule as cs) \<Longrightarrow> compares cs v \<or> v_confidence v \<in> {''medium'', ''low''}"
  shows "differential_rule rule"
proof
  fix v as cs
  assume v: "v \<in> set (rule as cs)"
  show "v_confidence v \<in> {''high'', ''medium'', ''low''}"
    using assms [OF v] confidence_range unfolding compares_def by fastforce
  assume "v_confidence v = ''high''"
  then show "justified cs v"
    using assms [OF v] compares_justified by auto
qed

lemma find_cell_mem: "find_cell cs t tr p v = Some c \<Longrightarrow> c \<in> set cs"
  by (auto simp: find_cell_def find_Some_iff)

lemma find_mem: "List.find P xs = Some x \<Longrightarrow> x \<in> set xs \<and> P x"
  by (auto simp: find_Some_iff)

lemma handshakeCell_mem: "handshakeCell cs c = Some h \<Longrightarrow> h \<in> set cs"
  by (auto simp: handshakeCell_def Let_def dest: find_cell_mem split: if_splits option.splits)



lemma baselines_mem: "c \<in> set (baselines cs) \<Longrightarrow> c \<in> set cs"
  by (simp add: baselines_def)

lemma quotes_simps [simp]: "quotes c [] = False" "quotes c (l # ls) = (has_suffix l (ev c) \<or> quotes c ls)"
  "quotes c (xs @ ys) = (quotes c xs \<or> quotes c ys)"
  by (simp_all add: quotes_def)

section \<open>The rules provide the contract\<close>

interpretation endpoint: differential_rule ruleEndpoint
  by (rule comparing_rule) (auto simp: ruleEndpoint_def Let_def split: if_splits)

interpretation udp_rule: differential_rule ruleUDP
  by (rule comparing_rule) (auto simp: ruleUDP_def Let_def split: if_splits)

lemma port_verdict_compares:
  assumes "ctl \<in> set cs" "f \<in> set cs"
  shows "compares cs (port_verdict as cs tr ctl f)"
proof (cases "List.filter (\<lambda>x. c_transport x = tr \<and> c_port x = c_port f \<and> pass x \<and> isAppProtocol (c_test x)) cs")
  case Nil
  then show ?thesis using assms by (intro comparesI [of f _ ctl]) (simp_all add: port_verdict_def)
next
  case (Cons app rest)
  then have "app \<in> set cs" by (metis filter_is_subset list.set_intros(1) subsetD)
  with Cons show ?thesis
    using assms by (intro comparesI [of f _ app]) (simp_all add: port_verdict_def proxyEvidence_def)
qed

lemma filter_hd_mem: "List.filter p xs = y # ys \<Longrightarrow> y \<in> set xs \<and> p y"
  using Cons_eq_filterD [of y ys p xs] by auto

interpretation port_rule: differential_rule rulePortOrProxy
proof (rule comparing_rule)
  fix v as cs
  assume "v \<in> set (rulePortOrProxy as cs)"
  then obtain tr where tr: "v \<in> set (case List.filter pass (List.filter (\<lambda>c. c_transport c = tr) (baselines cs)) of
        [] \<Rightarrow> []
      | ctl # _ \<Rightarrow> map (port_verdict as cs tr ctl)
                     (List.filter (\<lambda>c. \<not> pass c \<and> fails c) (List.filter (\<lambda>c. c_transport c = tr) (baselines cs))))"
    by (auto simp: rulePortOrProxy_def Let_def)
  then obtain ctl rest where ctl: "List.filter pass (List.filter (\<lambda>c. c_transport c = tr) (baselines cs)) = ctl # rest"
    by (cases "List.filter pass (List.filter (\<lambda>c. c_transport c = tr) (baselines cs))") auto
  then obtain f where "v = port_verdict as cs tr ctl f" "f \<in> set (baselines cs)"
    using tr by auto
  moreover have "ctl \<in> set (baselines cs)" using filter_hd_mem [OF ctl] by simp
  ultimately show "compares cs v \<or> v_confidence v \<in> {''medium'', ''low''}"
    using port_verdict_compares baselines_mem by auto
qed

lemma protocol_conf_cases: "protocol_conf as c e = confidence c e \<or> protocol_conf as c e = ''medium''"
  by (auto simp: protocol_conf_def Let_def)

text \<open>What a verdict of rule 4 about the cell \<open>c\<close> says, when the families \<open>reported\<close> were reported before.\<close>

definition protocol_spec :: "attempt list \<Rightarrow> cell list \<Rightarrow> string list \<Rightarrow> cell \<Rightarrow> verdict \<Rightarrow> bool" where
  "protocol_spec as cs reported c v \<longleftrightarrow>
     (\<exists>e \<in> set cs. pass e \<and> fails c \<and>
        (v_confidence v = ''low'' \<and> v_kind v = ''control_failed_inconclusive'' \<or>
         v_kind v = ''protocol_blocking_suspected'' \<and> v_subject v = familyKey (c_test c) (c_transport c) (c_port c)
         \<and> v_subject v \<notin> set reported \<and> familyFails cs c \<and> v_confidence v = protocol_conf as c e
         \<and> quotes c (v_evidence v) \<and> quotes e (v_evidence v)))"

lemma protocol_spec_mono: "set r \<subseteq> set r' \<Longrightarrow> protocol_spec as cs r' c v \<Longrightarrow> protocol_spec as cs r c v"
  unfolding protocol_spec_def by blast

lemma protocol_loop_step:
  obtains r' vs where "protocol_loop as cs r (c # todo) = vs @ protocol_loop as cs r' todo" "set r \<subseteq> set r'"
    "\<forall>v \<in> set vs. protocol_spec as cs r c v" "length vs \<le> 1"
    "\<forall>v \<in> set vs. v_kind v = ''protocol_blocking_suspected'' \<longrightarrow> v_subject v \<in> set r'"
proof (cases "find_cell cs (echoTestFor (c_transport c)) (c_transport c) (c_port c) ''''")
  case None
  then show thesis using that [of "[]" r] by (simp add: Let_def)
next
  case (Some e)
  then have "e \<in> set cs" by (rule find_cell_mem)
  let ?rnd = "find_cell cs (plainTestFor (c_transport c) ''payload.random'') (c_transport c) (c_port c) ''''"
  let ?fam = "familyKey (c_test c) (c_transport c) (c_port c)"
  let ?low = "mk_verdict ''control_failed_inconclusive'' (Key c) ''low''
      ([ev c] @ opt_ev ''random-payload control also failed on this port: '' ?rnd @ [cite ''echo passed: '' e])"
  let ?blk = "mk_verdict ''protocol_blocking_suspected'' ?fam (protocol_conf as c e)
      ([ev c, cite ''passing echo control: '' e] @ opt_ev ''passing random control: '' ?rnd @ alg_evidence as c)"
  have "protocol_loop as cs r (c # todo) = protocol_loop as cs r todo
    \<or> (protocol_loop as cs r (c # todo) = ?low # protocol_loop as cs r todo \<and> pass e \<and> fails c)
    \<or> (protocol_loop as cs r (c # todo) = ?blk # protocol_loop as cs (?fam # r) todo \<and> pass e \<and> fails c
        \<and> ?fam \<notin> set r \<and> familyFails cs c)"
    using Some by (simp add: Let_def)
  then consider (skip) "protocol_loop as cs r (c # todo) = protocol_loop as cs r todo"
    | (low) "protocol_loop as cs r (c # todo) = ?low # protocol_loop as cs r todo" "pass e" "fails c"
    | (blk) "protocol_loop as cs r (c # todo) = ?blk # protocol_loop as cs (?fam # r) todo" "pass e" "fails c"
        "?fam \<notin> set r" "familyFails cs c"
    by blast
  then show thesis
  proof cases
    case skip
    then show thesis using that [of "[]" r] by (simp del: protocol_loop.simps)
  next
    case low
    then show thesis
      using that [of "[?low]" r] \<open>e \<in> set cs\<close>
      by (auto simp: protocol_spec_def simp del: protocol_loop.simps)
  next
    case blk
    then have "protocol_spec as cs r c ?blk"
      using \<open>e \<in> set cs\<close> unfolding protocol_spec_def by (intro bexI [of _ e]) simp_all
    then show thesis
      using that [of "[?blk]" "?fam # r"] blk by (auto simp del: protocol_loop.simps)
  qed
qed

lemma protocol_loop_cases:
  "v \<in> set (protocol_loop as cs r todo) \<Longrightarrow> \<exists>c \<in> set todo. protocol_spec as cs r c v"
proof (induction todo arbitrary: r)
  case (Cons c todo)
  obtain r' vs where st: "protocol_loop as cs r (c # todo) = vs @ protocol_loop as cs r' todo" "set r \<subseteq> set r'"
      "\<forall>v \<in> set vs. protocol_spec as cs r c v"
    by (rule protocol_loop_step [of as cs r c todo])
  consider "v \<in> set vs" | "v \<in> set (protocol_loop as cs r' todo)"
    using Cons.prems unfolding st(1) by auto
  then show ?case
  proof cases
    case 1
    then show ?thesis using st(3) by auto
  next
    case 2
    from Cons.IH [OF this] obtain c' where "c' \<in> set todo" "protocol_spec as cs r' c' v" by blast
    then show ?thesis by (intro bexI [of _ c'] protocol_spec_mono [OF st(2)]) simp_all
  qed
qed simp

interpretation protocol_rule: differential_rule ruleProtocol
proof (rule comparing_rule)
  fix v as cs
  assume "v \<in> set (ruleProtocol as cs)"
  then obtain c e where c: "c \<in> set cs" "e \<in> set cs"
      "v_confidence v = ''low'' \<or> v_confidence v = protocol_conf as c e \<and> quotes c (v_evidence v) \<and> quotes e (v_evidence v)"
    using protocol_loop_cases [of v as cs "[]" cs] unfolding ruleProtocol_def protocol_spec_def by blast
  then show "compares cs v \<or> v_confidence v \<in> {''medium'', ''low''}"
    using protocol_conf_cases [of as c e] comparesI [of c cs e v] by auto
qed

lemma variantBaseline_mem:
  assumes "variantBaseline test cs = Some b"
  shows "b \<in> set cs \<and> pass b"
proof -
  let ?base = "fold (\<lambda>c b. if c_role c = RoleBaseline \<or> (b = None \<and> c_role c = RoleControl \<and> has_prefix test ''vless.'')
                             then Some c else b) cs None"
  have "?base = Some x \<Longrightarrow> x \<in> set cs" for x
    by (induction cs arbitrary: x rule: rev_induct) (auto split: if_splits)
  then show ?thesis
    using assms by (auto simp: variantBaseline_def Let_def opt_pass_def dest: find_mem split: if_splits option.splits)
qed

lemma variant_verdicts_compare:
  assumes "v \<in> set (variant_verdicts cs test ps)" "set ps \<subseteq> set cs"
  shows "compares cs v"
proof -
  obtain base where b: "variantBaseline test ps = Some base"
    using assms(1) by (cases "variantBaseline test ps") (auto simp: variant_verdicts_def)
  then obtain u where "u \<in> set ps" "v_confidence v = confidence u base" "quotes u (v_evidence v)" "quotes base (v_evidence v)"
    using assms(1) by (auto simp: variant_verdicts_def)
  then show ?thesis using assms(2) variantBaseline_mem [OF b] by (intro comparesI [of u _ base]) auto
qed

interpretation variant_rule: differential_rule ruleVariant
proof (rule comparing_rule)
  fix v as cs
  assume "v \<in> set (ruleVariant as cs)"
  then obtain test ps where "v \<in> set (variant_verdicts cs test ps)" "set ps \<subseteq> set cs"
    by (force simp: ruleVariant_def Let_def split: if_splits)
  then show "compares cs v \<or> v_confidence v \<in> {''medium'', ''low''}"
    using variant_verdicts_compare by blast
qed

interpretation bulk_rule: differential_rule ruleBulkCut
proof (rule comparing_rule)
  fix v as cs
  assume "v \<in> set (ruleBulkCut as cs)"
  then obtain c where c: "c \<in> set cs" "v \<in> set (bulk_cut_of as cs c)"
    by (auto simp: ruleBulkCut_def)
  then obtain short where "find_cell cs ''tcp.echo'' (c_transport c) (c_port c) '''' = Some short" "v \<in> set (bulk_verdict as c short)"
    by (cases "find_cell cs ''tcp.echo'' (c_transport c) (c_port c) ''''") (auto simp: bulk_cut_of_def split: if_splits)
  then show "compares cs v \<or> v_confidence v \<in> {''medium'', ''low''}"
    using c(1) comparesI [of c cs short v]
    by (auto simp: bulk_verdict_def Let_def dest: find_cell_mem split: if_splits)
qed

interpretation packet_rule: differential_rule rulePacketCut
proof (rule comparing_rule)
  fix v as cs
  assume "v \<in> set (rulePacketCut as cs)"
  then obtain c where c: "c \<in> set cs" "v \<in> set (packet_cut_of as cs c)"
    by (auto simp: rulePacketCut_def)
  then obtain echo where "find_cell cs (echoTestFor (c_transport c)) (c_transport c) (c_port c) '''' = Some echo"
      "v \<in> set (packet_verdict as cs c echo)"
    by (cases "find_cell cs (echoTestFor (c_transport c)) (c_transport c) (c_port c) ''''")
       (auto simp: packet_cut_of_def split: if_splits)
  then show "compares cs v \<or> v_confidence v \<in> {''medium'', ''low''}"
    using c(1) comparesI [of c cs echo v]
    by (auto simp: packet_verdict_def dest: find_cell_mem split: if_splits)
qed

interpretation burst_rule: differential_rule ruleBurstFreeze
proof (rule comparing_rule)
  fix v as cs
  assume "v \<in> set (ruleBurstFreeze as cs)"
  then obtain c where c: "c \<in> set cs" "v \<in> set (burst_freeze_of as cs c)"
    by (auto simp: ruleBurstFreeze_def)
  let ?x = "find_cell cs ''tls.sni'' ''tcp'' (c_port c) ''benign''"
  have v: "v_confidence v = burst_conf c ?x" "quotes c (v_evidence v)"
      "\<And>ctl. ?x = Some ctl \<Longrightarrow> quotes ctl (v_evidence v)"
    using c(2) by (auto simp: burst_freeze_of_def Let_def burstEvidence_def opt_ev_def split: if_splits)
  consider "burst_conf c ?x \<in> {''medium'', ''low''}" | ctl where "?x = Some ctl" "burst_conf c ?x = confidence c ctl"
  proof (cases ?x)
    case None
    then show ?thesis using that(1) by (simp add: burst_conf_def split: if_splits)
  next
    case (Some ctl)
    then show ?thesis using that by (cases "pass ctl") (simp_all add: burst_conf_def split: if_splits)
  qed
  then show "compares cs v \<or> v_confidence v \<in> {''medium'', ''low''}"
  proof cases
    case 1
    then show ?thesis using v(1) by simp
  next
    case 2
    then show ?thesis
      using v c(1) find_cell_mem [OF 2(1)] by (intro disjI1 comparesI [of c _ ctl]) auto
  qed
qed

lemma session_cut_evidence:
  "quotes c (v_evidence (session_cut_verdict as cs c hs))" "quotes hs (v_evidence (session_cut_verdict as cs c hs))"
  by (simp_all add: session_cut_verdict_def sessionCutEvidence_def Let_def)

lemma session_cut_conf:
  "v_confidence (session_cut_verdict as cs c hs) \<in> {''high'', ''medium'', ''low''}"
  "v_confidence (session_cut_verdict as cs c hs) = ''high'' \<Longrightarrow> Measured c \<ge> 3"
  using confidence_range [of c hs] confidence_high [of c hs]
  by (auto simp: session_cut_verdict_def session_cut_repeats_def Let_def split: if_splits)

interpretation session_rule: differential_rule ruleSessionCut
proof
  fix v as cs
  assume "v \<in> set (ruleSessionCut as cs)"
  then obtain c where c: "c \<in> set cs" "v \<in> set (session_cut_of as cs c)"
    by (auto simp: ruleSessionCut_def)
  then obtain hs where h: "handshakeCell cs c = Some hs" "\<not> pass c" "pass hs" "v = session_cut_verdict as cs c hs"
    by (cases "handshakeCell cs c") (auto simp: session_cut_of_def split: if_splits)
  show "v_confidence v \<in> {''high'', ''medium'', ''low''}"
    unfolding h(4) by (rule session_cut_conf(1))
  assume "v_confidence v = ''high''"
  then have "Measured c \<ge> 3" unfolding h(4) by (rule session_cut_conf(2))
  then show "justified cs v"
    using c(1) h handshakeCell_mem [OF h(1)] session_cut_evidence unfolding justified_def list_ex_iff by blast
qed

lemma last_such_mem: "last_such p xs = Some x \<Longrightarrow> x \<in> set xs \<and> p x"
  unfolding last_such_def by (induction xs arbitrary: x rule: rev_induct) (auto split: if_splits)

lemma dnsManipulation_medium: "v \<in> set (dnsManipulation cs) \<Longrightarrow> v_confidence v = ''medium''"
  by (auto simp: dnsManipulation_def split: if_splits)

lemma dnsPortBlocking_compares:
  assumes "v \<in> set (dnsPortBlocking cs b)"
  shows "compares cs v"
proof -
  obtain c where c: "c \<in> set cs" "v \<in> set (dns_port_of cs b c)"
    using assms by (auto simp: dnsPortBlocking_def)
  then obtain ctrl where f: "List.find (\<lambda>x. c_test x = echoTestFor (c_transport c) \<and> pass x) cs = Some ctrl"
      "v_confidence v = confidence c ctrl" "quotes c (v_evidence v)" "quotes ctrl (v_evidence v)"
    by (cases "List.find (\<lambda>x. c_test x = echoTestFor (c_transport c) \<and> pass x) cs")
       (auto simp: dns_port_of_def split: if_splits)
  then show ?thesis using c(1) find_mem [OF f(1)] by (intro comparesI [of c _ ctrl]) auto
qed

interpretation dns_rule: differential_rule ruleDNS
proof (rule comparing_rule)
  fix v as cs
  assume v: "v \<in> set (ruleDNS as cs)"
  let ?u = "last_such (\<lambda>c. c_test c = ''dns.udp'' \<and> c_variant c = ''TXT'') cs"
  let ?t = "last_such (\<lambda>c. c_test c = ''dns.tcp'') cs"
  consider "v \<in> set (dnsManipulation cs)" | b where "v \<in> set (dnsPortBlocking cs b)"
    | u t where "?u = Some u" "?t = Some t" "v_confidence v = confidence u t"
        "quotes u (v_evidence v)" "quotes t (v_evidence v)"
    using v by (cases ?u; cases ?t) (auto simp: ruleDNS_def Let_def split: if_splits)
  then show "compares cs v \<or> v_confidence v \<in> {''medium'', ''low''}"
  proof cases
    case 3
    then show ?thesis
      using last_such_mem [OF 3(1)] last_such_mem [OF 3(2)] by (intro disjI1 comparesI [of u _ t]) auto
  qed (simp_all add: dnsManipulation_medium dnsPortBlocking_compares)
qed

section \<open>Rules 7 and 8 keep what was found\<close>

definition all_justified :: "cell list \<Rightarrow> verdict list \<Rightarrow> bool" where
  "all_justified cs vs \<longleftrightarrow> (\<forall>v \<in> set vs. v_confidence v = ''high'' \<longrightarrow> justified cs v)"

lemma justified_add_evidence: "justified cs v \<Longrightarrow> justified cs (add_evidence line v)"
  by (auto simp: justified_def add_evidence_def list_ex_iff)

lemma v_confidence_add_evidence [simp]: "v_confidence (add_evidence l v) = v_confidence v"
  by (simp add: add_evidence_def)

lemma all_justified_update:
  assumes "all_justified cs vs"
  shows "all_justified cs (vs[i := add_evidence l (vs ! i)])"
proof (cases "i < length vs")
  case True
  then show ?thesis
    using assms set_update_subset_insert [of vs i "add_evidence l (vs ! i)"] nth_mem [OF True]
      justified_add_evidence unfolding all_justified_def by fastforce
next
  case False
  then show ?thesis using assms by (simp add: list_update_beyond)
qed

lemma all_justified_modify: "all_justified cs vs \<Longrightarrow> all_justified cs (modify_one named c m vs)"
  by (auto simp: modify_one_def Let_def all_justified_update split: option.splits)
     (auto simp: all_justified_def)

lemma all_justified_modification:
  assumes "all_justified cs vs"
  shows "all_justified cs (ruleModification ds vs)"
proof -
  have inner: "all_justified cs ws \<Longrightarrow> all_justified cs (fold (modify_one f c) ms ws)" for f c ms ws
    by (induction ms arbitrary: ws) (simp_all add: all_justified_modify)
  have "all_justified cs ws \<Longrightarrow> all_justified cs (fold (\<lambda>c vs'. if flow_rule_test (c_test c) then vs'
      else fold (modify_one f c) (sort (map fst (c_merged c))) vs') ds ws)" for f ws
    by (induction ds arbitrary: ws) (simp_all add: inner)
  then show ?thesis using assms by (simp add: ruleModification_def)
qed

lemma synack_verdict_conf: "v_confidence (synack_verdict as vs ref pm) \<noteq> ''high''"
  by (simp add: synack_verdict_def Let_def)

lemma all_justified_synack: "all_justified cs vs \<Longrightarrow> all_justified cs (ruleSynAck as vs)"
  using synack_verdict_conf
  by (auto simp: ruleSynAck_def all_justified_def case_prod_beta split: prod.splits)

lemmas rules_high = endpoint.high port_rule.high udp_rule.high protocol_rule.high variant_rule.high bulk_rule.high
  packet_rule.high burst_rule.high session_rule.high dns_rule.high

lemma all_justified_run: "all_justified cs (run as cs)"
proof -
  have "all_justified cs (concat (map (\<lambda>rule. rule as cs) differential_rules))"
    using rules_high [where as = as and cs = cs] by (auto simp: differential_rules_def all_justified_def)
  then show ?thesis
    by (simp add: run_def all_justified_modification all_justified_synack)
qed

text \<open>Every finding of high confidence is differential: it rests on a cell measured at least three
  times that did not pass and on a control cell of the same scan that did, and its evidence
  quotes both cells. No rule calls a failure high in isolation.\<close>

theorem high_verdicts_name_a_control:
  assumes "v \<in> set (run as cs)" and "v_confidence v = ''high''"
  shows "\<exists>f \<in> set cs. \<exists>p \<in> set cs. \<not> pass f \<and> Measured f \<ge> 3 \<and> pass p
           \<and> (\<exists>line \<in> set (v_evidence v). has_suffix line (ev f))
           \<and> (\<exists>line \<in> set (v_evidence v). has_suffix line (ev p))"
  using all_justified_run [of cs as] assms
  by (fastforce simp: all_justified_def justified_def quotes_def list_ex_iff)

definition demo_cell :: "int \<Rightarrow> int \<Rightarrow> cell" where
  "demo_cell port passed = (new_cell zero_attempt)\<lparr>c_test := ''tcp.echo'', c_transport := ''tcp'', c_port := port,
     c_total := 3, c_ok := passed\<rparr>"

definition demo_port_verdict :: verdict where
  "demo_port_verdict = port_verdict [] [demo_cell 443 3, demo_cell 80 0] ''tcp'' (demo_cell 443 3) (demo_cell 80 0)"

lemma demo_port_found: "demo_port_verdict \<in> set (run [] [demo_cell 443 3, demo_cell 80 0])"
proof -
  let ?cs = "[demo_cell 443 3, demo_cell 80 0]"
  have "run [] ?cs = concat (map (\<lambda>rule. rule [] ?cs) differential_rules)"
    by (simp add: run_def ruleSynAck_def fastConnectPorts_def connect_medians_def rtt_suspects_def
        ruleModification_def demo_cell_def new_cell_def)
  moreover have "demo_port_verdict \<in> set (rulePortOrProxy [] ?cs)"
    by (simp add: rulePortOrProxy_def demo_port_verdict_def Let_def baselines_def pass_def fails_def Measured_def
        demo_cell_def new_cell_def)
  ultimately show ?thesis by (simp add: differential_rules_def)
qed

theorem high_verdicts_name_a_control_witness:
  "v_confidence demo_port_verdict = ''high''
   \<and> (\<exists>p \<in> set [demo_cell 443 3, demo_cell 80 0]. pass p \<and> (\<exists>line \<in> set (v_evidence demo_port_verdict). has_suffix line (ev p)))"
proof -
  have h: "v_confidence demo_port_verdict = ''high''"
    by (simp add: demo_port_verdict_def port_verdict_def confidence_def pass_def Measured_def demo_cell_def new_cell_def
        isAppProtocol_def has_prefix_def Let_def)
  then show ?thesis using high_verdicts_name_a_control [OF demo_port_found h] by blast
qed

section \<open>Rule 4 reports a family once\<close>

lemma protocol_loop_subjects:
  "distinct (map v_subject (List.filter (\<lambda>v. v_kind v = ''protocol_blocking_suspected'') (protocol_loop as cs r todo)))
   \<and> set (map v_subject (List.filter (\<lambda>v. v_kind v = ''protocol_blocking_suspected'') (protocol_loop as cs r todo))) \<inter> set r = {}"
proof (induction todo arbitrary: r)
  case (Cons c todo)
  let ?f = "\<lambda>vs. map v_subject (List.filter (\<lambda>v. v_kind v = ''protocol_blocking_suspected'') vs)"
  obtain r' vs where st: "protocol_loop as cs r (c # todo) = vs @ protocol_loop as cs r' todo" "set r \<subseteq> set r'"
      "\<forall>v \<in> set vs. protocol_spec as cs r c v" "length vs \<le> 1"
      "\<forall>v \<in> set vs. v_kind v = ''protocol_blocking_suspected'' \<longrightarrow> v_subject v \<in> set r'"
    by (rule protocol_loop_step [of as cs r c todo])
  have "distinct (?f vs)"
    using st(4) by (cases vs rule: remdups_adj.cases) auto
  moreover have "set (?f vs) \<subseteq> set r'" "set (?f vs) \<inter> set r = {}"
    using st(3,5) by (auto simp: protocol_spec_def)
  ultimately show ?case
    using Cons.IH [of r'] st(2) unfolding st(1) filter_append map_append distinct_append set_append by blast
qed simp

text \<open>Protocol blocking is reported at most once per test family and port, and only for a family
  that failed in every cell that measured it while a control of the scan passed.\<close>

theorem protocol_blocking_once_per_family:
  "let found = List.filter (\<lambda>v. v_kind v = ''protocol_blocking_suspected'') (ruleProtocol as cs)
   in distinct (map v_subject found)
      \<and> list_all (\<lambda>v. list_ex (\<lambda>c. v_subject v = familyKey (c_test c) (c_transport c) (c_port c)
                                   \<and> fails c \<and> familyFails cs c) cs \<and> list_ex pass cs) found"
proof -
  let ?found = "List.filter (\<lambda>v. v_kind v = ''protocol_blocking_suspected'') (ruleProtocol as cs)"
  have "distinct (map v_subject ?found)"
    using protocol_loop_subjects [of as cs "[]" cs] by (simp add: ruleProtocol_def)
  moreover have "list_ex (\<lambda>c. v_subject v = familyKey (c_test c) (c_transport c) (c_port c) \<and> fails c \<and> familyFails cs c) cs
      \<and> list_ex pass cs" if "v \<in> set ?found" for v
    using that protocol_loop_cases [of v as cs "[]" cs]
    by (fastforce simp: protocol_spec_def list_ex_iff ruleProtocol_def)
  ultimately show ?thesis by (simp add: Let_def list_all_iff)
qed

section \<open>A clean scan has no findings\<close>

definition clean_cell :: "cell \<Rightarrow> bool" where
  "clean_cell c \<longleftrightarrow> pass c
     \<and> hist_get (c_outcomes c) OutcomeDNSMismatch + hist_get (c_outcomes c) ''dns_injected_race'' \<le> 0
     \<and> list_all (\<lambda>m. hist_get (c_merged c) m = 0) modificationMerges"

lemma pass_not_fails: "pass c \<Longrightarrow> \<not> fails c"
  by (auto simp: pass_def fails_def)

lemma no_failing_cell:
  assumes "\<forall>c \<in> set cs. pass c"
  shows "ruleEndpoint as cs = []" "rulePortOrProxy as cs = []" "ruleUDP as cs = []" "ruleProtocol as cs = []"
    "ruleVariant as cs = []" "ruleBulkCut as cs = []" "rulePacketCut as cs = []" "ruleBurstFreeze as cs = []"
    "ruleSessionCut as cs = []" "dnsPortBlocking cs b = []"
proof -
  have nf: "\<forall>c \<in> set cs. \<not> fails c" and nb: "\<forall>c \<in> set (baselines cs). pass c \<and> \<not> fails c"
    using assms pass_not_fails baselines_mem by blast+
  have ff: "List.filter fails (List.filter q (baselines cs)) = []" "List.filter fails (baselines cs) = []" for q
    using nb by (auto simp: filter_empty_conv)
  show "ruleEndpoint as cs = []" by (simp add: ruleEndpoint_def Let_def ff)
  have "List.filter (\<lambda>c. \<not> pass c \<and> fails c) (List.filter q (baselines cs)) = []" for q
    using nb by (auto simp: filter_empty_conv)
  then show "rulePortOrProxy as cs = []"
    by (simp add: rulePortOrProxy_def Let_def split: list.splits)
  have uf: "List.filter (\<lambda>x. c_transport x = ''udp'' \<and> fails x) (baselines cs) = []"
    using nb by (auto simp: filter_empty_conv)
  show "ruleUDP as cs = []" by (simp add: ruleUDP_def Let_def uf)
  have "protocol_loop as cs r ds = []" if "\<forall>c \<in> set ds. \<not> fails c" for r ds
    using that by (induction ds arbitrary: r) simp_all
  then show "ruleProtocol as cs = []" using nf by (simp add: ruleProtocol_def)
  have "variant_verdicts cs t ps = []" if "set ps \<subseteq> set cs" for t ps
    using nf that by (auto simp: variant_verdicts_def filter_empty_conv split: option.splits)
  then show "ruleVariant as cs = []" by (auto simp: ruleVariant_def Let_def)
  show "ruleBulkCut as cs = []" using nf by (simp add: ruleBulkCut_def bulk_cut_of_def)
  show "rulePacketCut as cs = []" using nf by (simp add: rulePacketCut_def packet_cut_of_def)
  show "ruleBurstFreeze as cs = []" using assms by (simp add: ruleBurstFreeze_def burst_freeze_of_def)
  show "ruleSessionCut as cs = []" using assms by (simp add: ruleSessionCut_def session_cut_of_def)
  show "dnsPortBlocking cs b = []" using nf by (simp add: dnsPortBlocking_def dns_port_of_def)
qed

lemma no_dns_finding:
  assumes "\<forall>c \<in> set cs. clean_cell c"
  shows "ruleDNS as cs = []"
proof -
  have p: "\<forall>c \<in> set cs. pass c" using assms by (simp add: clean_cell_def)
  have "dnsManipulation cs = []"
    using assms by (auto simp: dnsManipulation_def clean_cell_def)
  moreover have "\<not> fails u" if "last_such q cs = Some u" for q u
    using last_such_mem [OF that] p pass_not_fails by auto
  ultimately show ?thesis
    by (auto simp: ruleDNS_def Let_def no_failing_cell(10) [OF p] split: option.splits)
qed

lemma no_modification:
  assumes "\<forall>c \<in> set ds. clean_cell c"
  shows "ruleModification ds vs = vs"
proof -
  have inner: "fold (modify_one f c) ms ws = ws" if "clean_cell c" for f c ms ws
    using that by (induction ms arbitrary: ws) (auto simp: modify_one_def Let_def clean_cell_def list_all_iff)
  have "fold (\<lambda>c vs'. if flow_rule_test (c_test c) then vs'
      else fold (modify_one f c) (sort (map fst (c_merged c))) vs') ds ws = ws" for f ws
    using assms by (induction ds arbitrary: ws) (simp_all add: inner)
  then show ?thesis by (simp add: ruleModification_def)
qed

text \<open>C24. No false alarm on a clean scan: when every cell passes, no answer was forged, no merged result
  says the path changed traffic and no port answers suspiciously fast, the rules find nothing and
  the summary says clean.\<close>

theorem clean_scan_has_no_findings:
  assumes "\<forall>c \<in> set cs. clean_cell c" and "fst (fastConnectPorts as) = []" and "rtt_suspects as = []"
  shows "run as cs = []
         \<and> summarize (run as cs) = ''clean: every test family passed on every port; no differential observed''"
proof -
  have "\<forall>c \<in> set cs. pass c" using assms(1) by (simp add: clean_cell_def)
  note nf = no_failing_cell(1-9) [OF this]
  obtain ps where "fastConnectPorts as = ([], ps)" using assms(2) by (cases "fastConnectPorts as") simp
  then have "run as cs = []"
    using assms(3)
    by (simp add: run_def differential_rules_def nf no_dns_finding [OF assms(1)] no_modification [OF assms(1)]
        ruleSynAck_def)
  then show ?thesis by (simp add: summarize_def)
qed

theorem clean_scan_has_no_findings_witness:
  "run [] [demo_cell 443 3, demo_cell 80 3] = []"
proof -
  have "\<forall>c \<in> set [demo_cell 443 3, demo_cell 80 3]. clean_cell c"
    by (simp add: clean_cell_def demo_cell_def new_cell_def pass_def Measured_def modificationMerges_def)
  from clean_scan_has_no_findings [OF this, of "[]"] show ?thesis
    by (simp add: fastConnectPorts_def connect_medians_def rtt_suspects_def)
qed

end
