(* ===== verification/Transient.thy ===== *)
theory Transient
  imports Rules Cells_Props
begin

text \<open>
  Outages (\<open>internal/classify/transient.go\<close>): the windows in which the host itself cut the scan off the
  network and the bursts of failures across unrelated ports, whose attempts are flagged
  \<open>detail.transient=true\<close> and left out of the cells. The code keeps the flagged attempts as a set of
  pointers; here every attempt carries a boolean beside it, or its index in the scan.
\<close>

section \<open>Local outages\<close>

definition ms_duration :: "rat \<Rightarrow> duration" where
  "ms_duration v = trunc_rat (v * 1000000)"

definition attemptSpan :: "attempt \<Rightarrow> time \<times> time" where
  "attemptSpan a = (at_started a - ms_duration (stage a ''reserve''), at_started a + ms_duration (stage a ''done''))"

abbreviation localMin :: nat where "localMin \<equiv> 2"
abbreviation localGap :: duration where "localGap \<equiv> sec 20"
abbreviation localLead :: duration where "localLead \<equiv> sec 10"

record host_event =
  he_from :: time
  he_to :: time
  he_name :: string

definition host_event_of :: "attempt \<Rightarrow> host_event option" where
  "host_event_of a =
     (let name = LocalFailure a; (f, t) = attemptSpan a
      in if is_zero_time (at_started a) \<or> name = '''' \<or> name = LocalNoRoute then None
         else Some \<lparr>he_from = (if sub_time t f > localLead then t - localLead else f), he_to = t, he_name = name\<rparr>)"

definition host_events :: "attempt list \<Rightarrow> host_event list" where
  "host_events as = sort_key he_from (List.map_filter host_event_of as)"

definition first_start :: "attempt list \<Rightarrow> time" where
  "first_start as =
     fold (\<lambda>a t0. if is_zero_time (at_started a) then t0
                  else if is_zero_time t0 \<or> at_started a < t0 then at_started a else t0) as zero_time"

text \<open>The inner loop: the events that start within \<open>localGap\<close> of the end of what was collected so far.\<close>

fun outage_run :: "time \<Rightarrow> host_event list \<Rightarrow> time \<times> host_event list \<times> host_event list" where
  "outage_run t [] = (t, [], [])"
| "outage_run t (e # es) =
     (if he_from e > t + localGap then (t, [], e # es)
      else case outage_run (max t (he_to e)) es of (t', es', rest) \<Rightarrow> (t', e # es', rest))"

lemma outage_run_rest: "length (snd (snd (outage_run t es))) \<le> length es"
proof (induction es arbitrary: t)
  case (Cons e es)
  show ?case
    using Cons.IH [of "max t (he_to e)"] by (cases "outage_run (max t (he_to e)) es") (auto simp del: max.absorb1)
qed simp

record outage =
  ou_from :: time
  ou_to :: time
  ou_events :: "host_event list"

function local_windows :: "host_event list \<Rightarrow> outage list" where
  "local_windows [] = []"
| "local_windows (e # es) =
     (case outage_run (he_to e) es of
        (t, es', rest) \<Rightarrow> \<lparr>ou_from = he_from e, ou_to = t, ou_events = e # es'\<rparr> # local_windows rest)"
  by pat_completeness auto
termination
proof (relation "measure length", goal_cases)
  case prems: (2 e es)
  then show ?case using outage_run_rest [of "he_to e" es] by (metis in_measure le_imp_less_Suc length_Cons snd_conv)
qed simp

definition in_flight :: "outage \<Rightarrow> attempt \<Rightarrow> bool" where
  "in_flight w a \<longleftrightarrow> (case attemptSpan a of (f, t) \<Rightarrow> \<not> (t < ou_from w \<or> f > ou_to w))"

definition outage_hits :: "outage \<Rightarrow> attempt \<times> bool \<Rightarrow> bool" where
  "outage_hits w p \<longleftrightarrow>
     (case p of (a, loc) \<Rightarrow> \<not> is_zero_time (at_started a) \<and> at_outcome a \<noteq> OutcomeOK
        \<and> det a ''cancelled'' \<noteq> ''true'' \<and> \<not> loc \<and> in_flight w a)"

definition flag :: "attempt \<Rightarrow> attempt" where
  "flag a = set_det ''transient'' ''true'' a"

definition flag_outage :: "outage \<Rightarrow> (attempt \<times> bool) list \<Rightarrow> (attempt \<times> bool) list" where
  "flag_outage w ps = map (\<lambda>p. if outage_hits w p then (flag (fst p), True) else p) ps"

definition seconds :: "duration \<Rightarrow> rat" where
  "seconds d = of_int d / 1000000000"

definition outage_note :: "time \<Rightarrow> outage \<Rightarrow> nat \<Rightarrow> string" where
  "outage_note t0 w flagged =
     ''transient outage: the host itself cut the scan off the network between +''
     @ format_f0 (max 0 (seconds (sub_time (ou_from w) t0))) @ ''s and +''
     @ format_f0 (max 0 (seconds (sub_time (ou_to w) t0))) @ ''s of the scan (''
     @ itoa (int (length (ou_events w))) @ '' failures of its own: ''
     @ join_kinds (fold (\<lambda>e. hist_inc (he_name e)) (ou_events w) []) @ ''); the '' @ itoa (int flagged)
     @ '' attempts that failed in flight then are flagged detail.transient=true and left out of the cells''"

fun flag_outages :: "time \<Rightarrow> outage list \<Rightarrow> (attempt \<times> bool) list \<Rightarrow> (attempt \<times> bool) list \<times> string list" where
  "flag_outages t0 [] ps = (ps, [])"
| "flag_outages t0 (w # ws) ps =
     (case flag_outages t0 ws (flag_outage w ps) of
        (ps', notes) \<Rightarrow> (ps', outage_note t0 w (length (List.filter (outage_hits w) ps)) # notes))"

definition flagLocalOutage :: "attempt list \<Rightarrow> (attempt \<times> bool) list \<times> string list" where
  "flagLocalOutage as =
     flag_outages (first_start as)
       (List.filter (\<lambda>w. localMin \<le> length (ou_events w)) (local_windows (host_events as)))
       (map (\<lambda>a. (a, False)) as)"

section \<open>Transient outages\<close>

abbreviation transientSpan :: duration where "transientSpan \<equiv> sec 20"
abbreviation transientMin :: nat where "transientMin \<equiv> 6"
abbreviation transientPorts :: nat where "transientPorts \<equiv> 3"

definition attempt_key :: "attempt \<Rightarrow> string" where
  "attempt_key a = cellKey (at_test a) (at_transport a) (at_dst_port a) (at_variant a)"

definition passing_keys :: "attempt list \<Rightarrow> string list" where
  "passing_keys as = map Key (List.filter pass (Aggregate as))"

definition candidate :: "string list \<Rightarrow> attempt \<times> bool \<Rightarrow> bool" where
  "candidate passing p \<longleftrightarrow>
     (case p of (a, loc) \<Rightarrow>
        \<not> (at_merged a = ''ok'' \<or> at_outcome a = OutcomeOK \<or> at_outcome a = OutcomeInconclusive
           \<or> at_outcome a = OutcomeServerError \<or> is_zero_time (at_started a) \<or> loc)
        \<and> attempt_key a \<in> set passing)"

text \<open>The candidates with their place in the scan, in the order of their starts.\<close>

definition candidates_of :: "(attempt \<times> bool) list \<Rightarrow> (nat \<times> attempt) list" where
  "candidates_of ps =
     sort_key (\<lambda>c. at_started (snd c))
       (map (\<lambda>(i, p). (i, fst p))
         (List.filter (\<lambda>(i, p). candidate (passing_keys (map fst ps)) p) (enumerate 0 ps)))"

definition window_ports :: "(nat \<times> attempt) list \<Rightarrow> string list" where
  "window_ports win = remdups (map (\<lambda>c. portKey (at_transport (snd c)) (at_dst_port (snd c))) win)"

definition window_from :: "nat \<times> attempt \<Rightarrow> (nat \<times> attempt) list \<Rightarrow> (nat \<times> attempt) list" where
  "window_from c cs =
     c # takeWhile (\<lambda>x. sub_time (at_started (snd x)) (at_started (snd c)) \<le> transientSpan) cs"

function transient_windows :: "(nat \<times> attempt) list \<Rightarrow> (nat \<times> attempt) list list" where
  "transient_windows [] = []"
| "transient_windows (c # cs) =
     (let win = window_from c cs
      in if length win < transientMin \<or> length (window_ports win) < transientPorts then transient_windows cs
         else win # transient_windows (drop (length win) (c # cs)))"
  by pat_completeness auto
termination
  by (relation "measure length") (simp_all add: window_from_def)

definition transient_note :: "time \<Rightarrow> (nat \<times> attempt) list \<Rightarrow> string" where
  "transient_note t0 win =
     ''transient outage: '' @ itoa (int (length win)) @ '' attempts on '' @ itoa (int (length (window_ports win)))
     @ '' ports ('' @ itoa (int (length (remdups (map (\<lambda>c. at_test (snd c)) win))))
     @ '' test families) failed between +'' @ format_f0 (seconds (sub_time (at_started (snd (hd win))) t0))
     @ ''s and +'' @ format_f0 (seconds (sub_time (at_started (snd (last win))) t0)) @ ''s of the scan (round ''
     @ join_with '','' (sort (remdups (map (\<lambda>c. itoa (at_round (snd c))) win)))
     @ '') while the same cells passed in the other rounds; they are flagged detail.transient=true and left out of the cells''"

definition flag_at :: "nat list \<Rightarrow> attempt list \<Rightarrow> attempt list" where
  "flag_at is as = map (\<lambda>(i, a). if i \<in> set is then flag a else a) (enumerate 0 as)"

definition flagTransient :: "(attempt \<times> bool) list \<Rightarrow> attempt list \<times> string list" where
  "flagTransient ps =
     (let as = map fst ps; wins = transient_windows (candidates_of ps)
      in (flag_at (map fst (concat wins)) as, map (transient_note (first_start as)) wins))"

text \<open>Both, as \<open>classify\<close> runs them.\<close>

definition flag_all :: "attempt list \<Rightarrow> attempt list \<times> string list" where
  "flag_all as =
     (case flagLocalOutage as of
        (ps, notes) \<Rightarrow> (case flagTransient ps of (as', notes') \<Rightarrow> (as', notes @ notes')))"

end
