(* ===== verification/Transient_Props.thy ===== *)
theory Transient_Props
  imports Transient
begin

text \<open>
  What flagging may do: it marks failed attempts only, a burst is flagged on the evidence the rule
  asks for and in cells that pass otherwise, and classifying a stored report again flags the same
  attempts with the same notes. Flagging changes one entry of the detail map that only the
  aggregation reads, so every step commutes with it.
\<close>

section \<open>Flagging commutes with the rules\<close>

definition flag_fst :: "attempt \<times> bool \<Rightarrow> attempt \<times> bool" where "flag_fst p = (flag (fst p), snd p)"
definition flag_snd :: "nat \<times> attempt \<Rightarrow> nat \<times> attempt" where "flag_snd c = (fst c, flag (snd c))"

lemma flag_fst_snd [simp]:
  "fst (flag_fst p) = flag (fst p)" "snd (flag_fst p) = snd p" "flag_fst (a, b) = (flag a, b)"
  "fst (flag_snd c) = fst c" "snd (flag_snd c) = flag (snd c)"
  by (simp_all add: flag_fst_def flag_snd_def)

lemma flag_flag [simp]: "flag (flag a) = flag a"
  by (simp add: flag_def set_det_def)

lemma flag_same [simp]:
  "at_test (flag a) = at_test a" "at_outcome (flag a) = at_outcome a" "at_merged (flag a) = at_merged a"
  "at_transport (flag a) = at_transport a" "at_dst_port (flag a) = at_dst_port a" "at_variant (flag a) = at_variant a"
  "at_started (flag a) = at_started a" "at_round (flag a) = at_round a" "LocalFailure (flag a) = LocalFailure a"
  "det (flag a) ''cancelled'' = det a ''cancelled''"
  "attemptSpan (flag a) = attemptSpan a" "agg_key (flag a) = agg_key a" "attempt_key (flag a) = attempt_key a"
  "unmeasured (flag a) = unmeasured a" "left_out (flag a)"
  by (simp_all add: flag_def LocalFailure_def attemptSpan_def stage_def agg_key_def attempt_key_def unmeasured_def left_out_def)

lemma sort_key_map:
  assumes "\<And>x. k (f x) = k x"
  shows "sort_key k (map f xs) = map f (sort_key k xs)"
proof -
  have "insort_key k (f x) (map f ys) = map f (insort_key k x ys)" for x ys
    by (induction ys) (simp_all add: assms)
  then show ?thesis by (induction xs) simp_all
qed

lemma host_event_flag [simp]: "host_event_of (flag a) = host_event_of a"
  by (simp add: host_event_of_def)

lemma host_events_flag [simp]: "host_events (map flag as) = host_events as"
  by (simp add: host_events_def map_filter_def comp_def filter_map)

lemma first_start_flag [simp]: "first_start (map flag as) = first_start as"
  by (simp add: first_start_def fold_map comp_def cong: if_cong)

lemma outage_hits_flag [simp]: "outage_hits w (flag_fst p) = outage_hits w p"
  by (cases p) (simp add: outage_hits_def in_flight_def)

lemma flag_outage_flag: "flag_outage w (map flag_fst ps) = map flag_fst (flag_outage w ps)"
  by (simp add: flag_outage_def)

lemma flag_outages_flag:
  "flag_outages t0 ws (map flag_fst ps) =
     (map flag_fst (fst (flag_outages t0 ws ps)), snd (flag_outages t0 ws ps))"
proof (induction ws arbitrary: ps)
  case (Cons w ws)
  have "length (List.filter (outage_hits w) (map flag_fst ps)) = length (List.filter (outage_hits w) ps)"
    by (simp add: filter_map comp_def)
  then show ?case
    by (simp add: flag_outage_flag Cons.IH case_prod_beta)
qed simp

lemma flagLocalOutage_flag:
  "flagLocalOutage (map flag as) = (map flag_fst (fst (flagLocalOutage as)), snd (flagLocalOutage as))"
proof -
  have "map (\<lambda>a. (a, False)) (map flag as) = map flag_fst (map (\<lambda>a. (a, False)) as)" by simp
  then show ?thesis unfolding flagLocalOutage_def by (simp only: flag_outages_flag host_events_flag first_start_flag)
qed

lemma window_from_flag: "window_from (flag_snd c) (map flag_snd cs) = map flag_snd (window_from c cs)"
  by (simp add: window_from_def takeWhile_map comp_def)

lemma window_ports_flag [simp]: "window_ports (map flag_snd win) = window_ports win"
  by (simp add: window_ports_def comp_def)

lemma transient_windows_flag: "transient_windows (map flag_snd cs) = map (map flag_snd) (transient_windows cs)"
proof (induction cs rule: transient_windows.induct)
  case (2 c cs)
  have d: "drop n (flag_snd c # map flag_snd cs) = map flag_snd (drop n (c # cs))" for n
    by (simp add: drop_map flip: list.map(2))
  show ?case
    using 2 by (simp add: Let_def window_from_flag d)
qed simp

lemma transient_note_flag: "win \<noteq> [] \<Longrightarrow> transient_note t0 (map flag_snd win) = transient_note t0 win"
  by (simp add: transient_note_def hd_map last_map comp_def)

section \<open>Only failures are flagged\<close>

abbreviation hit_or_kept :: "attempt \<times> bool \<Rightarrow> attempt \<times> bool \<Rightarrow> bool" where
  "hit_or_kept p q \<equiv> q = p \<or> (\<not> snd p \<and> at_outcome (fst p) \<noteq> OutcomeOK \<and> q = (flag (fst p), True))"

lemma flag_outages_hits: "list_all2 hit_or_kept ps (fst (flag_outages t0 ws ps))"
proof (induction ws arbitrary: ps)
  case (Cons w ws)
  have "list_all2 hit_or_kept ps (flag_outage w ps)"
    by (auto simp: flag_outage_def list_all2_conv_all_nth outage_hits_def split: prod.splits)
  then have "list_all2 hit_or_kept ps (fst (flag_outages t0 ws (flag_outage w ps)))"
    using Cons.IH [of "flag_outage w ps"] by (rule list_all2_trans [rotated]) auto
  then show ?case by (simp add: case_prod_beta)
qed (simp add: list_all2_refl)

lemma local_outage_hits:
  "list_all2 (\<lambda>a q. q = (a, False) \<or> (at_outcome a \<noteq> OutcomeOK \<and> q = (flag a, True))) as (fst (flagLocalOutage as))"
  using flag_outages_hits [of "map (\<lambda>a. (a, False)) as"]
  by (auto simp: flagLocalOutage_def list_all2_map1 elim!: list_all2_mono)

lemma transient_windows_sub: "win \<in> set (transient_windows cs) \<Longrightarrow> set win \<subseteq> set cs"
proof (induction cs rule: transient_windows.induct)
  case (2 c cs)
  have "set (window_from c cs) \<subseteq> set (c # cs)"
    using set_takeWhileD by (fastforce simp: window_from_def)
  then show ?case
    using 2 set_drop_subset [of "length (window_from c cs)" "c # cs"]
    by (auto simp: Let_def simp del: drop_Cons' split: if_splits)
qed simp

lemma candidates_nth:
  assumes "(i, a) \<in> set (candidates_of ps)"
  shows "i < length ps \<and> a = fst (ps ! i) \<and> candidate (passing_keys (map fst ps)) (ps ! i)"
  using assms by (auto simp: candidates_of_def in_set_enumerate_eq)

lemma flagged_index:
  assumes "i \<in> set (map fst (concat (transient_windows (candidates_of ps))))"
  shows "candidate (passing_keys (map fst ps)) (ps ! i)"
proof -
  obtain win a where "win \<in> set (transient_windows (candidates_of ps))" "(i, a) \<in> set win"
    using assms by auto
  then show ?thesis using transient_windows_sub candidates_nth by blast
qed

lemma length_flag_at [simp]: "length (flag_at is as) = length as"
  by (simp add: flag_at_def)

lemma flag_at_nth: "i < length as \<Longrightarrow> flag_at is as ! i = (if i \<in> set is then flag (as ! i) else as ! i)"
  by (simp add: flag_at_def nth_enumerate_eq)

lemma transient_flags:
  "list_all2 (\<lambda>x y. y = x \<or> (y = flag x \<and> at_outcome x \<noteq> OutcomeOK \<and> attempt_key x \<in> set (passing_keys (map fst ps))))
     (map fst ps) (fst (flagTransient ps))"
proof (rule list_all2_all_nthI)
  fix i
  assume "i < length (map fst ps)"
  then show "fst (flagTransient ps) ! i = map fst ps ! i \<or>
      (fst (flagTransient ps) ! i = flag (map fst ps ! i) \<and> at_outcome (map fst ps ! i) \<noteq> OutcomeOK
       \<and> attempt_key (map fst ps ! i) \<in> set (passing_keys (map fst ps)))"
    using flagged_index [of i ps]
    by (cases "ps ! i", cases "i \<in> set (map fst (concat (transient_windows (candidates_of ps))))")
       (simp_all add: flagTransient_def Let_def flag_at_nth candidate_def)
qed (simp add: flagTransient_def Let_def)

text \<open>Flagging an outage touches failures only and changes nothing but the flag: an attempt that
  succeeded is never left out of the cells on account of an outage.\<close>

theorem outages_flag_only_failures:
  "list_all2 (\<lambda>a b. b = a \<or> (b = flag a \<and> at_outcome a \<noteq> OutcomeOK)) as (fst (flag_all as))"
proof -
  obtain ps ns where ps: "flagLocalOutage as = (ps, ns)" by (cases "flagLocalOutage as")
  have "list_all2 (\<lambda>a b. b = a \<or> (b = flag a \<and> at_outcome a \<noteq> OutcomeOK)) as (map fst ps)"
    using local_outage_hits [of as] by (auto simp: ps list_all2_map2 elim!: list_all2_mono)
  then have "list_all2 (\<lambda>a b. b = a \<or> (b = flag a \<and> at_outcome a \<noteq> OutcomeOK)) as (fst (flagTransient ps))"
    using transient_flags [of ps] by (rule list_all2_trans [rotated]) auto
  then show ?thesis by (simp add: flag_all_def ps case_prod_beta)
qed

lemma window_shape:
  assumes "win \<in> set (transient_windows cs)"
  shows "6 \<le> length win \<and> 3 \<le> length (window_ports win)
      \<and> (\<forall>c \<in> set win. sub_time (at_started (snd c)) (at_started (snd (hd win))) \<le> sec 20)"
  using assms
proof (induction cs rule: transient_windows.induct)
  case (2 c cs)
  have "\<forall>x \<in> set (window_from c cs). sub_time (at_started (snd x)) (at_started (snd (hd (window_from c cs)))) \<le> sec 20"
    by (auto simp: window_from_def sub_time_def dest: set_takeWhileD)
  with 2 show ?case by (auto simp: Let_def simp del: drop_Cons' split: if_splits)
qed simp

text \<open>A burst is flagged only on the evidence the rule asks for: at least six attempts on at least
  three ports, all starting within twenty seconds of the first, none of them passed, of the host
  or inconclusive, and each in a cell that passes. A cell that fails every time is not excused.\<close>

theorem transient_burst_evidence:
  "list_all (\<lambda>win. 6 \<le> length win \<and> 3 \<le> length (window_ports win)
      \<and> list_all (\<lambda>c. sub_time (at_started (snd c)) (at_started (snd (hd win))) \<le> sec 20
                      \<and> snd c = fst (ps ! fst c) \<and> candidate (passing_keys (map fst ps)) (ps ! fst c)) win)
     (transient_windows (candidates_of ps))"
proof -
  have "snd c = fst (ps ! fst c) \<and> candidate (passing_keys (map fst ps)) (ps ! fst c)"
    if "win \<in> set (transient_windows (candidates_of ps))" "c \<in> set win" for win c
    using transient_windows_sub [OF that(1)] that(2) candidates_nth [of "fst c" "snd c" ps] by auto
  with window_shape show ?thesis by (fastforce simp: list_all_iff)
qed

section \<open>The cells that pass\<close>

text \<open>Test ids and transports hold no separator of the aggregation key.\<close>

definition plain_names :: "attempt \<Rightarrow> bool" where
  "plain_names a \<longleftrightarrow> CHR ''|'' \<notin> set (at_test a) \<and> CHR ''|'' \<notin> set (at_transport a)"

lemma itoa_plain: "CHR ''|'' \<notin> set (itoa i)"
proof -
  have "c \<noteq> CHR ''|''" if "c \<in> set (utoa n)" for c n
    using utoa_digits [of n] that by (auto simp: list_all_iff is_digit_def)
  then show ?thesis by (auto simp: itoa_def)
qed

lemma agg_key_attempt_key:
  assumes "plain_names a" "plain_names b" "agg_key a = agg_key b"
  shows "attempt_key a = attempt_key b"
proof -
  have "at_test a = at_test b \<and> at_transport a = at_transport b \<and> itoa (at_dst_port a) = itoa (at_dst_port b)
      \<and> at_variant a = at_variant b"
    using assms itoa_plain by (simp add: agg_key_def plain_names_def delim_cut)
  then show ?thesis by (simp add: attempt_key_def cellKey_def familyKey_def portKey_def)
qed

lemma Key_cell_of: "Key (cell_of g) = attempt_key (hd g)"
  by (simp add: Key_def cell_of_def count_fold_keeps new_cell_def attempt_key_def)

lemma passing_keys_iff:
  "K \<in> set (passing_keys xs) \<longleftrightarrow>
     (\<exists>k. members k xs \<noteq> [] \<and> pass (cell_of (members k xs)) \<and> attempt_key (hd (members k xs)) = K)"
proof -
  have "K \<in> set (passing_keys xs) \<longleftrightarrow> (\<exists>c \<in> set (Aggregate xs). pass c \<and> Key c = K)"
    by (auto simp: passing_keys_def)
  also have "\<dots> \<longleftrightarrow> (\<exists>c. \<exists>k. members k xs \<noteq> [] \<and> c = cell_of (members k xs) \<and> pass c \<and> Key c = K)"
    by (auto simp only: set_Aggregate Bex_def)
  finally show ?thesis by (simp add: Key_cell_of)
qed

lemma members_flagged:
  assumes "list_all2 (\<lambda>x y. y = x \<or> (y = flag x \<and> at_outcome x \<noteq> OutcomeOK \<and> Q x)) xs ys"
  shows "length (List.filter (\<lambda>a. \<not> unmeasured a \<and> at_outcome a = OutcomeOK) (members k ys))
           = length (List.filter (\<lambda>a. \<not> unmeasured a \<and> at_outcome a = OutcomeOK) (members k xs))
         \<and> length (List.filter (\<lambda>a. \<not> unmeasured a) (members k ys)) \<le> length (List.filter (\<lambda>a. \<not> unmeasured a) (members k xs))
         \<and> set (members k ys) \<subseteq> set (members k xs)
         \<and> ((\<forall>x \<in> set (members k xs). \<not> Q x) \<longrightarrow> members k ys = members k xs)"
  using assms
proof (induction rule: list_all2_induct)
  case (Cons x xs y ys)
  then show ?case by (cases "y = x") (auto simp: members_def)
qed (simp add: members_def)

lemma pass_fewer:
  assumes "g \<noteq> []" "pass (cell_of g)"
    and "length (List.filter (\<lambda>a. \<not> unmeasured a \<and> at_outcome a = OutcomeOK) h)
           = length (List.filter (\<lambda>a. \<not> unmeasured a \<and> at_outcome a = OutcomeOK) g)"
    and "length (List.filter (\<lambda>a. \<not> unmeasured a) h) \<le> length (List.filter (\<lambda>a. \<not> unmeasured a) g)"
  shows "h \<noteq> [] \<and> pass (cell_of h)"
proof -
  have "0 < length (List.filter (\<lambda>a. \<not> unmeasured a \<and> at_outcome a = OutcomeOK) h)"
    using assms(1,2) unfolding assms(3) pass_def cell_of_measured(1,2) [OF assms(1)] by linarith
  then obtain a where "a \<in> set h" "\<not> unmeasured a" by (auto simp: length_greater_0_conv filter_empty_conv)
  then have "h \<noteq> []" "0 < length (List.filter (\<lambda>a. \<not> unmeasured a) h)"
    by (auto simp: filter_empty_conv)
  then show ?thesis using assms by (simp add: pass_def cell_of_measured)
qed

text \<open>Leaving the flagged failures out of passing cells keeps exactly the same cells passing.\<close>

lemma passing_keys_flagged:
  assumes rel: "list_all2 (\<lambda>x y. y = x \<or> (y = flag x \<and> at_outcome x \<noteq> OutcomeOK \<and> attempt_key x \<in> set (passing_keys xs))) xs ys"
    and names: "\<forall>a \<in> set xs. plain_names a"
  shows "set (passing_keys ys) = set (passing_keys xs)"
proof (intro set_eqI iffI)
  note m = members_flagged [OF rel]
  have same: "attempt_key a = attempt_key b" if "a \<in> set (members k xs)" "b \<in> set (members k xs)" for a b k
    using that names agg_key_attempt_key by (auto simp: members_def)
  fix K
  {
    assume "K \<in> set (passing_keys xs)"
    then obtain k where k: "members k xs \<noteq> []" "pass (cell_of (members k xs))" "attempt_key (hd (members k xs)) = K"
      by (auto simp: passing_keys_iff)
    have p: "members k ys \<noteq> [] \<and> pass (cell_of (members k ys))"
      using k(1,2) m [of k] by (intro pass_fewer [of "members k xs"]) auto
    then have "hd (members k ys) \<in> set (members k xs)" using m [of k] hd_in_set by blast
    then have "attempt_key (hd (members k ys)) = K" using same k(1,3) hd_in_set by blast
    then show "K \<in> set (passing_keys ys)" using p by (auto simp: passing_keys_iff)
  next
    assume "K \<in> set (passing_keys ys)"
    then obtain k where k: "members k ys \<noteq> []" "pass (cell_of (members k ys))" "attempt_key (hd (members k ys)) = K"
      by (auto simp: passing_keys_iff)
    show "K \<in> set (passing_keys xs)"
    proof (rule ccontr)
      assume K: "K \<notin> set (passing_keys xs)"
      have "hd (members k ys) \<in> set (members k xs)" using m [of k] k(1) hd_in_set by blast
      then have "\<forall>x \<in> set (members k xs). attempt_key x \<notin> set (passing_keys xs)" using same k(3) K by metis
      then have "members k ys = members k xs" using m [of k] by blast
      then show False using k K by (auto simp: passing_keys_iff)
    qed
  }
qed

section \<open>Classifying again\<close>

lemma enumerate_map: "enumerate n (map f xs) = map (\<lambda>(i, x). (i, f x)) (enumerate n xs)"
  by (induction xs arbitrary: n) simp_all

lemma candidates_of_flag:
  assumes "set (passing_keys (map fst ps)) = set (passing_keys (map fst qs))" "map flag_fst ps = map flag_fst qs"
  shows "map flag_snd (candidates_of ps) = map flag_snd (candidates_of qs)"
proof -
  define cand where "cand P rs = map (\<lambda>(i, p). (i, fst p)) (List.filter (\<lambda>(i :: nat, p). candidate P p) (enumerate 0 rs))" for P rs
  have c: "candidates_of rs = sort_key (\<lambda>c. at_started (snd c)) (cand (passing_keys (map fst rs)) rs)" for rs
    by (simp add: candidates_of_def cand_def)
  have f: "candidate P (flag_fst p) = candidate P p" for P p
    by (cases p) (simp add: candidate_def)
  have "map flag_snd (cand P rs) = cand P (map flag_fst rs)" for P rs
    by (simp add: cand_def enumerate_map filter_map comp_def f flag_snd_def case_prod_unfold)
  moreover have "cand (passing_keys (map fst ps)) rs = cand (passing_keys (map fst qs)) rs" for rs
    by (simp add: cand_def candidate_def assms(1))
  ultimately show ?thesis
    unfolding c using assms(2) by (metis (no_types, lifting) sort_key_map flag_fst_snd(5) flag_same(7))
qed

lemma flagTransient_again:
  assumes "map flag_fst qs = map flag_fst ps" "map fst qs = fst (flagTransient ps)" "\<forall>p \<in> set ps. plain_names (fst p)"
  shows "flagTransient qs = flagTransient ps"
proof -
  let ?xs = "map fst ps" and ?wins = "transient_windows (candidates_of ps)" and ?wins' = "transient_windows (candidates_of qs)"
  have "set (passing_keys (map fst qs)) = set (passing_keys ?xs)"
    unfolding assms(2) using assms(3) by (intro passing_keys_flagged transient_flags) auto
  then have "map flag_snd (candidates_of qs) = map flag_snd (candidates_of ps)"
    using assms(1) by (rule candidates_of_flag)
  then have w: "map (map flag_snd) ?wins' = map (map flag_snd) ?wins"
    by (metis transient_windows_flag)
  then have "map (map fst) ?wins' = map (map fst) ?wins"
    by (metis (no_types, lifting) list.map_comp comp_def flag_fst_snd(4) map_cong)
  then have i: "map fst (concat ?wins') = map fst (concat ?wins)" by (simp add: map_concat)
  have "map flag (map fst qs) = map flag ?xs"
    using arg_cong [OF assms(1), of "map fst"] by (simp add: comp_def)
  then have t0: "first_start (map fst qs) = first_start ?xs" by (metis first_start_flag)
  have "transient_note t (map flag_snd win) = transient_note t win" if "win \<in> set (transient_windows cs)" for t win cs
    using window_shape [OF that] by (intro transient_note_flag) auto
  then have "map (transient_note t) (map (map flag_snd) (transient_windows cs)) = map (transient_note t) (transient_windows cs)" for t cs
    by simp
  then have n: "map (transient_note (first_start ?xs)) ?wins' = map (transient_note (first_start ?xs)) ?wins"
    using w by metis
  have "flag_at is (flag_at is as) = flag_at is as" for "is" as
    by (rule nth_equalityI) (simp_all add: flag_at_nth)
  then have "flag_at (map fst (concat ?wins)) (map fst qs) = map fst qs"
    by (simp only: assms(2) flagTransient_def Let_def fst_conv)
  then have "fst (flagTransient qs) = fst (flagTransient ps)"
    unfolding assms(2) [symmetric] by (simp only: flagTransient_def [of qs] Let_def i fst_conv)
  moreover have "snd (flagTransient qs) = snd (flagTransient ps)"
    by (simp only: flagTransient_def Let_def t0 n snd_conv)
  ultimately show ?thesis by (simp add: prod_eq_iff)
qed

lemma local_again:
  assumes "flagLocalOutage as = (ps, ns)" "as' = fst (flagTransient ps)" "flagLocalOutage as' = (qs, ms)"
  shows "ms = ns" "map flag_fst qs = map flag_fst ps" "map fst qs = as'"
proof -
  have ap: "list_all2 (\<lambda>a q. q = (a, False) \<or> (at_outcome a \<noteq> OutcomeOK \<and> q = (flag a, True))) as ps"
    using local_outage_hits [of as] assms(1) by simp
  have aq: "list_all2 (\<lambda>a q. q = (a, False) \<or> (at_outcome a \<noteq> OutcomeOK \<and> q = (flag a, True))) as' qs"
    using local_outage_hits [of as'] assms(3) by simp
  have pa: "list_all2 (\<lambda>x y. y = x \<or> y = flag x) (map fst ps) as'"
    unfolding assms(2) by (rule list_all2_mono [OF transient_flags]) blast
  have len: "length as = length ps" "length as' = length ps" "length qs = length ps"
    using list_all2_lengthD [OF ap] list_all2_lengthD [OF aq] list_all2_lengthD [OF pa] by simp_all
  have "map flag as' = map flag as"
  proof (rule nth_equalityI)
    fix i
    assume "i < length (map flag as')"
    then show "map flag as' ! i = map flag as ! i"
      using list_all2_nthD [OF ap, of i] list_all2_nthD [OF pa, of i] len by auto
  qed (simp add: len)
  from arg_cong [OF this, of flagLocalOutage] have "ms = ns \<and> map flag_fst qs = map flag_fst ps"
    unfolding flagLocalOutage_flag assms(1,3) by simp
  then show "ms = ns" and q: "map flag_fst qs = map flag_fst ps" by simp_all
  show "map fst qs = as'"
  proof (rule nth_equalityI)
    fix i
    assume "i < length (map fst qs)"
    moreover from this have "snd (qs ! i) = snd (ps ! i)"
      using arg_cong [OF q, of "\<lambda>xs. snd (xs ! i)"] len by simp
    ultimately show "map fst qs ! i = as' ! i"
      using list_all2_nthD [OF ap, of i] list_all2_nthD [OF pa, of i] list_all2_nthD [OF aq, of i] len by auto
  qed (simp add: len)
qed

lemma flag_all_idem:
  assumes "\<forall>a \<in> set as. plain_names a"
  shows "flag_all (fst (flag_all as)) = flag_all as"
proof -
  obtain ps ns where ps: "flagLocalOutage as = (ps, ns)" by (cases "flagLocalOutage as")
  let ?as' = "fst (flagTransient ps)"
  obtain qs ms where qs: "flagLocalOutage ?as' = (qs, ms)" by (cases "flagLocalOutage ?as'")
  note again = local_again [OF ps refl qs]
  have pf: "plain_names (flag a) = plain_names a" for a by (simp add: plain_names_def)
  have ap: "list_all2 (\<lambda>a q. q = (a, False) \<or> (at_outcome a \<noteq> OutcomeOK \<and> q = (flag a, True))) as ps"
    using local_outage_hits [of as] ps by simp
  have "\<forall>p \<in> set ps. plain_names (fst p)"
  proof
    fix p
    assume "p \<in> set ps"
    then obtain i where i: "i < length ps" "ps ! i = p" by (auto simp: in_set_conv_nth)
    then have "i < length as" using list_all2_lengthD [OF ap] by simp
    then show "plain_names (fst p)" using list_all2_nthD [OF ap, of i] i(2) assms pf nth_mem by fastforce
  qed
  then have "flagTransient qs = flagTransient ps"
    by (intro flagTransient_again again)
  then show ?thesis by (simp add: flag_all_def ps qs again(1) case_prod_beta)
qed

end
