(* ===== verification/Dest_Classify.thy ===== *)
theory Dest_Classify
  imports Rules
begin

text \<open>
  The real destinations (\<open>internal/classify/dest.go\<close>): the verdicts of the \<open>dest.*\<close> family, which has no
  server half and compares each site with controls measured the same way, and the per-site
  summary. The body of \<open>destVerdicts\<close> is split by layer, in the order of the code. Layers are an
  association list, because the code walks that map.
\<close>

section \<open>Cells of the family\<close>

definition zero_cell :: cell where
  "zero_cell = \<lparr>c_test = '''', c_transport = '''', c_port = 0, c_variant = '''', c_role = '''', c_total = 0, c_ok = 0,
     c_outcomes = [], c_merged = [], c_server_saw = 0, c_unmeasured = 0, c_measured_merged = None\<rparr>"

definition or_zero :: "cell option \<Rightarrow> cell" where
  "or_zero x = (case x of Some c \<Rightarrow> c | None \<Rightarrow> zero_cell)"

definition destFailed :: "cell \<Rightarrow> bool" where
  "destFailed c \<longleftrightarrow> fails c \<and> dominant c \<notin> {OutcomeSkipped, OutcomeInconclusive, OutcomeServerError}"

abbreviation resolverMinSites :: int where "resolverMinSites \<equiv> 2"

definition find_dest :: "cell list \<Rightarrow> string \<Rightarrow> string \<Rightarrow> cell option" where
  "find_dest cs test variant = List.find (\<lambda>c. c_test c = test \<and> c_variant c = variant) cs"

definition destDomain :: "string \<Rightarrow> string" where
  "destDomain variant =
     (if has_prefix variant ''decoy:'' then trim_prefix variant ''decoy:''
      else if has_prefix variant ''absent:'' then trim_prefix variant ''absent:''
      else variant)"

definition site_cell :: "cell \<Rightarrow> bool" where
  "site_cell c \<longleftrightarrow> IsDestTest (c_test c) \<and> c_test c \<noteq> ''dest.nxdomain'' \<and> c_variant c \<noteq> ''anycast''"

definition dest_domains :: "cell list \<Rightarrow> string list" where
  "dest_domains cs = sort (remdups (map (\<lambda>c. destDomain (c_variant c)) (List.filter site_cell cs)))"

definition dest_ev :: "cell \<Rightarrow> string" where
  "dest_ev c = Key c @ '': '' @ itoa (c_ok c) @ ''/'' @ itoa (c_total c) @ '' ok, dominant='' @ dominant c"

definition dest_cite :: "string \<Rightarrow> cell \<Rightarrow> string" where
  "dest_cite pre c = pre @ dest_ev c"

definition capped :: "cell \<Rightarrow> cell \<Rightarrow> string" where
  "capped failed passed = (let conf = confidence failed passed in if conf = ''high'' then ''medium'' else conf)"

definition connectStage :: "cell \<Rightarrow> bool" where
  "connectStage c \<longleftrightarrow> dominant c \<in> {OutcomeConnectTimeout, OutcomeConnectReset, OutcomeConnectRefused}"

definition timedOutOnly :: "cell \<Rightarrow> bool" where
  "timedOutOnly c \<longleftrightarrow> hist_get (c_outcomes c) OutcomePayloadTimeout \<noteq> 0
     \<and> list_all (\<lambda>(k, n). \<not> (n > 0 \<and> k \<noteq> OutcomeOK \<and> k \<noteq> OutcomePayloadTimeout \<and> \<not> unmeasuredMerged k)) (c_outcomes c)"

definition protoOf :: "attempt list \<Rightarrow> string \<Rightarrow> string" where
  "protoOf as domain =
     (case List.find (\<lambda>a. at_test a = ''dest.proto'' \<and> at_variant a = domain \<and> det a ''proto'' \<noteq> '''') as of
        Some a \<Rightarrow> det a ''proto'' | None \<Rightarrow> ''service'' @ CHR 0x27 # ''s own'')"

section \<open>The timing of resets\<close>

text \<open>The host of \<open>net.SplitHostPort\<close>, or nothing where it fails.\<close>

definition split_host :: "string \<Rightarrow> string option" where
  "split_host s =
     (case find_index_last (CHR '':'') s of
        None \<Rightarrow> None
      | Some i \<Rightarrow>
          if hd s = CHR ''[''
          then (case str_cut (CHR '']'') s of
                  (h, after, found) \<Rightarrow>
                    if \<not> found \<or> length h + 1 \<noteq> i \<or> CHR ''['' \<in> set (tl s) \<or> CHR '']'' \<in> set after then None
                    else Some (tl h))
          else if CHR '':'' \<in> set (take i s) \<or> CHR ''['' \<in> set s \<or> CHR '']'' \<in> set s then None
          else Some (take i s))"

definition attemptIP :: "attempt \<Rightarrow> string" where
  "attemptIP a =
     (if det a ''ip'' \<noteq> '''' then det a ''ip''
      else case split_host (det a ''endpoint'') of Some h \<Rightarrow> h | None \<Rightarrow> '''')"

definition minRTT :: "attempt list \<Rightarrow> string \<rightharpoonup> rat" where
  "minRTT as =
     fold (\<lambda>a best.
       if \<not> IsDestTest (at_test a) \<or> left_out a then best
       else case at_stages a ''connect'' of
              None \<Rightarrow> best
            | Some rtt \<Rightarrow>
                if attemptIP a = '''' \<or> \<not> UsableRTT rtt then best
                else case best (attemptIP a) of
                       Some m \<Rightarrow> if rtt < m then best(attemptIP a \<mapsto> rtt) else best
                     | None \<Rightarrow> best(attemptIP a \<mapsto> rtt)) as Map.empty"

definition timed_reset :: "attempt list \<Rightarrow> cell \<Rightarrow> attempt \<Rightarrow> (rat \<times> rat) option" where
  "timed_reset as c a =
     (if at_test a \<noteq> c_test c \<or> at_variant a \<noteq> c_variant c \<or> at_dst_port a \<noteq> c_port c \<or> left_out a \<or> unmeasured a then None
      else case ResetTiming a of
             None \<Rightarrow> None
           | Some (resetMs, rttMs) \<Rightarrow>
               (case minRTT as (attemptIP a) of
                  Some m \<Rightarrow> Some (resetMs, if m < rttMs \<or> \<not> UsableRTT rttMs then m else rttMs)
                | None \<Rightarrow> Some (resetMs, rttMs)))"

definition ms_span :: "rat list \<Rightarrow> string" where
  "ms_span v =
     (let lo = fold min v (hd v); hi = fold max v (hd v)
      in if trunc_rat lo = trunc_rat hi then format_f0 lo @ '' ms'' else format_f0 lo @ ''-'' @ format_f0 hi @ '' ms'')"

record resetTiming =
  early :: int
  line :: string

definition reset_line :: "int \<Rightarrow> (rat \<times> rat) list \<Rightarrow> string" where
  "reset_line n ts =
     (let resets = ms_span (map fst ts); rtts = ms_span (map snd ts); total = int (length ts)
      in if ts = [] then ''''
         else if n = total
         then ''the reset came '' @ resets @ '' after the ClientHello, sooner than the TCP round trip to the address ('' @ rtts
              @ ''): sent by a middlebox on the path, not by the server''
         else if n > 0
         then itoa n @ '' of '' @ itoa total @ '' resets came sooner than the TCP round trip to the address (reset '' @ resets
              @ '' after the ClientHello, round trip '' @ rtts @ ''): injected on the path''
         else ''the reset came '' @ resets @ '' after the ClientHello, the TCP round trip to the address took '' @ rtts)"

definition earlyResets :: "attempt list \<Rightarrow> cell \<Rightarrow> resetTiming" where
  "earlyResets as c =
     (let ts = List.map_filter (timed_reset as c) as;
          n = int (length (List.filter (\<lambda>(resetMs, rttMs). ResetBeforeRTT resetMs rttMs) ts))
      in \<lparr>early = n, line = reset_line n ts\<rparr>)"

definition reset_lines :: "attempt list \<Rightarrow> cell \<Rightarrow> string list" where
  "reset_lines as c = (let r = earlyResets as c in if line r \<noteq> '''' then [line r] else [])"

section \<open>Controls of the family\<close>

text \<open>The possessive ending in evidence lines.\<close>

abbreviation poss :: string where "poss \<equiv> CHR 0x27 # ''s''"

definition nxdomain_verdict :: "cell option \<Rightarrow> verdict list" where
  "nxdomain_verdict nx =
     (case nx of
        None \<Rightarrow> []
      | Some c \<Rightarrow>
          if \<not> destFailed c \<or> dominant c \<noteq> OutcomeDNSMismatch then []
          else [mk_verdict ''nxdomain_hijack_suspected'' (Key c) (if Measured c \<ge> mediumMinAttempts then ''medium'' else ''low'')
                  [dest_ev c, ''a fresh name under the reserved .invalid TLD was answered with an address: the resolver invents answers (search/ad redirection, captive portal or a sinkhole)'']])"

record dest_ctl =
  d_anycast :: "cell option"
  d_dns_control :: "cell option"
  d_cells :: int
  d_timeouts :: int
  d_mismatches :: int

definition pick_dns_control :: "cell list \<Rightarrow> cell option" where
  "pick_dns_control cs =
     fold (\<lambda>c ctl.
       if c_test c = ''dest.dns'' \<and> pass c
          \<and> (case ctl of None \<Rightarrow> True | Some k \<Rightarrow> c_role c = RoleBaseline \<and> c_role k \<noteq> RoleBaseline)
       then Some c else ctl) cs None"

definition count_dest_dns :: "cell list \<Rightarrow> (cell \<Rightarrow> bool) \<Rightarrow> int" where
  "count_dest_dns cs p = int (length (List.filter (\<lambda>c. c_test c = ''dest.dns'' \<and> c_variant c \<noteq> ''anycast'' \<and> p c) cs))"

definition dest_controls :: "cell list \<Rightarrow> dest_ctl" where
  "dest_controls cs =
     \<lparr>d_anycast = find_dest cs ''dest.tcp'' ''anycast'', d_dns_control = pick_dns_control cs,
      d_cells = count_dest_dns cs (\<lambda>_. True),
      d_timeouts = count_dest_dns cs (\<lambda>c. destFailed c \<and> dominant c = OutcomeDNSTimeout),
      d_mismatches = count_dest_dns cs (\<lambda>c. destFailed c \<and> dominant c = OutcomeDNSMismatch)\<rparr>"

definition transportOK :: "dest_ctl \<Rightarrow> bool" where
  "transportOK ctl = opt_pass (d_anycast ctl)"

definition systemDown :: "dest_ctl \<Rightarrow> bool" where
  "systemDown ctl \<longleftrightarrow> d_cells ctl > 0 \<and> d_timeouts ctl * 2 \<ge> d_cells ctl"

definition systemUnreliable :: "dest_ctl \<Rightarrow> bool" where
  "systemUnreliable ctl \<longleftrightarrow> d_dns_control ctl = None \<and> d_mismatches ctl \<ge> resolverMinSites
     \<and> d_mismatches ctl * 2 \<ge> d_cells ctl"

definition anycast_verdict :: "dest_ctl \<Rightarrow> verdict list" where
  "anycast_verdict ctl =
     (case d_anycast ctl of
        None \<Rightarrow> []
      | Some c \<Rightarrow>
          if Measured c > 0 \<and> \<not> pass c
          then [mk_verdict ''control_failed_inconclusive'' (Key c) ''low''
                  [dest_ev c, ''no clean anycast address connects on :443: the transport layers of the real destinations cannot be told from an outage'']]
          else [])"

definition resolver_verdicts :: "dest_ctl \<Rightarrow> verdict list" where
  "resolver_verdicts ctl =
     (if systemDown ctl
      then [mk_verdict ''system_resolver_unreachable_suspected'' ''dest.dns udp/53''
              (if transportOK ctl \<and> d_timeouts ctl \<ge> resolverMinSites then ''medium'' else ''low'')
              [itoa (d_timeouts ctl) @ '' of '' @ itoa (d_cells ctl)
                 @ '' sites: the system resolver timed out while the trusted DoH resolvers answered'',
               if transportOK ctl then dest_cite ''passing control: the trusted resolvers, and '' (or_zero (d_anycast ctl))
               else ''passing control: the trusted resolvers, and no anycast control'']]
      else []) @
     (if systemUnreliable ctl
      then [mk_verdict ''system_resolver_unreliable_suspected'' ''dest.dns udp/53'' ''low''
              [itoa (d_mismatches ctl) @ '' of '' @ itoa (d_cells ctl) @ '' sites: the system resolver'' @ poss
                 @ '' answer is not the one the trusted DoH resolvers give, and no site resolved cleanly through it'',
               ''a failing, captive or wholesale-substituted resolver cannot be told from per-site poisoning without a name it resolves correctly'']]
      else [])"

section \<open>The layers of a site\<close>

definition site_dns :: "dest_ctl \<Rightarrow> cell option \<Rightarrow> verdict list" where
  "site_dns ctl dns =
     (case dns of
        None \<Rightarrow> []
      | Some c \<Rightarrow>
          if \<not> destFailed c then []
          else if dominant c = OutcomeDNSMismatch
          then (case d_dns_control ctl of
                  Some k \<Rightarrow>
                    [mk_verdict ''dest_dns_poisoning_suspected'' (Key c) (capped c k)
                       [dest_ev c, dest_cite ''passing control: '' k,
                        ''the system resolver'' @ poss @ '' answer for this name is not the one the trusted resolvers give and does not serve; a control site resolves cleanly'']]
                | None \<Rightarrow>
                    if systemUnreliable ctl then []
                    else [mk_verdict ''dest_dns_poisoning_suspected'' (Key c) ''low''
                            [dest_ev c, ''no site resolved cleanly through the system resolver: the whole resolver may be substituted'']])
          else if dominant c = OutcomeDNSTimeout
          then (if \<not> systemDown ctl \<and> transportOK ctl
                then [mk_verdict ''dest_dns_poisoning_suspected'' (Key c) ''low''
                        [dest_ev c, ''the system resolver timed out for this name only while the trusted resolvers answered; other names resolved: a per-name blackhole in the resolver, or loss'',
                         dest_cite ''passing control: '' (or_zero (d_anycast ctl))]]
                else [])
          else [])"

definition site_tcp :: "dest_ctl \<Rightarrow> cell option \<Rightarrow> cell option \<Rightarrow> verdict list" where
  "site_tcp ctl dns tcp =
     (case tcp of
        None \<Rightarrow> []
      | Some c \<Rightarrow>
          if \<not> destFailed c \<or> \<not> transportOK ctl then []
          else
            let anycast = or_zero (d_anycast ctl);
                e = [dest_ev c, dest_cite ''passing control: '' anycast]
                    @ (if (case dns of Some d \<Rightarrow> fails d \<and> dominant d = OutcomeDNSMismatch | None \<Rightarrow> False)
                       then [''the addresses probed are the trusted resolvers'' @ CHR 0x27 # '' answers, not the poisoned ones''] else [])
            in [if dominant c = OutcomeConnectTimeout
                then mk_verdict ''dest_tcp_blackhole_suspected'' (Key c) (capped c anycast)
                       (e @ [''SYN to the site'' @ poss @ '' address on :443 is never answered while a clean anycast address answers: the address (or prefix) is dropped''])
                else if dominant c = OutcomeConnectReset \<or> dominant c = OutcomeConnectRefused
                then mk_verdict ''dest_tcp_reset_suspected'' (Key c) (capped c anycast)
                       (e @ [''the connect is actively rejected (RST / refused) while a clean anycast address accepts: an injected reset or a sinkhole''])
                else mk_verdict ''dest_tcp_blocking_suspected'' (Key c) (capped c anycast) e])"

text \<open>The control of the handshakes above TCP.\<close>

definition tcp_line :: "cell option \<Rightarrow> string" where
  "tcp_line tcp =
     (if opt_pass tcp then dest_cite ''passing control: TCP connect '' (or_zero tcp)
      else ''TCP to the address connected in the handshake attempts themselves (the TCP layer measured nothing)'')"

definition above_tcp :: "cell option \<Rightarrow> cell \<Rightarrow> bool" where
  "above_tcp tcp c \<longleftrightarrow> destFailed c
     \<and> (opt_pass tcp \<or> ((tcp = None \<or> Measured (or_zero tcp) = 0) \<and> \<not> connectStage c))"

definition primary_dropped :: "dest_ctl \<Rightarrow> cell option \<Rightarrow> cell \<Rightarrow> string \<Rightarrow> verdict list" where
  "primary_dropped ctl tcp c what =
     (if transportOK ctl
      then [mk_verdict ''dest_tcp_blackhole_suspected'' (Key c) ''low''
              [dest_ev c, dest_cite ''passing control: '' (or_zero (d_anycast ctl)),
               ''the site'' @ poss @ '' primary address does not accept TCP on :443 while another of its addresses does (''
               @ dest_ev (or_zero tcp) @ ''): an address or prefix is dropped, the '' @ what @ '' was never sent'']]
      else [])"

definition no_sni_line :: "cell option \<Rightarrow> string list" where
  "no_sni_line absent = (case absent of Some c \<Rightarrow> [dest_cite ''no SNI: '' c] | None \<Rightarrow> [])"

definition sni_verdict :: "attempt list \<Rightarrow> cell \<Rightarrow> cell \<Rightarrow> cell option \<Rightarrow> verdict" where
  "sni_verdict as rl decoy absent =
     mk_verdict ''dest_sni_blocking_suspected'' (Key rl) (capped rl decoy)
       ([dest_ev rl, dest_cite ''passing control on the same address: '' decoy] @ no_sni_line absent
        @ (if dominant rl = OutcomeTLSSpoof then [''non-TLS bytes answered the ClientHello: an injected block page''] else [])
        @ reset_lines as rl
        @ [''the real name fails while a decoy name on the very same address completes the handshake: the rule keys on the SNI''])"

text \<open>Only the real name is reset; its controls on the address ran out of time.\<close>

definition only_name_reset :: "cell \<Rightarrow> cell \<Rightarrow> cell option \<Rightarrow> bool" where
  "only_name_reset rl decoy absent \<longleftrightarrow> dominant rl = OutcomeMidstreamReset \<and> destFailed decoy \<and> timedOutOnly decoy
     \<and> (case absent of None \<Rightarrow> True | Some c \<Rightarrow> timedOutOnly c \<or> pass c)"

definition reset_conf :: "attempt list \<Rightarrow> cell \<Rightarrow> string" where
  "reset_conf as rl =
     (let n = early (earlyResets as rl) in if n = Measured rl \<and> n \<ge> mediumMinAttempts then ''medium'' else ''low'')"

definition sni_reset_verdict :: "attempt list \<Rightarrow> cell \<Rightarrow> cell \<Rightarrow> cell option \<Rightarrow> verdict" where
  "sni_reset_verdict as rl decoy absent =
     mk_verdict ''dest_sni_blocking_suspected'' (Key rl) (reset_conf as rl)
       ([dest_ev rl, dest_cite ''the decoy name on the same address was never reset, it timed out: '' decoy]
        @ no_sni_line absent @ reset_lines as rl
        @ [''only the real name draws a reset on this address, the handshakes with another name or none time out instead: the rule keys on the SNI''])"

definition tls_verdict :: "cell option \<Rightarrow> cell \<Rightarrow> cell \<Rightarrow> cell option \<Rightarrow> verdict" where
  "tls_verdict tcp rl decoy absent =
     mk_verdict ''dest_tls_blocking_suspected'' (Key rl) (capped rl (or_zero tcp))
       ([dest_ev rl, dest_cite ''decoy name on the same address fails too: '' decoy, tcp_line tcp]
        @ (if opt_pass absent
           then [''a handshake without SNI passes: '' @ dest_ev (or_zero absent) @ ''; the rule keys on any name, or on the handshake shape'']
           else [])
        @ [''TCP connects but no TLS handshake with a name completes on the address: address-level or handshake-level interference, not the name alone''])"

definition site_tls :: "attempt list \<Rightarrow> dest_ctl \<Rightarrow> cell option \<Rightarrow> cell option \<Rightarrow> cell option \<Rightarrow> cell option \<Rightarrow> verdict list" where
  "site_tls as ctl tcp tls decoy absent =
     (case tls of
        None \<Rightarrow> []
      | Some rl \<Rightarrow>
          if \<not> above_tcp tcp rl then []
          else if connectStage rl then primary_dropped ctl tcp rl ''name''
          else case decoy of
                 None \<Rightarrow> [mk_verdict ''dest_tls_blocking_suspected'' (Key rl) ''low''
                            [dest_ev rl, ''no decoy handshake to compare with'', tcp_line tcp]]
               | Some d \<Rightarrow>
                   if pass d then [sni_verdict as rl d absent]
                   else if only_name_reset rl d absent then [sni_reset_verdict as rl d absent]
                   else if destFailed d then [tls_verdict tcp rl d absent]
                   else [mk_verdict ''dest_tls_blocking_suspected'' (Key rl) ''low''
                           [dest_ev rl, ''no decoy handshake to compare with'', tcp_line tcp]])"

definition site_proto :: "attempt list \<Rightarrow> dest_ctl \<Rightarrow> string \<Rightarrow> cell option \<Rightarrow> cell option \<Rightarrow> verdict list" where
  "site_proto as ctl d tcp proto =
     (case proto of
        None \<Rightarrow> []
      | Some c \<Rightarrow>
          if \<not> above_tcp tcp c then []
          else if connectStage c then primary_dropped ctl tcp c ''handshake''
          else [mk_verdict ''dest_proto_blocking_suspected'' (Key c) (capped c (or_zero tcp))
                  ([dest_ev c, tcp_line tcp]
                   @ (if dominant c = OutcomeUnexpected
                      then [''something other than the service answered the handshake: a block page or a proxy''] else [])
                   @ reset_lines as c
                   @ [''TCP connects but the '' @ protoOf as d @ '' handshake does not complete on the address: the path interferes with the service'' @ poss @ '' own protocol''])])"

definition site_http :: "cell option \<Rightarrow> cell option \<Rightarrow> verdict list" where
  "site_http tls http =
     (case (http, tls) of
        (Some c, Some rl) \<Rightarrow>
          if \<not> destFailed c \<or> \<not> pass rl then []
          else if dominant c = OutcomeHTTPLegalBlock
          then [mk_verdict ''dest_legal_block_suspected'' (Key c)
                  (if Measured c \<ge> mediumMinAttempts \<and> c_ok c = 0 then ''medium'' else ''low'')
                  [dest_ev c, dest_cite ''passing control: TLS handshake '' rl,
                   ''HTTP 451 from the service after a clean handshake: the service refuses the region, the network did not interfere'']]
          else if dominant c = OutcomeCertMismatch
          then [mk_verdict ''dest_tls_interception_suspected'' (Key c) ''low''
                  [dest_ev c, ''the certificate presented for the real name does not verify against the system roots while the handshake itself completes: interception, or a broken chain on the site'']]
          else []
      | _ \<Rightarrow> [])"

definition site_verdicts :: "attempt list \<Rightarrow> cell list \<Rightarrow> dest_ctl \<Rightarrow> string \<Rightarrow> verdict list" where
  "site_verdicts as cs ctl d =
     (let dns = find_dest cs ''dest.dns'' d; tcp = find_dest cs ''dest.tcp'' d; tls = find_dest cs ''dest.tls'' d;
          decoy = find_dest cs ''dest.tls'' (''decoy:'' @ d); absent = find_dest cs ''dest.tls'' (''absent:'' @ d);
          http = find_dest cs ''dest.http'' d; proto = find_dest cs ''dest.proto'' d
      in site_dns ctl dns @ site_tcp ctl dns tcp @ site_tls as ctl tcp tls decoy absent
         @ site_proto as ctl d tcp proto @ site_http tls http)"

definition destVerdicts :: "attempt list \<Rightarrow> cell list \<Rightarrow> verdict list" where
  "destVerdicts as cs =
     (let nx = nxdomain_verdict (find_dest cs ''dest.nxdomain'' ''invalid''); ctl = dest_controls cs
      in if dest_domains cs = [] then nx
         else nx @ anycast_verdict ctl @ resolver_verdicts ctl @ concat (map (site_verdicts as cs ctl) (dest_domains cs)))"

section \<open>The summary of a site\<close>

definition destOrder :: "string list" where
  "destOrder =
     [''dest_dns_poisoning_suspected'', ''dest_tcp_blackhole_suspected'', ''dest_tcp_reset_suspected'',
      ''dest_tcp_blocking_suspected'', ''dest_sni_blocking_suspected'', ''dest_tls_blocking_suspected'',
      ''dest_proto_blocking_suspected'', ''dest_legal_block_suspected'', ''dest_tls_interception_suspected'']"

definition layerOf :: "string \<Rightarrow> string \<Rightarrow> string" where
  "layerOf test variant =
     (if test = ''dest.dns'' then ''dns'' else if test = ''dest.tcp'' then ''tcp''
      else if test = ''dest.http'' then ''http'' else if test = ''dest.proto'' then ''proto''
      else if has_prefix variant ''decoy:'' then ''decoy'' else if has_prefix variant ''absent:'' then ''absent''
      else ''tls'')"

definition layerValue :: "cell \<Rightarrow> string" where
  "layerValue c =
     (if Measured c = 0 then dominant c
      else if c_ok c = Measured c then ''ok''
      else if c_ok c = 0 then dominant c
      else ''mixed:'' @ dominant c)"

type_synonym layers = "(string \<times> string) list"

definition layer :: "layers \<Rightarrow> string \<Rightarrow> string" where
  "layer ls l = lookup_str (map_of ls) l"

text \<open>The loop over the layers: \<open>None\<close> is the early return.\<close>

fun scan_layers :: "layers \<Rightarrow> bool \<Rightarrow> bool \<Rightarrow> (bool \<times> bool) option" where
  "scan_layers [] failed unassessed = Some (failed, unassessed)"
| "scan_layers ((l, v) # ls) failed unassessed =
     (if l = ''decoy'' \<or> l = ''absent'' \<or> v = ''ok'' then scan_layers ls failed unassessed
      else if l = ''dns'' \<and> v = OutcomeDNSRcode then None
      else if unmeasuredMerged v then scan_layers ls failed (unassessed \<or> l = ''dns'' \<or> l = ''http'')
      else scan_layers ls True unassessed)"

definition layers_reached :: "layers \<Rightarrow> bool \<Rightarrow> bool" where
  "layers_reached ls hasTLS =
     (if hasTLS then layer ls ''tls'' = ''ok'' \<or> layer ls ''http'' = ''ok''
      else case map_of ls ''proto'' of Some v \<Rightarrow> v = ''ok'' | None \<Rightarrow> layer ls ''tcp'' = ''ok'')"

definition siteVerdict :: "layers \<Rightarrow> bool \<Rightarrow> string" where
  "siteVerdict ls hasTLS =
     (case scan_layers ls False False of
        None \<Rightarrow> ''nxdomain''
      | Some (failed, unassessed) \<Rightarrow>
          if failed then ''degraded''
          else if unassessed \<or> \<not> layers_reached ls hasTLS then ''inconclusive''
          else ''clear'')"

section \<open>Per-site summaries\<close>

record destination =
  de_domain :: string
  de_category :: string
  de_label :: string
  de_verdict :: string
  de_confidence :: string
  de_layers :: layers
  de_note :: string

text \<open>\<open>strings.Fields\<close> on ASCII text.\<close>

definition fields :: "string \<Rightarrow> string list" where
  "fields s =
     List.filter (\<lambda>w. w \<noteq> []) (split_on (CHR '' '')
       (map (\<lambda>c. if c \<in> {CHR 0x09, CHR 0x0A, CHR 0x0B, CHR 0x0C, CHR 0x0D} then CHR '' '' else c) s))"

definition rank :: "string \<Rightarrow> nat" where
  "rank kind = length (takeWhile (\<lambda>k. k \<noteq> kind) destOrder)"

definition site_attempt :: "string \<Rightarrow> attempt \<Rightarrow> bool" where
  "site_attempt d a \<longleftrightarrow> IsDestTest (at_test a) \<and> det a ''domain'' = d"

definition site_order :: "attempt list \<Rightarrow> string \<Rightarrow> int" where
  "site_order as d =
     (case List.find (site_attempt d) as of
        None \<Rightarrow> 0
      | Some a \<Rightarrow> (case atoi (det a ''order'') of Some n \<Rightarrow> n | None \<Rightarrow> 1073741824))"

text \<open>The sites in the order of the catalog, then by name: a stable sort by place of the sorted names.\<close>

definition site_names :: "attempt list \<Rightarrow> string list" where
  "site_names as =
     sort_key (site_order as)
       (sort (remdups (map (\<lambda>a. det a ''domain'') (List.filter (\<lambda>a. IsDestTest (at_test a) \<and> det a ''domain'' \<noteq> '''') as))))"

definition site_hasTLS :: "attempt list \<Rightarrow> string \<Rightarrow> bool" where
  "site_hasTLS as d = list_ex (\<lambda>a. site_attempt d a \<and> at_test a = ''dest.tls'' \<and> at_variant a = d) as"

definition site_layers :: "attempt list \<Rightarrow> cell list \<Rightarrow> string \<Rightarrow> layers" where
  "site_layers as cs d =
     (let ls = fold (\<lambda>c ls. if site_cell c \<and> destDomain (c_variant c) = d
                            then AList.update (layerOf (c_test c) (c_variant c)) (layerValue c) ls else ls) cs []
      in fold (\<lambda>a ls. if site_attempt d a \<and> det a ''transient'' = ''true''
                         \<and> layer ls (layerOf (at_test a) (at_variant a)) = ''''
                      then AList.update (layerOf (at_test a) (at_variant a)) OutcomeSkipped ls else ls) as ls)"

definition names_site :: "string \<Rightarrow> verdict \<Rightarrow> bool" where
  "names_site d v \<longleftrightarrow> has_prefix (v_kind v) ''dest_''
     \<and> (case fields (v_subject v) of _ # _ # site # _ \<Rightarrow> destDomain site = d | _ \<Rightarrow> False)"

definition site_best :: "verdict list \<Rightarrow> string \<Rightarrow> string \<times> string" where
  "site_best vs d =
     fold (\<lambda>v (kind, conf). if kind = '''' \<or> rank (v_kind v) < rank kind then (v_kind v, v_confidence v) else (kind, conf))
       (List.filter (names_site d) vs) ('''', '''')"

definition site_summary :: "attempt list \<Rightarrow> cell list \<Rightarrow> verdict list \<Rightarrow> string \<Rightarrow> destination" where
  "site_summary as cs vs d =
     (let (kind, conf) = site_best vs d;
          ls = site_layers as cs d;
          fst_a = (case List.find (site_attempt d) as of Some a \<Rightarrow> a | None \<Rightarrow> zero_attempt)
      in \<lparr>de_domain = d, de_category = det fst_a ''category'', de_label = det fst_a ''label'',
          de_verdict = (if kind = '''' then siteVerdict ls (site_hasTLS as d) else kind),
          de_confidence = conf, de_layers = ls, de_note = ''''\<rparr>)"

definition Destinations :: "attempt list \<Rightarrow> cell list \<Rightarrow> verdict list \<Rightarrow> destination list" where
  "Destinations as cs vs = map (site_summary as cs vs) (site_names as)"

section \<open>What one-sided evidence may claim\<close>

text \<open>A verdict above low either quotes a cell of the scan that passed, or is one of the two kinds
  that need no other cell: an answer for a name that cannot exist, and a name whose every measured
  handshake was reset sooner than a round trip.\<close>

definition dest_sound :: "attempt list \<Rightarrow> cell list \<Rightarrow> verdict \<Rightarrow> bool" where
  "dest_sound as cs v \<longleftrightarrow>
     v_confidence v = ''low''
     \<or> (v_confidence v = ''medium''
        \<and> (list_ex (\<lambda>p. pass p \<and> list_ex (\<lambda>l. has_suffix l (dest_ev p)) (v_evidence v)) cs
           \<or> list_ex (\<lambda>c. v_subject v = Key c \<and> destFailed c \<and> Measured c \<ge> 2
                \<and> (if v_kind v = ''nxdomain_hijack_suspected'' then c_test c = ''dest.nxdomain'' \<and> dominant c = OutcomeDNSMismatch
                   else v_kind v = ''dest_sni_blocking_suspected'' \<and> early (earlyResets as c) = Measured c)) cs))"

lemma capped_cases: "capped f p = ''low'' \<or> (capped f p = ''medium'' \<and> pass p)"
  by (auto simp: capped_def confidence_def Let_def pass_def)

lemma has_suffix_dest_cite [simp]: "has_suffix (dest_cite pre c) (dest_ev c)" "has_suffix (dest_ev c) (dest_ev c)"
  using has_suffix_append [of "[]" "dest_ev c"] by (simp_all add: dest_cite_def)



lemma sound_low: "v_confidence v = ''low'' \<Longrightarrow> dest_sound as cs v"
  by (simp add: dest_sound_def)

lemma sound_cited:
  assumes "p \<in> set cs" "c = ''low'' \<or> (c = ''medium'' \<and> pass p)" "l \<in> set e" "has_suffix l (dest_ev p)"
  shows "dest_sound as cs (mk_verdict k s c e)"
  using assms by (auto simp: dest_sound_def list_ex_iff)

lemma find_dest_mem: "find_dest cs t v = Some c \<Longrightarrow> c \<in> set cs \<and> c_test c = t \<and> c_variant c = v"
  by (auto simp: find_dest_def find_Some_iff)

lemma pick_dns_control_mem: "pick_dns_control cs = Some k \<Longrightarrow> k \<in> set cs \<and> pass k"
proof -
  have "fold (\<lambda>c ctl. if c_test c = ''dest.dns'' \<and> pass c
          \<and> (case ctl of None \<Rightarrow> True | Some k \<Rightarrow> c_role c = RoleBaseline \<and> c_role k \<noteq> RoleBaseline)
       then Some c else ctl) ds x = Some k \<Longrightarrow> x = Some k \<or> (k \<in> set ds \<and> pass k)" for ds x
    by (induction ds arbitrary: x) (auto split: if_splits)
  then show "pick_dns_control cs = Some k \<Longrightarrow> ?thesis" unfolding pick_dns_control_def by fastforce
qed

lemma nx_sound: "list_all (dest_sound as cs) (nxdomain_verdict (find_dest cs ''dest.nxdomain'' ''invalid''))"
proof (cases "find_dest cs ''dest.nxdomain'' ''invalid''")
  case (Some c)
  then show ?thesis
    using find_dest_mem [OF Some] by (auto simp: nxdomain_verdict_def dest_sound_def list_ex_iff)
qed (simp add: nxdomain_verdict_def)

lemma anycast_sound: "list_all (dest_sound as cs) (anycast_verdict ctl)"
  by (simp add: anycast_verdict_def sound_low split: option.splits)

lemma transportOK_cell:
  assumes "transportOK (dest_controls cs)"
  shows "or_zero (d_anycast (dest_controls cs)) \<in> set cs" "pass (or_zero (d_anycast (dest_controls cs)))"
proof -
  obtain c where c: "find_dest cs ''dest.tcp'' ''anycast'' = Some c" "pass c"
    using assms by (auto simp: transportOK_def dest_controls_def opt_pass_def split: option.splits)
  then show "or_zero (d_anycast (dest_controls cs)) \<in> set cs" "pass (or_zero (d_anycast (dest_controls cs)))"
    using find_dest_mem [OF c(1)] by (simp_all add: dest_controls_def or_zero_def)
qed

lemma resolver_sound: "list_all (dest_sound as cs) (resolver_verdicts (dest_controls cs))"
proof -
  let ?ctl = "dest_controls cs" and ?a = "or_zero (d_anycast (dest_controls cs))"
  have "dest_sound as cs (mk_verdict k s (if transportOK ?ctl \<and> b then ''medium'' else ''low'')
      [x, if transportOK ?ctl then dest_cite pre ?a else y])" for k s b x pre y
  proof (cases "transportOK ?ctl")
    case True
    note t = transportOK_cell [OF True]
    show ?thesis by (rule sound_cited [OF t(1), of _ "dest_cite pre ?a"]) (simp_all add: True t(2))
  qed (simp add: sound_low)
  then show ?thesis by (simp add: resolver_verdicts_def sound_low)
qed

lemma site_dns_sound: "list_all (dest_sound as cs) (site_dns (dest_controls cs) dns)"
proof (cases "d_dns_control (dest_controls cs)")
  case None
  then show ?thesis by (simp add: site_dns_def sound_low split: option.splits)
next
  case (Some k)
  then have k: "k \<in> set cs" using pick_dns_control_mem by (simp add: dest_controls_def)
  have "dest_sound as cs (mk_verdict kd s (capped c k) [x, dest_cite pre k, y])" for kd s c x pre y
    by (rule sound_cited [OF k capped_cases, of "dest_cite pre k"]) simp_all
  then show ?thesis by (simp add: site_dns_def Some sound_low split: option.splits)
qed

lemma site_tcp_sound: "list_all (dest_sound as cs) (site_tcp (dest_controls cs) dns tcp)"
proof (cases "transportOK (dest_controls cs)")
  case True
  let ?a = "or_zero (d_anycast (dest_controls cs))"
  have "dest_sound as cs (mk_verdict k s (capped c ?a) (x # dest_cite pre ?a # e))" for k s c x pre e
    by (rule sound_cited [OF transportOK_cell(1) [OF True] capped_cases, of "dest_cite pre ?a"]) simp_all
  then show ?thesis by (simp add: site_tcp_def Let_def split: option.splits)
qed (simp add: site_tcp_def split: option.splits)

lemma primary_sound: "list_all (dest_sound as cs) (primary_dropped ctl tcp c what)"
  by (simp add: primary_dropped_def sound_low)

lemma tcp_control_sound:
  assumes "tcp = find_dest cs ''dest.tcp'' d" "above_tcp tcp c" "tcp_line tcp \<in> set e"
  shows "dest_sound as cs (mk_verdict k s (capped c (or_zero tcp)) e)"
proof (cases "opt_pass tcp")
  case True
  then obtain p where p: "tcp = Some p" "pass p" by (auto simp: opt_pass_def split: option.splits)
  then have "p \<in> set cs" using assms(1) find_dest_mem by metis
  moreover have "has_suffix (tcp_line tcp) (dest_ev p)" using p by (simp add: tcp_line_def opt_pass_def or_zero_def)
  moreover have "or_zero tcp = p" using p(1) by (simp add: or_zero_def)
  ultimately show ?thesis using sound_cited [OF _ capped_cases assms(3)] by simp
next
  case False
  then have "\<not> pass (or_zero tcp)"
    by (cases tcp) (simp_all add: opt_pass_def or_zero_def pass_def Measured_def zero_cell_def)
  then show ?thesis using capped_cases [of c "or_zero tcp"] by (intro sound_low) auto
qed

lemma sni_reset_sound:
  assumes "rl \<in> set cs" "destFailed rl"
  shows "dest_sound as cs (sni_reset_verdict as rl d absent)"
  using assms by (auto simp: sni_reset_verdict_def reset_conf_def Let_def dest_sound_def list_ex_iff)

lemma site_tls_sound:
  assumes "tcp = find_dest cs ''dest.tcp'' d" "tls = find_dest cs ''dest.tls'' d"
    "decoy = find_dest cs ''dest.tls'' (''decoy:'' @ d)"
  shows "list_all (dest_sound as cs) (site_tls as ctl tcp tls decoy absent)"
proof (cases tls)
  case (Some rl)
  then have rl: "rl \<in> set cs" using assms(2) find_dest_mem by metis
  have s: "dest_sound as cs (sni_verdict as rl p absent)" if "decoy = Some p" for p
    using find_dest_mem [of cs "''dest.tls''" "''decoy:'' @ d" p] that assms(3) capped_cases [of rl p]
    unfolding sni_verdict_def
    by (intro sound_cited [of p _ _ "dest_cite ''passing control on the same address: '' p"]) auto
  have t: "dest_sound as cs (tls_verdict tcp rl p absent)" if "above_tcp tcp rl" for p
    unfolding tls_verdict_def by (rule tcp_control_sound [OF assms(1) that]) simp
  have "destFailed rl" if "above_tcp tcp rl" using that by (simp add: above_tcp_def)
  then show ?thesis
    using rl by (auto simp: site_tls_def Some primary_sound s t sound_low sni_reset_sound split: option.splits)
qed (simp add: site_tls_def)

lemma site_proto_sound:
  assumes "tcp = find_dest cs ''dest.tcp'' d"
  shows "list_all (dest_sound as cs) (site_proto as ctl d tcp proto)"
proof (cases proto)
  case (Some c)
  then show ?thesis by (simp add: site_proto_def primary_sound tcp_control_sound [OF assms])
qed (simp add: site_proto_def)

lemma site_http_sound: "list_all (dest_sound as cs) (site_http (find_dest cs t d) http)"
proof (cases "find_dest cs t d")
  case (Some rl)
  have "dest_sound as cs (mk_verdict k s (if b then ''medium'' else ''low'') [x, dest_cite pre rl, y])"
    if "pass rl" for k s b x pre y
    using find_dest_mem [OF Some] that by (intro sound_cited [of rl _ _ "dest_cite pre rl"]) auto
  then show ?thesis by (simp add: site_http_def Some sound_low split: option.splits)
qed (simp add: site_http_def split: option.splits)

lemma dest_all_sound: "list_all (dest_sound as cs) (destVerdicts as cs)"
proof -
  have "list_all (dest_sound as cs) (site_verdicts as cs (dest_controls cs) d)" for d
    by (simp add: site_verdicts_def Let_def site_dns_sound site_tcp_sound site_tls_sound site_proto_sound site_http_sound)
  then show ?thesis
    by (simp add: destVerdicts_def Let_def nx_sound anycast_sound resolver_sound list_all_concat list_all_True)
qed

text \<open>C29. One-sided evidence stays modest: every verdict on a real destination is of low or medium
  confidence, and a medium one quotes a control of the scan that passed, unless it reports an
  invented answer for a reserved name seen at least twice or a site whose every measured handshake,
  at least two, was reset sooner than a round trip to its address.\<close>

theorem dest_verdicts_sound: "list_all (dest_sound as cs) (destVerdicts as cs)"
  by (rule dest_all_sound)

section \<open>The site verdict does not depend on the order of the layers\<close>

definition layer_denied :: "string \<times> string \<Rightarrow> bool" where
  "layer_denied p \<longleftrightarrow> fst p = ''dns'' \<and> snd p = OutcomeDNSRcode"

definition layer_counts :: "string \<times> string \<Rightarrow> bool" where
  "layer_counts p \<longleftrightarrow> fst p \<noteq> ''decoy'' \<and> fst p \<noteq> ''absent'' \<and> snd p \<noteq> ''ok''"

lemma scan_layers_spec:
  "scan_layers ls f u =
     (if \<exists>p \<in> set ls. layer_denied p then None
      else Some (f \<or> (\<exists>p \<in> set ls. layer_counts p \<and> \<not> unmeasuredMerged (snd p)),
                 u \<or> (\<exists>p \<in> set ls. layer_counts p \<and> unmeasuredMerged (snd p) \<and> (fst p = ''dns'' \<or> fst p = ''http''))))"
proof (induction ls arbitrary: f u)
  case (Cons p ls)
  have "\<not> unmeasuredMerged ''ok''" "OutcomeDNSRcode \<noteq> ''ok''" by (simp_all add: unmeasuredMerged_def outcomes)
  then show ?case
    by (cases p) (auto simp: Cons.IH layer_denied_def layer_counts_def)
qed simp

text \<open>The summary of a site is well defined although the code walks a Go map and returns from inside
  the loop: a denied name is reported first, then a layer that failed on its own account, and the
  site is clear exactly when neither occurs, the DNS and HTTP layers that ran were assessed and the
  deepest layer it runs passed. Control handshakes never count.\<close>

theorem site_verdict_spec:
  "siteVerdict ls hasTLS =
     (if list_ex layer_denied ls then ''nxdomain''
      else if list_ex (\<lambda>p. layer_counts p \<and> \<not> unmeasuredMerged (snd p)) ls then ''degraded''
      else if layers_reached ls hasTLS \<and> \<not> list_ex (\<lambda>p. layer_counts p \<and> (fst p = ''dns'' \<or> fst p = ''http'')) ls
      then ''clear''
      else ''inconclusive'')"
  by (auto simp: siteVerdict_def scan_layers_spec list_ex_iff)

end
