(* ===== verification/Classify.thy ===== *)
theory Classify
  imports Rules_Props Transient_Props Dest_Classify
begin

text \<open>
  The classifier as a whole (\<open>internal/classify/classify.go\<close>): the outages are flagged, the cells built,
  the rules run and the verdicts sorted and summarised. The code flags the attempts in place, so
  \<open>classify\<close> returns them beside the result.
\<close>

section \<open>The result of a scan\<close>

record result =
  r_cells :: "cell list"
  r_verdicts :: "verdict list"
  r_destinations :: "destination list"
  r_notes :: "string list"
  r_summary :: string

text \<open>A stable sort by kind and then by subject.\<close>

definition sort_verdicts :: "verdict list \<Rightarrow> verdict list" where
  "sort_verdicts vs = sort_key v_kind (sort_key v_subject vs)"

definition unreachable_verdict :: verdict where
  "unreachable_verdict = mk_verdict ''probe_unreachable'' ''control plane'' ''high''
     [''control API on the pinned TLS port did not answer; no protocol-level conclusion is possible'']"

definition classify :: "attempt list \<Rightarrow> bool \<Rightarrow> bool \<Rightarrow> attempt list \<times> result" where
  "classify as probeReachable standalone =
     (case flag_all as of
        (as, notes') \<Rightarrow>
          let cells = Aggregate as
          in if \<not> probeReachable \<and> \<not> standalone
             then (as, \<lparr>r_cells = cells, r_verdicts = [unreachable_verdict], r_destinations = [], r_notes = notes',
                        r_summary = ''probe_unreachable''\<rparr>)
             else let vs = sort_verdicts (run as cells @ destVerdicts as cells)
                  in (as, \<lparr>r_cells = cells, r_verdicts = vs, r_destinations = Destinations as cells vs, r_notes = notes',
                           r_summary = summarize vs\<rparr>))"

definition Classify :: "attempt list \<Rightarrow> bool \<Rightarrow> attempt list \<times> result" where
  "Classify as probeReachable = classify as probeReachable False"

definition ClassifyStandalone :: "attempt list \<Rightarrow> attempt list \<times> result" where
  "ClassifyStandalone as = classify as True True"

section \<open>Properties\<close>

text \<open>Classifying a stored report again changes nothing: the attempts a first classification
  flagged give the same windows, notes, cells, verdicts, destinations and summary, for every scan
  whose test and transport names hold no separator of the aggregation key.\<close>

theorem classify_idempotent:
  assumes "\<forall>a \<in> set as. plain_names a"
  shows "classify (fst (classify as reachable standalone)) reachable standalone = classify as reachable standalone"
proof -
  obtain as' ns where f: "flag_all as = (as', ns)" by (cases "flag_all as")
  then have "fst (classify as reachable standalone) = as'" by (simp add: classify_def Let_def)
  moreover have "flag_all as' = flag_all as" using flag_all_idem [OF assms] f by simp
  ultimately show ?thesis by (simp add: classify_def)
qed

theorem classify_idempotent_witness:
  "classify (fst (classify demo_round True False)) True False = classify demo_round True False"
  by (rule classify_idempotent) (simp add: demo_round_def plain_names_def zero_attempt_def)

lemma set_sort_verdicts [simp]: "set (sort_verdicts vs) = set vs"
  by (simp add: sort_verdicts_def)

lemma dest_not_high: "v \<in> set (destVerdicts as cs) \<Longrightarrow> v_confidence v \<noteq> ''high''"
  using dest_all_sound [of as cs] by (auto simp: list_all_iff dest_sound_def)

text \<open>C10. What a scan may conclude as a whole: without its control plane a scan makes no protocol claim;
  otherwise the findings come out by kind, and by subject within a kind, and every finding of high
  confidence, whichever rule made it, rests on a cell measured at least three times that did not
  pass and on a control that did, both quoted in its evidence.\<close>

theorem classify_verdicts:
  "let r = snd (Classify as reachable)
   in if reachable
      then sorted (map v_kind (r_verdicts r))
           \<and> (\<forall>k. sorted (map v_subject (List.filter (\<lambda>v. v_kind v = k) (r_verdicts r))))
           \<and> all_justified (r_cells r) (r_verdicts r)
      else r_verdicts r = [unreachable_verdict]"
proof -
  obtain as' ns where f: "flag_all as = (as', ns)" by (cases "flag_all as")
  let ?vs = "run as' (Aggregate as') @ destVerdicts as' (Aggregate as')"
  have "all_justified (Aggregate as') (sort_verdicts ?vs)"
    using all_justified_run [of "Aggregate as'" as'] dest_not_high [of _ as' "Aggregate as'"]
    by (auto simp: all_justified_def)
  moreover have "sorted (map v_kind (sort_verdicts vs))" for vs by (simp add: sort_verdicts_def)
  moreover have "sorted (map v_subject (List.filter (\<lambda>v. v_kind v = k) (sort_verdicts vs)))" for k vs
    using sorted_filter [of v_subject "sort_key v_subject vs"] by (simp add: sort_verdicts_def sort_key_stable)
  ultimately show ?thesis by (simp add: Classify_def classify_def f Let_def)
qed

end
