(* ===== verification/Proxy_Codecs.thy ===== *)
theory Proxy_Codecs
  imports Token Codec "HOL-Library.Monad_Syntax"
begin

text \<open>
  The small wire formats of the proxy tests: SOCKS5 greeting, sub-negotiation and CONNECT
  (\<open>internal/socks5/socks5.go\<close>), the VLESS header (\<open>internal/vless/vless.go\<close>) and the STUN binding exchange
  (\<open>internal/stun/stun.go\<close>). A parser returns \<open>None\<close> where Go would panic, \<open>Inl\<close> an error. What
  \<open>crypto/rand\<close> supplies is an argument. The lemmas show that no parser reads out of range, that
  each header is read back from the front of a stream with its exact length (an instance of the
  \<open>codec\<close> interface), and that a client recovers its own address from a binding response.
\<close>

unbundle bit_operations_syntax

section \<open>SOCKS5\<close>

abbreviation socks_Version :: byte where "socks_Version \<equiv> 5"
abbreviation MethodNoAuth :: byte where "MethodNoAuth \<equiv> 0"
abbreviation MethodUser :: byte where "MethodUser \<equiv> 2"
abbreviation MethodNone :: byte where "MethodNone \<equiv> 255"
abbreviation CmdConnect :: byte where "CmdConnect \<equiv> 1"
abbreviation socks_ATypIPv4 :: byte where "socks_ATypIPv4 \<equiv> 1"
abbreviation socks_ATypDomain :: byte where "socks_ATypDomain \<equiv> 3"
abbreviation socks_ATypIPv6 :: byte where "socks_ATypIPv6 \<equiv> 4"
abbreviation RepSuccess :: byte where "RepSuccess \<equiv> 0"

datatype socks_error = ErrNotSOCKS

definition IsGreeting :: "bytes \<Rightarrow> bool" where
  "IsGreeting b \<longleftrightarrow> length b \<ge> 3 \<and> b ! 0 = socks_Version \<and> b ! 1 \<ge> 1 \<and> b ! 1 \<le> 4 \<and> length b \<ge> 2 + unat (b ! 1)"

definition Greeting :: "bytes \<Rightarrow> bytes" where
  "Greeting methods = [socks_Version, word_of_nat (length methods)] @ methods"

definition GreetingMethods :: "bytes \<Rightarrow> bytes option" where
  "GreetingMethods b = do { n \<leftarrow> ix b 1; slc b 2 (2 + unat n) }"

definition MethodReply :: "byte \<Rightarrow> bytes" where
  "MethodReply m = [socks_Version, m]"

definition UserPass :: "string \<Rightarrow> string \<Rightarrow> bytes" where
  "UserPass user pass =
     [1, word_of_nat (length user)] @ bytes_of user @ [word_of_nat (length pass)] @ bytes_of pass"

definition ParseUserPass :: "bytes \<Rightarrow> (socks_error + string \<times> string) option" where
  "ParseUserPass b =
     (if length b < 3 \<or> b ! 0 \<noteq> 1 then Some (Inl ErrNotSOCKS)
      else do {
        ul \<leftarrow> ix b 1;
        let ul = unat ul;
        if length b < 3 + ul then Some (Inl ErrNotSOCKS)
        else do {
          user \<leftarrow> slc b 2 (2 + ul);
          pl \<leftarrow> ix b (2 + ul);
          let pl = unat pl;
          if length b < 3 + ul + pl then Some (Inl ErrNotSOCKS)
          else do {
            pass \<leftarrow> slc b (3 + ul) (3 + ul + pl);
            Some (Inr (str_of user, str_of pass))
          }
        }
      })"

definition UserPassReply :: "byte \<Rightarrow> bytes" where
  "UserPassReply status = [1, status]"

definition Connect :: "string \<Rightarrow> 16 word \<Rightarrow> bytes" where
  "Connect host port =
     [socks_Version, CmdConnect, 0, socks_ATypDomain, word_of_nat (length host)] @ bytes_of host @ be16 port"

record socks_request =
  sr_cmd :: byte
  sr_host :: string
  sr_port :: "16 word"
  sr_len :: nat

definition ParseRequest :: "bytes \<Rightarrow> (socks_error + socks_request) option" where
  "ParseRequest b =
     (if length b < 7 \<or> b ! 0 \<noteq> socks_Version \<or> b ! 2 \<noteq> 0 then Some (Inl ErrNotSOCKS)
      else do {
        cmd \<leftarrow> ix b 1;
        atyp \<leftarrow> ix b 3;
        dl \<leftarrow> ix b 4;
        if atyp \<noteq> socks_ATypIPv4 \<and> atyp \<noteq> socks_ATypIPv6 \<and> atyp \<noteq> socks_ATypDomain then Some (Inl ErrNotSOCKS)
        else do {
          let n = (if atyp = socks_ATypIPv4 then 4 else if atyp = socks_ATypIPv6 then 16 else 1 + unat dl);
          if length b < 4 + n + 2 then Some (Inl ErrNotSOCKS)
          else do {
            host \<leftarrow> (if atyp = socks_ATypDomain then map_option str_of (slc b 5 (5 + unat dl)) else Some ''ip'');
            port \<leftarrow> u16 b (4 + n);
            Some (Inr \<lparr>sr_cmd = cmd, sr_host = host, sr_port = port, sr_len = 4 + n + 2\<rparr>)
          }
        }
      })"

definition socks_Reply :: "byte \<Rightarrow> bytes" where
  "socks_Reply rep = [socks_Version, rep, 0, socks_ATypIPv4, 0, 0, 0, 0, 0, 0]"

definition IsReply :: "bytes \<Rightarrow> bool" where
  "IsReply b \<longleftrightarrow> length b \<ge> 10 \<and> b ! 0 = socks_Version \<and> b ! 2 = 0 \<and> b ! 3 = socks_ATypIPv4"

section \<open>VLESS\<close>

abbreviation vless_Version :: byte where "vless_Version \<equiv> 0"
abbreviation CmdTCP :: byte where "CmdTCP \<equiv> 1"
abbreviation CmdMux :: byte where "CmdMux \<equiv> 3"
abbreviation vless_ATypIPv4 :: byte where "vless_ATypIPv4 \<equiv> 1"
abbreviation vless_ATypDomain :: byte where "vless_ATypDomain \<equiv> 2"
abbreviation vless_ATypIPv6 :: byte where "vless_ATypIPv6 \<equiv> 3"

datatype vless_error = ErrNotVLESS

definition vless_Request :: "bytes \<Rightarrow> string \<Rightarrow> 16 word \<Rightarrow> bytes" where
  "vless_Request uuid host port =
     [vless_Version] @ uuid @ [0] @ [CmdTCP] @ be16 port @ [vless_ATypDomain, word_of_nat (length host)] @ bytes_of host"

record vless_parsed =
  vp_cmd :: byte
  vp_host :: string
  vp_port :: "16 word"
  vp_len :: nat

definition vless_address :: "bytes \<Rightarrow> byte \<Rightarrow> nat \<Rightarrow> (vless_error + string \<times> nat) option" where
  "vless_address b atyp i =
     (if atyp = vless_ATypIPv4 then Some (if length b < i + 4 then Inl ErrNotVLESS else Inr (''ip'', i + 4))
      else if atyp = vless_ATypIPv6 then Some (if length b < i + 16 then Inl ErrNotVLESS else Inr (''ip'', i + 16))
      else if atyp = vless_ATypDomain
      then (if length b < i + 1 then Some (Inl ErrNotVLESS)
            else do {
              dl \<leftarrow> ix b i;
              if length b < i + 1 + unat dl then Some (Inl ErrNotVLESS)
              else do {
                host \<leftarrow> slc b (i + 1) (i + 1 + unat dl);
                Some (Inr (str_of host, i + 1 + unat dl))
              }
            })
      else Some (Inl ErrNotVLESS))"

definition vless_Parse :: "bytes \<Rightarrow> (vless_error + vless_parsed) option" where
  "vless_Parse b =
     (if length b < 22 \<or> b ! 0 \<noteq> vless_Version then Some (Inl ErrNotVLESS)
      else do {
        addons \<leftarrow> ix b 17;
        let i = 18 + unat addons;
        if length b < i + 4 then Some (Inl ErrNotVLESS)
        else do {
          cmd \<leftarrow> ix b i;
          if cmd < CmdTCP \<or> cmd > CmdMux then Some (Inl ErrNotVLESS)
          else do {
            port \<leftarrow> u16 b (i + 1);
            atyp \<leftarrow> ix b (i + 3);
            a \<leftarrow> vless_address b atyp (i + 4);
            Some (case a of
                    Inl e \<Rightarrow> Inl e
                  | Inr (host, j) \<Rightarrow> Inr \<lparr>vp_cmd = cmd, vp_host = host, vp_port = port, vp_len = j\<rparr>)
          }
        }
      })"

definition vless_IsRequest :: "bytes \<Rightarrow> bool" where
  "vless_IsRequest b = (case vless_Parse b of Some (Inr _) \<Rightarrow> True | _ \<Rightarrow> False)"

definition vless_Response :: bytes where
  "vless_Response = [vless_Version, 0]"

section \<open>STUN\<close>

abbreviation magicCookie :: "32 word" where "magicCookie \<equiv> 0x2112A442"
abbreviation typeBindingReq :: "16 word" where "typeBindingReq \<equiv> 0x0001"
abbreviation typeBindingOK :: "16 word" where "typeBindingOK \<equiv> 0x0101"
abbreviation attrXORMapped :: "16 word" where "attrXORMapped \<equiv> 0x0020"
abbreviation stun_HeaderLen :: nat where "stun_HeaderLen \<equiv> 20"

datatype stun_error = StunNotSuccess | StunTransaction | StunNoAddress

definition BindingRequest :: "bytes \<Rightarrow> bytes \<times> bytes" where
  "BindingRequest tx = (be16 typeBindingReq @ be16 0 @ be32 magicCookie @ tx, tx)"

definition IsBindingRequest :: "bytes \<Rightarrow> bool" where
  "IsBindingRequest b \<longleftrightarrow> length b \<ge> stun_HeaderLen \<and> u16 b 0 = Some typeBindingReq
     \<and> u32 b 4 = Some magicCookie \<and> be_nat (take 2 (drop 2 b)) + stun_HeaderLen = length b"

definition TransactionID :: "bytes \<Rightarrow> bytes" where
  "TransactionID b = (if length b \<ge> stun_HeaderLen then take 12 (drop 8 b) else replicate 12 0)"

text \<open>\<open>As16\<close>: an IPv4 address is mapped, a zone is dropped, the zero address is all zero bytes.\<close>

definition As16 :: "addr \<Rightarrow> bytes" where
  "As16 a = (case a of AddrZero \<Rightarrow> replicate 16 0 | Addr4 w \<Rightarrow> replicate 10 0 @ [255, 255] @ be32 w
                     | Addr6 w _ \<Rightarrow> be_bytes 16 (unat w))"

definition mapped_value :: "bytes \<Rightarrow> addr \<Rightarrow> 16 word \<Rightarrow> bytes" where
  "mapped_value tx peer port =
     (case Unmap peer of
        Addr4 w \<Rightarrow> [0, 1] @ be16 (port XOR ucast (drop_bit 16 magicCookie)) @ be32 (w XOR magicCookie)
      | ip \<Rightarrow> [0, 2] @ be16 (port XOR ucast (drop_bit 16 magicCookie)) @ xor_bytes (As16 ip) (be32 magicCookie @ tx))"

definition BindingSuccess :: "bytes \<Rightarrow> addr \<Rightarrow> 16 word \<Rightarrow> bytes" where
  "BindingSuccess tx peer port =
     (let val = mapped_value tx peer port;
          attr = be16 attrXORMapped @ be16 (word_of_nat (length val)) @ val
      in be16 typeBindingOK @ be16 (word_of_nat (length attr)) @ be32 magicCookie @ tx @ attr)"

text \<open>One attribute: the address it carries, if it is one the parser understands.\<close>

definition attr_address :: "16 word \<Rightarrow> bytes \<Rightarrow> bytes \<Rightarrow> (addr \<times> 16 word) option" where
  "attr_address t v tx =
     (if t = attrXORMapped \<and> length v \<ge> 8
      then let port = word_of_nat (be_nat (take 2 (drop 2 v))) XOR ucast (drop_bit 16 magicCookie)
           in if v ! 1 = 1 then Some (Addr4 (word_of_nat (be_nat (take 4 (drop 4 v))) XOR magicCookie), port)
              else if v ! 1 = 2 \<and> length v \<ge> 20
              then Some (Addr6 (word_of_nat (be_nat (xor_bytes (take 16 (drop 4 v)) (be32 magicCookie @ tx)))) '''', port)
              else None
      else None)"

function stun_attrs :: "bytes \<Rightarrow> bytes \<Rightarrow> (addr \<times> 16 word) option" where
  "stun_attrs rest tx =
     (if length rest < 4 then None
      else let t = word_of_nat (be_nat (take 2 rest)); l = be_nat (take 2 (drop 2 rest))
           in if length rest < 4 + l then None
              else case attr_address t (take l (drop 4 rest)) tx of
                     Some r \<Rightarrow> Some r
                   | None \<Rightarrow>
                       let adv = 4 + l + (4 - l mod 4) mod 4
                       in if adv > length rest then None else stun_attrs (drop adv rest) tx)"
  by pat_completeness auto
termination
  by (relation "measure (\<lambda>(rest, _). length rest)") auto

declare stun_attrs.simps [simp del]

definition ParseBindingSuccess :: "bytes \<Rightarrow> bytes \<Rightarrow> (stun_error + addr \<times> 16 word) option" where
  "ParseBindingSuccess b tx =
     (if length b < stun_HeaderLen then Some (Inl StunNotSuccess)
      else do {
        t \<leftarrow> u16 b 0;
        cookie \<leftarrow> u32 b 4;
        if t \<noteq> typeBindingOK \<or> cookie \<noteq> magicCookie then Some (Inl StunNotSuccess)
        else if TransactionID b \<noteq> tx then Some (Inl StunTransaction)
        else do {
          rest \<leftarrow> from_ix b stun_HeaderLen;
          Some (case stun_attrs rest tx of Some r \<Rightarrow> Inr r | None \<Rightarrow> Inl StunNoAddress)
        }
      })"

section \<open>Properties\<close>



text \<open>The parsers of the proxy formats never read outside their input, whatever bytes arrive.\<close>

theorem proxy_parsers_never_panic:
  "ParseUserPass b \<noteq> None \<and> ParseRequest b \<noteq> None \<and> vless_Parse b \<noteq> None \<and> ParseBindingSuccess b tx \<noteq> None
   \<and> (if IsGreeting b then GreetingMethods b \<noteq> None else True)"
proof -
  have "vless_address c t i \<noteq> None" for c t i
    by (auto simp: vless_address_def go_defs Let_def)
  then have "vless_address c t i \<bind> (\<lambda>a. Some (f a)) \<noteq> None" for c t i and f :: "_ \<Rightarrow> vless_error + vless_parsed"
    by (metis bind.bind_lunit not_None_eq)
  then have "vless_Parse b \<noteq> None"
    by (simp add: vless_Parse_def go_defs Let_def)
  then show ?thesis
    by (auto simp: ParseUserPass_def ParseRequest_def ParseBindingSuccess_def IsGreeting_def GreetingMethods_def go_defs Let_def)
qed

lemma unat_len8: "length s < 256 \<Longrightarrow> unat (word_of_nat (length s) :: byte) = length s"
  by (rule unat_word_of_nat_8)

text \<open>The CONNECT request and the VLESS header as self-delimiting records.\<close>

definition socks_dec :: "bytes \<Rightarrow> ((string \<times> 16 word) \<times> nat) option" where
  "socks_dec b =
     (case ParseRequest b of
        Some (Inr r) \<Rightarrow> if sr_cmd r = CmdConnect then Some ((sr_host r, sr_port r), sr_len r) else None
      | _ \<Rightarrow> None)"

definition vless_dec :: "bytes \<Rightarrow> ((string \<times> 16 word) \<times> nat) option" where
  "vless_dec b =
     (case vless_Parse b of
        Some (Inr r) \<Rightarrow> if vp_cmd r = CmdTCP then Some ((vp_host r, vp_port r), vp_len r) else None
      | _ \<Rightarrow> None)"

lemma ParseRequest_Connect:
  assumes "length host < 256"
  shows "ParseRequest (Connect host port @ rest) =
           Some (Inr \<lparr>sr_cmd = CmdConnect, sr_host = host, sr_port = port, sr_len = 7 + length host\<rparr>)"
  using assms
  by (simp add: ParseRequest_def Connect_def Let_def slicing slc_append_all reading unat_len8)

lemma vless_Parse_Request:
  assumes "length uuid = 16" "length host < 256"
  shows "vless_Parse (vless_Request uuid host port @ rest) =
           Some (Inr \<lparr>vp_cmd = CmdTCP, vp_host = host, vp_port = port, vp_len = 23 + length host\<rparr>)"
  using assms
  by (simp add: vless_Parse_def vless_Request_def vless_address_def Let_def slicing slc_append_all reading unat_len8
      nth_append)

lemma length_headers [len_simps]:
  "length (Connect host port) = 7 + length host"
  "length (vless_Request uuid host port) = 7 + length uuid + length host"
  by (simp_all add: Connect_def vless_Request_def)

interpretation socks_connect: codec "\<lambda>(host, port). Connect host port" socks_dec "\<lambda>(host, port). length host < 256"
  by unfold_locales (clarsimp simp: socks_dec_def ParseRequest_Connect length_headers)

interpretation vless_header: codec "\<lambda>(host, port). vless_Request (replicate 16 0) host port" vless_dec "\<lambda>(host, port). length host < 256"
  by unfold_locales (clarsimp simp: vless_dec_def vless_Parse_Request length_headers)

lemma ParseUserPass_UserPass:
  assumes "length user < 256" "length pass < 256"
  shows "ParseUserPass (UserPass user pass @ rest) = Some (Inr (user, pass))"
  using assms
  by (simp add: ParseUserPass_def UserPass_def Let_def slicing slc_append_all unat_len8 nth_append)

text \<open>What the proxy clients write the server reads back, whatever follows it in the stream: the
  credentials, the target of a CONNECT request and of a VLESS header, each with the exact number
  of bytes it took; so no two requests can be confused, even when one starts the other's stream.\<close>

theorem proxy_headers_read_back:
  assumes "length host < 256" "length user < 256" "length pass < 256"
  shows "ParseUserPass (UserPass user pass @ rest) = Some (Inr (user, pass))
         \<and> socks_dec (Connect host port @ rest) = Some ((host, port), length (Connect host port))
         \<and> vless_dec (vless_Request (replicate 16 0) host port @ rest)
             = Some ((host, port), length (vless_Request (replicate 16 0) host port))
         \<and> (\<forall>host' port' rest'. length host' < 256 \<and> Connect host port @ rest = Connect host' port' @ rest'
              \<longrightarrow> host' = host \<and> port' = port \<and> rest' = rest)"
proof (intro conjI allI impI)
  fix host' port' rest'
  assume "length host' < 256 \<and> Connect host port @ rest = Connect host' port' @ rest'"
  then show "host' = host" "port' = port" "rest' = rest"
    using socks_connect.enc_prefix_free [of "(host, port)" "(host', port')" rest rest'] assms(1) by simp_all
qed (use assms ParseUserPass_UserPass socks_connect.dec_enc [of "(host, port)" rest]
      vless_header.dec_enc [of "(host, port)" rest] in simp_all)

theorem proxy_headers_read_back_witness:
  "socks_dec (Connect ''probe.invalid'' 443 @ [22, 3, 1]) = Some ((''probe.invalid'', 443), 20)"
  using proxy_headers_read_back [of "''probe.invalid''" "''u''" "''p''" "[22, 3, 1]" 443] by (simp add: length_headers)

lemma length_mapped_value:
  "length tx = 12 \<Longrightarrow> length (mapped_value tx peer port) = (case Unmap peer of Addr4 _ \<Rightarrow> 8 | _ \<Rightarrow> 20)"
  by (simp add: mapped_value_def As16_def split: addr.splits)

lemma word_of_nat_be_bytes16: "word_of_nat (be_nat (be_bytes 16 (unat (w :: 128 word)))) = w"
  using unsigned_less [where ?'a = nat, of w] by (simp add: be_nat_be_bytes)

lemma attr_address_mapped:
  assumes "length tx = 12" "Unmap peer \<noteq> AddrZero"
  shows "attr_address attrXORMapped (mapped_value tx peer port) tx =
           Some (case Unmap peer of Addr6 w _ \<Rightarrow> Addr6 w '''' | a \<Rightarrow> a, port)"
proof (cases "Unmap peer")
  case (Addr4 w)
  then show ?thesis
    by (simp add: attr_address_def mapped_value_def Let_def ac_simps)
next
  case (Addr6 w z)
  have "take 16 (drop 4 (mapped_value tx peer port)) = xor_bytes (be_bytes 16 (unat w)) (be32 magicCookie @ tx)"
    using assms(1) Addr6 by (simp add: mapped_value_def As16_def)
  then show ?thesis
    using assms(1) Addr6
    by (simp add: attr_address_def mapped_value_def Let_def xor_bytes_cancel word_of_nat_be_bytes16 ac_simps)
qed (use assms in simp)

lemma stun_attrs_single:
  assumes "length v < 65536" "attr_address t v tx = Some r"
  shows "stun_attrs (be16 t @ be16 (word_of_nat (length v)) @ v) tx = Some r"
  using assms by (subst stun_attrs.simps) (simp add: Let_def unat_word_of_nat_16)

lemma binding_success_parsed:
  assumes "length tx = 12" and "Unmap peer \<noteq> AddrZero"
  shows "ParseBindingSuccess (BindingSuccess tx peer port) tx' =
           Some (if tx' = tx
                 then Inr (case Unmap peer of Addr6 w _ \<Rightarrow> Addr6 w '''' | a \<Rightarrow> a, port)
                 else Inl StunTransaction)"
proof -
  let ?v = "mapped_value tx peer port"
  have "length ?v < 65536" using length_mapped_value [OF assms(1)] by (simp split: addr.splits)
  note attrs = stun_attrs_single [OF this attr_address_mapped [OF assms]]
  have "TransactionID (BindingSuccess tx peer port) = tx"
    using assms(1) by (simp add: TransactionID_def BindingSuccess_def Let_def)
  moreover have "from_ix (BindingSuccess tx peer port) 20 = Some (be16 attrXORMapped @ be16 (word_of_nat (length ?v)) @ ?v)"
    using assms(1) by (simp add: BindingSuccess_def Let_def from_ix_def)
  moreover have "u16 (BindingSuccess tx peer port) 0 = Some typeBindingOK"
    "u32 (BindingSuccess tx peer port) 4 = Some magicCookie" "20 \<le> length (BindingSuccess tx peer port)"
    using assms(1) by (simp_all add: BindingSuccess_def Let_def reading)
  ultimately show ?thesis using attrs by (cases "tx' = tx") (simp_all add: ParseBindingSuccess_def)
qed

text \<open>A client learns from a binding response exactly the address and port the server saw it under,
  for IPv4 and IPv6 alike, and a response to another transaction is refused.\<close>

theorem stun_address_read_back:
  assumes "length tx = 12" and "Unmap peer \<noteq> AddrZero"
  shows "ParseBindingSuccess (BindingSuccess tx peer port) tx' =
           Some (if tx' = tx
                 then Inr (case Unmap peer of Addr6 w _ \<Rightarrow> Addr6 w '''' | a \<Rightarrow> a, port)
                 else Inl StunTransaction)"
  by (rule binding_success_parsed [OF assms])

theorem stun_address_read_back_witness:
  "ParseBindingSuccess (BindingSuccess (replicate 12 9) (Addr4 0x0A000001) 5000) (replicate 12 9)
     = Some (Inr (Addr4 0x0A000001, 5000))"
  using stun_address_read_back [of "replicate 12 9" "Addr4 0x0A000001" 5000 "replicate 12 9"]
  by (simp add: Unmap_def)

end
