(* ===== verification/Vpn_Codecs.thy ===== *)
theory Vpn_Codecs
  imports Proxy_Codecs
begin

text \<open>
  The control formats of the VPN tests: L2TPv2 control and data messages (\<open>internal/l2tp/l2tp.go\<close>) and
  the IKEv2 header, payload chain and ESP-in-UDP datagrams (\<open>internal/ike/ike.go\<close>). Random values are
  arguments; the loops that draw until they get a value other than zero read them from a list of
  draws. The lemmas show that the parsers are total, that a control message is read back with the
  attributes it was built from, and that the payload writer, which patches the next-payload byte
  of what it wrote before, produces the linked chain of the standard.
\<close>

unbundle bit_operations_syntax

definition w16 :: "bytes \<Rightarrow> nat \<Rightarrow> 16 word" where
  "w16 b off = word_of_nat (be_nat (take 2 (drop off b)))"

definition w32 :: "bytes \<Rightarrow> nat \<Rightarrow> 32 word" where
  "w32 b off = word_of_nat (be_nat (take 4 (drop off b)))"

section \<open>L2TP\<close>

abbreviation flagType :: "16 word" where "flagType \<equiv> 0x8000"
abbreviation flagLength :: "16 word" where "flagLength \<equiv> 0x4000"
abbreviation flagSeq :: "16 word" where "flagSeq \<equiv> 0x0800"
abbreviation l2tp_version :: "16 word" where "l2tp_version \<equiv> 2"
abbreviation ControlHeaderLen :: nat where "ControlHeaderLen \<equiv> 12"
abbreviation DataHeaderLen :: nat where "DataHeaderLen \<equiv> 6"

definition MsgZLB :: "16 word" where "MsgZLB = 0"
definition MsgSCCRQ :: "16 word" where "MsgSCCRQ = 1"
definition MsgSCCRP :: "16 word" where "MsgSCCRP = 2"
definition MsgSCCCN :: "16 word" where "MsgSCCCN = 3"
definition MsgStopCCN :: "16 word" where "MsgStopCCN = 4"
definition MsgICRQ :: "16 word" where "MsgICRQ = 10"
definition MsgICRP :: "16 word" where "MsgICRP = 11"
definition MsgICCN :: "16 word" where "MsgICCN = 12"

lemmas l2tp_msgs = MsgZLB_def MsgSCCRQ_def MsgSCCRP_def MsgSCCCN_def MsgStopCCN_def MsgICRQ_def MsgICRP_def MsgICCN_def

definition AVPMessageType :: "16 word" where "AVPMessageType = 0"
definition AVPProtocolVersion :: "16 word" where "AVPProtocolVersion = 2"
definition AVPFramingCap :: "16 word" where "AVPFramingCap = 3"
definition AVPHostName :: "16 word" where "AVPHostName = 7"
definition AVPVendorName :: "16 word" where "AVPVendorName = 8"
definition AVPAssignedTunnel :: "16 word" where "AVPAssignedTunnel = 9"
definition AVPReceiveWindow :: "16 word" where "AVPReceiveWindow = 10"
definition AVPAssignedSession :: "16 word" where "AVPAssignedSession = 14"
definition AVPCallSerialNumber :: "16 word" where "AVPCallSerialNumber = 15"
definition AVPFramingType :: "16 word" where "AVPFramingType = 19"
definition AVPTxConnectSpeed :: "16 word" where "AVPTxConnectSpeed = 24"

lemmas l2tp_avps = AVPMessageType_def AVPProtocolVersion_def AVPFramingCap_def AVPHostName_def AVPVendorName_def
  AVPAssignedTunnel_def AVPReceiveWindow_def AVPAssignedSession_def AVPCallSerialNumber_def AVPFramingType_def
  AVPTxConnectSpeed_def

datatype l2tp_error = ErrNotL2TP

record l2tp_control =
  lc_tunnel :: "16 word"
  lc_session :: "16 word"
  lc_ns :: "16 word"
  lc_nr :: "16 word"
  lc_type :: "16 word"
  lc_assigned_tunnel :: "16 word"
  lc_assigned_session :: "16 word"
  lc_host :: string

definition l2tp_IsControl :: "bytes \<Rightarrow> bool" where
  "l2tp_IsControl b \<longleftrightarrow> length b \<ge> ControlHeaderLen \<and> w16 b 0 AND flagType \<noteq> 0 \<and> w16 b 0 AND flagLength \<noteq> 0
     \<and> w16 b 0 AND flagSeq \<noteq> 0 \<and> w16 b 0 AND 0x000f = l2tp_version \<and> unat (w16 b 2) = length b"

definition l2tp_IsData :: "bytes \<Rightarrow> bool" where
  "l2tp_IsData b \<longleftrightarrow> length b \<ge> DataHeaderLen \<and> w16 b 0 AND flagType = 0 \<and> w16 b 0 AND 0x000f = l2tp_version
     \<and> w16 b 0 AND (flagLength OR flagSeq OR 0x0200) = 0"

definition DataTunnel :: "bytes \<Rightarrow> 16 word option" where
  "DataTunnel b = u16 b 2"

definition l2tp_apply :: "16 word \<Rightarrow> bytes \<Rightarrow> l2tp_control \<Rightarrow> l2tp_control" where
  "l2tp_apply typ val c =
     (if typ = AVPMessageType then (if length val = 2 then c\<lparr>lc_type := w16 val 0\<rparr> else c)
      else if typ = AVPAssignedTunnel then (if length val = 2 then c\<lparr>lc_assigned_tunnel := w16 val 0\<rparr> else c)
      else if typ = AVPAssignedSession then (if length val = 2 then c\<lparr>lc_assigned_session := w16 val 0\<rparr> else c)
      else if typ = AVPHostName then c\<lparr>lc_host := str_of val\<rparr>
      else c)"

function l2tp_avp_loop :: "bytes \<Rightarrow> l2tp_control \<Rightarrow> l2tp_error + l2tp_control" where
  "l2tp_avp_loop p c =
     (if length p < 6 then Inr c
      else let n = unat (w16 p 0 AND 0x03ff)
           in if n < 6 \<or> n > length p then Inl ErrNotL2TP
              else l2tp_avp_loop (drop n p)
                     (if w16 p 2 = 0 then l2tp_apply (w16 p 4) (take (n - 6) (drop 6 p)) c else c))"
  by pat_completeness auto
termination
  by (relation "measure (\<lambda>(p, _). length p)") auto

declare l2tp_avp_loop.simps [simp del]

definition ParseControl :: "bytes \<Rightarrow> l2tp_error + l2tp_control" where
  "ParseControl b =
     (if \<not> l2tp_IsControl b then Inl ErrNotL2TP
      else l2tp_avp_loop (drop ControlHeaderLen b)
             \<lparr>lc_tunnel = w16 b 4, lc_session = w16 b 6, lc_ns = w16 b 8, lc_nr = w16 b 10, lc_type = MsgZLB,
              lc_assigned_tunnel = 0, lc_assigned_session = 0, lc_host = ''''\<rparr>)"

definition l2tp_avp :: "16 word \<Rightarrow> bytes \<Rightarrow> bytes" where
  "l2tp_avp typ val = be16 (0x8000 OR word_of_nat (6 + length val)) @ be16 0 @ be16 typ @ val"

definition avp_u16 :: "16 word \<Rightarrow> 16 word \<Rightarrow> bytes" where
  "avp_u16 typ v = l2tp_avp typ (be16 v)"

definition avp_u32 :: "16 word \<Rightarrow> 32 word \<Rightarrow> bytes" where
  "avp_u32 typ v = l2tp_avp typ (be32 v)"

text \<open>\<open>newControl\<close>, the attributes, and \<open>finish\<close>, which writes the length.\<close>

definition l2tp_message :: "16 word \<Rightarrow> 16 word \<Rightarrow> 16 word \<Rightarrow> 16 word \<Rightarrow> bytes \<Rightarrow> bytes" where
  "l2tp_message tunnel session ns nr avps =
     be16 (flagType OR flagLength OR flagSeq OR l2tp_version) @ be16 (word_of_nat (ControlHeaderLen + length avps))
     @ be16 tunnel @ be16 session @ be16 ns @ be16 nr @ avps"

definition RandomID :: "16 word list \<Rightarrow> 16 word option" where
  "RandomID draws = List.find (\<lambda>v. v \<noteq> 0) draws"

definition SCCRQ :: "16 word \<Rightarrow> string \<Rightarrow> bytes" where
  "SCCRQ assignedTunnel hostName = l2tp_message 0 0 0 0
     (avp_u16 AVPMessageType MsgSCCRQ @ avp_u16 AVPProtocolVersion 0x0100 @ l2tp_avp AVPHostName (bytes_of hostName)
      @ avp_u32 AVPFramingCap 3 @ avp_u16 AVPAssignedTunnel assignedTunnel @ avp_u16 AVPReceiveWindow 4
      @ l2tp_avp AVPVendorName (bytes_of ''CensorPulse''))"

definition SCCRP :: "16 word \<Rightarrow> 16 word \<Rightarrow> string \<Rightarrow> bytes" where
  "SCCRP peerTunnel assignedTunnel hostName = l2tp_message peerTunnel 0 0 1
     (avp_u16 AVPMessageType MsgSCCRP @ avp_u16 AVPProtocolVersion 0x0100 @ avp_u32 AVPFramingCap 3
      @ l2tp_avp AVPHostName (bytes_of hostName) @ avp_u16 AVPAssignedTunnel assignedTunnel)"

definition SCCCN :: "16 word \<Rightarrow> bytes" where
  "SCCCN peerTunnel = l2tp_message peerTunnel 0 1 1 (avp_u16 AVPMessageType MsgSCCCN)"

definition ICRQ :: "16 word \<Rightarrow> 16 word \<Rightarrow> 16 word \<Rightarrow> 16 word \<Rightarrow> 32 word \<Rightarrow> bytes" where
  "ICRQ peerTunnel assignedSession ns nr serial = l2tp_message peerTunnel 0 ns nr
     (avp_u16 AVPMessageType MsgICRQ @ avp_u16 AVPAssignedSession assignedSession @ avp_u32 AVPCallSerialNumber serial)"

definition ICRP :: "16 word \<Rightarrow> 16 word \<Rightarrow> 16 word \<Rightarrow> 16 word \<Rightarrow> 16 word \<Rightarrow> bytes" where
  "ICRP peerTunnel peerSession assignedSession ns nr = l2tp_message peerTunnel peerSession ns nr
     (avp_u16 AVPMessageType MsgICRP @ avp_u16 AVPAssignedSession assignedSession)"

definition ICCN :: "16 word \<Rightarrow> 16 word \<Rightarrow> 16 word \<Rightarrow> 16 word \<Rightarrow> bytes" where
  "ICCN peerTunnel peerSession ns nr = l2tp_message peerTunnel peerSession ns nr
     (avp_u16 AVPMessageType MsgICCN @ avp_u32 AVPTxConnectSpeed 100000000 @ avp_u32 AVPFramingType 1)"

definition ZLB :: "16 word \<Rightarrow> 16 word \<Rightarrow> 16 word \<Rightarrow> 16 word \<Rightarrow> bytes" where
  "ZLB peerTunnel peerSession ns nr = l2tp_message peerTunnel peerSession ns nr []"

definition l2tp_Data :: "16 word \<Rightarrow> 16 word \<Rightarrow> bytes \<Rightarrow> bytes" where
  "l2tp_Data peerTunnel peerSession ppp = be16 l2tp_version @ be16 peerTunnel @ be16 peerSession @ ppp"

definition DataPayload :: "bytes \<Rightarrow> bytes option" where
  "DataPayload b = from_ix b DataHeaderLen"

definition PPPLCPConfigureRequest :: "byte \<Rightarrow> bytes \<Rightarrow> bytes" where
  "PPPLCPConfigureRequest i magic = [0xff, 0x03, 0xc0, 0x21, 1, i, 0, 14, 1, 4, 0x05, 0xdc, 5, 6] @ magic"

definition PPPIP :: "bytes \<Rightarrow> bytes" where
  "PPPIP payload = [0xff, 0x03, 0x00, 0x21] @ payload"

section \<open>IKEv2\<close>

abbreviation ike_HeaderLen :: nat where "ike_HeaderLen \<equiv> 28"
abbreviation ike_Version :: byte where "ike_Version \<equiv> 0x20"
abbreviation ESPHeaderLen :: nat where "ESPHeaderLen \<equiv> 8"
abbreviation NATTMarkerLen :: nat where "NATTMarkerLen \<equiv> 4"

definition ExchangeSAInit :: byte where "ExchangeSAInit = 34"
definition ExchangeAuth :: byte where "ExchangeAuth = 35"
definition FlagInitiator :: byte where "FlagInitiator = 0x08"
definition FlagResponse :: byte where "FlagResponse = 0x20"
definition PayloadNone :: byte where "PayloadNone = 0"
definition PayloadSA :: byte where "PayloadSA = 33"
definition PayloadKE :: byte where "PayloadKE = 34"
definition PayloadNonce :: byte where "PayloadNonce = 40"
definition PayloadNotify :: byte where "PayloadNotify = 41"
definition PayloadVendor :: byte where "PayloadVendor = 43"
definition PayloadSK :: byte where "PayloadSK = 46"

abbreviation NotifyNATDetectionSource :: "16 word" where "NotifyNATDetectionSource \<equiv> 16388"
abbreviation NotifyNATDetectionDest :: "16 word" where "NotifyNATDetectionDest \<equiv> 16389"
abbreviation DHGroupCurve25519 :: "16 word" where "DHGroupCurve25519 \<equiv> 31"

datatype ike_error = ErrNotIKE

record ike_header =
  ih_spii :: bytes
  ih_spir :: bytes
  ih_next :: byte
  ih_exchange :: byte
  ih_flags :: byte
  ih_msgid :: "32 word"
  ih_length :: "32 word"

definition zero_ike_header :: ike_header where
  "zero_ike_header = \<lparr>ih_spii = replicate 8 0, ih_spir = replicate 8 0, ih_next = 0, ih_exchange = 0, ih_flags = 0,
     ih_msgid = 0, ih_length = 0\<rparr>"

definition ike_fields :: "bytes \<Rightarrow> ike_header" where
  "ike_fields b = \<lparr>ih_spii = take 8 b, ih_spir = take 8 (drop 8 b), ih_next = b ! 16, ih_exchange = b ! 18,
     ih_flags = b ! 19, ih_msgid = w32 b 20, ih_length = w32 b 24\<rparr>"

text \<open>The header filled so far comes back beside the error, as in the code.\<close>

definition ParseHeader :: "bytes \<Rightarrow> ike_header \<times> ike_error option" where
  "ParseHeader b =
     (if length b < ike_HeaderLen \<or> b ! 17 \<noteq> ike_Version then (zero_ike_header, Some ErrNotIKE)
      else let h = ike_fields b
           in if ih_length h \<noteq> word_of_nat (length b) \<or> (ih_exchange h \<noteq> ExchangeSAInit \<and> ih_exchange h \<noteq> ExchangeAuth)
              then (h, Some ErrNotIKE) else (h, None))"

definition ike_Looks :: "bytes \<Rightarrow> bool" where
  "ike_Looks b = (snd (ParseHeader b) = None)"

definition StripNATT :: "bytes \<Rightarrow> bytes \<times> bool" where
  "StripNATT b =
     (if length b > NATTMarkerLen \<and> b ! 0 = 0 \<and> b ! 1 = 0 \<and> b ! 2 = 0 \<and> b ! 3 = 0 \<and> ike_Looks (drop NATTMarkerLen b)
      then (drop NATTMarkerLen b, True) else (b, False))"

definition AddNATT :: "bytes \<Rightarrow> bytes" where
  "AddNATT b = replicate NATTMarkerLen 0 @ b"

definition IsESPUDP :: "bytes \<Rightarrow> bool" where
  "IsESPUDP b \<longleftrightarrow> length b \<ge> ESPHeaderLen + 16 \<and> w32 b 0 \<noteq> 0"

definition ESPSPI :: "bytes \<Rightarrow> 32 word option" where
  "ESPSPI b = u32 b 0"

definition ESP :: "32 word \<Rightarrow> 32 word \<Rightarrow> bytes \<Rightarrow> bytes" where
  "ESP spi seq payload = be32 spi @ be32 seq @ payload"

definition RandomSPI :: "bytes list \<Rightarrow> bytes option" where
  "RandomSPI draws = List.find (\<lambda>b. b \<noteq> replicate 8 0) draws"

record payloadWriter =
  pw_out :: bytes
  pw_prev :: int

definition pw_add :: "byte \<Rightarrow> bytes \<Rightarrow> payloadWriter \<Rightarrow> payloadWriter" where
  "pw_add typ body w =
     (let out = (if pw_prev w \<ge> 0 then (pw_out w)[nat (pw_prev w) := typ] else (pw_out w)[16 := typ])
      in w\<lparr>pw_prev := int (length out),
           pw_out := out @ [PayloadNone, 0] @ be16 (word_of_nat (4 + length body)) @ body\<rparr>)"

definition pw_finish :: "payloadWriter \<Rightarrow> bytes" where
  "pw_finish w = take 24 (pw_out w) @ be32 (word_of_nat (length (pw_out w))) @ drop 28 (pw_out w)"

definition newMessage :: "bytes \<Rightarrow> bytes \<Rightarrow> byte \<Rightarrow> byte \<Rightarrow> 32 word \<Rightarrow> payloadWriter" where
  "newMessage spii spir exchange flags msgID =
     \<lparr>pw_out = spii @ spir @ [PayloadNone, ike_Version, exchange, flags] @ be32 msgID @ replicate 4 0, pw_prev = -1\<rparr>"

definition ike_transform :: "byte \<Rightarrow> byte \<Rightarrow> 16 word \<Rightarrow> 16 word \<Rightarrow> bytes" where
  "ike_transform mr typ i keyLen =
     (if keyLen \<noteq> 0 then [mr, 0] @ be16 12 @ [typ, 0] @ be16 i @ [0x80, 14] @ be16 keyLen
      else [mr, 0, 0, 8, typ, 0] @ be16 i)"

definition saProposal :: bytes where
  "saProposal =
     (let ts = ike_transform 3 1 12 256 @ ike_transform 3 2 5 0 @ ike_transform 3 3 12 0 @ ike_transform 0 4 DHGroupCurve25519 0
      in [0, 0] @ be16 (word_of_nat (8 + length ts)) @ [1, 1, 0, 4] @ ts)"

definition kePayload :: "bytes \<Rightarrow> bytes" where
  "kePayload pub = be16 DHGroupCurve25519 @ [0, 0] @ pub"

definition ike_notify :: "16 word \<Rightarrow> bytes \<Rightarrow> bytes" where
  "ike_notify typ data = [0, 0] @ be16 typ @ data"

text \<open>\<open>nonce\<close>, \<open>src\<close>, \<open>dst\<close> and \<open>vendor\<close> are the random bytes, of 32, 20, 20 and 16.\<close>

definition SAInit :: "bytes \<Rightarrow> bytes \<Rightarrow> bytes \<Rightarrow> bytes \<Rightarrow> bytes \<Rightarrow> bytes \<Rightarrow> bytes" where
  "SAInit spii kePub nonce src dst vendor =
     pw_finish (pw_add PayloadVendor vendor (pw_add PayloadNotify (ike_notify NotifyNATDetectionDest dst)
       (pw_add PayloadNotify (ike_notify NotifyNATDetectionSource src) (pw_add PayloadNonce nonce
         (pw_add PayloadKE (kePayload kePub) (pw_add PayloadSA saProposal
           (newMessage spii (replicate 8 0) ExchangeSAInit FlagInitiator 0)))))))"

definition SAInitResponse :: "ike_header \<Rightarrow> bytes \<Rightarrow> bytes \<Rightarrow> bytes \<Rightarrow> bytes \<Rightarrow> bytes \<Rightarrow> bytes" where
  "SAInitResponse req spir kePub nonce src dst =
     pw_finish (pw_add PayloadNotify (ike_notify NotifyNATDetectionDest dst)
       (pw_add PayloadNotify (ike_notify NotifyNATDetectionSource src) (pw_add PayloadNonce nonce
         (pw_add PayloadKE (kePayload kePub) (pw_add PayloadSA saProposal
           (newMessage (ih_spii req) spir ExchangeSAInit FlagResponse 0))))))"

text \<open>\<open>rnd\<close> supplies the bytes of the encrypted payload.\<close>

definition ike_Auth :: "bytes \<Rightarrow> bytes \<Rightarrow> 32 word \<Rightarrow> nat \<Rightarrow> bool \<Rightarrow> (nat \<Rightarrow> bytes) \<Rightarrow> bytes" where
  "ike_Auth spii spir msgID innerLen response rnd =
     pw_finish (pw_add PayloadSK (rnd (max 32 innerLen))
       (newMessage spii spir ExchangeAuth (if response then FlagResponse else FlagInitiator) msgID))"

definition ESPSPIFor :: "bytes \<Rightarrow> 32 word" where
  "ESPSPIFor spir = (let spi = w32 spir 0 in if spi = 0 then 0x0badcafe else spi)"

section \<open>L2TP round trips\<close>

lemma w16_simps:
  "w16 (be16 a) 0 = a" "w16 (be16 a @ r) 0 = a" "w16 (be16 x @ be16 a @ r) 2 = a" "w16 (be16 x @ be16 y @ be16 a @ r) 4 = a"
  "w16 (be16 x @ be16 y @ be16 z @ be16 a @ r) 6 = a" "w16 (be16 x @ be16 y @ be16 z @ be16 u @ be16 a @ r) 8 = a"
  "w16 (be16 x @ be16 y @ be16 z @ be16 u @ be16 v @ be16 a @ r) 10 = a"
  by (simp_all add: w16_def)

lemma avp_length_field:
  assumes "n < 1024"
  shows "unat ((0x8000 OR word_of_nat n :: 16 word) AND 0x03ff) = n"
proof -
  have "(0x8000 OR word_of_nat n :: 16 word) AND 0x03ff = take_bit 10 (word_of_nat n)"
    by (simp add: bit.conj_disj_distrib2 mask_eq_decr_exp take_bit_eq_mask)
  then show ?thesis using assms by (simp add: unsigned_take_bit_eq unat_of_nat take_bit_nat_eq_self)
qed

lemma length_l2tp_avp [simp]: "length (l2tp_avp t v) = 6 + length v"
  by (simp add: l2tp_avp_def)

lemma l2tp_avp_loop_step:
  assumes "length v < 1018"
  shows "l2tp_avp_loop (l2tp_avp t v @ rest) c = l2tp_avp_loop rest (l2tp_apply t v c)"
proof -
  let ?p = "l2tp_avp t v @ rest"
  have "w16 ?p 0 = 0x8000 OR word_of_nat (6 + length v)" "w16 ?p 2 = 0" "w16 ?p 4 = t"
    by (simp_all add: l2tp_avp_def w16_simps)
  moreover have "unat ((0x8000 OR word_of_nat (6 + length v) :: 16 word) AND 0x03ff) = 6 + length v"
    using assms by (intro avp_length_field) simp
  moreover have "take (length v) (drop 6 ?p) = v" by (simp add: l2tp_avp_def)
  ultimately show ?thesis
    by (subst l2tp_avp_loop.simps) (simp add: Let_def)
qed

lemma l2tp_avp_loop_end: "l2tp_avp_loop [] c = Inr c"
  by (subst l2tp_avp_loop.simps) simp

lemmas l2tp_loop = l2tp_avp_loop_step l2tp_avp_loop_step [where rest = "[]", simplified] l2tp_avp_loop_end

lemma l2tp_message_control:
  assumes "length avps < 65524"
  shows "l2tp_IsControl (l2tp_message t s ns nr avps)"
    "ParseControl (l2tp_message t s ns nr avps) =
       l2tp_avp_loop avps \<lparr>lc_tunnel = t, lc_session = s, lc_ns = ns, lc_nr = nr, lc_type = MsgZLB,
         lc_assigned_tunnel = 0, lc_assigned_session = 0, lc_host = ''''\<rparr>"
proof -
  let ?m = "l2tp_message t s ns nr avps"
  have w: "w16 ?m 0 = 0xC802" "w16 ?m 2 = word_of_nat (12 + length avps)" "w16 ?m 4 = t" "w16 ?m 6 = s" "w16 ?m 8 = ns"
    "w16 ?m 10 = nr" "drop 12 ?m = avps" "length ?m = 12 + length avps"
    by (simp_all add: l2tp_message_def w16_simps)
  have "unat (word_of_nat (12 + length avps) :: 16 word) = 12 + length avps"
    using assms by (intro unat_word_of_nat_16) simp
  then show c: "l2tp_IsControl ?m"
    by (simp add: l2tp_IsControl_def w del: of_nat_add)
  show "ParseControl ?m = l2tp_avp_loop avps \<lparr>lc_tunnel = t, lc_session = s, lc_ns = ns, lc_nr = nr, lc_type = MsgZLB,
         lc_assigned_tunnel = 0, lc_assigned_session = 0, lc_host = ''''\<rparr>"
    using c by (simp add: ParseControl_def w)
qed

lemma w16_be16 [simp]: "w16 (be16 a) 0 = a"
  by (rule w16_simps)

text \<open>The control messages of a tunnel are read back with what they were built from: the request with
  the tunnel id the client assigned and its host name, the reply with the server's, the session
  reply with its ids and sequence numbers, and an acknowledgement with no attribute at all.\<close>

theorem l2tp_control_read_back:
  assumes "length host < 1018"
  shows "map_sum id (\<lambda>c. (lc_type c, lc_tunnel c, lc_assigned_tunnel c, lc_host c)) (ParseControl (SCCRQ t host))
           = Inr (MsgSCCRQ, 0, t, host)
         \<and> map_sum id (\<lambda>c. (lc_type c, lc_tunnel c, lc_assigned_tunnel c, lc_nr c, lc_host c)) (ParseControl (SCCRP peer t host))
           = Inr (MsgSCCRP, peer, t, 1, host)
         \<and> map_sum id (\<lambda>c. (lc_type c, lc_tunnel c, lc_session c, lc_assigned_session c, lc_ns c, lc_nr c))
             (ParseControl (ICRP peer ps s ns nr)) = Inr (MsgICRP, peer, ps, s, ns, nr)
         \<and> map_sum id (\<lambda>c. (lc_type c, lc_tunnel c, lc_session c, lc_ns c, lc_nr c)) (ParseControl (ZLB peer ps ns nr))
             = Inr (MsgZLB, peer, ps, ns, nr)"
  using assms
  by (simp add: SCCRQ_def SCCRP_def ICRP_def ZLB_def l2tp_message_control avp_u16_def avp_u32_def l2tp_loop l2tp_apply_def
      l2tp_avps)

theorem l2tp_control_read_back_witness:
  "map_sum id (\<lambda>c. (lc_type c, lc_tunnel c, lc_assigned_tunnel c, lc_host c)) (ParseControl (SCCRQ 7 ''cpprobe''))
     = Inr (MsgSCCRQ, 0, 7, ''cpprobe'')"
  using l2tp_control_read_back [of "''cpprobe''" 7 0 0 0 0 0] by simp

section \<open>The payload chain\<close>

text \<open>The linked chain of the standard: each payload header names the type of the next payload.\<close>

fun first_type :: "(byte \<times> bytes) list \<Rightarrow> byte" where
  "first_type [] = PayloadNone"
| "first_type ((t, _) # _) = t"

fun ike_chain :: "(byte \<times> bytes) list \<Rightarrow> bytes" where
  "ike_chain [] = []"
| "ike_chain ((t, b) # ps) = [first_type ps, 0] @ be16 (word_of_nat (4 + length b)) @ b @ ike_chain ps"

lemma ike_chain_snoc:
  "ps \<noteq> [] \<Longrightarrow> ike_chain (ps @ [(t, b)]) =
     (ike_chain ps)[length (ike_chain (butlast ps)) := t] @ [PayloadNone, 0] @ be16 (word_of_nat (4 + length b)) @ b"
proof (induction ps)
  case (Cons p ps)
  obtain u c where p: "p = (u, c)" by (cases p)
  show ?case
  proof (cases "ps = []")
    case True
    then show ?thesis by (simp add: p)
  next
    case False
    then have "first_type (ps @ [(t, b)]) = first_type ps" by (cases ps) auto
    then show ?thesis using Cons.IH False by (simp add: p list_update_append)
  qed
qed simp

lemma length_ike_chain_pos: "ps \<noteq> [] \<Longrightarrow> length (ike_chain (butlast ps)) < length (ike_chain ps)"
proof (induction ps)
  case (Cons p ps)
  then show ?case by (cases p; cases "ps = []") auto
qed simp

definition pw_all :: "(byte \<times> bytes) list \<Rightarrow> payloadWriter \<Rightarrow> payloadWriter" where
  "pw_all ps w = fold (\<lambda>(t, b). pw_add t b) ps w"

lemma pw_all_chain:
  assumes "length hdr = 28" "hdr ! 16 = PayloadNone"
  shows "pw_all ps \<lparr>pw_out = hdr, pw_prev = -1\<rparr> =
           \<lparr>pw_out = hdr[16 := first_type ps] @ ike_chain ps,
            pw_prev = (if ps = [] then -1 else int (28 + length (ike_chain (butlast ps))))\<rparr>"
proof (induction ps rule: rev_induct)
  case Nil
  then show ?case by (metis append_Nil2 assms(2) first_type.simps(1) fold_simps(1) ike_chain.simps(1) list_update_id pw_all_def)
next
  case (snoc p ps)
  obtain t b where p: "p = (t, b)" by (cases p)
  have "pw_all (ps @ [p]) w = pw_add t b (pw_all ps w)" for w by (simp add: pw_all_def p)
  moreover have "first_type (ps @ [p]) = (if ps = [] then t else first_type ps)" by (cases ps) (auto simp: p)
  moreover have "nat (28 + int k) = 28 + k" for k by simp
  ultimately show ?case
    using assms ike_chain_snoc [of ps t b] length_ike_chain_pos [of ps]
    by (simp add: snoc.IH p pw_add_def Let_def list_update_append)
qed

lemma ike_writer_chain:
  assumes "length spii = 8" "length spir = 8"
  shows "pw_finish (pw_all ps (newMessage spii spir ex fl mid)) =
           spii @ spir @ [first_type ps, ike_Version, ex, fl] @ be32 mid
           @ be32 (word_of_nat (28 + length (ike_chain ps))) @ ike_chain ps"
proof -
  let ?h = "spii @ spir @ [PayloadNone, ike_Version, ex, fl] @ be32 mid @ replicate 4 0"
  have "pw_all ps (newMessage spii spir ex fl mid) =
      \<lparr>pw_out = ?h[16 := first_type ps] @ ike_chain ps,
       pw_prev = (if ps = [] then -1 else int (28 + length (ike_chain (butlast ps))))\<rparr>"
    unfolding newMessage_def using assms by (intro pw_all_chain) (simp_all add: nth_append)
  moreover have "?h[16 := first_type ps] = spii @ spir @ [first_type ps, ike_Version, ex, fl] @ be32 mid @ replicate 4 0"
    using assms by (simp add: list_update_append)
  ultimately show ?thesis using assms by (simp add: pw_finish_def)
qed

text \<open>The payload writer patches bytes it wrote earlier; what comes out is the header followed by the
  linked chain of the standard, each payload naming the next, the last naming none, with the
  length field of the whole message.\<close>

theorem ike_writer_is_chain:
  assumes "length spii = 8" "length spir = 8"
  shows "pw_finish (pw_all ps (newMessage spii spir ex fl mid)) =
           spii @ spir @ [first_type ps, ike_Version, ex, fl] @ be32 mid
           @ be32 (word_of_nat (28 + length (ike_chain ps))) @ ike_chain ps"
  using assms by (rule ike_writer_chain)

theorem ike_writer_is_chain_witness:
  "pw_finish (pw_all [(PayloadSK, [1, 2])] (newMessage (replicate 8 1) (replicate 8 2) ExchangeAuth FlagInitiator 1)) =
     replicate 8 1 @ replicate 8 2 @ [PayloadSK, ike_Version, ExchangeAuth, FlagInitiator] @ be32 1 @ be32 34
     @ [PayloadNone, 0] @ be16 6 @ [1, 2]"
  using ike_writer_is_chain [of "replicate 8 1" "replicate 8 2" "[(PayloadSK, [1, 2])]" ExchangeAuth FlagInitiator 1]
  by simp

lemma pw_chain_unfold:
  "SAInit spii kePub nonce src dst vendor =
     pw_finish (pw_all [(PayloadSA, saProposal), (PayloadKE, kePayload kePub), (PayloadNonce, nonce),
       (PayloadNotify, ike_notify NotifyNATDetectionSource src), (PayloadNotify, ike_notify NotifyNATDetectionDest dst),
       (PayloadVendor, vendor)] (newMessage spii (replicate 8 0) ExchangeSAInit FlagInitiator 0))"
  "SAInitResponse req spir kePub nonce src dst =
     pw_finish (pw_all [(PayloadSA, saProposal), (PayloadKE, kePayload kePub), (PayloadNonce, nonce),
       (PayloadNotify, ike_notify NotifyNATDetectionSource src), (PayloadNotify, ike_notify NotifyNATDetectionDest dst)]
       (newMessage (ih_spii req) spir ExchangeSAInit FlagResponse 0))"
  "ike_Auth spii spir mid n response rnd =
     pw_finish (pw_all [(PayloadSK, rnd (max 32 n))]
       (newMessage spii spir ExchangeAuth (if response then FlagResponse else FlagInitiator) mid))"
  by (simp_all add: SAInit_def SAInitResponse_def ike_Auth_def pw_all_def)

lemma length_pw:
  "length (pw_out (pw_all ps w)) = length (pw_out w) + length (ike_chain ps)"
  "length (pw_out w) \<ge> 28 \<Longrightarrow> length (pw_finish w) = length (pw_out w)"
proof -
  show "length (pw_out (pw_all ps w)) = length (pw_out w) + length (ike_chain ps)"
    by (induction ps arbitrary: w) (auto simp: pw_all_def pw_add_def Let_def)
qed (simp add: pw_finish_def)

lemma length_ike_messages:
  "length (ih_spii h) = 8 \<Longrightarrow> length spir = 8 \<Longrightarrow>
   length (SAInitResponse h spir pub nonce src dst) = 104 + length pub + length nonce + length src + length dst"
  "length spii = 8 \<Longrightarrow> length spir = 8 \<Longrightarrow>
   length (ike_Auth spii spir mid n response rnd) = 32 + length (rnd (max 32 n))"
  by (simp_all add: pw_chain_unfold length_pw newMessage_def saProposal_def ike_transform_def kePayload_def ike_notify_def)

lemma ParseHeader_fields:
  assumes "28 \<le> length m" "m ! 17 = ike_Version" "w32 m 24 = word_of_nat (length m)"
    and "m ! 18 = ExchangeSAInit \<or> m ! 18 = ExchangeAuth"
  shows "ParseHeader m = (ike_fields m, None)"
  using assms by (auto simp: ParseHeader_def Let_def ike_fields_def)

lemma ParseHeader_message:
  assumes "length spii = 8" "length spir = 8" "ex = ExchangeSAInit \<or> ex = ExchangeAuth"
  shows "ParseHeader (pw_finish (pw_all ps (newMessage spii spir ex fl mid))) =
           (\<lparr>ih_spii = spii, ih_spir = spir, ih_next = first_type ps, ih_exchange = ex, ih_flags = fl, ih_msgid = mid,
             ih_length = word_of_nat (28 + length (ike_chain ps))\<rparr>, None)"
proof -
  define m where "m = spii @ spir @ [first_type ps, ike_Version, ex, fl] @ be32 mid
    @ be32 (word_of_nat (28 + length (ike_chain ps))) @ ike_chain ps"
  have nths: "m ! 17 = ike_Version" "m ! 18 = ex" "m ! 19 = fl" "m ! 16 = first_type ps"
    using assms(1,2) by (simp_all add: m_def nth_append)
  have words: "w32 m 20 = mid" "w32 m 24 = word_of_nat (28 + length (ike_chain ps))"
    using assms(1,2) by (simp_all add: m_def w32_def del: of_nat_add)
  have parts: "take 8 m = spii" "take 8 (drop 8 m) = spir" "length m = 28 + length (ike_chain ps)"
    using assms(1,2) by (simp_all add: m_def)
  have "ParseHeader m = (ike_fields m, None)"
    using assms(3) nths words parts by (intro ParseHeader_fields) (simp_all del: of_nat_add)
  also have "ike_fields m = \<lparr>ih_spii = spii, ih_spir = spir, ih_next = first_type ps, ih_exchange = ex, ih_flags = fl,
      ih_msgid = mid, ih_length = word_of_nat (28 + length (ike_chain ps))\<rparr>"
    using nths words parts by (simp add: ike_fields_def del: of_nat_add)
  finally show ?thesis
    unfolding ike_writer_chain [OF assms(1,2)] m_def .
qed

lemma StripNATT_AddNATT:
  assumes "ike_Looks m"
  shows "StripNATT (AddNATT m) = (m, True)"
proof -
  have "28 \<le> length m" using assms by (auto simp: ike_Looks_def ParseHeader_def split: if_splits)
  moreover have "AddNATT m = 0 # 0 # 0 # 0 # m" by (simp add: AddNATT_def numeral_eq_Suc)
  ultimately show ?thesis using assms by (auto simp: StripNATT_def)
qed

end
