(* ===== verification/Crypto.thy ===== *)
theory Crypto
  imports Sha256
begin

text \<open>
  The other primitives of Go's standard library the VPN codecs rely on: SHA-1 and HMAC-SHA1
  (\<open>crypto/sha1\<close>, \<open>crypto/hmac\<close>), AES-256 (\<open>crypto/aes\<close>) and the Galois counter
  mode over it (\<open>crypto/cipher\<close>) with a nonce of twelve bytes and a tag of sixteen. Like SHA-256
  they are defined, not assumed. What the codecs rely on is collected in the locale \<open>aead\<close>:
  sealing adds sixteen bytes, opening inverts it and authenticates header, nonce and ciphertext.
\<close>

unbundle bit_operations_syntax

section \<open>Cutting a packet\<close>

lemma cut3: "xs = take i xs @ take j (drop i xs) @ take k (drop (i + j) xs) @ drop (i + j + k) xs"
  by (metis append.assoc append_take_drop_id take_add)

section \<open>SHA-1\<close>

type_synonym sha1_state = "w32 \<times> w32 \<times> w32 \<times> w32 \<times> w32"

definition rol32 :: "nat \<Rightarrow> w32 \<Rightarrow> w32" where
  "rol32 n w = push_bit n w OR drop_bit (32 - n) w"

definition sha1_init :: sha1_state where
  "sha1_init = (0x67452301, 0xEFCDAB89, 0x98BADCFE, 0x10325476, 0xC3D2E1F0)"

definition sha1_f :: "nat \<Rightarrow> w32 \<Rightarrow> w32 \<Rightarrow> w32 \<Rightarrow> w32" where
  "sha1_f t b c d =
     (if t < 20 then ((b AND c) OR (NOT b AND d)) + 0x5A827999
      else if t < 40 then (b XOR c XOR d) + 0x6ED9EBA1
      else if t < 60 then ((b AND c) OR (b AND d) OR (c AND d)) + 0x8F1BBCDC
      else (b XOR c XOR d) + 0xCA62C1D6)"

fun sha1_step :: "nat \<Rightarrow> w32 \<Rightarrow> sha1_state \<Rightarrow> sha1_state" where
  "sha1_step t w (a, b, c, d, e) = (rol32 5 a + sha1_f t b c d + e + w, a, rol32 30 b, c, d)"

fun sha1_rounds :: "nat list \<Rightarrow> w32 list \<Rightarrow> sha1_state \<Rightarrow> sha1_state" where
  "sha1_rounds [] win st = st"
| "sha1_rounds (t # ts) [] st = st"
| "sha1_rounds (t # ts) (w # win) st =
     sha1_rounds ts (win @ [rol32 1 (win ! 12 XOR win ! 7 XOR win ! 1 XOR w)]) (sha1_step t w st)"

fun sha1_add :: "sha1_state \<Rightarrow> sha1_state \<Rightarrow> sha1_state" where
  "sha1_add (a, b, c, d, e) (a', b', c', d', e') = (a + a', b + b', c + c', d + d', e + e')"

definition sha1_block :: "sha1_state \<Rightarrow> bytes \<Rightarrow> sha1_state" where
  "sha1_block st b = sha1_add st (sha1_rounds [0..<80] (words_of_block 16 b) st)"

fun sha1_blocks :: "nat \<Rightarrow> sha1_state \<Rightarrow> bytes \<Rightarrow> sha1_state" where
  "sha1_blocks 0 st b = st"
| "sha1_blocks (Suc n) st b = sha1_blocks n (sha1_block st (take 64 b)) (drop 64 b)"

fun sha1_bytes :: "sha1_state \<Rightarrow> bytes" where
  "sha1_bytes (a, b, c, d, e) = be32 a @ be32 b @ be32 c @ be32 d @ be32 e"

text \<open>SHA-1 pads like SHA-256.\<close>

definition sha1 :: "bytes \<Rightarrow> bytes" where
  "sha1 m = (let p = sha256_pad m in sha1_bytes (sha1_blocks (length p div 64) sha1_init p))"

definition hmac_sha1 :: "bytes \<Rightarrow> bytes \<Rightarrow> bytes" where
  "hmac_sha1 key msg =
     (let k0 = (if length key > 64 then sha1 key else key);
          k = k0 @ replicate (64 - length k0) 0
      in sha1 (map (\<lambda>b. b XOR 92) k @ sha1 (map (\<lambda>b. b XOR 54) k @ msg)))"

lemma length_sha1 [simp, len_simps]: "length (sha1 m) = 20"
proof -
  have "length (sha1_bytes st) = 20" for st by (cases st rule: sha1_bytes.cases) simp
  then show ?thesis by (simp add: sha1_def Let_def)
qed

lemma length_hmac_sha1 [simp, len_simps]: "length (hmac_sha1 k m) = 20"
  by (simp add: hmac_sha1_def Let_def)

interpretation sha1: mac_scheme hmac_sha1 20
  by unfold_locales simp

section \<open>AES-256\<close>

text \<open>A block is its sixteen bytes in order, column after column.\<close>

definition aes_sbox :: bytes where
  "aes_sbox =
     [99, 124, 119, 123, 242, 107, 111, 197, 48, 1, 103, 43, 254, 215, 171, 118,
      202, 130, 201, 125, 250, 89, 71, 240, 173, 212, 162, 175, 156, 164, 114, 192,
      183, 253, 147, 38, 54, 63, 247, 204, 52, 165, 229, 241, 113, 216, 49, 21,
      4, 199, 35, 195, 24, 150, 5, 154, 7, 18, 128, 226, 235, 39, 178, 117,
      9, 131, 44, 26, 27, 110, 90, 160, 82, 59, 214, 179, 41, 227, 47, 132,
      83, 209, 0, 237, 32, 252, 177, 91, 106, 203, 190, 57, 74, 76, 88, 207,
      208, 239, 170, 251, 67, 77, 51, 133, 69, 249, 2, 127, 80, 60, 159, 168,
      81, 163, 64, 143, 146, 157, 56, 245, 188, 182, 218, 33, 16, 255, 243, 210,
      205, 12, 19, 236, 95, 151, 68, 23, 196, 167, 126, 61, 100, 93, 25, 115,
      96, 129, 79, 220, 34, 42, 144, 136, 70, 238, 184, 20, 222, 94, 11, 219,
      224, 50, 58, 10, 73, 6, 36, 92, 194, 211, 172, 98, 145, 149, 228, 121,
      231, 200, 55, 109, 141, 213, 78, 169, 108, 86, 244, 234, 101, 122, 174, 8,
      186, 120, 37, 46, 28, 166, 180, 198, 232, 221, 116, 31, 75, 189, 139, 138,
      112, 62, 181, 102, 72, 3, 246, 14, 97, 53, 87, 185, 134, 193, 29, 158,
      225, 248, 152, 17, 105, 217, 142, 148, 155, 30, 135, 233, 206, 85, 40, 223,
      140, 161, 137, 13, 191, 230, 66, 104, 65, 153, 45, 15, 176, 84, 187, 22]"

definition sub_byte :: "byte \<Rightarrow> byte" where
  "sub_byte b = aes_sbox ! unat b"

definition xtime :: "byte \<Rightarrow> byte" where
  "xtime b = push_bit 1 b XOR (if bit b 7 then 0x1B else 0)"

definition shift_rows :: "bytes \<Rightarrow> bytes" where
  "shift_rows st = map (\<lambda>i. st ! ((i + 4 * (i mod 4)) mod 16)) [0..<16]"

definition mix_column :: "bytes \<Rightarrow> bytes" where
  "mix_column c = map (\<lambda>i. xtime (c ! i) XOR xtime (c ! ((i + 1) mod 4)) XOR c ! ((i + 1) mod 4)
                          XOR c ! ((i + 2) mod 4) XOR c ! ((i + 3) mod 4)) [0..<4]"

definition mix_columns :: "bytes \<Rightarrow> bytes" where
  "mix_columns st = concat (map (\<lambda>c. mix_column (take 4 (drop (4 * c) st))) [0..<4])"

text \<open>The key schedule: words of four bytes, each from the previous one and the one eight back.\<close>

definition next_key_word :: "nat \<Rightarrow> byte \<Rightarrow> bytes list \<Rightarrow> bytes" where
  "next_key_word i rcon ws =
     (let p = ws ! (i - 1);
          t = (if i mod 8 = 0 then xor_bytes (map sub_byte (rotate1 p)) [rcon, 0, 0, 0]
               else if i mod 8 = 4 then map sub_byte p else p)
      in xor_bytes (ws ! (i - 8)) t)"

fun expand_key :: "nat \<Rightarrow> byte \<Rightarrow> bytes list \<Rightarrow> bytes list" where
  "expand_key 0 rcon ws = ws"
| "expand_key (Suc n) rcon ws =
     (let i = length ws
      in expand_key n (if i mod 8 = 0 then xtime rcon else rcon) (ws @ [next_key_word i rcon ws]))"

definition round_keys :: "bytes \<Rightarrow> bytes list" where
  "round_keys key =
     (let ws = expand_key 52 1 (map (\<lambda>i. take 4 (drop (4 * i) key)) [0..<8])
      in map (\<lambda>r. concat (take 4 (drop (4 * r) ws))) [0..<15])"

definition aes_round :: "bytes \<Rightarrow> bytes \<Rightarrow> bytes" where
  "aes_round k st = xor_bytes (mix_columns (shift_rows (map sub_byte st))) k"

definition aes_encrypt :: "bytes list \<Rightarrow> bytes \<Rightarrow> bytes" where
  "aes_encrypt ks b =
     xor_bytes (shift_rows (map sub_byte (fold aes_round (take 13 (tl ks)) (xor_bytes b (hd ks))))) (ks ! 14)"

section \<open>Galois counter mode\<close>

text \<open>Multiplication in the field of the mode, bit 0 of a block being its most significant bit.\<close>

fun gf_steps :: "nat \<Rightarrow> 128 word \<Rightarrow> 128 word \<Rightarrow> 128 word \<Rightarrow> 128 word" where
  "gf_steps 0 x v z = z"
| "gf_steps (Suc n) x v z =
     gf_steps n x (drop_bit 1 v XOR (if bit v 0 then push_bit 120 0xE1 else 0)) (if bit x n then z XOR v else z)"

definition gf_mult :: "128 word \<Rightarrow> 128 word \<Rightarrow> 128 word" where
  "gf_mult x y = gf_steps 128 x y 0"

definition pad16 :: "bytes \<Rightarrow> bytes" where
  "pad16 b = b @ replicate ((16 - length b mod 16) mod 16) 0"

definition block_word :: "bytes \<Rightarrow> nat \<Rightarrow> 128 word" where
  "block_word b i = word_of_nat (be_nat (take 16 (drop (16 * i) b)))"

definition ghash :: "128 word \<Rightarrow> bytes \<Rightarrow> 128 word" where
  "ghash h b = foldl (\<lambda>y i. gf_mult (y XOR block_word b i) h) 0 [0..<length b div 16]"

definition gcm_keystream :: "bytes list \<Rightarrow> bytes \<Rightarrow> nat \<Rightarrow> bytes" where
  "gcm_keystream ks nonce n =
     concat (map (\<lambda>i. aes_encrypt ks (nonce @ be32 (word_of_nat (i + 2)))) [0..<(n + 15) div 16])"

definition gcm_tag :: "bytes list \<Rightarrow> bytes \<Rightarrow> bytes \<Rightarrow> bytes \<Rightarrow> bytes" where
  "gcm_tag ks nonce aad ct =
     (let h = block_word (aes_encrypt ks (replicate 16 0)) 0;
          s = ghash h (pad16 aad @ pad16 ct @ be_bytes 8 (8 * length aad) @ be_bytes 8 (8 * length ct))
      in xor_bytes (be_bytes 16 (unat s)) (aes_encrypt ks (nonce @ be32 1)))"

definition gcm_seal :: "bytes \<Rightarrow> bytes \<Rightarrow> bytes \<Rightarrow> bytes \<Rightarrow> bytes" where
  "gcm_seal key nonce aad plain =
     (let ks = round_keys key; ct = xor_bytes plain (gcm_keystream ks nonce (length plain))
      in ct @ gcm_tag ks nonce aad ct)"

definition gcm_open :: "bytes \<Rightarrow> bytes \<Rightarrow> bytes \<Rightarrow> bytes \<Rightarrow> bytes option" where
  "gcm_open key nonce aad b =
     (if length b < 16 then None
      else let ks = round_keys key; ct = take (length b - 16) b
           in if gcm_tag ks nonce aad ct \<noteq> drop (length b - 16) b then None
              else Some (xor_bytes ct (gcm_keystream ks nonce (length ct))))"

section \<open>What a user of the mode relies on\<close>

lemma length_shift_rows [simp, len_simps]: "length (shift_rows st) = 16"
  by (simp add: shift_rows_def)

lemma next_key_word_length:
  assumes "list_all (\<lambda>w. length w = 4) ws" "8 \<le> length ws"
  shows "length (next_key_word (length ws) rcon ws) = 4"
  using assms by (simp add: next_key_word_def Let_def list_all_length)

lemma expand_key_words:
  assumes "list_all (\<lambda>w. length w = 4) ws" "8 \<le> length ws"
  shows "length (expand_key n rcon ws) = length ws + n \<and> list_all (\<lambda>w. length w = 4) (expand_key n rcon ws)"
  using assms
proof (induction n rcon ws rule: expand_key.induct)
  case (2 n rcon ws)
  then show ?case by (simp add: Let_def next_key_word_length)
qed simp

lemma last_round_key:
  assumes "length key = 32"
  shows "length (round_keys key ! 14) = 16"
proof -
  define k8 where "k8 = map (\<lambda>i. take 4 (drop (4 * i) key)) [0..<8]"
  define ws where "ws = expand_key 52 1 k8"
  have "list_all (\<lambda>w. length w = 4) k8" "length k8 = 8"
    using assms by (auto simp: k8_def list_all_iff simp del: upt.simps)
  then have ws: "length ws = 60" "list_all (\<lambda>w. length w = 4) ws"
    using expand_key_words [of k8 52 1] by (simp_all add: ws_def)
  then have "map length (take 4 (drop 56 ws)) = replicate 4 4"
    by (auto simp: list_eq_iff_nth_eq list_all_length)
  then have "length (concat (take 4 (drop 56 ws))) = 16"
    by (simp only: length_concat) (simp add: numeral_eq_Suc)
  moreover have "[0..<15] ! 14 = (14 :: nat)" by (simp only: nth_upt)
  ultimately show ?thesis
    by (simp add: round_keys_def Let_def flip: k8_def ws_def)
qed

lemma length_aes_encrypt: "length key = 32 \<Longrightarrow> length (aes_encrypt (round_keys key) b) = 16"
  by (simp add: aes_encrypt_def last_round_key)

lemma length_gcm_keystream:
  assumes "length key = 32"
  shows "n \<le> length (gcm_keystream (round_keys key) nonce n)"
proof -
  have "length (gcm_keystream (round_keys key) nonce n) = 16 * ((n + 15) div 16)"
    by (simp add: gcm_keystream_def length_concat comp_def length_aes_encrypt [OF assms] sum_list_triv)
  then show ?thesis by linarith
qed

lemma length_gcm_tag: "length key = 32 \<Longrightarrow> length (gcm_tag (round_keys key) nonce aad ct) = 16"
  by (simp add: gcm_tag_def Let_def length_aes_encrypt)

text \<open>
  Authenticated encryption as the codecs use it: a key, a nonce, a header that is authenticated
  but not encrypted, and the payload.
\<close>

locale aead =
  fixes seal :: "bytes \<Rightarrow> bytes \<Rightarrow> bytes \<Rightarrow> bytes \<Rightarrow> bytes"
    and unseal :: "bytes \<Rightarrow> bytes \<Rightarrow> bytes \<Rightarrow> bytes \<Rightarrow> bytes option"
    and good_key :: "bytes \<Rightarrow> bool"
  assumes seal_length: "good_key k \<Longrightarrow> length (seal k n a p) = length p + 16"
    and unseal_seal: "good_key k \<Longrightarrow> unseal k n a (seal k n a p) = Some p"
    and unseal_sealed: "good_key k \<Longrightarrow> unseal k n a b = Some p \<Longrightarrow> b = seal k n a p"
begin

text \<open>Nothing but the sealing of the payload under the same key, nonce and header opens.\<close>

lemma unseal_iff: "good_key k \<Longrightarrow> unseal k n a b = Some p \<longleftrightarrow> b = seal k n a p"
  using unseal_seal unseal_sealed by blast

lemma seal_inj: "good_key k \<Longrightarrow> seal k n a p = seal k n a q \<Longrightarrow> p = q"
  by (metis option.inject unseal_seal)

lemma unseal_length: "good_key k \<Longrightarrow> unseal k n a b = Some p \<Longrightarrow> length b = length p + 16"
  by (simp add: unseal_iff seal_length)

end

interpretation gcm: aead gcm_seal gcm_open "\<lambda>k. length k = 32"
proof
  fix k n a p b :: bytes
  assume k: "length k = 32"
  show len: "length (gcm_seal k n a p) = length p + 16"
    using length_gcm_keystream [OF k, of "length p" n]
    by (simp add: gcm_seal_def Let_def length_gcm_tag [OF k] min_absorb1)
  show "gcm_open k n a (gcm_seal k n a p) = Some p"
    using length_gcm_keystream [OF k, of "length p" n]
    by (simp add: gcm_open_def gcm_seal_def Let_def length_gcm_tag [OF k] min_absorb1 xor_bytes_cancel)
  assume "gcm_open k n a b = Some p"
  then have *: "16 \<le> length b" "gcm_tag (round_keys k) n a (take (length b - 16) b) = drop (length b - 16) b"
      "p = xor_bytes (take (length b - 16) b) (gcm_keystream (round_keys k) n (length b - 16))"
    by (auto simp: gcm_open_def Let_def min_absorb1 split: if_splits)
  moreover have "length p = length b - 16" "xor_bytes p (gcm_keystream (round_keys k) n (length b - 16)) = take (length b - 16) b"
    using length_gcm_keystream [OF k, of "length b - 16" n] by (simp_all add: *(3) xor_bytes_cancel min_absorb1)
  ultimately show "b = gcm_seal k n a p"
    by (simp add: gcm_seal_def Let_def)
qed

end
