(* ===== verification/Ovpn.thy ===== *)
theory Ovpn
  imports Vpn_Codecs Crypto "HOL-Library.Monad_Syntax"
begin

text \<open>
  The OpenVPN packets of the probe (\<open>internal/ovpn\<close>): the control channel with and without
  tls-auth, the hard resets that open a flow, the two-byte framing over TCP and the AES-256-GCM
  data channel with the keys both ends derive from the session key. The random session ids and
  the clock are arguments; the replay counter of a layout is state and is passed along.
\<close>

unbundle bit_operations_syntax

section \<open>Packets and layouts\<close>

abbreviation OpControlV1 :: int where "OpControlV1 \<equiv> 4"
abbreviation OpAckV1 :: int where "OpAckV1 \<equiv> 5"
abbreviation OpHardResetClientV2 :: int where "OpHardResetClientV2 \<equiv> 7"
abbreviation OpHardResetServerV2 :: int where "OpHardResetServerV2 \<equiv> 8"
abbreviation OpDataV2 :: int where "OpDataV2 \<equiv> 9"
abbreviation SIDLen :: nat where "SIDLen \<equiv> 8"
abbreviation HMACLen :: nat where "HMACLen \<equiv> 20"
abbreviation ReplayLen :: nat where "ReplayLen \<equiv> 8"
abbreviation ClientResetLen :: nat where "ClientResetLen \<equiv> 14"
abbreviation ServerResetLen :: nat where "ServerResetLen \<equiv> 26"
abbreviation ControlHdrLen :: nat where "ControlHdrLen \<equiv> 14"
abbreviation ClientResetLenTLSAuth :: nat where "ClientResetLenTLSAuth \<equiv> 42"
abbreviation ServerResetLenTLSAuth :: nat where "ServerResetLenTLSAuth \<equiv> 54"
abbreviation DataHdrLen :: nat where "DataHdrLen \<equiv> 8"
abbreviation DataTagLen :: nat where "DataTagLen \<equiv> 16"
abbreviation DataKeyLen :: nat where "DataKeyLen \<equiv> 32"
abbreviation TLSAuthKeyLen :: nat where "TLSAuthKeyLen \<equiv> 64"
abbreviation MaxControlLen :: nat where "MaxControlLen \<equiv> 1400"

datatype ovpn_error = ErrNotReset | ErrNotControl | ErrNotData | ErrBadHMAC | ErrBadTag | ErrShort | ErrKeySize

datatype ovpn_auth = AuthNone | AuthTLS

definition Auth_String :: "ovpn_auth \<Rightarrow> string" where
  "Auth_String a = (if a = AuthTLS then ''tls-auth'' else ''none'')"

definition Opcode :: "bytes \<Rightarrow> int" where
  "Opcode b = (if b = [] then 0 else uint (drop_bit 3 (b ! 0)))"

definition SessionOf :: "bytes \<Rightarrow> bytes option" where
  "SessionOf b = (if length b < 1 + SIDLen then None else Some (take 8 (drop 1 b)))"

definition IsControlOp :: "int \<Rightarrow> bool" where
  "IsControlOp op \<longleftrightarrow> op = OpControlV1 \<or> op = OpAckV1 \<or> op = OpHardResetClientV2 \<or> op = OpHardResetServerV2"

record packet =
  p_op :: int
  p_keyid :: int
  p_sid :: bytes
  p_acks :: "32 word list"
  p_remote :: bytes
  p_pid :: "32 word"
  p_payload :: bytes
  p_replay :: "32 word"
  p_nettime :: "32 word"

definition zero_packet :: packet where
  "zero_packet = \<lparr>p_op = 0, p_keyid = 0, p_sid = replicate 8 0, p_acks = [], p_remote = replicate 8 0, p_pid = 0,
     p_payload = [], p_replay = 0, p_nettime = 0\<rparr>"

text \<open>\<open>la_recv = None\<close> is the nil key of a layout that only unpacks.\<close>

record layout =
  la_auth :: ovpn_auth
  la_send :: bytes
  la_recv :: "bytes option"
  la_replay :: "32 word"

definition Plain :: layout where
  "Plain = \<lparr>la_auth = AuthNone, la_send = [], la_recv = None, la_replay = 0\<rparr>"

definition TLSAuth :: "bytes \<Rightarrow> bytes \<Rightarrow> layout" where
  "TLSAuth send recv = \<lparr>la_auth = AuthTLS, la_send = send, la_recv = Some recv, la_replay = 1\<rparr>"

definition TLSAuthDirKeys :: "bytes \<Rightarrow> ovpn_error + bytes \<times> bytes" where
  "TLSAuthDirKeys static =
     (if length static \<noteq> TLSAuthKeyLen then Inl ErrKeySize else Inr (take HMACLen static, take HMACLen (drop 32 static)))"

definition HdrLen :: "layout \<Rightarrow> nat \<Rightarrow> nat" where
  "HdrLen l nAcks =
     ControlHdrLen + 4 * nAcks + (if nAcks > 0 then SIDLen else 0) + (if la_auth l = AuthTLS then HMACLen + ReplayLen else 0)"

section \<open>The control channel\<close>

definition packet_head :: "packet \<Rightarrow> bytes" where
  "packet_head p = word_of_int (push_bit 3 (p_op p) OR (p_keyid p AND 7)) # p_sid p"

definition packet_body :: "packet \<Rightarrow> bytes" where
  "packet_body p =
     word_of_nat (length (p_acks p)) # concat (map be32 (p_acks p))
     @ (if p_acks p \<noteq> [] then p_remote p else [])
     @ (if p_op p \<noteq> OpAckV1 then be32 (p_pid p) @ p_payload p else [])"

definition replay_id :: "layout \<Rightarrow> 32 word" where
  "replay_id l = (if la_replay l = 0 then 1 else la_replay l)"

definition Build :: "layout \<Rightarrow> 32 word \<Rightarrow> packet \<Rightarrow> layout \<times> bytes" where
  "Build l now p =
     (if la_auth l \<noteq> AuthTLS then (l, packet_head p @ packet_body p)
      else let replay = be32 (replay_id l) @ be32 now
           in (l\<lparr>la_replay := replay_id l + 1\<rparr>,
               packet_head p @ hmac_sha1 (la_send l) (replay @ packet_head p @ packet_body p) @ replay @ packet_body p))"

text \<open>The fields after the session id (and after the tls-auth block): acks, packet id, payload.\<close>

definition parse_body :: "packet \<Rightarrow> bytes \<Rightarrow> (ovpn_error + packet) option" where
  "parse_body p rest = do {
     n \<leftarrow> ix rest 0;
     rest \<leftarrow> from_ix rest 1;
     let nAcks = unat n;
     if length rest < 4 * nAcks + (if nAcks > 0 then SIDLen else 0) then Some (Inl ErrShort)
     else do {
       let acks = map (w32 rest) (map (\<lambda>i. 4 * i) [0..<nAcks]);
       rest \<leftarrow> from_ix rest (4 * nAcks);
       remote \<leftarrow> (if nAcks > 0 then slc rest 0 SIDLen else Some (p_remote p));
       rest \<leftarrow> (if nAcks > 0 then from_ix rest SIDLen else Some rest);
       let p = p\<lparr>p_acks := acks, p_remote := remote\<rparr>;
       if p_op p = OpAckV1 then Some (if length rest \<noteq> 0 then Inl ErrNotControl else Inr p)
       else if length rest < 4 then Some (Inl ErrShort)
       else do {
         pid \<leftarrow> u32 rest 0;
         payload \<leftarrow> from_ix rest 4;
         Some (Inr (p\<lparr>p_pid := pid, p_payload := payload\<rparr>))
       }
     }
   }"

definition Parse :: "layout \<Rightarrow> bytes \<Rightarrow> (ovpn_error + packet) option" where
  "Parse l b =
     (if length b < 1 + SIDLen + 1 \<or> \<not> IsControlOp (Opcode b) then Some (Inl ErrNotControl)
      else do {
        b0 \<leftarrow> ix b 0;
        sid \<leftarrow> slc b 1 9;
        let p = zero_packet\<lparr>p_op := Opcode b, p_keyid := uint (b0 AND 7), p_sid := sid\<rparr>;
        head \<leftarrow> slc b 0 9;
        rest \<leftarrow> from_ix b 9;
        if la_auth l = AuthTLS
        then (if length rest < HMACLen + ReplayLen + 1 then Some (Inl ErrShort)
              else do {
                tag \<leftarrow> slc rest 0 HMACLen;
                replay \<leftarrow> slc rest HMACLen (HMACLen + ReplayLen);
                rest \<leftarrow> from_ix rest (HMACLen + ReplayLen);
                id \<leftarrow> u32 replay 0;
                nt \<leftarrow> u32 replay 4;
                if (case la_recv l of None \<Rightarrow> True | Some k \<Rightarrow> hmac_sha1 k (replay @ head @ rest) = tag)
                then parse_body (p\<lparr>p_replay := id, p_nettime := nt\<rparr>) rest
                else Some (Inl ErrBadHMAC)
              })
        else parse_body p rest
      })"

section \<open>Resets, acks and control messages\<close>

definition ClientReset :: "layout \<Rightarrow> 32 word \<Rightarrow> bytes \<Rightarrow> layout \<times> bytes" where
  "ClientReset l now sid = Build l now (zero_packet\<lparr>p_op := OpHardResetClientV2, p_sid := sid\<rparr>)"

definition ServerReset :: "layout \<Rightarrow> 32 word \<Rightarrow> bytes \<Rightarrow> bytes \<Rightarrow> layout \<times> bytes" where
  "ServerReset l now clientSession serverSession =
     Build l now (zero_packet\<lparr>p_op := OpHardResetServerV2, p_sid := serverSession, p_acks := [0], p_remote := clientSession\<rparr>)"

definition IsClientReset :: "bytes \<Rightarrow> ovpn_auth \<times> bool" where
  "IsClientReset b =
     (if Opcode b \<noteq> OpHardResetClientV2 then (AuthNone, False)
      else if length b = ClientResetLen then (AuthNone, True)
      else if length b = ClientResetLenTLSAuth then (AuthTLS, True)
      else (AuthNone, False))"

definition ParseClientReset :: "layout \<Rightarrow> bytes \<Rightarrow> (ovpn_error + bytes) option" where
  "ParseClientReset l b =
     (if IsClientReset b \<noteq> (la_auth l, True) then Some (Inl ErrNotReset)
      else do {
        r \<leftarrow> Parse l b;
        Some (case r of
                Inl e \<Rightarrow> Inl e
              | Inr p \<Rightarrow> if length (p_acks p) \<noteq> 0 \<or> length (p_payload p) \<noteq> 0 then Inl ErrNotReset else Inr (p_sid p))
      })"

definition ParseServerReset :: "layout \<Rightarrow> bytes \<Rightarrow> (ovpn_error + bytes \<times> bytes) option" where
  "ParseServerReset l b =
     (if Opcode b \<noteq> OpHardResetServerV2 then Some (Inl ErrNotReset)
      else if length b \<noteq> (if la_auth l = AuthTLS then ServerResetLenTLSAuth else ServerResetLen) then Some (Inl ErrNotReset)
      else do {
        r \<leftarrow> Parse l b;
        Some (case r of
                Inl e \<Rightarrow> Inl e
              | Inr p \<Rightarrow> if p_acks p \<noteq> [0] \<or> length (p_payload p) \<noteq> 0 then Inl ErrNotReset else Inr (p_remote p, p_sid p))
      })"

definition Ack :: "layout \<Rightarrow> 32 word \<Rightarrow> bytes \<Rightarrow> bytes \<Rightarrow> 32 word \<Rightarrow> layout \<times> bytes" where
  "Ack l now sid remote pid = Build l now (zero_packet\<lparr>p_op := OpAckV1, p_sid := sid, p_acks := [pid], p_remote := remote\<rparr>)"

definition ovpn_Control :: "layout \<Rightarrow> 32 word \<Rightarrow> bytes \<Rightarrow> 32 word \<Rightarrow> bytes \<Rightarrow> 32 word list \<Rightarrow> bytes \<Rightarrow> layout \<times> bytes" where
  "ovpn_Control l now sid pid payload acks remote =
     Build l now (zero_packet\<lparr>p_op := OpControlV1, p_sid := sid, p_pid := pid, p_payload := payload, p_acks := acks, p_remote := remote\<rparr>)"

definition IsClientResetTCP :: "bytes \<Rightarrow> bool" where
  "IsClientResetTCP b \<longleftrightarrow> length b \<ge> 3 \<and>
     (unat (w16 b 0) = ClientResetLen \<or> unat (w16 b 0) = ClientResetLenTLSAuth)
     \<and> uint (drop_bit 3 (b ! 2)) = OpHardResetClientV2"

definition FrameTCP :: "bytes \<Rightarrow> bytes" where
  "FrameTCP pkt = be16 (word_of_nat (length pkt)) @ pkt"

section \<open>The data channel\<close>

record data_key =
  dk_key :: bytes
  dk_iv :: bytes

definition newDataKey :: "bytes \<Rightarrow> data_key" where
  "newDataKey k = \<lparr>dk_key = take DataKeyLen k, dk_iv = take 8 (hmac_sha256 k (bytes_of ''implicit-iv''))\<rparr>"

definition DeriveDataKeys :: "bytes \<Rightarrow> string \<Rightarrow> data_key \<times> data_key" where
  "DeriveDataKeys sessionKey attemptID =
     (let base = hmac_sha256 sessionKey (bytes_of (''openvpn-data:'' @ attemptID))
      in (newDataKey (hmac_sha256 base (bytes_of ''c2s'')), newDataKey (hmac_sha256 base (bytes_of ''s2c''))))"

definition ovpn_IsData :: "bytes \<Rightarrow> bool" where
  "ovpn_IsData b \<longleftrightarrow> length b \<ge> DataHdrLen + DataTagLen \<and> b ! 0 = 72"

definition DataPeer :: "bytes \<Rightarrow> 32 word option" where
  "DataPeer b = do { h \<leftarrow> ix b 1; m \<leftarrow> ix b 2; l \<leftarrow> ix b 3;
     Some (push_bit 16 (ucast h) OR push_bit 8 (ucast m) OR ucast l) }"

definition data_header :: "32 word \<Rightarrow> 32 word \<Rightarrow> bytes" where
  "data_header peerID pid = [72, ucast (drop_bit 16 peerID), ucast (drop_bit 8 peerID), ucast peerID] @ be32 pid"

definition Seal :: "data_key \<Rightarrow> 32 word \<Rightarrow> 32 word \<Rightarrow> bytes \<Rightarrow> bytes" where
  "Seal k peerID pid plain =
     data_header peerID pid @ gcm_seal (dk_key k) (be32 pid @ dk_iv k) (data_header peerID pid) plain"

definition Open :: "data_key \<Rightarrow> bytes \<Rightarrow> 32 word \<times> bytes \<times> ovpn_error option" where
  "Open k b =
     (if \<not> ovpn_IsData b then (0, [], Some ErrNotData)
      else let pid = w32 b 4
           in case gcm_open (dk_key k) (be32 pid @ dk_iv k) (take DataHdrLen b) (drop DataHdrLen b) of
                None \<Rightarrow> (pid, [], Some ErrBadTag)
              | Some plain \<Rightarrow> (pid, plain, None))"

section \<open>Serialisation\<close>

lemma be32_w32: "i + 4 \<le> length b \<Longrightarrow> be32 (w32 b i) = take 4 (drop i b)"
  using be_bytes_be_nat [of "take 4 (drop i b)"] be_nat_less [of "take 4 (drop i b)"]
  by (simp add: be32_def w32_def unat_of_nat min_absorb2)

lemma w32_acks: "i < length as \<Longrightarrow> w32 (concat (map be32 as) @ r) (4 * i) = as ! i"
proof (induction as arbitrary: i)
  case (Cons a as)
  then show ?case by (cases i) (simp_all add: w32_def)
qed simp

lemma read_acks: "map (w32 (concat (map be32 as) @ r)) (map (\<lambda>i. 4 * i) [0..<length as]) = as"
  by (rule nth_equalityI) (simp_all add: w32_acks)

lemma write_acks: "4 * n \<le> length r \<Longrightarrow> concat (map be32 (map (w32 r) (map (\<lambda>i. 4 * i) [0..<n]))) = take (4 * n) r"
proof (induction n)
  case (Suc n)
  have "concat (map be32 (map (w32 r) (map (\<lambda>i. 4 * i) [0..<Suc n]))) = take (4 * n) r @ take 4 (drop (4 * n) r)"
    using Suc by (simp add: be32_w32)
  also have "\<dots> = take (4 * Suc n) r"
    by (simp add: add.commute flip: take_add)
  finally show ?case .
qed simp

lemma length_acks [simp]: "length (concat (map be32 as)) = 4 * length as"
  by (induction as) simp_all

text \<open>What a packet on the wire can be: the fields the layout does not carry are zero.\<close>

definition wf_packet :: "packet \<Rightarrow> bool" where
  "wf_packet p \<longleftrightarrow> IsControlOp (p_op p) \<and> 0 \<le> p_keyid p \<and> p_keyid p < 8 \<and> length (p_sid p) = 8
     \<and> length (p_acks p) < 256 \<and> length (p_remote p) = 8 \<and> (p_acks p = [] \<longrightarrow> p_remote p = replicate 8 0)
     \<and> (p_op p = OpAckV1 \<longrightarrow> p_pid p = 0 \<and> p_payload p = [])"

lemma parse_body_packet:
  assumes "wf_packet p" "p_op p0 = p_op p" "p_remote p0 = replicate 8 0" "p_pid p0 = 0" "p_payload p0 = []"
  shows "parse_body p0 (packet_body p) =
           Some (Inr (p0\<lparr>p_acks := p_acks p, p_remote := p_remote p, p_pid := p_pid p, p_payload := p_payload p\<rparr>))"
proof -
  let ?r = "(if p_acks p \<noteq> [] then p_remote p else []) @ (if p_op p \<noteq> OpAckV1 then be32 (p_pid p) @ p_payload p else [])"
  have "unat (word_of_nat (length (p_acks p)) :: byte) = length (p_acks p)"
    using assms(1) by (simp add: wf_packet_def unat_word_of_nat_8)
  then show ?thesis
    using assms read_acks [of "p_acks p" ?r]
    by (cases "p_acks p = []")
       (auto simp: parse_body_def packet_body_def wf_packet_def Let_def ix_def slc_def from_ix_def reading simp del: map_map)
qed

lemma parse_body_shape:
  assumes "parse_body p0 rest = Some (Inr p)" "p_remote p0 = replicate 8 0" "p_pid p0 = 0" "p_payload p0 = []"
  shows "rest = packet_body p \<and> packet_head p = packet_head p0 \<and> p_op p = p_op p0 \<and> p_keyid p = p_keyid p0 \<and> p_sid p = p_sid p0
     \<and> p_replay p = p_replay p0 \<and> p_nettime p = p_nettime p0
     \<and> length (p_acks p) < 256 \<and> length (p_remote p) = 8 \<and> (p_acks p = [] \<longrightarrow> p_remote p = replicate 8 0)
     \<and> (p_op p = OpAckV1 \<longrightarrow> p_pid p = 0 \<and> p_payload p = [])"
proof -
  from assms(1) obtain x r where r: "rest = x # r" by (cases rest) (auto simp: parse_body_def ix_def)
  let ?n = "unat x"
  let ?acks = "map (w32 r) (map (\<lambda>i. 4 * i) [0..<?n])"
  let ?s = "if ?n > 0 then drop (4 * ?n + 8) r else r"
  let ?rem = "if ?n > 0 then take 8 (drop (4 * ?n) r) else replicate 8 0"
  have len: "4 * ?n + (if ?n > 0 then 8 else 0) \<le> length r"
    and p: "p_op p0 = OpAckV1 \<and> ?s = [] \<and> p = p0\<lparr>p_acks := ?acks, p_remote := ?rem\<rparr>
      \<or> p_op p0 \<noteq> OpAckV1 \<and> 4 \<le> length ?s \<and> p = p0\<lparr>p_acks := ?acks, p_remote := ?rem, p_pid := w32 ?s 0, p_payload := drop 4 ?s\<rparr>"
    using assms by (auto simp: r parse_body_def ix_def from_ix_def slc_def Let_def go_defs w32_def add.commute
        split: if_splits simp del: map_map)
  have word: "word_of_nat ?n = x" "?n < 256" by (simp_all add: unat_byte_less)
  have parts: "r = concat (map be32 ?acks) @ (if ?acks \<noteq> [] then ?rem else []) @ ?s"
    using len write_acks [of ?n r] append_take_drop_id [of 8 "drop (4 * ?n) r"]
    by (simp add: add.commute del: append_take_drop_id map_map) simp
  have "be32 (w32 ?s 0) @ drop 4 ?s = ?s" if "4 \<le> length ?s"
    using be32_w32 [of 0 ?s] that by simp
  with p parts len word assms(2-4) show ?thesis
    by (cases p0) (auto simp: r packet_body_def packet_head_def unsigned_eq_0_iff simp del: map_map)
qed

definition tls_block :: "layout \<Rightarrow> bytes \<Rightarrow> packet \<Rightarrow> bytes" where
  "tls_block l tag p = (if la_auth l = AuthTLS then tag @ be32 (p_replay p) @ be32 (p_nettime p) else [])"

text \<open>The tag a layout accepts on a packet, the replay fields and the packet without the tag
  being what it covers.\<close>

definition tag_ok :: "layout \<Rightarrow> bytes \<Rightarrow> packet \<Rightarrow> bool" where
  "tag_ok l tag p \<longleftrightarrow> length tag = 20
     \<and> (case la_recv l of None \<Rightarrow> True
        | Some k \<Rightarrow> tag = hmac_sha1 k (be32 (p_replay p) @ be32 (p_nettime p) @ packet_head p @ packet_body p))"

lemma head_byte:
  assumes "IsControlOp op" "0 \<le> kid" "kid < 8"
  shows "uint (drop_bit 3 (word_of_int (push_bit 3 op OR (kid AND 7)) :: byte)) = op"
    and "uint ((word_of_int (push_bit 3 op OR (kid AND 7)) :: byte) AND 7) = kid"
proof -
  have "kid \<in> {0, 1, 2, 3, 4, 5, 6, 7}" using assms by auto
  moreover have "op \<in> {4, 5, 7, 8}" using assms(1) by (auto simp: IsControlOp_def)
  ultimately show "uint (drop_bit 3 (word_of_int (push_bit 3 op OR (kid AND 7)) :: byte)) = op"
    "uint ((word_of_int (push_bit 3 op OR (kid AND 7)) :: byte) AND 7) = kid"
    by auto
qed

lemma byte_split: "word_of_int (push_bit 3 (uint (drop_bit 3 x)) OR (uint (x AND 7) AND 7)) = (x :: byte)"
proof (rule bit_word_eqI)
  fix n assume "n < LENGTH(8)"
  then have "n \<in> {0, 1, 2, 3, 4, 5, 6, 7}" by auto
  then show "bit (word_of_int (push_bit 3 (uint (drop_bit 3 x)) OR (uint (x AND 7) AND 7)) :: byte) n = bit x n"
    by (auto simp: bit_simps)
qed

lemma packet_lengths:
  assumes "wf_packet p"
  shows "length (packet_head p) = 9" "Suc 0 \<le> length (packet_body p)"
  using assms by (simp_all add: packet_head_def packet_body_def wf_packet_def)

lemma parse_packet:
  assumes "wf_packet p" "tag_ok l tag p" "la_auth l = AuthNone \<Longrightarrow> p_replay p = 0 \<and> p_nettime p = 0"
  shows "Parse l (packet_head p @ tls_block l tag p @ packet_body p) = Some (Inr p)"
proof -
  have h: "Opcode (packet_head p @ r) = p_op p" "uint ((packet_head p ! 0) AND 7) = p_keyid p"
      "take 8 (drop 1 (packet_head p)) = p_sid p" for r
    using assms(1) head_byte [of "p_op p" "p_keyid p"] by (simp_all add: Opcode_def packet_head_def wf_packet_def)
  let ?p0 = "zero_packet\<lparr>p_op := p_op p, p_keyid := p_keyid p, p_sid := p_sid p\<rparr>"
  have tls: "parse_body (?p0\<lparr>p_replay := p_replay p, p_nettime := p_nettime p\<rparr>) (packet_body p) = Some (Inr p)"
    using parse_body_packet [OF assms(1)] assms(1) by (simp add: zero_packet_def)
  have plain: "parse_body ?p0 (packet_body p) = Some (Inr p)" if "la_auth l = AuthNone"
    using parse_body_packet [OF assms(1)] assms(1) assms(3) [OF that] by (simp add: zero_packet_def)
  have op: "IsControlOp (p_op p)" "length (p_sid p) = 8" "packet_body p \<noteq> []"
    using assms(1) by (simp_all add: wf_packet_def packet_body_def)
  show ?thesis
  proof (cases "la_auth l")
    case AuthNone
    then show ?thesis
      using plain op packet_lengths [OF assms(1)] h
      by (simp add: Parse_def tls_block_def Let_def ix_def slc_def from_ix_def nth_append)
  next
    case AuthTLS
    then show ?thesis
      using tls op assms(2) packet_lengths [OF assms(1)] h
      by (cases "la_recv l")
         (simp_all add: Parse_def tls_block_def tag_ok_def Let_def ix_def slc_def from_ix_def reading nth_append)
  qed
qed

lemma parse_body_packet_of:
  assumes "parse_body p0 rest = Some (Inr p)" "p_remote p0 = replicate 8 0" "p_pid p0 = 0" "p_payload p0 = []"
    and "IsControlOp (p_op p0)" "0 \<le> p_keyid p0" "p_keyid p0 < 8" "length (p_sid p0) = 8"
  shows "wf_packet p" "rest = packet_body p" "packet_head p = packet_head p0"
    "p_replay p = p_replay p0" "p_nettime p = p_nettime p0"
  using parse_body_shape [OF assms(1-4)] assms(5-8) by (simp_all add: wf_packet_def)

lemma parse_shape:
  assumes "Parse l b = Some (Inr p)"
  obtains tag where "wf_packet p" "tag_ok l tag p" "b = packet_head p @ tls_block l tag p @ packet_body p"
    "la_auth l = AuthNone \<longrightarrow> p_replay p = 0 \<and> p_nettime p = 0"
proof -
  let ?p0 = "zero_packet\<lparr>p_op := Opcode b, p_keyid := uint ((b ! 0) AND 7), p_sid := take 8 (drop 1 b)\<rparr>"
  from assms have b: "10 \<le> length b" "IsControlOp (Opcode b)"
    by (auto simp: Parse_def split: if_splits)
  then have op: "Opcode b = uint (drop_bit 3 (b ! 0))" "b \<noteq> []" by (auto simp: Opcode_def)
  have kid: "0 \<le> uint ((b ! 0) AND 7)" "uint ((b ! 0) AND 7) < 8"
    by (simp_all add: unsigned_and_eq AND_upper2'')
  have head: "take 9 b = packet_head ?p0"
    using b op by (cases b) (simp_all add: packet_head_def byte_split)
  show thesis
  proof (cases "la_auth l")
    case AuthNone
    have "parse_body ?p0 (drop 9 b) = Some (Inr p)"
      using assms b op(2) AuthNone by (simp add: Parse_def Let_def ix_def slc_def from_ix_def)
    note p = parse_body_packet_of [OF this]
    let ?tag = "case la_recv l of None \<Rightarrow> replicate 20 0
      | Some k \<Rightarrow> hmac_sha1 k (be32 (p_replay p) @ be32 (p_nettime p) @ packet_head p @ packet_body p)"
    have "tag_ok l ?tag p" by (simp add: tag_ok_def split: option.splits)
    moreover have "wf_packet p" "drop 9 b = packet_body p" "packet_head p = packet_head ?p0" "p_replay p = 0 \<and> p_nettime p = 0"
      using p b kid by (simp_all add: zero_packet_def)
    ultimately show thesis
      using that [of ?tag] head AuthNone append_take_drop_id [of 9 b] by (simp add: tls_block_def del: append_take_drop_id)
  next
    case AuthTLS
    let ?r = "drop 9 b"
    have long: "29 \<le> length ?r"
      using assms b op(2) AuthTLS by (auto simp: Parse_def Let_def ix_def slc_def from_ix_def split: if_splits)
    let ?p1 = "?p0\<lparr>p_replay := w32 ?r 20, p_nettime := w32 ?r 24\<rparr>"
    have *: "parse_body ?p1 (drop 28 ?r) = Some (Inr p)"
      "\<And>k. la_recv l = Some k \<Longrightarrow> take 20 ?r = hmac_sha1 k (take 8 (drop 20 ?r) @ take 9 b @ drop 28 ?r)"
      using assms b op(2) AuthTLS long
      by (auto simp: Parse_def Let_def ix_def slc_def from_ix_def go_defs w32_def add.commute drop_take
          split: if_splits option.splits)
    note p = parse_body_packet_of [OF *(1)]
    have f: "wf_packet p" "drop 28 ?r = packet_body p" "packet_head p = packet_head ?p0"
        "p_replay p = w32 ?r 20" "p_nettime p = w32 ?r 24"
      using p b kid by (simp_all add: zero_packet_def packet_head_def)
    have rep: "be32 (w32 ?r 20) @ be32 (w32 ?r 24) @ x = take 8 (drop 20 ?r) @ x" for x
      using long be32_w32 [of 20 ?r] be32_w32 [of 24 ?r] take_add [of 4 4 "drop 29 b"] by simp
    have tag: "tag_ok l (take 20 ?r) p"
      using f * head long by (auto simp: tag_ok_def rep split: option.splits)
    have "packet_head p @ tls_block l (take 20 ?r) p @ packet_body p = take 9 b @ take 20 ?r @ take 8 (drop 20 ?r) @ drop 28 ?r"
      using f head AuthTLS by (simp add: tls_block_def rep)
    also have "\<dots> = b"
      using cut3 [of b 9 20 8, symmetric] by simp
    finally show thesis
      by (intro that [OF f(1) tag]) (simp_all add: AuthTLS)
  qed
qed

lemma parse_total: "Parse l b \<noteq> None"
proof -
  have "\<exists>y. parse_body p (x # r) = Some y" for p x r
    by (auto simp: parse_body_def ix_def from_ix_def slc_def go_defs Let_def)
  then have *: "\<exists>y. parse_body p r = Some y" if "r \<noteq> []" for p r
    using that by (cases r) auto
  show ?thesis
    by (auto simp: Parse_def ix_def slc_def from_ix_def go_defs Let_def * split: option.splits)
qed

text \<open>A packet as its reader sees it: the replay fields of the layout that built it filled in.\<close>

definition stamped :: "layout \<Rightarrow> 32 word \<Rightarrow> packet \<Rightarrow> packet" where
  "stamped l now p = (if la_auth l = AuthTLS then p\<lparr>p_replay := replay_id l, p_nettime := now\<rparr> else p\<lparr>p_replay := 0, p_nettime := 0\<rparr>)"

lemma stamped_fields [simp]:
  "packet_head (stamped l now p) = packet_head p" "packet_body (stamped l now p) = packet_body p"
  "wf_packet (stamped l now p) = wf_packet p" "p_acks (stamped l now p) = p_acks p" "p_payload (stamped l now p) = p_payload p"
  "p_sid (stamped l now p) = p_sid p" "p_remote (stamped l now p) = p_remote p"
  by (simp_all add: stamped_def packet_head_def packet_body_def wf_packet_def)

text \<open>Two ends whose packets one can read: the layouts agree and, under tls-auth, so do the keys.\<close>

definition reads_from :: "layout \<Rightarrow> layout \<Rightarrow> bool" where
  "reads_from l' l \<longleftrightarrow> la_auth l' = la_auth l \<and> (la_auth l = AuthTLS \<longrightarrow> la_recv l' = Some (la_send l))"

lemma Parse_Build:
  assumes "wf_packet p" "reads_from l' l"
  shows "Parse l' (snd (Build l now p)) = Some (Inr (stamped l now p))"
proof -
  let ?key = "case la_recv l' of None \<Rightarrow> [] | Some k \<Rightarrow> k"
  let ?tag = "hmac_sha1 ?key (be32 (p_replay (stamped l now p)) @ be32 (p_nettime (stamped l now p)) @ packet_head p @ packet_body p)"
  have "snd (Build l now p) = packet_head p @ tls_block l' ?tag (stamped l now p) @ packet_body p"
    using assms(2) by (simp add: Build_def tls_block_def Let_def stamped_def reads_from_def)
  moreover have "tag_ok l' ?tag (stamped l now p)"
    by (simp add: tag_ok_def split: option.splits)
  moreover have "la_auth l' = AuthNone \<Longrightarrow> p_replay (stamped l now p) = 0 \<and> p_nettime (stamped l now p) = 0"
    using assms(2) by (simp add: stamped_def reads_from_def)
  ultimately show ?thesis
    using parse_packet [of "stamped l now p" l' ?tag] assms(1) by simp
qed

section \<open>Properties\<close>

text \<open>A control packet is accepted exactly when it is the serialisation of a well-formed packet whose
  tag, under tls-auth with a receive key, is the HMAC of its replay fields, header and body: what
  the other end builds is read back field by field, and nothing that was cut, extended or altered
  under the tag is accepted. The parser never reads outside the packet.\<close>

theorem ovpn_control_channel:
  "(Parse l b = Some (Inr p)) =
      (wf_packet p \<and> (if la_auth l = AuthTLS then True else p_replay p = 0 \<and> p_nettime p = 0)
      \<and> (\<exists>tag. tag_ok l tag p \<and> b = packet_head p @ tls_block l tag p @ packet_body p))
   \<and> Parse l b \<noteq> None"
proof -
  have "la_auth l = AuthNone \<or> la_auth l = AuthTLS" by (cases "la_auth l") auto
  then show ?thesis
    using parse_total [of l b] parse_packet [of p l] parse_shape [of l b p] by auto
qed

text \<open>The opening of a flow works between two ends that share the static key: the server reads the
  client's session id from its reset, the client reads both ids from the server's answer, and
  both resets have the lengths by which the demultiplexer tells the layouts apart.\<close>

theorem ovpn_reset_exchange:
  assumes "reads_from server client" "reads_from client server" and "length csid = 8" "length ssid = 8"
  shows "ParseClientReset server (snd (ClientReset client t csid)) = Some (Inr csid)
    \<and> ParseServerReset client (snd (ServerReset server t' csid ssid)) = Some (Inr (csid, ssid))
    \<and> IsClientReset (snd (ClientReset client t csid)) = (la_auth client, True)"
proof -
  let ?c = "zero_packet\<lparr>p_op := OpHardResetClientV2, p_sid := csid\<rparr>"
  let ?s = "zero_packet\<lparr>p_op := OpHardResetServerV2, p_sid := ssid, p_acks := [0], p_remote := csid\<rparr>"
  have wf: "wf_packet ?c" "wf_packet ?s"
    using assms(3,4) by (simp_all add: wf_packet_def zero_packet_def IsControlOp_def)
  have len: "length (snd (Build l u ?c)) = (if la_auth l = AuthTLS then 42 else 14)"
      "length (snd (Build l u ?s)) = (if la_auth l = AuthTLS then 54 else 26)" for l u
    using assms(3,4) by (simp_all add: Build_def packet_head_def packet_body_def zero_packet_def Let_def)
  have op: "Opcode (snd (Build l u ?c)) = 7" "Opcode (snd (Build l u ?s)) = 8" for l u
    by (simp_all add: Build_def packet_head_def Opcode_def zero_packet_def Let_def)
  have "IsClientReset (snd (ClientReset client t csid)) = (la_auth client, True)"
    using len(1) [of client t] op(1) [of client t] by (cases "la_auth client") (simp_all add: IsClientReset_def ClientReset_def)
  then show ?thesis
    using Parse_Build [OF wf(1) assms(1), of t] Parse_Build [OF wf(2) assms(2), of t'] len(2) op(2) assms(1,2)
    by (simp add: ParseClientReset_def ParseServerReset_def ClientReset_def ServerReset_def reads_from_def)
       (simp add: zero_packet_def)
qed

theorem ovpn_reset_exchange_witness:
  "ParseClientReset (TLSAuth [2] [1]) (snd (ClientReset (TLSAuth [1] [2]) 7 (replicate 8 3))) = Some (Inr (replicate 8 3))
   \<and> ParseServerReset Plain (snd (ServerReset Plain 9 (replicate 8 3) (replicate 8 4))) = Some (Inr (replicate 8 3, replicate 8 4))"
  using ovpn_reset_exchange [of "TLSAuth [2] [1]" "TLSAuth [1] [2]" "replicate 8 3" "replicate 8 4" 7 7]
    ovpn_reset_exchange [of Plain Plain "replicate 8 3" "replicate 8 4" 9 9]
  by (simp add: reads_from_def TLSAuth_def Plain_def)

lemma data_key_length: "length (dk_key (fst (DeriveDataKeys key aid))) = 32" "length (dk_key (snd (DeriveDataKeys key aid))) = 32"
  by (simp_all add: DeriveDataKeys_def newDataKey_def Let_def)

lemma length_data_header [simp]: "length (data_header peer pid) = 8"
  by (simp add: data_header_def)

lemma peer_bytes:
  assumes "b ! 0 = 72" "8 \<le> length b" "DataPeer b = Some peer"
  shows "data_header peer (w32 b 4) = take 8 b"
proof -
  obtain h m l r where b: "take 8 b = 72 # h # m # l # r"
    using assms(1,2) by (cases b; cases "tl b"; cases "tl (tl b)"; cases "tl (tl (tl b))") auto
  have "b ! 1 = h" "b ! 2 = m" "b ! 3 = l" "take 4 (drop 4 b) = r" 
    using arg_cong [OF b, of "\<lambda>x. x ! 1"] arg_cong [OF b, of "\<lambda>x. x ! 2"] arg_cong [OF b, of "\<lambda>x. x ! 3"]
      arg_cong [OF b, of "drop 4"] by (simp_all add: drop_take)
  then have "peer = push_bit 16 (ucast h) OR push_bit 8 (ucast m) OR ucast l" "be32 (w32 b 4) = r"
    using assms(2,3) by (simp_all add: DataPeer_def ix_def be32_w32)
  moreover have "ucast (drop_bit 16 (push_bit 16 (ucast h) OR push_bit 8 (ucast m) OR (ucast l :: 32 word))) = h"
      "ucast (drop_bit 8 (push_bit 16 (ucast h) OR push_bit 8 (ucast m) OR (ucast l :: 32 word))) = m"
      "ucast (push_bit 16 (ucast h) OR push_bit 8 (ucast m) OR (ucast l :: 32 word)) = l"
    by (auto intro!: bit_word_eqI simp: bit_simps impossible_bit)
  ultimately show ?thesis by (simp add: data_header_def b)
qed

lemma Seal_IsData: "length (dk_key k) = 32 \<Longrightarrow> ovpn_IsData (Seal k peer pid plain)"
  by (simp add: ovpn_IsData_def Seal_def gcm.seal_length) (simp add: data_header_def)

lemma w32_Seal: "w32 (Seal k peer pid plain) 4 = pid"
  by (simp add: Seal_def data_header_def w32_def)

text \<open>The data channel carries exactly what its key holder sealed: with a derived key, opening a packet
  returns a payload if and only if the packet is the sealing of that payload under the packet id
  and the peer id it shows, so a packet altered anywhere, header included, is reported and never
  read as data; a packet of another shape is told apart from one that fails authentication.\<close>

theorem ovpn_data_channel:
  assumes "k = fst (DeriveDataKeys key aid) \<or> k = snd (DeriveDataKeys key aid)"
  shows "Open k (Seal k peer pid plain) = (pid, plain, None)
    \<and> (Open k b = (pid, plain, None)) = (\<exists>peer. DataPeer b = Some peer \<and> b = Seal k peer pid plain)
    \<and> (snd (snd (Open k b)) = Some ErrNotData) = (\<not> ovpn_IsData b)"
proof (intro conjI)
  have k: "length (dk_key k) = 32" using assms data_key_length by auto
  have open_seal: "Open k (Seal k peer pid plain) = (pid, plain, None)" for peer
    using Seal_IsData [OF k, of peer pid plain]
    by (simp add: Open_def Let_def w32_Seal) (simp add: Seal_def gcm.unseal_seal [OF k])
  then show "Open k (Seal k peer pid plain) = (pid, plain, None)" .
  show "(Open k b = (pid, plain, None)) = (\<exists>peer. DataPeer b = Some peer \<and> b = Seal k peer pid plain)"
  proof (safe intro!: open_seal)
    assume *: "Open k b = (pid, plain, None)"
    then have b: "ovpn_IsData b" "pid = w32 b 4"
        "gcm_open (dk_key k) (be32 (w32 b 4) @ dk_iv k) (take 8 b) (drop 8 b) = Some plain"
      by (auto simp: Open_def Let_def split: if_splits option.splits)
    then obtain peer where peer: "DataPeer b = Some peer" by (auto simp: DataPeer_def ovpn_IsData_def ix_def)
    then have "data_header peer pid = take 8 b" using b peer_bytes [of b peer] by (simp add: ovpn_IsData_def)
    then have "b = Seal k peer pid plain"
      using gcm.unseal_sealed [OF k b(3)] b(2) append_take_drop_id [of 8 b] by (simp add: Seal_def del: append_take_drop_id)
    with peer show "\<exists>peer. DataPeer b = Some peer \<and> b = Seal k peer pid plain" by blast
  qed
  show "(snd (snd (Open k b)) = Some ErrNotData) = (\<not> ovpn_IsData b)"
    by (auto simp: Open_def Let_def split: option.splits)
qed

theorem ovpn_data_channel_witness:
  "Open (fst (DeriveDataKeys [1] ''a'')) (Seal (fst (DeriveDataKeys [1] ''a'')) 5 1 [2, 3]) = (1, [2, 3], None)"
  using ovpn_data_channel [of "fst (DeriveDataKeys [1] ''a'')" "[1]" "''a''" 5 1 "[2, 3]" "[]"] by simp

end
