(* ===== verification/Dtls.thy ===== *)
theory Dtls
  imports Vpn_Codecs "HOL-Library.Monad_Syntax"
begin

text \<open>
  The DTLS 1.2 flights of \<open>internal/dtlsx\<close>: the ClientHello fingerprints, the record and
  handshake framing, the walk over the records of a datagram, and what the server reads from a
  ClientHello. The random bytes are arguments.
\<close>

unbundle bit_operations_syntax

section \<open>Constants and fingerprints\<close>

abbreviation contentHandshake :: byte where "contentHandshake \<equiv> 22"
abbreviation hsClientHello :: byte where "hsClientHello \<equiv> 1"
abbreviation hsServerHello :: byte where "hsServerHello \<equiv> 2"
abbreviation hsHelloVerify :: byte where "hsHelloVerify \<equiv> 3"
abbreviation hsServerDone :: byte where "hsServerDone \<equiv> 14"
abbreviation versionDTLS12 :: "16 word" where "versionDTLS12 \<equiv> 0xfefd"
abbreviation versionDTLS10 :: "16 word" where "versionDTLS10 \<equiv> 0xfeff"

datatype dtls_error = UnknownFingerprint | BadFingerprint | ShortRecord | NotHandshakeRecord | TruncatedRecord
  | TruncatedFragment | ShortClientHello

definition pion_hello :: string where
  "pion_hello = ''fefd'' @ ''0000000000000000000000000000000000000000000000000000000000000000''
     @ ''0000'' @ ''0010'' @ ''c02bc02fcca9cca8c00ac014c02cc030'' @ ''0100'' @ ''0042''
     @ ''000d0016'' @ ''0014'' @ ''0403050306030807080408050806040105010601''
     @ ''ff010001'' @ ''00'' @ ''000a0008'' @ ''0006'' @ ''001d00170018'' @ ''000b0002'' @ ''01'' @ ''00''
     @ ''000e0009'' @ ''0006'' @ ''000800070001'' @ ''00'' @ ''00170000''"

definition firefox_hello :: string where
  "firefox_hello = ''fefd050cbae5108bbad3558bdb8e09ca3f44f723c0d7e517fb1ec5ffc6c0d6fe41c200000010c02bc02fcca9cca8c00a''
     @ ''c009c013c0140100006a00170000ff01000100000a00080006001d00170018000b000201000010001200100677656272''
     @ ''746308632d776562727463000d0020001e04030503060302030804080508060401050106010201040205020602020200''
     @ ''1c00024000000e000b0008000700080001000200''"

definition chrome_hello :: string where
  "chrome_hello = ''fefdc8b61395d44e2a57eb9d72ee84ee311d60e4b9d8948e79bfe838fdef0cbaf74d00000016c02bc02fcca9cca8c009''
     @ ''c013c00ac014009c002f003501000040000a00080006001d00170018000d001400120403080404010503080505010806''
     @ ''0601020100170000000b00020100000e0009000600010008000700ff01000100''"

definition Fingerprints :: "string \<Rightarrow> string option" where
  "Fingerprints n =
     (if n = ''pion'' then Some pion_hello else if n = ''firefox-138'' then Some firefox_hello
      else if n = ''chrome-136'' then Some chrome_hello else None)"

definition recordVersion :: "string \<Rightarrow> 16 word option" where
  "recordVersion n = (if n = ''pion'' then Some versionDTLS12 else None)"

section \<open>Framing\<close>

text \<open>\<open>putUint24\<close> writes the low 24 bits, as the byte conversions of the code do.\<close>

definition put24 :: "nat \<Rightarrow> bytes" where
  "put24 v = be_bytes 3 v"

definition uint24 :: "bytes \<Rightarrow> nat" where
  "uint24 b = be_nat (take 3 b)"

definition handshake :: "byte \<Rightarrow> 16 word \<Rightarrow> bytes \<Rightarrow> bytes" where
  "handshake typ seq body = [typ] @ put24 (length body) @ be16 seq @ [0, 0, 0] @ put24 (length body) @ body"

definition recordWith :: "16 word \<Rightarrow> 64 word \<Rightarrow> bytes \<Rightarrow> bytes" where
  "recordWith version seq fragment =
     [contentHandshake] @ be16 version @ be64 (seq AND 0xffffffffffff) @ be16 (word_of_nat (length fragment)) @ fragment"

definition dtls_record :: "bytes \<Rightarrow> bytes" where
  "dtls_record fragment =
     recordWith versionDTLS12
       (case fragment of [] \<Rightarrow> 0 | t # _ \<Rightarrow> if t = hsServerHello then 1 else if t = hsServerDone then 2 else 0) fragment"

definition ClientHello :: "string \<Rightarrow> bytes \<Rightarrow> bytes \<Rightarrow> 16 word \<Rightarrow> dtls_error + bytes" where
  "ClientHello fingerprint rnd cookie msgSeq =
     (case Fingerprints fingerprint of
        None \<Rightarrow> Inl UnknownFingerprint
      | Some h \<Rightarrow>
          (case hex_decode h of
             None \<Rightarrow> Inl BadFingerprint
           | Some body \<Rightarrow>
               if length body < 36 then Inl BadFingerprint
               else let out = take 2 body @ rnd @ [0, word_of_nat (length cookie)] @ cookie @ drop 36 body;
                        rv = (case recordVersion fingerprint of Some v \<Rightarrow> v | None \<Rightarrow> versionDTLS10)
                    in Inr (recordWith rv (ucast msgSeq) (handshake hsClientHello msgSeq out))))"

section \<open>Reading\<close>

record dtls_msg =
  dm_type :: byte
  dm_seq :: "16 word"
  dm_body :: bytes

definition IsHandshake :: "bytes \<Rightarrow> bool" where
  "IsHandshake b \<longleftrightarrow> length b \<ge> 25 \<and> b ! 0 = contentHandshake \<and> (w16 b 1 = versionDTLS12 \<or> w16 b 1 = versionDTLS10)"

function dtls_fragments :: "bytes \<Rightarrow> dtls_msg list \<Rightarrow> dtls_msg list \<times> dtls_error option" where
  "dtls_fragments frag out =
     (if length frag < 12 then (out, None)
      else let fl = uint24 (drop 9 frag)
           in if length frag < 12 + fl then (out, Some TruncatedFragment)
              else dtls_fragments (drop (12 + fl) frag)
                     (out @ [\<lparr>dm_type = frag ! 0, dm_seq = w16 frag 4, dm_body = take fl (drop 12 frag)\<rparr>]))"
  by pat_completeness auto
termination
  by (relation "measure (\<lambda>(frag, _). length frag)") auto

function dtls_records :: "bytes \<Rightarrow> dtls_msg list \<Rightarrow> dtls_msg list \<times> dtls_error option" where
  "dtls_records b out =
     (if b = [] then (out, None)
      else if length b < 13 then (out, Some ShortRecord)
      else if b ! 0 \<noteq> contentHandshake then (out, Some NotHandshakeRecord)
      else let l = unat (w16 b 11)
           in if length b < 13 + l then (out, Some TruncatedRecord)
              else case dtls_fragments (take l (drop 13 b)) out of
                     (out', Some e) \<Rightarrow> (out', Some e)
                   | (out', None) \<Rightarrow> dtls_records (drop (13 + l) b) out')"
  by pat_completeness auto
termination
  by (relation "measure (\<lambda>(b, _). length b)") (auto simp: length_greater_0_conv [symmetric] simp del: length_greater_0_conv)

declare dtls_fragments.simps [simp del] dtls_records.simps [simp del]

definition dtls_Parse :: "bytes \<Rightarrow> dtls_msg list \<times> dtls_error option" where
  "dtls_Parse b = dtls_records b []"

record hello_info =
  hi_cookie :: bytes
  hi_ciphers :: "16 word list"
  hi_exts :: "16 word list"
  hi_version :: "16 word"

definition zero_hello_info :: hello_info where
  "zero_hello_info = \<lparr>hi_cookie = [], hi_ciphers = [], hi_exts = [], hi_version = 0\<rparr>"

text \<open>The loops over the cipher suites and over the extensions, at offset \<open>p\<close> of the body; an
  access outside the body is \<open>None\<close>.\<close>

function hello_ciphers :: "bytes \<Rightarrow> nat \<Rightarrow> nat \<Rightarrow> nat \<Rightarrow> 16 word list option" where
  "hello_ciphers body p csl i =
     (if i + 1 < csl
      then do { c \<leftarrow> u16 body (p + i); cs \<leftarrow> hello_ciphers body p csl (i + 2); Some (c # cs) }
      else Some [])"
  by pat_completeness auto
termination
  by (relation "measure (\<lambda>(_, _, csl, i). csl - i)") auto

function hello_exts :: "bytes \<Rightarrow> nat \<Rightarrow> nat \<Rightarrow> 16 word list option" where
  "hello_exts body p stop =
     (if p + 4 \<le> stop
      then do { t \<leftarrow> u16 body p; l \<leftarrow> u16 body (p + 2); es \<leftarrow> hello_exts body (p + 4 + unat l) stop; Some (t # es) }
      else Some [])"
  by pat_completeness auto
termination
  by (relation "measure (\<lambda>(_, p, e). e - p)") auto

declare hello_ciphers.simps [simp del] hello_exts.simps [simp del]

text \<open>From the cipher suites on, at offset \<open>p\<close>.\<close>

definition hello_rest :: "bytes \<Rightarrow> nat \<Rightarrow> hello_info \<Rightarrow> (hello_info \<times> dtls_error option) option" where
  "hello_rest body p info = do {
     csl \<leftarrow> u16 body p;
     if length body < p + 2 + unat csl + 1 then Some (info, Some ShortClientHello)
     else do {
       cs \<leftarrow> hello_ciphers body (p + 2) (unat csl) 0;
       cml \<leftarrow> ix body (p + 2 + unat csl);
       if length body \<ge> p + 2 + unat csl + 1 + unat cml + 2
       then do {
         el \<leftarrow> u16 body (p + 2 + unat csl + 1 + unat cml);
         es \<leftarrow> hello_exts body (p + 2 + unat csl + 1 + unat cml + 2)
                (min (p + 2 + unat csl + 1 + unat cml + 2 + unat el) (length body));
         Some (info\<lparr>hi_ciphers := cs, hi_exts := es\<rparr>, None)
       }
       else Some (info\<lparr>hi_ciphers := cs\<rparr>, None)
     }
   }"

definition ParseClientHello :: "bytes \<Rightarrow> (hello_info \<times> dtls_error option) option" where
  "ParseClientHello body =
     (if length body < 36 then Some (zero_hello_info, Some ShortClientHello)
      else do {
        v \<leftarrow> u16 body 0;
        sl \<leftarrow> ix body 34;
        let info = zero_hello_info\<lparr>hi_version := v\<rparr>;
        let p = 35 + unat sl;
        if length body < p + 1 then Some (info, Some ShortClientHello)
        else do {
          cl \<leftarrow> ix body p;
          let p = p + 1;
          if length body < p + unat cl + 2 then Some (info, Some ShortClientHello)
          else do {
            cookie \<leftarrow> slc body p (p + unat cl);
            hello_rest body (p + unat cl) (info\<lparr>hi_cookie := cookie\<rparr>)
          }
        }
      })"

section \<open>The server's flights\<close>

definition HelloVerifyRequest :: "bytes \<Rightarrow> bytes" where
  "HelloVerifyRequest cookie =
     dtls_record (handshake hsHelloVerify 0 ([0xfe, 0xff, word_of_nat (length cookie)] @ cookie))"

definition server_exts :: "bool \<Rightarrow> bytes" where
  "server_exts withGroups =
     [0xff, 0x01, 0x00, 0x01, 0x00] @ [0x00, 0x17, 0x00, 0x00] @ [0x00, 0x0e, 0x00, 0x05, 0x00, 0x02, 0x00, 0x07, 0x00]
     @ [0x00, 0x0b, 0x00, 0x02, 0x01, 0x00]
     @ (if withGroups then [0x00, 0x0a, 0x00, 0x04, 0x00, 0x02, 0x00, 0x1d] else [])"

definition dtls_ServerHello :: "bytes \<Rightarrow> 16 word \<Rightarrow> bool \<Rightarrow> bytes" where
  "dtls_ServerHello rnd cipher withGroups =
     dtls_record (handshake hsServerHello 1
       ([0xfe, 0xfd] @ rnd @ [0] @ be16 cipher @ [0] @ be16 (word_of_nat (length (server_exts withGroups))) @ server_exts withGroups))
     @ dtls_record (handshake hsServerDone 2 [])"

text \<open>A cookie of length zero is the nil slice too.\<close>

definition CookieOf :: "bytes \<Rightarrow> bytes" where
  "CookieOf body =
     (if length body < 3 \<or> length body < 3 + unat (body ! 2) then [] else take (unat (body ! 2)) (drop 3 body))"

section \<open>What is built is read back\<close>

lemma length_handshake [simp]: "length (handshake t s body) = 12 + length body"
  by (simp add: handshake_def put24_def)

lemma dtls_fragments_step:
  assumes "length body < 2 ^ 24"
  shows "dtls_fragments (handshake t s body @ rest) out =
           dtls_fragments rest (out @ [\<lparr>dm_type = t, dm_seq = s, dm_body = body\<rparr>])"
proof -
  have "uint24 (drop 9 (handshake t s body @ rest)) = length body"
    using assms by (simp add: handshake_def put24_def uint24_def be_nat_be_bytes)
  moreover have "w16 (handshake t s body @ rest) 4 = s" "(handshake t s body @ rest) ! 0 = t"
      "drop 12 (handshake t s body @ rest) = body @ rest"
    by (simp_all add: handshake_def put24_def w16_def)
  moreover have "drop (12 + length body) (handshake t s body @ rest) = rest" by simp
  ultimately show ?thesis
    by (subst dtls_fragments.simps) (simp add: Let_def del: drop_append)
qed

lemma dtls_fragments_end [simp]: "length frag < 12 \<Longrightarrow> dtls_fragments frag out = (out, None)"
  by (simp add: dtls_fragments.simps)

lemma dtls_records_step:
  assumes "length frag < 65536"
  shows "dtls_records (recordWith v s frag @ rest) out =
           (case dtls_fragments frag out of (o', Some e) \<Rightarrow> (o', Some e) | (o', None) \<Rightarrow> dtls_records rest o')"
proof -
  let ?b = "recordWith v s frag @ rest"
  have "w16 ?b 11 = word_of_nat (length frag)" "?b ! 0 = 22" "drop 13 ?b = frag @ rest" "recordWith v s frag \<noteq> []"
      "length ?b = 13 + length frag + length rest"
    by (simp_all add: recordWith_def w16_def del: of_nat_add)
  moreover have "drop (13 + length frag) ?b = rest"
    using calculation(3) by (metis add.commute append_eq_conv_conj drop_drop)
  ultimately show ?thesis
    using assms by (subst dtls_records.simps) (simp add: unat_word_of_nat_16 Let_def del: drop_append)
qed

lemma dtls_records_Nil [simp]: "dtls_records [] out = (out, None)"
  by (simp add: dtls_records.simps)

lemma parse_record_handshake:
  assumes "length body < 65524"
  shows "dtls_records (recordWith v s (handshake t sq body) @ rest) out =
           dtls_records rest (out @ [\<lparr>dm_type = t, dm_seq = sq, dm_body = body\<rparr>])"
  using assms dtls_fragments_step [of body t sq "[]" out] by (simp add: dtls_records_step)

text \<open>Everything after the cookie, read from the slice that starts there.\<close>

lemma hello_ciphers_shift: "hello_ciphers (xs @ ys) (length xs + q) csl i = hello_ciphers ys q csl i"
proof (induction ys q csl i rule: hello_ciphers.induct)
  case (1 ys q csl i)
  then show ?case
    by (subst (1 2) hello_ciphers.simps) (cases "u16 ys (q + i)", simp_all add: u_append_right add.assoc)
qed

lemma hello_exts_shift: "hello_exts (xs @ ys) (length xs + q) (length xs + stop) = hello_exts ys q stop"
proof (induction ys q stop rule: hello_exts.induct)
  case (1 ys q stop)
  have "hello_exts (xs @ ys) (length xs + q + 4 + unat l) (length xs + stop) = hello_exts ys (q + 4 + unat l) stop"
    if "q + 4 \<le> stop" "u16 ys q = Some t" "u16 ys (q + 2) = Some l" for t l
    using 1 [OF that] by (simp add: add.assoc)
  then show ?case
    by (subst (1 2) hello_exts.simps)
       (cases "u16 ys q"; cases "u16 ys (q + 2)"; simp add: u_append_right add.assoc)
qed

lemma hello_rest_shift: "hello_rest (xs @ t) (length xs + p) info = hello_rest t p info"
proof -
  define c where "c = length xs"
  define b where "b = xs @ t"
  have at: "u16 b (c + q) = u16 t q" "ix b (c + q) = ix t q" "hello_ciphers b (c + q) n i = hello_ciphers t q n i"
      "hello_exts b (c + q) (c + n) = hello_exts t q n" "length b = c + length t" for q n i
    using hello_ciphers_shift [of xs t q n i] hello_exts_shift [of xs t q n]
      u_append_right(1) [of xs "c + q" t] ix_append_right [of xs "c + q" t] by (simp_all add: b_def c_def)
  have m: "min (c + n) (c + k) = c + min n k" for n k by simp
  show ?thesis
    unfolding hello_rest_def b_def [symmetric] c_def [symmetric]
    by (simp only: add.assoc at m add_less_cancel_left add_le_cancel_left)
qed

lemma map_option_after_bind: "map_option f (x \<bind> g) = x \<bind> (\<lambda>y. map_option f (g y))"
  by (cases x) auto

lemma hello_rest_cookie:
  "hello_rest t p (info\<lparr>hi_cookie := c\<rparr>) = map_option (\<lambda>(i, e). (i\<lparr>hi_cookie := c\<rparr>, e)) (hello_rest t p info)"
  by (cases info) (simp add: hello_rest_def map_option_after_bind if_distrib [of "map_option _"] cong: if_cong)

lemma ParseClientHello_split:
  assumes "length pre = 34" "length cookie < 256" "2 \<le> length t"
  shows "ParseClientHello (pre @ [0, word_of_nat (length cookie)] @ cookie @ t) =
    hello_rest t 0 (zero_hello_info\<lparr>hi_version := w16 pre 0, hi_cookie := cookie\<rparr>)"
proof -
  let ?h = "pre @ [0, word_of_nat (length cookie)] @ cookie"
  have cl: "unat (word_of_nat (length cookie) :: byte) = length cookie"
    using assms(2) by (rule unat_word_of_nat_8)
  define b where "b = ?h @ t"
  have front: "u16 b 0 = Some (w16 pre 0)" "ix b 34 = Some 0" "ix b 35 = Some (word_of_nat (length cookie))"
      "slc b 36 (36 + length cookie) = Some cookie" "length b = 36 + length cookie + length t"
    using assms(1) by (simp_all add: b_def ix_def nth_append slc_def w16_def u_append_left u16_Some)
  have "hello_rest b (36 + length cookie) i = hello_rest t 0 i" for i
    using hello_rest_shift [of ?h t 0 i] assms(1) by (simp add: b_def)
  then have "ParseClientHello b = hello_rest t 0 (zero_hello_info\<lparr>hi_version := w16 pre 0, hi_cookie := cookie\<rparr>)"
    using assms(3) by (simp add: ParseClientHello_def front cl)
  then show ?thesis by (simp add: b_def)
qed

section \<open>Reading never leaves the body\<close>

lemma hello_ciphers_total: "p + csl \<le> length body \<Longrightarrow> \<exists>cs. hello_ciphers body p csl i = Some cs"
proof (induction body p csl i rule: hello_ciphers.induct)
  case (1 body p csl i)
  then show ?case by (subst hello_ciphers.simps) (auto simp: go_defs)
qed

lemma hello_exts_total: "stop \<le> length body \<Longrightarrow> \<exists>es. hello_exts body p stop = Some es"
proof (induction body p stop rule: hello_exts.induct)
  case (1 body p stop)
  then have "\<exists>es. hello_exts body (p + 4 + unat l) stop = Some es" if "p + 4 \<le> stop" "u16 body p = Some t" "u16 body (p + 2) = Some l" for t l
    using that by blast
  moreover have "\<exists>t l. u16 body p = Some t \<and> u16 body (p + 2) = Some l" if "p + 4 \<le> stop"
    using that 1(2) by (simp add: u16_Some)
  ultimately show ?case by (subst hello_exts.simps) fastforce
qed

lemma hello_rest_total:
  assumes "p + 2 \<le> length body"
  shows "\<exists>i. hello_rest body p info = Some (i, if length body < p + 2 + unat (w16 body p) + 1 then Some ShortClientHello else None)"
proof -
  have "\<exists>cs. hello_ciphers body (p + 2) (unat (w16 body p)) 0 = Some cs" if "length body \<ge> p + 2 + unat (w16 body p) + 1"
    using hello_ciphers_total [of "p + 2" "unat (w16 body p)" body 0] that by simp
  moreover obtain es where "\<And>q r. hello_exts body q (min r (length body)) = Some (es q r)"
    using hello_exts_total [OF min.cobounded2] by metis
  ultimately show ?thesis
    using assms by (auto simp: hello_rest_def go_defs w16_def Let_def)
qed

lemma ParseClientHello_total: "\<exists>r. ParseClientHello body = Some r"
proof -
  have "\<exists>r. hello_rest body p info = Some r" if "p + 2 \<le> length body" for p info
    using hello_rest_total [OF that] by blast
  then show ?thesis by (auto simp: ParseClientHello_def go_defs Let_def)
qed

section \<open>Properties\<close>

text \<open>The fingerprints are ClientHello bodies of DTLS 1.2 with an empty session id and cookie and the
  cipher suites they announce.\<close>

definition fingerprint_ok :: "string \<Rightarrow> bool" where
  "fingerprint_ok h =
     (case hex_decode h of None \<Rightarrow> False
      | Some b \<Rightarrow> 38 \<le> length b \<and> length b < 300 \<and> take 2 b = [254, 253] \<and> b ! 34 = 0 \<and> b ! 35 = 0
                  \<and> 39 + unat (w16 b 36) \<le> length b)"

lemma fingerprints_ok: "fingerprint_ok pion_hello" "fingerprint_ok firefox_hello" "fingerprint_ok chrome_hello"
  by code_simp+

lemma ParseClientHello_cookie:
  assumes "length body \<ge> 39 + unat (w16 body 36)" "take 2 body = [254, 253]" "body ! 34 = 0" "body ! 35 = 0"
    "length rnd = 32" "length cookie < 256"
  obtains info where "ParseClientHello body = Some (info, None)"
    "ParseClientHello ([254, 253] @ rnd @ [0, word_of_nat (length cookie)] @ cookie @ drop 36 body) = Some (info\<lparr>hi_cookie := cookie\<rparr>, None)"
proof -
  define t where "t = drop 36 body"
  have t: "length t \<ge> 3 + unat (w16 t 0)" using assms(1) by (simp add: t_def w16_def)
  let ?i = "zero_hello_info\<lparr>hi_version := 0xfefd\<rparr>"
  obtain info where info: "hello_rest t 0 ?i = Some (info, None)"
    using hello_rest_total [of 0 t ?i] t by auto
  have v: "w16 (254 # 253 # r) 0 = 0xfefd" for r by (simp add: w16_def be_nat_def)
  have "body = take 34 body @ [0, 0] @ t"
    using assms(1,3,4) id_take_nth_drop [of 34 body] Cons_nth_drop_Suc [of 35 body] by (simp add: t_def del: append_take_drop_id)
  moreover have "take 34 body = [254, 253] @ drop 2 (take 34 body)"
    using assms(2) append_take_drop_id [of 2 "take 34 body"] by (simp del: append_take_drop_id)
  ultimately have b: "body = ([254, 253] @ drop 2 (take 34 body)) @ [0, word_of_nat (length ([] :: bytes))] @ [] @ t"
    by simp
  have "ParseClientHello (([254, 253] @ drop 2 (take 34 body)) @ [0, word_of_nat (length ([] :: bytes))] @ [] @ t)
      = hello_rest t 0 (zero_hello_info\<lparr>hi_version := w16 ([254, 253] @ drop 2 (take 34 body)) 0, hi_cookie := []\<rparr>)"
    using assms(1) t by (intro ParseClientHello_split) simp_all
  then have "ParseClientHello body = Some (info, None)"
    unfolding b [symmetric] using info by (simp add: v zero_hello_info_def)
  moreover have "ParseClientHello ([254, 253] @ rnd @ [0, word_of_nat (length cookie)] @ cookie @ t) = Some (info\<lparr>hi_cookie := cookie\<rparr>, None)"
    using ParseClientHello_split [of "[254, 253] @ rnd" cookie t] assms(5,6) t
    by (simp add: v hello_rest_cookie info)
  ultimately show thesis using that by (simp add: t_def)
qed

lemma hello_verify_read_back:
  assumes "length cookie < 256"
  shows "dtls_Parse (HelloVerifyRequest cookie) =
           ([\<lparr>dm_type = hsHelloVerify, dm_seq = 0, dm_body = [0xfe, 0xff, word_of_nat (length cookie)] @ cookie\<rparr>], None)"
    and "CookieOf ([0xfe, 0xff, word_of_nat (length cookie)] @ cookie) = cookie"
proof -
  let ?f = "handshake hsHelloVerify 0 ([0xfe, 0xff, word_of_nat (length cookie)] @ cookie)"
  have "dtls_record ?f = recordWith versionDTLS12 0 ?f" by (simp add: dtls_record_def handshake_def)
  then show "dtls_Parse (HelloVerifyRequest cookie) =
      ([\<lparr>dm_type = hsHelloVerify, dm_seq = 0, dm_body = [0xfe, 0xff, word_of_nat (length cookie)] @ cookie\<rparr>], None)"
    using parse_record_handshake [of "[0xfe, 0xff, word_of_nat (length cookie)] @ cookie" versionDTLS12 0 hsHelloVerify 0 "[]" "[]"] assms
    by (simp add: dtls_Parse_def HelloVerifyRequest_def)
  show "CookieOf ([0xfe, 0xff, word_of_nat (length cookie)] @ cookie) = cookie"
    using assms by (simp add: CookieOf_def unat_word_of_nat_8)
qed

text \<open>Every ClientHello the client can build is recognised and read back by the server: the datagram
  has the handshake shape, holds exactly one message with the sequence number it was built with,
  and the server reads the cookie that was put in while cipher suites, extensions and version are
  those of the captured fingerprint whatever the cookie, so that both flights of one client
  show the same fingerprint. The HelloVerifyRequest hands its cookie back the same way, and no
  ClientHello, however malformed, makes the parser read outside it.\<close>

theorem dtls_hello_read_back:
  assumes "Fingerprints fp = Some h" "length rnd = 32" "length cookie < 256"
  shows "(\<exists>d body fbody info. ClientHello fp rnd cookie seq = Inr d \<and> IsHandshake d
      \<and> dtls_Parse d = ([\<lparr>dm_type = hsClientHello, dm_seq = seq, dm_body = body\<rparr>], None)
      \<and> hex_decode h = Some fbody \<and> ParseClientHello fbody = Some (info, None)
      \<and> ParseClientHello body = Some (info\<lparr>hi_cookie := cookie\<rparr>, None))
    \<and> (\<exists>m. dtls_Parse (HelloVerifyRequest cookie) = ([m], None) \<and> dm_type m = hsHelloVerify \<and> CookieOf (dm_body m) = cookie)
    \<and> ParseClientHello b \<noteq> None"
proof (intro conjI)
  have "fingerprint_ok h"
    using assms(1) fingerprints_ok by (auto simp: Fingerprints_def split: if_splits)
  then obtain f where f: "hex_decode h = Some f" "length f < 300" "39 + unat (w16 f 36) \<le> length f" "take 2 f = [254, 253]" "f ! 34 = 0" "f ! 35 = 0"
    by (auto simp: fingerprint_ok_def split: option.splits)
  obtain info where info: "ParseClientHello f = Some (info, None)"
    "ParseClientHello ([254, 253] @ rnd @ [0, word_of_nat (length cookie)] @ cookie @ drop 36 f) = Some (info\<lparr>hi_cookie := cookie\<rparr>, None)"
    using ParseClientHello_cookie [OF f(3-6) assms(2,3)] by blast
  define body where "body = [254, 253] @ rnd @ [0, word_of_nat (length cookie)] @ cookie @ drop 36 f"
  define rv where "rv = (case recordVersion fp of Some v \<Rightarrow> v | None \<Rightarrow> versionDTLS10)"
  define d where "d = recordWith rv (ucast seq) (handshake hsClientHello seq body)"
  have "ClientHello fp rnd cookie seq = Inr d"
    using f by (simp add: ClientHello_def assms(1) d_def rv_def body_def Let_def)
  moreover have "rv = versionDTLS12 \<or> rv = versionDTLS10" by (simp add: rv_def recordVersion_def)
  then have "IsHandshake d"
    using assms(2) by (auto simp: IsHandshake_def d_def recordWith_def w16_def body_def)
  moreover have "length body < 65524" using f(2) assms(2,3) by (simp add: body_def)
  then have "dtls_Parse d = ([\<lparr>dm_type = hsClientHello, dm_seq = seq, dm_body = body\<rparr>], None)"
    using parse_record_handshake [of body rv "ucast seq" hsClientHello seq "[]" "[]"] by (simp add: dtls_Parse_def d_def)
  ultimately show "\<exists>d body fbody info. ClientHello fp rnd cookie seq = Inr d \<and> IsHandshake d
      \<and> dtls_Parse d = ([\<lparr>dm_type = hsClientHello, dm_seq = seq, dm_body = body\<rparr>], None)
      \<and> hex_decode h = Some fbody \<and> ParseClientHello fbody = Some (info, None)
      \<and> ParseClientHello body = Some (info\<lparr>hi_cookie := cookie\<rparr>, None)"
    using f(1) info body_def by blast
  show "\<exists>m. dtls_Parse (HelloVerifyRequest cookie) = ([m], None) \<and> dm_type m = hsHelloVerify \<and> CookieOf (dm_body m) = cookie"
    using hello_verify_read_back [OF assms(3)] by simp
  show "ParseClientHello b \<noteq> None" using ParseClientHello_total [of b] by auto
qed

theorem dtls_hello_read_back_witness:
  "\<exists>m. dtls_Parse (HelloVerifyRequest [1, 2, 3]) = ([m], None) \<and> dm_type m = hsHelloVerify \<and> CookieOf (dm_body m) = [1, 2, 3]"
  using dtls_hello_read_back [of "''pion''" pion_hello "replicate 32 7" "[1, 2, 3]" 0 "[]"] by (simp add: Fingerprints_def)

end
