(* ===== verification/Wg.thy ===== *)
theory Wg
  imports Crypto "HOL-Library.Monad_Syntax"
begin

text \<open>
  The WireGuard handshake of \<open>internal/wg\<close>: Noise IKpsk2 from both sides and the transport
  packets that follow it. BLAKE2s, ChaCha20-Poly1305 and X25519 come from golang.org/x/crypto,
  which is not part of the program: they are the fields of \<open>crypto_lib\<close>, an argument of every
  definition, and \<open>lib_ok\<close> states what the code relies on. HMAC is Go's own and is defined
  over the library's hash. Random bytes, indices and the clock are arguments.
\<close>

unbundle bit_operations_syntax

section \<open>The library\<close>

record crypto_lib =
  blake256 :: "bytes \<Rightarrow> bytes"
  blake128 :: "bytes \<Rightarrow> bytes \<Rightarrow> bytes"
  x25519 :: "bytes \<Rightarrow> bytes \<Rightarrow> bytes option"
  basepoint :: bytes
  cc_seal :: "bytes \<Rightarrow> bytes \<Rightarrow> bytes \<Rightarrow> bytes \<Rightarrow> bytes"
  cc_open :: "bytes \<Rightarrow> bytes \<Rightarrow> bytes \<Rightarrow> bytes \<Rightarrow> bytes option"

text \<open>The documented behaviour the code relies on: output sizes, opening inverts sealing and accepts
  nothing else, and the two ends of a Diffie-Hellman exchange compute the same secret (or both
  report a low-order point).\<close>

definition lib_ok :: "crypto_lib \<Rightarrow> bool" where
  "lib_ok c \<longleftrightarrow> (\<forall>m. length (blake256 c m) = 32) \<and> (\<forall>k m. length (blake128 c k m) = 16)
     \<and> (\<forall>a b s. x25519 c a b = Some s \<longrightarrow> length s = 32)
     \<and> (\<forall>a b A B. length a = 32 \<longrightarrow> length b = 32 \<longrightarrow> x25519 c a (basepoint c) = Some A \<longrightarrow> x25519 c b (basepoint c) = Some B
          \<longrightarrow> x25519 c a B = x25519 c b A)
     \<and> aead (cc_seal c) (cc_open c) (\<lambda>k. length k = 32)"

section \<open>Constants and primitives\<close>

abbreviation MessageInitiationType :: byte where "MessageInitiationType \<equiv> 1"
abbreviation MessageResponseType :: byte where "MessageResponseType \<equiv> 2"
abbreviation MessageTransportType :: byte where "MessageTransportType \<equiv> 4"
abbreviation InitiationSize :: nat where "InitiationSize \<equiv> 148"
abbreviation ResponseSize :: nat where "ResponseSize \<equiv> 92"
abbreviation TransportHeaderSize :: nat where "TransportHeaderSize \<equiv> 16"
abbreviation TransportOverhead :: nat where "TransportOverhead \<equiv> 32"

definition construction :: bytes where "construction = bytes_of ''Noise_IKpsk2_25519_ChaChaPoly_BLAKE2s''"
definition wg_identifier :: bytes where "wg_identifier = bytes_of ''WireGuard v1 zx2c4 Jason@zx2c4.com''"
definition labelMAC1 :: bytes where "labelMAC1 = bytes_of ''mac1----''"

datatype wg_error = ErrWgBadMessage | X25519Failed

definition le32 :: "32 word \<Rightarrow> bytes" where "le32 w = rev (be32 w)"
definition le64 :: "64 word \<Rightarrow> bytes" where "le64 w = rev (be64 w)"
definition get_le32 :: "bytes \<Rightarrow> nat \<Rightarrow> 32 word" where "get_le32 b off = word_of_nat (be_nat (rev (take 4 (drop off b))))"
definition get_le64 :: "bytes \<Rightarrow> nat \<Rightarrow> 64 word" where "get_le64 b off = word_of_nat (be_nat (rev (take 8 (drop off b))))"

text \<open>\<open>hmac1\<close> is HMAC over BLAKE2s, whose block is 64 bytes.\<close>

definition hmac1 :: "crypto_lib \<Rightarrow> bytes \<Rightarrow> bytes \<Rightarrow> bytes" where
  "hmac1 c key inp =
     (let k0 = (if length key > 64 then blake256 c key else key); k = k0 @ replicate (64 - length k0) 0
      in blake256 c (map (\<lambda>b. b XOR 92) k @ blake256 c (map (\<lambda>b. b XOR 54) k @ inp)))"

definition kdf1 :: "crypto_lib \<Rightarrow> bytes \<Rightarrow> bytes \<Rightarrow> bytes" where
  "kdf1 c key inp = (let t0 = hmac1 c key inp in hmac1 c t0 [1])"

definition kdf2 :: "crypto_lib \<Rightarrow> bytes \<Rightarrow> bytes \<Rightarrow> bytes \<times> bytes" where
  "kdf2 c key inp = (let t0 = hmac1 c key inp; t1 = hmac1 c t0 [1] in (t1, hmac1 c t0 (t1 @ [2])))"

definition kdf3 :: "crypto_lib \<Rightarrow> bytes \<Rightarrow> bytes \<Rightarrow> bytes \<times> bytes \<times> bytes" where
  "kdf3 c key inp =
     (let t0 = hmac1 c key inp; t1 = hmac1 c t0 [1]; t2 = hmac1 c t0 (t1 @ [2]) in (t1, t2, hmac1 c t0 (t2 @ [3])))"

definition mixHash :: "crypto_lib \<Rightarrow> bytes \<Rightarrow> bytes \<Rightarrow> bytes" where
  "mixHash c h d = blake256 c (h @ d)"

definition zeroNonce :: bytes where "zeroNonce = replicate 12 0"

definition transportNonce :: "64 word \<Rightarrow> bytes" where
  "transportNonce counter = replicate 4 0 @ le64 counter"

definition tai64n :: "time \<Rightarrow> bytes" where
  "tai64n t = be64 (word_of_int (t div 1000000000) + 0x400000000000000a) @ be32 (word_of_int (t mod 1000000000))"

definition initialChainKey :: "crypto_lib \<Rightarrow> bytes" where
  "initialChainKey c = blake256 c construction"

definition initialHash :: "crypto_lib \<Rightarrow> bytes" where
  "initialHash c = mixHash c (initialChainKey c) wg_identifier"

definition mac1_of :: "crypto_lib \<Rightarrow> bytes \<Rightarrow> bytes \<Rightarrow> bytes" where
  "mac1_of c pub m = blake128 c (blake256 c (labelMAC1 @ pub)) m"

section \<open>Keys\<close>

record key_pair =
  kp_priv :: bytes
  kp_pub :: bytes

definition clamp :: "bytes \<Rightarrow> bytes" where
  "clamp p = p[0 := p ! 0 AND 248, 31 := (p ! 31 AND 127) OR 64]"

definition KeyPairFromPrivate :: "crypto_lib \<Rightarrow> bytes \<Rightarrow> key_pair option" where
  "KeyPairFromPrivate c priv = map_option (\<lambda>pub. \<lparr>kp_priv = priv, kp_pub = pub\<rparr>) (x25519 c priv (basepoint c))"

definition NewKeyPair :: "crypto_lib \<Rightarrow> bytes \<Rightarrow> key_pair option" where
  "NewKeyPair c rnd = KeyPairFromPrivate c (clamp rnd)"

record transport_keys =
  tk_send :: bytes
  tk_recv :: bytes

section \<open>The initiator\<close>

record initiator =
  is_chain :: bytes
  is_hash :: bytes
  is_eph :: key_pair
  is_static :: key_pair
  is_sender :: "32 word"
  is_peer :: "32 word"
  is_keys :: transport_keys
  is_ready :: bool

definition zero_keys :: transport_keys where
  "zero_keys = \<lparr>tk_send = replicate 32 0, tk_recv = replicate 32 0\<rparr>"

text \<open>\<open>None\<close> from the library is an error return.\<close>

definition CreateInitiation ::
  "crypto_lib \<Rightarrow> key_pair \<Rightarrow> bytes \<Rightarrow> bytes \<Rightarrow> 32 word \<Rightarrow> time \<Rightarrow> (initiator \<times> bytes) option" where
  "CreateInitiation c static serverPub rnd idx now = do {
     eph \<leftarrow> NewKeyPair c rnd;
     let chain = kdf1 c (initialChainKey c) (kp_pub eph);
     let h = mixHash c (mixHash c (initialHash c) serverPub) (kp_pub eph);
     ss \<leftarrow> x25519 c (kp_priv eph) serverPub;
     let (chain, key) = kdf2 c chain ss;
     let est = cc_seal c key zeroNonce h (kp_pub static);
     let h = mixHash c h est;
     ss \<leftarrow> x25519 c (kp_priv static) serverPub;
     let (chain, key) = kdf2 c chain ss;
     let ets = cc_seal c key zeroNonce h (tai64n now);
     let h = mixHash c h ets;
     let msg = [MessageInitiationType, 0, 0, 0] @ le32 idx @ kp_pub eph @ est @ ets;
     Some (\<lparr>is_chain = chain, is_hash = h, is_eph = eph, is_static = static, is_sender = idx, is_peer = 0,
            is_keys = zero_keys, is_ready = False\<rparr>,
           msg @ mac1_of c serverPub msg @ replicate 16 0)
   }"

definition ConsumeResponse :: "crypto_lib \<Rightarrow> initiator \<Rightarrow> bytes \<Rightarrow> bytes \<Rightarrow> wg_error + initiator" where
  "ConsumeResponse c st msg psk =
     (if length msg \<noteq> ResponseSize \<or> msg ! 0 \<noteq> MessageResponseType then Inl ErrWgBadMessage
      else if get_le32 msg 8 \<noteq> is_sender st then Inl ErrWgBadMessage
      else let respEph = take 32 (drop 12 msg);
               chain = kdf1 c (is_chain st) respEph;
               h = mixHash c (is_hash st) respEph
           in case x25519 c (kp_priv (is_eph st)) respEph of
                None \<Rightarrow> Inl X25519Failed
              | Some ss \<Rightarrow>
                  (let chain = kdf1 c chain ss
                   in case x25519 c (kp_priv (is_static st)) respEph of
                        None \<Rightarrow> Inl X25519Failed
                      | Some ss \<Rightarrow>
                          (let chain = kdf1 c chain ss;
                               (chain, tau, key) = kdf3 c chain psk;
                               h = mixHash c h tau
                           in case cc_open c key zeroNonce h (take 16 (drop 44 msg)) of
                                None \<Rightarrow> Inl ErrWgBadMessage
                              | Some _ \<Rightarrow>
                                  (let (t1, t2) = kdf2 c chain []
                                   in Inr (st\<lparr>is_peer := get_le32 msg 4, is_keys := \<lparr>tk_send = t1, tk_recv = t2\<rparr>, is_ready := True\<rparr>)))))"

section \<open>The responder\<close>

record initiation_info =
  ii_sender :: "32 word"
  ii_static :: bytes
  ii_timestamp :: bytes
  ii_mac1 :: bool
  ii_static_ok :: bool
  ii_ts_ok :: bool
  ii_hash :: bytes
  ii_chain :: bytes
  ii_eph :: bytes

definition zero_info :: initiation_info where
  "zero_info = \<lparr>ii_sender = 0, ii_static = replicate 32 0, ii_timestamp = replicate 12 0, ii_mac1 = False,
     ii_static_ok = False, ii_ts_ok = False, ii_hash = replicate 32 0, ii_chain = replicate 32 0, ii_eph = replicate 32 0\<rparr>"

text \<open>\<open>copy\<close> into an array of \<open>n\<close> zero bytes.\<close>

definition copy_into :: "nat \<Rightarrow> bytes \<Rightarrow> bytes" where
  "copy_into n b = take n (b @ replicate n 0)"

definition CheckMAC1 :: "crypto_lib \<Rightarrow> bytes \<Rightarrow> bytes \<Rightarrow> bool" where
  "CheckMAC1 c msg serverPub \<longleftrightarrow> length msg = InitiationSize \<and> msg ! 0 = MessageInitiationType
     \<and> mac1_of c serverPub (take 116 msg) = take 16 (drop 116 msg)"

definition ConsumeInitiation :: "crypto_lib \<Rightarrow> bytes \<Rightarrow> key_pair \<Rightarrow> initiation_info option \<times> wg_error option" where
  "ConsumeInitiation c msg server =
     (if length msg \<noteq> InitiationSize \<or> msg ! 0 \<noteq> MessageInitiationType then (None, Some ErrWgBadMessage)
      else let info = zero_info\<lparr>ii_sender := get_le32 msg 4, ii_mac1 := CheckMAC1 c msg (kp_pub server)\<rparr>
           in if \<not> ii_mac1 info then (Some info, Some ErrWgBadMessage)
              else let eph = take 32 (drop 8 msg);
                       info = info\<lparr>ii_eph := eph\<rparr>;
                       chain = kdf1 c (initialChainKey c) eph;
                       h = mixHash c (mixHash c (initialHash c) (kp_pub server)) eph
                   in case x25519 c (kp_priv server) eph of
                        None \<Rightarrow> (Some info, Some X25519Failed)
                      | Some ss \<Rightarrow>
                          (let (chain, key) = kdf2 c chain ss
                           in case cc_open c key zeroNonce h (take 48 (drop 40 msg)) of
                                None \<Rightarrow> (Some info, Some ErrWgBadMessage)
                              | Some staticPlain \<Rightarrow>
                                  (let info = info\<lparr>ii_static := copy_into 32 staticPlain, ii_static_ok := True\<rparr>;
                                       h = mixHash c h (take 48 (drop 40 msg))
                                   in case x25519 c (kp_priv server) (ii_static info) of
                                        None \<Rightarrow> (Some info, Some X25519Failed)
                                      | Some ss \<Rightarrow>
                                          (let (chain, key) = kdf2 c chain ss
                                           in case cc_open c key zeroNonce h (take 28 (drop 88 msg)) of
                                                None \<Rightarrow> (Some info, Some ErrWgBadMessage)
                                              | Some tsPlain \<Rightarrow>
                                                  (Some (info\<lparr>ii_timestamp := copy_into 12 tsPlain, ii_ts_ok := True,
                                                              ii_hash := mixHash c h (take 28 (drop 88 msg)),
                                                              ii_chain := chain\<rparr>), None)))))"

record responder_session =
  rs_local :: "32 word"
  rs_peer :: "32 word"
  rs_keys :: transport_keys

definition CreateResponse ::
  "crypto_lib \<Rightarrow> initiation_info \<Rightarrow> bytes \<Rightarrow> bytes \<Rightarrow> 32 word \<Rightarrow> (bytes \<times> responder_session) option" where
  "CreateResponse c info psk rnd idx = do {
     eph \<leftarrow> NewKeyPair c rnd;
     let chain = kdf1 c (ii_chain info) (kp_pub eph);
     let h = mixHash c (ii_hash info) (kp_pub eph);
     ss \<leftarrow> x25519 c (kp_priv eph) (ii_eph info);
     let chain = kdf1 c chain ss;
     ss \<leftarrow> x25519 c (kp_priv eph) (ii_static info);
     let chain = kdf1 c chain ss;
     let (chain, tau, key) = kdf3 c chain psk;
     let h = mixHash c h tau;
     let msg = [MessageResponseType, 0, 0, 0] @ le32 idx @ le32 (ii_sender info) @ kp_pub eph @ cc_seal c key zeroNonce h [];
     let (t1, t2) = kdf2 c chain [];
     Some (msg @ mac1_of c (ii_static info) msg @ replicate 16 0,
           \<lparr>rs_local = idx, rs_peer = ii_sender info, rs_keys = \<lparr>tk_send = t2, tk_recv = t1\<rparr>\<rparr>)
   }"

section \<open>Transport packets\<close>

definition LooksLikeInitiation :: "bytes \<Rightarrow> bool" where
  "LooksLikeInitiation b \<longleftrightarrow> length b = InitiationSize \<and> b ! 0 = MessageInitiationType \<and> b ! 1 = 0 \<and> b ! 2 = 0 \<and> b ! 3 = 0"

definition LooksLikeTransport :: "bytes \<Rightarrow> bool" where
  "LooksLikeTransport b \<longleftrightarrow> length b \<ge> TransportOverhead \<and> b ! 0 = MessageTransportType \<and> b ! 1 = 0 \<and> b ! 2 = 0 \<and> b ! 3 = 0"

definition TransportReceiver :: "bytes \<Rightarrow> 32 word" where
  "TransportReceiver b = get_le32 b 4"

definition SealTransport :: "crypto_lib \<Rightarrow> bytes \<Rightarrow> 32 word \<Rightarrow> 64 word \<Rightarrow> bytes \<Rightarrow> bytes" where
  "SealTransport c key receiver counter plaintext =
     [MessageTransportType, 0, 0, 0] @ le32 receiver @ le64 counter
     @ cc_seal c key (transportNonce counter) [] (pad16 plaintext)"

definition OpenTransport :: "crypto_lib \<Rightarrow> bytes \<Rightarrow> bytes \<Rightarrow> 64 word \<times> bytes \<times> wg_error option" where
  "OpenTransport c key b =
     (if \<not> LooksLikeTransport b then (0, [], Some ErrWgBadMessage)
      else let counter = get_le64 b 8
           in case cc_open c key (transportNonce counter) [] (drop TransportHeaderSize b) of
                None \<Rightarrow> (counter, [], Some ErrWgBadMessage)
              | Some plain \<Rightarrow> (counter, plain, None))"

section \<open>The two sides agree\<close>

lemma length_le [simp]: "length (le32 w) = 4" "length (le64 v) = 8"
  by (simp_all add: le32_def le64_def)

lemma get_le_le: "get_le32 (le32 w @ r) 0 = w" "get_le64 (le64 v @ r) 0 = v"
  by (simp_all add: get_le32_def get_le64_def le32_def le64_def)

lemma get_le_drop: "get_le32 b off = get_le32 (drop off b) 0" "get_le64 b off = get_le64 (drop off b) 0"
  by (simp_all add: get_le32_def get_le64_def)

lemma le_get_le:
  "i + 4 \<le> length b \<Longrightarrow> le32 (get_le32 b i) = take 4 (drop i b)"
  "i + 8 \<le> length b \<Longrightarrow> le64 (get_le64 b i) = take 8 (drop i b)"
proof -
  show "le32 (get_le32 b i) = take 4 (drop i b)" if "i + 4 \<le> length b"
    using be_bytes_be_nat [of "rev (take 4 (drop i b))"] be_nat_less [of "rev (take 4 (drop i b))"] that
    by (simp add: le32_def get_le32_def be32_def unat_of_nat min_absorb2)
  show "le64 (get_le64 b i) = take 8 (drop i b)" if "i + 8 \<le> length b"
    using be_bytes_be_nat [of "rev (take 8 (drop i b))"] be_nat_less [of "rev (take 8 (drop i b))"] that
    by (simp add: le64_def get_le64_def be64_def unat_of_nat min_absorb2)
qed

lemma lib_lengths:
  assumes "lib_ok c"
  shows "length (blake256 c m) = 32" "length (blake128 c k m) = 16" "x25519 c a b = Some s \<Longrightarrow> length s = 32"
    "length (hmac1 c k m) = 32" "length (kdf1 c k m) = 32" "length (mac1_of c k m) = 16"
  using assms by (simp_all add: lib_ok_def hmac1_def kdf1_def mac1_of_def Let_def)

lemma kdf2_keys: "lib_ok c \<Longrightarrow> kdf2 c k m = (a, b) \<Longrightarrow> length a = 32 \<and> length b = 32"
  by (auto simp: kdf2_def Let_def lib_lengths)

lemma kdf3_keys: "lib_ok c \<Longrightarrow> kdf3 c k m = (a, t, b) \<Longrightarrow> length a = 32 \<and> length t = 32 \<and> length b = 32"
  by (auto simp: kdf3_def Let_def lib_lengths)

lemma lib_aead: "lib_ok c \<Longrightarrow> aead (cc_seal c) (cc_open c) (\<lambda>k. length k = 32)"
  by (simp add: lib_ok_def)

lemmas lib_open_seal = aead.unseal_seal [OF lib_aead]
lemmas lib_seal_length = aead.seal_length [OF lib_aead]

text \<open>A key pair whose public half belongs to the private one.\<close>

definition wf_pair :: "crypto_lib \<Rightarrow> key_pair \<Rightarrow> bool" where
  "wf_pair c k \<longleftrightarrow> length (kp_priv k) = 32 \<and> x25519 c (kp_priv k) (basepoint c) = Some (kp_pub k)"

lemma wf_NewKeyPair: "length rnd = 32 \<Longrightarrow> NewKeyPair c rnd = Some k \<Longrightarrow> wf_pair c k"
  by (auto simp: NewKeyPair_def KeyPairFromPrivate_def wf_pair_def clamp_def)

lemma dh_agrees: "lib_ok c \<Longrightarrow> wf_pair c a \<Longrightarrow> wf_pair c b \<Longrightarrow> x25519 c (kp_priv a) (kp_pub b) = x25519 c (kp_priv b) (kp_pub a)"
  by (simp add: lib_ok_def wf_pair_def)

lemma length_pub: "lib_ok c \<Longrightarrow> wf_pair c k \<Longrightarrow> length (kp_pub k) = 32"
  by (auto simp: wf_pair_def dest: lib_lengths(3))

lemma copy_into_exact [simp]: "length b = n \<Longrightarrow> copy_into n b = b"
  by (simp add: copy_into_def)

lemma length_tai64n [simp]: "length (tai64n t) = 12"
  by (simp add: tai64n_def)

lemma initiation_shape:
  assumes "lib_ok c" "wf_pair c static" "length rnd = 32" "CreateInitiation c static serverPub rnd idx now = Some (st, msg)"
  obtains eph ss1 ch1 k1 est ss2 k2 ets where
    "wf_pair c eph" "x25519 c (kp_priv eph) serverPub = Some ss1" "x25519 c (kp_priv static) serverPub = Some ss2"
    "kdf2 c (kdf1 c (initialChainKey c) (kp_pub eph)) ss1 = (ch1, k1)" "kdf2 c ch1 ss2 = (is_chain st, k2)"
    "est = cc_seal c k1 zeroNonce (mixHash c (mixHash c (initialHash c) serverPub) (kp_pub eph)) (kp_pub static)"
    "ets = cc_seal c k2 zeroNonce (mixHash c (mixHash c (mixHash c (initialHash c) serverPub) (kp_pub eph)) est) (tai64n now)"
    "is_hash st = mixHash c (mixHash c (mixHash c (mixHash c (initialHash c) serverPub) (kp_pub eph)) est) ets"
    "is_eph st = eph" "is_static st = static" "is_sender st = idx"
    "length est = 48" "length ets = 28"
    "msg = ([1, 0, 0, 0] @ le32 idx @ kp_pub eph @ est @ ets) @ mac1_of c serverPub ([1, 0, 0, 0] @ le32 idx @ kp_pub eph @ est @ ets) @ replicate 16 0"
proof -
  from assms(4) obtain eph ss1 ss2 where e: "NewKeyPair c rnd = Some eph" "x25519 c (kp_priv eph) serverPub = Some ss1"
      "x25519 c (kp_priv static) serverPub = Some ss2"
    by (auto simp: CreateInitiation_def Let_def split: Option.bind_splits prod.splits)
  obtain ch1 k1 where k1: "kdf2 c (kdf1 c (initialChainKey c) (kp_pub eph)) ss1 = (ch1, k1)" by fastforce
  obtain ch2 k2 where k2: "kdf2 c ch1 ss2 = (ch2, k2)" by fastforce
  have "length k1 = 32" "length k2 = 32" using kdf2_keys [OF assms(1)] k1 k2 by blast+
  with that [OF wf_NewKeyPair [OF assms(3) e(1)] e(2,3) k1] assms(1,2,4) e k1 k2 show thesis
    by (auto simp: CreateInitiation_def Let_def lib_seal_length length_pub)
qed

lemma initiation_accepted:
  assumes "lib_ok c" "wf_pair c static" "wf_pair c server" "length rnd = 32"
    "CreateInitiation c static (kp_pub server) rnd idx now = Some (st, msg)"
  obtains info where "ConsumeInitiation c msg server = (Some info, None)" "ii_sender info = is_sender st" "ii_static info = kp_pub static"
    "ii_hash info = is_hash st" "ii_chain info = is_chain st" "ii_eph info = kp_pub (is_eph st)" "is_static st = static"
    "wf_pair c (is_eph st)" "ii_timestamp info = tai64n now" "LooksLikeInitiation msg" "is_sender st = idx"
proof -
  obtain eph ss1 ch1 k1 est ss2 k2 ets where s:
    "wf_pair c eph" "x25519 c (kp_priv eph) (kp_pub server) = Some ss1" "x25519 c (kp_priv static) (kp_pub server) = Some ss2"
    "kdf2 c (kdf1 c (initialChainKey c) (kp_pub eph)) ss1 = (ch1, k1)" "kdf2 c ch1 ss2 = (is_chain st, k2)"
    "est = cc_seal c k1 zeroNonce (mixHash c (mixHash c (initialHash c) (kp_pub server)) (kp_pub eph)) (kp_pub static)"
    "ets = cc_seal c k2 zeroNonce (mixHash c (mixHash c (mixHash c (initialHash c) (kp_pub server)) (kp_pub eph)) est) (tai64n now)"
    "is_hash st = mixHash c (mixHash c (mixHash c (mixHash c (initialHash c) (kp_pub server)) (kp_pub eph)) est) ets"
    "is_eph st = eph" "is_static st = static" "is_sender st = idx" "length est = 48" "length ets = 28"
    "msg = ([1, 0, 0, 0] @ le32 idx @ kp_pub eph @ est @ ets) @ mac1_of c (kp_pub server) ([1, 0, 0, 0] @ le32 idx @ kp_pub eph @ est @ ets) @ replicate 16 0"
    using initiation_shape [OF assms(1,2,4,5)] by metis
  let ?m = "[1, 0, 0, 0] @ le32 idx @ kp_pub eph @ est @ ets"
  have len: "length (kp_pub eph) = 32" "length (kp_pub static) = 32" "length ?m = 116" "length k1 = 32" "length k2 = 32"
    using s assms(1,2) length_pub kdf2_keys by auto
  have cut: "length msg = 148" "msg ! 0 = 1" "take 116 msg = ?m" "take 16 (drop 116 msg) = mac1_of c (kp_pub server) ?m"
      "get_le32 msg 4 = idx" "take 32 (drop 8 msg) = kp_pub eph" "take 48 (drop 40 msg) = est" "take 28 (drop 88 msg) = ets"
      "msg ! 1 = 0" "msg ! 2 = 0" "msg ! 3 = 0"
    using len s(12,13) by (simp_all add: s(14) lib_lengths [OF assms(1)] get_le_drop(1) [of _ 4] get_le_le nth_append numeral_2_eq_2 numeral_3_eq_3)
  have dh: "x25519 c (kp_priv server) (kp_pub eph) = Some ss1" "x25519 c (kp_priv server) (kp_pub static) = Some ss2"
    using dh_agrees [OF assms(1)] s(1-3) assms(2,3) by metis+
  have "CheckMAC1 c msg (kp_pub server)" using cut by (simp add: CheckMAC1_def)
  moreover have "cc_open c k1 zeroNonce (mixHash c (mixHash c (initialHash c) (kp_pub server)) (kp_pub eph)) est = Some (kp_pub static)"
      "cc_open c k2 zeroNonce (mixHash c (mixHash c (mixHash c (initialHash c) (kp_pub server)) (kp_pub eph)) est) ets = Some (tai64n now)"
    using len by (simp_all add: s(6,7) lib_open_seal [OF assms(1)])
  ultimately show thesis
    using that cut dh len s by (simp add: ConsumeInitiation_def Let_def LooksLikeInitiation_def zero_info_def)
qed

lemma response_shape:
  assumes "lib_ok c" "length rnd = 32" "CreateResponse c info psk rnd idx = Some (resp, rs)"
  obtains eph s1 s2 ch tau k where
    "wf_pair c eph" "x25519 c (kp_priv eph) (ii_eph info) = Some s1" "x25519 c (kp_priv eph) (ii_static info) = Some s2"
    "kdf3 c (kdf1 c (kdf1 c (kdf1 c (ii_chain info) (kp_pub eph)) s1) s2) psk = (ch, tau, k)"
    "kdf2 c ch [] = (tk_recv (rs_keys rs), tk_send (rs_keys rs))" "rs_local rs = idx" "rs_peer rs = ii_sender info"
    "\<exists>mac. length mac = 32 \<and> resp = [2, 0, 0, 0] @ le32 idx @ le32 (ii_sender info) @ kp_pub eph
        @ cc_seal c k zeroNonce (mixHash c (mixHash c (ii_hash info) (kp_pub eph)) tau) [] @ mac"
proof -
  from assms(3) obtain eph s1 s2 where e: "NewKeyPair c rnd = Some eph" "x25519 c (kp_priv eph) (ii_eph info) = Some s1"
      "x25519 c (kp_priv eph) (ii_static info) = Some s2"
    by (auto simp: CreateResponse_def Let_def split: Option.bind_splits prod.splits)
  obtain ch tau k where k: "kdf3 c (kdf1 c (kdf1 c (kdf1 c (ii_chain info) (kp_pub eph)) s1) s2) psk = (ch, tau, k)"
    using prod_cases3 by blast
  obtain t1 t2 where t: "kdf2 c ch [] = (t1, t2)" by fastforce
  let ?m = "[2, 0, 0, 0] @ le32 idx @ le32 (ii_sender info) @ kp_pub eph
        @ cc_seal c k zeroNonce (mixHash c (mixHash c (ii_hash info) (kp_pub eph)) tau) []"
  have "resp = ?m @ mac1_of c (ii_static info) ?m @ replicate 16 0"
    "rs = \<lparr>rs_local = idx, rs_peer = ii_sender info, rs_keys = \<lparr>tk_send = t2, tk_recv = t1\<rparr>\<rparr>"
    using assms(3) e k t by (simp_all add: CreateResponse_def Let_def)
  then show thesis
    using that [OF wf_NewKeyPair [OF assms(2) e(1)] e(2,3) k] t lib_lengths(6) [OF assms(1)] by auto
qed

lemma response_accepted:
  assumes "lib_ok c" "wf_pair c (is_static st)" "wf_pair c (is_eph st)" "length rnd = 32"
    and "ii_sender info = is_sender st" "ii_static info = kp_pub (is_static st)" "ii_hash info = is_hash st"
    and "ii_chain info = is_chain st" "ii_eph info = kp_pub (is_eph st)"
    and "CreateResponse c info psk rnd idx = Some (resp, rs)"
  shows "\<exists>st'. ConsumeResponse c st resp psk = Inr st' \<and> is_ready st' \<and> is_peer st' = rs_local rs \<and> rs_peer rs = is_sender st
     \<and> tk_send (is_keys st') = tk_recv (rs_keys rs) \<and> tk_recv (is_keys st') = tk_send (rs_keys rs)"
proof -
  obtain eph s1 s2 ch tau k mac where r:
    "wf_pair c eph" "x25519 c (kp_priv eph) (kp_pub (is_eph st)) = Some s1" "x25519 c (kp_priv eph) (kp_pub (is_static st)) = Some s2"
    "kdf3 c (kdf1 c (kdf1 c (kdf1 c (is_chain st) (kp_pub eph)) s1) s2) psk = (ch, tau, k)"
    "kdf2 c ch [] = (tk_recv (rs_keys rs), tk_send (rs_keys rs))" "rs_local rs = idx" "rs_peer rs = is_sender st" "length mac = 32"
    "resp = [2, 0, 0, 0] @ le32 idx @ le32 (is_sender st) @ kp_pub eph
      @ cc_seal c k zeroNonce (mixHash c (mixHash c (is_hash st) (kp_pub eph)) tau) [] @ mac"
    using response_shape [OF assms(1,4,10)] assms(5-9) by metis
  have len: "length (kp_pub eph) = 32" "length k = 32"
    using length_pub [OF assms(1) r(1)] kdf3_keys [OF assms(1) r(4)] by simp_all
  have cut: "length resp = 92" "resp ! 0 = 2" "get_le32 resp 8 = is_sender st" "get_le32 resp 4 = idx" "take 32 (drop 12 resp) = kp_pub eph"
      "take 16 (drop 44 resp) = cc_seal c k zeroNonce (mixHash c (mixHash c (is_hash st) (kp_pub eph)) tau) []"
    using len r(8) by (simp_all add: r(9) lib_seal_length [OF assms(1)] get_le_drop(1) [of _ 8] get_le_drop(1) [of _ 4] get_le_le)
  have "x25519 c (kp_priv (is_eph st)) (kp_pub eph) = Some s1" "x25519 c (kp_priv (is_static st)) (kp_pub eph) = Some s2"
    using dh_agrees [OF assms(1)] r(1-3) assms(2,3) by metis+
  then show ?thesis
    using cut r(4-7) len by (simp add: ConsumeResponse_def Let_def lib_open_seal [OF assms(1)])
qed

text \<open>C39. The handshake agrees: with keys that belong together, what the initiator builds is recognised and
  accepted by the responder, which learns the initiator's static key, index and timestamp; the
  response it then builds is accepted by the initiator; and both sides end with the same pair of
  transport keys, one's sending key being the other's receiving key, and with each other's
  index.\<close>

theorem wg_handshake_agrees:
  assumes "lib_ok c" "wf_pair c static" "wf_pair c server" "length rnd = 32" "length rnd' = 32"
    and "CreateInitiation c static (kp_pub server) rnd idx now = Some (st, msg)"
  shows "\<exists>info. ConsumeInitiation c msg server = (Some info, None) \<and> LooksLikeInitiation msg
     \<and> ii_static info = kp_pub static \<and> ii_timestamp info = tai64n now
     \<and> (\<forall>resp rs. CreateResponse c info psk rnd' idx' = Some (resp, rs) \<longrightarrow>
          (\<exists>st'. ConsumeResponse c st resp psk = Inr st' \<and> is_ready st' \<and> is_peer st' = rs_local rs \<and> rs_peer rs = idx
             \<and> tk_send (is_keys st') = tk_recv (rs_keys rs) \<and> tk_recv (is_keys st') = tk_send (rs_keys rs)))"
proof -
  obtain info where i: "ConsumeInitiation c msg server = (Some info, None)" "ii_sender info = is_sender st" "ii_static info = kp_pub static"
    "ii_hash info = is_hash st" "ii_chain info = is_chain st" "ii_eph info = kp_pub (is_eph st)" "is_static st = static"
    "wf_pair c (is_eph st)" "ii_timestamp info = tai64n now" "LooksLikeInitiation msg" "is_sender st = idx"
    using initiation_accepted [OF assms(1-4,6)] by blast
  then show ?thesis
    using response_accepted [OF assms(1) _ i(8) assms(5) i(2) _ i(4-6)] assms(2) by (metis (no_types, lifting))
qed

text \<open>A library that meets the hypotheses: SHA-256 for the hash, AES-GCM for the sealing, and an
  exchange whose secret is the exclusive or of the two keys.\<close>

definition demo_lib :: crypto_lib where
  "demo_lib = \<lparr>blake256 = sha256, blake128 = (\<lambda>k m. take 16 (hmac_sha256 k m)),
     x25519 = (\<lambda>a b. if length a = 32 \<and> length b = 32 then Some (xor_bytes a b) else None), basepoint = replicate 32 0,
     cc_seal = gcm_seal, cc_open = gcm_open\<rparr>"

lemma xor_bytes_zero: "length a = n \<Longrightarrow> xor_bytes a (replicate n 0) = a"
  by (auto simp: xor_bytes_def list_eq_iff_nth_eq)

lemma xor_bytes_commute: "xor_bytes a b = xor_bytes b a"
  by (auto simp: xor_bytes_def list_eq_iff_nth_eq xor.commute)

lemma demo_lib_ok: "lib_ok demo_lib"
  using gcm.aead_axioms xor_bytes_commute
  by (simp add: lib_ok_def demo_lib_def xor_bytes_zero)

lemma demo_pair: "length k = 32 \<Longrightarrow> wf_pair demo_lib \<lparr>kp_priv = k, kp_pub = k\<rparr>"
  by (simp add: wf_pair_def demo_lib_def xor_bytes_zero)

theorem wg_handshake_agrees_witness:
  "\<exists>st msg info. CreateInitiation demo_lib \<lparr>kp_priv = replicate 32 3, kp_pub = replicate 32 3\<rparr> (replicate 32 5) (replicate 32 9) 7 0
       = Some (st, msg)
     \<and> ConsumeInitiation demo_lib msg \<lparr>kp_priv = replicate 32 5, kp_pub = replicate 32 5\<rparr> = (Some info, None)"
proof -
  let ?s = "\<lparr>kp_priv = replicate 32 3, kp_pub = replicate 32 3\<rparr>" and ?r = "\<lparr>kp_priv = replicate 32 5, kp_pub = replicate 32 5\<rparr>"
  have "CreateInitiation demo_lib ?s (kp_pub ?r) (replicate 32 9) 7 0 \<noteq> None"
    by (simp add: CreateInitiation_def demo_lib_def NewKeyPair_def KeyPairFromPrivate_def clamp_def Let_def split: prod.splits)
  then obtain st msg where "CreateInitiation demo_lib ?s (kp_pub ?r) (replicate 32 9) 7 0 = Some (st, msg)" by auto
  then show ?thesis
    using wg_handshake_agrees [OF demo_lib_ok demo_pair demo_pair, of "replicate 32 3" "replicate 32 5" "replicate 32 9" "replicate 32 1" 7 0 st msg "[]" 0]
    by auto
qed

lemma transport_opened:
  assumes "lib_ok c" "length key = 32"
  shows "TransportReceiver (SealTransport c key i n p) = i" "LooksLikeTransport (SealTransport c key i n p)"
    "OpenTransport c key (SealTransport c key i n p) = (n, pad16 p, None)"
proof -
  let ?b = "SealTransport c key i n p"
  have b: "get_le64 ?b 8 = n" "drop 16 ?b = cc_seal c key (transportNonce n) [] (pad16 p)"
    by (simp_all add: SealTransport_def get_le_drop(2) [of _ 8] get_le_le)
  show "TransportReceiver ?b = i"
    by (simp add: TransportReceiver_def SealTransport_def get_le_drop(1) [of _ 4] get_le_le)
  show t: "LooksLikeTransport ?b"
    by (simp add: LooksLikeTransport_def SealTransport_def lib_seal_length [OF assms] numeral_2_eq_2 numeral_3_eq_3)
  then show "OpenTransport c key ?b = (n, pad16 p, None)"
    by (simp add: OpenTransport_def b lib_open_seal [OF assms])
qed

text \<open>A transport packet is read back by the holder of the same key, whatever its payload: it has the
  transport shape, carries the receiver index and the counter it was sealed with, and opens to the
  payload padded with zeros to a multiple of sixteen bytes; a packet that opens at all is the
  sealing of what it opens to.\<close>

theorem wg_transport_channel:
  assumes "lib_ok c" "length key = 32"
  shows "OpenTransport c key (SealTransport c key i n p) = (n, pad16 p, None)
     \<and> LooksLikeTransport (SealTransport c key i n p) \<and> TransportReceiver (SealTransport c key i n p) = i
     \<and> (OpenTransport c key b = (n, q, None) \<longrightarrow>
          b = [4, 0, 0, 0] @ le32 (TransportReceiver b) @ le64 n @ cc_seal c key (transportNonce n) [] q)"
proof (intro conjI impI)
  show "TransportReceiver (SealTransport c key i n p) = i" "LooksLikeTransport (SealTransport c key i n p)"
    "OpenTransport c key (SealTransport c key i n p) = (n, pad16 p, None)"
    by (rule transport_opened [OF assms])+
  assume "OpenTransport c key b = (n, q, None)"
  then have o: "LooksLikeTransport b" "n = get_le64 b 8" "cc_open c key (transportNonce n) [] (drop 16 b) = Some q"
    by (auto simp: OpenTransport_def Let_def split: if_splits option.splits)
  have "drop 16 b = cc_seal c key (transportNonce n) [] q"
    by (rule aead.unseal_sealed [OF lib_aead [OF assms(1)]]) (use assms o in simp_all)
  moreover have "take 4 b = [4, 0, 0, 0]"
    using o(1) by (auto simp: LooksLikeTransport_def list_eq_iff_nth_eq less_Suc_eq numeral_eq_Suc)
  moreover have "le32 (get_le32 b 4) = take 4 (drop 4 b)" "le64 (get_le64 b 8) = take 8 (drop 8 b)"
    using o(1) le_get_le(1) [of 4 b] le_get_le(2) [of 8 b] by (simp_all add: LooksLikeTransport_def)
  ultimately have "[4, 0, 0, 0] @ le32 (TransportReceiver b) @ le64 n @ cc_seal c key (transportNonce n) [] q
      = take 4 b @ take 4 (drop 4 b) @ take 8 (drop 8 b) @ drop 16 b"
    by (simp add: TransportReceiver_def o(2))
  also have "\<dots> = b" using cut3 [of b 4 4 8, symmetric] by simp
  finally show "b = [4, 0, 0, 0] @ le32 (TransportReceiver b) @ le64 n @ cc_seal c key (transportNonce n) [] q" ..
qed

theorem wg_transport_channel_witness:
  "OpenTransport demo_lib (replicate 32 1) (SealTransport demo_lib (replicate 32 1) 5 9 [1, 2, 3]) = (9, pad16 [1, 2, 3], None)"
  using wg_transport_channel [OF demo_lib_ok, of "replicate 32 1" 5 9 "[1, 2, 3]" "[]" "[]"] by simp

end
