(* ===== verification/Dnsx.thy ===== *)
theory Dnsx
  imports Vpn_Codecs "HOL-Library.Monad_Syntax"
begin

text \<open>
  The synthetic DNS of the probe (\<open>internal/dnsx\<close>): query names, the answers only the probe
  server can give, the zone check that keeps it from being a resolver, and the client's
  verification. The wire format is golang.org/x/net/dns/dnsmessage, which is not part of the
  program: its parser and builder are the fields of \<open>dns_lib\<close>, an argument of the definitions,
  and \<open>dns_ok\<close> states what the code relies on. The zone, a package variable, is an argument.
  \<open>strings.ToLower\<close> is modelled on ASCII.
\<close>

unbundle bit_operations_syntax

section \<open>The library\<close>

type_synonym dns_type = nat

abbreviation TypeA :: dns_type where "TypeA \<equiv> 1"
abbreviation TypeTXT :: dns_type where "TypeTXT \<equiv> 16"
abbreviation TypeOPT :: dns_type where "TypeOPT \<equiv> 41"
abbreviation RCodeSuccess :: nat where "RCodeSuccess \<equiv> 0"
abbreviation RCodeRefused :: nat where "RCodeRefused \<equiv> 5"

record dns_header =
  dh_id :: "16 word"
  dh_response :: bool
  dh_authoritative :: bool
  dh_truncated :: bool
  dh_rd :: bool
  dh_rcode :: nat

datatype dns_rr = RRA bytes | RRTXT "string list" | RROPT nat bytes | RROther

text \<open>\<open>dl_start\<close> and \<open>dl_question\<close> are the first calls of the parser, \<open>dl_answers\<close> the answer
  resources in order, \<open>None\<close> being one whose body does not parse; \<open>dl_finish\<close> is a builder run
  with one question, the answers and the additional records it was given.\<close>

record dns_lib =
  dl_name_ok :: "string \<Rightarrow> bool"
  dl_start :: "bytes \<Rightarrow> dns_header option"
  dl_question :: "bytes \<Rightarrow> (string \<times> dns_type) option"
  dl_answers :: "bytes \<Rightarrow> dns_rr option list"
  dl_finish :: "dns_header \<Rightarrow> string \<times> dns_type \<Rightarrow> dns_rr list \<Rightarrow> dns_rr list \<Rightarrow> bytes option"
  dl_type_string :: "dns_type \<Rightarrow> string"
  dl_rcode_string :: "nat \<Rightarrow> string"
  dl_error_string :: string

text \<open>What the code relies on: a message the builder finishes is read back as it was built.\<close>

definition dns_ok :: "dns_lib \<Rightarrow> bool" where
  "dns_ok d \<longleftrightarrow> (\<forall>h q an ad b. dl_finish d h q an ad = Some b \<longrightarrow>
     dl_start d b = Some h \<and> dl_question d b = Some q \<and> dl_answers d b = map Some an)"

section \<open>Names and expected answers\<close>

definition lower_char :: "char \<Rightarrow> char" where
  "lower_char c = (let n = of_char c :: nat in if 65 \<le> n \<and> n \<le> 90 then char_of (n + 32) else c)"

definition ToLower :: "string \<Rightarrow> string" where
  "ToLower s = map lower_char s"

definition trim_char :: "char \<Rightarrow> string \<Rightarrow> string" where
  "trim_char c s = rev (dropWhile (\<lambda>x. x = c) (rev (dropWhile (\<lambda>x. x = c) s)))"

definition SetZone :: "string \<Rightarrow> string" where
  "SetZone z = (let z = ToLower (trim_char (CHR ''.'') z) in (if z = '''' then ''probe.invalid'' else z) @ ''.'')"

definition WhoamiLabel :: string where "WhoamiLabel = ''whoami''"

datatype dns_error = ErrNotQuery | ErrBadName | ErrFinish | ErrNotResponse

record dns_query =
  q_id :: "16 word"
  q_name :: string
  q_type :: dns_type
  q_raw :: bytes

definition QueryName :: "string \<Rightarrow> string \<Rightarrow> string \<Rightarrow> string" where
  "QueryName zone nonceHex test = ToLower nonceHex @ ''.'' @ test @ ''.'' @ zone"

definition ExpectedTXT :: "string \<Rightarrow> string" where
  "ExpectedTXT name = ''CP1 '' @ take 32 (hex_encode (sha256 (bytes_of (ToLower name))))"

definition ExpectedA :: "string \<Rightarrow> bytes" where
  "ExpectedA name = (let s = sha256 (bytes_of (''a:'' @ ToLower name)) in [198, 18 + (s ! 0 AND 1), s ! 1, s ! 2])"

section \<open>The server's side\<close>

definition query_header :: "16 word \<Rightarrow> dns_header" where
  "query_header qid = \<lparr>dh_id = qid, dh_response = False, dh_authoritative = False, dh_truncated = False, dh_rd = True, dh_rcode = RCodeSuccess\<rparr>"

definition BuildQuery :: "dns_lib \<Rightarrow> 16 word \<Rightarrow> string \<Rightarrow> dns_type \<Rightarrow> dns_error + bytes" where
  "BuildQuery d qid name t =
     (if \<not> dl_name_ok d name then Inl ErrBadName
      else case dl_finish d (query_header qid) (name, t) [] [] of None \<Rightarrow> Inl ErrFinish | Some b \<Rightarrow> Inr b)"

definition dns_ParseQuery :: "dns_lib \<Rightarrow> bytes \<Rightarrow> dns_error + dns_query" where
  "dns_ParseQuery d b =
     (case dl_start d b of
        None \<Rightarrow> Inl ErrNotQuery
      | Some h \<Rightarrow>
          if dh_response h then Inl ErrNotQuery
          else (case dl_question d b of
                  None \<Rightarrow> Inl ErrNotQuery
                | Some (n, t) \<Rightarrow> Inr \<lparr>q_id = dh_id h, q_name = ToLower n, q_type = t, q_raw = b\<rparr>))"

definition LooksLikeQuery :: "bytes \<Rightarrow> bool" where
  "LooksLikeQuery b \<longleftrightarrow> length b \<ge> 12 \<and> w16 b 2 AND 0x8000 = 0 \<and> w16 b 4 \<ge> 1"

definition in_zone :: "string \<Rightarrow> string \<Rightarrow> bool" where
  "in_zone zone n \<longleftrightarrow> has_suffix n (''.'' @ zone) \<or> n = zone"

definition answer_header :: "16 word \<Rightarrow> bool \<Rightarrow> nat \<Rightarrow> dns_header" where
  "answer_header qid tc rc = \<lparr>dh_id = qid, dh_response = True, dh_authoritative = True, dh_truncated = tc, dh_rd = True, dh_rcode = rc\<rparr>"

definition answer_records :: "dns_query \<Rightarrow> string \<Rightarrow> dns_rr list" where
  "answer_records q src =
     (if q_type q = TypeA then [RRA (ExpectedA (q_name q))]
      else if q_type q = TypeTXT
      then [RRTXT (ExpectedTXT (q_name q)
              # (if src \<noteq> '''' \<and> has_prefix (q_name q) (WhoamiLabel @ ''.'') then [''recursor='' @ src] else []))]
      else [])"

definition BuildAnswerFrom :: "dns_lib \<Rightarrow> string \<Rightarrow> dns_query \<Rightarrow> string \<Rightarrow> dns_error + bytes" where
  "BuildAnswerFrom d zone q src =
     (if \<not> dl_name_ok d (q_name q) then Inl ErrBadName
      else case (if in_zone zone (q_name q)
                 then dl_finish d (answer_header (q_id q) False RCodeSuccess) (q_name q, q_type q) (answer_records q src) []
                 else dl_finish d (answer_header (q_id q) False RCodeRefused) (q_name q, q_type q) [] []) of
             None \<Rightarrow> Inl ErrFinish | Some b \<Rightarrow> Inr b)"

definition BuildAnswer :: "dns_lib \<Rightarrow> string \<Rightarrow> dns_query \<Rightarrow> dns_error + bytes" where
  "BuildAnswer d zone q = BuildAnswerFrom d zone q ''''"

text \<open>A nil slice is the empty list.\<close>

definition Truncated :: "dns_lib \<Rightarrow> dns_query \<Rightarrow> bytes" where
  "Truncated d q =
     (if \<not> dl_name_ok d (q_name q) then []
      else case dl_finish d (answer_header (q_id q) True RCodeSuccess) (q_name q, q_type q) [] [] of None \<Rightarrow> [] | Some b \<Rightarrow> b)"

section \<open>The client's side\<close>

record dns_answer =
  an_id :: "16 word"
  an_rcode :: nat
  an_name :: string
  an_txt :: "string list"
  an_a :: "bytes list"

text \<open>The walk over the answers stops at the first resource that does not parse.\<close>

fun collect_answers :: "dns_rr option list \<Rightarrow> dns_answer \<Rightarrow> dns_answer" where
  "collect_answers [] a = a"
| "collect_answers (None # rs) a = a"
| "collect_answers (Some (RRA x) # rs) a = collect_answers rs (a\<lparr>an_a := an_a a @ [x]\<rparr>)"
| "collect_answers (Some (RRTXT t) # rs) a = collect_answers rs (a\<lparr>an_txt := an_txt a @ t\<rparr>)"
| "collect_answers (Some _ # rs) a = collect_answers rs a"

definition ParseAnswer :: "dns_lib \<Rightarrow> bytes \<Rightarrow> dns_error + dns_answer" where
  "ParseAnswer d b =
     (case dl_start d b of
        None \<Rightarrow> Inl ErrNotQuery
      | Some h \<Rightarrow>
          if \<not> dh_response h then Inl ErrNotResponse
          else Inr (collect_answers (dl_answers d b)
                 \<lparr>an_id = dh_id h, an_rcode = dh_rcode h,
                  an_name = (case dl_question d b of None \<Rightarrow> '''' | Some (n, _) \<Rightarrow> ToLower n), an_txt = [], an_a = []\<rparr>))"

definition Verify :: "dns_lib \<Rightarrow> dns_answer \<Rightarrow> string \<Rightarrow> dns_type \<Rightarrow> bool \<times> string" where
  "Verify d ans name t =
     (if an_rcode ans \<noteq> RCodeSuccess then (False, ''rcode_'' @ dl_rcode_string d (an_rcode ans))
      else if t = TypeTXT
      then (if ExpectedTXT (ToLower name) \<in> set (an_txt ans) then (True, '''') else (False, ''txt_mismatch''))
      else if t = TypeA
      then (if ExpectedA (ToLower name) \<in> set (an_a ans) then (True, '''') else (False, ''a_mismatch''))
      else (False, ''unsupported_type''))"

definition BuildPaddedQuery :: "dns_lib \<Rightarrow> 16 word \<Rightarrow> string \<Rightarrow> dns_type \<Rightarrow> int \<Rightarrow> dns_error + bytes" where
  "BuildPaddedQuery d qid name t sz =
     (if \<not> dl_name_ok d name then Inl ErrBadName
      else case dl_finish d (query_header qid) (name, t) [] [] of
             None \<Rightarrow> Inl ErrFinish
           | Some base \<Rightarrow>
               (let pad = nat (sz - int (length base) - 11 - 4)
                in case dl_finish d (query_header qid) (name, t) [] [RROPT 12 (replicate pad 0)] of
                     None \<Rightarrow> Inl ErrFinish | Some b \<Rightarrow> Inr b))"

section \<open>Properties\<close>

lemma ToLower_idem [simp]: "ToLower (ToLower s) = ToLower s"
proof -
  have "lower_char (lower_char c) = lower_char c" for c
    by (auto simp: lower_char_def Let_def of_char_of)
  then show ?thesis by (simp add: ToLower_def)
qed

lemma read_answer:
  assumes "dns_ok d" "BuildAnswerFrom d zone q src = Inr b"
  shows "ParseAnswer d b = Inr (collect_answers (map Some (if in_zone zone (q_name q) then answer_records q src else []))
           \<lparr>an_id = q_id q, an_rcode = (if in_zone zone (q_name q) then RCodeSuccess else RCodeRefused), an_name = ToLower (q_name q),
            an_txt = [], an_a = []\<rparr>)"
  using assms by (auto simp: BuildAnswerFrom_def dns_ok_def ParseAnswer_def answer_header_def split: if_splits option.splits)

text \<open>The probe's DNS agrees with itself and with nobody else: a query the client builds, plain or
  padded, is read by the server as that name in lower case, and if the server finishes an answer
  the client reads its own identifier and name back and accepts it exactly when the name lies in
  the probe zone and the type is one that carries a proof; a name outside the zone is refused
  whatever was asked.\<close>

theorem dns_answers_verify:
  assumes "dns_ok d" "BuildQuery d qid name t = Inr b \<or> BuildPaddedQuery d qid name t sz = Inr b"
    and "dns_ParseQuery d b = Inr q" "BuildAnswerFrom d zone q src = Inr ans" "ParseAnswer d ans = Inr a"
  shows "q_id q = qid \<and> q_name q = ToLower name \<and> q_type q = t \<and> an_id a = qid \<and> an_name a = ToLower name
    \<and> Verify d a name t =
        (if in_zone zone (ToLower name)
         then (if t = TypeA \<or> t = TypeTXT then (True, '''') else (False, ''unsupported_type''))
         else (False, ''rcode_'' @ dl_rcode_string d RCodeRefused))"
proof -
  have q: "q_id q = qid" "q_name q = ToLower name" "q_type q = t"
    using assms(1-3) by (auto simp: BuildQuery_def BuildPaddedQuery_def dns_ok_def dns_ParseQuery_def query_header_def Let_def split: if_splits option.splits)
  have a: "a = collect_answers (map Some (if in_zone zone (q_name q) then answer_records q src else []))
           \<lparr>an_id = q_id q, an_rcode = (if in_zone zone (q_name q) then RCodeSuccess else RCodeRefused), an_name = ToLower (q_name q),
            an_txt = [], an_a = []\<rparr>"
    using read_answer [OF assms(1,4)] assms(5) by simp
  show ?thesis
    by (simp add: a q Verify_def answer_records_def)
qed

text \<open>A library that speaks one exchange.\<close>

definition demo_q :: "string \<times> dns_type" where "demo_q = (''ab.t.probe.invalid.'', TypeTXT)"
definition demo_rr :: dns_rr where "demo_rr = RRTXT [ExpectedTXT ''ab.t.probe.invalid.'']"

definition demo_dns :: dns_lib where
  "demo_dns = \<lparr>dl_name_ok = (\<lambda>_. True),
     dl_start = (\<lambda>b. if b = [1] then Some (query_header 7) else if b = [2] then Some (answer_header 7 False RCodeSuccess) else None),
     dl_question = (\<lambda>b. Some demo_q), dl_answers = (\<lambda>b. if b = [2] then [Some demo_rr] else []),
     dl_finish = (\<lambda>h q an ad. if h = query_header 7 \<and> q = demo_q \<and> an = [] then Some [1]
                   else if h = answer_header 7 False RCodeSuccess \<and> q = demo_q \<and> an = [demo_rr] then Some [2] else None),
     dl_type_string = (\<lambda>_. ''''), dl_rcode_string = (\<lambda>_. ''''), dl_error_string = ''''\<rparr>"

lemma demo_dns_ok: "dns_ok demo_dns"
  by (auto simp: dns_ok_def demo_dns_def)

theorem dns_answers_verify_witness:
  "\<exists>q a. dns_ParseQuery demo_dns [1] = Inr q \<and> BuildAnswerFrom demo_dns ''probe.invalid.'' q '''' = Inr [2]
     \<and> ParseAnswer demo_dns [2] = Inr a \<and> Verify demo_dns a ''ab.t.probe.invalid.'' TypeTXT = (True, '''')"
proof -
  have low: "ToLower ''ab.t.probe.invalid.'' = ''ab.t.probe.invalid.''" by (simp add: ToLower_def lower_char_def)
  have zone: "in_zone ''probe.invalid.'' ''ab.t.probe.invalid.''" by (simp add: in_zone_def has_suffix_def)
  let ?q = "\<lparr>q_id = 7, q_name = ''ab.t.probe.invalid.'', q_type = TypeTXT, q_raw = [1]\<rparr>"
  have b: "BuildQuery demo_dns 7 ''ab.t.probe.invalid.'' TypeTXT = Inr [1]"
    by (simp add: BuildQuery_def demo_dns_def demo_q_def)
  have q: "dns_ParseQuery demo_dns [1] = Inr ?q"
    using low by (simp add: dns_ParseQuery_def demo_dns_def demo_q_def query_header_def)
  have a: "BuildAnswerFrom demo_dns ''probe.invalid.'' ?q '''' = Inr [2]"
    using zone by (simp add: BuildAnswerFrom_def answer_records_def demo_dns_def demo_q_def demo_rr_def query_header_def answer_header_def)
  obtain r where "ParseAnswer demo_dns [2] = Inr r" using read_answer [OF demo_dns_ok a] by blast
  with dns_answers_verify [OF demo_dns_ok disjI1 [OF b] q a this] q a low zone show ?thesis by simp
qed

end
