(* ===== verification/Udp_Flow.thy ===== *)
theory Udp_Flow
  imports Store Ovpn Dtls Wg Dnsx Proxy_Codecs
begin

text \<open>
  The UDP demultiplexer of the server, first part (\<open>internal/server/udp.go\<close>): the state of one
  listener, a datagram with everything its handler reads from outside (clock, random bytes, the
  result of the send), the flow record on its way through the handlers, the lookups and collectors
  of the session tables and the matchers of the dispatch table. Go shares an OpenVPN session
  between its two tables and an IKE session between three: these sessions live in a heap and the
  tables hold references into it. The tables are association lists; a listener handles its
  datagrams one at a time, so a step is a function of the state.
\<close>

unbundle bit_operations_syntax

section \<open>Sessions\<close>

abbreviation vpnSessionTTL :: duration where "vpnSessionTTL \<equiv> sec 90"
abbreviation vpnSessionMaxData :: nat where "vpnSessionMaxData \<equiv> 64"

record vpnFlow =
  vf_session :: string
  vf_attempt :: string
  vf_test :: string
  vf_variant :: string
  vf_peer :: string
  vf_expires :: time
  vf_in :: nat
  vf_out :: nat

record wgSession =
  ws_flow :: vpnFlow
  ws_sess :: responder_session

record ovpnSession =
  ov_flow :: vpnFlow
  ov_ssid :: bytes
  ov_layout :: layout
  ov_nextPID :: "32 word"
  ov_ctlIn :: nat
  ov_ctlOut :: nat
  ov_keys :: "(data_key \<times> data_key) option"
  ov_dataPID :: "32 word"

record ikeSession =
  ik_flow :: vpnFlow
  ik_spir :: bytes
  ik_natt :: bool
  ik_esp :: "32 word"
  ik_authd :: bool

record l2tpSession =
  lt_flow :: vpnFlow
  lt_peerTunnel :: "16 word"
  lt_tunnel :: "16 word"
  lt_peerSession :: "16 word"
  lt_session :: "16 word"
  lt_ns :: "16 word"

text \<open>\<open>ul_quic = None\<close> is a listener without a QUIC endpoint; otherwise it is the queue towards it,
  of capacity 256.\<close>

record udpListener =
  ul_port :: int
  ul_dns :: bool
  ul_quic :: "(bytes \<times> string) list option"
  ul_quicPeers :: "(string \<times> time) list"
  ul_wg :: "(32 word \<times> wgSession) list"
  ul_ovHeap :: "nat \<Rightarrow> ovpnSession option"
  ul_ovpn :: "(bytes \<times> nat) list"
  ul_ovpnPeer :: "(string \<times> nat) list"
  ul_ikHeap :: "nat \<Rightarrow> ikeSession option"
  ul_ike :: "(bytes \<times> nat) list"
  ul_esp :: "(32 word \<times> nat) list"
  ul_l2tp :: "(16 word \<times> l2tpSession) list"
  ul_dtls :: "(string \<times> vpnFlow) list"
  ul_next :: nat

definition newListener :: "int \<Rightarrow> bool \<Rightarrow> bool \<Rightarrow> udpListener" where
  "newListener port dns quic =
     \<lparr>ul_port = port, ul_dns = dns, ul_quic = (if quic \<and> \<not> dns then Some [] else None), ul_quicPeers = [], ul_wg = [],
      ul_ovHeap = (\<lambda>_. None), ul_ovpn = [], ul_ovpnPeer = [], ul_ikHeap = (\<lambda>_. None), ul_ike = [], ul_esp = [],
      ul_l2tp = [], ul_dtls = [], ul_next = 0\<rparr>"

text \<open>The server's keys and the third-party libraries.\<close>

record server =
  sv_master :: bytes
  sv_wg :: key_pair
  sv_ovpn :: bytes
  sv_zone :: string
  sv_lib :: crypto_lib
  sv_dns :: dns_lib
  sv_lib_error :: string

definition ovpnLayout :: "server \<Rightarrow> ovpn_auth \<Rightarrow> layout" where
  "ovpnLayout sv auth =
     (if auth \<noteq> AuthTLS then Plain
      else case TLSAuthDirKeys (sv_ovpn sv) of Inl _ \<Rightarrow> Plain | Inr (c2s, s2c) \<Rightarrow> TLSAuth s2c c2s)"

section \<open>Lookups and collection\<close>

definition live :: "time \<Rightarrow> vpnFlow \<Rightarrow> bool" where
  "live now v \<longleftrightarrow> \<not> now > vf_expires v"

definition deref :: "(nat \<Rightarrow> 'a option) \<Rightarrow> ('k \<times> nat) list \<Rightarrow> 'k \<Rightarrow> (nat \<times> 'a) option" where
  "deref h tab k = (case map_of tab k of None \<Rightarrow> None | Some r \<Rightarrow> map_option (Pair r) (h r))"

definition find_live :: "('a \<Rightarrow> vpnFlow) \<Rightarrow> time \<Rightarrow> (nat \<times> 'a) option \<Rightarrow> (nat \<times> 'a) option" where
  "find_live fl now x = (case x of None \<Rightarrow> None | Some (r, s) \<Rightarrow> if live now (fl s) then Some (r, s) else None)"

definition lookupOVPNPeer :: "udpListener \<Rightarrow> string \<Rightarrow> time \<Rightarrow> (nat \<times> ovpnSession) option" where
  "lookupOVPNPeer l addr now = find_live ov_flow now (deref (ul_ovHeap l) (ul_ovpnPeer l) addr)"

definition lookupIKE :: "udpListener \<Rightarrow> bytes \<Rightarrow> time \<Rightarrow> (nat \<times> ikeSession) option" where
  "lookupIKE l spii now = find_live ik_flow now (deref (ul_ikHeap l) (ul_ike l) spii)"

definition lookupESP :: "udpListener \<Rightarrow> 32 word \<Rightarrow> time \<Rightarrow> (nat \<times> ikeSession) option" where
  "lookupESP l spi now = find_live ik_flow now (deref (ul_ikHeap l) (ul_esp l) spi)"

definition lookupL2TP :: "udpListener \<Rightarrow> 16 word \<Rightarrow> time \<Rightarrow> l2tpSession option" where
  "lookupL2TP l tunnel now =
     (case map_of (ul_l2tp l) tunnel of None \<Rightarrow> None | Some s \<Rightarrow> if live now (lt_flow s) then Some s else None)"

definition live_ref :: "('a \<Rightarrow> vpnFlow) \<Rightarrow> (nat \<Rightarrow> 'a option) \<Rightarrow> time \<Rightarrow> 'k \<times> nat \<Rightarrow> bool" where
  "live_ref fl h now e = (case h (snd e) of None \<Rightarrow> True | Some s \<Rightarrow> live now (fl s))"

text \<open>An expired IKE session takes the ESP entry of its index with it.\<close>

definition dead_esps :: "udpListener \<Rightarrow> time \<Rightarrow> 32 word list" where
  "dead_esps l now =
     concat (map (\<lambda>e. case ul_ikHeap l (snd e) of None \<Rightarrow> [] | Some s \<Rightarrow> if live now (ik_flow s) then [] else [ik_esp s]) (ul_ike l))"

definition gcVPN :: "time \<Rightarrow> udpListener \<Rightarrow> udpListener" where
  "gcVPN now l =
     l\<lparr>ul_wg := List.filter (\<lambda>e. live now (ws_flow (snd e))) (ul_wg l),
       ul_ovpn := List.filter (live_ref ov_flow (ul_ovHeap l) now) (ul_ovpn l),
       ul_ovpnPeer := List.filter (live_ref ov_flow (ul_ovHeap l) now) (ul_ovpnPeer l),
       ul_ike := List.filter (live_ref ik_flow (ul_ikHeap l) now) (ul_ike l),
       ul_esp := List.filter (\<lambda>e. live_ref ik_flow (ul_ikHeap l) now e \<and> fst e \<notin> set (dead_esps l now)) (ul_esp l),
       ul_l2tp := List.filter (\<lambda>e. live now (lt_flow (snd e))) (ul_l2tp l)\<rparr>"

definition knownPeer :: "udpListener \<Rightarrow> string \<Rightarrow> time \<Rightarrow> udpListener \<times> bool" where
  "knownPeer l addr now =
     (case map_of (ul_quicPeers l) addr of
        None \<Rightarrow> (l, False)
      | Some e \<Rightarrow> if now < e then (l, True) else (l\<lparr>ul_quicPeers := AList.delete addr (ul_quicPeers l)\<rparr>, False))"

text \<open>The QUIC endpoint reads the next packet of its queue into a buffer of \<open>n\<close> bytes; it waits while there is none.\<close>

definition demux_ReadFrom :: "nat \<Rightarrow> udpListener \<Rightarrow> (bytes \<times> string \<times> udpListener) option" where
  "demux_ReadFrom n l =
     (case ul_quic l of
        Some ((b, a) # q) \<Rightarrow> Some (take n b, a, l\<lparr>ul_quic := Some q\<rparr>)
      | _ \<Rightarrow> None)"

definition rememberPeer :: "udpListener \<Rightarrow> string \<Rightarrow> time \<Rightarrow> udpListener" where
  "rememberPeer l addr now =
     l\<lparr>ul_quicPeers := AList.update addr (now + sec 30) (List.filter (\<lambda>e. \<not> now > snd e) (ul_quicPeers l))\<rparr>"

definition rememberDTLS :: "udpListener \<Rightarrow> string \<Rightarrow> vpnFlow \<Rightarrow> time \<Rightarrow> udpListener" where
  "rememberDTLS l peer v now =
     l\<lparr>ul_dtls := AList.update peer v (List.filter (\<lambda>e. live now (snd e)) (ul_dtls l))\<rparr>"

definition lookupDTLS :: "udpListener \<Rightarrow> string \<Rightarrow> time \<Rightarrow> vpnFlow option" where
  "lookupDTLS l peer now =
     (case map_of (ul_dtls l) peer of None \<Rightarrow> None | Some v \<Rightarrow> if live now v then Some v else None)"

section \<open>Datagrams and flows\<close>

text \<open>A datagram and what its handler reads from outside. \<open>dg_peer\<close> is \<open>raddr.String()\<close>,
  \<open>dg_send\<close> the error of the send if any, \<open>dg_now\<close> the arrival; the other times are the later
  \<open>time.Now\<close> calls: of the key lookups, of the sealed packet or the DTLS table, of the reply and of
  the record. \<open>dg_rnd i n\<close> is the \<open>i\<close>-th draw of \<open>n\<close> random bytes. The store is shared and locked per
  operation: \<open>dg_others i\<close> are the operations that other goroutines complete between two of the handler's
  own, in the gap after its first operation (0), before an attempt is counted (1) and before the
  observation is recorded (2).\<close>

record dgram =
  dg_b :: bytes
  dg_ip :: addr
  dg_ip_str :: string
  dg_port :: int
  dg_peer :: string
  dg_now :: time
  dg_key_now :: time
  dg_seal_now :: time
  dg_reply_now :: time
  dg_rec_now :: time
  dg_send :: "string option"
  dg_obs_id :: bytes
  dg_rnd :: "nat \<Rightarrow> nat \<Rightarrow> bytes"
  dg_spir :: bytes
  dg_ssid :: bytes
  dg_id16 :: "16 word"
  dg_id32 :: "32 word"
  dg_others :: "nat \<Rightarrow> (time \<times> store_op) list"

record flow =
  fl_store :: store
  fl_lst :: udpListener
  fl_obs :: observation
  fl_unrec :: bool
  fl_sent :: "bytes list"

definition start_flow :: "dgram \<Rightarrow> store \<Rightarrow> udpListener \<Rightarrow> flow" where
  "start_flow d s l =
     \<lparr>fl_store = s, fl_lst = l,
      fl_obs = zero_observation\<lparr>obs_transport := ''udp'', obs_dst_port := ul_port l, obs_src_port := dg_port d,
        obs_first_seen := dg_now d, obs_parse := ParseUnknown, obs_response := ''silence'', obs_close := ''n/a'',
        obs_bytes_in := int (length (dg_b d)), obs_payload_sha := hex_encode (sha256 (dg_b d))\<rparr>,
      fl_unrec = False, fl_sent = []\<rparr>"

definition others :: "dgram \<Rightarrow> nat \<Rightarrow> flow \<Rightarrow> flow" where
  "others d i f = f\<lparr>fl_store := store_run (fl_store f) (dg_others d i)\<rparr>"

abbreviation upd_obs :: "(observation \<Rightarrow> observation) \<Rightarrow> flow \<Rightarrow> flow" where
  "upd_obs g f \<equiv> f\<lparr>fl_obs := g (fl_obs f)\<rparr>"

definition obs_set :: "string \<Rightarrow> string \<Rightarrow> flow \<Rightarrow> flow" where
  "obs_set k v = upd_obs (\<lambda>ob. ob\<lparr>obs_detail := (obs_detail ob)(k \<mapsto> v)\<rparr>)"

definition obs_kind :: "string \<Rightarrow> flow \<Rightarrow> flow" where
  "obs_kind k = upd_obs (\<lambda>ob. ob\<lparr>obs_parse := k\<rparr>)"

definition unmatched :: "flow \<Rightarrow> flow" where
  "unmatched = upd_obs (\<lambda>ob. ob\<lparr>obs_unmatched := True\<rparr>)"

definition refused :: "flow \<Rightarrow> flow" where
  "refused = upd_obs (\<lambda>ob. ob\<lparr>obs_response := ''refused''\<rparr>)"

definition server_error :: "string \<Rightarrow> flow \<Rightarrow> flow" where
  "server_error e = upd_obs (\<lambda>ob. ob\<lparr>obs_close := ''server_error'', obs_server_error := e\<rparr>)"

definition dontRecord :: "flow \<Rightarrow> flow" where
  "dontRecord f = f\<lparr>fl_unrec := True\<rparr>"

definition reply :: "dgram \<Rightarrow> bytes \<Rightarrow> string \<Rightarrow> flow \<Rightarrow> flow" where
  "reply d out what f =
     (case (if length out > 0 then dg_send d else None) of
        Some e \<Rightarrow> server_error e f
      | None \<Rightarrow>
          f\<lparr>fl_sent := (if length out > 0 then fl_sent f @ [out] else fl_sent f),
            fl_obs := (fl_obs f)\<lparr>obs_bytes_out := int (length out), obs_response := what,
                        obs_replied_at := Some (dg_reply_now d), obs_close := ''normal''\<rparr>\<rparr>)"

definition correlate :: "dgram \<Rightarrow> string \<Rightarrow> flow \<Rightarrow> flow \<times> bool" where
  "correlate d kind f =
     (case matchReservation (fl_store f) (dg_ip d) ''udp'' (ul_port (fl_lst f)) kind (dg_now d) of
        (s, None) \<Rightarrow> (unmatched (f\<lparr>fl_store := s\<rparr>), False)
      | (s, Some r) \<Rightarrow> (upd_obs (\<lambda>ob. applyReservation ob r) (f\<lparr>fl_store := s\<rparr>), True))"

definition vpn_flow :: "dgram \<Rightarrow> flow \<Rightarrow> vpnFlow" where
  "vpn_flow d f =
     \<lparr>vf_session = obs_session (fl_obs f), vf_attempt = obs_attempt (fl_obs f), vf_test = obs_test (fl_obs f),
      vf_variant = obs_det (fl_obs f) ''variant'', vf_peer = dg_peer d, vf_expires = dg_now d + vpnSessionTTL, vf_in = 0, vf_out = 0\<rparr>"

definition samePeer :: "dgram \<Rightarrow> vpnFlow \<Rightarrow> bool" where
  "samePeer d v \<longleftrightarrow> vf_peer v = dg_peer d"

definition peer_mismatch :: "flow \<Rightarrow> flow" where
  "peer_mismatch f = obs_set ''session'' ''peer_mismatch'' (unmatched f)"

definition session_unknown :: "flow \<Rightarrow> flow" where
  "session_unknown f = obs_set ''session'' ''unknown'' (unmatched f)"

definition attribute_keys :: "vpnFlow \<Rightarrow> flow \<Rightarrow> flow" where
  "attribute_keys v = upd_obs (\<lambda>ob. ob\<lparr>obs_session := vf_session v, obs_attempt := vf_attempt v, obs_test := vf_test v\<rparr>)"

definition attribute :: "vpnFlow \<Rightarrow> flow \<Rightarrow> flow" where
  "attribute v f = (let f = attribute_keys v f in if vf_variant v \<noteq> '''' then obs_set ''variant'' (vf_variant v) f else f)"

definition dataObs :: "vpnFlow \<Rightarrow> string \<Rightarrow> int \<Rightarrow> flow \<Rightarrow> flow" where
  "dataObs v counter plainLen f =
     obs_set ''data_out'' (itoa (int (vf_out v))) (obs_set ''data_in'' (itoa (int (vf_in v)))
       (obs_set ''plain_len'' (itoa plainLen) (obs_set ''counter'' counter (obs_set ''stage'' ''transport'' (attribute v f)))))"

section \<open>Matchers\<close>

definition isQUIC :: "bytes \<Rightarrow> bool" where
  "isQUIC b =
     (if length b < 5 then False
      else if b ! 0 AND 0x80 \<noteq> 0
      then (let v = w32 b 1 in v = 1 \<or> v = 0x6b3343cf \<or> v = 0 \<or> v AND 0x0f0f0f0f = 0x0a0a0a0a)
      else b ! 0 AND 0x40 \<noteq> 0 \<and> length b \<ge> 20)"

definition matchDNS :: "udpListener \<Rightarrow> bytes \<Rightarrow> bool" where
  "matchDNS l b \<longleftrightarrow> ul_dns l \<and> LooksLikeQuery b"

definition matchIKE :: "bytes \<Rightarrow> bool" where
  "matchIKE b \<longleftrightarrow> ike_Looks b \<or> snd (StripNATT b)"

text \<open>\<open>ESPSPI\<close> and \<open>DataTunnel\<close> read four and two bytes, present by the shape checks.\<close>

definition matchESP :: "udpListener \<Rightarrow> dgram \<Rightarrow> (nat \<times> ikeSession) option" where
  "matchESP l d = (if IsESPUDP (dg_b d) then lookupESP l (w32 (dg_b d) 0) (dg_now d) else None)"

definition matchL2TPData :: "udpListener \<Rightarrow> dgram \<Rightarrow> l2tpSession option" where
  "matchL2TPData l d = (if l2tp_IsData (dg_b d) then lookupL2TP l (w16 (dg_b d) 2) (dg_now d) else None)"

definition matchOVPNControl :: "bytes \<Rightarrow> bool" where
  "matchOVPNControl b \<longleftrightarrow> Opcode b = OpAckV1 \<or> Opcode b = OpControlV1"

text \<open>The matcher of QUIC asks \<open>knownPeer\<close>, which drops a stale entry.\<close>

definition matchQUIC :: "udpListener \<Rightarrow> dgram \<Rightarrow> udpListener \<times> bool" where
  "matchQUIC l d =
     (if ul_quic l \<noteq> None \<and> isQUIC (dg_b d)
      then (if dg_b d ! 0 AND 0x80 \<noteq> 0 then (l, True) else knownPeer l (dg_peer d) (dg_now d))
      else (l, False))"

end
