(* ===== verification/Udp_Serve.thy ===== *)
theory Udp_Serve
  imports Udp_Flow
begin

text \<open>
  The handlers of the dispatch table and the step of a listener (\<open>internal/server/udp.go\<close>,
  \<open>udp_vpn.go\<close>, \<open>udp_dtls.go\<close>). A handler takes the datagram and the flow so far and gives the
  flow after it; \<open>None\<close> is a run-time panic, which \<open>Udp_Props\<close> shows does not occur.
\<close>

unbundle bit_operations_syntax

section \<open>Names in queries\<close>

definition sessionFromQName :: "string \<Rightarrow> string" where
  "sessionFromQName name =
     (let parts = split_on (CHR ''.'') (trim_suffix name ''.'')
      in if length parts \<ge> 5 \<and> length (parts ! 1) = 32 \<and> hex_decode (parts ! 1) \<noteq> None then parts ! 1 else '''')"

definition testFromQName :: "string \<Rightarrow> string \<Rightarrow> string" where
  "testFromQName zone name =
     (let name = trim_suffix name ''.''; z = trim_suffix zone ''.'';
          zoneLabels = (if has_suffix name (''.'' @ z) then length (List.filter (\<lambda>c. c = CHR ''.'') z) + 1 else 2);
          parts = split_on (CHR ''.'') name
      in if length parts \<ge> 3 + zoneLabels then join_with ''.'' (take (length parts - zoneLabels - 2) (drop 2 parts)) else '''')"

section \<open>Envelope, DNS, STUN, QUIC, unknown\<close>

definition envelope_obs :: "request \<Rightarrow> observation \<Rightarrow> observation" where
  "envelope_obs r ob =
     ob\<lparr>obs_session := hex_encode (req_session r), obs_test := req_test r, obs_nonce := hex_encode (req_nonce r),
        obs_seq := req_seq r, obs_payload_sha := hex_encode (sha256 (req_payload r))\<rparr>"

definition serveEnvelope :: "server \<Rightarrow> dgram \<Rightarrow> flow \<Rightarrow> flow option" where
  "serveEnvelope sv d f0 =
     (let f = obs_kind ParseEnvelope f0
      in case decode_request (dg_b d) (keyFor (fl_store f) (dg_key_now d)) of
           None \<Rightarrow> None
         | Some (req, err) \<Rightarrow>
             (let f = (case req of None \<Rightarrow> f | Some r \<Rightarrow> upd_obs (envelope_obs r) f)
              in if err \<noteq> None then Some (obs_set ''mac'' ''invalid'' f)
                 else (case req of
                         None \<Rightarrow> None
                       | Some r \<Rightarrow>
                           (let f = others d 0 f in
                            case getSession (fl_store f) (req_session r) (dg_now d) of
                              None \<Rightarrow> None
                            | Some sess \<Rightarrow>
                                if \<not> VerifyCookie (sv_master sv) (req_session r) (dg_ip d) (ses_expires sess)
                                       (case req_cookie r of None \<Rightarrow> [] | Some c \<Rightarrow> c)
                                then Some (obs_set ''cookie'' ''invalid'' f)
                                else if req_test r \<notin> set (ses_tests sess) then Some (refused f)
                                else (case allowAttempt (fl_store (others d 1 f)) (ses_client sess) (dg_now d) of
                                        (s, ok) \<Rightarrow>
                                          if \<not> ok then Some (refused (f\<lparr>fl_store := s\<rparr>))
                                          else Some (reply d (encode_reply r (dg_now d) (dg_seal_now d) (ses_key sess)) ''echo''
                                                      (f\<lparr>fl_store := s\<rparr>)))))))"

definition serveDNS :: "server \<Rightarrow> dgram \<Rightarrow> flow \<Rightarrow> flow option" where
  "serveDNS sv d f0 =
     (let f = obs_kind ParseDNS f0
      in case dns_ParseQuery (sv_dns sv) (dg_b d) of
           Inl _ \<Rightarrow> Some f
         | Inr q \<Rightarrow>
             (let f = obs_set ''qtype'' (dl_type_string (sv_dns sv) (q_type q)) (obs_set ''qname'' (q_name q) f);
                  sid = sessionFromQName (q_name q);
                  f = upd_obs (\<lambda>ob. ob\<lparr>obs_session := sid\<rparr>) f;
                  f = (if sid \<noteq> '''' then upd_obs (\<lambda>ob. ob\<lparr>obs_test := testFromQName (sv_zone sv) (q_name q)\<rparr>) f
                       else fst (correlate d ParseDNS f))
              in case BuildAnswerFrom (sv_dns sv) (sv_zone sv) q (dg_ip_str d) of
                   Inl _ \<Rightarrow> Some (server_error (dl_error_string (sv_dns sv)) f)
                 | Inr ans \<Rightarrow>
                     if length ans > length (dg_b d)
                     then Some (reply d (Truncated (sv_dns sv) q) ''dns_answer'' (obs_set ''truncated'' ''amplification_guard'' f))
                     else Some (reply d ans ''dns_answer'' f)))"

definition serveSTUN :: "server \<Rightarrow> dgram \<Rightarrow> flow \<Rightarrow> flow option" where
  "serveSTUN sv d f0 =
     (case correlate d ParseSTUN (obs_kind ParseSTUN f0) of
        (f, False) \<Rightarrow> Some f
      | (f, True) \<Rightarrow> Some (reply d (BindingSuccess (TransactionID (dg_b d)) (dg_ip d) (word_of_int (dg_port d))) ''stun_binding_success'' f))"

definition serveQUIC :: "server \<Rightarrow> dgram \<Rightarrow> flow \<Rightarrow> flow option" where
  "serveQUIC sv d f0 =
     (let f = obs_kind ParseQUIC f0;
          (l, known) = knownPeer (fl_lst f) (dg_peer d) (dg_now d);
          f = f\<lparr>fl_lst := l\<rparr>;
          (f, go) = (if known then (f, True)
                     else case correlate d ParseQUIC f of
                            (f, ok) \<Rightarrow> (if ok then f\<lparr>fl_lst := rememberPeer (fl_lst f) (dg_peer d) (dg_now d)\<rparr> else f, ok))
      in if \<not> go then Some f
         else let q = (case ul_quic (fl_lst f) of None \<Rightarrow> [] | Some q \<Rightarrow> q);
                  f = (if length q < 256
                       then upd_obs (\<lambda>ob. ob\<lparr>obs_response := ''quic_forwarded'', obs_close := ''normal''\<rparr>)
                              (f\<lparr>fl_lst := (fl_lst f)\<lparr>ul_quic := Some (q @ [(dg_b d, dg_peer d)])\<rparr>\<rparr>)
                       else server_error ''quic queue full'' f)
              in Some (if known then dontRecord f else f))"

definition serveUnknown :: "server \<Rightarrow> dgram \<Rightarrow> flow \<Rightarrow> flow option" where
  "serveUnknown sv d f0 =
     (case correlate d ParseUnknown f0 of
        (f, False) \<Rightarrow> Some f
      | (f, True) \<Rightarrow> Some (reply d (take 8 (sha256 (dg_b d))) ''hash_ack'' f))"

section \<open>WireGuard\<close>

definition boolStr :: "bool \<Rightarrow> string" where
  "boolStr b = (if b then ''valid'' else ''invalid'')"

definition std_char :: "nat \<Rightarrow> char" where
  "std_char v = (if v = 62 then CHR ''+'' else if v = 63 then CHR ''/'' else b64_char v)"

definition base64Std :: "bytes \<Rightarrow> string" where
  "base64Std b = map std_char (b64_sextets (map unat b)) @ replicate ((3 - length b mod 3) mod 3) (CHR ''='')"

definition serveWGInitiation :: "server \<Rightarrow> dgram \<Rightarrow> flow \<Rightarrow> flow option" where
  "serveWGInitiation sv d f0 =
     (let f = obs_kind ParseWireGuard f0
      in if fst (peekReservation (fl_store f) (dg_ip d) ''udp'' (ul_port (fl_lst f)) ParseWireGuard (dg_now d)) = ''''
         then Some (obs_set ''auth'' ''unreserved'' (unmatched f))
         else case ConsumeInitiation (sv_lib sv) (dg_b d) (sv_wg sv) of
                (info, err) \<Rightarrow>
                  (let f = obs_set ''mac1'' (boolStr (case info of None \<Rightarrow> False | Some i \<Rightarrow> ii_mac1 i)) (others d 0 f)
                   in if err \<noteq> None then Some (fst (correlate d ParseWireGuard (obs_set ''auth'' ''failed'' f)))
                      else case info of
                             None \<Rightarrow> None
                           | Some i \<Rightarrow>
                               (case correlate d ParseWireGuard (obs_set ''peer_static'' (base64Std (ii_static i)) f) of
                                  (f, False) \<Rightarrow> Some f
                                | (f, True) \<Rightarrow>
                                    (case CreateResponse (sv_lib sv) i (replicate 32 0) (dg_rnd d 0 32) (dg_id32 d) of
                                       None \<Rightarrow> Some (server_error (sv_lib_error sv) f)
                                     | Some (resp, rs) \<Rightarrow>
                                         (let f = reply d resp ''wireguard_response'' f;
                                              l = gcVPN (dg_now d) (fl_lst f)
                                          in Some (f\<lparr>fl_lst := l\<lparr>ul_wg := AList.update (rs_local rs)
                                                     \<lparr>ws_flow = vpn_flow d f, ws_sess = rs\<rparr> (ul_wg l)\<rparr>\<rparr>))))))"

definition serveWGTransport :: "server \<Rightarrow> dgram \<Rightarrow> flow \<Rightarrow> flow option" where
  "serveWGTransport sv d f0 =
     (let f = obs_kind ParseWireGuardData f0;
          idx = TransportReceiver (dg_b d)
      in case map_of (ul_wg (fl_lst f)) idx of
           None \<Rightarrow> Some (session_unknown f)
         | Some ws \<Rightarrow>
             if \<not> live (dg_now d) (ws_flow ws) then Some (session_unknown f)
             else if \<not> samePeer d (ws_flow ws) then Some (peer_mismatch f)
             else (case OpenTransport (sv_lib sv) (tk_recv (rs_keys (ws_sess ws))) (dg_b d) of
                     (ctr, plain, err) \<Rightarrow>
                       if err \<noteq> None then Some (dataObs (ws_flow ws) (itoa (sint ctr)) 0 (obs_set ''auth'' ''failed'' f))
                       else let v = (ws_flow ws)\<lparr>vf_in := vf_in (ws_flow ws) + 1\<rparr>;
                                v' = (if vf_in v > vpnSessionMaxData then v else v\<lparr>vf_out := vf_out v + 1\<rparr>);
                                f = f\<lparr>fl_lst := (fl_lst f)\<lparr>ul_wg := AList.update idx (ws\<lparr>ws_flow := v'\<rparr>) (ul_wg (fl_lst f))\<rparr>\<rparr>;
                                f = dataObs v' (itoa (sint ctr)) (int (length plain)) f
                            in if vf_in v > vpnSessionMaxData then Some (refused f)
                               else Some (reply d (SealTransport (sv_lib sv) (tk_send (rs_keys (ws_sess ws))) (rs_peer (ws_sess ws)) ctr plain)
                                           ''wireguard_data'' f)))"

section \<open>IKE and ESP\<close>

definition set_ike :: "nat \<Rightarrow> ikeSession \<Rightarrow> flow \<Rightarrow> flow" where
  "set_ike r s f = f\<lparr>fl_lst := (fl_lst f)\<lparr>ul_ikHeap := (ul_ikHeap (fl_lst f))(r \<mapsto> s)\<rparr>\<rparr>"

definition new_ike :: "time \<Rightarrow> bytes \<Rightarrow> ikeSession \<Rightarrow> flow \<Rightarrow> flow" where
  "new_ike now spii s f =
     (let l = gcVPN now (fl_lst f); r = ul_next l
      in f\<lparr>fl_lst := l\<lparr>ul_ikHeap := (ul_ikHeap l)(r \<mapsto> s), ul_ike := AList.update spii r (ul_ike l),
                       ul_esp := AList.update (ik_esp s) r (ul_esp l), ul_next := r + 1\<rparr>\<rparr>)"

definition serveIKE :: "server \<Rightarrow> dgram \<Rightarrow> flow \<Rightarrow> flow option" where
  "serveIKE sv d f0 =
     (let (msg, natt) = StripNATT (dg_b d);
          hdr = fst (ParseHeader msg);
          f = obs_set ''exchange'' (itoa (uint (ih_exchange hdr))) (obs_kind ParseIKE f0);
          f = (if natt then obs_set ''natt'' ''true'' f else f);
          frame = (\<lambda>out. if natt then AddNATT out else out)
      in if ih_exchange hdr = ExchangeSAInit \<and> ih_flags hdr AND FlagResponse = 0
         then (case correlate d ParseIKE f of
                 (f, False) \<Rightarrow> Some f
               | (f, True) \<Rightarrow>
                   (let spir = dg_spir d;
                        resp = SAInitResponse hdr spir (kp_pub (sv_wg sv)) (dg_rnd d 0 32) (dg_rnd d 1 20) (dg_rnd d 2 20);
                        f = reply d (frame resp) ''ike_sa_init'' f
                    in Some (new_ike (dg_now d) (ih_spii hdr)
                          \<lparr>ik_flow = vpn_flow d f, ik_spir = spir, ik_natt = natt, ik_esp = ESPSPIFor spir, ik_authd = False\<rparr> f)))
         else if ih_exchange hdr = ExchangeAuth \<and> ih_flags hdr AND FlagResponse = 0
         then (case lookupIKE (fl_lst f) (ih_spii hdr) (dg_now d) of
                 None \<Rightarrow> Some (session_unknown f)
               | Some (r, is) \<Rightarrow>
                   if ih_spir hdr \<noteq> ik_spir is then Some (session_unknown f)
                   else if \<not> samePeer d (ik_flow is) then Some (peer_mismatch f)
                   else let n = int (length msg) - 28;
                            v = (ik_flow is)\<lparr>vf_in := vf_in (ik_flow is) + 1\<rparr>
                        in if vf_in v > vpnSessionMaxData
                           then Some (refused (dataObs v (itoa (uint (ih_msgid hdr))) n (set_ike r (is\<lparr>ik_flow := v\<rparr>) f)))
                           else let v = v\<lparr>vf_out := vf_out v + 1\<rparr>;
                                    f = dataObs v (itoa (uint (ih_msgid hdr))) n (set_ike r (is\<lparr>ik_flow := v, ik_authd := True\<rparr>) f);
                                    f = obs_set ''stage'' ''ike_auth'' f;
                                    inner = max 32 (nat (int (length msg) - 28 - 4 - 32))
                                in Some (reply d (frame (ike_Auth (ih_spii hdr) (ik_spir is) (ih_msgid hdr) inner True (dg_rnd d 0))) ''ike_auth'' f))
         else Some (unmatched f))"

definition serveESP :: "server \<Rightarrow> dgram \<Rightarrow> flow \<Rightarrow> flow option" where
  "serveESP sv d f0 =
     (let f = obs_kind ParseESP f0
      in case matchESP (fl_lst f0) d of
           None \<Rightarrow> None
         | Some (r, is) \<Rightarrow>
             if \<not> samePeer d (ik_flow is) then Some (peer_mismatch f)
             else if \<not> ik_authd is then Some (obs_set ''session'' ''not_authenticated'' f)
             else let v = (ik_flow is)\<lparr>vf_in := vf_in (ik_flow is) + 1\<rparr>;
                      n = int (length (dg_b d)) - 8
                  in if vf_in v > vpnSessionMaxData
                     then Some (refused (dataObs v '''' n (set_ike r (is\<lparr>ik_flow := v\<rparr>) f)))
                     else let v = v\<lparr>vf_out := vf_out v + 1\<rparr>;
                              sq = w32 (dg_b d) 4
                          in Some (reply d (ESP (ik_esp is) sq (drop 8 (dg_b d))) ''esp_echo''
                               (dataObs v (itoa (uint sq)) n (set_ike r (is\<lparr>ik_flow := v\<rparr>) f))))"

section \<open>L2TP\<close>

definition set_l2tp :: "16 word \<Rightarrow> l2tpSession \<Rightarrow> flow \<Rightarrow> flow" where
  "set_l2tp k s f = f\<lparr>fl_lst := (fl_lst f)\<lparr>ul_l2tp := AList.update k s (ul_l2tp (fl_lst f))\<rparr>\<rparr>"

text \<open>The switch over the control messages of an established tunnel.\<close>

definition l2tp_established :: "dgram \<Rightarrow> l2tp_control \<Rightarrow> l2tpSession \<Rightarrow> flow \<Rightarrow> flow option" where
  "l2tp_established d ctl ts f =
     (if lc_type ctl = MsgSCCCN \<or> lc_type ctl = MsgICCN \<or> lc_type ctl = MsgStopCCN
      then let ts = ts\<lparr>lt_ns := lt_ns ts + 1\<rparr>
           in Some (reply d (ZLB (lt_peerTunnel ts) (lt_peerSession ts) (lt_ns ts) (lc_ns ctl + 1)) ''l2tp_zlb''
                     (set_l2tp (lc_tunnel ctl) ts f))
      else if lc_type ctl = MsgICRQ
      then let ts = ts\<lparr>lt_peerSession := lc_assigned_session ctl, lt_session := dg_id16 d, lt_ns := lt_ns ts + 1\<rparr>
           in Some (reply d (ICRP (lt_peerTunnel ts) (lt_peerSession ts) (lt_session ts) (lt_ns ts) (lc_ns ctl + 1))
                     ''l2tp_icrp'' (set_l2tp (lc_tunnel ctl) ts f))
      else if lc_type ctl = MsgZLB then Some (dontRecord f)
      else Some (upd_obs (\<lambda>ob. ob\<lparr>obs_response := ''silence''\<rparr>) f))"

definition serveL2TPControl :: "server \<Rightarrow> dgram \<Rightarrow> flow \<Rightarrow> flow option" where
  "serveL2TPControl sv d f0 =
     (let f = obs_kind ParseL2TP f0
      in case ParseControl (dg_b d) of
           Inl _ \<Rightarrow> Some f
         | Inr ctl \<Rightarrow>
             (let f = obs_set ''message_type'' (itoa (uint (lc_type ctl))) f
              in if lc_type ctl = MsgSCCRQ \<and> lc_tunnel ctl = 0
                 then (case correlate d ParseL2TP f of
                         (f, False) \<Rightarrow> Some f
                       | (f, True) \<Rightarrow>
                           (let ts = \<lparr>lt_flow = vpn_flow d f, lt_peerTunnel = lc_assigned_tunnel ctl, lt_tunnel = dg_id16 d,
                                      lt_peerSession = 0, lt_session = 0, lt_ns = 0\<rparr>;
                                f = set_l2tp (lt_tunnel ts) ts (f\<lparr>fl_lst := gcVPN (dg_now d) (fl_lst f)\<rparr>)
                            in Some (reply d (SCCRP (lt_peerTunnel ts) (lt_tunnel ts) ''cpprobe'') ''l2tp_sccrp'' f)))
                 else (case lookupL2TP (fl_lst f) (lc_tunnel ctl) (dg_now d) of
                         None \<Rightarrow> Some (session_unknown f)
                       | Some ts \<Rightarrow>
                           if \<not> samePeer d (lt_flow ts) then Some (peer_mismatch f)
                           else l2tp_established d ctl ts (attribute_keys (lt_flow ts) f))))"

definition serveL2TPData :: "server \<Rightarrow> dgram \<Rightarrow> flow \<Rightarrow> flow option" where
  "serveL2TPData sv d f0 =
     (let f = obs_kind ParseL2TPData f0
      in case matchL2TPData (fl_lst f0) d of
           None \<Rightarrow> None
         | Some ts \<Rightarrow>
             if \<not> samePeer d (lt_flow ts) then Some (peer_mismatch f)
             else let v = (lt_flow ts)\<lparr>vf_in := vf_in (lt_flow ts) + 1\<rparr>;
                      n = int (length (dg_b d)) - 6;
                      k = w16 (dg_b d) 2
                  in if vf_in v > vpnSessionMaxData \<or> lt_session ts = 0
                     then Some (refused (dataObs v '''' n (set_l2tp k (ts\<lparr>lt_flow := v\<rparr>) f)))
                     else let v = v\<lparr>vf_out := vf_out v + 1\<rparr>
                          in Some (reply d (l2tp_Data (lt_peerTunnel ts) (lt_peerSession ts) (drop 6 (dg_b d))) ''l2tp_data_echo''
                               (dataObs v (itoa (int (vf_in v))) n (set_l2tp k (ts\<lparr>lt_flow := v\<rparr>) f))))"

section \<open>OpenVPN\<close>

definition tlsx_Record :: "bytes \<Rightarrow> bytes" where
  "tlsx_Record payload = [0x16, 0x03, 0x03] @ be16 (word_of_nat (length payload)) @ payload"

definition unix32 :: "time \<Rightarrow> 32 word" where
  "unix32 t = word_of_int (t div 1000000000)"

definition set_ovpn :: "nat \<Rightarrow> ovpnSession \<Rightarrow> flow \<Rightarrow> flow" where
  "set_ovpn r s f = f\<lparr>fl_lst := (fl_lst f)\<lparr>ul_ovHeap := (ul_ovHeap (fl_lst f))(r \<mapsto> s)\<rparr>\<rparr>"

definition new_ovpn :: "time \<Rightarrow> bytes \<Rightarrow> string \<Rightarrow> ovpnSession \<Rightarrow> flow \<Rightarrow> flow" where
  "new_ovpn now csid peer s f =
     (let l = gcVPN now (fl_lst f); r = ul_next l
      in f\<lparr>fl_lst := l\<lparr>ul_ovHeap := (ul_ovHeap l)(r \<mapsto> s), ul_ovpn := AList.update csid r (ul_ovpn l),
                       ul_ovpnPeer := AList.update peer r (ul_ovpnPeer l), ul_next := r + 1\<rparr>\<rparr>)"

definition serveOVPNReset :: "server \<Rightarrow> dgram \<Rightarrow> flow \<Rightarrow> flow option" where
  "serveOVPNReset sv d f0 =
     (let auth = fst (IsClientReset (dg_b d));
          f = obs_set ''control_auth'' (Auth_String auth) (obs_kind ParseOpenVPN f0);
          la = ovpnLayout sv auth
      in case ParseClientReset la (dg_b d) of
           None \<Rightarrow> None
         | Some (Inl e) \<Rightarrow>
             if e = ErrBadHMAC then Some (fst (correlate d ParseOpenVPN (obs_set ''mac'' ''invalid'' f))) else Some f
         | Some (Inr csid) \<Rightarrow>
             (case correlate d ParseOpenVPN (obs_set ''client_session'' (hex_encode csid) f) of
                (f, False) \<Rightarrow> Some f
              | (f, True) \<Rightarrow>
                  (let (la, resp) = ServerReset la (unix32 (dg_seal_now d)) csid (dg_ssid d);
                       f = others d 0 (reply d resp ''openvpn_reset'' f);
                       ov = \<lparr>ov_flow = vpn_flow d f, ov_ssid = dg_ssid d, ov_layout = la, ov_nextPID = 1, ov_ctlIn = 0, ov_ctlOut = 0,
                             ov_keys = map_option (\<lambda>key. DeriveDataKeys key (obs_attempt (fl_obs f)))
                                         (sessionKeyByHex (fl_store f) (obs_session (fl_obs f)) (dg_key_now d)),
                             ov_dataPID = 1\<rparr>
                   in Some (new_ovpn (dg_now d) csid (dg_peer d) ov f))))"

text \<open>The payload of our control packets: a handshake-shaped record that leaves the packet no longer
  than the request where that is possible.\<close>

definition control_body :: "layout \<Rightarrow> nat \<Rightarrow> bytes" where
  "control_body la n = map (\<lambda>i. word_of_nat (i * 7)) [0..<n - HdrLen la 1 - 5]"

definition serveOVPNControl :: "server \<Rightarrow> dgram \<Rightarrow> flow \<Rightarrow> flow option" where
  "serveOVPNControl sv d f0 =
     (let f = obs_kind ParseOpenVPNControl f0;
          csid = (case SessionOf (dg_b d) of None \<Rightarrow> replicate 8 0 | Some s \<Rightarrow> s)
      in case deref (ul_ovHeap (fl_lst f)) (ul_ovpn (fl_lst f)) csid of
           None \<Rightarrow> Some (session_unknown f)
         | Some (r, ov) \<Rightarrow>
             if SessionOf (dg_b d) = None \<or> \<not> live (dg_now d) (ov_flow ov) then Some (session_unknown f)
             else if \<not> samePeer d (ov_flow ov) then Some (peer_mismatch f)
             else let f = obs_set ''control_auth'' (Auth_String (la_auth (ov_layout ov))) f
                  in case Parse (ov_layout ov) (dg_b d) of
                       None \<Rightarrow> None
                     | Some (Inl e) \<Rightarrow>
                         (let f = obs_set ''stage'' ''control'' (dataObs (ov_flow ov) '''' 0 f)
                          in Some (if e = ErrBadHMAC then obs_set ''mac'' ''invalid'' f else obs_set ''parse'' ''bad_control'' f))
                     | Some (Inr p) \<Rightarrow>
                         if p_op p = OpAckV1 then Some (dontRecord f)
                         else let ov = ov\<lparr>ov_ctlIn := ov_ctlIn ov + 1\<rparr>;
                                  f = dataObs (ov_flow ov) (itoa (uint (p_pid p))) (int (length (p_payload p))) (set_ovpn r ov f);
                                  f = obs_set ''ctl_out'' (itoa (int (ov_ctlOut ov)))
                                        (obs_set ''ctl_in'' (itoa (int (ov_ctlIn ov))) (obs_set ''stage'' ''control'' f))
                              in if ov_ctlIn ov + vf_in (ov_flow ov) > vpnSessionMaxData then Some (refused f)
                                 else let f = (if ov_ctlIn ov = 1 \<and> length (p_payload p) \<ge> 6 \<and> p_payload p ! 0 = 0x16 \<and> p_payload p ! 5 = 0x01
                                               then obs_set ''control_payload'' ''tls_client_hello'' f else f);
                                          f = (if p_acks p \<noteq> [] then obs_set ''acks'' (itoa (int (length (p_acks p)))) f else f);
                                          (la, ctl) = ovpn_Control (ov_layout ov) (unix32 (dg_seal_now d)) (ov_ssid ov) (ov_nextPID ov)
                                                        (tlsx_Record (control_body (ov_layout ov) (length (dg_b d)))) [p_pid p] csid;
                                          ov = ov\<lparr>ov_layout := la, ov_nextPID := ov_nextPID ov + 1, ov_ctlOut := ov_ctlOut ov + 1\<rparr>
                                      in Some (reply d ctl ''openvpn_control''
                                           (obs_set ''ctl_out'' (itoa (int (ov_ctlOut ov))) (set_ovpn r ov f))))"

definition serveOVPNData :: "server \<Rightarrow> dgram \<Rightarrow> flow \<Rightarrow> flow option" where
  "serveOVPNData sv d f0 =
     (let f = obs_kind ParseOpenVPNData f0
      in case lookupOVPNPeer (fl_lst f) (dg_peer d) (dg_now d) of
           None \<Rightarrow> Some (session_unknown f)
         | Some (r, ov) \<Rightarrow>
             (case ov_keys ov of
                None \<Rightarrow> Some (session_unknown f)
              | Some (c2s, s2c) \<Rightarrow>
                  (case Open c2s (dg_b d) of
                     (pid, plain, err) \<Rightarrow>
                       if err \<noteq> None then Some (dataObs (ov_flow ov) (itoa (uint pid)) 0 (obs_set ''auth'' ''failed'' f))
                       else let v = (ov_flow ov)\<lparr>vf_in := vf_in (ov_flow ov) + 1\<rparr>
                            in if ov_ctlIn ov + vf_in v > vpnSessionMaxData
                               then Some (refused (dataObs v (itoa (uint pid)) (int (length plain)) (set_ovpn r (ov\<lparr>ov_flow := v\<rparr>) f)))
                               else let v = v\<lparr>vf_out := vf_out v + 1\<rparr>
                                    in Some (reply d (Seal s2c 0 (ov_dataPID ov) plain) ''openvpn_data''
                                         (dataObs v (itoa (uint pid)) (int (length plain))
                                           (set_ovpn r (ov\<lparr>ov_flow := v, ov_dataPID := ov_dataPID ov + 1\<rparr>) f))))))"

section \<open>DTLS\<close>

definition dtlsCookie :: "server \<Rightarrow> dgram \<Rightarrow> bytes" where
  "dtlsCookie sv d = take 16 (hmac_sha256 (sv_master sv) (bytes_of (''dtls-cookie|'' @ dg_peer d)))"

definition hello_fp :: "hello_info \<Rightarrow> string" where
  "hello_fp i = hex_encode (take 12 (sha256 (concat (map be16 (hi_ciphers i)) @ [0] @ concat (map be16 (hi_exts i)))))"

definition contains :: "string \<Rightarrow> string \<Rightarrow> bool" where
  "contains s sub = list_ex (\<lambda>i. has_prefix (drop i s) sub) [0..<Suc (length s)]"

definition hello_obs :: "hello_info \<Rightarrow> flow \<Rightarrow> flow" where
  "hello_obs i f =
     obs_set ''hello_fp'' (hello_fp i) (obs_set ''extensions'' (join_with '','' (map (\<lambda>e. itoa (uint e)) (hi_exts i)))
       (obs_set ''cipher_count'' (itoa (int (length (hi_ciphers i)))) (obs_set ''dtls_version'' (hex_encode (be16 (hi_version i))) f)))"

definition serveDTLS :: "server \<Rightarrow> dgram \<Rightarrow> flow \<Rightarrow> flow option" where
  "serveDTLS sv d f0 =
     (let f = obs_kind ParseDTLS f0
      in case dtls_Parse (dg_b d) of
           (msgs, err) \<Rightarrow>
             if err \<noteq> None \<or> msgs = [] \<or> dm_type (msgs ! 0) \<noteq> hsClientHello then Some (obs_set ''parse'' ''bad_handshake'' f)
             else (case ParseClientHello (dm_body (msgs ! 0)) of
                     None \<Rightarrow> None
                   | Some (info, Some e) \<Rightarrow> Some (obs_set ''parse'' ''bad_client_hello'' f)
                   | Some (info, None) \<Rightarrow>
                       (let f = hello_obs info f; cookie = dtlsCookie sv d
                        in if hi_cookie info = []
                           then (case correlate d ParseDTLS (obs_set ''stage'' ''hello'' f) of
                                   (f, False) \<Rightarrow> Some f
                                 | (f, True) \<Rightarrow>
                                     Some (reply d (HelloVerifyRequest cookie) ''dtls_hello_verify''
                                       (f\<lparr>fl_lst := rememberDTLS (fl_lst f) (dg_peer d) (vpn_flow d f) (dg_seal_now d)\<rparr>)))
                           else let f = obs_set ''stage'' ''cookie'' f
                                in case lookupDTLS (fl_lst f) (dg_peer d) (dg_now d) of
                                     None \<Rightarrow> Some (unmatched f)
                                   | Some v \<Rightarrow>
                                       (let f = attribute v f
                                        in if hi_cookie info \<noteq> cookie then Some (obs_set ''cookie'' ''invalid'' f)
                                           else Some (reply d (dtls_ServerHello (dg_rnd d 0 32) 0xc02b (contains (vf_variant v) ''groups''))
                                                       ''dtls_server_hello'' f)))))"

section \<open>The dispatch table and the step\<close>

type_synonym matcher = "dgram \<Rightarrow> udpListener \<Rightarrow> udpListener \<times> bool"
type_synonym handler = "server \<Rightarrow> dgram \<Rightarrow> flow \<Rightarrow> flow option"

definition by_shape :: "(bytes \<Rightarrow> bool) \<Rightarrow> matcher" where
  "by_shape p d l = (l, p (dg_b d))"

definition udpDispatch :: "(string \<times> matcher \<times> handler) list" where
  "udpDispatch =
     [(''envelope'', by_shape is_envelope, serveEnvelope),
      (''dns'', (\<lambda>d l. (l, matchDNS l (dg_b d))), serveDNS),
      (''stun'', by_shape IsBindingRequest, serveSTUN),
      (''dtls'', by_shape IsHandshake, serveDTLS),
      (''wireguard-initiation'', by_shape LooksLikeInitiation, serveWGInitiation),
      (''wireguard-transport'', by_shape LooksLikeTransport, serveWGTransport),
      (''ike'', by_shape matchIKE, serveIKE),
      (''esp'', (\<lambda>d l. (l, matchESP l d \<noteq> None)), serveESP),
      (''l2tp-control'', by_shape l2tp_IsControl, serveL2TPControl),
      (''l2tp-data'', (\<lambda>d l. (l, matchL2TPData l d \<noteq> None)), serveL2TPData),
      (''openvpn-reset'', by_shape (\<lambda>b. snd (IsClientReset b)), serveOVPNReset),
      (''openvpn-control'', by_shape matchOVPNControl, serveOVPNControl),
      (''openvpn-data'', by_shape ovpn_IsData, serveOVPNData),
      (''quic'', (\<lambda>d l. matchQUIC l d), serveQUIC),
      (''unknown'', by_shape (\<lambda>_. True), serveUnknown)]"

fun first_match :: "(string \<times> matcher \<times> handler) list \<Rightarrow> dgram \<Rightarrow> udpListener \<Rightarrow> udpListener \<times> string \<times> handler" where
  "first_match [] d l = (l, ''unknown'', serveUnknown)"
| "first_match ((n, m, h) # ps) d l = (case m d l of (l', True) \<Rightarrow> (l', n, h) | (l', False) \<Rightarrow> first_match ps d l')"

definition protocol :: "dgram \<Rightarrow> udpListener \<Rightarrow> udpListener \<times> string \<times> handler" where
  "protocol d l = first_match udpDispatch d l"

definition serve :: "server \<Rightarrow> dgram \<Rightarrow> store \<Rightarrow> udpListener \<Rightarrow> flow option" where
  "serve sv d s l = (case protocol d l of (l', _, h) \<Rightarrow> h sv d (start_flow d s l'))"

text \<open>One datagram: the store and the listener after it and what was sent.\<close>

definition udp_handle :: "server \<Rightarrow> dgram \<Rightarrow> store \<times> udpListener \<Rightarrow> (store \<times> udpListener \<times> bytes list) option" where
  "udp_handle sv d sl =
     (case serve sv d (fst sl) (snd sl) of
        None \<Rightarrow> None
      | Some f \<Rightarrow>
          Some (if fl_unrec f then fl_store f
                else fst (addObservationAt (fl_store (others d 2 f)) (fl_obs f) (dg_obs_id d) (dg_rec_now d)),
                fl_lst f, fl_sent f))"

end
