(* ===== verification/Udp_Props.thy ===== *)
theory Udp_Props
  imports Udp_Serve Reservations
begin

text \<open>
  What the demultiplexer guarantees. The contract of a handler is the locale \<open>udp_handler\<close>: on a
  datagram its matcher claims it does not panic, touches the store only through the store's own
  operations, keeps the invariant of the listener, and answers with at most one datagram and only
  where the sender is entitled to one. Every entry of the dispatch table is an interpretation, and
  the properties of the step follow from the contract alone.
\<close>

unbundle bit_operations_syntax

section \<open>Who is entitled to an answer\<close>

definition reserved :: "dgram \<Rightarrow> store \<Rightarrow> udpListener \<Rightarrow> bool" where
  "reserved d s l \<longleftrightarrow> list_ex (\<lambda>r. \<not> res_used r \<and> dg_now d \<le> res_expires r \<and> res_client r = Unmap (dg_ip d)
      \<and> res_transport r = ''udp'' \<and> res_dst_port r = ul_port l) (reservations s)"

definition own_session :: "dgram \<Rightarrow> vpnFlow \<Rightarrow> bool" where
  "own_session d v \<longleftrightarrow> live (dg_now d) v \<and> vf_peer v = dg_peer d"

definition has_session :: "dgram \<Rightarrow> udpListener \<Rightarrow> bool" where
  "has_session d l \<longleftrightarrow> list_ex (\<lambda>(k, s). own_session d (ws_flow s)) (ul_wg l)
     \<or> list_ex (\<lambda>(k, r). case ul_ovHeap l r of None \<Rightarrow> False | Some s \<Rightarrow> own_session d (ov_flow s)) (ul_ovpn l)
     \<or> list_ex (\<lambda>(k, r). case ul_ovHeap l r of None \<Rightarrow> False | Some s \<Rightarrow> k = dg_peer d \<and> live (dg_now d) (ov_flow s)) (ul_ovpnPeer l)
     \<or> list_ex (\<lambda>(k, r). case ul_ikHeap l r of None \<Rightarrow> False | Some s \<Rightarrow> own_session d (ik_flow s)) (ul_ike l)
     \<or> list_ex (\<lambda>(k, r). case ul_ikHeap l r of None \<Rightarrow> False | Some s \<Rightarrow> own_session d (ik_flow s)) (ul_esp l)
     \<or> list_ex (\<lambda>(k, s). own_session d (lt_flow s)) (ul_l2tp l)
     \<or> list_ex (\<lambda>(k, v). k = dg_peer d \<and> live (dg_now d) v) (ul_dtls l)"

definition good_envelope :: "server \<Rightarrow> dgram \<Rightarrow> store \<Rightarrow> bool" where
  "good_envelope sv d s \<longleftrightarrow>
     (case decode_request (dg_b d) (keyFor s (dg_key_now d)) of
        Some (Some r, None) \<Rightarrow>
          (case getSession (store_run s (dg_others d 0)) (req_session r) (dg_now d) of
             Some sess \<Rightarrow> VerifyCookie (sv_master sv) (req_session r) (dg_ip d) (ses_expires sess)
                            (case req_cookie r of None \<Rightarrow> [] | Some c \<Rightarrow> c) \<and> req_test r \<in> set (ses_tests sess)
           | None \<Rightarrow> False)
      | _ \<Rightarrow> False)"

definition entitled :: "server \<Rightarrow> dgram \<Rightarrow> store \<Rightarrow> udpListener \<Rightarrow> bool" where
  "entitled sv d s l \<longleftrightarrow> reserved d s l \<or> has_session d l \<or> good_envelope sv d s \<or> (ul_dns l \<and> LooksLikeQuery (dg_b d))"

text \<open>What a datagram may change for the QUIC endpoint: it is queued, for a sender with a live
  reservation or one remembered from less than thirty seconds ago, and a sender is remembered, from its
  arrival on and for thirty seconds, when it spends a reservation.\<close>

definition quic_queue :: "udpListener \<Rightarrow> (bytes \<times> string) list" where
  "quic_queue l = (case ul_quic l of None \<Rightarrow> [] | Some q \<Rightarrow> q)"

definition quic_known :: "dgram \<Rightarrow> udpListener \<Rightarrow> bool" where
  "quic_known d l \<longleftrightarrow> list_ex (\<lambda>(a, e). a = dg_peer d \<and> dg_now d < e) (ul_quicPeers l)"

definition quic_fed :: "dgram \<Rightarrow> store \<Rightarrow> udpListener \<Rightarrow> udpListener \<Rightarrow> bool" where
  "quic_fed d s l l' \<longleftrightarrow>
     (quic_queue l' = quic_queue l
      \<or> (quic_queue l' = quic_queue l @ [(dg_b d, dg_peer d)] \<and> length (quic_queue l') \<le> 256 \<and> (reserved d s l \<or> quic_known d l)))
     \<and> list_all (\<lambda>(a, e). (a, e) \<in> set (ul_quicPeers l) \<or> (a = dg_peer d \<and> e = dg_now d + sec 30 \<and> reserved d s l)) (ul_quicPeers l')"

definition quic_kept :: "udpListener \<Rightarrow> udpListener \<Rightarrow> bool" where
  "quic_kept l l' \<longleftrightarrow> ul_quic l' = ul_quic l \<and> ul_quicPeers l' = ul_quicPeers l"

lemma quic_kept_fed: "quic_kept l l' \<Longrightarrow> quic_fed d s l l'"
  by (auto simp: quic_kept_def quic_fed_def quic_queue_def list_all_iff)

lemma quic_kept_simps [simp]:
  "quic_kept l l" "quic_kept l (gcVPN now l') = quic_kept l l'" "quic_kept l (rememberDTLS l' p v now) = quic_kept l l'"
  "quic_kept l (l'\<lparr>ul_wg := a\<rparr>) = quic_kept l l'" "quic_kept l (l'\<lparr>ul_l2tp := b\<rparr>) = quic_kept l l'"
  "quic_kept l (l'\<lparr>ul_ovHeap := c\<rparr>) = quic_kept l l'" "quic_kept l (l'\<lparr>ul_ikHeap := e\<rparr>) = quic_kept l l'"
  by (simp_all add: quic_kept_def gcVPN_def rememberDTLS_def)

section \<open>The invariant of a listener\<close>

text \<open>No session has been answered more often than the cap allows, counting control and data packets
  of an OpenVPN session together, data keys have the length of an AES-256 key, session ids have eight
  bytes, and the tables refer to sessions that exist.\<close>

definition flow_ok :: "vpnFlow \<Rightarrow> bool" where
  "flow_ok v \<longleftrightarrow> vf_out v \<le> vf_in v \<and> vf_out v \<le> vpnSessionMaxData"

definition keys_ok :: "(data_key \<times> data_key) option \<Rightarrow> bool" where
  "keys_ok ks = (case ks of None \<Rightarrow> True | Some (a, b) \<Rightarrow> length (dk_key a) = DataKeyLen \<and> length (dk_key b) = DataKeyLen)"

definition ov_ok :: "ovpnSession \<Rightarrow> bool" where
  "ov_ok s \<longleftrightarrow> vf_out (ov_flow s) \<le> vf_in (ov_flow s) \<and> ov_ctlOut s \<le> ov_ctlIn s
     \<and> ov_ctlOut s + vf_out (ov_flow s) \<le> vpnSessionMaxData \<and> keys_ok (ov_keys s) \<and> length (ov_ssid s) = 8"

definition refs_ok :: "(nat \<Rightarrow> 'a option) \<Rightarrow> ('k \<times> nat) list \<Rightarrow> bool" where
  "refs_ok h tab \<longleftrightarrow> list_all (\<lambda>(k, r). h r \<noteq> None) tab"

definition lst_inv :: "udpListener \<Rightarrow> bool" where
  "lst_inv l \<longleftrightarrow> list_all (\<lambda>(k, s). flow_ok (ws_flow s)) (ul_wg l) \<and> list_all (\<lambda>(k, s). flow_ok (lt_flow s)) (ul_l2tp l)
     \<and> (\<forall>r s. ul_ovHeap l r = Some s \<longrightarrow> ov_ok s \<and> r < ul_next l) \<and> (\<forall>r s. ul_ikHeap l r = Some s \<longrightarrow> flow_ok (ik_flow s) \<and> r < ul_next l)
     \<and> refs_ok (ul_ovHeap l) (ul_ovpn l) \<and> refs_ok (ul_ovHeap l) (ul_ovpnPeer l)
     \<and> refs_ok (ul_ikHeap l) (ul_ike l) \<and> refs_ok (ul_ikHeap l) (ul_esp l)"

lemma lst_inv_new: "lst_inv (newListener port dns quic)"
  by (simp add: lst_inv_def newListener_def refs_ok_def)

lemma list_all_update: "list_all P xs \<Longrightarrow> P (k, v) \<Longrightarrow> list_all P (AList.update k v xs)"
  by (induction xs) auto

lemma list_all_filter: "list_all P xs \<Longrightarrow> list_all P (List.filter Q xs)"
  by (auto simp: list_all_iff)

lemma refs_ok_mono: "refs_ok h tab \<Longrightarrow> refs_ok (h(r \<mapsto> s)) tab"
  by (auto simp: refs_ok_def list_all_iff)

lemma lst_inv_gc: "lst_inv l \<Longrightarrow> lst_inv (gcVPN now l)"
  by (simp add: lst_inv_def gcVPN_def refs_ok_def list_all_filter)

section \<open>What the helpers leave alone\<close>

lemma obs_helpers [simp]:
  "fl_store (obs_set k v f) = fl_store f" "fl_lst (obs_set k v f) = fl_lst f" "fl_sent (obs_set k v f) = fl_sent f"
  "fl_store (obs_kind k f) = fl_store f" "fl_lst (obs_kind k f) = fl_lst f" "fl_sent (obs_kind k f) = fl_sent f"
  "fl_store (unmatched f) = fl_store f" "fl_lst (unmatched f) = fl_lst f" "fl_sent (unmatched f) = fl_sent f"
  "fl_store (refused f) = fl_store f" "fl_lst (refused f) = fl_lst f" "fl_sent (refused f) = fl_sent f"
  "fl_store (server_error e f) = fl_store f" "fl_lst (server_error e f) = fl_lst f" "fl_sent (server_error e f) = fl_sent f"
  "fl_store (dontRecord f) = fl_store f" "fl_lst (dontRecord f) = fl_lst f" "fl_sent (dontRecord f) = fl_sent f"
  "fl_store (attribute_keys w f) = fl_store f" "fl_lst (attribute_keys w f) = fl_lst f" "fl_sent (attribute_keys w f) = fl_sent f"
  by (simp_all add: obs_set_def obs_kind_def unmatched_def refused_def server_error_def dontRecord_def attribute_keys_def)

lemma obs_composites [simp]:
  "fl_store (peer_mismatch f) = fl_store f" "fl_lst (peer_mismatch f) = fl_lst f" "fl_sent (peer_mismatch f) = fl_sent f"
  "fl_store (session_unknown f) = fl_store f" "fl_lst (session_unknown f) = fl_lst f" "fl_sent (session_unknown f) = fl_sent f"
  "fl_store (attribute v f) = fl_store f" "fl_lst (attribute v f) = fl_lst f" "fl_sent (attribute v f) = fl_sent f"
  "fl_store (dataObs v c n f) = fl_store f" "fl_lst (dataObs v c n f) = fl_lst f" "fl_sent (dataObs v c n f) = fl_sent f"
  "fl_store (hello_obs i f) = fl_store f" "fl_lst (hello_obs i f) = fl_lst f" "fl_sent (hello_obs i f) = fl_sent f"
  by (simp_all add: peer_mismatch_def session_unknown_def attribute_def dataObs_def hello_obs_def Let_def)

lemma others_keeps [simp]:
  "fl_lst (others d i f) = fl_lst f" "fl_sent (others d i f) = fl_sent f" "fl_obs (others d i f) = fl_obs f" "fl_unrec (others d i f) = fl_unrec f"
  "fl_store (others d i f) = store_run (fl_store f) (dg_others d i)"
  by (simp_all add: others_def)

lemma reply_keeps [simp]: "fl_store (reply d out what f) = fl_store f" "fl_lst (reply d out what f) = fl_lst f"
  by (simp_all add: reply_def split: option.splits)

lemma reply_sent: "fl_sent (reply d out what f) = fl_sent f \<or> fl_sent (reply d out what f) = fl_sent f @ [out]"
  by (simp add: reply_def split: option.splits)

lemma set_helpers [simp]:
  "fl_store (set_ike r s f) = fl_store f" "fl_sent (set_ike r s f) = fl_sent f"
  "fl_store (set_l2tp k t f) = fl_store f" "fl_sent (set_l2tp k t f) = fl_sent f"
  "fl_store (set_ovpn r u f) = fl_store f" "fl_sent (set_ovpn r u f) = fl_sent f"
  "fl_store (new_ike now spii s f) = fl_store f" "fl_sent (new_ike now spii s f) = fl_sent f"
  "fl_store (new_ovpn now c p u f) = fl_store f" "fl_sent (new_ovpn now c p u f) = fl_sent f"
  by (simp_all add: set_ike_def set_l2tp_def set_ovpn_def new_ike_def new_ovpn_def Let_def)

section \<open>The store is used through its operations\<close>

text \<open>Every operation but the one that opens a session; \<open>evolves\<close> is a change by such operations alone.\<close>

fun no_put :: "store_op \<Rightarrow> bool" where
  "no_put (OpPut _ _ _ _ _ _) = False"
| "no_put _ = True"

definition evolves_by :: "(time \<times> store_op) set \<Rightarrow> store \<Rightarrow> store \<Rightarrow> bool" where
  "evolves_by X s s' \<longleftrightarrow> (\<exists>ops. s' = store_run s ops \<and> (\<forall>e\<in>set ops. no_put (snd e) \<or> e \<in> X))"

abbreviation evolves :: "store \<Rightarrow> store \<Rightarrow> bool" where "evolves \<equiv> evolves_by {}"

text \<open>The operations that may come between those of one datagram's handler.\<close>

definition others_of :: "dgram \<Rightarrow> (time \<times> store_op) set" where
  "others_of d = set (dg_others d 0) \<union> set (dg_others d 1) \<union> set (dg_others d 2)"

lemma evolves_refl [simp]: "evolves_by X s s"
  unfolding evolves_by_def by (rule exI [of _ "[]"]) simp

lemma evolves_step: "no_put (snd e) \<Longrightarrow> evolves_by X s (fst (store_step s e))"
  unfolding evolves_by_def by (rule exI [of _ "[e]"]) simp

lemma evolves_run: "set ops \<subseteq> X \<Longrightarrow> evolves_by X s (store_run s ops)"
  unfolding evolves_by_def by (rule exI [of _ ops]) auto

lemma store_run_append: "store_run s (xs @ ys) = store_run (store_run s xs) ys"
  by (induction xs arbitrary: s) auto

lemma evolves_trans [trans]: "evolves_by X s t \<Longrightarrow> evolves_by X t u \<Longrightarrow> evolves_by X s u"
proof -
  assume "evolves_by X s t" "evolves_by X t u"
  then obtain xs ys where "t = store_run s xs" "u = store_run t ys" "\<forall>e\<in>set xs. no_put (snd e) \<or> e \<in> X" "\<forall>e\<in>set ys. no_put (snd e) \<or> e \<in> X"
    by (auto simp: evolves_by_def)
  then show "evolves_by X s u" unfolding evolves_by_def by (intro exI [of _ "xs @ ys"]) (auto simp: store_run_append)
qed

lemma evolves_others: "evolves_by (others_of d) s t \<Longrightarrow> i \<le> 2 \<Longrightarrow> evolves_by (others_of d) s (store_run t (dg_others d i))"
proof -
  assume "evolves_by (others_of d) s t" "i \<le> 2"
  moreover from \<open>i \<le> 2\<close> have "i = 0 \<or> i = 1 \<or> i = 2" by linarith
  then have "set (dg_others d i) \<subseteq> others_of d" by (auto simp: others_of_def)
  ultimately show ?thesis using evolves_trans [OF _ evolves_run] by blast
qed

lemma evolves_find: "evolves_by X s (fst (findReservation s ip tr port kind now consume))"
  using evolves_step [of "(now, OpFind ip tr port kind consume)" X s] by simp

lemma evolves_attempt: "evolves_by X s (fst (allowAttempt s ip now))"
  using evolves_step [of "(now, OpAllowAttempt ip)" X s] by simp

lemma evolves_observation: "evolves_by X s (fst (addObservationAt s ob rnd now))"
  using evolves_step [of "(now, OpAddObs ob rnd)" X s] by simp

lemma correlate_cases:
  assumes "correlate d kind f = (f', ok)"
  shows "fl_lst f' = fl_lst f" "fl_sent f' = fl_sent f" "evolves_by X (fl_store f) (fl_store f')"
    "ok \<Longrightarrow> reserved d (fl_store f) (fl_lst f)"
proof -
  let ?m = "findReservation (fl_store f) (dg_ip d) ''udp'' (ul_port (fl_lst f)) kind (dg_now d) True"
  obtain s r where m: "?m = (s, r)" by fastforce
  have f': "fl_store f' = s" "ok = (r \<noteq> None)" and keep: "fl_lst f' = fl_lst f" "fl_sent f' = fl_sent f"
    using assms m by (auto simp: correlate_def matchReservation_def split: option.splits)
  show "fl_lst f' = fl_lst f" "fl_sent f' = fl_sent f" by (fact keep)+
  show "evolves_by X (fl_store f) (fl_store f')"
    using evolves_find [of X "fl_store f" "dg_ip d" "''udp''" "ul_port (fl_lst f)" kind "dg_now d" True] m f' by simp
  show "reserved d (fl_store f) (fl_lst f)" if ok
  proof (cases rule: findReservation_cases [of "fl_store f" "dg_ip d" "''udp''" "ul_port (fl_lst f)" kind "dg_now d" True])
    case none
    then show ?thesis using that f' m by simp
  next
    case (some i q)
    then have "q \<in> set (reservations (fl_store f))" by auto
    with some(3) show ?thesis by (auto simp: reserved_def list_ex_iff res_matches_def)
  qed
qed

section \<open>The contract of a handler\<close>

definition served :: "server \<Rightarrow> dgram \<Rightarrow> store \<Rightarrow> udpListener \<Rightarrow> flow \<Rightarrow> bool" where
  "served sv d s l f \<longleftrightarrow> lst_inv (fl_lst f) \<and> evolves_by (others_of d) s (fl_store f) \<and> quic_fed d s l (fl_lst f)
     \<and> (fl_sent f = [] \<or> (entitled sv d s l \<and> length (fl_sent f) = 1))"

text \<open>A datagram as it occurs: the key lookup is not before its arrival, nothing that happens between the
  key lookup and the second lookup of the envelope handler takes the session out of the table (no
  collection more than a minute ahead, no session stored that is already over), and the random
  session id fills its array.\<close>

definition dgram_ok :: "dgram \<Rightarrow> bool" where
  "dgram_ok d \<longleftrightarrow> dg_now d \<le> dg_key_now d \<and> list_all (keeps_listed (dg_key_now d)) (dg_others d 0) \<and> length (dg_ssid d) = 8"

locale udp_handler =
  fixes m :: matcher and h :: handler
  assumes matcher_ok: "\<exists>qp. fst (m d l) = l\<lparr>ul_quicPeers := qp\<rparr> \<and> set qp \<subseteq> set (ul_quicPeers l)"
    and handler_ok: "dgram_ok d \<Longrightarrow> lst_inv l \<Longrightarrow> m d l = (l', True) \<Longrightarrow> lst_inv l' \<Longrightarrow>
      \<exists>f. h sv d (start_flow d s l') = Some f \<and> served sv d s l' f"
begin

text \<open>The matcher leaves the session tables alone, so that the handler starts from the invariant.\<close>

lemma serves:
  assumes "dgram_ok d" "lst_inv l" "m d l = (l', True)"
  shows "\<exists>f. h sv d (start_flow d s l') = Some f \<and> served sv d s l' f"
proof -
  have "lst_inv l'"
    using matcher_ok [of d l] assms(2,3) by (auto simp: lst_inv_def)
  with handler_ok [OF assms] show ?thesis by blast
qed

end

lemma start_flow_simps [simp]: "fl_store (start_flow d s l) = s" "fl_lst (start_flow d s l) = l" "fl_sent (start_flow d s l) = []"
  by (simp_all add: start_flow_def)

lemma served_silent:
  "lst_inv (fl_lst f) \<Longrightarrow> evolves_by (others_of d) s (fl_store f) \<Longrightarrow> quic_kept l (fl_lst f) \<Longrightarrow> fl_sent f = [] \<Longrightarrow> served sv d s l f"
  by (simp add: served_def quic_kept_fed)

lemma served_reply:
  "lst_inv (fl_lst f) \<Longrightarrow> evolves_by (others_of d) s (fl_store f) \<Longrightarrow> quic_kept l (fl_lst f) \<Longrightarrow> fl_sent f = [] \<Longrightarrow> entitled sv d s l \<Longrightarrow>
     served sv d s l (reply d out what f)"
  using reply_sent [of d out what f] by (auto simp: served_def quic_kept_fed)

lemma quic_fed_refl [simp]: "quic_fed d s l l"
  by (simp add: quic_kept_fed)

lemma quic_fed_kept: "quic_fed d s l l1 \<Longrightarrow> quic_kept l1 l' \<Longrightarrow> quic_fed d s l l'"
  by (auto simp: quic_kept_def quic_fed_def quic_queue_def)

lemma served_others: "served sv d s l f \<Longrightarrow> i \<le> 2 \<Longrightarrow> served sv d s l (others d i f)"
  by (simp add: served_def evolves_others)

lemma entitled_reserved: "reserved d s l \<Longrightarrow> entitled sv d s l"
  by (simp add: entitled_def)

lemma entitled_session: "has_session d l \<Longrightarrow> entitled sv d s l"
  by (simp add: entitled_def)

lemma by_shape_simps [simp]: "fst (by_shape p d l) = l" "by_shape p d l = (l', True) \<longleftrightarrow> l' = l \<and> p (dg_b d)"
  by (auto simp: by_shape_def)

lemma same_listener: "\<exists>qp. l = l\<lparr>ul_quicPeers := qp\<rparr> \<and> set qp \<subseteq> set (ul_quicPeers l)"
  by (rule exI [of _ "ul_quicPeers l"]) simp

text \<open>A handler that correlates and then answers or stays silent.\<close>

lemma served_correlate:
  assumes "lst_inv l" "fl_store f = s" "fl_lst f = l" "fl_sent f = []" "correlate d kind f = (f', ok)"
  shows "lst_inv (fl_lst f')" "evolves_by (others_of d) s (fl_store f')" "fl_sent f' = []" "ok \<Longrightarrow> entitled sv d s l" "fl_lst f' = l"
    "served sv d s l f'" "quic_kept l (fl_lst f')"
  using correlate_cases [OF assms(5)] assms(1-4) by (auto simp: served_def entitled_reserved quic_kept_fed)

lemma stun_ok: "lst_inv l \<Longrightarrow> \<exists>f. serveSTUN sv d (start_flow d s l) = Some f \<and> served sv d s l f"
proof -
  assume l: "lst_inv l"
  obtain f ok where c: "correlate d ParseSTUN (obs_kind ParseSTUN (start_flow d s l)) = (f, ok)" by fastforce
  note * = served_correlate [OF l _ _ _ c]
  show ?thesis using * by (cases ok) (auto simp: serveSTUN_def c intro!: served_reply)
qed

lemma unknown_ok: "lst_inv l \<Longrightarrow> \<exists>f. serveUnknown sv d (start_flow d s l) = Some f \<and> served sv d s l f"
proof -
  assume l: "lst_inv l"
  obtain f ok where c: "correlate d ParseUnknown (start_flow d s l) = (f, ok)" by fastforce
  note * = served_correlate [OF l _ _ _ c]
  show ?thesis using * by (cases ok) (auto simp: serveUnknown_def c intro!: served_reply)
qed

lemma dns_handler_ok:
  assumes "lst_inv l" "matchDNS l (dg_b d)"
  shows "\<exists>f. serveDNS sv d (start_flow d s l) = Some f \<and> served sv d s l f"
proof (cases "dns_ParseQuery (sv_dns sv) (dg_b d)")
  case (Inl e)
  then show ?thesis using assms(1) by (simp add: serveDNS_def served_def)
next
  case (Inr q)
  define g where "g = upd_obs (\<lambda>ob. ob\<lparr>obs_session := sessionFromQName (q_name q)\<rparr>)
    (obs_set ''qtype'' (dl_type_string (sv_dns sv) (q_type q)) (obs_set ''qname'' (q_name q) (obs_kind ParseDNS (start_flow d s l))))"
  define f where "f = (if sessionFromQName (q_name q) \<noteq> '''' then upd_obs (\<lambda>ob. ob\<lparr>obs_test := testFromQName (sv_zone sv) (q_name q)\<rparr>) g
    else fst (correlate d ParseDNS g))"
  have g: "fl_store g = s" "fl_lst g = l" "fl_sent g = []" by (simp_all add: g_def)
  obtain c ok where c: "correlate d ParseDNS g = (c, ok)" by fastforce
  have f: "lst_inv (fl_lst f)" "evolves_by (others_of d) s (fl_store f)" "fl_sent f = []" "quic_kept l (fl_lst f)"
    using served_correlate [OF assms(1) g c] assms(1) by (simp_all add: f_def c g)
  have "entitled sv d s l" using assms(2) by (simp add: entitled_def matchDNS_def)
  with f have "\<And>out what k v. served sv d s l (reply d out what f) \<and> served sv d s l (reply d out what (obs_set k v f))"
    by (simp add: served_reply)
  moreover have "serveDNS sv d (start_flow d s l) =
      (case BuildAnswerFrom (sv_dns sv) (sv_zone sv) q (dg_ip_str d) of
         Inl _ \<Rightarrow> Some (server_error (dl_error_string (sv_dns sv)) f)
       | Inr ans \<Rightarrow>
           if length ans > length (dg_b d)
           then Some (reply d (Truncated (sv_dns sv) q) ''dns_answer'' (obs_set ''truncated'' ''amplification_guard'' f))
           else Some (reply d ans ''dns_answer'' f))"
    unfolding serveDNS_def f_def g_def by (simp add: Inr Let_def)
  ultimately show ?thesis
    using f by (simp add: served_silent split: sum.splits)
qed

lemma knownPeer_tables: "\<exists>qp. fst (knownPeer l a now) = l\<lparr>ul_quicPeers := qp\<rparr> \<and> set qp \<subseteq> set (ul_quicPeers l)"
  using same_listener by (auto simp: knownPeer_def AList.delete_eq split: option.splits)

lemma knownPeer_known: "snd (knownPeer l (dg_peer d) (dg_now d)) \<Longrightarrow> quic_known d l"
  by (auto simp: knownPeer_def quic_known_def list_ex_iff dest: map_of_SomeD split: option.splits if_splits)

lemma set_alist_update: "set (AList.update k v xs) \<subseteq> insert (k, v) (set xs)"
  by (induction xs) auto

lemma set_rememberPeer: "set (ul_quicPeers (rememberPeer l a now)) \<subseteq> insert (a, now + sec 30) (set (ul_quicPeers l))"
  using set_alist_update [of a "now + sec 30"] by (fastforce simp: rememberPeer_def)

lemma quic_ok:
  assumes "lst_inv l"
  shows "\<exists>f. serveQUIC sv d (start_flow d s l) = Some f \<and> served sv d s l f"
proof -
  obtain l1 known where k: "knownPeer l (dg_peer d) (dg_now d) = (l1, known)" by fastforce
  obtain qp where l1: "l1 = l\<lparr>ul_quicPeers := qp\<rparr>" "set qp \<subseteq> set (ul_quicPeers l)"
    using knownPeer_tables [of l "dg_peer d" "dg_now d"] by (auto simp: k)
  define g where "g = (obs_kind ParseQUIC (start_flow d s l))\<lparr>fl_lst := l1\<rparr>"
  obtain c ok where c: "correlate d ParseQUIC g = (c, ok)" by fastforce
  have g: "fl_store g = s" "fl_lst g = l1" "fl_sent g = []" by (simp_all add: g_def)
  note cc = correlate_cases [OF c, unfolded g]
  have r: "ok \<Longrightarrow> reserved d s l" using cc(4) by (simp add: l1 reserved_def)
  have kn: "known \<Longrightarrow> quic_known d l" using knownPeer_known [of l d] by (simp add: k)
  define l2 where "l2 = (if known then l1 else if ok then rememberPeer l1 (dg_peer d) (dg_now d) else l1)"
  have l2: "ul_quic l2 = ul_quic l" "lst_inv (l2\<lparr>ul_quic := x\<rparr>)" for x
    using assms by (simp_all add: l2_def l1 rememberPeer_def lst_inv_def)
  have peers: "set (ul_quicPeers l2) \<subseteq> set (ul_quicPeers l) \<union> (if ok \<and> \<not> known then {(dg_peer d, dg_now d + sec 30)} else {})"
    using set_rememberPeer [of l1 "dg_peer d" "dg_now d"] l1 by (auto simp: l2_def)
  have fed: "quic_fed d s l l2" "known \<or> ok \<Longrightarrow> length (quic_queue l) < 256 \<Longrightarrow> quic_fed d s l (l2\<lparr>ul_quic := Some (quic_queue l @ [(dg_b d, dg_peer d)])\<rparr>)"
    using peers r kn by (auto simp: quic_fed_def quic_queue_def l2 list_all_iff split: if_splits)
  have inv: "lst_inv l2" using l2(2) [of "ul_quic l2"] by simp
  show ?thesis
    using k c cc g inv fed l2 l2_def
    by (cases known; cases ok)
       (auto simp: serveQUIC_def Let_def g_def [symmetric] served_def dontRecord_def server_error_def quic_queue_def [symmetric])
qed

lemma envelope_ok:
  assumes "lst_inv l" "dgram_ok d"
  shows "\<exists>f. serveEnvelope sv d (start_flow d s l) = Some f \<and> served sv d s l f"
proof -
  obtain req err where dec: "decode_request (dg_b d) (keyFor s (dg_key_now d)) = Some (req, err)"
    using decode_request_total [of "dg_b d" "keyFor s (dg_key_now d)"] by auto
  define f where "f = (case req of None \<Rightarrow> obs_kind ParseEnvelope (start_flow d s l) | Some r \<Rightarrow> upd_obs (envelope_obs r) (obs_kind ParseEnvelope (start_flow d s l)))"
  have f: "fl_store f = s" "fl_lst f = l" "fl_sent f = []" by (simp_all add: f_def split: option.splits)
  show ?thesis
  proof (cases err)
    case (Some e)
    then show ?thesis
      using assms(1) f by (simp add: serveEnvelope_def dec Let_def f_def [symmetric] served_def)
  next
    case None
    obtain r key where r: "req = Some r" "keyFor s (dg_key_now d) (req_session r) = Some key"
      using decode_request_ok [OF dec [unfolded None]] by blast
    then have "listed (req_session r) (dg_key_now d) s" using getSession_listed(1) by (auto simp: keyFor_def)
    then have "listed (req_session r) (dg_key_now d) (store_run s (dg_others d 0))" using assms(2) by (simp add: listed_run dgram_ok_def)
    then obtain sess where live: "getSession (store_run s (dg_others d 0)) (req_session r) (dg_now d) = Some sess"
      using getSession_listed(2) assms(2) by (metis dgram_ok_def)
    define s0 where "s0 = store_run s (dg_others d 0)"
    define s1 where "s1 = store_run s0 (dg_others d 1)"
    obtain s' ok where a: "allowAttempt s1 (ses_client sess) (dg_now d) = (s', ok)" by fastforce
    have ev0: "evolves_by (others_of d) s s0" unfolding s0_def by (rule evolves_others) simp_all
    have "evolves_by (others_of d) s s1" unfolding s1_def using ev0 by (rule evolves_others) simp
    then have ev: "evolves_by (others_of d) s s'" using evolves_trans [OF _ evolves_attempt [of _ s1 "ses_client sess" "dg_now d"]] a by simp
    let ?cookie = "VerifyCookie (sv_master sv) (req_session r) (dg_ip d) (ses_expires sess) (case req_cookie r of None \<Rightarrow> [] | Some c \<Rightarrow> c)"
    have ent: "entitled sv d s l" if "?cookie" "req_test r \<in> set (ses_tests sess)"
      using that dec None r live by (simp add: entitled_def good_envelope_def)
    define g where "g = others d 0 f"
    have g: "fl_store g = s0" "fl_lst g = l" "fl_sent g = []" by (simp_all add: g_def f s0_def)
    have eq: "serveEnvelope sv d (start_flow d s l) =
        (if \<not> ?cookie then Some (obs_set ''cookie'' ''invalid'' g)
         else if req_test r \<notin> set (ses_tests sess) then Some (refused g)
         else if \<not> ok then Some (refused (g\<lparr>fl_store := s'\<rparr>))
         else Some (reply d (encode_reply r (dg_now d) (dg_seal_now d) (ses_key sess)) ''echo'' (g\<lparr>fl_store := s'\<rparr>)))"
      using a unfolding serveEnvelope_def g_def f_def s1_def s0_def by (simp add: dec None r(1) live Let_def)
    have s1: "served sv d s l (obs_set ''cookie'' ''invalid'' g)" "served sv d s l (refused g)" "served sv d s l (refused (g\<lparr>fl_store := s'\<rparr>))"
      using assms(1) g ev ev0 by (simp_all add: served_silent)
    have "served sv d s l (reply d out what (g\<lparr>fl_store := s'\<rparr>))" if "entitled sv d s l" for out what
      by (rule served_reply) (use assms(1) g ev that in simp_all)
    with s1 ent show ?thesis unfolding eq by auto
  qed
qed

section \<open>Handlers with session tables\<close>

lemma lst_inv_tables:
  assumes "lst_inv l"
  shows "flow_ok (ws_flow ws) \<Longrightarrow> lst_inv (l\<lparr>ul_wg := AList.update k ws (ul_wg l)\<rparr>)"
    and "flow_ok (lt_flow ts) \<Longrightarrow> lst_inv (l\<lparr>ul_l2tp := AList.update j ts (ul_l2tp l)\<rparr>)"
    and "lst_inv (rememberDTLS l p v now)"
    and "ov_ok ov \<Longrightarrow> ul_ovHeap l r \<noteq> None \<Longrightarrow> lst_inv (l\<lparr>ul_ovHeap := (ul_ovHeap l)(r \<mapsto> ov)\<rparr>)"
    and "flow_ok (ik_flow ik) \<Longrightarrow> ul_ikHeap l r \<noteq> None \<Longrightarrow> lst_inv (l\<lparr>ul_ikHeap := (ul_ikHeap l)(r \<mapsto> ik)\<rparr>)"
  using assms by (auto simp: lst_inv_def rememberDTLS_def list_all_update refs_ok_mono split: if_splits)

lemma lst_inv_new_session:
  assumes "lst_inv (fl_lst f)"
  shows "flow_ok (ik_flow ik) \<Longrightarrow> lst_inv (fl_lst (new_ike now spii ik f))"
    and "ov_ok ov \<Longrightarrow> lst_inv (fl_lst (new_ovpn now csid peer ov f))"
proof -
  have g: "lst_inv (gcVPN now (fl_lst f))" by (rule lst_inv_gc [OF assms])
  have u: "refs_ok (h(r \<mapsto> x)) (AList.update k r tab)" if "refs_ok h tab" for h :: "nat \<Rightarrow> 'x option" and r x and k :: 'k and tab
    using refs_ok_mono [OF that, of r x] unfolding refs_ok_def by (rule list_all_update) simp
  show "lst_inv (fl_lst (new_ike now spii ik f))" if "flow_ok (ik_flow ik)"
    using g that by (auto simp: new_ike_def Let_def lst_inv_def intro: less_SucI u)
  show "lst_inv (fl_lst (new_ovpn now csid peer ov f))" if "ov_ok ov"
    using g that by (auto simp: new_ovpn_def Let_def lst_inv_def intro: less_SucI u)
qed

lemma map_of_list_all: "map_of tab k = Some v \<Longrightarrow> list_all P tab \<Longrightarrow> P (k, v)"
  by (auto simp: list_all_iff dest: map_of_SomeD)

lemma map_of_list_ex: "map_of tab k = Some v \<Longrightarrow> P (k, v) \<Longrightarrow> list_ex P tab"
  by (auto simp: list_ex_iff dest: map_of_SomeD)

lemma vpn_flow_ok: "flow_ok (vpn_flow d f)"
  by (simp add: flow_ok_def vpn_flow_def)

lemma find_liveD:
  assumes "find_live fl now (deref h tab k) = Some (r, s)"
  shows "map_of tab k = Some r" "h r = Some s" "live now (fl s)"
  using assms by (auto simp: find_live_def deref_def split: option.splits if_splits)

lemma peek_reserved_then:
  assumes "fst (peekReservation s (dg_ip d) ''udp'' (ul_port l) kind (dg_now d)) \<noteq> []"
  shows "reserved d s l"
proof (cases rule: findReservation_cases [of s "dg_ip d" "''udp''" "ul_port l" kind "dg_now d" False])
  case none
  then show ?thesis using assms by (simp add: peekReservation_def)
next
  case (some i q)
  then have "q \<in> set (reservations s)" by auto
  with some(3) show ?thesis by (auto simp: reserved_def list_ex_iff res_matches_def)
qed

text \<open>The same after operations of others, for a sender entitled before them.\<close>

lemma correlated_later:
  assumes "lst_inv l" "evolves_by (others_of d) s (fl_store g)" "fl_lst g = l" "fl_sent g = []" "entitled sv d s l"
  shows "served sv d s l (fst (correlate d kind g))" "fl_lst (fst (correlate d kind g)) = l"
    and "served sv d s l (reply d out what (fst (correlate d kind g)))"
proof -
  obtain f ok where c: "correlate d kind g = (f, ok)" by fastforce
  note * = correlate_cases [OF c]
  have f: "fl_lst f = l" "fl_sent f = []" "evolves_by (others_of d) s (fl_store f)"
    using *(1,2) assms(3,4) evolves_trans [OF assms(2) *(3)] by simp_all
  show "served sv d s l (fst (correlate d kind g))" "fl_lst (fst (correlate d kind g)) = l"
    "served sv d s l (reply d out what (fst (correlate d kind g)))"
    using f assms(1,5) by (simp_all add: c served_silent served_reply)
qed

lemma correlated:
  assumes "lst_inv l" "fl_store g = s" "fl_lst g = l" "fl_sent g = []"
  shows "served sv d s l (fst (correlate d kind g))" "fl_lst (fst (correlate d kind g)) = l"
    and "snd (correlate d kind g) \<Longrightarrow> served sv d s l (reply d out what (fst (correlate d kind g)))"
proof -
  obtain f ok where c: "correlate d kind g = (f, ok)" by fastforce
  note * = served_correlate [OF assms c]
  show "served sv d s l (fst (correlate d kind g))" "fl_lst (fst (correlate d kind g)) = l"
    using * by (simp_all add: c)
  show "served sv d s l (reply d out what (fst (correlate d kind g)))" if "snd (correlate d kind g)"
    using * that by (auto simp: c intro: served_reply)
qed

lemma served_lst: "served sv d s l f \<Longrightarrow> lst_inv l' \<Longrightarrow> quic_kept (fl_lst f) l' \<Longrightarrow> served sv d s l (f\<lparr>fl_lst := l'\<rparr>)"
  by (auto simp: served_def intro: quic_fed_kept)

lemma served_reply_lst:
  "served sv d s l (reply d out what f) \<Longrightarrow> lst_inv l' \<Longrightarrow> quic_kept (fl_lst f) l' \<Longrightarrow> served sv d s l (reply d out what (f\<lparr>fl_lst := l'\<rparr>))"
  using quic_fed_kept [of d s l "fl_lst f" l'] by (auto simp: served_def reply_def server_error_def split: option.splits)

lemma wg_initiation_ok:
  assumes "lst_inv l"
  shows "\<exists>f. serveWGInitiation sv d (start_flow d s l) = Some f \<and> served sv d s l f"
proof -
  obtain info err where i: "ConsumeInitiation (sv_lib sv) (dg_b d) (sv_wg sv) = (info, err)" by fastforce
  have no_info: "info \<noteq> None" if "err = None"
    using i that by (auto simp: ConsumeInitiation_def Let_def split: if_splits option.splits prod.splits)
  note c = correlated_later [OF assms]
  have ev: "evolves_by (others_of d) s (store_run s (dg_others d 0))" by (rule evolves_others) simp_all
  have ent: "fst (peekReservation s (dg_ip d) ''udp'' (ul_port l) ParseWireGuard (dg_now d)) \<noteq> [] \<Longrightarrow> entitled sv d s l"
    using peek_reserved_then [of s d l] by (simp add: entitled_reserved)
  have e: "served sv d s l (server_error x g)" if "served sv d s l g" for x g
    using that by (simp add: served_def)
  show ?thesis
    unfolding serveWGInitiation_def i Let_def
    by (cases err; cases info) (use no_info assms ev ent in \<open>auto simp: served_silent case_prod_beta c(2) vpn_flow_ok
      intro!: served_lst lst_inv_tables(1) lst_inv_gc e c(1,3) split: option.splits bool.splits\<close>)
qed

text \<open>A session that answers one more packet stays within the cap, and so does one that refuses it.\<close>

lemma flow_ok_step:
  "flow_ok v \<Longrightarrow> vf_in v + 1 \<le> vpnSessionMaxData \<Longrightarrow> flow_ok (v\<lparr>vf_in := vf_in v + 1, vf_out := vf_out v + 1\<rparr>)"
  "flow_ok v \<Longrightarrow> flow_ok (v\<lparr>vf_in := vf_in v + 1\<rparr>)"
  by (simp_all add: flow_ok_def)

lemma wg_transport_ok:
  assumes "lst_inv l"
  shows "\<exists>f. serveWGTransport sv d (start_flow d s l) = Some f \<and> served sv d s l f"
proof (cases "map_of (ul_wg l) (TransportReceiver (dg_b d))")
  case None
  then show ?thesis using assms by (simp add: serveWGTransport_def Let_def served_def)
next
  case (Some ws)
  obtain ctr plain err where o: "OpenTransport (sv_lib sv) (tk_recv (rs_keys (ws_sess ws))) (dg_b d) = (ctr, plain, err)"
    by (metis prod_cases3)
  have ok: "flow_ok (ws_flow ws)"
    using map_of_list_all [OF Some, of "\<lambda>(k, s). flow_ok (ws_flow s)"] assms by (simp add: lst_inv_def)
  have ent: "entitled sv d s l" if "live (dg_now d) (ws_flow ws)" "samePeer d (ws_flow ws)"
    using map_of_list_ex [OF Some, of "\<lambda>(k, s). own_session d (ws_flow s)"] that
    by (simp add: entitled_def has_session_def own_session_def samePeer_def)
  show ?thesis
    using assms ok ent flow_ok_step [OF ok]
    by (auto simp: serveWGTransport_def Some o Let_def served_silent lst_inv_tables(1) intro!: served_reply)
qed

lemma dtls_ok:
  assumes "lst_inv l"
  shows "\<exists>f. serveDTLS sv d (start_flow d s l) = Some f \<and> served sv d s l f"
proof -
  obtain msgs err where p: "dtls_Parse (dg_b d) = (msgs, err)" by fastforce
  obtain info perr where h: "ParseClientHello (dm_body (msgs ! 0)) = Some (info, perr)"
    using ParseClientHello_total [of "dm_body (msgs ! 0)"] by auto
  note c = correlated [OF assms]
  have ent: "entitled sv d s l" if "lookupDTLS l (dg_peer d) (dg_now d) = Some v" for v
    using that map_of_list_ex [of "ul_dtls l" "dg_peer d" v "\<lambda>(k, v). k = dg_peer d \<and> live (dg_now d) v"]
    by (auto simp: entitled_def has_session_def lookupDTLS_def split: option.splits if_splits)
  show ?thesis
    unfolding serveDTLS_def p h Let_def
    by (cases perr) (use assms ent in \<open>auto simp: served_silent case_prod_beta c(2) h 
      intro!: served_reply served_reply_lst lst_inv_tables(3) c(1,3) split: option.splits bool.splits\<close>)
qed

lemma esp_ok:
  assumes "lst_inv l" "matchESP l d \<noteq> None"
  shows "\<exists>f. serveESP sv d (start_flow d s l) = Some f \<and> served sv d s l f"
proof -
  obtain r ik where m: "matchESP l d = Some (r, ik)" using assms(2) by auto
  then have "lookupESP l (w32 (dg_b d) 0) (dg_now d) = Some (r, ik)" by (simp add: matchESP_def split: if_splits)
  note f = find_liveD [OF this [unfolded lookupESP_def]]
  have ok: "flow_ok (ik_flow ik)" using assms(1) f(2) by (auto simp: lst_inv_def)
  have ent: "entitled sv d s l" if "samePeer d (ik_flow ik)"
    using map_of_list_ex [OF f(1), of "\<lambda>(k, r). case ul_ikHeap l r of None \<Rightarrow> False | Some s \<Rightarrow> own_session d (ik_flow s)"] that f(2,3)
    by (simp add: entitled_def has_session_def own_session_def samePeer_def)
  show ?thesis
    using assms ok ent flow_ok_step [OF ok] f(2)
    by (auto simp: serveESP_def m Let_def set_ike_def served_silent lst_inv_tables(5) intro!: served_reply)
qed

lemma l2tp_data_ok:
  assumes "lst_inv l" "matchL2TPData l d \<noteq> None"
  shows "\<exists>f. serveL2TPData sv d (start_flow d s l) = Some f \<and> served sv d s l f"
proof -
  obtain ts where m: "matchL2TPData l d = Some ts" using assms(2) by auto
  then have f: "map_of (ul_l2tp l) (w16 (dg_b d) 2) = Some ts" "live (dg_now d) (lt_flow ts)"
    by (auto simp: matchL2TPData_def lookupL2TP_def split: if_splits option.splits)
  have ok: "flow_ok (lt_flow ts)"
    using map_of_list_all [OF f(1), of "\<lambda>(k, s). flow_ok (lt_flow s)"] assms(1) by (simp add: lst_inv_def)
  have ent: "entitled sv d s l" if "samePeer d (lt_flow ts)"
    using map_of_list_ex [OF f(1), of "\<lambda>(k, s). own_session d (lt_flow s)"] that f(2)
    by (simp add: entitled_def has_session_def own_session_def samePeer_def)
  show ?thesis
    using assms ok ent flow_ok_step [OF ok]
    by (auto simp: serveL2TPData_def m Let_def set_l2tp_def served_silent lst_inv_tables(2) intro!: served_reply)
qed

lemma quic_kept_new [simp]: "quic_kept (fl_lst f) (fl_lst (new_ike now spii ik f))" "quic_kept (fl_lst f) (fl_lst (new_ovpn now csid peer ov f))"
  by (simp_all add: quic_kept_def new_ike_def new_ovpn_def Let_def gcVPN_def)

lemma served_new_session:
  "served sv d s l f \<Longrightarrow> flow_ok (ik_flow ik) \<Longrightarrow> served sv d s l (new_ike now spii ik f)"
  "served sv d s l f \<Longrightarrow> ov_ok ov \<Longrightarrow> served sv d s l (new_ovpn now csid peer ov f)"
  using lst_inv_new_session [of f] quic_fed_kept [OF _ quic_kept_new(1)] quic_fed_kept [OF _ quic_kept_new(2)] by (auto simp: served_def)

lemma l2tp_control_ok:
  assumes "lst_inv l"
  shows "\<exists>f. serveL2TPControl sv d (start_flow d s l) = Some f \<and> served sv d s l f"
proof (cases "ParseControl (dg_b d)")
  case (Inl e)
  then show ?thesis using assms by (simp add: serveL2TPControl_def served_def)
next
  case (Inr ctl)
  define g where "g = obs_set ''message_type'' (itoa (uint (lc_type ctl))) (obs_kind ParseL2TP (start_flow d s l))"
  have g: "fl_store g = s" "fl_lst g = l" "fl_sent g = []" by (simp_all add: g_def)
  note c = correlated [OF assms g]
  have found: "flow_ok (lt_flow ts)" "samePeer d (lt_flow ts) \<Longrightarrow> entitled sv d s l"
    if "lookupL2TP l k (dg_now d) = Some ts" for k ts
  proof -
    from that have m: "map_of (ul_l2tp l) k = Some ts" "live (dg_now d) (lt_flow ts)"
      by (auto simp: lookupL2TP_def split: if_splits option.splits)
    show "flow_ok (lt_flow ts)"
      using map_of_list_all [OF m(1), of "\<lambda>(k, s). flow_ok (lt_flow s)"] assms by (simp add: lst_inv_def)
    show "entitled sv d s l" if "samePeer d (lt_flow ts)"
      using map_of_list_ex [OF m(1), of "\<lambda>(k, s). own_session d (lt_flow s)"] that m(2)
      by (simp add: entitled_def has_session_def own_session_def samePeer_def)
  qed
  show ?thesis
  proof (cases "lc_type ctl = MsgSCCRQ \<and> lc_tunnel ctl = 0")
    case True
    then show ?thesis
      unfolding serveL2TPControl_def Inr sum.case Let_def g_def [symmetric] set_l2tp_def
      using assms by (auto simp: case_prod_beta c(2) lst_inv_tables(2) lst_inv_gc vpn_flow_ok
          intro!: served_reply_lst c(1,3) split: bool.splits)
  next
    case False
    have eq: "serveL2TPControl sv d (start_flow d s l) =
        (case lookupL2TP l (lc_tunnel ctl) (dg_now d) of
           None \<Rightarrow> Some (session_unknown g)
         | Some ts \<Rightarrow>
             if \<not> samePeer d (lt_flow ts) then Some (peer_mismatch g)
             else l2tp_established d ctl ts (attribute_keys (lt_flow ts) g))"
      unfolding serveL2TPControl_def Inr sum.case Let_def g_def [symmetric] g(2) if_not_P [OF False] by (rule refl)
    show ?thesis
    proof (cases "lookupL2TP l (lc_tunnel ctl) (dg_now d)")
      case None
      then show ?thesis using assms g by (simp add: eq served_silent)
    next
      case (Some ts)
      note f = found [OF Some]
      show ?thesis
        using assms g f
        by (auto simp: eq Some l2tp_established_def Let_def set_l2tp_def served_silent lst_inv_tables(2) intro!: served_reply)
    qed
  qed
qed

lemma ike_ok:
  assumes "lst_inv l"
  shows "\<exists>f. serveIKE sv d (start_flow d s l) = Some f \<and> served sv d s l f"
proof -
  obtain msg natt where b: "StripNATT (dg_b d) = (msg, natt)" by fastforce
  define hdr where "hdr = fst (ParseHeader msg)"
  define g where "g = (let f = obs_set ''exchange'' (itoa (uint (ih_exchange hdr))) (obs_kind ParseIKE (start_flow d s l))
    in if natt then obs_set ''natt'' ''true'' f else f)"
  have g: "fl_store g = s" "fl_lst g = l" "fl_sent g = []" by (simp_all add: g_def Let_def)
  note c = correlated [OF assms g]
  note unf = serveIKE_def b prod.case Let_def hdr_def [symmetric] g_def [unfolded Let_def, symmetric]
  consider (init) "ih_exchange hdr = ExchangeSAInit \<and> ih_flags hdr AND FlagResponse = 0"
    | (auth) "\<not> (ih_exchange hdr = ExchangeSAInit \<and> ih_flags hdr AND FlagResponse = 0)"
        "ih_exchange hdr = ExchangeAuth \<and> ih_flags hdr AND FlagResponse = 0"
    | (other) "\<not> (ih_exchange hdr = ExchangeSAInit \<and> ih_flags hdr AND FlagResponse = 0)"
        "\<not> (ih_exchange hdr = ExchangeAuth \<and> ih_flags hdr AND FlagResponse = 0)"
    by blast
  then show ?thesis
  proof cases
    case init
    then show ?thesis
      unfolding unf if_P [OF init]
      by (auto simp: case_prod_beta vpn_flow_ok intro!: served_new_session(1) c(1,3) split: bool.splits)
  next
    case other
    then show ?thesis
      unfolding unf if_not_P [OF other(1)] if_not_P [OF other(2)] using assms g by (simp add: served_silent)
  next
    case auth
    show ?thesis
    proof (cases "lookupIKE l (ih_spii hdr) (dg_now d)")
      case None
      then show ?thesis
        unfolding unf if_not_P [OF auth(1)] if_P [OF auth(2)] g(2) using assms g by (simp add: served_silent)
    next
      case (Some x)
      obtain r ik where x: "x = (r, ik)" by fastforce
      note f = find_liveD [OF Some [unfolded lookupIKE_def x]]
      have ok: "flow_ok (ik_flow ik)" using assms f(2) by (auto simp: lst_inv_def)
      have ent: "entitled sv d s l" if "samePeer d (ik_flow ik)"
        using map_of_list_ex [OF f(1), of "\<lambda>(k, r). case ul_ikHeap l r of None \<Rightarrow> False | Some s \<Rightarrow> own_session d (ik_flow s)"] that f(2,3)
        by (simp add: entitled_def has_session_def own_session_def samePeer_def)
      show ?thesis
        unfolding unf if_not_P [OF auth(1)] if_P [OF auth(2)] g(2) Some x option.case
        using assms ok ent flow_ok_step [OF ok] f(2) g
        by (auto simp: Let_def set_ike_def served_silent lst_inv_tables(5) intro!: served_reply)
    qed
  qed
qed

lemma ovpn_reset_ok:
  assumes "lst_inv l" "dgram_ok d"
  shows "\<exists>f. serveOVPNReset sv d (start_flow d s l) = Some f \<and> served sv d s l f"
proof -
  define la where "la = ovpnLayout sv (fst (IsClientReset (dg_b d)))"
  have "ParseClientReset la (dg_b d) \<noteq> None"
    using parse_total [of la "dg_b d"] by (auto simp: ParseClientReset_def)
  then obtain r where p: "ParseClientReset la (dg_b d) = Some r" by auto
  note c = correlated [OF assms(1)]
  have e: "ov_ok ov" if "ov_flow ov = vpn_flow d f" "ov_ctlIn ov = 0" "ov_ctlOut ov = 0" "keys_ok (ov_keys ov)" "length (ov_ssid ov) = 8" for ov f
    using that by (simp add: ov_ok_def vpn_flow_def)
  have keys: "keys_ok (map_option (\<lambda>key. DeriveDataKeys key a) x)" for a x
    by (auto simp: keys_ok_def case_prod_beta data_key_length split: option.splits)
  show ?thesis
    unfolding serveOVPNReset_def Let_def la_def [symmetric] p option.case
    using assms by (cases r) (auto simp: case_prod_beta served_silent keys dgram_ok_def intro!: served_new_session(2) served_others c(1,3) e split: bool.splits)
qed

lemma ov_ok_step:
  assumes "ov_ok ov"
  shows "ov_ok (ov\<lparr>ov_ctlIn := ov_ctlIn ov + 1\<rparr>)"
    and "ov_ok (ov\<lparr>ov_flow := (ov_flow ov)\<lparr>vf_in := vf_in (ov_flow ov) + 1\<rparr>\<rparr>)"
    and "ov_ctlIn ov + 1 + vf_in (ov_flow ov) \<le> vpnSessionMaxData \<Longrightarrow>
      ov_ok (ov\<lparr>ov_ctlIn := ov_ctlIn ov + 1, ov_layout := la, ov_nextPID := n, ov_ctlOut := ov_ctlOut ov + 1\<rparr>)"
    and "ov_ctlIn ov + (vf_in (ov_flow ov) + 1) \<le> vpnSessionMaxData \<Longrightarrow>
      ov_ok (ov\<lparr>ov_flow := (ov_flow ov)\<lparr>vf_in := vf_in (ov_flow ov) + 1, vf_out := vf_out (ov_flow ov) + 1\<rparr>, ov_dataPID := n\<rparr>)"
  using assms by (simp_all add: ov_ok_def)

lemma ovpn_data_ok:
  assumes "lst_inv l"
  shows "\<exists>f. serveOVPNData sv d (start_flow d s l) = Some f \<and> served sv d s l f"
proof (cases "lookupOVPNPeer l (dg_peer d) (dg_now d)")
  case None
  then show ?thesis using assms by (simp add: serveOVPNData_def served_silent)
next
  case (Some x)
  obtain r ov where x: "x = (r, ov)" by fastforce
  note f = find_liveD [OF Some [unfolded lookupOVPNPeer_def x]]
  have ok: "ov_ok ov" using assms f(2) by (auto simp: lst_inv_def)
  have ent: "entitled sv d s l"
    using map_of_list_ex [OF f(1), of "\<lambda>(k, r). case ul_ovHeap l r of None \<Rightarrow> False | Some s \<Rightarrow> k = dg_peer d \<and> live (dg_now d) (ov_flow s)"] f(2,3)
    by (simp add: entitled_def has_session_def)
  show ?thesis
  proof (cases "ov_keys ov")
    case None
    then show ?thesis using assms by (simp add: serveOVPNData_def Some x served_silent)
  next
    case keys: (Some ks)
    obtain c2s s2c where ks: "ks = (c2s, s2c)" by fastforce
    obtain pid plain err where o: "Open c2s (dg_b d) = (pid, plain, err)" by (metis prod_cases3)
    show ?thesis
      using assms ent f(2) ov_ok_step [OF ok]
      by (auto simp: serveOVPNData_def Some x keys ks o Let_def set_ovpn_def served_silent lst_inv_tables(4) intro!: served_reply)
  qed
qed

lemma ovpn_control_ok:
  assumes "lst_inv l"
  shows "\<exists>f. serveOVPNControl sv d (start_flow d s l) = Some f \<and> served sv d s l f"
proof -
  define csid where "csid = (case SessionOf (dg_b d) of None \<Rightarrow> replicate 8 0 | Some s \<Rightarrow> s)"
  show ?thesis
  proof (cases "deref (ul_ovHeap l) (ul_ovpn l) csid")
    case None
    then show ?thesis using assms by (simp add: serveOVPNControl_def Let_def csid_def [symmetric] served_silent)
  next
    case (Some x)
    obtain r ov where x: "x = (r, ov)" by fastforce
    have f: "map_of (ul_ovpn l) csid = Some r" "ul_ovHeap l r = Some ov"
      using Some x by (auto simp: deref_def split: option.splits)
    have ok: "ov_ok ov" using assms f(2) by (auto simp: lst_inv_def)
    have ent: "entitled sv d s l" if "live (dg_now d) (ov_flow ov)" "samePeer d (ov_flow ov)"
      using map_of_list_ex [OF f(1), of "\<lambda>(k, r). case ul_ovHeap l r of None \<Rightarrow> False | Some s \<Rightarrow> own_session d (ov_flow s)"] f(2) that
      by (simp add: entitled_def has_session_def own_session_def samePeer_def)
    obtain p where p: "Parse (ov_layout ov) (dg_b d) = Some p" using parse_total by blast
    show ?thesis
      using assms ent f(2) ov_ok_step [OF ok]
      unfolding serveOVPNControl_def Let_def csid_def [symmetric]
      by (cases p) (auto simp: Some x p case_prod_beta set_ovpn_def served_silent lst_inv_tables(4) intro!: served_reply)
  qed
qed

section \<open>Every entry of the dispatch table keeps the contract\<close>

lemma matchQUIC_tables: "\<exists>qp. fst (matchQUIC l d) = l\<lparr>ul_quicPeers := qp\<rparr> \<and> set qp \<subseteq> set (ul_quicPeers l)"
  using same_listener [of l] knownPeer_tables [of l "dg_peer d" "dg_now d"] by (auto simp: matchQUIC_def)

interpretation h_envelope: udp_handler "by_shape is_envelope" serveEnvelope
  by unfold_locales (use same_listener in \<open>auto intro: envelope_ok\<close>)

interpretation h_dns: udp_handler "\<lambda>d l. (l, matchDNS l (dg_b d))" serveDNS
  by unfold_locales (use same_listener in \<open>auto intro: dns_handler_ok\<close>)

interpretation h_stun: udp_handler "by_shape IsBindingRequest" serveSTUN
  by unfold_locales (use same_listener in \<open>auto intro: stun_ok\<close>)

interpretation h_dtls: udp_handler "by_shape IsHandshake" serveDTLS
  by unfold_locales (use same_listener in \<open>auto intro: dtls_ok\<close>)

interpretation h_wg_initiation: udp_handler "by_shape LooksLikeInitiation" serveWGInitiation
  by unfold_locales (use same_listener in \<open>auto intro: wg_initiation_ok\<close>)

interpretation h_wg_transport: udp_handler "by_shape LooksLikeTransport" serveWGTransport
  by unfold_locales (use same_listener in \<open>auto intro: wg_transport_ok\<close>)

interpretation h_ike: udp_handler "by_shape matchIKE" serveIKE
  by unfold_locales (use same_listener in \<open>auto intro: ike_ok\<close>)

interpretation h_esp: udp_handler "\<lambda>d l. (l, matchESP l d \<noteq> None)" serveESP
  by unfold_locales (use same_listener in \<open>auto intro: esp_ok\<close>)

interpretation h_l2tp_control: udp_handler "by_shape l2tp_IsControl" serveL2TPControl
  by unfold_locales (use same_listener in \<open>auto intro: l2tp_control_ok\<close>)

interpretation h_l2tp_data: udp_handler "\<lambda>d l. (l, matchL2TPData l d \<noteq> None)" serveL2TPData
  by unfold_locales (use same_listener in \<open>auto intro: l2tp_data_ok\<close>)

interpretation h_ovpn_reset: udp_handler "by_shape (\<lambda>b. snd (IsClientReset b))" serveOVPNReset
  by unfold_locales (use same_listener in \<open>auto intro: ovpn_reset_ok\<close>)

interpretation h_ovpn_control: udp_handler "by_shape matchOVPNControl" serveOVPNControl
  by unfold_locales (use same_listener in \<open>auto intro: ovpn_control_ok\<close>)

interpretation h_ovpn_data: udp_handler "by_shape ovpn_IsData" serveOVPNData
  by unfold_locales (use same_listener in \<open>auto intro: ovpn_data_ok\<close>)

interpretation h_quic: udp_handler "\<lambda>d l. matchQUIC l d" serveQUIC
  by unfold_locales (use same_listener matchQUIC_tables in \<open>auto intro: quic_ok\<close>)

interpretation h_any: udp_handler "by_shape (\<lambda>_. True)" serveUnknown
  by unfold_locales (use same_listener in \<open>auto intro: unknown_ok\<close>)

lemmas handler_contracts =
  h_envelope.udp_handler_axioms h_dns.udp_handler_axioms h_stun.udp_handler_axioms h_dtls.udp_handler_axioms
  h_wg_initiation.udp_handler_axioms h_wg_transport.udp_handler_axioms h_ike.udp_handler_axioms h_esp.udp_handler_axioms
  h_l2tp_control.udp_handler_axioms h_l2tp_data.udp_handler_axioms h_ovpn_reset.udp_handler_axioms h_ovpn_control.udp_handler_axioms
  h_ovpn_data.udp_handler_axioms h_quic.udp_handler_axioms h_any.udp_handler_axioms

lemma dispatch_contracts: "list_all (\<lambda>(n, m, h). udp_handler m h) udpDispatch"
  unfolding udpDispatch_def list.pred_inject(2) prod.case by (intro conjI list.pred_inject(1) handler_contracts)

lemma first_match_serves:
  assumes "list_all (\<lambda>(n, m, h). udp_handler m h) ps" "dgram_ok d" "lst_inv l" "first_match ps d l = (l', n, h)"
  shows "\<exists>f qp. h sv d (start_flow d s l') = Some f \<and> served sv d s l' f \<and> l' = l\<lparr>ul_quicPeers := qp\<rparr> \<and> set qp \<subseteq> set (ul_quicPeers l)"
  using assms
proof (induction ps arbitrary: l)
  case Nil
  then have "h = serveUnknown" "l' = l" by simp_all
  with unknown_ok [OF Nil(3), of sv d s] same_listener [of l] show ?case by auto
next
  case (Cons e ps)
  obtain n0 m0 h0 where e: "e = (n0, m0, h0)" by (metis prod_cases3)
  have c: "udp_handler m0 h0" using Cons(2) e by simp
  obtain l1 b where m: "m0 d l = (l1, b)" by fastforce
  obtain qp where q: "l1 = l\<lparr>ul_quicPeers := qp\<rparr>" "set qp \<subseteq> set (ul_quicPeers l)" using udp_handler.matcher_ok [OF c, of d l] m by auto
  show ?case
  proof (cases b)
    case True
    then have "h = h0" "l' = l1" using Cons(5) m e by auto
    moreover obtain f where "h0 sv d (start_flow d s l1) = Some f" "served sv d s l1 f"
      using udp_handler.serves [OF c Cons(3,4), of l1 sv s] m True by auto
    ultimately show ?thesis using q by auto
  next
    case False
    have "lst_inv l1" using Cons(4) q by (simp add: lst_inv_def)
    from Cons.IH [OF _ Cons(3) this] Cons(2,5) m e False
    obtain f qp' where "h sv d (start_flow d s l') = Some f" "served sv d s l' f" "l' = l1\<lparr>ul_quicPeers := qp'\<rparr>" "set qp' \<subseteq> set (ul_quicPeers l1)" by auto
    then show ?thesis using q by auto
  qed
qed

lemma entitled_quicPeers: "entitled sv d s (l\<lparr>ul_quicPeers := qp\<rparr>) = entitled sv d s l"
  by (simp add: entitled_def reserved_def has_session_def)

lemma quic_fed_quicPeers:
  assumes "quic_fed d s (l\<lparr>ul_quicPeers := qp\<rparr>) l'" "set qp \<subseteq> set (ul_quicPeers l)"
  shows "quic_fed d s l l'"
proof -
  have "quic_known d (l\<lparr>ul_quicPeers := qp\<rparr>) \<Longrightarrow> quic_known d l" using assms(2) by (auto simp: quic_known_def list_ex_iff)
  moreover have "reserved d s (l\<lparr>ul_quicPeers := qp\<rparr>) = reserved d s l" by (simp add: reserved_def)
  ultimately show ?thesis using assms by (auto simp: quic_fed_def quic_queue_def list_all_iff)
qed

text \<open>The step of a listener: it returns, and the flow is served.\<close>

lemma serve_ok:
  assumes "dgram_ok d" "lst_inv l"
  obtains f where "serve sv d s l = Some f" "served sv d s l f"
proof -
  obtain l' n h where p: "protocol d l = (l', n, h)" by (metis prod_cases3)
  obtain f qp where f: "h sv d (start_flow d s l') = Some f" "served sv d s l' f" "l' = l\<lparr>ul_quicPeers := qp\<rparr>" "set qp \<subseteq> set (ul_quicPeers l)"
    using first_match_serves [OF dispatch_contracts assms p [unfolded protocol_def]] by blast
  then have "served sv d s l f" by (auto simp: served_def entitled_quicPeers intro: quic_fed_quicPeers)
  with f(1) show thesis using that [of f] by (simp add: serve_def p)
qed

end
