(* ===== verification/Udp_Safety.thy ===== *)
theory Udp_Safety
  imports Udp_Props
begin

text \<open>
  The properties of the demultiplexer in every state it can reach: any sequence of datagrams, with
  the other components using the shared store in between, in any order. Each rests on the contract
  of the handlers (\<open>Udp_Props\<close>) by induction over the reachable states.
\<close>

inductive udp_reach :: "server \<Rightarrow> store \<Rightarrow> udpListener \<Rightarrow> store \<Rightarrow> udpListener \<Rightarrow> bool"
  for sv :: server and s0 :: store and l0 :: udpListener where
  start: "udp_reach sv s0 l0 s0 l0"
| datagram: "udp_reach sv s0 l0 s l \<Longrightarrow> dgram_ok d \<Longrightarrow> udp_handle sv d (s, l) = Some (s', l', out) \<Longrightarrow>
    udp_reach sv s0 l0 s' l'"
| elsewhere: "udp_reach sv s0 l0 s l \<Longrightarrow> udp_reach sv s0 l0 (fst (store_step s e)) l"
| quic: "udp_reach sv s0 l0 s l \<Longrightarrow> demux_ReadFrom n l = Some (b, a, l') \<Longrightarrow> udp_reach sv s0 l0 s l'"

lemma udp_handle_ok:
  assumes "dgram_ok d" "lst_inv l"
  obtains s' l' out where "udp_handle sv d (s, l) = Some (s', l', out)" "lst_inv l'" "evolves_by (others_of d) s s'"
    "out = [] \<or> (entitled sv d s l \<and> length out = 1)" "quic_fed d s l l'"
proof -
  obtain f where f: "serve sv d s l = Some f" "served sv d s l f" by (rule serve_ok [OF assms])
  have "evolves_by (others_of d) s (store_run (fl_store f) (dg_others d 2))"
    by (rule evolves_others) (use f(2) in \<open>simp_all add: served_def\<close>)
  then have "evolves_by (others_of d) s (if fl_unrec f then fl_store f
      else fst (addObservationAt (fl_store (others d 2 f)) (fl_obs f) (dg_obs_id d) (dg_rec_now d)))"
    using f(2) evolves_trans [OF _ evolves_observation] by (auto simp: served_def)
  with f that show thesis by (auto simp: udp_handle_def served_def)
qed

lemma lst_inv_quic: "lst_inv l \<Longrightarrow> demux_ReadFrom n l = Some (b, a, l') \<Longrightarrow> lst_inv l'"
  by (auto simp: demux_ReadFrom_def lst_inv_def split: option.splits list.splits)

text \<open>A change of the store by its operations.\<close>

definition store_runs :: "store \<Rightarrow> store \<Rightarrow> bool" where
  "store_runs s s' \<longleftrightarrow> (\<exists>ops. s' = store_run s ops)"

lemma store_runs_refl [simp]: "store_runs s s"
  unfolding store_runs_def by (rule exI [of _ "[]"]) simp

lemma store_runs_step: "store_runs s (fst (store_step s e))"
  unfolding store_runs_def by (rule exI [of _ "[e]"]) simp

lemma store_runs_trans [trans]: "store_runs s t \<Longrightarrow> store_runs t u \<Longrightarrow> store_runs s u"
  unfolding store_runs_def by (metis store_run_append)

lemma evolves_runs: "evolves_by X s t \<Longrightarrow> store_runs s t"
  by (auto simp: evolves_by_def store_runs_def)

lemma udp_reach_inv:
  assumes "udp_reach sv s0 l0 s l" "lst_inv l0"
  shows "lst_inv l \<and> store_runs s0 s"
  using assms(1)
proof (induction rule: udp_reach.induct)
  case start
  then show ?case using assms(2) by simp
next
  case (datagram s l d s' l' out)
  obtain t m o1 where "udp_handle sv d (s, l) = Some (t, m, o1)" "lst_inv m" "evolves_by (others_of d) s t"
    using udp_handle_ok [OF datagram(2), of l sv s] datagram(4) by blast
  with datagram(3,4) show ?case using store_runs_trans [OF _ evolves_runs] by auto
next
  case (elsewhere s l e)
  then show ?case using store_runs_trans [OF _ store_runs_step] by blast
next
  case (quic s l n b a l')
  then show ?case using lst_inv_quic by blast
qed

text \<open>In no state a listener can reach does any datagram make the server panic: the step returns
  for every byte sequence, every sender and every content of the store. Of the datagram it is assumed that the
  clock of the key lookup is not behind its arrival and that nothing between the two lookups of the
  envelope handler takes the session out of the table: the handler dereferences the session it looks
  up a second time without checking it.\<close>

theorem udp_never_panics:
  assumes "udp_reach sv s0 (newListener port dns quic) s l" "dgram_ok d"
  shows "udp_handle sv d (s, l) \<noteq> None"
  using udp_handle_ok [OF assms(2), of l sv s] udp_reach_inv [OF assms(1) lst_inv_new] by (metis option.discI)

text \<open>C5. The demultiplexer itself answers at most one datagram per datagram received, and only to an entitled
  sender: one with a live, unused reservation for this transport and port, one whose address is that
  of a live session of the listener, one that proved its session with a valid envelope and cookie,
  or one that sent a DNS query to a DNS port. To everybody else it is silent. What it hands to the QUIC
  endpoint, a library that answers over the same socket on its own account and is not part of that
  count, is bounded likewise: a datagram is queued for it at most once and only if its sender holds a live reservation
  for the port or is remembered, the queue never grows beyond 256 packets, and a sender is only ever remembered
  for thirty seconds from a datagram that came with a live reservation. Datagrams are such that the
  key lookup is not before the arrival and that nothing removes the session between the two lookups
  of the envelope handler (no collection more than a minute ahead, no session stored that is over).\<close>

theorem udp_answers_only_entitled:
  assumes "udp_reach sv s0 (newListener port dns quic) s l" "dgram_ok d"
    and "udp_handle sv d (s, l) = Some (s', l', out)"
  shows "(out = [] \<or> (entitled sv d s l \<and> length out = 1))
    \<and> (quic_queue l' = quic_queue l
       \<or> (quic_queue l' = quic_queue l @ [(dg_b d, dg_peer d)] \<and> length (quic_queue l') \<le> 256 \<and> (reserved d s l \<or> quic_known d l)))
    \<and> (\<forall>a e. (a, e) \<in> set (ul_quicPeers l') \<longrightarrow>
         (a, e) \<in> set (ul_quicPeers l) \<or> (a = dg_peer d \<and> e = dg_now d + sec 30 \<and> reserved d s l))"
proof -
  obtain t m o1 where "udp_handle sv d (s, l) = Some (t, m, o1)" "o1 = [] \<or> (entitled sv d s l \<and> length o1 = 1)" "quic_fed d s l m"
    using udp_handle_ok [OF assms(2), of l sv s] udp_reach_inv [OF assms(1) lst_inv_new] by blast
  with assms(3) show ?thesis by (auto simp: quic_fed_def list_all_iff)
qed










section \<open>A concrete listener\<close>

definition demo_server :: server where
  "demo_server = \<lparr>sv_master = [1, 2, 3], sv_wg = \<lparr>kp_priv = replicate 32 5, kp_pub = replicate 32 5\<rparr>, sv_ovpn = replicate 256 7,
     sv_zone = ''probe.example'', sv_lib = demo_lib, sv_dns = demo_dns, sv_lib_error = ''error''\<rparr>"

text \<open>A STUN binding request, and a store with a reservation for it.\<close>

definition demo_dgram :: dgram where
  "demo_dgram = \<lparr>dg_b = fst (BindingRequest (replicate 12 9)), dg_ip = Addr4 7, dg_ip_str = ''0.0.0.7'', dg_port = 4000,
     dg_peer = ''0.0.0.7:4000'', dg_now = 5, dg_key_now = 6, dg_seal_now = 6, dg_reply_now = 7, dg_rec_now = 8, dg_send = None,
     dg_obs_id = replicate 8 1, dg_rnd = (\<lambda>i n. replicate n 4), dg_spir = replicate 8 2, dg_ssid = replicate 8 3, dg_id16 = 77, dg_id32 = 99,
     dg_others = (\<lambda>i. if i = 0 then [(30, OpGc 0)] else [])\<rparr>"

definition demo_reserved :: store where
  "demo_reserved = (newStore 10 (sec 600) 10 1200)\<lparr>reservations :=
     [\<lparr>res_id = ''r1'', res_session = replicate 16 1, res_expires = 100, res_client = Addr4 7, res_dst_port = 3478,
       res_transport = ''udp'', res_kind = '''', res_test = ''stun'', res_variant = '''', res_used = False\<rparr>]\<rparr>"

text \<open>A reservation that matches is found, so the handler answers.\<close>

lemma correlate_reserved:
  assumes "list_ex (res_matches (Unmap (dg_ip d)) ''udp'' (ul_port (fl_lst f)) kind (dg_now d)) (reservations (fl_store f))"
  shows "snd (correlate d kind f)"
proof (cases rule: findReservation_cases [of "fl_store f" "dg_ip d" "''udp''" "ul_port (fl_lst f)" kind "dg_now d" True])
  case none
  then show ?thesis using assms by (auto simp: list_ex_iff)
next
  case (some i r)
  then show ?thesis by (auto simp: correlate_def matchReservation_def split: prod.splits option.splits)
qed

lemma binding_request_shape:
  assumes "length tx = 12"
  shows "IsBindingRequest (fst (BindingRequest tx))" "\<not> is_envelope (fst (BindingRequest tx))" "TransactionID (fst (BindingRequest tx)) = tx"
proof -
  have "be16 typeBindingReq = [0, 1]" by code_simp
  then have "\<not> has_prefix (fst (BindingRequest tx)) Magic" by (simp add: BindingRequest_def has_prefix_def Magic_def)
  then show "\<not> is_envelope (fst (BindingRequest tx))" by (simp add: is_envelope_def)
  show "IsBindingRequest (fst (BindingRequest tx))" "TransactionID (fst (BindingRequest tx)) = tx"
    using assms by (simp_all add: BindingRequest_def IsBindingRequest_def TransactionID_def reading)
qed

lemma stun_step:
  assumes "length tx = 12" "dg_b d = fst (BindingRequest tx)" "\<not> ul_dns l" "dg_send d = None"
    and "list_ex (res_matches (Unmap (dg_ip d)) ''udp'' (ul_port l) ParseSTUN (dg_now d)) (reservations s)"
  shows "\<exists>s' l'. udp_handle sv d (s, l) = Some (s', l', [BindingSuccess tx (dg_ip d) (word_of_int (dg_port d))])"
proof -
  define out where "out = BindingSuccess tx (dg_ip d) (word_of_int (dg_port d))"
  obtain f ok where c: "correlate d ParseSTUN (obs_kind ParseSTUN (start_flow d s l)) = (f, ok)" by fastforce
  have ok and sent: "fl_sent f = []"
    using correlate_reserved [of d "obs_kind ParseSTUN (start_flow d s l)" ParseSTUN] correlate_cases(2) [OF c] assms(5) c by auto
  have "serve sv d s l = Some (reply d out ''stun_binding_success'' f)"
    using assms(2,3) \<open>ok\<close> binding_request_shape [OF assms(1)]
    by (simp add: serve_def protocol_def udpDispatch_def by_shape_def matchDNS_def serveSTUN_def c out_def)
  moreover have "0 < length out" by (simp add: out_def BindingSuccess_def Let_def)
  ultimately show ?thesis
    using assms(4) sent by (simp add: udp_handle_def reply_def out_def)
qed

text \<open>A reserved STUN probe is answered: on a port without DNS, the binding request of a client
  with a matching reservation gets exactly one datagram back when the send succeeds, and the client
  reads from it its own address and port as the server saw them.\<close>

theorem udp_stun_answered:
  assumes "length tx = 12" "dg_b d = fst (BindingRequest tx)" "\<not> ul_dns l" "dg_send d = None" "Unmap (dg_ip d) \<noteq> AddrZero"
    and "list_ex (res_matches (Unmap (dg_ip d)) ''udp'' (ul_port l) ParseSTUN (dg_now d)) (reservations s)"
  shows "\<exists>s' l' out. udp_handle sv d (s, l) = Some (s', l', [out])
    \<and> ParseBindingSuccess out tx = Some (Inr (case Unmap (dg_ip d) of Addr6 w _ \<Rightarrow> Addr6 w '''' | a \<Rightarrow> a, word_of_int (dg_port d)))"
  using stun_step [OF assms(1-4,6), of sv] binding_success_parsed [OF assms(1,5), of "word_of_int (dg_port d)" tx] by auto

lemma demo_reserved_matches:
  "list_ex (res_matches (Unmap (dg_ip demo_dgram)) ''udp'' 3478 ParseSTUN (dg_now demo_dgram)) (reservations demo_reserved)"
  by (simp add: demo_dgram_def demo_reserved_def res_matches_def Unmap_def)

lemma demo_dgram_stun: "dg_b demo_dgram = fst (BindingRequest (replicate 12 9))"
  by (simp add: demo_dgram_def)

lemma demo_dgram_fields:
  "dg_ip demo_dgram = Addr4 7" "dg_port demo_dgram = 4000" "dg_send demo_dgram = None" "dgram_ok demo_dgram"
  by (simp_all add: demo_dgram_def dgram_ok_def)

lemma newListener_fields: "ul_port (newListener port dns quic) = port" "ul_dns (newListener port dns quic) = dns"
  by (simp_all add: newListener_def)

theorem udp_stun_answered_witness:
  "\<exists>s' l' out. udp_handle demo_server demo_dgram (demo_reserved, newListener 3478 False False) = Some (s', l', [out])
     \<and> ParseBindingSuccess out (replicate 12 9) = Some (Inr (Addr4 7, 4000))"
  using udp_stun_answered [of "replicate 12 9" demo_dgram "newListener 3478 False False" demo_reserved demo_server]
    demo_reserved_matches demo_dgram_stun by (simp add: demo_dgram_fields newListener_fields Unmap_def)

theorem udp_never_panics_witness:
  "udp_handle demo_server demo_dgram (demo_reserved, newListener 3478 True True) \<noteq> None"
  by (rule udp_never_panics [OF udp_reach.start demo_dgram_fields(4)])

theorem udp_answers_only_entitled_witness:
  "\<exists>s' l' out. udp_handle demo_server demo_dgram (demo_reserved, newListener 3478 False False) = Some (s', l', out)
     \<and> out \<noteq> [] \<and> entitled demo_server demo_dgram demo_reserved (newListener 3478 False False)"
proof -
  obtain s' l' out where h: "udp_handle demo_server demo_dgram (demo_reserved, newListener 3478 False False) = Some (s', l', [out])"
    using stun_step [of "replicate 12 9" demo_dgram "newListener 3478 False False" demo_reserved demo_server]
      demo_reserved_matches demo_dgram_stun by (auto simp: demo_dgram_fields newListener_fields)
  with udp_answers_only_entitled [OF udp_reach.start demo_dgram_fields(4) h] show ?thesis by auto
qed

section \<open>Shapes and sizes\<close>

text \<open>At most one of the predicates holds when each implies a different value of the same tag.\<close>

lemma exclusive_by_tag:
  "list_all (\<lambda>(p, i). p b \<longrightarrow> t = i) ps \<Longrightarrow> distinct (map snd ps) \<Longrightarrow> length (List.filter (\<lambda>p. p b) (map fst ps)) \<le> 1"
proof (induction ps)
  case (Cons e ps)
  obtain p i where e: "e = (p, i)" by fastforce
  have "List.filter (\<lambda>p. p b) (map fst ps) = []" if "p b"
    using Cons.prems that e by (auto simp: filter_empty_conv list_all_iff)
  then show ?case using Cons e by auto
qed simp

definition shape_tag :: "byte \<Rightarrow> nat" where
  "shape_tag w = (if w = 67 then 0 else if w = 0 then 1 else if w = 22 then 2 else if w = 1 then 3 else if w = 4 then 4
     else if drop_bit 3 w = 7 then 5 else if drop_bit 3 w = 4 \<or> drop_bit 3 w = 5 then 6 else 7)"

definition first_byte_shapes :: "((bytes \<Rightarrow> bool) \<times> nat) list" where
  "first_byte_shapes = [(is_envelope, 0), (IsBindingRequest, 1), (IsHandshake, 2), (LooksLikeInitiation, 3), (LooksLikeTransport, 4),
     (\<lambda>b. snd (IsClientReset b), 5), (matchOVPNControl, 6), (ovpn_IsData, 7)]"

lemma take_two: "off + 2 \<le> length b \<Longrightarrow> take 2 (drop off b) = [b ! off, b ! (off + 1)]"
  by (auto simp: list_eq_iff_nth_eq less_Suc_eq numeral_2_eq_2)

lemma take_four: "off + 4 \<le> length b \<Longrightarrow> take 4 (drop off b) = [b ! off, b ! (off + 1), b ! (off + 2), b ! (off + 3)]"
  by (auto simp: list_eq_iff_nth_eq less_Suc_eq numeral_eq_Suc)

lemma unat_w16: "off + 2 \<le> length b \<Longrightarrow> unat (w16 b off) = 256 * unat (b ! off) + unat (b ! (off + 1))"
proof -
  assume "off + 2 \<le> length b"
  then have n: "be_nat (take 2 (drop off b)) = 256 * unat (b ! off) + unat (b ! (off + 1))"
    by (simp add: take_two be_nat_def)
  moreover have "unat (w16 b off) = be_nat (take 2 (drop off b))"
    unfolding w16_def
    by (rule unat_word_of_nat_16) (use unat_byte_less [of "b ! off"] unat_byte_less [of "b ! (off + 1)"] n in linarith)
  ultimately show ?thesis by simp
qed

lemma unat_w32: "off + 4 \<le> length b \<Longrightarrow> unat (w32 b off) div 2 ^ 24 = unat (b ! off)"
proof -
  let ?r = "65536 * unat (b ! (off + 1)) + 256 * unat (b ! (off + 2)) + unat (b ! (off + 3))"
  assume "off + 4 \<le> length b"
  then have n: "be_nat (take 4 (drop off b)) = 16777216 * unat (b ! off) + ?r"
    by (simp add: take_four be_nat_def)
  have r: "?r < 16777216"
    using unat_byte_less [of "b ! (off + 1)"] unat_byte_less [of "b ! (off + 2)"] unat_byte_less [of "b ! (off + 3)"] by linarith
  have "be_nat (take 4 (drop off b)) < 2 ^ 32" using n r unat_byte_less [of "b ! off"] by simp
  then have "unat (w32 b off) = be_nat (take 4 (drop off b))"
    unfolding w32_def by (simp add: unat_of_nat)
  with n r show ?thesis by simp
qed

lemma stun_first:
  assumes "IsBindingRequest b"
  shows "b ! 0 = 0"
proof -
  have "w16 b 0 = 1" "20 \<le> length b"
    using assms by (auto simp: IsBindingRequest_def go_defs w16_def split: if_splits)
  with unat_w16 [of 0 b] have "unat (b ! 0) = 0" by simp
  then show ?thesis by (simp add: unat_eq_0)
qed

lemma first_byte_tags: "list_all (\<lambda>(p, i). p b \<longrightarrow> shape_tag (b ! 0) = i) first_byte_shapes"
proof -
  have "is_envelope b \<Longrightarrow> b ! 0 = 67"
    by (cases b) (auto simp: is_envelope_def has_prefix_def Magic_def)
  moreover have "drop_bit 3 (b ! 0) = word_of_int (Opcode b)" if "b \<noteq> []"
    using that by (simp add: Opcode_def)
  moreover have "Opcode b \<noteq> 0 \<Longrightarrow> b \<noteq> []" by (auto simp: Opcode_def)
  ultimately show ?thesis
    using stun_first [of b]
    by (auto simp: first_byte_shapes_def shape_tag_def IsHandshake_def LooksLikeInitiation_def LooksLikeTransport_def
        IsClientReset_def matchOVPNControl_def ovpn_IsData_def split: if_splits)
qed

lemma unat_and_15: "unat (x AND 15 :: 'a::len word) = unat x mod 16"
proof -
  have "x AND 15 = take_bit 4 x" by (simp add: take_bit_eq_mask mask_eq_exp_minus_1)
  then have "unat (x AND 15) = take_bit 4 (unat x)" by (simp only: unsigned_take_bit_eq)
  also have "\<dots> = unat x mod 16" by (simp add: take_bit_eq_mod)
  finally show ?thesis .
qed

lemma and_top_bit:
  "x AND 0x8000 \<noteq> 0 \<longleftrightarrow> odd (unat (x :: 16 word) div 2 ^ 15)" "y AND 0x80 \<noteq> 0 \<longleftrightarrow> odd (unat (y :: 8 word) div 2 ^ 7)"
  using and_exp_eq_0_iff_not_bit [of x 15] and_exp_eq_0_iff_not_bit [of y 7]
    bit_unsigned_iff [of x 15, where ?'a = nat] bit_unsigned_iff [of y 7, where ?'a = nat]
  by (simp_all add: bit_iff_odd)

lemma l2tp_not_quic:
  assumes "l2tp_IsControl b"
  shows "\<not> isQUIC b"
proof
  assume q: "isQUIC b"
  have len: "12 \<le> length b" and low: "w16 b 0 AND 15 = 2" and high: "w16 b 0 AND 0x8000 \<noteq> 0"
    using assms by (simp_all add: l2tp_IsControl_def)
  have w: "unat (w16 b 0) = 256 * unat (b ! 0) + unat (b ! 1)" using unat_w16 [of 0 b] len by simp
  have "unat (w16 b 0) mod 16 = 2" using arg_cong [OF low, of unat] by (simp add: unat_and_15)
  then have b1: "unat (b ! 1) mod 16 = 2" unfolding w by presburger
  have "odd (unat (w16 b 0) div 2 ^ 15)" using high unfolding and_top_bit(1) .
  moreover have "unat (w16 b 0) div 2 ^ 15 = unat (b ! 0) div 2 ^ 7"
    using div_mult2_eq [of "256 * unat (b ! 0) + unat (b ! 1)" 256 128] unat_byte_less [of "b ! 1"] unfolding w by simp
  ultimately have "odd (unat (b ! 0) div 2 ^ 7)" by simp
  then have "b ! 0 AND 0x80 \<noteq> 0" unfolding and_top_bit(2) .
  with q len have "w32 b 1 = 1 \<or> w32 b 1 = 0x6b3343cf \<or> w32 b 1 = 0 \<or> w32 b 1 AND 0x0f0f0f0f = 0x0a0a0a0a"
    by (simp add: isQUIC_def Let_def)
  moreover have "unat (drop_bit 24 (w32 b 1)) = unat (b ! 1)"
    using unat_w32 [of 1 b] len by (simp add: drop_bit_eq_div unat_div_distrib)
  moreover have "drop_bit 24 (w32 b 1) AND 15 = 10" if "w32 b 1 AND 0x0f0f0f0f = 0x0a0a0a0a"
    using arg_cong [OF that, of "drop_bit 24"] by (simp add: drop_bit_and)
  ultimately show False
    using b1 unat_and_15 [of "drop_bit 24 (w32 b 1)"] by auto
qed

lemma natt_not_esp: "snd (StripNATT b) \<Longrightarrow> \<not> IsESPUDP b"
proof -
  assume "snd (StripNATT b)"
  then have b: "4 < length b" "b ! 0 = 0" "b ! 1 = 0" "b ! 2 = 0" "b ! 3 = 0" by (auto simp: StripNATT_def split: if_splits)
  then have "take 4 b = [0, 0, 0, 0]" using take_four [of 0 b] by (simp add: numeral_2_eq_2)
  then have "w32 b 0 = 0" by (simp add: w32_def be_nat_def)
  then show ?thesis by (simp add: IsESPUDP_def)
qed

text \<open>The shapes of the dispatch table are told apart as its comment says: a datagram satisfies at
  most one of the eight shapes with a fixed first byte or opcode (envelope, STUN, DTLS, the two of
  WireGuard, the three of OpenVPN), so their order among each other does not matter; an L2TP control
  message is never taken for QUIC, and an IKE message behind a NAT-T marker never for ESP.\<close>

theorem dispatch_shapes_exclusive:
  "length (List.filter (\<lambda>p. p b) [is_envelope, IsBindingRequest, IsHandshake, LooksLikeInitiation, LooksLikeTransport,
       \<lambda>b. snd (IsClientReset b), matchOVPNControl, ovpn_IsData]) \<le> 1
   \<and> \<not> (l2tp_IsControl b \<and> isQUIC b) \<and> \<not> (snd (StripNATT b) \<and> IsESPUDP b)"
  using exclusive_by_tag [OF first_byte_tags, of b] l2tp_not_quic [of b] natt_not_esp [of b]
  by (auto simp: first_byte_shapes_def)

text \<open>Replies of the VPN handlers.\<close>

lemma reply_list_all: "list_all P (fl_sent f) \<Longrightarrow> P out \<Longrightarrow> list_all P (fl_sent (reply d out what f))"
  by (auto simp: reply_def split: option.splits)

lemma length_control_reply:
  assumes "length sid = 8" "length remote = 8"
  shows "length (snd (ovpn_Control la now sid pid (tlsx_Record (control_body la n)) [a] remote)) = max n (HdrLen la 1 + 5)"
  using assms
  by (auto simp: ovpn_Control_def Build_def packet_head_def packet_body_def HdrLen_def tlsx_Record_def control_body_def Let_def max_def)

lemma ovpn_data_size:
  assumes "lst_inv l"
  shows "case serveOVPNData sv d (start_flow d s l) of None \<Rightarrow> True | Some f \<Rightarrow> list_all (\<lambda>r. length r = length (dg_b d)) (fl_sent f)"
proof -
  have keys: "length (dk_key a) = 32" "length (dk_key b) = 32"
    if "lookupOVPNPeer l p now = Some (r, ov)" "ov_keys ov = Some (a, b)" for p now r ov a b
    using find_liveD(2) [OF that(1) [unfolded lookupOVPNPeer_def]] that(2) assms
    by (force simp: lst_inv_def ov_ok_def keys_ok_def)+
  have size: "length (Seal k 0 n plain) = length b"
    if "Open c b = (pid, plain, None)" "length (dk_key c) = 32" "length (dk_key k) = 32" for c k b pid plain n
    using that gcm.unseal_length [OF that(2), of _ _ "drop 8 b"] gcm.seal_length [OF that(3)]
    by (fastforce simp: Open_def Seal_def Let_def ovpn_IsData_def split: if_splits option.splits)
  show ?thesis
    using keys size
    by (auto simp: serveOVPNData_def Let_def intro!: reply_list_all split: option.splits prod.splits)
qed

lemma ike_auth_size:
  assumes "list_all (\<lambda>n. length (dg_rnd d 0 n) = n) [0..<length (dg_b d) + 33]"
    and "StripNATT (dg_b d) = (msg, natt)" "ih_exchange (fst (ParseHeader msg)) \<noteq> ExchangeSAInit"
  shows "case serveIKE sv d (start_flow d s l) of None \<Rightarrow> True
    | Some f \<Rightarrow> list_all (\<lambda>r. length r = (if natt then 4 else 0) + max 64 (length msg - 32)) (fl_sent f)"
proof -
  have len: "length msg \<le> length (dg_b d)" using assms(2) by (auto simp: StripNATT_def split: if_splits)
  have spi: "length (ih_spii (fst (ParseHeader msg))) = 8" "length (ih_spir (fst (ParseHeader msg))) = 8"
    by (auto simp: ParseHeader_def zero_ike_header_def ike_fields_def Let_def)
  have "length (ike_Auth a b c (max 32 (nat (int (length msg) - 28 - 4 - 32))) True (dg_rnd d 0)) = max 64 (length msg - 32)"
    if "length a = 8" "length b = 8" for a b c
  proof -
    let ?n = "max 32 (length msg - 64)"
    have "length (dg_rnd d 0 ?n) = ?n" using assms(1) len by (auto simp: list_all_iff max_def)
    moreover have "nat (int (length msg) - 28 - 4 - 32) = length msg - 64" by simp
    ultimately show ?thesis using that by (auto simp: length_ike_messages max_def)
  qed
  then show ?thesis
    using assms(3) spi
    by (auto simp: serveIKE_def assms(2) Let_def AddNATT_def intro!: reply_list_all split: option.splits)
qed

definition answer_of :: "nat \<Rightarrow> flow \<Rightarrow> bool" where
  "answer_of n f \<longleftrightarrow> fl_sent f = [] \<or> map length (fl_sent f) = [n]"

lemma answer_of_reply: "fl_sent f = [] \<Longrightarrow> length out = n \<Longrightarrow> answer_of n (reply d out what f)"
  using reply_sent [of d out what f] by (auto simp: answer_of_def)

lemma answer_of_silent: "fl_sent f = [] \<Longrightarrow> answer_of n f"
  by (simp add: answer_of_def)

lemma ovpn_control_size:
  assumes "lst_inv l" "serveOVPNControl sv d (start_flow d s l) = Some f"
  shows "fl_sent f = [] \<or> (\<exists>r ov. ul_ovHeap l r = Some ov \<and> map length (fl_sent f) = [max (length (dg_b d)) (HdrLen (ov_layout ov) 1 + 5)])"
proof -
  have sid: "length (ov_ssid ov) = 8" if "deref (ul_ovHeap l) (ul_ovpn l) k = Some (r, ov)" for k r ov
    using that assms(1) by (auto simp: deref_def lst_inv_def ov_ok_def split: option.splits)
  have heap: "ul_ovHeap l r = Some ov" if "deref (ul_ovHeap l) (ul_ovpn l) k = Some (r, ov)" for k r ov
    using that by (auto simp: deref_def split: option.splits)
  define csid where "csid = (case SessionOf (dg_b d) of None \<Rightarrow> replicate 8 0 | Some s \<Rightarrow> s)"
  have c: "length csid = 8" by (simp add: csid_def SessionOf_def)
  show ?thesis
  proof (cases "deref (ul_ovHeap l) (ul_ovpn l) csid")
    case None
    then show ?thesis using assms(2) by (auto simp: serveOVPNControl_def Let_def csid_def [symmetric])
  next
    case (Some x)
    obtain r ov where x: "x = (r, ov)" by fastforce
    note S = Some [unfolded x]
    note len = length_control_reply [OF sid [OF S] c, of "ov_layout ov" "unix32 (dg_seal_now d)" "ov_nextPID ov" "length (dg_b d)"]
    obtain p where p: "Parse (ov_layout ov) (dg_b d) = Some p" using parse_total by blast
    have "answer_of (max (length (dg_b d)) (HdrLen (ov_layout ov) 1 + 5)) f"
      using assms(2) unfolding serveOVPNControl_def Let_def csid_def [symmetric]
      by (cases p) (auto simp: S p case_prod_beta len answer_of_silent intro!: answer_of_reply split: if_splits)
    then show ?thesis using heap [OF S] unfolding answer_of_def by (elim disjE) (simp, intro disjI2 exI conjI)
  qed
qed

text \<open>C38. How long the answers of the VPN data phases are, in every reachable state: the echo of an ESP
  packet, of an L2TP data packet and of an OpenVPN data packet has exactly the length of the
  request; the answer to an IKE_AUTH message is 32 bytes shorter than the message, but at least 64
  bytes long (besides a NAT-T marker); and the one control packet that answers an OpenVPN control packet has the
  length of the request but at least that of an empty record with the header of the session's
  layout, 31 bytes or 59 under tls-auth. The last two answers can therefore be longer than what they
  answer. Assumed is that random draws have the length asked for.\<close>

theorem vpn_reply_sizes:
  assumes "udp_reach sv s0 (newListener port dns quic) s l"
    and "list_all (\<lambda>n. length (dg_rnd d 0 n) = n) [0..<length (dg_b d) + 33]"
    and "StripNATT (dg_b d) = (msg, natt)"
  shows "(case serveESP sv d (start_flow d s l) of None \<Rightarrow> True | Some f \<Rightarrow> list_all (\<lambda>r. length r = length (dg_b d)) (fl_sent f))
    \<and> (case serveL2TPData sv d (start_flow d s l) of None \<Rightarrow> True | Some f \<Rightarrow> list_all (\<lambda>r. length r = length (dg_b d)) (fl_sent f))
    \<and> (case serveOVPNData sv d (start_flow d s l) of None \<Rightarrow> True | Some f \<Rightarrow> list_all (\<lambda>r. length r = length (dg_b d)) (fl_sent f))
    \<and> (case serveIKE sv d (start_flow d s l) of None \<Rightarrow> True
       | Some f \<Rightarrow> ih_exchange (fst (ParseHeader msg)) = ExchangeSAInit
           \<or> list_all (\<lambda>r. length r = (if natt then 4 else 0) + max 64 (length msg - 32)) (fl_sent f))
    \<and> (case serveOVPNControl sv d (start_flow d s l) of None \<Rightarrow> False
       | Some f \<Rightarrow> fl_sent f = [] \<or> (\<exists>r ov. ul_ovHeap l r = Some ov
           \<and> map length (fl_sent f) = [max (length (dg_b d)) (if la_auth (ov_layout ov) = AuthTLS then 59 else 31)]))"
proof (intro conjI)
  note inv = udp_reach_inv [OF assms(1) lst_inv_new]
  obtain f where f: "serveOVPNControl sv d (start_flow d s l) = Some f" using ovpn_control_ok inv by blast
  have "HdrLen la 1 + 5 = (if la_auth la = AuthTLS then 59 else 31)" for la by (simp add: HdrLen_def)
  then show "case serveOVPNControl sv d (start_flow d s l) of None \<Rightarrow> False
       | Some f \<Rightarrow> fl_sent f = [] \<or> (\<exists>r ov. ul_ovHeap l r = Some ov
           \<and> map length (fl_sent f) = [max (length (dg_b d)) (if la_auth (ov_layout ov) = AuthTLS then 59 else 31)])"
    using ovpn_control_size [OF _ f] inv by (simp add: f)
  show "case serveESP sv d (start_flow d s l) of None \<Rightarrow> True | Some f \<Rightarrow> list_all (\<lambda>r. length r = length (dg_b d)) (fl_sent f)"
    by (auto simp: serveESP_def Let_def matchESP_def IsESPUDP_def ESP_def intro!: reply_list_all split: option.splits if_splits)
  show "case serveL2TPData sv d (start_flow d s l) of None \<Rightarrow> True | Some f \<Rightarrow> list_all (\<lambda>r. length r = length (dg_b d)) (fl_sent f)"
    by (auto simp: serveL2TPData_def Let_def matchL2TPData_def l2tp_IsData_def l2tp_Data_def intro!: reply_list_all split: option.splits if_splits)
  show "case serveOVPNData sv d (start_flow d s l) of None \<Rightarrow> True | Some f \<Rightarrow> list_all (\<lambda>r. length r = length (dg_b d)) (fl_sent f)"
    using udp_reach_inv [OF assms(1) lst_inv_new] by (simp add: ovpn_data_size)
  show "case serveIKE sv d (start_flow d s l) of None \<Rightarrow> True
      | Some f \<Rightarrow> ih_exchange (fst (ParseHeader msg)) = ExchangeSAInit
          \<or> list_all (\<lambda>r. length r = (if natt then 4 else 0) + max 64 (length msg - 32)) (fl_sent f)"
    using ike_auth_size [OF assms(2,3), of sv s l]
    by (cases "ih_exchange (fst (ParseHeader msg)) = ExchangeSAInit") (auto split: option.splits)
qed

section \<open>An OpenVPN session\<close>

text \<open>A client opens a session with a reset on a reserved port and sends a control packet on it.\<close>

definition demo_reset :: dgram where
  "demo_reset = demo_dgram\<lparr>dg_b := snd (ClientReset Plain 0 (replicate 8 3))\<rparr>"

definition demo_control :: dgram where
  "demo_control = demo_dgram\<lparr>dg_b := snd (ovpn_Control Plain 0 (replicate 8 3) 1 [1, 2, 3] [] (replicate 8 0))\<rparr>"

lemma demo_reset_bytes: "dg_b demo_reset = [56, 3, 3, 3, 3, 3, 3, 3, 3, 0, 0, 0, 0, 0]"
proof -
  have "snd (ClientReset Plain 0 (replicate 8 3)) = [56, 3, 3, 3, 3, 3, 3, 3, 3, 0, 0, 0, 0, 0]" by code_simp
  then show ?thesis by (simp add: demo_reset_def)
qed

lemma demo_control_bytes: "dg_b demo_control = [32, 3, 3, 3, 3, 3, 3, 3, 3, 0, 0, 0, 0, 1, 1, 2, 3]"
proof -
  have "snd (ovpn_Control Plain 0 (replicate 8 3) 1 [1, 2, 3] [] (replicate 8 0)) = [32, 3, 3, 3, 3, 3, 3, 3, 3, 0, 0, 0, 0, 1, 1, 2, 3]" by code_simp
  then show ?thesis by (simp add: demo_control_def)
qed

lemma demo_ovpn_shapes:
  assumes "b = dg_b demo_reset \<or> b = dg_b demo_control"
  shows "\<not> is_envelope b" "\<not> IsBindingRequest b" "\<not> IsHandshake b" "\<not> LooksLikeInitiation b" "\<not> LooksLikeTransport b"
    "\<not> matchIKE b" "\<not> l2tp_IsControl b"
  using assms unfolding demo_reset_bytes demo_control_bytes by (elim disjE; hypsubst; code_simp)+

lemma demo_serve:
  assumes "\<not> ul_dns l" "ul_esp l = []" "ul_l2tp l = []"
  shows "serve sv demo_reset s l = serveOVPNReset sv demo_reset (start_flow demo_reset s l)"
    and "serve sv demo_control s l = serveOVPNControl sv demo_control (start_flow demo_control s l)"
proof -
  have e: "matchESP l d = None" "matchL2TPData l d = None" for d
    using assms(2,3) by (simp_all add: matchESP_def lookupESP_def find_live_def deref_def matchL2TPData_def lookupL2TP_def)
  have r: "IsClientReset (dg_b demo_reset) = (AuthNone, True)" "IsClientReset (dg_b demo_control) = (AuthNone, False)" "matchOVPNControl (dg_b demo_control)"
    unfolding demo_reset_bytes demo_control_bytes by code_simp+
  show "serve sv demo_reset s l = serveOVPNReset sv demo_reset (start_flow demo_reset s l)"
    "serve sv demo_control s l = serveOVPNControl sv demo_control (start_flow demo_control s l)"
    using demo_ovpn_shapes [of "dg_b demo_reset"] demo_ovpn_shapes [of "dg_b demo_control"] assms(1)
    by (simp_all add: serve_def protocol_def udpDispatch_def by_shape_def matchDNS_def e r)
qed

lemma demo_ovpn_parsed:
  "ParseClientReset Plain (dg_b demo_reset) = Some (Inr (replicate 8 3))" "SessionOf (dg_b demo_control) = Some (replicate 8 3)"
  "\<exists>p. Parse Plain (dg_b demo_control) = Some (Inr p) \<and> p_op p = OpControlV1"
proof -
  show "ParseClientReset Plain (dg_b demo_reset) = Some (Inr (replicate 8 3))" "SessionOf (dg_b demo_control) = Some (replicate 8 3)"
    unfolding demo_reset_bytes demo_control_bytes by code_simp+
  let ?p = "zero_packet\<lparr>p_op := OpControlV1, p_sid := replicate 8 3, p_pid := 1, p_payload := [1, 2, 3], p_acks := [], p_remote := replicate 8 0\<rparr>"
  have "wf_packet ?p" by (simp add: wf_packet_def zero_packet_def IsControlOp_def)
  from Parse_Build [OF this, of Plain Plain 0] show "\<exists>p. Parse Plain (dg_b demo_control) = Some (Inr p) \<and> p_op p = OpControlV1"
    by (simp add: demo_control_def ovpn_Control_def reads_from_def stamped_def Plain_def)
qed

lemma gcVPN_new: "gcVPN now (newListener port dns quic) = newListener port dns quic"
  by (simp add: gcVPN_def newListener_def)

lemma demo_opened_ovpn:
  obtains s' l' out ov where "udp_handle demo_server demo_reset (demo_reserved, newListener 3478 False False) = Some (s', l', out)"
    "deref (ul_ovHeap l') (ul_ovpn l') (replicate 8 3) = Some (0, ov)" "\<not> ul_dns l'" "ul_esp l' = []" "ul_l2tp l' = []"
    "ul_ovHeap l' = [0 \<mapsto> ov]" "ov_layout ov = Plain" "ov_ctlIn ov = 0" "ov_ctlOut ov = 0" "vf_in (ov_flow ov) = 0" "vf_out (ov_flow ov) = 0"
    "vf_peer (ov_flow ov) = dg_peer demo_control" "live (dg_now demo_control) (ov_flow ov)"
proof -
  let ?l = "newListener 3478 False False"
  define g where "g = obs_set ''client_session'' (hex_encode (replicate 8 3)) (obs_set ''control_auth'' (Auth_String AuthNone) (obs_kind ParseOpenVPN (start_flow demo_reset demo_reserved ?l)))"
  obtain f ok where c: "correlate demo_reset ParseOpenVPN g = (f, ok)" by fastforce
  have "list_ex (res_matches (Unmap (dg_ip demo_reset)) ''udp'' (ul_port (fl_lst g)) ParseOpenVPN (dg_now demo_reset)) (reservations (fl_store g))"
    by (simp add: g_def demo_reset_def demo_dgram_def demo_reserved_def newListener_fields res_matches_def Unmap_def)
  then have ok: "ok = True" using correlate_reserved [of demo_reset g ParseOpenVPN] c by simp
  have fl: "fl_lst f = ?l" using correlate_cases(1) [OF c] by (simp add: g_def)
  obtain resp where sr: "ServerReset Plain (unix32 (dg_seal_now demo_reset)) (replicate 8 3) (dg_ssid demo_reset) = (Plain, resp)"
    by (simp add: ServerReset_def Build_def Plain_def)
  define h where "h = others demo_reset 0 (reply demo_reset resp ''openvpn_reset'' f)"
  define ov where "ov = \<lparr>ov_flow = vpn_flow demo_reset h, ov_ssid = dg_ssid demo_reset, ov_layout = Plain, ov_nextPID = 1, ov_ctlIn = 0, ov_ctlOut = 0,
    ov_keys = map_option (\<lambda>key. DeriveDataKeys key (obs_attempt (fl_obs h))) (sessionKeyByHex (fl_store h) (obs_session (fl_obs h)) (dg_key_now demo_reset)),
    ov_dataPID = 1\<rparr>"
  have la: "ovpnLayout demo_server AuthNone = Plain" "IsClientReset (dg_b demo_reset) = (AuthNone, True)"
    by (simp add: ovpnLayout_def) (unfold demo_reset_bytes, code_simp)
  have sv: "serve demo_server demo_reset demo_reserved ?l = serveOVPNReset demo_server demo_reset (start_flow demo_reset demo_reserved ?l)"
    by (rule demo_serve(1)) (simp_all add: newListener_def)
  define k where "k = new_ovpn (dg_now demo_reset) (replicate 8 3) (dg_peer demo_reset) ov h"
  have "serve demo_server demo_reset demo_reserved ?l = Some k"
    using c unfolding sv serveOVPNReset_def
    by (simp add: la demo_ovpn_parsed(1) g_def [symmetric] ok sr Let_def ov_def h_def k_def)
  then obtain s' where u: "udp_handle demo_server demo_reset (demo_reserved, ?l) = Some (s', fl_lst k, fl_sent k)" by (simp add: udp_handle_def)
  have "fl_lst h = ?l" by (simp add: h_def fl)
  then have lk: "fl_lst k = ?l\<lparr>ul_ovHeap := [0 \<mapsto> ov], ul_ovpn := [(replicate 8 3, 0)], ul_ovpnPeer := [(dg_peer demo_reset, 0)], ul_next := 1\<rparr>"
    by (simp add: k_def new_ovpn_def gcVPN_new Let_def) (simp add: newListener_def)
  have fields: "vf_peer (ov_flow ov) = dg_peer demo_control" "live (dg_now demo_control) (ov_flow ov)"
    by (simp_all add: ov_def vpn_flow_def live_def demo_reset_def demo_control_def)
  show thesis by (rule that [OF u, unfolded lk, OF _ _ _ _ _ _ _ _ _ _ fields])
      (simp_all add: deref_def newListener_def ov_def vpn_flow_def)
qed

lemma dgram_ok_demo: "dgram_ok demo_reset" "dgram_ok demo_control"
  using demo_dgram_fields(4) by (simp_all add: demo_reset_def demo_control_def dgram_ok_def)

text \<open>The control packet on the open session: one answer of 31 bytes, and one packet counted each way.\<close>

lemma demo_control_step:
  assumes "deref (ul_ovHeap l) (ul_ovpn l) (replicate 8 3) = Some (0, ov)" "\<not> ul_dns l" "ul_esp l = []" "ul_l2tp l = []"
    and "ov_layout ov = Plain" "ov_ctlIn ov = 0" "vf_in (ov_flow ov) = 0" "vf_peer (ov_flow ov) = dg_peer demo_control" "live (dg_now demo_control) (ov_flow ov)"
  shows "\<exists>f ov'. serve sv demo_control s l = Some f \<and> serveOVPNControl sv demo_control (start_flow demo_control s l) = Some f \<and> fl_sent f \<noteq> []
    \<and> ul_ovHeap (fl_lst f) 0 = Some ov' \<and> ov_ctlIn ov' = 1 \<and> ov_ctlOut ov' = ov_ctlOut ov + 1"
proof -
  obtain p where p: "Parse Plain (dg_b demo_control) = Some (Inr p)" "p_op p = OpControlV1" using demo_ovpn_parsed(3) by blast
  obtain la ctl where b: "ovpn_Control (ov_layout ov) (unix32 (dg_seal_now demo_control)) (ov_ssid ov) (ov_nextPID ov)
      (tlsx_Record (control_body (ov_layout ov) (length (dg_b demo_control)))) [p_pid p] (replicate 8 3) = (la, ctl)" by fastforce
  then have "ctl \<noteq> []" by (auto simp: ovpn_Control_def Build_def packet_head_def Let_def split: if_splits)
  moreover have "dg_send demo_control = None" by (simp add: demo_control_def demo_dgram_fields)
  ultimately have sent: "fl_sent f = [] \<Longrightarrow> fl_sent (reply demo_control ctl what f) \<noteq> []" for what f by (simp add: reply_def)
  show ?thesis
    unfolding demo_serve(2) [OF assms(2-4)]
    using assms(1,5-9) p b sent by (simp add: serveOVPNControl_def Let_def demo_ovpn_parsed(2) samePeer_def set_ovpn_def)
qed

theorem vpn_reply_sizes_witness:
  "\<exists>s' l' out f r. udp_handle demo_server demo_reset (demo_reserved, newListener 3478 False False) = Some (s', l', out)
     \<and> serveOVPNControl demo_server demo_control (start_flow demo_control s' l') = Some f
     \<and> fl_sent f = [r] \<and> length (dg_b demo_control) = 17 \<and> length r = 31"
proof -
  obtain s' l' out ov where o: "udp_handle demo_server demo_reset (demo_reserved, newListener 3478 False False) = Some (s', l', out)"
    "deref (ul_ovHeap l') (ul_ovpn l') (replicate 8 3) = Some (0, ov)" "\<not> ul_dns l'" "ul_esp l' = []" "ul_l2tp l' = []"
    "ul_ovHeap l' = [0 \<mapsto> ov]" "ov_layout ov = Plain" "ov_ctlIn ov = 0" "vf_in (ov_flow ov) = 0"
    "vf_peer (ov_flow ov) = dg_peer demo_control" "live (dg_now demo_control) (ov_flow ov)" by (rule demo_opened_ovpn)
  obtain f where f: "serveOVPNControl demo_server demo_control (start_flow demo_control s' l') = Some f" "fl_sent f \<noteq> []"
    using demo_control_step [OF o(2-5,7-11)] by blast
  obtain msg natt where n: "StripNATT (dg_b demo_control) = (msg, natt)" by fastforce
  have rnd: "list_all (\<lambda>n. length (dg_rnd demo_control 0 n) = n) [0..<length (dg_b demo_control) + 33]"
    by (simp add: demo_control_def demo_dgram_def list_all_iff)
  note T = vpn_reply_sizes [OF udp_reach.datagram [OF udp_reach.start dgram_ok_demo(1) o(1)] rnd n]
  have "map length (fl_sent f) = [31]"
    using T f o(6,7) by (auto simp: demo_control_bytes Plain_def split: if_splits)
  then show ?thesis using o(1) f(1) by (auto simp: demo_control_bytes)
qed


end
