(* ===== verification/Udp_Sessions.thy ===== *)
theory Udp_Sessions
  imports Udp_Safety
begin

text \<open>
  The demultiplexer, the WireGuard handshake and the client's side of it put together: what a
  probe that plays by the rules gets from the server, from the first packet to the echo of its
  data.
\<close>

lemma envelope_first: "is_envelope b \<Longrightarrow> b ! 0 = 67"
  by (cases b) (auto simp: is_envelope_def has_prefix_def Magic_def)

lemma serve_wg:
  assumes "\<not> ul_dns l"
  shows "LooksLikeInitiation (dg_b d) \<Longrightarrow> serve sv d s l = serveWGInitiation sv d (start_flow d s l)"
    and "LooksLikeTransport (dg_b d) \<Longrightarrow> serve sv d s l = serveWGTransport sv d (start_flow d s l)"
proof -
  have off: "\<not> is_envelope b \<and> \<not> IsBindingRequest b \<and> \<not> IsHandshake b" if "b ! 0 = 1 \<or> b ! 0 = 4" for b
    using that envelope_first [of b] stun_first [of b] by (auto simp: IsHandshake_def)
  show "serve sv d s l = serveWGInitiation sv d (start_flow d s l)" if "LooksLikeInitiation (dg_b d)"
    using that assms off [of "dg_b d"]
    by (simp add: serve_def protocol_def udpDispatch_def by_shape_def matchDNS_def LooksLikeInitiation_def)
  show "serve sv d s l = serveWGTransport sv d (start_flow d s l)" if "LooksLikeTransport (dg_b d)"
    using that assms off [of "dg_b d"]
    by (simp add: serve_def protocol_def udpDispatch_def by_shape_def matchDNS_def LooksLikeInitiation_def LooksLikeTransport_def)
qed

lemma peek_reserved:
  assumes "list_ex (res_matches (Unmap ip) tr port kind now) (reservations s)" "list_all (\<lambda>r. res_test r \<noteq> '''') (reservations s)"
  shows "fst (peekReservation s ip tr port kind now) \<noteq> ''''"
proof (cases rule: findReservation_cases [of s ip tr port kind now False])
  case none
  then show ?thesis using assms(1) by (auto simp: list_ex_iff)
next
  case (some i r)
  then have "r \<in> set (reservations s)" by auto
  with some assms(2) show ?thesis by (auto simp: peekReservation_def list_all_iff split: prod.splits)
qed

lemma reply_ok: "dg_send d = None \<Longrightarrow> out \<noteq> [] \<Longrightarrow> fl_sent f = [] \<Longrightarrow> fl_sent (reply d out what f) = [out]"
  by (simp add: reply_def)

text \<open>The handshake: one reply, and a session for the sender's address with the keys of the response.\<close>

lemma wg_handshake_step:
  assumes "\<not> ul_dns l" "dg_send d = None" "LooksLikeInitiation (dg_b d)" "length (dg_rnd d 0 32) = 32" "lib_ok (sv_lib sv)"
    and "list_ex (res_matches (Unmap (dg_ip d)) ''udp'' (ul_port l) ParseWireGuard (dg_now d)) (reservations s)"
    and "list_all (\<lambda>r. res_test r \<noteq> '''') (reservations s)"
    and "list_ex (res_matches (Unmap (dg_ip d)) ''udp'' (ul_port l) ParseWireGuard (dg_now d)) (reservations (store_run s (dg_others d 0)))"
    and "ConsumeInitiation (sv_lib sv) (dg_b d) (sv_wg sv) = (Some info, None)"
    and "CreateResponse (sv_lib sv) info (replicate 32 0) (dg_rnd d 0 32) (dg_id32 d) = Some (resp, rs)"
  shows "\<exists>s' l' ws. udp_handle sv d (s, l) = Some (s', l', [resp]) \<and> map_of (ul_wg l') (rs_local rs) = Some ws
     \<and> ws_sess ws = rs \<and> vf_peer (ws_flow ws) = dg_peer d \<and> vf_in (ws_flow ws) = 0 \<and> vf_out (ws_flow ws) = 0
     \<and> vf_expires (ws_flow ws) = dg_now d + vpnSessionTTL \<and> \<not> ul_dns l'"
proof -
  define g where "g = obs_set ''peer_static'' (base64Std (ii_static info)) (obs_set ''mac1'' (boolStr (ii_mac1 info)) (others d 0 (obs_kind ParseWireGuard (start_flow d s l))))"
  have g: "fl_store g = store_run s (dg_others d 0)" "fl_lst g = l" "fl_sent g = []" by (simp_all add: g_def)
  obtain f ok where c: "correlate d ParseWireGuard g = (f, ok)" by fastforce
  have ok: "ok = True" using correlate_reserved [of d g ParseWireGuard] assms(8) g c by simp
  note cc = correlate_cases(1,2) [OF c, unfolded g]
  have "resp \<noteq> []" using response_shape [OF assms(5,4,10)] by blast
  define h where "h = reply d resp ''wireguard_response'' f"
  have h: "fl_sent h = [resp]" "fl_lst h = l"
    using reply_ok [OF assms(2) \<open>resp \<noteq> []\<close>] cc by (simp_all add: h_def)
  define l' where "l' = (gcVPN (dg_now d) l)\<lparr>ul_wg := AList.update (rs_local rs) \<lparr>ws_flow = vpn_flow d h, ws_sess = rs\<rparr> (ul_wg (gcVPN (dg_now d) l))\<rparr>"
  have "serve sv d s l = Some (h\<lparr>fl_lst := l'\<rparr>)"
    using peek_reserved [OF assms(6,7)] c
    unfolding serve_wg(1) [OF assms(1,3)] serveWGInitiation_def l'_def
    by (simp add: assms(9,10) Let_def g_def [symmetric] ok h_def [symmetric] h(2) cc)
  moreover have "\<not> ul_dns l'" using assms(1) by (simp add: l'_def gcVPN_def)
  moreover have "map_of (ul_wg l') (rs_local rs) = Some \<lparr>ws_flow = vpn_flow d h, ws_sess = rs\<rparr>"
    by (simp add: l'_def update_conv')
  ultimately show ?thesis
    using h(1) by (simp add: udp_handle_def vpn_flow_def)
qed

text \<open>The data phase: an authentic packet from the session's address is answered while the session
  lives and has not reached its cap.\<close>

lemma wg_transport_step:
  assumes "\<not> ul_dns l" "dg_send d = None" "LooksLikeTransport (dg_b d)"
    and "map_of (ul_wg l) (TransportReceiver (dg_b d)) = Some ws" "dg_now d \<le> vf_expires (ws_flow ws)"
    and "vf_peer (ws_flow ws) = dg_peer d" "vf_in (ws_flow ws) < vpnSessionMaxData"
    and "OpenTransport (sv_lib sv) (tk_recv (rs_keys (ws_sess ws))) (dg_b d) = (ctr, plain, None)"
  shows "\<exists>s' l'. udp_handle sv d (s, l) = Some (s', l',
           [SealTransport (sv_lib sv) (tk_send (rs_keys (ws_sess ws))) (rs_peer (ws_sess ws)) ctr plain])"
proof -
  define out where "out = SealTransport (sv_lib sv) (tk_send (rs_keys (ws_sess ws))) (rs_peer (ws_sess ws)) ctr plain"
  have "out \<noteq> []" by (simp add: out_def SealTransport_def)
  have "\<exists>f. serve sv d s l = Some f \<and> fl_sent f = [out]"
    unfolding serve_wg(2) [OF assms(1,3)] serveWGTransport_def
    using assms(4-8) by (simp add: Let_def live_def samePeer_def out_def [symmetric] reply_ok [OF assms(2) \<open>out \<noteq> []\<close>])
  then show ?thesis by (auto simp: udp_handle_def out_def)
qed

lemma pad16_idem: "pad16 (pad16 p) = pad16 p"
proof -
  have "length (pad16 p) mod 16 = 0" by (simp add: pad16_def mod_add_right_eq) presburger
  then show ?thesis by (simp add: pad16_def [of "pad16 p"])
qed

text \<open>C19. A WireGuard probe that plays by the rules gets through: a client with a reservation that sends
  the initiation it built for the server's key receives one datagram, which completes its handshake;
  and the first data packet it then seals and sends from the same address within the lifetime of the
  session is answered with one datagram that its own keys open to its payload (padded to a multiple
  of sixteen bytes) and its counter. The reservation is there when the server first looks and, whatever
  other goroutines do to the store in between, when it consumes it. Assumed of the libraries is their documented behaviour, of the
  network that both sends succeed, and that the server's key agreement does not hit a degenerate
  point.\<close>

theorem wireguard_probe_served:
  assumes lib: "lib_ok (sv_lib sv)" "wf_pair (sv_lib sv) static" "wf_pair (sv_lib sv) (sv_wg sv)" "length rnd = 32" "length (dg_rnd d 0 32) = 32"
    and init: "CreateInitiation (sv_lib sv) static (kp_pub (sv_wg sv)) rnd idx now = Some (st, dg_b d)"
    and agree: "\<forall>info. ConsumeInitiation (sv_lib sv) (dg_b d) (sv_wg sv) = (Some info, None) \<longrightarrow>
      CreateResponse (sv_lib sv) info (replicate 32 0) (dg_rnd d 0 32) (dg_id32 d) \<noteq> None"
    and srv: "\<not> ul_dns l" "dg_send d = None" "dg_send e = None"
    and res: "list_ex (res_matches (Unmap (dg_ip d)) ''udp'' (ul_port l) ParseWireGuard (dg_now d)) (reservations s)"
      "list_all (\<lambda>r. res_test r \<noteq> '''') (reservations s)"
      "list_ex (res_matches (Unmap (dg_ip d)) ''udp'' (ul_port l) ParseWireGuard (dg_now d)) (reservations (store_run s (dg_others d 0)))"
    and later: "dg_peer e = dg_peer d" "dg_now e \<le> dg_now d + vpnSessionTTL"
  shows "\<exists>s' l' resp st'. udp_handle sv d (s, l) = Some (s', l', [resp]) \<and> ConsumeResponse (sv_lib sv) st resp (replicate 32 0) = Inr st'
    \<and> (dg_b e = SealTransport (sv_lib sv) (tk_send (is_keys st')) (is_peer st') ctr plain \<longrightarrow>
         (\<exists>s'' l'' echo. udp_handle sv e (s', l') = Some (s'', l'', [echo])
            \<and> OpenTransport (sv_lib sv) (tk_recv (is_keys st')) echo = (ctr, pad16 plain, None)))"
proof -
  obtain info where i: "ConsumeInitiation (sv_lib sv) (dg_b d) (sv_wg sv) = (Some info, None)" "ii_sender info = is_sender st"
    "ii_static info = kp_pub static" "ii_hash info = is_hash st" "ii_chain info = is_chain st" "ii_eph info = kp_pub (is_eph st)"
    "is_static st = static" "wf_pair (sv_lib sv) (is_eph st)" "LooksLikeInitiation (dg_b d)"
    using initiation_accepted [OF lib(1-4) init] by blast
  obtain resp rs where r: "CreateResponse (sv_lib sv) info (replicate 32 0) (dg_rnd d 0 32) (dg_id32 d) = Some (resp, rs)"
    using agree i(1) by (cases "CreateResponse (sv_lib sv) info (replicate 32 0) (dg_rnd d 0 32) (dg_id32 d)") auto
  obtain st' where c: "ConsumeResponse (sv_lib sv) st resp (replicate 32 0) = Inr st'" "is_peer st' = rs_local rs"
    "tk_send (is_keys st') = tk_recv (rs_keys rs)" "tk_recv (is_keys st') = tk_send (rs_keys rs)"
    using response_accepted [OF lib(1) _ i(8) lib(5) i(2) _ i(4-6) r] lib(2) i(3,7) by metis
  have k: "length (tk_recv (rs_keys rs)) = 32" "length (tk_send (rs_keys rs)) = 32"
    using response_shape [OF lib(1,5) r] kdf2_keys [OF lib(1)] by metis+
  obtain s' l' ws where h: "udp_handle sv d (s, l) = Some (s', l', [resp])" "map_of (ul_wg l') (rs_local rs) = Some ws" "ws_sess ws = rs"
    "vf_peer (ws_flow ws) = dg_peer d" "vf_in (ws_flow ws) = 0" "vf_expires (ws_flow ws) = dg_now d + vpnSessionTTL" "\<not> ul_dns l'"
    using wg_handshake_step [OF srv(1,2) i(9) lib(5,1) res i(1) r] by blast
  have "\<exists>s'' l'' echo. udp_handle sv e (s', l') = Some (s'', l'', [echo])
      \<and> OpenTransport (sv_lib sv) (tk_recv (is_keys st')) echo = (ctr, pad16 plain, None)"
    if b: "dg_b e = SealTransport (sv_lib sv) (tk_send (is_keys st')) (is_peer st') ctr plain"
  proof -
    note t = transport_opened [OF lib(1) k(1), of "rs_local rs" ctr plain, folded c(2,3), folded b]
    obtain s'' l'' where "udp_handle sv e (s', l') = Some (s'', l'', [SealTransport (sv_lib sv) (tk_send (rs_keys rs)) (rs_peer rs) ctr (pad16 plain)])"
      using wg_transport_step [OF h(7) srv(3) t(2), of ws sv ctr "pad16 plain" s'] t(1,3) h c later by auto
    then show ?thesis using transport_opened(3) [OF lib(1) k(2), of "rs_peer rs" ctr "pad16 plain"] c(4) by (auto simp: pad16_idem)
  qed
  with h(1) c(1) show ?thesis by blast
qed

lemma demo_response:
  assumes "length (ii_eph info) = 32" "length (ii_static info) = 32"
  shows "CreateResponse demo_lib info (replicate 32 0) (replicate 32 4) i \<noteq> None"
  using assms
  by (simp add: CreateResponse_def demo_lib_def NewKeyPair_def KeyPairFromPrivate_def clamp_def Let_def split: prod.splits)

theorem wireguard_probe_served_witness:
  "\<exists>st msg s' l' resp st'. CreateInitiation demo_lib \<lparr>kp_priv = replicate 32 3, kp_pub = replicate 32 3\<rparr> (replicate 32 5) (replicate 32 9) 7 0
       = Some (st, msg)
     \<and> udp_handle demo_server (demo_dgram\<lparr>dg_b := msg\<rparr>) (demo_reserved, newListener 3478 False False) = Some (s', l', [resp])
     \<and> ConsumeResponse demo_lib st resp (replicate 32 0) = Inr st'"
proof -
  let ?s = "\<lparr>kp_priv = replicate 32 3, kp_pub = replicate 32 3\<rparr>" and ?l = "newListener 3478 False False"
  have srv: "sv_lib demo_server = demo_lib" "kp_pub (sv_wg demo_server) = replicate 32 5"
    "wf_pair demo_lib (sv_wg demo_server)" "wf_pair demo_lib ?s"
    using demo_pair [of "replicate 32 5"] demo_pair [of "replicate 32 3"] by (simp_all add: demo_server_def)
  have "CreateInitiation demo_lib ?s (replicate 32 5) (replicate 32 9) 7 0 \<noteq> None"
    by (simp add: CreateInitiation_def demo_lib_def NewKeyPair_def KeyPairFromPrivate_def clamp_def Let_def split: prod.splits)
  then obtain st msg where init: "CreateInitiation demo_lib ?s (replicate 32 5) (replicate 32 9) 7 0 = Some (st, msg)" by auto
  define d where "d = demo_dgram\<lparr>dg_b := msg\<rparr>"
  have d: "dg_b d = msg" "dg_rnd d 0 32 = replicate 32 4" "dg_send d = None" "dg_ip d = Addr4 7" "dg_now d = 5"
    by (simp_all add: d_def demo_dgram_def)
  obtain info where i: "ConsumeInitiation demo_lib msg (sv_wg demo_server) = (Some info, None)" "ii_static info = kp_pub ?s"
      "ii_eph info = kp_pub (is_eph st)" "wf_pair demo_lib (is_eph st)"
    using initiation_accepted [OF demo_lib_ok srv(4,3), of "replicate 32 9" 7 0 st msg] init srv(2) by (metis length_replicate)
  have agree: "\<forall>info. ConsumeInitiation (sv_lib demo_server) (dg_b d) (sv_wg demo_server) = (Some info, None) \<longrightarrow>
      CreateResponse (sv_lib demo_server) info (replicate 32 0) (dg_rnd d 0 32) (dg_id32 d) \<noteq> None"
    using i demo_response length_pub [OF demo_lib_ok i(4)] by (simp add: srv d)
  have "list_ex (res_matches (Unmap (dg_ip d)) ''udp'' 3478 ParseWireGuard (dg_now d)) (reservations demo_reserved)"
    "list_all (\<lambda>r. res_test r \<noteq> '''') (reservations demo_reserved)"
    "list_ex (res_matches (Unmap (dg_ip d)) ''udp'' 3478 ParseWireGuard (dg_now d)) (reservations (store_run demo_reserved (dg_others d 0)))"
    by (simp_all add: d demo_reserved_def res_matches_def Unmap_def newStore_def gc_def d_def demo_dgram_def)
  then have "\<exists>s' l' resp st'. udp_handle demo_server d (demo_reserved, ?l) = Some (s', l', [resp])
      \<and> ConsumeResponse demo_lib st resp (replicate 32 0) = Inr st'"
    using wireguard_probe_served [of demo_server ?s "replicate 32 9" d 7 0 st ?l d demo_reserved 0 "[]"]
      demo_lib_ok srv init agree by (fastforce simp: d newListener_fields)
  with init show ?thesis unfolding d_def by blast
qed

end
