(* ===== verification/Netip.thy ===== *)
theory Netip
  imports Token "HOL-Library.Monad_Syntax"
begin

text \<open>
  What the program uses of Go's \<open>net/netip\<close> beyond the address type of \<open>Token\<close>: reading and writing
  addresses as text and the predicates on address ranges. The reader and the writer follow the
  standard library; an address as text is read back as the same address (shown for IPv4, the form
  the catalog of destinations uses).
\<close>

unbundle bit_operations_syntax

section \<open>Reading\<close>

text \<open>One decimal field of a dotted address: digits only, no leading zero, at most 255.\<close>

definition octet :: "string \<Rightarrow> byte option" where
  "octet s = (if s = '''' \<or> \<not> list_all is_digit s \<or> (length s > 1 \<and> s ! 0 = CHR ''0'') \<or> digits_val s > 255
              then None else Some (word_of_nat (digits_val s)))"

definition parse_v4_fields :: "string \<Rightarrow> bytes option" where
  "parse_v4_fields s = (let ps = map octet (split_on (CHR ''.'') s)
     in if length ps = 4 \<and> list_all (\<lambda>p. p \<noteq> None) ps then Some (map the ps) else None)"

lemma length_dropWhile_less: "x \<in> set s \<Longrightarrow> 0 < n \<Longrightarrow> length (dropWhile P s) - n < length s"
  using length_dropWhile_le [of P s] by (cases s) auto

text \<open>The groups of an IPv6 address after an optional leading ellipsis: the bytes so far and the
  position of the ellipsis.\<close>

function v6_groups :: "string \<Rightarrow> bytes \<Rightarrow> nat option \<Rightarrow> (bytes \<times> nat option) option" where
  "v6_groups s ip ell =
     (if length ip \<ge> 16 then (if s = [] then Some (ip, ell) else None)
      else let ds = takeWhile (\<lambda>c. hex_val c \<noteq> None) s; rest = dropWhile (\<lambda>c. hex_val c \<noteq> None) s
           in if ds = [] \<or> length ds > 4 then None
              else if rest \<noteq> [] \<and> hd rest = CHR ''.''
              then (if (ell = None \<and> length ip \<noteq> 12) \<or> length ip + 4 > 16 then None
                    else map_option (\<lambda>v4. (ip @ v4, ell)) (parse_v4_fields s))
              else let ip' = ip @ be16 (word_of_nat (foldl (\<lambda>acc c. acc * 16 + the (hex_val c)) 0 ds))
                   in if rest = [] then Some (ip', ell)
                      else if hd rest \<noteq> CHR '':'' \<or> length rest = 1 then None
                      else if hd (tl rest) = CHR '':''
                      then (if ell \<noteq> None then None
                            else if tl (tl rest) = [] then Some (ip', Some (length ip'))
                            else v6_groups (tl (tl rest)) ip' (Some (length ip')))
                      else v6_groups (tl rest) ip' ell)"
  by pat_completeness auto
termination
  by (relation "measure (\<lambda>(s, _, _). length s)") (auto intro: length_dropWhile_less)

declare v6_groups.simps [simp del]

definition v6_expand :: "bytes \<times> nat option \<Rightarrow> bytes option" where
  "v6_expand g =
     (case g of (ip, ell) \<Rightarrow>
        if length ip < 16
        then map_option (\<lambda>e. take e ip @ replicate (16 - length ip) 0 @ drop e ip) ell
        else if ell \<noteq> None then None else Some ip)"

definition parse_v6 :: "string \<Rightarrow> addr option" where
  "parse_v6 t =
     (case str_cut (CHR ''%'') t of (s, zone, found) \<Rightarrow>
        if found \<and> zone = '''' then None
        else if has_prefix s ''::''
        then (if length s = 2 then Some (Addr6 0 zone)
              else map_option (\<lambda>b. Addr6 (word_of_nat (be_nat b)) zone) (v6_groups (drop 2 s) [] (Some 0) \<bind> v6_expand))
        else map_option (\<lambda>b. Addr6 (word_of_nat (be_nat b)) zone) (v6_groups s [] None \<bind> v6_expand))"

definition ParseAddr :: "string \<Rightarrow> addr option" where
  "ParseAddr s =
     (case List.find (\<lambda>c. c = CHR ''.'' \<or> c = CHR '':'' \<or> c = CHR ''%'') s of
        None \<Rightarrow> None
      | Some c \<Rightarrow>
          if c = CHR ''.'' then map_option (\<lambda>b. Addr4 (word_of_nat (be_nat b))) (parse_v4_fields s)
          else if c = CHR '':'' then parse_v6 s else None)"

section \<open>Writing\<close>

definition v4_string :: "32 word \<Rightarrow> string" where
  "v4_string w = join_with ''.'' (map (\<lambda>b. utoa (unat b)) (be32 w))"

definition v6_group :: "128 word \<Rightarrow> nat \<Rightarrow> nat" where
  "v6_group w i = unat w div 2 ^ (16 * (7 - i)) mod 65536"

fun hex_text :: "nat \<Rightarrow> string" where
  "hex_text n = (if n < 16 then [hex_digit n] else hex_text (n div 16) @ [hex_digit (n mod 16)])"

text \<open>The first longest run of at least two zero groups.\<close>

definition zero_run :: "128 word \<Rightarrow> (nat \<times> nat) option" where
  "zero_run w =
     foldl (\<lambda>best i. let l = length (takeWhile (\<lambda>j. v6_group w j = 0) [i..<8])
              in if l \<ge> 2 \<and> (case best of None \<Rightarrow> True | Some (a, b) \<Rightarrow> l > b - a) then Some (i, i + l) else best)
       None [0..<8]"

definition v6_string :: "128 word \<Rightarrow> string" where
  "v6_string w =
     (let g = (\<lambda>is. join_with '':'' (map (\<lambda>i. hex_text (v6_group w i)) is))
      in case zero_run w of None \<Rightarrow> g [0..<8] | Some (a, b) \<Rightarrow> g [0..<a] @ ''::'' @ g [b..<8])"

definition addr_string :: "addr \<Rightarrow> string" where
  "addr_string a =
     (case a of
        AddrZero \<Rightarrow> ''invalid IP''
      | Addr4 w \<Rightarrow> v4_string w
      | Addr6 w z \<Rightarrow> (if Is4In6 a then ''::ffff:'' @ v4_string (ucast w) else v6_string w)
                     @ (if z = '''' then '''' else ''%'' @ z))"

section \<open>Ranges\<close>

definition oct :: "32 word \<Rightarrow> nat \<Rightarrow> nat" where
  "oct w i = unat (be32 w ! i)"

definition IsLoopback :: "addr \<Rightarrow> bool" where
  "IsLoopback a = (case Unmap a of AddrZero \<Rightarrow> False | Addr4 w \<Rightarrow> oct w 0 = 127 | Addr6 w _ \<Rightarrow> w = 1)"

definition IsMulticast :: "addr \<Rightarrow> bool" where
  "IsMulticast a = (case Unmap a of AddrZero \<Rightarrow> False | Addr4 w \<Rightarrow> oct w 0 div 16 = 14 | Addr6 w _ \<Rightarrow> v6_group w 0 div 256 = 255)"

definition IsLinkLocalUnicast :: "addr \<Rightarrow> bool" where
  "IsLinkLocalUnicast a =
     (case Unmap a of AddrZero \<Rightarrow> False | Addr4 w \<Rightarrow> oct w 0 = 169 \<and> oct w 1 = 254 | Addr6 w _ \<Rightarrow> v6_group w 0 div 64 = 1018)"

definition IsPrivate :: "addr \<Rightarrow> bool" where
  "IsPrivate a =
     (case Unmap a of
        AddrZero \<Rightarrow> False
      | Addr4 w \<Rightarrow> oct w 0 = 10 \<or> (oct w 0 = 172 \<and> oct w 1 div 16 = 1) \<or> (oct w 0 = 192 \<and> oct w 1 = 168)
      | Addr6 w _ \<Rightarrow> v6_group w 0 div 512 = 126)"

definition IsGlobalUnicast :: "addr \<Rightarrow> bool" where
  "IsGlobalUnicast a \<longleftrightarrow>
     \<not> (case Unmap a of AddrZero \<Rightarrow> True | Addr4 w \<Rightarrow> w = 0 \<or> w = - 1 | Addr6 w z \<Rightarrow> w = 0 \<and> z = '''')
     \<and> \<not> IsLoopback a \<and> \<not> IsMulticast a \<and> \<not> IsLinkLocalUnicast a"

section \<open>Reading what was written\<close>

lemma octet_utoa: "octet (utoa (unat (b :: byte))) = Some b"
proof -
  have "\<not> (length (utoa n) > 1 \<and> utoa n ! 0 = CHR ''0'')" for n
  proof (induction n rule: utoa.induct)
    case (1 n)
    show ?case
    proof (cases "n < 10")
      case True
      then show ?thesis by (subst (1 2) utoa.simps) simp
    next
      case False
      have "utoa (n div 10) ! 0 \<noteq> CHR ''0''"
      proof (cases "n div 10 < 10")
        case True
        then have "utoa (n div 10) = [digit_char (n div 10)]" by (subst utoa.simps) simp
        moreover have "digit_char (n div 10) \<noteq> CHR ''0''"
          using True False of_char_digit_char [of "n div 10"] by auto
        ultimately show ?thesis by simp
      next
        case ge: False
        then have "length (utoa (n div 10)) > 1"
          by (subst utoa.simps) (auto simp: length_greater_0_conv [symmetric] simp del: length_greater_0_conv intro: utoa_nonempty)
        with 1 False show ?thesis by simp
      qed
      moreover have "utoa n ! 0 = utoa (n div 10) ! 0"
        using False by (subst utoa.simps) (simp add: nth_append)
      ultimately show ?thesis by simp
    qed
  qed
  then show ?thesis
    using unat_byte_less [of b] by (auto simp: octet_def utoa_digits digits_val_utoa)
qed

lemma be32_four:
  obtains a b c d where "be32 w = [a, b, c, d]"
proof -
  have "length (be32 w) = Suc (Suc (Suc (Suc 0)))" by simp
  then show thesis using that unfolding length_Suc_conv by auto
qed

lemma find_dot: "\<forall>c \<in> set s. \<not> P c \<Longrightarrow> P d \<Longrightarrow> List.find P (s @ d # r) = Some d"
  by (induction s) auto

lemma v4_string_read: "parse_v4_fields (v4_string w) = Some (be32 w)"
proof -
  have nd: "CHR ''.'' \<notin> set (utoa n)" for n
    using utoa_digits [of n] by (auto simp: list_all_iff is_digit_def)
  obtain a b c d where w: "be32 w = [a, b, c, d]" by (rule be32_four)
  have "split_on (CHR ''.'') (v4_string w) = map (\<lambda>b. utoa (unat b)) (be32 w)"
    unfolding v4_string_def by (rule split_on_join) (auto simp: nd w)
  then show ?thesis by (simp add: parse_v4_fields_def w octet_utoa)
qed

lemma ParseAddr_v4: "ParseAddr (addr_string (Addr4 w)) = Some (Addr4 w)"
proof -
  let ?P = "\<lambda>c. c = CHR ''.'' \<or> c = CHR '':'' \<or> c = CHR ''%''"
  obtain a b c d where w: "be32 w = [a, b, c, d]" by (rule be32_four)
  have nd: "List.find ?P (utoa n @ CHR ''.'' # r) = Some (CHR ''.'')" for n r
    using utoa_digits [of n] by (intro find_dot) (auto simp: list_all_iff is_digit_def)
  have "v4_string w = utoa (unat a) @ CHR ''.'' # (utoa (unat b) @ ''.'' @ utoa (unat c) @ ''.'' @ utoa (unat d))"
    by (simp add: v4_string_def w)
  then have "List.find ?P (v4_string w) = Some (CHR ''.'')" using nd by metis
  moreover have "unat w mod 4294967296 = unat w"
    using unsigned_less [where ?'a = nat, of w] by simp
  ultimately show ?thesis
    by (simp add: ParseAddr_def addr_string_def v4_string_read be32_def be_nat_be_bytes)
qed

end
