(* ===== verification/Dest.thy ===== *)
theory Dest
  imports Netip Dnsx "HOL-Library.List_Lexorder" "HOL-Library.Char_ord"
begin

text \<open>
  The real destinations the client visits without the probe server (\<open>internal/dest\<close>): the catalog and
  the parser of target lists, the address heuristics, the comparison of the system resolver with
  the trusted ones, the consensus of the trusted resolvers (\<open>doh.go\<close>) and the opening exchange of
  the WhatsApp gateway (\<open>whatsapp.go\<close>). The HTTP exchanges of \<open>doh.go\<close> are arguments: what an endpoint
  answered or how it failed.
\<close>

unbundle bit_operations_syntax

section \<open>Targets\<close>

definition CategoryControl :: string where "CategoryControl = ''control''"
definition CategoryCustom :: string where "CategoryCustom = ''custom''"

definition Categories :: "string list" where
  "Categories = [CategoryControl, ''dpi'', ''social'', ''messenger'', ''store'', ''vcs'', ''streaming'', ''gaming'', ''dev'', ''news'',
     ''ai'', CategoryCustom]"

record target =
  tg_domain :: string
  tg_category :: string
  tg_label :: string
  tg_dnsname :: string
  tg_fixed :: "string list"
  tg_skipdns :: bool
  tg_skiptls :: bool
  tg_http :: bool
  tg_sni :: string
  tg_proto :: string

definition QueryName_of :: "target \<Rightarrow> string" where
  "QueryName_of t = (if tg_dnsname t \<noteq> '''' then tg_dnsname t else tg_domain t)"

definition ServerName :: "target \<Rightarrow> string" where
  "ServerName t = (if tg_sni t \<noteq> '''' then tg_sni t else tg_domain t)"

definition is_space :: "char \<Rightarrow> bool" where
  "is_space c = (let n = of_char c :: nat in n = 32 \<or> (9 \<le> n \<and> n \<le> 13))"

definition TrimSpace :: "string \<Rightarrow> string" where
  "TrimSpace s = rev (dropWhile is_space (rev (dropWhile is_space s)))"

definition Fixed :: "target \<Rightarrow> addr list" where
  "Fixed t = map Unmap (List.map_filter (\<lambda>s. ParseAddr (TrimSpace s)) (tg_fixed t))"

definition site :: "string \<Rightarrow> string \<Rightarrow> string \<Rightarrow> target" where
  "site domain cat lab = \<lparr>tg_domain = domain, tg_category = cat, tg_label = lab, tg_dnsname = '''', tg_fixed = [], tg_skipdns = False,
     tg_skiptls = False, tg_http = False, tg_sni = '''', tg_proto = ''''\<rparr>"

definition ProtoWhatsApp :: string where "ProtoWhatsApp = ''whatsapp''"
definition Protos :: "string list" where "Protos = [ProtoWhatsApp]"

definition TelegramDCIPs :: "string list" where
  "TelegramDCIPs = [''149.154.167.50'', ''149.154.167.51'', ''149.154.167.91'', ''149.154.167.99'']"

definition Default :: "target list" where
  "Default =
     [site ''wikipedia.org'' CategoryControl ''Control'',
      site ''example.com'' CategoryControl ''Control'',
      site ''youtube.com'' ''dpi'' ''YouTube'',
      site ''instagram.com'' ''social'' ''Instagram'',
      site ''facebook.com'' ''social'' ''Facebook'',
      site ''x.com'' ''social'' ''X'',
      site ''www.linkedin.com'' ''social'' ''LinkedIn'',
      site ''tiktok.com'' ''social'' ''TikTok'',
      site ''telegram.org'' ''messenger'' ''Telegram web'',
      (site ''telegram-dc'' ''messenger'' ''Telegram DC'')\<lparr>tg_skipdns := True, tg_skiptls := True, tg_fixed := TelegramDCIPs,
        tg_sni := ''telegram.org''\<rparr>,
      site ''whatsapp.com'' ''messenger'' ''WhatsApp'',
      (site ''g.whatsapp.net'' ''messenger'' ''WhatsApp backend'')\<lparr>tg_proto := ProtoWhatsApp\<rparr>,
      site ''discord.com'' ''messenger'' ''Discord'',
      site ''gateway.discord.gg'' ''messenger'' ''Discord gateway'',
      site ''apps.apple.com'' ''store'' ''App Store'',
      site ''play.google.com'' ''store'' ''Google Play'',
      site ''zoom.us'' ''vcs'' ''Zoom'',
      site ''meet.google.com'' ''vcs'' ''Google Meet'',
      site ''teams.microsoft.com'' ''vcs'' ''Microsoft Teams'',
      site ''netflix.com'' ''streaming'' ''Netflix'',
      site ''twitch.tv'' ''streaming'' ''Twitch'',
      site ''spotify.com'' ''streaming'' ''Spotify'',
      site ''steamcommunity.com'' ''gaming'' ''Steam'',
      site ''github.com'' ''dev'' ''GitHub'',
      site ''meduza.io'' ''news'' ''Meduza'',
      site ''bbc.com'' ''news'' ''BBC'',
      site ''dw.com'' ''news'' ''DW'',
      site ''svoboda.org'' ''news'' ''RFE/RL'',
      (site ''chatgpt.com'' ''ai'' ''ChatGPT'')\<lparr>tg_http := True\<rparr>,
      (site ''claude.ai'' ''ai'' ''Claude'')\<lparr>tg_http := True\<rparr>,
      (site ''gemini.google.com'' ''ai'' ''Gemini'')\<lparr>tg_http := True\<rparr>,
      (site ''openai.com'' ''ai'' ''OpenAI'')\<lparr>tg_http := True\<rparr>]"

section \<open>The target list parser\<close>

text \<open>Errors with the line they are reported for.\<close>

datatype dest_error =
    NoDomain nat string
  | DuplicateTarget nat string
  | BadIP nat string
  | UnknownProto nat string
  | UnknownOption nat string
  | UnknownFlag nat string
  | NoDnsNeedsIP nat
  | ScanError string
  | NoTargets

definition knownCategory :: "string \<Rightarrow> bool" where
  "knownCategory c = (c \<in> set Categories)"

definition knownProto :: "string \<Rightarrow> bool" where
  "knownProto p = (p \<in> set Protos)"

fun split_fields_from :: "string \<Rightarrow> string \<Rightarrow> bool \<Rightarrow> bool \<Rightarrow> string list" where
  "split_fields_from [] cur inQuote has = (if has then [cur] else [])"
| "split_fields_from (r # rs) cur inQuote has =
     (if r = CHR 0x22 then split_fields_from rs cur (\<not> inQuote) True
      else if \<not> inQuote \<and> (r = CHR '' '' \<or> r = CHR 0x09)
      then (if has then cur # split_fields_from rs [] inQuote False else split_fields_from rs cur inQuote has)
      else split_fields_from rs (cur @ [r]) inQuote True)"

definition splitFields :: "string \<Rightarrow> string list" where
  "splitFields l = split_fields_from l [] False False"

fun parse_ips :: "nat \<Rightarrow> string list \<Rightarrow> string list \<Rightarrow> dest_error + string list" where
  "parse_ips line [] acc = Inr acc"
| "parse_ips line (s # ss) acc = (if ParseAddr s = None then Inl (BadIP line s) else parse_ips line ss (acc @ [s]))"

definition parse_option :: "nat \<Rightarrow> string \<Rightarrow> target \<Rightarrow> dest_error + target" where
  "parse_option line f t =
     (case str_cut (CHR ''='') f of (k, v, hasValue) \<Rightarrow>
        if k = ''category''
        then Inr (t\<lparr>tg_category := (if knownCategory (ToLower v) then ToLower v else CategoryCustom)\<rparr>)
        else if k = ''label'' then Inr (t\<lparr>tg_label := v\<rparr>)
        else if k = ''ip''
        then (case parse_ips line (split_on (CHR '','') v) (tg_fixed t) of Inl e \<Rightarrow> Inl e | Inr ips \<Rightarrow> Inr (t\<lparr>tg_fixed := ips\<rparr>))
        else if k = ''sni'' then Inr (t\<lparr>tg_sni := v\<rparr>)
        else if k = ''dns'' then Inr (t\<lparr>tg_dnsname := v\<rparr>)
        else if k = ''tcp-only'' then Inr (t\<lparr>tg_skiptls := True\<rparr>)
        else if k = ''no-dns'' then Inr (t\<lparr>tg_skipdns := True\<rparr>)
        else if k = ''http'' then Inr (t\<lparr>tg_http := True\<rparr>)
        else if k = ''proto'' then (if knownProto v then Inr (t\<lparr>tg_proto := v\<rparr>) else Inl (UnknownProto line v))
        else if hasValue then Inl (UnknownOption line k)
        else Inl (UnknownFlag line f))"

fun parse_options :: "nat \<Rightarrow> string list \<Rightarrow> target \<Rightarrow> dest_error + target" where
  "parse_options line [] t = Inr t"
| "parse_options line (f # fs) t = (case parse_option line f t of Inl e \<Rightarrow> Inl e | Inr t' \<Rightarrow> parse_options line fs t')"

definition strip_comment :: "string \<Rightarrow> string" where
  "strip_comment raw = (let l = TrimSpace raw in if CHR ''#'' \<in> set l then TrimSpace (takeWhile (\<lambda>c. c \<noteq> CHR ''#'') l) else l)"

text \<open>The loop over the lines; \<open>fields[0]\<close> of a non-blank line exists, which \<open>None\<close> would deny.\<close>

fun parse_lines :: "nat \<Rightarrow> string list \<Rightarrow> target list \<Rightarrow> (dest_error + target list) option" where
  "parse_lines n [] out = Some (Inr out)"
| "parse_lines n (raw # rest) out =
     (let line = n + 1; l = strip_comment raw
      in if l = '''' then parse_lines line rest out
         else case splitFields l of
                [] \<Rightarrow> None
              | f0 # fs \<Rightarrow>
                  (let domain = ToLower f0
                   in if domain = '''' \<or> list_ex (\<lambda>c. c \<in> set ''=/ '') domain then Some (Inl (NoDomain line f0))
                      else if domain \<in> tg_domain ` set out then Some (Inl (DuplicateTarget line domain))
                      else case parse_options line fs (site domain CategoryCustom '''') of
                             Inl e \<Rightarrow> Some (Inl e)
                           | Inr t \<Rightarrow>
                               if tg_skipdns t \<and> tg_fixed t = [] then Some (Inl (NoDnsNeedsIP line))
                               else parse_lines line rest (out @ [t])))"

text \<open>\<open>Parse\<close> on the lines the scanner yields and the error it ends with, if any.\<close>

definition dest_Parse :: "string list \<Rightarrow> string option \<Rightarrow> (dest_error + target list) option" where
  "dest_Parse ls err =
     (case parse_lines 0 ls [] of
        None \<Rightarrow> None
      | Some (Inl e) \<Rightarrow> Some (Inl e)
      | Some (Inr out) \<Rightarrow>
          Some (case err of Some e \<Rightarrow> Inl (ScanError e) | None \<Rightarrow> if out = [] then Inl NoTargets else Inr out))"

section \<open>Addresses\<close>

record resolver =
  rv_name :: string
  rv_urls :: "string list"
  rv_json :: string

definition TrustedResolvers :: "resolver list" where
  "TrustedResolvers =
     [\<lparr>rv_name = ''cloudflare'', rv_urls = [''https://cloudflare-dns.com/dns-query'', ''https://1.1.1.1/dns-query''],
       rv_json = ''https://cloudflare-dns.com/dns-query''\<rparr>,
      \<lparr>rv_name = ''google'', rv_urls = [''https://dns.google/dns-query'', ''https://8.8.8.8/dns-query''], rv_json = ''https://dns.google/resolve''\<rparr>,
      \<lparr>rv_name = ''quad9'', rv_urls = [''https://dns.quad9.net/dns-query'', ''https://9.9.9.9/dns-query''], rv_json = ''''\<rparr>]"

definition ControlAddrs :: "string list" where
  "ControlAddrs = [''1.1.1.1'', ''1.0.0.1'', ''9.9.9.9'']"

definition DecoyNames :: "string list" where
  "DecoyNames = [''www.microsoft.com'', ''www.apple.com'', ''www.cloudflare.com'', ''example.com'', ''www.wikipedia.org'']"

definition IsBogon :: "addr \<Rightarrow> bool" where
  "IsBogon a =
     (let ip = Unmap a
      in if ip = AddrZero \<or> \<not> IsGlobalUnicast ip \<or> IsPrivate ip then True
         else case ip of
                Addr4 w \<Rightarrow>
                  (let b = oct w
                   in b 0 = 0 \<or> b 0 = 127 \<or> b 0 = 255 \<or> (b 0 = 100 \<and> 64 \<le> b 1 \<and> b 1 \<le> 127) \<or> (b 0 = 169 \<and> b 1 = 254)
                      \<or> (b 0 = 192 \<and> b 1 = 0 \<and> b 2 = 2) \<or> (b 0 = 198 \<and> b 1 = 51 \<and> b 2 = 100) \<or> (b 0 = 203 \<and> b 1 = 0 \<and> b 2 = 113))
              | _ \<Rightarrow> False)"

fun unique_from :: "addr list \<Rightarrow> addr list \<Rightarrow> addr list" where
  "unique_from [] out = out"
| "unique_from (a # as) out =
     (let ip = Unmap a in if ip = AddrZero \<or> ip \<in> set out then unique_from as out else unique_from as (out @ [ip]))"

definition Unique :: "addr list \<Rightarrow> addr list" where
  "Unique ips = unique_from ips []"

definition Prioritize :: "addr list \<Rightarrow> addr list" where
  "Prioritize ips =
     (let good = List.filter (\<lambda>a. \<not> IsBogon a) (Unique ips) in List.filter Is4 good @ List.filter (\<lambda>a. \<not> Is4 a) good)"

definition dest_Strings :: "addr list \<Rightarrow> string" where
  "dest_Strings ips = join_with '','' (map addr_string ips)"

record systemResult =
  sy_ips :: "addr list"
  sy_rcode :: string
  sy_err :: string

record consensus =
  co_ips :: "addr list"
  co_rcode :: string
  co_note :: string

record comparison =
  cm_tampered :: bool
  cm_reason :: string
  cm_disagree :: bool
  cm_note :: string

definition families :: "addr list \<Rightarrow> bool \<times> bool" where
  "families ips = (list_ex (\<lambda>a. \<not> IsBogon a \<and> Is4 (Unmap a)) ips, list_ex (\<lambda>a. \<not> IsBogon a \<and> \<not> Is4 (Unmap a)) ips)"

definition sharesFamily :: "addr list \<Rightarrow> addr list \<Rightarrow> bool" where
  "sharesFamily a b \<longleftrightarrow> (fst (families a) \<and> fst (families b)) \<or> (snd (families a) \<and> snd (families b))"

definition dest_intersects :: "addr list \<Rightarrow> addr list \<Rightarrow> bool" where
  "dest_intersects a b = list_ex (\<lambda>x. Unmap x \<in> Unmap ` set b) a"

definition noted :: "string \<Rightarrow> comparison" where
  "noted n = \<lparr>cm_tampered = False, cm_reason = '''', cm_disagree = False, cm_note = n\<rparr>"

definition tampered :: "string \<Rightarrow> string \<Rightarrow> comparison" where
  "tampered r n = \<lparr>cm_tampered = True, cm_reason = r, cm_disagree = False, cm_note = n\<rparr>"

definition Compare :: "systemResult \<Rightarrow> consensus \<Rightarrow> comparison" where
  "Compare sys trusted =
     (let sysBogons = length (List.filter IsBogon (sy_ips sys));
          sysPublic = length (List.filter (\<lambda>a. \<not> IsBogon a) (sy_ips sys));
          trustedPublic = length (List.filter (\<lambda>a. \<not> IsBogon a) (co_ips trusted))
      in if co_rcode trusted = ''ERROR'' \<and> co_ips trusted = []
         then noted ''every trusted resolver failed: tampering cannot be assessed''
         else if sy_rcode sys = ''TIMEOUT'' then noted ''system resolver timed out''
         else if co_rcode trusted = ''NXDOMAIN'' \<and> sy_ips sys = [] then noted ''NXDOMAIN on both sides''
         else if co_rcode trusted = ''OTHER'' \<and> co_ips trusted = []
         then noted ''the trusted resolvers returned SERVFAIL/REFUSED: tampering cannot be assessed''
         else if sy_rcode sys = ''NXDOMAIN'' \<and> trustedPublic > 0
         then tampered ''nxdomain'' ''the system resolver says the name does not exist while the trusted resolvers return addresses''
         else if sysBogons > 0 \<and> trustedPublic > 0
         then tampered ''bogon'' ''the system resolver returned sinkhole addresses while the trusted resolvers returned public ones''
         else if co_rcode trusted = ''NXDOMAIN'' \<and> sy_ips sys \<noteq> []
         then tampered ''hijack'' ''the trusted resolvers say the name does not exist; the system resolver returned addresses''
         else if sysPublic > 0 \<and> trustedPublic > 0 \<and> \<not> sharesFamily (sy_ips sys) (co_ips trusted)
         then noted ''the system and trusted answers are of different address families (A records on one side, AAAA on the other): not compared''
         else if sysPublic > 0 \<and> trustedPublic > 0 \<and> \<not> dest_intersects (sy_ips sys) (co_ips trusted)
         then (noted ''system and trusted answers share no address: geo-DNS or poisoning, verified by connecting to the system address'')
                \<lparr>cm_disagree := True\<rparr>
         else noted '''')"

text \<open>\<open>usable = None\<close> is the nil filter.\<close>

definition Usable :: "addr list \<Rightarrow> (addr \<Rightarrow> bool) option \<Rightarrow> addr list" where
  "Usable ips usable = (case usable of None \<Rightarrow> ips | Some u \<Rightarrow> List.filter u ips)"

definition ProbeAddrs :: "systemResult \<Rightarrow> consensus \<Rightarrow> (addr \<Rightarrow> bool) option \<Rightarrow> addr list \<times> string" where
  "ProbeAddrs sys trusted usable =
     (let t = Usable (Prioritize (co_ips trusted)) usable; s = Usable (Prioritize (sy_ips sys)) usable
      in if t \<noteq> [] then (t, ''trusted'') else if s \<noteq> [] then (s, ''system'') else ([], ''none''))"

definition ClassifyHTTP :: "int \<Rightarrow> bool \<times> string" where
  "ClassifyHTTP status =
     (if status = 451 then (True, ''HTTP 451: unavailable for legal reasons'')
      else if status = 403 then (False, ''HTTP 403: inconclusive (region gate or bot wall)'')
      else if status = 0 then (False, ''no HTTP response'')
      else (False, ''HTTP '' @ itoa status))"

text \<open>The unknown categories come sorted, each once.\<close>

definition SortedCategories :: "target list \<Rightarrow> string list" where
  "SortedCategories ts =
     (let present = remdups (map tg_category ts)
      in List.filter (\<lambda>c. c \<in> set present) Categories @ sort (List.filter (\<lambda>c. \<not> knownCategory c) present))"

section \<open>Random names\<close>

text \<open>The random bytes and the random index are arguments; \<open>None\<close> is the random source failing.\<close>

definition dest_Nonce :: "bytes \<Rightarrow> string" where
  "dest_Nonce b = hex_encode b"

definition site_name :: "string \<Rightarrow> string" where
  "site_name a = trim_prefix (ToLower (trim_suffix a ''.'')) ''www.''"

definition sameSite :: "string \<Rightarrow> string \<Rightarrow> bool" where
  "sameSite x y = (let a = site_name x; b = site_name y in a = b \<or> has_suffix a (CHR ''.'' # b) \<or> has_suffix b (CHR ''.'' # a))"

definition decoy_pool :: "string list \<Rightarrow> string list" where
  "decoy_pool exclude = List.filter (\<lambda>d. \<not> list_ex (sameSite d) exclude) DecoyNames"

definition PickDecoy :: "nat option \<Rightarrow> string list \<Rightarrow> string option" where
  "PickDecoy i exclude =
     (let pool = (if decoy_pool exclude = [] then DecoyNames else decoy_pool exclude)
      in ix pool (case i of None \<Rightarrow> 0 | Some n \<Rightarrow> n mod length pool))"

definition NXDomainName :: "bytes \<Rightarrow> string" where
  "NXDomainName b = ''cp-nxd-'' @ dest_Nonce b @ ''.invalid''"

end
