(* ===== verification/Doh.thy ===== *)
theory Doh
  imports Dest
begin

text \<open>
  The trusted resolvers (\<open>internal/dest/doh.go\<close>): one resolver is asked over its endpoints in turn, each
  with its share of one time budget, and the answers of all of them are merged into a consensus.
  The HTTP client is an argument (\<open>httpc\<close>): a request made at a time under a deadline gives a response
  or an error, and the time at which it did. The DNS message reader and builder is the library of
  \<open>Dnsx\<close>, extended by what this client reads of it; the JSON decoder is an argument too, as is the
  random query id. Times are nanoseconds.
\<close>

unbundle bit_operations_syntax

section \<open>Arguments\<close>

datatype doh_rr = DohA "32 word" | DohAAAA "128 word" | DohSkipped

text \<open>\<open>dd_skip_questions\<close> is \<open>SkipAllQuestions\<close>; \<open>dd_answers\<close> the answer resources the loop meets in order,
  \<open>None\<close> being a resource whose header or body does not parse.\<close>

record doh_lib = dns_lib +
  dd_skip_questions :: "bytes \<Rightarrow> bool"
  dd_answers :: "bytes \<Rightarrow> doh_rr option list"

datatype http_req = HttpPost string bytes string | HttpGet string string

record http_resp =
  hr_status :: int
  hr_body :: "string + bytes"

text \<open>The decoded JSON body: the status if there is one, and the type and data of each answer.\<close>

type_synonym json_body = "int option \<times> (int \<times> string) list"

record httpc =
  hc_new :: "string \<Rightarrow> string option"
  hc_do :: "http_req \<Rightarrow> time \<Rightarrow> time \<Rightarrow> (string + http_resp) \<times> time"
  hc_json :: "bytes \<Rightarrow> string + json_body"

section \<open>One query\<close>

record wireResult =
  wr_rcode :: string
  wr_ips :: "addr list"

abbreviation TypeAAAA :: dns_type where "TypeAAAA \<equiv> 28"
abbreviation RCodeNameError :: nat where "RCodeNameError \<equiv> 3"

definition wireError :: wireResult where
  "wireError = \<lparr>wr_rcode = ''ERROR'', wr_ips = []\<rparr>"

definition rcodeName :: "nat \<Rightarrow> string" where
  "rcodeName rc = (if rc = RCodeSuccess then ''NOERROR'' else if rc = RCodeNameError then ''NXDOMAIN'' else ''OTHER'')"

definition buildQuery :: "doh_lib \<Rightarrow> 16 word \<Rightarrow> string \<Rightarrow> dns_type \<Rightarrow> string + bytes" where
  "buildQuery d i name t =
     (let n = trim_suffix name ''.'' @ ''.''
      in if \<not> dl_name_ok d n then Inl (dl_error_string d)
         else case dl_finish d (query_header i) (n, t) [] [] of
                None \<Rightarrow> Inl (dl_error_string d)
              | Some b \<Rightarrow> Inr b)"

text \<open>The loop over the answers ends at the first resource that does not parse.\<close>

fun doh_collect :: "doh_rr option list \<Rightarrow> addr list" where
  "doh_collect [] = []"
| "doh_collect (None # rs) = []"
| "doh_collect (Some (DohA w) # rs) = Addr4 w # doh_collect rs"
| "doh_collect (Some (DohAAAA w) # rs) = Addr6 w '''' # doh_collect rs"
| "doh_collect (Some DohSkipped # rs) = doh_collect rs"

definition parseAnswer :: "doh_lib \<Rightarrow> bytes \<Rightarrow> string + wireResult" where
  "parseAnswer d b =
     (case dl_start d b of
        None \<Rightarrow> Inl (dl_error_string d)
      | Some h \<Rightarrow>
          if \<not> dh_response h then Inl ''not a DNS response''
          else Inr \<lparr>wr_rcode = rcodeName (dh_rcode h),
                    wr_ips = (if dd_skip_questions d b then doh_collect (dd_answers d b) else [])\<rparr>)"

definition limit_body :: "http_resp \<Rightarrow> string + bytes" where
  "limit_body r = map_sum (\<lambda>e. e) (take 65536) (hr_body r)"

definition doWire :: "doh_lib \<Rightarrow> httpc \<Rightarrow> http_req \<Rightarrow> time \<Rightarrow> time \<Rightarrow> (string + wireResult) \<times> time" where
  "doWire d hc req now dl =
     (case hc_do hc req now dl of
        (Inl e, t) \<Rightarrow> (Inl e, t)
      | (Inr resp, t) \<Rightarrow>
          (case limit_body resp of
             Inl e \<Rightarrow> Inl e
           | Inr body \<Rightarrow> if hr_status resp \<noteq> 200 then Inl (''http '' @ itoa (hr_status resp)) else parseAnswer d body, t))"

definition dnsMessage :: string where "dnsMessage = ''application/dns-message''"

definition queryWire :: "doh_lib \<Rightarrow> httpc \<Rightarrow> 16 word \<Rightarrow> string \<Rightarrow> string \<Rightarrow> dns_type \<Rightarrow> time \<Rightarrow> time \<Rightarrow> (string + wireResult) \<times> time" where
  "queryWire d hc i endpoint name t now dl =
     (case buildQuery d i name t of
        Inl e \<Rightarrow> (Inl e, now)
      | Inr q \<Rightarrow>
          (case hc_new hc endpoint of
             Some e \<Rightarrow> (Inl e, now)
           | None \<Rightarrow>
               (case doWire d hc (HttpPost endpoint q dnsMessage) now dl of
                  (Inr res, t1) \<Rightarrow> (Inr res, t1)
                | (Inl postErr, t1) \<Rightarrow>
                    (let u = endpoint @ ''?dns='' @ b64_encode q
                     in case hc_new hc u of
                          Some e \<Rightarrow> (Inl e, t1)
                        | None \<Rightarrow>
                            (case doWire d hc (HttpGet u dnsMessage) t1 dl of
                               (Inr res, t2) \<Rightarrow> (Inr res, t2)
                             | (Inl getErr, t2) \<Rightarrow> (Inl (''post: '' @ postErr @ ''; get: '' @ getErr), t2))))))"

text \<open>The two queries of an endpoint run side by side under one deadline.\<close>

definition wirePair :: "doh_lib \<Rightarrow> httpc \<Rightarrow> 16 word \<times> 16 word \<Rightarrow> string \<Rightarrow> string \<Rightarrow> duration \<Rightarrow> time \<Rightarrow> time
    \<Rightarrow> (string + wireResult \<times> wireResult) \<times> time" where
  "wirePair d hc is endpoint name timeout now deadline =
     (let dl = min deadline (now + timeout);
          ra = queryWire d hc (fst is) endpoint name TypeA now dl;
          rb = queryWire d hc (snd is) endpoint name TypeAAAA now dl
      in (case (fst ra, fst rb) of
            (Inl errA, Inl errAAAA) \<Rightarrow> Inl errA
          | (Inl errA, Inr aaaa) \<Rightarrow> Inr (wireError, aaaa)
          | (Inr a, Inl errAAAA) \<Rightarrow> Inr (a, wireError)
          | (Inr a, Inr aaaa) \<Rightarrow> Inr (a, aaaa), max (snd ra) (snd rb)))"

section \<open>The JSON API\<close>

definition query_escape_char :: "char \<Rightarrow> string" where
  "query_escape_char c =
     (let n = of_char c :: nat
      in if (48 \<le> n \<and> n \<le> 57) \<or> (65 \<le> n \<and> n \<le> 90) \<or> (97 \<le> n \<and> n \<le> 122) \<or> c \<in> set ''-_.~'' then [c]
         else if c = CHR '' '' then ''+''
         else CHR ''%'' # map (\<lambda>h. ''0123456789ABCDEF'' ! h) [n div 16, n mod 16])"

definition QueryEscape :: "string \<Rightarrow> string" where
  "QueryEscape s = concat (map query_escape_char s)"

text \<open>The status is converted to the library's 16-bit rcode.\<close>

definition json_result :: "json_body \<Rightarrow> string + wireResult" where
  "json_result body =
     (case body of (status, ans) \<Rightarrow>
        (case status of
           None \<Rightarrow> Inl ''json: no Status''
         | Some s \<Rightarrow>
             Inr \<lparr>wr_rcode = rcodeName (nat (s mod 65536)),
                  wr_ips = List.map_filter (\<lambda>(ty, data). if ty \<noteq> 1 \<and> ty \<noteq> 28 then None else ParseAddr data) ans\<rparr>))"

definition queryJSON :: "httpc \<Rightarrow> string \<Rightarrow> string \<Rightarrow> string \<Rightarrow> time \<Rightarrow> time \<Rightarrow> (string + wireResult) \<times> time" where
  "queryJSON hc api name qtype now dl =
     (let u = api @ ''?name='' @ QueryEscape name @ ''&type='' @ qtype
      in case hc_new hc u of
           Some e \<Rightarrow> (Inl e, now)
         | None \<Rightarrow>
             (case hc_do hc (HttpGet u ''application/dns-json'') now dl of
                (Inl e, t) \<Rightarrow> (Inl e, t)
              | (Inr resp, t) \<Rightarrow>
                  (if hr_status resp \<noteq> 200 then Inl (''http '' @ itoa (hr_status resp))
                   else case limit_body resp of
                          Inl e \<Rightarrow> Inl e
                        | Inr body \<Rightarrow> (case hc_json hc body of Inl e \<Rightarrow> Inl e | Inr j \<Rightarrow> json_result j), t)))"

definition jsonPair :: "httpc \<Rightarrow> string \<Rightarrow> string \<Rightarrow> duration \<Rightarrow> time \<Rightarrow> time \<Rightarrow> (string + wireResult \<times> wireResult) \<times> time" where
  "jsonPair hc api name timeout now deadline =
     (let dl = min deadline (now + timeout)
      in case queryJSON hc api name ''A'' now dl of
           (Inl e, t1) \<Rightarrow> (Inl e, t1)
         | (Inr a, t1) \<Rightarrow>
             (case queryJSON hc api name ''AAAA'' t1 dl of
                (Inl e, t2) \<Rightarrow> (Inr (a, wireError), t2)
              | (Inr aaaa, t2) \<Rightarrow> (Inr (a, aaaa), t2)))"

section \<open>One resolver\<close>

definition combine :: "wireResult \<Rightarrow> wireResult \<Rightarrow> string \<times> addr list" where
  "combine a aaaa =
     (let ips = Unique (wr_ips a @ wr_ips aaaa)
      in if ips \<noteq> [] then (''NOERROR'', ips)
         else if wr_rcode a = ''ERROR'' \<and> wr_rcode aaaa = ''ERROR'' then (''ERROR'', [])
         else if (wr_rcode a = ''NXDOMAIN'' \<and> (wr_rcode aaaa = ''NXDOMAIN'' \<or> wr_rcode aaaa = ''ERROR''))
                 \<or> (wr_rcode aaaa = ''NXDOMAIN'' \<and> (wr_rcode a = ''NXDOMAIN'' \<or> wr_rcode a = ''ERROR''))
         then (''NXDOMAIN'', [])
         else if wr_rcode a = ''OTHER'' \<or> wr_rcode aaaa = ''OTHER'' then (''OTHER'', [])
         else (''NOERROR'', []))"

record dohAnswer =
  da_resolver :: string
  da_rcode :: string
  da_ips :: "addr list"
  da_endpoint :: string
  da_err :: string
  da_elapsed :: duration

text \<open>\<open>share\<close>: what is left of the budget over what is left to try, and how much is left to try then.\<close>

definition share :: "time \<Rightarrow> time \<Rightarrow> int \<Rightarrow> duration \<times> int" where
  "share deadline now remaining = (let r = max 1 remaining in (go_quot (deadline - now) r, r - 1))"

definition doh_answered :: "resolver \<Rightarrow> string \<Rightarrow> wireResult \<times> wireResult \<Rightarrow> duration \<Rightarrow> dohAnswer" where
  "doh_answered r ep p el = (case combine (fst p) (snd p) of (rc, ips) \<Rightarrow>
     \<lparr>da_resolver = rv_name r, da_rcode = rc, da_ips = ips, da_endpoint = ep, da_err = '''', da_elapsed = el\<rparr>)"

text \<open>The loop over the endpoints: the first that answers, with the time it did, or the last error, the
  time and the number of tries left. \<open>ids\<close> gives the query ids of each endpoint.\<close>

fun try_urls :: "doh_lib \<Rightarrow> httpc \<Rightarrow> (string \<Rightarrow> 16 word \<times> 16 word) \<Rightarrow> string \<Rightarrow> time \<Rightarrow> string list \<Rightarrow> int \<Rightarrow> time \<Rightarrow> string option
    \<Rightarrow> (string option \<times> int + string \<times> wireResult \<times> wireResult) \<times> time" where
  "try_urls d hc ids name deadline [] left now lastErr = (Inl (lastErr, left), now)"
| "try_urls d hc ids name deadline (ep # eps) left now lastErr =
     (case share deadline now left of (sh, left') \<Rightarrow>
        (case wirePair d hc (ids ep) ep name sh now deadline of
           (Inr p, t1) \<Rightarrow> (Inr (ep, p), t1)
         | (Inl e, t1) \<Rightarrow> try_urls d hc ids name deadline eps left' t1 (Some e)))"

definition QueryDoH :: "doh_lib \<Rightarrow> httpc \<Rightarrow> (string \<Rightarrow> 16 word \<times> 16 word) \<Rightarrow> resolver \<Rightarrow> string \<Rightarrow> duration \<Rightarrow> time \<Rightarrow> dohAnswer" where
  "QueryDoH d hc ids r name timeout t0 =
     (let deadline = t0 + timeout;
          tries = int (length (rv_urls r)) + (if rv_json r \<noteq> '''' then 1 else 0);
          failed = (\<lambda>e t. \<lparr>da_resolver = rv_name r, da_rcode = ''ERROR'', da_ips = [], da_endpoint = '''',
                      da_err = (case e of None \<Rightarrow> '''' | Some m \<Rightarrow> m), da_elapsed = t - t0\<rparr>)
      in case try_urls d hc ids name deadline (rv_urls r) tries t0 None of
           (Inr (ep, p), t) \<Rightarrow> doh_answered r ep p (t - t0)
         | (Inl (e, left), t) \<Rightarrow>
             if rv_json r = '''' then failed e t
             else (case jsonPair hc (rv_json r) name (fst (share deadline t left)) t deadline of
                     (Inr p, t') \<Rightarrow> doh_answered r (rv_json r @ '' (json)'') p (t' - t0)
                   | (Inl e', t') \<Rightarrow> failed (Some e') t'))"

text \<open>Every trusted resolver is asked side by side, from the same time.\<close>

definition ResolveTrusted :: "doh_lib \<Rightarrow> httpc \<Rightarrow> (string \<Rightarrow> 16 word \<times> 16 word) \<Rightarrow> string \<Rightarrow> duration \<Rightarrow> time \<Rightarrow> dohAnswer list" where
  "ResolveTrusted d hc ids name timeout now = map (\<lambda>r. QueryDoH d hc ids r name timeout now) TrustedResolvers"

section \<open>The consensus\<close>

definition doh_part :: "dohAnswer \<Rightarrow> string" where
  "doh_part a = (if da_rcode a = ''ERROR'' then da_resolver a @ '':ERROR''
     else da_resolver a @ '':'' @ da_rcode a @ ''/'' @ utoa (length (da_ips a)))"

definition TrustedConsensus :: "dohAnswer list \<Rightarrow> consensus" where
  "TrustedConsensus answers =
     (let ok = List.filter (\<lambda>a. da_rcode a \<noteq> ''ERROR'') answers;
          note = join_with '', '' (sort (map doh_part answers));
          nx = length (List.filter (\<lambda>a. da_rcode a = ''NXDOMAIN'' \<and> da_ips a = []) ok);
          ips = Unique (concat (map da_ips ok))
      in if ok = [] then \<lparr>co_ips = [], co_rcode = ''ERROR'', co_note = note\<rparr>
         else if nx = length ok then \<lparr>co_ips = [], co_rcode = ''NXDOMAIN'', co_note = note\<rparr>
         else if ips \<noteq> [] then \<lparr>co_ips = ips, co_rcode = ''NOERROR'', co_note = note\<rparr>
         else \<lparr>co_ips = [], co_rcode = ''OTHER'', co_note = note\<rparr>)"

end
