(* ===== verification/Dest_Props.thy ===== *)
theory Dest_Props
  imports Doh
begin

text \<open>
  What the target parser, the address heuristics and the trusted consensus promise: an accepted list is
  well-formed, the built-in catalog is too, the addresses to probe are public and each appears
  once, tampering is only reported against a trusted answer, and one resolver's endpoints share
  its budget fairly.
\<close>

section \<open>Target lists\<close>

definition target_ok :: "target \<Rightarrow> bool" where
  "target_ok t \<longleftrightarrow> tg_domain t \<noteq> '''' \<and> ToLower (tg_domain t) = tg_domain t \<and> set (tg_domain t) \<inter> set ''=/ '' = {}
     \<and> knownCategory (tg_category t) \<and> (tg_proto t = '''' \<or> knownProto (tg_proto t))
     \<and> list_all (\<lambda>s. ParseAddr s \<noteq> None) (tg_fixed t) \<and> (tg_skipdns t \<longrightarrow> tg_fixed t \<noteq> [])"

definition targets_ok :: "target list \<Rightarrow> bool" where
  "targets_ok ts \<longleftrightarrow> distinct (map tg_domain ts) \<and> list_all target_ok ts"

text \<open>What an option keeps: the domain, a known category, a known protocol and addresses that parse.\<close>

definition options_ok :: "string \<Rightarrow> target \<Rightarrow> bool" where
  "options_ok dm t \<longleftrightarrow> tg_domain t = dm \<and> knownCategory (tg_category t) \<and> (tg_proto t = '''' \<or> knownProto (tg_proto t))
     \<and> list_all (\<lambda>s. ParseAddr s \<noteq> None) (tg_fixed t)"

lemma dest_ToLower_idem: "ToLower (ToLower s) = ToLower s"
proof -
  have "lower_char (lower_char c) = lower_char c" for c
  proof (cases "65 \<le> (of_char c :: nat) \<and> (of_char c :: nat) \<le> 90")
    case True
    then have "(of_char c + 32 :: nat) < 256" by simp
    with True show ?thesis by (simp add: lower_char_def Let_def)
  qed (auto simp: lower_char_def Let_def)
  then show ?thesis by (simp add: ToLower_def)
qed

lemma parse_ips_ok:
  "parse_ips n ss acc = Inr ips \<Longrightarrow> list_all (\<lambda>s. ParseAddr s \<noteq> None) acc \<Longrightarrow> list_all (\<lambda>s. ParseAddr s \<noteq> None) ips"
  by (induction n ss acc rule: parse_ips.induct) (auto split: if_splits)

lemma known_custom: "knownCategory CategoryCustom"
  by (simp add: knownCategory_def Categories_def)

lemma options_ok_updates:
  "options_ok dm t \<Longrightarrow> knownCategory c \<Longrightarrow> options_ok dm (t\<lparr>tg_category := c\<rparr>)"
  "options_ok dm t \<Longrightarrow> list_all (\<lambda>s. ParseAddr s \<noteq> None) ips \<Longrightarrow> options_ok dm (t\<lparr>tg_fixed := ips\<rparr>)"
  "options_ok dm t \<Longrightarrow> knownProto p \<Longrightarrow> options_ok dm (t\<lparr>tg_proto := p\<rparr>)"
  "options_ok dm t \<Longrightarrow> options_ok dm (t\<lparr>tg_label := v\<rparr>)" "options_ok dm t \<Longrightarrow> options_ok dm (t\<lparr>tg_sni := v\<rparr>)"
  "options_ok dm t \<Longrightarrow> options_ok dm (t\<lparr>tg_dnsname := v\<rparr>)" "options_ok dm t \<Longrightarrow> options_ok dm (t\<lparr>tg_skiptls := b\<rparr>)"
  "options_ok dm t \<Longrightarrow> options_ok dm (t\<lparr>tg_skipdns := b\<rparr>)" "options_ok dm t \<Longrightarrow> options_ok dm (t\<lparr>tg_http := b\<rparr>)"
  by (simp_all add: options_ok_def)

lemma parse_option_ok:
  assumes "parse_option n f t = Inr t'" and "options_ok dm t"
  shows "options_ok dm t'"
proof -
  obtain k v hv where c: "str_cut (CHR ''='') f = (k, v, hv)" by (cases "str_cut (CHR ''='') f") auto
  have "list_all (\<lambda>s. ParseAddr s \<noteq> None) (tg_fixed t)" using assms(2) by (simp add: options_ok_def)
  note ips = parse_ips_ok [OF _ this]
  show ?thesis
    using assms unfolding parse_option_def c prod.case
    by (auto simp: options_ok_updates known_custom split: if_split_asm sum.split_asm dest!: ips)
qed

lemma parse_options_ok: "parse_options n fs t = Inr t' \<Longrightarrow> options_ok dm t \<Longrightarrow> options_ok dm t'"
  by (induction n fs t rule: parse_options.induct) (auto split: sum.splits dest: parse_option_ok)

lemma options_ok_site: "options_ok dm (site dm CategoryCustom '''')"
  by (simp add: options_ok_def site_def knownCategory_def Categories_def)

lemma parse_lines_ok:
  "parse_lines n ls out = Some (Inr ts) \<Longrightarrow> targets_ok out \<Longrightarrow> targets_ok ts"
proof (induction n ls out rule: parse_lines.induct)
  case (2 n raw rest out)
  show ?case
  proof (cases "strip_comment raw = ''''")
    case True
    with 2 show ?thesis by simp
  next
    case False
    then obtain f0 fs where sf: "splitFields (strip_comment raw) = f0 # fs"
      using 2(3) by (auto simp: Let_def split: list.splits)
    let ?d = "ToLower f0"
    have d: "?d \<noteq> ''''" "\<not> list_ex (\<lambda>c. c \<in> set ''=/ '') ?d" "?d \<notin> tg_domain ` set out"
      using 2(3) False sf by (auto simp: Let_def split: if_splits)
    obtain t where t: "parse_options (n + 1) fs (site ?d CategoryCustom '''') = Inr t" "\<not> (tg_skipdns t \<and> tg_fixed t = [])"
      "parse_lines (n + 1) rest (out @ [t]) = Some (Inr ts)"
      using 2(3) False sf d by (auto simp: Let_def split: if_splits sum.splits)
    have "options_ok ?d t" using parse_options_ok [OF t(1) options_ok_site] .
    then have "targets_ok (out @ [t])"
      using 2(4) d t(2) by (auto simp: targets_ok_def target_ok_def options_ok_def dest_ToLower_idem list_ex_iff image_iff)
    then show ?thesis using 2(2) False sf d t by auto
  qed
qed simp

lemma split_fields_some: "split_fields_from s cur q True \<noteq> []"
  by (induction s arbitrary: cur q) auto

lemma TrimSpace_hd:
  assumes "TrimSpace s = c # cs"
  shows "\<not> is_space c"
proof -
  let ?d = "dropWhile is_space s"
  obtain ys where "?d = TrimSpace s @ rev ys"
    using takeWhile_dropWhile_id [of is_space "rev ?d"] unfolding TrimSpace_def by (metis rev_append rev_rev_ident)
  then show ?thesis using assms hd_dropWhile [of is_space s] by auto
qed

lemma strip_comment_fields: "strip_comment raw \<noteq> '''' \<Longrightarrow> splitFields (strip_comment raw) \<noteq> []"
proof -
  assume n: "strip_comment raw \<noteq> ''''"
  have "\<exists>s. strip_comment raw = TrimSpace s" unfolding strip_comment_def Let_def by (simp split: if_split) blast
  then obtain s where s: "strip_comment raw = TrimSpace s" ..
  then obtain c cs where c: "strip_comment raw = c # cs" "\<not> is_space c" using n TrimSpace_hd by (metis neq_Nil_conv)
  then have "c \<noteq> CHR '' ''" "c \<noteq> CHR 0x09" by (auto simp: is_space_def)
  with c(1) show ?thesis by (simp add: splitFields_def split_fields_some)
qed

lemma parse_lines_total: "\<exists>r. parse_lines n ls out = Some r"
proof (induction n ls out rule: parse_lines.induct)
  case (2 n raw rest out)
  then show ?case using strip_comment_fields [of raw]
    by (auto simp: Let_def split: list.split sum.split)
qed simp

lemma default_catalog_ok: "targets_ok Default"
proof -
  have "distinct (map tg_domain Default)" by (simp add: Default_def site_def)
  moreover have "list_all (\<lambda>s. ParseAddr s \<noteq> None) TelegramDCIPs"
    by (simp add: TelegramDCIPs_def ParseAddr_def parse_v4_fields_def octet_def is_digit_def digits_val_def)
  moreover have "list_all (\<lambda>t. tg_domain t \<noteq> '''' \<and> ToLower (tg_domain t) = tg_domain t \<and> set (tg_domain t) \<inter> set ''=/ '' = {}) Default"
    by (simp add: Default_def site_def ToLower_def lower_char_def)
  moreover have "list_all (\<lambda>t. knownCategory (tg_category t)) Default"
    by (simp add: Default_def site_def knownCategory_def Categories_def CategoryControl_def)
  moreover have "list_all (\<lambda>t. (tg_proto t = '''' \<or> knownProto (tg_proto t)) \<and> tg_fixed t \<in> {[], TelegramDCIPs} \<and> (tg_skipdns t \<longrightarrow> tg_fixed t = TelegramDCIPs)) Default"
    by (simp add: Default_def site_def knownProto_def Protos_def)
  moreover have "TelegramDCIPs \<noteq> []" by (simp add: TelegramDCIPs_def)
  ultimately show ?thesis by (fastforce simp: targets_ok_def target_ok_def list_all_iff)
qed

text \<open>C35. The parser of target lists never fails on a line it should report: it always returns, and a list it
  accepts is not empty, names each domain once and is well-typed throughout: domains in lower
  case without equals signs, slashes or spaces, known categories and protocols, addresses that parse, and addresses
  given wherever the name is not to be resolved. The built-in catalog has the same form.\<close>

theorem target_list_wf:
  "(\<exists>r. dest_Parse ls err = Some r) \<and> (dest_Parse ls err = Some (Inr ts) \<longrightarrow> ts \<noteq> [] \<and> targets_ok ts) \<and> targets_ok Default"
proof (intro conjI impI)
  obtain r where r: "parse_lines 0 ls [] = Some r" using parse_lines_total by blast
  then show "\<exists>r. dest_Parse ls err = Some r" by (auto simp: dest_Parse_def split: sum.splits)
  assume "dest_Parse ls err = Some (Inr ts)"
  then have "r = Inr ts" "ts \<noteq> []"
    using r by (auto simp: dest_Parse_def split: sum.splits option.splits if_splits)
  then show "ts \<noteq> []" "targets_ok ts"
    using r parse_lines_ok [of 0 ls "[]" ts] by (auto simp: targets_ok_def)
qed (rule default_catalog_ok)

definition demo_lines :: "string list" where
  "demo_lines = [''# mine'', ''news.example.org category=news ip=192.0.2.7,192.0.2.8 no-dns'', '''', ''chat.example.org proto=whatsapp'']"

lemma demo_lines_parse:
  "dest_Parse demo_lines None = Some (Inr
     [(site ''news.example.org'' ''news'' '''')\<lparr>tg_fixed := [''192.0.2.7'', ''192.0.2.8''], tg_skipdns := True\<rparr>,
      (site ''chat.example.org'' CategoryCustom '''')\<lparr>tg_proto := ProtoWhatsApp\<rparr>])"
  by (simp add: demo_lines_def dest_Parse_def strip_comment_def TrimSpace_def is_space_def splitFields_def ToLower_def lower_char_def
      parse_option_def Let_def knownCategory_def Categories_def ParseAddr_def parse_v4_fields_def octet_def is_digit_def
      digits_val_def knownProto_def Protos_def ProtoWhatsApp_def site_def CategoryCustom_def)

theorem target_list_wf_witness:
  "targets_ok [(site ''news.example.org'' ''news'' '''')\<lparr>tg_fixed := [''192.0.2.7'', ''192.0.2.8''], tg_skipdns := True\<rparr>,
     (site ''chat.example.org'' CategoryCustom '''')\<lparr>tg_proto := ProtoWhatsApp\<rparr>]"
  using target_list_wf demo_lines_parse by blast

section \<open>Addresses to probe\<close>

lemma unique_from_props:
  "distinct out \<Longrightarrow> distinct (unique_from as out) \<and> set (unique_from as out) = set out \<union> (Unmap ` set as - {AddrZero})"
  by (induction as out rule: unique_from.induct) (auto simp: Let_def)

lemma Unique_props: "distinct (Unique ips)" "set (Unique ips) = Unmap ` set ips - {AddrZero}"
  using unique_from_props [of "[]" ips] by (simp_all add: Unique_def)

lemma Prioritize_props:
  "distinct (Prioritize ips)" "set (Prioritize ips) = {a \<in> Unmap ` set ips. \<not> IsBogon a}"
  "sorted_wrt (\<lambda>a b. Is4 b \<longrightarrow> Is4 a) (Prioritize ips)"
proof -
  have "IsBogon AddrZero" by (simp add: IsBogon_def Unmap_def Is4In6_def)
  then show "set (Prioritize ips) = {a \<in> Unmap ` set ips. \<not> IsBogon a}"
    by (auto simp: Prioritize_def Let_def Unique_props)
  show "distinct (Prioritize ips)" by (auto simp: Prioritize_def Let_def Unique_props(1))
  have "sorted_wrt (\<lambda>a b. Is4 b \<longrightarrow> Is4 a) xs" if "\<forall>x\<in>set xs. Is4 x" for xs using that by (induction xs) auto
  moreover have "sorted_wrt (\<lambda>a b. Is4 b \<longrightarrow> Is4 a) xs" if "\<forall>x\<in>set xs. \<not> Is4 x" for xs using that by (induction xs) auto
  ultimately show "sorted_wrt (\<lambda>a b. Is4 b \<longrightarrow> Is4 a) (Prioritize ips)" by (simp add: Prioritize_def Let_def sorted_wrt_append)
qed

lemma Usable_set: "set (Usable ips u) = {a \<in> set ips. case u of None \<Rightarrow> True | Some f \<Rightarrow> f a}"
  by (cases u) (auto simp: Usable_def)

lemma Usable_keeps: "distinct ips \<Longrightarrow> distinct (Usable ips u)" "sorted_wrt P ips \<Longrightarrow> sorted_wrt P (Usable ips u)"
  by (cases u; simp add: Usable_def sorted_wrt_filter)+

text \<open>The addresses the transport layers visit are public, usable from this host and each visited once, IPv4
  before IPv6. They come from the trusted answer whenever it has such an address, and from the
  system's otherwise; there are none exactly when neither has one.\<close>

theorem probe_addrs_sound:
  assumes "ProbeAddrs sys trusted usable = (as, src)"
  shows "distinct as \<and> sorted_wrt (\<lambda>a b. Is4 b \<longrightarrow> Is4 a) as
    \<and> (let good = (\<lambda>ips. {a \<in> Unmap ` set ips. \<not> IsBogon a \<and> (case usable of None \<Rightarrow> True | Some f \<Rightarrow> f a)})
       in set as = (if good (co_ips trusted) \<noteq> {} then good (co_ips trusted) else good (sy_ips sys))
          \<and> src = (if good (co_ips trusted) \<noteq> {} then ''trusted'' else if good (sy_ips sys) \<noteq> {} then ''system'' else ''none''))"
proof -
  let ?U = "\<lambda>ips. Usable (Prioritize ips) usable"
  have s: "set (?U ips) = {a \<in> Unmap ` set ips. \<not> IsBogon a \<and> (case usable of None \<Rightarrow> True | Some f \<Rightarrow> f a)}" for ips
    by (auto simp: Usable_set Prioritize_props(2))
  have "as = ?U (co_ips trusted) \<or> as = ?U (sy_ips sys) \<or> as = []"
    using assms by (auto simp: ProbeAddrs_def Let_def split: if_splits)
  then have "distinct as \<and> sorted_wrt (\<lambda>a b. Is4 b \<longrightarrow> Is4 a) as"
    using Usable_keeps Prioritize_props(1,3) by auto
  moreover have "set as = (if set (?U (co_ips trusted)) \<noteq> {} then set (?U (co_ips trusted)) else set (?U (sy_ips sys)))
     \<and> src = (if set (?U (co_ips trusted)) \<noteq> {} then ''trusted'' else if set (?U (sy_ips sys)) \<noteq> {} then ''system'' else ''none'')"
    using assms unfolding ProbeAddrs_def Let_def set_empty by (auto split: if_splits)
  ultimately show ?thesis unfolding s Let_def by blast
qed

definition demo_sys :: systemResult where
  "demo_sys = \<lparr>sy_ips = [Addr4 0x0A000001], sy_rcode = ''NOERROR'', sy_err = ''''\<rparr>"

definition demo_trusted :: consensus where
  "demo_trusted = \<lparr>co_ips = [Addr6 0x20014860000000000000000000008888 '''', Addr4 0x08080808, Addr4 0x08080808], co_rcode = ''NOERROR'', co_note = ''''\<rparr>"

lemma demo_unmapped: "Unmap (Addr4 w) = Addr4 w" "Unmap (Addr6 0x20014860000000000000000000008888 '''') = Addr6 0x20014860000000000000000000008888 ''''"
  "Is4 (Addr4 w)" "\<not> Is4 (Addr6 v z)"
  by (simp_all add: Unmap_def Is4In6_def Is4_def)

lemma demo_public: "\<not> IsBogon (Addr4 0x08080808)" "\<not> IsBogon (Addr6 0x20014860000000000000000000008888 '''')"
proof -
  have "length [8, 8, 8, 8 :: byte] = 4" "be_nat [8, 8, 8, 8] = unat (0x08080808 :: 32 word)" by (simp_all add: be_nat_def)
  then have "be32 0x08080808 = [8, 8, 8, 8]" using be_bytes_be_nat [of "[8, 8, 8, 8]"] by (simp only: be32_def)
  then show "\<not> IsBogon (Addr4 0x08080808)" "\<not> IsBogon (Addr6 0x20014860000000000000000000008888 '''')"
    by (simp_all add: IsBogon_def demo_unmapped IsGlobalUnicast_def IsPrivate_def oct_def IsMulticast_def IsLoopback_def
      IsLinkLocalUnicast_def v6_group_def)
qed

theorem probe_addrs_sound_witness:
  "ProbeAddrs demo_sys demo_trusted None = ([Addr4 0x08080808, Addr6 0x20014860000000000000000000008888 ''''], ''trusted'')
    \<and> distinct [Addr4 0x08080808, Addr6 0x20014860000000000000000000008888 '''']"
proof
  show e: "ProbeAddrs demo_sys demo_trusted None = ([Addr4 0x08080808, Addr6 0x20014860000000000000000000008888 ''''], ''trusted'')"
    by (simp add: demo_sys_def demo_trusted_def ProbeAddrs_def Usable_def Prioritize_def Unique_def demo_unmapped demo_public)
  show "distinct [Addr4 0x08080808, Addr6 0x20014860000000000000000000008888 '''']" using probe_addrs_sound [OF e] by blast
qed

section \<open>Tampering\<close>

lemma consensus_cases:
  fixes answers
  defines "ok \<equiv> List.filter (\<lambda>a. da_rcode a \<noteq> ''ERROR'') answers" and "c \<equiv> TrustedConsensus answers"
  shows "(ok = [] \<longleftrightarrow> co_rcode c = ''ERROR'') \<and> set (co_ips c) \<subseteq> Unmap ` (\<Union>a\<in>set ok. set (da_ips a))
    \<and> (co_rcode c = ''NXDOMAIN'' \<longleftrightarrow> ok \<noteq> [] \<and> list_all (\<lambda>a. da_rcode a = ''NXDOMAIN'' \<and> da_ips a = []) ok)
    \<and> (co_rcode c = ''NOERROR'' \<longleftrightarrow> co_ips c \<noteq> [])"
proof -
  have len: "length (List.filter P ok) = length ok \<longleftrightarrow> list_all P ok" for P
    by (metis filter_True length_filter_less list_all_iff nat_less_le)
  have "set (Unique (concat (map da_ips ok))) \<subseteq> Unmap ` (\<Union>a\<in>set ok. set (da_ips a))"
    by (auto simp: Unique_props(2))
  then show ?thesis
    unfolding c_def TrustedConsensus_def Let_def ok_def [symmetric] by (simp add: len)
qed

text \<open>C34. The client speaks of DNS tampering only against trusted evidence: when the comparison with the consensus
  of the trusted resolvers says tampered, the system resolver did answer, and either some trusted
  resolver returned a public address (and the system said the name does not exist, or answered
  with a sinkhole), or every trusted resolver that answered said the name does not exist while the
  system returned addresses. A disagreement alone is never reported as tampering.\<close>

theorem dns_tampering_evidence:
  assumes "cm_tampered (Compare sys (TrustedConsensus answers))"
  defines "ok \<equiv> List.filter (\<lambda>a. da_rcode a \<noteq> ''ERROR'') answers"
  shows "sy_rcode sys \<noteq> ''TIMEOUT'' \<and> ok \<noteq> [] \<and> \<not> cm_disagree (Compare sys (TrustedConsensus answers))
    \<and> ((list_ex (\<lambda>a. list_ex (\<lambda>ip. \<not> IsBogon (Unmap ip)) (da_ips a)) ok \<and> (sy_rcode sys = ''NXDOMAIN'' \<or> list_ex IsBogon (sy_ips sys)))
       \<or> (list_all (\<lambda>a. da_rcode a = ''NXDOMAIN'' \<and> da_ips a = []) ok \<and> sy_ips sys \<noteq> []))"
proof -
  let ?c = "TrustedConsensus answers"
  note c = consensus_cases [of answers, folded ok_def]
  have pub: "list_ex (\<lambda>a. list_ex (\<lambda>ip. \<not> IsBogon (Unmap ip)) (da_ips a)) ok" if "List.filter (\<lambda>a. \<not> IsBogon a) (co_ips ?c) \<noteq> []"
    using that c by (fastforce simp: filter_empty_conv list_ex_iff)
  have "sy_rcode sys \<noteq> ''TIMEOUT''" "\<not> (co_rcode ?c = ''ERROR'' \<and> co_ips ?c = [])" "\<not> cm_disagree (Compare sys ?c)"
    and r: "(sy_rcode sys = ''NXDOMAIN'' \<and> List.filter (\<lambda>a. \<not> IsBogon a) (co_ips ?c) \<noteq> [])
      \<or> (List.filter IsBogon (sy_ips sys) \<noteq> [] \<and> List.filter (\<lambda>a. \<not> IsBogon a) (co_ips ?c) \<noteq> [])
      \<or> (co_rcode ?c = ''NXDOMAIN'' \<and> sy_ips sys \<noteq> [])"
    using assms(1) by (auto simp: Compare_def Let_def noted_def tampered_def split: if_splits)
  moreover have "ok \<noteq> []" using c r calculation(2) by (auto simp: filter_empty_conv)
  ultimately show ?thesis using c pub by (auto simp: filter_empty_conv list_ex_iff)
qed

definition demo_answers :: "dohAnswer list" where
  "demo_answers =
     [\<lparr>da_resolver = ''google'', da_rcode = ''NXDOMAIN'', da_ips = [], da_endpoint = ''https://dns.google/dns-query'', da_err = '''', da_elapsed = 9\<rparr>,
      \<lparr>da_resolver = ''quad9'', da_rcode = ''ERROR'', da_ips = [], da_endpoint = '''', da_err = ''timeout'', da_elapsed = 90\<rparr>]"

theorem dns_tampering_evidence_witness:
  "sy_rcode demo_sys \<noteq> ''TIMEOUT'' \<and> cm_tampered (Compare demo_sys (TrustedConsensus demo_answers))"
proof
  show t: "cm_tampered (Compare demo_sys (TrustedConsensus demo_answers))"
    by (simp add: Compare_def TrustedConsensus_def demo_answers_def demo_sys_def tampered_def noted_def Let_def Unique_def)
  show "sy_rcode demo_sys \<noteq> ''TIMEOUT''" using dns_tampering_evidence [OF t] by blast
qed

section \<open>One resolver's budget\<close>

text \<open>What the code relies on: a request under a context deadline returns by then, and time does not go back.\<close>

definition http_in_time :: "httpc \<Rightarrow> bool" where
  "http_in_time hc \<longleftrightarrow> (\<forall>req now dl. now \<le> dl \<longrightarrow> now \<le> snd (hc_do hc req now dl) \<and> snd (hc_do hc req now dl) \<le> dl)"

lemma hc_do_in_time: "http_in_time hc \<Longrightarrow> now \<le> dl \<Longrightarrow> hc_do hc req now dl = (r, t) \<Longrightarrow> now \<le> t \<and> t \<le> dl"
  unfolding http_in_time_def by (metis prod.sel(2))

lemma doWire_in_time: "http_in_time hc \<Longrightarrow> now \<le> dl \<Longrightarrow> doWire d hc req now dl = (r, t) \<Longrightarrow> now \<le> t \<and> t \<le> dl"
  by (auto simp: doWire_def split: prod.splits sum.splits dest: hc_do_in_time)

lemma queryWire_in_time:
  assumes "http_in_time hc" and "now \<le> dl" and "queryWire d hc i ep name ty now dl = (r, t)"
  shows "now \<le> t \<and> t \<le> dl"
proof (cases "buildQuery d i name ty")
  case (Inr q)
  define u where "u = ep @ ''?dns='' @ b64_encode q"
  obtain r1 t1 where p: "doWire d hc (HttpPost ep q dnsMessage) now dl = (r1, t1)" by fastforce
  then have t1: "now \<le> t1 \<and> t1 \<le> dl" using doWire_in_time [OF assms(1,2)] by blast
  obtain r2 t2 where g: "doWire d hc (HttpGet u dnsMessage) t1 dl = (r2, t2)" by fastforce
  then have "t1 \<le> t2 \<and> t2 \<le> dl" using doWire_in_time [OF assms(1)] t1 by blast
  then show ?thesis
    using assms(2,3) t1 unfolding queryWire_def Let_def Inr sum.case p prod.case u_def [symmetric] g
    by (cases r1; cases r2) (auto split: option.splits)
qed (use assms(2,3) in \<open>simp add: queryWire_def\<close>)

lemma wirePair_in_time:
  assumes "http_in_time hc" and "now \<le> dl" and "0 \<le> sh" and "wirePair d hc is ep name sh now dl = (r, t)"
  shows "now \<le> t \<and> t \<le> now + sh \<and> t \<le> dl"
proof -
  let ?dl = "min dl (now + sh)"
  obtain r1 t1 where a: "queryWire d hc (fst is) ep name TypeA now ?dl = (r1, t1)" by fastforce
  obtain r2 t2 where b: "queryWire d hc (snd is) ep name TypeAAAA now ?dl = (r2, t2)" by fastforce
  have "t = max t1 t2" using assms(4) unfolding wirePair_def Let_def a b by simp
  then show ?thesis
    using queryWire_in_time [OF assms(1) _ a] queryWire_in_time [OF assms(1) _ b] assms(2,3) by auto
qed

text \<open>The share granted is at least any bound the budget still covers for every try, and still does afterwards.\<close>

lemma share_fair:
  assumes "left * q \<le> deadline - now" and "1 \<le> left" and "0 \<le> q" and "now \<le> deadline"
    and "share deadline now left = (sh, left')" and "t \<le> now + sh"
  shows "q \<le> sh \<and> left' = left - 1 \<and> left' * q \<le> deadline - t \<and> now + sh \<le> deadline"
proof -
  let ?D = "deadline - now"
  have sh: "sh = ?D div left" "left' = left - 1"
    using assms(2,4,5) by (auto simp: share_def Let_def go_quot_def max_def)
  have q: "q \<le> sh" using assms(1,2) zdiv_mono1 [of "left * q" ?D left] sh by simp
  have "0 \<le> ?D mod left" using assms(2) by simp
  then have "left * sh \<le> ?D" unfolding sh using minus_mod_eq_mult_div [of ?D left] by linarith
  then have "(left - 1) * sh \<le> ?D - sh" by (simp add: algebra_simps)
  moreover have "(left - 1) * q \<le> (left - 1) * sh" using q assms(2) by (simp add: mult_left_mono)
  moreover have "sh \<le> left * sh" using q assms(2,3) by (simp add: mult_le_cancel_right1)
  ultimately show ?thesis using q sh assms(6) \<open>left * sh \<le> ?D\<close> by simp
qed

text \<open>The endpoint \<open>ep\<close> answers whenever it is given at least \<open>q\<close> within the budget.\<close>

definition responsive :: "doh_lib \<Rightarrow> httpc \<Rightarrow> (string \<Rightarrow> 16 word \<times> 16 word) \<Rightarrow> string \<Rightarrow> string \<Rightarrow> time \<Rightarrow> time \<Rightarrow> duration \<Rightarrow> bool" where
  "responsive d hc ids ep name t0 deadline q \<longleftrightarrow>
     (\<forall>now sh. t0 \<le> now \<longrightarrow> q \<le> sh \<longrightarrow> now + sh \<le> deadline \<longrightarrow> isl (fst (wirePair d hc (ids ep) ep name sh now deadline)) = False)"

lemma try_urls_reaches:
  assumes "http_in_time hc" and "0 \<le> q" and "responsive d hc ids ep name t0 deadline q"
  shows "left * q \<le> deadline - now \<Longrightarrow> int (length eps) \<le> left \<Longrightarrow> ep \<in> set eps \<Longrightarrow> t0 \<le> now \<Longrightarrow> now \<le> deadline \<Longrightarrow>
    \<exists>ep' p t. try_urls d hc ids name deadline eps left now e = (Inr (ep', p), t) \<and> ep' \<in> set eps \<and> t0 \<le> t \<and> t \<le> deadline"
proof (induction eps arbitrary: left now e)
  case (Cons x eps)
  obtain sh left' where sh: "share deadline now left = (sh, left')" by fastforce
  obtain r t where r: "wirePair d hc (ids x) x name sh now deadline = (r, t)" by fastforce
  have l: "1 \<le> left" using Cons.prems(2) by simp
  have f: "q \<le> sh" "now + sh \<le> deadline"
    using share_fair [OF Cons.prems(1) l assms(2) Cons.prems(5) sh, of now] share_fair [OF Cons.prems(1) l assms(2) Cons.prems(5) sh, of "now + sh"] by auto
  then have t: "now \<le> t" "t \<le> now + sh" "t \<le> deadline"
    using wirePair_in_time [OF assms(1) Cons.prems(5) _ r] assms(2) by auto
  note f' = share_fair [OF Cons.prems(1) l assms(2) Cons.prems(5) sh t(2)]
  show ?case
  proof (cases r)
    case (Inl m)
    then have "x \<noteq> ep" using assms(3) r f Cons.prems(4) unfolding responsive_def by (metis fst_conv sum.disc(1))
    then have "\<exists>ep' p t'. try_urls d hc ids name deadline eps left' t (Some m) = (Inr (ep', p), t') \<and> ep' \<in> set eps \<and> t0 \<le> t' \<and> t' \<le> deadline"
      using Cons.prems t f' by (intro Cons.IH) auto
    then show ?thesis using Inl sh r by auto
  next
    case (Inr p)
    then show ?thesis using sh r t Cons.prems(4) by simp
  qed
qed simp

text \<open>One resolver's budget is shared out fairly: however long the endpoints before it hang, an endpoint that
  answers within an equal share of the budget is reached with at least that share left, so the
  resolver answers, from one of its endpoints and within the budget.\<close>

theorem doh_fallback_reached:
  assumes "http_in_time hc" and "0 \<le> timeout" and "ep \<in> set (rv_urls r)"
    and "n = int (length (rv_urls r)) + (if rv_json r \<noteq> '''' then 1 else 0)"
    and "responsive d hc ids ep name t0 (t0 + timeout) (timeout div n)"
  shows "\<exists>ep' p el. QueryDoH d hc ids r name timeout t0 = doh_answered r ep' p el \<and> ep' \<in> set (rv_urls r) \<and> 0 \<le> el \<and> el \<le> timeout"
proof -
  have n: "0 < n" "int (length (rv_urls r)) \<le> n" using assms(3,4) by (cases "rv_urls r"; simp)+
  have "n * (timeout div n) \<le> t0 + timeout - t0" using n(1) minus_mod_eq_mult_div [of timeout n] pos_mod_sign [of n timeout] by linarith
  moreover have "0 \<le> timeout div n" using n(1) assms(2) by (simp add: pos_imp_zdiv_nonneg_iff)
  ultimately obtain ep' p t where "try_urls d hc ids name (t0 + timeout) (rv_urls r) n t0 None = (Inr (ep', p), t)"
    "ep' \<in> set (rv_urls r)" "t0 \<le> t" "t \<le> t0 + timeout"
    using try_urls_reaches [OF assms(1) _ assms(5), where e = None and left = n and now = t0, OF _ _ n(2) assms(3)] assms(2) by auto
  then show ?thesis unfolding QueryDoH_def Let_def assms(4) [symmetric]
    by (intro exI [of _ ep'] exI [of _ p] exI [of _ "t - t0"]) simp
qed

text \<open>A resolver whose first endpoint hangs until its deadline and whose second answers at once.\<close>

definition demo_doh :: doh_lib where
  "demo_doh = \<lparr>dl_name_ok = (\<lambda>_. True), dl_start = (\<lambda>_. Some (answer_header 7 False RCodeSuccess)), dl_question = (\<lambda>_. None),
     dl_answers = (\<lambda>_. []), dl_finish = (\<lambda>_ _ _ _. Some [1]), dl_type_string = (\<lambda>_. ''''), dl_rcode_string = (\<lambda>_. ''''),
     dl_error_string = '''', dd_skip_questions = (\<lambda>_. True), dd_answers = (\<lambda>_. [Some (DohA 0x08080808)])\<rparr>"

definition demo_http :: httpc where
  "demo_http = \<lparr>hc_new = (\<lambda>_. None),
     hc_do = (\<lambda>req now dl. if req = HttpPost ''https://b/'' [1] dnsMessage then (Inr \<lparr>hr_status = 200, hr_body = Inr [2]\<rparr>, now) else (Inl ''timeout'', dl)),
     hc_json = (\<lambda>_. Inl '''')\<rparr>"

definition demo_resolver :: resolver where
  "demo_resolver = \<lparr>rv_name = ''r'', rv_urls = [''https://a/'', ''https://b/''], rv_json = ''''\<rparr>"

theorem doh_fallback_reached_witness:
  "\<exists>ep' p el. QueryDoH demo_doh demo_http (\<lambda>_. (1, 2)) demo_resolver ''example.com'' 3000 50 = doh_answered demo_resolver ep' p el
     \<and> ep' \<in> set (rv_urls demo_resolver) \<and> 0 \<le> el \<and> el \<le> 3000"
proof (rule doh_fallback_reached [where n = 2 and ep = "''https://b/''"])
  show "http_in_time demo_http" by (auto simp: http_in_time_def demo_http_def)
  have "queryWire demo_doh demo_http i ''https://b/'' name ty now dl
    = (Inr \<lparr>wr_rcode = ''NOERROR'', wr_ips = [Addr4 0x08080808]\<rparr>, now)" for i name ty now dl
    by (simp add: queryWire_def buildQuery_def doWire_def limit_body_def parseAnswer_def demo_doh_def demo_http_def answer_header_def rcodeName_def Let_def)
  then show "responsive demo_doh demo_http (\<lambda>_. (1, 2)) ''https://b/'' ''example.com'' 50 (50 + 3000) (3000 div 2)"
    by (simp add: responsive_def wirePair_def Let_def)
qed (simp_all add: demo_resolver_def)

section \<open>Decoys\<close>

lemma PickDecoy_pool: "\<exists>d. PickDecoy i exclude = Some d \<and> d \<in> set (if decoy_pool exclude = [] then DecoyNames else decoy_pool exclude)"
proof -
  let ?p = "if decoy_pool exclude = [] then DecoyNames else decoy_pool exclude"
  have n: "?p \<noteq> []" by (simp add: DecoyNames_def)
  define k where "k = (case i of None \<Rightarrow> 0 | Some n \<Rightarrow> n mod length ?p)"
  have "k < length ?p" using n by (cases i) (auto simp: k_def)
  then show ?thesis by (auto simp: PickDecoy_def ix_def Let_def k_def [symmetric])
qed

text \<open>A decoy is always found, and it is never on the site under test as long as some decoy is not: then the
  name picked is on no excluded site, whatever the random index.\<close>

theorem decoy_not_same_site:
  "\<exists>d. PickDecoy i exclude = Some d \<and> d \<in> set DecoyNames
     \<and> (list_ex (\<lambda>d. \<not> list_ex (sameSite d) exclude) DecoyNames \<longrightarrow> \<not> list_ex (sameSite d) exclude)"
proof -
  have "decoy_pool exclude = [] \<longleftrightarrow> \<not> list_ex (\<lambda>d. \<not> list_ex (sameSite d) exclude) DecoyNames"
    by (auto simp: decoy_pool_def filter_empty_conv list_ex_iff)
  then show ?thesis using PickDecoy_pool [of i exclude] by (auto simp: decoy_pool_def split: if_splits)
qed

end
