(* ===== verification/Whatsapp.thy ===== *)
theory Whatsapp
  imports Probe_Prelude
begin

text \<open>
  The opening exchange of the WhatsApp chat gateway (\<open>internal/dest/whatsapp.go\<close>): the client's hello, the
  reader of the server's frame and the walk over the fields of a protobuf message. A Go slice
  expression out of range would be \<open>WPanic\<close>; the theorems show that it is never reached. The
  callback of the walk is a function on an explicit state, the variables it captures.
\<close>

unbundle bit_operations_syntax

section \<open>Varints\<close>

text \<open>\<open>binary.Uvarint\<close>: the value and the number of bytes read; 0 when the buffer is too small, and minus
  the number read when the value overflows 64 bits.\<close>

fun uvarint_from :: "bytes \<Rightarrow> nat \<Rightarrow> 64 word \<Rightarrow> nat \<Rightarrow> 64 word \<times> int" where
  "uvarint_from [] i x s = (0, 0)"
| "uvarint_from (b # bs) i x s =
     (if i = 10 then (0, - int (i + 1))
      else if b < 0x80
      then (if i = 9 \<and> b > 1 then (0, - int (i + 1)) else (x OR push_bit s (ucast b), int (i + 1)))
      else uvarint_from bs (i + 1) (x OR push_bit s (ucast (b AND 0x7f))) (s + 7))"

definition Uvarint :: "bytes \<Rightarrow> 64 word \<times> int" where
  "Uvarint b = uvarint_from b 0 0 0"

lemma uvarint_from_le: "snd (uvarint_from bs i x s) \<le> int (i + length bs)"
  by (induction bs i x s rule: uvarint_from.induct) auto

lemma Uvarint_le: "snd (Uvarint b) \<le> int (length b)"
  using uvarint_from_le [of b 0 0 0] by (simp add: Uvarint_def)

section \<open>The walk over the fields\<close>

datatype wa_error =
    WMalformedKey
  | WMalformedVarint
  | WMalformedLength
  | WWireType nat
  | WFrameLength nat
  | WNoServerHello nat
  | WBadServerHello nat nat nat
  | WShortRead
  | WPanic

function protoFields :: "(64 word \<Rightarrow> bytes \<Rightarrow> 's \<Rightarrow> 's \<times> wa_error option) \<Rightarrow> bytes \<Rightarrow> 's \<Rightarrow> 's \<times> wa_error option" where
  "protoFields fn b st =
     (if b = [] then (st, None)
      else case Uvarint b of (key, n) \<Rightarrow>
        if n \<le> 0 then (st, Some WMalformedKey)
        else (case from_ix b (nat n) of
          None \<Rightarrow> (st, Some WPanic)
        | Some b1 \<Rightarrow>
            if key AND 7 = 0
            then (case Uvarint b1 of (_, m) \<Rightarrow>
                    if m \<le> 0 then (st, Some WMalformedVarint)
                    else (case from_ix b1 (nat m) of None \<Rightarrow> (st, Some WPanic) | Some b2 \<Rightarrow> protoFields fn b2 st))
            else if key AND 7 = 2
            then (case Uvarint b1 of (l, m) \<Rightarrow>
                    if m \<le> 0 \<or> l > word_of_int (int (length b1) - m) then (st, Some WMalformedLength)
                    else (case (slc b1 (nat m) (nat m + unat l), from_ix b1 (nat m + unat l)) of
                            (Some v, Some b2) \<Rightarrow>
                              (case fn (drop_bit 3 key) v st of
                                 (st', Some e) \<Rightarrow> (st', Some e)
                               | (st', None) \<Rightarrow> protoFields fn b2 st')
                          | _ \<Rightarrow> (st, Some WPanic)))
            else (st, Some (WWireType (unat (key AND 7))))))"
  by pat_completeness auto
termination
  by (relation "measure (\<lambda>(_, b, _). length b)") (auto simp: from_ix_def split: if_splits)

declare protoFields.simps [simp del]

section \<open>The hellos\<close>

definition waPrologue :: bytes where
  "waPrologue = [0x57, 0x41, 6, 3]"

definition waMaxFrame :: nat where "waMaxFrame = 65536"

text \<open>The 32 random bytes of the ephemeral key are an argument.\<close>

definition WhatsAppHello :: "bytes \<Rightarrow> bytes" where
  "WhatsAppHello eph =
     (let inner = [0x0a, word_of_nat (length eph)] @ eph;
          msg = [0x12, word_of_nat (length inner)] @ inner
      in waPrologue @ be24 (length msg) @ msg)"

record whatsAppServerHello =
  wa_ephemeral :: nat
  wa_static :: nat
  wa_payload :: nat

definition wa_hello_String :: "whatsAppServerHello \<Rightarrow> string" where
  "wa_hello_String h = ''ephemeral='' @ utoa (wa_ephemeral h) @ '' static='' @ utoa (wa_static h) @ '' payload='' @ utoa (wa_payload h)"

definition wa_inner :: "64 word \<Rightarrow> bytes \<Rightarrow> whatsAppServerHello \<Rightarrow> whatsAppServerHello \<times> wa_error option" where
  "wa_inner f b h =
     (if f = 1 then h\<lparr>wa_ephemeral := length b\<rparr>
      else if f = 2 then h\<lparr>wa_static := length b\<rparr>
      else if f = 3 then h\<lparr>wa_payload := length b\<rparr>
      else h, None)"

definition wa_outer :: "64 word \<Rightarrow> bytes \<Rightarrow> whatsAppServerHello \<times> bool \<Rightarrow> (whatsAppServerHello \<times> bool) \<times> wa_error option" where
  "wa_outer field v st =
     (if field \<noteq> 3 then (st, None)
      else case protoFields wa_inner v (fst st) of (h, e) \<Rightarrow> ((h, True), e))"

definition ParseWhatsAppHello :: "bytes \<Rightarrow> wa_error + whatsAppServerHello" where
  "ParseWhatsAppHello body =
     (case protoFields wa_outer body (\<lparr>wa_ephemeral = 0, wa_static = 0, wa_payload = 0\<rparr>, False) of ((h, found), err) \<Rightarrow>
        (case err of
           Some e \<Rightarrow> Inl e
         | None \<Rightarrow>
             if \<not> found then Inl (WNoServerHello (length body))
             else if wa_ephemeral h \<noteq> 32 \<or> wa_static h = 0 \<or> wa_payload h = 0
             then Inl (WBadServerHello (wa_ephemeral h) (wa_static h) (wa_payload h))
             else Inr h))"

text \<open>The reader is the bytes it will yield before it fails.\<close>

definition ReadWhatsAppHello :: "bytes \<Rightarrow> wa_error + whatsAppServerHello" where
  "ReadWhatsAppHello r =
     (if length r < 3 then Inl WShortRead
      else let n = be_nat (take 3 r)
           in if n = 0 \<or> n > waMaxFrame then Inl (WFrameLength n)
              else if length r < 3 + n then Inl WShortRead
              else ParseWhatsAppHello (take n (drop 3 r)))"

section \<open>What the walk hands over\<close>

lemma Uvarint_rest: "Uvarint b = (x, n) \<Longrightarrow> n > 0 \<Longrightarrow> from_ix b (nat n) = Some (drop (nat n) b)"
  using Uvarint_le [of b] by (simp add: from_ix_def)

text \<open>The length read fits in what is left, so the slices exist.\<close>

lemma field_in_range:
  assumes "Uvarint b = (l, m)" and "0 < m" and "\<not> l > word_of_int (int (length b) - m)"
  shows "nat m + unat l \<le> length b"
proof -
  define k where "k = length b - nat m"
  have k: "int (length b) - m = int k"
    using Uvarint_le [of b] assms(1,2) by (simp add: k_def of_nat_diff)
  have "unat l \<le> unat (word_of_nat k :: 64 word)"
    using assms(3) k by (simp add: not_less word_le_nat_alt)
  also have "\<dots> \<le> k" by (simp add: unat_of_nat)
  finally show ?thesis using Uvarint_le [of b] assms(1,2) by (simp add: k_def)
qed

lemma slices_in_range:
  "nat m + j \<le> length b \<Longrightarrow> slc b (nat m) (nat m + j) = Some (take j (drop (nat m) b)) \<and> from_ix b (nat m + j) = Some (drop (nat m + j) b)"
  by (simp add: slc_def from_ix_def take_drop)

text \<open>The walk as a reference sees it: the fields of the message up to the first error, and that error.\<close>

function field_list :: "bytes \<Rightarrow> (64 word \<times> bytes) list \<times> wa_error option" where
  "field_list b =
     (if b = [] then ([], None)
      else case Uvarint b of (key, n) \<Rightarrow>
        if n \<le> 0 then ([], Some WMalformedKey)
        else let b1 = drop (nat n) b
             in if key AND 7 = 0
                then (case Uvarint b1 of (_, m) \<Rightarrow> if m \<le> 0 then ([], Some WMalformedVarint) else field_list (drop (nat m) b1))
                else if key AND 7 = 2
                then (case Uvarint b1 of (l, m) \<Rightarrow>
                        if m \<le> 0 \<or> l > word_of_int (int (length b1) - m) then ([], Some WMalformedLength)
                        else case field_list (drop (nat m + unat l) b1) of
                               (fs, e) \<Rightarrow> ((drop_bit 3 key, take (unat l) (drop (nat m) b1)) # fs, e))
                else ([], Some (WWireType (unat (key AND 7)))))"
  by pat_completeness auto
termination
  by (relation "measure length") auto

declare field_list.simps [simp del]

fun feed :: "(64 word \<Rightarrow> bytes \<Rightarrow> 's \<Rightarrow> 's \<times> wa_error option) \<Rightarrow> (64 word \<times> bytes) list \<Rightarrow> wa_error option \<Rightarrow> 's \<Rightarrow> 's \<times> wa_error option" where
  "feed fn [] e st = (st, e)"
| "feed fn ((f, v) # fs) e st = (case fn f v st of (st', Some e') \<Rightarrow> (st', Some e') | (st', None) \<Rightarrow> feed fn fs e st')"

text \<open>The steps of the walk, one per shape of the field.\<close>

lemma protoFields_steps:
  "protoFields fn [] st = (st, None)"
  "b \<noteq> [] \<Longrightarrow> Uvarint b = (key, n) \<Longrightarrow> n \<le> 0 \<Longrightarrow> protoFields fn b st = (st, Some WMalformedKey)"
  "b \<noteq> [] \<Longrightarrow> Uvarint b = (key, n) \<Longrightarrow> \<not> n \<le> 0 \<Longrightarrow> key AND 7 \<noteq> 0 \<Longrightarrow> key AND 7 \<noteq> 2 \<Longrightarrow>
     protoFields fn b st = (st, Some (WWireType (unat (key AND 7))))"
  by (subst protoFields.simps, simp add: Uvarint_rest)+

lemma protoFields_varint:
  assumes "b \<noteq> []" and "Uvarint b = (key, n)" and "\<not> n \<le> 0" and "key AND 7 = 0" and "Uvarint (drop (nat n) b) = (x, m)"
  shows "protoFields fn b st = (if m \<le> 0 then (st, Some WMalformedVarint) else protoFields fn (drop (nat m) (drop (nat n) b)) st)"
  using assms by (subst protoFields.simps) (simp add: Uvarint_rest del: drop_drop)

lemma protoFields_field:
  assumes "b \<noteq> []" and "Uvarint b = (key, n)" and "\<not> n \<le> 0" and "key AND 7 = 2" and "Uvarint (drop (nat n) b) = (l, m)"
  shows "protoFields fn b st =
    (if m \<le> 0 \<or> l > word_of_int (int (length (drop (nat n) b)) - m) then (st, Some WMalformedLength)
     else case fn (drop_bit 3 key) (take (unat l) (drop (nat m) (drop (nat n) b))) st of
            (st', Some e) \<Rightarrow> (st', Some e)
          | (st', None) \<Rightarrow> protoFields fn (drop (nat m + unat l) (drop (nat n) b)) st')"
proof -
  let ?b = "drop (nat n) b"
  have "\<not> (m \<le> 0 \<or> l > word_of_int (int (length ?b) - m)) \<Longrightarrow> nat m + unat l \<le> length ?b"
    using field_in_range [OF assms(5)] by simp
  then show ?thesis
    using assms by (subst protoFields.simps) (simp add: Uvarint_rest slices_in_range del: drop_drop length_drop)
qed

lemma field_list_steps:
  "field_list [] = ([], None)"
  "b \<noteq> [] \<Longrightarrow> Uvarint b = (key, n) \<Longrightarrow> n \<le> 0 \<Longrightarrow> field_list b = ([], Some WMalformedKey)"
  "b \<noteq> [] \<Longrightarrow> Uvarint b = (key, n) \<Longrightarrow> \<not> n \<le> 0 \<Longrightarrow> key AND 7 \<noteq> 0 \<Longrightarrow> key AND 7 \<noteq> 2 \<Longrightarrow>
     field_list b = ([], Some (WWireType (unat (key AND 7))))"
  by (subst field_list.simps, simp)+

lemma field_list_varint:
  assumes "b \<noteq> []" and "Uvarint b = (key, n)" and "\<not> n \<le> 0" and "key AND 7 = 0" and "Uvarint (drop (nat n) b) = (x, m)"
  shows "field_list b = (if m \<le> 0 then ([], Some WMalformedVarint) else field_list (drop (nat m) (drop (nat n) b)))"
  using assms by (subst field_list.simps) (simp del: drop_drop)

lemma field_list_field:
  assumes "b \<noteq> []" and "Uvarint b = (key, n)" and "\<not> n \<le> 0" and "key AND 7 = 2" and "Uvarint (drop (nat n) b) = (l, m)"
  shows "field_list b =
    (if m \<le> 0 \<or> l > word_of_int (int (length (drop (nat n) b)) - m) then ([], Some WMalformedLength)
     else let r = field_list (drop (nat m + unat l) (drop (nat n) b))
          in ((drop_bit 3 key, take (unat l) (drop (nat m) (drop (nat n) b))) # fst r, snd r))"
  using assms by (subst field_list.simps) (simp add: Let_def case_prod_unfold del: drop_drop length_drop)

text \<open>The five shapes of a message, for inductions on the walk.\<close>

lemma field_shapes [consumes 0, case_names Nil Key Varint Field Wire]:
  obtains "b = []"
  | key n where "b \<noteq> []" "Uvarint b = (key, n)" "n \<le> 0"
  | key n x m where "b \<noteq> []" "Uvarint b = (key, n)" "\<not> n \<le> 0" "key AND 7 = 0" "Uvarint (drop (nat n) b) = (x, m)"
  | key n l m where "b \<noteq> []" "Uvarint b = (key, n)" "\<not> n \<le> 0" "key AND 7 = 2" "Uvarint (drop (nat n) b) = (l, m)"
  | key n where "b \<noteq> []" "Uvarint b = (key, n)" "\<not> n \<le> 0" "key AND 7 \<noteq> 0" "key AND 7 \<noteq> 2"
proof -
  obtain key n where k: "Uvarint b = (key, n)" by (cases "Uvarint b")
  obtain x m where "Uvarint (drop (nat n) b) = (x, m)" by (cases "Uvarint (drop (nat n) b)")
  then show thesis using that k by metis
qed

lemma walk_induct [case_names Nil Key Varint Field Wire]:
  assumes "P []"
    and "\<And>b key n. b \<noteq> [] \<Longrightarrow> Uvarint b = (key, n) \<Longrightarrow> n \<le> 0 \<Longrightarrow> P b"
    and "\<And>b key n x m. b \<noteq> [] \<Longrightarrow> Uvarint b = (key, n) \<Longrightarrow> \<not> n \<le> 0 \<Longrightarrow> key AND 7 = 0 \<Longrightarrow> Uvarint (drop (nat n) b) = (x, m) \<Longrightarrow>
           P (drop (nat m) (drop (nat n) b)) \<Longrightarrow> P b"
    and "\<And>b key n l m. b \<noteq> [] \<Longrightarrow> Uvarint b = (key, n) \<Longrightarrow> \<not> n \<le> 0 \<Longrightarrow> key AND 7 = 2 \<Longrightarrow> Uvarint (drop (nat n) b) = (l, m) \<Longrightarrow>
           P (drop (nat m + unat l) (drop (nat n) b)) \<Longrightarrow> P b"
    and "\<And>b key n. b \<noteq> [] \<Longrightarrow> Uvarint b = (key, n) \<Longrightarrow> \<not> n \<le> 0 \<Longrightarrow> key AND 7 \<noteq> 0 \<Longrightarrow> key AND 7 \<noteq> 2 \<Longrightarrow> P b"
  shows "P b"
proof (induction "length b" arbitrary: b rule: less_induct)
  case less
  show ?case
  proof (cases b rule: field_shapes)
    case (Varint key n x m)
    then show ?thesis using assms(3) [OF Varint less] by simp
  next
    case (Field key n l m)
    then show ?thesis using assms(4) [OF Field less] by simp
  qed (use assms(1,2,5) in blast)+
qed

lemma protoFields_feed: "protoFields fn b st = feed fn (fst (field_list b)) (snd (field_list b)) st"
proof (induction b arbitrary: st rule: walk_induct)
  case (Varint b key n x m)
  show ?case unfolding protoFields_varint [OF Varint(1-5)] field_list_varint [OF Varint(1-5)] using Varint(6) by simp
next
  case (Field b key n l m)
  show ?case
    unfolding protoFields_field [OF Field(1-5)] field_list_field [OF Field(1-5)]
    by (simp add: Let_def Field(6) split: prod.splits option.splits del: drop_drop length_drop)
qed (simp_all add: protoFields_steps field_list_steps)

lemma field_list_no_panic: "snd (field_list b) \<noteq> Some WPanic"
proof (induction b rule: walk_induct)
  case (Varint b key n x m)
  show ?case unfolding field_list_varint [OF Varint(1-5)] using Varint(6) by simp
next
  case (Field b key n l m)
  show ?case unfolding field_list_field [OF Field(1-5)] using Field(6) by (simp add: Let_def del: drop_drop length_drop)
qed (simp_all add: field_list_steps)

text \<open>Each field handed over took at least two bytes besides its content.\<close>

lemma field_list_bound: "(\<Sum>p \<leftarrow> fst (field_list b). length (snd p) + 2) \<le> length b"
proof (induction b rule: walk_induct)
  case (Varint b key n x m)
  show ?case unfolding field_list_varint [OF Varint(1-5)] using Varint(6) by auto
next
  case (Field b key n l m)
  let ?b = "drop (nat n) b" and ?r = "drop (nat m + unat l) (drop (nat n) b)"
  define S where "S = (\<Sum>p \<leftarrow> fst (field_list ?r). length (snd p) + 2)"
  have S: "S \<le> length ?r" using Field(6) by (simp add: S_def)
  show ?case
  proof (cases "m \<le> 0 \<or> l > word_of_int (int (length ?b) - m)")
    case False
    then have "nat m + unat l \<le> length ?b" using field_in_range [OF Field(5)] by simp
    moreover have "1 \<le> nat n" "1 \<le> nat m" using Field(3) False by auto
    ultimately have "unat l + 2 + S \<le> length b" using S unfolding length_drop by linarith
    then show ?thesis
      unfolding field_list_field [OF Field(1-5)] using False by (simp add: Let_def S_def del: drop_drop length_drop)
  qed (simp add: field_list_field [OF Field(1-5)] del: length_drop)
qed (simp_all add: field_list_steps)

lemma feed_record: "feed (\<lambda>f v seen. (seen @ [(f, v)], None)) fs e acc = (acc @ fs, e)"
  by (induction fs arbitrary: acc) auto

text \<open>The walk over a protobuf message ends for every input, and what it hands its callback is bounded by the
  message: the contents of the fields and two bytes for each of them never exceed its length, so the
  callback runs at most half as often as there are bytes.\<close>

theorem proto_walk_bounded:
  "\<exists>fields e. protoFields (\<lambda>f v seen. (seen @ [(f, v)], None)) b [] = (fields, e)
     \<and> (\<Sum>p \<leftarrow> fields. length (snd p) + 2) \<le> length b \<and> 2 * length fields \<le> length b"
proof (intro exI conjI)
  show "protoFields (\<lambda>f v seen. (seen @ [(f, v)], None)) b [] = (fst (field_list b), snd (field_list b))"
    by (simp add: protoFields_feed feed_record)
  have "2 * length fs \<le> (\<Sum>p \<leftarrow> fs. length (snd p) + 2)" for fs :: "(64 word \<times> bytes) list"
    by (induction fs) auto
  then show "2 * length (fst (field_list b)) \<le> length b" using field_list_bound [of b] le_trans by blast
qed (rule field_list_bound)

section \<open>A server hello is read\<close>

text \<open>A reference encoder: \<open>binary.PutUvarint\<close> and the length-delimited fields of the message.\<close>

lemma unat_drop_seven: "unat (drop_bit 7 (w :: 64 word)) = unat w div 128"
  using unat_drop_bit_eq [of 7 w] drop_bit_eq_div [of 7 "unat w"] by simp

function put_uvarint :: "64 word \<Rightarrow> bytes" where
  "put_uvarint w = (if w < 0x80 then [ucast w] else (ucast (w AND 0x7f) OR 0x80) # put_uvarint (drop_bit 7 w))"
  by pat_completeness auto
termination
  by (relation "measure unat") (auto simp: unat_drop_seven word_less_nat_alt simp del: drop_bit_eq_div)

declare put_uvarint.simps [simp del]

lemma uvarint_byte:
  fixes w :: "64 word"
  shows "\<not> (ucast (w AND 0x7f) OR 0x80 :: byte) < 0x80"
    and "ucast ((ucast (w AND 0x7f) OR 0x80 :: byte) AND 0x7f) = take_bit 7 w"
proof -
  have m: "(0x7f::64 word) = mask 7" "(0x7f::byte) = mask 7" by (simp_all add: mask_eq_exp_minus_1)
  have b: "bit (0x80::byte) n \<longleftrightarrow> n = 7" for n
    using bit_exp_iff [where 'a = byte, of 7 n] by auto
  have b': "bit (0x80::int) n \<longleftrightarrow> n = 7" for n
    using bit_exp_iff [where 'a = int, of 7 n] by auto
  have "\<not> bit x 7" if "x < 0x80" for x :: byte
    using that bit_unsigned_iff [where 'a = nat, of x 7] by (simp add: word_less_nat_alt bit_iff_odd [of "unat x"])
  moreover have "bit (ucast (w AND 0x7f) OR 0x80 :: byte) 7" by (simp add: bit_or_iff b)
  ultimately show "\<not> (ucast (w AND 0x7f) OR 0x80 :: byte) < 0x80" by blast
  show "ucast ((ucast (w AND 0x7f) OR 0x80 :: byte) AND 0x7f) = take_bit 7 w"
    by (rule bit_word_eqI) (auto simp: m bit_simps b b')
qed

lemma split_seven: "push_bit s (take_bit 7 w) OR push_bit (s + 7) (drop_bit 7 w) = push_bit s (w :: 64 word)"
proof (rule bit_word_eqI)
  fix n
  have e: "7 + (n - (s + 7)) = n - s" if "\<not> n - s < 7" using that by simp
  show "bit (push_bit s (take_bit 7 w) OR push_bit (s + 7) (drop_bit 7 w)) n = bit (push_bit s w) n" if "n < LENGTH(64)"
    using that by (cases "n - s < 7") (auto simp: bit_simps e)
qed

lemma uvarint_read_back:
  assumes "unat w < 2 ^ (63 - 7 * i)" and "i < 9"
  shows "uvarint_from (put_uvarint w @ r) i x (7 * i) = (x OR push_bit (7 * i) w, int (i + length (put_uvarint w)))"
  using assms
proof (induction w arbitrary: i x rule: put_uvarint.induct)
  case (1 w)
  show ?case
  proof (cases "w < 0x80")
    case True
    then have u: "unat w < 128" by (simp add: word_less_nat_alt)
    then have v: "unat (ucast w :: byte) = unat w" by (simp add: unsigned_ucast_eq take_bit_nat_eq_self)
    then have "(ucast w :: byte) < 0x80" using u by (simp add: word_less_nat_alt)
    moreover have "ucast (ucast w :: byte) = w"
      using v u by (intro word_unat_eq_iff [THEN iffD2]) (simp add: unsigned_ucast_eq unsigned_take_bit_eq take_bit_nat_eq_self)
    ultimately show ?thesis using True 1(3) by (subst (1 2) put_uvarint.simps) simp
  next
    case False
    then have "(2::nat) ^ 7 < 2 ^ (63 - 7 * i)" using 1(2) by (simp add: word_less_nat_alt)
    then have "7 < 63 - 7 * i" by (rule power_less_imp_less_exp [rotated]) simp
    then have i: "i < 8" by simp
    then have "(2::nat) ^ (63 - 7 * i) = 2 ^ (63 - 7 * Suc i) * 128"
      using power_add [of "2::nat" "63 - 7 * Suc i" 7] by simp
    then have "unat (drop_bit 7 w) < 2 ^ (63 - 7 * Suc i)"
      using 1(2) unfolding unat_drop_seven by (simp add: less_mult_imp_div_less)
    from 1(1) [OF False this] i False show ?thesis
      by (subst (1 2) put_uvarint.simps) (simp add: uvarint_byte or.assoc split_seven [of "7 * i", unfolded add.commute [of _ 7]] add.commute)
  qed
qed

lemma put_uvarint_Cons: "\<exists>b bs. put_uvarint w = b # bs"
  by (subst put_uvarint.simps) auto

lemma Uvarint_put: "unat w < 2 ^ 63 \<Longrightarrow> Uvarint (put_uvarint w @ r) = (w, int (length (put_uvarint w)))"
  using uvarint_read_back [of w 0 r 0] by (simp add: Uvarint_def)

definition pb_field :: "byte \<Rightarrow> bytes \<Rightarrow> bytes" where
  "pb_field k v = k # put_uvarint (word_of_nat (length v)) @ v"

definition server_hello :: "bytes \<Rightarrow> bytes \<Rightarrow> bytes \<Rightarrow> bytes" where
  "server_hello eph st pl = pb_field 0x1a (pb_field 0x0a eph @ pb_field 0x12 st @ pb_field 0x1a pl)"

lemma field_list_pb:
  assumes "k < 0x80" and "k AND 7 = 2" and "length v + length r < 2 ^ 63"
  shows "field_list (pb_field k v @ r) = ((ucast (drop_bit 3 k), v) # fst (field_list r), snd (field_list r))"
proof -
  let ?w = "word_of_nat (length v) :: 64 word"
  have u: "unat ?w = length v" using assms(3) by (simp add: unat_of_nat take_bit_nat_eq_self unsigned_of_nat)
  then have v: "Uvarint (drop (nat 1) (pb_field k v @ r)) = (?w, int (length (put_uvarint ?w)))"
    using assms(3) Uvarint_put [of ?w "v @ r"] by (simp add: pb_field_def)
  have k: "Uvarint (pb_field k v @ r) = (ucast k, 1)" "pb_field k v @ r \<noteq> []" "\<not> (1::int) \<le> 0"
    using assms(1) by (simp_all add: pb_field_def Uvarint_def)
  have "ucast k AND (7 :: 64 word) = ucast (k AND 7)" by (rule bit_word_eqI) (auto simp: bit_simps dest: bit_imp_le_length)
  then have "ucast k AND (7 :: 64 word) = 2" by (simp add: assms(2))
  moreover have "drop_bit 3 (ucast k :: 64 word) = ucast (drop_bit 3 k)" by (rule bit_word_eqI) (auto simp: bit_simps dest: bit_imp_le_length)
  moreover have "\<not> (int (length (put_uvarint ?w)) \<le> 0 \<or> ?w > word_of_int (int (length (drop (nat 1) (pb_field k v @ r))) - int (length (put_uvarint ?w))))"
  proof -
    have "int (length (drop (nat 1) (pb_field k v @ r))) - int (length (put_uvarint ?w)) = int (length v + length r)"
      by (simp add: pb_field_def)
    moreover have "unat (word_of_nat (length v + length r) :: 64 word) = length v + length r"
      using assms(3) by (simp add: unsigned_of_nat take_bit_nat_eq_self del: of_nat_add)
    moreover have "put_uvarint ?w \<noteq> []" using put_uvarint_Cons [of ?w] by auto
    ultimately show ?thesis using u by (simp add: not_less word_le_nat_alt del: of_nat_add length_drop)
  qed
  ultimately show ?thesis
    using field_list_field [OF k(2,1,3) _ v] u by (simp only: Let_def if_False) (simp add: pb_field_def)
qed



lemma server_hello_parsed:
  assumes "length eph = 32" and "st \<noteq> []" and "pl \<noteq> []" and "length (server_hello eph st pl) < 2 ^ 63"
  shows "ParseWhatsAppHello (server_hello eph st pl) = Inr \<lparr>wa_ephemeral = 32, wa_static = length st, wa_payload = length pl\<rparr>"
proof -
  define inner where "inner = pb_field 0x0a eph @ pb_field 0x12 st @ pb_field 0x1a pl"
  have len: "length inner < 2 ^ 63" using assms(4) by (simp add: server_hello_def inner_def pb_field_def)
  then have l1: "length eph + length (pb_field 0x12 st @ pb_field 0x1a pl) < 2 ^ 63"
    and l2: "length st + length (pb_field 0x1a pl) < 2 ^ 63" and l3: "length pl + length ([] :: bytes) < 2 ^ 63"
    by (simp_all add: inner_def pb_field_def)
  have "field_list inner = ([(1, eph), (2, st), (3, pl)], None)"
    unfolding inner_def
    using field_list_pb [where k = "0x0a", OF _ _ l1] field_list_pb [where k = "0x12", OF _ _ l2] field_list_pb [where k = "0x1a", OF _ _ l3]
    by (simp add: field_list_steps)
  then have "protoFields wa_inner inner h = (\<lparr>wa_ephemeral = 32, wa_static = length st, wa_payload = length pl\<rparr>, None)" for h
    using assms(1) by (simp add: protoFields_feed wa_inner_def)
  moreover have "field_list (server_hello eph st pl) = ([(3, inner)], None)"
    using field_list_pb [of "0x1a" inner "[]"] len by (simp add: server_hello_def inner_def field_list_steps)
  ultimately show ?thesis
    using assms(2,3) unfolding ParseWhatsAppHello_def protoFields_feed [of wa_outer] by (simp add: wa_outer_def)
qed

text \<open>A server hello in the gateway's framing is accepted whatever follows it on the connection: with a 32-byte
  ephemeral key and non-empty static key and payload, in a frame of at most 64 KiB, the reader
  returns the three lengths.\<close>

theorem whatsapp_hello_accepted:
  assumes "length eph = 32" and "st \<noteq> []" and "pl \<noteq> []" and "length (server_hello eph st pl) \<le> waMaxFrame"
  shows "ReadWhatsAppHello (be24 (length (server_hello eph st pl)) @ server_hello eph st pl @ rest)
    = Inr \<lparr>wa_ephemeral = 32, wa_static = length st, wa_payload = length pl\<rparr>"
proof -
  let ?m = "server_hello eph st pl"
  have "?m \<noteq> []" by (simp add: server_hello_def pb_field_def)
  moreover have "be_nat (be24 (length ?m)) = length ?m" "length (be24 (length ?m)) = 3"
    using assms(4) by (simp_all add: waMaxFrame_def be24_def be_nat_be_bytes)
  ultimately show ?thesis
    using server_hello_parsed [OF assms(1-3)] assms(4) by (simp add: ReadWhatsAppHello_def Let_def waMaxFrame_def)
qed

theorem whatsapp_hello_accepted_witness:
  "ReadWhatsAppHello (be24 (length (server_hello (replicate 32 9) [1] [2])) @ server_hello (replicate 32 9) [1] [2] @ [7])
     = Inr \<lparr>wa_ephemeral = 32, wa_static = 1, wa_payload = 1\<rparr>"
  using whatsapp_hello_accepted [of "replicate 32 9" "[1]" "[2]" "[7]"]
  by (simp add: server_hello_def pb_field_def waMaxFrame_def put_uvarint.simps)

lemma wa_inner_no_error: "snd (wa_inner f b h) = None"
  by (simp add: wa_inner_def)

lemma feed_no_panic:
  assumes "\<And>f v st. snd (fn f v st) \<noteq> Some WPanic" and "e \<noteq> Some WPanic"
  shows "snd (feed fn fs e st) \<noteq> Some WPanic"
  using assms by (induction fn fs e st rule: feed.induct) (auto split: prod.splits option.splits simp: prod_eq_iff)

lemma protoFields_no_panic: "(\<And>f v st. snd (fn f v st) \<noteq> Some WPanic) \<Longrightarrow> snd (protoFields fn b st) \<noteq> Some WPanic"
  unfolding protoFields_feed by (rule feed_no_panic) (simp_all add: field_list_no_panic)

lemma parse_hello_no_panic: "ParseWhatsAppHello b \<noteq> Inl WPanic"
proof -
  have "snd (wa_outer f v st) \<noteq> Some WPanic" for f v st
    using protoFields_no_panic [of wa_inner v "fst st"] by (auto simp: wa_outer_def wa_inner_no_error split: prod.splits)
  from protoFields_no_panic [OF this]
  have "snd (protoFields wa_outer b st) \<noteq> Some WPanic" for st .
  then show ?thesis by (auto simp: ParseWhatsAppHello_def split: prod.splits option.splits dest!: spec simp: prod_eq_iff)
qed

text \<open>The reader never indexes out of range, whatever the peer sends, and it is not fooled by its own bytes: a
  middlebox that echoes the client's hello, with or without the prologue, is not taken for a server.\<close>

theorem whatsapp_reader_safe:
  assumes "length eph = 32"
  shows "ReadWhatsAppHello r \<noteq> Inl WPanic
    \<and> ReadWhatsAppHello (WhatsAppHello eph) = Inl (WFrameLength 0x574106)
    \<and> ReadWhatsAppHello (drop 4 (WhatsAppHello eph)) = Inl (WNoServerHello 36)"
proof (intro conjI)
  show "ReadWhatsAppHello r \<noteq> Inl WPanic"
    using parse_hello_no_panic by (auto simp: ReadWhatsAppHello_def Let_def)
  show "ReadWhatsAppHello (WhatsAppHello eph) = Inl (WFrameLength 0x574106)"
    using assms by (simp add: ReadWhatsAppHello_def WhatsAppHello_def Let_def waPrologue_def waMaxFrame_def be_nat_def)
  let ?inner = "pb_field 0x0a eph" and ?msg = "pb_field 0x12 (pb_field 0x0a eph)"
  have p: "put_uvarint 32 = [32]" "put_uvarint 34 = [34]" by (simp_all add: put_uvarint.simps)
  have l: "length ?inner = 34" "length ?msg = 36" using assms by (simp_all add: pb_field_def p)
  have "drop 4 (WhatsAppHello eph) = be24 36 @ ?msg"
    using assms by (simp add: WhatsAppHello_def waPrologue_def Let_def pb_field_def p)
  moreover have "field_list ?msg = ([(2, ?inner)], None)"
    using field_list_pb [of "0x12" ?inner "[]"] l by (simp add: field_list_steps)
  then have "ParseWhatsAppHello ?msg = Inl (WNoServerHello 36)"
    using l by (simp add: ParseWhatsAppHello_def protoFields_feed wa_outer_def)
  ultimately show "ReadWhatsAppHello (drop 4 (WhatsAppHello eph)) = Inl (WNoServerHello 36)"
    using l by (simp add: ReadWhatsAppHello_def Let_def be24_def be_nat_be_bytes waMaxFrame_def)
qed

theorem whatsapp_reader_safe_witness:
  "ReadWhatsAppHello (drop 4 (WhatsAppHello (replicate 32 5))) = Inl (WNoServerHello 36)"
  using whatsapp_reader_safe [of "replicate 32 5"] by simp

end
