(* ===== verification/Client.thy ===== *)
theory Client
  imports Envelope Dest Merge
begin

text \<open>
  The scan's client state (\<open>internal/client/client.go\<close>, the timeouts of \<open>context.go\<close>): the options and their
  defaults, certificate pinning, the bootstrap from the control plane, and the authenticated
  envelopes of the echo tests. What the control plane and the resolver answer, the parsed
  certificate and the parsed server time are arguments; the logger and the HTTP transport are
  left out.
\<close>

section \<open>State\<close>

record params =
  pa_schema :: int
  pa_server_version :: string
  pa_server_time :: string
  pa_spki_pin :: string
  pa_wg_public_key :: string
  pa_tcp_ports :: "int list"
  pa_udp_ports :: "int list"
  pa_dns_ports :: "int list"
  pa_dot_port :: int
  pa_dns_zone :: string
  pa_quic_ports :: "int list"
  pa_enabled_tests :: "string list"
  pa_max_udp_payload :: int
  pa_features :: "string list"
  pa_obfs4_cert :: string
  pa_tor_spki_pin :: string
  pa_ovpn_tls_auth_key :: string

record sessionResponse =
  sr_schema :: int
  sr_session_id :: string
  sr_expires_at :: string
  sr_server_time :: string
  sr_tests :: "string list"
  sr_token :: string
  sr_udp_cookie :: string
  sr_session_key :: string
  sr_client_addr :: string

record sessionRequest =
  sq_client_version :: string
  sq_client_nonce :: string
  sq_tests :: "string list"
  sq_capabilities :: "string list"

record options =
  op_target :: string
  op_control_port :: int
  op_pin :: string
  op_tests :: "string list"
  op_profile :: string
  op_repeat :: int
  op_retry :: int
  op_parallel :: int
  op_timeout :: duration
  op_trigger_host :: string
  op_sni_list :: "string list"
  op_bulk_kb :: int
  op_session_packets :: int
  op_reality_sni :: string
  op_burst_n :: int
  op_adaptive :: bool
  op_detect_bypass :: bool
  op_local_addr :: string
  op_sites :: bool
  op_targets :: "target list"

record client =
  cl_opt :: options
  cl_target :: addr
  cl_params :: params
  cl_session :: sessionResponse
  cl_sid :: bytes
  cl_key :: bytes
  cl_cookie :: bytes
  cl_observed_pin :: string
  cl_pin_matched :: bool
  cl_control_rtt :: duration
  cl_standalone :: bool
  cl_clock_skew :: duration
  cl_warnings :: "string list"

definition zero_params :: params where
  "zero_params = \<lparr>pa_schema = 0, pa_server_version = '''', pa_server_time = '''', pa_spki_pin = '''', pa_wg_public_key = '''', pa_tcp_ports = [],
     pa_udp_ports = [], pa_dns_ports = [], pa_dot_port = 0, pa_dns_zone = '''', pa_quic_ports = [], pa_enabled_tests = [],
     pa_max_udp_payload = 0, pa_features = [], pa_obfs4_cert = '''', pa_tor_spki_pin = '''', pa_ovpn_tls_auth_key = ''''\<rparr>"

definition zero_session :: sessionResponse where
  "zero_session = \<lparr>sr_schema = 0, sr_session_id = '''', sr_expires_at = '''', sr_server_time = '''', sr_tests = [], sr_token = '''',
     sr_udp_cookie = '''', sr_session_key = '''', sr_client_addr = ''''\<rparr>"

definition new_client :: "options \<Rightarrow> addr \<Rightarrow> bool \<Rightarrow> client" where
  "new_client opt target alone = \<lparr>cl_opt = opt, cl_target = target, cl_params = zero_params, cl_session = zero_session, cl_sid = zero_sid,
     cl_key = [], cl_cookie = [], cl_observed_pin = '''', cl_pin_matched = False, cl_control_rtt = 0, cl_standalone = alone,
     cl_clock_skew = 0, cl_warnings = []\<rparr>"

section \<open>Pins\<close>

text \<open>\<open>base64.StdEncoding\<close> over the unpadded URL codec of \<open>Token\<close>.\<close>

definition std_char :: "char \<Rightarrow> char" where
  "std_char c = (if c = CHR ''-'' then CHR ''+'' else if c = CHR ''_'' then CHR ''/'' else c)"

definition url_char :: "char \<Rightarrow> char" where
  "url_char c = (if c = CHR ''+'' then CHR ''-'' else if c = CHR ''/'' then CHR ''_'' else if c = CHR ''-'' \<or> c = CHR ''_'' then CHR ''='' else c)"

definition StdEncode :: "bytes \<Rightarrow> string" where
  "StdEncode b = (let s = map std_char (b64_encode b) in s @ replicate ((4 - length s mod 4) mod 4) (CHR ''=''))"

definition StdDecode :: "string \<Rightarrow> bytes option" where
  "StdDecode s =
     (let t = List.filter (\<lambda>c. c \<noteq> CHR 0x0A \<and> c \<noteq> CHR 0x0D) s;
          n = length (takeWhile (\<lambda>c. c = CHR ''='') (rev t))
      in if length t mod 4 \<noteq> 0 \<or> n > 2 then None else b64_decode (map url_char (take (length t - n) t)))"

datatype client_error =
    BadPin
  | BadLocalAddr string
  | NeedsServer string
  | TargetRequired
  | BadTarget string
  | NoCertificate
  | BadCertificate string
  | PinMismatch string string
  | ControlError string string
  | PinInconsistent string string
  | SessionIDError token_error
  | BadSessionKey
  | BadUDPCookie

section \<open>New\<close>

definition with_defaults :: "options \<Rightarrow> options" where
  "with_defaults o1 = o1\<lparr>
     op_control_port := (if op_control_port o1 = 0 then 8443 else op_control_port o1),
     op_repeat := (if op_repeat o1 \<le> 0 then 3 else op_repeat o1),
     op_parallel := (if op_parallel o1 \<le> 0 then 4 else op_parallel o1),
     op_timeout := (if op_timeout o1 \<le> 0 then 6000000000 else op_timeout o1),
     op_trigger_host := (if op_trigger_host o1 = '''' then ''www.youtube.com'' else op_trigger_host o1),
     op_bulk_kb := (if op_bulk_kb o1 \<le> 0 then 64 else op_bulk_kb o1),
     op_session_packets := (if op_session_packets o1 \<le> 0 then 12 else op_session_packets o1),
     op_reality_sni := (if op_reality_sni o1 = '''' then ''www.microsoft.com'' else op_reality_sni o1),
     op_burst_n := (if op_burst_n o1 \<le> 0 then 4 else op_burst_n o1)\<rparr>"

text \<open>The resolver of host names is the argument \<open>lookup\<close>.\<close>

definition New :: "(string \<Rightarrow> addr list option) \<Rightarrow> options \<Rightarrow> client_error + client" where
  "New lookup opt0 =
     (let opt = with_defaults opt0
      in if op_pin opt \<noteq> '''' \<and> \<not> (case StdDecode (op_pin opt) of None \<Rightarrow> False | Some p \<Rightarrow> length p = 32) then Inl BadPin
         else if op_local_addr opt \<noteq> '''' \<and> ParseAddr (op_local_addr opt) = None then Inl (BadLocalAddr (op_local_addr opt))
         else if op_target opt = ''''
         then (case List.find (\<lambda>t. \<not> IsDestTest t) (op_tests opt) of
                 Some t \<Rightarrow> Inl (NeedsServer t)
               | None \<Rightarrow>
                   if \<not> op_sites opt \<and> op_tests opt = [] then Inl TargetRequired
                   else Inr (new_client opt AddrZero True))
         else (case ParseAddr (op_target opt) of
                 Some ip \<Rightarrow> Inr (new_client opt (Unmap ip) False)
               | None \<Rightarrow>
                   (case lookup (op_target opt) of
                      None \<Rightarrow> Inl (BadTarget (op_target opt))
                    | Some [] \<Rightarrow> Inl (BadTarget (op_target opt))
                    | Some (ip # _) \<Rightarrow> Inr (new_client opt (Unmap ip) False))))"

section \<open>Connections to the control plane\<close>

text \<open>A finished dial took \<open>d\<close>.\<close>

definition controlDial_done :: "duration \<Rightarrow> client \<Rightarrow> client" where
  "controlDial_done d c = (if cl_control_rtt c = 0 \<or> d < cl_control_rtt c then c\<lparr>cl_control_rtt := d\<rparr> else c)"

text \<open>The verifier of \<open>pinnedTLSConfig\<close>: the presented chain, and \<open>parse_cert\<close> giving the public key info of a
  certificate or an error.\<close>

definition verify_peer :: "(bytes \<Rightarrow> string + bytes) \<Rightarrow> bool \<Rightarrow> bytes list \<Rightarrow> client \<Rightarrow> client \<times> client_error option" where
  "verify_peer parse_cert rec raw c =
     (case raw of
        [] \<Rightarrow> (c, Some NoCertificate)
      | leaf # _ \<Rightarrow>
          (case parse_cert leaf of
             Inl e \<Rightarrow> (c, Some (BadCertificate e))
           | Inr spki \<Rightarrow>
               (let pin = StdEncode (sha256 spki);
                    want = (if op_pin (cl_opt c) = '''' then pa_spki_pin (cl_params c) else op_pin (cl_opt c));
                    matched = (want = '''' \<or> want = pin);
                    c' = (if rec then c\<lparr>cl_observed_pin := pin, cl_pin_matched := (want \<noteq> '''' \<and> matched)\<rparr> else c)
                in (c', if matched then None else Some (PinMismatch pin want)))))"

definition join_host_port :: "string \<Rightarrow> string \<Rightarrow> string" where
  "join_host_port h p = (if CHR '':'' \<in> set h then ''['' @ h @ '']:'' @ p else h @ '':'' @ p)"

definition controlURL :: "client \<Rightarrow> string \<Rightarrow> string" where
  "controlURL c path = ''https://'' @ join_host_port (addr_string (cl_target c)) (itoa (op_control_port (cl_opt c))) @ path"

text \<open>\<open>st\<close> is the parsed server time, \<open>None\<close> when it does not parse.\<close>

definition EstimateSkew :: "time option \<Rightarrow> time \<Rightarrow> time \<Rightarrow> duration" where
  "EstimateSkew st before after = (case st of None \<Rightarrow> 0 | Some t \<Rightarrow> t - (before + go_quot (after - before) 2))"

text \<open>The session request carries the client's version and a random nonce.\<close>

definition session_request :: "string \<Rightarrow> bytes \<Rightarrow> client \<Rightarrow> sessionRequest" where
  "session_request version nonce c =
     \<lparr>sq_client_version = version, sq_client_nonce = hex_encode nonce, sq_tests = op_tests (cl_opt c), sq_capabilities = [''cp1'', ''utls'', ''quic'']\<rparr>"

definition open_session :: "sessionResponse \<Rightarrow> client \<Rightarrow> client \<times> client_error option" where
  "open_session sr c0 =
     (let c = c0\<lparr>cl_session := sr\<rparr>
      in case ParseSessionID (sr_session_id sr) of
           Inl e \<Rightarrow> (c, Some (SessionIDError e))
         | Inr sid \<Rightarrow>
             (let c = c\<lparr>cl_sid := sid\<rparr>
              in case hex_decode (sr_session_key sr) of
                   None \<Rightarrow> (c, Some BadSessionKey)
                 | Some key \<Rightarrow>
                     (let c = c\<lparr>cl_key := key\<rparr>
                      in case hex_decode (sr_udp_cookie sr) of
                           None \<Rightarrow> (c, Some BadUDPCookie)
                         | Some ck \<Rightarrow> (c\<lparr>cl_cookie := ck\<rparr>, None))))"

text \<open>\<open>get_params\<close> and \<open>post_session\<close> are the two exchanges with the control plane: they may dial, which the
  state they return shows, and give the decoded body or an error. \<open>st\<close> parses a time, \<open>t0\<close> and \<open>t1\<close> are the
  clock before and after the first.\<close>

definition Bootstrap :: "(client \<Rightarrow> client \<times> (string + params)) \<Rightarrow> (sessionRequest \<Rightarrow> client \<Rightarrow> client \<times> (string + sessionResponse))
    \<Rightarrow> (string \<Rightarrow> time option) \<Rightarrow> string \<Rightarrow> bytes \<Rightarrow> time \<Rightarrow> time \<Rightarrow> client \<Rightarrow> client \<times> client_error option" where
  "Bootstrap get_params post_session st version nonce t0 t1 c0 =
     (case get_params c0 of
        (c, Inl e) \<Rightarrow> (c, Some (ControlError ''params'' e))
      | (c, Inr p) \<Rightarrow>
          (let c = c\<lparr>cl_params := p, cl_clock_skew := EstimateSkew (st (pa_server_time p)) t0 t1\<rparr>
           in if op_pin (cl_opt c) = '''' \<and> cl_observed_pin c \<noteq> pa_spki_pin p
              then (c, Some (PinInconsistent (cl_observed_pin c) (pa_spki_pin p)))
              else let c = (if op_pin (cl_opt c) = '''' then c\<lparr>cl_pin_matched := True\<rparr> else c)
                   in (case post_session (session_request version nonce c) c of
                         (c, Inl e) \<Rightarrow> (c, Some (ControlError ''session'' e))
                       | (c, Inr sr) \<Rightarrow> open_session sr c)))"

definition Zone :: "client \<Rightarrow> string" where
  "Zone c = (if pa_dns_zone (cl_params c) \<noteq> '''' then pa_dns_zone (cl_params c) else ''probe.invalid.'')"

section \<open>Timeouts\<close>

definition attemptTimeout :: "client \<Rightarrow> duration" where
  "attemptTimeout c =
     (if \<not> op_adaptive (cl_opt c) \<or> cl_control_rtt c \<le> 0 then op_timeout (cl_opt c)
      else min (max (6 * cl_control_rtt c + 500000000) 1500000000) (op_timeout (cl_opt c)))"

definition stallTimeout :: "client \<Rightarrow> duration" where
  "stallTimeout c = max (attemptTimeout c) 3000000000"

definition destMinTimeout :: duration where "destMinTimeout = 4000000000"

definition destTimeout :: "client \<Rightarrow> duration" where
  "destTimeout c = max (attemptTimeout c) (min destMinTimeout (op_timeout (cl_opt c)))"

section \<open>Envelopes\<close>

text \<open>The nonce is random: an argument.\<close>

definition client_envelope :: "client \<Rightarrow> bytes \<Rightarrow> string \<Rightarrow> 32 word \<Rightarrow> bytes \<Rightarrow> bool \<Rightarrow> env_error + bytes" where
  "client_envelope c nonce test sq payload udp =
     encode_request \<lparr>req_session = cl_sid c, req_test = test, req_nonce = nonce, req_seq = sq,
       req_cookie = (if udp then Some (cl_cookie c) else None), req_payload = payload, req_raw = []\<rparr> (cl_key c)"

definition checkReply :: "client \<Rightarrow> bytes \<Rightarrow> bytes \<Rightarrow> bytes \<Rightarrow> (reply option \<times> string) option" where
  "checkReply c b nonce payload =
     (case decode_reply b (cl_key c) of
        None \<Rightarrow> None
      | Some (rep, Some e) \<Rightarrow> Some (if e = ErrBadMAC then (rep, ''modified'') else (None, ''unexpected_response''))
      | Some (None, None) \<Rightarrow> None
      | Some (Some rep, None) \<Rightarrow>
          Some (Some rep,
            if rep_nonce rep \<noteq> nonce then ''nonce_mismatch''
            else if rep_sha rep \<noteq> sha256 payload \<or> unat (rep_recv_len rep) \<noteq> length payload then ''uplink_modified''
            else ''''))"

section \<open>Circumvention tools\<close>

text \<open>The process names of the host are an argument.\<close>

definition bypassTools :: "(string \<times> string list) list" where
  "bypassTools =
     [(''zapret'', [''nfqws'', ''tpws'', ''winws'', ''dvtws'']),
      (''GoodbyeDPI'', [''goodbyedpi'', ''windivert'']),
      (''ByeDPI'', [''byedpi'', ''ciadpi'']),
      (''SpoofDPI'', [''spoofdpi'']),
      (''PowerTunnel'', [''powertunnel'']),
      (''xray/v2ray'', [''xray'', ''v2ray'']),
      (''sing-box'', [''sing-box'', ''hiddify'', ''hiddify-core'']),
      (''clash'', [''mihomo'', ''clash'', ''clash-meta'', ''clash-verge'', ''flclash'']),
      (''Hysteria'', [''hysteria'']),
      (''Trojan'', [''trojan'', ''trojan-go'']),
      (''NaiveProxy'', [''naive'']),
      (''Shadowsocks'', [''ss-local'', ''sslocal'', ''shadowsocks'', ''ssr-local'', ''outline'']),
      (''Tor'', [''tor'', ''obfs4proxy'', ''snowflake-client'', ''lyrebird'']),
      (''Psiphon'', [''psiphon'', ''psiphon-tunnel-core'']),
      (''Lantern'', [''lantern'']),
      (''WireGuard'', [''wireguard'', ''wg-quick'', ''wireguard-go'', ''amneziawg'', ''awg'']),
      (''OpenVPN'', [''openvpn'']),
      (''Tailscale'', [''tailscaled'']),
      (''ZeroTier'', [''zerotier-one'']),
      (''Cloudflare WARP'', [''warp-svc'', ''cloudflarewarp'']),
      (''Mullvad'', [''mullvad-daemon'']),
      (''NordVPN'', [''nordvpnd'', ''nordvpn'']),
      (''ProtonVPN'', [''protonvpn'']),
      (''dnscrypt-proxy'', [''dnscrypt-proxy''])]"

definition DetectBypassTools :: "string list \<Rightarrow> string list" where
  "DetectBypassTools names =
     (if names = [] then [] else sort (map fst (List.filter (\<lambda>(_, procs). list_ex (\<lambda>p. p \<in> set names) procs) bypassTools)))"

end
