(* ===== verification/Plan.thy ===== *)
theory Plan
  imports Client Evidence Ovpn
begin

text \<open>
  The test catalog (\<open>internal/client/plan.go\<close>), the quick profile (\<open>profile.go\<close>) and the plans of the real
  destinations (\<open>tests_dest.go\<close>). A plan's closure \<open>run\<close> is data here: which test routine it calls and with
  which options; a random host name is the shape it is drawn with. \<open>None\<close> is an index out of range.
\<close>

section \<open>What a plan runs\<close>

datatype host = HostNonce string | HostName string | HostRandom string string

record tlsOptions =
  to_sni :: host
  to_min :: "16 word"
  to_max :: "16 word"
  to_alpn :: "string list"
  to_noalpn :: bool
  to_fingerprint :: string

record torOptions =
  tr_hello :: bool
  tr_cert :: bool
  tr_tls13 :: bool
  tr_link :: bool

datatype destTLSMode = destSNIReal | destSNIDecoy | destSNIAbsent

datatype action =
    TcpEcho int
  | TcpRandom int
  | TcpRTT int
  | UdpEcho int
  | UdpRandom int
  | HttpHost host
  | DnsUDP string
  | DnsTrigger string
  | DnsTCP string
  | DnsDoT string
  | DnsSystem
  | DnsDoH string
  | TlsEcho tlsOptions
  | TcpPackets bool host
  | UdpPackets int int
  | TorDir
  | TorHandshake torOptions
  | Obfs4Handshake bool
  | StunBinding
  | DtlsHello string
  | TlsBurst int string
  | BulkTransfer string bool host int
  | QuicV1 host
  | OpenvpnTCP ovpn_auth bool
  | OpenvpnUDP ovpn_auth bool
  | WireguardInit
  | WireguardSession
  | Ikev2 bool
  | L2tpTunnel
  | Socks5Connect bool
  | VlessReality host
  | DestNXDomain
  | DestTCPControl
  | DestDNS target
  | DestTCP target
  | DestProto target
  | DestTLS target destTLSMode
  | DestHTTPCheck target

record plan =
  pl_test :: string
  pl_group :: string
  pl_role :: string
  pl_variant :: string
  pl_transport :: string
  pl_port :: int
  pl_last :: bool
  pl_serial :: string
  pl_run :: action

text \<open>The transport and kind of the reservation a routine asks for (the \<open>reserve\<close> and \<open>reserveTLS\<close> calls of the
  \<open>tests_*.go\<close> files), if it does.\<close>

fun reserve_call :: "action \<Rightarrow> (string \<times> string) option" where
  "reserve_call (TlsEcho _) = Some (''tcp'', ParseTLS)"
| "reserve_call (TlsBurst _ _) = Some (''tcp'', ParseTLS)"
| "reserve_call (TorHandshake _) = Some (''tcp'', ParseTLS)"
| "reserve_call TorDir = Some (''tcp'', ParseHTTP)"
| "reserve_call (Obfs4Handshake _) = Some (''tcp'', ParseObfs4)"
| "reserve_call (TcpRandom _) = Some (''tcp'', ParseUnknown)"
| "reserve_call (TcpPackets tls _) = Some (''tcp'', if tls then ParseTLS else ParseEnvelope)"
| "reserve_call (Socks5Connect _) = Some (''tcp'', ParseSOCKS5)"
| "reserve_call (VlessReality _) = Some (''tcp'', ParseVLESS)"
| "reserve_call (OpenvpnTCP _ _) = Some (''tcp'', ParseOpenVPN)"
| "reserve_call (OpenvpnUDP _ _) = Some (''udp'', ParseOpenVPN)"
| "reserve_call (DnsTrigger _) = Some (''udp'', ParseDNS)"
| "reserve_call (DtlsHello _) = Some (''udp'', ParseDTLS)"
| "reserve_call StunBinding = Some (''udp'', ParseSTUN)"
| "reserve_call (Ikev2 _) = Some (''udp'', ParseIKE)"
| "reserve_call L2tpTunnel = Some (''udp'', ParseL2TP)"
| "reserve_call (UdpRandom _) = Some (''udp'', ParseUnknown)"
| "reserve_call WireguardInit = Some (''udp'', ParseWireGuard)"
| "reserve_call WireguardSession = Some (''udp'', ParseWireGuard)"
| "reserve_call (QuicV1 _) = Some (''udp'', ParseQUIC)"
| "reserve_call _ = None"

definition reserveKind :: "string \<Rightarrow> string \<Rightarrow> string" where
  "reserveKind test variant =
     (if has_prefix test ''tls.'' \<or> has_prefix test ''tor.handshake'' \<or> test = ''tor.link'' then ParseTLS
      else if has_prefix test ''vless.'' then ParseVLESS
      else if test = ''tcp.packets'' then (if has_prefix variant ''tls'' then ParseTLS else ParseEnvelope)
      else if test = ''tcp.payload.random'' \<or> test = ''udp.payload.random'' then ParseUnknown
      else if has_prefix test ''openvpn.'' then ParseOpenVPN
      else if has_prefix test ''wireguard.'' then ParseWireGuard
      else if has_prefix test ''ikev2.'' then ParseIKE
      else if has_prefix test ''l2tp.'' then ParseL2TP
      else if has_prefix test ''socks5.'' then ParseSOCKS5
      else if has_prefix test ''obfs4.'' then ParseObfs4
      else if test = ''quic.v1'' then ParseQUIC
      else if test = ''dtls.hello'' then ParseDTLS
      else if test = ''stun.binding'' then ParseSTUN
      else if test = ''tor.dir'' then ParseHTTP
      else if test = ''dns.udp'' \<and> has_prefix variant ''trigger:'' then ParseDNS
      else '''')"

section \<open>Ports\<close>

definition plan_intersect :: "int list \<Rightarrow> int list \<Rightarrow> int list" where
  "plan_intersect a b = concat (map (\<lambda>x. List.filter (\<lambda>y. x = y) b) a)"

definition preferPorts :: "int list \<Rightarrow> int list \<Rightarrow> int list" where
  "preferPorts offered preferred = (let out = plan_intersect offered preferred in if out = [] \<and> offered \<noteq> [] then take 1 offered else out)"

definition pick :: "int list \<Rightarrow> int \<Rightarrow> int option" where
  "pick ports preferred = (if preferred \<in> set ports then Some preferred else ix ports 0)"

section \<open>Adding plans\<close>

definition mk_plan :: "string \<Rightarrow> string \<Rightarrow> string \<Rightarrow> string \<Rightarrow> int \<Rightarrow> action \<Rightarrow> plan" where
  "mk_plan test role variant transport port r =
     \<lparr>pl_test = test, pl_group = transport @ ''/'' @ itoa port, pl_role = role, pl_variant = variant, pl_transport = transport, pl_port = port,
      pl_last = False,
      pl_serial = (let k = reserveKind test variant in if k \<noteq> '''' then transport @ ''/'' @ itoa port @ ''/'' @ k else ''''),
      pl_run = r\<rparr>"

text \<open>The calls of the two helpers, in order, and what they do to the list of plans.\<close>

datatype add_call = Add plan | AddLast plan

fun apply_call :: "string list \<Rightarrow> add_call \<Rightarrow> plan list \<Rightarrow> plan list" where
  "apply_call want (Add p) plans = (if pl_test p \<in> set want then plans @ [p] else plans)"
| "apply_call want (AddLast p) plans =
     (let ps = (if pl_test p \<in> set want then plans @ [p] else plans)
      in if ps \<noteq> [] \<and> pl_test (last ps) = pl_test p \<and> pl_variant (last ps) = pl_variant p
         then butlast ps @ [(last ps)\<lparr>pl_last := True\<rparr>] else ps)"

definition wanted :: "client \<Rightarrow> string list" where
  "wanted c =
     (let want = sr_tests (cl_session c)
      in if op_tests (cl_opt c) \<noteq> [] then List.filter (\<lambda>t. t \<in> set want) (op_tests (cl_opt c)) else want)"

section \<open>The families\<close>

abbreviation (input) rB :: string where "rB \<equiv> RoleBaseline"
abbreviation (input) rV :: string where "rV \<equiv> RoleVariant"
abbreviation (input) rK :: string where "rK \<equiv> RoleControl"

definition adds :: "plan list \<Rightarrow> add_call list" where
  "adds ps = map Add ps"

definition trig :: "client \<Rightarrow> string" where
  "trig c = ''trigger:'' @ op_trigger_host (cl_opt c)"

definition echo_calls :: "client \<Rightarrow> add_call list option" where
  "echo_calls c =
     (let tcp = pa_tcp_ports (cl_params c);
          first = adds (concat (map (\<lambda>port.
            [mk_plan ''tcp.echo'' rB ''cp1-64'' ''tcp'' port (TcpEcho 64),
             mk_plan ''tcp.payload.random'' rK ''random-64'' ''tcp'' port (TcpRandom 64)]) tcp));
          third = adds (concat (map (\<lambda>port.
            [mk_plan ''udp.echo'' rB ''cp1-64'' ''udp'' port (UdpEcho 64),
             mk_plan ''udp.payload.random'' rK ''random-64'' ''udp'' port (UdpRandom 64)]) (pa_udp_ports (cl_params c))))
      in if tcp = [] then Some (first @ third)
         else map_option (\<lambda>port. first @ adds [mk_plan ''tcp.rtt'' rB ''x5'' ''tcp'' port (TcpRTT 5)] @ third) (pick tcp 443))"

definition http_calls :: "client \<Rightarrow> add_call list" where
  "http_calls c = adds (concat (map (\<lambda>port.
     [mk_plan ''http.host'' rB ''benign'' ''tcp'' port (HttpHost (HostNonce ''.probe.invalid'')),
      mk_plan ''http.host'' rV (trig c) ''tcp'' port (HttpHost (HostName (op_trigger_host (cl_opt c)))),
      mk_plan ''http.host'' rK ''random'' ''tcp'' port (HttpHost (HostRandom '''' ''.example''))])
     (preferPorts (pa_tcp_ports (cl_params c)) [80, 8080, 443])))"

definition doh_offered :: "client \<Rightarrow> bool" where
  "doh_offered c \<longleftrightarrow> ''doh'' \<in> set (pa_features (cl_params c)) \<and> (op_tests (cl_opt c) = [] \<or> ''dns.doh'' \<in> set (op_tests (cl_opt c)))"

definition dns_calls :: "client \<Rightarrow> add_call list" where
  "dns_calls c =
     (let p = cl_params c; t = op_trigger_host (cl_opt c)
      in adds (concat (map (\<lambda>port.
           [mk_plan ''dns.udp'' rB ''TXT'' ''udp'' port (DnsUDP ''TXT''),
            mk_plan ''dns.udp'' rV ''A'' ''udp'' port (DnsUDP ''A''),
            mk_plan ''dns.udp'' rV (trig c) ''udp'' port (DnsTrigger t),
            mk_plan ''dns.tcp'' rV ''TXT'' ''tcp'' port (DnsTCP ''TXT'')]) (pa_dns_ports p))
          @ (if pa_dot_port p \<noteq> 0 then [mk_plan ''dns.dot'' rV ''TXT'' ''tcp'' (pa_dot_port p) (DnsDoT ''TXT'')] else [])
          @ (if Zone c \<noteq> ''probe.invalid.'' \<and> ''whoami'' \<in> set (pa_features p)
             then [mk_plan ''dns.system'' rV ''whoami'' ''udp'' 0 DnsSystem] else [])
          @ (if doh_offered c then [mk_plan ''dns.doh'' rV ''TXT'' ''tcp'' (op_control_port (cl_opt c)) (DnsDoH ''TXT'')] else [])))"

definition tls_opt :: "host \<Rightarrow> string list \<Rightarrow> tlsOptions" where
  "tls_opt h alpn = \<lparr>to_sni = h, to_min = 0, to_max = 0, to_alpn = alpn, to_noalpn = False, to_fingerprint = ''''\<rparr>"

definition sniB :: host where "sniB = HostRandom ''b'' ''.probe.invalid''"

definition fingerprintPlan :: "string list" where
  "fingerprintPlan = [''chrome'', ''firefox'', ''safari'', ''ios'', ''edge'', ''android'', ''golang'']"

definition tls_calls :: "client \<Rightarrow> add_call list" where
  "tls_calls c = adds (concat (map (\<lambda>port.
     [mk_plan ''tls.version'' rB ''1.3'' ''tcp'' port (TlsEcho ((tls_opt sniB [''cp1''])\<lparr>to_min := 0x0304, to_max := 0x0304\<rparr>)),
      mk_plan ''tls.version'' rV ''1.2'' ''tcp'' port (TlsEcho ((tls_opt sniB [''cp1''])\<lparr>to_min := 0x0303, to_max := 0x0303\<rparr>)),
      mk_plan ''tls.sni'' rB ''benign'' ''tcp'' port (TlsEcho (tls_opt sniB [''cp1''])),
      mk_plan ''tls.sni'' rV (trig c) ''tcp'' port (TlsEcho (tls_opt (HostName (op_trigger_host (cl_opt c))) [''cp1''])),
      mk_plan ''tls.sni'' rK ''absent'' ''tcp'' port (TlsEcho (tls_opt (HostName '''') [''cp1'']))]
     @ map (\<lambda>sni. mk_plan ''tls.sni'' rV (''list:'' @ sni) ''tcp'' port (TlsEcho (tls_opt (HostName sni) [''cp1'']))) (op_sni_list (cl_opt c))
     @ map (\<lambda>alpn. mk_plan ''tls.alpn'' (if alpn = ''http/1.1'' then rB else rV) alpn ''tcp'' port
               (TlsEcho (if alpn = ''none'' then (tls_opt sniB [])\<lparr>to_noalpn := True\<rparr> else tls_opt sniB [alpn])))
         [''http/1.1'', ''h2'', ''cp1'', ''none'']
     @ map (\<lambda>fp. mk_plan ''tls.fingerprint'' (if fp = ''chrome'' then rB else rV) fp ''tcp'' port
               (TlsEcho ((tls_opt sniB [''http/1.1''])\<lparr>to_fingerprint := fp\<rparr>))) fingerprintPlan)
     (preferPorts (pa_tcp_ports (cl_params c)) [443, 8443, 4433])))"

definition packets_calls :: "client \<Rightarrow> add_call list option" where
  "packets_calls c =
     (let tcp = pa_tcp_ports (cl_params c); udp = pa_udp_ports (cl_params c)
      in do {
        a \<leftarrow> (if tcp = [] then Some []
             else do {
               port \<leftarrow> ix (preferPorts tcp [80, 8080]) 0;
               tport \<leftarrow> pick tcp 443;
               Some [mk_plan ''tcp.packets'' rV ''plain-2B'' ''tcp'' port (TcpPackets False (HostName '''')),
                     mk_plan ''tcp.packets'' rV ''tls-2B'' ''tcp'' tport (TcpPackets True sniB)]
             });
        b \<leftarrow> (if udp = [] then Some []
             else do {
               port \<leftarrow> pick udp 443;
               Some [mk_plan ''udp.packets'' rV ''cp1-32x32'' ''udp'' port (UdpPackets 32 32)]
             });
        Some (adds (a @ b))
      })"

definition tor_opt :: "bool \<Rightarrow> bool \<Rightarrow> bool \<Rightarrow> torOptions" where
  "tor_opt h c t = \<lparr>tr_hello = h, tr_cert = c, tr_tls13 = t, tr_link = False\<rparr>"

definition tor_variant :: "torOptions \<Rightarrow> string" where
  "tor_variant x = (if tr_hello x then ''tor-hello'' else ''go-hello'') @ ''+'' @ (if tr_cert x then ''tor-cert'' else ''probe-cert'')
     @ (if tr_tls13 x then ''@1.3'' else '''')"

definition allTorHandshakes :: "torOptions list" where
  "allTorHandshakes = [tor_opt False False False, tor_opt False True False, tor_opt True False False, tor_opt True True False, tor_opt True True True]"

definition addTorHandshake :: "int \<Rightarrow> torOptions list \<Rightarrow> add_call list" where
  "addTorHandshake port os = map (\<lambda>x. AddLast (mk_plan ''tor.handshake'' (if \<not> tr_hello x \<and> \<not> tr_cert x then rB else rV) (tor_variant x) ''tcp'' port
     (TorHandshake x))) os"

definition addTorLink :: "int \<Rightarrow> add_call" where
  "addTorLink port = AddLast (mk_plan ''tor.link'' rV ''tor-hello+tor-cert'' ''tcp'' port (TorHandshake ((tor_opt True True False)\<lparr>tr_link := True\<rparr>)))"

definition tor_calls :: "client \<Rightarrow> add_call list option" where
  "tor_calls c =
     (let tcp = pa_tcp_ports (cl_params c)
      in if ''tor'' \<in> set (pa_features (cl_params c)) \<and> tcp \<noteq> []
         then do {
           orPort \<leftarrow> pick tcp 9001;
           p443 \<leftarrow> pick tcp 443;
           Some (adds (map (\<lambda>port. mk_plan ''tor.dir'' rV ''consensus-microdesc'' ''tcp'' port TorDir) (preferPorts tcp [9030, 80]))
             @ addTorHandshake orPort allTorHandshakes @ [addTorLink orPort]
             @ (if p443 \<noteq> orPort
                then addTorHandshake p443 [tor_opt False False False, tor_opt True True False, tor_opt True True True] @ [addTorLink p443]
                else []))
         }
         else Some [])"

definition obfs4_calls :: "client \<Rightarrow> add_call list" where
  "obfs4_calls c =
     (if ''obfs4'' \<in> set (pa_features (cl_params c))
      then adds (concat (map (\<lambda>port.
             [mk_plan ''tcp.payload.random'' rK ''random-2048'' ''tcp'' port (TcpRandom 2048),
              mk_plan ''obfs4.handshake'' rV ''ntor-shaped'' ''tcp'' port (Obfs4Handshake False),
              mk_plan ''obfs4.session'' rV ''ntor-shaped'' ''tcp'' port (Obfs4Handshake True)]) (preferPorts (pa_tcp_ports (cl_params c)) [8388, 443])))
      else [])"

definition webrtc_calls :: "client \<Rightarrow> add_call list" where
  "webrtc_calls c =
     (let ports = preferPorts (pa_udp_ports (cl_params c)) [3478, 443]; has = (\<lambda>f. f \<in> set (pa_features (cl_params c)))
      in adds ((if has ''stun'' then map (\<lambda>port. mk_plan ''stun.binding'' rV ''rfc5389'' ''udp'' port StunBinding) ports else [])
           @ (if has ''dtls''
              then concat (map (\<lambda>port. map (\<lambda>fp. mk_plan ''dtls.hello'' (if fp = ''firefox-138'' then rB else rV) fp ''udp'' port (DtlsHello fp))
                     [''firefox-138'', ''pion'', ''chrome-136'']) ports)
              else [])))"

definition burst_calls :: "client \<Rightarrow> add_call list option" where
  "burst_calls c =
     (let tcp = pa_tcp_ports (cl_params c); n = op_burst_n (cl_opt c)
      in if tcp = [] then Some []
         else do {
           port \<leftarrow> pick tcp 443;
           Some [AddLast (mk_plan ''tls.burst'' rV (''chrome-x'' @ itoa n) ''tcp'' port (TlsBurst n ''chrome'')),
                 AddLast (mk_plan ''tls.burst'' rK (''firefox-x'' @ itoa n) ''tcp'' port (TlsBurst n ''firefox''))]
         })"

definition bulk_calls :: "client \<Rightarrow> add_call list" where
  "bulk_calls c =
     (let tcp = pa_tcp_ports (cl_params c); kb = op_bulk_kb (cl_opt c); t = op_trigger_host (cl_opt c)
      in if ''bulk'' \<notin> set (pa_features (cl_params c)) then []
         else adds (concat (map (\<lambda>port.
                [mk_plan ''tcp.bulk'' rB ''up-plain'' ''tcp'' port (BulkTransfer ''up'' False (HostName '''') kb),
                 mk_plan ''tcp.bulk'' rV ''down-plain'' ''tcp'' port (BulkTransfer ''down'' False (HostName '''') kb)]) (preferPorts tcp [80, 8080]))
              @ concat (map (\<lambda>port.
                [mk_plan ''tcp.bulk'' rB ''up-tls'' ''tcp'' port (BulkTransfer ''up'' True sniB kb),
                 mk_plan ''tcp.bulk'' rV ''down-tls'' ''tcp'' port (BulkTransfer ''down'' True sniB kb),
                 mk_plan ''tcp.bulk'' rV (''up-tls:trigger:'' @ t) ''tcp'' port (BulkTransfer ''up'' True (HostName t) kb)]
                @ map (\<lambda>sni. mk_plan ''tcp.bulk'' rV (''up-tls:list:'' @ sni) ''tcp'' port (BulkTransfer ''up'' True (HostName sni) kb))
                    (op_sni_list (cl_opt c))) (preferPorts tcp [443, 8443, 4433]))))"

definition quic_calls :: "client \<Rightarrow> add_call list" where
  "quic_calls c = adds (map (\<lambda>port. mk_plan ''quic.v1'' rV ''h3'' ''udp'' port (QuicV1 (HostRandom ''q'' ''.probe.invalid''))) (pa_quic_ports (cl_params c)))"

definition ovpnAuths :: "client \<Rightarrow> ovpn_auth list" where
  "ovpnAuths c = AuthNone # (if pa_ovpn_tls_auth_key (cl_params c) \<noteq> '''' then [AuthTLS] else [])"

definition ovpnVariant :: "string \<Rightarrow> ovpn_auth \<Rightarrow> bool \<Rightarrow> string" where
  "ovpnVariant transport auth session =
     transport @ (if auth = AuthTLS then ''+tls-auth'' else if session then ''+control'' else '''') @ (if session then ''+data'' else '''')"

definition ovpn_calls :: "client \<Rightarrow> string \<Rightarrow> bool \<Rightarrow> add_call list" where
  "ovpn_calls c test session = adds (concat (map (\<lambda>auth.
     map (\<lambda>port. mk_plan test rV (ovpnVariant ''tcp'' auth session) ''tcp'' port (OpenvpnTCP auth session)) (preferPorts (pa_tcp_ports (cl_params c)) [1194, 443])
     @ map (\<lambda>port. mk_plan test rV (ovpnVariant ''udp'' auth session) ''udp'' port (OpenvpnUDP auth session)) (preferPorts (pa_udp_ports (cl_params c)) [1194, 443]))
     (ovpnAuths c)))"

definition wg_calls :: "client \<Rightarrow> string \<Rightarrow> string \<Rightarrow> action \<Rightarrow> add_call list" where
  "wg_calls c test variant r = adds (map (\<lambda>port. mk_plan test rV variant ''udp'' port r) (preferPorts (pa_udp_ports (cl_params c)) [51820, 443]))"

definition vpn_calls :: "client \<Rightarrow> add_call list" where
  "vpn_calls c =
     (let udp = pa_udp_ports (cl_params c); has = (\<lambda>f. f \<in> set (pa_features (cl_params c)))
      in ovpn_calls c ''openvpn.reset'' False @ wg_calls c ''wireguard.init'' ''noise-ik'' WireguardInit
         @ (if has ''vpn-session''
            then wg_calls c ''wireguard.session'' ''noise-ik+data'' WireguardSession @ ovpn_calls c ''openvpn.session'' True else [])
         @ (if has ''ike''
            then adds (concat (map (\<lambda>port.
                   [mk_plan ''ikev2.init'' rV ''plain'' ''udp'' port (Ikev2 False), mk_plan ''ikev2.session'' rV ''plain'' ''udp'' port (Ikev2 False)])
                   (preferPorts udp [500]))
                 @ concat (map (\<lambda>port.
                   [mk_plan ''ikev2.init'' rV ''nat-t'' ''udp'' port (Ikev2 True), mk_plan ''ikev2.session'' rV ''nat-t'' ''udp'' port (Ikev2 True)])
                   (preferPorts udp [4500])))
            else [])
         @ (if has ''l2tp''
            then adds (concat (map (\<lambda>port.
                   [mk_plan ''l2tp.init'' rV ''v2'' ''udp'' port L2tpTunnel, mk_plan ''l2tp.session'' rV ''v2'' ''udp'' port L2tpTunnel]) (preferPorts udp [1701])))
            else []))"

definition proxy_calls :: "client \<Rightarrow> add_call list" where
  "proxy_calls c =
     (let tcp = pa_tcp_ports (cl_params c); has = (\<lambda>f. f \<in> set (pa_features (cl_params c))); reality = op_reality_sni (cl_opt c)
      in (if has ''socks5''
          then adds (concat (map (\<lambda>port.
                 [mk_plan ''socks5.connect'' rB ''noauth'' ''tcp'' port (Socks5Connect False),
                  mk_plan ''socks5.connect'' rV ''userpass'' ''tcp'' port (Socks5Connect True),
                  mk_plan ''socks5.session'' rV ''noauth'' ''tcp'' port (Socks5Connect False)]) (preferPorts tcp [1080])))
          else [])
         @ (if has ''vless''
            then adds (concat (map (\<lambda>port.
                   [mk_plan ''vless.reality'' rV (''reality:'' @ reality) ''tcp'' port (VlessReality (HostName reality)),
                    mk_plan ''vless.reality'' rK ''benign'' ''tcp'' port (VlessReality sniB),
                    mk_plan ''vless.session'' rV (''reality:'' @ reality) ''tcp'' port (VlessReality (HostName reality)),
                    mk_plan ''vless.session'' rK ''benign'' ''tcp'' port (VlessReality sniB)]) (preferPorts tcp [443, 4433])))
            else []))"

section \<open>The quick profile\<close>

record quickRule =
  qr_test :: string
  qr_transport :: string
  qr_ports :: "int list option"
  qr_variant :: string

abbreviation (input) rule4 :: "string \<Rightarrow> string \<Rightarrow> int list option \<Rightarrow> string \<Rightarrow> quickRule" where
  "rule4 t tr ps v \<equiv> \<lparr>qr_test = t, qr_transport = tr, qr_ports = ps, qr_variant = v\<rparr>"

definition quickPlan :: "quickRule list" where
  "quickPlan =
     [rule4 ''tcp.echo'' ''tcp'' (Some [80, 8080, 443, 4433]) ''cp1-64'',
      rule4 ''tcp.rtt'' ''tcp'' (Some [443]) '''',
      rule4 ''http.host'' ''tcp'' (Some [80, 8080, 443]) ''benign'',
      rule4 ''http.host'' ''tcp'' (Some [80]) ''trigger:'',
      rule4 ''tls.sni'' ''tcp'' (Some [443]) ''benign'',
      rule4 ''tls.sni'' ''tcp'' (Some [443]) ''trigger:'',
      rule4 ''tls.sni'' ''tcp'' (Some [443]) ''absent'',
      rule4 ''tls.version'' ''tcp'' (Some [443]) '''',
      rule4 ''tls.fingerprint'' ''tcp'' (Some [443]) ''chrome'',
      rule4 ''tls.fingerprint'' ''tcp'' (Some [443]) ''firefox'',
      rule4 ''tls.fingerprint'' ''tcp'' (Some [443]) ''android'',
      rule4 ''dns.udp'' ''udp'' (Some [53]) '''',
      rule4 ''dns.system'' ''udp'' None '''',
      rule4 ''quic.v1'' ''udp'' (Some [443]) '''',
      rule4 ''stun.binding'' ''udp'' (Some [443]) '''',
      rule4 ''dtls.hello'' ''udp'' (Some [443]) '''',
      rule4 ''udp.echo'' ''udp'' (Some [443, 1194, 51820]) '''',
      rule4 ''openvpn.reset'' ''udp'' (Some [1194]) ''udp+tls-auth'',
      rule4 ''openvpn.session'' ''udp'' (Some [1194]) ''udp+tls-auth+data'',
      rule4 ''openvpn.reset'' ''tcp'' (Some [443]) ''tcp+tls-auth'',
      rule4 ''openvpn.session'' ''tcp'' (Some [443]) ''tcp+tls-auth+data'',
      rule4 ''wireguard.init'' ''udp'' (Some [51820]) '''',
      rule4 ''wireguard.session'' ''udp'' (Some [51820]) '''',
      rule4 ''tcp.payload.random'' ''tcp'' (Some [443]) ''random-2048'',
      rule4 ''obfs4.handshake'' ''tcp'' (Some [443]) '''',
      rule4 ''obfs4.session'' ''tcp'' (Some [443]) '''',
      rule4 ''tor.handshake'' ''tcp'' (Some [443]) '''',
      rule4 ''tor.link'' ''tcp'' (Some [443]) '''',
      rule4 ''vless.reality'' ''tcp'' (Some [443]) '''',
      rule4 ''vless.session'' ''tcp'' (Some [443]) ''reality:'']"

text \<open>\<open>seen\<close> is the set of ids already listed.\<close>

fun quick_tests_from :: "quickRule list \<Rightarrow> string list \<Rightarrow> string list" where
  "quick_tests_from [] out = out"
| "quick_tests_from (r # rs) out = quick_tests_from rs (if qr_test r \<in> set out then out else out @ [qr_test r])"

definition QuickTests :: "string list" where
  "QuickTests = quick_tests_from quickPlan []"

definition rule_match :: "quickRule \<Rightarrow> bool \<Rightarrow> bool \<Rightarrow> plan \<Rightarrow> bool" where
  "rule_match r port variant p =
     (if pl_test p \<noteq> qr_test r \<or> pl_transport p \<noteq> qr_transport r then False
      else if variant \<and> qr_variant r \<noteq> '''' \<and> \<not> has_prefix (pl_variant p) (qr_variant r) then False
      else if port \<and> (case qr_ports r of None \<Rightarrow> False | Some ps \<Rightarrow> pl_port p \<notin> set ps) then False
      else True)"

text \<open>The indices a rule keeps.\<close>

fun first_index :: "('a \<Rightarrow> bool) \<Rightarrow> 'a list \<Rightarrow> nat option" where
  "first_index P [] = None"
| "first_index P (x # xs) = (if P x then Some 0 else map_option Suc (first_index P xs))"

definition rule_keeps :: "plan list \<Rightarrow> quickRule \<Rightarrow> nat list" where
  "rule_keeps plans r =
     (let hits = List.filter (\<lambda>i. rule_match r True True (plans ! i)) [0..<length plans]
      in if hits \<noteq> [] then hits
         else case first_index (rule_match r False True) plans of
                Some i \<Rightarrow> [i]
              | None \<Rightarrow>
                  (case first_index (rule_match r True False) plans of
                     Some i \<Rightarrow> [i]
                   | None \<Rightarrow> (case first_index (rule_match r False False) plans of Some i \<Rightarrow> [i] | None \<Rightarrow> [])))"

definition quickFilter :: "plan list \<Rightarrow> plan list" where
  "quickFilter plans =
     (let keep = concat (map (rule_keeps plans) quickPlan)
      in map (\<lambda>i. plans ! i) (List.filter (\<lambda>i. i \<in> set keep) [0..<length plans]))"

section \<open>Real destinations\<close>

abbreviation DestPort :: int where "DestPort \<equiv> 443"

definition DestTests :: "string list" where
  "DestTests = [''dest.dns'', ''dest.nxdomain'', ''dest.tcp'', ''dest.tls'', ''dest.proto'', ''dest.http'']"

definition destTargets :: "client \<Rightarrow> target list" where
  "destTargets c = (if op_targets (cl_opt c) \<noteq> [] then op_targets (cl_opt c) else Default)"

definition dest_plan :: "string \<Rightarrow> string \<Rightarrow> string \<Rightarrow> string \<Rightarrow> int \<Rightarrow> string \<Rightarrow> action \<Rightarrow> plan" where
  "dest_plan test role variant transport port grp r =
     \<lparr>pl_test = test, pl_group = grp, pl_role = role, pl_variant = variant, pl_transport = transport, pl_port = port, pl_last = False,
      pl_serial = '''', pl_run = r\<rparr>"

definition target_plans :: "target \<Rightarrow> plan list" where
  "target_plans t =
     (let grp = ''dest/'' @ tg_domain t; role = (if tg_category t = CategoryControl then rB else rV)
      in (if \<not> tg_skipdns t then [dest_plan ''dest.dns'' role (tg_domain t) ''udp'' 53 grp (DestDNS t)] else [])
         @ [dest_plan ''dest.tcp'' role (tg_domain t) ''tcp'' DestPort grp (DestTCP t)]
         @ (if tg_proto t \<noteq> '''' then [dest_plan ''dest.proto'' role (tg_domain t) ''tcp'' DestPort grp (DestProto t)]
            else if tg_skiptls t then []
            else [dest_plan ''dest.tls'' role (tg_domain t) ''tcp'' DestPort grp (DestTLS t destSNIReal),
                  dest_plan ''dest.tls'' rK (''decoy:'' @ tg_domain t) ''tcp'' DestPort grp (DestTLS t destSNIDecoy),
                  dest_plan ''dest.tls'' rK (''absent:'' @ tg_domain t) ''tcp'' DestPort grp (DestTLS t destSNIAbsent)]
                 @ (if tg_http t then [dest_plan ''dest.http'' role (tg_domain t) ''tcp'' DestPort grp (DestHTTPCheck t)] else [])))"

definition destPlans :: "client \<Rightarrow> string list \<Rightarrow> plan list" where
  "destPlans c want = List.filter (\<lambda>p. pl_test p \<in> set want)
     ([dest_plan ''dest.nxdomain'' rK ''invalid'' ''udp'' 53 ''dest/control'' DestNXDomain,
       dest_plan ''dest.tcp'' rK ''anycast'' ''tcp'' DestPort ''dest/control'' DestTCPControl]
      @ concat (map target_plans (destTargets c)))"

definition destWanted :: "client \<Rightarrow> string list" where
  "destWanted c =
     (if op_tests (cl_opt c) \<noteq> [] then List.filter IsDestTest (op_tests (cl_opt c))
      else if op_sites (cl_opt c) \<or> cl_standalone c then DestTests else [])"

section \<open>The catalog\<close>

definition catalog_calls :: "client \<Rightarrow> add_call list option" where
  "catalog_calls c = do {
     echo \<leftarrow> echo_calls c;
     packets \<leftarrow> packets_calls c;
     tor \<leftarrow> tor_calls c;
     burst \<leftarrow> burst_calls c;
     Some (echo @ http_calls c @ dns_calls c @ tls_calls c @ packets @ tor @ obfs4_calls c @ webrtc_calls c @ burst @ bulk_calls c
       @ quic_calls c @ vpn_calls c @ proxy_calls c)
   }"

text \<open>The id \<open>dns.doh\<close> joins the wanted tests when its turn comes; no other call names it.\<close>

definition Catalog :: "client \<Rightarrow> plan list option" where
  "Catalog c =
     map_option (\<lambda>calls.
       let want = wanted c @ (if doh_offered c then [''dns.doh''] else []);
           plans = fold (apply_call want) calls [];
           plans = (if op_profile (cl_opt c) = ''quick'' then quickFilter plans else plans)
       in plans @ destPlans c (destWanted c)) (catalog_calls c)"

end
