(* ===== verification/Plan_Props.thy ===== *)
theory Plan_Props
  imports Plan "HOL-Library.Sublist"
begin

text \<open>
  What the catalog promises: it is built for every server configuration, each plan is one the server
  granted, on a port it offers, and names the reservation pool its routine draws from; the serial
  tail holds exactly the Tor and burst tests; a session test comes with its handshake control on the
  same port; and the quick profile exercises each of its families.
\<close>

section \<open>The list of calls\<close>

fun call_plan :: "add_call \<Rightarrow> plan" where
  "call_plan (Add p) = p"
| "call_plan (AddLast p) = p\<lparr>pl_last := True\<rparr>"

lemma apply_call_wanted:
  assumes "\<forall>q\<in>set ps. pl_test q \<in> set want"
  shows "apply_call want a ps = (if pl_test (call_plan a) \<in> set want then ps @ [call_plan a] else ps)"
proof (cases a)
  case (AddLast p)
  have "pl_test (last ps) \<in> set want" if "ps \<noteq> []" using assms that by simp
  then show ?thesis using AddLast by (auto simp: Let_def)
qed simp

lemma fold_calls:
  "\<forall>q\<in>set ps. pl_test q \<in> set want \<Longrightarrow>
     fold (apply_call want) calls ps = ps @ List.filter (\<lambda>p. pl_test p \<in> set want) (map call_plan calls)"
proof (induction calls arbitrary: ps)
  case (Cons a calls)
  have "fold (apply_call want) (a # calls) ps = fold (apply_call want) calls (apply_call want a ps)" by simp
  also have "\<dots> = apply_call want a ps @ List.filter (\<lambda>p. pl_test p \<in> set want) (map call_plan calls)"
    using Cons.prems by (intro Cons.IH) (auto simp: apply_call_wanted [OF Cons.prems])
  finally show ?case by (simp add: apply_call_wanted [OF Cons.prems])
qed simp

definition base_plans :: "client \<Rightarrow> add_call list \<Rightarrow> plan list" where
  "base_plans c calls = List.filter (\<lambda>p. pl_test p \<in> set (wanted c) \<or> (doh_offered c \<and> pl_test p = ''dns.doh'')) (map call_plan calls)"

lemma Catalog_unfold:
  "Catalog c = map_option (\<lambda>calls. (if op_profile (cl_opt c) = ''quick'' then quickFilter (base_plans c calls) else base_plans c calls)
     @ destPlans c (destWanted c)) (catalog_calls c)"
proof -
  let ?w = "wanted c @ (if doh_offered c then [''dns.doh''] else [])"
  have "fold (apply_call ?w) calls [] = base_plans c calls" for calls
    unfolding base_plans_def by (subst fold_calls) (auto intro!: filter_cong)
  then show ?thesis unfolding Catalog_def Let_def by (simp only:)
qed

section \<open>Ports\<close>

lemma plan_intersect_subset: "set (plan_intersect a b) \<subseteq> set a"
  by (auto simp: plan_intersect_def)

lemma preferPorts_subset: "set (preferPorts offered ps) \<subseteq> set offered"
  using plan_intersect_subset [of offered ps] by (auto simp: preferPorts_def Let_def dest: in_set_takeD)

lemma preferPorts_in [dest!]: "x \<in> set (preferPorts offered ps) \<Longrightarrow> x \<in> set offered"
  using preferPorts_subset by blast

lemma preferPorts_empty: "preferPorts offered ps = [] \<longleftrightarrow> offered = []"
  by (auto simp: preferPorts_def Let_def plan_intersect_def)

lemma pick_Some: "ports \<noteq> [] \<Longrightarrow> \<exists>p. pick ports w = Some p \<and> p \<in> set ports"
  by (cases ports) (auto simp: pick_def ix_def)

lemma pick_in: "pick ports w = Some p \<Longrightarrow> p \<in> set ports"
  by (auto simp: pick_def ix_def split: if_splits)

section \<open>Every call is well-formed\<close>

definition LastTests :: "string list" where
  "LastTests = [''tor.handshake'', ''tor.link'', ''tls.burst'']"

text \<open>The port lists a test draws from, by family, and the feature the server must announce for it.\<close>

definition offered_on :: "client \<Rightarrow> string \<Rightarrow> string \<Rightarrow> int \<Rightarrow> bool" where
  "offered_on c test transport port =
     (let p = cl_params c
      in if test = ''dns.doh'' then transport = ''tcp'' \<and> port = op_control_port (cl_opt c)
         else if test = ''dns.system'' then transport = ''udp'' \<and> port = 0
         else if test = ''dns.dot'' then transport = ''tcp'' \<and> port = pa_dot_port p \<and> port \<noteq> 0
         else if test = ''dns.udp'' then transport = ''udp'' \<and> port \<in> set (pa_dns_ports p)
         else if test = ''dns.tcp'' then transport = ''tcp'' \<and> port \<in> set (pa_dns_ports p)
         else if test = ''quic.v1'' then transport = ''udp'' \<and> port \<in> set (pa_quic_ports p)
         else if transport = ''tcp'' then port \<in> set (pa_tcp_ports p)
         else transport = ''udp'' \<and> port \<in> set (pa_udp_ports p))"

definition feature_of :: "string \<Rightarrow> string option" where
  "feature_of test = map_of
     [(''dns.doh'', ''doh''), (''dns.system'', ''whoami''), (''tor.dir'', ''tor''), (''tor.handshake'', ''tor''), (''tor.link'', ''tor''),
      (''obfs4.handshake'', ''obfs4''), (''obfs4.session'', ''obfs4''), (''stun.binding'', ''stun''), (''dtls.hello'', ''dtls''), (''tcp.bulk'', ''bulk''),
      (''wireguard.session'', ''vpn-session''), (''openvpn.session'', ''vpn-session''), (''ikev2.init'', ''ike''), (''ikev2.session'', ''ike''),
      (''l2tp.init'', ''l2tp''), (''l2tp.session'', ''l2tp''), (''socks5.connect'', ''socks5''), (''socks5.session'', ''socks5''),
      (''vless.reality'', ''vless''), (''vless.session'', ''vless'')] test"

definition available :: "client \<Rightarrow> string \<Rightarrow> string \<Rightarrow> int \<Rightarrow> bool" where
  "available c test transport port \<longleftrightarrow> offered_on c test transport port \<and> (case feature_of test of None \<Rightarrow> True | Some x \<Rightarrow> x \<in> set (pa_features (cl_params c)))"

text \<open>The pool a plan names is the one its routine reserves from.\<close>

definition pool_agrees :: "plan \<Rightarrow> bool" where
  "pool_agrees p \<longleftrightarrow>
     (case reserve_call (pl_run p) of
        None \<Rightarrow> pl_serial p = ''''
      | Some (tr, k) \<Rightarrow> pl_transport p = tr \<and> pl_serial p = tr @ ''/'' @ itoa (pl_port p) @ ''/'' @ k)"

definition plan_ok :: "client \<Rightarrow> plan \<Rightarrow> bool" where
  "plan_ok c p \<longleftrightarrow> available c (pl_test p) (pl_transport p) (pl_port p) \<and> pl_group p = pl_transport p @ ''/'' @ itoa (pl_port p)
     \<and> pool_agrees p \<and> \<not> IsDestTest (pl_test p) \<and> (pl_last p \<longleftrightarrow> pl_test p \<in> set LastTests)"

lemma kinds_neq: "ParseTLS \<noteq> ''''" "ParseVLESS \<noteq> ''''" "ParseEnvelope \<noteq> ''''" "ParseUnknown \<noteq> ''''" "ParseOpenVPN \<noteq> ''''" "ParseWireGuard \<noteq> ''''"
  "ParseIKE \<noteq> ''''" "ParseL2TP \<noteq> ''''" "ParseSOCKS5 \<noteq> ''''" "ParseObfs4 \<noteq> ''''" "ParseQUIC \<noteq> ''''" "ParseDTLS \<noteq> ''''" "ParseSTUN \<noteq> ''''"
  "ParseHTTP \<noteq> ''''" "ParseDNS \<noteq> ''''"
  by (simp_all add: ParseTLS_def ParseVLESS_def ParseEnvelope_def ParseUnknown_def ParseOpenVPN_def ParseWireGuard_def ParseIKE_def ParseL2TP_def
      ParseSOCKS5_def ParseObfs4_def ParseQUIC_def ParseDTLS_def ParseSTUN_def ParseHTTP_def ParseDNS_def)

lemma reserveKind_eval:
  "reserveKind ''tcp.echo'' v = ''''" "reserveKind ''tcp.rtt'' v = ''''" "reserveKind ''udp.echo'' v = ''''" "reserveKind ''http.host'' v = ''''"
  "reserveKind ''dns.tcp'' v = ''''" "reserveKind ''dns.dot'' v = ''''" "reserveKind ''dns.system'' v = ''''" "reserveKind ''dns.doh'' v = ''''"
  "reserveKind ''udp.packets'' v = ''''" "reserveKind ''tcp.bulk'' v = ''''"
  "reserveKind ''tcp.payload.random'' v = ParseUnknown" "reserveKind ''udp.payload.random'' v = ParseUnknown"
  "reserveKind ''dns.udp'' ''TXT'' = ''''" "reserveKind ''dns.udp'' ''A'' = ''''" "reserveKind ''dns.udp'' (trig c) = ParseDNS"
  "reserveKind ''tls.version'' v = ParseTLS" "reserveKind ''tls.sni'' v = ParseTLS" "reserveKind ''tls.alpn'' v = ParseTLS"
  "reserveKind ''tls.fingerprint'' v = ParseTLS" "reserveKind ''tls.burst'' v = ParseTLS"
  "reserveKind ''tcp.packets'' ''plain-2B'' = ParseEnvelope" "reserveKind ''tcp.packets'' ''tls-2B'' = ParseTLS"
  "reserveKind ''tor.dir'' v = ParseHTTP" "reserveKind ''tor.handshake'' v = ParseTLS" "reserveKind ''tor.link'' v = ParseTLS"
  "reserveKind ''obfs4.handshake'' v = ParseObfs4" "reserveKind ''obfs4.session'' v = ParseObfs4"
  "reserveKind ''stun.binding'' v = ParseSTUN" "reserveKind ''dtls.hello'' v = ParseDTLS" "reserveKind ''quic.v1'' v = ParseQUIC"
  "reserveKind ''openvpn.reset'' v = ParseOpenVPN" "reserveKind ''openvpn.session'' v = ParseOpenVPN"
  "reserveKind ''wireguard.init'' v = ParseWireGuard" "reserveKind ''wireguard.session'' v = ParseWireGuard"
  "reserveKind ''ikev2.init'' v = ParseIKE" "reserveKind ''ikev2.session'' v = ParseIKE" "reserveKind ''l2tp.init'' v = ParseL2TP"
  "reserveKind ''l2tp.session'' v = ParseL2TP" "reserveKind ''socks5.connect'' v = ParseSOCKS5" "reserveKind ''socks5.session'' v = ParseSOCKS5"
  "reserveKind ''vless.reality'' v = ParseVLESS" "reserveKind ''vless.session'' v = ParseVLESS"
  by (simp_all add: reserveKind_def has_prefix_def trig_def)

text \<open>A plan of the catalog is well-formed when its port is offered and the kind of its test is the one its routine reserves.\<close>

lemma mk_plan_ok:
  "plan_ok c (call_plan (Add (mk_plan t ro v tr port r))) \<longleftrightarrow>
     available c t tr port \<and> (case reserve_call r of None \<Rightarrow> reserveKind t v = '''' | Some (tr', k) \<Rightarrow> tr = tr' \<and> reserveKind t v = k \<and> k \<noteq> '''')
     \<and> \<not> IsDestTest t \<and> t \<notin> set LastTests"
  "plan_ok c (call_plan (AddLast (mk_plan t ro v tr port r))) \<longleftrightarrow>
     available c t tr port \<and> (case reserve_call r of None \<Rightarrow> reserveKind t v = '''' | Some (tr', k) \<Rightarrow> tr = tr' \<and> reserveKind t v = k \<and> k \<noteq> '''')
     \<and> \<not> IsDestTest t \<and> t \<in> set LastTests"
  by (auto simp: plan_ok_def mk_plan_def pool_agrees_def Let_def split: option.splits)

lemmas call_simps = mk_plan_ok reserveKind_eval kinds_neq
lemmas port_class = available_def offered_on_def feature_of_def Let_def
lemmas test_class = IsDestTest_def has_prefix_def LastTests_def

definition calls_ok :: "client \<Rightarrow> add_call list \<Rightarrow> bool" where
  "calls_ok c calls \<longleftrightarrow> (\<forall>a\<in>set calls. plan_ok c (call_plan a))"

lemma calls_ok_append [simp]: "calls_ok c (xs @ ys) \<longleftrightarrow> calls_ok c xs \<and> calls_ok c ys"
  by (auto simp: calls_ok_def)

lemma calls_ok_Cons [simp]: "calls_ok c (x # xs) \<longleftrightarrow> plan_ok c (call_plan x) \<and> calls_ok c xs" "calls_ok c []"
  by (auto simp: calls_ok_def)

lemma calls_ok_adds: "calls_ok c (adds ps) \<longleftrightarrow> (\<forall>p\<in>set ps. plan_ok c (call_plan (Add p)))"
  by (auto simp: calls_ok_def adds_def)

lemma echo_calls_ok: "\<exists>calls. echo_calls c = Some calls \<and> calls_ok c calls"
proof (cases "pa_tcp_ports (cl_params c) = []")
  case False
  then obtain p where "pick (pa_tcp_ports (cl_params c)) 443 = Some p" "p \<in> set (pa_tcp_ports (cl_params c))" using pick_Some by blast
  then show ?thesis using False
    by (auto simp: echo_calls_def Let_def calls_ok_adds call_simps port_class test_class simp del: call_plan.simps)
qed (auto simp: echo_calls_def Let_def calls_ok_adds call_simps port_class test_class simp del: call_plan.simps)

lemma http_calls_ok: "calls_ok c (http_calls c)"
  by (auto simp: http_calls_def calls_ok_adds call_simps port_class test_class simp del: call_plan.simps)

lemma dns_calls_ok: "calls_ok c (dns_calls c)"
  by (auto simp: dns_calls_def Let_def calls_ok_adds call_simps port_class doh_offered_def test_class simp del: call_plan.simps)

lemma tls_calls_ok: "calls_ok c (tls_calls c)"
  by (auto simp: tls_calls_def calls_ok_adds call_simps port_class test_class simp del: call_plan.simps)

lemma packets_calls_ok: "\<exists>calls. packets_calls c = Some calls \<and> calls_ok c calls"
proof -
  let ?tcp = "pa_tcp_ports (cl_params c)" and ?udp = "pa_udp_ports (cl_params c)"
  have "\<exists>p t. ix (preferPorts ?tcp [80, 8080]) 0 = Some p \<and> p \<in> set ?tcp \<and> pick ?tcp 443 = Some t \<and> t \<in> set ?tcp" if "?tcp \<noteq> []"
  proof -
    have "preferPorts ?tcp [80, 8080] \<noteq> []" using that by (simp add: preferPorts_empty)
    then have "ix (preferPorts ?tcp [80, 8080]) 0 = Some (preferPorts ?tcp [80, 8080] ! 0)" "preferPorts ?tcp [80, 8080] ! 0 \<in> set ?tcp"
      using preferPorts_subset [of ?tcp "[80, 8080]"] nth_mem [of 0 "preferPorts ?tcp [80, 8080]"] by (auto simp: ix_def)
    then show ?thesis using pick_Some [OF that] by blast
  qed
  moreover have "\<exists>p. pick ?udp 443 = Some p \<and> p \<in> set ?udp" if "?udp \<noteq> []" using pick_Some [OF that] by blast
  ultimately show ?thesis
    by (cases "?tcp = []"; cases "?udp = []")
      (auto simp: packets_calls_def Let_def calls_ok_adds call_simps port_class test_class simp del: call_plan.simps)
qed

lemma tor_calls_ok: "\<exists>calls. tor_calls c = Some calls \<and> calls_ok c calls"
proof (cases "''tor'' \<in> set (pa_features (cl_params c)) \<and> pa_tcp_ports (cl_params c) \<noteq> []")
  case True
  then obtain p q where "pick (pa_tcp_ports (cl_params c)) 9001 = Some p" "p \<in> set (pa_tcp_ports (cl_params c))"
    "pick (pa_tcp_ports (cl_params c)) 443 = Some q" "q \<in> set (pa_tcp_ports (cl_params c))"
    using pick_Some by metis
  moreover have "calls_ok c (addTorHandshake x os @ [addTorLink x])" if "x \<in> set (pa_tcp_ports (cl_params c))" for x os
    using that True by (auto simp: addTorHandshake_def addTorLink_def calls_ok_def call_simps port_class test_class simp del: call_plan.simps)
  ultimately show ?thesis using True
    by (auto simp: tor_calls_def Let_def calls_ok_adds call_simps port_class test_class simp del: call_plan.simps)
qed (auto simp: tor_calls_def Let_def calls_ok_def)

lemma burst_calls_ok: "\<exists>calls. burst_calls c = Some calls \<and> calls_ok c calls"
proof (cases "pa_tcp_ports (cl_params c) = []")
  case False
  then obtain p where "pick (pa_tcp_ports (cl_params c)) 443 = Some p" "p \<in> set (pa_tcp_ports (cl_params c))" using pick_Some by blast
  then show ?thesis using False
    by (auto simp: burst_calls_def Let_def calls_ok_def call_simps port_class test_class simp del: call_plan.simps)
qed (simp add: burst_calls_def calls_ok_def)

lemma obfs4_calls_ok: "calls_ok c (obfs4_calls c)"
  by (auto simp: obfs4_calls_def calls_ok_adds call_simps port_class test_class simp del: call_plan.simps)

lemma webrtc_calls_ok: "calls_ok c (webrtc_calls c)"
  by (auto simp: webrtc_calls_def Let_def calls_ok_adds call_simps port_class test_class simp del: call_plan.simps)

lemma bulk_calls_ok: "calls_ok c (bulk_calls c)"
  by (auto simp: bulk_calls_def Let_def calls_ok_adds call_simps port_class test_class simp del: call_plan.simps)

lemma quic_calls_ok: "calls_ok c (quic_calls c)"
  by (auto simp: quic_calls_def calls_ok_adds call_simps port_class test_class simp del: call_plan.simps)

lemma vpn_calls_ok: "calls_ok c (vpn_calls c)"
  by (auto simp: vpn_calls_def Let_def ovpn_calls_def wg_calls_def calls_ok_adds call_simps port_class test_class
      simp del: call_plan.simps)

lemma proxy_calls_ok: "calls_ok c (proxy_calls c)"
  by (auto simp: proxy_calls_def Let_def calls_ok_adds call_simps port_class test_class simp del: call_plan.simps)

lemma catalog_calls_ok: "\<exists>calls. catalog_calls c = Some calls \<and> calls_ok c calls"
proof -
  obtain e p t b where "echo_calls c = Some e" "calls_ok c e" "packets_calls c = Some p" "calls_ok c p"
    "tor_calls c = Some t" "calls_ok c t" "burst_calls c = Some b" "calls_ok c b"
    using echo_calls_ok packets_calls_ok tor_calls_ok burst_calls_ok by blast
  then show ?thesis
    by (simp add: catalog_calls_def http_calls_ok dns_calls_ok tls_calls_ok obfs4_calls_ok webrtc_calls_ok bulk_calls_ok quic_calls_ok
        vpn_calls_ok proxy_calls_ok)
qed

lemma base_plans_ok:
  assumes "calls_ok c calls" and "p \<in> set (base_plans c calls)"
  shows "plan_ok c p \<and> (pl_test p \<in> set (wanted c) \<or> doh_offered c \<and> pl_test p = ''dns.doh'')"
  using assms by (auto simp: base_plans_def calls_ok_def)

section \<open>The quick profile\<close>

lemma quickFilter_subset: "set (quickFilter plans) \<subseteq> set plans"
  by (auto simp: quickFilter_def Let_def)

lemma first_index_props:
  "first_index P xs = Some i \<Longrightarrow> i < length xs \<and> P (xs ! i)" "first_index P xs = None \<longleftrightarrow> (\<forall>x\<in>set xs. \<not> P x)"
  by (induction xs arbitrary: i) (auto split: if_splits)

lemma rule_match_weaken: "rule_match r pt vr p \<Longrightarrow> rule_match r False False p"
  by (auto simp: rule_match_def split: if_splits)

lemma rule_keeps_match: "i \<in> set (rule_keeps plans r) \<Longrightarrow> i < length plans \<and> rule_match r False False (plans ! i)"
  by (auto simp: rule_keeps_def Let_def split: if_splits option.splits dest!: first_index_props(1) first_index_props(1) [OF sym] intro: rule_match_weaken)

lemma rule_keeps_some: "p \<in> set plans \<Longrightarrow> rule_match r False False p \<Longrightarrow> rule_keeps plans r \<noteq> []"
  using first_index_props(2) [of "rule_match r False False" plans]
  by (auto simp: rule_keeps_def Let_def split: option.splits)

lemma rule_match_any: "rule_match r False False p \<longleftrightarrow> pl_test p = qr_test r \<and> pl_transport p = qr_transport r"
  by (simp add: rule_match_def)

text \<open>The quick profile keeps a sub-list of the catalog in its order, keeps only plans of its own families, and
  exercises each of them: whenever the catalog has any plan of a rule's test and transport, one
  of them is kept, whatever ports and variants the server offers.\<close>

theorem quick_profile_covers:
  "subseq (quickFilter plans) plans
   \<and> set (quickFilter plans) \<subseteq> {p. \<exists>r\<in>set quickPlan. pl_test p = qr_test r \<and> pl_transport p = qr_transport r}
   \<and> (\<forall>r\<in>set quickPlan. \<forall>p\<in>set plans. pl_test p = qr_test r \<and> pl_transport p = qr_transport r \<longrightarrow>
        (\<exists>q\<in>set (quickFilter plans). pl_test q = qr_test r \<and> pl_transport q = qr_transport r))"
proof (intro conjI ballI impI)
  let ?keep = "concat (map (rule_keeps plans) quickPlan)"
  have "subseq (map ((!) plans) (List.filter (\<lambda>i. i \<in> set ?keep) [0..<length plans])) (map ((!) plans) [0..<length plans])"
    by (intro subseq_map subseq_filter_left)
  then show "subseq (quickFilter plans) plans" by (simp add: quickFilter_def Let_def map_nth)
  show "set (quickFilter plans) \<subseteq> {p. \<exists>r\<in>set quickPlan. pl_test p = qr_test r \<and> pl_transport p = qr_transport r}"
    using rule_keeps_match by (fastforce simp: quickFilter_def Let_def rule_match_any)
  fix r p assume "r \<in> set quickPlan" "p \<in> set plans" "pl_test p = qr_test r \<and> pl_transport p = qr_transport r"
  then obtain i where i: "i \<in> set (rule_keeps plans r)" using rule_keeps_some [of p plans r] by (fastforce simp: rule_match_any neq_Nil_conv)
  then have "plans ! i \<in> set (quickFilter plans)"
    using \<open>r \<in> set quickPlan\<close> rule_keeps_match [OF i] by (auto simp: quickFilter_def Let_def)
  then show "\<exists>q\<in>set (quickFilter plans). pl_test q = qr_test r \<and> pl_transport q = qr_transport r"
    using rule_keeps_match [OF i] by (auto simp: rule_match_any)
qed

section \<open>The catalog\<close>

text \<open>The two destination tests about names speak DNS to port 53, the others connect to port 443.\<close>

definition dest_endpoint :: "string \<Rightarrow> string \<times> int" where
  "dest_endpoint test = (if test = ''dest.dns'' \<or> test = ''dest.nxdomain'' then (''udp'', 53) else (''tcp'', 443))"

definition dest_ok :: "plan \<Rightarrow> bool" where
  "dest_ok p \<longleftrightarrow> IsDestTest (pl_test p) \<and> pool_agrees p \<and> has_prefix (pl_group p) ''dest/'' \<and> \<not> pl_last p
     \<and> (pl_transport p, pl_port p) = dest_endpoint (pl_test p)"

lemma dest_plan_ok: "dest_ok (dest_plan t ro v tr port (''dest/'' @ g) r) \<longleftrightarrow> IsDestTest t \<and> reserve_call r = None \<and> (tr, port) = dest_endpoint t"
  by (auto simp: dest_ok_def dest_plan_def pool_agrees_def has_prefix_def split: option.splits)

lemma dest_tests: "IsDestTest ''dest.dns''" "IsDestTest ''dest.nxdomain''" "IsDestTest ''dest.tcp''" "IsDestTest ''dest.tls''" "IsDestTest ''dest.proto''"
  "IsDestTest ''dest.http''"
  by (simp_all add: IsDestTest_def has_prefix_def)

lemma dest_endpoints: "dest_endpoint ''dest.dns'' = (''udp'', 53)" "dest_endpoint ''dest.nxdomain'' = (''udp'', 53)" "dest_endpoint ''dest.tcp'' = (''tcp'', 443)"
  "dest_endpoint ''dest.tls'' = (''tcp'', 443)" "dest_endpoint ''dest.proto'' = (''tcp'', 443)" "dest_endpoint ''dest.http'' = (''tcp'', 443)"
  by (simp_all add: dest_endpoint_def)

lemma target_plans_ok: "p \<in> set (target_plans t) \<Longrightarrow> dest_ok p"
  unfolding target_plans_def Let_def by (auto simp only: set_append Un_iff set_simps dest_plan_ok dest_tests dest_endpoints reserve_call.simps split: if_splits)

lemma destPlans_ok: "p \<in> set (destPlans c want) \<Longrightarrow> dest_ok p \<and> pl_test p \<in> set want"
  using dest_plan_ok [of _ _ _ _ _ "''control''"] target_plans_ok unfolding destPlans_def set_filter by (auto simp: dest_tests dest_endpoints)

lemma dest_not_last: "IsDestTest t \<Longrightarrow> t \<notin> set LastTests"
  by (auto simp: test_class)

lemma catalog_total: "\<exists>plans. Catalog c = Some plans"
  using catalog_calls_ok [of c] by (auto simp: Catalog_unfold)

lemma catalog_plan:
  assumes "Catalog c = Some plans" and "p \<in> set plans"
  shows "pool_agrees p" "pl_last p \<longleftrightarrow> pl_test p \<in> set LastTests"
    "if IsDestTest (pl_test p) then pl_test p \<in> set (destWanted c) \<and> has_prefix (pl_group p) ''dest/'' \<and> (pl_transport p, pl_port p) = dest_endpoint (pl_test p)
     else (pl_test p \<in> set (wanted c) \<or> doh_offered c \<and> pl_test p = ''dns.doh'')
       \<and> available c (pl_test p) (pl_transport p) (pl_port p) \<and> pl_group p = pl_transport p @ ''/'' @ itoa (pl_port p)"
proof -
  obtain calls where c: "catalog_calls c = Some calls" "calls_ok c calls" using catalog_calls_ok by blast
  define base where "base = (if op_profile (cl_opt c) = ''quick'' then quickFilter (base_plans c calls) else base_plans c calls)"
  have "plans = base @ destPlans c (destWanted c)" using assms(1) by (simp add: Catalog_unfold c(1) base_def)
  moreover have "set base \<subseteq> set (base_plans c calls)" using quickFilter_subset by (auto simp: base_def)
  ultimately have "p \<in> set (base_plans c calls) \<or> p \<in> set (destPlans c (destWanted c))" using assms(2) by auto
  then show "pool_agrees p" "pl_last p \<longleftrightarrow> pl_test p \<in> set LastTests"
    "if IsDestTest (pl_test p) then pl_test p \<in> set (destWanted c) \<and> has_prefix (pl_group p) ''dest/'' \<and> (pl_transport p, pl_port p) = dest_endpoint (pl_test p)
     else (pl_test p \<in> set (wanted c) \<or> doh_offered c \<and> pl_test p = ''dns.doh'')
       \<and> available c (pl_test p) (pl_transport p) (pl_port p) \<and> pl_group p = pl_transport p @ ''/'' @ itoa (pl_port p)"
    using base_plans_ok [OF c(2), of p] destPlans_ok [of p c "destWanted c"] dest_not_last by (auto simp: plan_ok_def dest_ok_def)
qed

text \<open>C13. The catalog is built for every server configuration, without an index out of range, and each of its plans
  is sound. A destination test is one that was asked for (or all are, with sites or standalone) and goes to port 53 over UDP
  for the two tests of names, to port 443 over TCP otherwise. Any other test was granted by the session, and is among those
  asked for when tests are listed, except that dns.doh only needs the server's feature and not to be left
  out of such a list. It runs on a port of its own family: dns.udp and dns.tcp on a DNS port over their
  transport, dns.dot on the DoT port if there is one, quic.v1 on a QUIC port, dns.doh on the control
  port, dns.system without a port (0), every other test on a TCP or UDP port of the server according to its
  transport; and tests that need a feature only run when the server announces it. A plan runs in the serial tail exactly when it
  is a Tor handshake, a Tor link or a burst; and the reservation pool it names is the transport,
  port and kind its routine reserves, so that attempts that could take each other's reservation
  share a pool.\<close>

theorem catalog_plans_sound:
  "\<exists>plans. Catalog c = Some plans \<and>
     (\<forall>p\<in>set plans. pool_agrees p \<and> (pl_last p \<longleftrightarrow> pl_test p \<in> set LastTests)
        \<and> (if IsDestTest (pl_test p) then pl_test p \<in> set (destWanted c) \<and> has_prefix (pl_group p) ''dest/'' \<and> (pl_transport p, pl_port p) = dest_endpoint (pl_test p)
           else (pl_test p \<in> set (wanted c) \<or> doh_offered c \<and> pl_test p = ''dns.doh'')
             \<and> available c (pl_test p) (pl_transport p) (pl_port p) \<and> pl_group p = pl_transport p @ ''/'' @ itoa (pl_port p)))"
  using catalog_total [of c] catalog_plan by blast

text \<open>Within a list of calls, every session test has its handshake control in the same group.\<close>

definition controlled :: "add_call list \<Rightarrow> bool" where
  "controlled cs \<longleftrightarrow> (\<forall>a\<in>set cs. handshakeTestOf (pl_test (call_plan a)) \<noteq> '''' \<longrightarrow>
     (\<exists>b\<in>set cs. pl_test (call_plan b) = handshakeTestOf (pl_test (call_plan a)) \<and> pl_group (call_plan b) = pl_group (call_plan a)))"

lemma controlled_append: "controlled xs \<Longrightarrow> controlled ys \<Longrightarrow> controlled (xs @ ys)"
  unfolding controlled_def by (simp add: ball_Un bex_Un)

lemma controlled_adds: "(\<forall>p\<in>set ps. handshakeTestOf (pl_test p) = '''') \<Longrightarrow> controlled (adds ps)"
  by (auto simp: controlled_def adds_def)

lemma mk_plan_sel [simp]: "pl_test (mk_plan t ro v tr port r) = t" "pl_group (mk_plan t ro v tr port r) = tr @ ''/'' @ itoa port"
  by (simp_all add: mk_plan_def)

lemma no_handshake: "handshakeTestOf ''tcp.echo'' = ''''" "handshakeTestOf ''tcp.payload.random'' = ''''" "handshakeTestOf ''tcp.rtt'' = ''''"
  "handshakeTestOf ''udp.echo'' = ''''" "handshakeTestOf ''udp.payload.random'' = ''''" "handshakeTestOf ''http.host'' = ''''"
  "handshakeTestOf ''dns.udp'' = ''''" "handshakeTestOf ''dns.tcp'' = ''''" "handshakeTestOf ''dns.dot'' = ''''" "handshakeTestOf ''dns.system'' = ''''"
  "handshakeTestOf ''dns.doh'' = ''''" "handshakeTestOf ''tls.version'' = ''''" "handshakeTestOf ''tls.sni'' = ''''" "handshakeTestOf ''tls.alpn'' = ''''"
  "handshakeTestOf ''tls.fingerprint'' = ''''" "handshakeTestOf ''tcp.packets'' = ''''" "handshakeTestOf ''udp.packets'' = ''''"
  "handshakeTestOf ''tls.burst'' = ''''" "handshakeTestOf ''tcp.bulk'' = ''''" "handshakeTestOf ''quic.v1'' = ''''" "handshakeTestOf ''stun.binding'' = ''''"
  "handshakeTestOf ''dtls.hello'' = ''''" "handshakeTestOf ''tor.dir'' = ''''" "handshakeTestOf ''tor.handshake'' = ''''"
  "handshakeTestOf ''obfs4.handshake'' = ''''" "handshakeTestOf ''openvpn.reset'' = ''''" "handshakeTestOf ''wireguard.init'' = ''''"
  "handshakeTestOf ''ikev2.init'' = ''''" "handshakeTestOf ''l2tp.init'' = ''''" "handshakeTestOf ''socks5.connect'' = ''''" "handshakeTestOf ''vless.reality'' = ''''"
  by (simp_all add: handshakeTestOf_def)

lemma plain_controlled:
  "controlled (http_calls c)" "controlled (dns_calls c)" "controlled (tls_calls c)" "controlled (webrtc_calls c)" "controlled (bulk_calls c)"
  "controlled (quic_calls c)"
  unfolding http_calls_def dns_calls_def tls_calls_def webrtc_calls_def bulk_calls_def quic_calls_def Let_def
  by (auto simp: no_handshake controlled_def [of "[]"] intro!: controlled_adds split: if_splits)

lemma picked_controlled:
  "echo_calls c = Some e \<Longrightarrow> controlled e" "packets_calls c = Some p \<Longrightarrow> controlled p" "burst_calls c = Some b \<Longrightarrow> controlled b"
  unfolding echo_calls_def packets_calls_def burst_calls_def Let_def
  by (auto simp: no_handshake controlled_def [of "_ # _"] controlled_def [of "[]"] intro!: controlled_adds controlled_append
      split: if_splits bind_splits)

lemma controlled_concat: "(\<And>x. controlled (adds (f x))) \<Longrightarrow> controlled (adds (concat (map f xs)))"
proof (induction xs)
  case (Cons x xs)
  have "adds (concat (map f (x # xs))) = adds (f x) @ adds (concat (map f xs))" by (simp add: adds_def)
  with Cons show ?case by (simp only: controlled_append)
qed (simp add: controlled_def adds_def)

text \<open>A list of calls that repeats the groups of another under the session test of its handshake.\<close>

lemma controlled_pair:
  assumes "controlled xs" and "\<forall>a\<in>set ys. \<exists>b\<in>set xs. pl_test (call_plan b) = handshakeTestOf (pl_test (call_plan a)) \<and> pl_group (call_plan b) = pl_group (call_plan a)"
  shows "controlled (xs @ ys)"
  using assms unfolding controlled_def by (simp add: ball_Un bex_Un)

lemma hs_sessions: "handshakeTestOf ''wireguard.session'' = ''wireguard.init''" "handshakeTestOf ''openvpn.session'' = ''openvpn.reset''"
  "handshakeTestOf ''ikev2.session'' = ''ikev2.init''" "handshakeTestOf ''l2tp.session'' = ''l2tp.init''"
  "handshakeTestOf ''socks5.session'' = ''socks5.connect''" "handshakeTestOf ''vless.session'' = ''vless.reality''"
  "handshakeTestOf ''tor.link'' = ''tor.handshake''" "handshakeTestOf ''obfs4.session'' = ''obfs4.handshake''"
  by (simp_all add: handshakeTestOf_def)

lemma block_controlled:
  "controlled (adds [mk_plan ''tcp.payload.random'' r1 v1 tr port x1, mk_plan ''obfs4.handshake'' r2 v2 tr port x2, mk_plan ''obfs4.session'' r3 v3 tr port x3])"
  "controlled (adds [mk_plan ''ikev2.init'' r1 v1 tr port x1, mk_plan ''ikev2.session'' r2 v2 tr port x2])"
  "controlled (adds [mk_plan ''l2tp.init'' r1 v1 tr port x1, mk_plan ''l2tp.session'' r2 v2 tr port x2])"
  "controlled (adds [mk_plan ''socks5.connect'' r1 v1 tr port x1, mk_plan ''socks5.connect'' r2 v2 tr port x2, mk_plan ''socks5.session'' r3 v3 tr port x3])"
  "controlled (adds [mk_plan ''vless.reality'' r1 v1 tr port x1, mk_plan ''vless.reality'' r2 v2 tr port x2, mk_plan ''vless.session'' r3 v3 tr port x3,
     mk_plan ''vless.session'' r4 v4 tr port x4])"
  unfolding controlled_def adds_def by (simp_all add: no_handshake hs_sessions)

lemma controlled_Nil: "controlled []"
  by (simp add: controlled_def)

lemma adds_append: "adds (xs @ ys) = adds xs @ adds ys"
  by (simp add: adds_def)

lemma obfs4_controlled: "controlled (obfs4_calls c)"
  by (simp add: obfs4_calls_def controlled_Nil controlled_concat block_controlled)

lemma proxy_controlled: "controlled (proxy_calls c)"
  unfolding proxy_calls_def Let_def by (intro controlled_append) (simp_all add: controlled_Nil controlled_concat block_controlled)

lemma ovpn_tests: "a \<in> set (ovpn_calls c t s) \<Longrightarrow> pl_test (call_plan a) = t"
  by (auto simp: ovpn_calls_def adds_def)

lemma ovpn_same_groups:
  assumes "a \<in> set (ovpn_calls c t s)"
  shows "\<exists>b\<in>set (ovpn_calls c t' s'). pl_test (call_plan b) = t' \<and> pl_group (call_plan b) = pl_group (call_plan a)"
proof -
  have "(\<lambda>a. pl_group (call_plan a)) ` set (ovpn_calls c t s) = (\<lambda>a. pl_group (call_plan a)) ` set (ovpn_calls c t' s')"
    by (simp add: ovpn_calls_def adds_def image_Un image_UN image_image)
  with assms have "pl_group (call_plan a) \<in> (\<lambda>a. pl_group (call_plan a)) ` set (ovpn_calls c t' s')" by blast
  then show ?thesis using ovpn_tests by fastforce
qed

lemma vpn_controlled: "controlled (vpn_calls c)"
proof -
  have o: "controlled (ovpn_calls c ''openvpn.reset'' False)" and w: "controlled (wg_calls c ''wireguard.init'' ''noise-ik'' WireguardInit)"
    unfolding ovpn_calls_def wg_calls_def by (intro controlled_adds, auto simp: no_handshake)+
  have os: "\<forall>a\<in>set (ovpn_calls c ''openvpn.session'' True). \<exists>b\<in>set (ovpn_calls c ''openvpn.reset'' False).
      pl_test (call_plan b) = handshakeTestOf (pl_test (call_plan a)) \<and> pl_group (call_plan b) = pl_group (call_plan a)"
    using ovpn_same_groups [of _ c "''openvpn.session''" True "''openvpn.reset''" False] by (auto simp: ovpn_tests hs_sessions)
  have ws: "\<forall>a\<in>set (wg_calls c ''wireguard.session'' ''noise-ik+data'' WireguardSession). \<exists>b\<in>set (wg_calls c ''wireguard.init'' ''noise-ik'' WireguardInit).
      pl_test (call_plan b) = handshakeTestOf (pl_test (call_plan a)) \<and> pl_group (call_plan b) = pl_group (call_plan a)"
    unfolding wg_calls_def adds_def by (auto simp: hs_sessions del: preferPorts_in)
  have base: "controlled ((ovpn_calls c ''openvpn.reset'' False @ wg_calls c ''wireguard.init'' ''noise-ik'' WireguardInit)
      @ (if vs then wg_calls c ''wireguard.session'' ''noise-ik+data'' WireguardSession @ ovpn_calls c ''openvpn.session'' True else []))" for vs
    using os ws by (intro controlled_pair controlled_append o w) (cases vs; auto simp: bex_Un)
  have "controlled (x @ y @ z @ r)" if "controlled ((x @ y) @ z)" "controlled r" for x y z r
    using controlled_append [OF that] by simp
  from this [OF base] show ?thesis unfolding vpn_calls_def Let_def
    by (simp add: controlled_Nil adds_append controlled_append controlled_concat block_controlled)
qed

lemma tor_controlled: "tor_calls c = Some t \<Longrightarrow> controlled t"
proof -
  have hs: "controlled (addTorHandshake x os)" for x os
    by (auto simp: controlled_def addTorHandshake_def no_handshake)
  have "controlled (addTorHandshake x (z # os) @ [addTorLink x])" for x z os
    by (rule controlled_pair [OF hs]) (auto simp: addTorHandshake_def addTorLink_def hs_sessions)
  then have l: "controlled (addTorHandshake x (z # os) @ addTorLink x # ys)" if "controlled ys" for x z os ys
    using controlled_append [OF _ that, of "addTorHandshake x (z # os) @ [addTorLink x]"] by simp
  have d: "controlled (adds (map (\<lambda>port. mk_plan ''tor.dir'' rV ''consensus-microdesc'' ''tcp'' port TorDir) ps))" for ps
    by (rule controlled_adds) (auto simp: no_handshake)
  show "tor_calls c = Some t \<Longrightarrow> controlled t"
    by (auto simp: tor_calls_def Let_def allTorHandshakes_def controlled_Nil split: if_splits bind_splits intro!: controlled_append [OF d] l)
qed

lemma catalog_controlled:
  assumes "catalog_calls c = Some calls"
  shows "controlled calls"
proof -
  obtain e p t b where s: "echo_calls c = Some e" "packets_calls c = Some p" "tor_calls c = Some t" "burst_calls c = Some b"
    using echo_calls_ok packets_calls_ok tor_calls_ok burst_calls_ok by blast
  then have "calls = e @ http_calls c @ dns_calls c @ tls_calls c @ p @ t @ obfs4_calls c @ webrtc_calls c @ b @ bulk_calls c
      @ quic_calls c @ vpn_calls c @ proxy_calls c"
    using assms by (simp add: catalog_calls_def)
  then show ?thesis
    using picked_controlled(1) [OF s(1)] picked_controlled(2) [OF s(2)] tor_controlled [OF s(3)] picked_controlled(3) [OF s(4)]
    by (simp add: controlled_append plain_controlled obfs4_controlled vpn_controlled proxy_controlled)
qed

text \<open>In the full catalog every session test comes with its control: when the handshake-only test of its family is
  wanted too, a plan of it runs on the same transport and port, which is the comparison that the
  classifier's stateful-blocking rule needs.\<close>

theorem session_tests_have_controls:
  assumes "Catalog c = Some plans" and "op_profile (cl_opt c) \<noteq> ''quick''" and "p \<in> set plans"
    and "handshakeTestOf (pl_test p) \<noteq> ''''" and "handshakeTestOf (pl_test p) \<in> set (wanted c)"
  shows "\<exists>q\<in>set plans. pl_test q = handshakeTestOf (pl_test p) \<and> pl_group q = pl_group p"
proof -
  obtain calls where c: "catalog_calls c = Some calls" "calls_ok c calls" using catalog_calls_ok by blast
  then have plans: "plans = base_plans c calls @ destPlans c (destWanted c)"
    using assms(1,2) by (simp add: Catalog_unfold)
  have "\<not> IsDestTest (pl_test p)"
    using assms(4) by (auto simp: handshakeTestOf_def IsDestTest_def has_prefix_def split: if_splits)
  then have "p \<in> set (base_plans c calls)" using assms(3) plans destPlans_ok [of p c] by (auto simp: dest_ok_def)
  then obtain a where "a \<in> set calls" "p = call_plan a" by (auto simp: base_plans_def)
  then obtain b where "b \<in> set calls" "pl_test (call_plan b) = handshakeTestOf (pl_test p)" "pl_group (call_plan b) = pl_group p"
    using catalog_controlled [OF c(1)] assms(4) by (auto simp: controlled_def)
  then show ?thesis using assms(5) plans by (auto simp: base_plans_def intro!: bexI [of _ "call_plan b"])
qed

section \<open>A server\<close>

definition demo_options :: options where
  "demo_options = with_defaults \<lparr>op_target = ''192.0.2.1'', op_control_port = 0, op_pin = '''', op_tests = [], op_profile = '''', op_repeat = 0, op_retry = 1,
     op_parallel = 0, op_timeout = 0, op_trigger_host = '''', op_sni_list = [], op_bulk_kb = 0, op_session_packets = 0, op_reality_sni = '''',
     op_burst_n = 0, op_adaptive = True, op_detect_bypass = False, op_local_addr = '''', op_sites = False, op_targets = []\<rparr>"

definition demo_client :: client where
  "demo_client = (new_client demo_options (Addr4 0xC0000201) False)
     \<lparr>cl_params := zero_params\<lparr>pa_udp_ports := [4500], pa_features := [''ike'']\<rparr>,
      cl_session := zero_session\<lparr>sr_tests := [''udp.echo'', ''ikev2.init'', ''ikev2.session'']\<rparr>\<rparr>"

abbreviation (input) demo_ike :: "string \<Rightarrow> string \<Rightarrow> bool \<Rightarrow> plan" where
  "demo_ike t v n \<equiv> mk_plan t RoleVariant v ''udp'' 4500 (Ikev2 n)"

lemma demo_client_sel:
  "pa_tcp_ports (cl_params demo_client) = []" "pa_udp_ports (cl_params demo_client) = [4500]" "pa_dns_ports (cl_params demo_client) = []"
  "pa_quic_ports (cl_params demo_client) = []" "pa_features (cl_params demo_client) = [''ike'']" "pa_dot_port (cl_params demo_client) = 0"
  "pa_ovpn_tls_auth_key (cl_params demo_client) = ''''" "cl_opt demo_client = demo_options" "op_profile demo_options = ''''" "op_tests demo_options = []"
  "sr_tests (cl_session demo_client) = [''udp.echo'', ''ikev2.init'', ''ikev2.session'']" "op_sites demo_options = False" "cl_standalone demo_client = False"
  by (simp_all add: demo_client_def demo_options_def with_defaults_def new_client_def zero_params_def zero_session_def)

lemma demo_catalog:
  "Catalog demo_client = Some [mk_plan ''udp.echo'' RoleBaseline ''cp1-64'' ''udp'' 4500 (UdpEcho 64),
     demo_ike ''ikev2.init'' ''plain'' False, demo_ike ''ikev2.session'' ''plain'' False, demo_ike ''ikev2.init'' ''nat-t'' True, demo_ike ''ikev2.session'' ''nat-t'' True]"
proof -
  note [simp] = demo_client_sel
  have p: "preferPorts [] ps = []" "preferPorts [4500] [500] = [4500]" "preferPorts [4500] [4500] = [4500]" "preferPorts [4500] [1194, 443] = [4500]"
    "preferPorts [4500] [51820, 443] = [4500]" for ps
    by (simp_all add: preferPorts_def plan_intersect_def)
  have d: "destPlans demo_client (destWanted demo_client) = []" by (simp add: destWanted_def destPlans_def)
  have w: "wanted demo_client = [''udp.echo'', ''ikev2.init'', ''ikev2.session'']" "\<not> doh_offered demo_client"
    by (simp_all add: wanted_def doh_offered_def)
  have e: "echo_calls demo_client = Some (adds [mk_plan ''udp.echo'' RoleBaseline ''cp1-64'' ''udp'' 4500 (UdpEcho 64), mk_plan ''udp.payload.random'' RoleControl ''random-64'' ''udp'' 4500 (UdpRandom 64)])"
    by (simp add: echo_calls_def adds_def)
  have k: "packets_calls demo_client = Some (adds [mk_plan ''udp.packets'' RoleVariant ''cp1-32x32'' ''udp'' 4500 (UdpPackets 32 32)])"
    by (simp add: packets_calls_def pick_def ix_def)
  show ?thesis
    by (simp add: Catalog_unfold base_plans_def d w e k catalog_calls_def http_calls_def dns_calls_def tls_calls_def tor_calls_def burst_calls_def
        obfs4_calls_def webrtc_calls_def bulk_calls_def quic_calls_def vpn_calls_def ovpn_calls_def wg_calls_def proxy_calls_def ovpnAuths_def p adds_def)
qed

theorem catalog_plans_sound_witness:
  "\<exists>plans. Catalog demo_client = Some plans \<and> demo_ike ''ikev2.session'' ''nat-t'' True \<in> set plans
     \<and> pl_serial (demo_ike ''ikev2.session'' ''nat-t'' True) = ''udp/'' @ itoa 4500 @ ''/ikev2''"
proof -
  have "pool_agrees (demo_ike ''ikev2.session'' ''nat-t'' True)" using catalog_plans_sound [of demo_client] demo_catalog by auto
  then show ?thesis using demo_catalog by (simp add: pool_agrees_def mk_plan_def ParseIKE_def)
qed

theorem session_tests_have_controls_witness:
  "\<exists>plans. Catalog demo_client = Some plans
     \<and> (\<exists>q\<in>set plans. pl_test q = handshakeTestOf ''ikev2.session'' \<and> pl_group q = pl_group (demo_ike ''ikev2.session'' ''nat-t'' True))"
proof (intro exI conjI)
  let ?p = "demo_ike ''ikev2.session'' ''nat-t'' True"
  have "\<exists>q\<in>set (the (Catalog demo_client)). pl_test q = handshakeTestOf (pl_test ?p) \<and> pl_group q = pl_group ?p"
    by (rule session_tests_have_controls [where c = demo_client]) (simp_all add: demo_catalog demo_client_sel hs_sessions wanted_def)
  then show "\<exists>q\<in>set (the (Catalog demo_client)). pl_test q = handshakeTestOf ''ikev2.session'' \<and> pl_group q = pl_group ?p" by simp
qed (simp add: demo_catalog)

theorem quick_profile_covers_witness:
  "\<exists>q\<in>set (quickFilter [mk_plan ''udp.echo'' RoleBaseline ''cp1-64'' ''udp'' 4500 (UdpEcho 64)]). pl_test q = ''udp.echo''"
proof -
  have "\<lparr>qr_test = ''udp.echo'', qr_transport = ''udp'', qr_ports = Some [443, 1194, 51820], qr_variant = ''''\<rparr> \<in> set quickPlan"
    by (simp add: quickPlan_def)
  with quick_profile_covers [of "[mk_plan ''udp.echo'' RoleBaseline ''cp1-64'' ''udp'' 4500 (UdpEcho 64)]"] show ?thesis
    by (fastforce simp: mk_plan_def)
qed

end
