(* ===== verification/Schedule.thy ===== *)
theory Schedule
  imports Plan_Props
begin

text \<open>
  The scheduler of a scan (\<open>internal/client/run.go\<close>): every plan runs \<open>Repeat\<close> times over a pool of workers, the port
  groups that failed run \<open>Retry\<close> more rounds, the plans marked last run alone at the end, and the
  progress total foresees the retries. The goroutines are a step function over an explicit state:
  an event is one worker taking a job, starting it (which takes the mutex of its reservation
  pool), finishing it with an outcome, the end of a phase, or the scan being stopped. The random
  order of a round is the argument \<open>shuffle\<close>.
\<close>

type_synonym job = "plan \<times> int"

section \<open>The job lists\<close>

definition tailRank :: "plan \<Rightarrow> nat" where
  "tailRank p = (if pl_test p = ''tls.burst'' \<and> pl_role p = RoleControl then 1 else if pl_test p = ''tls.burst'' then 2 else 0)"

definition round_of :: "plan list \<Rightarrow> (plan \<Rightarrow> bool) \<Rightarrow> int \<Rightarrow> job list" where
  "round_of plans P r = map (\<lambda>p. (p, r)) (List.filter P plans)"

definition main_jobs :: "options \<Rightarrow> (int \<Rightarrow> job list \<Rightarrow> job list) \<Rightarrow> plan list \<Rightarrow> job list" where
  "main_jobs opt shuffle plans = concat (map (\<lambda>r. shuffle r (round_of plans (\<lambda>p. \<not> pl_last p) r)) [1..op_repeat opt])"

definition tail_jobs :: "options \<Rightarrow> plan list \<Rightarrow> job list" where
  "tail_jobs opt plans = sort_key (\<lambda>j. tailRank (fst j)) (concat (map (round_of plans pl_last) [1..op_repeat opt]))"

type_synonym finished = "job \<times> string"

definition failed :: "string \<Rightarrow> bool" where
  "failed oc \<longleftrightarrow> oc \<noteq> OutcomeOK \<and> oc \<noteq> OutcomeSkipped"

text \<open>\<open>only = None\<close> is the nil map: every test counts.\<close>

definition failedGroups :: "finished list \<Rightarrow> string list option \<Rightarrow> string list" where
  "failedGroups attempts only =
     map (\<lambda>a. pl_group (fst (fst a)))
       (List.filter (\<lambda>a. (case only of None \<Rightarrow> True | Some ts \<Rightarrow> pl_test (fst (fst a)) \<in> set ts) \<and> failed (snd a)) attempts)"

definition retry_jobs :: "options \<Rightarrow> (int \<Rightarrow> job list \<Rightarrow> job list) \<Rightarrow> plan list \<Rightarrow> bool \<Rightarrow> string list \<Rightarrow> job list" where
  "retry_jobs opt shuffle plans final groups =
     concat (map (\<lambda>r. let rnd = round_of plans (\<lambda>p. pl_last p = final \<and> pl_group p \<in> set groups) r
                       in if final then sort_key (\<lambda>j. tailRank (fst j)) rnd else shuffle r rnd)
       [op_repeat opt + 1..op_repeat opt + op_retry opt])"

definition plansOf :: "plan list \<Rightarrow> bool \<times> string \<Rightarrow> int" where
  "plansOf plans k = int (length (List.filter (\<lambda>p. (pl_last p, pl_group p) = k) plans))"

section \<open>State\<close>

datatype worker = Idle | Waiting job | Busy job

datatype phase = PMain | PRetry | PTail | PTailRetry | PDone

record sched =
  sd_phase :: phase
  sd_queue :: "job list"
  sd_workers :: "worker list"
  sd_attempts :: "finished list"
  sd_done :: int
  sd_total :: int
  sd_foreseen :: "(bool \<times> string) list"
  sd_foretold :: "bool \<Rightarrow> int"
  sd_cancelled :: bool

definition run_phase :: "phase \<Rightarrow> job list \<Rightarrow> int \<Rightarrow> sched \<Rightarrow> sched" where
  "run_phase ph js nw s = s\<lparr>sd_phase := ph, sd_queue := js, sd_workers := replicate (nat nw) Idle\<rparr>"

definition sched_start :: "options \<Rightarrow> (int \<Rightarrow> job list \<Rightarrow> job list) \<Rightarrow> plan list \<Rightarrow> sched" where
  "sched_start opt shuffle plans =
     (let js = main_jobs opt shuffle plans
      in run_phase PMain js (op_parallel opt)
           \<lparr>sd_phase = PMain, sd_queue = [], sd_workers = [], sd_attempts = [], sd_done = 0,
            sd_total = int (length js) + int (length (tail_jobs opt plans)), sd_foreseen = [], sd_foretold = (\<lambda>_. 0), sd_cancelled = False\<rparr>)"

section \<open>Steps\<close>

datatype event = Take nat | Start nat | Finish nat string | Cancel | NextPhase

text \<open>The mutex of the pool is free: no worker runs a job of it.\<close>

definition pool_free :: "string \<Rightarrow> worker list \<Rightarrow> bool" where
  "pool_free k ws = list_all (\<lambda>w. case w of Busy j \<Rightarrow> pl_serial (fst j) \<noteq> k | _ \<Rightarrow> True) ws"

text \<open>The accounting of a finished attempt: the first failure of a group in the rounds that count foresees its retries.\<close>

definition record_attempt :: "options \<Rightarrow> plan list \<Rightarrow> job \<Rightarrow> string \<Rightarrow> sched \<Rightarrow> sched" where
  "record_attempt opt plans j oc s =
     (let s = s\<lparr>sd_attempts := sd_attempts s @ [(j, oc)], sd_done := sd_done s + 1\<rparr>;
          k = (pl_last (fst j), pl_group (fst j))
      in if op_retry opt > 0 \<and> snd j \<le> op_repeat opt \<and> failed oc \<and> k \<notin> set (sd_foreseen s)
         then let n = op_retry opt * plansOf plans k
              in s\<lparr>sd_foreseen := k # sd_foreseen s, sd_total := sd_total s + n,
                   sd_foretold := (sd_foretold s)(fst k := sd_foretold s (fst k) + n)\<rparr>
         else s)"

definition retry_phase :: "options \<Rightarrow> (int \<Rightarrow> job list \<Rightarrow> job list) \<Rightarrow> plan list \<Rightarrow> bool \<Rightarrow> string list option \<Rightarrow> sched \<Rightarrow> job list \<times> sched" where
  "retry_phase opt shuffle plans final only s =
     (let rs = retry_jobs opt shuffle plans final (failedGroups (sd_attempts s) only)
      in (rs, s\<lparr>sd_total := sd_total s + int (length rs) - sd_foretold s final\<rparr>))"

definition next_phase :: "options \<Rightarrow> (int \<Rightarrow> job list \<Rightarrow> job list) \<Rightarrow> plan list \<Rightarrow> sched \<Rightarrow> sched" where
  "next_phase opt shuffle plans s =
     (let tail = tail_jobs opt plans
      in case sd_phase s of
           PMain \<Rightarrow>
             if op_retry opt > 0 \<and> \<not> sd_cancelled s
             then (case retry_phase opt shuffle plans False None s of (rs, s') \<Rightarrow>
                     if rs \<noteq> [] then run_phase PRetry rs (op_parallel opt) s' else run_phase PTail tail 1 s')
             else run_phase PTail tail 1 s
         | PRetry \<Rightarrow> run_phase PTail tail 1 s
         | PTail \<Rightarrow>
             if op_retry opt > 0 \<and> \<not> sd_cancelled s \<and> tail \<noteq> []
             then (case retry_phase opt shuffle plans True (Some (map pl_test (List.filter pl_last plans))) s of (rs, s') \<Rightarrow>
                     if rs \<noteq> [] then run_phase PTailRetry rs 1 s' else run_phase PDone [] 0 s')
             else run_phase PDone [] 0 s
         | _ \<Rightarrow> run_phase PDone [] 0 s)"

definition sched_step :: "options \<Rightarrow> (int \<Rightarrow> job list \<Rightarrow> job list) \<Rightarrow> plan list \<Rightarrow> event \<Rightarrow> sched \<Rightarrow> sched option" where
  "sched_step opt shuffle plans ev s =
     (case ev of
        Take i \<Rightarrow>
          (case (ix (sd_workers s) i, sd_queue s) of
             (Some Idle, j # q) \<Rightarrow>
               Some (if sd_cancelled s then s\<lparr>sd_queue := []\<rparr>
                     else s\<lparr>sd_queue := q, sd_workers := (sd_workers s)[i := Waiting j]\<rparr>)
           | _ \<Rightarrow> None)
      | Start i \<Rightarrow>
          (case ix (sd_workers s) i of
             Some (Waiting j) \<Rightarrow>
               if pl_serial (fst j) = '''' \<or> pool_free (pl_serial (fst j)) (sd_workers s)
               then Some (s\<lparr>sd_workers := (sd_workers s)[i := Busy j]\<rparr>) else None
           | _ \<Rightarrow> None)
      | Finish i oc \<Rightarrow>
          (case ix (sd_workers s) i of
             Some (Busy j) \<Rightarrow>
               (let oc = (if sd_cancelled s \<and> oc \<noteq> OutcomeOK then OutcomeSkipped else oc)
                in Some (record_attempt opt plans j oc (s\<lparr>sd_workers := (sd_workers s)[i := Idle]\<rparr>)))
           | _ \<Rightarrow> None)
      | Cancel \<Rightarrow> if sd_cancelled s then None else Some (s\<lparr>sd_cancelled := True\<rparr>)
      | NextPhase \<Rightarrow>
          if sd_phase s \<noteq> PDone \<and> (sd_queue s = [] \<or> sd_cancelled s) \<and> list_all (\<lambda>w. w = Idle) (sd_workers s)
          then Some (next_phase opt shuffle plans s) else None)"

inductive sched_reach :: "options \<Rightarrow> (int \<Rightarrow> job list \<Rightarrow> job list) \<Rightarrow> plan list \<Rightarrow> sched \<Rightarrow> bool"
  for opt shuffle plans where
  start: "sched_reach opt shuffle plans (sched_start opt shuffle plans)"
| step: "sched_reach opt shuffle plans s \<Longrightarrow> sched_step opt shuffle plans ev s = Some s' \<Longrightarrow> sched_reach opt shuffle plans s'"

section \<open>The end of a run\<close>

text \<open>The attempts in the order they started, joined with the server's observations and judged. \<open>fetched\<close> is the answer
  to the fetch of the observations; a failed fetch leaves the attempts unmerged.\<close>

definition finish_run :: "bool \<Rightarrow> string + observation list \<Rightarrow> duration \<Rightarrow> attempt list \<Rightarrow> attempt list \<times> string option" where
  "finish_run standalone fetched skew attempts =
     (let as = sort_key at_started attempts; judge = map (\<lambda>a. a\<lparr>at_merged := mergeVerdict a\<rparr>)
      in if standalone then (judge as, None)
         else case fetched of
                Inl e \<Rightarrow> (as, Some (''observations: '' @ e))
              | Inr obs \<Rightarrow> (judge (mergeObservations as obs skew), None))"

end
