(* ===== verification/Schedule_Props.thy ===== *)
theory Schedule_Props
  imports Schedule "HOL-Library.Multiset"
begin

text \<open>
  What the scheduler guarantees, whatever the interleaving of the workers: attempts that draw from one
  reservation pool never run at the same time, the serial tail runs one plan at a time with
  nothing else in flight, every run ends, a run that is not stopped finishes exactly the attempts
  it announced, and the total only grows by the retries it foresaw.
\<close>

section \<open>Invariants\<close>

fun in_flight :: "worker \<Rightarrow> job list" where
  "in_flight Idle = []"
| "in_flight (Waiting j) = [j]"
| "in_flight (Busy j) = [j]"

definition flying :: "sched \<Rightarrow> job list" where
  "flying s = concat (map in_flight (sd_workers s))"

text \<open>No two running jobs share a pool.\<close>

definition pools_exclusive :: "worker list \<Rightarrow> bool" where
  "pools_exclusive ws \<longleftrightarrow> (\<forall>i k j j'. i < length ws \<longrightarrow> k < length ws \<longrightarrow> ws ! i = Busy j \<longrightarrow> ws ! k = Busy j' \<longrightarrow>
     pl_serial (fst j) = pl_serial (fst j') \<longrightarrow> pl_serial (fst j) \<noteq> '''' \<longrightarrow> i = k)"

lemma ix_eq_Some: "ix xs i = Some x \<longleftrightarrow> i < length xs \<and> xs ! i = x"
  by (auto simp: ix_def)

lemma pools_exclusive_idle: "list_all (\<lambda>w. w = Idle) ws \<Longrightarrow> pools_exclusive ws"
  by (auto simp: pools_exclusive_def list_all_length)

lemma pools_exclusive_update:
  assumes "pools_exclusive ws" and "\<And>j. w = Busy j \<Longrightarrow> pl_serial (fst j) = '''' \<or> pool_free (pl_serial (fst j)) ws"
  shows "pools_exclusive (ws[i := w])"
proof -
  have new: "pl_serial (fst j) \<noteq> pl_serial (fst j')" if "w = Busy j" "pl_serial (fst j) \<noteq> ''''" "k < length ws" "ws ! k = Busy j'" for j j' k
    using assms(2) [OF that(1)] that by (cases j') (auto simp: pool_free_def list_all_length split: worker.splits)
  show ?thesis unfolding pools_exclusive_def length_list_update
  proof (intro allI impI)
    fix m k j j'
    assume a: "m < length ws" "k < length ws" "ws[i := w] ! m = Busy j" "ws[i := w] ! k = Busy j'"
      "pl_serial (fst j) = pl_serial (fst j')" "pl_serial (fst j) \<noteq> ''''"
    have old: "m = k" if "m \<noteq> i" "k \<noteq> i"
      using assms(1) a that unfolding pools_exclusive_def by (metis nth_list_update_neq)
    have "w = Busy j" if "m = i" using a(1,3) that by simp
    moreover have "w = Busy j'" if "k = i" using a(2,4) that by simp
    moreover have "ws ! m = Busy j" if "m \<noteq> i" using a(3) that by simp
    moreover have "ws ! k = Busy j'" if "k \<noteq> i" using a(4) that by simp
    ultimately show "m = k" using old new [of j k j'] new [of j' m j] a(1,2,5,6) by (metis (no_types))
  qed
qed

definition shuffle_ok :: "(int \<Rightarrow> job list \<Rightarrow> job list) \<Rightarrow> bool" where
  "shuffle_ok shuffle \<longleftrightarrow> (\<forall>r js. mset (shuffle r js) = mset js)"

text \<open>The jobs of a phase: the plans of the tail run in the last two phases and only there; the retries come after
  the rounds that count.\<close>

definition phase_job :: "options \<Rightarrow> plan list \<Rightarrow> phase \<Rightarrow> job \<Rightarrow> bool" where
  "phase_job opt plans ph j \<longleftrightarrow> fst j \<in> set plans \<and> pl_last (fst j) = (ph \<in> {PTail, PTailRetry}) \<and> 1 \<le> snd j
     \<and> (if ph \<in> {PRetry, PTailRetry} then op_repeat opt < snd j \<and> snd j \<le> op_repeat opt + op_retry opt else snd j \<le> op_repeat opt)"

definition sched_inv :: "options \<Rightarrow> plan list \<Rightarrow> sched \<Rightarrow> bool" where
  "sched_inv opt plans s \<longleftrightarrow> pools_exclusive (sd_workers s)
     \<and> length (sd_workers s) = (case sd_phase s of PMain \<Rightarrow> nat (op_parallel opt) | PRetry \<Rightarrow> nat (op_parallel opt) | PDone \<Rightarrow> 0 | _ \<Rightarrow> 1)
     \<and> (\<forall>j\<in>set (sd_queue s) \<union> set (flying s). phase_job opt plans (sd_phase s) j) \<and> (sd_phase s = PDone \<longrightarrow> sd_queue s = [])"

lemma flying_idle: "list_all (\<lambda>w. w = Idle) ws \<Longrightarrow> concat (map in_flight ws) = []"
  by (induction ws) auto

lemma flying_update:
  assumes "i < length ws"
  shows "mset (concat (map in_flight (ws[i := w]))) + mset (in_flight (ws ! i)) = mset (concat (map in_flight ws)) + mset (in_flight w)"
  using assms by (induction ws arbitrary: i) (auto split: nat.split simp: nth_Cons')

lemma flying_set:
  assumes "i < length ws"
  shows "set (concat (map in_flight (ws[i := w]))) \<subseteq> set (concat (map in_flight ws)) \<union> set (in_flight w)"
proof -
  have "set_mset (mset (concat (map in_flight (ws[i := w])))) \<subseteq> set_mset (mset (concat (map in_flight ws)) + mset (in_flight w))"
    unfolding flying_update [OF assms, symmetric] by simp
  then show ?thesis by simp
qed

lemma flying_member: "i < length ws \<Longrightarrow> ws ! i = Waiting j \<or> ws ! i = Busy j \<Longrightarrow> j \<in> set (concat (map in_flight ws))"
proof -
  assume i: "i < length ws" and "ws ! i = Waiting j \<or> ws ! i = Busy j"
  then have "j \<in> set (in_flight (ws ! i))" by auto
  then show ?thesis using nth_mem [OF i] by auto
qed

lemma shuffle_set: "shuffle_ok shuffle \<Longrightarrow> set (shuffle r js) = set js"
  unfolding shuffle_ok_def by (metis set_mset_mset)

lemma shuffle_length: "shuffle_ok shuffle \<Longrightarrow> length (shuffle r js) = length js"
  unfolding shuffle_ok_def by (metis size_mset)

lemma round_of_set: "j \<in> set (round_of plans P r) \<longleftrightarrow> fst j \<in> set plans \<and> P (fst j) \<and> snd j = r"
  by (cases j) (auto simp: round_of_def)

lemma main_jobs_phase: "shuffle_ok shuffle \<Longrightarrow> j \<in> set (main_jobs opt shuffle plans) \<Longrightarrow> phase_job opt plans PMain j"
  by (auto simp: main_jobs_def shuffle_set round_of_set phase_job_def)

lemma tail_jobs_phase: "j \<in> set (tail_jobs opt plans) \<Longrightarrow> phase_job opt plans PTail j"
  by (auto simp: tail_jobs_def round_of_set phase_job_def)

lemma retry_jobs_phase:
  assumes "shuffle_ok shuffle" and "0 \<le> op_repeat opt" and "j \<in> set (retry_jobs opt shuffle plans final gs)"
  shows "phase_job opt plans (if final then PTailRetry else PRetry) j"
  using assms(2,3) by (auto simp: retry_jobs_def Let_def shuffle_set [OF assms(1)] round_of_set phase_job_def split: if_splits)

lemma run_phase_inv:
  assumes "\<And>j. j \<in> set js \<Longrightarrow> phase_job opt plans ph j"
    and "nat nw = (case ph of PMain \<Rightarrow> nat (op_parallel opt) | PRetry \<Rightarrow> nat (op_parallel opt) | PDone \<Rightarrow> 0 | _ \<Rightarrow> 1)"
    and "ph = PDone \<longrightarrow> js = []"
  shows "sched_inv opt plans (run_phase ph js nw s)"
proof -
  have "list_all (\<lambda>w. w = Idle) (replicate (nat nw) Idle)" by (simp add: list_all_iff)
  then show ?thesis using assms by (simp add: sched_inv_def run_phase_def flying_def pools_exclusive_idle flying_idle)
qed

lemma record_attempt_sel [simp]:
  "sd_phase (record_attempt opt plans j r s) = sd_phase s" "sd_queue (record_attempt opt plans j r s) = sd_queue s"
  "sd_workers (record_attempt opt plans j r s) = sd_workers s" "sd_cancelled (record_attempt opt plans j r s) = sd_cancelled s"
  "sd_attempts (record_attempt opt plans j r s) = sd_attempts s @ [(j, r)]" "sd_done (record_attempt opt plans j r s) = sd_done s + 1"
  by (simp_all add: record_attempt_def Let_def)

lemma next_phase_inv:
  assumes "shuffle_ok shuffle" and "0 \<le> op_repeat opt"
  shows "sched_inv opt plans (next_phase opt shuffle plans s)"
proof -
  note R = retry_jobs_phase [OF assms]
  show ?thesis
    using R [where final = False] R [where final = True] tail_jobs_phase
    by (cases "sd_phase s") (auto simp: next_phase_def retry_phase_def Let_def intro!: run_phase_inv)
qed

lemma sched_step_cases [consumes 1, case_names Take TakeCancelled Start Finish Cancel NextPhase]:
  assumes "sched_step opt shuffle plans ev s = Some s'"
  obtains i j q where "ev = Take i" "i < length (sd_workers s)" "sd_workers s ! i = Idle" "sd_queue s = j # q" "\<not> sd_cancelled s"
    "s' = s\<lparr>sd_queue := q, sd_workers := (sd_workers s)[i := Waiting j]\<rparr>"
  | i j q where "ev = Take i" "sd_queue s = j # q" "sd_cancelled s" "s' = s\<lparr>sd_queue := []\<rparr>"
  | i j where "ev = Start i" "i < length (sd_workers s)" "sd_workers s ! i = Waiting j" "pl_serial (fst j) = '''' \<or> pool_free (pl_serial (fst j)) (sd_workers s)"
    "s' = s\<lparr>sd_workers := (sd_workers s)[i := Busy j]\<rparr>"
  | i j r where "ev = Finish i r" "i < length (sd_workers s)" "sd_workers s ! i = Busy j"
    "s' = record_attempt opt plans j (if sd_cancelled s \<and> r \<noteq> OutcomeOK then OutcomeSkipped else r) (s\<lparr>sd_workers := (sd_workers s)[i := Idle]\<rparr>)"
  | "ev = Cancel" "\<not> sd_cancelled s" "s' = s\<lparr>sd_cancelled := True\<rparr>"
  | "ev = NextPhase" "sd_phase s \<noteq> PDone" "sd_queue s = [] \<or> sd_cancelled s" "list_all (\<lambda>w. w = Idle) (sd_workers s)" "s' = next_phase opt shuffle plans s"
  using assms unfolding sched_step_def
  by (cases ev) (auto simp: ix_eq_Some Let_def split: option.splits worker.splits list.splits if_splits)

lemma sched_inv_step:
  assumes "sched_step opt shuffle plans ev s = Some s'" and "sched_inv opt plans s" and "shuffle_ok shuffle" and "0 \<le> op_repeat opt"
  shows "sched_inv opt plans s'"
  using assms(1)
proof (cases rule: sched_step_cases)
  case (Take i j q)
  then show ?thesis using assms(2) flying_set [OF Take(2), of "Waiting j"] pools_exclusive_update [of "sd_workers s" "Waiting j" i]
    by (auto simp: sched_inv_def flying_def)
next
  case (TakeCancelled i j q)
  then show ?thesis using assms(2) by (auto simp: sched_inv_def flying_def)
next
  case (Start i j)
  then have "j \<in> set (flying s)" using flying_member [of i "sd_workers s" j] by (simp add: flying_def)
  then show ?thesis using assms(2) Start flying_set [OF Start(2), of "Busy j"] pools_exclusive_update [of "sd_workers s" "Busy j" i]
    by (auto simp: sched_inv_def flying_def)
next
  case (Finish i j r)
  then show ?thesis using assms(2) flying_set [OF Finish(2), of Idle] pools_exclusive_update [of "sd_workers s" Idle i]
    by (auto simp: sched_inv_def flying_def)
next
  case Cancel
  then show ?thesis using assms(2) by (simp add: sched_inv_def flying_def)
next
  case NextPhase
  then show ?thesis using next_phase_inv [OF assms(3,4)] by simp
qed

lemma sched_reach_inv:
  assumes "sched_reach opt shuffle plans s" and "shuffle_ok shuffle" and "0 \<le> op_repeat opt"
  shows "sched_inv opt plans s"
  using assms(1)
proof (induction rule: sched_reach.induct)
  case start
  show ?case using main_jobs_phase [OF assms(2)] by (simp add: sched_start_def Let_def run_phase_inv)
next
  case (step s ev s')
  then show ?case using sched_inv_step assms(2,3) by blast
qed

section \<open>Reservations are unambiguous\<close>

text \<open>C11. While two attempts of the catalog are in flight, they never reserve the same kind of handshake on the same
  port: the mutex of the pool keeps them apart, in every interleaving. This is what makes the
  server's choice of the newest unused reservation unambiguous. In the tail at most one attempt is in
  flight, and before it none of the plans marked last is.\<close>

theorem reservations_unambiguous:
  assumes "Catalog c = Some plans" and "sched_reach opt shuffle plans s" and "shuffle_ok shuffle" and "0 \<le> op_repeat opt"
    and "i < length (sd_workers s)" and "k < length (sd_workers s)" and "i \<noteq> k"
    and "sd_workers s ! i = Busy j" and "sd_workers s ! k = Busy j'"
  shows "(reserve_call (pl_run (fst j)) \<noteq> None \<and> reserve_call (pl_run (fst j)) = reserve_call (pl_run (fst j')) \<longrightarrow> pl_port (fst j) \<noteq> pl_port (fst j'))
    \<and> sd_phase s \<in> {PMain, PRetry} \<and> \<not> pl_last (fst j) \<and> \<not> pl_last (fst j')"
proof
  note inv = sched_reach_inv [OF assms(2-4), unfolded sched_inv_def]
  have fly: "j \<in> set (flying s)" "j' \<in> set (flying s)"
    using flying_member assms(5,6,8,9) unfolding flying_def by blast+
  then have p: "fst j \<in> set plans" "fst j' \<in> set plans" using inv by (auto simp: phase_job_def)
  then have "pool_agrees (fst j)" "pool_agrees (fst j')" using catalog_plan(1) [OF assms(1)] by auto
  then have "pl_serial (fst j) = pl_serial (fst j') \<and> pl_serial (fst j) \<noteq> ''''"
    if "reserve_call (pl_run (fst j)) = Some x" "reserve_call (pl_run (fst j')) = Some x" "pl_port (fst j) = pl_port (fst j')" for x
    using that by (cases x) (simp add: pool_agrees_def)
  then show "reserve_call (pl_run (fst j)) \<noteq> None \<and> reserve_call (pl_run (fst j)) = reserve_call (pl_run (fst j')) \<longrightarrow> pl_port (fst j) \<noteq> pl_port (fst j')"
    using inv assms(5-9) unfolding pools_exclusive_def by (metis option.exhaust)
  have "1 < length (sd_workers s)" using assms(5-7) by linarith
  then show "sd_phase s \<in> {PMain, PRetry} \<and> \<not> pl_last (fst j) \<and> \<not> pl_last (fst j')"
    using inv fly by (cases "sd_phase s") (auto simp: phase_job_def)
qed

section \<open>Every run ends\<close>

fun phase_rank :: "phase \<Rightarrow> nat" where
  "phase_rank PMain = 4"
| "phase_rank PRetry = 3"
| "phase_rank PTail = 2"
| "phase_rank PTailRetry = 1"
| "phase_rank PDone = 0"

fun effort :: "worker \<Rightarrow> nat" where
  "effort Idle = 0"
| "effort (Waiting _) = 2"
| "effort (Busy _) = 1"

definition sched_measure :: "sched \<Rightarrow> nat \<times> nat \<times> nat" where
  "sched_measure s = (phase_rank (sd_phase s), 3 * length (sd_queue s) + sum_list (map effort (sd_workers s)), if sd_cancelled s then 0 else 1)"

lemma effort_update: "i < length ws \<Longrightarrow> sum_list (map effort (ws[i := w])) + effort (ws ! i) = sum_list (map effort ws) + effort w"
  by (induction ws arbitrary: i) (auto split: nat.split simp: nth_Cons')

lemma next_phase_rank: "sd_phase s \<noteq> PDone \<Longrightarrow> phase_rank (sd_phase (next_phase opt shuffle plans s)) < phase_rank (sd_phase s)"
  by (cases "sd_phase s") (simp_all add: next_phase_def retry_phase_def run_phase_def Let_def)

lemma sched_step_measure:
  assumes "sched_step opt shuffle plans ev s = Some s'"
  shows "(sched_measure s', sched_measure s) \<in> less_than <*lex*> less_than <*lex*> less_than"
  using assms
proof (cases rule: sched_step_cases)
  case (Take i j q)
  then show ?thesis using effort_update [OF Take(2), of "Waiting j"] by (simp add: sched_measure_def)
next
  case (Start i j)
  then show ?thesis using effort_update [OF Start(2), of "Busy j"] by (simp add: sched_measure_def)
next
  case (Finish i j r)
  then show ?thesis using effort_update [OF Finish(2), of Idle] by (simp add: sched_measure_def)
next
  case NextPhase
  then show ?thesis using next_phase_rank [of s] by (simp add: sched_measure_def)
qed (simp_all add: sched_measure_def)

lemma sched_progress:
  assumes "sched_inv opt plans s" and "1 \<le> op_parallel opt" and "sd_phase s \<noteq> PDone"
  shows "\<exists>ev s'. ev \<noteq> Cancel \<and> sched_step opt shuffle plans ev s = Some s'"
proof (cases "\<exists>i j. i < length (sd_workers s) \<and> sd_workers s ! i = Busy j")
  case True
  then obtain i j where "i < length (sd_workers s)" "sd_workers s ! i = Busy j" by blast
  then show ?thesis by (intro exI [of _ "Finish i OutcomeOK"]) (simp add: sched_step_def ix_def)
next
  case nobusy: False
  show ?thesis
  proof (cases "\<exists>i j. i < length (sd_workers s) \<and> sd_workers s ! i = Waiting j")
    case True
    then obtain i j where "i < length (sd_workers s)" "sd_workers s ! i = Waiting j" by blast
    moreover have "pool_free k (sd_workers s)" for k using nobusy by (auto simp: pool_free_def list_all_length split: worker.split)
    ultimately show ?thesis by (intro exI [of _ "Start i"]) (simp add: sched_step_def ix_def)
  next
    case False
    then have idle: "sd_workers s ! i = Idle" if "i < length (sd_workers s)" for i using nobusy that by (cases "sd_workers s ! i") auto
    have "0 < length (sd_workers s)" using assms by (cases "sd_phase s") (auto simp: sched_inv_def)
    then show ?thesis
      using idle assms(3) by (cases "sd_queue s")
        (auto simp: sched_step_def ix_def list_all_length intro: exI [of _ NextPhase] exI [of _ "Take 0"])
  qed
qed

text \<open>C15. A scan always ends: no sequence of steps is infinite, and until the scan is done some worker can go on or
  the phase can end, so that no order of the pool mutexes deadlocks the workers.\<close>

theorem schedule_terminates:
  "wf {(s', s). \<exists>ev. sched_step opt shuffle plans ev s = Some s'}
   \<and> (sched_reach opt shuffle plans s \<and> shuffle_ok shuffle \<and> 0 \<le> op_repeat opt \<and> 1 \<le> op_parallel opt \<and> sd_phase s \<noteq> PDone \<longrightarrow>
        (\<exists>ev s'. ev \<noteq> Cancel \<and> sched_step opt shuffle plans ev s = Some s'))"
proof
  have "{(s', s). \<exists>ev. sched_step opt shuffle plans ev s = Some s'} \<subseteq> inv_image (less_than <*lex*> less_than <*lex*> less_than) sched_measure"
    using sched_step_measure by auto
  then show "wf {(s', s). \<exists>ev. sched_step opt shuffle plans ev s = Some s'}" by (rule wf_subset [rotated]) auto
qed (use sched_progress sched_reach_inv in blast)

section \<open>What a run adds up to\<close>

text \<open>The groups with a failure in the rounds that count, in the tail or before it.\<close>

definition failed_groups :: "options \<Rightarrow> sched \<Rightarrow> bool \<Rightarrow> string set" where
  "failed_groups opt s b = {pl_group (fst j) | j r. (j, r) \<in> set (sd_attempts s) \<and> pl_last (fst j) = b \<and> snd j \<le> op_repeat opt \<and> failed r}"

definition rounds :: "plan list \<Rightarrow> (plan \<Rightarrow> bool) \<Rightarrow> int \<Rightarrow> int \<Rightarrow> job list" where
  "rounds plans P lo hi = concat (map (round_of plans P) [lo..hi])"

definition retried :: "options \<Rightarrow> plan list \<Rightarrow> sched \<Rightarrow> bool \<Rightarrow> job list" where
  "retried opt plans s b = rounds plans (\<lambda>p. pl_last p = b \<and> pl_group p \<in> failed_groups opt s b) (op_repeat opt + 1) (op_repeat opt + op_retry opt)"

lemma mset_concat_map: "(\<And>x. mset (f x) = mset (g x)) \<Longrightarrow> mset (concat (map f xs)) = mset (concat (map g xs))"
  by (induction xs) auto

lemma main_jobs_mset: "shuffle_ok shuffle \<Longrightarrow> mset (main_jobs opt shuffle plans) = mset (rounds plans (\<lambda>p. \<not> pl_last p) 1 (op_repeat opt))"
  unfolding main_jobs_def rounds_def by (rule mset_concat_map) (simp add: shuffle_ok_def)

lemma tail_jobs_mset: "mset (tail_jobs opt plans) = mset (rounds plans pl_last 1 (op_repeat opt))"
  by (simp add: tail_jobs_def rounds_def)

lemma retry_jobs_mset:
  "shuffle_ok shuffle \<Longrightarrow> mset (retry_jobs opt shuffle plans b gs)
     = mset (rounds plans (\<lambda>p. pl_last p = b \<and> pl_group p \<in> set gs) (op_repeat opt + 1) (op_repeat opt + op_retry opt))"
  unfolding retry_jobs_def rounds_def by (rule mset_concat_map) (simp add: Let_def shuffle_ok_def)

lemma length_rounds: "int (length (rounds plans P lo hi)) = max 0 (hi - lo + 1) * int (length (List.filter P plans))"
proof -
  have "length (concat (map (round_of plans P) xs)) = length xs * length (List.filter P plans)" for xs
    by (induction xs) (simp_all add: round_of_def)
  then show ?thesis by (simp add: rounds_def max_def)
qed

text \<open>What has been handed out by the end of a phase.\<close>

definition planned :: "options \<Rightarrow> plan list \<Rightarrow> sched \<Rightarrow> job multiset" where
  "planned opt plans s =
     (let m = mset (rounds plans (\<lambda>p. \<not> pl_last p) 1 (op_repeat opt)); t = mset (rounds plans pl_last 1 (op_repeat opt));
          r = mset (retried opt plans s False); rt = mset (retried opt plans s True)
      in case sd_phase s of PMain \<Rightarrow> m | PRetry \<Rightarrow> m + r | PTail \<Rightarrow> m + r + t | _ \<Rightarrow> m + r + t + rt)"

definition hist_inv :: "options \<Rightarrow> plan list \<Rightarrow> sched \<Rightarrow> bool" where
  "hist_inv opt plans s \<longleftrightarrow> (\<forall>a\<in>set (sd_attempts s). \<exists>ph. phase_job opt plans ph (fst a) \<and> ph \<noteq> PDone \<and> phase_rank (sd_phase s) \<le> phase_rank ph)"

definition complete_inv :: "options \<Rightarrow> plan list \<Rightarrow> sched \<Rightarrow> bool" where
  "complete_inv opt plans s \<longleftrightarrow> (\<not> sd_cancelled s \<longrightarrow>
     mset (map fst (sd_attempts s)) + mset (flying s) + mset (sd_queue s) = planned opt plans s)"

definition owed :: "options \<Rightarrow> plan list \<Rightarrow> sched \<Rightarrow> int" where
  "owed opt plans s =
     (let tl = int (length (tail_jobs opt plans)); ft = sd_foretold s
      in sd_done s + int (length (flying s)) + int (length (sd_queue s))
         + (case sd_phase s of PMain \<Rightarrow> tl + ft False + ft True | PRetry \<Rightarrow> tl + ft True | PTail \<Rightarrow> ft True | _ \<Rightarrow> 0))"

definition acct_inv :: "options \<Rightarrow> plan list \<Rightarrow> sched \<Rightarrow> bool" where
  "acct_inv opt plans s \<longleftrightarrow> sd_done s = int (length (sd_attempts s))
     \<and> set (sd_foreseen s) = (if op_retry opt > 0 then {(b, g). g \<in> failed_groups opt s b} else {})
     \<and> (\<forall>b. sd_foretold s b = int (length (retried opt plans s b)))
     \<and> owed opt plans s \<le> sd_total s \<and> (\<not> sd_cancelled s \<longrightarrow> sd_total s = owed opt plans s)"

definition tests_split :: "plan list \<Rightarrow> bool" where
  "tests_split plans \<longleftrightarrow> (\<forall>p\<in>set plans. \<forall>q\<in>set plans. pl_test p = pl_test q \<longrightarrow> pl_last p = pl_last q)"

lemma length_retried:
  "int (length (retried opt plans s b)) = max 0 (op_retry opt) * int (length (List.filter (\<lambda>p. pl_last p = b \<and> pl_group p \<in> failed_groups opt s b) plans))"
  by (simp add: retried_def length_rounds)

lemma failed_groups_record:
  "failed_groups opt (record_attempt opt plans j r s) b = failed_groups opt s b \<union> (if pl_last (fst j) = b \<and> snd j \<le> op_repeat opt \<and> failed r then {pl_group (fst j)} else {})"
  unfolding failed_groups_def by (cases j) (auto simp: Let_def)

lemma failed_groups_cong: "sd_attempts s = sd_attempts s' \<Longrightarrow> failed_groups opt s b = failed_groups opt s' b"
  by (simp add: failed_groups_def)

lemma retried_cong: "sd_attempts s = sd_attempts s' \<Longrightarrow> retried opt plans s b = retried opt plans s' b"
  by (simp add: retried_def failed_groups_def)

lemma hist_inv_step:
  assumes "sched_step opt shuffle plans ev s = Some s'" and "sched_inv opt plans s" and "hist_inv opt plans s"
  shows "hist_inv opt plans s'"
  using assms(1)
proof (cases rule: sched_step_cases)
  case (Finish i j r)
  have "j \<in> set (flying s)" using flying_member [of i "sd_workers s" j] Finish by (simp add: flying_def)
  then have "phase_job opt plans (sd_phase s) j" "sd_phase s \<noteq> PDone" using assms(2) Finish(2) by (auto simp: sched_inv_def)
  then show ?thesis using assms(3) Finish by (auto simp: hist_inv_def)
next
  case NextPhase
  have "sd_attempts (next_phase opt shuffle plans s) = sd_attempts s"
    by (cases "sd_phase s") (simp_all add: next_phase_def retry_phase_def run_phase_def Let_def)
  then show ?thesis using assms(3) NextPhase next_phase_rank [OF NextPhase(2), of opt shuffle plans]
    unfolding hist_inv_def by (metis less_imp_le order_trans)
qed (use assms(3) in \<open>simp_all add: hist_inv_def\<close>)

lemma planned_cong: "sd_attempts s = sd_attempts s' \<Longrightarrow> sd_phase s = sd_phase s' \<Longrightarrow> planned opt plans s = planned opt plans s'"
  using retried_cong [of s s' opt plans] by (simp add: planned_def)

lemma planned_record:
  assumes "phase_job opt plans (sd_phase s) j" and "sd_phase s \<noteq> PDone"
  shows "planned opt plans (record_attempt opt plans j r s) = planned opt plans s"
proof -
  have "sd_phase s = PMain \<or> retried opt plans (record_attempt opt plans j r s) False = retried opt plans s False"
    "sd_phase s \<in> {PMain, PRetry, PTail} \<or> retried opt plans (record_attempt opt plans j r s) True = retried opt plans s True"
    using assms by (cases "sd_phase s"; auto simp: retried_def failed_groups_record phase_job_def split: if_splits)+
  then show ?thesis using assms(2) by (cases "sd_phase s") (auto simp: planned_def Let_def)
qed

text \<open>At the end of a phase the groups the code computes are those with a failure that counts.\<close>

lemma failedGroups_main:
  assumes "hist_inv opt plans s" and "sd_phase s = PMain"
  shows "set (failedGroups (sd_attempts s) None) = failed_groups opt s False"
proof -
  have "phase_job opt plans PMain (fst a)" if a: "a \<in> set (sd_attempts s)" for a
  proof -
    obtain ph where "phase_job opt plans ph (fst a)" "4 \<le> phase_rank ph" using assms a by (auto simp: hist_inv_def)
    then show ?thesis by (cases ph) auto
  qed
  then show ?thesis by (force simp: failedGroups_def failed_groups_def phase_job_def)
qed

lemma failedGroups_tail:
  assumes "hist_inv opt plans s" and "sd_phase s = PTail" and "tests_split plans"
  shows "set (failedGroups (sd_attempts s) (Some (map pl_test (List.filter pl_last plans)))) = failed_groups opt s True"
proof -
  have p: "fst (fst a) \<in> set plans \<and> (pl_last (fst (fst a)) \<longrightarrow> snd (fst a) \<le> op_repeat opt)" if a: "a \<in> set (sd_attempts s)" for a
  proof -
    obtain ph where "phase_job opt plans ph (fst a)" "2 \<le> phase_rank ph" using assms a by (auto simp: hist_inv_def)
    then show ?thesis by (cases ph) (auto simp: phase_job_def)
  qed
  have l: "pl_test (fst (fst a)) \<in> set (map pl_test (List.filter pl_last plans)) \<longleftrightarrow> pl_last (fst (fst a))" if "a \<in> set (sd_attempts s)" for a
  proof
    assume "pl_test (fst (fst a)) \<in> set (map pl_test (List.filter pl_last plans))"
    then obtain q where q: "q \<in> set plans" "pl_last q" "pl_test q = pl_test (fst (fst a))" by force
    have "fst (fst a) \<in> set plans" using p [OF that] ..
    from assms(3) [unfolded tests_split_def, rule_format, OF q(1) this q(3)] q(2) show "pl_last (fst (fst a))" by simp
  qed (use p [OF that] in simp)
  have "List.filter (\<lambda>a. pl_test (fst (fst a)) \<in> set (map pl_test (List.filter pl_last plans)) \<and> failed (snd a)) (sd_attempts s)
    = List.filter (\<lambda>a. pl_last (fst (fst a)) \<and> failed (snd a)) (sd_attempts s)"
    by (rule filter_cong) (use l in auto)
  then have "set (failedGroups (sd_attempts s) (Some (map pl_test (List.filter pl_last plans))))
    = (\<lambda>a. pl_group (fst (fst a))) ` {a \<in> set (sd_attempts s). pl_last (fst (fst a)) \<and> failed (snd a)}"
    unfolding failedGroups_def option.case by simp
  moreover have "\<dots> = {pl_group (fst j) | j r. (j, r) \<in> set (sd_attempts s) \<and> pl_last (fst j) \<and> failed r}" by force
  moreover have "(j, r) \<in> set (sd_attempts s) \<and> pl_last (fst j) \<and> failed r \<longleftrightarrow>
      (j, r) \<in> set (sd_attempts s) \<and> pl_last (fst j) = True \<and> snd j \<le> op_repeat opt \<and> failed r" for j r
    using p [of "(j, r)"] by auto
  ultimately show ?thesis unfolding failed_groups_def by simp
qed

text \<open>So the retries the code builds are exactly those that were foreseen.\<close>

lemma retry_phase_main:
  assumes "hist_inv opt plans s" and "sd_phase s = PMain" and "shuffle_ok shuffle"
  shows "mset (fst (retry_phase opt shuffle plans False None s)) = mset (retried opt plans s False)"
  using retry_jobs_mset [OF assms(3)] failedGroups_main [OF assms(1,2)] by (simp add: retry_phase_def Let_def retried_def)

lemma retry_phase_tail:
  assumes "hist_inv opt plans s" and "sd_phase s = PTail" and "tests_split plans" and "shuffle_ok shuffle"
  shows "mset (fst (retry_phase opt shuffle plans True (Some (map pl_test (List.filter pl_last plans))) s)) = mset (retried opt plans s True)"
  using retry_jobs_mset [OF assms(4)] failedGroups_tail [OF assms(1-3)] by (simp add: retry_phase_def Let_def retried_def)

lemma retried_none: "op_retry opt \<le> 0 \<Longrightarrow> retried opt plans s b = []"
  by (simp add: retried_def rounds_def)

lemma retried_no_tail:
  assumes "1 \<le> op_repeat opt" and "tail_jobs opt plans = []"
  shows "retried opt plans s True = []"
proof -
  have "rounds plans pl_last 1 (op_repeat opt) = []" using assms(2) tail_jobs_mset [of opt plans] by simp
  then have "List.filter pl_last plans = []" using assms(1) length_rounds [of plans pl_last 1 "op_repeat opt"] by simp
  then have "int (length (retried opt plans s True)) = 0" unfolding length_retried by (simp add: filter_empty_conv)
  then show ?thesis by simp
qed

lemma run_phase_sel [simp]:
  "sd_phase (run_phase ph js n s) = ph" "sd_queue (run_phase ph js n s) = js" "flying (run_phase ph js n s) = []"
  "sd_attempts (run_phase ph js n s) = sd_attempts s" "sd_done (run_phase ph js n s) = sd_done s" "sd_total (run_phase ph js n s) = sd_total s"
  "sd_foreseen (run_phase ph js n s) = sd_foreseen s" "sd_foretold (run_phase ph js n s) = sd_foretold s" "sd_cancelled (run_phase ph js n s) = sd_cancelled s"
  using flying_idle [of "replicate (nat n) Idle"] by (simp_all add: run_phase_def flying_def list_all_iff)

lemma run_phase_cong [simp]:
  "failed_groups opt (run_phase ph js n s) b = failed_groups opt s b" "retried opt plans (run_phase ph js n s) b = retried opt plans s b"
  by (simp_all add: failed_groups_def retried_def)

lemma retry_phase_sel [simp]:
  "sd_attempts (snd (retry_phase opt sh plans b gs s)) = sd_attempts s" "sd_done (snd (retry_phase opt sh plans b gs s)) = sd_done s"
  "sd_foreseen (snd (retry_phase opt sh plans b gs s)) = sd_foreseen s" "sd_foretold (snd (retry_phase opt sh plans b gs s)) = sd_foretold s"
  "sd_cancelled (snd (retry_phase opt sh plans b gs s)) = sd_cancelled s"
  "sd_total (snd (retry_phase opt sh plans b gs s)) = sd_total s + int (length (fst (retry_phase opt sh plans b gs s))) - sd_foretold s b"
  by (simp_all add: retry_phase_def Let_def)

lemma retry_phase_cong [simp]:
  "failed_groups opt (snd (retry_phase opt sh plans b gs s)) b' = failed_groups opt s b'"
  "retried opt plans (snd (retry_phase opt sh plans b gs s)) b' = retried opt plans s b'"
  by (simp_all add: failed_groups_def retried_def)

text \<open>The three ways a phase ends.\<close>

lemma next_phase_main:
  "sd_phase s = PMain \<Longrightarrow> next_phase opt shuffle plans s =
     (if op_retry opt > 0 \<and> \<not> sd_cancelled s
      then let rs = retry_phase opt shuffle plans False None s
           in if fst rs \<noteq> [] then run_phase PRetry (fst rs) (op_parallel opt) (snd rs) else run_phase PTail (tail_jobs opt plans) 1 (snd rs)
      else run_phase PTail (tail_jobs opt plans) 1 s)"
  by (simp add: next_phase_def Let_def case_prod_unfold)

lemma next_phase_tail:
  "sd_phase s = PTail \<Longrightarrow> next_phase opt shuffle plans s =
     (if op_retry opt > 0 \<and> \<not> sd_cancelled s \<and> tail_jobs opt plans \<noteq> []
      then let rs = retry_phase opt shuffle plans True (Some (map pl_test (List.filter pl_last plans))) s
           in if fst rs \<noteq> [] then run_phase PTailRetry (fst rs) 1 (snd rs) else run_phase PDone [] 0 (snd rs)
      else run_phase PDone [] 0 s)"
  by (simp add: next_phase_def Let_def case_prod_unfold)

lemma next_phase_other:
  "sd_phase s = PRetry \<Longrightarrow> next_phase opt shuffle plans s = run_phase PTail (tail_jobs opt plans) 1 s"
  "sd_phase s = PTailRetry \<Longrightarrow> next_phase opt shuffle plans s = run_phase PDone [] 0 s"
  by (simp_all add: next_phase_def)

lemma complete_inv_next:
  assumes "hist_inv opt plans s" and "complete_inv opt plans s" and "shuffle_ok shuffle" and "tests_split plans" and "1 \<le> op_repeat opt"
    and "sd_phase s \<noteq> PDone" and "sd_queue s = [] \<or> sd_cancelled s" and "list_all (\<lambda>w. w = Idle) (sd_workers s)"
  shows "complete_inv opt plans (next_phase opt shuffle plans s)"
proof (cases "sd_cancelled s")
  case True
  have "sd_cancelled (next_phase opt shuffle plans s)"
    using True by (cases "sd_phase s") (simp_all add: next_phase_main next_phase_tail next_phase_other, simp add: next_phase_def)
  then show ?thesis by (simp add: complete_inv_def)
next
  case False
  have eq: "mset (map fst (sd_attempts s)) = planned opt plans s"
    using assms(2,7,8) False flying_idle [OF assms(8)] by (simp add: complete_inv_def flying_def)
  note R = retry_phase_main [OF assms(1) _ assms(3)] retry_phase_tail [OF assms(1) _ assms(4,3)]
  show ?thesis
  proof (cases "sd_phase s")
    case PMain
    have "retried opt plans s False = []" if "\<not> op_retry opt > 0 \<or> fst (retry_phase opt shuffle plans False None s) = []"
      using that R(1) [OF PMain] retried_none [of opt plans s False] by auto
    then show ?thesis using eq PMain R(1) [OF PMain] False
      by (auto simp: complete_inv_def next_phase_main planned_def Let_def tail_jobs_mset)
  next
    case PTail
    have "retried opt plans s True = []" if "\<not> op_retry opt > 0 \<or> tail_jobs opt plans = []
        \<or> fst (retry_phase opt shuffle plans True (Some (map pl_test (List.filter pl_last plans))) s) = []"
      using that R(2) [OF PTail] retried_none [of opt plans s True] retried_no_tail [OF assms(5), of plans s] by auto
    then show ?thesis using eq PTail R(2) [OF PTail] False
      by (auto simp: complete_inv_def next_phase_tail planned_def Let_def)
  qed (use eq False assms(6) in \<open>simp_all add: complete_inv_def next_phase_other planned_def Let_def tail_jobs_mset\<close>)
qed

lemma complete_inv_step:
  assumes "sched_step opt shuffle plans ev s = Some s'" and "sched_inv opt plans s" and "hist_inv opt plans s" and "complete_inv opt plans s"
    and "shuffle_ok shuffle" and "tests_split plans" and "1 \<le> op_repeat opt"
  shows "complete_inv opt plans s'"
  using assms(1)
proof (cases rule: sched_step_cases)
  case (Take i j q)
  have "planned opt plans s' = planned opt plans s" by (rule planned_cong) (simp_all add: Take)
  then show ?thesis using assms(4) Take flying_update [OF Take(2), of "Waiting j"] by (simp add: complete_inv_def flying_def)
next
  case (Start i j)
  have "planned opt plans s' = planned opt plans s" by (rule planned_cong) (simp_all add: Start)
  then show ?thesis using assms(4) Start flying_update [OF Start(2), of "Busy j"] by (simp add: complete_inv_def flying_def)
next
  case (Finish i j r)
  let ?s = "s\<lparr>sd_workers := (sd_workers s)[i := Idle]\<rparr>"
  have "j \<in> set (flying s)" using flying_member [of i "sd_workers s" j] Finish by (simp add: flying_def)
  then have "phase_job opt plans (sd_phase ?s) j" "sd_phase ?s \<noteq> PDone" using assms(2) Finish(2) by (auto simp: sched_inv_def)
  from planned_record [OF this] have "planned opt plans s' = planned opt plans ?s" by (simp add: Finish(4))
  moreover have "planned opt plans ?s = planned opt plans s" by (rule planned_cong) simp_all
  moreover have "map fst (sd_attempts s') = map fst (sd_attempts s) @ [j]" "flying s' = concat (map in_flight ((sd_workers s)[i := Idle]))"
    "sd_queue s' = sd_queue s" "sd_cancelled s' = sd_cancelled s"
    by (simp_all add: Finish(4) flying_def)
  ultimately show ?thesis
    using assms(4) flying_update [OF Finish(2), of Idle, symmetric] Finish(3) unfolding complete_inv_def flying_def [of s] by simp
next
  case NextPhase
  then show ?thesis using complete_inv_next [OF assms(3-7)] by simp
qed (simp_all add: complete_inv_def)

lemma count_insert:
  "g \<notin> G \<Longrightarrow> int (length (List.filter (\<lambda>p. pl_last p = b \<and> pl_group p \<in> insert g G) plans))
     = int (length (List.filter (\<lambda>p. pl_last p = b \<and> pl_group p \<in> G) plans)) + plansOf plans (b, g)"
  unfolding plansOf_def by (induction plans) auto

text \<open>Recording an attempt keeps the promises in step with the failures.\<close>

lemma record_acct:
  fixes j :: job and r :: string
  assumes "set (sd_foreseen s) = (if op_retry opt > 0 then {(b, g). g \<in> failed_groups opt s b} else {})"
    and "\<forall>b. sd_foretold s b = int (length (retried opt plans s b))"
  defines "s' \<equiv> record_attempt opt plans j r s"
  shows "set (sd_foreseen s') = (if op_retry opt > 0 then {(b, g). g \<in> failed_groups opt s' b} else {})"
    and "\<forall>b. sd_foretold s' b = int (length (retried opt plans s' b))"
    and "sd_total s' - sd_total s = sd_foretold s' False + sd_foretold s' True - (sd_foretold s False + sd_foretold s True)"
    and "b \<noteq> pl_last (fst j) \<or> op_repeat opt < snd j \<Longrightarrow> sd_foretold s' b = sd_foretold s b"
proof -
  let ?k = "(pl_last (fst j), pl_group (fst j))"
  let ?new = "op_retry opt > 0 \<and> snd j \<le> op_repeat opt \<and> failed r \<and> ?k \<notin> set (sd_foreseen s)"
  let ?n = "op_retry opt * plansOf plans ?k"
  have e: "set (sd_foreseen s') = (if ?new then insert ?k (set (sd_foreseen s)) else set (sd_foreseen s))"
    "sd_foretold s' b = sd_foretold s b + (if ?new \<and> b = fst ?k then ?n else 0)" "sd_total s' = sd_total s + (if ?new then ?n else 0)" for b
    by (auto simp: s'_def record_attempt_def Let_def)
  note g = failed_groups_record [of opt plans j r s, folded s'_def]
  show "set (sd_foreseen s') = (if op_retry opt > 0 then {(b, g). g \<in> failed_groups opt s' b} else {})"
    using assms(1) unfolding e g by (auto split: if_splits)
  show "\<forall>b. sd_foretold s' b = int (length (retried opt plans s' b))"
  proof
    fix b
    show "sd_foretold s' b = int (length (retried opt plans s' b))"
    proof (cases "?new \<and> b = fst ?k")
      case True
      then have n: "pl_group (fst j) \<notin> failed_groups opt s b" using assms(1) by auto
      have i: "failed_groups opt s' b = insert (pl_group (fst j)) (failed_groups opt s b)" unfolding g using True by auto
      have m: "max 0 (op_retry opt) = op_retry opt" using True by simp
      have k: "?k = (b, pl_group (fst j))" using True by simp
      have "int (length (retried opt plans s' b)) = int (length (retried opt plans s b)) + ?n"
        unfolding length_retried i count_insert [OF n] m k by (simp only: distrib_left)
      then show ?thesis unfolding e using True assms(2) by simp
    next
      case False
      then have "op_retry opt \<le> 0 \<or> failed_groups opt s' b = failed_groups opt s b" unfolding g using assms(1) by auto
      then show ?thesis using False assms(2) unfolding e length_retried by auto
    qed
  qed
  show "sd_total s' - sd_total s = sd_foretold s' False + sd_foretold s' True - (sd_foretold s False + sd_foretold s True)"
    unfolding e by (cases "pl_last (fst j)") auto
  show "b \<noteq> pl_last (fst j) \<or> op_repeat opt < snd j \<Longrightarrow> sd_foretold s' b = sd_foretold s b" unfolding e by auto
qed

lemma length_flying_update:
  "i < length ws \<Longrightarrow> length (concat (map in_flight (ws[i := w]))) + length (in_flight (ws ! i)) = length (concat (map in_flight ws)) + length (in_flight w)"
  using flying_update [of i ws w] by (metis size_mset size_union)

lemma acct_cong:
  assumes "acct_inv opt plans s" and "sd_attempts s' = sd_attempts s" "sd_done s' = sd_done s" "sd_foreseen s' = sd_foreseen s" "sd_foretold s' = sd_foretold s"
    and "owed opt plans s' \<le> sd_total s'" and "\<not> sd_cancelled s' \<Longrightarrow> sd_total s' = owed opt plans s'"
  shows "acct_inv opt plans s'"
  using assms retried_cong [OF assms(2), of opt plans] failed_groups_cong [OF assms(2), of opt] by (simp add: acct_inv_def)

lemma acct_inv_next:
  assumes "hist_inv opt plans s" and "acct_inv opt plans s" and "shuffle_ok shuffle" and "tests_split plans" and "1 \<le> op_repeat opt"
    and "sd_phase s \<noteq> PDone" and "sd_queue s = [] \<or> sd_cancelled s" and "list_all (\<lambda>w. w = Idle) (sd_workers s)"
  shows "acct_inv opt plans (next_phase opt shuffle plans s)"
proof -
  have fl: "flying s = []" using flying_idle [OF assms(8)] by (simp add: flying_def)
  have ft: "0 \<le> sd_foretold s b" "sd_foretold s b = int (length (retried opt plans s b))" for b using assms(2) by (auto simp: acct_inv_def)
  have tot: "owed opt plans s \<le> sd_total s" "\<not> sd_cancelled s \<Longrightarrow> sd_total s = owed opt plans s" using assms(2) by (auto simp: acct_inv_def)
  have q: "\<not> sd_cancelled s \<Longrightarrow> sd_queue s = []" using assms(7) by simp
  show ?thesis
  proof (cases "sd_phase s")
    case PMain
    have "length (fst (retry_phase opt shuffle plans False None s)) = length (retried opt plans s False)"
      using arg_cong [OF retry_phase_main [OF assms(1) PMain assms(3)], of size] by simp
    moreover have "\<not> op_retry opt > 0 \<Longrightarrow> sd_foretold s False = 0" using ft(2) retried_none [of opt plans s False] by simp
    ultimately show ?thesis using tot ft(1) [of False] ft(1) [of True] ft(2) [of False] q PMain fl unfolding next_phase_main [OF PMain] Let_def
      by (intro acct_cong [OF assms(2)]) (auto simp: owed_def Let_def)
  next
    case PTail
    have "length (fst (retry_phase opt shuffle plans True (Some (map pl_test (List.filter pl_last plans))) s)) = length (retried opt plans s True)"
      using arg_cong [OF retry_phase_tail [OF assms(1) PTail assms(4,3)], of size] by simp
    moreover have "\<not> op_retry opt > 0 \<or> tail_jobs opt plans = [] \<Longrightarrow> sd_foretold s True = 0"
      using ft(2) retried_none [of opt plans s True] retried_no_tail [OF assms(5), of plans s] by auto
    ultimately show ?thesis using tot ft(1) [of True] ft(2) [of True] q PTail fl unfolding next_phase_tail [OF PTail] Let_def
      by (intro acct_cong [OF assms(2)]) (auto simp: owed_def Let_def)
  next
    case PRetry
    then show ?thesis using tot ft(1) [of True] q fl unfolding next_phase_other(1) [OF PRetry]
      by (intro acct_cong [OF assms(2)]) (auto simp: owed_def Let_def)
  next
    case PTailRetry
    then show ?thesis using tot q fl unfolding next_phase_other(2) [OF PTailRetry]
      by (intro acct_cong [OF assms(2)]) (auto simp: owed_def Let_def)
  qed (use assms(6) in simp)
qed

lemma acct_inv_step:
  assumes "sched_step opt shuffle plans ev s = Some s'" and "sched_inv opt plans s" and "hist_inv opt plans s" and "acct_inv opt plans s"
    and "shuffle_ok shuffle" and "tests_split plans" and "1 \<le> op_repeat opt"
  shows "acct_inv opt plans s'"
  using assms(1)
proof (cases rule: sched_step_cases)
  case (Take i j q)
  then show ?thesis using assms(4) length_flying_update [OF Take(2), of "Waiting j"]
    by (intro acct_cong [OF assms(4)]) (auto simp: acct_inv_def owed_def flying_def Let_def)
next
  case (TakeCancelled i j q)
  then show ?thesis using assms(4) by (intro acct_cong [OF assms(4)]) (auto simp: acct_inv_def owed_def flying_def Let_def)
next
  case (Start i j)
  then show ?thesis using assms(4) length_flying_update [OF Start(2), of "Busy j"]
    by (intro acct_cong [OF assms(4)]) (auto simp: acct_inv_def owed_def flying_def)
next
  case (Finish i j r)
  let ?s = "s\<lparr>sd_workers := (sd_workers s)[i := Idle]\<rparr>" and ?r = "if sd_cancelled s \<and> r \<noteq> OutcomeOK then OutcomeSkipped else r"
  have j: "j \<in> set (flying s)" using flying_member [of i "sd_workers s" j] Finish by (simp add: flying_def)
  then have pj: "phase_job opt plans (sd_phase s) j" "sd_phase s \<noteq> PDone" using assms(2) Finish(2) by (auto simp: sched_inv_def)
  have a: "set (sd_foreseen ?s) = (if op_retry opt > 0 then {(b, g). g \<in> failed_groups opt ?s b} else {})"
    "\<forall>b. sd_foretold ?s b = int (length (retried opt plans ?s b))"
    using assms(4) failed_groups_cong [of ?s s opt] retried_cong [of ?s s opt plans] by (simp_all add: acct_inv_def)
  note R = record_acct [OF a, where j = j and r = ?r, folded Finish(4)]
  have "length (flying s') + 1 = length (flying s)"
    using length_flying_update [OF Finish(2), of Idle] Finish(3) by (simp add: Finish(4) flying_def)
  then have "owed opt plans s' - owed opt plans s = sd_total s' - sd_total s"
    using R(3) R(4) [of False] R(4) [of True] pj by (cases "sd_phase s") (auto simp: owed_def Let_def Finish(4) phase_job_def)
  moreover have "sd_done s' = int (length (sd_attempts s'))" "sd_cancelled s' = sd_cancelled s" using assms(4) by (simp_all add: Finish(4) acct_inv_def)
  ultimately show ?thesis using R(1,2) assms(4) unfolding acct_inv_def by (cases "sd_cancelled s") auto
next
  case Cancel
  then show ?thesis using assms(4) by (intro acct_cong [OF assms(4)]) (auto simp: acct_inv_def owed_def flying_def)
next
  case NextPhase
  then show ?thesis using acct_inv_next [OF assms(3-7)] by simp
qed

lemma sched_start_inv:
  assumes "shuffle_ok shuffle"
  shows "hist_inv opt plans (sched_start opt shuffle plans)" "complete_inv opt plans (sched_start opt shuffle plans)"
    "acct_inv opt plans (sched_start opt shuffle plans)"
  using main_jobs_mset [OF assms, of opt plans]
  by (auto simp: sched_start_def Let_def hist_inv_def complete_inv_def planned_def acct_inv_def owed_def failed_groups_def retried_def rounds_def round_of_def)

lemma sched_reach_acct:
  assumes "sched_reach opt shuffle plans s" and "shuffle_ok shuffle" and "tests_split plans" and "1 \<le> op_repeat opt"
  shows "sched_inv opt plans s \<and> hist_inv opt plans s \<and> complete_inv opt plans s \<and> acct_inv opt plans s"
  using assms(1)
proof (induction rule: sched_reach.induct)
  case start
  have "sched_inv opt plans (sched_start opt shuffle plans)"
    using sched_reach_inv [OF sched_reach.start assms(2)] assms(4) by simp
  then show ?case using sched_start_inv [OF assms(2)] by blast
next
  case (step s ev s')
  then show ?case
    using sched_inv_step [OF step(2) _ assms(2)] hist_inv_step [OF step(2)] complete_inv_step [OF step(2) _ _ _ assms(2-4)]
      acct_inv_step [OF step(2) _ _ _ assms(2-4)] assms(4) by simp
qed

lemma rounds_split:
  "mset (rounds plans P lo hi) = mset (rounds plans (\<lambda>p. P p \<and> \<not> pl_last p) lo hi) + mset (rounds plans (\<lambda>p. P p \<and> pl_last p) lo hi)"
proof -
  have "mset (round_of plans P r) = mset (round_of plans (\<lambda>p. P p \<and> \<not> pl_last p) r) + mset (round_of plans (\<lambda>p. P p \<and> pl_last p) r)" for r
    unfolding round_of_def by (induction plans) auto
  then have "mset (concat (map (round_of plans P) xs)) = mset (concat (map (round_of plans (\<lambda>p. P p \<and> \<not> pl_last p)) xs))
      + mset (concat (map (round_of plans (\<lambda>p. P p \<and> pl_last p)) xs))" for xs
    by (induction xs) (simp_all add: ac_simps)
  then show ?thesis by (simp add: rounds_def)
qed

text \<open>The plans of a catalog separate the tests of the tail from the others.\<close>

lemma catalog_tests_split: "Catalog c = Some plans \<Longrightarrow> tests_split plans"
  unfolding tests_split_def using catalog_plan(2) by metis

text \<open>C14. A scan that is not stopped does what it announced. When it is done, every plan of the catalog ran once in
  each of the Repeat rounds, and exactly the plans of the port groups with a failure in those
  rounds (the tail's on a failure of the tail, the others on a failure of the others) ran once in each
  of the Retry rounds; the number of attempts done is the total that was announced. At no time,
  stopped or not, has more been done than announced.\<close>

theorem schedule_complete:
  assumes "Catalog c = Some plans" and "sched_reach opt shuffle plans s" and "shuffle_ok shuffle" and "1 \<le> op_repeat opt"
  shows "sd_done s \<le> sd_total s
    \<and> (sd_phase s = PDone \<and> \<not> sd_cancelled s \<longrightarrow> sd_done s = sd_total s
         \<and> mset (map fst (sd_attempts s)) = mset (rounds plans (\<lambda>_. True) 1 (op_repeat opt))
             + mset (rounds plans (\<lambda>p. pl_group p \<in> failed_groups opt s (pl_last p)) (op_repeat opt + 1) (op_repeat opt + op_retry opt)))"
proof -
  note I = sched_reach_acct [OF assms(2,3) catalog_tests_split [OF assms(1)] assms(4)]
  have "0 \<le> sd_foretold s b" for b using I by (simp add: acct_inv_def)
  then have "sd_done s \<le> owed opt plans s" by (cases "sd_phase s") (simp_all add: owed_def Let_def)
  then have le: "sd_done s \<le> sd_total s" using I by (simp add: acct_inv_def)
  have "sd_done s = sd_total s" "mset (map fst (sd_attempts s)) = planned opt plans s" if "sd_phase s = PDone" "\<not> sd_cancelled s"
  proof -
    have "sd_workers s = []" "sd_queue s = []" using I that(1) by (simp_all add: sched_inv_def)
    then show "sd_done s = sd_total s" "mset (map fst (sd_attempts s)) = planned opt plans s"
      using I that by (simp_all add: acct_inv_def owed_def complete_inv_def flying_def Let_def)
  qed
  moreover have "planned opt plans s = mset (rounds plans (\<lambda>_. True) 1 (op_repeat opt))
             + mset (rounds plans (\<lambda>p. pl_group p \<in> failed_groups opt s (pl_last p)) (op_repeat opt + 1) (op_repeat opt + op_retry opt))" if "sd_phase s = PDone"
  proof -
    have "rounds plans (\<lambda>p. pl_group p \<in> failed_groups opt s (pl_last p) \<and> \<not> pl_last p) lo hi = rounds plans (\<lambda>p. \<not> pl_last p \<and> pl_group p \<in> failed_groups opt s False) lo hi"
      "rounds plans (\<lambda>p. pl_group p \<in> failed_groups opt s (pl_last p) \<and> pl_last p) lo hi = rounds plans (\<lambda>p. pl_last p \<and> pl_group p \<in> failed_groups opt s True) lo hi" for lo hi
      by (rule arg_cong [where f = "\<lambda>P. rounds plans P lo hi"], auto)+
    then show ?thesis using that rounds_split [of plans "\<lambda>_. True"] rounds_split [of plans "\<lambda>p. pl_group p \<in> failed_groups opt s (pl_last p)"]
      by (simp add: planned_def Let_def retried_def)
  qed
  ultimately show ?thesis using le by simp
qed

section \<open>The order of the tail\<close>

definition tail_done :: "options \<Rightarrow> sched \<Rightarrow> job list" where
  "tail_done opt s = List.filter (\<lambda>j. pl_last (fst j) \<and> snd j \<le> op_repeat opt) (map fst (sd_attempts s))"

text \<open>What the tail has run so far is the start of its list; the one worker and the queue hold what follows.\<close>

definition tail_inv :: "options \<Rightarrow> plan list \<Rightarrow> sched \<Rightarrow> bool" where
  "tail_inv opt plans s \<longleftrightarrow>
     (\<exists>rest. tail_jobs opt plans = tail_done opt s @ (if sd_phase s = PTail then flying s @ sd_queue s else []) @ rest)
     \<and> (sd_phase s \<in> {PMain, PRetry} \<longrightarrow> tail_done opt s = [])"

lemma one_worker: "length ws = 1 \<Longrightarrow> i < length ws \<Longrightarrow> ws[i := w] = [w] \<and> ws = [ws ! i]"
  by (cases ws) auto

lemma next_phase_attempts: "sd_attempts (next_phase opt shuffle plans s) = sd_attempts s"
  by (cases "sd_phase s") (simp_all add: next_phase_main next_phase_tail next_phase_other Let_def, simp add: next_phase_def)

lemma tail_inv_step:
  assumes "sched_step opt shuffle plans ev s = Some s'" and "sched_inv opt plans s" and "tail_inv opt plans s"
  shows "tail_inv opt plans s'"
  using assms(1)
proof (cases rule: sched_step_cases)
  case (Take i j q)
  have "flying s' @ sd_queue s' = flying s @ sd_queue s" if "sd_phase s = PTail"
    using Take one_worker [OF _ Take(2)] assms(2) that by (simp add: sched_inv_def flying_def)
  then show ?thesis using assms(3) Take by (auto simp: tail_inv_def tail_done_def)
next
  case (TakeCancelled i j q)
  then show ?thesis using assms(3) by (auto simp: tail_inv_def tail_done_def flying_def)
next
  case (Start i j)
  have "flying s' = flying s" if "sd_phase s = PTail"
    using Start one_worker [OF _ Start(2)] assms(2) that by (simp add: sched_inv_def flying_def)
  then show ?thesis using assms(3) Start by (auto simp: tail_inv_def tail_done_def)
next
  case (Finish i j r)
  have "j \<in> set (flying s)" using flying_member [of i "sd_workers s" j] Finish by (simp add: flying_def)
  then have pj: "phase_job opt plans (sd_phase s) j" "sd_phase s \<noteq> PDone" using assms(2) Finish(2) by (auto simp: sched_inv_def)
  have d: "tail_done opt s' = tail_done opt s @ (if pl_last (fst j) \<and> snd j \<le> op_repeat opt then [j] else [])" by (simp add: Finish(4) tail_done_def)
  have "flying s = j # flying s' \<and> flying s' = []" if "sd_phase s = PTail"
    using Finish one_worker [OF _ Finish(2)] assms(2) that by (simp add: sched_inv_def flying_def)
  then show ?thesis using assms(3) pj unfolding tail_inv_def d by (cases "sd_phase s") (auto simp: Finish(4) phase_job_def)
next
  case Cancel
  then have "flying s' = flying s" by (simp add: flying_def)
  moreover have "tail_done opt s' = tail_done opt s" "sd_phase s' = sd_phase s" "sd_queue s' = sd_queue s" using Cancel by (simp_all add: tail_done_def)
  ultimately show ?thesis using assms(3) by (metis (no_types, lifting) tail_inv_def)
next
  case NextPhase
  have d: "tail_done opt s' = tail_done opt s" by (simp add: tail_done_def NextPhase next_phase_attempts)
  have "sd_phase s' = PTail \<longrightarrow> sd_phase s \<in> {PMain, PRetry} \<and> sd_queue s' = tail_jobs opt plans \<and> flying s' = []"
    "sd_phase s' \<in> {PMain, PRetry} \<longrightarrow> sd_phase s \<in> {PMain, PRetry}"
    using NextPhase(2) by (cases "sd_phase s"; simp add: NextPhase(5) next_phase_main next_phase_tail next_phase_other Let_def)+
  then show ?thesis using assms(3) unfolding tail_inv_def d by auto
qed

text \<open>In the rounds that count the tail runs in the order of what its plans may leave behind: the Tor tests first,
  then the burst controls, then the bursts meant to provoke a freeze. So no control runs after a
  provoking burst, whether or not the scan is stopped early.\<close>

theorem tail_runs_in_order:
  assumes "sched_reach opt shuffle plans s" and "shuffle_ok shuffle" and "0 \<le> op_repeat opt"
  shows "sorted (map (\<lambda>j. tailRank (fst j)) (tail_done opt s))"
proof -
  have "tail_inv opt plans s"
    using assms(1)
  proof (induction rule: sched_reach.induct)
    case start
    show ?case by (simp add: sched_start_def Let_def tail_inv_def tail_done_def)
  next
    case (step s ev s')
    then show ?case using tail_inv_step sched_reach_inv [OF step(1) assms(2,3)] by blast
  qed
  then obtain rest where "tail_jobs opt plans = tail_done opt s @ rest" unfolding tail_inv_def by auto
  moreover have "sorted (map (\<lambda>j. tailRank (fst j)) (tail_jobs opt plans))" by (simp add: tail_jobs_def)
  ultimately show ?thesis by (simp add: sorted_append)
qed

section \<open>Runs\<close>

fun sched_exec :: "options \<Rightarrow> (int \<Rightarrow> job list \<Rightarrow> job list) \<Rightarrow> plan list \<Rightarrow> event list \<Rightarrow> sched \<Rightarrow> sched option" where
  "sched_exec opt shuffle plans [] s = Some s"
| "sched_exec opt shuffle plans (ev # evs) s = (case sched_step opt shuffle plans ev s of None \<Rightarrow> None | Some s' \<Rightarrow> sched_exec opt shuffle plans evs s')"

lemma sched_exec_reach: "sched_exec opt shuffle plans evs s = Some s' \<Longrightarrow> sched_reach opt shuffle plans s \<Longrightarrow> sched_reach opt shuffle plans s'"
  by (induction evs arbitrary: s) (auto split: option.splits intro: sched_reach.step)

lemma sched_exec_run:
  "\<exists>s. sched_exec opt shuffle plans evs (sched_start opt shuffle plans) = Some s \<and> P s \<Longrightarrow> \<exists>s. sched_reach opt shuffle plans s \<and> P s"
  using sched_exec_reach [OF _ sched_reach.start] by blast

definition demo_sh :: "int \<Rightarrow> job list \<Rightarrow> job list" where "demo_sh r js = js"

lemma demo_sh_ok: "shuffle_ok demo_sh"
  by (simp add: shuffle_ok_def demo_sh_def)

definition demo_opt :: options where
  "demo_opt = demo_options\<lparr>op_repeat := 1, op_parallel := 2\<rparr>"

lemma demo_opt_sel [simp]: "op_repeat demo_opt = 1" "op_retry demo_opt = 1" "op_parallel demo_opt = 2"
  by (simp_all add: demo_opt_def demo_options_def with_defaults_def)

lemmas sched_simps = sched_step_def sched_start_def run_phase_def record_attempt_def next_phase_def retry_phase_def Let_def ix_def
  pool_free_def retry_jobs_def failedGroups_def round_of_def main_jobs_def tail_jobs_def plansOf_def

text \<open>Two bursts on one port, the provoking one failing: the retry round runs the control after the provoking burst of
  the round before it. The order the tail keeps in the rounds that count is not kept across
  its retries.\<close>

definition burst_plan :: "string \<Rightarrow> plan" where
  "burst_plan role = (mk_plan ''tls.burst'' role ''x4'' ''tcp'' 443 (TlsBurst 4 ''chrome''))\<lparr>pl_last := True\<rparr>"

lemma burst_plan_sel: "pl_last (burst_plan r)" "pl_test (burst_plan r) = ''tls.burst''" "pl_role (burst_plan r) = r"
  "pl_group (burst_plan r) = ''tcp/'' @ itoa 443" "pl_serial (burst_plan r) = ''tcp/'' @ itoa 443 @ ''/'' @ ParseTLS"
  by (simp_all add: burst_plan_def mk_plan_def reserveKind_eval kinds_neq Let_def)

lemma burst_ranks: "tailRank (burst_plan RoleVariant) = 2" "tailRank (burst_plan RoleControl) = 1"
  by (simp_all add: tailRank_def burst_plan_sel RoleVariant_def RoleControl_def)

definition demo_events :: "event list" where
  "demo_events = [NextPhase, Take 0, Start 0, Finish 0 OutcomeOK, Take 0, Start 0, Finish 0 OutcomeTLSAlert, NextPhase, Take 0, Start 0, Finish 0 OutcomeOK]"

lemma tail_retries_out_of_order:
  "\<exists>s. sched_exec demo_opt demo_sh [burst_plan RoleVariant, burst_plan RoleControl] demo_events
          (sched_start demo_opt demo_sh [burst_plan RoleVariant, burst_plan RoleControl]) = Some s
     \<and> map (\<lambda>a. tailRank (fst (fst a))) (sd_attempts s) = [1, 2, 1]"
proof -
  have "failed OutcomeTLSAlert" "\<not> failed OutcomeOK" by (simp_all add: failed_def OutcomeTLSAlert_def OutcomeOK_def OutcomeSkipped_def)
  then show ?thesis
    by (simp add: demo_events_def sched_simps burst_plan_sel burst_ranks demo_sh_def upto_rec1 upto_single numeral_2_eq_2)
qed

lemma burst_run:
  "\<exists>s. sched_reach demo_opt demo_sh [burst_plan RoleVariant, burst_plan RoleControl] s
     \<and> map fst (sd_attempts s) = [(burst_plan RoleControl, 1), (burst_plan RoleVariant, 1), (burst_plan RoleControl, 2)]"
proof -
  have "failed OutcomeTLSAlert" "\<not> failed OutcomeOK" by (simp_all add: failed_def OutcomeTLSAlert_def OutcomeOK_def OutcomeSkipped_def)
  then have "\<exists>s. sched_exec demo_opt demo_sh [burst_plan RoleVariant, burst_plan RoleControl] demo_events
          (sched_start demo_opt demo_sh [burst_plan RoleVariant, burst_plan RoleControl]) = Some s
     \<and> map fst (sd_attempts s) = [(burst_plan RoleControl, 1), (burst_plan RoleVariant, 1), (burst_plan RoleControl, 2)]"
    by (simp add: demo_events_def sched_simps burst_plan_sel burst_ranks demo_sh_def upto_rec1 upto_single numeral_2_eq_2)
  then show ?thesis by (rule sched_exec_run)
qed

theorem tail_runs_in_order_witness:
  "\<exists>s. sched_reach demo_opt demo_sh [burst_plan RoleVariant, burst_plan RoleControl] s
     \<and> length (tail_done demo_opt s) = 2 \<and> sorted (map (\<lambda>j. tailRank (fst j)) (tail_done demo_opt s))"
proof -
  obtain s where s: "sched_reach demo_opt demo_sh [burst_plan RoleVariant, burst_plan RoleControl] s"
    "map fst (sd_attempts s) = [(burst_plan RoleControl, 1), (burst_plan RoleVariant, 1), (burst_plan RoleControl, 2)]"
    using burst_run by (elim exE conjE)
  have "tail_done demo_opt s = [(burst_plan RoleControl, 1), (burst_plan RoleVariant, 1)]"
    unfolding tail_done_def s(2) by (simp add: burst_plan_sel(1))
  then have "length (tail_done demo_opt s) = 2" by simp
  moreover have "0 \<le> op_repeat demo_opt" by (simp only: demo_opt_sel)
  ultimately show ?thesis by (intro exI [of _ s] conjI s(1) tail_runs_in_order [OF s(1) demo_sh_ok])
qed

text \<open>The catalog of the IKE server of \<open>Plan_Props\<close>.\<close>

definition demo_plans :: "plan list" where
  "demo_plans = the (Catalog demo_client)"

lemma demo_plans_eq: "Catalog demo_client = Some demo_plans"
  using demo_catalog by (simp add: demo_plans_def)

lemma demo_plans_list: "demo_plans = [mk_plan ''udp.echo'' RoleBaseline ''cp1-64'' ''udp'' 4500 (UdpEcho 64),
     demo_ike ''ikev2.init'' ''plain'' False, demo_ike ''ikev2.session'' ''plain'' False, demo_ike ''ikev2.init'' ''nat-t'' True, demo_ike ''ikev2.session'' ''nat-t'' True]"
  using demo_catalog by (simp add: demo_plans_def)

lemma demo_sel: "\<not> pl_last (mk_plan t r v tr p x)" "pl_serial (mk_plan ''udp.echo'' r v tr p x) = ''''"
  by (simp_all add: mk_plan_def reserveKind_eval Let_def)

lemma two_workers_run:
  "\<exists>s. sched_reach demo_opt demo_sh demo_plans s \<and> sd_workers s = [Busy (demo_plans ! 0, 1), Busy (demo_plans ! 1, 1)]"
proof -
  have "\<exists>s. sched_exec demo_opt demo_sh demo_plans [Take 0, Take 1, Start 0, Start 1] (sched_start demo_opt demo_sh demo_plans) = Some s
     \<and> sd_workers s = [Busy (demo_plans ! 0, 1), Busy (demo_plans ! 1, 1)]"
    by (simp add: sched_simps demo_plans_list demo_sel demo_sh_def numeral_2_eq_2) (simp add: mk_plan_def reserveKind_eval kinds_neq Let_def)
  then show ?thesis by (rule sched_exec_run)
qed

theorem reservations_unambiguous_witness:
  "\<exists>s. sched_reach demo_opt demo_sh demo_plans s \<and> sd_workers s = [Busy (demo_plans ! 0, 1), Busy (demo_plans ! 1, 1)] \<and> sd_phase s \<in> {PMain, PRetry}"
proof -
  obtain s where s: "sched_reach demo_opt demo_sh demo_plans s" "sd_workers s = [Busy (demo_plans ! 0, 1), Busy (demo_plans ! 1, 1)]"
    using two_workers_run by blast
  then have "sd_phase s \<in> {PMain, PRetry}"
    using reservations_unambiguous [OF demo_plans_eq s(1) demo_sh_ok, where i = 0 and k = 1] by simp
  with s show ?thesis by blast
qed

theorem schedule_terminates_witness:
  "\<exists>ev s'. ev \<noteq> Cancel \<and> sched_step demo_opt demo_sh demo_plans ev (sched_start demo_opt demo_sh demo_plans) = Some s'"
proof -
  have "sd_phase (sched_start demo_opt demo_sh demo_plans) \<noteq> PDone" by (simp add: sched_start_def run_phase_def Let_def)
  then show ?thesis
    using schedule_terminates [of demo_opt demo_sh demo_plans "sched_start demo_opt demo_sh demo_plans"] sched_reach.start demo_sh_ok by simp
qed

lemma full_run:
  "\<exists>s. sched_reach demo_opt demo_sh demo_plans s \<and> sd_phase s = PDone \<and> \<not> sd_cancelled s \<and> sd_done s = 5"
proof -
  have "\<not> failed OutcomeOK" by (simp add: failed_def)
  then have "\<exists>s. sched_exec demo_opt demo_sh demo_plans
        [Take 0, Start 0, Finish 0 OutcomeOK, Take 0, Start 0, Finish 0 OutcomeOK, Take 0, Start 0, Finish 0 OutcomeOK,
         Take 0, Start 0, Finish 0 OutcomeOK, Take 0, Start 0, Finish 0 OutcomeOK, NextPhase, NextPhase] (sched_start demo_opt demo_sh demo_plans) = Some s
     \<and> sd_phase s = PDone \<and> \<not> sd_cancelled s \<and> sd_done s = 5"
    by (simp add: sched_simps demo_plans_list demo_sel demo_sh_def numeral_2_eq_2)
  then show ?thesis by (rule sched_exec_run)
qed

theorem schedule_complete_witness:
  "\<exists>s. sched_reach demo_opt demo_sh demo_plans s \<and> sd_phase s = PDone \<and> sd_total s = 5"
proof -
  obtain s where s: "sched_reach demo_opt demo_sh demo_plans s" "sd_phase s = PDone" "\<not> sd_cancelled s" "sd_done s = 5"
    using full_run by blast
  then have "sd_total s = 5" using schedule_complete [OF demo_plans_eq s(1) demo_sh_ok] by simp
  with s show ?thesis by blast
qed

end
