(* ===== verification/Server_Config.thy ===== *)
theory Server_Config
  imports Client Udp_Serve Store_Inv
begin

text \<open>
  The configuration of the probe server (\<open>internal/server/config.go\<close>) and its life cycle
  (\<open>server.go\<close>): validation, construction, the public bootstrap document, binding the listeners and the
  collector's tick. The key files, the formatting of times and the outcome of a bind are arguments.
\<close>

section \<open>Configuration\<close>

record limits =
  li_sessions_per_minute :: int
  li_attempts_per_10min :: int
  li_session_ttl :: int
  li_retention_hours :: int
  li_max_observations :: int
  li_idle_timeout :: int
  li_bulk_mb_per_day :: int

record config =
  cf_schema :: int
  cf_bind :: string
  cf_data_dir :: string
  cf_control_port :: int
  cf_tcp_ports :: "int list"
  cf_udp_ports :: "int list"
  cf_dns_ports :: "int list"
  cf_dot_port :: int
  cf_dns_zone :: string
  cf_quic :: bool
  cf_enabled_tests :: "string list"
  cf_limits :: limits
  cf_log_level :: string

definition config_Default :: config where
  "config_Default =
     \<lparr>cf_schema = 1, cf_bind = '''', cf_data_dir = ''./data'', cf_control_port = 8443,
      cf_tcp_ports = [80, 443, 1194, 8080, 8388, 4433, 1080, 9001, 9030],
      cf_udp_ports = [443, 1194, 51820, 8388, 4433, 500, 4500, 1701, 3478],
      cf_dns_ports = [53], cf_dot_port = 853, cf_dns_zone = ''probe.invalid'', cf_quic = True, cf_enabled_tests = [],
      cf_limits = \<lparr>li_sessions_per_minute = 10, li_attempts_per_10min = 1200, li_session_ttl = 600, li_retention_hours = 24,
        li_max_observations = 100000, li_idle_timeout = 5, li_bulk_mb_per_day = 64\<rparr>,
      cf_log_level = ''info''\<rparr>"

datatype config_error =
    BadSchema int
  | BadPort int string
  | PortClash int string string
  | BadTTL
  | BadMaxObservations
  | BadIdleTimeout

text \<open>The table of ports taken so far, with the role of each.\<close>

type_synonym ports = "(int \<times> string) list"

definition add_port :: "string \<Rightarrow> int \<Rightarrow> ports \<Rightarrow> config_error + ports" where
  "add_port role p m =
     (if p \<le> 0 \<or> p > 65535 then Inl (BadPort p role)
      else case map_of m p of
             Some prev \<Rightarrow> if prev \<noteq> role then Inl (PortClash p prev role) else Inr ((p, role) # m)
           | None \<Rightarrow> Inr ((p, role) # m))"

fun add_ports :: "string \<Rightarrow> int list \<Rightarrow> ports \<Rightarrow> config_error + ports" where
  "add_ports role [] m = Inr m"
| "add_ports role (p # ps) m = (case add_port role p m of Inl e \<Rightarrow> Inl e | Inr m' \<Rightarrow> add_ports role ps m')"

definition seen_tcp :: "config \<Rightarrow> config_error + ports" where
  "seen_tcp c =
     (case add_port ''control'' (cf_control_port c) [] of
        Inl e \<Rightarrow> Inl e
      | Inr m \<Rightarrow>
          (case add_ports ''tcp'' (cf_tcp_ports c) m of
             Inl e \<Rightarrow> Inl e
           | Inr m \<Rightarrow>
               (case add_ports ''dns'' (cf_dns_ports c) m of
                  Inl e \<Rightarrow> Inl e
                | Inr m \<Rightarrow> if cf_dot_port c \<noteq> 0 then add_port ''dot'' (cf_dot_port c) m else Inr m)))"

definition seen_udp :: "config \<Rightarrow> config_error + ports" where
  "seen_udp c =
     (case add_ports ''udp'' (cf_udp_ports c) [] of Inl e \<Rightarrow> Inl e | Inr m \<Rightarrow> add_ports ''dns'' (cf_dns_ports c) m)"

text \<open>The validated configuration, with the zone filled in.\<close>

definition config_Validate :: "config \<Rightarrow> config_error + config" where
  "config_Validate c =
     (if cf_schema c \<noteq> 1 then Inl (BadSchema (cf_schema c))
      else case seen_tcp c of
             Inl e \<Rightarrow> Inl e
           | Inr _ \<Rightarrow>
               (case seen_udp c of
                  Inl e \<Rightarrow> Inl e
                | Inr _ \<Rightarrow>
                    if li_session_ttl (cf_limits c) \<le> 0 \<or> li_session_ttl (cf_limits c) > 600 then Inl BadTTL
                    else if li_max_observations (cf_limits c) \<le> 0 then Inl BadMaxObservations
                    else if li_idle_timeout (cf_limits c) \<le> 0 then Inl BadIdleTimeout
                    else Inr (if cf_dns_zone c = '''' then c\<lparr>cf_dns_zone := ''probe.invalid''\<rparr> else c)))"

section \<open>The server\<close>

definition KnownTests :: "string list" where
  "KnownTests =
     [''tcp.echo'', ''tcp.payload.random'', ''tcp.rtt'', ''udp.echo'', ''udp.payload.random'', ''http.host'', ''dns.udp'', ''dns.tcp'', ''dns.dot'',
      ''tls.version'', ''tls.sni'', ''tls.alpn'', ''tls.fingerprint'', ''tls.burst'', ''tcp.bulk'', ''tcp.packets'', ''udp.packets'', ''dns.system'',
      ''quic.v1'', ''openvpn.reset'', ''wireguard.init'', ''openvpn.session'', ''wireguard.session'', ''ikev2.init'', ''ikev2.session'',
      ''l2tp.init'', ''l2tp.session'', ''socks5.connect'', ''socks5.session'', ''vless.reality'', ''vless.session'', ''tor.handshake'', ''tor.link'',
      ''tor.dir'', ''obfs4.handshake'', ''obfs4.session'', ''dtls.hello'', ''stun.binding'']"

text \<open>What the key files hold beyond the keys the UDP responders use.\<close>

record keys =
  ky_sv :: server
  ky_spki_pin :: string
  ky_obfs4 :: bytes
  ky_tor_spki_pin :: string

text \<open>The formatting of times and durations.\<close>

record clock_fmt =
  cf_rfc3339 :: "time \<Rightarrow> string"
  cf_rfc3339nano :: "time \<Rightarrow> string"
  cf_duration :: "duration \<Rightarrow> string"

record probe =
  pb_cfg :: config
  pb_keys :: keys
  pb_store :: store
  pb_start :: time
  pb_listeners :: "(string \<times> string) list"
  pb_enabled :: "string list"

datatype new_error = ConfigError config_error | KeysError string

definition hours :: "int \<Rightarrow> duration" where
  "hours n = wrap64 (n * 3600000000000)"

definition server_New :: "config \<Rightarrow> string + keys \<Rightarrow> new_error + probe" where
  "server_New cfg0 loaded =
     (case config_Validate cfg0 of
        Inl e \<Rightarrow> Inl (ConfigError e)
      | Inr cfg \<Rightarrow>
          (case loaded of
             Inl e \<Rightarrow> Inl (KeysError e)
           | Inr ky \<Rightarrow>
               (let li = cf_limits cfg;
                    st = newStore (li_max_observations li) (hours (li_retention_hours li)) (li_sessions_per_minute li) (li_attempts_per_10min li)
                in Inr \<lparr>pb_cfg = cfg,
                     pb_keys = ky\<lparr>ky_sv := (ky_sv ky)\<lparr>sv_zone := SetZone (cf_dns_zone cfg)\<rparr>\<rparr>,
                     pb_store = (if li_bulk_mb_per_day li > 0 then st\<lparr>bulkPerDay := wrap64 (li_bulk_mb_per_day li * 1048576)\<rparr> else st),
                     pb_start = zero_time, pb_listeners = [],
                     pb_enabled = (if cf_enabled_tests cfg = [] then KnownTests else cf_enabled_tests cfg)\<rparr>)))"

definition server_features :: "string list" where
  "server_features = [''cp1'', ''reservations'', ''doh'', ''bulk'', ''whoami'', ''vpn-session'', ''ike'', ''l2tp'', ''socks5'', ''vless'', ''burst'',
     ''packets'', ''tor'', ''obfs4'', ''dtls'', ''stun'']"

definition server_Params :: "string \<Rightarrow> clock_fmt \<Rightarrow> time \<Rightarrow> probe \<Rightarrow> params" where
  "server_Params version cf now pb =
     (let cfg = pb_cfg pb; ky = pb_keys pb
      in \<lparr>pa_schema = 1, pa_server_version = version, pa_server_time = cf_rfc3339nano cf now, pa_spki_pin = ky_spki_pin ky,
          pa_wg_public_key = StdEncode (kp_pub (sv_wg (ky_sv ky))), pa_tcp_ports = cf_tcp_ports cfg, pa_udp_ports = cf_udp_ports cfg,
          pa_dns_ports = cf_dns_ports cfg, pa_dot_port = cf_dot_port cfg, pa_dns_zone = sv_zone (ky_sv ky),
          pa_quic_ports = (if cf_quic cfg then cf_udp_ports cfg else []),
          pa_enabled_tests = List.filter (\<lambda>t. t \<in> set (pb_enabled pb)) KnownTests, pa_max_udp_payload = 1000, pa_features = server_features,
          pa_obfs4_cert = StdEncode (ky_obfs4 ky), pa_tor_spki_pin = ky_tor_spki_pin ky, pa_ovpn_tls_auth_key = StdEncode (sv_ovpn (ky_sv ky))\<rparr>)"

section \<open>Listeners\<close>

definition setListener :: "string \<Rightarrow> string \<Rightarrow> probe \<Rightarrow> probe" where
  "setListener name status pb = pb\<lparr>pb_listeners := AList.update name status (pb_listeners pb)\<rparr>"

text \<open>The binds in order: transport, port, and whether a QUIC endpoint shares the socket.\<close>

type_synonym bound = "string \<times> int \<times> bool"

definition binds :: "config \<Rightarrow> bound list" where
  "binds c = [(''tcp'', cf_control_port c, False)] @ map (\<lambda>p. (''tcp'', p, False)) (cf_tcp_ports c)
     @ concat (map (\<lambda>p. [(''tcp'', p, False), (''udp'', p, False)]) (cf_dns_ports c))
     @ (if cf_dot_port c \<noteq> 0 then [(''tcp'', cf_dot_port c, False)] else []) @ map (\<lambda>p. (''udp'', p, cf_quic c)) (cf_udp_ports c)"

definition bind_name :: "bound \<Rightarrow> string" where
  "bind_name b = fst b @ ''/'' @ itoa (fst (snd b))"

definition bind_ok :: "bound \<Rightarrow> probe \<Rightarrow> probe" where
  "bind_ok b pb =
     (let pb = setListener (bind_name b) ''ok'' pb
      in if snd (snd b) then setListener (''quic/'' @ itoa (fst (snd b))) ''ok'' pb else pb)"

text \<open>\<open>os_bind\<close> is what the operating system and the QUIC library answer: \<open>None\<close> when the port could be opened.\<close>

fun start_all :: "(bound \<Rightarrow> string option) \<Rightarrow> bound list \<Rightarrow> probe \<Rightarrow> probe \<times> string list" where
  "start_all os_bind [] pb = (pb, [])"
| "start_all os_bind (b # bs) pb =
     (case os_bind b of
        None \<Rightarrow> start_all os_bind bs (bind_ok b pb)
      | Some e \<Rightarrow>
          (case start_all os_bind bs (setListener (bind_name b) (''error: '' @ e) pb) of
             (pb', errs) \<Rightarrow> (pb', (bind_name b @ '': '' @ e) # errs)))"

definition server_Start :: "(bound \<Rightarrow> string option) \<Rightarrow> time \<Rightarrow> probe \<Rightarrow> probe \<times> string list" where
  "server_Start os_bind now pb = start_all os_bind (binds (pb_cfg pb)) (pb\<lparr>pb_start := now\<rparr>)"

record health =
  he_time :: string
  he_listeners :: "(string \<times> string) list"
  he_uptime :: string

text \<open>\<open>Duration.Round\<close> to whole seconds, halves away from zero.\<close>

definition round_sec :: "duration \<Rightarrow> duration" where
  "round_sec d = (let m = \<bar>d\<bar> mod 1000000000; r = \<bar>d\<bar> - m + (if m + m < 1000000000 then 0 else 1000000000) in if d < 0 then - r else r)"

definition server_health :: "clock_fmt \<Rightarrow> time \<Rightarrow> time \<Rightarrow> probe \<Rightarrow> health" where
  "server_health cf now now2 pb =
     \<lparr>he_time = cf_rfc3339nano cf now, he_listeners = pb_listeners pb, he_uptime = cf_duration cf (round_sec (sub_time now2 (pb_start pb)))\<rparr>"

text \<open>One tick of \<open>gcLoop\<close>; the drop counters it takes are only logged.\<close>

definition gc_tick :: "time \<Rightarrow> int \<Rightarrow> probe \<Rightarrow> probe" where
  "gc_tick now day pb = pb\<lparr>pb_store := fst (takeDrops (gc (pb_store pb) now day))\<rparr>"

definition server_idle :: "probe \<Rightarrow> duration" where
  "server_idle pb = sec (li_idle_timeout (cf_limits (pb_cfg pb)))"

end
