(* ===== verification/Control.thy ===== *)
theory Control
  imports Server_Config
begin

text \<open>
  The control API (\<open>internal/server/control.go\<close>): opening a session, the bearer token check, reservations,
  observations and DNS over HTTPS. A request is what the handlers read of it; a response is its code and
  body. The JSON decoders, the formatting of times, random ids and the readings of the clock
  (\<open>clk 0\<close>, \<open>clk 1\<close>, \<dots> in the order of the calls) are arguments.
\<close>

section \<open>Requests and responses\<close>

record attemptRequest =
  ar_test :: string
  ar_transport :: string
  ar_dst_port :: int
  ar_kind :: string
  ar_variant :: string

record attemptResponse =
  as_id :: string
  as_expires :: string

record observationsResponse =
  or_session :: string
  or_time :: string
  or_observations :: "observation list"

text \<open>\<open>hr_remote\<close> is the parsed remote address, \<open>hr_segs\<close> the segments of the cleaned path.\<close>

record http_request =
  hr_method :: string
  hr_segs :: "string list"
  hr_auth :: string
  hr_content_type :: string
  hr_body :: bytes
  hr_remote :: "(addr \<times> int) option"

datatype body =
    JParams params
  | JSession sessionResponse
  | JAttempt attemptResponse
  | JObservations observationsResponse
  | JHealth health
  | JError string
  | PlainText string
  | DnsMessage bytes

record http_response =
  hp_code :: nat
  hp_body :: body

definition jerror :: "nat \<Rightarrow> string \<Rightarrow> http_response" where
  "jerror code msg = \<lparr>hp_code = code, hp_body = JError msg\<rparr>"

text \<open>The library functions the handlers call, and the version stamped into the binary.\<close>

record http_lib =
  hl_session :: "bytes \<Rightarrow> sessionRequest option"
  hl_attempt :: "bytes \<Rightarrow> attemptRequest option"
  hl_clock :: clock_fmt
  hl_version :: string

definition addrPortOf :: "(addr \<times> int) option \<Rightarrow> addr \<times> int" where
  "addrPortOf ap = (case ap of None \<Rightarrow> (AddrZero, 0) | Some (a, p) \<Rightarrow> (Unmap a, p))"

definition clientIP :: "http_request \<Rightarrow> addr" where
  "clientIP r = fst (addrPortOf (hr_remote r))"

section \<open>Sessions\<close>

text \<open>The tests a session is granted, in the order they were asked for.\<close>

definition granted :: "string list \<Rightarrow> string list \<Rightarrow> string list" where
  "granted enabled tests =
     List.filter (\<lambda>t. t \<in> set enabled) tests @ (if tests = [] then List.filter (\<lambda>t. t \<in> set enabled) KnownTests else [])"

definition session_of :: "probe \<Rightarrow> bytes \<Rightarrow> addr \<Rightarrow> time \<Rightarrow> string list \<Rightarrow> session" where
  "session_of pb sid ip now tests =
     \<lparr>ses_id = sid, ses_key = SessionKey (sv_master (ky_sv (pb_keys pb))) sid,
      ses_expires = now + sec (li_session_ttl (cf_limits (pb_cfg pb))), ses_created = now, ses_client = ip, ses_tests = tests, ses_obs = []\<rparr>"

definition session_response :: "http_lib \<Rightarrow> probe \<Rightarrow> session \<Rightarrow> sessionResponse" where
  "session_response hl pb sess =
     (let master = sv_master (ky_sv (pb_keys pb))
      in \<lparr>sr_schema = 1, sr_session_id = hex_encode (ses_id sess), sr_expires_at = cf_rfc3339 (hl_clock hl) (ses_expires sess),
          sr_server_time = cf_rfc3339nano (hl_clock hl) (ses_created sess), sr_tests = ses_tests sess,
          sr_token = Token master (ses_id sess) (ses_expires sess),
          sr_udp_cookie = hex_encode (Cookie master (ses_id sess) (ses_client sess) (ses_expires sess)),
          sr_session_key = hex_encode (ses_key sess), sr_client_addr = addr_string (ses_client sess)\<rparr>)"

text \<open>\<open>sid\<close> is the random id of the new session.\<close>

definition handleSession :: "http_lib \<Rightarrow> bytes \<Rightarrow> time \<Rightarrow> http_request \<Rightarrow> probe \<Rightarrow> probe \<times> http_response" where
  "handleSession hl sid now r pb0 =
     (let ip = clientIP r
      in case allowSession (pb_store pb0) ip now of
           (s, allowed) \<Rightarrow>
             (let pb = pb0\<lparr>pb_store := s\<rparr>
              in if \<not> allowed then (pb, jerror 429 ''session rate limit'')
                 else (case hl_session hl (take 65536 (hr_body r)) of
                         None \<Rightarrow> (pb, jerror 400 ''bad json'')
                       | Some req \<Rightarrow>
                           if (case hex_decode (sq_client_nonce req) of None \<Rightarrow> True | Some n \<Rightarrow> length n \<noteq> 32)
                           then (pb, jerror 400 ''client_nonce must be 32 hex bytes'')
                           else let sess = session_of pb sid ip now (granted (pb_enabled pb) (sq_tests req))
                                in (pb\<lparr>pb_store := putSession (pb_store pb) sess\<rparr>,
                                    \<lparr>hp_code = 200, hp_body = JSession (session_response hl pb sess)\<rparr>))))"

section \<open>Authenticated calls\<close>

fun token_error_string :: "token_error \<Rightarrow> string" where
  "token_error_string BadSessionID = ''proto: bad session id''"
| "token_error_string MalformedToken = ''proto: malformed token''"
| "token_error_string TokenMACMismatch = ''proto: token mac mismatch''"
| "token_error_string TokenExpired = ''proto: token expired''"

text \<open>\<open>pid\<close> is the path's session id, empty for a route without one.\<close>

definition auth :: "string \<Rightarrow> (session \<Rightarrow> probe \<times> http_response) \<Rightarrow> (nat \<Rightarrow> time) \<Rightarrow> http_request \<Rightarrow> probe \<Rightarrow> probe \<times> http_response" where
  "auth pid nxt clk r pb =
     (case VerifyToken (sv_master (ky_sv (pb_keys pb))) (trim_prefix (hr_auth r) ''Bearer '') (clk 0) of
        (_, _, Some e) \<Rightarrow> (pb, jerror 401 (token_error_string e))
      | (sid, _, None) \<Rightarrow>
          if pid \<noteq> '''' \<and> pid \<noteq> hex_encode sid then (pb, jerror 403 ''token does not match session'')
          else (case getSession (pb_store pb) sid (clk 1) of
                  None \<Rightarrow> (pb, jerror 401 ''session expired or unknown'')
                | Some sess \<Rightarrow> nxt sess))"

definition handleHealth :: "http_lib \<Rightarrow> (nat \<Rightarrow> time) \<Rightarrow> probe \<Rightarrow> session \<Rightarrow> probe \<times> http_response" where
  "handleHealth hl clk pb sess = (pb, \<lparr>hp_code = 200, hp_body = JHealth (server_health (hl_clock hl) (clk 2) (clk 3) pb)\<rparr>)"

definition reservation_of :: "session \<Rightarrow> time \<Rightarrow> attemptRequest \<Rightarrow> reservation" where
  "reservation_of sess now req =
     \<lparr>res_id = '''', res_session = ses_id sess, res_expires = now + sec 15, res_client = ses_client sess, res_dst_port = ar_dst_port req,
      res_transport = ar_transport req, res_kind = ar_kind req, res_test = ar_test req, res_variant = ar_variant req, res_used = False\<rparr>"

text \<open>\<open>rnd\<close> are the random bytes of the reservation's id.\<close>

definition handleAttempt :: "http_lib \<Rightarrow> bytes \<Rightarrow> (nat \<Rightarrow> time) \<Rightarrow> http_request \<Rightarrow> probe \<Rightarrow> session \<Rightarrow> probe \<times> http_response" where
  "handleAttempt hl rnd clk r pb0 sess =
     (case hl_attempt hl (take 4096 (hr_body r)) of
        None \<Rightarrow> (pb0, jerror 400 ''bad json'')
      | Some req \<Rightarrow>
          if ar_test req \<notin> set (ses_tests sess) then (pb0, jerror 403 ''test not granted to this session'')
          else if ar_transport req \<noteq> ''tcp'' \<and> ar_transport req \<noteq> ''udp'' then (pb0, jerror 400 ''transport must be tcp or udp'')
          else (case allowAttempt (pb_store pb0) (ses_client sess) (clk 2) of
                  (s, allowed) \<Rightarrow>
                    (let pb = pb0\<lparr>pb_store := s\<rparr>
                     in if \<not> allowed then (pb, jerror 429 ''attempt rate limit'')
                        else let res = reservation_of sess (clk 2) req
                             in (case Store.reserve (pb_store pb) res rnd of
                                   (s, rid) \<Rightarrow>
                                     (pb\<lparr>pb_store := s\<rparr>,
                                      \<lparr>hp_code = 200, hp_body = JAttempt \<lparr>as_id = rid, as_expires = cf_rfc3339 (hl_clock hl) (res_expires res)\<rparr>\<rparr>)))))"

definition handleObservations :: "http_lib \<Rightarrow> (nat \<Rightarrow> time) \<Rightarrow> probe \<Rightarrow> session \<Rightarrow> probe \<times> http_response" where
  "handleObservations hl clk pb sess =
     (let sid = hex_encode (ses_id sess)
      in (pb, \<lparr>hp_code = 200, hp_body = JObservations \<lparr>or_session = sid, or_time = cf_rfc3339nano (hl_clock hl) (clk 2),
                or_observations = observationsFor (pb_store pb) sid\<rparr>\<rparr>))"

section \<open>DNS over HTTPS\<close>

definition doh_obs :: "probe \<Rightarrow> int \<Rightarrow> (nat \<Rightarrow> time) \<Rightarrow> bytes \<Rightarrow> bytes \<Rightarrow> dns_query \<Rightarrow> observation" where
  "doh_obs pb port clk bdy ans q =
     \<lparr>obs_id = '''', obs_session = sessionFromQName (q_name q), obs_attempt = '''', obs_test = ''dns.doh'', obs_nonce = '''', obs_seq = 0,
      obs_transport = ''tcp'', obs_dst_port = cf_control_port (pb_cfg pb), obs_src_port = port, obs_first_seen = clk 0,
      obs_replied_at = Some (clk 1), obs_closed_at = None, obs_bytes_in = int (length bdy), obs_bytes_out = int (length ans), obs_payload_sha = '''',
      obs_parse = ParseDNS,
      obs_detail = [''qname'' \<mapsto> q_name q, ''qtype'' \<mapsto> dl_type_string (sv_dns (ky_sv (pb_keys pb))) (q_type q), ''via'' \<mapsto> ''doh''],
      obs_response = ''dns_answer'', obs_close = ''normal'', obs_server_error = '''', obs_unmatched = False\<rparr>"

definition plain_error :: "nat \<Rightarrow> string \<Rightarrow> http_response" where
  "plain_error code msg = \<lparr>hp_code = code, hp_body = PlainText msg\<rparr>"

text \<open>\<open>rnd\<close> are the random bytes of the observation's id.\<close>

definition handleDoH :: "bytes \<Rightarrow> (nat \<Rightarrow> time) \<Rightarrow> http_request \<Rightarrow> probe \<Rightarrow> probe \<times> http_response" where
  "handleDoH rnd clk r pb =
     (if hr_content_type r \<noteq> ''application/dns-message'' then (pb, plain_error 415 ''unsupported media type'')
      else let bdy = take 4096 (hr_body r); sv = ky_sv (pb_keys pb)
           in case dns_ParseQuery (sv_dns sv) bdy of
                Inl _ \<Rightarrow> (pb, plain_error 400 ''bad dns message'')
              | Inr q \<Rightarrow>
                  (case addrPortOf (hr_remote r) of
                     (ip, port) \<Rightarrow>
                       (case BuildAnswerFrom (sv_dns sv) (sv_zone sv) q (addr_string ip) of
                          Inl _ \<Rightarrow> (pb, plain_error 500 ''cannot answer'')
                        | Inr ans \<Rightarrow>
                            (pb\<lparr>pb_store := fst (addObservationAt (pb_store pb) (doh_obs pb port clk bdy ans q) rnd (clk 2))\<rparr>,
                             \<lparr>hp_code = 200, hp_body = DnsMessage ans\<rparr>))))"

section \<open>Routes\<close>

datatype route =
    RParams
  | RSession
  | RHealth
  | RAttempt string
  | RObservations string
  | RDoH
  | RNotFound
  | RMethodNotAllowed

text \<open>The patterns of the mux; a \<open>GET\<close> pattern matches \<open>HEAD\<close> too, and \<open>GET /\<close> matches every path, so that
  another method without a pattern of its own is not allowed.\<close>

definition route_of :: "http_request \<Rightarrow> route" where
  "route_of r =
     (let get = (hr_method r = ''GET'' \<or> hr_method r = ''HEAD''); post = (hr_method r = ''POST'')
      in case hr_segs r of
           [a, b] \<Rightarrow>
             if a = ''v1'' \<and> b = ''params'' \<and> get then RParams
             else if a = ''v1'' \<and> b = ''session'' \<and> post then RSession
             else if a = ''v1'' \<and> b = ''health'' \<and> get then RHealth
             else if get then RNotFound else RMethodNotAllowed
         | [a, b, i, d] \<Rightarrow>
             if a = ''v1'' \<and> b = ''session'' \<and> d = ''attempt'' \<and> i \<noteq> '''' \<and> post then RAttempt i
             else if a = ''v1'' \<and> b = ''session'' \<and> d = ''observations'' \<and> i \<noteq> '''' \<and> get then RObservations i
             else if get then RNotFound else RMethodNotAllowed
         | [a] \<Rightarrow> if a = ''dns-query'' \<and> post then RDoH else if get then RNotFound else RMethodNotAllowed
         | _ \<Rightarrow> if get then RNotFound else RMethodNotAllowed)"

text \<open>One request; \<open>sid\<close> and \<open>rnd\<close> are the random bytes its handler may draw.\<close>

definition control_serve :: "http_lib \<Rightarrow> bytes \<Rightarrow> bytes \<Rightarrow> (nat \<Rightarrow> time) \<Rightarrow> http_request \<Rightarrow> probe \<Rightarrow> probe \<times> http_response" where
  "control_serve hl sid rnd clk r pb =
     (case route_of r of
        RParams \<Rightarrow> (pb, \<lparr>hp_code = 200, hp_body = JParams (server_Params (hl_version hl) (hl_clock hl) (clk 0) pb)\<rparr>)
      | RSession \<Rightarrow> handleSession hl sid (clk 0) r pb
      | RHealth \<Rightarrow> auth '''' (handleHealth hl clk pb) clk r pb
      | RAttempt i \<Rightarrow> auth i (handleAttempt hl rnd clk r pb) clk r pb
      | RObservations i \<Rightarrow> auth i (handleObservations hl clk pb) clk r pb
      | RDoH \<Rightarrow> handleDoH rnd clk r pb
      | RNotFound \<Rightarrow> (pb, plain_error 404 ''censorpulse-probe control api'')
      | RMethodNotAllowed \<Rightarrow> (pb, plain_error 405 ''Method Not Allowed''))"

end
