(* ===== verification/Control_Props.thy ===== *)
theory Control_Props
  imports Control Udp_Safety
begin

text \<open>
  What the control plane guarantees: a configuration is accepted exactly when its ports and limits make
  sense; a request reads and changes only the session its token names; and a session that a client opens
  over the control API carries its envelopes through the UDP responder and back.
\<close>

section \<open>Valid configurations\<close>

definition port_ok :: "int \<Rightarrow> bool" where
  "port_ok p \<longleftrightarrow> 0 < p \<and> p \<le> 65535"

lemma add_port_Inr: "add_port role p m = Inr m' \<longleftrightarrow> port_ok p \<and> map_of m p \<in> {None, Some role} \<and> m' = (p, role) # m"
  by (auto simp: add_port_def port_ok_def split: option.splits)

lemma add_ports_Inr:
  "add_ports role ps m = Inr m' \<longleftrightarrow> (\<forall>p\<in>set ps. port_ok p \<and> map_of m p \<in> {None, Some role}) \<and> m' = map (\<lambda>p. (p, role)) (rev ps) @ m"
proof (induction ps arbitrary: m)
  case (Cons p ps)
  have "add_ports role (p # ps) m = Inr m' \<longleftrightarrow> (\<exists>m1. add_port role p m = Inr m1 \<and> add_ports role ps m1 = Inr m')"
    by (simp split: sum.splits)
  also have "\<dots> \<longleftrightarrow> port_ok p \<and> map_of m p \<in> {None, Some role} \<and> add_ports role ps ((p, role) # m) = Inr m'"
    unfolding add_port_Inr by blast
  finally show ?case unfolding Cons.IH by (auto simp del: not_None_eq)
qed auto

text \<open>A role that is new to the table needs ports that are.\<close>

lemma map_of_new: "role \<notin> snd ` set m \<Longrightarrow> map_of m p \<in> {None, Some role} \<longleftrightarrow> p \<notin> fst ` set m"
  by (cases "map_of m p") (auto simp: map_of_eq_None_iff dest!: map_of_SomeD intro: rev_image_eqI)

lemma add_port_new:
  assumes "role \<notin> snd ` set m"
  shows "add_port role p m = Inr m' \<longleftrightarrow> (port_ok p \<and> p \<notin> fst ` set m) \<and> m' = (p, role) # m"
  unfolding add_port_Inr map_of_new [OF assms] conj_assoc ..

lemma add_ports_new:
  assumes "role \<notin> snd ` set m"
  shows "add_ports role ps m = Inr m' \<longleftrightarrow> (\<forall>p\<in>set ps. port_ok p \<and> p \<notin> fst ` set m) \<and> m' = map (\<lambda>p. (p, role)) (rev ps) @ m"
  unfolding add_ports_Inr map_of_new [OF assms] ..

lemma one_point: "(\<exists>x. (A \<and> x = t) \<and> P x) \<longleftrightarrow> A \<and> P t"
  by blast

text \<open>What a valid configuration is: every port is a port, no two roles of one transport share one, the
  lifetime of a session is at most ten minutes and the other limits are positive.\<close>

definition config_ok :: "config \<Rightarrow> bool" where
  "config_ok c \<longleftrightarrow> cf_schema c = 1
     \<and> (\<forall>p\<in>set (cf_control_port c # cf_tcp_ports c @ cf_udp_ports c @ cf_dns_ports c). port_ok p)
     \<and> cf_control_port c \<notin> set (cf_tcp_ports c) \<union> set (cf_dns_ports c)
     \<and> set (cf_tcp_ports c) \<inter> set (cf_dns_ports c) = {} \<and> set (cf_udp_ports c) \<inter> set (cf_dns_ports c) = {}
     \<and> (cf_dot_port c \<noteq> 0 \<longrightarrow> port_ok (cf_dot_port c) \<and> cf_dot_port c \<notin> {cf_control_port c} \<union> set (cf_tcp_ports c) \<union> set (cf_dns_ports c))
     \<and> 0 < li_session_ttl (cf_limits c) \<and> li_session_ttl (cf_limits c) \<le> 600
     \<and> 0 < li_max_observations (cf_limits c) \<and> 0 < li_idle_timeout (cf_limits c)"

lemma seen_tcp_Inr:
  "(\<exists>m. seen_tcp c = Inr m) \<longleftrightarrow> (\<forall>p\<in>set (cf_control_port c # cf_tcp_ports c @ cf_dns_ports c). port_ok p)
     \<and> cf_control_port c \<notin> set (cf_tcp_ports c) \<union> set (cf_dns_ports c) \<and> set (cf_tcp_ports c) \<inter> set (cf_dns_ports c) = {}
     \<and> (cf_dot_port c \<noteq> 0 \<longrightarrow> port_ok (cf_dot_port c) \<and> cf_dot_port c \<notin> {cf_control_port c} \<union> set (cf_tcp_ports c) \<union> set (cf_dns_ports c))"
proof -
  let ?m1 = "[(cf_control_port c, ''control'')]"
  let ?m2 = "map (\<lambda>p. (p, ''tcp'')) (rev (cf_tcp_ports c)) @ ?m1"
  let ?m3 = "map (\<lambda>p. (p, ''dns'')) (rev (cf_dns_ports c)) @ ?m2"
  have m: "fst ` set ?m2 = set (cf_tcp_ports c) \<union> {cf_control_port c}" "fst ` set ?m3 = set (cf_dns_ports c) \<union> set (cf_tcp_ports c) \<union> {cf_control_port c}"
    "''tcp'' \<notin> snd ` set ?m1" "''dns'' \<notin> snd ` set ?m2" "''dot'' \<notin> snd ` set ?m3"
    by (auto simp: image_Un image_image)
  have 1: "add_port ''control'' (cf_control_port c) [] = Inr m \<longleftrightarrow> port_ok (cf_control_port c) \<and> m = ?m1" for m
    by (simp add: add_port_new)
  have 2: "add_ports ''tcp'' (cf_tcp_ports c) ?m1 = Inr m \<longleftrightarrow> (\<forall>p\<in>set (cf_tcp_ports c). port_ok p \<and> p \<noteq> cf_control_port c) \<and> m = ?m2" for m
    unfolding add_ports_new [OF m(3)] by simp
  have 3: "add_ports ''dns'' (cf_dns_ports c) ?m2 = Inr m \<longleftrightarrow>
      (\<forall>p\<in>set (cf_dns_ports c). port_ok p \<and> p \<notin> set (cf_tcp_ports c) \<union> {cf_control_port c}) \<and> m = ?m3" for m
    unfolding add_ports_new [OF m(4)] m(1) ..
  have 4: "(\<exists>m. add_port ''dot'' (cf_dot_port c) ?m3 = Inr m) \<longleftrightarrow>
      port_ok (cf_dot_port c) \<and> cf_dot_port c \<notin> set (cf_dns_ports c) \<union> set (cf_tcp_ports c) \<union> {cf_control_port c}"
    unfolding add_port_new [OF m(5)] m(2) by simp
  have "(\<exists>m. seen_tcp c = Inr m) \<longleftrightarrow> (\<exists>m1. add_port ''control'' (cf_control_port c) [] = Inr m1 \<and> (\<exists>m2. add_ports ''tcp'' (cf_tcp_ports c) m1 = Inr m2
      \<and> (\<exists>m3. add_ports ''dns'' (cf_dns_ports c) m2 = Inr m3 \<and> (cf_dot_port c \<noteq> 0 \<longrightarrow> (\<exists>m4. add_port ''dot'' (cf_dot_port c) m3 = Inr m4)))))"
    unfolding seen_tcp_def by (simp split: sum.splits)
  also have "\<dots> \<longleftrightarrow> port_ok (cf_control_port c) \<and> (\<forall>p\<in>set (cf_tcp_ports c). port_ok p \<and> p \<noteq> cf_control_port c)
      \<and> (\<forall>p\<in>set (cf_dns_ports c). port_ok p \<and> p \<notin> set (cf_tcp_ports c) \<union> {cf_control_port c})
      \<and> (cf_dot_port c \<noteq> 0 \<longrightarrow> port_ok (cf_dot_port c) \<and> cf_dot_port c \<notin> set (cf_dns_ports c) \<union> set (cf_tcp_ports c) \<union> {cf_control_port c})"
    unfolding 1 one_point 2 3 4 ..
  finally show ?thesis by auto
qed

lemma seen_udp_Inr:
  "(\<exists>m. seen_udp c = Inr m) \<longleftrightarrow> (\<forall>p\<in>set (cf_udp_ports c @ cf_dns_ports c). port_ok p) \<and> set (cf_udp_ports c) \<inter> set (cf_dns_ports c) = {}"
proof -
  let ?m = "map (\<lambda>p. (p, ''udp'')) (rev (cf_udp_ports c))"
  have m: "''dns'' \<notin> snd ` set ?m" "fst ` set ?m = set (cf_udp_ports c)" by (auto simp: image_image)
  have 1: "add_ports ''udp'' (cf_udp_ports c) [] = Inr m \<longleftrightarrow> (\<forall>p\<in>set (cf_udp_ports c). port_ok p) \<and> m = ?m" for m
    by (simp add: add_ports_new)
  have 2: "(\<exists>m. add_ports ''dns'' (cf_dns_ports c) ?m = Inr m) \<longleftrightarrow> (\<forall>p\<in>set (cf_dns_ports c). port_ok p \<and> p \<notin> set (cf_udp_ports c))"
    unfolding add_ports_new [OF m(1)] m(2) by simp
  have "(\<exists>m. seen_udp c = Inr m) \<longleftrightarrow> (\<exists>m1. add_ports ''udp'' (cf_udp_ports c) [] = Inr m1 \<and> (\<exists>m2. add_ports ''dns'' (cf_dns_ports c) m1 = Inr m2))"
    unfolding seen_udp_def by (simp split: sum.splits)
  also have "\<dots> \<longleftrightarrow> (\<forall>p\<in>set (cf_udp_ports c). port_ok p) \<and> (\<forall>p\<in>set (cf_dns_ports c). port_ok p \<and> p \<notin> set (cf_udp_ports c))"
    unfolding 1 one_point 2 ..
  finally show ?thesis by auto
qed

lemma config_Validate_cases:
  "config_Validate c = (if config_ok c then Inr (if cf_dns_zone c = '''' then c\<lparr>cf_dns_zone := ''probe.invalid''\<rparr> else c) else config_Validate c)
   \<and> (\<not> config_ok c \<longrightarrow> (\<exists>e. config_Validate c = Inl e))"
proof (cases "cf_schema c = 1")
  case s: True
  show ?thesis
  proof (cases "(\<exists>m. seen_tcp c = Inr m) \<and> (\<exists>m. seen_udp c = Inr m)")
    case True
    then obtain m m' where "seen_tcp c = Inr m" "seen_udp c = Inr m'" by blast
    moreover have "config_ok c \<longleftrightarrow> 0 < li_session_ttl (cf_limits c) \<and> li_session_ttl (cf_limits c) \<le> 600
     \<and> 0 < li_max_observations (cf_limits c) \<and> 0 < li_idle_timeout (cf_limits c)"
      using True s unfolding seen_tcp_Inr seen_udp_Inr config_ok_def by auto
    ultimately show ?thesis using s by (auto simp: config_Validate_def)
  next
    case False
    then have "\<not> config_ok c" unfolding seen_tcp_Inr seen_udp_Inr config_ok_def by auto
    moreover have "\<exists>e. config_Validate c = Inl e"
      using False s by (cases "seen_tcp c"; cases "seen_udp c") (auto simp: config_Validate_def)
    ultimately show ?thesis by simp
  qed
qed (simp add: config_Validate_def config_ok_def)

text \<open>C36. A configuration is accepted exactly when the schema version is 1; the control port and every TCP, UDP and
  DNS port lie between 1 and 65535, and so does the DoT port unless it is 0, which means no DoT; over TCP no port serves two
  of the roles control, tcp, dns and DoT, and over UDP none is both udp and dns; a session lives from 1 to 600 seconds;
  and the ceiling of stored observations and the idle timeout are positive. Nothing else is looked at: not the rates, the
  retention, the daily bulk allowance, the enabled tests. What is accepted is the configuration itself with an empty zone
  filled in.\<close>

theorem config_validation_spec:
  "config_Validate c = Inr c' \<longleftrightarrow> config_ok c \<and> c' = (if cf_dns_zone c = '''' then c\<lparr>cf_dns_zone := ''probe.invalid''\<rparr> else c)"
  using config_Validate_cases [of c] by (cases "config_ok c") auto

section \<open>Isolation of sessions\<close>

text \<open>The request carries a valid, unexpired token of the live session \<open>sess\<close>, named by \<open>pid\<close>.\<close>

definition authorised :: "probe \<Rightarrow> (nat \<Rightarrow> time) \<Rightarrow> http_request \<Rightarrow> string \<Rightarrow> session \<Rightarrow> bool" where
  "authorised pb clk r pid sess \<longleftrightarrow>
     (\<exists>sid e. VerifyToken (sv_master (ky_sv (pb_keys pb))) (trim_prefix (hr_auth r) ''Bearer '') (clk 0) = (sid, e, None)
        \<and> pid = hex_encode sid \<and> getSession (pb_store pb) sid (clk 1) = Some sess)"

lemma auth_cases [consumes 1, case_names refused passed]:
  assumes "auth pid nxt clk r pb = (pb', resp)"
  obtains code msg where "pb' = pb" "resp = jerror code msg" "code \<noteq> 200"
  | sess sid where "(pb', resp) = nxt sess" "authorised pb clk r (hex_encode sid) sess" "pid = '''' \<or> pid = hex_encode sid"
proof -
  obtain sid e err where v: "VerifyToken (sv_master (ky_sv (pb_keys pb))) (trim_prefix (hr_auth r) ''Bearer '') (clk 0) = (sid, e, err)"
    by (metis prod_cases3)
  show ?thesis
  proof (cases err)
    case (Some x)
    then show ?thesis using assms v by (intro that(1) [of 401]) (auto simp: auth_def)
  next
    case None
    show ?thesis
    proof (cases "pid \<noteq> '''' \<and> pid \<noteq> hex_encode sid")
      case True
      then show ?thesis using assms v None by (intro that(1) [of 403]) (auto simp: auth_def)
    next
      case False
      note c = False
      show ?thesis
      proof (cases "getSession (pb_store pb) sid (clk 1)")
        case None
        then show ?thesis using assms v c \<open>err = None\<close> by (intro that(1) [of 401]) (auto simp: auth_def)
      next
        case (Some sess)
        then show ?thesis using assms v c \<open>err = None\<close> by (intro that(2) [of sess sid]) (auto simp: auth_def authorised_def)
      qed
    qed
  qed
qed

lemma VerifyToken_length: "VerifyToken master tok now = (sid, e, None) \<Longrightarrow> length sid = 16"
  by (auto simp: VerifyToken_def Let_def split: option.splits if_splits)

lemma authorised_rows:
  assumes "authorised pb clk r pid sess" and "store_inv (pb_store pb)"
  shows "pid = hex_encode (ses_id sess)" "length (ses_id sess) = 16" "observationsFor (pb_store pb) pid = sort_key obs_first_seen (ses_obs sess)"
    "\<forall>ob\<in>set (ses_obs sess). obs_session ob = pid"
proof -
  obtain sid e where v: "VerifyToken (sv_master (ky_sv (pb_keys pb))) (trim_prefix (hr_auth r) ''Bearer '') (clk 0) = (sid, e, None)"
    "pid = hex_encode sid" "getSession (pb_store pb) sid (clk 1) = Some sess"
    using assms(1) by (auto simp: authorised_def)
  then have m: "map_of (sessions (pb_store pb)) sid = Some sess" by (auto simp: getSession_def split: option.splits if_splits)
  note store_invD [OF assms(2) m]
  then show "pid = hex_encode (ses_id sess)" "length (ses_id sess) = 16" "\<forall>ob\<in>set (ses_obs sess). obs_session ob = pid"
    using v VerifyToken_length by auto
  show "observationsFor (pb_store pb) pid = sort_key obs_first_seen (ses_obs sess)"
    using m v VerifyToken_length by (simp add: observationsFor_def ParseSessionID_hex)
qed

lemma allow_reservations:
  "reservations (fst (allowSession s ip now)) = reservations s" "reservations (fst (allowAttempt s ip now)) = reservations s"
  "sessions (fst (allowSession s ip now)) = sessions s" "sessions (fst (allowAttempt s ip now)) = sessions s"
  by (simp_all add: allowSession_def allowAttempt_def Let_def)

lemma addObservation_reservations: "reservations (fst (addObservationAt s ob rnd now)) = reservations s"
  by (simp add: addObservationAt_def Let_def split: sum.splits option.splits)

lemma handleSession_other:
  assumes "handleSession hl sid now r pb = (pb', resp)"
  shows "reservations (pb_store pb') = reservations (pb_store pb)" "\<And>os. hp_body resp \<noteq> JObservations os"
    "hp_code resp \<noteq> 200 \<Longrightarrow> sessions (pb_store pb') = sessions (pb_store pb)"
  using assms allow_reservations(1,3) [of "pb_store pb" "clientIP r" now]
  by (auto simp: handleSession_def Let_def jerror_def putSession_def split: prod.splits option.splits if_splits)

lemma handleDoH_other:
  assumes "handleDoH rnd clk r pb = (pb', resp)"
  shows "reservations (pb_store pb') = reservations (pb_store pb)" "\<And>os. hp_body resp \<noteq> JObservations os" "hp_code resp \<noteq> 200 \<Longrightarrow> pb' = pb"
  using assms by (auto simp: handleDoH_def Let_def plain_error_def addObservation_reservations split: prod.splits sum.splits if_splits)

lemma handleAttempt_cases:
  assumes "handleAttempt hl rnd clk r pb sess = (pb', resp)"
  shows "sessions (pb_store pb') = sessions (pb_store pb)" "\<And>os. hp_body resp \<noteq> JObservations os"
    "(hp_code resp \<noteq> 200 \<and> reservations (pb_store pb') = reservations (pb_store pb))
     \<or> hp_code resp = 200 \<and> (\<exists>req. hl_attempt hl (take 4096 (hr_body r)) = Some req \<and> ar_test req \<in> set (ses_tests sess) \<and> ar_transport req \<in> {''tcp'', ''udp''}
          \<and> reservations (pb_store pb') = reservations (pb_store pb) @ [(reservation_of sess (clk 2) req)\<lparr>res_id := hex_encode rnd\<rparr>])"
  using assms allow_reservations(2,4) [of "pb_store pb" "ses_client sess" "clk 2"]
  by (auto simp: handleAttempt_def Let_def jerror_def reserve_def split: prod.splits option.splits if_splits)

lemma route_of_cases:
  "route_of r = RAttempt i \<Longrightarrow> hr_segs r = [''v1'', ''session'', i, ''attempt''] \<and> i \<noteq> ''''"
  "route_of r = RObservations i \<Longrightarrow> hr_segs r = [''v1'', ''session'', i, ''observations''] \<and> i \<noteq> ''''"
  by (auto simp: route_of_def Let_def split: list.splits if_splits)

text \<open>What one request may do: \<open>control_effect\<close> is the part of the contract that does not depend on the route.\<close>

definition control_effect :: "http_lib \<Rightarrow> bytes \<Rightarrow> (nat \<Rightarrow> time) \<Rightarrow> http_request \<Rightarrow> probe \<Rightarrow> probe \<Rightarrow> http_response \<Rightarrow> bool" where
  "control_effect hl rnd clk r pb pb' resp \<longleftrightarrow>
     (\<forall>os. hp_body resp = JObservations os \<longrightarrow>
        (\<exists>sess. authorised pb clk r (or_session os) sess \<and> hr_segs r ! 2 = or_session os
           \<and> or_observations os = sort_key obs_first_seen (ses_obs sess) \<and> (\<forall>ob\<in>set (or_observations os). obs_session ob = or_session os)))
     \<and> (reservations (pb_store pb') = reservations (pb_store pb)
        \<or> (\<exists>sess req. authorised pb clk r (hex_encode (ses_id sess)) sess \<and> hr_segs r ! 2 = hex_encode (ses_id sess)
             \<and> ar_test req \<in> set (ses_tests sess) \<and> ar_transport req \<in> {''tcp'', ''udp''}
             \<and> reservations (pb_store pb') = reservations (pb_store pb) @ [(reservation_of sess (clk 2) req)\<lparr>res_id := hex_encode rnd\<rparr>]))
     \<and> (hp_code resp = 200 \<or> sessions (pb_store pb') = sessions (pb_store pb) \<and> reservations (pb_store pb') = reservations (pb_store pb))"

lemma control_effect_other:
  "reservations (pb_store pb') = reservations (pb_store pb) \<Longrightarrow> (\<And>os. hp_body resp \<noteq> JObservations os) \<Longrightarrow>
   (hp_code resp \<noteq> 200 \<Longrightarrow> sessions (pb_store pb') = sessions (pb_store pb)) \<Longrightarrow> control_effect hl rnd clk r pb pb' resp"
  by (auto simp: control_effect_def)

lemma control_effect_attempt:
  assumes "auth i (handleAttempt hl rnd clk r pb) clk r pb = (pb', resp)" and "hr_segs r = [''v1'', ''session'', i, ''attempt''] \<and> i \<noteq> ''''" and "store_inv (pb_store pb)"
  shows "control_effect hl rnd clk r pb pb' resp"
  using assms(1)
proof (cases rule: auth_cases)
  case (refused code msg)
  then show ?thesis by (intro control_effect_other) (simp_all add: jerror_def)
next
  case (passed sess sid)
  note H = handleAttempt_cases [OF passed(1) [symmetric]] and I = authorised_rows(1) [OF passed(2) assms(3)]
  then have I: "sid = ses_id sess" by (simp add: hex_encode_inj)
  then have s: "hr_segs r ! 2 = hex_encode (ses_id sess)" using passed(3) assms(2) by auto
  show ?thesis unfolding control_effect_def using H(1,3) passed(2) s I by (auto simp: H(2))
qed

lemma control_effect_observations:
  assumes "auth i (handleObservations hl clk pb) clk r pb = (pb', resp)" and "hr_segs r = [''v1'', ''session'', i, ''observations''] \<and> i \<noteq> ''''" and "store_inv (pb_store pb)"
  shows "control_effect hl rnd clk r pb pb' resp"
  using assms(1)
proof (cases rule: auth_cases)
  case (refused code msg)
  then show ?thesis by (intro control_effect_other) (simp_all add: jerror_def)
next
  case (passed sess sid)
  note A = authorised_rows [OF passed(2) assms(3)]
  have "hr_segs r ! 2 = hex_encode (ses_id sess)" using passed(3) assms(2) A(1) by auto
  then show ?thesis using passed(1,2) A by (auto simp: control_effect_def handleObservations_def Let_def)
qed

text \<open>C3. Sessions are isolated from each other. Observations are given only on a route that names a session, to a
  request with a valid token of that very session while it lives, and they are exactly the rows of that
  session, oldest first. A reservation is added only for such a request, at most one per request, under
  its session and client address, for a test the session was granted, for fifteen seconds. A request
  that is refused changes neither sessions nor reservations.\<close>

theorem control_plane_isolation:
  assumes "control_serve hl sid rnd clk r pb = (pb', resp)" and "store_inv (pb_store pb)"
  shows "control_effect hl rnd clk r pb pb' resp"
proof (cases "route_of r")
  case RSession
  then show ?thesis using assms(1) handleSession_other [of hl sid "clk 0" r pb pb' resp] by (intro control_effect_other) (auto simp: control_serve_def)
next
  case (RAttempt i)
  then show ?thesis using assms control_effect_attempt route_of_cases(1) by (simp add: control_serve_def)
next
  case (RObservations i)
  then show ?thesis using assms control_effect_observations route_of_cases(2) by (simp add: control_serve_def)
next
  case RDoH
  then show ?thesis using assms(1) handleDoH_other [of rnd clk r pb pb' resp] by (intro control_effect_other) (auto simp: control_serve_def)
next
  case RHealth
  then have "auth '''' (handleHealth hl clk pb) clk r pb = (pb', resp)" using assms(1) by (simp add: control_serve_def)
  then show ?thesis
    by (cases rule: auth_cases) (auto intro!: control_effect_other simp: jerror_def handleHealth_def)
qed (use assms(1) in \<open>auto intro!: control_effect_other simp: control_serve_def plain_error_def\<close>)

section \<open>The store behind the control plane\<close>

lemma evolves_ops: "evolves s (fst (allowSession s ip now))" "evolves s (fst (Store.reserve s res rnd))" "evolves s (fst (addObservationAt s ob rnd now))"
  "evolves s (fst (allowAttempt s ip now))"
  using evolves_step [of "(now, OpAllowSession ip)" "{}" s] evolves_step [of "(now, OpReserve res rnd)" "{}" s] evolves_step [of "(now, OpAddObs ob rnd)" "{}" s]
    evolves_step [of "(now, OpAllowAttempt ip)" "{}" s]
  by simp_all

text \<open>A request changes nothing but the store, and opens at most one session: one with the derived key, the configured
  lifetime and tests the server has enabled.\<close>

definition control_change :: "probe \<Rightarrow> probe \<Rightarrow> bool" where
  "control_change pb pb' \<longleftrightarrow> pb' = pb\<lparr>pb_store := pb_store pb'\<rparr>
     \<and> (evolves (pb_store pb) (pb_store pb')
        \<or> (\<exists>s sid ip now tests. evolves (pb_store pb) s \<and> set tests \<subseteq> set (pb_enabled pb) \<and> pb_store pb' = putSession s (session_of pb sid (Unmap ip) now tests)))"

lemma clientIP_unmapped: "\<exists>ip. clientIP r = Unmap ip"
  by (cases "hr_remote r") (auto simp: clientIP_def addrPortOf_def Unmap_def intro: exI [of _ AddrZero])

lemma session_of_store: "session_of (pb\<lparr>pb_store := s\<rparr>) = session_of pb"
  by (simp add: session_of_def fun_eq_iff)

lemma handleSession_change: "handleSession hl sid now r pb = (pb', resp) \<Longrightarrow> control_change pb pb'"
proof -
  assume h: "handleSession hl sid now r pb = (pb', resp)"
  obtain s a where s: "allowSession (pb_store pb) (clientIP r) now = (s, a)" by fastforce
  obtain ip where ip: "clientIP r = Unmap ip" using clientIP_unmapped by blast
  have e: "evolves (pb_store pb) s" using evolves_ops(1) [of "pb_store pb" "clientIP r" now] s by simp
  have "pb' = pb\<lparr>pb_store := s\<rparr> \<or> (\<exists>req :: sessionRequest. pb' = pb\<lparr>pb_store := putSession s (session_of pb sid (Unmap ip) now (granted (pb_enabled pb) (sq_tests req)))\<rparr>)"
    using h s ip by (cases "hl_session hl (take 65536 (hr_body r))") (auto simp: handleSession_def Let_def session_of_store split: option.splits if_splits)
  moreover have "set (granted (pb_enabled pb) ts) \<subseteq> set (pb_enabled pb)" for ts by (auto simp: granted_def)
  ultimately show ?thesis
  proof (elim disjE exE)
    assume "pb' = pb\<lparr>pb_store := s\<rparr>"
    then show ?thesis using e by (simp add: control_change_def)
  next
    fix req :: sessionRequest
    assume g: "\<And>ts. set (granted (pb_enabled pb) ts) \<subseteq> set (pb_enabled pb)"
      and "pb' = pb\<lparr>pb_store := putSession s (session_of pb sid (Unmap ip) now (granted (pb_enabled pb) (sq_tests req)))\<rparr>"
    then have "pb_store pb' = putSession s (session_of pb sid (Unmap ip) now (granted (pb_enabled pb) (sq_tests req)))" "pb' = pb\<lparr>pb_store := pb_store pb'\<rparr>"
      by simp_all
    then show ?thesis using e g unfolding control_change_def by blast
  qed
qed

lemma control_change_evolves: "evolves (pb_store pb) (pb_store pb') \<and> pb' = pb\<lparr>pb_store := pb_store pb'\<rparr> \<Longrightarrow> control_change pb pb'"
  by (simp add: control_change_def)

lemma handleAttempt_evolves: "handleAttempt hl rnd clk r pb sess = (pb', resp) \<Longrightarrow> evolves (pb_store pb) (pb_store pb') \<and> pb' = pb\<lparr>pb_store := pb_store pb'\<rparr>"
  using evolves_ops(4) [of "pb_store pb" "ses_client sess" "clk 2"] evolves_trans [OF _ evolves_ops(2)]
  by (auto simp: handleAttempt_def Let_def split: prod.splits option.splits if_splits) (metis fst_conv)+

lemma auth_evolves:
  assumes "auth pid nxt clk r pb = (pb', resp)" and "\<And>sess. nxt sess = (pb', resp) \<Longrightarrow> evolves (pb_store pb) (pb_store pb') \<and> pb' = pb\<lparr>pb_store := pb_store pb'\<rparr>"
  shows "control_change pb pb'"
  using assms(1) by (cases rule: auth_cases) (use assms(2) in \<open>auto intro!: control_change_evolves\<close>)

lemma control_serve_change:
  assumes "control_serve hl sid rnd clk r pb = (pb', resp)"
  shows "control_change pb pb'"
proof (cases "route_of r")
  case RSession
  then show ?thesis using assms handleSession_change by (simp add: control_serve_def)
next
  case RHealth
  then have "auth '''' (handleHealth hl clk pb) clk r pb = (pb', resp)" using assms by (simp add: control_serve_def)
  then show ?thesis by (rule auth_evolves) (auto simp: handleHealth_def)
next
  case (RAttempt i)
  then have "auth i (handleAttempt hl rnd clk r pb) clk r pb = (pb', resp)" using assms by (simp add: control_serve_def)
  then show ?thesis by (rule auth_evolves) (rule handleAttempt_evolves)
next
  case (RObservations i)
  then have "auth i (handleObservations hl clk pb) clk r pb = (pb', resp)" using assms by (simp add: control_serve_def)
  then show ?thesis by (rule auth_evolves) (auto simp: handleObservations_def Let_def)
next
  case RDoH
  then show ?thesis using assms evolves_ops(3)
    by (intro control_change_evolves) (auto simp: control_serve_def handleDoH_def Let_def split: prod.splits sum.splits if_splits)
qed (use assms in \<open>auto simp: control_serve_def control_change_def\<close>)

section \<open>From the session to the echo\<close>

lemma Bootstrap_session:
  assumes "Bootstrap get_params post st version n t0 t1 c0 = (c, None)" and "\<And>q c1. snd (post q c1) = Inr sr"
  shows "\<exists>c1. open_session sr c1 = (c, None)"
  using assms(1) assms(2) unfolding Bootstrap_def Let_def
  by (auto split: prod.splits sum.splits if_splits) (metis sndI sum.distinct(1) sum.inject(2))+

lemma open_session_ok:
  assumes "open_session (session_response hl pb sess) c1 = (c, None)" and "length (ses_id sess) = 16"
  shows "cl_sid c = ses_id sess \<and> cl_key c = ses_key sess
    \<and> cl_cookie c = Cookie (sv_master (ky_sv (pb_keys pb))) (ses_id sess) (ses_client sess) (ses_expires sess)"
  using assms by (auto simp: open_session_def session_response_def Let_def ParseSessionID_hex hex_decode_encode)

lemma handleSession_opened:
  assumes "handleSession hl sid now r pb = (pb', resp)" and "hp_body resp = JSession sr"
  shows "\<exists>sess rws. map_of (sessions (pb_store pb')) sid = Some (sess\<lparr>ses_obs := rws\<rparr>) \<and> sr = session_response hl pb sess
    \<and> ses_id sess = sid \<and> ses_client sess = clientIP r \<and> ses_expires sess = now + sec (li_session_ttl (cf_limits (pb_cfg pb)))
    \<and> set (ses_tests sess) \<subseteq> set (pb_enabled pb) \<and> sr_tests sr = ses_tests sess"
proof -
  obtain req s where h: "allowSession (pb_store pb) (clientIP r) now = (s, True)" "hl_session hl (take 65536 (hr_body r)) = Some req"
    and p: "pb' = pb\<lparr>pb_store := putSession s (session_of pb sid (clientIP r) now (granted (pb_enabled pb) (sq_tests req)))\<rparr>"
    and sr: "sr = session_response hl pb (session_of pb sid (clientIP r) now (granted (pb_enabled pb) (sq_tests req)))"
    using assms by (auto simp: handleSession_def Let_def jerror_def session_of_def session_response_def split: prod.splits option.splits if_splits)
  let ?sess = "session_of pb sid (clientIP r) now (granted (pb_enabled pb) (sq_tests req))"
  have "\<exists>rws. map_of (sessions (pb_store pb')) sid = Some (?sess\<lparr>ses_obs := rws\<rparr>)"
    by (auto simp: p putSession_def Let_def session_of_def update_conv' split: option.splits)
  then obtain rws where "map_of (sessions (pb_store pb')) sid = Some (?sess\<lparr>ses_obs := rws\<rparr>)" by blast
  then show ?thesis
    by (intro exI [of _ ?sess] exI [of _ rws]) (auto simp: sr session_of_def session_response_def granted_def Let_def)
qed

lemma serve_env: "is_envelope (dg_b d) \<Longrightarrow> serve sv d s l = serveEnvelope sv d (start_flow d s l)"
  by (simp add: serve_def protocol_def udpDispatch_def by_shape_def)

lemma getSession_live: "map_of (sessions s) sid = Some sess \<Longrightarrow> now \<le> ses_expires sess \<Longrightarrow> getSession s sid now = Some sess"
  by (simp add: getSession_def)

lemma VerifyCookie_same: "Unmap a = Unmap b \<Longrightarrow> VerifyCookie master sid a e (Cookie master sid b e)"
  by (simp add: VerifyCookie_def Cookie_def)

text \<open>An envelope of a session's client, within the session's lifetime and rate, is answered.\<close>

lemma envelope_served:
  assumes "map_of (sessions s) sid = Some sess" and "dg_now d \<le> ses_expires sess" and "dg_key_now d \<le> ses_expires sess"
    and "wf_request req" and "req_session req = sid" and "encode_request req (ses_key sess) = Inr (dg_b d)"
    and "req_cookie req = Some (Cookie (sv_master sv) sid ip (ses_expires sess))" and "Unmap (dg_ip d) = Unmap ip"
    and "req_test req \<in> set (ses_tests sess)" and "dg_send d = None"
    and "map_of (sessions (store_run s (dg_others d 0))) sid = Some (sess\<lparr>ses_obs := rws\<rparr>)"
    and "snd (allowAttempt (store_run (store_run s (dg_others d 0)) (dg_others d 1)) (ses_client sess) (dg_now d))"
  shows "\<exists>s' l'. udp_handle sv d (s, l) = Some (s', l', [encode_reply (req\<lparr>req_raw := dg_b d\<rparr>) (dg_now d) (dg_seal_now d) (ses_key sess)])"
proof -
  have d: "decode_request (dg_b d) (keyFor s (dg_key_now d)) = Some (Some (req\<lparr>req_raw := dg_b d\<rparr>), None)"
    using decode_encoded [OF assms(4,6), of "keyFor s (dg_key_now d)" "[]"] assms(1,3,5) by (simp add: keyFor_def getSession_live)
  have e: "is_envelope (dg_b d)" using request_body_layout(1) [OF assms(4,6), of "dg_b d" "[]"] by simp
  obtain s1 where a: "allowAttempt (store_run (store_run s (dg_others d 0)) (dg_others d 1)) (ses_client sess) (dg_now d) = (s1, True)" using assms(12) by (metis prod.collapse)
  have n: "encode_reply (req\<lparr>req_raw := dg_b d\<rparr>) (dg_now d) (dg_seal_now d) (ses_key sess) \<noteq> []"
  proof -
    have "length (encode_reply (req\<lparr>req_raw := dg_b d\<rparr>) (dg_now d) (dg_seal_now d) (ses_key sess)) = 105 + length (req_test req)"
      using length_encode_reply [of "req\<lparr>req_raw := dg_b d\<rparr>"] assms(4) by (simp add: wf_request_def)
    then show ?thesis by fastforce
  qed
  show ?thesis
    using assms(2,5,7-11) a n
    by (simp add: udp_handle_def serve_env [OF e] serveEnvelope_def Let_def d getSession_live VerifyCookie_same)
       (simp add: reply_def start_flow_def others_def)
qed

lemma checkReply_ok:
  assumes "wf_request req" and "length (req_test req) \<le> 255" and "in_int64 seen" and "in_int64 sealed" and "length (req_payload req) \<le> 8192"
  shows "\<exists>rep. checkReply c (encode_reply req seen sealed (cl_key c)) (req_nonce req) (req_payload req) = Some (Some rep, '''')"
  using reply_round_trip [of req seen sealed "cl_key c" "[]"] assms
  by (simp add: checkReply_def wf_reply_source_def unat_of_nat)

text \<open>C4. The parts fit together. A client that bootstraps on the server's answer to its session request holds a session
  with which it can probe: an envelope it builds for a granted test and sends over UDP, from the
  address the control plane saw, while the session lives and its rate allows, is answered by exactly
  one datagram, and the client's check of that datagram finds nothing wrong with it. Other traffic may
  have changed the store in between, and may go on changing it while the datagram is served, as long as the
  session is still in its table.\<close>

theorem session_carries_echo:
  assumes opened: "handleSession hl sid now r pb = (pb', resp)" "hp_body resp = JSession sr" "length sid = 16"
    and boot: "Bootstrap get_params post st version n t0 t1 c0 = (c, None)" "\<forall>q c1. snd (post q c1) = Inr sr"
    and kept: "map_of (sessions (pb_store pb')) sid = Some sess" "map_of (sessions s) sid = Some (sess\<lparr>ses_obs := rws\<rparr>)"
    and sent: "client_envelope c nonce test sq payload True = Inr (dg_b d)" "test \<in> set (sr_tests sr)" "length nonce = 12"
      "Unmap (dg_ip d) = clientIP r" "dg_send d = None" "snd (allowAttempt (store_run (store_run s (dg_others d 0)) (dg_others d 1)) (ses_client sess) (dg_now d))"
      "map_of (sessions (store_run s (dg_others d 0))) sid = Some (sess\<lparr>ses_obs := rws'\<rparr>)"
    and clock: "dg_now d \<le> now + sec (li_session_ttl (cf_limits (pb_cfg pb)))" "dg_key_now d \<le> now + sec (li_session_ttl (cf_limits (pb_cfg pb)))"
      "in_int64 (dg_now d)" "in_int64 (dg_seal_now d)"
  shows "\<exists>s' l' out rep. udp_handle (ky_sv (pb_keys pb)) d (s, l) = Some (s', l', [out]) \<and> checkReply c out nonce payload = Some (Some rep, '''')"
proof -
  obtain se ro where o: "map_of (sessions (pb_store pb')) sid = Some (se\<lparr>ses_obs := ro\<rparr>)" "sr = session_response hl pb se" "ses_id se = sid"
    "ses_client se = clientIP r" "ses_expires se = now + sec (li_session_ttl (cf_limits (pb_cfg pb)))" "sr_tests sr = ses_tests se"
    using handleSession_opened [OF opened(1,2)] by blast
  then have sess: "sess = se\<lparr>ses_obs := ro\<rparr>" using kept(1) by simp
  obtain c1 where "open_session sr c1 = (c, None)" using Bootstrap_session [OF boot(1)] boot(2) by blast
  then have c: "cl_sid c = sid" "cl_key c = ses_key se" "cl_cookie c = Cookie (sv_master (ky_sv (pb_keys pb))) sid (clientIP r) (ses_expires se)"
    using open_session_ok [of hl pb se c1 c] o opened(3) by auto
  define req where "req = \<lparr>req_session = cl_sid c, req_test = test, req_nonce = nonce, req_seq = sq, req_cookie = Some (cl_cookie c), req_payload = payload, req_raw = []\<rparr>"
  have q: "wf_request req" "encode_request req (ses_key se) = Inr (dg_b d)" using sent(1,3) opened(3) c by (simp_all add: req_def wf_request_def client_envelope_def)
  then have b: "length test \<le> 255" "length payload \<le> 8192" by (simp_all add: encode_request_Inr req_def)
  have "Unmap (dg_ip d) = Unmap (clientIP r)" using sent(4) Unmap_idem by metis
  then obtain s' l' where h: "udp_handle (ky_sv (pb_keys pb)) d (s, l) = Some (s', l', [encode_reply (req\<lparr>req_raw := dg_b d\<rparr>) (dg_now d) (dg_seal_now d) (ses_key se)])"
    using envelope_served [OF kept(2) _ _ q(1), where d = d and sv = "ky_sv (pb_keys pb)" and ip = "clientIP r" and l = l and rws = rws'] clock(1,2) sent o q(2) c
    by (auto simp: sess req_def)
  have "wf_request (req\<lparr>req_raw := dg_b d\<rparr>)" using q(1) by (simp add: wf_request_def)
  from checkReply_ok [OF this _ clock(3,4), of c] b obtain rep
    where "checkReply c (encode_reply (req\<lparr>req_raw := dg_b d\<rparr>) (dg_now d) (dg_seal_now d) (cl_key c)) nonce payload = Some (Some rep, '''')"
    by (auto simp: req_def)
  then show ?thesis using h c(2) by auto
qed

section \<open>A server and a client\<close>

definition demo_keys :: keys where
  "demo_keys = \<lparr>ky_sv = demo_server, ky_spki_pin = '''', ky_obfs4 = [], ky_tor_spki_pin = ''''\<rparr>"

definition demo_probe :: probe where
  "demo_probe = (case server_New config_Default (Inr demo_keys) of Inl _ \<Rightarrow> undefined | Inr pb \<Rightarrow> pb)"

lemma Default_valid: "config_ok config_Default"
  by (simp add: config_ok_def config_Default_def port_ok_def)

lemma Default_validated: "config_Validate config_Default = Inr config_Default"
  using config_Validate_cases [of config_Default] Default_valid by (simp add: config_Default_def)

lemma demo_probe_new: "server_New config_Default (Inr demo_keys) = Inr demo_probe"
  by (simp add: demo_probe_def server_New_def Let_def Default_validated)

lemma demo_probe_sel:
  "pb_cfg demo_probe = config_Default" "pb_keys demo_probe = demo_keys\<lparr>ky_sv := demo_server\<lparr>sv_zone := SetZone (cf_dns_zone config_Default)\<rparr>\<rparr>"
  "sessions (pb_store demo_probe) = []" "attemptRate (pb_store demo_probe) = (\<lambda>_. [])" "sessRate (pb_store demo_probe) = (\<lambda>_. [])"
  "sessPerMin (pb_store demo_probe) = 10" "attPer10Min (pb_store demo_probe) = 1200" "pb_enabled demo_probe = KnownTests"
  "obsCount (pb_store demo_probe) = 0" "obsMax (pb_store demo_probe) = 100000"
  by (simp_all add: demo_probe_def server_New_def Let_def Default_validated demo_keys_def newStore_def) (simp_all add: config_Default_def)

definition demo_hl :: http_lib where
  "demo_hl = \<lparr>hl_session = (\<lambda>_. Some \<lparr>sq_client_version = ''dev'', sq_client_nonce = hex_encode (replicate 32 0), sq_tests = [''udp.echo''], sq_capabilities = []\<rparr>),
     hl_attempt = (\<lambda>_. Some \<lparr>ar_test = ''udp.echo'', ar_transport = ''udp'', ar_dst_port = 443, ar_kind = '''', ar_variant = ''''\<rparr>),
     hl_clock = \<lparr>cf_rfc3339 = (\<lambda>_. ''''), cf_rfc3339nano = (\<lambda>_. ''''), cf_duration = (\<lambda>_. '''')\<rparr>, hl_version = ''dev''\<rparr>"

definition demo_post :: http_request where
  "demo_post = \<lparr>hr_method = ''POST'', hr_segs = [''v1'', ''session''], hr_auth = '''', hr_content_type = '''', hr_body = [], hr_remote = Some (Addr4 7, 4000)\<rparr>"

abbreviation demo_sid1 :: bytes where "demo_sid1 \<equiv> replicate 16 1"

abbreviation demo_session :: session where
  "demo_session \<equiv> session_of demo_probe demo_sid1 (Addr4 7) 5 [''udp.echo'']"

lemma demo_opened:
  "handleSession demo_hl demo_sid1 5 demo_post demo_probe =
     (demo_probe\<lparr>pb_store := putSession (fst (allowSession (pb_store demo_probe) (Addr4 7) 5)) demo_session\<rparr>,
      \<lparr>hp_code = 200, hp_body = JSession (session_response demo_hl demo_probe demo_session)\<rparr>)"
proof -
  have ip: "clientIP demo_post = Addr4 7" by (simp add: demo_post_def clientIP_def addrPortOf_def Unmap_def)
  have "snd (allowSession (pb_store demo_probe) (Addr4 7) 5)" by (simp add: allowSession_def Let_def demo_probe_sel)
  then obtain s where s: "allowSession (pb_store demo_probe) (Addr4 7) 5 = (s, True)" by (metis prod.collapse)
  have g: "granted KnownTests [''udp.echo''] = [''udp.echo'']" by (simp add: granted_def KnownTests_def)
  have r: "session_response demo_hl (demo_probe\<lparr>pb_store := s\<rparr>) x = session_response demo_hl demo_probe x" for x
    by (simp add: session_response_def)
  show ?thesis by (simp add: handleSession_def ip s Let_def demo_hl_def hex_decode_encode demo_probe_sel(8) g session_of_store) (simp add: r [unfolded demo_hl_def])
qed

text \<open>A client at that address, and its datagram with an envelope for the granted test.\<close>

definition demo_copts :: options where
  "demo_copts = with_defaults \<lparr>op_target = ''192.0.2.1'', op_control_port = 0, op_pin = '''', op_tests = [], op_profile = '''', op_repeat = 0, op_retry = 0,
     op_parallel = 0, op_timeout = 0, op_trigger_host = '''', op_sni_list = [], op_bulk_kb = 0, op_session_packets = 0, op_reality_sni = '''',
     op_burst_n = 0, op_adaptive = False, op_detect_bypass = False, op_local_addr = '''', op_sites = False, op_targets = []\<rparr>"

definition demo_new :: client where
  "demo_new = new_client demo_copts (Addr4 0xC0000201) False"

text \<open>The exchanges of its bootstrap: the parameters of a server without a pin and the session above.\<close>

definition demo_get :: "client \<Rightarrow> client \<times> (string + params)" where
  "demo_get c = (c, Inr zero_params)"

definition demo_answer :: "sessionRequest \<Rightarrow> client \<Rightarrow> client \<times> (string + sessionResponse)" where
  "demo_answer q c = (c, Inr (session_response demo_hl demo_probe demo_session))"

definition demo_booted :: client where
  "demo_booted = fst (Bootstrap demo_get demo_answer (\<lambda>_. None) ''dev'' (replicate 32 0) 0 0 demo_new)"

lemma demo_bootstrap: "Bootstrap demo_get demo_answer (\<lambda>_. None) ''dev'' (replicate 32 0) 0 0 demo_new = (demo_booted, None)"
proof -
  have "op_pin demo_copts = ''''" by (simp add: demo_copts_def with_defaults_def)
  then have "snd (Bootstrap demo_get demo_answer (\<lambda>_. None) ''dev'' (replicate 32 0) 0 0 demo_new) = None"
    by (simp add: Bootstrap_def demo_get_def demo_answer_def demo_new_def new_client_def zero_params_def Let_def open_session_def session_response_def
        session_of_def ParseSessionID_hex hex_decode_encode)
  then show ?thesis by (metis demo_booted_def prod.collapse)
qed

definition demo_echo :: dgram where
  "demo_echo = demo_dgram\<lparr>dg_b := (case client_envelope demo_booted (replicate 12 9) ''udp.echo'' 1 [1, 2, 3] True of Inl _ \<Rightarrow> [] | Inr b \<Rightarrow> b),
     dg_others := (\<lambda>_. [])\<rparr>"

lemma demo_envelope: "client_envelope demo_booted (replicate 12 9) ''udp.echo'' 1 [1, 2, 3] True = Inr (dg_b demo_echo)"
proof -
  obtain c1 where "open_session (session_response demo_hl demo_probe demo_session) c1 = (demo_booted, None)"
    using Bootstrap_session [OF demo_bootstrap] by (auto simp: demo_answer_def)
  then have "length (cl_cookie demo_booted) = 16" using open_session_ok [of demo_hl demo_probe demo_session c1] by (simp add: session_of_def Cookie_def)
  then show ?thesis by (simp add: demo_echo_def client_envelope_def encode_request_def Let_def)
qed

theorem session_carries_echo_witness:
  "\<exists>s' l' out rep. udp_handle (ky_sv (pb_keys demo_probe)) demo_echo
       (pb_store (fst (handleSession demo_hl demo_sid1 5 demo_post demo_probe)), newListener 443 False True) = Some (s', l', [out])
     \<and> checkReply demo_booted out (replicate 12 9) [1, 2, 3] = Some (Some rep, '''')"
proof -
  let ?pb = "fst (handleSession demo_hl demo_sid1 5 demo_post demo_probe)"
  have s: "sessions (fst (allowSession (pb_store demo_probe) (Addr4 7) 5)) = []" by (simp add: allow_reservations demo_probe_sel)
  have put: "map_of (sessions (pb_store ?pb)) demo_sid1 = Some demo_session" "map_of (sessions (pb_store ?pb)) demo_sid1 = Some (demo_session\<lparr>ses_obs := []\<rparr>)"
    by (simp_all add: demo_opened putSession_def session_of_def s Let_def update_conv')
  have r: "attemptRate (pb_store ?pb) = (\<lambda>_. [])" "attPer10Min (pb_store ?pb) = 1200"
    by (simp_all add: demo_opened putSession_def Let_def allowSession_def demo_probe_sel)
  then have rate: "snd (allowAttempt (pb_store ?pb) ip t)" for ip t by (simp add: allowAttempt_def Let_def)
  have d: "dg_ip demo_echo = Addr4 7" "dg_send demo_echo = None" "dg_now demo_echo = 5" "dg_key_now demo_echo = 6" "dg_seal_now demo_echo = 6"
      "store_run s (dg_others demo_echo i) = s" for s i
    by (simp_all add: demo_echo_def demo_dgram_def)
  have ttl: "li_session_ttl (cf_limits (pb_cfg demo_probe)) = 600" by (simp add: demo_probe_sel(1) config_Default_def)
  have op: "handleSession demo_hl demo_sid1 5 demo_post demo_probe = (?pb, \<lparr>hp_code = 200, hp_body = JSession (session_response demo_hl demo_probe demo_session)\<rparr>)"
    by (simp add: demo_opened)
  have ip: "Unmap (dg_ip demo_echo) = clientIP demo_post" by (simp add: d demo_post_def clientIP_def addrPortOf_def Unmap_def)
  have t: "''udp.echo'' \<in> set (sr_tests (session_response demo_hl demo_probe demo_session))" by (simp add: session_response_def session_of_def Let_def)
  show ?thesis
    by (rule session_carries_echo [OF op _ _ demo_bootstrap _ put demo_envelope t _ ip d(2) _ _, unfolded d(6), OF _ _ _ _ rate put(2)])
       (simp_all add: demo_answer_def d ttl in_int64_def)
qed

text \<open>The client fetches the observations of its session with its token.\<close>

definition demo_fetch :: http_request where
  "demo_fetch = \<lparr>hr_method = ''GET'', hr_segs = [''v1'', ''session'', hex_encode demo_sid1, ''observations''],
     hr_auth = ''Bearer '' @ Token (sv_master demo_server) demo_sid1 600000000005, hr_content_type = '''', hr_body = [], hr_remote = Some (Addr4 7, 4000)\<rparr>"

definition demo_running :: probe where
  "demo_running = fst (handleSession demo_hl demo_sid1 5 demo_post demo_probe)"

lemma demo_running_session: "map_of (sessions (pb_store demo_running)) demo_sid1 = Some demo_session" "pb_keys demo_running = pb_keys demo_probe"
proof -
  have s: "sessions (fst (allowSession (pb_store demo_probe) (Addr4 7) 5)) = []" by (simp add: allow_reservations demo_probe_sel)
  show "map_of (sessions (pb_store demo_running)) demo_sid1 = Some demo_session" "pb_keys demo_running = pb_keys demo_probe"
    by (simp_all add: demo_running_def demo_opened putSession_def session_of_def s Let_def update_conv')
qed

lemma demo_running_inv: "store_inv (pb_store demo_running)"
proof -
  have 0: "store_inv (pb_store demo_probe)"
    by (simp add: store_inv_def demo_probe_sel)
  have "pb_store demo_running = store_run (pb_store demo_probe) [(5, OpAllowSession (Addr4 7)),
      (5, OpPut demo_sid1 (ses_key demo_session) (ses_expires demo_session) 5 (Addr4 7) [''udp.echo''])]"
    by (simp add: demo_running_def demo_opened session_of_def)
  then show ?thesis using store_inv_run [OF 0] by (simp only:)
qed

theorem control_plane_isolation_witness:
  "\<exists>os. snd (control_serve demo_hl [] [] (\<lambda>_. 6) demo_fetch demo_running) = \<lparr>hp_code = 200, hp_body = JObservations os\<rparr>
     \<and> authorised demo_running (\<lambda>_. 6) demo_fetch (or_session os) demo_session \<and> or_session os = hex_encode demo_sid1"
proof -
  have "in_time_range 600000000005" by (simp add: in_time_range_def)
  then have v: "VerifyToken (sv_master demo_server) (Token (sv_master demo_server) demo_sid1 600000000005) 6 = (demo_sid1, 600000000000, None)"
    by (subst VerifyToken_def) (simp add: Token_def Let_def b64_decode_encode time_of_unix_unix_sec)
  have k: "sv_master (ky_sv (pb_keys demo_running)) = sv_master demo_server" "trim_prefix (hr_auth demo_fetch) ''Bearer '' = Token (sv_master demo_server) demo_sid1 600000000005"
    by (simp_all add: demo_running_session demo_probe_sel demo_fetch_def trim_prefix_def has_prefix_def)
  have l: "ses_expires demo_session = 600000000005" by (simp add: session_of_def demo_probe_sel(1) config_Default_def)
  have g: "getSession (pb_store demo_running) demo_sid1 6 = Some demo_session" using getSession_live [OF demo_running_session(1)] l by simp
  have "hex_encode demo_sid1 \<noteq> ''''" using length_hex_encode [of demo_sid1] by (metis length_replicate list.size(3) mult_eq_0_iff zero_neq_numeral)
  then have "route_of demo_fetch = RObservations (hex_encode demo_sid1)" by (simp add: route_of_def demo_fetch_def Let_def)
  then obtain os where c: "control_serve demo_hl [] [] (\<lambda>_. 6) demo_fetch demo_running = (demo_running, \<lparr>hp_code = 200, hp_body = JObservations os\<rparr>)"
    by (simp add: control_serve_def auth_def k v g handleObservations_def Let_def)
  obtain sess where a: "authorised demo_running (\<lambda>_. 6) demo_fetch (or_session os) sess" "hr_segs demo_fetch ! 2 = or_session os"
    using control_plane_isolation [OF c demo_running_inv] by (auto simp: control_effect_def)
  moreover have "sess = demo_session" using a(1) by (auto simp: authorised_def k v g)
  ultimately show ?thesis using c by (auto simp: demo_fetch_def)
qed

end
