(* ===== verification/Probe.thy ===== *)
theory Probe
  imports Control_Props
begin

text \<open>
  The whole server: control requests, datagrams on any of the UDP listeners, the collector's ticks, the QUIC
  endpoint's reads and the store operations of the TCP responders, interleaved in any order over one store.
\<close>

section \<open>Runs\<close>

definition udp_listeners :: "config \<Rightarrow> udpListener list" where
  "udp_listeners c = map (\<lambda>p. newListener p True False) (cf_dns_ports c) @ map (\<lambda>p. newListener p False (cf_quic c)) (cf_udp_ports c)"

text \<open>A single operation on the store by any goroutine of the server; a session is only stored as the
  control plane makes it.\<close>

fun by_server :: "probe \<Rightarrow> time \<times> store_op \<Rightarrow> bool" where
  "by_server pb (t, OpPut sid key expires created ip tests) =
     (key = SessionKey (sv_master (ky_sv (pb_keys pb))) sid \<and> expires = created + sec (li_session_ttl (cf_limits (pb_cfg pb)))
      \<and> set tests \<subseteq> set (pb_enabled pb))"
| "by_server pb _ = True"

text \<open>A control request is one step, or takes its operations one by one between those of others (\<open>operation\<close>),
  as the TCP responders do; a datagram's handler may have such operations between its own
  (\<open>others_of\<close>); the QUIC endpoint takes packets off the queue of its listener.\<close>

inductive probe_reach :: "http_lib \<Rightarrow> probe \<Rightarrow> probe \<Rightarrow> udpListener list \<Rightarrow> bool" for hl pb0 where
  start: "probe_reach hl pb0 pb0 (udp_listeners (pb_cfg pb0))"
| request: "probe_reach hl pb0 pb ls \<Longrightarrow> control_serve hl sid rnd clk r pb = (pb', resp) \<Longrightarrow> probe_reach hl pb0 pb' ls"
| datagram: "probe_reach hl pb0 pb ls \<Longrightarrow> i < length ls \<Longrightarrow> dgram_ok d \<Longrightarrow> \<forall>e\<in>others_of d. by_server pb e \<Longrightarrow>
    udp_handle (ky_sv (pb_keys pb)) d (pb_store pb, ls ! i) = Some (s', l', out) \<Longrightarrow> probe_reach hl pb0 (pb\<lparr>pb_store := s'\<rparr>) (ls[i := l'])"
| quic: "probe_reach hl pb0 pb ls \<Longrightarrow> i < length ls \<Longrightarrow> demux_ReadFrom n (ls ! i) = Some (b, a, l') \<Longrightarrow> probe_reach hl pb0 pb (ls[i := l'])"
| tick: "probe_reach hl pb0 pb ls \<Longrightarrow> probe_reach hl pb0 (gc_tick now day pb) ls"
| operation: "probe_reach hl pb0 pb ls \<Longrightarrow> by_server pb e \<Longrightarrow> probe_reach hl pb0 (pb\<lparr>pb_store := fst (store_step (pb_store pb) e)\<rparr>) ls"

section \<open>Sessions come from the control plane\<close>

definition session_wf :: "probe \<Rightarrow> session \<Rightarrow> bool" where
  "session_wf pb sess \<longleftrightarrow> ses_key sess = SessionKey (sv_master (ky_sv (pb_keys pb))) (ses_id sess)
     \<and> ses_expires sess = ses_created sess + sec (li_session_ttl (cf_limits (pb_cfg pb))) \<and> set (ses_tests sess) \<subseteq> set (pb_enabled pb)"

definition table_wf :: "probe \<Rightarrow> store \<Rightarrow> bool" where
  "table_wf pb s \<longleftrightarrow> (\<forall>sid sess. map_of (sessions s) sid = Some sess \<longrightarrow> session_wf pb sess)"

lemma session_wf_obs: "session_wf pb (sess\<lparr>ses_obs := x\<rparr>) = session_wf pb sess"
  by (simp add: session_wf_def)

text \<open>Every operation but the opening of a session keeps the sessions, up to their rows.\<close>

lemma no_put_sessions:
  assumes "no_put (snd e)" and "store_inv s" and "map_of (sessions (fst (store_step s e))) sid = Some x"
  shows "\<exists>y ob. map_of (sessions s) sid = Some y \<and> x = y\<lparr>ses_obs := ob\<rparr>"
proof -
  obtain now op where e: "e = (now, op)" by fastforce
  have id: ?thesis if "sessions (fst (store_step s e)) = sessions s"
    using assms(3) that by (intro exI [of _ x] exI [of _ "ses_obs x"]) simp
  show ?thesis
  proof (cases op)
    case (OpAddObs ob rnd)
    show ?thesis
    proof (cases rule: addObservationAt_cases [of s ob rnd now])
      case (refused d)
      then show ?thesis using e OpAddObs by (intro id) simp
    next
      case (kept k sess ob')
      then show ?thesis using assms(3) e OpAddObs
        by (cases "k = sid") (auto simp: update_conv' intro: exI [of _ "ses_obs x"])
    qed
  next
    case (OpGc day)
    have "distinct (map fst (sessions s))" using assms(2) by (simp add: store_inv_def)
    then show ?thesis using assms(3) e OpGc
      by (auto simp: gc_def gc_sessions_spec map_of_gc_keep split: option.splits if_splits)
  qed (use assms(1) e id in \<open>auto simp: reserve_def allowSession_def allowAttempt_def consumeBulk_def takeDrops_def Let_def findReservation_other split: prod.splits\<close>)
qed

lemma table_wf_put:
  assumes "table_wf pb s" and "set tests \<subseteq> set (pb_enabled pb)" and "store_inv s"
  shows "table_wf pb (putSession s (session_of pb sid ip now tests)) \<and> store_inv (putSession s (session_of pb sid ip now tests))"
proof
  show "table_wf pb (putSession s (session_of pb sid ip now tests))"
    using assms(1,2) by (auto simp: table_wf_def putSession_def session_of_def session_wf_def update_conv' Let_def split: option.splits if_splits)
  show "store_inv (putSession s (session_of pb sid ip now tests))"
    using store_inv_run [OF assms(3), of "[(0, OpPut sid (SessionKey (sv_master (ky_sv (pb_keys pb))) sid)
      (now + sec (li_session_ttl (cf_limits (pb_cfg pb)))) now ip tests)]"] by (simp add: session_of_def)
qed

lemma table_wf_step:
  assumes "by_server pb e" and "store_inv s" and "table_wf pb s"
  shows "table_wf pb (fst (store_step s e))"
proof (cases "no_put (snd e)")
  case True
  then show ?thesis using assms no_put_sessions [OF True assms(2)] unfolding table_wf_def by (metis session_wf_obs)
next
  case False
  then obtain t sid key ex cr ip tests where e: "e = (t, OpPut sid key ex cr ip tests)" by (cases e; cases "snd e") auto
  then show ?thesis using assms table_wf_put [OF assms(3) _ assms(2), of tests sid ip cr] by (simp add: session_of_def)
qed

lemma table_wf_evolves:
  assumes "evolves_by X s s'" and "\<forall>e\<in>X. by_server pb e" and "store_inv s" and "table_wf pb s"
  shows "table_wf pb s' \<and> store_inv s'"
proof -
  have np: "no_put (snd e) \<Longrightarrow> by_server pb e" for e by (cases e; cases "snd e") auto
  obtain ops where "s' = store_run s ops" "\<forall>e\<in>set ops. by_server pb e" using assms(1,2) np unfolding evolves_by_def by metis
  then show ?thesis using assms(3,4)
  proof (induction ops arbitrary: s)
    case (Cons e ops)
    have "store_inv (fst (store_step s e))" using store_inv_run [OF Cons.prems(3), of "[e]"] by simp
    then show ?case using Cons table_wf_step by simp
  qed simp
qed

text \<open>The configuration, keys and enabled tests never change.\<close>

definition same_server :: "probe \<Rightarrow> probe \<Rightarrow> bool" where
  "same_server pb pb' \<longleftrightarrow> pb_cfg pb' = pb_cfg pb \<and> pb_keys pb' = pb_keys pb \<and> pb_enabled pb' = pb_enabled pb"

lemma same_server_table: "same_server pb pb' \<Longrightarrow> table_wf pb' s = table_wf pb s"
  by (simp add: same_server_def table_wf_def session_wf_def)

lemma same_server_session_of: "same_server pb pb' \<Longrightarrow> session_of pb' = session_of pb"
  by (simp add: same_server_def session_of_def fun_eq_iff)

lemma same_server_by_server: "same_server pb pb' \<Longrightarrow> by_server pb' e = by_server pb e"
  by (cases e; cases "snd e") (simp_all add: same_server_def)

lemma evolves_obsMax: "evolves_by X s s' \<Longrightarrow> obsMax s' = obsMax s"
  by (auto simp: evolves_by_def obsMax_run)

definition probe_inv :: "probe \<Rightarrow> probe \<Rightarrow> udpListener list \<Rightarrow> bool" where
  "probe_inv pb0 pb ls \<longleftrightarrow> same_server pb0 pb \<and> store_inv (pb_store pb) \<and> table_wf pb0 (pb_store pb) \<and> list_all lst_inv ls
     \<and> obsMax (pb_store pb) = obsMax (pb_store pb0)"

lemma probe_inv_control:
  assumes "probe_inv pb0 pb ls" and "control_change pb pb'"
  shows "probe_inv pb0 pb' ls"
proof -
  note I = assms(1) [unfolded probe_inv_def]
  have same: "same_server pb0 pb'" using I assms(2) unfolding control_change_def same_server_def
    by (metis probe.select_convs(1,2,6) probe.update_convs(3) probe.surjective)
  from assms(2) consider "evolves (pb_store pb) (pb_store pb')"
    | s sid ip now tests where "evolves (pb_store pb) s" "set tests \<subseteq> set (pb_enabled pb)" "pb_store pb' = putSession s (session_of pb sid (Unmap ip) now tests)"
    unfolding control_change_def by blast
  then show ?thesis
  proof cases
    case 1
    then show ?thesis using I same table_wf_evolves [of "{}" "pb_store pb" "pb_store pb'" pb0] evolves_obsMax [OF 1] by (simp add: probe_inv_def)
  next
    case 2
    have "table_wf pb0 s \<and> store_inv s" using I table_wf_evolves [OF 2(1)] by blast
    moreover have "obsMax (pb_store pb') = obsMax (pb_store pb)" using evolves_obsMax [OF 2(1)] 2(3) by (simp add: putSession_def Let_def)
    ultimately show ?thesis using I same 2(2,3) table_wf_put [of pb0 s tests sid "Unmap ip" now] same_server_session_of [of pb0 pb]
      by (simp add: probe_inv_def same_server_def)
  qed
qed

lemma probe_reach_inv:
  assumes "probe_reach hl pb0 pb ls" and "store_inv (pb_store pb0)" and "sessions (pb_store pb0) = []"
  shows "probe_inv pb0 pb ls"
  using assms(1)
proof (induction rule: probe_reach.induct)
  case start
  show ?case using assms(2,3) lst_inv_new by (auto simp: probe_inv_def same_server_def table_wf_def udp_listeners_def list_all_iff)
next
  case (request pb ls sid rnd clk r pb' resp)
  then show ?case using probe_inv_control control_serve_change by blast
next
  case (datagram pb ls i d s' l' out)
  note I = datagram(6) [unfolded probe_inv_def]
  have "lst_inv (ls ! i)" using datagram(2) I by (simp add: list_all_length)
  then obtain t m o1 where "udp_handle (ky_sv (pb_keys pb)) d (pb_store pb, ls ! i) = Some (t, m, o1)" "lst_inv m" "evolves_by (others_of d) (pb_store pb) t"
    using udp_handle_ok [OF datagram(3)] by metis
  then have *: "lst_inv l'" "evolves_by (others_of d) (pb_store pb) s'" using datagram(5) by simp_all
  have "\<forall>e\<in>others_of d. by_server pb0 e" using datagram(4) I same_server_by_server [of pb0 pb] by simp
  then show ?case using I * table_wf_evolves [OF *(2), of pb0] evolves_obsMax [OF *(2)]
    by (auto simp: probe_inv_def same_server_def list_all_iff dest: set_update_subset_insert [THEN subsetD])
next
  case (quic pb ls i n b a l')
  have "lst_inv (ls ! i)" using quic(2,4) by (simp add: probe_inv_def list_all_length)
  then have "lst_inv l'" using lst_inv_quic quic(3) by blast
  then show ?case using quic(4) by (auto simp: probe_inv_def list_all_iff dest: set_update_subset_insert [THEN subsetD])
next
  case (tick pb ls now day)
  have "evolves (pb_store pb) (fst (takeDrops (gc (pb_store pb) now day)))"
    using evolves_trans [OF evolves_step [of "(now, OpGc day)"] evolves_step [of "(now, OpTakeDrops)"]] by simp
  then show ?case using tick(2) table_wf_evolves [of "{}"] evolves_obsMax by (auto simp: probe_inv_def gc_tick_def same_server_def)
next
  case (operation pb ls e)
  have ev: "evolves_by {e} (pb_store pb) (fst (store_step (pb_store pb) e))" using evolves_run [of "[e]" "{e}" "pb_store pb"] by simp
  have "\<forall>e'\<in>{e}. by_server pb0 e'" using operation(2,3) same_server_by_server [of pb0 pb] by (simp add: probe_inv_def)
  then show ?case using operation(3) table_wf_evolves [OF ev, of pb0] evolves_obsMax [OF ev] by (auto simp: probe_inv_def same_server_def)
qed

lemma server_New_store:
  assumes "server_New cfg loaded = Inr pb"
  shows "store_inv (pb_store pb)" "sessions (pb_store pb) = []" "obsMax (pb_store pb) = li_max_observations (cf_limits (pb_cfg pb))" "config_ok (pb_cfg pb)"
proof -
  obtain cf ky where c: "config_Validate cfg = Inr cf" "loaded = Inr ky" using assms by (auto simp: server_New_def split: sum.splits)
  have "pb_cfg pb = cf" using assms c by (auto simp: server_New_def Let_def)
  moreover have "config_ok cf" using config_Validate_cases [of cfg] c(1) by (cases "config_ok cfg") (auto simp: config_ok_def split: if_splits)
  ultimately show "config_ok (pb_cfg pb)" by simp
  show "store_inv (pb_store pb)" "sessions (pb_store pb) = []" "obsMax (pb_store pb) = li_max_observations (cf_limits (pb_cfg pb))"
    using assms c by (cases "li_bulk_mb_per_day (cf_limits cf) > 0"; auto simp: server_New_def Let_def newStore_def store_inv_def)+
qed

text \<open>C2. Whatever is sent to a server that started from a valid configuration, in whatever order requests,
  datagrams, collections, reads of the QUIC endpoint and operations of TCP flows interleave, and whatever
  operations other goroutines complete between those of one datagram's handler: the store keeps its
  invariants and never holds more rows than the configuration allows; every session in its table was
  opened by the control plane (its key is derived from the master key and its id, its tests are
  enabled ones) and lives at most ten minutes; and no datagram on any listener makes the server panic.
  That holds for datagrams whose key lookup is not before their arrival and with nothing between the
  envelope handler's two lookups of a session that takes it out of the table: no collection more than
  a minute after the key lookup, no session stored under an id that is already over. (The handler
  does not check the second lookup, so a goroutine that sleeps longer than that minute would panic.)\<close>

theorem probe_safe:
  assumes "server_New cfg loaded = Inr pb0" and "probe_reach hl pb0 pb ls"
  shows "store_inv (pb_store pb) \<and> int (rows_total (sessions (pb_store pb))) \<le> li_max_observations (cf_limits (pb_cfg pb0))
    \<and> (\<forall>sid sess. map_of (sessions (pb_store pb)) sid = Some sess \<longrightarrow> session_wf pb0 sess \<and> ses_expires sess \<le> ses_created sess + sec 600)
    \<and> (\<forall>i d. i < length ls \<and> dgram_ok d \<longrightarrow> udp_handle (ky_sv (pb_keys pb)) d (pb_store pb, ls ! i) \<noteq> None)"
proof -
  note N = server_New_store [OF assms(1)]
  have I: "probe_inv pb0 pb ls" by (rule probe_reach_inv [OF assms(2) N(1,2)])
  have cf: "0 < li_max_observations (cf_limits (pb_cfg pb0))" "li_session_ttl (cf_limits (pb_cfg pb0)) \<le> 600" using N(4) by (simp_all add: config_ok_def)
  have "int (rows_total (sessions (pb_store pb))) \<le> li_max_observations (cf_limits (pb_cfg pb0))"
    using I N(3) cf(1) unfolding probe_inv_def store_inv_def by linarith
  moreover have "session_wf pb0 sess \<and> ses_expires sess \<le> ses_created sess + sec 600" if "map_of (sessions (pb_store pb)) sid = Some sess" for sid sess
    using I cf(2) that by (auto simp: probe_inv_def table_wf_def session_wf_def)
  moreover have "udp_handle (ky_sv (pb_keys pb)) d (pb_store pb, ls ! i) \<noteq> None" if "i < length ls" "dgram_ok d" for i d
  proof -
    have "lst_inv (ls ! i)" using I that(1) by (simp add: probe_inv_def list_all_length)
    then show ?thesis using udp_handle_ok [OF that(2)] by (metis option.discI)
  qed
  ultimately show ?thesis using I by (auto simp: probe_inv_def)
qed

theorem probe_safe_witness:
  "server_New config_Default (Inr demo_keys) = Inr demo_probe
   \<and> (\<exists>s' l' out. udp_handle (ky_sv (pb_keys demo_probe)) demo_dgram (pb_store demo_probe, newListener 53 True False) = Some (s', l', out))"
proof -
  have l: "udp_listeners (pb_cfg demo_probe) ! 0 = newListener 53 True False" "0 < length (udp_listeners (pb_cfg demo_probe))"
    by (simp_all add: udp_listeners_def demo_probe_sel(1) config_Default_def)
  have "udp_handle (ky_sv (pb_keys demo_probe)) demo_dgram (pb_store demo_probe, udp_listeners (pb_cfg demo_probe) ! 0) \<noteq> None"
    using probe_safe [OF demo_probe_new probe_reach.start] l(2) demo_dgram_fields(4) by blast
  then show ?thesis using demo_probe_new l(1) by auto
qed

end
