(* ===== verification/Dest_Tests.thy ===== *)
theory Dest_Tests
  imports Plan_Props Doh Whatsapp Dest_Props
begin

text \<open>
  The attempts on real destinations (\<open>internal/client/tests_dest.go\<close>) and what they use of \<open>tests_tls.go\<close>:
  the two resolvers and their comparison, the check of an address that settles a disagreement, the cache
  of resolutions, and the layers dest.dns, dest.nxdomain, dest.tcp, dest.tls, dest.proto and dest.http.

  What the network does to one attempt is its environment: the answer of the system resolver, the HTTP
  client of the trusted resolvers (\<open>Doh\<close>), the outcome of a dial and of a handshake per address, the bytes a
  peer sends, the response of an HTTP request. The clock is read at the program points an attempt passes,
  each at most once; \<open>de_at\<close> gives the time there.
\<close>

section \<open>Errors of a handshake\<close>

text \<open>An error of crypto/tls or uTLS: beside what every error has, the code and text of an alert and the
  record header that was no record.\<close>

record tls_error = go_error +
  te_code :: nat
  te_alert_text :: string
  te_header :: bytes
  te_ualert :: bool
  te_uheader :: bool

definition remoteAlert :: "tls_error \<Rightarrow> nat option" where
  "remoteAlert e = (if err_alert e \<or> err_remote_alert e then Some (te_code e) else None)"

definition net_error :: "tls_error \<Rightarrow> go_error" where
  "net_error e = go_error.truncate e"

definition tlsOutcome :: "tls_error \<Rightarrow> string" where
  "tlsOutcome e =
     (if remoteAlert e \<noteq> None then OutcomeTLSAlert
      else if te_ualert e then OutcomeTLSAlert
      else if err_record_header e then OutcomeTLSSpoof
      else if te_uheader e then OutcomeTLSSpoof
      else classifyNetErr (net_error e) True)"

definition noteTLSFailure :: "tls_error \<Rightarrow> attempt \<Rightarrow> attempt" where
  "noteTLSFailure e a =
     (if err_record_header e then set_det ''response_prefix'' (hex_encode (te_header e)) a
      else if te_uheader e then set_det ''response_prefix'' (hex_encode (te_header e)) a
      else if remoteAlert e \<noteq> None then set_det ''alert'' (te_alert_text e) a
      else if te_ualert e then set_det ''alert'' (te_alert_text e) a
      else a)"

definition tlsVersionName :: "16 word \<Rightarrow> string" where
  "tlsVersionName v =
     (if v = 0x0303 then ''1.2'' else if v = 0x0304 then ''1.3'' else if v = 0x0302 then ''1.1'' else if v = 0x0301 then ''1.0''
      else ''0x'' @ hex_encode (be16 v))"

text \<open>\<open>errors.New\<close>, and \<open>fmt.Errorf\<close> with \<open>%w\<close>, which keeps what the wrapped error is.\<close>

definition new_error :: "string \<Rightarrow> go_error" where
  "new_error s = \<lparr>err_text = s, err_canceled = False, err_alert = False, err_remote_alert = False, err_record_header = False, err_host = None,
     err_errnos = [], err_eof = False, err_deadline = False, err_net_timeout = False\<rparr>"

definition wrap_error :: "string \<Rightarrow> string \<Rightarrow> go_error option \<Rightarrow> go_error" where
  "wrap_error before after err =
     (case err of Some e \<Rightarrow> e\<lparr>err_text := before @ err_text e @ after\<rparr> | None \<Rightarrow> new_error (before @ ''%!w(<nil>)'' @ after))"

section \<open>The environment of an attempt\<close>

datatype lookup_error = LNotFound | LTimeout string | LDNS string | LOther string bool

record dialing =
  dl_start :: time
  dl_done :: time
  dl_result :: "go_error + int option"

record peer_cert =
  pe_subject :: string
  pe_issuer :: string

record tls_state =
  ts_version :: "16 word"
  ts_cipher :: string
  ts_certs :: "peer_cert list"

text \<open>The exchange of a protocol on an open connection: the error of the write, the bytes that will come and the
  error after them, and whether the scan was stopped meanwhile.\<close>

record exchange =
  xc_write :: "go_error option"
  xc_bytes :: bytes
  xc_read :: go_error
  xc_stopped :: "go_error option"

record http_answer =
  ha_result :: "(go_error \<times> bool) + int \<times> string option"
  ha_connect_ms :: rat

record dest_env =
  de_client :: client
  de_hook :: bool
  de_udp6 :: bool
  de_lookup :: "string \<Rightarrow> lookup_error + addr list"
  de_doh :: doh_lib
  de_hc :: httpc
  de_ids :: "string \<Rightarrow> 16 word \<times> 16 word"
  de_at :: "string \<Rightarrow> time"
  de_dial :: "addr \<Rightarrow> dialing"
  de_tls :: "addr \<Rightarrow> string \<Rightarrow> tls_error + tls_state"
  de_verify :: "peer_cert list \<Rightarrow> string \<Rightarrow> string option"
  de_wire :: "addr \<Rightarrow> exchange"
  de_wa_text :: "wa_error \<Rightarrow> string"
  de_http :: "string \<Rightarrow> addr \<Rightarrow> string + http_answer"
  de_pick :: "nat option"
  de_nonce :: bytes

definition mark_at :: "dest_env \<Rightarrow> string \<Rightarrow> attempt \<Rightarrow> attempt" where
  "mark_at e stg a = mark stg (de_at e stg) a"

definition fail_at :: "dest_env \<Rightarrow> string \<Rightarrow> go_error option \<Rightarrow> attempt \<Rightarrow> attempt" where
  "fail_at e out err a = fail out err (de_at e ''done'') a"

definition ok_at :: "dest_env \<Rightarrow> attempt \<Rightarrow> attempt" where
  "ok_at e a = ok (de_at e ''done'') a"

abbreviation DestPort :: string where "DestPort \<equiv> ''443''"

section \<open>Resolvers\<close>

text \<open>\<open>net.ParseIP\<close> of the local address; a UDP socket towards a public IPv6 address exists exactly with a route.\<close>

definition ipv6Usable :: "dest_env \<Rightarrow> bool" where
  "ipv6Usable e =
     (let la = op_local_addr (cl_opt (de_client e))
      in if la \<noteq> ''''
         then (case ParseAddr la of None \<Rightarrow> False | Some ip \<Rightarrow> \<not> Is4 (Unmap ip) \<and> de_udp6 e)
         else de_udp6 e)"

definition destUsable :: "dest_env \<Rightarrow> addr \<Rightarrow> bool" where
  "destUsable e ip \<longleftrightarrow> Is4 (Unmap ip) \<or> ipv6Usable e"

definition systemLookup :: "dest_env \<Rightarrow> string \<Rightarrow> systemResult" where
  "systemLookup e h =
     (case de_lookup e h of
        Inl LNotFound \<Rightarrow> \<lparr>sy_ips = [], sy_rcode = ''NXDOMAIN'', sy_err = ''''\<rparr>
      | Inl (LTimeout s) \<Rightarrow> \<lparr>sy_ips = [], sy_rcode = ''TIMEOUT'', sy_err = s\<rparr>
      | Inl (LDNS s) \<Rightarrow> \<lparr>sy_ips = [], sy_rcode = ''ERROR'', sy_err = s\<rparr>
      | Inl (LOther s expired) \<Rightarrow> \<lparr>sy_ips = [], sy_rcode = (if expired then ''TIMEOUT'' else ''ERROR''), sy_err = s\<rparr>
      | Inr ips \<Rightarrow> \<lparr>sy_ips = Unique ips, sy_rcode = ''NOERROR'', sy_err = ''''\<rparr>)"

definition trusted_answers :: "dest_env \<Rightarrow> string \<Rightarrow> consensus" where
  "trusted_answers e name = TrustedConsensus (ResolveTrusted (de_doh e) (de_hc e) (de_ids e) name (destTimeout (de_client e)) (de_at e ''lookup''))"

section \<open>One address\<close>

text \<open>The dial of an address, and what it records on the attempt when there is one.\<close>

definition destConnectAttempt :: "dest_env \<Rightarrow> addr \<Rightarrow> attempt option \<Rightarrow> string \<times> go_error option \<times> attempt option" where
  "destConnectAttempt e ip a =
     (let d = de_dial e ip
      in case dl_result d of
           Inl err \<Rightarrow>
             (case dialError (Some err) (sub_time (dl_done d) (dl_start d)) False of
                None \<Rightarrow> (OutcomeOK, None, a)
              | Some err \<Rightarrow> (classifyNetErr err False, Some err, a))
         | Inr port \<Rightarrow>
             (OutcomeOK, None,
              map_option (\<lambda>a. let a = markSince ''connect'' (dl_start d) (dl_done d) a
                              in case port of None \<Rightarrow> a | Some p \<Rightarrow> a\<lparr>at_src_port := p\<rparr>) a))"

definition verifyChain :: "dest_env \<Rightarrow> peer_cert list \<Rightarrow> string \<Rightarrow> string" where
  "verifyChain e certs sni =
     (if certs = [] then ''no certificate''
      else case de_verify e certs (if sni \<noteq> '''' \<and> ParseAddr sni = None then sni else '''') of
             Some err \<Rightarrow> err
           | None \<Rightarrow> ''true'')"

definition destHandshakeOn :: "dest_env \<Rightarrow> addr \<Rightarrow> string \<Rightarrow> attempt option \<Rightarrow> string \<times> string \<times> go_error option \<times> attempt option" where
  "destHandshakeOn e ip sni a =
     (case de_tls e ip sni of
        Inl err \<Rightarrow>
          let a = map_option (\<lambda>a. (noteTLSFailure err a)\<lparr>at_error := err_text err\<rparr>) a
          in (case remoteAlert err of
                Some alert \<Rightarrow>
                  if alert = 50 \<or> alert = 47 then (OutcomeTLSParse, '''', Some (net_error err), a)
                  else (OutcomeTLSAlert, '''', Some (net_error err), a)
              | None \<Rightarrow> (tlsOutcome err, '''', Some (net_error err), a))
      | Inr st \<Rightarrow>
          let verdict = verifyChain e (ts_certs st) sni
          in (OutcomeOK, verdict, None,
              map_option (\<lambda>a. let a = set_det ''cipher'' (ts_cipher st) (set_det ''negotiated_version'' (tlsVersionName (ts_version st)) (mark_at e ''handshake'' a))
                              in case ts_certs st of
                                   [] \<Rightarrow> a
                                 | leaf # _ \<Rightarrow> set_det ''cert_verified'' verdict (set_det ''cert_issuer'' (pe_issuer leaf) (set_det ''cert_subject'' (pe_subject leaf) a))) a))"

definition destProtoOn :: "dest_env \<Rightarrow> addr \<Rightarrow> target \<Rightarrow> attempt option \<Rightarrow> string \<times> go_error option \<times> attempt option" where
  "destProtoOn e ip t a =
     (if tg_proto t \<noteq> ProtoWhatsApp
      then (OutcomeInconclusive, Some (new_error (''no handshake for protocol '' @ CHR 0x22 # tg_proto t @ [CHR 0x22])), a)
      else let x = de_wire e ip;
               failed = (\<lambda>err. (classifyNetErr (case xc_stopped x of Some s \<Rightarrow> s | None \<Rightarrow> err) True, Some err, a))
           in case xc_write x of
                Some err \<Rightarrow> failed err
              | None \<Rightarrow>
                  (case ReadWhatsAppHello (xc_bytes x) of
                     Inl WShortRead \<Rightarrow> failed (xc_read x)
                   | Inl w \<Rightarrow> (OutcomeUnexpected, Some (new_error (''the reply is not a WhatsApp server hello: '' @ de_wa_text e w)), a)
                   | Inr hello \<Rightarrow> (OutcomeOK, None, map_option (\<lambda>a. set_det ''server_hello'' (wa_hello_String hello) (mark_at e ''handshake'' a)) a)))"

text \<open>Whether an address serves the target's name.\<close>

definition destServes :: "dest_env \<Rightarrow> target \<Rightarrow> addr \<Rightarrow> serveResult" where
  "destServes e t ip =
     (let failed = (\<lambda>stg out. \<lparr>handshake = False, chain = '''', why = stg @ '':'' @ out, outcome = out\<rparr>);
          served = (\<lambda>ch w. \<lparr>handshake = True, chain = ch, why = w, outcome = ''''\<rparr>)
      in case destConnectAttempt e ip None of
           (out, _, _) \<Rightarrow>
             if out \<noteq> OutcomeOK then failed ''tcp'' out
             else if tg_proto t \<noteq> '''' then
               (case destProtoOn e ip t None of
                  (out, _, _) \<Rightarrow> if out \<noteq> OutcomeOK then failed (tg_proto t) out else served ''true'' (tg_proto t @ '':ok''))
             else if tg_skiptls t then served ''true'' ''tcp:ok''
             else (case destHandshakeOn e ip (ServerName t) None of
                     (out, ch, _, _) \<Rightarrow>
                       if out \<noteq> OutcomeOK then failed ''tls'' out
                       else if ch \<noteq> ''true'' then served ch (''cert:'' @ ch)
                       else served ch ''tls:ok''))"

section \<open>The DNS layer\<close>

record destResolution =
  dr_ips :: "addr list"
  dr_source :: string
  dr_at :: time

definition settle :: "dest_env \<Rightarrow> addr \<Rightarrow> serveResult \<Rightarrow> addr \<Rightarrow> serveResult \<Rightarrow> attempt \<Rightarrow> attempt" where
  "settle e sysIP sysRes trustedIP trRes a =
     (case judgeDisagreement sysRes trRes of
        disagreementGeoDNS \<Rightarrow>
          ok_at e (set_det ''note'' ''system and trusted resolvers disagree but the system address serves the name: CDN geo-DNS'' a)
      | disagreementPoisoned \<Rightarrow>
          let note = ''system address '' @ addr_string sysIP @ '' does not serve the name ('' @ why sysRes @ '') while trusted address ''
                     @ addr_string trustedIP @ '' does ('' @ why trRes @ ''): poisoning''
          in fail_at e OutcomeDNSMismatch (Some (new_error note)) (set_det ''note'' note (set_det ''tamper'' ''system_address_fails'' a))
      | disagreementUnverified \<Rightarrow>
          let note = ''the check did not finish (system address '' @ addr_string sysIP @ '': '' @ why sysRes @ ''; trusted address ''
                     @ addr_string trustedIP @ '': '' @ why trRes @ ''): the disagreement is not verified''
          in fail_at e OutcomeInconclusive (Some (new_error note)) (set_det ''note'' note a)
      | disagreementNeitherServes \<Rightarrow>
          ok_at e (set_det ''note'' (''neither the system nor the trusted address serves the name ('' @ why sysRes @ '' / '' @ why trRes @ ''): not a resolver signal'') a))"

text \<open>An address of the trusted one's family when the system answer has one.\<close>

definition like_with_like :: "addr \<Rightarrow> addr list \<Rightarrow> addr \<Rightarrow> addr" where
  "like_with_like s0 sysIPs trustedIP = (case List.find (\<lambda>ip. Is4 ip = Is4 trustedIP) sysIPs of Some ip \<Rightarrow> ip | None \<Rightarrow> s0)"

definition verifyDisagreement :: "dest_env \<Rightarrow> target \<Rightarrow> systemResult \<Rightarrow> addr list \<Rightarrow> attempt \<Rightarrow> attempt" where
  "verifyDisagreement e t sys trusted a =
     (let sysIPs = Usable (Prioritize (sy_ips sys)) (Some (destUsable e))
      in case (sysIPs, trusted) of
           (s0 # _, trustedIP # _) \<Rightarrow>
             let sysIP = like_with_like s0 sysIPs trustedIP;
                 sysRes = destServes e t sysIP;
                 trRes = destServes e t trustedIP;
                 a = set_det ''verify_trusted'' (why trRes) (set_det ''verify_system'' (why sysRes) (set_det ''verify_ip'' (addr_string sysIP) a))
             in settle e sysIP sysRes trustedIP trRes a
         | _ \<Rightarrow>
             let note = ''system and trusted answers share no address, but one side has none this host can connect to: not verified''
             in fail_at e OutcomeInconclusive (Some (new_error note)) (set_det ''note'' note a))"

text \<open>What the DNS layer records of the two answers, and how it ends.\<close>

definition dns_details :: "dest_env \<Rightarrow> string \<Rightarrow> systemResult \<Rightarrow> consensus \<Rightarrow> string \<Rightarrow> attempt \<Rightarrow> attempt" where
  "dns_details e name sys trusted source a =
     (let a = (if str_contains (sy_err sys) androidResolverBlocked then markLocal ''resolver_blocked'' a else a);
          a = set_det ''system_ips'' (dest_Strings (sy_ips sys)) (set_det ''system_rcode'' (sy_rcode sys) (set_det ''qname'' name (mark_at e ''first_byte'' a)));
          a = (if sy_err sys \<noteq> '''' then set_det ''system_error'' (sy_err sys) a else a);
          a = set_det ''probe_source'' source (set_det ''resolvers'' (co_note trusted)
                (set_det ''trusted_ips'' (dest_Strings (co_ips trusted)) (set_det ''trusted_rcode'' (co_rcode trusted) a)));
          note = cm_note (Compare sys trusted);
          a = (if note \<noteq> '''' then set_det ''note'' note a else a)
      in if co_ips trusted \<noteq> [] \<and> Usable (Prioritize (co_ips trusted)) (Some (destUsable e)) = [] \<and> source = ''system''
         then set_det ''probe_note'' ''no trusted address is usable from this host (no IPv6 route): the transport layers probe the system resolver's answers'' a
         else a)"

definition dns_outcome :: "dest_env \<Rightarrow> target \<Rightarrow> systemResult \<Rightarrow> consensus \<Rightarrow> attempt \<Rightarrow> attempt" where
  "dns_outcome e t sys trusted a =
     (let cmp = Compare sys trusted
      in if cm_tampered cmp then fail_at e OutcomeDNSMismatch (Some (new_error (cm_note cmp))) (set_det ''tamper'' (cm_reason cmp) a)
         else if (co_rcode trusted = ''ERROR'' \<or> co_rcode trusted = ''OTHER'') \<and> co_ips trusted = []
         then fail_at e OutcomeInconclusive (Some (new_error (''no usable trusted answer ('' @ co_rcode trusted @ '')''))) a
         else if sy_rcode sys = ''TIMEOUT''
         then fail_at e OutcomeDNSTimeout (Some (new_error ''system resolver timed out while the trusted resolvers answered'')) a
         else if sy_rcode sys = ''ERROR'' then fail_at e OutcomeInconclusive (Some (new_error (''system resolver error: '' @ sy_err sys))) a
         else if co_rcode trusted = ''NXDOMAIN'' \<and> sy_ips sys = []
         then fail_at e OutcomeDNSRcode (Some (new_error ''NXDOMAIN'')) (set_det ''rcode'' ''NXDOMAIN'' a)
         else if cm_disagree cmp then verifyDisagreement e t sys (Usable (Prioritize (co_ips trusted)) (Some (destUsable e))) a
         else ok_at e a)"

definition probe_addresses :: "dest_env \<Rightarrow> target \<Rightarrow> systemResult \<Rightarrow> consensus \<Rightarrow> addr list \<times> string" where
  "probe_addresses e t sys trusted =
     (let fixed = Prioritize (Fixed t)
      in case ProbeAddrs sys trusted (Some (destUsable e)) of
           (ips, source) \<Rightarrow>
             if fixed \<noteq> [] then (Prioritize (fixed @ ips), if source = ''none'' then ''fixed'' else source) else (ips, source))"

definition resolveTarget :: "dest_env \<Rightarrow> target \<Rightarrow> attempt option \<Rightarrow> destResolution \<times> attempt option" where
  "resolveTarget e t a =
     (if tg_skipdns t then (\<lparr>dr_ips = Prioritize (Fixed t), dr_source = ''fixed'', dr_at = de_at e ''resolved''\<rparr>, a)
      else let name = QueryName_of t;
               sys = systemLookup e name;
               trusted = trusted_answers e name;
               (ips, source) = probe_addresses e t sys trusted
           in (\<lparr>dr_ips = ips, dr_source = source, dr_at = de_at e ''resolved''\<rparr>,
               map_option (\<lambda>a. dns_outcome e t sys trusted (dns_details e name sys trusted source a)) a))"

section \<open>The cache of resolutions\<close>

text \<open>Two critical sections: the look that precedes a resolution, and the store, which returns the resolution in force.\<close>

type_synonym dest_cache = "string \<rightharpoonup> destResolution"

abbreviation destReresolveAfter :: duration where "destReresolveAfter \<equiv> sec 10"

definition destCached :: "time \<Rightarrow> string \<Rightarrow> dest_cache \<Rightarrow> destResolution option" where
  "destCached now domain cache =
     (case cache domain of
        Some r \<Rightarrow> if dr_ips r \<noteq> [] \<or> sub_time now (dr_at r) < destReresolveAfter then Some r else None
      | None \<Rightarrow> None)"

definition destStore :: "string \<Rightarrow> destResolution \<Rightarrow> dest_cache \<Rightarrow> destResolution \<times> dest_cache" where
  "destStore domain r cache =
     (case cache domain of
        Some prev \<Rightarrow> if dr_ips prev \<noteq> [] then (prev, cache) else (r, cache(domain \<mapsto> r))
      | None \<Rightarrow> (r, cache(domain \<mapsto> r)))"

text \<open>\<open>destResolve\<close>, with what the other layers store between the look and the store.\<close>

definition destResolve :: "dest_env \<Rightarrow> target \<Rightarrow> (dest_cache \<Rightarrow> dest_cache) \<Rightarrow> dest_cache \<Rightarrow> destResolution \<times> dest_cache" where
  "destResolve e t others cache =
     (case destCached (de_at e ''cached'') (tg_domain t) cache of
        Some r \<Rightarrow> (r, cache)
      | None \<Rightarrow> destStore (tg_domain t) (fst (resolveTarget e t None)) (others cache))"

section \<open>The attempts\<close>

definition destNote :: "dest_env \<Rightarrow> target \<Rightarrow> attempt \<Rightarrow> attempt" where
  "destNote e t a =
     (let a = set_det ''category'' (tg_category t) (set_det ''domain'' (tg_domain t) a);
          a = (if tg_label t \<noteq> '''' then set_det ''label'' (tg_label t) a else a)
      in case List.find (\<lambda>(i, x). tg_domain x = tg_domain t) (List.enumerate 0 (destTargets (de_client e))) of
           Some (i, _) \<Rightarrow> set_det ''order'' (itoa (int i)) a
         | None \<Rightarrow> a)"

definition destDNS :: "dest_env \<Rightarrow> target \<Rightarrow> attempt \<Rightarrow> (dest_cache \<Rightarrow> dest_cache) \<Rightarrow> dest_cache \<Rightarrow> attempt \<times> dest_cache" where
  "destDNS e t a others cache =
     (let a = mark_at e ''first_write'' (destNote e t a)
      in case resolveTarget e t (Some a) of
           (res, a') \<Rightarrow> (case a' of Some x \<Rightarrow> x | None \<Rightarrow> a, snd (destStore (tg_domain t) res (others cache))))"

definition destNXDomain :: "dest_env \<Rightarrow> attempt \<Rightarrow> attempt" where
  "destNXDomain e a =
     (let name = NXDomainName (de_nonce e);
          sysName = (if de_hook e then name else name @ ''.'');
          a = mark_at e ''first_write'' (set_det ''qname'' name a);
          sys = systemLookup e sysName;
          trusted = trusted_answers e name;
          a = set_det ''resolvers'' (co_note trusted) (set_det ''trusted_ips'' (dest_Strings (co_ips trusted))
                (set_det ''trusted_rcode'' (co_rcode trusted) (set_det ''system_ips'' (dest_Strings (sy_ips sys))
                (set_det ''system_rcode'' (sy_rcode sys) (mark_at e ''first_byte'' a)))))
      in if sy_ips sys \<noteq> []
         then fail_at e OutcomeDNSMismatch (Some (new_error (''the system resolver answered '' @ dest_Strings (sy_ips sys) @ '' for a .invalid name'')))
                (set_det ''hijack'' ''system'' a)
         else if co_ips trusted \<noteq> []
         then fail_at e OutcomeDNSMismatch (Some (new_error (''a trusted resolver answered '' @ dest_Strings (co_ips trusted)
                @ '' for a .invalid name: the DoH path itself is answered by something else''))) (set_det ''hijack'' ''trusted'' a)
         else if sy_rcode sys = ''TIMEOUT'' then fail_at e OutcomeDNSTimeout (Some (new_error ''system resolver timed out'')) a
         else if sy_rcode sys = ''ERROR'' then fail_at e OutcomeInconclusive (Some (new_error (''system resolver error: '' @ sy_err sys))) a
         else ok_at e a)"

definition the_attempt :: "attempt \<Rightarrow> attempt option \<Rightarrow> attempt" where
  "the_attempt a x = (case x of Some a' \<Rightarrow> a' | None \<Rightarrow> a)"

definition endpoint :: "string \<Rightarrow> string" where
  "endpoint ip = join_host_port ip DestPort"

text \<open>The addresses in turn until one connects: the first outcome that is the path's, and the last error that is the
  host's own.\<close>

fun connect_first :: "dest_env \<Rightarrow> addr list \<Rightarrow> string list \<Rightarrow> string \<times> go_error option \<Rightarrow> go_error option \<Rightarrow> attempt
    \<Rightarrow> (addr \<times> string list \<times> attempt) + (string list \<times> (string \<times> go_error option) \<times> go_error option \<times> attempt)" where
  "connect_first e [] tried path loc a = Inr (tried, path, loc, a)"
| "connect_first e (ip # ips) tried path loc a =
     (case destConnectAttempt e ip (Some a) of
        (out, err, a') \<Rightarrow>
          let a = the_attempt a a'; tried = tried @ [addr_string ip]
          in if out = OutcomeOK then Inl (ip, tried, a)
             else if localErrName err \<noteq> '''' then connect_first e ips tried path err a
             else if fst path = '''' then connect_first e ips tried (out, err) loc a
             else connect_first e ips tried path loc a)"

text \<open>Each layer with the resolution it works from, and with the cache it takes it from.\<close>

definition destTCP_on :: "dest_env \<Rightarrow> target \<Rightarrow> attempt \<Rightarrow> destResolution \<Rightarrow> attempt" where
  "destTCP_on e t a res =
     (let a = set_det ''probe_source'' (dr_source res) (destNote e t a)
      in case dr_ips res of
           [] \<Rightarrow> fail_at e OutcomeSkipped (Some (new_error ''no address to connect to'')) a
         | ip0 # _ \<Rightarrow>
             (case connect_first e (take 4 (dr_ips res)) [] ('''', None) None (mark_at e ''first_write'' a) of
                Inl (ip, tried, a) \<Rightarrow> ok_at e (set_det ''tried'' (join_with '','' tried) (set_det ''endpoint'' (endpoint (addr_string ip)) a))
              | Inr (tried, path, loc, a) \<Rightarrow>
                  let a = set_det ''tried'' (join_with '','' tried) (set_det ''endpoint'' (endpoint (addr_string ip0)) a)
                  in if fst path = ''''
                     then fail_at e OutcomeServerError (Some (wrap_error ''the host could not dial any address: '' '''' loc)) a
                     else fail_at e (fst path) (Some (wrap_error (fst path @ '' on every address tried ('') '')'' (snd path))) a))"

definition destTCP :: "dest_env \<Rightarrow> target \<Rightarrow> attempt \<Rightarrow> (dest_cache \<Rightarrow> dest_cache) \<Rightarrow> dest_cache \<Rightarrow> attempt \<times> dest_cache" where
  "destTCP e t a others cache = (case destResolve e t others cache of (res, cache) \<Rightarrow> (destTCP_on e t a res, cache))"

fun control_first :: "dest_env \<Rightarrow> string list \<Rightarrow> string list \<Rightarrow> string \<Rightarrow> attempt \<Rightarrow> ((string \<times> string list \<times> attempt) + (string list \<times> string \<times> attempt)) option" where
  "control_first e [] tried prev a = Some (Inr (tried, prev, a))"
| "control_first e (s # ss) tried prev a =
     do {
       ip \<leftarrow> ParseAddr s;
       (case destConnectAttempt e ip (Some a) of
          (out, _, a') \<Rightarrow>
            let a = the_attempt a a'; tried = tried @ [s]
            in if out = OutcomeOK then Some (Inl (s, tried, a)) else control_first e ss tried out a)
     }"

text \<open>\<open>None\<close> is the panic of \<open>netip.MustParseAddr\<close>.\<close>

definition destTCPControl :: "dest_env \<Rightarrow> attempt \<Rightarrow> attempt option" where
  "destTCPControl e a =
     map_option (\<lambda>r. case r of
         Inl (s, tried, a) \<Rightarrow> ok_at e (set_det ''tried'' (join_with '','' tried) (set_det ''endpoint'' (endpoint s) a))
       | Inr (tried, prev, a) \<Rightarrow> fail_at e prev (Some (new_error ''no anycast control address connects on :443'')) (set_det ''tried'' (join_with '','' tried) a))
       (control_first e ControlAddrs [] OutcomeSkipped (mark_at e ''first_write'' a))"

text \<open>The connection of a layer on the first address, and the failure when there is none.\<close>

definition connect_failed :: "dest_env \<Rightarrow> addr \<Rightarrow> string \<Rightarrow> go_error option \<Rightarrow> attempt \<Rightarrow> attempt" where
  "connect_failed e ip out er a =
     fail_at e out (Some (wrap_error (''tcp connect to '' @ addr_string ip @ '': '' @ out @ '' ('') '')'' er)) (set_det ''stage'' ''connect'' a)"

definition sni_for :: "dest_env \<Rightarrow> target \<Rightarrow> destTLSMode \<Rightarrow> string option" where
  "sni_for e t mode =
     (case mode of
        destSNIReal \<Rightarrow> Some (ServerName t)
      | destSNIDecoy \<Rightarrow> PickDecoy (de_pick e) [ServerName t, tg_domain t]
      | destSNIAbsent \<Rightarrow> Some '''')"

definition tls_on :: "dest_env \<Rightarrow> addr \<Rightarrow> string \<Rightarrow> attempt \<Rightarrow> attempt" where
  "tls_on e ip sni a =
     (case destConnectAttempt e ip (Some a) of
        (out, err, a') \<Rightarrow>
          if out \<noteq> OutcomeOK then connect_failed e ip out err (the_attempt a a')
          else let a = mark_at e ''first_write'' (the_attempt a a')
          in (case destHandshakeOn e ip sni (Some a) of
                (out, _, err, a') \<Rightarrow>
                  let a = the_attempt a a'
                  in if out = OutcomeOK \<or> out = OutcomeTLSAlert then ok_at e a
                     else markResetTiming (fail_at e out err a)))"

definition destTLS_on :: "dest_env \<Rightarrow> target \<Rightarrow> destTLSMode \<Rightarrow> attempt \<Rightarrow> destResolution \<Rightarrow> attempt option" where
  "destTLS_on e t mode a res =
     (case dr_ips res of
        [] \<Rightarrow> Some (fail_at e OutcomeSkipped (Some (new_error ''no address to connect to'')) (destNote e t a))
      | ip # _ \<Rightarrow>
          do {
            sni \<leftarrow> sni_for e t mode;
            Some (tls_on e ip sni (set_det ''sni'' sni (set_det ''ip'' (addr_string ip) (destNote e t a))))
          })"

definition destTLS :: "dest_env \<Rightarrow> target \<Rightarrow> destTLSMode \<Rightarrow> attempt \<Rightarrow> (dest_cache \<Rightarrow> dest_cache) \<Rightarrow> dest_cache \<Rightarrow> (attempt \<times> dest_cache) option" where
  "destTLS e t mode a others cache =
     (case destResolve e t others cache of (res, cache) \<Rightarrow> map_option (\<lambda>a. (a, cache)) (destTLS_on e t mode a res))"

definition proto_on :: "dest_env \<Rightarrow> addr \<Rightarrow> target \<Rightarrow> attempt \<Rightarrow> attempt" where
  "proto_on e ip t a =
     (case destConnectAttempt e ip (Some a) of
        (out, err, a') \<Rightarrow>
          if out \<noteq> OutcomeOK then connect_failed e ip out err (the_attempt a a')
          else let a = mark_at e ''first_write'' (the_attempt a a')
          in (case destProtoOn e ip t (Some a) of
                (out, err, a') \<Rightarrow>
                  let a = the_attempt a a'
                  in if out = OutcomeOK then ok_at e a else markResetTiming (fail_at e out err a)))"

definition destProto_on :: "dest_env \<Rightarrow> target \<Rightarrow> attempt \<Rightarrow> destResolution \<Rightarrow> attempt" where
  "destProto_on e t a res =
     (let a = set_det ''proto'' (tg_proto t) (destNote e t a)
      in case dr_ips res of
           [] \<Rightarrow> fail_at e OutcomeSkipped (Some (new_error ''no address to connect to'')) a
         | ip # _ \<Rightarrow> proto_on e ip t (set_det ''ip'' (addr_string ip) a))"

definition destProto :: "dest_env \<Rightarrow> target \<Rightarrow> attempt \<Rightarrow> (dest_cache \<Rightarrow> dest_cache) \<Rightarrow> dest_cache \<Rightarrow> attempt \<times> dest_cache" where
  "destProto e t a others cache = (case destResolve e t others cache of (res, cache) \<Rightarrow> (destProto_on e t a res, cache))"

definition http_on :: "dest_env \<Rightarrow> addr \<Rightarrow> target \<Rightarrow> attempt \<Rightarrow> attempt" where
  "http_on e ip t a =
     (case de_http e (tg_domain t) ip of
        Inl text \<Rightarrow> fail_at e OutcomeServerError (Some (new_error text)) a
      | Inr ha \<Rightarrow>
          let a = mark_at e ''first_write'' a;
              a = (if ha_connect_ms ha \<noteq> 0 \<and> stage a ''connect'' = 0 then a\<lparr>at_stages := (at_stages a)(''connect'' \<mapsto> ha_connect_ms ha)\<rparr> else a)
          in (case ha_result ha of
                Inl (er, cert) \<Rightarrow>
                  if cert then fail_at e OutcomeCertMismatch (Some er) (set_det ''cert_error'' (err_text er) a)
                  else fail_at e (classifyNetErr er True) (Some er) a
              | Inr (status, final) \<Rightarrow>
                  let a = set_det ''status'' (itoa status) (mark_at e ''first_byte'' a);
                      a = (case final of Some h \<Rightarrow> if h \<noteq> tg_domain t then set_det ''final_host'' h a else a | None \<Rightarrow> a)
                  in (case ClassifyHTTP status of
                        (legal, note) \<Rightarrow>
                          let a = set_det ''note'' note a
                          in if legal then fail_at e OutcomeHTTPLegalBlock (Some (new_error note)) a else ok_at e a)))"

definition destHTTPCheck_on :: "dest_env \<Rightarrow> target \<Rightarrow> attempt \<Rightarrow> destResolution \<Rightarrow> attempt" where
  "destHTTPCheck_on e t a res =
     (case dr_ips res of
        [] \<Rightarrow> fail_at e OutcomeSkipped (Some (new_error ''no address to connect to'')) (destNote e t a)
      | ip # _ \<Rightarrow> http_on e ip t (set_det ''ip'' (addr_string ip) (destNote e t a)))"

definition destHTTPCheck :: "dest_env \<Rightarrow> target \<Rightarrow> attempt \<Rightarrow> (dest_cache \<Rightarrow> dest_cache) \<Rightarrow> dest_cache \<Rightarrow> attempt \<times> dest_cache" where
  "destHTTPCheck e t a others cache = (case destResolve e t others cache of (res, cache) \<Rightarrow> (destHTTPCheck_on e t a res, cache))"

section \<open>What an attempt keeps\<close>

lemma fail_at_simps [simp]:
  "at_outcome (fail_at e out err a) = out" "at_test (fail_at e out err a) = at_test a"
  "k \<noteq> ''local_error'' \<Longrightarrow> det (fail_at e out err a) k = det a k"
  by (simp_all add: fail_at_def fail_def mark_def markLocal_def det_def set_det_def Let_def lookup_str_def split: option.splits)

lemma ok_at_simps [simp]: "at_outcome (ok_at e a) = OutcomeOK" "det (ok_at e a) k = det a k" "at_test (ok_at e a) = at_test a"
  by (simp_all add: ok_at_def ok_def mark_def det_def)

lemma mark_at_simps [simp]: "det (mark_at e stg a) k = det a k" "at_outcome (mark_at e stg a) = at_outcome a" "at_test (mark_at e stg a) = at_test a"
  by (simp_all add: mark_at_def mark_def det_def)

section \<open>Blame for DNS answers\<close>

text \<open>The addresses a check connects to: the first trusted one this host can use, and of the system's usable ones the
  first of the same family, or else the first. The check found a sinkhole: the address the system gave answered and
  refused the name, and the trusted address served it.\<close>

definition reachable_ips :: "dest_env \<Rightarrow> addr list \<Rightarrow> addr list" where
  "reachable_ips e ips = List.filter (destUsable e) (Prioritize ips)"

definition refuses :: "serveResult \<Rightarrow> bool" where
  "refuses r \<longleftrightarrow> \<not> unfinished r \<and> (handshake r \<longrightarrow> chain r \<noteq> ''true'')"

definition sinkhole :: "dest_env \<Rightarrow> target \<Rightarrow> systemResult \<Rightarrow> consensus \<Rightarrow> bool" where
  "sinkhole e t sys trusted \<longleftrightarrow>
     (case (reachable_ips e (sy_ips sys), reachable_ips e (co_ips trusted)) of
        (s0 # ss, tip # _) \<Rightarrow>
          let sip = like_with_like s0 (s0 # ss) tip
          in refuses (destServes e t sip) \<and> handshake (destServes e t tip)
             \<and> (handshake (destServes e t sip) \<longrightarrow> chain (destServes e t tip) = ''true'')
      | _ \<Rightarrow> False)"

lemma judge_poisoned:
  "judgeDisagreement s r = disagreementPoisoned \<longleftrightarrow>
     refuses s \<and> handshake r \<and> (handshake s \<longrightarrow> chain r = ''true'')"
  by (auto simp: judgeDisagreement_def refuses_def Let_def)

lemma outcome_names [simp]:
  "OutcomeDNSMismatch \<noteq> OutcomeOK" "OutcomeDNSMismatch \<noteq> OutcomeInconclusive" "OutcomeDNSMismatch \<noteq> OutcomeDNSTimeout" "OutcomeDNSMismatch \<noteq> OutcomeDNSRcode"
  "OutcomeOK \<noteq> OutcomeDNSMismatch" "OutcomeInconclusive \<noteq> OutcomeDNSMismatch" "OutcomeDNSTimeout \<noteq> OutcomeDNSMismatch" "OutcomeDNSRcode \<noteq> OutcomeDNSMismatch"
  by (simp_all add: OutcomeDNSMismatch_def OutcomeOK_def OutcomeInconclusive_def OutcomeDNSTimeout_def OutcomeDNSRcode_def)

lemma verify_cases:
  obtains (none) msg where "verifyDisagreement e t sys trusted a = fail_at e OutcomeInconclusive (Some (new_error msg)) (set_det ''note'' msg a)"
  | (checked) sip tip where "sip \<in> set (Usable (Prioritize (sy_ips sys)) (Some (destUsable e)))" "tip \<in> set trusted"
      "verifyDisagreement e t sys trusted a = settle e sip (destServes e t sip) tip (destServes e t tip)
         (set_det ''verify_trusted'' (why (destServes e t tip)) (set_det ''verify_system'' (why (destServes e t sip)) (set_det ''verify_ip'' (addr_string sip) a)))"
proof (cases "\<exists>s0 ss tip ts. Usable (Prioritize (sy_ips sys)) (Some (destUsable e)) = s0 # ss \<and> trusted = tip # ts")
  case True
  then obtain s0 ss tip ts where c: "Usable (Prioritize (sy_ips sys)) (Some (destUsable e)) = s0 # ss" "trusted = tip # ts" by blast
  have "like_with_like s0 (s0 # ss) tip \<in> set (s0 # ss)" by (auto simp: like_with_like_def find_Some_iff split: option.splits if_splits)
  then show ?thesis using checked [of "like_with_like s0 (s0 # ss) tip" tip] c by (simp add: verifyDisagreement_def Let_def)
next
  case False
  then show ?thesis using none unfolding verifyDisagreement_def Let_def
    by (cases "Usable (Prioritize (sy_ips sys)) (Some (destUsable e))"; cases trusted) simp_all
qed

lemma settle_blame: "at_outcome (settle e sip s tip r a) = OutcomeDNSMismatch \<longleftrightarrow> judgeDisagreement s r = disagreementPoisoned"
  by (cases "judgeDisagreement s r") (simp_all add: settle_def Let_def)

lemma verify_blame:
  "at_outcome (verifyDisagreement e t sys (Usable (Prioritize (co_ips trusted)) (Some (destUsable e))) a) = OutcomeDNSMismatch
     \<longleftrightarrow> sinkhole e t sys trusted"
  by (auto simp: verifyDisagreement_def sinkhole_def reachable_ips_def Usable_def Let_def settle_blame judge_poisoned split: list.splits)

lemma disagree_share_none:
  "cm_disagree (Compare sys trusted) \<Longrightarrow> \<not> cm_tampered (Compare sys trusted) \<and> sy_rcode sys \<noteq> ''TIMEOUT''
     \<and> sy_ips sys \<noteq> [] \<and> co_ips trusted \<noteq> [] \<and> \<not> dest_intersects (sy_ips sys) (co_ips trusted)"
  by (auto simp: Compare_def noted_def tampered_def Let_def split: if_splits)

lemma dns_outcome_blame:
  "at_outcome (dns_outcome e t sys trusted a) = OutcomeDNSMismatch \<longleftrightarrow>
     cm_tampered (Compare sys trusted)
     \<or> cm_disagree (Compare sys trusted) \<and> \<not> dest_intersects (sy_ips sys) (co_ips trusted)
       \<and> sy_rcode sys \<notin> {''TIMEOUT'', ''ERROR''} \<and> sinkhole e t sys trusted"
proof (cases "cm_disagree (Compare sys trusted)")
  case True
  then show ?thesis using disagree_share_none [OF True] verify_blame by (auto simp: dns_outcome_def Let_def)
qed (simp add: dns_outcome_def Let_def)

section \<open>Reading a stored check back\<close>

lemma str_cut_colon: "CHR '':'' \<notin> set s \<Longrightarrow> str_cut (CHR '':'') (s @ CHR '':'' # w) = (s, w, True)"
  by (induction s) auto

lemma serveResultFrom_eq:
  assumes "CHR '':'' \<notin> set s"
  shows "serveResultFrom (s @ CHR '':'' # w) =
    (if w = ''ok'' \<and> s \<noteq> ''cert'' then \<lparr>handshake = True, chain = ''true'', why = s @ CHR '':'' # w, outcome = ''''\<rparr>
     else if s = ''cert'' then \<lparr>handshake = True, chain = w, why = s @ CHR '':'' # w, outcome = ''''\<rparr>
     else \<lparr>handshake = False, chain = '''', why = s @ CHR '':'' # w, outcome = w\<rparr>)"
  by (simp add: serveResultFrom_def str_cut_colon [OF assms])

text \<open>The text a check leaves in the report says everything the judgement needs.\<close>

lemma serve_read_back:
  assumes "tg_proto t = '''' \<or> knownProto (tg_proto t)"
  shows "serveResultFrom (why (destServes e t ip)) = destServes e t ip"
proof -
  have p: "tg_proto t \<noteq> '''' \<Longrightarrow> tg_proto t = ''whatsapp''" using assms by (auto simp: knownProto_def Protos_def ProtoWhatsApp_def)
  obtain out er x where c: "destConnectAttempt e ip None = (out, er, x)" by (metis surj_pair)
  obtain out' er' x' where q: "destProtoOn e ip t None = (out', er', x')" by (metis surj_pair)
  obtain out'' ch er'' x'' where h: "destHandshakeOn e ip (ServerName t) None = (out'', ch, er'', x'')" by (metis surj_pair)
  note eqs = serveResultFrom_eq [of "''tcp''", simplified] serveResultFrom_eq [of "''tls''", simplified] serveResultFrom_eq [of "''cert''", simplified]
    serveResultFrom_eq [of "''whatsapp''", simplified]
  show ?thesis
  proof (cases "tg_proto t = ''''")
    case False
    show ?thesis by (simp add: destServes_def Let_def c q h eqs OutcomeOK_def p [OF False])
  qed (simp add: destServes_def Let_def c q h eqs OutcomeOK_def)
qed

lemma Compare_reason: "cm_reason (Compare sys trusted) \<noteq> ''system_address_fails''"
  by (auto simp: Compare_def Let_def noted_def tampered_def)

lemma dns_verdict_kept:
  assumes "tg_proto t = '''' \<or> knownProto (tg_proto t)"
  shows "reinterpret_dns (dns_outcome e t sys trusted a) = dns_outcome e t sys trusted a"
proof (cases "at_outcome (dns_outcome e t sys trusted a) = OutcomeDNSMismatch \<and> \<not> cm_tampered (Compare sys trusted)")
  case False
  show ?thesis
  proof (cases "cm_tampered (Compare sys trusted)")
    case True
    then have "det (dns_outcome e t sys trusted a) ''tamper'' = cm_reason (Compare sys trusted)" by (simp add: dns_outcome_def Let_def)
    then show ?thesis using Compare_reason [of sys trusted] by (simp add: reinterpret_dns_def)
  next
    case nt: False
    then have "at_outcome (dns_outcome e t sys trusted a) \<noteq> OutcomeDNSMismatch" using False by blast
    then show ?thesis by (simp add: reinterpret_dns_def)
  qed
next
  case True
  let ?tr = "Usable (Prioritize (co_ips trusted)) (Some (destUsable e))"
  have eq: "dns_outcome e t sys trusted a = verifyDisagreement e t sys ?tr a" using True by (auto simp: dns_outcome_def Let_def split: if_splits)
  show ?thesis
  proof (cases rule: verify_cases [of e t sys ?tr a])
    case (none msg)
    then show ?thesis using True eq by simp
  next
    case (checked sip tip)
    then have j: "judgeDisagreement (destServes e t sip) (destServes e t tip) = disagreementPoisoned" using True by (simp add: eq settle_blame)
    define r where "r = dns_outcome e t sys trusted a"
    have "det r ''verify_system'' = why (destServes e t sip)" "det r ''verify_trusted'' = why (destServes e t tip)"
      by (simp_all add: r_def eq checked(3) settle_def j Let_def)
    then show ?thesis unfolding r_def [symmetric] by (simp add: reinterpret_dns_def serve_read_back [OF assms] j Let_def)
  qed
qed

section \<open>One resolution per site\<close>

text \<open>The layers of all sites of a scan, each one attempt with its environment, in any order of their two critical
  sections: a layer takes the resolution it finds, or resolves and stores; dest.dns only stores. \<open>res i\<close> is the
  resolution that attempt \<open>i\<close> works from.\<close>

datatype dest_layer = LayerDNS | LayerTCP | LayerTLS destTLSMode | LayerProto | LayerHTTP

type_synonym dest_call = "dest_env \<times> target \<times> attempt \<times> dest_layer"

datatype scan_event = LookUp nat | Settle nat

fun scan_step :: "dest_call list \<Rightarrow> scan_event \<Rightarrow> dest_cache \<times> (nat \<rightharpoonup> destResolution) \<Rightarrow> dest_cache \<times> (nat \<rightharpoonup> destResolution)" where
  "scan_step calls (LookUp i) (cache, res) =
     (if i < length calls \<and> res i = None
      then case calls ! i of
             (e, t, _, ly) \<Rightarrow>
               if ly = LayerDNS then (cache, res)
               else (case destCached (de_at e ''cached'') (tg_domain t) cache of Some r \<Rightarrow> (cache, res(i \<mapsto> r)) | None \<Rightarrow> (cache, res))
      else (cache, res))"
| "scan_step calls (Settle i) (cache, res) =
     (if i < length calls \<and> res i = None
      then case calls ! i of (e, t, _) \<Rightarrow> (case destStore (tg_domain t) (fst (resolveTarget e t None)) cache of (r, c) \<Rightarrow> (c, res(i \<mapsto> r)))
      else (cache, res))"



text \<open>A call of \<open>destResolve\<close> is a look and, if it finds nothing, a store after what the others did meanwhile.\<close>

lemma destResolve_is_scan:
  assumes "i < length calls" and "calls ! i = (e, t, a, ly)" and "ly \<noteq> LayerDNS" and "res i = None" and "destResolve e t others cache = (r, cache')"
  shows "scan_step calls (LookUp i) (cache, res) = (cache', res(i \<mapsto> r))
    \<or> scan_step calls (LookUp i) (cache, res) = (cache, res) \<and> scan_step calls (Settle i) (others cache, res) = (cache', res(i \<mapsto> r))"
  using assms by (auto simp: destResolve_def split: option.splits prod.splits)




section \<open>Which address a layer probes\<close>


lemma det_markSince [simp]: "det (markSince stg t0 t1 a) k = det a k"
  by (simp add: markSince_def Let_def det_def)












section \<open>Whose failure a dial is\<close>

definition dial_out :: "dest_env \<Rightarrow> addr \<Rightarrow> string" where
  "dial_out e ip = fst (destConnectAttempt e ip None)"

definition dial_err :: "dest_env \<Rightarrow> addr \<Rightarrow> go_error option" where
  "dial_err e ip = fst (snd (destConnectAttempt e ip None))"

lemma dial_any: "\<exists>a'. destConnectAttempt e ip a = (dial_out e ip, dial_err e ip, a')"
  by (simp add: dial_out_def dial_err_def destConnectAttempt_def Let_def split: sum.splits option.splits)

lemma classify_path: "localErrName (Some er) = '''' \<Longrightarrow> classifyNetErr er w \<notin> {OutcomeServerError, OutcomeOK, ''''}"
  by (simp add: classifyNetErr_def outcomes)

lemma dial_path:
  assumes "dial_out e ip \<noteq> OutcomeOK" and "localErrName (dial_err e ip) = ''''"
  shows "dial_out e ip \<noteq> OutcomeServerError" "dial_out e ip \<noteq> ''''"
  using assms classify_path by (auto simp: dial_out_def dial_err_def destConnectAttempt_def Let_def split: sum.splits option.splits)

lemma find_hit: "List.find P xs = Some x \<Longrightarrow> x \<in> set xs \<and> P x"
  by (induction xs) (auto split: if_splits)

text \<open>The loop by its first success and its first failure of the path.\<close>

lemma connect_first_spec:
  "case List.find (\<lambda>ip. dial_out e ip = OutcomeOK) ips of
      Some ip \<Rightarrow> \<exists>tr a'. connect_first e ips tried path loc a = Inl (ip, tr, a')
    | None \<Rightarrow> \<exists>tr l a'. connect_first e ips tried path loc a = Inr (tr,
        (if fst path \<noteq> '''' then path else case List.find (\<lambda>ip. localErrName (dial_err e ip) = '''') ips of
            Some ip \<Rightarrow> (dial_out e ip, dial_err e ip) | None \<Rightarrow> path), l, a')"
proof (induction ips arbitrary: tried path loc a)
  case (Cons ip ips)
  obtain a' where d: "destConnectAttempt e ip (Some a) = (dial_out e ip, dial_err e ip, a')" using dial_any by blast
  have q: "dial_out e ip \<noteq> OutcomeOK \<Longrightarrow> localErrName (dial_err e ip) = '''' \<Longrightarrow> dial_out e ip \<noteq> ''''" using dial_path(2) by blast
  show ?case
  proof (cases "dial_out e ip = OutcomeOK")
    case False
    show ?thesis
    proof (cases "localErrName (dial_err e ip) = '''' \<and> fst path = ''''")
      case True
      then show ?thesis using Cons [of "tried @ [addr_string ip]" "(dial_out e ip, dial_err e ip)" loc "the_attempt a a'"] False d q
        by (simp add: Let_def split: option.splits)
    next
      case keep: False
      define loc' where "loc' = (if localErrName (dial_err e ip) = '''' then loc else dial_err e ip)"
      have "connect_first e (ip # ips) tried path loc a = connect_first e ips (tried @ [addr_string ip]) path loc' (the_attempt a a')"
        using False keep d by (auto simp: Let_def loc'_def)
      then show ?thesis using Cons [of "tried @ [addr_string ip]" path loc' "the_attempt a a'"] False keep by (auto split: option.splits)
    qed
  qed (use d in \<open>simp add: Let_def\<close>)
qed simp

section \<open>What a verdict on a destination rests on\<close>

text \<open>C30. The client blames the resolver exactly on evidence. A dest.dns attempt on a site that is looked up ends as
  a forged answer if and only if the comparison with the trusted resolvers shows it (an address where there is none, a
  sinkhole address, a denial), or the comparison finds that the answers share no address, the system resolver neither
  timed out nor failed, and the check of one address of each side settled it: the address the system gave refused the
  name (no handshake, or a certificate that does not verify) while the trusted address served it. A check of the
  system's address that ran out of time or failed on this host settles nothing. And the verdict survives: reading the
  stored attempt again judges it the same way.\<close>

theorem dest_dns_blame:
  assumes "destDNS e t a others cache = (a', cache')" and "\<not> tg_skipdns t" and "tg_proto t = '''' \<or> knownProto (tg_proto t)"
    and "sys = systemLookup e (QueryName_of t)" and "trusted = trusted_answers e (QueryName_of t)"
  shows "(at_outcome a' = OutcomeDNSMismatch \<longleftrightarrow>
      cm_tampered (Compare sys trusted)
      \<or> cm_disagree (Compare sys trusted) \<and> \<not> dest_intersects (sy_ips sys) (co_ips trusted)
        \<and> sy_rcode sys \<notin> {''TIMEOUT'', ''ERROR''} \<and> sinkhole e t sys trusted)
    \<and> reinterpret_dns a' = a'"
proof -
  obtain x where "a' = dns_outcome e t sys trusted x"
    using assms(1,2) unfolding assms(4,5) by (auto simp: destDNS_def resolveTarget_def Let_def split: prod.splits)
  then show ?thesis using dns_outcome_blame [of e t sys trusted x] dns_verdict_kept [OF assms(3)] by auto
qed


text \<open>C32. A dest.tcp attempt blames the path only for what the path did. With the first four addresses of the
  resolution: it passes if one of them connects, and names that one; else it fails with the outcome of the first
  address that did not fail on this host, which is never the host's own outcome; and if all of them failed on the
  host, it fails as the host's error and not as the site's.\<close>

theorem dest_tcp_outcome:
  assumes "destResolve e t others cache = (res, cache1)" and "dr_ips res \<noteq> []" and "destTCP e t a others cache = (a', cache')"
  shows "case List.find (\<lambda>ip. dial_out e ip = OutcomeOK) (take 4 (dr_ips res)) of
      Some ip \<Rightarrow> at_outcome a' = OutcomeOK \<and> det a' ''endpoint'' = endpoint (addr_string ip)
    | None \<Rightarrow> (case List.find (\<lambda>ip. localErrName (dial_err e ip) = '''') (take 4 (dr_ips res)) of
          Some ip \<Rightarrow> at_outcome a' = dial_out e ip \<and> at_outcome a' \<noteq> OutcomeServerError
        | None \<Rightarrow> at_outcome a' = OutcomeServerError)"
proof -
  let ?ips = "take 4 (dr_ips res)" and ?a = "mark_at e ''first_write'' (set_det ''probe_source'' (dr_source res) (destNote e t a))"
  note S = connect_first_spec [of e ?ips "[]" "('''', None)" None ?a]
  obtain ip0 rest where ips: "dr_ips res = ip0 # rest" using assms(2) by (cases "dr_ips res") auto
  show ?thesis
  proof (cases "List.find (\<lambda>ip. dial_out e ip = OutcomeOK) ?ips")
    case (Some ip)
    then obtain tr b where "connect_first e ?ips [] ('''', None) None ?a = Inl (ip, tr, b)" using S by auto
    then show ?thesis using assms(1,3) ips Some by (auto simp: destTCP_def destTCP_on_def Let_def)
  next
    case None
    then have bad: "\<forall>ip\<in>set ?ips. dial_out e ip \<noteq> OutcomeOK" by (auto simp: find_None_iff)
    show ?thesis
    proof (cases "List.find (\<lambda>ip. localErrName (dial_err e ip) = '''') ?ips")
      case (Some ip)
      then have ip: "ip \<in> set ?ips" "localErrName (dial_err e ip) = ''''" using find_hit [OF Some] by simp_all
      then have "dial_out e ip \<noteq> OutcomeServerError" "dial_out e ip \<noteq> ''''" using dial_path [of e ip] bad by blast+
      moreover obtain tr l b where "connect_first e ?ips [] ('''', None) None ?a = Inr (tr, (dial_out e ip, dial_err e ip), l, b)" using S None Some by auto
      ultimately show ?thesis using assms(1,3) ips None Some by (auto simp: destTCP_def destTCP_on_def Let_def)
    next
      case all_local: None
      then obtain tr l b where "connect_first e ?ips [] ('''', None) None ?a = Inr (tr, ('''', None), l, b)" using S None by auto
      then show ?thesis using assms(1,3) ips None all_local by (auto simp: destTCP_def destTCP_on_def Let_def)
    qed
  qed
qed

text \<open>A network for concrete attempts: one address the host cannot dial, one that resets, and no resolver.\<close>

definition dest_demo :: dest_env where
  "dest_demo = \<lparr>de_client = demo_client, de_hook = False, de_udp6 = False, de_lookup = (\<lambda>_. Inl LNotFound), de_doh = demo_doh, de_hc = demo_http,
     de_ids = (\<lambda>_. (1, 2)), de_at = (\<lambda>_. 0),
     de_dial = (\<lambda>ip. \<lparr>dl_start = 0, dl_done = sec 1, dl_result = Inl ((new_error ''dial'')\<lparr>err_errnos := [if ip = Addr4 1 then ENETDOWN else ECONNRESET]\<rparr>)\<rparr>),
     de_tls = (\<lambda>_ _. Inr \<lparr>ts_version = 0x0304, ts_cipher = '''', ts_certs = []\<rparr>), de_verify = (\<lambda>_ _. None),
     de_wire = (\<lambda>_. \<lparr>xc_write = None, xc_bytes = [], xc_read = new_error ''EOF'', xc_stopped = None\<rparr>), de_wa_text = (\<lambda>_. ''''),
     de_http = (\<lambda>_ _. Inl ''''), de_pick = None, de_nonce = []\<rparr>"

text \<open>A poisoned network: the trusted resolvers give 8.8.8.8, which serves the name, the system resolver 1.1.1.1, which
  resets every connection.\<close>

definition poison_demo :: dest_env where
  "poison_demo = dest_demo\<lparr>de_lookup := (\<lambda>_. Inr [Addr4 0x01010101]),
     de_hc := demo_http\<lparr>hc_do := (\<lambda>_ now _. (Inr \<lparr>hr_status = 200, hr_body = Inr [2]\<rparr>, now))\<rparr>,
     de_dial := (\<lambda>ip. if ip = Addr4 0x08080808 then \<lparr>dl_start = 0, dl_done = 1, dl_result = Inr None\<rparr> else de_dial dest_demo ip),
     de_tls := (\<lambda>_ _. Inr \<lparr>ts_version = 0x0304, ts_cipher = '''', ts_certs = [\<lparr>pe_subject = ''a.example'', pe_issuer = ''ca''\<rparr>]\<rparr>)\<rparr>"

lemma Unique_same: "0 < n \<Longrightarrow> Unique (replicate n (Addr4 w)) = [Addr4 w]"
proof -
  have "unique_from (replicate n (Addr4 w)) [Addr4 w] = [Addr4 w]" for n by (induction n) (simp_all add: Let_def Unmap_def)
  then show "0 < n \<Longrightarrow> ?thesis" by (cases n) (simp_all add: Unique_def Let_def Unmap_def)
qed

lemma poison_demo_trusted:
  "co_ips (trusted_answers poison_demo name) = [Addr4 0x08080808]" "co_rcode (trusted_answers poison_demo name) = ''NOERROR''"
proof -
  have q: "queryWire (de_doh poison_demo) (de_hc poison_demo) i ep n ty now dl
      = (Inr \<lparr>wr_rcode = ''NOERROR'', wr_ips = [Addr4 0x08080808]\<rparr>, now)" for i ep n ty now dl
    by (simp add: poison_demo_def dest_demo_def queryWire_def buildQuery_def doWire_def limit_body_def parseAnswer_def demo_doh_def demo_http_def
        answer_header_def rcodeName_def Let_def)
  have p: "wirePair (de_doh poison_demo) (de_hc poison_demo) i ep n sh now dl
      = (Inr (\<lparr>wr_rcode = ''NOERROR'', wr_ips = [Addr4 0x08080808]\<rparr>, \<lparr>wr_rcode = ''NOERROR'', wr_ips = [Addr4 0x08080808]\<rparr>), now)" for i ep n sh now dl
    by (simp add: wirePair_def q Let_def)
  have a: "da_rcode (QueryDoH (de_doh poison_demo) (de_hc poison_demo) ids r n tmo now) = ''NOERROR''
      \<and> da_ips (QueryDoH (de_doh poison_demo) (de_hc poison_demo) ids r n tmo now) = [Addr4 0x08080808]" if "rv_urls r \<noteq> []" for ids r n tmo now
    using that Unique_same [of 2 "0x08080808"]
    by (cases "rv_urls r") (simp_all add: QueryDoH_def share_def p doh_answered_def combine_def Let_def numeral_2_eq_2)
  have u: "\<forall>r\<in>set TrustedResolvers. rv_urls r \<noteq> []" by (simp add: TrustedResolvers_def)
  define as where "as = ResolveTrusted (de_doh poison_demo) (de_hc poison_demo) (de_ids poison_demo) name (destTimeout (de_client poison_demo)) (de_at poison_demo ''lookup'')"
  have ok: "\<forall>x\<in>set as. da_rcode x = ''NOERROR'' \<and> da_ips x = [Addr4 0x08080808]" using a u by (simp add: as_def ResolveTrusted_def)
  have n: "as \<noteq> []" by (simp add: as_def ResolveTrusted_def TrustedResolvers_def)
  have f: "filter (\<lambda>a. da_rcode a \<noteq> ''ERROR'') as = as" "filter (\<lambda>a. da_rcode a = ''NXDOMAIN'' \<and> da_ips a = []) as = []"
    using ok by (auto simp: filter_id_conv filter_empty_conv)
  have "concat (map da_ips as) = replicate (length as) (Addr4 0x08080808)" using ok by (induction as) auto
  then have "Unique (concat (map da_ips as)) = [Addr4 0x08080808]" using n by (simp add: Unique_same)
  then show "co_ips (trusted_answers poison_demo name) = [Addr4 0x08080808]" "co_rcode (trusted_answers poison_demo name) = ''NOERROR''"
    using n f by (simp_all add: trusted_answers_def as_def [symmetric] TrustedConsensus_def Let_def)
qed

lemma poison_demo_public: "\<not> IsBogon (Addr4 0x01010101)"
proof -
  have "length [1, 1, 1, 1 :: byte] = 4" "be_nat [1, 1, 1, 1] = unat (0x01010101 :: 32 word)" by (simp_all add: be_nat_def)
  then have "be32 0x01010101 = [1, 1, 1, 1]" using be_bytes_be_nat [of "[1, 1, 1, 1]"] by (simp only: be32_def)
  then show ?thesis
    by (simp add: IsBogon_def demo_unmapped IsGlobalUnicast_def IsPrivate_def oct_def IsMulticast_def IsLoopback_def IsLinkLocalUnicast_def)
qed

lemma poison_demo_serves:
  "destServes poison_demo (site ''a.example'' CategoryCustom '''') (Addr4 0x08080808) = \<lparr>handshake = True, chain = ''true'', why = ''tls:ok'', outcome = ''''\<rparr>"
  "destServes poison_demo (site ''a.example'' CategoryCustom '''') (Addr4 0x01010101)
     = \<lparr>handshake = False, chain = '''', why = ''tcp:'' @ OutcomeConnectReset, outcome = OutcomeConnectReset\<rparr>"
  by (simp_all add: destServes_def poison_demo_def dest_demo_def destConnectAttempt_def destHandshakeOn_def verifyChain_def site_def
      dialError_def new_error_def classifyNetErr_def localErrName_def err_is_def localErrnos_def sub_time_def outcomes Let_def)

theorem dest_dns_blame_witness:
  "\<exists>a' cache'. destDNS poison_demo (site ''a.example'' CategoryCustom '''') zero_attempt (\<lambda>c. c) Map.empty = (a', cache')
     \<and> \<not> cm_tampered (Compare (systemLookup poison_demo (QueryName_of (site ''a.example'' CategoryCustom '''')))
           (trusted_answers poison_demo (QueryName_of (site ''a.example'' CategoryCustom ''''))))
     \<and> at_outcome a' = OutcomeDNSMismatch \<and> reinterpret_dns a' = a'"
proof -
  let ?t = "site ''a.example'' CategoryCustom ''''"
  define sys trusted where "sys = systemLookup poison_demo (QueryName_of ?t)" and "trusted = trusted_answers poison_demo (QueryName_of ?t)"
  obtain a' c' where r: "destDNS poison_demo ?t zero_attempt (\<lambda>c. c) Map.empty = (a', c')" by fastforce
  have s: "sy_ips sys = [Addr4 0x01010101]" "sy_rcode sys = ''NOERROR''"
    by (simp_all add: sys_def systemLookup_def poison_demo_def Unique_same [of 1, simplified])
  have t: "co_ips trusted = [Addr4 0x08080808]" "co_rcode trusted = ''NOERROR''" by (simp_all add: trusted_def poison_demo_trusted)
  have c: "cm_disagree (Compare sys trusted)"
    by (simp add: Compare_def s t noted_def Let_def sharesFamily_def dest_intersects_def families_def demo_public poison_demo_public demo_unmapped)
  have h: "sinkhole poison_demo ?t sys trusted"
    by (simp add: sinkhole_def s t reachable_ips_def Prioritize_def Unique_same [of 1, simplified] destUsable_def like_with_like_def
        poison_demo_serves refuses_def unfinished_def outcomes demo_public poison_demo_public demo_unmapped Let_def)
  show ?thesis using r dest_dns_blame [OF r _ _ sys_def trusted_def] c h s disagree_share_none [OF c]
    by (simp add: site_def sys_def trusted_def)
qed


theorem dest_tcp_outcome_witness:
  "\<exists>a' cache'. destTCP dest_demo (site ''a.example'' CategoryCustom '''') zero_attempt (\<lambda>c. c)
      [''a.example'' \<mapsto> \<lparr>dr_ips = [Addr4 1, Addr4 2], dr_source = ''trusted'', dr_at = 0\<rparr>] = (a', cache') \<and> at_outcome a' = OutcomeConnectReset"
proof -
  let ?t = "site ''a.example'' CategoryCustom ''''" and ?r = "\<lparr>dr_ips = [Addr4 1, Addr4 2], dr_source = ''trusted'', dr_at = 0\<rparr>"
  let ?c = "[''a.example'' \<mapsto> ?r]"
  obtain a' c' where r: "destTCP dest_demo ?t zero_attempt (\<lambda>c. c) ?c = (a', c')" by fastforce
  have res: "destResolve dest_demo ?t (\<lambda>c. c) ?c = (?r, ?c)" by (simp add: destResolve_def destCached_def site_def)
  have d: "dial_out dest_demo (Addr4 1) = OutcomeServerError" "localErrName (dial_err dest_demo (Addr4 1)) = ''enetdown''"
    "dial_out dest_demo (Addr4 2) = OutcomeConnectReset" "localErrName (dial_err dest_demo (Addr4 2)) = ''''"
    by (simp_all add: dial_out_def dial_err_def destConnectAttempt_def dest_demo_def dialError_def new_error_def classifyNetErr_def localErrName_def err_is_def localErrnos_def sub_time_def Let_def)
  show ?thesis using r dest_tcp_outcome [OF res _ r] by (simp add: d outcomes)
qed

end
