(* ===== verification/Http_Echo.thy ===== *)
theory Http_Echo
  imports Dnsx Sha256
begin

text \<open>
  The text both ends of the HTTP tests agree on (\<open>internal/httpecho\<close>): the request paths of the echo and
  of the bulk transfers, the echo's response body and the keystream a download is made of. Request
  paths reach the parsers percent-decoded, so they may hold any byte. \<open>encoding/json\<close> writes a map with its
  keys in order; its string escapes are modelled byte by byte, which is what it does on valid UTF-8
  without the two line separators U+2028 and U+2029.
\<close>

section \<open>Paths\<close>

definition Path :: "string \<Rightarrow> string \<Rightarrow> string \<Rightarrow> string" where
  "Path sid test nonce = ''/v1/echo/'' @ sid @ ''/'' @ test @ ''/'' @ nonce"

definition ParsePath :: "string \<Rightarrow> (string \<times> string \<times> string) option" where
  "ParsePath p =
     (case split_on (CHR ''/'') (trim_char (CHR ''/'') p) of
        [a, b, sid, test, nonce] \<Rightarrow>
          if a \<noteq> ''v1'' \<or> b \<noteq> ''echo'' then None
          else if hex_decode sid = None \<or> length sid \<noteq> 32 then None
          else if hex_decode nonce = None then None
          else Some (sid, test, nonce)
      | _ \<Rightarrow> None)"

record bulkRequest =
  bk_session :: string
  bk_test :: string
  bk_nonce :: string
  bk_dir :: string
  bk_n :: int

definition BulkPath :: "string \<Rightarrow> string \<Rightarrow> string \<Rightarrow> string \<Rightarrow> int \<Rightarrow> string" where
  "BulkPath sid test nonce dir n = ''/v1/bulk/'' @ sid @ ''/'' @ test @ ''/'' @ nonce @ ''/'' @ dir @ ''/'' @ itoa n"

definition ParseBulkPath :: "string \<Rightarrow> bulkRequest option" where
  "ParseBulkPath p =
     (case split_on (CHR ''/'') (trim_char (CHR ''/'') p) of
        [a, b, sid, test, nonce, dir, num] \<Rightarrow>
          if a \<noteq> ''v1'' \<or> b \<noteq> ''bulk'' \<or> length sid \<noteq> 32 then None
          else if hex_decode sid = None then None
          else if hex_decode nonce = None then None
          else if dir \<noteq> ''up'' \<and> dir \<noteq> ''down'' then None
          else (case atoi num of
                  None \<Rightarrow> None
                | Some n \<Rightarrow> if n < 0 then None
                           else Some \<lparr>bk_session = sid, bk_test = test, bk_nonce = nonce, bk_dir = dir, bk_n = n\<rparr>)
      | _ \<Rightarrow> None)"

section \<open>The response body\<close>

definition json_esc :: "char \<Rightarrow> string" where
  "json_esc c =
     (let n = (of_char c :: nat)
      in if c = CHR 0x22 \<or> c = CHR 0x5C then [CHR 0x5C, c]
         else if n = 8 then [CHR 0x5C, CHR ''b''] else if n = 12 then [CHR 0x5C, CHR ''f'']
         else if n = 10 then [CHR 0x5C, CHR ''n''] else if n = 13 then [CHR 0x5C, CHR ''r'']
         else if n = 9 then [CHR 0x5C, CHR ''t'']
         else if n < 32 \<or> c = CHR ''<'' \<or> c = CHR ''>'' \<or> c = CHR ''&''
         then [CHR 0x5C, CHR ''u'', CHR ''0'', CHR ''0'', hex_digit (n div 16), hex_digit (n mod 16)]
         else [c])"

definition json_string :: "string \<Rightarrow> string" where
  "json_string s = CHR 0x22 # concat (map json_esc s) @ [CHR 0x22]"

fun json_object :: "(string \<times> string) list \<Rightarrow> string" where
  "json_object fs = ''{'' @ join_with '','' (map (\<lambda>(k, v). json_string k @ '':'' @ json_string v) fs) @ ''}''"

definition Body :: "string \<Rightarrow> string \<Rightarrow> string \<Rightarrow> bytes" where
  "Body host path nonce =
     bytes_of (json_object [(''host_sha256'', hex_encode (sha256 (bytes_of host))), (''magic'', ''CP1''), (''nonce'', nonce), (''path'', path)])
     @ [10]"

section \<open>The keystream\<close>

text \<open>The block with a counter, and the loop of \<open>Keystream\<close> from position \<open>i\<close>. Offsets are
  positions in a download, never negative and far below the range of \<open>int64\<close>.\<close>

definition ks_block :: "string \<Rightarrow> nat \<Rightarrow> bytes" where
  "ks_block seed blk = sha256 (bytes_of seed @ be64 (word_of_nat blk))"

function ks_fill :: "string \<Rightarrow> nat \<Rightarrow> nat \<Rightarrow> nat \<Rightarrow> bytes" where
  "ks_fill seed off n i =
     (if i < n
      then let piece = take (n - i) (drop ((off + i) mod 32) (ks_block seed ((off + i) div 32)))
           in piece @ ks_fill seed off n (i + length piece)
      else [])"
  by pat_completeness auto
termination
  by (relation "measure (\<lambda>(seed, off, n, i). n - i)") (auto simp: Let_def ks_block_def)

declare ks_fill.simps [simp del]

definition Keystream :: "string \<Rightarrow> nat \<Rightarrow> nat \<Rightarrow> bytes" where
  "Keystream seed off n = ks_fill seed off n 0"

section \<open>Reading back paths\<close>

lemma trim_char_id: "s \<noteq> [] \<Longrightarrow> hd s \<noteq> c \<Longrightarrow> last s \<noteq> c \<Longrightarrow> trim_char c s = s"
  by (simp add: trim_char_def dropWhile_eq_self_iff [THEN iffD2] hd_rev)

lemma trim_char_slash: "s \<noteq> [] \<Longrightarrow> hd s \<noteq> c \<Longrightarrow> last s \<noteq> c \<Longrightarrow> trim_char c (c # s) = s"
  using trim_char_id [of s c] by (simp add: trim_char_def)

lemma split_trim_path:
  assumes "ws \<noteq> []" and "\<forall>w\<in>set ws. CHR ''/'' \<notin> set w" and "hd ws \<noteq> []" and "last ws \<noteq> []"
  shows "split_on (CHR ''/'') (trim_char (CHR ''/'') (CHR ''/'' # join_with ''/'' ws)) = ws"
proof -
  have ne: "join_with ''/'' vs \<noteq> [] \<and> hd (join_with ''/'' vs) = hd (hd vs)" if "vs \<noteq> []" "hd vs \<noteq> []" for vs
    using that by (cases "(''/'', vs)" rule: join_with.cases) auto
  have la: "join_with ''/'' vs \<noteq> [] \<and> last (join_with ''/'' vs) = last (last vs)" if "vs \<noteq> []" "last vs \<noteq> []" for vs
    using that by (induction "''/''" vs rule: join_with.induct) (simp_all add: last_append)
  have "hd (hd ws) \<noteq> CHR ''/''" using assms by (metis hd_in_set)
  moreover have "last (last ws) \<noteq> CHR ''/''" using assms by (metis last_in_set)
  ultimately show ?thesis using ne [OF assms(1,3)] la [OF assms(1,4)] assms(1,2) by (simp add: trim_char_slash split_on_join)
qed

lemma split_on_parts: "w \<in> set (split_on d s) \<Longrightarrow> d \<notin> set w"
proof (induction s arbitrary: w)
  case (Cons c s)
  then show ?case by (cases "split_on d s") (auto split: if_splits)
qed simp

lemma hex_val_slash: "hex_val (CHR ''/'') = None"
  by (simp add: hex_val_def Let_def)

lemma hex_decode_hex: "hex_decode s = Some b \<Longrightarrow> \<forall>c\<in>set s. hex_val c \<noteq> None"
  by (induction s arbitrary: b rule: hex_decode.induct) (auto split: Option.bind_splits)

lemma hex_no_slash: "hex_decode s \<noteq> None \<Longrightarrow> CHR ''/'' \<notin> set s"
  using hex_decode_hex hex_val_slash by fastforce

lemma itoa_no_slash: "CHR ''/'' \<notin> set (itoa i)"
proof -
  have "CHR ''/'' \<notin> set (utoa n)" for n using utoa_digits [of n] by (auto simp: list_all_iff is_digit_def)
  then show ?thesis by (simp add: itoa_def)
qed

lemma itoa_nonempty: "itoa i \<noteq> []" by (simp add: itoa_def)

lemma ParsePath_Path:
  assumes "hex_decode sid \<noteq> None" "length sid = 32" "CHR ''/'' \<notin> set test" "hex_decode nonce \<noteq> None" "nonce \<noteq> []"
  shows "ParsePath (Path sid test nonce) = Some (sid, test, nonce)"
proof -
  have "Path sid test nonce = CHR ''/'' # join_with ''/'' [''v1'', ''echo'', sid, test, nonce]" by (simp add: Path_def)
  then show ?thesis using assms hex_no_slash split_trim_path [of "[''v1'', ''echo'', sid, test, nonce]"] by (auto simp: ParsePath_def)
qed

lemma ParseBulkPath_BulkPath:
  assumes "hex_decode sid \<noteq> None" "length sid = 32" "CHR ''/'' \<notin> set test" "hex_decode nonce \<noteq> None" "dir = ''up'' \<or> dir = ''down''" "0 \<le> n" "n < 2 ^ 63"
  shows "ParseBulkPath (BulkPath sid test nonce dir n) = Some \<lparr>bk_session = sid, bk_test = test, bk_nonce = nonce, bk_dir = dir, bk_n = n\<rparr>"
proof -
  have "BulkPath sid test nonce dir n = CHR ''/'' # join_with ''/'' [''v1'', ''bulk'', sid, test, nonce, dir, itoa n]" by (simp add: BulkPath_def)
  moreover have "atoi (itoa n) = Some n" using assms(6,7) by (intro atoi_itoa) simp_all
  ultimately show ?thesis using assms hex_no_slash itoa_no_slash itoa_nonempty split_trim_path [of "[''v1'', ''bulk'', sid, test, nonce, dir, itoa n]"]
    by (auto simp: ParseBulkPath_def)
qed

text \<open>Whatever a parser accepts is the path of its fields, up to outer slashes, and what is echoed is plain hexadecimal.\<close>

lemma ParsePath_sound:
  assumes "ParsePath p = Some (sid, test, nonce)"
  shows "Path sid test nonce = CHR ''/'' # trim_char (CHR ''/'') p" "hex_decode sid \<noteq> None" "length sid = 32" "hex_decode nonce \<noteq> None"
proof -
  have s: "split_on (CHR ''/'') (trim_char (CHR ''/'') p) = [''v1'', ''echo'', sid, test, nonce]"
    "hex_decode sid \<noteq> None" "length sid = 32" "hex_decode nonce \<noteq> None"
    using assms unfolding ParsePath_def by (auto split: list.splits if_splits)
  then show "hex_decode sid \<noteq> None" "length sid = 32" "hex_decode nonce \<noteq> None" by simp_all
  show "Path sid test nonce = CHR ''/'' # trim_char (CHR ''/'') p"
    using join_split_on [of "CHR ''/''" "trim_char (CHR ''/'') p"] unfolding s(1) by (simp add: Path_def)
qed

lemma ParseBulkPath_sound:
  assumes "ParseBulkPath p = Some b"
  shows "hex_decode (bk_session b) \<noteq> None" "length (bk_session b) = 32" "hex_decode (bk_nonce b) \<noteq> None"
    "bk_dir b = ''up'' \<or> bk_dir b = ''down''" "0 \<le> bk_n b" "bk_n b < 2 ^ 63" "CHR ''/'' \<notin> set (bk_test b)"
proof -
  obtain sid test nonce dir num n where s: "split_on (CHR ''/'') (trim_char (CHR ''/'') p) = [''v1'', ''bulk'', sid, test, nonce, dir, num]"
    "hex_decode sid \<noteq> None" "length sid = 32" "hex_decode nonce \<noteq> None" "dir = ''up'' \<or> dir = ''down''" "atoi num = Some n" "0 \<le> n"
    "b = \<lparr>bk_session = sid, bk_test = test, bk_nonce = nonce, bk_dir = dir, bk_n = n\<rparr>"
    using assms unfolding ParseBulkPath_def by (auto split: list.splits if_splits option.splits)
  show "hex_decode (bk_session b) \<noteq> None" "length (bk_session b) = 32" "hex_decode (bk_nonce b) \<noteq> None"
    "bk_dir b = ''up'' \<or> bk_dir b = ''down''" "0 \<le> bk_n b" using s(2-5,7) by (simp_all add: s(8))
  show "bk_n b < 2 ^ 63" using s(6) by (auto simp: s(8) atoi_def Let_def split: if_splits)
  show "CHR ''/'' \<notin> set (bk_test b)" using split_on_parts [of test "CHR ''/''" "trim_char (CHR ''/'') p"] by (simp add: s(1,8))
qed

section \<open>The keystream by position\<close>

definition ks_byte :: "string \<Rightarrow> nat \<Rightarrow> byte" where
  "ks_byte seed p = ks_block seed (p div 32) ! (p mod 32)"

lemma ks_piece:
  "take m (drop (p mod 32) (ks_block seed (p div 32))) = map (ks_byte seed) [p..<p + min m (32 - p mod 32)]"
proof (rule nth_equalityI)
  show len: "length (take m (drop (p mod 32) (ks_block seed (p div 32)))) = length (map (ks_byte seed) [p..<p + min m (32 - p mod 32)])"
    by (simp add: ks_block_def)
  fix j assume "j < length (take m (drop (p mod 32) (ks_block seed (p div 32))))"
  then have j: "j < m" "p mod 32 + j < 32" by (auto simp: ks_block_def)
  have "p + j = 32 * (p div 32) + (p mod 32 + j)" by simp
  then have "(p + j) div 32 = p div 32" "(p + j) mod 32 = p mod 32 + j"
    using j(2) by (metis div_mult_self4 div_less add_0_right zero_neq_numeral, metis mod_mult_self4 mod_less)
  then show "take m (drop (p mod 32) (ks_block seed (p div 32))) ! j = map (ks_byte seed) [p..<p + min m (32 - p mod 32)] ! j"
    using j by (simp add: ks_byte_def ks_block_def)
qed

lemma ks_fill_spec: "i \<le> n \<Longrightarrow> ks_fill seed off n i = map (ks_byte seed) [off + i..<off + n]"
proof (induction seed off n i rule: ks_fill.induct)
  case (1 seed off n i)
  define k where "k = min (n - i) (32 - (off + i) mod 32)"
  show ?case
  proof (cases "i < n")
    case True
    have k: "0 < k" "i + k \<le> n" using True by (simp_all add: k_def)
    have piece: "take (n - i) (drop ((off + i) mod 32) (ks_block seed ((off + i) div 32))) = map (ks_byte seed) [off + i..<off + i + k]"
      by (simp only: ks_piece k_def)
    have "ks_fill seed off n i = map (ks_byte seed) [off + i..<off + i + k] @ ks_fill seed off n (i + k)"
      using True by (subst ks_fill.simps) (simp add: piece Let_def)
    also have "ks_fill seed off n (i + k) = map (ks_byte seed) [off + (i + k)..<off + n]"
      using 1(1) [OF True refl] k(2) by (simp add: piece)
    finally show ?thesis using k(2) upt_add_eq_append [of "off + i" "off + i + k" "n - i - k"] by (simp add: add.assoc)
  qed (use 1 in \<open>simp add: ks_fill.simps\<close>)
qed

lemma Keystream_spec: "Keystream seed off n = map (ks_byte seed) [off..<off + n]"
  by (simp add: Keystream_def ks_fill_spec)

lemma length_Keystream [simp, len_simps]: "length (Keystream seed off n) = n"
  by (simp add: Keystream_spec)

text \<open>The window property: reading a stream in pieces, whatever the pieces, reads the same bytes.\<close>

lemma Keystream_append: "Keystream seed off m @ Keystream seed (off + m) n = Keystream seed off (m + n)"
  using upt_add_eq_append [of off "off + m" n] by (simp add: Keystream_spec add.assoc)

section \<open>The body names its request\<close>

text \<open>Reading back one escaped character.\<close>

definition json_unesc :: "string \<Rightarrow> (char \<times> string) option" where
  "json_unesc s =
     (case s of
        [] \<Rightarrow> None
      | c # r \<Rightarrow>
          if c \<noteq> CHR 0x5C then Some (c, r)
          else (case r of
                  [] \<Rightarrow> None
                | k # r' \<Rightarrow>
                    if k = CHR ''u'' then
                      (case r' of a # b # h # l # r'' \<Rightarrow>
                         (case (hex_val h, hex_val l) of (Some x, Some y) \<Rightarrow> Some (char_of (16 * x + y), r'') | _ \<Rightarrow> None)
                       | _ \<Rightarrow> None)
                    else if k = CHR ''b'' then Some (char_of (8 :: nat), r') else if k = CHR ''f'' then Some (char_of (12 :: nat), r')
                    else if k = CHR ''n'' then Some (char_of (10 :: nat), r') else if k = CHR ''r'' then Some (char_of (13 :: nat), r')
                    else if k = CHR ''t'' then Some (char_of (9 :: nat), r')
                    else Some (k, r')))"

lemma of_char_eq_nat: "(of_char c :: nat) = n \<Longrightarrow> c = char_of n"
  by (metis char_of_char)

lemma json_unesc_esc: "json_unesc (json_esc c @ x) = Some (c, x)"
proof -
  define n where "n = (of_char c :: nat)"
  have c: "c = char_of n" by (simp add: n_def)
  have "n < 256" by (simp add: n_def)
  then have "n div 16 < 16" "n mod 16 < 16" by (simp_all add: less_mult_imp_div_less)
  then have u: "json_unesc ([CHR 0x5C, CHR ''u'', CHR ''0'', CHR ''0'', hex_digit (n div 16), hex_digit (n mod 16)] @ x) = Some (c, x)"
    by (simp add: json_unesc_def hex_val_digit c)

  consider "c = CHR 0x22 \<or> c = CHR 0x5C" | "c \<noteq> CHR 0x22" "c \<noteq> CHR 0x5C" "n \<in> {8, 12, 10, 13, 9}"
    | "c \<noteq> CHR 0x22" "c \<noteq> CHR 0x5C" "n \<notin> {8, 12, 10, 13, 9}" by blast
  then show ?thesis
  proof cases
    case 1
    then show ?thesis by (elim disjE) (simp_all add: json_esc_def json_unesc_def)
  next
    case 2
    have "json_esc c = [CHR 0x5C, if n = 8 then CHR ''b'' else if n = 12 then CHR ''f'' else if n = 10 then CHR ''n'' else if n = 13 then CHR ''r'' else CHR ''t'']"
      using 2 unfolding json_esc_def n_def [symmetric] Let_def by (simp only: insert_iff empty_iff) (elim disjE; simp)
    then show ?thesis using 2(3) by (simp add: json_unesc_def) (elim disjE; simp add: c)
  next
    case 3
    show ?thesis
    proof (cases "n < 32 \<or> c = CHR ''<'' \<or> c = CHR ''>'' \<or> c = CHR ''&''")
      case True
      then have "json_esc c = [CHR 0x5C, CHR ''u'', CHR ''0'', CHR ''0'', hex_digit (n div 16), hex_digit (n mod 16)]"
        using 3 unfolding json_esc_def n_def [symmetric] by (simp add: Let_def)
      then show ?thesis using u by simp
    next
      case False
      then have "json_esc c = [c]" using 3 unfolding json_esc_def n_def [symmetric] by (simp add: Let_def)
      then show ?thesis using 3(2) by (simp add: json_unesc_def)
    qed
  qed
qed

lemma json_esc_hd: "json_esc c = d # r \<Longrightarrow> d \<noteq> CHR 0x22"
  by (auto simp: json_esc_def Let_def split: if_splits)

lemma json_esc_nonempty: "json_esc c \<noteq> []"
  by (simp add: json_esc_def Let_def)

lemma json_string_cut: "json_string s @ x = json_string t @ y \<longleftrightarrow> s = t \<and> x = y"
proof -
  have "concat (map json_esc s) @ CHR 0x22 # x = concat (map json_esc t) @ CHR 0x22 # y \<Longrightarrow> s = t \<and> x = y"
  proof (induction s arbitrary: t)
    case Nil
    then show ?case using json_esc_hd [of "hd t"] json_esc_nonempty [of "hd t"] by (cases t; cases "json_esc (hd t)") auto
  next
    case (Cons c s)
    show ?case
    proof (cases t)
      case Nil
      then show ?thesis using Cons.prems json_esc_hd [of c] json_esc_nonempty [of c] by (cases "json_esc c") auto
    next
      case (Cons d t')
      have "Some (c, concat (map json_esc s) @ CHR 0x22 # x) = Some (d, concat (map json_esc t') @ CHR 0x22 # y)"
        using Cons.prems json_unesc_esc unfolding Cons by (metis append.assoc concat.simps(2) list.simps(9))
      then show ?thesis using Cons.IH [of t'] Cons by simp
    qed
  qed
  then show ?thesis by (auto simp: json_string_def)
qed

lemma json_string_inj: "json_string s = json_string t \<longleftrightarrow> s = t"
  using json_string_cut [of s "[]" t "[]"] by simp

lemma bytes_of_inj: "bytes_of s = bytes_of t \<longleftrightarrow> s = t"
  by (metis str_of_bytes_of)

lemma Body_inj: "Body h p n = Body h' p' n' \<longleftrightarrow> sha256 (bytes_of h) = sha256 (bytes_of h') \<and> p = p' \<and> n = n'"
  by (auto simp: Body_def bytes_of_inj json_string_cut json_string_inj hex_encode_inj)

end
