(* ===== verification/Obfs4.thy ===== *)
theory Obfs4
  imports Token
begin

text \<open>
  The obfs4 handshake (\<open>internal/obfs4\<close>): the client request and the server response with their
  mark and MAC keyed by the bridge identity, and the scan that finds them in a buffer. Random bytes and
  the lengths drawn by \<open>math/rand\<close> are arguments. An out-of-range slice is \<open>None\<close>; \<open>find_mark_total\<close> shows
  that the scan never makes one. The hour is that of \<open>Time.Unix\<close>, whose division truncates.
\<close>

section \<open>Constants and identity\<close>

abbreviation NodeIDLen :: nat where "NodeIDLen \<equiv> 20"
abbreviation KeyLen :: nat where "KeyLen \<equiv> 32"
abbreviation MarkLen :: nat where "MarkLen \<equiv> 16"
abbreviation AuthLen :: nat where "AuthLen \<equiv> 32"
abbreviation MaxHandshakeLen :: nat where "MaxHandshakeLen \<equiv> 8192"
abbreviation clientMinPad :: nat where "clientMinPad \<equiv> 85"
abbreviation clientMaxPad :: nat where "clientMaxPad \<equiv> 8128"
abbreviation serverMinPad :: int where "serverMinPad \<equiv> 0"
abbreviation serverMaxPad :: int where "serverMaxPad \<equiv> 8096"
abbreviation clientHandshakeNP :: nat where "clientHandshakeNP \<equiv> 64"
abbreviation serverHandshakeNP :: nat where "serverHandshakeNP \<equiv> 96"
abbreviation MaxFrame :: nat where "MaxFrame \<equiv> 1448"

record identity =
  idn_node :: bytes
  idn_public :: bytes

definition ParseIdentity :: "bytes \<Rightarrow> identity option" where
  "ParseIdentity raw =
     (if length raw \<noteq> NodeIDLen + KeyLen then None
      else Some \<lparr>idn_node = take NodeIDLen raw, idn_public = drop NodeIDLen raw\<rparr>)"

definition identity_Bytes :: "identity \<Rightarrow> bytes" where
  "identity_Bytes i = idn_node i @ idn_public i"

definition identity_key :: "identity \<Rightarrow> bytes" where
  "identity_key i = idn_public i @ idn_node i"

definition mac128 :: "bytes \<Rightarrow> bytes \<Rightarrow> bytes" where
  "mac128 key data = take MarkLen (hmac_sha256 key data)"

definition unix_hour :: "time \<Rightarrow> int" where
  "unix_hour t = go_quot (t div 1000000000) 3600"

definition EpochHour :: "time \<Rightarrow> string" where
  "EpochHour t = itoa (unix_hour t)"

section \<open>Building\<close>

text \<open>A buffer of \<open>n\<close> bytes filled by \<open>rand.Read\<close>, and \<open>mrand.Intn\<close> on a raw draw.\<close>

definition rnd_bytes :: "(nat \<Rightarrow> byte) \<Rightarrow> nat \<Rightarrow> bytes" where
  "rnd_bytes r n = map r [0..<n]"

definition Intn :: "nat \<Rightarrow> nat \<Rightarrow> nat" where
  "Intn draw n = draw mod n"

definition ClientRequest :: "identity \<Rightarrow> time \<Rightarrow> (nat \<Rightarrow> byte) \<Rightarrow> nat \<Rightarrow> (nat \<Rightarrow> byte) \<Rightarrow> bytes" where
  "ClientRequest i now r1 draw r2 =
     (let repr = rnd_bytes r1 KeyLen;
          pad = rnd_bytes r2 (clientMinPad + Intn draw (clientMaxPad - clientMinPad + 1));
          k = identity_key i;
          req = repr @ pad @ mac128 k repr
      in req @ mac128 k (req @ bytes_of (EpochHour now)))"

text \<open>The bound on the padding of a response to a request of \<open>maxLen\<close> bytes.\<close>

definition server_pad_max :: "int \<Rightarrow> int" where
  "server_pad_max maxLen =
     (let p = (if maxLen - int serverHandshakeNP < serverMaxPad then maxLen - int serverHandshakeNP else serverMaxPad)
      in if p < serverMinPad then serverMinPad else p)"

definition ServerResponse :: "identity \<Rightarrow> time \<Rightarrow> int \<Rightarrow> (nat \<Rightarrow> byte) \<Rightarrow> (nat \<Rightarrow> byte) \<Rightarrow> nat \<Rightarrow> (nat \<Rightarrow> byte) \<Rightarrow> bytes" where
  "ServerResponse i now maxLen r1 r2 draw r3 =
     (let repr = rnd_bytes r1 KeyLen;
          auth = rnd_bytes r2 AuthLen;
          padMax = server_pad_max maxLen;
          pad = rnd_bytes r3 (nat serverMinPad + Intn draw (nat (padMax - serverMinPad + 1)));
          k = identity_key i;
          resp = repr @ auth @ pad @ mac128 k repr
      in resp @ mac128 k (resp @ bytes_of (EpochHour now)))"

text \<open>The data-phase frame; \<open>rnd\<close> is what fills it.\<close>

definition frame_len :: "int \<Rightarrow> nat" where
  "frame_len n = (let n = (if n > int MaxFrame then int MaxFrame else n) in nat (if n < 32 then 32 else n))"

unbundle bit_operations_syntax

definition obfs4_Frame :: "int \<Rightarrow> (nat \<Rightarrow> byte) \<Rightarrow> bytes option" where
  "obfs4_Frame n r =
     (let m = frame_len n; b = rnd_bytes r (2 + m)
      in do { x \<leftarrow> slc b 2 4; y \<leftarrow> u16 x 0; Some (be16 (word_of_nat m XOR y) @ drop 2 b) })"

section \<open>Finding\<close>

fun mac_hours :: "bytes \<Rightarrow> bytes \<Rightarrow> nat \<Rightarrow> time \<Rightarrow> int list \<Rightarrow> bool option" where
  "mac_hours buf k e now [] = Some False"
| "mac_hours buf k e now (dh # dhs) =
     do {
       pre \<leftarrow> slc buf 0 e;
       got \<leftarrow> slc buf e (e + 16);
       if got = mac128 k (pre @ bytes_of (itoa (unix_hour now + dh))) then Some True
       else mac_hours buf k e now dhs
     }"

fun find_mark_at :: "bytes \<Rightarrow> bytes \<Rightarrow> bytes \<Rightarrow> time \<Rightarrow> nat list \<Rightarrow> (nat \<times> bool) option" where
  "find_mark_at buf k mark now [] = Some (0, False)"
| "find_mark_at buf k mark now (i # is) =
     do {
       m \<leftarrow> slc buf i (i + MarkLen);
       if m \<noteq> mark then find_mark_at buf k mark now is
       else do {
         found \<leftarrow> mac_hours buf k (i + MarkLen) now [0, -1, 1];
         if found then Some (i + MarkLen + 16, True) else find_mark_at buf k mark now is
       }
     }"

definition find_limit :: "bytes \<Rightarrow> int" where
  "find_limit buf =
     (let limit = int (length buf) - 32 in if limit > int MaxHandshakeLen - 32 then int MaxHandshakeLen - 32 else limit)"

definition findMark :: "bytes \<Rightarrow> bytes \<Rightarrow> bytes \<Rightarrow> nat \<Rightarrow> time \<Rightarrow> (nat \<times> bool) option" where
  "findMark buf k mark frm now = find_mark_at buf k mark now [frm..<nat (find_limit buf + 1)]"

definition FindClientRequest :: "bytes \<Rightarrow> identity \<Rightarrow> time \<Rightarrow> (nat \<times> bool) option" where
  "FindClientRequest buf i now =
     (if length buf < clientHandshakeNP + clientMinPad then Some (0, False)
      else do {
        repr \<leftarrow> slc buf 0 KeyLen;
        findMark buf (identity_key i) (mac128 (identity_key i) repr) (KeyLen + clientMinPad) now
      })"

definition FindServerResponse :: "bytes \<Rightarrow> identity \<Rightarrow> time \<Rightarrow> (nat \<times> bool) option" where
  "FindServerResponse buf i now =
     (if length buf < serverHandshakeNP then Some (0, False)
      else do {
        repr \<leftarrow> slc buf 0 KeyLen;
        findMark buf (identity_key i) (mac128 (identity_key i) repr) (KeyLen + AuthLen) now
      })"

section \<open>What the scan finds\<close>

lemma length_mac128 [simp, len_simps]: "length (mac128 k d) = 16"
  by (simp add: mac128_def)

interpretation obfs4_mac: mac_scheme mac128 16
  by unfold_locales simp

text \<open>A position where the mark is followed by the MAC of everything before it, at one of the three hours.\<close>

definition handshake_at :: "bytes \<Rightarrow> bytes \<Rightarrow> bytes \<Rightarrow> time \<Rightarrow> nat \<Rightarrow> bool" where
  "handshake_at buf k mark now i \<longleftrightarrow> take 16 (drop i buf) = mark
     \<and> (\<exists>dh\<in>{0, -1, 1}. take 16 (drop (i + 16) buf) = mac128 k (take (i + 16) buf @ bytes_of (itoa (unix_hour now + dh))))"

lemma mac_hours_eq: "e + 16 \<le> length buf \<Longrightarrow>
  mac_hours buf k e now dhs = Some (\<exists>dh\<in>set dhs. take 16 (drop e buf) = mac128 k (take e buf @ bytes_of (itoa (unix_hour now + dh))))"
  by (induction dhs) (auto simp: go_defs)

lemma find_mark_at_eq:
  assumes "\<forall>i\<in>set is. i + 32 \<le> length buf"
  shows "find_mark_at buf k mark now is = Some (case List.find (handshake_at buf k mark now) is of None \<Rightarrow> (0, False) | Some i \<Rightarrow> (i + 32, True))"
  using assms by (induction "is") (auto simp: go_defs mac_hours_eq handshake_at_def)

lemma findMark_eq:
  "findMark buf k mark frm now = Some (case List.find (handshake_at buf k mark now) [frm..<nat (find_limit buf + 1)] of None \<Rightarrow> (0, False) | Some i \<Rightarrow> (i + 32, True))"
  unfolding findMark_def by (rule find_mark_at_eq) (auto simp: find_limit_def Let_def split: if_splits)

lemma find_mark_total: "FindClientRequest buf i now \<noteq> None" "FindServerResponse buf i now \<noteq> None"
  by (auto simp: FindClientRequest_def FindServerResponse_def findMark_eq go_defs)

lemma find_upt_Some:
  assumes "List.find P [a..<b] = Some j"
  shows "P j" "a \<le> j" "j < b" "\<And>q. a \<le> q \<Longrightarrow> q < j \<Longrightarrow> \<not> P q"
proof -
  obtain m where m: "m < length [a..<b]" "P ([a..<b] ! m)" "j = [a..<b] ! m" "\<forall>q<m. \<not> P ([a..<b] ! q)"
    using assms by (auto simp: find_Some_iff)
  have j: "j = a + m" "m < b - a" using m(1,3) by simp_all
  show "P j" "a \<le> j" "j < b" using m(2,3) j by auto
  show "\<not> P q" if "a \<le> q" "q < j" for q
  proof -
    have "q - a < m" "[a..<b] ! (q - a) = q" using that j by simp_all
    then show ?thesis using m(4) by metis
  qed
qed

lemma find_upt_ex:
  assumes "P x" "a \<le> x" "x < b"
  obtains j where "List.find P [a..<b] = Some j" "j \<le> x"
proof (cases "List.find P [a..<b]")
  case None
  then show ?thesis using assms by (auto simp: find_None_iff)
next
  case (Some j)
  then show ?thesis using that find_upt_Some(4) [OF Some, of x] assms by (meson leI)
qed

lemma FindClientRequest_sound:
  assumes "FindClientRequest buf i now = Some (n, True)"
  shows "149 \<le> n" "n \<le> length buf" "n \<le> MaxHandshakeLen"
    "handshake_at buf (identity_key i) (mac128 (identity_key i) (take KeyLen buf)) now (n - 32)"
proof -
  obtain j where j: "List.find (handshake_at buf (identity_key i) (mac128 (identity_key i) (take KeyLen buf)) now) [117..<nat (find_limit buf + 1)] = Some j" "n = j + 32"
    using assms by (auto simp: FindClientRequest_def findMark_eq go_defs split: if_splits option.splits)
  have h: "handshake_at buf (identity_key i) (mac128 (identity_key i) (take KeyLen buf)) now j" "117 \<le> j" "j < nat (find_limit buf + 1)"
    using find_upt_Some [OF j(1)] by blast+
  then show "149 \<le> n" "n \<le> length buf" "n \<le> MaxHandshakeLen" "handshake_at buf (identity_key i) (mac128 (identity_key i) (take KeyLen buf)) now (n - 32)"
    using j(2) by (auto simp: find_limit_def Let_def split: if_splits)
qed

text \<open>A request is found in any buffer that starts with it and stays so for the hours the clocks may differ by.\<close>

lemma length_rnd_bytes [simp, len_simps]: "length (rnd_bytes r n) = n"
  by (simp add: rnd_bytes_def)

lemma Intn_less: "0 < n \<Longrightarrow> Intn draw n < n"
  by (simp add: Intn_def)

lemma ClientRequest_length: "149 \<le> length (ClientRequest i now r1 draw r2)" "length (ClientRequest i now r1 draw r2) \<le> MaxHandshakeLen"
  using Intn_less [of 8044 draw] by (simp_all add: ClientRequest_def Let_def)

text \<open>Both messages end alike: the mark of their first 32 bytes, then the MAC of all before it with the hour.\<close>

lemma marked_found:
  assumes m: "m = pre @ mac128 k (take KeyLen pre) @ mac128 k (pre @ mac128 k (take KeyLen pre) @ bytes_of (itoa (unix_hour now + dh)))"
    and "dh \<in> {0, -1, 1}" "32 \<le> length pre" "frm \<le> length pre" "length m \<le> MaxHandshakeLen"
  shows "\<exists>n. findMark (m @ rest) k (mac128 k (take KeyLen (m @ rest))) frm now = Some (n, True) \<and> n \<le> length m"
proof -
  let ?P = "handshake_at (m @ rest) k (mac128 k (take KeyLen (m @ rest))) now"
  have "?P (length pre)" unfolding handshake_at_def using assms(2,3) by (auto simp: m intro!: bexI [of _ dh])
  moreover have "length pre < nat (find_limit (m @ rest) + 1)" using assms(5) by (auto simp: m find_limit_def Let_def)
  ultimately obtain j where "List.find ?P [frm..<nat (find_limit (m @ rest) + 1)] = Some j" "j \<le> length pre" using find_upt_ex [of ?P _ frm] assms(4) by blast
  then show ?thesis by (auto simp: findMark_eq m)
qed

lemma FindClientRequest_complete:
  fixes i now r1 draw r2 rest
  defines "req \<equiv> ClientRequest i now r1 draw r2"
  assumes "unix_hour now = unix_hour now' + dh" "dh \<in> {0, -1, 1}"
  shows "\<exists>n. FindClientRequest (req @ rest) i now' = Some (n, True) \<and> n \<le> length req"
proof -
  let ?k = "identity_key i"
  define pre where "pre = rnd_bytes r1 KeyLen @ rnd_bytes r2 (clientMinPad + Intn draw (clientMaxPad - clientMinPad + 1))"
  have req: "req = pre @ mac128 ?k (take KeyLen pre) @ mac128 ?k (pre @ mac128 ?k (take KeyLen pre) @ bytes_of (itoa (unix_hour now' + dh)))"
    using assms(2) by (simp add: req_def ClientRequest_def Let_def pre_def EpochHour_def)
  have l: "149 \<le> length req" "length req \<le> MaxHandshakeLen" using ClientRequest_length unfolding req_def by blast+
  have "32 \<le> length pre" "117 \<le> length pre" by (simp_all add: pre_def)
  then show ?thesis using marked_found [OF req assms(3) _ _ l(2)] l(1) by (simp add: FindClientRequest_def go_defs)
qed

text \<open>A response is never longer than the request it answers.\<close>

lemma ServerResponse_length:
  assumes "96 \<le> n"
  shows "96 \<le> length (ServerResponse i now n r1 r2 draw r3)" "int (length (ServerResponse i now n r1 r2 draw r3)) \<le> n"
    "length (ServerResponse i now n r1 r2 draw r3) \<le> MaxHandshakeLen"
proof -
  have p: "0 \<le> server_pad_max n" "server_pad_max n \<le> n - 96" "server_pad_max n \<le> 8096" using assms by (auto simp: server_pad_max_def Let_def)
  have "Intn draw (nat (server_pad_max n + 1)) < nat (server_pad_max n + 1)" using p(1) by (intro Intn_less) simp
  then show "96 \<le> length (ServerResponse i now n r1 r2 draw r3)" "int (length (ServerResponse i now n r1 r2 draw r3)) \<le> n"
    "length (ServerResponse i now n r1 r2 draw r3) \<le> MaxHandshakeLen"
    using p by (simp_all add: ServerResponse_def Let_def)
qed

lemma FindServerResponse_complete:
  fixes i now n r1 r2 draw r3 rest
  defines "resp \<equiv> ServerResponse i now n r1 r2 draw r3"
  assumes "unix_hour now = unix_hour now' + dh" "dh \<in> {0, -1, 1}" "96 \<le> n"
  shows "\<exists>m. FindServerResponse (resp @ rest) i now' = Some (m, True) \<and> m \<le> length resp"
proof -
  let ?k = "identity_key i"
  define pre where "pre = rnd_bytes r1 KeyLen @ rnd_bytes r2 AuthLen @ rnd_bytes r3 (nat serverMinPad + Intn draw (nat (server_pad_max n - serverMinPad + 1)))"
  have resp: "resp = pre @ mac128 ?k (take KeyLen pre) @ mac128 ?k (pre @ mac128 ?k (take KeyLen pre) @ bytes_of (itoa (unix_hour now' + dh)))"
    using assms(2) by (simp add: resp_def ServerResponse_def Let_def pre_def EpochHour_def)
  have l: "96 \<le> length resp" "length resp \<le> MaxHandshakeLen" using ServerResponse_length [OF assms(4)] unfolding resp_def by blast+
  have "32 \<le> length pre" "64 \<le> length pre" by (simp_all add: pre_def)
  then show ?thesis using marked_found [OF resp assms(3) _ _ l(2)] l(1) by (simp add: FindServerResponse_def go_defs)
qed

lemma identity_round_trip: "length (idn_node i) = 20 \<Longrightarrow> length (idn_public i) = 32 \<Longrightarrow> ParseIdentity (identity_Bytes i) = Some i"
  by (simp add: ParseIdentity_def identity_Bytes_def)

lemma obfs4_Frame_total: "\<exists>f. obfs4_Frame n r = Some f \<and> 34 \<le> length f \<and> length f \<le> 2 + MaxFrame"
proof -
  have "32 \<le> frame_len n" "frame_len n \<le> MaxFrame" by (auto simp: frame_len_def Let_def)
  then show ?thesis by (auto simp: obfs4_Frame_def Let_def go_defs)
qed

section \<open>The handshake\<close>

text \<open>C28. The obfs4 handshake closes. The server finds a request built for its identity in what it received, whatever
  bytes follow, while the two clocks are in the same or neighbouring hours; a response to the bytes it found is no
  longer than they are, so the responder does not amplify; and the client finds that response in turn.\<close>

theorem obfs4_handshake_closes:
  assumes "unix_hour now = unix_hour now' + dh" and "dh \<in> {0, -1, 1}"
  shows "\<exists>n. FindClientRequest (ClientRequest i now r1 draw r2 @ rest) i now' = Some (n, True) \<and> n \<le> length (ClientRequest i now r1 draw r2)
    \<and> int (length (ServerResponse i now' (int n) q1 q2 draw' q3)) \<le> int n
    \<and> (\<exists>m. FindServerResponse (ServerResponse i now' (int n) q1 q2 draw' q3 @ rest') i now = Some (m, True))"
proof -
  obtain n where n: "FindClientRequest (ClientRequest i now r1 draw r2 @ rest) i now' = Some (n, True)" "n \<le> length (ClientRequest i now r1 draw r2)"
    using FindClientRequest_complete [OF assms] by blast
  have "149 \<le> n" by (rule FindClientRequest_sound(1) [OF n(1)])
  then have l: "96 \<le> int n" by simp
  have "unix_hour now' = unix_hour now + (- dh)" "- dh \<in> {0, -1, 1}" using assms by auto
  from FindServerResponse_complete [OF this l] show ?thesis using n ServerResponse_length(2) [OF l] by blast
qed

theorem obfs4_handshake_closes_witness:
  "\<exists>n. FindClientRequest (ClientRequest \<lparr>idn_node = replicate 20 1, idn_public = replicate 32 2\<rparr> (7199 * 1000000000) (\<lambda>_. 3) 100 (\<lambda>_. 4) @ [1, 2, 3])
       \<lparr>idn_node = replicate 20 1, idn_public = replicate 32 2\<rparr> (7200 * 1000000000) = Some (n, True)"
proof -
  have "unix_hour (7199 * 1000000000) = unix_hour (7200 * 1000000000) + -1" "(-1::int) \<in> {0, -1, 1}" by (simp_all add: unix_hour_def go_quot_def)
  from obfs4_handshake_closes [OF this] show ?thesis by blast
qed

end
