(* ===== verification/Tor.thy ===== *)
theory Tor
  imports Obfs4 Codec
begin

text \<open>
  The shapes of a Tor client and relay (\<open>internal/tor\<close>): the ClientHello preset and the check that
  recognises it, the names of a link certificate, the cells of the link protocol and the choice of a
  version. Random bytes are arguments (\<open>rnd_bytes\<close>); indices out of range are \<open>None\<close>. The generation of
  the RSA keys and the X.509 encoding of the certificate are not modelled, its names are.
\<close>

unbundle bit_operations_syntax

section \<open>ClientHello\<close>

text \<open>What \<open>tls.ClientHelloInfo\<close> carries, and the extensions the preset lists.\<close>

record tls_hello =
  ch_server_name :: string
  ch_protos :: "string list"
  ch_versions :: "16 word list"
  ch_ciphers :: "16 word list"
  ch_curves :: "16 word list"
  ch_points :: bytes
  ch_sigs :: "16 word list"

datatype tls_ext =
    ExtPoints bytes
  | ExtCurves "16 word list"
  | ExtGeneric "16 word"
  | ExtMasterSecret
  | ExtSignatures "16 word list"
  | ExtVersions "16 word list"
  | ExtPSKModes bytes
  | ExtKeyShare "16 word list"

record hello_spec =
  hs_vers_min :: "16 word"
  hs_vers_max :: "16 word"
  hs_ciphers :: "16 word list"
  hs_compression :: bytes
  hs_exts :: "tls_ext list"

definition CipherSuites :: "16 word list" where
  "CipherSuites =
     [0x1301, 0x1303, 0x1302, 0xc02b, 0xc02f, 0xcca9, 0xcca8, 0xc02c, 0xc030, 0xc00a, 0xc009, 0xc013, 0xc014, 0x009c, 0x009d, 0x002f, 0x0035, 0x00ff]"

definition ClientHelloSpec :: "bool \<Rightarrow> hello_spec" where
  "ClientHelloSpec tls12Only =
     (let exts = [ExtPoints [0, 1, 2], ExtCurves [29, 23, 30, 25, 24, 256, 257, 258, 259, 260], ExtGeneric 22, ExtMasterSecret,
                  ExtSignatures [0x0403, 0x0503, 0x0603, 0x0807, 0x0808, 0x0809, 0x080a, 0x080b, 0x0804, 0x0805, 0x0806, 0x0401,
                                 0x0501, 0x0601, 0x0303, 0x0301, 0x0302, 0x0402, 0x0502, 0x0602]]
      in \<lparr>hs_vers_min = 0x0303, hs_vers_max = (if tls12Only then 0x0303 else 0x0304),
          hs_ciphers = (if tls12Only then drop 3 CipherSuites else CipherSuites), hs_compression = [0],
          hs_exts = (if tls12Only then exts else exts @ [ExtVersions [0x0304, 0x0303], ExtPSKModes [1], ExtKeyShare [29]])\<rparr>)"

definition tor_IsClientHello :: "tls_hello option \<Rightarrow> bool" where
  "tor_IsClientHello chi =
     (case chi of
        None \<Rightarrow> False
      | Some h \<Rightarrow>
          if ch_server_name h \<noteq> '''' \<or> ch_protos h \<noteq> [] then False
          else let got = (if ch_ciphers h \<noteq> [] \<and> last (ch_ciphers h) = 0x00ff then butlast (ch_ciphers h) else ch_ciphers h);
                   want = butlast CipherSuites;
                   want = (if int (length got) = int (length want) - 3 then drop 3 want else want)
               in if length got \<noteq> length want \<or> got \<noteq> want then False
                  else list_ex (\<lambda>s. s = 0x0808) (ch_sigs h))"

section \<open>Certificate names\<close>

definition base32_alphabet :: string where
  "base32_alphabet = ''abcdefghijklmnopqrstuvwxyz234567''"

definition randomHostname :: "string \<Rightarrow> nat \<Rightarrow> (nat \<Rightarrow> byte) \<Rightarrow> string" where
  "randomHostname tld draw r =
     ''www.'' @ map (\<lambda>b. base32_alphabet ! (unat b mod length base32_alphabet)) (rnd_bytes r (8 + Intn draw 13)) @ ''.'' @ tld"

definition certName_matches :: "string \<Rightarrow> bool" where
  "certName_matches s =
     (has_prefix s ''www.'' \<and> (has_suffix s ''.com'' \<or> has_suffix s ''.net'') \<and> 16 \<le> length s \<and> length s \<le> 28
      \<and> list_all (\<lambda>c. c \<in> set base32_alphabet) (take (length s - 8) (drop 4 s)))"

definition IsLinkCert :: "(string \<times> string) option \<Rightarrow> bool" where
  "IsLinkCert c =
     (case c of None \<Rightarrow> False
      | Some (subject, issuer) \<Rightarrow> certName_matches subject \<and> certName_matches issuer \<and> subject \<noteq> issuer)"

section \<open>Cells\<close>

abbreviation CmdPadding :: byte where "CmdPadding \<equiv> 0"
abbreviation CmdCreateFast :: byte where "CmdCreateFast \<equiv> 5"
abbreviation CmdCreatedFast :: byte where "CmdCreatedFast \<equiv> 6"
abbreviation CmdVersions :: byte where "CmdVersions \<equiv> 7"
abbreviation CmdNetinfo :: byte where "CmdNetinfo \<equiv> 8"
abbreviation CmdVPadding :: byte where "CmdVPadding \<equiv> 128"
abbreviation CmdCerts :: byte where "CmdCerts \<equiv> 129"
abbreviation CmdAuthChallenge :: byte where "CmdAuthChallenge \<equiv> 130"
abbreviation PayloadLen :: nat where "PayloadLen \<equiv> 509"
abbreviation FixedCellLen :: nat where "FixedCellLen \<equiv> 514"

definition tor_Versions :: "16 word list" where "tor_Versions = [3, 4, 5]"

definition VersionsCell :: "16 word list \<Rightarrow> bytes" where
  "VersionsCell vs = [0, 0, CmdVersions] @ be16 (word_of_nat (2 * length vs)) @ concat (map be16 vs)"

definition IsVersionsCell :: "bytes \<Rightarrow> bool" where
  "IsVersionsCell b =
     (if length b < 3 \<or> b ! 0 \<noteq> 0 \<or> b ! 1 \<noteq> 0 \<or> b ! 2 \<noteq> CmdVersions then False
      else if length b \<ge> 5 then (let n = be_nat (take 2 (drop 3 b)) in n mod 2 = 0 \<and> n \<le> 64)
      else True)"

fun read_u16s :: "bytes \<Rightarrow> nat list \<Rightarrow> 16 word list option" where
  "read_u16s b [] = Some []"
| "read_u16s b (i # is) = do { v \<leftarrow> u16 b i; vs \<leftarrow> read_u16s b is; Some (v # vs) }"

text \<open>\<open>Some (Inl ())\<close> is the error, \<open>Some (Inr (vs, 0))\<close> the request for more bytes.\<close>

definition ParseVersions :: "bytes \<Rightarrow> (string + 16 word list \<times> nat) option" where
  "ParseVersions b =
     (if length b < 5 then Some (Inr ([], 0))
      else if b ! 0 \<noteq> 0 \<or> b ! 1 \<noteq> 0 \<or> b ! 2 \<noteq> CmdVersions then Some (Inl ''tor: not a VERSIONS cell'')
      else do {
        lw \<leftarrow> u16 b 3;
        let l = unat lw;
        if l mod 2 \<noteq> 0 then Some (Inl ''tor: odd VERSIONS length'')
        else if length b < 5 + l then Some (Inr ([], 0))
        else do { vs \<leftarrow> read_u16s b (map (\<lambda>i. 5 + 2 * i) [0..<l div 2]); Some (Inr (vs, 5 + l)) }
      })"

definition Negotiate :: "16 word list \<Rightarrow> 16 word list \<Rightarrow> 16 word" where
  "Negotiate ours theirs =
     foldl (\<lambda>best a. foldl (\<lambda>best b. if a = b \<and> a > best then a else best) best theirs) 0 ours"

definition VarCell :: "32 word \<Rightarrow> byte \<Rightarrow> bytes \<Rightarrow> bytes" where
  "VarCell circ cmd body = be32 circ @ [cmd] @ be16 (word_of_nat (length body)) @ body"

definition FixedCell :: "32 word \<Rightarrow> byte \<Rightarrow> bytes \<Rightarrow> bytes" where
  "FixedCell circ cmd body = be32 circ @ [cmd] @ take PayloadLen body @ replicate (PayloadLen - length body) 0"

record cell =
  cell_circ :: "32 word"
  cell_cmd :: byte
  cell_body :: bytes

definition zero_cell :: cell where
  "zero_cell = \<lparr>cell_circ = 0, cell_cmd = 0, cell_body = []\<rparr>"

definition ParseCell :: "bytes \<Rightarrow> (cell \<times> nat) option" where
  "ParseCell b =
     (if length b < 5 then Some (zero_cell, 0)
      else do {
        circ \<leftarrow> u32 b 0;
        cmd \<leftarrow> ix b 4;
        let c = \<lparr>cell_circ = circ, cell_cmd = cmd, cell_body = []\<rparr>;
        if cmd = CmdVersions \<or> cmd \<ge> 128 then
          if length b < 7 then Some (c, 0)
          else do {
            lw \<leftarrow> u16 b 5;
            let l = unat lw;
            if length b < 7 + l then Some (c, 0)
            else do { body \<leftarrow> slc b 7 (7 + l); Some (c\<lparr>cell_body := body\<rparr>, 7 + l) }
          }
        else if length b < FixedCellLen then Some (c, 0)
        else do { body \<leftarrow> slc b 5 FixedCellLen; Some (c\<lparr>cell_body := body\<rparr>, FixedCellLen) }
      })"

definition CertsCell :: "(nat \<Rightarrow> nat \<Rightarrow> byte) \<Rightarrow> bytes" where
  "CertsCell r =
     (let ents = [(2, 864), (4, 140), (5, 140), (7, 258)] :: (byte \<times> nat) list
      in VarCell 0 CmdCerts
           (word_of_nat (length ents) # concat (map (\<lambda>(t, n). t # be16 (word_of_nat n) @ rnd_bytes (r (unat t)) n) ents)))"

definition AuthChallengeCell :: "(nat \<Rightarrow> byte) \<Rightarrow> bytes" where
  "AuthChallengeCell r = VarCell 0 CmdAuthChallenge (rnd_bytes r 32 @ [0, 2, 0, 1, 0, 3])"

text \<open>\<open>net.IP\<close> is a slice of bytes; \<open>To4\<close> and \<open>To16\<close> are \<open>None\<close> for \<open>nil\<close>.\<close>

definition v4InV6 :: bytes where "v4InV6 = replicate 10 0 @ [0xff, 0xff]"

definition To4 :: "bytes \<Rightarrow> bytes option" where
  "To4 ip = (if length ip = 4 then Some ip else if length ip = 16 \<and> take 12 ip = v4InV6 then Some (drop 12 ip) else None)"

definition To16 :: "bytes \<Rightarrow> bytes option" where
  "To16 ip = (if length ip = 4 then Some (v4InV6 @ ip) else if length ip = 16 then Some ip else None)"

definition appendAddr :: "bytes \<Rightarrow> bytes \<Rightarrow> bytes" where
  "appendAddr b ip =
     (case To4 ip of
        Some v4 \<Rightarrow> b @ [0x04, 4] @ v4
      | None \<Rightarrow> (case To16 ip of Some v6 \<Rightarrow> b @ [0x06, 16] @ v6 | None \<Rightarrow> b @ [0x04, 4, 0, 0, 0, 0]))"

definition NetinfoCell :: "time \<Rightarrow> bytes \<Rightarrow> bytes list \<Rightarrow> bytes" where
  "NetinfoCell now other mine =
     (let body = appendAddr (be32 (word_of_int (now div 1000000000))) other @ [word_of_nat (length mine)]
      in FixedCell 0 CmdNetinfo (foldl appendAddr body mine))"

definition ParseNetinfo :: "bytes \<Rightarrow> (string + time \<times> bytes option) option" where
  "ParseNetinfo body =
     (if length body < 6 then Some (Inl ''tor: short NETINFO'')
      else do {
        ts \<leftarrow> u32 body 0;
        lb \<leftarrow> ix body 5;
        t \<leftarrow> ix body 4;
        let l = unat lb;
        if length body < 6 + l then Some (Inl ''tor: short NETINFO address'')
        else if t = 0x04 \<and> l = 4 \<or> t = 0x06 \<and> l = 16
        then do { a \<leftarrow> slc body 6 (6 + l); Some (Inr (uint ts * 1000000000, Some a)) }
        else Some (Inr (uint ts * 1000000000, None))
      })"

definition CreateFastCell :: "32 word \<Rightarrow> (nat \<Rightarrow> byte) \<Rightarrow> bytes" where
  "CreateFastCell circ r = FixedCell (circ OR 0x80000000) CmdCreateFast (rnd_bytes r 20)"

definition CreatedFastCell :: "32 word \<Rightarrow> (nat \<Rightarrow> byte) \<Rightarrow> bytes" where
  "CreatedFastCell circ r = FixedCell circ CmdCreatedFast (rnd_bytes r 40)"

definition CmdName :: "byte \<Rightarrow> string" where
  "CmdName cmd =
     (if cmd = CmdPadding then ''PADDING'' else if cmd = CmdCreateFast then ''CREATE_FAST''
      else if cmd = CmdCreatedFast then ''CREATED_FAST'' else if cmd = CmdVersions then ''VERSIONS''
      else if cmd = CmdNetinfo then ''NETINFO'' else if cmd = CmdVPadding then ''VPADDING''
      else if cmd = CmdCerts then ''CERTS'' else if cmd = CmdAuthChallenge then ''AUTH_CHALLENGE''
      else ''cmd'' @ itoa (uint cmd))"

section \<open>Reading cells\<close>

text \<open>A complete cell with the bytes it takes, as one value of a self-delimiting code.\<close>

definition cell_ok :: "cell \<Rightarrow> bool" where
  "cell_ok c = (if cell_cmd c = CmdVersions \<or> cell_cmd c \<ge> 128 then length (cell_body c) < 65536 else length (cell_body c) = PayloadLen)"

definition cell_enc :: "cell \<Rightarrow> bytes" where
  "cell_enc c = (if cell_cmd c = CmdVersions \<or> cell_cmd c \<ge> 128 then VarCell (cell_circ c) (cell_cmd c) (cell_body c)
                 else FixedCell (cell_circ c) (cell_cmd c) (cell_body c))"

definition cell_dec :: "bytes \<Rightarrow> (cell \<times> nat) option" where
  "cell_dec b = (case ParseCell b of Some (c, n) \<Rightarrow> if n = 0 then None else Some (c, n) | None \<Rightarrow> None)"

lemma ParseCell_total: "\<exists>c n. ParseCell b = Some (c, n) \<and> n \<le> length b"
  by (auto simp: ParseCell_def go_defs Let_def)

lemma read_u16s_total: "\<forall>i\<in>set is. i + 2 \<le> length b \<Longrightarrow> \<exists>vs. read_u16s b is = Some vs \<and> length vs = length is"
  by (induction "is") (auto simp: go_defs)

lemma read_versions_total: "5 + l \<le> length b \<Longrightarrow> \<exists>vs. read_u16s b (map (\<lambda>i. 5 + 2 * i) [0..<l div 2]) = Some vs \<and> length vs = l div 2"
proof -
  assume "5 + l \<le> length b"
  then have "\<forall>i\<in>set (map (\<lambda>i. 5 + 2 * i) [0..<l div 2]). i + 2 \<le> length b" by auto
  then show ?thesis using read_u16s_total by fastforce
qed

lemma ParseVersions_total: "ParseVersions b \<noteq> None"
proof -
  define l where "l = unat (word_of_nat (be_nat (take 2 (drop 3 b))) :: 16 word)"
  show ?thesis
  proof (cases "length b < 5 + l")
    case True
    then show ?thesis by (auto simp: ParseVersions_def go_defs Let_def l_def)
  next
    case False
    then obtain vs where "read_u16s b (map (\<lambda>i. 5 + 2 * i) [0..<l div 2]) = Some vs" using read_versions_total [of l b] by auto
    then show ?thesis using False by (auto simp: ParseVersions_def go_defs Let_def l_def)
  qed
qed

lemma ParseVersions_len: "ParseVersions b = Some (Inr (vs, n)) \<Longrightarrow> n \<le> length b"
  by (auto simp: ParseVersions_def Let_def split: if_splits Option.bind_splits)

lemma ParseNetinfo_total: "ParseNetinfo body \<noteq> None"
  by (auto simp: ParseNetinfo_def go_defs Let_def)

lemma ParseCell_cell:
  assumes "cell_ok c"
  shows "ParseCell (cell_enc c @ rest) = Some (c, length (cell_enc c))"
proof (cases "cell_cmd c = CmdVersions \<or> cell_cmd c \<ge> 128")
  case True
  then have "unat (word_of_nat (length (cell_body c)) :: 16 word) = length (cell_body c)"
    using assms by (simp add: cell_ok_def unat_word_of_nat_16)
  then show ?thesis using True by (simp add: ParseCell_def cell_enc_def VarCell_def Let_def reading go_defs nth_append)
next
  case False
  then show ?thesis using assms by (simp add: ParseCell_def cell_enc_def cell_ok_def FixedCell_def Let_def reading go_defs nth_append)
qed

interpretation tor_codec: codec cell_enc cell_dec cell_ok
proof unfold_locales
  fix c rest assume "cell_ok c"
  moreover have "0 < length (cell_enc c)" by (simp add: cell_enc_def VarCell_def FixedCell_def)
  ultimately show "cell_dec (cell_enc c @ rest) = Some (c, length (cell_enc c))" by (simp add: cell_dec_def ParseCell_cell)
qed

lemma length_FixedCell [simp, len_simps]: "length (FixedCell circ cmd body) = FixedCellLen"
  by (simp add: FixedCell_def)

lemma read_u16s_append:
  "read_u16s (pre @ concat (map be16 vs) @ rest) (map (\<lambda>i. length pre + 2 * i) [0..<length vs]) = Some vs"
proof (induction vs arbitrary: pre)
  case (Cons v vs)
  have m: "map (\<lambda>i. length pre + 2 * i) [0..<length (v # vs)] = length pre # map (\<lambda>i. length (pre @ be16 v) + 2 * i) [0..<length vs]"
    by (simp add: upt_conv_Cons map_Suc_upt [symmetric] del: upt_Suc)
  show ?case unfolding m using Cons [of "pre @ be16 v"] by (simp add: reading go_defs)
qed simp

lemma ParseVersions_cell:
  assumes "length vs < 32768"
  shows "ParseVersions (VersionsCell vs @ rest) = Some (Inr (vs, length (VersionsCell vs)))"
proof -
  have l: "unat (word_of_nat (2 * length vs) :: 16 word) = 2 * length vs" using assms by (intro unat_word_of_nat_16) simp
  have c: "length (concat (map be16 vs)) = 2 * length vs" by (induction vs) simp_all
  have "read_u16s (VersionsCell vs @ rest) (map (\<lambda>i. 5 + 2 * i) [0..<length vs]) = Some vs"
    using read_u16s_append [of "[0, 0, CmdVersions] @ be16 (word_of_nat (2 * length vs))" vs rest] by (simp add: VersionsCell_def)
  then show ?thesis using l c by (simp add: ParseVersions_def VersionsCell_def Let_def reading go_defs nth_append)
qed

text \<open>The negotiated version is the highest one both sides list.\<close>

lemma Negotiate_inner: "foldl (\<lambda>best b. if a = b \<and> a > best then a else best) best theirs = (if a \<in> set theirs \<and> best < a then a else best)"
  by (induction theirs arbitrary: best) auto

lemma Negotiate_step: "Negotiate ours theirs = foldl (\<lambda>best a. if a \<in> set theirs \<and> best < a then a else best) 0 ours"
  by (simp add: Negotiate_def Negotiate_inner)

lemma foldl_best:
  fixes best :: "16 word" and T :: "16 word set"
  defines "f \<equiv> \<lambda>best a. if a \<in> T \<and> best < a then a else best"
  shows "best \<le> foldl f best ours \<and> (\<forall>a\<in>set ours \<inter> T. a \<le> foldl f best ours) \<and> (foldl f best ours = best \<or> foldl f best ours \<in> set ours \<inter> T)"
proof (induction ours arbitrary: best)
  case (Cons x ours)
  have "best \<le> f best x" "x \<in> T \<longrightarrow> x \<le> f best x" "f best x = best \<or> f best x \<in> T \<and> f best x = x" by (auto simp: f_def)
  with Cons.IH [of "f best x"] show ?case by auto
qed simp

lemma Negotiate_spec:
  "(\<forall>v\<in>set ours \<inter> set theirs. v \<le> Negotiate ours theirs) \<and> (Negotiate ours theirs = 0 \<or> Negotiate ours theirs \<in> set ours \<inter> set theirs)"
  unfolding Negotiate_step using foldl_best [of 0 "set theirs" ours] by blast

text \<open>A hello made from the preset, as the server's TLS stack reports it, is recognised.\<close>

definition hello_of :: "hello_spec \<Rightarrow> tls_hello" where
  "hello_of h =
     \<lparr>ch_server_name = '''', ch_protos = [],
      ch_versions = (case List.find (\<lambda>e. case e of ExtVersions _ \<Rightarrow> True | _ \<Rightarrow> False) (hs_exts h) of
                       Some (ExtVersions vs) \<Rightarrow> vs | _ \<Rightarrow> [hs_vers_max h]),
      ch_ciphers = hs_ciphers h,
      ch_curves = concat (map (\<lambda>e. case e of ExtCurves cs \<Rightarrow> cs | _ \<Rightarrow> []) (hs_exts h)),
      ch_points = concat (map (\<lambda>e. case e of ExtPoints ps \<Rightarrow> ps | _ \<Rightarrow> []) (hs_exts h)),
      ch_sigs = concat (map (\<lambda>e. case e of ExtSignatures ss \<Rightarrow> ss | _ \<Rightarrow> []) (hs_exts h))\<rparr>"

lemma tor_hello_recognised: "tor_IsClientHello (Some (hello_of (ClientHelloSpec tls12Only)))"
  by (cases tls12Only) (simp_all add: tor_IsClientHello_def hello_of_def ClientHelloSpec_def CipherSuites_def Let_def)

text \<open>The names of a generated certificate have the relay shape.\<close>

lemma randomHostname_matches: "tld = ''com'' \<or> tld = ''net'' \<Longrightarrow> certName_matches (randomHostname tld draw r)"
proof -
  assume t: "tld = ''com'' \<or> tld = ''net''"
  define m where "m = map (\<lambda>b. base32_alphabet ! (unat b mod length base32_alphabet)) (rnd_bytes r (8 + Intn draw 13))"
  have len: "8 \<le> length m" "length m \<le> 20" using Intn_less [of 13 draw] by (simp_all add: m_def)
  have "0 < length base32_alphabet" by (simp add: base32_alphabet_def)
  then have "list_all (\<lambda>c. c \<in> set base32_alphabet) m" unfolding m_def list_all_iff by (auto intro!: nth_mem simp del: set_simps)
  moreover have "randomHostname tld draw r = ''www.'' @ m @ CHR ''.'' # tld" by (simp add: randomHostname_def m_def)
  ultimately show ?thesis using t len by (auto simp: certName_matches_def has_prefix_def has_suffix_def)
qed

end
