(* ===== verification/Tcp_Conn.thy ===== *)
theory Tcp_Conn
  imports Udp_Serve Http_Echo Tor
begin

text \<open>
  Connections of the TCP responder (\<open>internal/server/tcp.go\<close>). A \<open>net.Conn\<close> is a script: what successive
  reads of the wire find (bytes and the error after them, a deadline included) and what becomes of
  successive writes; past the end of the script a read sees the end of the stream and a write succeeds.
  \<open>peekConn\<close> puts the sniffed prefix back in front of it.

  A handler runs in its own goroutine, so other goroutines use the store between its calls. Its clock
  readings and store calls are numbered as its events; before event \<open>k\<close> the operations \<open>te_others e k\<close> of
  the other goroutines take effect, whatever they are, and the clock then shows \<open>te_clock e k\<close>. The flow
  keeps the operations in the order the store saw them.

  A loop is \<open>io_loop\<close> over one step; \<open>None\<close> stands for a panic and for not returning alike, and the
  locale \<open>terminating_loop\<close> excludes both.
\<close>

section \<open>Loops\<close>

partial_function (option) io_loop :: "('s \<Rightarrow> ('r + 's) option) \<Rightarrow> 's \<Rightarrow> 'r option" where
  "io_loop step s = (case step s of None \<Rightarrow> None | Some (Inl r) \<Rightarrow> Some r | Some (Inr s') \<Rightarrow> io_loop step s')"

declare io_loop.simps [code]

locale terminating_loop =
  fixes step :: "'s \<Rightarrow> ('r + 's) option" and I :: "'s \<Rightarrow> bool" and Q :: "'r \<Rightarrow> bool" and m :: "'s \<Rightarrow> nat"
  assumes step_ok: "I s \<Longrightarrow> \<exists>x. step s = Some x \<and> (case x of Inl r \<Rightarrow> Q r | Inr s' \<Rightarrow> I s' \<and> m s' < m s)"
begin

lemma loop_returns: "I s \<Longrightarrow> \<exists>r. io_loop step s = Some r \<and> Q r"
proof (induction "m s" arbitrary: s rule: less_induct)
  case less
  from step_ok [OF less.prems] obtain x where x: "step s = Some x" "case x of Inl r \<Rightarrow> Q r | Inr s' \<Rightarrow> I s' \<and> m s' < m s" by blast
  then show ?case using less.hyps by (subst io_loop.simps) (auto split: sum.splits)
qed

end

section \<open>Connections\<close>

datatype go_err = EOF | UnexpectedEOF | ConnReset | DeadlineExceeded | NetTimeout | OtherErr string

definition closeReason :: "go_err option \<Rightarrow> string" where
  "closeReason err =
     (case err of
        None \<Rightarrow> ''normal''
      | Some EOF \<Rightarrow> ''client_eof''
      | Some ConnReset \<Rightarrow> ''client_reset''
      | Some DeadlineExceeded \<Rightarrow> ''timeout''
      | Some NetTimeout \<Rightarrow> ''timeout''
      | Some _ \<Rightarrow> ''server_error'')"

record conn =
  cn_reads :: "(bytes \<times> go_err option) list"
  cn_writes :: "(nat \<times> go_err) option list"
  cn_sent :: "bytes list"

definition conn_Read :: "nat \<Rightarrow> conn \<Rightarrow> (bytes \<times> go_err option) \<times> conn" where
  "conn_Read k c =
     (case cn_reads c of
        [] \<Rightarrow> (([], Some EOF), c)
      | (bs, err) # rest \<Rightarrow>
          if length bs \<le> k then ((bs, err), c\<lparr>cn_reads := rest\<rparr>)
          else ((take k bs, None), c\<lparr>cn_reads := (drop k bs, err) # rest\<rparr>))"

definition conn_Write :: "bytes \<Rightarrow> conn \<Rightarrow> (nat \<times> go_err option) \<times> conn" where
  "conn_Write b c =
     (case cn_writes c of
        [] \<Rightarrow> ((length b, None), c\<lparr>cn_sent := cn_sent c @ [b]\<rparr>)
      | None # ws \<Rightarrow> ((length b, None), c\<lparr>cn_writes := ws, cn_sent := cn_sent c @ [b]\<rparr>)
      | Some (n, err) # ws \<Rightarrow> ((min n (length b), Some err), c\<lparr>cn_writes := ws, cn_sent := cn_sent c @ [take n b]\<rparr>))"

record peekConn =
  pc_conn :: conn
  pc_prefix :: bytes
  pc_in :: nat
  pc_out :: nat

definition new_peek :: "conn \<Rightarrow> peekConn" where
  "new_peek c = \<lparr>pc_conn = c, pc_prefix = [], pc_in = 0, pc_out = 0\<rparr>"

definition pc_Read :: "nat \<Rightarrow> peekConn \<Rightarrow> (bytes \<times> go_err option) \<times> peekConn" where
  "pc_Read k p =
     (if pc_prefix p \<noteq> [] then ((take k (pc_prefix p), None), p\<lparr>pc_prefix := drop k (pc_prefix p)\<rparr>)
      else case conn_Read k (pc_conn p) of
             ((bs, err), c) \<Rightarrow> ((bs, err), p\<lparr>pc_conn := c, pc_in := pc_in p + length bs\<rparr>))"

definition pc_Write :: "bytes \<Rightarrow> peekConn \<Rightarrow> go_err option \<times> peekConn" where
  "pc_Write b p =
     (case conn_Write b (pc_conn p) of ((n, err), c) \<Rightarrow> (err, p\<lparr>pc_conn := c, pc_out := pc_out p + n\<rparr>))"

text \<open>What is left to read; a read that does not see the end of the stream makes it smaller.\<close>

definition conn_left :: "conn \<Rightarrow> nat" where
  "conn_left c = (\<Sum>(bs, err)\<leftarrow>cn_reads c. Suc (length bs))"

definition pc_left :: "peekConn \<Rightarrow> nat" where
  "pc_left p = length (pc_prefix p) + conn_left (pc_conn p)"

lemma conn_Read_left:
  assumes "conn_Read k c = ((bs, err), c')" "0 < k"
  shows "conn_left c' + length bs \<le> conn_left c" "err = None \<Longrightarrow> conn_left c' + length bs \<le> conn_left c \<and> conn_left c' < conn_left c"
    "length bs \<le> k" "cn_sent c' = cn_sent c" "cn_writes c' = cn_writes c"
  using assms by (auto simp: conn_Read_def conn_left_def split: list.splits if_splits)

function sniff_loop :: "nat \<Rightarrow> bytes \<Rightarrow> peekConn \<Rightarrow> go_err option \<times> bytes \<times> peekConn" where
  "sniff_loop k buf p =
     (if length buf < k then
        (case conn_Read 4096 (pc_conn p) of
           ((bs, err), c) \<Rightarrow>
             let buf = buf @ bs; p = p\<lparr>pc_conn := c, pc_in := pc_in p + length bs\<rparr>
             in if err \<noteq> None then (err, buf, p) else sniff_loop k buf p)
      else (None, buf, p))"
  by pat_completeness auto
termination
  by (relation "measure (\<lambda>(k, buf, p). conn_left (pc_conn p))") (auto dest!: conn_Read_left(2) [OF sym])

declare sniff_loop.simps [simp del]

definition sniff :: "nat \<Rightarrow> peekConn \<Rightarrow> (bytes \<times> go_err option) \<times> peekConn" where
  "sniff k p = (case sniff_loop k (pc_prefix p) (p\<lparr>pc_prefix := []\<rparr>) of (err, buf, p') \<Rightarrow> ((buf, err), p'\<lparr>pc_prefix := buf\<rparr>))"

section \<open>Buffered and full reads\<close>

text \<open>\<open>bufio.Reader\<close> of a given size: the bytes read ahead and the error that came with them.\<close>

record bufioReader =
  br_size :: nat
  br_buf :: bytes
  br_err :: "go_err option"

definition new_reader :: "nat \<Rightarrow> bufioReader" where
  "new_reader n = \<lparr>br_size = n, br_buf = [], br_err = None\<rparr>"

definition br_Read :: "nat \<Rightarrow> bufioReader \<times> peekConn \<Rightarrow> (bytes \<times> go_err option) \<times> bufioReader \<times> peekConn" where
  "br_Read k x =
     (case x of (br, p) \<Rightarrow>
        if br_buf br \<noteq> [] then ((take k (br_buf br), None), br\<lparr>br_buf := drop k (br_buf br)\<rparr>, p)
        else if br_err br \<noteq> None then (([], br_err br), br\<lparr>br_err := None\<rparr>, p)
        else if k \<ge> br_size br then (case pc_Read k p of ((bs, err), p') \<Rightarrow> ((bs, err), br, p'))
        else (case pc_Read (br_size br) p of
                ((bs, err), p') \<Rightarrow>
                  if bs = [] then (([], err), br, p')
                  else ((take k bs, None), br\<lparr>br_buf := drop k bs, br_err := err\<rparr>, p')))"

text \<open>\<open>io.ReadFull\<close>: one read of its loop, and the loop until \<open>n\<close> bytes are there or an error comes.\<close>

definition full_step :: "(nat \<Rightarrow> 'r \<Rightarrow> (bytes \<times> go_err option) \<times> 'r) \<Rightarrow> nat \<Rightarrow> bytes \<times> 'r \<Rightarrow> (((go_err + bytes) \<times> 'r) + bytes \<times> 'r) option" where
  "full_step rd n x =
     (case x of (acc, r) \<Rightarrow>
        if n \<le> length acc then Some (Inl (Inr acc, r))
        else case rd (n - length acc) r of
               ((bs, err), r') \<Rightarrow>
                 let acc = acc @ bs
                 in if n \<le> length acc then Some (Inl (Inr acc, r'))
                    else (case err of
                            None \<Rightarrow> Some (Inr (acc, r'))
                          | Some e \<Rightarrow> Some (Inl (Inl (if e = EOF \<and> acc \<noteq> [] then UnexpectedEOF else e), r'))))"

definition ReadFull :: "(nat \<Rightarrow> 'r \<Rightarrow> (bytes \<times> go_err option) \<times> 'r) \<Rightarrow> nat \<Rightarrow> 'r \<Rightarrow> ((go_err + bytes) \<times> 'r) option" where
  "ReadFull rd n r = io_loop (full_step rd n) ([], r)"

definition br_left :: "bufioReader \<times> peekConn \<Rightarrow> nat" where
  "br_left x = (case x of (br, p) \<Rightarrow> length (br_buf br) + pc_left p + (if br_err br = None then 0 else 1))"

section \<open>Shapes and limits\<close>

definition isTLSClientHello :: "bytes \<Rightarrow> bool" where
  "isTLSClientHello b = (length b \<ge> 6 \<and> b ! 0 = 0x16 \<and> b ! 1 = 0x03 \<and> b ! 2 \<le> 0x04 \<and> b ! 5 = 0x01)"

definition httpMethods :: "string list" where
  "httpMethods = [''GET '', ''POST '', ''HEAD '', ''PUT '', ''DELETE '', ''OPTIONS '', ''PATCH '', ''PRI '', ''CONNECT '']"

definition isHTTPRequest :: "bytes \<Rightarrow> bool" where
  "isHTTPRequest b = list_ex (\<lambda>m. has_prefix b (bytes_of m)) httpMethods"

abbreviation maxUnknownRead :: nat where "maxUnknownRead \<equiv> 65536"
abbreviation maxConnsPerIP :: int where "maxConnsPerIP \<equiv> 64"

definition acquireConn :: "addr \<Rightarrow> (addr \<rightharpoonup> int) \<Rightarrow> (addr \<rightharpoonup> int) \<times> bool" where
  "acquireConn ip conns =
     (let n = (case conns ip of None \<Rightarrow> 0 | Some n \<Rightarrow> n)
      in if n \<ge> maxConnsPerIP then (conns, False) else (conns(ip \<mapsto> n + 1), True))"

definition releaseConn :: "addr \<Rightarrow> (addr \<rightharpoonup> int) \<Rightarrow> (addr \<rightharpoonup> int)" where
  "releaseConn ip conns =
     (let n = (case conns ip of None \<Rightarrow> 0 | Some n \<Rightarrow> n) - 1
      in if n \<le> 0 then conns(ip := None) else conns(ip \<mapsto> n))"

end
