(* ===== verification/Tcp_Serve.thy ===== *)
theory Tcp_Serve
  imports Tcp_Conn
begin

text \<open>
  The protocols of the TCP responder that speak on the bare stream (\<open>internal/server/tcp.go\<close>,
  \<open>tcp_tor.go\<close>): the envelope echo, SOCKS5, obfs4 and unknown payloads, OpenVPN and DNS. A handler takes
  the flow and gives the flow after it; \<open>None\<close> is a panic.
\<close>

section \<open>Flows\<close>

text \<open>An HTTP request as \<open>http.ReadRequest\<close> gives it, the body with the error that ends it.\<close>

record http_req =
  hq_method :: string
  hq_path :: string
  hq_uri :: string
  hq_host :: string
  hq_body :: "bytes \<times> go_err option"

text \<open>What Go's TLS stack makes of a connection: the handshake's error (with its text), the bytes it
  moved over the wire, what was negotiated and the connection inside.\<close>

record tls_outcome =
  to_err :: "(go_err \<times> string) option"
  to_in :: nat
  to_out :: nat
  to_version :: "16 word"
  to_alpn :: string
  to_inner :: conn
  to_http :: "(nat \<times> (go_err + http_req)) list"

text \<open>What a connection brings: the peer, the clock and the other goroutines' operations before each event,
  random bytes, the outcome of TLS for either certificate, and Go's renderings of times.\<close>

record tcp_env =
  te_ip :: addr
  te_ip_str :: string
  te_sport :: int
  te_local :: "bytes list"
  te_clock :: "nat \<Rightarrow> time"
  te_others :: "nat \<Rightarrow> (time \<times> store_op) list"
  te_day :: "time \<Rightarrow> int"
  te_rnd :: "nat \<Rightarrow> nat \<Rightarrow> byte"
  te_draw :: nat
  te_hello :: "tls_hello option"
  te_tls :: "bool \<Rightarrow> tls_outcome"
  te_http :: "(nat \<times> (go_err + http_req)) list"
  te_date :: "time \<Rightarrow> string"
  te_http_date :: "time \<Rightarrow> string"

record tcp_server =
  tv_sv :: server
  tv_obfs4 :: identity

record tcpFlow =
  tf_store :: store
  tf_obs :: observation
  tf_pc :: peekConn
  tf_tls :: "conn option"
  tf_http :: "(nat \<times> (go_err + http_req)) list"
  tf_n :: nat
  tf_ops :: "(bool \<times> time \<times> store_op) list"

text \<open>Events: the other goroutines' operations, a clock reading, a store call, a lookup.\<close>

definition sync :: "tcp_env \<Rightarrow> tcpFlow \<Rightarrow> tcpFlow" where
  "sync e f =
     f\<lparr>tf_store := store_run (tf_store f) (te_others e (tf_n f)), tf_n := tf_n f + 1,
       tf_ops := tf_ops f @ map (Pair False) (te_others e (tf_n f))\<rparr>"

definition tcp_now :: "tcp_env \<Rightarrow> tcpFlow \<Rightarrow> time \<times> tcpFlow" where
  "tcp_now e f = (te_clock e (tf_n f), sync e f)"

definition store_call :: "tcp_env \<Rightarrow> time \<times> store_op \<Rightarrow> tcpFlow \<Rightarrow> store_result \<times> tcpFlow" where
  "store_call e op f =
     (let f = sync e f
      in case store_step (tf_store f) op of (s, r) \<Rightarrow> (r, f\<lparr>tf_store := s, tf_ops := tf_ops f @ [(True, op)]\<rparr>))"

definition store_look :: "tcp_env \<Rightarrow> (store \<Rightarrow> 'a) \<Rightarrow> tcpFlow \<Rightarrow> 'a \<times> tcpFlow" where
  "store_look e g f = (let f = sync e f in (g (tf_store f), f))"

text \<open>Reads, writes and the row of the flow.\<close>

definition tcp_read :: "nat \<Rightarrow> tcpFlow \<Rightarrow> (bytes \<times> go_err option) \<times> tcpFlow" where
  "tcp_read k f = (case pc_Read k (tf_pc f) of (r, p) \<Rightarrow> (r, f\<lparr>tf_pc := p\<rparr>))"

definition tcp_write :: "bytes \<Rightarrow> tcpFlow \<Rightarrow> go_err option \<times> tcpFlow" where
  "tcp_write b f = (case pc_Write b (tf_pc f) of (err, p) \<Rightarrow> (err, f\<lparr>tf_pc := p\<rparr>))"

definition tcp_sniff :: "nat \<Rightarrow> tcpFlow \<Rightarrow> (bytes \<times> go_err option) \<times> tcpFlow" where
  "tcp_sniff k f = (case sniff k (tf_pc f) of (r, p) \<Rightarrow> (r, f\<lparr>tf_pc := p\<rparr>))"

definition set_prefix :: "bytes \<Rightarrow> tcpFlow \<Rightarrow> tcpFlow" where
  "set_prefix b f = f\<lparr>tf_pc := (tf_pc f)\<lparr>pc_prefix := b\<rparr>\<rparr>"

definition tobs :: "(observation \<Rightarrow> observation) \<Rightarrow> tcpFlow \<Rightarrow> tcpFlow" where
  "tobs g f = f\<lparr>tf_obs := g (tf_obs f)\<rparr>"

definition tset :: "string \<Rightarrow> string \<Rightarrow> tcpFlow \<Rightarrow> tcpFlow" where
  "tset k v = tobs (\<lambda>ob. ob\<lparr>obs_detail := (obs_detail ob)(k \<mapsto> v)\<rparr>)"

definition tdetail :: "tcpFlow \<Rightarrow> string \<Rightarrow> string" where
  "tdetail f k = lookup_str (obs_detail (tf_obs f)) k"

definition tparse :: "string \<Rightarrow> tcpFlow \<Rightarrow> tcpFlow" where
  "tparse k = tobs (\<lambda>ob. ob\<lparr>obs_parse := k\<rparr>)"

definition tresponse :: "string \<Rightarrow> tcpFlow \<Rightarrow> tcpFlow" where
  "tresponse r = tobs (\<lambda>ob. ob\<lparr>obs_response := r\<rparr>)"

definition tclose :: "string \<Rightarrow> tcpFlow \<Rightarrow> tcpFlow" where
  "tclose r = tobs (\<lambda>ob. ob\<lparr>obs_close := r\<rparr>)"

definition terror :: "string \<Rightarrow> tcpFlow \<Rightarrow> tcpFlow" where
  "terror r = tobs (\<lambda>ob. ob\<lparr>obs_server_error := r\<rparr>)"

definition tsha :: "bytes \<Rightarrow> tcpFlow \<Rightarrow> tcpFlow" where
  "tsha b = tobs (\<lambda>ob. ob\<lparr>obs_payload_sha := hex_encode (sha256 b)\<rparr>)"

definition hexSum :: "bytes \<Rightarrow> string" where
  "hexSum b = hex_encode (sha256 b)"

definition treplied :: "tcp_env \<Rightarrow> tcpFlow \<Rightarrow> tcpFlow" where
  "treplied e f = (case tcp_now e f of (t, f) \<Rightarrow> tobs (\<lambda>ob. ob\<lparr>obs_replied_at := Some t\<rparr>) f)"

definition correlateEarly :: "tcp_env \<Rightarrow> string \<Rightarrow> tcpFlow \<Rightarrow> tcpFlow \<times> bool" where
  "correlateEarly e kind f =
     (case store_call e (obs_first_seen (tf_obs f), OpFind (te_ip e) ''tcp'' (obs_dst_port (tf_obs f)) kind True) f of
        (Found (Some r), f) \<Rightarrow> (tobs (\<lambda>ob. applyReservation ob r) f, True)
      | (_, f) \<Rightarrow> (tobs (\<lambda>ob. ob\<lparr>obs_unmatched := True\<rparr>) f, False))"

section \<open>Echo streams\<close>

definition echo_step :: "tcp_env \<Rightarrow> nat \<times> nat \<times> tcpFlow \<Rightarrow> ((nat \<times> nat \<times> go_err option \<times> tcpFlow) + nat \<times> nat \<times> tcpFlow) option" where
  "echo_step e x =
     (case x of (dataIn, dataOut, f) \<Rightarrow>
        if dataIn < vpnSessionMaxData then
          (case tcp_read 16384 f of
             ((bs, err), f) \<Rightarrow>
               if bs \<noteq> [] then
                 (case tcp_write bs f of
                    (Some werr, f) \<Rightarrow> Some (Inl (dataIn + 1, dataOut, Some werr, f))
                  | (None, f) \<Rightarrow>
                      let f = treplied e f
                      in if err \<noteq> None then Some (Inl (dataIn + 1, dataOut + 1, err, f)) else Some (Inr (dataIn + 1, dataOut + 1, f)))
               else if err \<noteq> None then Some (Inl (dataIn, dataOut, err, f)) else Some (Inr (dataIn, dataOut, f)))
        else Some (Inl (dataIn, dataOut, None, f)))"

definition quiet_close :: "go_err option \<Rightarrow> tcpFlow \<Rightarrow> tcpFlow" where
  "quiet_close err f = tclose (if closeReason err = ''timeout'' \<or> err = None then ''normal'' else closeReason err) f"

definition tcpEchoStream :: "tcp_env \<Rightarrow> tcpFlow \<Rightarrow> tcpFlow option" where
  "tcpEchoStream e f =
     do {
       (dataIn, dataOut, err, f) \<leftarrow> io_loop (echo_step e) (0, 0, f);
       let f = (if dataIn > 0
                then tset ''data_out'' (itoa (int dataOut)) (tset ''data_in'' (itoa (int dataIn)) (tset ''stage'' ''transport'' f)) else f);
       Some (quiet_close err f)
     }"

section \<open>Envelopes\<close>

definition partial_obs :: "bytes \<Rightarrow> tcpFlow \<Rightarrow> tcpFlow option" where
  "partial_obs buf f =
     (if buf \<noteq> [] \<and> obs_session (tf_obs f) = '''' then
        do {
          (sid, test, nonce, have) \<leftarrow> peek_request buf;
          Some (if have > 0 then
                  let f = tobs (\<lambda>ob. ob\<lparr>obs_session := hex_encode sid\<rparr>) f;
                      f = tset ''partial_bytes'' (itoa (int (length buf))) (tset ''partial'' ''true'' f);
                      f = (if have \<ge> 2 then tobs (\<lambda>ob. ob\<lparr>obs_test := test\<rparr>) f else f)
                  in if have \<ge> 3 then tobs (\<lambda>ob. ob\<lparr>obs_nonce := hex_encode nonce\<rparr>) f else f
                else f)
        }
      else Some f)"

definition serve_envelope :: "tcp_env \<Rightarrow> bytes \<Rightarrow> nat \<Rightarrow> tcpFlow \<Rightarrow> (tcpFlow + bytes \<times> tcpFlow) option" where
  "serve_envelope e buf tot f =
     (case tcp_now e f of
        (seen, f) \<Rightarrow>
          (case tcp_now e f of
             (keyNow, f) \<Rightarrow>
               (case store_look e (\<lambda>s. keyFor s keyNow) f of
                  (kf, f) \<Rightarrow>
                    do {
                      b \<leftarrow> slc buf 0 tot;
                      (req, err) \<leftarrow> decode_request b kf;
                      rest \<leftarrow> from_ix buf tot;
                      let f = (case req of None \<Rightarrow> f | Some r \<Rightarrow> tobs (envelope_obs r) f);
                      if err \<noteq> None then
                        Some (Inl (terror ''envelope mac invalid or session unknown'' (tclose ''server_error''
                               (tresponse ''silence'' (tset ''mac'' ''invalid'' f)))))
                      else do {
                        r \<leftarrow> req;
                        (case store_look e (\<lambda>s. getSession s (req_session r) seen) f of
                           (None, f) \<Rightarrow> None
                         | (Some sess, f) \<Rightarrow>
                             if req_test r \<notin> set (ses_tests sess) then Some (Inl (tclose ''normal'' (tresponse ''refused'' f)))
                             else (case store_call e (seen, OpAllowAttempt (ses_client sess)) f of
                                     (Granted True, f) \<Rightarrow>
                                       (case tcp_now e f of
                                          (replied, f) \<Rightarrow>
                                            (case tcp_write (encode_reply r seen replied (ses_key sess)) f of
                                               (Some werr, f) \<Rightarrow> Some (Inl (tclose (closeReason (Some werr)) f))
                                             | (None, f) \<Rightarrow> Some (Inr (rest, tclose ''normal'' (treplied e (tresponse ''echo'' f))))))
                                   | (_, f) \<Rightarrow> Some (Inl (tclose ''normal'' (tresponse ''refused'' f)))))
                      }
                    })))"

definition env_step :: "tcp_env \<Rightarrow> bytes \<times> tcpFlow \<Rightarrow> (tcpFlow + bytes \<times> tcpFlow) option" where
  "env_step e x =
     (case x of (buf, f) \<Rightarrow>
        do {
          (tot, need) \<leftarrow> request_len buf;
          if tot > 0 then serve_envelope e buf tot f
          else if need > MaxPayload + 512 then Some (Inl (terror ''envelope too large'' (tclose ''server_error'' f)))
          else (case tcp_read 8192 f of
                  ((bs, None), f) \<Rightarrow> Some (Inr (buf @ bs, f))
                | ((bs, Some err), f) \<Rightarrow> map_option Inl (partial_obs (buf @ bs) (tclose (closeReason (Some err)) f)))
        })"

definition tcpEnvelope :: "tcp_env \<Rightarrow> tcpFlow \<Rightarrow> tcpFlow option" where
  "tcpEnvelope e f = io_loop (env_step e) ([], tparse ParseEnvelope f)"

section \<open>SOCKS5\<close>

definition choose_method :: "bytes \<Rightarrow> byte" where
  "choose_method methods =
     (if MethodUser \<in> set methods then MethodUser else if MethodNoAuth \<in> set methods then MethodNoAuth else MethodNone)"

text \<open>The request, read on as long as it does not parse.\<close>

definition socks_req_step ::
  "bytes \<times> go_err option \<times> tcpFlow \<Rightarrow> (((socks_error + socks_request) \<times> bytes \<times> go_err option \<times> tcpFlow) + bytes \<times> go_err option \<times> tcpFlow) option"
where
  "socks_req_step x =
     (case x of (req, err, f) \<Rightarrow>
        do {
          pr \<leftarrow> ParseRequest req;
          (case pr of
             Inr r \<Rightarrow> Some (Inl (Inr r, req, err, f))
           | Inl perr \<Rightarrow>
               if err = None \<and> length req < 262
               then (case tcp_sniff (length req + 1) f of ((req, err), f) \<Rightarrow> Some (Inr (req, err, f)))
               else Some (Inl (Inl perr, req, err, f)))
        })"

definition socks_request :: "tcp_env \<Rightarrow> tcpFlow \<Rightarrow> tcpFlow option" where
  "socks_request e f =
     (case tcp_sniff 7 f of
        ((req, err), f) \<Rightarrow>
          do {
            (pr, req, err, f) \<leftarrow> io_loop socks_req_step (req, err, f);
            (case pr of
               Inl _ \<Rightarrow> Some (tclose (closeReason err) f)
             | Inr r \<Rightarrow>
                 do {
                   rest \<leftarrow> from_ix req (sr_len r);
                   let f = tset ''dst_port'' (itoa (uint (sr_port r))) (tset ''dst_sha256'' (hexSum (bytes_of (sr_host r)))
                             (tset ''dst_len'' (itoa (int (length (sr_host r)))) (tset ''cmd'' (itoa (uint (sr_cmd r))) (set_prefix rest f))));
                   if sr_cmd r \<noteq> CmdConnect
                   then Some (tclose ''normal'' (tresponse ''socks5_refused'' (snd (tcp_write (socks_Reply 7) f))))
                   else (case tcp_write (socks_Reply RepSuccess) f of
                           (Some werr, f) \<Rightarrow> Some (tclose (closeReason (Some werr)) f)
                         | (None, f) \<Rightarrow>
                             do {
                               f \<leftarrow> tcpEchoStream e (treplied e (tresponse ''socks5_connect'' f));
                               Some (if tdetail f ''data_in'' \<noteq> '''' then tresponse ''socks5_connect+echo'' f else f)
                             })
                 })
          })"

text \<open>The sub-negotiation; \<open>Inl\<close> ends the flow.\<close>

definition socks_auth :: "tcpFlow \<Rightarrow> (tcpFlow + tcpFlow) option" where
  "socks_auth f =
     (case tcp_sniff 3 f of
        ((up, err), f) \<Rightarrow>
          do {
            p1 \<leftarrow> ParseUserPass up;
            ul1 \<leftarrow> (if isl p1 \<and> err = None then map_option unat (ix up 1) else Some 0);
            let ((up, err), f) =
              (if isl p1 \<and> err = None \<and> length up < 3 + ul1 + 1 then tcp_sniff (length up + 1) f else ((up, err), f));
            p2 \<leftarrow> ParseUserPass up;
            (case p2 of
               Inl _ \<Rightarrow> Some (Inl (tclose (closeReason err) f))
             | Inr (user, pass) \<Rightarrow>
                 do {
                   plb \<leftarrow> ix up (2 + length user);
                   rest \<leftarrow> from_ix up (2 + length user + (1 + unat plb));
                   let f = tset ''user_len'' (itoa (int (length user))) (set_prefix rest f);
                   Some (case tcp_write (UserPassReply 0) f of
                           (Some werr, f) \<Rightarrow> Inl (tclose (closeReason (Some werr)) f)
                         | (None, f) \<Rightarrow> Inr (tresponse ''socks5_auth'' f))
                 })
          })"

definition tcpSOCKS5 :: "tcp_env \<Rightarrow> tcpFlow \<Rightarrow> tcpFlow option" where
  "tcpSOCKS5 e f =
     (case tcp_sniff 3 (tparse ParseSOCKS5 f) of
        ((greet, err), f) \<Rightarrow>
          if length greet < 3 \<or> \<not> IsGreeting greet then Some (tclose (closeReason err) f)
          else do {
            nm \<leftarrow> ix greet 1;
            let n = 2 + unat nm;
            head \<leftarrow> slc greet 0 n;
            methods \<leftarrow> GreetingMethods head;
            rest \<leftarrow> from_ix greet n;
            (case correlateEarly e ParseSOCKS5 (set_prefix rest f) of
               (f, False) \<Rightarrow> Some (tclose ''normal'' (tresponse ''refused'' (snd (tcp_write (MethodReply MethodNone) f))))
             | (f, True) \<Rightarrow>
                 let chosen = choose_method methods
                 in (case tcp_write (MethodReply chosen) (tset ''method'' (itoa (uint chosen)) f) of
                       (Some werr, f) \<Rightarrow> Some (tclose (closeReason (Some werr)) f)
                     | (None, f) \<Rightarrow>
                         let f = treplied e (tresponse ''socks5_method'' f)
                         in if chosen = MethodNone then Some (tclose ''normal'' f)
                            else if chosen = MethodUser then
                              do {
                                a \<leftarrow> socks_auth f;
                                (case a of Inl f \<Rightarrow> Some f | Inr f \<Rightarrow> socks_request e f)
                              }
                            else socks_request e f))
          })"

section \<open>Unknown payloads and obfs4\<close>

definition tcpObfs4 :: "tcp_server \<Rightarrow> tcp_env \<Rightarrow> bytes \<Rightarrow> nat \<Rightarrow> tcpFlow \<Rightarrow> tcpFlow option" where
  "tcpObfs4 sv e raw n f =
     (case tcp_now e (tset ''handshake_len'' (itoa (int n)) (tparse ParseObfs4 f)) of
        (t, f) \<Rightarrow>
          let resp = ServerResponse (tv_obfs4 sv) t (int n) (te_rnd e 0) (te_rnd e 1) (te_draw e) (te_rnd e 2)
          in (case tcp_write resp f of
                (Some werr, f) \<Rightarrow> Some (tclose (closeReason (Some werr)) f)
              | (None, f) \<Rightarrow>
                  let f = tobs (\<lambda>ob. ob\<lparr>obs_bytes_out := int (length resp)\<rparr>) (treplied e (tresponse ''obfs4_response'' f))
                  in do {
                       f \<leftarrow> (if length raw > n then do { rest \<leftarrow> from_ix raw n; Some (set_prefix (rest @ pc_prefix (tf_pc f)) f) } else Some f);
                       f \<leftarrow> tcpEchoStream e f;
                       Some (if tdetail f ''data_in'' \<noteq> '''' then tresponse ''obfs4_response+echo'' f else f)
                     }))"

definition unknown_step :: "bytes \<times> bytes \<times> tcpFlow \<Rightarrow> ((bytes \<times> bytes \<times> go_err option \<times> tcpFlow) + bytes \<times> bytes \<times> tcpFlow) option" where
  "unknown_step x =
     (case x of (hashed, raw, f) \<Rightarrow>
        if length hashed < maxUnknownRead then
          (case tcp_read 8192 f of
             ((bs, err), f) \<Rightarrow>
               let hashed = hashed @ bs; raw = (if length raw < MaxHandshakeLen + MaxFrame then raw @ bs else raw)
               in if err \<noteq> None then Some (Inl (hashed, raw, err, f)) else Some (Inr (hashed, raw, f)))
        else Some (Inl (hashed, raw, None, f)))"

definition tcpUnknown :: "tcp_server \<Rightarrow> tcp_env \<Rightarrow> tcpFlow \<Rightarrow> tcpFlow option" where
  "tcpUnknown sv e f =
     do {
       (hashed, raw, lastErr, f) \<leftarrow> io_loop unknown_step ([], [], tparse ParseUnknown f);
       let f = tset ''payload_len'' (itoa (int (length hashed))) (tsha hashed f);
       (case tcp_now e f of
          (t, f) \<Rightarrow>
            do {
              (n, found) \<leftarrow> FindClientRequest raw (tv_obfs4 sv) t;
              if found then tcpObfs4 sv e raw n f
              else if lastErr \<noteq> None \<and> closeReason lastErr \<noteq> ''timeout'' then Some (tclose (closeReason lastErr) f)
              else (case tcp_write (take 8 (sha256 hashed)) f of
                      (Some werr, f) \<Rightarrow> Some (tclose (closeReason (Some werr)) f)
                    | (None, f) \<Rightarrow> Some (tclose ''normal'' (treplied e (tresponse ''hash_ack'' f))))
            })
     }"

section \<open>OpenVPN\<close>

abbreviation MaxPacketLen :: nat where "MaxPacketLen \<equiv> 4096"

definition readFrame :: "bufioReader \<Rightarrow> tcpFlow \<Rightarrow> ((go_err + bytes) \<times> bufioReader \<times> tcpFlow) option" where
  "readFrame br f =
     do {
       (r, br, p) \<leftarrow> ReadFull br_Read 2 (br, tf_pc f);
       (case r of
          Inl err \<Rightarrow> Some (Inl err, br, f\<lparr>tf_pc := p\<rparr>)
        | Inr lenb \<Rightarrow>
            let n = be_nat lenb
            in if n = 0 \<or> n > MaxPacketLen then Some (Inl (OtherErr ''bad frame''), br, f\<lparr>tf_pc := p\<rparr>)
               else do {
                 (r, br, p) \<leftarrow> ReadFull br_Read n (br, p);
                 Some (r, br, f\<lparr>tf_pc := p\<rparr>)
               })
     }"

record ovpn_tcp =
  ot_layout :: layout
  ot_br :: bufioReader
  ot_ctlIn :: nat
  ot_ctlOut :: nat
  ot_dataIn :: nat
  ot_dataOut :: nat
  ot_nextPID :: "32 word"
  ot_dataPID :: "32 word"

definition ovpn_data :: "tcp_env \<Rightarrow> (data_key \<times> data_key) option \<Rightarrow> bytes \<Rightarrow> ovpn_tcp \<Rightarrow> tcpFlow \<Rightarrow> go_err option \<times> ovpn_tcp \<times> tcpFlow" where
  "ovpn_data e keys pkt ot f =
     (case keys of
        None \<Rightarrow> (None, ot, tset ''session'' ''no_keys'' f)
      | Some (c2s, s2c) \<Rightarrow>
          (case Open c2s pkt of
             (_, plain, perr) \<Rightarrow>
               if perr \<noteq> None then (None, ot, tset ''auth'' ''failed'' f)
               else let ot = ot\<lparr>ot_dataIn := ot_dataIn ot + 1, ot_dataPID := ot_dataPID ot + 1\<rparr>
                    in (case tcp_write (FrameTCP (Seal s2c 0 (ot_dataPID ot - 1) plain)) f of
                          (Some werr, f) \<Rightarrow> (Some werr, ot, f)
                        | (None, f) \<Rightarrow>
                            (None, ot\<lparr>ot_dataOut := ot_dataOut ot + 1\<rparr>, treplied e (tresponse ''openvpn_reset+control+data'' f)))))"

definition ovpn_control :: "tcp_env \<Rightarrow> bytes \<Rightarrow> bytes \<Rightarrow> bytes \<Rightarrow> ovpn_tcp \<Rightarrow> tcpFlow \<Rightarrow> (go_err option \<times> ovpn_tcp \<times> tcpFlow) option" where
  "ovpn_control e ssid csid pkt ot f =
     do {
       r \<leftarrow> Parse (ot_layout ot) pkt;
       (case r of
          Inl perr \<Rightarrow> Some (if perr = ErrBadHMAC then (None, ot, tset ''mac'' ''invalid'' f) else (Some (OtherErr ''parse''), ot, f))
        | Inr p \<Rightarrow>
            if p_op p = OpAckV1 then Some (None, ot, f)
            else let ot = ot\<lparr>ot_ctlIn := ot_ctlIn ot + 1\<rparr>;
                     f = (if ot_ctlIn ot = 1 \<and> length (p_payload p) \<ge> 6 \<and> p_payload p ! 0 = 0x16 \<and> p_payload p ! 5 = 0x01
                          then tset ''control_payload'' ''tls_client_hello'' f else f)
                 in (case tcp_now e f of
                       (t, f) \<Rightarrow>
                         (case ovpn_Control (ot_layout ot) (unix32 t) ssid (ot_nextPID ot)
                                 (tlsx_Record (control_body (ot_layout ot) (length pkt))) [p_pid p] csid of
                            (la, out) \<Rightarrow>
                              let ot = ot\<lparr>ot_layout := la, ot_nextPID := ot_nextPID ot + 1\<rparr>
                              in Some (case tcp_write (FrameTCP out) f of
                                         (Some werr, f) \<Rightarrow> (Some werr, ot, f)
                                       | (None, f) \<Rightarrow>
                                           (None, ot\<lparr>ot_ctlOut := ot_ctlOut ot + 1\<rparr>,
                                            treplied e (if ot_dataOut ot = 0 then tresponse ''openvpn_reset+control'' f else f))))))
     }"

definition ovpn_step ::
  "tcp_env \<Rightarrow> (data_key \<times> data_key) option \<Rightarrow> bytes \<Rightarrow> bytes \<Rightarrow> ovpn_tcp \<times> tcpFlow \<Rightarrow> ((go_err option \<times> ovpn_tcp \<times> tcpFlow) + ovpn_tcp \<times> tcpFlow) option"
where
  "ovpn_step e keys ssid csid x =
     (case x of (ot, f) \<Rightarrow>
        if ot_ctlIn ot + ot_dataIn ot < vpnSessionMaxData then
          do {
            (r, br, f) \<leftarrow> readFrame (ot_br ot) f;
            let ot = ot\<lparr>ot_br := br\<rparr>;
            (case r of
               Inl err \<Rightarrow> Some (Inl (Some err, ot, f))
             | Inr pkt \<Rightarrow>
                 do {
                   (err, ot, f) \<leftarrow>
                     (if ovpn_IsData pkt then Some (ovpn_data e keys pkt ot f)
                      else if IsControlOp (Opcode pkt) then ovpn_control e ssid csid pkt ot f
                      else Some (Some (OtherErr ''unexpected opcode''), ot, f));
                   Some (if err \<noteq> None then Inl (err, ot, f) else Inr (ot, f))
                 })
          }
        else Some (Inl (None, ot, f)))"

definition ovpn_serve :: "tcp_env \<Rightarrow> bytes \<Rightarrow> layout \<Rightarrow> bytes \<Rightarrow> bufioReader \<Rightarrow> tcpFlow \<Rightarrow> tcpFlow option" where
  "ovpn_serve e csid la ssid br f =
     (case correlateEarly e ParseOpenVPN f of
        (f, matched) \<Rightarrow>
          (case (if matched
                 then (case tcp_now e f of (t, f) \<Rightarrow> store_look e (\<lambda>s. sessionKeyByHex s (obs_session (tf_obs f)) t) f)
                 else (None, f)) of
             (key, f) \<Rightarrow>
               let keys = map_option (\<lambda>k. DeriveDataKeys k (obs_attempt (tf_obs f))) key;
                   ot = \<lparr>ot_layout = la, ot_br = br, ot_ctlIn = 0, ot_ctlOut = 0, ot_dataIn = 0, ot_dataOut = 0, ot_nextPID = 1, ot_dataPID = 1\<rparr>
               in do {
                    (err, ot, f) \<leftarrow> io_loop (ovpn_step e keys ssid csid) (ot, f);
                    let f = (if ot_ctlIn ot > 0 \<or> ot_dataIn ot > 0
                             then tset ''data_out'' (itoa (int (ot_dataOut ot))) (tset ''data_in'' (itoa (int (ot_dataIn ot)))
                                    (tset ''ctl_out'' (itoa (int (ot_ctlOut ot))) (tset ''ctl_in'' (itoa (int (ot_ctlIn ot)))
                                      (tset ''stage'' ''transport'' f)))) else f);
                    Some (quiet_close err f)
                  }))"

definition tcpOpenVPN :: "tcp_server \<Rightarrow> tcp_env \<Rightarrow> tcpFlow \<Rightarrow> tcpFlow option" where
  "tcpOpenVPN sv e f =
     do {
       (r, br, f) \<leftarrow> readFrame (new_reader 4096) (tparse ParseOpenVPN f);
       (case r of
          Inl err \<Rightarrow> Some (tclose (closeReason (Some err)) f)
        | Inr pkt \<Rightarrow>
            (case IsClientReset pkt of
               (auth, False) \<Rightarrow> Some (tclose ''normal'' (tparse ParseUnknown f))
             | (auth, True) \<Rightarrow>
                 let f = tset ''control_auth'' (Auth_String auth) f; la = ovpnLayout (tv_sv sv) auth
                 in do {
                      c \<leftarrow> ParseClientReset la pkt;
                      (case c of
                         Inl perr \<Rightarrow> Some (tclose ''normal'' (if perr = ErrBadHMAC then tset ''mac'' ''invalid'' f else f))
                       | Inr csid \<Rightarrow>
                           (case tcp_now e (tsha pkt (tset ''client_session'' (hex_encode csid) f)) of
                              (t, f) \<Rightarrow>
                                let ssid = rnd_bytes (te_rnd e 0) 8
                                in (case ServerReset la (unix32 t) csid ssid of
                                      (la, out) \<Rightarrow>
                                        (case tcp_write (FrameTCP out) f of
                                           (Some werr, f) \<Rightarrow> Some (tclose (closeReason (Some werr)) f)
                                         | (None, f) \<Rightarrow> ovpn_serve e csid la ssid br (treplied e (tresponse ''openvpn_reset'' f))))))
                    }))
     }"

section \<open>DNS\<close>

definition tcpDNS :: "tcp_server \<Rightarrow> tcp_env \<Rightarrow> bool \<Rightarrow> tcpFlow \<Rightarrow> tcpFlow option" where
  "tcpDNS sv e viaTLS f =
     (let f = tparse ParseDNS f; f = (if viaTLS then tset ''via'' ''dot'' f else f)
      in do {
           (r, p) \<leftarrow> ReadFull pc_Read 2 (tf_pc f);
           let f = f\<lparr>tf_pc := p\<rparr>;
           (case r of
              Inl err \<Rightarrow> Some (tclose (closeReason (Some err)) (tparse ParseUnknown f))
            | Inr lenb \<Rightarrow>
                let n = be_nat lenb
                in if n = 0 \<or> n > 4096 then Some (tclose ''normal'' (tparse ParseUnknown f))
                   else do {
                     (r, p) \<leftarrow> ReadFull pc_Read n (tf_pc f);
                     let f = f\<lparr>tf_pc := p\<rparr>;
                     (case r of
                        Inl err \<Rightarrow> Some (tclose (closeReason (Some err)) f)
                      | Inr msg \<Rightarrow>
                          (case dns_ParseQuery (sv_dns (tv_sv sv)) msg of
                             Inl _ \<Rightarrow> Some (tclose ''normal'' (tparse ParseUnknown f))
                           | Inr q \<Rightarrow>
                               let f = tsha msg (tset ''qtype'' (dl_type_string (sv_dns (tv_sv sv)) (q_type q)) (tset ''qname'' (q_name q) f));
                                   sid = sessionFromQName (q_name q);
                                   f = tobs (\<lambda>ob. ob\<lparr>obs_session := sid\<rparr>) f;
                                   f = (if sid \<noteq> '''' then tobs (\<lambda>ob. ob\<lparr>obs_test := testFromQName (sv_zone (tv_sv sv)) (q_name q)\<rparr>) f else f)
                               in (case BuildAnswerFrom (sv_dns (tv_sv sv)) (sv_zone (tv_sv sv)) q (te_ip_str e) of
                                     Inl _ \<Rightarrow> Some (terror (dl_error_string (sv_dns (tv_sv sv))) (tclose ''server_error'' f))
                                   | Inr ans \<Rightarrow>
                                       (case tcp_write (be16 (word_of_nat (length ans)) @ ans) f of
                                          (Some werr, f) \<Rightarrow> Some (tclose (closeReason (Some werr)) f)
                                        | (None, f) \<Rightarrow> Some (tclose ''normal'' (treplied e (tresponse ''dns_answer'' f)))))))
                   })
         })"

end
