(* ===== verification/Tcp_Accept.thy ===== *)
theory Tcp_Accept
  imports Tcp_Serve
begin

text \<open>
  The protocols of the TCP responder on top of HTTP and TLS, and the whole flow: the HTTP echo, bulk
  transfers (\<open>internal/server/bulk.go\<close>), the Tor directory and link (\<open>tcp_tor.go\<close>), the TLS terminator, DNS over
  TLS, the dispatch on the first bytes and the row written at the end (\<open>tcp.go\<close>). \<open>http.ReadRequest\<close> and
  the TLS stack are the standard library's: the requests read from a connection and the outcome of a
  handshake come with the environment.
\<close>

section \<open>HTTP\<close>

definition crlf :: string where "crlf = [CHR 0x0D, CHR 0x0A]"

text \<open>\<open>http.ReadRequest\<close>: the next request of the connection, with the bytes taken from the wire for it.\<close>

definition ReadRequest :: "tcpFlow \<Rightarrow> (go_err + http_req) \<times> tcpFlow" where
  "ReadRequest f =
     (case tf_http f of
        [] \<Rightarrow> (Inl EOF, f)
      | (n, r) # rest \<Rightarrow> (r, f\<lparr>tf_http := rest, tf_pc := (tf_pc f)\<lparr>pc_in := pc_in (tf_pc f) + n\<rparr>\<rparr>))"

text \<open>Reading a body through \<open>io.LimitReader\<close>.\<close>

definition limit_body :: "nat \<Rightarrow> http_req \<Rightarrow> bytes \<times> go_err option" where
  "limit_body k r = (case hq_body r of (b, err) \<Rightarrow> if k \<le> length b then (take k b, None) else (b, err))"

definition StatusText :: "nat \<Rightarrow> string" where
  "StatusText c =
     (if c = 400 then ''Bad Request'' else if c = 403 then ''Forbidden'' else if c = 413 then ''Request Entity Too Large'' else '''')"

definition writeSimple :: "nat \<Rightarrow> string \<Rightarrow> tcpFlow \<Rightarrow> tcpFlow" where
  "writeSimple code msg f =
     snd (tcp_write (bytes_of (''HTTP/1.1 '' @ utoa code @ '' '' @ StatusText code @ crlf @ ''Content-Type: text/plain'' @ crlf
            @ ''Content-Length: '' @ utoa (length msg) @ crlf @ ''Connection: close'' @ crlf @ crlf @ msg)) f)"

section \<open>Bulk transfers\<close>

abbreviation bulkMaxChunk :: nat where "bulkMaxChunk \<equiv> 65536"
abbreviation bulkMaxDownload :: int where "bulkMaxDownload \<equiv> 8388608"

record bulkState =
  bs_up :: int
  bs_down :: int
  bs_chunks :: int
  bs_last :: int

definition bulk_finish :: "bulkState \<Rightarrow> string \<Rightarrow> tcpFlow \<Rightarrow> tcpFlow" where
  "bulk_finish b reason f =
     tclose reason (tset ''bulk_last_seq'' (itoa (bs_last b)) (tset ''bulk_chunks'' (itoa (bs_chunks b))
       (tset ''bulk_down_bytes'' (itoa (bs_down b)) (tset ''bulk_up_bytes'' (itoa (bs_up b)) f))))"

definition bulk_header :: "string \<Rightarrow> nat \<Rightarrow> string \<Rightarrow> string" where
  "bulk_header ctype n nonce =
     ''HTTP/1.1 200 OK'' @ crlf @ ''Content-Type: '' @ ctype @ crlf @ ''Content-Length: '' @ utoa n @ crlf
     @ ''Cache-Control: no-store'' @ crlf @ ''X-CP1-Nonce: '' @ nonce @ crlf @ crlf"

definition bulk_up :: "tcp_env \<Rightarrow> http_req \<Rightarrow> bulkRequest \<Rightarrow> bulkState \<Rightarrow> tcpFlow \<Rightarrow> tcpFlow + bulkState \<times> tcpFlow" where
  "bulk_up e req b bs f =
     (case limit_body (bulkMaxChunk + 1) req of
        (body, Some err) \<Rightarrow> Inl (bulk_finish bs (closeReason (Some err)) f)
      | (body, None) \<Rightarrow>
          let n = length body;
              tooLarge = (\<lambda>f. Inl (bulk_finish bs ''normal'' (writeSimple 413 ''chunk too large or bulk quota exhausted'' f)))
          in if n > bulkMaxChunk then tooLarge f
             else (case tcp_now e f of
                     (t, f) \<Rightarrow>
                       (case store_call e (t, OpBulk (te_ip e) (int n) (te_day e t)) f of
                          (Granted True, f) \<Rightarrow>
                            let bs = bs\<lparr>bs_up := bs_up bs + int n, bs_chunks := bs_chunks bs + 1, bs_last := bk_n b\<rparr>;
                                doc = [CHR ''{''] @ json_string ''bytes'' @ '':'' @ utoa n @ '','' @ json_string ''seq'' @ '':'' @ itoa (bk_n b) @ '',''
                                      @ json_string ''total_in'' @ '':'' @ itoa (bs_up bs) @ ''}''
                            in (case tcp_write (bytes_of (bulk_header ''application/json'' (length doc) (bk_nonce b) @ doc)) f of
                                  (Some werr, f) \<Rightarrow> Inl (bulk_finish bs (closeReason (Some werr)) f)
                                | (None, f) \<Rightarrow> Inr (bs, f))
                        | (_, f) \<Rightarrow> tooLarge f)))"

definition down_step :: "string \<Rightarrow> nat \<Rightarrow> nat \<times> tcpFlow \<Rightarrow> ((go_err option \<times> nat \<times> tcpFlow) + nat \<times> tcpFlow) option" where
  "down_step nonce want x =
     (case x of (off, f) \<Rightarrow>
        if off < want then
          let n = (if want - off < 4096 then want - off else 4096)
          in (case tcp_write (Keystream nonce off n) f of
                (Some werr, f) \<Rightarrow> Some (Inl (Some werr, off, f))
              | (None, f) \<Rightarrow> Some (Inr (off + n, f)))
        else Some (Inl (None, off, f)))"

definition bulk_down :: "tcp_env \<Rightarrow> bulkRequest \<Rightarrow> bulkState \<Rightarrow> tcpFlow \<Rightarrow> (tcpFlow + bulkState \<times> tcpFlow) option" where
  "bulk_down e b bs f =
     (let want = bk_n b;
          tooLarge = (\<lambda>f. Some (Inl (bulk_finish bs ''normal'' (writeSimple 413 ''download too large or bulk quota exhausted'' f))))
      in if want \<le> 0 \<or> want > bulkMaxDownload then tooLarge f
         else (case tcp_now e f of
                 (t, f) \<Rightarrow>
                   (case store_call e (t, OpBulk (te_ip e) want (te_day e t)) f of
                      (Granted True, f) \<Rightarrow>
                        (case tcp_write (bytes_of (bulk_header ''application/octet-stream'' (nat want) (bk_nonce b))) f of
                           (Some werr, f) \<Rightarrow> Some (Inl (bulk_finish bs (closeReason (Some werr)) f))
                         | (None, f) \<Rightarrow>
                             do {
                               (werr, off, f) \<leftarrow> io_loop (down_step (bk_nonce b) (nat want)) (0, f);
                               Some (if werr \<noteq> None
                                     then Inl (bulk_finish bs (closeReason werr) (tset ''bulk_down_sent'' (itoa (int off)) f))
                                     else Inr (bs\<lparr>bs_down := bs_down bs + int off, bs_chunks := bs_chunks bs + 1, bs_last := bk_n b\<rparr>, f))
                             })
                    | (_, f) \<Rightarrow> tooLarge f)))"

definition bulk_step :: "tcp_env \<Rightarrow> bulkRequest \<Rightarrow> http_req \<times> bulkState \<times> tcpFlow \<Rightarrow> (tcpFlow + http_req \<times> bulkState \<times> tcpFlow) option" where
  "bulk_step e first x =
     (case x of (req, bs, f) \<Rightarrow>
        (case ParseBulkPath (hq_path req) of
           None \<Rightarrow> Some (Inl (bulk_finish bs ''normal'' (writeSimple 400 ''bulk path mismatch'' f)))
         | Some b \<Rightarrow>
             if bk_session b \<noteq> bk_session first \<or> bk_nonce b \<noteq> bk_nonce first
             then Some (Inl (bulk_finish bs ''normal'' (writeSimple 400 ''bulk path mismatch'' f)))
             else do {
               r \<leftarrow> (if bk_dir b = ''up'' then Some (bulk_up e req b bs f)
                     else if bk_dir b = ''down'' then bulk_down e b bs f else Some (Inr (bs, f)));
               (case r of
                  Inl f \<Rightarrow> Some (Inl f)
                | Inr (bs, f) \<Rightarrow>
                    (case ReadRequest (tresponse (''bulk_'' @ bk_dir b) (treplied e f)) of
                       (Inl err, f) \<Rightarrow> Some (Inl (bulk_finish bs (closeReason (Some err)) f))
                     | (Inr req, f) \<Rightarrow> Some (Inr (req, bs, f))))
             }))"

definition tcpBulk :: "tcp_env \<Rightarrow> http_req \<Rightarrow> bulkRequest \<Rightarrow> tcpFlow \<Rightarrow> tcpFlow option" where
  "tcpBulk e req first f =
     (let f = tobs (\<lambda>ob. ob\<lparr>obs_parse := ParseHTTP, obs_session := bk_session first, obs_test := bk_test first, obs_nonce := bk_nonce first\<rparr>) f;
          f = tset ''bulk'' (bk_dir first) f;
          bs = \<lparr>bs_up = 0, bs_down = 0, bs_chunks = 0, bs_last = -1\<rparr>
      in case tcp_now e f of
           (t, f) \<Rightarrow>
             (case store_look e (\<lambda>s. sessionByHex s (bk_session first) t) f of
                (None, f) \<Rightarrow> Some (bulk_finish bs ''normal'' (writeSimple 403 ''unknown session or test not granted'' f))
              | (Some sess, f) \<Rightarrow>
                  if bk_test first \<notin> set (ses_tests sess)
                  then Some (bulk_finish bs ''normal'' (writeSimple 403 ''unknown session or test not granted'' f))
                  else io_loop (bulk_step e first) (req, bs, f)))"

section \<open>The HTTP echo and the Tor directory\<close>

definition tcpTorDir :: "tcp_env \<Rightarrow> http_req \<Rightarrow> tcpFlow \<Rightarrow> tcpFlow option" where
  "tcpTorDir e req f =
     (case tcp_now e (tset ''method'' (hq_method req) (tset ''tor_dir'' ''true'' (tset ''path'' (hq_path req) f))) of
        (t, f) \<Rightarrow>
          let nl = [CHR 0x0A];
              body = ''network-status-version 3 microdesc'' @ nl @ ''vote-status consensus'' @ nl @ ''consensus-method 33'' @ nl
                     @ ''valid-after '' @ te_date e t @ nl @ ''fresh-until '' @ te_date e (t + sec 7200) @ nl
                     @ ''valid-until '' @ te_date e (t + sec 10800) @ nl @ ''voting-delay 300 300'' @ nl
                     @ ''client-versions 0.4.8.14,0.4.9.12'' @ nl @ ''server-versions 0.4.8.14,0.4.9.12'' @ nl
                     @ ''known-flags Authority BadExit Exit Fast Guard HSDir MiddleOnly NoEdConsensus Running Stable StaleDesc Sybil V2Dir Valid'' @ nl
                     @ ''params CircuitPriorityHalflifeMsec=30000 DoSCircuitCreationEnabled=1'' @ nl;
              resp = ''HTTP/1.0 200 OK'' @ crlf @ ''Date: '' @ te_http_date e t @ crlf @ ''Content-Type: text/plain'' @ crlf
                     @ ''X-Your-Address-Is: '' @ te_ip_str e @ crlf @ ''Content-Length: '' @ utoa (length body) @ crlf @ crlf @ body
          in Some (case tcp_write (bytes_of resp) f of
                     (Some werr, f) \<Rightarrow> tclose (closeReason (Some werr)) f
                   | (None, f) \<Rightarrow> tclose ''normal'' (treplied e (tresponse ''http_200'' f))))"

definition tcpHTTP :: "tcp_env \<Rightarrow> tcpFlow \<Rightarrow> tcpFlow option" where
  "tcpHTTP e f =
     (case ReadRequest (tparse ParseHTTP f) of
        (Inl err, f) \<Rightarrow> Some (tclose (closeReason (Some err)) (tparse ParseUnknown f))
      | (Inr req, f) \<Rightarrow>
          (case ParseBulkPath (hq_path req) of
             Some b \<Rightarrow> tcpBulk e req b f
           | None \<Rightarrow>
               if has_prefix (hq_path req) ''/tor/'' then tcpTorDir e req f
               else let body = fst (limit_body 65536 req);
                        f = tset ''path'' (hq_path req) (tset ''method'' (hq_method req) f);
                        f = tset ''host_len'' (itoa (int (length (hq_host req)))) (tset ''host_sha256'' (hexSum (bytes_of (hq_host req))) f);
                        f = tsha (bytes_of (hq_method req @ '' '' @ hq_uri req @ '' '' @ hq_host req @ [CHR 0x0A]) @ body) f;
                        f = (case ParsePath (hq_path req) of
                               None \<Rightarrow> f
                             | Some (sid, test, nonce) \<Rightarrow> tobs (\<lambda>ob. ob\<lparr>obs_session := sid, obs_test := test, obs_nonce := nonce\<rparr>) f);
                        nonce = obs_nonce (tf_obs f);
                        resp = Body (hq_host req) (hq_path req) nonce;
                        hdr = ''HTTP/1.1 200 OK'' @ crlf @ ''Content-Type: application/json'' @ crlf @ ''Content-Length: '' @ utoa (length resp) @ crlf
                              @ ''Cache-Control: no-store'' @ crlf @ ''Connection: close'' @ crlf @ ''X-CP1-Nonce: '' @ nonce @ crlf @ crlf
                    in Some (case tcp_write (bytes_of hdr @ resp) f of
                               (Some werr, f) \<Rightarrow> tclose (closeReason (Some werr)) f
                             | (None, f) \<Rightarrow> tclose ''normal'' (treplied e (tresponse ''http_200'' f)))))"

section \<open>The Tor link\<close>

definition wantTorCert :: "tcp_env \<Rightarrow> tls_hello \<Rightarrow> tcpFlow \<Rightarrow> bool \<times> tcpFlow" where
  "wantTorCert e h f =
     (let torHello = tor_IsClientHello (Some h);
          f = (if torHello then tset ''hello_shape'' ''tor'' f else f);
          otherwise = (\<lambda>f. if torHello then (True, tset ''cert'' ''tor'' f) else (False, f))
      in case tcp_now e f of
           (t, f) \<Rightarrow>
             (case store_look e (\<lambda>s. peekReservation s (te_ip e) ''tcp'' (obs_dst_port (tf_obs f)) ParseTLS t) f of
                ((test, variant), f) \<Rightarrow>
                  if has_prefix test ''tor.'' \<and> (torHello \<or> ch_server_name h = '''') then
                    if str_contains variant ''probe-cert'' then (False, f)
                    else if str_contains variant ''tor-cert'' then (True, tset ''cert'' ''tor'' f)
                    else otherwise f
                  else otherwise f))"

definition versions_step :: "bytes \<times> tcpFlow \<Rightarrow> (((16 word list \<times> bytes) option \<times> tcpFlow) + bytes \<times> tcpFlow) option" where
  "versions_step x =
     (case x of (buf, f) \<Rightarrow>
        do {
          r \<leftarrow> ParseVersions buf;
          (case r of
             Inl _ \<Rightarrow> Some (Inl (None, tclose ''normal'' (tset ''link'' ''bad_versions'' f)))
           | Inr (vs, n) \<Rightarrow>
               if n > 0 then do { rest \<leftarrow> from_ix buf n; Some (Inl (Some (vs, rest), f)) }
               else (case tcp_read 4096 f of
                       ((bs, None), f) \<Rightarrow> Some (Inr (buf @ bs, f))
                     | ((bs, Some err), f) \<Rightarrow> Some (Inl (None, tclose (closeReason (Some err)) f))))
        })"

record torState =
  ts_buf :: bytes
  ts_dataIn :: nat
  ts_dataOut :: nat
  ts_cells :: nat

definition tor_cell :: "tcp_env \<Rightarrow> cell \<Rightarrow> torState \<Rightarrow> tcpFlow \<Rightarrow> (torState \<times> tcpFlow) + torState \<times> tcpFlow" where
  "tor_cell e c ts f =
     (if cell_cmd c = CmdNetinfo then Inr (ts, tset ''netinfo'' ''received'' f)
      else if cell_cmd c = CmdCreateFast then
        let ts = ts\<lparr>ts_dataIn := ts_dataIn ts + 1\<rparr>
        in if ts_dataIn ts > vpnSessionMaxData then Inr (ts, tresponse ''refused'' f)
           else (case tcp_write (CreatedFastCell (cell_circ c) (te_rnd e (10 + ts_dataOut ts))) f of
                   (Some werr, f) \<Rightarrow> Inl (ts, tclose (closeReason (Some werr)) f)
                 | (None, f) \<Rightarrow> Inr (ts\<lparr>ts_dataOut := ts_dataOut ts + 1\<rparr>, treplied e f))
      else if cell_cmd c = CmdPadding \<or> cell_cmd c = CmdVPadding then Inr (ts, f)
      else Inr (ts, tset ''unexpected_cell'' (CmdName (cell_cmd c)) f))"

definition cells_step :: "tcp_env \<Rightarrow> torState \<times> tcpFlow \<Rightarrow> ((torState \<times> tcpFlow) + torState \<times> tcpFlow) option" where
  "cells_step e x =
     (case x of (ts, f) \<Rightarrow>
        if ts_cells ts < 4 * vpnSessionMaxData then
          do {
            (c, n) \<leftarrow> ParseCell (ts_buf ts);
            if n = 0 then
              Some (case tcp_read 4096 f of
                      ((bs, None), f) \<Rightarrow> Inr (ts\<lparr>ts_buf := ts_buf ts @ bs\<rparr>, f)
                    | ((bs, Some err), f) \<Rightarrow> Inl (ts, tclose (if closeReason (Some err) = ''timeout'' then ''normal'' else closeReason (Some err)) f))
            else do {
              rest \<leftarrow> from_ix (ts_buf ts) n;
              Some (tor_cell e c (ts\<lparr>ts_buf := rest, ts_cells := ts_cells ts + 1\<rparr>) f)
            }
          }
        else Some (Inl (ts, f)))"

text \<open>\<open>netip.Addr.AsSlice\<close>, and \<open>fmt.Sprint\<close> of a slice of numbers.\<close>

definition AsSlice :: "addr \<Rightarrow> bytes" where
  "AsSlice a = (case a of AddrZero \<Rightarrow> [] | Addr4 w \<Rightarrow> be32 w | Addr6 w _ \<Rightarrow> be_bytes 16 (unat w))"

definition sprint_u16s :: "16 word list \<Rightarrow> string" where
  "sprint_u16s vs = ''['' @ join_with '' '' (map (\<lambda>v. itoa (uint v)) vs) @ '']''"

definition link_cells :: "tcp_env \<Rightarrow> bytes \<Rightarrow> tcpFlow \<Rightarrow> tcpFlow option" where
  "link_cells e buf f =
     do {
       (ts, f) \<leftarrow> io_loop (cells_step e) (\<lparr>ts_buf = buf, ts_dataIn = 0, ts_dataOut = 0, ts_cells = 0\<rparr>, f);
       let f = (if ts_dataIn ts > 0
                then tresponse ''server_hello+tor_versions+created_fast'' (tset ''data_out'' (itoa (int (ts_dataOut ts)))
                       (tset ''data_in'' (itoa (int (ts_dataIn ts))) (tset ''stage'' ''transport'' f))) else f);
       Some (if obs_close (tf_obs f) = '''' \<or> obs_close (tf_obs f) = ''n/a'' then tclose ''normal'' f else f)
     }"

definition tcpTorLink :: "tcp_env \<Rightarrow> tcpFlow \<Rightarrow> tcpFlow option" where
  "tcpTorLink e f =
     do {
       (r, f) \<leftarrow> io_loop versions_step ([], tset ''inner'' ''tor_link'' f);
       (case r of
          None \<Rightarrow> Some f
        | Some (theirs, buf) \<Rightarrow>
            let v = Negotiate tor_Versions theirs;
                f = tset ''link_version'' (itoa (uint v)) (tset ''link_versions_offered'' (sprint_u16s theirs) f)
            in if v < 4 then Some (tclose ''normal'' (tresponse ''tor_versions_mismatch'' f))
               else (case tcp_now e f of
                       (t, f) \<Rightarrow>
                         let out = VersionsCell tor_Versions @ CertsCell (\<lambda>i. te_rnd e (100 + i)) @ AuthChallengeCell (te_rnd e 4)
                                   @ NetinfoCell t (AsSlice (te_ip e)) (te_local e)
                         in (case tcp_write out f of
                               (Some werr, f) \<Rightarrow> Some (tclose (closeReason (Some werr)) f)
                             | (None, f) \<Rightarrow> link_cells e buf (treplied e (tresponse ''server_hello+tor_versions'' f)))))
     }"

section \<open>TLS\<close>

definition version_name :: "16 word \<Rightarrow> string" where
  "version_name x =
     (if x = 0x0301 then ''1.0'' else if x = 0x0302 then ''1.1'' else if x = 0x0303 then ''1.2'' else if x = 0x0304 then ''1.3''
      else ''0x'' @ hex_encode (be16 x))"

definition fmtVersions :: "16 word list \<Rightarrow> string" where
  "fmtVersions v = join_with '','' (map version_name v)"

definition helloFingerprint :: "tls_hello \<Rightarrow> string" where
  "helloFingerprint h =
     take 24 (hexSum (concat (map be16 (ch_versions h)) @ bytes_of ''|'' @ concat (map be16 (ch_ciphers h)) @ bytes_of ''|''
       @ concat (map be16 (ch_curves h)) @ bytes_of ''|'' @ ch_points h @ bytes_of ''|'' @ concat (map be16 (ch_sigs h)) @ bytes_of ''|''
       @ bytes_of (join_with '','' (ch_protos h))))"

definition hello_details :: "tls_hello option \<Rightarrow> tcpFlow \<Rightarrow> tcpFlow" where
  "hello_details hello f =
     (case hello of
        None \<Rightarrow> f
      | Some h \<Rightarrow>
          tset ''hello_fp'' (helloFingerprint h) (tset ''cipher_count'' (itoa (int (length (ch_ciphers h))))
            (tset ''versions'' (fmtVersions (ch_versions h)) (tset ''alpn'' (join_with '','' (ch_protos h))
              (tset ''sni_sha256'' (hexSum (bytes_of (ch_server_name h))) (tset ''sni'' (ch_server_name h) f))))))"

text \<open>A handler on the inner connection with a row of its own; the outer connection and row come back after it.\<close>

definition on_inner :: "(tcpFlow \<Rightarrow> tcpFlow option) \<Rightarrow> (observation \<Rightarrow> observation \<Rightarrow> observation) \<Rightarrow> peekConn \<Rightarrow> observation \<Rightarrow> tcpFlow \<Rightarrow> tcpFlow option" where
  "on_inner h merge inner row f =
     map_option (\<lambda>f'. f'\<lparr>tf_pc := tf_pc f, tf_tls := Some (pc_conn (tf_pc f')), tf_obs := merge (tf_obs f) (tf_obs f')\<rparr>) (h (f\<lparr>tf_pc := inner, tf_obs := row\<rparr>))"

definition merge_envelope :: "observation \<Rightarrow> observation \<Rightarrow> observation" where
  "merge_envelope ob sub =
     (let d = foldl (\<lambda>d k. if lookup_str (obs_detail sub) k \<noteq> '''' then d(k \<mapsto> lookup_str (obs_detail sub) k) else d) (obs_detail ob)
                [''partial'', ''partial_bytes'', ''mac'']
      in ob\<lparr>obs_session := obs_session sub, obs_test := obs_test sub, obs_nonce := obs_nonce sub, obs_seq := obs_seq sub,
            obs_payload_sha := obs_payload_sha sub, obs_detail := d,
            obs_response := (if obs_response sub = ''echo'' then ''server_hello+echo'' else obs_response ob),
            obs_close := obs_close sub, obs_server_error := obs_server_error sub\<rparr>)"

definition merge_vless :: "observation \<Rightarrow> observation \<Rightarrow> observation" where
  "merge_vless ob sub =
     ob\<lparr>obs_detail := obs_detail ob ++ obs_detail sub,
        obs_response := (if lookup_str (obs_detail sub) ''data_in'' \<noteq> '''' then ''server_hello+vless+echo'' else obs_response ob),
        obs_close := obs_close sub\<rparr>"

definition merge_http :: "observation \<Rightarrow> observation \<Rightarrow> observation" where
  "merge_http ob sub =
     ob\<lparr>obs_session := obs_session sub, obs_test := obs_test sub, obs_nonce := obs_nonce sub,
        obs_detail := obs_detail ob ++ (\<lambda>k. if has_prefix k ''http_'' then obs_detail sub (drop 5 k) else None),
        obs_response := (if obs_response sub = ''http_200'' then ''server_hello+http_200'' else obs_response ob),
        obs_close := obs_close sub\<rparr>"

definition merge_unknown :: "observation \<Rightarrow> observation \<Rightarrow> observation" where
  "merge_unknown ob sub = ob\<lparr>obs_close := obs_close sub\<rparr>"

definition tls_vless :: "tcp_env \<Rightarrow> bytes \<Rightarrow> peekConn \<Rightarrow> tcpFlow \<Rightarrow> tcpFlow option" where
  "tls_vless e first inner f =
     do {
       pr \<leftarrow> vless_Parse first;
       (case pr of
          Inl _ \<Rightarrow> None
        | Inr r \<Rightarrow>
            do {
              rest \<leftarrow> from_ix first (vp_len r);
              let f = tset ''vless_dst_sha256'' (hexSum (bytes_of (vp_host r))) (tset ''vless_dst_len'' (itoa (int (length (vp_host r))))
                        (tset ''vless_cmd'' (itoa (uint (vp_cmd r))) (tparse ParseVLESS f)));
              (case pc_Write vless_Response (inner\<lparr>pc_prefix := rest\<rparr>) of
                 (Some werr, inner) \<Rightarrow> Some (tclose (closeReason (Some werr)) (f\<lparr>tf_tls := Some (pc_conn inner)\<rparr>))
               | (None, inner) \<Rightarrow>
                   on_inner (tcpEchoStream e) merge_vless inner zero_observation (treplied e (tresponse ''server_hello+vless'' f)))
            })
     }"

definition tls_inner :: "tcp_server \<Rightarrow> tcp_env \<Rightarrow> bytes \<Rightarrow> peekConn \<Rightarrow> tcpFlow \<Rightarrow> tcpFlow option" where
  "tls_inner sv e first inner f =
     (if is_envelope first then on_inner (tcpEnvelope e) merge_envelope inner zero_observation f
      else if IsVersionsCell first then on_inner (tcpTorLink e) (\<lambda>_ ob. ob) inner (tf_obs f) f
      else if vless_IsRequest first then tls_vless e first inner f
      else if isHTTPRequest first then on_inner (tcpHTTP e) merge_http inner zero_observation f
      else on_inner (tcpUnknown sv e) merge_unknown inner zero_observation f)"

definition tls_moved :: "tls_outcome \<Rightarrow> tcpFlow \<Rightarrow> tcpFlow" where
  "tls_moved out f = f\<lparr>tf_pc := (tf_pc f)\<lparr>pc_in := pc_in (tf_pc f) + to_in out, pc_out := pc_out (tf_pc f) + to_out out\<rparr>, tf_http := to_http out\<rparr>"

definition tcpTLS :: "tcp_server \<Rightarrow> tcp_env \<Rightarrow> tcpFlow \<Rightarrow> tcpFlow option" where
  "tcpTLS sv e f =
     (let f = tparse ParseTLS f
      in case (case te_hello e of None \<Rightarrow> (False, f) | Some h \<Rightarrow> wantTorCert e h f) of
           (torCert, f) \<Rightarrow>
             let out = te_tls e torCert; f = hello_details (te_hello e) (tls_moved out f)
             in (case to_err out of
                   Some (err, txt) \<Rightarrow>
                     Some (tclose (if closeReason (Some err) = ''server_error'' then ''normal'' else closeReason (Some err))
                            (terror txt (tresponse ''handshake_failed'' f)))
                 | None \<Rightarrow>
                     let f = tset ''negotiated_alpn'' (to_alpn out) (tset ''negotiated_version'' (fmtVersions [to_version out]) f);
                         f = treplied e (tresponse ''server_hello'' f)
                     in (case sniff 1 (new_peek (to_inner out)) of
                           ((first, err), inner) \<Rightarrow>
                             if first = [] then Some (tclose (closeReason err) f)
                             else let inner = (if length first < 24 then snd (sniff 24 inner) else inner)
                                  in tls_inner sv e (pc_prefix inner) inner f)))"

definition tcpDoT :: "tcp_server \<Rightarrow> tcp_env \<Rightarrow> tcpFlow \<Rightarrow> tcpFlow option" where
  "tcpDoT sv e f =
     (let out = te_tls e False; f = tls_moved out f
      in case to_err out of
           Some (err, txt) \<Rightarrow> Some (tclose (closeReason (Some err)) (terror txt (tresponse ''handshake_failed'' (tparse ParseTLS f))))
         | None \<Rightarrow>
             let f = (case te_hello e of None \<Rightarrow> f | Some h \<Rightarrow> tset ''sni'' (ch_server_name h) f)
             in on_inner (tcpDNS sv e True) (\<lambda>_ ob. ob) (new_peek (to_inner out)) (tf_obs f) f)"

section \<open>The whole flow\<close>

datatype tcpRole = RoleGeneric | RoleDNS | RoleDoT

definition finish :: "tcp_env \<Rightarrow> string \<Rightarrow> tcpFlow \<Rightarrow> tcpFlow" where
  "finish e kind f =
     (let f = tobs (\<lambda>ob. ob\<lparr>obs_bytes_in := int (pc_in (tf_pc f)), obs_bytes_out := int (pc_out (tf_pc f))\<rparr>) f
      in case tcp_now e f of
           (ct, f) \<Rightarrow>
             let f = tobs (\<lambda>ob. ob\<lparr>obs_closed_at := Some ct\<rparr>) f;
                 ob = tf_obs f;
                 (found, f) =
                   (if obs_session ob = '''' \<or> tdetail f ''partial'' = ''true'' then
                      if kind = '''' \<and> obs_parse ob = ParseEmpty
                      then map_prod Found id (store_look e (\<lambda>s. attributeReservation s (te_ip e) ''tcp'' (obs_dst_port ob) (obs_first_seen ob)) f)
                      else store_call e (obs_first_seen ob, OpFind (te_ip e) ''tcp'' (obs_dst_port ob) kind True) f
                    else (Done, f));
                 f = (case found of
                        Found (Some r) \<Rightarrow> tobs (\<lambda>ob. applyReservation ob r) f
                      | Found None \<Rightarrow> if obs_session ob = '''' then tobs (\<lambda>ob. ob\<lparr>obs_unmatched := True\<rparr>) f else f
                      | _ \<Rightarrow> f)
             in (case tcp_now e f of (t, f) \<Rightarrow> snd (store_call e (t, OpAddObs (tf_obs f) (rnd_bytes (te_rnd e 3) 8)) f)))"

definition tcp_dispatch :: "tcp_server \<Rightarrow> tcp_env \<Rightarrow> tcpRole \<Rightarrow> bytes \<Rightarrow> tcpFlow \<Rightarrow> tcpFlow option" where
  "tcp_dispatch sv e role first f =
     (if role = RoleDNS then tcpDNS sv e False f
      else if role = RoleDoT then tcpDoT sv e f
      else if is_envelope first then tcpEnvelope e f
      else if isTLSClientHello first then tcpTLS sv e f
      else if IsClientResetTCP first then tcpOpenVPN sv e f
      else if IsGreeting first then tcpSOCKS5 e f
      else if isHTTPRequest first then tcpHTTP e f
      else tcpUnknown sv e f)"

definition tcp_start :: "tcp_env \<Rightarrow> int \<Rightarrow> conn \<Rightarrow> store \<Rightarrow> tcpFlow" where
  "tcp_start e port c s =
     (let f = sync e \<lparr>tf_store = s, tf_obs = zero_observation, tf_pc = new_peek c, tf_tls = None, tf_http = te_http e, tf_n = 0, tf_ops = []\<rparr>
      in tobs (\<lambda>ob. ob\<lparr>obs_transport := ''tcp'', obs_dst_port := port, obs_src_port := te_sport e, obs_first_seen := te_clock e 0,
                      obs_parse := ParseEmpty, obs_response := ''silence'', obs_close := ''n/a''\<rparr>) f)"

definition handleTCP :: "tcp_server \<Rightarrow> tcp_env \<Rightarrow> int \<Rightarrow> tcpRole \<Rightarrow> conn \<Rightarrow> store \<Rightarrow> tcpFlow option" where
  "handleTCP sv e port role c s =
     (case tcp_sniff 1 (tcp_start e port c s) of
        ((first, serr), f) \<Rightarrow>
          if first = [] then Some (finish e '''' (tclose (closeReason serr) f))
          else let f = (if length first < 24 then snd (tcp_sniff 24 f) else f)
               in map_option (\<lambda>f. finish e (obs_parse (tf_obs f)) f) (tcp_dispatch sv e role (pc_prefix (tf_pc f)) f))"

text \<open>The accept loop's table of connections: a flow is counted from its acceptance to its end.\<close>

datatype conn_event = Accepted addr | Ended addr

fun accept_step :: "(addr \<rightharpoonup> int) \<times> addr list \<Rightarrow> conn_event \<Rightarrow> (addr \<rightharpoonup> int) \<times> addr list" where
  "accept_step (conns, served) (Accepted ip) =
     (case acquireConn ip conns of (conns, ok) \<Rightarrow> if ok then (conns, ip # served) else (conns, served))"
| "accept_step (conns, served) (Ended ip) =
     (if ip \<in> set served then (releaseConn ip conns, remove1 ip served) else (conns, served))"

end
