(* ===== verification/Tcp_Props.thy ===== *)
theory Tcp_Props
  imports Tcp_Accept Udp_Props
begin

text \<open>
  What every handler of the TCP responder guarantees, whatever the peer sends and whatever the other
  goroutines do to the store meanwhile: it returns without a panic, and it changes the store only by
  operations that open no session, interleaved with those of the others. The locale \<open>tcp_handler\<close>
  states it, with one interpretation for each protocol of the dispatcher.
\<close>

section \<open>Executions of a flow\<close>

text \<open>The part of a flow the store and the scheduler see, and what events do to it.\<close>

type_synonym tcp_core = "store \<times> nat \<times> (bool \<times> time \<times> store_op) list"

definition core :: "tcpFlow \<Rightarrow> tcp_core" where
  "core f = (tf_store f, tf_n f, tf_ops f)"

definition core_sync :: "tcp_env \<Rightarrow> tcp_core \<Rightarrow> tcp_core" where
  "core_sync e c = (case c of (s, n, ops) \<Rightarrow> (store_run s (te_others e n), n + 1, ops @ map (Pair False) (te_others e n)))"

definition core_call :: "tcp_env \<Rightarrow> time \<times> store_op \<Rightarrow> tcp_core \<Rightarrow> tcp_core" where
  "core_call e op c = (case core_sync e c of (s, n, ops) \<Rightarrow> (fst (store_step s op), n, ops @ [(True, op)]))"

text \<open>From \<open>c\<close> to \<open>c'\<close> the store ran the recorded operations; the flow's own open no session, the rest are
  exactly the other goroutines' operations before its events, in order.\<close>

definition run_ok :: "tcp_env \<Rightarrow> tcp_core \<Rightarrow> tcp_core \<Rightarrow> bool" where
  "run_ok e c c' \<longleftrightarrow> (case (c, c') of ((s, n, ops), (s', n', ops')) \<Rightarrow>
     n \<le> n' \<and> (\<exists>new. ops' = ops @ new \<and> s' = store_run s (map snd new)
       \<and> (\<forall>(own, t, op)\<in>set new. own \<longrightarrow> no_put op)
       \<and> map snd (List.filter (\<lambda>x. \<not> fst x) new) = concat (map (te_others e) [n..<n'])))"

lemma run_ok_refl [simp]: "run_ok e c c"
  by (cases c) (auto simp: run_ok_def)

lemma run_ok_step:
  assumes "run_ok e c (s, n, ops)" and "s' = store_run s (map snd new)" and "\<forall>(own, t, op)\<in>set new. own \<longrightarrow> no_put op"
    and "map snd (List.filter (\<lambda>x. \<not> fst x) new) = concat (map (te_others e) [n..<n'])" and "n \<le> n'"
  shows "run_ok e c (s', n', ops @ new)"
proof -
  obtain s0 n0 ops0 where c: "c = (s0, n0, ops0)" by (cases c) auto
  obtain old where old: "n0 \<le> n" "ops = ops0 @ old" "s = store_run s0 (map snd old)" "\<forall>(own, t, op)\<in>set old. own \<longrightarrow> no_put op"
    "map snd (List.filter (\<lambda>x. \<not> fst x) old) = concat (map (te_others e) [n0..<n])"
    using assms(1) by (auto simp: run_ok_def c)
  have "[n0..<n'] = [n0..<n] @ [n..<n']" using old(1) assms(5) upt_add_eq_append [of n0 n "n' - n"] by simp
  then show ?thesis unfolding run_ok_def c using old assms(2-5)
    by (auto simp: store_run_append intro!: exI [of _ "old @ new"])
qed

lemma run_ok_sync [intro!]: "run_ok e c c' \<Longrightarrow> run_ok e c (core_sync e c')"
  by (cases c') (auto simp: core_sync_def intro!: run_ok_step simp: comp_def)

lemma run_ok_call [intro!]:
  assumes "no_put (snd op)" and "run_ok e c c'"
  shows "run_ok e c (core_call e op c')"
proof -
  obtain s n ops where s: "core_sync e c' = (s, n, ops)" by (cases "core_sync e c'") auto
  have "run_ok e c (s, n, ops)" using run_ok_sync [OF assms(2)] s by simp
  then show ?thesis using assms(1) by (auto simp: core_call_def s intro!: run_ok_step)
qed

lemma run_ok_trans: "run_ok e a b \<Longrightarrow> run_ok e b c \<Longrightarrow> run_ok e a c"
  using run_ok_step [of e a] by (cases b; cases c) (auto simp: run_ok_def [of e b c] run_ok_def [where c = "(_, _, _)"] split: prod.splits)

section \<open>What the primitives do\<close>

definition left :: "tcpFlow \<Rightarrow> nat" where
  "left f = pc_left (tf_pc f)"

lemma core_simps [simp]:
  "core (tobs g f) = core f" "core (tset k v f) = core f" "core (tparse k f) = core f" "core (tresponse k f) = core f"
  "core (tclose k f) = core f" "core (terror k f) = core f" "core (tsha b f) = core f" "core (set_prefix b f) = core f"
  "core (f\<lparr>tf_pc := p\<rparr>) = core f" "core (f\<lparr>tf_tls := x\<rparr>) = core f" "core (f\<lparr>tf_obs := ob\<rparr>) = core f" "core (f\<lparr>tf_http := ht\<rparr>) = core f"
  "core (quiet_close err f) = core f" "core (sync e f) = core_sync e (core f)" "core (treplied e f) = core_sync e (core f)"
  by (simp_all add: core_def tobs_def tset_def tparse_def tresponse_def tclose_def terror_def tsha_def set_prefix_def quiet_close_def
      sync_def core_sync_def treplied_def tcp_now_def)

lemma left_simps [simp]:
  "left (tobs g f) = left f" "left (tset k v f) = left f" "left (tparse k f) = left f" "left (tresponse k f) = left f"
  "left (tclose k f) = left f" "left (terror k f) = left f" "left (tsha b f) = left f" "left (f\<lparr>tf_tls := x\<rparr>) = left f"
  "left (f\<lparr>tf_obs := ob\<rparr>) = left f" "left (f\<lparr>tf_http := ht\<rparr>) = left f" "left (quiet_close err f) = left f" "left (sync e f) = left f"
  "left (treplied e f) = left f"
  by (simp_all add: left_def tobs_def tset_def tparse_def tresponse_def tclose_def terror_def tsha_def quiet_close_def sync_def
      treplied_def tcp_now_def)

lemma tcp_now_core: "tcp_now e f = (t, f') \<Longrightarrow> core f' = core_sync e (core f) \<and> left f' = left f"
  by (auto simp: tcp_now_def)

lemma store_look_core: "store_look e g f = (x, f') \<Longrightarrow> core f' = core_sync e (core f) \<and> left f' = left f"
  by (auto simp: store_look_def Let_def)

lemma store_call_core: "store_call e op f = (r, f') \<Longrightarrow> core f' = core_call e op (core f) \<and> left f' = left f"
  by (auto simp: store_call_def Let_def core_def core_call_def core_sync_def sync_def left_def split: prod.splits)

lemma pc_Read_left:
  assumes "pc_Read k p = ((bs, err), p')" "0 < k"
  shows "pc_left p' + length bs \<le> pc_left p" "err = None \<Longrightarrow> pc_left p' < pc_left p" "length bs \<le> k"
    "cn_sent (pc_conn p') = cn_sent (pc_conn p)"
  using assms conn_Read_left [of k "pc_conn p" bs err] by (auto simp: pc_Read_def pc_left_def split: if_splits prod.splits)

lemma tcp_read_core:
  assumes "tcp_read k f = ((bs, err), f')" "0 < k"
  shows "core f' = core f \<and> left f' + length bs \<le> left f \<and> (err = None \<longrightarrow> left f' < left f)"
  using assms pc_Read_left [of k "tf_pc f" bs err] by (auto simp: tcp_read_def left_def split: prod.splits)

lemma pc_Write_left: "pc_Write b p = (err, p') \<Longrightarrow> pc_left p' = pc_left p"
  by (auto simp: pc_Write_def conn_Write_def pc_left_def conn_left_def split: prod.splits list.splits option.splits)

lemma tcp_write_core: "tcp_write b f = (err, f') \<Longrightarrow> core f' = core f \<and> left f' = left f"
  by (auto simp: tcp_write_def left_def dest: pc_Write_left split: prod.splits)

lemma sniff_loop_spec:
  "sniff_loop k buf p = (err, buf', p') \<Longrightarrow>
     conn_left (pc_conn p') + length buf' \<le> conn_left (pc_conn p) + length buf \<and> length buf \<le> length buf' \<and> (err = None \<longrightarrow> k \<le> length buf')"
proof (induction k buf p rule: sniff_loop.induct)
  case (1 k buf p)
  obtain bs er c where r: "conn_Read 4096 (pc_conn p) = ((bs, er), c)" by (metis surj_pair)
  note R = conn_Read_left(1) [OF r]
  show ?case
  proof (cases "length buf < k \<and> er = None")
    case True
    let ?p = "p\<lparr>pc_conn := c, pc_in := pc_in p + length bs\<rparr>"
    have "sniff_loop k buf p = sniff_loop k (buf @ bs) ?p" using True r by (subst sniff_loop.simps) simp
    then have "conn_left (pc_conn p') + length buf' \<le> conn_left (pc_conn ?p) + length (buf @ bs) \<and> length (buf @ bs) \<le> length buf' \<and> (err = None \<longrightarrow> k \<le> length buf')"
      using 1(1) [OF _ r [symmetric] refl refl refl] 1(2) True by simp
    then show ?thesis using R by simp
  next
    case False
    then show ?thesis using 1(2) r R by (subst (asm) sniff_loop.simps) (auto simp: Let_def split: if_splits)
  qed
qed

lemma tcp_sniff_core:
  assumes "tcp_sniff k f = ((buf, err), f')"
  shows "core f' = core f \<and> left f' \<le> left f \<and> pc_prefix (tf_pc f') = buf \<and> length (pc_prefix (tf_pc f)) \<le> length buf \<and> (err = None \<longrightarrow> k \<le> length buf)"
  using assms sniff_loop_spec [of k "pc_prefix (tf_pc f)" "(tf_pc f)\<lparr>pc_prefix := []\<rparr>"]
  by (auto simp: tcp_sniff_def sniff_def left_def pc_left_def split: prod.splits)

lemmas tcp_cores = tcp_now_core store_look_core store_call_core tcp_read_core tcp_write_core tcp_sniff_core

lemma correlateEarly_core: "correlateEarly e kind f = (f', ok) \<Longrightarrow>
  core f' = core_call e (obs_first_seen (tf_obs f), OpFind (te_ip e) ''tcp'' (obs_dst_port (tf_obs f)) kind True) (core f) \<and> left f' = left f"
  by (auto simp: correlateEarly_def dest: store_call_core split: prod.splits store_result.splits option.splits)

lemmas tcp_read_cores = tcp_read_core [where k = 16384, simplified] tcp_read_core [where k = 8192, simplified] tcp_read_core [where k = 4096, simplified]

lemmas flow_splits = prod.splits option.splits sum.splits if_splits

section \<open>Handlers on the bare stream\<close>

interpretation echo_loop: terminating_loop "echo_step e" "\<lambda>(din, dout, f). run_ok e c (core f)" "\<lambda>(din, dout, err, f). run_ok e c (core f)"
  "\<lambda>(din, dout, f). left f" for e c
  by unfold_locales (auto simp: echo_step_def Let_def dest!: tcp_read_cores tcp_write_core split: flow_splits)

lemma tcpEchoStream_ok: "\<exists>f'. tcpEchoStream e f = Some f' \<and> run_ok e (core f) (core f')"
  using echo_loop.loop_returns [of e "core f" "(0, 0, f)"] by (auto simp: tcpEchoStream_def Let_def split: prod.splits)

text \<open>The clock of a flow does not go backwards, and what the other goroutines do between two readings of
  the store cannot take a session from under it: no collector is more than a minute ahead of the
  reading before, and no session is replaced by one that is already over. Their other operations carry
  whatever times they like.\<close>

definition env_ok :: "tcp_env \<Rightarrow> bool" where
  "env_ok e \<longleftrightarrow> (\<forall>k. te_clock e k \<le> te_clock e (Suc k)) \<and> (\<forall>k. list_all (keeps_listed (te_clock e k)) (te_others e (k + 2)))"

lemma partial_obs_ok: "\<exists>f'. partial_obs buf f = Some f' \<and> core f' = core f \<and> left f' = left f"
  using peek_request_total [of buf] by (auto simp: partial_obs_def Let_def split: prod.splits)

lemma serve_envelope_ok:
  assumes "env_ok e" and len: "request_len buf = Some (tot, need)" "0 < tot" and R: "run_ok e c (core f)"
  shows "\<exists>x. serve_envelope e buf tot f = Some x
    \<and> (case x of Inl f' \<Rightarrow> run_ok e c (core f') | Inr (rest, f') \<Rightarrow> run_ok e c (core f') \<and> left f' = left f \<and> length rest < length buf)"
proof -
  have tot: "tot \<le> length buf" using request_len_total(2) [OF len] .
  obtain seen f1 where e1: "tcp_now e f = (seen, f1)" by fastforce
  obtain kn f2 where e2: "tcp_now e f1 = (kn, f2)" by fastforce
  obtain kf f3 where e3: "store_look e (\<lambda>s. keyFor s kn) f2 = (kf, f3)" by fastforce
  have c3: "core f3 = core_sync e (core_sync e (core_sync e (core f)))" and l3: "left f3 = left f"
    using tcp_now_core [OF e1] tcp_now_core [OF e2] store_look_core [OF e3] by simp_all
  have kf: "kf = keyFor (tf_store f3) kn" using e3 by (auto simp: store_look_def Let_def)
  have n: "seen = te_clock e (tf_n f)" "kn = te_clock e (tf_n f + 1)" "tf_n f3 = tf_n f + 3"
    using e1 e2 e3 by (auto simp: tcp_now_def store_look_def Let_def sync_def)
  obtain req err where d: "decode_request (take tot buf) kf = Some (req, err)" using decode_request_total [of "take tot buf" kf] by (cases "decode_request (take tot buf) kf") auto
  define f4 where "f4 = (case req of None \<Rightarrow> f3 | Some r \<Rightarrow> tobs (envelope_obs r) f3)"
  have c4: "core f4 = core f3" "left f4 = left f" "tf_store f4 = tf_store f3" "tf_n f4 = tf_n f3" using l3 by (auto simp: f4_def tobs_def split: option.splits)
  show ?thesis
  proof (cases err)
    case (Some er)
    then show ?thesis using tot d R c3 c4 by (auto simp: serve_envelope_def e1 e2 e3 go_defs Let_def f4_def [symmetric])
  next
    case None
    obtain r where r: "req = Some r" and key: "keyFor (tf_store f3) kn (req_session r) \<noteq> None"
      using decode_request_ok [of "take tot buf" kf req] d None kf by blast
    obtain o1 f5 where e5: "store_look e (\<lambda>s. getSession s (req_session r) seen) f4 = (o1, f5)" by fastforce
    have o1: "o1 = getSession (store_run (tf_store f3) (te_others e (tf_n f + 3))) (req_session r) seen"
      using e5 c4(3,4) n(3) by (auto simp: store_look_def Let_def sync_def)
    have li: "listed (req_session r) kn (tf_store f3)" using key getSession_listed(1) by (auto simp: keyFor_def)
    have "list_all (keeps_listed kn) (te_others e (tf_n f + 1 + 2))" and "seen \<le> kn"
      using assms(1) unfolding env_ok_def n by (blast, simp)
    then have "list_all (keeps_listed kn) (te_others e (tf_n f + 3))" "seen \<le> kn"
      by (simp_all add: numeral_3_eq_3)
    then obtain sess where s: "o1 = Some sess" using listed_run [OF li] getSession_listed(2) o1 by blast
    have c5: "core f5 = core_sync e (core f3)" "left f5 = left f" using store_look_core [OF e5] c4 by simp_all
    obtain g f6 where e6: "store_call e (seen, OpAllowAttempt (ses_client sess)) f5 = (g, f6)" by fastforce
    have c6: "core f6 = core_call e (seen, OpAllowAttempt (ses_client sess)) (core f5)" "left f6 = left f" using store_call_core [OF e6] c5 by simp_all
    obtain rp f7 where e7: "tcp_now e f6 = (rp, f7)" by fastforce
    obtain we f8 where e8: "tcp_write (encode_reply r seen rp (ses_key sess)) f7 = (we, f8)" by fastforce
    have c8: "core f8 = core_sync e (core f6)" "left f8 = left f" using tcp_now_core [OF e7] tcp_write_core [OF e8] c6 by simp_all
    have f4': "tobs (envelope_obs r) f3 = f4" by (simp add: f4_def r)
    show ?thesis using tot d R c3 c4 c5 c6 c8 None r s len(2)
      by (auto simp: serve_envelope_def e1 e2 e3 f4' e5 e6 e7 e8 go_defs Let_def split: store_result.splits bool.splits option.splits)
  qed
qed

interpretation env_loop: terminating_loop "env_step e" "\<lambda>(buf, f). env_ok e \<and> run_ok e c (core f)" "\<lambda>f. run_ok e c (core f)"
  "\<lambda>(buf, f). 2 * left f + length buf" for e c
proof unfold_locales
  fix x :: "bytes \<times> tcpFlow" assume x: "case x of (buf, f) \<Rightarrow> env_ok e \<and> run_ok e c (core f)"
  obtain buf f where bf: "x = (buf, f)" by fastforce
  obtain tot need where l: "request_len buf = Some (tot, need)" by (cases rule: request_len_cases [of buf]) auto
  show "\<exists>y. env_step e x = Some y \<and> (case y of Inl r \<Rightarrow> run_ok e c (core r)
      | Inr s' \<Rightarrow> (case s' of (buf, f) \<Rightarrow> env_ok e \<and> run_ok e c (core f)) \<and> (case s' of (buf, f) \<Rightarrow> 2 * left f + length buf) < (case x of (buf, f) \<Rightarrow> 2 * left f + length buf))"
  proof (cases "0 < tot")
    case True
    then show ?thesis using serve_envelope_ok [OF _ l True] x l by (fastforce simp: env_step_def bf split: sum.splits)
  next
    case False
    obtain bs err f' where r: "tcp_read 8192 f = ((bs, err), f')" by (metis surj_pair)
    note R = tcp_read_cores(2) [OF r]
    show ?thesis
    proof (cases err)
      case None
      then show ?thesis using R x l r False by (auto simp: env_step_def bf)
    next
      case (Some er)
      obtain f'' where "partial_obs (buf @ bs) (tclose (closeReason (Some er)) f') = Some f''" "core f'' = core f'" using partial_obs_ok [of "buf @ bs" "tclose (closeReason (Some er)) f'"] by auto
      then show ?thesis using R x l r False Some by (auto simp: env_step_def bf)
    qed
  qed
qed

lemma tcpEnvelope_ok: "env_ok e \<Longrightarrow> \<exists>f'. tcpEnvelope e f = Some f' \<and> run_ok e (core f) (core f')"
  using env_loop.loop_returns [of e "core f" "([], tparse ParseEnvelope f)"] by (simp add: tcpEnvelope_def)

lemma ParseRequest_total: "ParseRequest b \<noteq> None"
  by (auto simp: ParseRequest_def go_defs Let_def)

lemma ParseRequest_len: "ParseRequest b = Some (Inr r) \<Longrightarrow> sr_len r \<le> length b"
  by (auto simp: ParseRequest_def Let_def split: if_splits Option.bind_splits)

interpretation socks_req_loop: terminating_loop socks_req_step "\<lambda>(req, err, f). run_ok e c (core f)"
  "\<lambda>(pr, req, err, f). run_ok e c (core f) \<and> (\<forall>r. pr = Inr r \<longrightarrow> sr_len r \<le> length req)"
  "\<lambda>(req, err, f). if err = None then 263 - length req else 0" for e c
proof unfold_locales
  fix x :: "bytes \<times> go_err option \<times> tcpFlow" assume x: "case x of (req, err, f) \<Rightarrow> run_ok e c (core f)"
  obtain req err f where rf: "x = (req, err, f)" by (metis prod_cases3)
  obtain pr where pr: "ParseRequest req = Some pr" using ParseRequest_total [of req] by blast
  obtain req' err' f' where s: "tcp_sniff (length req + 1) f = ((req', err'), f')" by (metis surj_pair)
  show "\<exists>y. socks_req_step x = Some y \<and> (case y of Inl r \<Rightarrow> (case r of (pr, req, err, f) \<Rightarrow> run_ok e c (core f) \<and> (\<forall>r. pr = Inr r \<longrightarrow> sr_len r \<le> length req))
    | Inr s' \<Rightarrow> (case s' of (req, err, f) \<Rightarrow> run_ok e c (core f))
        \<and> (case s' of (req, err, f) \<Rightarrow> if err = None then 263 - length req else 0) < (case x of (req, err, f) \<Rightarrow> if err = None then 263 - length req else 0))"
    using x pr tcp_sniff_core [OF s] s ParseRequest_len [of req]
    by (cases pr) (auto simp: socks_req_step_def rf)
qed

lemma socks_request_ok: "\<exists>f'. socks_request e f = Some f' \<and> run_ok e (core f) (core f')"
proof -
  obtain req err f1 where s: "tcp_sniff 7 f = ((req, err), f1)" by (metis surj_pair)
  obtain pr req2 err2 f2 where l: "io_loop socks_req_step (req, err, f1) = Some (pr, req2, err2, f2)" "run_ok e (core f) (core f2)"
      "\<And>r. pr = Inr r \<Longrightarrow> sr_len r \<le> length req2"
    using socks_req_loop.loop_returns [of e "core f" "(req, err, f1)"] tcp_sniff_core [OF s] by fastforce
  show ?thesis
  proof (cases pr)
    case (Inl x)
    then show ?thesis using l by (simp add: socks_request_def s)
  next
    case (Inr r)
    define f3 where "f3 = tset ''dst_port'' (itoa (uint (sr_port r))) (tset ''dst_sha256'' (hexSum (bytes_of (sr_host r)))
                             (tset ''dst_len'' (itoa (int (length (sr_host r)))) (tset ''cmd'' (itoa (uint (sr_cmd r))) (set_prefix (drop (sr_len r) req2) f2))))"
    have c3: "core f3 = core f2" by (simp add: f3_def)
    obtain w4 f4 where w4: "tcp_write (socks_Reply 7) f3 = (w4, f4)" by fastforce
    obtain w5 f5 where w5: "tcp_write (socks_Reply RepSuccess) f3 = (w5, f5)" by fastforce
    obtain f6 where f6: "tcpEchoStream e (treplied e (tresponse ''socks5_connect'' f5)) = Some f6" "run_ok e (core_sync e (core f5)) (core f6)"
      using tcpEchoStream_ok [of e "treplied e (tresponse ''socks5_connect'' f5)"] by auto
    have R6: "run_ok e (core f) (core f6)" using l(2) f6(2) tcp_write_core [OF w5] c3 run_ok_sync run_ok_trans by metis
    have "socks_request e f =
       (if sr_cmd r \<noteq> CmdConnect then Some (tclose ''normal'' (tresponse ''socks5_refused'' (snd (tcp_write (socks_Reply 7) f3))))
        else (case tcp_write (socks_Reply RepSuccess) f3 of
                           (Some werr, f) \<Rightarrow> Some (tclose (closeReason (Some werr)) f)
                         | (None, f) \<Rightarrow>
                             do {
                               f \<leftarrow> tcpEchoStream e (treplied e (tresponse ''socks5_connect'' f));
                               Some (if tdetail f ''data_in'' \<noteq> '''' then tresponse ''socks5_connect+echo'' f else f)
                             }))"
      unfolding f3_def using l(1) l(3) [OF Inr] Inr by (simp add: socks_request_def s go_defs Let_def)
    then show ?thesis using l R6 tcp_write_core [OF w4] tcp_write_core [OF w5] c3 f6(1) w4 w5 by (auto split: option.splits)
  qed
qed

text \<open>A computation on flows that returns, with its execution continued from \<open>c\<close>.\<close>

definition returns_ok :: "tcp_env \<Rightarrow> tcp_core \<Rightarrow> tcpFlow option \<Rightarrow> bool" where
  "returns_ok e c r \<longleftrightarrow> (\<exists>f. r = Some f \<and> run_ok e c (core f))"

lemma ok_Some [simp]: "returns_ok e c (Some f) = run_ok e c (core f)"
  by (simp add: returns_ok_def)

lemma ok_from: "\<exists>f'. h f = Some f' \<and> run_ok e (core f) (core f') \<Longrightarrow> run_ok e c (core f) \<Longrightarrow> returns_ok e c (h f)"
  by (auto simp: returns_ok_def intro: run_ok_trans)

lemma ok_bind [intro!]: "returns_ok e c r \<Longrightarrow> (\<And>f. run_ok e c (core f) \<Longrightarrow> returns_ok e c (g f)) \<Longrightarrow> returns_ok e c (r \<bind> g)"
  by (auto simp: returns_ok_def)

lemma ok_bind_any: "r \<noteq> None \<Longrightarrow> (\<And>x. r = Some x \<Longrightarrow> returns_ok e c (g x)) \<Longrightarrow> returns_ok e c (r \<bind> g)"
  by auto

lemma ok_map [intro!]: "returns_ok e c r \<Longrightarrow> (\<And>f. run_ok e c (core f) \<Longrightarrow> run_ok e c (core (g f))) \<Longrightarrow> returns_ok e c (map_option g r)"
  by (auto simp: returns_ok_def)

lemmas echo_returns [intro!] = ok_from [of "tcpEchoStream e" for e, OF tcpEchoStream_ok]
lemmas socks_request_returns [intro!] = ok_from [of "socks_request e" for e, OF socks_request_ok]

lemma ParseUserPass_total: "ParseUserPass b \<noteq> None"
  by (auto simp: ParseUserPass_def go_defs Let_def)

lemma ParseUserPass_len: "ParseUserPass b = Some (Inr (user, pass)) \<Longrightarrow> 3 + length user + unat (b ! (2 + length user)) \<le> length b"
  by (auto simp: ParseUserPass_def go_defs Let_def split: if_splits)

lemma socks_auth_ok:
  assumes "run_ok e c (core f)"
  shows "\<exists>x. socks_auth f = Some x \<and> (case x of Inl f' \<Rightarrow> run_ok e c (core f') | Inr f' \<Rightarrow> run_ok e c (core f'))"
proof -
  obtain up err f1 where s1: "tcp_sniff 3 f = ((up, err), f1)" by (metis surj_pair)
  obtain p1 where p1: "ParseUserPass up = Some p1" using ParseUserPass_total [of up] by blast
  define ul1 where "ul1 = (if isl p1 \<and> err = None then unat (up ! 1) else 0)"
  have ul: "(if isl p1 \<and> err = None then map_option unat (ix up 1) else Some 0) = Some ul1"
    using tcp_sniff_core [OF s1] by (auto simp: ul1_def go_defs)
  obtain up2 err2 f2 where s2: "(if isl p1 \<and> err = None \<and> length up < 3 + ul1 + 1 then tcp_sniff (length up + 1) f1 else ((up, err), f1)) = ((up2, err2), f2)"
    by (metis surj_pair)
  have c2: "core f2 = core f" using s2 tcp_sniff_core [OF s1] tcp_sniff_core [of "length up + 1" f1] by (auto split: if_splits)
  obtain p2 where p2: "ParseUserPass up2 = Some p2" using ParseUserPass_total [of up2] by blast
  have eq: "socks_auth f = (case p2 of
               Inl _ \<Rightarrow> Some (Inl (tclose (closeReason err2) f2))
             | Inr (user, pass) \<Rightarrow>
                 do {
                   plb \<leftarrow> ix up2 (2 + length user);
                   rest \<leftarrow> from_ix up2 (2 + length user + (1 + unat plb));
                   let f = tset ''user_len'' (itoa (int (length user))) (set_prefix rest f2);
                   Some (case tcp_write (UserPassReply 0) f of
                           (Some werr, f) \<Rightarrow> Inl (tclose (closeReason (Some werr)) f)
                         | (None, f) \<Rightarrow> Inr (tresponse ''socks5_auth'' f))
                 })"
    unfolding socks_auth_def s1 prod.case p1 bind.bind_lunit ul s2 Let_def p2 by simp
  show ?thesis
  proof (cases p2)
    case (Inl x)
    then show ?thesis using eq assms c2 by simp
  next
    case (Inr up')
    obtain user pass where u: "up' = (user, pass)" by fastforce
    have len: "3 + length user + unat (up2 ! (2 + length user)) \<le> length up2" using ParseUserPass_len p2 Inr u by blast
    then show ?thesis using eq Inr u assms c2 by (auto simp: go_defs Let_def dest!: tcp_write_core split: option.splits prod.splits)
  qed
qed

lemma tcpSOCKS5_ok:
  assumes "run_ok e c (core f)"
  shows "returns_ok e c (tcpSOCKS5 e f)"
proof -
  obtain greet err f1 where s: "tcp_sniff 3 (tparse ParseSOCKS5 f) = ((greet, err), f1)" by (metis surj_pair)
  have c1: "core f1 = core f" using tcp_sniff_core [OF s] by simp
  show ?thesis
  proof (cases "length greet < 3 \<or> \<not> IsGreeting greet")
    case True
    then show ?thesis using assms c1 by (auto simp: tcpSOCKS5_def s)
  next
    case False
    define n where "n = 2 + unat (greet ! 1)"
    have g: "ix greet 1 = Some (greet ! 1)" "slc greet 0 n = Some (take n greet)" "from_ix greet n = Some (drop n greet)"
      using False by (auto simp: go_defs n_def IsGreeting_def)
    have m: "GreetingMethods (take n greet) = Some (take (n - 2) (drop 2 (take n greet)))" using False by (auto simp: GreetingMethods_def go_defs n_def IsGreeting_def)
    obtain f2 ok where r: "correlateEarly e ParseSOCKS5 (set_prefix (drop n greet) f1) = (f2, ok)" by fastforce
    have c2: "run_ok e c (core f2)" using correlateEarly_core [OF r] c1 assms by auto
    have auth: "returns_ok e c (socks_auth h \<bind> (\<lambda>a. case a of Inl f \<Rightarrow> Some f | Inr f \<Rightarrow> socks_request e f))" if "run_ok e c (core h)" for h
    proof -
      note H = socks_auth_ok [OF that]
      obtain x where "socks_auth h = Some x" "case x of Inl f' \<Rightarrow> run_ok e c (core f') | Inr f' \<Rightarrow> run_ok e c (core f')" using H by blast
      then show ?thesis by (cases x) auto
    qed
    define ch where "ch = choose_method (take (n - 2) (drop 2 (take n greet)))"
    have "tcpSOCKS5 e f = (if \<not> ok then Some (tclose ''normal'' (tresponse ''refused'' (snd (tcp_write (MethodReply MethodNone) f2))))
       else (case tcp_write (MethodReply ch) (tset ''method'' (itoa (uint ch)) f2) of
                       (Some werr, f) \<Rightarrow> Some (tclose (closeReason (Some werr)) f)
                     | (None, f) \<Rightarrow>
                         let f = treplied e (tresponse ''socks5_method'' f)
                         in if ch = MethodNone then Some (tclose ''normal'' f)
                            else if ch = MethodUser then do { a \<leftarrow> socks_auth f; (case a of Inl f \<Rightarrow> Some f | Inr f \<Rightarrow> socks_request e f) }
                            else socks_request e f))"
      unfolding tcpSOCKS5_def s prod.case if_not_P [OF False] g bind.bind_lunit n_def [symmetric] Let_def m r ch_def by (cases ok) simp_all
    moreover have "run_ok e c (core (snd (tcp_write (MethodReply MethodNone) f2)))"
      using c2 tcp_write_core by (metis prod.collapse)
    ultimately show ?thesis using c2 by (auto simp: Let_def intro!: auth dest!: tcp_write_core split: option.splits prod.splits)
  qed
qed

lemma tcpObfs4_ok: "run_ok e c (core f) \<Longrightarrow> returns_ok e c (tcpObfs4 sv e raw n f)"
  by (auto simp: tcpObfs4_def Let_def go_defs dest!: tcp_write_core tcp_now_core split: option.splits prod.splits)

interpretation unknown_loop: terminating_loop unknown_step "\<lambda>(hashed, raw, f). run_ok e c (core f)" "\<lambda>(hashed, raw, err, f). run_ok e c (core f)"
  "\<lambda>(hashed, raw, f). left f" for e c
  by unfold_locales (auto simp: unknown_step_def Let_def dest!: tcp_read_cores split: flow_splits)

lemma tcpUnknown_ok:
  assumes "run_ok e c (core f)"
  shows "returns_ok e c (tcpUnknown sv e f)"
proof -
  obtain hashed raw err f1 where l: "io_loop unknown_step ([], [], tparse ParseUnknown f) = Some (hashed, raw, err, f1)" "run_ok e c (core f1)"
    using unknown_loop.loop_returns [of e c "([], [], tparse ParseUnknown f)"] assms by auto
  obtain t f2 where n: "tcp_now e (tset ''payload_len'' (itoa (int (length hashed))) (tsha hashed f1)) = (t, f2)" by fastforce
  have c2: "run_ok e c (core f2)" using tcp_now_core [OF n] l(2) by auto
  obtain k ok where "FindClientRequest raw (tv_obfs4 sv) t = Some (k, ok)" using find_mark_total(1) [of raw "tv_obfs4 sv" t] by auto
  then show ?thesis using c2 by (auto simp: tcpUnknown_def l(1) n Let_def intro!: tcpObfs4_ok dest!: tcp_write_core split: option.splits prod.splits)
qed

section \<open>Full reads\<close>

text \<open>A reader whose reads use up what is left, or fail.\<close>

locale shrinking_reader =
  fixes rd :: "nat \<Rightarrow> 'r \<Rightarrow> (bytes \<times> go_err option) \<times> 'r" and remaining :: "'r \<Rightarrow> nat"
  assumes rd_shrinks: "0 < k \<Longrightarrow> rd k r = ((bs, err), r') \<Longrightarrow>
    remaining r' \<le> remaining r \<and> (err = None \<or> bs \<noteq> [] \<longrightarrow> remaining r' < remaining r) \<and> length bs \<le> k"
begin

lemma full_loop: "terminating_loop (full_step rd n) (\<lambda>(acc, r). length acc \<le> n \<and> remaining r \<le> b \<and> (acc \<noteq> [] \<longrightarrow> remaining r < b))
  (\<lambda>(x, r). remaining r \<le> b \<and> (\<forall>bs. x = Inr bs \<longrightarrow> length bs = n \<and> (bs \<noteq> [] \<longrightarrow> remaining r < b))) (\<lambda>(acc, r). remaining r)"
proof
  fix s :: "bytes \<times> 'r" assume s: "case s of (acc, r) \<Rightarrow> length acc \<le> n \<and> remaining r \<le> b \<and> (acc \<noteq> [] \<longrightarrow> remaining r < b)"
  obtain acc r where x: "s = (acc, r)" by fastforce
  obtain bs err r' where rd: "rd (n - length acc) r = ((bs, err), r')" by (metis surj_pair)
  show "\<exists>x. full_step rd n s = Some x \<and> (case x of
      Inl y \<Rightarrow> (case y of (z, r) \<Rightarrow> remaining r \<le> b \<and> (\<forall>bs. z = Inr bs \<longrightarrow> length bs = n \<and> (bs \<noteq> [] \<longrightarrow> remaining r < b)))
    | Inr s' \<Rightarrow> (case s' of (acc, r) \<Rightarrow> length acc \<le> n \<and> remaining r \<le> b \<and> (acc \<noteq> [] \<longrightarrow> remaining r < b))
        \<and> (case s' of (acc, r) \<Rightarrow> remaining r) < (case s of (acc, r) \<Rightarrow> remaining r))"
  proof (cases "n \<le> length acc")
    case True
    then show ?thesis using s by (auto simp: full_step_def x)
  next
    case False
    then have "remaining r' \<le> remaining r \<and> (err = None \<or> bs \<noteq> [] \<longrightarrow> remaining r' < remaining r) \<and> length bs \<le> n - length acc"
      using rd_shrinks [OF _ rd] by simp
    then show ?thesis using s False rd by (cases "bs = []") (auto simp: full_step_def x Let_def split: option.splits)
  qed
qed

lemma ReadFull_ok: "\<exists>x r'. ReadFull rd n r = Some (x, r') \<and> remaining r' \<le> remaining r \<and> (\<forall>bs. x = Inr bs \<longrightarrow> length bs = n \<and> (bs \<noteq> [] \<longrightarrow> remaining r' < remaining r))"
  using terminating_loop.loop_returns [OF full_loop [of n "remaining r"], of "([], r)"] by (auto simp: ReadFull_def)

end

lemma pc_Read_shrinks:
  assumes "pc_Read k p = ((bs, err), p')" "0 < k"
  shows "bs \<noteq> [] \<Longrightarrow> err \<noteq> None \<Longrightarrow> pc_left p' + length bs < pc_left p"
  using assms by (auto simp: pc_Read_def conn_Read_def pc_left_def conn_left_def split: if_splits list.splits)

interpretation peek_reader: shrinking_reader pc_Read pc_left
proof
  fix k :: nat and r bs err r' assume "0 < k" "pc_Read k r = ((bs, err), r')"
  then show "pc_left r' \<le> pc_left r \<and> (err = None \<or> bs \<noteq> [] \<longrightarrow> pc_left r' < pc_left r) \<and> length bs \<le> k"
    using pc_Read_left(1-3) [of k r bs err r'] by (cases bs) auto
qed

interpretation bufio_reader: shrinking_reader br_Read br_left
proof
  fix k :: nat and r bs err r' assume k: "0 < k" and rd: "br_Read k r = ((bs, err), r')"
  obtain br p where r: "r = (br, p)" by fastforce
  obtain b1 e1 p1 where d: "pc_Read k p = ((b1, e1), p1)" by (metis surj_pair)
  obtain b2 e2 p2 where b: "pc_Read (br_size br) p = ((b2, e2), p2)" by (metis surj_pair)
  note D = pc_Read_left [OF d k] pc_Read_shrinks [OF d k]
  have B: "k < br_size br \<Longrightarrow> pc_left p2 + length b2 \<le> pc_left p \<and> (e2 = None \<longrightarrow> pc_left p2 < pc_left p) \<and> (b2 \<noteq> [] \<and> e2 \<noteq> None \<longrightarrow> pc_left p2 + length b2 < pc_left p)"
    using pc_Read_left [OF b] pc_Read_shrinks [OF b] by simp
  consider (buffered) "br_buf br \<noteq> []" | (err) "br_buf br = []" "br_err br \<noteq> None" | (direct) "br_buf br = []" "br_err br = None" "br_size br \<le> k"
    | (fill) "br_buf br = []" "br_err br = None" "k < br_size br" by linarith
  then show "br_left r' \<le> br_left r \<and> (err = None \<or> bs \<noteq> [] \<longrightarrow> br_left r' < br_left r) \<and> length bs \<le> k"
  proof cases
    case buffered
    then show ?thesis using rd k by (auto simp: br_Read_def br_left_def r)
  next
    case err
    then show ?thesis using rd by (auto simp: br_Read_def br_left_def r)
  next
    case direct
    then show ?thesis using rd D d by (cases bs) (auto simp: br_Read_def br_left_def r)
  next
    case fill
    then show ?thesis using rd B b k by (cases b2) (auto simp: br_Read_def br_left_def r min_def split: if_splits)
  qed
qed

lemma readFrame_ok: "\<exists>x br' f'. readFrame br f = Some (x, br', f') \<and> core f' = core f \<and> br_left (br', tf_pc f') \<le> br_left (br, tf_pc f)
  \<and> (\<forall>pkt. x = Inr pkt \<longrightarrow> br_left (br', tf_pc f') < br_left (br, tf_pc f) \<and> 0 < length pkt \<and> length pkt \<le> MaxPacketLen)"
proof -
  obtain x br1 p1 where x: "ReadFull br_Read 2 (br, tf_pc f) = Some (x, br1, p1)" "br_left (br1, p1) \<le> br_left (br, tf_pc f)"
    "\<And>bs. x = Inr bs \<Longrightarrow> length bs = 2 \<and> (bs \<noteq> [] \<longrightarrow> br_left (br1, p1) < br_left (br, tf_pc f))"
    using bufio_reader.ReadFull_ok [of 2 "(br, tf_pc f)"] by (metis surj_pair)
  show ?thesis
  proof (cases x)
    case (Inl err)
    then show ?thesis using x by (auto simp: readFrame_def)
  next
    case (Inr lenb)
    have lt: "br_left (br1, p1) < br_left (br, tf_pc f)" using x(3) [OF Inr] by auto
    obtain y br2 p2 where y: "ReadFull br_Read (be_nat lenb) (br1, p1) = Some (y, br2, p2)" "br_left (br2, p2) \<le> br_left (br1, p1)" "\<And>bs. y = Inr bs \<Longrightarrow> length bs = be_nat lenb"
      using bufio_reader.ReadFull_ok [of "be_nat lenb" "(br1, p1)"] by (metis surj_pair)
    show ?thesis
    proof (cases "be_nat lenb = 0 \<or> be_nat lenb > MaxPacketLen")
      case True
      then show ?thesis using x(1,2) Inr by (auto simp: readFrame_def Let_def)
    next
      case False
      then have "readFrame br f = Some (y, br2, f\<lparr>tf_pc := p2\<rparr>)" using x(1) y(1) Inr by (simp add: readFrame_def Let_def)
      then show ?thesis using lt y(2,3) False by auto
    qed
  qed
qed

section \<open>OpenVPN and DNS\<close>

lemma tcp_data_ok: "run_ok e c (core f) \<Longrightarrow> ovpn_data e keys pkt ot f = (err, ot', f') \<Longrightarrow>
  run_ok e c (core f') \<and> ot_br ot' = ot_br ot \<and> br_left (ot_br ot', tf_pc f') = br_left (ot_br ot, tf_pc f)"
  by (auto simp: ovpn_data_def Let_def br_left_def left_def [symmetric] dest!: tcp_write_core split: option.splits prod.splits if_splits)

lemma tcp_control_ok:
  assumes "run_ok e c (core f)"
  shows "\<exists>err ot' f'. ovpn_control e ssid csid pkt ot f = Some (err, ot', f') \<and> run_ok e c (core f') \<and> br_left (ot_br ot', tf_pc f') = br_left (ot_br ot, tf_pc f)"
proof -
  obtain r where r: "Parse (ot_layout ot) pkt = Some r" using parse_total [of "ot_layout ot" pkt] by blast
  show ?thesis
  proof (cases r)
    case (Inl x)
    then show ?thesis using r assms by (auto simp: ovpn_control_def br_left_def left_def [symmetric])
  next
    case (Inr p)
    define ot1 where "ot1 = ot\<lparr>ot_ctlIn := ot_ctlIn ot + 1\<rparr>"
    define f1 where "f1 = (if ot_ctlIn ot1 = 1 \<and> length (p_payload p) \<ge> 6 \<and> p_payload p ! 0 = 0x16 \<and> p_payload p ! 5 = 0x01
                          then tset ''control_payload'' ''tls_client_hello'' f else f)"
    have c1: "core f1 = core f" "left f1 = left f" by (simp_all add: f1_def)
    obtain t f2 where n: "tcp_now e f1 = (t, f2)" by fastforce
    obtain la out where o1: "ovpn_Control (ot_layout ot1) (unix32 t) ssid (ot_nextPID ot1) (tlsx_Record (control_body (ot_layout ot1) (length pkt))) [p_pid p] csid = (la, out)"
      by fastforce
    obtain w f3 where w: "tcp_write (FrameTCP out) f2 = (w, f3)" by fastforce
    have c3: "core f3 = core_sync e (core f)" "left f3 = left f" using tcp_now_core [OF n] tcp_write_core [OF w] c1 by simp_all
    have br: "br_left (b, tf_pc g) = br_left (b, tf_pc f)" if "left g = left f" for b g using that by (simp add: br_left_def left_def)
    have bro: "ot_br ot1 = ot_br ot" by (simp add: ot1_def)
    show ?thesis
    proof (cases "p_op p = OpAckV1")
      case True
      then show ?thesis using r Inr assms by (simp add: ovpn_control_def)
    next
      case False
      let ?ot = "ot1\<lparr>ot_layout := la, ot_nextPID := ot_nextPID ot1 + 1\<rparr>"
      have "ovpn_control e ssid csid pkt ot f = Some (case w of Some werr \<Rightarrow> (Some werr, ?ot, f3)
          | None \<Rightarrow> (None, ?ot\<lparr>ot_ctlOut := ot_ctlOut ?ot + 1\<rparr>, treplied e (if ot_dataOut ?ot = 0 then tresponse ''openvpn_reset+control'' f3 else f3)))"
        unfolding ovpn_control_def r bind.bind_lunit Inr sum.case if_not_P [OF False] Let_def ot1_def [symmetric] f1_def [symmetric] n prod.case o1 w by (cases w) simp_all
      then show ?thesis using assms c3 by (cases w) (auto simp: bro intro!: br)
    qed
  qed
qed

interpretation ovpn_loop: terminating_loop "ovpn_step e keys ssid csid" "\<lambda>(ot, f). run_ok e c (core f)" "\<lambda>(err, ot, f). run_ok e c (core f)"
  "\<lambda>(ot, f). br_left (ot_br ot, tf_pc f)" for e keys ssid csid c
proof
  fix s :: "ovpn_tcp \<times> tcpFlow" assume s: "case s of (ot, f) \<Rightarrow> run_ok e c (core f)"
  obtain ot f where x: "s = (ot, f)" by fastforce
  obtain r br1 f1 where r: "readFrame (ot_br ot) f = Some (r, br1, f1)" "core f1 = core f"
    "\<And>pkt. r = Inr pkt \<Longrightarrow> br_left (br1, tf_pc f1) < br_left (ot_br ot, tf_pc f)" using readFrame_ok [of "ot_br ot" f] by metis
  let ?ot = "ot\<lparr>ot_br := br1\<rparr>"
  have R: "run_ok e c (core f1)" using s x r(2) by simp
  show "\<exists>y. ovpn_step e keys ssid csid s = Some y \<and> (case y of Inl z \<Rightarrow> (case z of (err, ot, f) \<Rightarrow> run_ok e c (core f))
    | Inr s' \<Rightarrow> (case s' of (ot, f) \<Rightarrow> run_ok e c (core f)) \<and> (case s' of (ot, f) \<Rightarrow> br_left (ot_br ot, tf_pc f)) < (case s of (ot, f) \<Rightarrow> br_left (ot_br ot, tf_pc f)))"
  proof (cases "ot_ctlIn ot + ot_dataIn ot < vpnSessionMaxData")
    case False
    then show ?thesis using s by (simp add: ovpn_step_def x)
  next
    case True
    show ?thesis
    proof (cases r)
      case (Inl err)
      then show ?thesis using True r(1) R by (simp add: ovpn_step_def x)
    next
      case (Inr pkt)
      obtain err ot2 f2 where p: "(if ovpn_IsData pkt then Some (ovpn_data e keys pkt ?ot f1)
                      else if IsControlOp (Opcode pkt) then ovpn_control e ssid csid pkt ?ot f1
                      else Some (Some (OtherErr ''unexpected opcode''), ?ot, f1)) = Some (err, ot2, f2)" "run_ok e c (core f2)"
          "br_left (ot_br ot2, tf_pc f2) = br_left (br1, tf_pc f1)"
      proof (cases "ovpn_IsData pkt")
        case True
        obtain err ot2 f2 where d: "ovpn_data e keys pkt ?ot f1 = (err, ot2, f2)" by (metis prod_cases3)
        then show ?thesis using that [of err ot2 f2] True tcp_data_ok [OF R d] by auto
      next
        case False
        then show ?thesis using that tcp_control_ok [OF R, of ssid csid pkt ?ot] R by (cases "IsControlOp (Opcode pkt)") auto
      qed
      have "ovpn_step e keys ssid csid s = Some (if err \<noteq> None then Inl (err, ot2, f2) else Inr (ot2, f2))"
        unfolding ovpn_step_def x prod.case if_P [OF True] r(1) bind.bind_lunit Inr sum.case Let_def p(1) by simp
      then show ?thesis using p(2,3) r(3) [OF Inr] by (simp add: x)
    qed
  qed
qed

lemma ovpn_serve_ok:
  assumes "run_ok e c (core f)"
  shows "returns_ok e c (ovpn_serve e csid la ssid br f)"
proof -
  obtain f1 ok where m: "correlateEarly e ParseOpenVPN f = (f1, ok)" by fastforce
  have R1: "run_ok e c (core f1)" using correlateEarly_core [OF m] assms by auto
  obtain key f2 where k: "(if ok then (case tcp_now e f1 of (t, f) \<Rightarrow> store_look e (\<lambda>s. sessionKeyByHex s (obs_session (tf_obs f)) t) f) else (None, f1)) = (key, f2)"
    by fastforce
  have R2: "run_ok e c (core f2)" using k R1 by (auto dest!: tcp_now_core store_look_core split: if_splits prod.splits)
  let ?keys = "map_option (\<lambda>k. DeriveDataKeys k (obs_attempt (tf_obs f2))) key"
  let ?ot = "\<lparr>ot_layout = la, ot_br = br, ot_ctlIn = 0, ot_ctlOut = 0, ot_dataIn = 0, ot_dataOut = 0, ot_nextPID = 1, ot_dataPID = 1\<rparr>"
  obtain err ot f3 where "io_loop (ovpn_step e ?keys ssid csid) (?ot, f2) = Some (err, ot, f3)" "run_ok e c (core f3)"
    using ovpn_loop.loop_returns [of e c "(?ot, f2)" ?keys ssid csid] R2 by auto
  then show ?thesis unfolding ovpn_serve_def m prod.case k Let_def by auto
qed

lemma tcpOpenVPN_ok:
  assumes "run_ok e c (core f)"
  shows "returns_ok e c (tcpOpenVPN sv e f)"
proof -
  obtain r br f1 where r: "readFrame (new_reader 4096) (tparse ParseOpenVPN f) = Some (r, br, f1)" "core f1 = core f"
    using readFrame_ok [of "new_reader 4096" "tparse ParseOpenVPN f"] by auto
  have "ParseClientReset la pkt \<noteq> None" for la pkt using parse_total [of la pkt] by (auto simp: ParseClientReset_def)
  then show ?thesis using r assms
    by (cases r) (auto simp: tcpOpenVPN_def Let_def intro!: ovpn_serve_ok ok_bind_any dest!: tcp_now_core tcp_write_core split: prod.splits sum.splits bool.splits option.splits)
qed

lemma tcpDNS_ok:
  assumes "run_ok e c (core f)"
  shows "returns_ok e c (tcpDNS sv e viaTLS f)"
proof -
  define f1 where "f1 = (if viaTLS then tset ''via'' ''dot'' (tparse ParseDNS f) else tparse ParseDNS f)"
  have c1: "core f1 = core f" by (simp add: f1_def)
  obtain r p where r: "ReadFull pc_Read 2 (tf_pc f1) = Some (r, p)" using peek_reader.ReadFull_ok [of 2 "tf_pc f1"] by auto
  show ?thesis
  proof (cases r)
    case (Inl err)
    then show ?thesis unfolding tcpDNS_def Let_def f1_def [symmetric] using assms c1 r by simp
  next
    case (Inr b)
    obtain x p' where x: "ReadFull pc_Read (be_nat b) p = Some (x, p')" using peek_reader.ReadFull_ok [of "be_nat b" p] by blast
    show ?thesis unfolding tcpDNS_def Let_def f1_def [symmetric] using assms c1 r Inr x
      by (auto dest!: tcp_write_core split: sum.splits option.splits prod.splits)
  qed
qed

section \<open>HTTP\<close>

lemma ReadRequest_core: "ReadRequest f = (r, f') \<Longrightarrow> core f' = core f \<and> length (tf_http f') \<le> length (tf_http f) \<and> (\<forall>q. r = Inr q \<longrightarrow> length (tf_http f') < length (tf_http f))"
  by (auto simp: ReadRequest_def core_def split: list.splits)

lemma tcp_write_http: "tcp_write b f = (err, f') \<Longrightarrow> tf_http f' = tf_http f"
  by (auto simp: tcp_write_def split: prod.splits)

lemma tcp_now_http: "tcp_now e f = (t, f') \<Longrightarrow> tf_http f' = tf_http f"
  by (auto simp: tcp_now_def sync_def)

lemma store_call_http: "store_call e op f = (t, f') \<Longrightarrow> tf_http f' = tf_http f"
  by (auto simp: store_call_def sync_def Let_def split: prod.splits)

lemma http_simps [simp]:
  "tf_http (tobs g f) = tf_http f" "tf_http (tset k v f) = tf_http f" "tf_http (tresponse k f) = tf_http f" "tf_http (tclose k f) = tf_http f"
  "tf_http (treplied e f) = tf_http f"
  by (simp_all add: tobs_def tset_def tresponse_def tclose_def treplied_def tcp_now_def sync_def)

lemma writeSimple_core [simp]: "core (writeSimple code msg f) = core f"
  using tcp_write_core by (metis prod.collapse writeSimple_def)

lemma bulk_finish_core [simp]: "core (bulk_finish bs r f) = core f"
  by (simp add: bulk_finish_def)

lemma bulk_up_ok:
  assumes "run_ok e c (core f)"
  shows "case bulk_up e req b bs f of Inl f' \<Rightarrow> run_ok e c (core f') | Inr (bs', f') \<Rightarrow> run_ok e c (core f') \<and> tf_http f' = tf_http f"
proof -
  obtain body err where l: "limit_body (bulkMaxChunk + 1) req = (body, err)" by fastforce
  obtain t f1 where n: "tcp_now e f = (t, f1)" by fastforce
  obtain g f2 where g: "store_call e (t, OpBulk (te_ip e) (int (length body)) (te_day e t)) f1 = (g, f2)" by fastforce
  have c2: "run_ok e c (core f2)" "tf_http f2 = tf_http f"
    using tcp_now_core [OF n] store_call_core [OF g] assms tcp_now_http [OF n] store_call_http [OF g] by auto
  have W: "run_ok e c (core h)" "tf_http h = tf_http f" if "tcp_write b f2 = (w, h)" for b w h
    using that c2 tcp_write_core tcp_write_http by auto
  show ?thesis
  proof (cases "err \<noteq> None \<or> length body > bulkMaxChunk")
    case True
    then show ?thesis using l assms by (auto simp: bulk_up_def Let_def split: option.splits)
  next
    case False
    show ?thesis
    proof (cases "g = Granted True")
      case True
      then show ?thesis using l n g False W by (auto simp: bulk_up_def Let_def split: option.splits prod.splits)
    next
      case nok: False
      then have "bulk_up e req b bs f = Inl (bulk_finish bs ''normal'' (writeSimple 413 ''chunk too large or bulk quota exhausted'' f2))"
        using l n g False by (auto simp: bulk_up_def Let_def split: store_result.splits bool.splits option.splits)
      then show ?thesis using c2 by simp
    qed
  qed
qed

interpretation down_loop: terminating_loop "down_step nonce want" "\<lambda>(off, f). run_ok e c (core f) \<and> tf_http f = ht" "\<lambda>(werr, off, f). run_ok e c (core f) \<and> tf_http f = ht"
  "\<lambda>(off, f). want - off" for nonce want e c ht
  by unfold_locales (auto simp: down_step_def Let_def dest: tcp_write_core tcp_write_http split: flow_splits)

lemma bulk_down_ok:
  assumes "run_ok e c (core f)"
  shows "\<exists>x. bulk_down e b bs f = Some x \<and> (case x of Inl f' \<Rightarrow> run_ok e c (core f') | Inr (bs', f') \<Rightarrow> run_ok e c (core f') \<and> tf_http f' = tf_http f)"
proof (cases "bk_n b \<le> 0 \<or> bk_n b > bulkMaxDownload")
  case True
  then show ?thesis using assms by (auto simp: bulk_down_def Let_def)
next
  case False
  obtain t f1 where n: "tcp_now e f = (t, f1)" by fastforce
  obtain g f2 where g: "store_call e (t, OpBulk (te_ip e) (bk_n b) (te_day e t)) f1 = (g, f2)" by fastforce
  have c2: "run_ok e c (core f2)" "tf_http f2 = tf_http f"
    using tcp_now_core [OF n] store_call_core [OF g] assms tcp_now_http [OF n] store_call_http [OF g] by auto
  show ?thesis
  proof (cases "g = Granted True")
    case True
    obtain w f3 where w: "tcp_write (bytes_of (bulk_header ''application/octet-stream'' (nat (bk_n b)) (bk_nonce b))) f2 = (w, f3)" by fastforce
    have c3: "run_ok e c (core f3)" "tf_http f3 = tf_http f" using c2 tcp_write_core [OF w] tcp_write_http [OF w] by auto
    obtain we off f4 where l: "io_loop (down_step (bk_nonce b) (nat (bk_n b))) (0, f3) = Some (we, off, f4)" "run_ok e c (core f4)" "tf_http f4 = tf_http f"
      using down_loop.loop_returns [of e c "tf_http f" "(0, f3)" "bk_nonce b" "nat (bk_n b)"] c3 by auto
    show ?thesis using False True n g w c3 l by (cases w; cases we) (auto simp: bulk_down_def Let_def)
  next
    case nok: False
    then have "bulk_down e b bs f = Some (Inl (bulk_finish bs ''normal'' (writeSimple 413 ''download too large or bulk quota exhausted'' f2)))"
      using n g False by (auto simp: bulk_down_def Let_def split: store_result.splits bool.splits)
    then show ?thesis using c2 by simp
  qed
qed

interpretation bulk_loop: terminating_loop "bulk_step e first" "\<lambda>(req, bs, f). run_ok e c (core f)" "\<lambda>f. run_ok e c (core f)"
  "\<lambda>(req, bs, f). length (tf_http f)" for e first c
proof
  fix s :: "http_req \<times> bulkState \<times> tcpFlow" assume s: "case s of (req, bs, f) \<Rightarrow> run_ok e c (core f)"
  obtain req bs f where x: "s = (req, bs, f)" by (metis prod_cases3)
  have R: "run_ok e c (core f)" using s x by simp
  show "\<exists>y. bulk_step e first s = Some y \<and> (case y of Inl z \<Rightarrow> run_ok e c (core z)
    | Inr s' \<Rightarrow> (case s' of (req, bs, f) \<Rightarrow> run_ok e c (core f)) \<and> (case s' of (req, bs, f) \<Rightarrow> length (tf_http f)) < (case s of (req, bs, f) \<Rightarrow> length (tf_http f)))"
  proof (cases "ParseBulkPath (hq_path req)")
    case None
    then show ?thesis using R by (simp add: bulk_step_def x)
  next
    case (Some b)
    show ?thesis
    proof (cases "bk_session b \<noteq> bk_session first \<or> bk_nonce b \<noteq> bk_nonce first")
      case True
      then show ?thesis using R Some by (auto simp: bulk_step_def x)
    next
      case False
      obtain r where r: "(if bk_dir b = ''up'' then Some (bulk_up e req b bs f) else if bk_dir b = ''down'' then bulk_down e b bs f else Some (Inr (bs, f))) = Some r"
        "case r of Inl f' \<Rightarrow> run_ok e c (core f') | Inr (bs', f') \<Rightarrow> run_ok e c (core f') \<and> tf_http f' = tf_http f"
        using bulk_up_ok [OF R, of req b bs] bulk_down_ok [OF R, of b bs] R by (cases "bk_dir b = ''up''"; cases "bk_dir b = ''down''") auto
      have eq: "bulk_step e first s = (case r of
                  Inl f \<Rightarrow> Some (Inl f)
                | Inr (bs, f) \<Rightarrow>
                    (case ReadRequest (tresponse (''bulk_'' @ bk_dir b) (treplied e f)) of
                       (Inl err, f) \<Rightarrow> Some (Inl (bulk_finish bs (closeReason (Some err)) f))
                     | (Inr req, f) \<Rightarrow> Some (Inr (req, bs, f))))"
        unfolding bulk_step_def x prod.case Some option.case if_not_P [OF False] r(1) bind.bind_lunit by simp
      show ?thesis
      proof (cases r)
        case (Inl f')
        then show ?thesis using eq r(2) by simp
      next
        case (Inr y)
        obtain bs' f' where y: "y = (bs', f')" by fastforce
        obtain q f'' where q: "ReadRequest (tresponse (''bulk_'' @ bk_dir b) (treplied e f')) = (q, f'')" by fastforce
        have "run_ok e c (core f'')" "\<And>z. q = Inr z \<Longrightarrow> length (tf_http f'') < length (tf_http f)"
          using ReadRequest_core [OF q] r(2) Inr y by auto
        then show ?thesis using eq Inr y q by (cases q) (auto simp: x)
      qed
    qed
  qed
qed

lemma tcpBulk_ok:
  assumes "run_ok e c (core f)"
  shows "returns_ok e c (tcpBulk e req b f)"
proof -
  let ?f = "tset ''bulk'' (bk_dir b) (tobs (\<lambda>ob. ob\<lparr>obs_parse := ParseHTTP, obs_session := bk_session b, obs_test := bk_test b, obs_nonce := bk_nonce b\<rparr>) f)"
  let ?bs = "\<lparr>bs_up = 0, bs_down = 0, bs_chunks = 0, bs_last = -1\<rparr>"
  obtain t f1 where n: "tcp_now e ?f = (t, f1)" by fastforce
  obtain s f2 where l: "store_look e (\<lambda>s. sessionByHex s (bk_session b) t) f1 = (s, f2)" by fastforce
  have c2: "run_ok e c (core f2)" using tcp_now_core [OF n] store_look_core [OF l] assms by auto
  obtain f3 where "io_loop (bulk_step e b) (req, ?bs, f2) = Some f3" "run_ok e c (core f3)"
    using bulk_loop.loop_returns [of e c "(req, ?bs, f2)" b] c2 by auto
  then show ?thesis using n l c2 by (auto simp: tcpBulk_def Let_def split: option.splits)
qed

lemma tcpTorDir_ok: "run_ok e c (core f) \<Longrightarrow> returns_ok e c (tcpTorDir e req f)"
  unfolding tcpTorDir_def Let_def by (auto dest!: tcp_now_core tcp_write_core split: prod.splits option.splits)

lemma tcpHTTP_ok:
  assumes "run_ok e c (core f)"
  shows "returns_ok e c (tcpHTTP e f)"
proof -
  obtain r f1 where r: "ReadRequest (tparse ParseHTTP f) = (r, f1)" by fastforce
  have c1: "core f1 = core f" using ReadRequest_core [OF r] by simp
  show ?thesis
  proof (cases r)
    case (Inl err)
    then show ?thesis using r c1 assms by (simp add: tcpHTTP_def)
  next
    case (Inr req)
    have W: "returns_ok e c (Some (case tcp_write b g of (Some werr, f) \<Rightarrow> tclose (closeReason (Some werr)) f
        | (None, f) \<Rightarrow> tclose ''normal'' (treplied e (tresponse ''http_200'' f))))" if "core g = core f" for b g
      using that assms by (auto dest!: tcp_write_core split: prod.splits option.splits)
    show ?thesis
    proof (cases "ParseBulkPath (hq_path req)")
      case None
      show ?thesis
      proof (cases "has_prefix (hq_path req) ''/tor/''")
        case True
        then show ?thesis using r Inr None c1 assms tcpTorDir_ok [of e c f1] by (simp add: tcpHTTP_def)
      next
        case False
        then show ?thesis unfolding tcpHTTP_def r prod.case Inr sum.case None option.case if_not_P [OF False] Let_def
          by (intro W) (simp add: c1 split: option.splits prod.splits)
      qed
    next
      case (Some b)
      then show ?thesis using r Inr c1 assms tcpBulk_ok by (simp add: tcpHTTP_def)
    qed
  qed
qed

section \<open>Tor and TLS\<close>

interpretation versions_loop: terminating_loop versions_step "\<lambda>(buf, f). run_ok e c (core f)" "\<lambda>(r, f). run_ok e c (core f)"
  "\<lambda>(buf, f). left f" for e c
proof
  fix s :: "bytes \<times> tcpFlow" assume s: "case s of (buf, f) \<Rightarrow> run_ok e c (core f)"
  obtain buf f where x: "s = (buf, f)" by fastforce
  obtain r where r: "ParseVersions buf = Some r" using ParseVersions_total [of buf] by blast
  obtain bs err f' where rd: "tcp_read 4096 f = ((bs, err), f')" by (metis surj_pair)
  show "\<exists>y. versions_step s = Some y \<and> (case y of Inl z \<Rightarrow> (case z of (r, f) \<Rightarrow> run_ok e c (core f))
    | Inr s' \<Rightarrow> (case s' of (buf, f) \<Rightarrow> run_ok e c (core f)) \<and> (case s' of (buf, f) \<Rightarrow> left f) < (case s of (buf, f) \<Rightarrow> left f))"
    using r rd tcp_read_cores(3) [OF rd] s ParseVersions_len [of buf] by (cases r; cases err) (auto simp: versions_step_def x go_defs)
qed

lemma tor_cell_ok: "run_ok e c (core f) \<Longrightarrow> (case tor_cell e cl ts f of Inl (ts', f') \<Rightarrow> run_ok e c (core f')
  | Inr (ts', f') \<Rightarrow> run_ok e c (core f') \<and> left f' = left f \<and> ts_buf ts' = ts_buf ts)"
  by (auto simp: tor_cell_def Let_def dest!: tcp_write_core split: prod.splits option.splits)

interpretation cells_loop: terminating_loop "cells_step e" "\<lambda>(ts, f). run_ok e c (core f)" "\<lambda>(ts, f). run_ok e c (core f)"
  "\<lambda>(ts, f). 2 * left f + length (ts_buf ts)" for e c
proof
  fix s :: "torState \<times> tcpFlow" assume s: "case s of (ts, f) \<Rightarrow> run_ok e c (core f)"
  obtain ts f where x: "s = (ts, f)" by fastforce
  have R: "run_ok e c (core f)" using s x by simp
  obtain cl n where p: "ParseCell (ts_buf ts) = Some (cl, n)" "n \<le> length (ts_buf ts)" using ParseCell_total by blast
  obtain bs err f' where rd: "tcp_read 4096 f = ((bs, err), f')" by (metis surj_pair)
  let ?ts = "ts\<lparr>ts_buf := drop n (ts_buf ts), ts_cells := ts_cells ts + 1\<rparr>"
  show "\<exists>y. cells_step e s = Some y \<and> (case y of Inl z \<Rightarrow> (case z of (ts, f) \<Rightarrow> run_ok e c (core f))
    | Inr s' \<Rightarrow> (case s' of (ts, f) \<Rightarrow> run_ok e c (core f))
        \<and> (case s' of (ts, f) \<Rightarrow> 2 * left f + length (ts_buf ts)) < (case s of (ts, f) \<Rightarrow> 2 * left f + length (ts_buf ts)))"
  proof (cases "ts_cells ts < 4 * vpnSessionMaxData")
    case False
    then show ?thesis using s by (simp add: cells_step_def x)
  next
    case True
    show ?thesis
    proof (cases "n = 0")
      case True
      then show ?thesis using \<open>ts_cells ts < 4 * vpnSessionMaxData\<close> p rd tcp_read_cores(3) [OF rd] R by (cases err) (auto simp: cells_step_def x)
    next
      case False
      then have "cells_step e s = Some (tor_cell e cl ?ts f)" using True p by (simp add: cells_step_def x go_defs)
      then show ?thesis using tor_cell_ok [OF R, where cl = cl and ts = ?ts] False p(2) by (auto simp: x split: sum.splits)
    qed
  qed
qed

lemma link_cells_ok:
  assumes "run_ok e c (core f)"
  shows "returns_ok e c (link_cells e buf f)"
proof -
  let ?ts = "\<lparr>ts_buf = buf, ts_dataIn = 0, ts_dataOut = 0, ts_cells = 0\<rparr>"
  obtain ts f' where "io_loop (cells_step e) (?ts, f) = Some (ts, f')" "run_ok e c (core f')"
    using cells_loop.loop_returns [of e c "(?ts, f)"] assms by auto
  then show ?thesis by (auto simp: link_cells_def Let_def)
qed

lemma tcpTorLink_ok:
  assumes "run_ok e c (core f)"
  shows "returns_ok e c (tcpTorLink e f)"
proof -
  obtain r f1 where l: "io_loop versions_step ([], tset ''inner'' ''tor_link'' f) = Some (r, f1)" "run_ok e c (core f1)"
    using versions_loop.loop_returns [of e c "([], tset ''inner'' ''tor_link'' f)"] assms by auto
  show ?thesis
  proof (cases r)
    case None
    then show ?thesis using l by (simp add: tcpTorLink_def)
  next
    case (Some y)
    obtain theirs buf where y: "y = (theirs, buf)" by fastforce
    show ?thesis unfolding tcpTorLink_def l(1) bind.bind_lunit prod.case Some y option.case Let_def using l(2)
      by (auto intro!: link_cells_ok dest!: tcp_now_core tcp_write_core split: prod.splits option.splits)
  qed
qed

lemma wantTorCert_ok: "run_ok e c (core f) \<Longrightarrow> wantTorCert e h f = (b, f') \<Longrightarrow> run_ok e c (core f')"
  by (auto simp: wantTorCert_def Let_def dest!: tcp_now_core store_look_core split: prod.splits if_splits)

lemma on_inner_ok: "(\<And>g. run_ok e c (core g) \<Longrightarrow> returns_ok e c (h g)) \<Longrightarrow> run_ok e c (core f) \<Longrightarrow> returns_ok e c (on_inner h mrg inner row f)"
  unfolding on_inner_def by (rule ok_map) simp_all

lemma vless_Parse_len: "vless_Parse b = Some (Inr r) \<Longrightarrow> vp_len r \<le> length b"
  by (auto simp: vless_Parse_def vless_address_def Let_def split: if_splits Option.bind_splits sum.splits)

lemma tls_vless_ok:
  assumes "run_ok e c (core f)" and "vless_IsRequest first"
  shows "returns_ok e c (tls_vless e first inner f)"
proof -
  obtain r where r: "vless_Parse first = Some (Inr r)" using assms(2) by (auto simp: vless_IsRequest_def split: option.splits sum.splits)
  show ?thesis using vless_Parse_len [OF r] assms(1)
    by (auto simp: tls_vless_def r go_defs Let_def intro!: on_inner_ok split: prod.splits option.splits)
qed

lemma hello_details_core [simp]: "core (hello_details h f) = core f"
  by (simp add: hello_details_def split: option.splits)

lemma tls_moved_core [simp]: "core (tls_moved out f) = core f"
  by (simp add: tls_moved_def core_def)

lemma tls_inner_ok:
  assumes "env_ok e" and "run_ok e c (core f)"
  shows "returns_ok e c (tls_inner sv e first inner f)"
proof -
  have env: "returns_ok e c (tcpEnvelope e g)" if "run_ok e c (core g)" for g using ok_from [of "tcpEnvelope e", OF tcpEnvelope_ok] assms(1) that by blast
  show ?thesis unfolding tls_inner_def
    using assms(2) by (auto intro!: on_inner_ok env tls_vless_ok tcpTorLink_ok tcpHTTP_ok tcpUnknown_ok)
qed

lemma tcpTLS_ok:
  assumes "env_ok e" and "run_ok e c (core f)"
  shows "returns_ok e c (tcpTLS sv e f)"
proof -
  obtain cert f1 where w: "(case te_hello e of None \<Rightarrow> (False, tparse ParseTLS f) | Some h \<Rightarrow> wantTorCert e h (tparse ParseTLS f)) = (cert, f1)" by fastforce
  have "run_ok e c (core f1)" using w assms(2) wantTorCert_ok [of e c "tparse ParseTLS f"] by (cases "te_hello e") auto
  then show ?thesis unfolding tcpTLS_def Let_def w prod.case
    by (auto intro!: tls_inner_ok assms(1) split: option.splits prod.splits)
qed

lemma tcpDoT_ok: "run_ok e c (core f) \<Longrightarrow> returns_ok e c (tcpDoT sv e f)"
  by (auto simp: tcpDoT_def Let_def intro!: on_inner_ok tcpDNS_ok split: option.splits prod.splits)

section \<open>The contract of a protocol\<close>

locale tcp_handler =
  fixes handler :: "tcp_server \<Rightarrow> tcp_env \<Rightarrow> tcpFlow \<Rightarrow> tcpFlow option"
  assumes handler_ok: "env_ok e \<Longrightarrow> run_ok e c (core f) \<Longrightarrow> returns_ok e c (handler sv e f)"
begin

lemma no_panic: "env_ok e \<Longrightarrow> handler sv e f \<noteq> None"
  using handler_ok [of e "core f" f sv] by (auto simp: returns_ok_def)

lemma store_effect:
  assumes "env_ok e" and "handler sv e f = Some f'"
  shows "run_ok e (core f) (core f')"
  using handler_ok [OF assms(1) run_ok_refl, of f sv] assms(2) by simp

end

interpretation t_envelope: tcp_handler "\<lambda>sv e. tcpEnvelope e"
  by unfold_locales (rule ok_from [of "tcpEnvelope _", OF tcpEnvelope_ok])

interpretation t_tls: tcp_handler tcpTLS by unfold_locales (rule tcpTLS_ok)

interpretation t_openvpn: tcp_handler tcpOpenVPN by unfold_locales (rule tcpOpenVPN_ok)

interpretation t_socks5: tcp_handler "\<lambda>sv e. tcpSOCKS5 e" by unfold_locales (rule tcpSOCKS5_ok)

interpretation t_http: tcp_handler "\<lambda>sv e. tcpHTTP e" by unfold_locales (rule tcpHTTP_ok)

interpretation t_unknown: tcp_handler tcpUnknown by unfold_locales (rule tcpUnknown_ok)

interpretation t_dns: tcp_handler "\<lambda>sv e. tcpDNS sv e viaTLS" for viaTLS by unfold_locales (rule tcpDNS_ok)

interpretation t_dot: tcp_handler tcpDoT by unfold_locales (rule tcpDoT_ok)

lemmas tcp_handlers = t_envelope.handler_ok t_tls.handler_ok t_openvpn.handler_ok t_socks5.handler_ok t_http.handler_ok t_unknown.handler_ok
  t_dns.handler_ok t_dot.handler_ok

interpretation t_dispatch: tcp_handler "\<lambda>sv e. tcp_dispatch sv e role first" for role first
  by unfold_locales (auto simp: tcp_dispatch_def intro!: tcp_handlers)

lemma finish_ok: "run_ok e c (core f) \<Longrightarrow> run_ok e c (core (finish e kind f))"
proof -
  assume R: "run_ok e c (core f)"
  let ?f0 = "tobs (\<lambda>ob. ob\<lparr>obs_bytes_in := int (pc_in (tf_pc f)), obs_bytes_out := int (pc_out (tf_pc f))\<rparr>) f"
  obtain ct f1 where n: "tcp_now e ?f0 = (ct, f1)" by fastforce
  define f2 where "f2 = tobs (\<lambda>ob. ob\<lparr>obs_closed_at := Some ct\<rparr>) f1"
  have R2: "run_ok e c (core f2)" using tcp_now_core [OF n] R by (auto simp: f2_def)
  obtain found f3 where q: "(if obs_session (tf_obs f2) = '''' \<or> tdetail f2 ''partial'' = ''true'' then
                      if kind = '''' \<and> obs_parse (tf_obs f2) = ParseEmpty
                      then map_prod Found id (store_look e (\<lambda>s. attributeReservation s (te_ip e) ''tcp'' (obs_dst_port (tf_obs f2)) (obs_first_seen (tf_obs f2))) f2)
                      else store_call e (obs_first_seen (tf_obs f2), OpFind (te_ip e) ''tcp'' (obs_dst_port (tf_obs f2)) kind True) f2
                    else (Done, f2)) = (found, f3)" by fastforce
  have R3: "run_ok e c (core f3)" using q R2
    by (cases "store_look e (\<lambda>s. attributeReservation s (te_ip e) ''tcp'' (obs_dst_port (tf_obs f2)) (obs_first_seen (tf_obs f2))) f2")
       (auto dest!: store_look_core store_call_core split: if_splits)
  define f4 where "f4 = (case found of
                        Found (Some r) \<Rightarrow> tobs (\<lambda>ob. applyReservation ob r) f3
                      | Found None \<Rightarrow> if obs_session (tf_obs f2) = '''' then tobs (\<lambda>ob. ob\<lparr>obs_unmatched := True\<rparr>) f3 else f3
                      | _ \<Rightarrow> f3)"
  have c4: "core f4 = core f3" by (simp add: f4_def split: store_result.splits option.splits)
  obtain t f5 where n5: "tcp_now e f4 = (t, f5)" by fastforce
  obtain r f6 where a: "store_call e (t, OpAddObs (tf_obs f5) (rnd_bytes (te_rnd e 3) 8)) f5 = (r, f6)" by fastforce
  have "finish e kind f = f6"
    unfolding finish_def Let_def n prod.case f2_def [symmetric] q f4_def [symmetric] n5 a by simp
  then show ?thesis using tcp_now_core [OF n5] store_call_core [OF a] R3 c4 by auto
qed

lemma handleTCP_ok:
  assumes "env_ok e"
  shows "returns_ok e (s, 0, []) (handleTCP sv e port role cn s)"
proof -
  obtain first serr f where sn: "tcp_sniff 1 (tcp_start e port cn s) = ((first, serr), f)" by (metis surj_pair)
  have "core (tcp_start e port cn s) = core_sync e (s, 0, [])" by (simp add: tcp_start_def Let_def) (simp add: core_def)
  then have R: "run_ok e (s, 0, []) (core f)" using tcp_sniff_core [OF sn] by auto
  show ?thesis
  proof (cases "first = []")
    case True
    then show ?thesis using finish_ok [of e "(s, 0, [])" "tclose (closeReason serr) f" "''''"] R
      unfolding handleTCP_def sn prod.case if_P [OF True] by simp
  next
    case False
    define f1 where "f1 = (if length first < 24 then snd (tcp_sniff 24 f) else f)"
    have "core f1 = core f" using tcp_sniff_core [of 24 f] by (cases "tcp_sniff 24 f") (auto simp: f1_def)
    then have "returns_ok e (s, 0, []) (tcp_dispatch sv e role (pc_prefix (tf_pc f1)) f1)" using t_dispatch.handler_ok [OF assms] R by simp
    then show ?thesis unfolding handleTCP_def sn prod.case if_not_P [OF False] Let_def f1_def [symmetric] by (auto intro: finish_ok)
  qed
qed

end
