(* ===== verification/Tcp_Safety.thy ===== *)
theory Tcp_Safety
  imports Tcp_Props Udp_Safety
begin

text \<open>
  What a peer of the TCP responder can get: an envelope is answered only with the session's key, a granted
  test and an attempt that was paid for; a SOCKS5 peer without a reservation gets the refusal and nothing
  else; a download is exactly the keystream and is paid for before the first byte; and a client that
  follows the protocol is answered, however its stream is cut into segments.
\<close>

section \<open>What is on the wire\<close>

definition sent :: "tcpFlow \<Rightarrow> bytes list" where
  "sent f = cn_sent (pc_conn (tf_pc f))"

lemma sent_simps [simp]:
  "sent (tobs g f) = sent f" "sent (tset k v f) = sent f" "sent (tparse k f) = sent f" "sent (tresponse k f) = sent f"
  "sent (tclose k f) = sent f" "sent (terror k f) = sent f" "sent (tsha b f) = sent f" "sent (f\<lparr>tf_tls := x\<rparr>) = sent f"
  "sent (f\<lparr>tf_obs := ob\<rparr>) = sent f" "sent (f\<lparr>tf_http := ht\<rparr>) = sent f" "sent (quiet_close err f) = sent f" "sent (sync e f) = sent f"
  "sent (treplied e f) = sent f" "sent (set_prefix b f) = sent f"
  by (simp_all add: sent_def tobs_def tset_def tparse_def tresponse_def tclose_def terror_def tsha_def quiet_close_def sync_def
      treplied_def tcp_now_def set_prefix_def)

lemma tcp_now_sent: "tcp_now e f = (t, f') \<Longrightarrow> sent f' = sent f"
  by (auto simp: tcp_now_def)

lemma store_look_sent: "store_look e g f = (x, f') \<Longrightarrow> sent f' = sent f"
  by (auto simp: store_look_def Let_def)

lemma store_call_sent: "store_call e op f = (r, f') \<Longrightarrow> sent f' = sent f"
  by (auto simp: store_call_def Let_def sync_def sent_def split: prod.splits)

lemma tcp_read_sent: "tcp_read k f = (r, f') \<Longrightarrow> sent f' = sent f"
  by (auto simp: tcp_read_def sent_def pc_Read_def conn_Read_def split: prod.splits if_splits list.splits)

lemma sniff_loop_sent: "sniff_loop k buf p = (err, buf', p') \<Longrightarrow> cn_sent (pc_conn p') = cn_sent (pc_conn p)"
proof (induction k buf p rule: sniff_loop.induct)
  case (1 k buf p)
  obtain bs er c where r: "conn_Read 4096 (pc_conn p) = ((bs, er), c)" by (metis surj_pair)
  have c: "cn_sent c = cn_sent (pc_conn p)" using conn_Read_left(4) [OF r] by simp
  let ?p = "p\<lparr>pc_conn := c, pc_in := pc_in p + length bs\<rparr>"
  show ?case
  proof (cases "length buf < k \<and> er = None")
    case True
    then have "sniff_loop k buf p = sniff_loop k (buf @ bs) ?p" using r by (subst sniff_loop.simps) simp
    then show ?thesis using 1(1) [OF _ r [symmetric] refl refl refl] 1(2) True c by simp
  next
    case False
    then show ?thesis using 1(2) r c by (subst (asm) sniff_loop.simps) (auto simp: Let_def split: if_splits)
  qed
qed

lemma tcp_sniff_sent: "tcp_sniff k f = (r, f') \<Longrightarrow> sent f' = sent f"
  using sniff_loop_sent [of k "pc_prefix (tf_pc f)" "(tf_pc f)\<lparr>pc_prefix := []\<rparr>"]
  by (auto simp: tcp_sniff_def sniff_def sent_def split: prod.splits)

lemma tcp_write_sent: "tcp_write b f = (err, f') \<Longrightarrow> \<exists>k. sent f' = sent f @ [take k b] \<and> (err = None \<longrightarrow> take k b = b)"
  by (auto simp: tcp_write_def pc_Write_def conn_Write_def sent_def split: prod.splits list.splits option.splits intro: exI [of _ "length b"])

section \<open>Envelopes\<close>

text \<open>A reply someone was entitled to: made for a request that decodes under the key the store held for its
  session, for a test the session grants, after the rate limiter granted the attempt. The stores are those
  after the recorded operations up to \<open>i\<close>, \<open>j\<close> and \<open>m\<close>.\<close>

definition store_at :: "store \<Rightarrow> (bool \<times> time \<times> store_op) list \<Rightarrow> nat \<Rightarrow> store" where
  "store_at s0 ops i = store_run s0 (map snd (take i ops))"

definition paid_attempt :: "store \<Rightarrow> (bool \<times> time \<times> store_op) list \<Rightarrow> time \<Rightarrow> addr \<Rightarrow> bool" where
  "paid_attempt s0 ops seen ip \<longleftrightarrow> (\<exists>m<length ops. ops ! m = (True, seen, OpAllowAttempt ip)
     \<and> snd (store_step (store_at s0 ops m) (seen, OpAllowAttempt ip)) = Granted True)"

definition entitled_reply :: "store \<Rightarrow> (bool \<times> time \<times> store_op) list \<Rightarrow> bytes \<Rightarrow> bool" where
  "entitled_reply s0 ops b \<longleftrightarrow> (\<exists>i j r raw kn seen sess t k. i \<le> length ops \<and> j \<le> length ops
     \<and> decode_request raw (keyFor (store_at s0 ops i) kn) = Some (Some r, None)
     \<and> getSession (store_at s0 ops j) (req_session r) seen = Some sess \<and> req_test r \<in> set (ses_tests sess)
     \<and> paid_attempt s0 ops seen (ses_client sess) \<and> b = take k (encode_reply r seen t (ses_key sess)))"

lemma store_at_extend: "i \<le> length ops \<Longrightarrow> store_at s0 (ops @ new) i = store_at s0 ops i"
  by (simp add: store_at_def)

lemma paid_extend: "paid_attempt s0 ops seen ip \<Longrightarrow> paid_attempt s0 (ops @ new) seen ip"
proof -
  assume "paid_attempt s0 ops seen ip"
  then obtain m where "m < length ops" "ops ! m = (True, seen, OpAllowAttempt ip)" "snd (store_step (store_at s0 ops m) (seen, OpAllowAttempt ip)) = Granted True"
    by (auto simp: paid_attempt_def)
  then show ?thesis unfolding paid_attempt_def by (intro exI [of _ m]) (simp add: store_at_extend nth_append)
qed

lemma entitled_extend: "entitled_reply s0 ops b \<Longrightarrow> entitled_reply s0 (ops @ new) b"
  unfolding entitled_reply_def
  by (elim exE conjE, rename_tac i j r raw kn seen sess t k, rule_tac x = i in exI, rule_tac x = j in exI)
     (fastforce simp: store_at_extend paid_extend)

text \<open>The flow's store is the one its recorded operations give, and everything it sent since \<open>n0\<close> writes was entitled.\<close>

definition env_inv :: "store \<Rightarrow> nat \<Rightarrow> tcpFlow \<Rightarrow> bool" where
  "env_inv s0 n0 f \<longleftrightarrow> tf_store f = store_at s0 (tf_ops f) (length (tf_ops f)) \<and> list_all (entitled_reply s0 (tf_ops f)) (drop n0 (sent f)) \<and> n0 \<le> length (sent f)"

lemma entitled_list: "list_all (entitled_reply s0 ops) bs \<Longrightarrow> list_all (entitled_reply s0 (ops @ new)) bs"
  by (simp add: list_all_iff entitled_extend)

lemma env_inv_same: "env_inv s0 n0 f \<Longrightarrow> core f' = core f \<Longrightarrow> sent f' = sent f \<Longrightarrow> env_inv s0 n0 f'"
  by (simp add: env_inv_def core_def)

lemma env_inv_simps [simp]:
  "env_inv s0 n0 (tobs g f) = env_inv s0 n0 f" "env_inv s0 n0 (tset k v f) = env_inv s0 n0 f" "env_inv s0 n0 (tresponse k f) = env_inv s0 n0 f"
  "env_inv s0 n0 (tclose k f) = env_inv s0 n0 f" "env_inv s0 n0 (terror k f) = env_inv s0 n0 f"
  by (simp_all add: env_inv_def tset_def tresponse_def tclose_def terror_def) (simp_all add: tobs_def)

lemma store_at_append: "store_at s0 (ops @ new) (length (ops @ new)) = store_run (store_at s0 ops (length ops)) (map snd new)"
  by (simp add: store_at_def store_run_append)

lemma env_inv_step:
  assumes "env_inv s0 n0 f" and "tf_ops f' = tf_ops f @ new" and "tf_store f' = store_run (tf_store f) (map snd new)" and "sent f' = sent f"
  shows "env_inv s0 n0 f'"
  using assms entitled_list unfolding env_inv_def by (metis store_at_append)

lemma env_inv_sync: "env_inv s0 n0 f \<Longrightarrow> env_inv s0 n0 (sync e f)"
  by (rule env_inv_step [where new = "map (Pair False) (te_others e (tf_n f))"]) (simp_all add: sync_def sent_def comp_def)

lemma env_inv_now: "tcp_now e f = (t, f') \<Longrightarrow> env_inv s0 n0 f \<Longrightarrow> env_inv s0 n0 f'"
  using env_inv_sync by (auto simp: tcp_now_def)

lemma env_inv_look: "store_look e g f = (t, f') \<Longrightarrow> env_inv s0 n0 f \<Longrightarrow> env_inv s0 n0 f' \<and> t = g (store_at s0 (tf_ops f') (length (tf_ops f')))"
  using env_inv_sync [of s0 n0 f e] by (auto simp: store_look_def Let_def env_inv_def)

lemma env_inv_call:
  assumes "store_call e op f = (r, f')" and "env_inv s0 n0 f"
  shows "env_inv s0 n0 f' \<and> (\<exists>ops. tf_ops f' = tf_ops f @ ops @ [(True, op)] \<and> r = snd (store_step (store_at s0 (tf_ops f') (length (tf_ops f') - 1)) op))"
proof -
  have I: "env_inv s0 n0 (sync e f)" by (rule env_inv_sync [OF assms(2)])
  have f': "tf_ops f' = tf_ops (sync e f) @ [(True, op)]" "tf_store f' = fst (store_step (tf_store (sync e f)) op)" "sent f' = sent (sync e f)"
    "r = snd (store_step (tf_store (sync e f)) op)" using assms(1) by (auto simp: store_call_def Let_def sent_def split: prod.splits)
  have "env_inv s0 n0 f'" using env_inv_step [OF I f'(1) _ f'(3)] f'(2) by simp
  moreover have "tf_ops (sync e f) = tf_ops f @ map (Pair False) (te_others e (tf_n f))" by (simp add: sync_def)
  moreover have "tf_store (sync e f) = store_at s0 (tf_ops f') (length (tf_ops f') - 1)" using I f'(1) by (simp add: env_inv_def store_at_def)
  ultimately show ?thesis using f' by auto
qed

lemma io_loop_invariant:
  assumes "io_loop step s = Some r" and "I s"
    and "\<And>s s'. I s \<Longrightarrow> step s = Some (Inr s') \<Longrightarrow> I s'" and "\<And>s r. I s \<Longrightarrow> step s = Some (Inl r) \<Longrightarrow> Q r"
  shows "Q r"
proof -
  have "step = st \<longrightarrow> I s \<longrightarrow> Q r" if "io_loop st s = Some r" for st
  proof (rule io_loop.raw_induct [where P = "\<lambda>st s r. step = st \<longrightarrow> I s \<longrightarrow> Q r", OF _ that], goal_cases)
    case (1 lp st s r)
    then show ?case using assms(3,4) by (auto split: option.splits sum.splits)
  qed
  then show ?thesis using assms(1,2) by blast
qed

lemma serve_envelope_inv:
  assumes "serve_envelope e buf tot f = Some x" and "env_inv s0 n0 f"
  shows "case x of Inl f' \<Rightarrow> env_inv s0 n0 f' | Inr (rest, f') \<Rightarrow> env_inv s0 n0 f'"
proof -
  obtain seen f1 where e1: "tcp_now e f = (seen, f1)" by fastforce
  obtain kn f2 where e2: "tcp_now e f1 = (kn, f2)" by fastforce
  obtain kf f3 where e3: "store_look e (\<lambda>s. keyFor s kn) f2 = (kf, f3)" by fastforce
  have I2: "env_inv s0 n0 f2" using env_inv_now [OF e2] env_inv_now [OF e1] assms(2) by blast
  have I3: "env_inv s0 n0 f3" and kf: "kf = keyFor (store_at s0 (tf_ops f3) (length (tf_ops f3))) kn" using env_inv_look [OF e3 I2] by auto
  obtain b req err rest where d: "slc buf 0 tot = Some b" "decode_request b kf = Some (req, err)" "from_ix buf tot = Some rest"
    using assms(1) by (auto simp: serve_envelope_def e1 e2 e3 split: Option.bind_splits)
  define f4 where "f4 = (case req of None \<Rightarrow> f3 | Some r \<Rightarrow> tobs (envelope_obs r) f3)"
  have I4: "env_inv s0 n0 f4" and o4: "tf_ops f4 = tf_ops f3" using env_inv_same [OF I3] by (auto simp: f4_def tobs_def core_def sent_def split: option.splits)
  note unf = serve_envelope_def e1 e2 e3 prod.case d bind.bind_lunit Let_def f4_def [symmetric]
  show ?thesis
  proof (cases err)
    case (Some er)
    then show ?thesis using assms(1) I4 unfolding unf by (auto)
  next
    case None
    obtain r where r: "req = Some r" using decode_request_ok d(2) None by blast
    obtain o1 f5 where e5: "store_look e (\<lambda>s. getSession s (req_session r) seen) f4 = (o1, f5)" by fastforce
    have I5: "env_inv s0 n0 f5" and o1: "o1 = getSession (store_at s0 (tf_ops f5) (length (tf_ops f5))) (req_session r) seen" using env_inv_look [OF e5 I4] by auto
    obtain sess where s: "o1 = Some sess" using assms(1) None r unfolding unf e5 by (cases o1) (auto simp: e5)
    show ?thesis
    proof (cases "req_test r \<in> set (ses_tests sess)")
      case False
      then show ?thesis using assms(1) None r I5 s unfolding unf e5 by (auto simp: e5)
    next
      case True
      obtain g f6 where e6: "store_call e (seen, OpAllowAttempt (ses_client sess)) f5 = (g, f6)" by fastforce
      note C = env_inv_call [OF e6 I5]
      show ?thesis
      proof (cases "g = Granted True")
        case False
        then show ?thesis using assms(1) None r s True C unfolding unf e5 by (auto simp: e5 e6 split: store_result.splits bool.splits)
      next
        case g: True
        obtain rp f7 where e7: "tcp_now e f6 = (rp, f7)" by fastforce
        obtain we f8 where e8: "tcp_write (encode_reply r seen rp (ses_key sess)) f7 = (we, f8)" by fastforce
        obtain k where k: "sent f8 = sent f7 @ [take k (encode_reply r seen rp (ses_key sess))]" using tcp_write_sent [OF e8] by blast
        have I7: "env_inv s0 n0 f7" using env_inv_now [OF e7] C by blast
        obtain ops where ops: "tf_ops f6 = tf_ops f5 @ ops @ [(True, seen, OpAllowAttempt (ses_client sess))]"
            "g = snd (store_step (store_at s0 (tf_ops f6) (length (tf_ops f6) - 1)) (seen, OpAllowAttempt (ses_client sess)))" using C by blast
        obtain more where o7: "tf_ops f7 = tf_ops f6 @ more" using e7 by (auto simp: tcp_now_def sync_def)
        obtain ops5 where o5: "tf_ops f5 = tf_ops f3 @ ops5" using e5 o4 by (auto simp: store_look_def sync_def Let_def)
        have "paid_attempt s0 (tf_ops f6) seen (ses_client sess)" unfolding paid_attempt_def using ops g by (intro exI [of _ "length (tf_ops f6) - 1"]) (simp add: nth_append)
        then have paid: "paid_attempt s0 (tf_ops f7) seen (ses_client sess)" by (simp add: o7 paid_extend)
        have "entitled_reply s0 (tf_ops f7) (take k (encode_reply r seen rp (ses_key sess)))"
          unfolding entitled_reply_def
        proof (intro exI conjI)
          show "length (tf_ops f3) \<le> length (tf_ops f7)" "length (tf_ops f5) \<le> length (tf_ops f7)" by (simp_all add: o7 ops(1) o5)
          show "decode_request b (keyFor (store_at s0 (tf_ops f7) (length (tf_ops f3))) kn) = Some (Some r, None)"
            using d(2) kf r None by (simp add: o7 ops(1) o5 store_at_extend)
          show "getSession (store_at s0 (tf_ops f7) (length (tf_ops f5))) (req_session r) seen = Some sess" using o1 s by (simp add: o7 ops(1) store_at_extend)
        qed (use True paid in auto)
        then have I8: "env_inv s0 n0 f8" using I7 k tcp_write_core [OF e8] by (simp add: env_inv_def core_def)
        have I9: "env_inv s0 n0 (tclose ''normal'' (treplied e (tresponse ''echo'' f8)))"
        proof -
          obtain t f9 where n9: "tcp_now e (tresponse ''echo'' f8) = (t, f9)" by fastforce
          have "env_inv s0 n0 f9" using env_inv_now [OF n9] env_inv_same [OF I8] by simp
          then show ?thesis by (simp add: treplied_def n9)
        qed
        show ?thesis using assms(1) None r s True g I8 I9 unfolding unf e5 by (cases we) (auto simp: e5 e6 e7 e8)
      qed
    qed
  qed
qed

lemma env_step_inv:
  assumes "env_step e (buf, f) = Some x" and "env_inv s0 n0 f"
  shows "case x of Inl f' \<Rightarrow> env_inv s0 n0 f' | Inr (rest, f') \<Rightarrow> env_inv s0 n0 f'"
proof -
  obtain tot need where l: "request_len buf = Some (tot, need)" by (cases rule: request_len_cases [of buf]) auto
  obtain bs err f' where r: "tcp_read 8192 f = ((bs, err), f')" by (metis surj_pair)
  have I': "env_inv s0 n0 f'" using env_inv_same [OF assms(2)] tcp_read_cores(2) [OF r] tcp_read_sent [OF r] by blast
  consider "0 < tot" | "tot = 0" "need > MaxPayload + 512" | "tot = 0" "need \<le> MaxPayload + 512" by linarith
  then show ?thesis
  proof cases
    case 1
    then show ?thesis using assms l serve_envelope_inv by (auto simp: env_step_def)
  next
    case 2
    then show ?thesis using assms l by (auto simp: env_step_def)
  next
    case 3
    show ?thesis
    proof (cases err)
      case None
      then show ?thesis using assms(1) 3 l r I' by (auto simp: env_step_def)
    next
      case (Some er)
      obtain g where g: "partial_obs (buf @ bs) (tclose (closeReason (Some er)) f') = Some g" "x = Inl g" using assms(1) 3 l r Some by (auto simp: env_step_def)
      have "core g = core f'" "sent g = sent f'" using g(1) by (auto simp: partial_obs_def Let_def split: if_splits Option.bind_splits)
      then show ?thesis using env_inv_same [OF I'] g(2) by simp
    qed
  qed
qed

text \<open>Every reply on an envelope stream, in plain TCP or inside TLS, was due.\<close>

lemma tcpEnvelope_inv:
  assumes "tcpEnvelope e f = Some f'" and "env_inv s0 n0 f"
  shows "env_inv s0 n0 f'"
proof (rule io_loop_invariant [where step = "env_step e" and s = "([], tparse ParseEnvelope f)" and I = "\<lambda>(buf, f'). env_inv s0 n0 f'"])
  show "io_loop (env_step e) ([], tparse ParseEnvelope f) = Some f'" using assms(1) by (simp add: tcpEnvelope_def)
  show "case ([], tparse ParseEnvelope f) of (buf, f') \<Rightarrow> env_inv s0 n0 f'" using assms(2) by (simp add: tparse_def)
qed (use env_step_inv in fastforce)+

section \<open>A client that follows the protocol\<close>

text \<open>The bytes a flow has yet to read, and an envelope client on an otherwise idle server: what is buffered and
  what is still to come is the encoding of \<open>rs\<close>, requests of a live session for tests it grants, within the
  address's rate limit; the peer's stream has no errors and takes every write.\<close>

definition to_come :: "tcpFlow \<Rightarrow> bytes" where
  "to_come f = pc_prefix (tf_pc f) @ concat (map fst (cn_reads (pc_conn (tf_pc f))))"

definition clean_conn :: "tcpFlow \<Rightarrow> bool" where
  "clean_conn f \<longleftrightarrow> cn_writes (pc_conn (tf_pc f)) = [] \<and> list_all (\<lambda>(bs, err). err = None) (cn_reads (pc_conn (tf_pc f)))"

definition envelope_client :: "tcp_env \<Rightarrow> session \<Rightarrow> bytes \<Rightarrow> request list \<Rightarrow> tcpFlow \<Rightarrow> bool" where
  "envelope_client e sess buf rs f \<longleftrightarrow> te_others e = (\<lambda>_. []) \<and> clean_conn f
     \<and> buf @ to_come f = concat (map (request_enc (ses_key sess)) rs)
     \<and> (\<forall>r\<in>set rs. request_ok (ses_key sess) r \<and> req_test r \<in> set (ses_tests sess) \<and> map_of (sessions (tf_store f)) (req_session r) = Some sess)
     \<and> (\<forall>k. te_clock e k \<le> ses_expires sess)
     \<and> int (length (attemptRate (tf_store f) (rateKey (ses_client sess)))) + int (length rs) \<le> attPer10Min (tf_store f)"

text \<open>The reply to a request, the request with its raw bytes as the decoder gives it.\<close>

definition echo_of :: "session \<Rightarrow> request \<Rightarrow> time \<times> time \<Rightarrow> bytes" where
  "echo_of sess r t = encode_reply (r\<lparr>req_raw := request_enc (ses_key sess) r\<rparr>) (fst t) (snd t) (ses_key sess)"

lemma request_ok_enc: "request_ok key r \<Longrightarrow> wf_request r \<and> encode_request r key = Inr (request_enc key r)"
  by (auto simp: request_ok_def request_enc_def)

lemma request_enc_bound:
  assumes "request_ok key r"
  shows "0 < length (request_enc key r)" "length (request_enc key r) \<le> MaxPayload + 512"
proof -
  have e: "encode_request r key = Inr (request_enc key r)" "wf_request r" using request_ok_enc [OF assms] by simp_all
  then have "length (request_enc key r) = 43 + length (req_test r) + (case req_cookie r of None \<Rightarrow> 0 | Some c \<Rightarrow> length c) + length (req_payload r) + 14"
    by (simp add: encode_request_Inr request_body_def wf_request_def env_consts split: option.splits)
  then show "0 < length (request_enc key r)" "length (request_enc key r) \<le> MaxPayload + 512"
    using e(1) by (auto simp: encode_request_Inr split: option.splits)
qed

lemma sync_quiet: "te_others e = (\<lambda>_. []) \<Longrightarrow> sync e f = f\<lparr>tf_n := tf_n f + 1\<rparr>"
  by (simp add: sync_def)

lemma length_prune: "length (prune ts since) \<le> length ts"
  by (induction ts) auto

lemma allowAttempt_grant:
  assumes "int (length (attemptRate s (rateKey ip))) < attPer10Min s"
  obtains s' where "allowAttempt s ip now = (s', True)" "sessions s' = sessions s" "attPer10Min s' = attPer10Min s"
    "length (attemptRate s' (rateKey ip)) \<le> length (attemptRate s (rateKey ip)) + 1"
proof -
  let ?ts = "prune (attemptRate s (rateKey ip)) (now - sec 600)"
  have "length ?ts \<le> length (attemptRate s (rateKey ip))" by (rule length_prune)
  then have "allowAttempt s ip now = (s\<lparr>attemptRate := (attemptRate s)(rateKey ip := ?ts @ [now])\<rparr>, True)" using assms by (simp add: allowAttempt_def Let_def)
  then show ?thesis using that length_prune [of "attemptRate s (rateKey ip)" "now - sec 600"] by simp
qed

lemma clean_write:
  assumes "clean_conn f"
  obtains f' where "tcp_write b f = (None, f')" "clean_conn f'" "to_come f' = to_come f" "tf_store f' = tf_store f" "sent f' = sent f @ [b]" "left f' = left f"
  using assms by (auto simp: tcp_write_def pc_Write_def conn_Write_def clean_conn_def to_come_def sent_def left_def pc_left_def conn_left_def)

lemma client_simps [simp]:
  "clean_conn (tobs g f) = clean_conn f" "to_come (tobs g f) = to_come f" "tf_store (tobs g f) = tf_store f"
  "clean_conn (f\<lparr>tf_n := n\<rparr>) = clean_conn f" "to_come (f\<lparr>tf_n := n\<rparr>) = to_come f" "left (f\<lparr>tf_n := n\<rparr>) = left f" "sent (f\<lparr>tf_n := n\<rparr>) = sent f"
  "clean_conn (f\<lparr>tf_store := s, tf_ops := ops\<rparr>) = clean_conn f" "to_come (f\<lparr>tf_store := s, tf_ops := ops\<rparr>) = to_come f"
  "left (f\<lparr>tf_store := s, tf_ops := ops\<rparr>) = left f" "sent (f\<lparr>tf_store := s, tf_ops := ops\<rparr>) = sent f"
  by (simp_all add: tobs_def clean_conn_def to_come_def left_def sent_def)

lemma serve_client:
  assumes "envelope_client e sess (request_enc (ses_key sess) r @ buf) (r # rs) f"
  shows "\<exists>t f'. serve_envelope e (request_enc (ses_key sess) r @ buf) (length (request_enc (ses_key sess) r)) f = Some (Inr (buf, f'))
    \<and> sent f' = sent f @ [echo_of sess r t] \<and> envelope_client e sess buf rs f' \<and> left f' = left f \<and> obs_response (tf_obs f') = ''echo''"
proof -
  let ?key = "ses_key sess" and ?enc = "request_enc (ses_key sess) r"
  note C = assms [unfolded envelope_client_def]
  have quiet: "te_others e = (\<lambda>_. [])" and clean: "clean_conn f" using C by blast+
  have r: "request_ok ?key r" "req_test r \<in> set (ses_tests sess)" "map_of (sessions (tf_store f)) (req_session r) = Some sess" using C by simp_all
  have live: "te_clock e k \<le> ses_expires sess" for k using C by blast
  have get: "getSession (tf_store f) (req_session r) (te_clock e k) = Some sess" for k using r(3) live [of k] by (simp add: getSession_def)
  let ?n = "tf_n f" and ?r = "r\<lparr>req_raw := ?enc\<rparr>"
  let ?f1 = "f\<lparr>tf_n := ?n + 1\<rparr>" let ?f2 = "f\<lparr>tf_n := ?n + 2\<rparr>" let ?f3 = "f\<lparr>tf_n := ?n + 3\<rparr>"
  have e1: "tcp_now e f = (te_clock e ?n, ?f1)" and e2: "tcp_now e ?f1 = (te_clock e (?n + 1), ?f2)"
    and e3: "store_look e (\<lambda>s. keyFor s (te_clock e (?n + 1))) ?f2 = (keyFor (tf_store f) (te_clock e (?n + 1)), ?f3)"
    by (simp_all add: tcp_now_def store_look_def sync_quiet [OF quiet])
  have d: "slc (?enc @ buf) 0 (length ?enc) = Some ?enc" "from_ix (?enc @ buf) (length ?enc) = Some buf" by (simp_all add: go_defs)
  have dec: "decode_request ?enc (keyFor (tf_store f) (te_clock e (?n + 1))) = Some (Some ?r, None)"
    using decode_encoded [of r ?key ?enc "keyFor (tf_store f) (te_clock e (?n + 1))" "[]"] request_ok_enc [OF r(1)] get by (simp add: keyFor_def)
  define f4 where "f4 = tobs (envelope_obs ?r) ?f3"
  let ?f5 = "f4\<lparr>tf_n := tf_n f4 + 1\<rparr>"
  have st4: "tf_store f4 = tf_store f" by (simp add: f4_def)
  have e5: "store_look e (\<lambda>s. getSession s (req_session ?r) (te_clock e ?n)) f4 = (Some sess, ?f5)" using get by (simp add: store_look_def sync_quiet [OF quiet] st4)
  obtain s' where s': "allowAttempt (tf_store f) (ses_client sess) (te_clock e ?n) = (s', True)" "sessions s' = sessions (tf_store f)"
      "attPer10Min s' = attPer10Min (tf_store f)" "length (attemptRate s' (rateKey (ses_client sess))) \<le> length (attemptRate (tf_store f) (rateKey (ses_client sess))) + 1"
    using allowAttempt_grant [of "tf_store f" "ses_client sess"] C by auto
  let ?f6 = "?f5\<lparr>tf_n := tf_n f4 + 2, tf_store := s', tf_ops := tf_ops f4 @ [(True, te_clock e ?n, OpAllowAttempt (ses_client sess))]\<rparr>"
  have e6: "store_call e (te_clock e ?n, OpAllowAttempt (ses_client sess)) ?f5 = (Granted True, ?f6)" using s'(1) by (simp add: store_call_def sync_quiet [OF quiet] st4)
  let ?f7 = "?f6\<lparr>tf_n := tf_n f4 + 3\<rparr>" and ?t = "te_clock e (tf_n f4 + 2)"
  have e7: "tcp_now e ?f6 = (?t, ?f7)" by (simp add: tcp_now_def sync_quiet [OF quiet])
  have c7: "clean_conn ?f7" "to_come ?f7 = to_come f" "sent ?f7 = sent f" "left ?f7 = left f" using clean by (simp_all add: f4_def)
  obtain f8 where e8: "tcp_write (encode_reply ?r (te_clock e ?n) ?t ?key) ?f7 = (None, f8)" and c8: "clean_conn f8" "to_come f8 = to_come f" "tf_store f8 = s'"
      "sent f8 = sent f @ [encode_reply ?r (te_clock e ?n) ?t ?key]" "left f8 = left f"
    using clean_write [OF c7(1), of "encode_reply ?r (te_clock e ?n) ?t ?key"] c7 by auto
  let ?f9 = "tclose ''normal'' (treplied e (tresponse ''echo'' f8))"
  have c9: "clean_conn ?f9" "to_come ?f9 = to_come f" "tf_store ?f9 = s'" "sent ?f9 = sent f8" "left ?f9 = left f" "obs_response (tf_obs ?f9) = ''echo''"
    using c8 by (simp_all add: treplied_def tcp_now_def sync_quiet [OF quiet] tclose_def tresponse_def) (simp add: tobs_def)
  have "serve_envelope e (?enc @ buf) (length ?enc) f = Some (Inr (buf, ?f9))"
    unfolding serve_envelope_def e1 prod.case e2 e3 d bind.bind_lunit dec option.case Let_def f4_def [symmetric] e5 e6 store_result.case bool.case e7 e8
    by (simp add: r(2))
  moreover have "envelope_client e sess buf rs ?f9" unfolding envelope_client_def c9 using C s' c9(1) by auto
  ultimately show ?thesis using c8(4) c9 by (intro exI [of _ "(te_clock e ?n, ?t)"] exI [of _ ?f9]) (simp add: echo_of_def)
qed

lemma client_read:
  assumes "envelope_client e sess buf rs f" and "tcp_read 8192 f = ((bs, err), f')"
  shows "sent f' = sent f" "tf_obs f' = tf_obs f" "err = None \<Longrightarrow> envelope_client e sess (buf @ bs) rs f' \<and> left f' + length bs \<le> left f \<and> left f' < left f"
    "err \<noteq> None \<Longrightarrow> err = Some EOF \<and> bs = [] \<and> to_come f = []"
proof -
  have st: "tf_store f' = tf_store f" using assms(2) by (auto simp: tcp_read_def split: prod.splits)
  show "sent f' = sent f" "tf_obs f' = tf_obs f" using tcp_read_sent [OF assms(2)] assms(2) by (auto simp: tcp_read_def split: prod.splits)
  have C: "err = None \<longrightarrow> clean_conn f' \<and> bs @ to_come f' = to_come f" "err \<noteq> None \<longrightarrow> err = Some EOF \<and> bs = [] \<and> to_come f = []"
    using assms by (auto simp: envelope_client_def clean_conn_def to_come_def tcp_read_def pc_Read_def conn_Read_def split: if_splits prod.splits list.splits)
  show "err = None \<Longrightarrow> envelope_client e sess (buf @ bs) rs f' \<and> left f' + length bs \<le> left f \<and> left f' < left f"
    using assms(1) C(1) st tcp_read_cores(2) [OF assms(2)] by (simp add: envelope_client_def)
  show "err \<noteq> None \<Longrightarrow> err = Some EOF \<and> bs = [] \<and> to_come f = []" using C(2) by blast
qed

text \<open>Either the buffer holds the next request, or it is a proper prefix of it and more is asked for.\<close>

lemma client_buffer:
  assumes "envelope_client e sess buf rs f"
  obtains r rs' buf' where "rs = r # rs'" "buf = request_enc (ses_key sess) r @ buf'" "request_len buf = Some (length (request_enc (ses_key sess) r), length (request_enc (ses_key sess) r))"
  | need where "request_len buf = Some (0, need)" "need \<le> MaxPayload + 512" "rs = [] \<longrightarrow> buf = []" "to_come f = [] \<longrightarrow> rs = []"
proof (cases rs)
  case Nil
  then have "buf = []" using assms by (simp add: envelope_client_def)
  then show ?thesis using that(2) [of 23] Nil by (simp add: request_len_def)
next
  case (Cons r rs')
  let ?enc = "request_enc (ses_key sess) r"
  have eq: "buf @ to_come f = ?enc @ concat (map (request_enc (ses_key sess)) rs')" and ok: "request_ok (ses_key sess) r"
    using assms Cons by (auto simp: envelope_client_def)
  have w: "wf_request r" "encode_request r (ses_key sess) = Inr ?enc" using request_ok_enc [OF ok] by blast+
  show ?thesis
  proof (cases "length ?enc \<le> length buf")
    case True
    have "take (length ?enc) (buf @ to_come f) = ?enc" unfolding eq by simp
    then have b: "buf = ?enc @ drop (length ?enc) buf" using True by (metis append_take_drop_id take_append diff_is_0_eq' take_0 append_Nil2)
    then show ?thesis using that(1) [OF Cons b] request_len_encoded [OF w] by metis
  next
    case False
    have "take (length buf) (?enc @ concat (map (request_enc (ses_key sess)) rs')) = buf" using eq [symmetric] by simp
    then have "buf = take (length buf) ?enc" using False by simp
    then obtain need where "request_len buf = Some (0, need)" "need \<le> length ?enc" using request_len_frames_the_stream [OF w, of "length buf"] False by auto
    moreover have "to_come f \<noteq> []" using eq False by (cases "to_come f") (auto dest: arg_cong [where f = length])
    ultimately show ?thesis using that(2) [of need] request_enc_bound(2) [OF ok] Cons by auto
  qed
qed

definition client_inv :: "tcp_env \<Rightarrow> session \<Rightarrow> bytes list \<Rightarrow> request list \<Rightarrow> bytes \<times> tcpFlow \<Rightarrow> bool" where
  "client_inv e sess out0 reqs x \<longleftrightarrow> (case x of (buf, f) \<Rightarrow> \<exists>served rs ts. reqs = served @ rs \<and> length ts = length served
     \<and> sent f = out0 @ map2 (echo_of sess) served ts \<and> (served \<noteq> [] \<longrightarrow> obs_response (tf_obs f) = ''echo'') \<and> envelope_client e sess buf rs f)"

definition client_done :: "session \<Rightarrow> bytes list \<Rightarrow> request list \<Rightarrow> tcpFlow \<Rightarrow> bool" where
  "client_done sess out0 reqs f \<longleftrightarrow> (\<exists>ts. length ts = length reqs \<and> sent f = out0 @ map2 (echo_of sess) reqs ts)
     \<and> (reqs \<noteq> [] \<longrightarrow> obs_response (tf_obs f) = ''echo'') \<and> obs_close (tf_obs f) = ''client_eof''"

interpretation client_loop: terminating_loop "env_step e" "client_inv e sess out0 reqs" "client_done sess out0 reqs"
  "\<lambda>(buf, f). 2 * left f + length buf" for e sess out0 reqs
proof
  fix x assume "client_inv e sess out0 reqs x"
  moreover obtain buf f where x: "x = (buf, f)" by fastforce
  ultimately obtain served rs ts where I: "reqs = served @ rs" "length ts = length served" "sent f = out0 @ map2 (echo_of sess) served ts"
      "served \<noteq> [] \<longrightarrow> obs_response (tf_obs f) = ''echo''" and C: "envelope_client e sess buf rs f" by (auto simp: client_inv_def)
  show "\<exists>y. env_step e x = Some y \<and> (case y of Inl f' \<Rightarrow> client_done sess out0 reqs f'
    | Inr s' \<Rightarrow> client_inv e sess out0 reqs s' \<and> (case s' of (buf, f) \<Rightarrow> 2 * left f + length buf) < (case x of (buf, f) \<Rightarrow> 2 * left f + length buf))"
  proof (cases rule: client_buffer [OF C])
    case (1 r rs' buf')
    have ok: "request_ok (ses_key sess) r" using C 1(1) by (simp add: envelope_client_def)
    obtain t f' where s: "serve_envelope e buf (length (request_enc (ses_key sess) r)) f = Some (Inr (buf', f'))"
      "sent f' = sent f @ [echo_of sess r t]" "envelope_client e sess buf' rs' f'" "left f' = left f" "obs_response (tf_obs f') = ''echo''"
      using serve_client [of e sess r buf' rs' f] C 1(1,2) by auto
    have "client_inv e sess out0 reqs (buf', f')" unfolding client_inv_def prod.case using I s(2,3,5) 1(1)
      by (intro exI [of _ "served @ [r]"] exI [of _ rs'] exI [of _ "ts @ [t]"]) simp
    moreover have "env_step e x = Some (Inr (buf', f'))" using s(1) 1(3) request_enc_bound(1) [OF ok] by (simp add: env_step_def x)
    moreover have "length buf' < length buf" using 1(2) request_enc_bound(1) [OF ok] by simp
    ultimately show ?thesis using s(4) by (simp add: x)
  next
    case (2 need)
    obtain bs err f' where r: "tcp_read 8192 f = ((bs, err), f')" by (metis surj_pair)
    note R = client_read [OF C r]
    show ?thesis
    proof (cases err)
      case None
      have "client_inv e sess out0 reqs (buf @ bs, f')" unfolding client_inv_def prod.case using I R(1,2) R(3) [OF None] by auto
      then show ?thesis using 2 r None R(3) [OF None] by (auto simp: env_step_def x)
    next
      case (Some er)
      then have er: "er = EOF" "bs = []" "rs = []" "buf = []" using R(4) 2(3,4) by auto
      have "client_done sess out0 reqs (tclose ''client_eof'' f')" using I R(1,2) er(3) by (auto simp: client_done_def tclose_def) (auto simp: tobs_def)
      then show ?thesis using 2 r Some er by (auto simp: env_step_def x partial_obs_def closeReason_def)
    qed
  qed
qed

lemma tcpEnvelope_client:
  assumes "envelope_client e sess [] reqs f"
  shows "\<exists>f'. tcpEnvelope e f = Some f' \<and> client_done sess (sent f) reqs f'"
proof -
  have "client_inv e sess (sent f) reqs ([], tparse ParseEnvelope f)"
    unfolding client_inv_def prod.case using assms
    by (intro exI [of _ "[]"] exI [of _ reqs]) (simp add: envelope_client_def, simp add: tparse_def)
  then show ?thesis using client_loop.loop_returns [of e sess "sent f" reqs "([], tparse ParseEnvelope f)"] by (simp add: tcpEnvelope_def)
qed

section \<open>SOCKS5 without a reservation\<close>

definition reserved_tcp :: "tcp_env \<Rightarrow> string \<Rightarrow> tcpFlow \<Rightarrow> bool" where
  "reserved_tcp e kind f \<longleftrightarrow>
     pick_res (res_matches (Unmap (te_ip e)) ''tcp'' (obs_dst_port (tf_obs f)) kind (obs_first_seen (tf_obs f)))
       (reservations (store_run (tf_store f) (te_others e (tf_n f)))) 0 None \<noteq> None"

lemma correlateEarly_unreserved:
  assumes "\<not> reserved_tcp e kind f" and "correlateEarly e kind f = (f', ok)"
  shows "\<not> ok" "sent f' = sent f" "tf_store f' = store_run (tf_store f) (te_others e (tf_n f))"
  using assms by (auto simp: reserved_tcp_def correlateEarly_def store_call_def sync_def Let_def findReservation_def sent_def tobs_def split: prod.splits option.splits)

lemma reserved_tcp_same: "core f' = core f \<Longrightarrow> obs_dst_port (tf_obs f') = obs_dst_port (tf_obs f) \<Longrightarrow> obs_first_seen (tf_obs f') = obs_first_seen (tf_obs f) \<Longrightarrow>
  reserved_tcp e kind f' = reserved_tcp e kind f"
  by (simp add: reserved_tcp_def core_def)

lemma socks5_unreserved:
  assumes "tcpSOCKS5 e f = Some f'" and "\<not> reserved_tcp e ParseSOCKS5 f"
  shows "sent f' = sent f \<or> (\<exists>k. sent f' = sent f @ [take k (MethodReply MethodNone)])"
proof -
  obtain greet err f1 where s: "tcp_sniff 3 (tparse ParseSOCKS5 f) = ((greet, err), f1)" by (metis surj_pair)
  have c1: "core f1 = core f" "sent f1 = sent f" using tcp_sniff_core [OF s] tcp_sniff_sent [OF s] by simp_all
  have o1: "tf_obs f1 = tf_obs (tparse ParseSOCKS5 f)" using s by (auto simp: tcp_sniff_def split: prod.splits)
  show ?thesis
  proof (cases "length greet < 3 \<or> \<not> IsGreeting greet")
    case True
    then show ?thesis using assms(1) c1(2) by (auto simp: tcpSOCKS5_def s)
  next
    case False
    obtain rest f2 ok where r: "correlateEarly e ParseSOCKS5 (set_prefix rest f1) = (f2, ok)"
      and eq: "tcpSOCKS5 e f = (if ok then tcpSOCKS5 e f else Some (tclose ''normal'' (tresponse ''refused'' (snd (tcp_write (MethodReply MethodNone) f2)))))"
    proof -
      have n: "2 + unat (greet ! 1) \<le> length greet" using False by (simp add: IsGreeting_def)
      obtain f2 ok where r: "correlateEarly e ParseSOCKS5 (set_prefix (drop (2 + unat (greet ! 1)) greet) f1) = (f2, ok)" by fastforce
      then have "\<not> ok \<Longrightarrow> tcpSOCKS5 e f = Some (tclose ''normal'' (tresponse ''refused'' (snd (tcp_write (MethodReply MethodNone) f2))))"
        using False n by (simp add: tcpSOCKS5_def s GreetingMethods_def go_defs Let_def del: One_nat_def)
      then show ?thesis using that r by auto
    qed
    have "\<not> reserved_tcp e ParseSOCKS5 (set_prefix rest f1)" using assms(2) reserved_tcp_same [of "set_prefix rest f1" f e ParseSOCKS5] c1 o1
      by (simp add: set_prefix_def tparse_def tobs_def)
    note U = correlateEarly_unreserved [OF this r]
    obtain w f3 where w: "tcp_write (MethodReply MethodNone) f2 = (w, f3)" by fastforce
    have "f' = tclose ''normal'' (tresponse ''refused'' f3)" using eq U(1) assms(1) w by simp
    then show ?thesis using tcp_write_sent [OF w] U(2) c1(2) by auto
  qed
qed

text \<open>A complete greeting is refused in so many bytes when the connection takes the write.\<close>

lemma socks5_refusal_sent:
  assumes "tcpSOCKS5 e f = Some f'" and "\<not> reserved_tcp e ParseSOCKS5 f" and "IsGreeting (pc_prefix (tf_pc f))" and "cn_writes (pc_conn (tf_pc f)) = []"
  shows "sent f' = sent f @ [MethodReply MethodNone]"
proof -
  let ?g = "pc_prefix (tf_pc f)" and ?f1 = "tparse ParseSOCKS5 f"
  have len: "3 \<le> length ?g" "2 + unat (?g ! 1) \<le> length ?g" using assms(3) by (simp_all add: IsGreeting_def)
  have s: "tcp_sniff 3 ?f1 = ((?g, None), ?f1)"
    using len(1) by (simp add: tcp_sniff_def sniff_def sniff_loop.simps tparse_def tobs_def)
  obtain f2 ok where r: "correlateEarly e ParseSOCKS5 (set_prefix (drop (2 + unat (?g ! 1)) ?g) ?f1) = (f2, ok)" by fastforce
  have "\<not> reserved_tcp e ParseSOCKS5 (set_prefix (drop (2 + unat (?g ! 1)) ?g) ?f1)"
    using assms(2) by (simp add: reserved_tcp_def set_prefix_def tparse_def tobs_def)
  note U = correlateEarly_unreserved [OF this r]
  have w: "cn_writes (pc_conn (tf_pc f2)) = []"
    using r assms(4) by (auto simp: correlateEarly_def store_call_def sync_def Let_def tobs_def set_prefix_def tparse_def split: prod.splits option.splits store_result.splits)
  have "f' = tclose ''normal'' (tresponse ''refused'' (snd (tcp_write (MethodReply MethodNone) f2)))"
    using assms(1,3) len U(1) r by (simp add: tcpSOCKS5_def s GreetingMethods_def go_defs Let_def del: One_nat_def)
  moreover have "sent (snd (tcp_write b f2)) = sent f2 @ [b]" for b
    using w by (simp add: tcp_write_def pc_Write_def conn_Write_def sent_def)
  moreover have "sent f2 = sent f" using U(2) by (simp add: set_prefix_def tparse_def tobs_def sent_def)
  ultimately show ?thesis by simp
qed

section \<open>Downloads\<close>

lemma take_Keystream: "take j (Keystream seed off n) = Keystream seed off (min j n)"
  by (cases "j \<le> n") (simp_all add: Keystream_spec take_map take_upt)

lemma down_loop_sent:
  assumes "io_loop (down_step nonce want) (0, f) = Some (werr, off, f')"
  shows "\<exists>ps k. sent f' = sent f @ ps \<and> concat ps = Keystream nonce 0 k \<and> k \<le> want \<and> (werr = None \<longrightarrow> k = want \<and> off = want)"
proof -
  define I where "I = (\<lambda>(off :: nat, g). off \<le> want \<and> (\<exists>ps. sent g = sent f @ ps \<and> concat ps = Keystream nonce 0 off))"
  define Q where "Q = (\<lambda>(werr :: go_err option, off :: nat, g). \<exists>ps k. sent g = sent f @ ps \<and> concat ps = Keystream nonce 0 k \<and> k \<le> want \<and> (werr = None \<longrightarrow> k = want \<and> off = want))"
  have step: "case x of Inl r \<Rightarrow> Q r | Inr s' \<Rightarrow> I s'" if st: "down_step nonce want s = Some x" and I: "I s" for s x
  proof -
    obtain off g where s: "s = (off, g)" by fastforce
    obtain ps where ps: "off \<le> want" "sent g = sent f @ ps" "concat ps = Keystream nonce 0 off" using I by (auto simp: I_def s)
    define n where "n = (if want - off < 4096 then want - off else 4096)"
    obtain w g' where w: "tcp_write (Keystream nonce off n) g = (w, g')" by fastforce
    obtain k where k: "sent g' = sent g @ [take k (Keystream nonce off n)]" "w = None \<longrightarrow> take k (Keystream nonce off n) = Keystream nonce off n"
      using tcp_write_sent [OF w] by blast
    have cc: "concat (ps @ [take k (Keystream nonce off n)]) = Keystream nonce 0 (off + min k n)"
      using ps(3) Keystream_append [of nonce 0 off "min k n"] by (simp add: take_Keystream)
    show ?thesis
    proof (cases "off < want")
      case False
      then show ?thesis using st ps by (auto simp: down_step_def s Q_def)
    next
      case True
      have n: "off + n \<le> want" unfolding n_def using True by (split if_split) linarith
      show ?thesis
      proof (cases w)
        case None
        have "concat (ps @ [Keystream nonce off n]) = Keystream nonce 0 (off + n)" using ps(3) Keystream_append [of nonce 0 off n] by simp
        moreover have "sent g' = sent f @ (ps @ [Keystream nonce off n])" using k None ps(2) by simp
        ultimately show ?thesis using st True n w None unfolding I_def by (auto simp: down_step_def s n_def [symmetric] Let_def)
      next
        case (Some er)
        have "x = Inl (Some er, off, g')" using st True w Some by (simp add: down_step_def s n_def [symmetric] Let_def)
        moreover have "sent g' = sent f @ (ps @ [take k (Keystream nonce off n)])" using k(1) ps(2) by simp
        moreover have "off + min k n \<le> want" using n by simp
        ultimately show ?thesis using cc unfolding Q_def by auto
      qed
    qed
  qed
  have "Q (werr, off, f')"
  proof (rule io_loop_invariant [OF assms, of I Q])
    show "I (0, f)" by (simp add: I_def Keystream_spec)
  qed (use step in fastforce)+
  then show ?thesis by (simp add: Q_def)
qed

lemma io_ops_same:
  assumes "io_loop (down_step nonce want) (0, f) = Some (werr, off, f')"
  shows "core f' = core f"
proof -
  have "(\<lambda>(w, off, g). core g = core f) (werr, off, f')"
    by (rule io_loop_invariant [OF assms, where I = "\<lambda>(off, g). core g = core f"])
       (auto simp: down_step_def Let_def dest!: tcp_write_core split: if_splits prod.splits option.splits)
  then show ?thesis by simp
qed

text \<open>A download that went through: the header, then exactly the keystream of the bytes asked for, after the daily
  quota granted that many bytes to the address.\<close>

lemma bulk_down_exact:
  assumes "bulk_down e b bs f = Some (Inr (bs', f'))" and "tf_store f = store_at s0 (tf_ops f) (length (tf_ops f))"
  shows "0 < bk_n b \<and> bk_n b \<le> bulkMaxDownload \<and> bs_down bs' = bs_down bs + bk_n b"
    "\<exists>ps. sent f' = sent f @ bytes_of (bulk_header ''application/octet-stream'' (nat (bk_n b)) (bk_nonce b)) # ps \<and> concat ps = Keystream (bk_nonce b) 0 (nat (bk_n b))"
    "\<exists>i t. length (tf_ops f) \<le> i \<and> i < length (tf_ops f') \<and> tf_ops f' ! i = (True, t, OpBulk (te_ip e) (bk_n b) (te_day e t))
       \<and> snd (consumeBulk (store_at s0 (tf_ops f') i) (te_ip e) (bk_n b) (te_day e t))"
proof -
  have n: "0 < bk_n b" "bk_n b \<le> bulkMaxDownload" using assms(1) by (auto simp: bulk_down_def Let_def split: if_splits)
  obtain t f1 where e1: "tcp_now e f = (t, f1)" by fastforce
  obtain g f2 where e2: "store_call e (t, OpBulk (te_ip e) (bk_n b) (te_day e t)) f1 = (g, f2)" by fastforce
  have g: "g = Granted True" using assms(1) n e1 e2 by (cases g; cases "\<exists>x. g = Granted x") (auto simp: bulk_down_def Let_def split: bool.splits)
  let ?h = "bytes_of (bulk_header ''application/octet-stream'' (nat (bk_n b)) (bk_nonce b))"
  obtain w f3 where e3: "tcp_write ?h f2 = (w, f3)" by fastforce
  have w: "w = None" using assms(1) n e1 e2 e3 g by (cases w) (auto simp: bulk_down_def Let_def)
  obtain we off where l: "io_loop (down_step (bk_nonce b) (nat (bk_n b))) (0, f3) = Some (we, off, f')" "we = None" "bs' = bs\<lparr>bs_down := bs_down bs + int off, bs_chunks := bs_chunks bs + 1, bs_last := bk_n b\<rparr>"
    using assms(1) n e1 e2 e3 g w by (auto simp: bulk_down_def Let_def split: Option.bind_splits if_splits)
  obtain ps where ps: "sent f' = sent f3 @ ps" "concat ps = Keystream (bk_nonce b) 0 (nat (bk_n b))" "off = nat (bk_n b)"
    using down_loop_sent [OF l(1)] l(2) by blast
  show "0 < bk_n b \<and> bk_n b \<le> bulkMaxDownload \<and> bs_down bs' = bs_down bs + bk_n b" using n ps(3) l(3) by simp
  have s3: "sent f3 = sent f @ [?h]" using tcp_write_sent [OF e3] w tcp_now_sent [OF e1] store_call_sent [OF e2] by auto
  then show "\<exists>ps. sent f' = sent f @ ?h # ps \<and> concat ps = Keystream (bk_nonce b) 0 (nat (bk_n b))" using ps(1,2) by auto
  have "env_inv s0 (length (sent f)) f" using assms(2) by (simp add: env_inv_def)
  then have I1: "env_inv s0 (length (sent f)) f1" using env_inv_now [OF e1] by blast
  obtain ops where o2: "tf_ops f2 = tf_ops f1 @ ops @ [(True, t, OpBulk (te_ip e) (bk_n b) (te_day e t))]"
    "g = snd (store_step (store_at s0 (tf_ops f2) (length (tf_ops f2) - 1)) (t, OpBulk (te_ip e) (bk_n b) (te_day e t)))" using env_inv_call [OF e2 I1] by blast
  have o1: "length (tf_ops f) \<le> length (tf_ops f1)" using e1 by (auto simp: tcp_now_def sync_def)
  have o': "tf_ops f' = tf_ops f2" using io_ops_same [OF l(1)] tcp_write_core [OF e3] by (simp add: core_def)
  show "\<exists>i t. length (tf_ops f) \<le> i \<and> i < length (tf_ops f') \<and> tf_ops f' ! i = (True, t, OpBulk (te_ip e) (bk_n b) (te_day e t))
       \<and> snd (consumeBulk (store_at s0 (tf_ops f') i) (te_ip e) (bk_n b) (te_day e t))"
    unfolding o' using o1 o2 g by (intro exI [of _ "length (tf_ops f2) - 1"] exI [of _ t]) (simp add: nth_append)
qed

text \<open>The quota's answer when a download is asked for, and that a granted one is delivered over a clean connection.\<close>

definition bulk_granted :: "tcp_env \<Rightarrow> int \<Rightarrow> tcpFlow \<Rightarrow> bool" where
  "bulk_granted e n f = snd (consumeBulk (tf_store (sync e (sync e f))) (te_ip e) n (te_day e (te_clock e (tf_n f))))"

lemma down_loop_clean:
  assumes "clean_conn f"
  shows "\<exists>off f'. io_loop (down_step nonce want) (0, f) = Some (None, off, f')"
proof -
  obtain we off f' where l: "io_loop (down_step nonce want) (0, f) = Some (we, off, f')"
    using down_loop.loop_returns [of undefined "core f" "tf_http f" "(0, f)" nonce want] by auto
  define I where "I = (\<lambda>(off :: nat, g). clean_conn g)"
  define Q where "Q = (\<lambda>(w :: go_err option, off :: nat, g :: tcpFlow). w = None)"
  have step: "case x of Inl r \<Rightarrow> Q r | Inr s' \<Rightarrow> I s'" if st: "down_step nonce want s = Some x" and I: "I s" for s x
  proof -
    obtain off g where s: "s = (off, g)" by fastforce
    have g: "clean_conn g" using I by (simp add: I_def s)
    define n where "n = (if want - off < 4096 then want - off else 4096)"
    obtain g' where "tcp_write (Keystream nonce off n) g = (None, g')" "clean_conn g'" using clean_write [OF g] by metis
    then show ?thesis using st g by (cases "off < want") (auto simp: down_step_def s n_def [symmetric] Let_def I_def Q_def)
  qed
  have "Q (we, off, f')" by (rule io_loop_invariant [OF l, of I Q]) (use step assms in \<open>fastforce simp: I_def\<close>)+
  then show ?thesis using l by (simp add: Q_def)
qed

lemma bulk_down_delivers:
  assumes "0 < bk_n b" "bk_n b \<le> bulkMaxDownload" "bulk_granted e (bk_n b) f" "clean_conn f"
  shows "\<exists>bs' f'. bulk_down e b bs f = Some (Inr (bs', f'))"
proof -
  let ?n = "bk_n b" and ?t = "te_clock e (tf_n f)"
  have e1: "tcp_now e f = (?t, sync e f)" by (simp add: tcp_now_def)
  obtain g f2 where e2: "store_call e (?t, OpBulk (te_ip e) ?n (te_day e ?t)) (sync e f) = (g, f2)" by fastforce
  have g: "g = Granted True" using e2 assms(3) by (cases "consumeBulk (tf_store (sync e (sync e f))) (te_ip e) ?n (te_day e ?t)") (auto simp: store_call_def Let_def bulk_granted_def)
  have "clean_conn f2" using e2 assms(4) by (auto simp: store_call_def Let_def sync_def clean_conn_def split: prod.splits)
  then obtain f3 where e3: "tcp_write (bytes_of (bulk_header ''application/octet-stream'' (nat ?n) (bk_nonce b))) f2 = (None, f3)" "clean_conn f3"
    using clean_write by metis
  obtain off f4 where l: "io_loop (down_step (bk_nonce b) (nat ?n)) (0, f3) = Some (None, off, f4)" using down_loop_clean [OF e3(2)] by blast
  show ?thesis using assms(1,2) e3(1) l by (simp add: bulk_down_def Let_def e1 e2 g)
qed

section \<open>The limit on connections\<close>

definition conn_count :: "(addr \<rightharpoonup> int) \<Rightarrow> addr \<Rightarrow> int" where
  "conn_count conns ip = (case conns ip of None \<Rightarrow> 0 | Some n \<Rightarrow> n)"

definition conns_ok :: "(addr \<rightharpoonup> int) \<times> addr list \<Rightarrow> bool" where
  "conns_ok x \<longleftrightarrow> (\<forall>ip. conn_count (fst x) ip = int (count_list (snd x) ip) \<and> int (count_list (snd x) ip) \<le> maxConnsPerIP
     \<and> (fst x ip = None \<longleftrightarrow> count_list (snd x) ip = 0))"

lemma count_list_remove1: "count_list (remove1 x xs) y = (if x = y \<and> x \<in> set xs then count_list xs y - 1 else count_list xs y)"
  by (induction xs) (auto simp: count_list_0_iff)

lemma count_pos: "ip \<in> set xs \<longleftrightarrow> 0 < count_list xs ip"
  using count_list_0_iff [of xs ip] by auto

lemma acquireConn_cases:
  obtains "acquireConn ip conns = (conns, False)" "maxConnsPerIP \<le> conn_count conns ip"
  | "acquireConn ip conns = (conns(ip \<mapsto> conn_count conns ip + 1), True)" "conn_count conns ip < maxConnsPerIP"
  by (cases "maxConnsPerIP \<le> conn_count conns ip") (auto simp: acquireConn_def conn_count_def Let_def)

lemma conns_ok_step: "conns_ok x \<Longrightarrow> conns_ok (accept_step x ev)"
proof -
  assume ok: "conns_ok x"
  obtain conns active where x: "x = (conns, active)" by fastforce
  have C: "conn_count conns ip = int (count_list active ip)" "int (count_list active ip) \<le> maxConnsPerIP" "conns ip = None \<longleftrightarrow> count_list active ip = 0" for ip
    using ok by (simp_all add: conns_ok_def x)
  show ?thesis
  proof (cases ev)
    case (Accepted ip)
    show ?thesis
    proof (cases rule: acquireConn_cases [of ip conns])
      case 1
      then show ?thesis using ok by (simp add: x Accepted)
    next
      case 2
      then show ?thesis using C by (simp add: x Accepted conns_ok_def conn_count_def)
    qed
  next
    case (Ended ip)
    show ?thesis
    proof (cases "ip \<in> set active")
      case True
      define n where "n = count_list active ip"
      have n: "0 < n" "int n \<le> maxConnsPerIP" "conn_count conns ip = int n" using True C [of ip] by (simp_all add: n_def count_pos)
      have rel: "releaseConn ip conns = (if n \<le> 1 then conns(ip := None) else conns(ip \<mapsto> int n - 1))"
        using n by (simp add: releaseConn_def conn_count_def Let_def)
      have cnt: "count_list (remove1 ip active) a = (if a = ip then n - 1 else count_list active a)" for a
        using True by (auto simp: count_list_remove1 n_def)
      have "conn_count (releaseConn ip conns) a = int (count_list (remove1 ip active) a) \<and> int (count_list (remove1 ip active) a) \<le> maxConnsPerIP
        \<and> (releaseConn ip conns a = None \<longleftrightarrow> count_list (remove1 ip active) a = 0)" for a
        using C [of a] n unfolding rel cnt by (cases "a = ip") (auto simp: conn_count_def of_nat_diff)
      then show ?thesis using True by (simp add: x Ended conns_ok_def)
    qed (use ok Ended x in simp)
  qed
qed

lemma conns_ok_run: "conns_ok (foldl accept_step (Map.empty, []) evs)"
proof (induction evs rule: rev_induct)
  case Nil
  show ?case by (simp add: conns_ok_def conn_count_def)
qed (simp add: conns_ok_step)

section \<open>The whole flow\<close>

text \<open>A flow sniffs one byte, then up to 24, before a handler is chosen on what came.\<close>

definition sniffed :: "tcp_env \<Rightarrow> int \<Rightarrow> conn \<Rightarrow> store \<Rightarrow> tcpFlow" where
  "sniffed e port c s = (let f = snd (tcp_sniff 1 (tcp_start e port c s)) in if length (pc_prefix (tf_pc f)) < 24 then snd (tcp_sniff 24 f) else f)"

definition first_bytes :: "tcp_env \<Rightarrow> int \<Rightarrow> conn \<Rightarrow> store \<Rightarrow> bytes" where
  "first_bytes e port c s = pc_prefix (tf_pc (sniffed e port c s))"

lemma handleTCP_cases:
  obtains (silent) err where "handleTCP sv e port role c s = Some (finish e '''' (tclose err (snd (tcp_sniff 1 (tcp_start e port c s)))))"
      "pc_prefix (tf_pc (snd (tcp_sniff 1 (tcp_start e port c s)))) = []"
  | (handled) "handleTCP sv e port role c s = map_option (\<lambda>f. finish e (obs_parse (tf_obs f)) f) (tcp_dispatch sv e role (first_bytes e port c s) (sniffed e port c s))"
      "pc_prefix (tf_pc (snd (tcp_sniff 1 (tcp_start e port c s)))) \<noteq> []"
proof -
  obtain buf err f where s: "tcp_sniff 1 (tcp_start e port c s) = ((buf, err), f)" by (metis surj_pair)
  have "pc_prefix (tf_pc f) = buf" using tcp_sniff_core [OF s] by blast
  then show ?thesis using silent [of "closeReason err"] handled unfolding handleTCP_def s prod.case snd_conv sniffed_def first_bytes_def Let_def by (cases "buf = []") auto
qed

lemma finish_sent [simp]: "sent (finish e k f) = sent f"
proof -
  obtain ct f1 where n1: "tcp_now e (tobs (\<lambda>ob. ob\<lparr>obs_bytes_in := int (pc_in (tf_pc f)), obs_bytes_out := int (pc_out (tf_pc f))\<rparr>) f) = (ct, f1)" by fastforce
  have look: "sent (snd (store_look e g f')) = sent f'" for g :: "store \<Rightarrow> 'z" and f' using store_look_sent [of e g f'] by (metis prod.collapse)
  have call: "sent (snd (store_call e op f')) = sent f'" for op f' using store_call_sent [of e op f'] by (metis prod.collapse)
  have now: "sent (snd (tcp_now e f')) = sent f'" for f' using tcp_now_sent [of e f'] by (metis prod.collapse)
  have "sent f1 = sent f" using tcp_now_sent [OF n1] by simp
  then show ?thesis unfolding finish_def Let_def n1 prod.case
    by (simp add: call now look case_prod_beta split: store_result.splits option.splits if_splits)
qed

lemma sniffed_same: "core (sniffed e port c s) = core (tcp_start e port c s) \<and> sent (sniffed e port c s) = sent (tcp_start e port c s)"
proof -
  have "core (snd (tcp_sniff k f)) = core f \<and> sent (snd (tcp_sniff k f)) = sent f" for k f
    using tcp_sniff_core [of k f] tcp_sniff_sent [of k f] by (metis prod.collapse)
  then show ?thesis by (simp add: sniffed_def Let_def)
qed

lemma start_inv: "env_inv s (length (cn_sent c)) (tcp_start e port c s) \<and> sent (tcp_start e port c s) = cn_sent c"
proof -
  let ?f = "\<lparr>tf_store = s, tf_obs = zero_observation, tf_pc = new_peek c, tf_tls = None, tf_http = te_http e, tf_n = 0, tf_ops = []\<rparr>"
  have "env_inv s (length (cn_sent c)) ?f" "sent ?f = cn_sent c" by (simp_all add: env_inv_def store_at_def sent_def new_peek_def)
  then show ?thesis unfolding tcp_start_def Let_def by (simp add: env_inv_sync)
qed

lemma finish_inv: "env_inv s0 n0 f \<Longrightarrow> env_inv s0 n0 (finish e k f)"
proof -
  assume I: "env_inv s0 n0 f"
  have "run_ok e (core f) (core (finish e k f))" by (rule finish_ok) simp
  then obtain new where "tf_ops (finish e k f) = tf_ops f @ new" "tf_store (finish e k f) = store_run (tf_store f) (map snd new)"
    by (auto simp: run_ok_def core_def)
  then show ?thesis by (rule env_inv_step [OF I]) simp
qed

lemma handleTCP_entitled:
  assumes "handleTCP sv e port RoleGeneric c s = Some f" and "is_envelope (first_bytes e port c s)"
  shows "list_all (entitled_reply s (tf_ops f)) (drop (length (cn_sent c)) (sent f))"
proof (cases rule: handleTCP_cases [of sv e port RoleGeneric c s])
  case (silent err)
  have "sent f = cn_sent c" using silent(1) assms(1) start_inv tcp_sniff_sent [of 1 "tcp_start e port c s"] by (auto simp: ) (metis prod.collapse)
  then show ?thesis by simp
next
  case handled
  have I: "env_inv s (length (cn_sent c)) (sniffed e port c s)" using sniffed_same start_inv env_inv_same by metis
  obtain g where g: "tcpEnvelope e (sniffed e port c s) = Some g" "f = finish e (obs_parse (tf_obs g)) g"
    using handled(1) assms by (cases "tcpEnvelope e (sniffed e port c s)") (simp_all add: tcp_dispatch_def)
  have "env_inv s (length (cn_sent c)) g" by (rule tcpEnvelope_inv [OF g(1) I])
  then show ?thesis using finish_inv g(2) by (simp add: env_inv_def)
qed

lemma sniff_loop_clean:
  assumes "sniff_loop k buf p = (err, buf', p')" and "list_all (\<lambda>(bs, err). err = None) (cn_reads (pc_conn p))"
  shows "cn_writes (pc_conn p') = cn_writes (pc_conn p) \<and> list_all (\<lambda>(bs, err). err = None) (cn_reads (pc_conn p'))
    \<and> buf' @ concat (map fst (cn_reads (pc_conn p'))) = buf @ concat (map fst (cn_reads (pc_conn p)))
    \<and> (k \<le> length buf' \<or> concat (map fst (cn_reads (pc_conn p'))) = [])"
  using assms
proof (induction k buf p rule: sniff_loop.induct)
  case (1 k buf p)
  obtain bs er c where r: "conn_Read 4096 (pc_conn p) = ((bs, er), c)" by (metis surj_pair)
  have c: "cn_writes c = cn_writes (pc_conn p)" "list_all (\<lambda>(bs, err). err = None) (cn_reads c)"
      "bs @ concat (map fst (cn_reads c)) = concat (map fst (cn_reads (pc_conn p)))" "er \<noteq> None \<longrightarrow> concat (map fst (cn_reads c)) = []"
    using r 1(3) by (auto simp: conn_Read_def split: list.splits if_splits)
  let ?p = "p\<lparr>pc_conn := c, pc_in := pc_in p + length bs\<rparr>"
  show ?case
  proof (cases "length buf < k \<and> er = None")
    case True
    then have "sniff_loop k buf p = sniff_loop k (buf @ bs) ?p" using r by (subst sniff_loop.simps) simp
    then show ?thesis using 1(1) [OF _ r [symmetric] refl refl refl] 1(2) True c by simp
  next
    case False
    then show ?thesis using 1(2,3) r c by (subst (asm) sniff_loop.simps) (auto simp: Let_def split: if_splits)
  qed
qed

lemma tcp_sniff_clean:
  assumes "tcp_sniff k f = ((b, err), f')" and "clean_conn f"
  shows "clean_conn f' \<and> to_come f' = to_come f \<and> (k \<le> length b \<or> b = to_come f) \<and> (\<exists>rest. to_come f = b @ rest)"
proof -
  obtain er buf p where l: "sniff_loop k (pc_prefix (tf_pc f)) ((tf_pc f)\<lparr>pc_prefix := []\<rparr>) = (er, buf, p)" by (metis surj_pair)
  define rest where "rest = concat (map fst (cn_reads (pc_conn p)))"
  have f': "f' = f\<lparr>tf_pc := p\<lparr>pc_prefix := buf\<rparr>\<rparr>" "b = buf" using assms(1) l by (auto simp: tcp_sniff_def sniff_def)
  have C: "clean_conn f'" "to_come f = b @ rest" "k \<le> length b \<or> rest = []"
    using sniff_loop_clean [OF l] assms(2) by (simp_all add: clean_conn_def to_come_def f' rest_def)
  moreover have "to_come f' = b @ rest" by (simp add: f' to_come_def rest_def)
  ultimately show ?thesis by auto
qed

lemma sniffed_clean:
  assumes "clean_conn (tcp_start e port c s)"
  shows "clean_conn (sniffed e port c s)" "to_come (sniffed e port c s) = to_come (tcp_start e port c s)"
    "24 \<le> length (first_bytes e port c s) \<or> first_bytes e port c s = to_come (tcp_start e port c s)"
    "\<exists>rest. to_come (tcp_start e port c s) = first_bytes e port c s @ rest"
proof -
  obtain b err f where s: "tcp_sniff 1 (tcp_start e port c s) = ((b, err), f)" by (metis surj_pair)
  obtain b' err' f' where s': "tcp_sniff 24 f = ((b', err'), f')" by (metis surj_pair)
  have b: "pc_prefix (tf_pc f) = b" "pc_prefix (tf_pc f') = b'" using tcp_sniff_core [OF s] tcp_sniff_core [OF s'] by blast+
  note C = tcp_sniff_clean [OF s assms]
  note C' = tcp_sniff_clean [OF s' C [THEN conjunct1]]
  have sn: "sniffed e port c s = (if length b < 24 then f' else f)" unfolding sniffed_def Let_def s snd_conv b s' ..
  show "clean_conn (sniffed e port c s)" "to_come (sniffed e port c s) = to_come (tcp_start e port c s)"
    "24 \<le> length (first_bytes e port c s) \<or> first_bytes e port c s = to_come (tcp_start e port c s)"
    "\<exists>rest. to_come (tcp_start e port c s) = first_bytes e port c s @ rest"
    unfolding first_bytes_def sn using b C C' by (auto simp: not_less)
qed

lemma request_enc_head: "request_ok key r \<Longrightarrow> \<exists>tl. request_enc key r = Magic @ Version # tl \<and> 24 \<le> length (request_enc key r)"
proof -
  assume "request_ok key r"
  then have w: "wf_request r" "encode_request r key = Inr (request_enc key r)" using request_ok_enc by blast+
  have "length (request_enc key r) = 43 + length (req_test r) + (case req_cookie r of None \<Rightarrow> 0 | Some c \<Rightarrow> length c) + length (req_payload r) + 14"
    using w by (simp add: encode_request_Inr request_body_def wf_request_def env_consts split: option.splits)
  then show ?thesis using w by (auto simp: encode_request_Inr request_body_def)
qed

lemma envelope_head:
  assumes "request_ok key r" and "24 \<le> length b \<or> b = request_enc key r @ tail" and "request_enc key r @ tail = b @ rest"
  shows "is_envelope b"
proof -
  obtain tl where tl: "request_enc key r = Magic @ Version # tl" "24 \<le> length (request_enc key r)" using request_enc_head [OF assms(1)] by blast
  have l: "24 \<le> length b" using assms(2) tl(2) by auto
  have "take 4 b = take 4 (b @ rest)" using l by simp
  also have "\<dots> = Magic @ [Version]" unfolding assms(3) [symmetric] by (simp add: tl env_consts)
  finally have t: "take 4 b = Magic @ [Version]" .
  then have "take 3 (take 4 b) = Magic" "take 4 b ! 3 = Version" by (simp_all add: env_consts)
  then show ?thesis using l by (simp add: is_envelope_def has_prefix_def env_consts numeral_3_eq_3)
qed

lemma start_flow:
  "to_come (tcp_start e port c s) = concat (map fst (cn_reads c))"
  "clean_conn (tcp_start e port c s) \<longleftrightarrow> cn_writes c = [] \<and> list_all (\<lambda>(b, err). err = None) (cn_reads c)"
  "tf_store (tcp_start e port c s) = store_run s (te_others e 0)"
  by (simp_all add: tcp_start_def sync_def Let_def to_come_def clean_conn_def new_peek_def tobs_def)

lemma client_first:
  assumes "envelope_client e sess [] reqs (tcp_start e port c s)" and "reqs \<noteq> []"
  shows "is_envelope (first_bytes e port c s)"
proof -
  have clean: "clean_conn (tcp_start e port c s)" using assms(1) by (simp add: envelope_client_def)
  note S = sniffed_clean [OF clean]
  obtain r rs where r: "reqs = r # rs" using assms(2) by (cases reqs) auto
  have "request_ok (ses_key sess) r" "to_come (tcp_start e port c s) = request_enc (ses_key sess) r @ concat (map (request_enc (ses_key sess)) rs)"
    using assms(1) by (simp_all add: envelope_client_def r)
  then show ?thesis using envelope_head S(3,4) by metis
qed

lemma first_nonempty: "is_envelope (first_bytes e port c s) \<Longrightarrow> clean_conn (tcp_start e port c s) \<Longrightarrow>
  pc_prefix (tf_pc (snd (tcp_sniff 1 (tcp_start e port c s)))) \<noteq> []"
proof -
  assume env: "is_envelope (first_bytes e port c s)" and clean: "clean_conn (tcp_start e port c s)"
  obtain b err f where s: "tcp_sniff 1 (tcp_start e port c s) = ((b, err), f)" by (metis surj_pair)
  have "pc_prefix (tf_pc f) = b" using tcp_sniff_core [OF s] by blast
  moreover have "to_come (tcp_start e port c s) \<noteq> []" using env sniffed_clean(4) [OF clean] by (auto simp: is_envelope_def)
  then have "b \<noteq> []" using tcp_sniff_clean [OF s clean] by auto
  ultimately show ?thesis unfolding s snd_conv by blast
qed

lemma handleTCP_client:
  assumes "envelope_client e sess [] reqs (tcp_start e port c s)" and "reqs \<noteq> []"
  shows "\<exists>f ts. handleTCP sv e port RoleGeneric c s = Some f \<and> length ts = length reqs \<and> sent f = cn_sent c @ map2 (echo_of sess) reqs ts"
proof -
  have clean: "clean_conn (tcp_start e port c s)" using assms(1) by (simp add: envelope_client_def)
  note env = client_first [OF assms]
  have C: "envelope_client e sess [] reqs (sniffed e port c s)"
    using assms(1) sniffed_clean(1,2) [OF clean] sniffed_same [of e port c s] by (simp add: envelope_client_def core_def)
  obtain g where g: "tcpEnvelope e (sniffed e port c s) = Some g" "client_done sess (sent (sniffed e port c s)) reqs g" using tcpEnvelope_client [OF C] by blast
  have "handleTCP sv e port RoleGeneric c s = Some (finish e (obs_parse (tf_obs g)) g)"
    using first_nonempty [OF env clean] env g(1) by (cases rule: handleTCP_cases [of sv e port RoleGeneric c s]) (simp_all add: tcp_dispatch_def)
  moreover have "sent (sniffed e port c s) = cn_sent c" using sniffed_same start_inv by metis
  ultimately show ?thesis using g(2) by (auto simp: client_done_def)
qed

lemma handleTCP_socks5:
  assumes "handleTCP sv e port RoleGeneric c s = Some f" and "IsGreeting (first_bytes e port c s)" and "\<not> reserved_tcp e ParseSOCKS5 (tcp_start e port c s)"
  shows "sent f = cn_sent c \<or> (\<exists>k. sent f = cn_sent c @ [take k (MethodReply MethodNone)])"
proof (cases rule: handleTCP_cases [of sv e port RoleGeneric c s])
  case (silent err)
  show ?thesis using silent(1) assms(1) start_inv tcp_sniff_sent [of 1 "tcp_start e port c s"] by (auto simp: ) (metis prod.collapse)
next
  case handled
  let ?b = "first_bytes e port c s"
  have b: "?b ! 0 = 5" "2 \<le> length ?b" using assms(2) by (auto simp: IsGreeting_def)
  obtain b1 bs where bs: "?b = 5 # b1 # bs" using b by (cases ?b rule: list.exhaust; cases "tl ?b") auto
  have "\<not> is_envelope ?b" "\<not> isTLSClientHello ?b" unfolding bs by (simp_all add: is_envelope_def isTLSClientHello_def has_prefix_def env_consts)
  moreover have "\<not> IsClientResetTCP ?b" using unat_w16 [of 0 ?b] unfolding bs by (auto simp: IsClientResetTCP_def)
  ultimately obtain g where g: "tcpSOCKS5 e (sniffed e port c s) = Some g" "f = finish e (obs_parse (tf_obs g)) g"
    using handled(1) assms(1,2) by (cases "tcpSOCKS5 e (sniffed e port c s)") (simp_all add: tcp_dispatch_def)
  have "tf_obs (sniffed e port c s) = tf_obs (tcp_start e port c s)" by (simp add: sniffed_def Let_def tcp_sniff_def case_prod_beta)
  then have "\<not> reserved_tcp e ParseSOCKS5 (sniffed e port c s)" using assms(3) reserved_tcp_same [of "sniffed e port c s" "tcp_start e port c s"] sniffed_same by metis
  then show ?thesis using socks5_unreserved [OF g(1)] g(2) sniffed_same start_inv by (metis finish_sent)
qed

lemma handleTCP_socks5_sent:
  assumes "handleTCP sv e port RoleGeneric c s = Some f" and "IsGreeting (first_bytes e port c s)" and "\<not> reserved_tcp e ParseSOCKS5 (tcp_start e port c s)"
    and "cn_writes c = []" and "list_all (\<lambda>(b, err). err = None) (cn_reads c)"
  shows "sent f = cn_sent c @ [[5, 0xFF]]"
proof -
  let ?b = "first_bytes e port c s"
  have clean: "clean_conn (tcp_start e port c s)" using assms(4,5) by (simp add: start_flow)
  have b: "?b ! 0 = 5" "2 \<le> length ?b" using assms(2) by (auto simp: IsGreeting_def)
  obtain b1 bs where bs: "?b = 5 # b1 # bs" using b by (cases ?b rule: list.exhaust; cases "tl ?b") auto
  have ne: "pc_prefix (tf_pc (snd (tcp_sniff 1 (tcp_start e port c s)))) \<noteq> []"
  proof -
    obtain b err f1 where s: "tcp_sniff 1 (tcp_start e port c s) = ((b, err), f1)" by (metis surj_pair)
    have "pc_prefix (tf_pc f1) = b" using tcp_sniff_core [OF s] by blast
    moreover have "to_come (tcp_start e port c s) \<noteq> []" using bs sniffed_clean(4) [OF clean] by auto
    then have "b \<noteq> []" using tcp_sniff_clean [OF s clean] by auto
    ultimately show ?thesis unfolding s snd_conv by blast
  qed
  have "\<not> is_envelope ?b" "\<not> isTLSClientHello ?b" unfolding bs by (simp_all add: is_envelope_def isTLSClientHello_def has_prefix_def env_consts)
  moreover have "\<not> IsClientResetTCP ?b" using unat_w16 [of 0 ?b] unfolding bs by (auto simp: IsClientResetTCP_def)
  ultimately obtain g where g: "tcpSOCKS5 e (sniffed e port c s) = Some g" "f = finish e (obs_parse (tf_obs g)) g"
    using ne assms(1,2) by (cases "tcpSOCKS5 e (sniffed e port c s)"; cases rule: handleTCP_cases [of sv e port RoleGeneric c s]) (simp_all add: tcp_dispatch_def)
  have "tf_obs (sniffed e port c s) = tf_obs (tcp_start e port c s)" by (simp add: sniffed_def Let_def tcp_sniff_def case_prod_beta)
  then have "\<not> reserved_tcp e ParseSOCKS5 (sniffed e port c s)" using assms(3) reserved_tcp_same [of "sniffed e port c s" "tcp_start e port c s"] sniffed_same by metis
  then have "sent g = sent (sniffed e port c s) @ [MethodReply MethodNone]"
    using socks5_refusal_sent [OF g(1)] assms(2) sniffed_clean(1) [OF clean] by (simp add: first_bytes_def clean_conn_def)
  moreover have "sent (sniffed e port c s) = cn_sent c" using sniffed_same start_inv by metis
  ultimately show ?thesis using g(2) by (simp add: MethodReply_def)
qed

section \<open>What the TCP responder promises\<close>

text \<open>An idle server at one instant, for concrete flows: nobody else touches the store, no TLS handshake
  succeeds and no HTTP request is parsed.\<close>

definition demo_conn :: "bytes list \<Rightarrow> conn" where
  "demo_conn bss = \<lparr>cn_reads = map (\<lambda>b. (b, None)) bss, cn_writes = [], cn_sent = []\<rparr>"

definition demo_tls :: tls_outcome where
  "demo_tls = \<lparr>to_err = Some (EOF, ''EOF''), to_in = 0, to_out = 0, to_version = 0, to_alpn = '''', to_inner = demo_conn [], to_http = []\<rparr>"

definition demo_tcp :: tcp_server where
  "demo_tcp = \<lparr>tv_sv = demo_server, tv_obfs4 = \<lparr>idn_node = replicate 20 1, idn_public = replicate 32 2\<rparr>\<rparr>"

definition demo_env :: tcp_env where
  "demo_env = \<lparr>te_ip = Addr4 7, te_ip_str = ''0.0.0.7'', te_sport = 4000, te_local = [], te_clock = (\<lambda>_. 100), te_others = (\<lambda>_. []),
     te_day = (\<lambda>_. 0), te_rnd = (\<lambda>_ _. 0), te_draw = 0, te_hello = None, te_tls = (\<lambda>_. demo_tls), te_http = [],
     te_date = (\<lambda>_. ''''), te_http_date = (\<lambda>_. '''')\<rparr>"

definition demo_session :: session where
  "demo_session = \<lparr>ses_id = replicate 16 7, ses_key = [5], ses_expires = sec 900, ses_created = 0, ses_client = Addr4 7, ses_tests = [''udp.echo''], ses_obs = []\<rparr>"

definition demo_live :: store where
  "demo_live = (newStore 10 (sec 600) 10 1200)\<lparr>sessions := [(replicate 16 7, demo_session)]\<rparr>"

lemma demo_env_ok: "env_ok demo_env"
  by (simp add: env_ok_def demo_env_def)

text \<open>C8. A TCP flow always ends, whatever the peer sends, the handshakes give and the other goroutines do to
  the store meanwhile: no slice goes out of range, no session is dereferenced after it is gone, no read loop
  spins. The conditions are that the flow's clock does not go backwards and that no other goroutine collects the
  store at a time more than a minute ahead of what the flow's clock showed two events earlier, or then
  stores a session that was over by that reading; their other operations and the times they carry are
  arbitrary. The store it leaves is the one it started on after exactly
  the recorded operations: the other goroutines', in their order, and the flow's own, none of which opens a
  session; and the store's invariant survives.\<close>

theorem tcp_flow_safe:
  assumes "env_ok e"
  shows "\<exists>f. handleTCP sv e port role c s = Some f \<and> tf_store f = store_run s (map snd (tf_ops f))
    \<and> list_all (\<lambda>(own, t, op). own \<longrightarrow> no_put op) (tf_ops f)
    \<and> map snd (List.filter (\<lambda>x. \<not> fst x) (tf_ops f)) = concat (map (te_others e) [0..<tf_n f])
    \<and> (store_inv s \<longrightarrow> store_inv (tf_store f))"
  using handleTCP_ok [OF assms, of s sv port role c] store_inv_run
  by (auto simp: returns_ok_def run_ok_def core_def list_all_iff)

theorem tcp_flow_safe_witness:
  "\<exists>f. handleTCP demo_tcp demo_env 8443 RoleGeneric (demo_conn [[5, 1, 0]]) (newStore 10 (sec 600) 10 1200) = Some f \<and> store_inv (tf_store f)"
  using tcp_flow_safe [OF demo_env_ok, of demo_tcp 8443 RoleGeneric "demo_conn [[5, 1, 0]]" "newStore 10 (sec 600) 10 1200"] by auto

text \<open>C20. A client that follows the protocol is served, however the network cuts its stream: for any sequence of requests
  of a live session, for tests it grants and within the rate limit, delivered in any chunks over a connection without
  errors to an otherwise idle server, the flow ends and what it wrote is exactly the replies, one per request and in
  their order, each authenticated with the session's key.\<close>

theorem tcp_envelope_stream_served:
  assumes "te_others e = (\<lambda>_. [])" and "list_all (\<lambda>(b, err). err = None) (cn_reads c)" and "cn_writes c = []" and "reqs \<noteq> []"
    and "concat (map fst (cn_reads c)) = concat (map (request_enc (ses_key sess)) reqs)"
    and "\<forall>r\<in>set reqs. request_ok (ses_key sess) r \<and> req_test r \<in> set (ses_tests sess) \<and> map_of (sessions s) (req_session r) = Some sess"
    and "\<forall>k. te_clock e k \<le> ses_expires sess"
    and "int (length (attemptRate s (rateKey (ses_client sess)))) + int (length reqs) \<le> attPer10Min s"
  shows "\<exists>f ts. handleTCP sv e port RoleGeneric c s = Some f \<and> length ts = length reqs \<and> sent f = cn_sent c @ map2 (echo_of sess) reqs ts"
  by (rule handleTCP_client [OF _ assms(4)]) (use assms in \<open>simp add: envelope_client_def start_flow\<close>)

lemma demo_client:
  fixes bss
  assumes "concat bss = request_enc [5] sample_request"
  shows "te_others demo_env = (\<lambda>_. [])" "list_all (\<lambda>(b, err). err = None) (cn_reads (demo_conn bss))" "cn_writes (demo_conn bss) = []"
    "concat (map fst (cn_reads (demo_conn bss))) = concat (map (request_enc (ses_key demo_session)) [sample_request])"
    "\<forall>r\<in>set [sample_request]. request_ok (ses_key demo_session) r \<and> req_test r \<in> set (ses_tests demo_session) \<and> map_of (sessions demo_live) (req_session r) = Some demo_session"
    "\<forall>k. te_clock demo_env k \<le> ses_expires demo_session"
    "int (length (attemptRate demo_live (rateKey (ses_client demo_session)))) + int (length [sample_request]) \<le> attPer10Min demo_live"
  using assms sample_request_ok
  by (simp_all add: demo_env_def demo_conn_def demo_session_def demo_live_def newStore_def list_all_iff comp_def request_ok_def sample_request_def)

theorem tcp_envelope_stream_served_witness:
  "\<exists>f t. handleTCP demo_tcp demo_env 8443 RoleGeneric (demo_conn [take 30 (request_enc [5] sample_request), drop 30 (request_enc [5] sample_request)]) demo_live = Some f
     \<and> sent f = [echo_of demo_session sample_request t]"
proof -
  let ?bss = "[take 30 (request_enc [5] sample_request), drop 30 (request_enc [5] sample_request)]"
  have "concat ?bss = request_enc [5] sample_request" by simp
  note D = demo_client [OF this]
  obtain f ts where "handleTCP demo_tcp demo_env 8443 RoleGeneric (demo_conn ?bss) demo_live = Some f" "length ts = length [sample_request]"
      "sent f = cn_sent (demo_conn ?bss) @ map2 (echo_of demo_session) [sample_request] ts"
    using tcp_envelope_stream_served [OF D(1-3) _ D(4-7), of demo_tcp 8443] by auto
  then show ?thesis by (cases ts) (auto simp: demo_conn_def)
qed

text \<open>C7. On an envelope stream the server sends nothing but replies that were due. Every write, complete or cut off by
  the connection, is the reply to a request that carried the HMAC of its session's key as the store held it at the
  time, for a test that session was granted, and the rate limiter had granted the attempt to the session's address
  before. The stores meant are those between the recorded operations, the other goroutines' included.\<close>

theorem tcp_replies_entitled:
  assumes "handleTCP sv e port RoleGeneric c s = Some f" and "is_envelope (first_bytes e port c s)" and "cn_sent c = []"
  shows "list_all (entitled_reply s (tf_ops f)) (sent f)"
  using handleTCP_entitled [OF assms(1,2)] assms(3) by simp

theorem tcp_replies_entitled_witness:
  "\<exists>f t. handleTCP demo_tcp demo_env 8443 RoleGeneric (demo_conn [request_enc [5] sample_request]) demo_live = Some f
     \<and> sent f = [echo_of demo_session sample_request t] \<and> entitled_reply demo_live (tf_ops f) (echo_of demo_session sample_request t)"
proof -
  let ?c = "demo_conn [request_enc [5] sample_request]"
  have "concat [request_enc [5] sample_request] = request_enc [5] sample_request" by simp
  note D = demo_client [OF this]
  have C: "envelope_client demo_env demo_session [] [sample_request] (tcp_start demo_env 8443 ?c demo_live)" unfolding envelope_client_def using D by (simp add: start_flow)
  obtain f ts where f: "handleTCP demo_tcp demo_env 8443 RoleGeneric ?c demo_live = Some f" "length ts = length [sample_request]"
      "sent f = cn_sent ?c @ map2 (echo_of demo_session) [sample_request] ts" using handleTCP_client [OF C, of demo_tcp] by auto
  moreover have sent0: "cn_sent ?c = []" by (simp add: demo_conn_def)
  moreover have "list_all (entitled_reply demo_live (tf_ops f)) (sent f)" by (rule tcp_replies_entitled [OF f(1) client_first [OF C] sent0]) simp
  ultimately show ?thesis by (cases ts) auto
qed

text \<open>C26. The SOCKS5 responder is no proxy and does not look like one to a stranger: a peer that opens with a
  complete greeting and whose address has no reservation for a SOCKS5 handshake on the port is sent, over a
  connection without errors, exactly the two bytes that say that no method is acceptable, in one write, and
  nothing else, whatever it sends after the greeting and whatever the others do to the store. On a connection
  with errors it receives at most a beginning of these two bytes.\<close>

theorem socks5_unreserved_refused:
  assumes "handleTCP sv e port RoleGeneric c s = Some f" and "IsGreeting (first_bytes e port c s)" and "\<not> reserved_tcp e ParseSOCKS5 (tcp_start e port c s)"
  shows "(if cn_writes c = [] \<and> list_all (\<lambda>(b, err). err = None) (cn_reads c) then sent f = cn_sent c @ [[5, 0xFF]]
     else \<exists>k. concat (sent f) = concat (cn_sent c) @ take k [5, 0xFF])"
  using handleTCP_socks5 [OF assms] handleTCP_socks5_sent [OF assms] by (auto simp: MethodReply_def intro: exI [of _ 0])

theorem socks5_unreserved_refused_witness:
  "\<exists>f. handleTCP demo_tcp demo_env 1080 RoleGeneric (demo_conn [[5, 1, 0]]) (newStore 10 (sec 600) 10 1200) = Some f
     \<and> sent f = [[5, 0xFF]]"
proof -
  let ?c = "demo_conn [[5, 1, 0]]" and ?s = "newStore 10 (sec 600) 10 1200"
  have clean: "clean_conn (tcp_start demo_env 1080 ?c ?s)" and tc: "to_come (tcp_start demo_env 1080 ?c ?s) = [5, 1, 0]" by (simp_all add: start_flow demo_conn_def)
  have "first_bytes demo_env 1080 ?c ?s = [5, 1, 0]"
    using sniffed_clean(3,4) [OF clean] unfolding tc by (auto dest: arg_cong [where f = length])
  then have g: "IsGreeting (first_bytes demo_env 1080 ?c ?s)" by (simp add: IsGreeting_def)
  have r: "\<not> reserved_tcp demo_env ParseSOCKS5 (tcp_start demo_env 1080 ?c ?s)" by (simp add: reserved_tcp_def start_flow newStore_def demo_env_def)
  obtain f where f: "handleTCP demo_tcp demo_env 1080 RoleGeneric ?c ?s = Some f" using handleTCP_ok [OF demo_env_ok] unfolding returns_ok_def by blast
  show ?thesis using f socks5_unreserved_refused [OF f g r] by (auto simp: demo_conn_def)
qed

text \<open>C23. A download is exactly what was asked and paid for. It goes through only if between one byte and the limit was
  asked for and the daily quota granted that many bytes to the address, the flow's own operation at that point of the
  store's history; then the peer gets one header and after it, in however many pieces, precisely the first bytes of
  the keystream of the request's nonce, so that a client can check every byte. And a request the quota grants, on a
  connection that takes the writes, does go through.\<close>

theorem bulk_download_exact:
  assumes "tf_store f = store_run s0 (map snd (tf_ops f))"
  shows "(\<forall>bs' f'. bulk_down e b bs f = Some (Inr (bs', f')) \<longrightarrow>
      0 < bk_n b \<and> bk_n b \<le> bulkMaxDownload \<and> bs_down bs' = bs_down bs + bk_n b
      \<and> (\<exists>ps. sent f' = sent f @ bytes_of (bulk_header ''application/octet-stream'' (nat (bk_n b)) (bk_nonce b)) # ps
           \<and> concat ps = Keystream (bk_nonce b) 0 (nat (bk_n b)))
      \<and> (\<exists>i t. length (tf_ops f) \<le> i \<and> i < length (tf_ops f') \<and> tf_ops f' ! i = (True, t, OpBulk (te_ip e) (bk_n b) (te_day e t))
           \<and> snd (consumeBulk (store_run s0 (map snd (take i (tf_ops f')))) (te_ip e) (bk_n b) (te_day e t))))
    \<and> (0 < bk_n b \<and> bk_n b \<le> bulkMaxDownload \<and> bulk_granted e (bk_n b) f \<and> clean_conn f \<longrightarrow> (\<exists>bs' f'. bulk_down e b bs f = Some (Inr (bs', f'))))"
proof -
  have s: "tf_store f = store_at s0 (tf_ops f) (length (tf_ops f))" using assms by (simp add: store_at_def)
  show ?thesis using bulk_down_exact [OF _ s, of e b bs, unfolded store_at_def] bulk_down_delivers [of b e f bs] by blast
qed

theorem bulk_download_exact_witness:
  "\<exists>bs' f' ps. bulk_down demo_env \<lparr>bk_session = '''', bk_test = ''http.bulk'', bk_nonce = ''0a'', bk_dir = ''down'', bk_n = 10000\<rparr>
       \<lparr>bs_up = 0, bs_down = 0, bs_chunks = 0, bs_last = 0\<rparr> (tcp_start demo_env 80 (demo_conn []) demo_live) = Some (Inr (bs', f'))
     \<and> tl (sent f') = ps \<and> concat ps = Keystream ''0a'' 0 10000"
proof -
  let ?b = "\<lparr>bk_session = '''', bk_test = ''http.bulk'', bk_nonce = ''0a'', bk_dir = ''down'', bk_n = 10000\<rparr>"
  let ?bs = "\<lparr>bs_up = 0, bs_down = 0, bs_chunks = 0, bs_last = 0\<rparr>" and ?f = "tcp_start demo_env 80 (demo_conn []) demo_live"
  have ops: "tf_ops ?f = []" "te_others demo_env = (\<lambda>_. [])" by (simp_all add: tcp_start_def sync_def Let_def tobs_def demo_env_def)
  have s: "tf_store ?f = store_run demo_live (map snd (tf_ops ?f))" by (simp add: start_flow ops)
  have "tf_store (sync demo_env (sync demo_env ?f)) = demo_live" by (simp add: sync_def start_flow ops)
  then have "bulk_granted demo_env 10000 ?f" by (simp add: bulk_granted_def demo_live_def newStore_def consumeBulk_def demo_env_def day_use_def wrap64_def Let_def)
  moreover have "clean_conn ?f" by (simp add: start_flow demo_conn_def)
  ultimately obtain bs' f' where d: "bulk_down demo_env ?b ?bs ?f = Some (Inr (bs', f'))" using bulk_download_exact [OF s, of demo_env ?b ?bs] by auto
  have "sent ?f = []" using start_inv [of demo_live "demo_conn []" demo_env 80] by (simp add: demo_conn_def)
  then show ?thesis using bulk_download_exact [OF s, of demo_env ?b ?bs] d by auto
qed

text \<open>The limit on connections holds: over any history of connections accepted and ended, the table has for every
  address exactly the number of its connections being served, never more than the limit, and an entry for no address
  without one, so that the table does not grow with the addresses seen.\<close>

theorem tcp_connections_bounded:
  "case foldl accept_step (Map.empty, []) evs of (conns, active) \<Rightarrow>
     (case conns ip of None \<Rightarrow> ip \<notin> set active | Some n \<Rightarrow> n = int (count_list active ip) \<and> 0 < n) \<and> int (count_list active ip) \<le> maxConnsPerIP"
proof -
  obtain conns active where x: "foldl accept_step (Map.empty, []) evs = (conns, active)" by fastforce
  have "conn_count conns ip = int (count_list active ip)" "int (count_list active ip) \<le> maxConnsPerIP" "conns ip = None \<longleftrightarrow> count_list active ip = 0"
    using conns_ok_run [of evs] by (simp_all add: x conns_ok_def)
  then show ?thesis by (cases "conns ip") (auto simp: x conn_count_def count_pos)
qed

end
