(* ===== verification/Echo_Tests.thy ===== *)
theory Echo_Tests
  imports Dest_Tests Tcp_Safety
begin

text \<open>
  The attempts that probe the server with one exchange (\<open>internal/client/tests_tcp.go\<close>, \<open>tests_udp.go\<close>,
  \<open>tests_packets.go\<close>): the echo of an envelope in one write or in many, over TCP and UDP, random bytes, the
  comparison of round trips, cleartext HTTP and the WireGuard handshake; then the client's exchange with the
  responder of \<open>Tcp_Accept\<close>.

  A socket of the client is a script: what each read and each write of the attempt meets, an error included, and
  the error of a read when nothing is left, which is the deadline in a run without one. The bytes the program
  draws at random are a function of the draw. The clock is read at the program points an attempt passes, each at
  most once.
\<close>

section \<open>Sockets of the client\<close>

record sock =
  sk_reads :: "(bytes \<times> go_error option) list"
  sk_idle :: go_error
  sk_writes :: "go_error option list"
  sk_sent :: "bytes list"

definition sk_Write :: "bytes \<Rightarrow> sock \<Rightarrow> go_error option \<times> sock" where
  "sk_Write b s =
     (case sk_writes s of
        Some err # ws \<Rightarrow> (Some err, s\<lparr>sk_writes := ws\<rparr>)
      | ws \<Rightarrow> (None, s\<lparr>sk_writes := tl ws, sk_sent := sk_sent s @ [b]\<rparr>))"

text \<open>A read of a stream gives at most \<open>k\<close> bytes and leaves the rest; a read of a datagram socket cuts the
  datagram.\<close>

definition sk_Read :: "nat \<Rightarrow> sock \<Rightarrow> (bytes \<times> go_error option) \<times> sock" where
  "sk_Read k s =
     (case sk_reads s of
        [] \<Rightarrow> (([], Some (sk_idle s)), s)
      | (bs, err) # rest \<Rightarrow>
          if length bs \<le> k then ((bs, err), s\<lparr>sk_reads := rest\<rparr>)
          else ((take k bs, None), s\<lparr>sk_reads := (drop k bs, err) # rest\<rparr>))"

definition sk_Recv :: "nat \<Rightarrow> sock \<Rightarrow> (go_error + bytes) \<times> sock" where
  "sk_Recv k s =
     (case sk_reads s of
        [] \<Rightarrow> (Inl (sk_idle s), s)
      | (bs, Some err) # rest \<Rightarrow> (Inl err, s\<lparr>sk_reads := rest\<rparr>)
      | (bs, None) # rest \<Rightarrow> (Inr (take k bs), s\<lparr>sk_reads := rest\<rparr>))"

definition sk_left :: "sock \<Rightarrow> nat" where
  "sk_left s = (\<Sum>(bs, err)\<leftarrow>sk_reads s. Suc (length bs))"

lemma sk_Read_left: "sk_Read k s = ((bs, None), s') \<Longrightarrow> 0 < k \<Longrightarrow> sk_left s' < sk_left s"
  by (auto simp: sk_Read_def sk_left_def split: list.splits if_splits)

lemma sk_Recv_left: "sk_Recv k s = (Inr bs, s') \<Longrightarrow> length (sk_reads s') < length (sk_reads s)"
  by (auto simp: sk_Recv_def split: list.splits option.splits)

section \<open>The environment of an attempt\<close>

record http_resp =
  hs_status :: int
  hs_location :: string
  hs_nonce :: string
  hs_body :: bytes
  hs_body_err :: "go_error option"

record wire_env =
  we_client :: client
  we_at :: "string \<Rightarrow> time"
  we_dial :: dialing
  we_udp :: "go_error + int option"
  we_sock :: sock
  we_reserve :: "go_error + string"
  we_rand :: "nat \<Rightarrow> nat \<Rightarrow> byte"
  we_nonce :: "nat \<Rightarrow> nat \<Rightarrow> byte"
  we_stop :: "nat \<Rightarrow> go_error option"
  we_lib :: crypto_lib
  we_lib_err :: go_error
  we_peek :: "go_error option"
  we_resp :: "(go_error \<times> bytes) + http_resp"
  we_utf8 :: "bytes \<Rightarrow> string"

definition wmark :: "wire_env \<Rightarrow> string \<Rightarrow> attempt \<Rightarrow> attempt" where
  "wmark e stg a = mark stg (we_at e stg) a"

definition wfail :: "wire_env \<Rightarrow> string \<Rightarrow> go_error \<Rightarrow> attempt \<Rightarrow> attempt" where
  "wfail e out err a = fail out (Some err) (we_at e ''done'') a"

definition wok :: "wire_env \<Rightarrow> attempt \<Rightarrow> attempt" where
  "wok e a = ok (we_at e ''done'') a"

definition add_in :: "nat \<Rightarrow> attempt \<Rightarrow> attempt" where
  "add_in n a = a\<lparr>at_bytes_in := at_bytes_in a + int n\<rparr>"

definition add_out :: "nat \<Rightarrow> attempt \<Rightarrow> attempt" where
  "add_out n a = a\<lparr>at_bytes_out := at_bytes_out a + int n\<rparr>"

definition note_prefix :: "bytes \<Rightarrow> attempt \<Rightarrow> attempt" where
  "note_prefix b a = set_det ''response_prefix'' (hex_encode (take 16 b)) a"

definition RandomPayload :: "wire_env \<Rightarrow> nat \<Rightarrow> nat \<Rightarrow> bytes" where
  "RandomPayload e k n = map (we_rand e k) [0..<n]"

definition NewNonce :: "wire_env \<Rightarrow> nat \<Rightarrow> bytes" where
  "NewNonce e k = map (we_nonce e k) [0..<NonceLen]"

definition encode_error :: "env_error \<Rightarrow> go_error" where
  "encode_error er = new_error
     (case er of
        BadTestIDLen n \<Rightarrow> ''proto: bad test id length '' @ utoa n
      | PayloadTooLarge n \<Rightarrow> ''proto: payload too large: '' @ utoa n
      | BadCookieLen n \<Rightarrow> ''proto: bad cookie length '' @ utoa n
      | _ \<Rightarrow> '''')"

definition reserve :: "wire_env \<Rightarrow> attempt \<Rightarrow> go_error + attempt" where
  "reserve e a = (case we_reserve e of Inl err \<Rightarrow> Inl err | Inr aid \<Rightarrow> Inr (restart (we_at e ''reserve'') (a\<lparr>at_attempt_id := aid\<rparr>)))"

section \<open>TCP\<close>

definition tcpAddr :: "client \<Rightarrow> int \<Rightarrow> string" where
  "tcpAddr c port = join_host_port (addr_string (cl_target c)) (itoa port)"

definition dialTCP :: "wire_env \<Rightarrow> attempt \<Rightarrow> go_error + attempt" where
  "dialTCP e a =
     (let d = we_dial e
      in case dl_result d of
           Inl err \<Rightarrow> Inl (case dialError (Some err) (sub_time (dl_done d) (dl_start d)) False of Some er \<Rightarrow> er | None \<Rightarrow> err)
         | Inr port \<Rightarrow>
             let a = markSince ''connect'' (dl_start d) (dl_done d) a
             in Inr (case port of None \<Rightarrow> a | Some p \<Rightarrow> a\<lparr>at_src_port := p\<rparr>))"

function readUntilClose :: "nat \<Rightarrow> bytes \<Rightarrow> sock \<Rightarrow> (bytes \<times> go_error option) \<times> sock" where
  "readUntilClose k buf s =
     (if length buf < k then
        (case sk_Read 8192 s of
           ((bs, Some err), s') \<Rightarrow> ((buf @ bs, Some err), s')
         | ((bs, None), s') \<Rightarrow> readUntilClose k (buf @ bs) s')
      else ((buf, None), s))"
  by pat_completeness auto
termination
  by (relation "measure (\<lambda>(k, buf, s). sk_left s)") (auto dest: sk_Read_left [OF sym])

declare readUntilClose.simps [simp del]

text \<open>The loop that reads one reply. \<open>outmap\<close> renames the outcome of an error, the identity in \<open>echoOnConn\<close>.\<close>

function read_reply :: "(string \<Rightarrow> string) \<Rightarrow> wire_env \<Rightarrow> bytes \<Rightarrow> attempt \<Rightarrow> sock \<Rightarrow> (attempt + bytes \<times> attempt) option" where
  "read_reply outmap e buf a s =
     (case reply_len buf of
        None \<Rightarrow> None
      | Some (tot, need) \<Rightarrow>
          if tot > 0 then Some (Inr (buf, a))
          else (case sk_Read 4096 s of
             ((bs, err), s') \<Rightarrow>
               let a = (if bs \<noteq> [] \<and> buf = [] then wmark e ''first_byte'' a else a);
                   got = buf @ bs;
                   a = add_in (length bs) a
               in (case err of
                     Some er \<Rightarrow>
                       if got \<noteq> [] \<and> \<not> is_envelope got then Some (Inl (wfail e OutcomeUnexpected er (note_prefix got a)))
                       else Some (Inl (wfail e (outmap (classifyNetErr er True)) er a))
                   | None \<Rightarrow>
                       if length got \<ge> 4 \<and> \<not> is_envelope got
                       then Some (Inl (wfail e OutcomeUnexpected (new_error ''non-envelope reply'') (note_prefix got a)))
                       else read_reply outmap e got a s')))"
  by pat_completeness auto
termination
  by (relation "measure (\<lambda>(outmap, e, buf, a, s). sk_left s)") (auto dest: sk_Read_left [OF sym])

declare read_reply.simps [simp del]

definition judge_reply :: "wire_env \<Rightarrow> bytes \<Rightarrow> bytes \<Rightarrow> bytes \<Rightarrow> bool \<Rightarrow> attempt \<Rightarrow> attempt option" where
  "judge_reply e buf nonce payload rtt a =
     (case checkReply (we_client e) buf nonce payload of
        None \<Rightarrow> None
      | Some (rep, verdict) \<Rightarrow>
          if verdict \<noteq> '''' then Some (wfail e OutcomeModified (new_error (''reply check: '' @ verdict)) (set_det ''reply_check'' verdict a))
          else if rtt
          then (case rep of
                  None \<Rightarrow> None
                | Some r \<Rightarrow> Some (wok e (set_det ''server_rtt_us'' (itoa (microseconds (sub_time (rep_replied_at r) (rep_seen_at r)))) a)))
          else Some (wok e a))"

definition await_reply :: "(string \<Rightarrow> string) \<Rightarrow> wire_env \<Rightarrow> bytes \<Rightarrow> bytes \<Rightarrow> bool \<Rightarrow> attempt \<Rightarrow> sock \<Rightarrow> attempt option" where
  "await_reply outmap e nonce payload rtt a s = do {
     r \<leftarrow> read_reply outmap e [] a s;
     (case r of Inl a \<Rightarrow> Some a | Inr (buf, a) \<Rightarrow> judge_reply e buf nonce payload rtt a)
   }"

text \<open>\<open>echoOnConn\<close> on a socket the caller keeps, with the \<open>k\<close>-th draws.\<close>

definition echoOnConn :: "wire_env \<Rightarrow> nat \<Rightarrow> attempt \<Rightarrow> nat \<Rightarrow> sock \<Rightarrow> attempt option" where
  "echoOnConn e k a sz s =
     (let payload = RandomPayload e k sz; nonce = NewNonce e k
      in case client_envelope (we_client e) nonce (at_test a) 1 payload False of
           Inl er \<Rightarrow> Some (wfail e OutcomeServerError (encode_error er) a)
         | Inr wire \<Rightarrow>
             (case sk_Write wire s of
                (Some err, s') \<Rightarrow> Some (wfail e (classifyNetErr err True) err (a\<lparr>at_nonce := hex_encode nonce\<rparr>))
              | (None, s') \<Rightarrow>
                  await_reply (\<lambda>x. x) e nonce payload True
                    (wmark e ''first_write'' (add_out (length wire) (a\<lparr>at_nonce := hex_encode nonce\<rparr>))) s'))"

definition tcpEcho :: "wire_env \<Rightarrow> attempt \<Rightarrow> nat \<Rightarrow> attempt option" where
  "tcpEcho e a sz =
     (case dialTCP e a of
        Inl err \<Rightarrow> Some (wfail e (classifyNetErr err False) err a)
      | Inr a \<Rightarrow> echoOnConn e 0 a sz (we_sock e))"

text \<open>\<open>None\<close> is the panic on an empty payload.\<close>

definition random_payload :: "wire_env \<Rightarrow> nat \<Rightarrow> bytes option" where
  "random_payload e sz = (case RandomPayload e 0 sz of [] \<Rightarrow> None | _ # bs \<Rightarrow> Some (0xff # bs))"

definition tcpRandom :: "wire_env \<Rightarrow> attempt \<Rightarrow> nat \<Rightarrow> attempt option" where
  "tcpRandom e a sz = do {
     payload \<leftarrow> random_payload e sz;
     (case reserve e a of
        Inl err \<Rightarrow> Some (wfail e OutcomeServerError err a)
      | Inr a \<Rightarrow>
          (case dialTCP e a of
             Inl err \<Rightarrow> Some (wfail e (classifyNetErr err False) err a)
           | Inr a \<Rightarrow>
               (case sk_Write payload (we_sock e) of
                  (Some err, s) \<Rightarrow> Some (wfail e (classifyNetErr err True) err a)
                | (None, s) \<Rightarrow>
                    let a = wmark e ''first_write'' (a\<lparr>at_bytes_out := int (length payload)\<rparr>)
                    in (case readUntilClose 64 [] s of
                          ((got, err), _) \<Rightarrow>
                            let a = a\<lparr>at_bytes_in := int (length got)\<rparr>;
                                a = (if got \<noteq> [] then wmark e ''first_byte'' a else a)
                            in if got = []
                               then (case err of None \<Rightarrow> None | Some er \<Rightarrow> Some (wfail e (classifyNetErr er True) er a))
                               else if take 8 got \<noteq> take 8 (sha256 payload)
                               then Some (wfail e OutcomeUnexpected (new_error ''hash ack mismatch'') (note_prefix got a))
                               else Some (wok e a)))))
   }"

text \<open>\<open>%.2f\<close> of a value that is not negative, and \<open>%.2f\<close> of a quotient of two such: an infinity or no number when the
  divisor is zero.\<close>

definition format_f2 :: "rat \<Rightarrow> string" where
  "format_f2 q = (let n = nat (round_half_even (q * 100)); c = n mod 100 in utoa (n div 100) @ ''.'' @ (if c < 10 then ''0'' else '''') @ utoa c)"

definition format_ratio :: "rat \<Rightarrow> rat \<Rightarrow> string" where
  "format_ratio x y = (if y = 0 then (if x = 0 then ''NaN'' else ''+Inf'') else format_f2 (x / y))"

record rtt_state =
  rs_attempt :: attempt
  rs_connect :: rat
  rs_payload :: rat
  rs_ok :: nat

text \<open>One sample of \<open>tcpRTT\<close>, on an attempt and a connection of its own.\<close>

definition rtt_sample :: "(nat \<Rightarrow> wire_env) \<Rightarrow> nat \<Rightarrow> rtt_state \<Rightarrow> rtt_state option" where
  "rtt_sample es i st =
     (let e = es i; a = rs_attempt st;
          sub = newAttempt '''' (at_test a) (at_group a) (at_role a) (at_variant a) ''tcp'' (at_dst_port a) (at_round a) (we_at e ''start'');
          lost = (\<lambda>text. st\<lparr>rs_attempt := set_det (''error_'' @ utoa i) text a\<rparr>)
      in case dialTCP e sub of
           Inl err \<Rightarrow> Some (lost (err_text err))
         | Inr sub \<Rightarrow>
             do {
               r \<leftarrow> echoOnConn e i sub 64 (we_sock e);
               if at_outcome r \<noteq> OutcomeOK then Some (lost (at_outcome r))
               else let rtt = millis (sub_time (we_at e ''echoed'') (we_at e ''dialed''))
                    in Some (st\<lparr>rs_ok := rs_ok st + 1,
                         rs_attempt := a\<lparr>at_nonce := at_nonce r, at_bytes_out := at_bytes_out a + at_bytes_out r, at_bytes_in := at_bytes_in a + at_bytes_in r\<rparr>,
                         rs_connect := (if stage r ''connect'' < rs_connect st then stage r ''connect'' else rs_connect st),
                         rs_payload := (if rtt < rs_payload st then rtt else rs_payload st)\<rparr>)
             })"

fun rtt_samples :: "(nat \<Rightarrow> wire_env) \<Rightarrow> nat list \<Rightarrow> rtt_state \<Rightarrow> rtt_state option" where
  "rtt_samples es [] st = Some st"
| "rtt_samples es (i # is) st = do { st \<leftarrow> rtt_sample es i st; rtt_samples es is st }"

definition tcpRTT :: "wire_env \<Rightarrow> (nat \<Rightarrow> wire_env) \<Rightarrow> attempt \<Rightarrow> nat \<Rightarrow> attempt option" where
  "tcpRTT e es a n = do {
     st \<leftarrow> rtt_samples es [0..<n] \<lparr>rs_attempt = a, rs_connect = 1000000000, rs_payload = 1000000000, rs_ok = 0\<rparr>;
     let a = set_det ''samples_ok'' (utoa (rs_ok st)) (rs_attempt st);
     if rs_ok st = 0 then Some (wfail e OutcomeInconclusive (new_error ''no successful samples'') a)
     else let a = set_det ''connect_payload_ratio'' (format_ratio (rs_connect st) (rs_payload st))
                    (set_det ''payload_min_ms'' (format_f2 (rs_payload st)) (set_det ''connect_min_ms'' (format_f2 (rs_connect st)) a));
              a = (if rs_payload st \<noteq> 0 \<and> rs_connect st / rs_payload st < 1 / 2 \<and> rs_payload st - rs_connect st > 20
                   then set_det ''synack_suspect'' ''true'' a else a)
          in Some (wok e a)
   }"

definition http_request :: "string \<Rightarrow> string \<Rightarrow> string" where
  "http_request path host =
     ''GET '' @ path @ '' HTTP/1.1'' @ crlf @ ''Host: '' @ host @ crlf
     @ ''User-Agent: Mozilla/5.0 (X11; Linux x86_64) AppleWebKit/537.36 (KHTML, like Gecko) Chrome/128.0 Safari/537.36'' @ crlf
     @ ''Accept: */*'' @ crlf @ ''Connection: close'' @ crlf @ crlf"

definition hexSum :: "bytes \<Rightarrow> string" where
  "hexSum b = hex_encode (sha256 b)"

text \<open>\<open>http.ReadResponse\<close> comes with the environment: the error of the first byte, and the response as it was read.\<close>

definition httpHost :: "wire_env \<Rightarrow> attempt \<Rightarrow> string \<Rightarrow> attempt" where
  "httpHost e a host =
     (let nonce = hex_encode (RandomPayload e 0 12);
          a = a\<lparr>at_nonce := nonce\<rparr>;
          path = Path (sr_session_id (cl_session (we_client e))) (at_test a) nonce
      in case dialTCP e a of
           Inl err \<Rightarrow> wfail e (classifyNetErr err False) err a
         | Inr a \<Rightarrow>
             (case sk_Write (bytes_of (http_request path host)) (we_sock e) of
                (Some err, _) \<Rightarrow> wfail e (classifyNetErr err True) err a
              | (None, _) \<Rightarrow>
                  let a = wmark e ''first_write'' (a\<lparr>at_bytes_out := int (length (http_request path host))\<rparr>)
                  in (case we_peek e of
                        Some err \<Rightarrow> wfail e (classifyNetErr err True) err a
                      | None \<Rightarrow>
                          let a = wmark e ''first_byte'' a
                          in (case we_resp e of
                                Inl (err, raw) \<Rightarrow> wfail e OutcomeUnexpected err (set_det ''response_prefix'' (we_utf8 e (take 64 (take 256 raw))) a)
                              | Inr resp \<Rightarrow>
                                  let body = take 65536 (hs_body resp);
                                      rerr = (if length (hs_body resp) < 65536 then hs_body_err resp else None);
                                      a = set_det ''status'' (itoa (hs_status resp)) (a\<lparr>at_bytes_in := int (length body)\<rparr>);
                                      a = (if hs_location resp \<noteq> '''' then set_det ''location'' (hs_location resp) a else a)
                                  in if hs_status resp \<noteq> 200 \<or> body \<noteq> Body host path nonce \<or> hs_nonce resp \<noteq> nonce
                                     then let a = set_det ''body_prefix'' (we_utf8 e (take 96 body)) (set_det ''body_sha256'' (hexSum body) a)
                                          in (case rerr of
                                                Some err \<Rightarrow> if hs_status resp = 200 then wfail e (classifyNetErr err True) err a
                                                            else wfail e OutcomeModified (new_error (''status '' @ itoa (hs_status resp) @ '' / body mismatch'')) a
                                              | None \<Rightarrow> wfail e OutcomeModified (new_error (''status '' @ itoa (hs_status resp) @ '' / body mismatch'')) a)
                                     else wok e a))))"

section \<open>An envelope in many writes\<close>

record packetsOptions =
  po_tls :: bool
  po_sni :: string
  po_chunk :: int
  po_payload :: int

definition packetsOutcome :: "string \<Rightarrow> string" where
  "packetsOutcome out = (if out \<in> {OutcomePayloadTimeout, OutcomeMidstreamReset, OutcomeMidstreamEOF} then OutcomePacketsCut else out)"

text \<open>The writes, with the number sent so far; \<open>we_stop\<close> is a cancellation in the pause after a write.\<close>

fun write_chunks :: "wire_env \<Rightarrow> bytes list \<Rightarrow> nat \<Rightarrow> attempt \<Rightarrow> sock \<Rightarrow> (attempt + nat \<times> attempt \<times> sock)" where
  "write_chunks e [] n a s = Inr (n, a, s)"
| "write_chunks e (b # bs) n a s =
     (case sk_Write b s of
        (Some err, s) \<Rightarrow> Inl (wfail e (packetsOutcome (classifyNetErr err True)) err (set_det ''packets_sent'' (utoa n) a))
      | (None, s) \<Rightarrow>
          let a = add_out (length b) (if n = 0 then wmark e ''first_write'' a else a)
          in (case (if bs = [] then None else we_stop e n) of
                Some err \<Rightarrow> Inl (wfail e OutcomeSkipped err a)
              | None \<Rightarrow> write_chunks e bs (n + 1) a s))"

function chunks :: "nat \<Rightarrow> bytes \<Rightarrow> bytes list" where
  "chunks k b = (if b = [] then [] else take (max 1 k) b # chunks k (drop (max 1 k) b))"
  by pat_completeness auto
termination
  by (relation "measure (\<lambda>(k, b). length b)") auto

declare chunks.simps [simp del]

definition or_default :: "int \<Rightarrow> int \<Rightarrow> nat" where
  "or_default d n = nat (if n \<le> 0 then d else n)"

text \<open>\<open>hs\<close> is the outcome of the TLS handshake, where the attempt has one.\<close>

definition tcpPackets :: "wire_env \<Rightarrow> tls_error option \<Rightarrow> attempt \<Rightarrow> packetsOptions \<Rightarrow> attempt option" where
  "tcpPackets e hs a po =
     (let chunk = or_default 2 (po_chunk po);
          a = set_det ''chunk_bytes'' (utoa chunk) a;
          payload = RandomPayload e 0 (or_default 64 (po_payload po)); nonce = NewNonce e 0
      in case client_envelope (we_client e) nonce (at_test a) 1 payload False of
           Inl er \<Rightarrow> Some (wfail e OutcomeServerError (encode_error er) a)
         | Inr wire \<Rightarrow>
             let a = set_det ''packets_planned'' (utoa ((length wire + chunk - 1) div chunk)) (a\<lparr>at_nonce := hex_encode nonce\<rparr>);
                 a = (if po_tls po then set_det ''sni'' (po_sni po) a else a)
             in (case reserve e a of
                   Inl err \<Rightarrow> Some (wfail e OutcomeServerError err a)
                 | Inr a \<Rightarrow>
                     (case dialTCP e a of
                        Inl err \<Rightarrow> Some (wfail e (classifyNetErr err False) err a)
                      | Inr a \<Rightarrow>
                          (case (if po_tls po then hs else None) of
                             Some err \<Rightarrow> Some (wfail e (tlsOutcome err) (net_error err) (noteTLSFailure err a))
                           | None \<Rightarrow>
                               let a = (if po_tls po then wmark e ''handshake'' a else a)
                               in (case write_chunks e (chunks chunk wire) 0 a (we_sock e) of
                                     Inl a \<Rightarrow> Some a
                                   | Inr (n, a, s) \<Rightarrow>
                                       await_reply packetsOutcome e nonce payload False
                                         (wmark e ''last_write'' (set_det ''packets_sent'' (utoa n) a)) s)))))"

section \<open>UDP\<close>

definition udpConn :: "wire_env \<Rightarrow> attempt \<Rightarrow> go_error + attempt" where
  "udpConn e a =
     (case we_udp e of
        Inl err \<Rightarrow> Inl (case dialError (Some err) 0 True of Some er \<Rightarrow> er | None \<Rightarrow> err)
      | Inr port \<Rightarrow> Inr (wmark e ''connect'' (case port of None \<Rightarrow> a | Some p \<Rightarrow> a\<lparr>at_src_port := p\<rparr>)))"

text \<open>\<open>udpExchangeOn\<close> is used once per attempt before a session, and more than once in one: \<open>w\<close> and \<open>r\<close> name the two
  readings of the clock.\<close>

definition udp_exchange_at :: "string \<Rightarrow> string \<Rightarrow> wire_env \<Rightarrow> bytes \<Rightarrow> attempt \<Rightarrow> sock \<Rightarrow> (go_error + bytes) \<times> attempt \<times> sock" where
  "udp_exchange_at w r e out a s =
     (case sk_Write out s of
        (Some err, s) \<Rightarrow> (Inl err, a, s)
      | (None, s) \<Rightarrow>
          let a = mark ''first_write'' (we_at e w) (a\<lparr>at_bytes_out := int (length out)\<rparr>)
          in (case sk_Recv 2048 s of
                (Inl err, s) \<Rightarrow> (Inl err, a, s)
              | (Inr b, s) \<Rightarrow> (Inr b, (mark ''first_byte'' (we_at e r) a)\<lparr>at_bytes_in := int (length b)\<rparr>, s)))"

definition udpExchangeOn :: "wire_env \<Rightarrow> bytes \<Rightarrow> attempt \<Rightarrow> sock \<Rightarrow> (go_error + bytes) \<times> attempt \<times> sock" where
  "udpExchangeOn = udp_exchange_at ''first_write'' ''first_byte''"

definition udpExchange :: "wire_env \<Rightarrow> attempt \<Rightarrow> bytes \<Rightarrow> (go_error + bytes) \<times> attempt" where
  "udpExchange e a out =
     (case udpConn e a of
        Inl err \<Rightarrow> (Inl err, a)
      | Inr a \<Rightarrow> (case udpExchangeOn e out a (we_sock e) of (r, a, _) \<Rightarrow> (r, a)))"

definition udpOutcome :: "go_error \<Rightarrow> string" where
  "udpOutcome err = classifyNetErr err True"

definition udpEcho :: "wire_env \<Rightarrow> attempt \<Rightarrow> nat \<Rightarrow> attempt option" where
  "udpEcho e a sz =
     (let payload = RandomPayload e 0 sz; nonce = NewNonce e 0
      in case client_envelope (we_client e) nonce (at_test a) 1 payload True of
           Inl er \<Rightarrow> Some (wfail e OutcomeServerError (encode_error er) a)
         | Inr wire \<Rightarrow>
             (case udpExchange e (a\<lparr>at_nonce := hex_encode nonce\<rparr>) wire of
                (Inl err, a) \<Rightarrow> Some (wfail e (udpOutcome err) err a)
              | (Inr got, a) \<Rightarrow>
                  if \<not> is_envelope got then Some (wfail e OutcomeUnexpected (new_error ''non-envelope reply'') (note_prefix got a))
                  else judge_reply e got nonce payload False a))"

definition udpRandom :: "wire_env \<Rightarrow> attempt \<Rightarrow> nat \<Rightarrow> attempt option" where
  "udpRandom e a sz = do {
     payload \<leftarrow> random_payload e sz;
     Some (case reserve e a of
        Inl err \<Rightarrow> wfail e OutcomeServerError err a
      | Inr a \<Rightarrow>
          (case udpExchange e a payload of
             (Inl err, a) \<Rightarrow> wfail e (udpOutcome err) err a
           | (Inr got, a) \<Rightarrow>
               if take 8 got \<noteq> take 8 (sha256 payload) then wfail e OutcomeUnexpected (new_error ''hash ack mismatch'') (note_prefix got a)
               else wok e a))
   }"

definition base64Decode :: "string \<Rightarrow> bytes option" where
  "base64Decode s = StdDecode s"

text \<open>The part \<open>wireguardInit\<close> and \<open>wireguardSession\<close> share up to the socket: the server's key, the reservation, the
  client's key pair and its initiation, from three draws.\<close>

definition wg_initiation :: "wire_env \<Rightarrow> attempt \<Rightarrow> (attempt + (initiator \<times> bytes) \<times> attempt)" where
  "wg_initiation e a =
     (case base64Decode (pa_wg_public_key (cl_params (we_client e))) of
        None \<Rightarrow> Inl (wfail e OutcomeServerError (new_error ''server did not advertise a WireGuard key'') a)
      | Some pub \<Rightarrow>
          if length pub \<noteq> 32 then Inl (wfail e OutcomeServerError (new_error ''server did not advertise a WireGuard key'') a)
          else (case reserve e a of
                  Inl err \<Rightarrow> Inl (wfail e OutcomeServerError err a)
                | Inr a \<Rightarrow>
                    (case NewKeyPair (we_lib e) (RandomPayload e 0 32) of
                       None \<Rightarrow> Inl (wfail e OutcomeServerError (we_lib_err e) a)
                     | Some static \<Rightarrow>
                         (case CreateInitiation (we_lib e) static pub (RandomPayload e 1 32) (get_le32 (RandomPayload e 2 4) 0) (we_at e ''tai64n'') of
                            None \<Rightarrow> Inl (wfail e OutcomeServerError (we_lib_err e) a)
                          | Some r \<Rightarrow> Inr (r, a)))))"

definition wg_error_of :: "wire_env \<Rightarrow> wg_error \<Rightarrow> go_error" where
  "wg_error_of e er = (case er of ErrWgBadMessage \<Rightarrow> new_error ''wg: malformed or unauthenticated message'' | X25519Failed \<Rightarrow> we_lib_err e)"

definition wg_refused :: "wire_env \<Rightarrow> wg_error \<Rightarrow> bytes \<Rightarrow> attempt \<Rightarrow> attempt" where
  "wg_refused e er got a =
     wfail e (if length got = ResponseSize then OutcomeModified else OutcomeUnexpected) (wg_error_of e er) (note_prefix got a)"

definition wireguardInit :: "wire_env \<Rightarrow> attempt \<Rightarrow> attempt" where
  "wireguardInit e a =
     (case wg_initiation e a of
        Inl a \<Rightarrow> a
      | Inr ((st, msg), a) \<Rightarrow>
          (case udpExchange e a msg of
             (Inl err, a) \<Rightarrow> wfail e (udpOutcome err) err a
           | (Inr got, a) \<Rightarrow>
               (case ConsumeResponse (we_lib e) st got (replicate 32 0) of
                  Inl er \<Rightarrow> wg_refused e er got a
                | Inr _ \<Rightarrow> wok e a)))"

section \<open>Many datagrams\<close>

record burst_state =
  bs_acked :: nat
  bs_sent :: nat
  bs_first_loss :: nat
  bs_unanswered :: nat
  bs_err :: "go_error option"

text \<open>The reads after one datagram, until its echo or an error.\<close>

function await_echo :: "wire_env \<Rightarrow> bytes \<Rightarrow> bytes \<Rightarrow> attempt \<Rightarrow> sock \<Rightarrow> (go_error option \<times> attempt \<times> sock) option" where
  "await_echo e nonce payload a s =
     (case sk_Recv 2048 s of
        (Inl err, s') \<Rightarrow> Some (Some err, a, s')
      | (Inr b, s') \<Rightarrow>
          let a = add_in (length b) a
          in if \<not> is_envelope b then await_echo e nonce payload a s'
             else (case checkReply (we_client e) b nonce payload of
                     None \<Rightarrow> None
                   | Some (_, verdict) \<Rightarrow> if verdict = '''' then Some (None, a, s') else await_echo e nonce payload a s'))"
  by pat_completeness auto
termination
  by (relation "measure (\<lambda>(e, nonce, payload, a, s). length (sk_reads s))") (auto dest: sk_Recv_left [OF sym])

declare await_echo.simps [simp del]

text \<open>One datagram and its echo, and the loop over them: \<open>Inl\<close> is an early return, \<open>Inr\<close> the state at the end of the
  loop.\<close>

definition send_datagram :: "wire_env \<Rightarrow> nat \<Rightarrow> nat \<Rightarrow> burst_state \<Rightarrow> attempt \<Rightarrow> sock
    \<Rightarrow> (attempt + burst_state \<times> attempt \<times> (sock option)) option" where
  "send_datagram e sz i st a s =
     (case we_stop e i of
        Some err \<Rightarrow> Some (Inl (wfail e OutcomeSkipped err a))
      | None \<Rightarrow>
          let payload = RandomPayload e i sz; nonce = NewNonce e i
          in (case client_envelope (we_client e) nonce (at_test a) (word_of_nat (i + 1)) payload True of
                Inl er \<Rightarrow> Some (Inl (wfail e OutcomeServerError (encode_error er) a))
              | Inr wire \<Rightarrow>
                  let a = (if i = 0 then a\<lparr>at_nonce := hex_encode nonce\<rparr> else a);
                      a = a\<lparr>at_nonces := at_nonces a @ [hex_encode nonce]\<rparr>
                  in (case sk_Write wire s of
                        (Some err, s) \<Rightarrow> Some (Inr (st\<lparr>bs_err := Some err\<rparr>, a, None))
                      | (None, s) \<Rightarrow>
                          let a = add_out (length wire) a;
                              a = (if i = 0 then wmark e ''first_write'' a else a);
                              st = st\<lparr>bs_sent := bs_sent st + 1\<rparr>
                          in do {
                               (err, a, s) \<leftarrow> await_echo e nonce payload a s;
                               (case err of
                                  None \<Rightarrow>
                                    Some (Inr (st\<lparr>bs_acked := bs_acked st + 1, bs_unanswered := 0, bs_err := None\<rparr>,
                                               if bs_acked st = 0 then wmark e ''first_byte'' a else a, Some s))
                                | Some er \<Rightarrow>
                                    Some (Inr (st\<lparr>bs_unanswered := bs_unanswered st + 1, bs_err := Some er,
                                                  bs_first_loss := (if bs_first_loss st = 0 then i + 1 else bs_first_loss st)\<rparr>,
                                               a, if bs_unanswered st + 1 \<ge> 3 then None else Some s)))
                             })))"

fun send_burst :: "wire_env \<Rightarrow> nat \<Rightarrow> nat list \<Rightarrow> burst_state \<Rightarrow> attempt \<Rightarrow> sock \<Rightarrow> (attempt + burst_state \<times> attempt) option" where
  "send_burst e sz [] st a s = Some (Inr (st, a))"
| "send_burst e sz (i # is) st a s = do {
     r \<leftarrow> send_datagram e sz i st a s;
     (case r of
        Inl a \<Rightarrow> Some (Inl a)
      | Inr (st, a, None) \<Rightarrow> Some (Inr (st, a))
      | Inr (st, a, Some s) \<Rightarrow> send_burst e sz is st a s)
   }"

definition burst_verdict :: "wire_env \<Rightarrow> nat \<Rightarrow> burst_state \<Rightarrow> attempt \<Rightarrow> attempt" where
  "burst_verdict e n st a =
     (let a = set_det ''packets_acked'' (utoa (bs_acked st)) (set_det ''packets_sent'' (utoa (bs_sent st)) a);
          a = (if bs_first_loss st > 0 then set_det ''first_loss'' (utoa (bs_first_loss st)) a else a);
          cut = (bs_unanswered st \<ge> 3 \<or> bs_sent st < n)
      in if bs_acked st = n then wok e a
         else if bs_acked st = 0 \<and> bs_sent st > 0
         then (case bs_err st of
                 Some err \<Rightarrow> wfail e (udpOutcome err) err a
               | None \<Rightarrow> wfail e OutcomePayloadTimeout (new_error ''no datagram answered'') a)
         else if cut
         then wfail e OutcomePacketsCut (new_error (''echo stopped after '' @ utoa (bs_acked st) @ '' of '' @ utoa (bs_sent st)
                @ '' datagrams (first loss at #'' @ itoa (if bs_first_loss st = 0 then -1 else int (bs_first_loss st)) @ '')'')) a
         else wok e (set_det ''packets_lost'' (utoa (bs_sent st - bs_acked st)) a))"

definition udpPackets :: "wire_env \<Rightarrow> attempt \<Rightarrow> int \<Rightarrow> int \<Rightarrow> attempt option" where
  "udpPackets e a n0 size0 =
     (let n = or_default 32 n0;
          a = set_det ''packets_planned'' (utoa n) a
      in case udpConn e a of
           Inl err \<Rightarrow> Some (wfail e OutcomeServerError err a)
         | Inr a \<Rightarrow>
             do {
               r \<leftarrow> send_burst e (or_default 32 size0) [0..<n] \<lparr>bs_acked = 0, bs_sent = 0, bs_first_loss = 0, bs_unanswered = 0, bs_err = None\<rparr> a (we_sock e);
               Some (case r of Inl a \<Rightarrow> a | Inr (st, a) \<Rightarrow> burst_verdict e n st a)
             })"

end
