(* ===== verification/Echo_Props.thy ===== *)
theory Echo_Props
  imports Echo_Tests
begin

text \<open>
  What an echo that passes or fails means: only the session's key makes one pass, the responder's reply does make
  it pass however the network cuts it, save in one place, and which failures of a datagram burst are blamed on the
  path.
\<close>

section \<open>Attempts\<close>

lemma wfail_simps [simp]:
  "at_outcome (wfail e out err a) = out" "at_test (wfail e out err a) = at_test a"
  "k \<noteq> ''local_error'' \<Longrightarrow> det (wfail e out err a) k = det a k"
  by (simp_all add: wfail_def fail_def mark_def markLocal_def det_def set_det_def Let_def lookup_str_def)

lemma wok_simps [simp]: "at_outcome (wok e a) = OutcomeOK" "det (wok e a) k = det a k"
  by (simp_all add: wok_def ok_def mark_def det_def)

lemma classify_never_ok [simp]: "classifyNetErr er w \<noteq> OutcomeOK"
  by (simp add: classifyNetErr_def outcomes)

lemma udpOutcome_never_ok [simp]: "udpOutcome er \<noteq> OutcomeOK"
  by (simp add: udpOutcome_def)

lemma fail_outcomes [simp]:
  "OutcomeUnexpected \<noteq> OutcomeOK" "OutcomeModified \<noteq> OutcomeOK" "OutcomeServerError \<noteq> OutcomeOK" "OutcomePacketsCut \<noteq> OutcomeOK"
  "OutcomeSkipped \<noteq> OutcomeOK" "OutcomePayloadTimeout \<noteq> OutcomeOK"
  by (simp_all add: outcomes)

section \<open>Replies\<close>

text \<open>A reply that only the holder of the key can have made: tagged with it, and naming the nonce and the payload of
  the request.\<close>

definition authentic_reply :: "bytes \<Rightarrow> bytes \<Rightarrow> bytes \<Rightarrow> bytes \<Rightarrow> bool" where
  "authentic_reply key nonce payload b \<longleftrightarrow>
     (\<exists>body n. b = body @ mac key body \<and> n = unat (body ! 22) \<and> take 12 (drop (23 + n) body) = nonce
        \<and> be_nat (take 2 (drop (39 + n) body)) = length payload \<and> take 32 (drop (41 + n) body) = sha256 payload)"

lemma checkReply_authentic:
  assumes "checkReply c b nonce payload = Some (rep, '''')"
  shows "authentic_reply (cl_key c) nonce payload (take (105 + unat (b ! 22)) b)" "rep \<noteq> None"
proof -
  have env: "is_envelope b" "b ! 4 = KindReply" using assms by (auto simp: checkReply_def decode_reply_def split: if_splits)
  have len: "105 + unat (b ! 22) \<le> length b"
    using assms env by (cases rule: reply_len_cases [of b]) (auto simp: checkReply_def decode_reply_def)
  define n where "n = unat (b ! 22)"
  define B where "B = take (105 + n) b"
  have lB: "length B = 105 + n" using len by (simp add: B_def n_def)
  have d: "decode_reply b (cl_key c) = Some (Some r, None) \<Longrightarrow> drop (89 + n) B = mac (cl_key c) (take (89 + n) B) \<and>
      rep_nonce r = take 12 (drop (23 + n) B) \<and> rep_recv_len r = word_of_nat (be_nat (take 2 (drop (39 + n) B))) \<and> rep_sha r = take 32 (drop (41 + n) B)" for r
    using decode_reply_eq [OF env len, of "cl_key c"] by (auto simp: n_def B_def split: if_splits)
  obtain r where r: "decode_reply b (cl_key c) = Some (Some r, None)" "rep = Some r" "rep_nonce r = nonce" "rep_sha r = sha256 payload"
      "unat (rep_recv_len r) = length payload"
    using assms by (auto simp: checkReply_def split: option.splits prod.splits if_splits)
  show "rep \<noteq> None" using r(2) by simp
  define body where "body = take (89 + n) B"
  have Bb: "B = body @ mac (cl_key c) body" using d [OF r(1)] append_take_drop_id [of "89 + n" B] by (simp add: body_def)
  have b22: "body ! 22 = b ! 22" by (simp add: body_def B_def)
  have f: "take 12 (drop (23 + n) body) = take 12 (drop (23 + n) B)" "take 32 (drop (41 + n) body) = take 32 (drop (41 + n) B)"
    "take 2 (drop (39 + n) body) = take 2 (drop (39 + n) B)"
    by (simp_all add: body_def take_drop min_def)
  have "be_nat (take 2 (drop (39 + n) B)) < 256 ^ length (take 2 (drop (39 + n) B))" by (rule be_nat_less)
  then have l2: "be_nat (take 2 (drop (39 + n) B)) = length payload" using d [OF r(1)] r(5) lB by (simp add: unat_of_nat)
  have g: "take 12 (drop (23 + n) body) = nonce" "be_nat (take 2 (drop (39 + n) body)) = length payload" "take 32 (drop (41 + n) body) = sha256 payload"
    using f d [OF r(1)] r(3,4) l2 by simp_all
  show "authentic_reply (cl_key c) nonce payload (take (105 + unat (b ! 22)) b)"
    unfolding authentic_reply_def n_def [symmetric] B_def [symmetric]
    by (rule exI [of _ body], rule exI [of _ n], intro conjI, rule Bb, simp add: b22 n_def) (rule g)+
qed

text \<open>The reads of one reply.\<close>

lemma read_reply_total: "\<exists>r. read_reply outmap e buf a s = Some r"
proof (induction outmap e buf a s rule: read_reply.induct)
  case (1 outmap e buf a s)
  show ?case
    by (subst read_reply.simps, use 1 reply_len_total [of buf] in \<open>cases rule: reply_len_cases [of buf]\<close>)
      (auto simp: Let_def split: prod.splits option.splits)
qed

lemma sk_Read_stream: "sk_Read k s = ((bs, err), s') \<Longrightarrow> concat (map fst (sk_reads s)) = bs @ concat (map fst (sk_reads s'))"
  by (auto simp: sk_Read_def split: list.splits if_splits)

lemma read_reply_stream:
  "read_reply outmap e buf a s = Some (Inr (b, a')) \<Longrightarrow> (\<exists>rest. buf @ concat (map fst (sk_reads s)) = b @ rest)"
proof (induction outmap e buf a s rule: read_reply.induct)
  case (1 outmap e buf a s)
  obtain bs err s' where rd: "sk_Read 4096 s = ((bs, err), s')" by (metis surj_pair)
  note st = sk_Read_stream [OF rd]
  show ?case
  proof (cases rule: reply_len_cases [of buf])
    case (1 need)
    then show ?thesis using "1.prems" "1.IH" [OF _ _ _ rd [symmetric]] rd st
      by (subst (asm) read_reply.simps) (auto simp: Let_def split: option.splits if_splits)
  next
    case (2 tot)
    then show ?thesis using "1.prems" by (subst (asm) read_reply.simps) auto
  qed
qed

lemma read_reply_fails:
  "(\<And>x. outmap (classifyNetErr x True) \<noteq> OutcomeOK) \<Longrightarrow> read_reply outmap e buf a s = Some (Inl a') \<Longrightarrow> at_outcome a' \<noteq> OutcomeOK"
proof (induction outmap e buf a s rule: read_reply.induct)
  case (1 outmap e buf a s)
  obtain bs err s' where rd: "sk_Read 4096 s = ((bs, err), s')" by (metis surj_pair)
  show ?case
  proof (cases rule: reply_len_cases [of buf])
    case (1 need)
    note IH = "1.IH" [OF 1(1) refl _ rd [symmetric] refl refl refl refl _ _ "1.prems"(1)]
    have "(case err of
        Some er \<Rightarrow> if buf @ bs \<noteq> [] \<and> \<not> is_envelope (buf @ bs) then at_outcome a' = OutcomeUnexpected else at_outcome a' = outmap (classifyNetErr er True)
      | None \<Rightarrow> at_outcome a' = OutcomeUnexpected \<or> at_outcome a' \<noteq> OutcomeOK)"
      using "1.prems"(2) [unfolded read_reply.simps [of outmap e buf a s]] IH rd 1(1) by (auto simp: Let_def split: option.splits if_splits)
    then show ?thesis using "1.prems"(1) by (auto split: option.splits if_splits)
  next
    case (2 tot)
    then show ?thesis using "1.prems" by (subst (asm) read_reply.simps) auto
  qed
qed

lemma judge_passes:
  assumes "judge_reply e b nonce payload rtt a = Some a'" and "at_outcome a' = OutcomeOK"
  shows "authentic_reply (cl_key (we_client e)) nonce payload (take (105 + unat (b ! 22)) b)"
proof -
  obtain rep verdict where c: "checkReply (we_client e) b nonce payload = Some (rep, verdict)" using assms(1) by (auto simp: judge_reply_def split: option.splits)
  then have "verdict = ''''" using assms by (auto simp: judge_reply_def split: if_splits)
  then show ?thesis using checkReply_authentic(1) c by blast
qed

text \<open>A reply in the reads of a socket, whole.\<close>

definition heard :: "(bytes \<Rightarrow> bool) \<Rightarrow> sock \<Rightarrow> bool" where
  "heard P s \<longleftrightarrow> (\<exists>n. P (take n (concat (map fst (sk_reads s)))))"

lemma sk_Write_reads: "sk_Write b s = (err, s') \<Longrightarrow> sk_reads s' = sk_reads s"
  by (auto simp: sk_Write_def split: list.splits option.splits)

lemma write_chunks_reads: "write_chunks e bs n a s = Inr (n', a', s') \<Longrightarrow> sk_reads s' = sk_reads s"
  by (induction e bs n a s rule: write_chunks.induct) (auto simp: Let_def dest: sk_Write_reads split: prod.splits option.splits if_splits)

lemma await_passes:
  assumes "await_reply outmap e nonce payload rtt a s = Some a'" and "at_outcome a' = OutcomeOK" and "\<And>x. outmap (classifyNetErr x True) \<noteq> OutcomeOK"
  shows "heard (authentic_reply (cl_key (we_client e)) nonce payload) s"
proof -
  obtain r where r: "read_reply outmap e [] a s = Some r" "(case r of Inl a \<Rightarrow> Some a | Inr (b, a) \<Rightarrow> judge_reply e b nonce payload rtt a) = Some a'"
    using assms(1) unfolding await_reply_def by (auto simp: bind_eq_Some_conv)
  then obtain b a1 where b: "r = Inr (b, a1)" using read_reply_fails [of outmap e "[]" a s] assms(2,3) by (cases r) auto
  obtain rest where "concat (map fst (sk_reads s)) = b @ rest" using read_reply_stream r(1) b by (metis append_Nil)
  moreover have "take (min (105 + unat (b ! 22)) (length b)) (b @ rest) = take (105 + unat (b ! 22)) b" by (simp add: min_def)
  moreover have "authentic_reply (cl_key (we_client e)) nonce payload (take (105 + unat (b ! 22)) b)" using judge_passes r(2) b assms(2) by simp
  ultimately show ?thesis unfolding heard_def by metis
qed

lemma packetsOutcome_never_ok [simp]: "packetsOutcome (classifyNetErr er w) \<noteq> OutcomeOK"
  by (simp add: packetsOutcome_def)

lemma echoOnConn_passes:
  assumes "echoOnConn e k a sz s = Some a'" and "at_outcome a' = OutcomeOK"
  shows "heard (authentic_reply (cl_key (we_client e)) (NewNonce e k) (RandomPayload e k sz)) s"
proof -
  obtain wire s' a0 where w: "sk_Write wire s = (None, s')" "await_reply (\<lambda>x. x) e (NewNonce e k) (RandomPayload e k sz) True a0 s' = Some a'"
    using assms by (auto simp: echoOnConn_def Let_def split: sum.splits prod.splits option.splits)
  have "heard (authentic_reply (cl_key (we_client e)) (NewNonce e k) (RandomPayload e k sz)) s'" by (rule await_passes [OF w(2) assms(2)]) simp
  then show ?thesis using sk_Write_reads [OF w(1)] by (simp add: heard_def)
qed

lemma write_chunks_fails: "write_chunks e bs n a s = Inl a' \<Longrightarrow> at_outcome a' \<noteq> OutcomeOK"
  by (induction e bs n a s rule: write_chunks.induct) (auto simp: Let_def split: prod.splits option.splits if_splits)

lemma tlsOutcome_never_ok [simp]: "tlsOutcome er \<noteq> OutcomeOK"
  using classify_never_ok [of "net_error er" True] by (simp add: tlsOutcome_def outcomes)

lemma tcpPackets_passes:
  assumes "tcpPackets e hs a po = Some a'" and "at_outcome a' = OutcomeOK"
  shows "heard (authentic_reply (cl_key (we_client e)) (NewNonce e 0) (RandomPayload e 0 (or_default 64 (po_payload po)))) (we_sock e)"
proof -
  let ?p = "RandomPayload e 0 (or_default 64 (po_payload po))"
  obtain bs a0 n a1 a2 s where w: "write_chunks e bs 0 a0 (we_sock e) = Inr (n, a1, s)" "await_reply packetsOutcome e (NewNonce e 0) ?p False a2 s = Some a'"
    using assms write_chunks_fails by (auto simp: tcpPackets_def Let_def split: sum.splits prod.splits option.splits if_splits)
  have "heard (authentic_reply (cl_key (we_client e)) (NewNonce e 0) ?p) s" by (rule await_passes [OF w(2) assms(2)]) simp
  then show ?thesis using write_chunks_reads [OF w(1)] by (simp add: heard_def)
qed

lemma udpEcho_passes:
  assumes "udpEcho e a sz = Some a'" and "at_outcome a' = OutcomeOK"
  shows "\<exists>bs rest n. sk_reads (we_sock e) = (bs, None) # rest \<and> authentic_reply (cl_key (we_client e)) (NewNonce e 0) (RandomPayload e 0 sz) (take n bs)"
proof -
  obtain wire a0 got a1 where g: "udpExchange e a0 wire = (Inr got, a1)" "judge_reply e got (NewNonce e 0) (RandomPayload e 0 sz) False a1 = Some a'"
    using assms by (auto simp: udpEcho_def Let_def split: sum.splits prod.splits if_splits)
  obtain bs rest where r: "sk_reads (we_sock e) = (bs, None) # rest" "got = take 2048 bs"
    using g(1) by (auto simp: udpExchange_def udpExchangeOn_def udp_exchange_at_def sk_Recv_def Let_def dest: sk_Write_reads split: sum.splits prod.splits option.splits list.splits)
  then show ?thesis using judge_passes [OF g(2) assms(2)] by (metis take_take)
qed

section \<open>The reply of the responder\<close>

text \<open>The cuts at which the reads of the client end.\<close>

definition cuts :: "sock \<Rightarrow> nat set" where
  "cuts s = {length (concat (map fst (take k (sk_reads s)))) | k. True}"

lemma is_envelope_prefix: "is_envelope (b @ rest) \<Longrightarrow> 6 \<le> length b \<Longrightarrow> is_envelope b"
  by (auto simp: is_envelope_def has_prefix_def env_consts nth_append take_Cons' split: if_splits)

text \<open>However the network cuts a reply, the client reads it, unless a read ends after its fourth or fifth byte.\<close>

lemma read_reply_whole:
  assumes "is_envelope b" and "length b = 105 + unat (b ! 22)"
  shows "list_all (\<lambda>(x, err). err = None) (sk_reads s) \<Longrightarrow> buf @ concat (map fst (sk_reads s)) = b \<Longrightarrow>
    \<forall>k. length buf + length (concat (map fst (take k (sk_reads s)))) \<notin> {4, 5} \<Longrightarrow> \<exists>a'. read_reply outmap e buf a s = Some (Inr (b, a'))"
proof (induction "sk_reads s" arbitrary: s buf a)
  case Nil
  then have "buf = b" by simp
  then show ?case using assms(2) by (subst read_reply.simps) (auto simp: reply_len_def go_defs Let_def)
next
  case (Cons x rest)
  obtain bs where x: "x = (bs, None)" using Cons.prems(1) Cons.hyps(2) [symmetric] by (cases x) auto
  have b: "b = buf @ bs @ concat (map fst rest)" using Cons.prems(2) Cons.hyps(2) [symmetric] x by simp
  show ?case
  proof (cases rule: reply_len_cases [of buf])
    case (1 need)
    have "length b \<le> 360" using assms(2) unsigned_less [of "b ! 22", where ?'a = nat] by simp
    then have rd: "sk_Read 4096 s = ((bs, None), s\<lparr>sk_reads := rest\<rparr>)" using Cons.hyps(2) [symmetric] x b by (simp add: sk_Read_def)
    have cut: "length (buf @ bs) \<notin> {4, 5}" using Cons.prems(3) Cons.hyps(2) [symmetric] x by (auto dest: spec [of _ 1])
    then have env: "4 \<le> length (buf @ bs) \<Longrightarrow> is_envelope (buf @ bs)" using is_envelope_prefix [of "buf @ bs" "concat (map fst rest)"] assms(1) b by auto
    have "\<exists>a'. read_reply outmap e (buf @ bs) (add_in (length bs) (if bs \<noteq> [] \<and> buf = [] then wmark e ''first_byte'' a else a)) (s\<lparr>sk_reads := rest\<rparr>)
        = Some (Inr (b, a'))"
    proof (rule Cons.hyps(1))
      show "\<forall>k. length (buf @ bs) + length (concat (map fst (take k (sk_reads (s\<lparr>sk_reads := rest\<rparr>))))) \<notin> {4, 5}"
      proof
        fix k
        show "length (buf @ bs) + length (concat (map fst (take k (sk_reads (s\<lparr>sk_reads := rest\<rparr>))))) \<notin> {4, 5}"
          using Cons.prems(3) [rule_format, of "Suc k"] Cons.hyps(2) [symmetric] x by simp
      qed
    qed (use Cons.prems(1) Cons.hyps(2) [symmetric] b in auto)
    then show ?thesis using 1(1) rd env by (subst read_reply.simps) (auto simp: Let_def)
  next
    case (2 tot)
    have "buf ! 22 = b ! 22" using 2(3,4) b by (simp add: nth_append)
    then have "length b \<le> length buf" using 2(3,4) assms(2) by simp
    then have "length (bs @ concat (map fst rest)) = 0" unfolding b by simp
    then have "bs @ concat (map fst rest) = []" by (rule length_0_conv [THEN iffD1])
    then have "buf = b" unfolding b by (simp del: append_is_Nil_conv concat_eq_Nil_conv)
    then show ?thesis using 2(1,2) by (subst read_reply.simps) auto
  qed
qed

lemma checkReply_echo:
  assumes "wf_reply_source r" and "length (req_payload r) \<le> 8192"
  shows "\<exists>rep. checkReply c (encode_reply r seen sealed (cl_key c)) (req_nonce r) (req_payload r) = Some (Some rep, '''')"
proof -
  define b where "b = encode_reply r seen sealed (cl_key c)"
  note lay = reply_layout [OF assms(1), of b seen sealed "cl_key c" "[]", folded b_def, simplified]
  have len: "length b = 105 + length (req_test r)" using assms(1) by (simp add: b_def length_encode_reply wf_reply_source_def)
  have d: "drop (89 + length (req_test r)) b = mac (cl_key c) (reply_body r seen sealed)" using lay(14) len by simp
  show ?thesis unfolding b_def [symmetric] checkReply_def
    by (subst decode_reply_eq) (use lay d len assms(2) in \<open>simp_all add: unat_of_nat\<close>)
qed

lemma encode_reply_shape:
  assumes "wf_reply_source r"
  shows "is_envelope (encode_reply r seen sealed key)" "length (encode_reply r seen sealed key) = 105 + unat (encode_reply r seen sealed key ! 22)"
  using reply_layout(1,3) [OF assms, of "encode_reply r seen sealed key" seen sealed key "[]"] assms
  by (simp_all add: length_encode_reply wf_reply_source_def)

section \<open>What an echo means\<close>

text \<open>C6. Only the server makes an echo test pass. A tcp.echo or tcp.packets attempt, plain or inside TLS, ends ok only if
  the stream it read begins with a reply that carries the HMAC of the session's key and, under it, the nonce of this
  attempt and the length and SHA-256 of the payload this attempt sent; a udp.echo attempt only if the first datagram
  it read begins with such a reply (what follows it is not looked at). A middlebox that answers in the server's place, or changes a byte either way, is seen.\<close>

theorem echo_needs_the_key:
  "(tcpEcho e a sz = Some a' \<and> at_outcome a' = OutcomeOK \<longrightarrow>
      heard (authentic_reply (cl_key (we_client e)) (NewNonce e 0) (RandomPayload e 0 sz)) (we_sock e))
   \<and> (tcpPackets e hs a po = Some a' \<and> at_outcome a' = OutcomeOK \<longrightarrow>
      heard (authentic_reply (cl_key (we_client e)) (NewNonce e 0) (RandomPayload e 0 (or_default 64 (po_payload po)))) (we_sock e))
   \<and> (udpEcho e a sz = Some a' \<and> at_outcome a' = OutcomeOK \<longrightarrow>
      (\<exists>bs rest n. sk_reads (we_sock e) = (bs, None) # rest \<and> authentic_reply (cl_key (we_client e)) (NewNonce e 0) (RandomPayload e 0 sz) (take n bs)))"
  using tcpPackets_passes [of e hs a po a'] udpEcho_passes [of e a sz a']
  by (auto simp: tcpEcho_def split: sum.splits dest: echoOnConn_passes)

text \<open>The two ends of one connection: the responder reads what the client wrote, the client what the responder wrote,
  in whatever pieces and without errors; the server is otherwise idle and grants the session the test.\<close>

definition connected :: "wire_env \<Rightarrow> attempt \<Rightarrow> bytes \<Rightarrow> tcp_env \<Rightarrow> session \<Rightarrow> conn \<Rightarrow> store \<Rightarrow> bool" where
  "connected e a wire te sess c s \<longleftrightarrow>
     cl_key (we_client e) = ses_key sess \<and> length (cl_sid (we_client e)) = 16 \<and> map_of (sessions s) (cl_sid (we_client e)) = Some sess
     \<and> at_test a \<in> set (ses_tests sess) \<and> (\<exists>port. dl_result (we_dial e) = Inr port) \<and> sk_writes (we_sock e) = []
     \<and> te_others te = (\<lambda>_. []) \<and> (\<forall>k. te_clock te k \<le> ses_expires sess)
     \<and> int (length (attemptRate s (rateKey (ses_client sess)))) + 1 \<le> attPer10Min s
     \<and> list_all (\<lambda>(b, err). err = None) (cn_reads c) \<and> cn_writes c = [] \<and> cn_sent c = [] \<and> concat (map fst (cn_reads c)) = wire"

definition echo_request :: "wire_env \<Rightarrow> attempt \<Rightarrow> nat \<Rightarrow> request" where
  "echo_request e a sz = \<lparr>req_session = cl_sid (we_client e), req_test = at_test a, req_nonce = NewNonce e 0, req_seq = 1, req_cookie = None,
     req_payload = RandomPayload e 0 sz, req_raw = []\<rparr>"

lemma echo_flow:
  assumes "client_envelope (we_client e) (NewNonce e 0) (at_test a) 1 (RandomPayload e 0 sz) False = Inr wire"
    and "connected e a wire te sess c s"
  obtains f t where "handleTCP sv te port RoleGeneric c s = Some f" "sent f = [encode_reply ((echo_request e a sz)\<lparr>req_raw := wire\<rparr>) (fst t) (snd t) (cl_key (we_client e))]"
    "wf_reply_source ((echo_request e a sz)\<lparr>req_raw := wire\<rparr>)" "length (RandomPayload e 0 sz) \<le> 8192"
proof -
  let ?r = "echo_request e a sz" and ?key = "cl_key (we_client e)"
  note C = assms(2) [unfolded connected_def]
  have enc: "encode_request ?r ?key = Inr wire" using assms(1) by (simp add: client_envelope_def echo_request_def)
  have wf: "wf_request ?r" using C by (simp add: wf_request_def echo_request_def NewNonce_def)
  have ok: "request_ok (ses_key sess) ?r" "request_enc (ses_key sess) ?r = wire" using enc wf C by (auto simp: request_ok_def request_enc_def echo_request_def)
  have lens: "length (req_test ?r) \<le> 255" "length (req_payload ?r) \<le> 8192" using enc by (simp_all add: encode_request_Inr)
  have sess: "req_session ?r = cl_sid (we_client e)" "req_test ?r = at_test a" by (simp_all add: echo_request_def)
  have "\<exists>f ts. handleTCP sv te port RoleGeneric c s = Some f \<and> length ts = length [?r] \<and> sent f = cn_sent c @ map2 (echo_of sess) [?r] ts"
    by (rule handleTCP_client) (use C ok sess in \<open>simp_all add: envelope_client_def start_flow\<close>)
  then obtain f ts where f: "handleTCP sv te port RoleGeneric c s = Some f" "length ts = 1" "sent f = map2 (echo_of sess) [?r] ts" using C by auto
  then obtain t where "sent f = [echo_of sess ?r t]" by (cases ts) auto
  moreover have "wf_reply_source (?r\<lparr>req_raw := wire\<rparr>)" using wf lens by (simp add: wf_reply_source_def wf_request_def)
  ultimately show thesis using that f(1) ok(2) C lens(2) by (simp add: echo_of_def echo_request_def)
qed

lemma echo_exchange_ok:
  assumes "client_envelope (we_client e) (NewNonce e 0) (at_test a) 1 (RandomPayload e 0 sz) False = Inr wire"
    and "connected e a wire te sess c s"
  shows "\<exists>f. handleTCP sv te port RoleGeneric c s = Some f \<and>
    (list_all (\<lambda>(b, err). err = None) (sk_reads (we_sock e)) \<and> concat (map fst (sk_reads (we_sock e))) = concat (sent f) \<and> cuts (we_sock e) \<inter> {4, 5} = {}
       \<longrightarrow> (\<exists>a'. tcpEcho e a sz = Some a' \<and> at_outcome a' = OutcomeOK))"
proof -
  let ?key = "cl_key (we_client e)" and ?nonce = "NewNonce e 0" and ?p = "RandomPayload e 0 sz" and ?r = "(echo_request e a sz)\<lparr>req_raw := wire\<rparr>"
  note C = assms(2) [unfolded connected_def]
  obtain f t where f: "handleTCP sv te port RoleGeneric c s = Some f" "sent f = [encode_reply ?r (fst t) (snd t) ?key]"
    and src: "wf_reply_source ?r" and len: "length ?p \<le> 8192" by (rule echo_flow [OF assms])
  define R where "R = encode_reply ?r (fst t) (snd t) ?key"
  have sent: "sent f = [R]" using f(2) by (simp add: R_def)
  note shape = encode_reply_shape [OF src, of "fst t" "snd t" ?key, folded R_def]
  obtain rep where rep: "checkReply (we_client e) R ?nonce ?p = Some (Some rep, '''')" using checkReply_echo [OF src, of "we_client e" "fst t" "snd t"] len by (auto simp: echo_request_def R_def)
  show ?thesis
  proof (rule exI [of _ f], rule conjI, rule f(1), rule impI)
    assume A: "list_all (\<lambda>(b, err). err = None) (sk_reads (we_sock e)) \<and> concat (map fst (sk_reads (we_sock e))) = concat (sent f) \<and> cuts (we_sock e) \<inter> {4, 5} = {}"
    obtain a1 where d: "dialTCP e a = Inr a1" "at_test a1 = at_test a" using C by (auto simp: dialTCP_def markSince_def Let_def split: option.splits)
    define s' where "s' = snd (sk_Write wire (we_sock e))"
    have w: "sk_Write wire (we_sock e) = (None, s')" "sk_reads s' = sk_reads (we_sock e)" using C by (simp_all add: s'_def sk_Write_def)
    define x where "x = wmark e ''first_write'' (add_out (length wire) (a1\<lparr>at_nonce := hex_encode ?nonce\<rparr>))"
    have "\<exists>a2. read_reply (\<lambda>x. x) e [] x s' = Some (Inr (R, a2))"
      by (rule read_reply_whole [OF shape]) (use A sent w in \<open>auto simp: cuts_def\<close>)
    then obtain a2 where "read_reply (\<lambda>x. x) e [] x s' = Some (Inr (R, a2))" by blast
    then show "\<exists>a'. tcpEcho e a sz = Some a' \<and> at_outcome a' = OutcomeOK"
      using assms(1) d w(1) rep by (simp add: tcpEcho_def echoOnConn_def await_reply_def judge_reply_def Let_def x_def)
  qed
qed

text \<open>C9. Client and server agree on tcp.echo. Let the client hold the key of a session that is in the server's table and
  live at every reading of the server's clock, that grants the test and has room for one more attempt under the rate limit; let
  the client's dial succeed, both connections be free of errors, and nobody else touch the server's store meanwhile. When the
  client's envelope then reaches the responder, cut into any pieces, the flow ends; and when the bytes the responder wrote
  reach the client, cut into any pieces but with no read ending after the fourth or fifth byte, the attempt ends ok: the
  client's loop reads all of the reply and its check finds nothing wrong.\<close>

theorem tcp_echo_end_to_end:
  assumes "client_envelope (we_client e) (NewNonce e 0) (at_test a) 1 (RandomPayload e 0 sz) False = Inr wire"
    and "connected e a wire te sess c s"
  shows "\<exists>f. handleTCP sv te port RoleGeneric c s = Some f \<and>
    (list_all (\<lambda>(b, err). err = None) (sk_reads (we_sock e)) \<and> concat (map fst (sk_reads (we_sock e))) = concat (sent f) \<and> cuts (we_sock e) \<inter> {4, 5} = {}
       \<longrightarrow> (\<exists>a'. tcpEcho e a sz = Some a' \<and> at_outcome a' = OutcomeOK))"
  by (rule echo_exchange_ok [OF assms])

text \<open>C27. The client gives up on a reply it has begun to receive. Whenever the first read of a tcp.echo attempt gives four or five
  bytes, however the rest would go on, the attempt fails as an unexpected response and not for what happened to it: the loop
  asks whether the bytes are an envelope as soon as it has four, and four or five bytes never are one.\<close>

theorem echo_short_segment:
  assumes "sk_reads (we_sock e) = (b, None) # rest" and "length b \<in> {4, 5}" and "dl_result (we_dial e) = Inr port" and "sk_writes (we_sock e) = []"
    and "client_envelope (we_client e) (NewNonce e 0) (at_test a) 1 (RandomPayload e 0 sz) False = Inr wire"
  shows "\<exists>a'. tcpEcho e a sz = Some a' \<and> at_outcome a' = OutcomeUnexpected"
proof -
  obtain a1 where d: "dialTCP e a = Inr a1" "at_test a1 = at_test a" using assms(3) by (auto simp: dialTCP_def markSince_def Let_def split: option.splits)
  define s' where "s' = snd (sk_Write wire (we_sock e))"
  have w: "sk_Write wire (we_sock e) = (None, s')" "sk_reads s' = (b, None) # rest" using assms(1,4) by (simp_all add: s'_def sk_Write_def)
  have rd: "sk_Read 4096 s' = ((b, None), s'\<lparr>sk_reads := rest\<rparr>)" using w(2) assms(2) by (auto simp: sk_Read_def)
  have "\<not> is_envelope b" "b \<noteq> []" using assms(2) by (auto simp: is_envelope_def)
  then have "\<exists>x. read_reply (\<lambda>x. x) e [] y s' = Some (Inl x) \<and> at_outcome x = OutcomeUnexpected" for y
    using rd assms(2) by (subst read_reply.simps) (auto simp: reply_len_def Let_def)
  then obtain x where "read_reply (\<lambda>x. x) e [] (wmark e ''first_write'' (add_out (length wire) (a1\<lparr>at_nonce := hex_encode (NewNonce e 0)\<rparr>))) s' = Some (Inl x)"
      "at_outcome x = OutcomeUnexpected" by blast
  then show ?thesis using d w(1) assms(5) by (simp add: tcpEcho_def echoOnConn_def await_reply_def Let_def)
qed

section \<open>One exchange\<close>

definition demo_wire :: "(bytes \<times> go_error option) list \<Rightarrow> wire_env" where
  "demo_wire reads = \<lparr>we_client = demo_client\<lparr>cl_sid := replicate 16 7, cl_key := [5]\<rparr>, we_at = (\<lambda>_. 0),
     we_dial = \<lparr>dl_start = 0, dl_done = msec 20, dl_result = Inr (Some 50000)\<rparr>, we_udp = Inr None,
     we_sock = \<lparr>sk_reads = reads, sk_idle = new_error ''i/o timeout'', sk_writes = [], sk_sent = []\<rparr>,
     we_reserve = Inr '''', we_rand = (\<lambda>_ i. word_of_nat (i + 1)), we_nonce = (\<lambda>_ _. 9), we_stop = (\<lambda>_. None), we_lib = demo_lib,
     we_lib_err = new_error '''', we_peek = None, we_resp = Inl (new_error '''', []), we_utf8 = str_of\<rparr>"

definition demo_attempt :: attempt where
  "demo_attempt = zero_attempt\<lparr>at_test := ''udp.echo''\<rparr>"

definition demo_envelope :: bytes where
  "demo_envelope = request_enc [5] (echo_request (demo_wire []) demo_attempt 3)"

lemma demo_wire_sel [simp]:
  "NewNonce (demo_wire reads) k = replicate 12 9" "RandomPayload (demo_wire reads) k 3 = [1, 2, 3]" "sk_reads (we_sock (demo_wire reads)) = reads"
  "sk_writes (we_sock (demo_wire reads)) = []" "cl_key (we_client (demo_wire reads)) = [5]" "cl_sid (we_client (demo_wire reads)) = replicate 16 7"
  "dl_result (we_dial (demo_wire reads)) = Inr (Some 50000)" "at_test demo_attempt = ''udp.echo''"  by (simp_all add: NewNonce_def RandomPayload_def demo_wire_def demo_attempt_def echo_request_def upt_rec numeral_eq_Suc)

lemma demo_sends: "client_envelope (we_client (demo_wire reads)) (NewNonce (demo_wire reads) 0) (at_test demo_attempt) 1 (RandomPayload (demo_wire reads) 0 3) False = Inr demo_envelope"
  by (simp add: client_envelope_def demo_envelope_def request_enc_def encode_request_def echo_request_def Let_def)

lemma demo_connected: "connected (demo_wire reads) demo_attempt demo_envelope demo_env demo_session (demo_conn [demo_envelope]) demo_live"
  by (simp add: connected_def demo_env_def demo_session_def demo_live_def demo_conn_def newStore_def)

lemma demo_exchange:
  "\<exists>f R. handleTCP demo_tcp demo_env 8443 RoleGeneric (demo_conn [demo_envelope]) demo_live = Some f \<and> concat (sent f) = R \<and> length R = 113"
proof -
  obtain f t where f: "handleTCP demo_tcp demo_env 8443 RoleGeneric (demo_conn [demo_envelope]) demo_live = Some f"
      "sent f = [encode_reply ((echo_request (demo_wire []) demo_attempt 3)\<lparr>req_raw := demo_envelope\<rparr>) (fst t) (snd t) (cl_key (we_client (demo_wire [])))]"
      "wf_reply_source ((echo_request (demo_wire []) demo_attempt 3)\<lparr>req_raw := demo_envelope\<rparr>)"
    by (rule echo_flow [OF demo_sends [of "[]"] demo_connected [of "[]"], of demo_tcp 8443])
  have "wf_request ((echo_request (demo_wire []) demo_attempt 3)\<lparr>req_raw := demo_envelope\<rparr>)" using f(3) unfolding wf_reply_source_def by (rule conjunct1)
  note len = length_encode_reply [OF this, of "fst t" "snd t" "cl_key (we_client (demo_wire []))"]
  have "req_test ((echo_request (demo_wire []) demo_attempt 3)\<lparr>req_raw := demo_envelope\<rparr>) = ''udp.echo''" by (simp add: echo_request_def)
  then have "length (concat (sent f)) = 113" using len unfolding f(2) by (simp only: concat.simps append_Nil2) simp
  then show ?thesis using f(1) by blast
qed

lemma cuts_demo: "cuts (we_sock (demo_wire [(b, None)])) \<subseteq> {0, length b}"
  by (auto simp: cuts_def take_Cons')

theorem tcp_echo_end_to_end_witness:
  "\<exists>f a'. handleTCP demo_tcp demo_env 8443 RoleGeneric (demo_conn [demo_envelope]) demo_live = Some f
     \<and> tcpEcho (demo_wire [(concat (sent f), None)]) demo_attempt 3 = Some a' \<and> at_outcome a' = OutcomeOK"
proof -
  obtain f R where f: "handleTCP demo_tcp demo_env 8443 RoleGeneric (demo_conn [demo_envelope]) demo_live = Some f" "concat (sent f) = R" "length R = 113"
    using demo_exchange by blast
  have "cuts (we_sock (demo_wire [(R, None)])) \<inter> {4, 5} = {}" using cuts_demo [of R] f(3) by auto
  then show ?thesis using tcp_echo_end_to_end [OF demo_sends [of "[(R, None)]"] demo_connected, of demo_tcp 8443] f by auto
qed

theorem echo_needs_the_key_witness:
  "\<exists>f. handleTCP demo_tcp demo_env 8443 RoleGeneric (demo_conn [demo_envelope]) demo_live = Some f
     \<and> heard (authentic_reply [5] (replicate 12 9) [1, 2, 3]) (we_sock (demo_wire [(concat (sent f), None)]))"
proof -
  obtain f R where f: "handleTCP demo_tcp demo_env 8443 RoleGeneric (demo_conn [demo_envelope]) demo_live = Some f" "concat (sent f) = R" "length R = 113"
    using demo_exchange by blast
  have "cuts (we_sock (demo_wire [(R, None)])) \<inter> {4, 5} = {}" using cuts_demo [of R] f(3) by auto
  then obtain a' where "tcpEcho (demo_wire [(R, None)]) demo_attempt 3 = Some a'" "at_outcome a' = OutcomeOK"
    using echo_exchange_ok [OF demo_sends [of "[(R, None)]"] demo_connected, of demo_tcp 8443] f by auto
  then have "heard (authentic_reply [5] (replicate 12 9) [1, 2, 3]) (we_sock (demo_wire [(R, None)]))"
    using echo_needs_the_key [of "demo_wire [(R, None)]" demo_attempt 3 a'] by simp
  then show ?thesis using f(1,2) by blast
qed

theorem echo_short_segment_witness:
  "\<exists>a'. tcpEcho (demo_wire [([0x43, 0x50, 0x31, 1], None), ([2, 0], None)]) demo_attempt 3 = Some a' \<and> at_outcome a' = OutcomeUnexpected"
proof -
  let ?b = "[0x43, 0x50, 0x31, 1] :: bytes" and ?c = "[2, 0] :: bytes"
  have r: "sk_reads (we_sock (demo_wire [(?b, None), (?c, None)])) = (?b, None) # [(?c, None)]" by simp
  have l: "length ?b \<in> {4, 5}" by simp
  show ?thesis by (rule echo_short_segment [OF r l _ _ demo_sends]) simp_all
qed

section \<open>A burst the host could not send\<close>

lemma new_error_not_local: "localErrName (Some (new_error x)) = ''''"
  by (simp add: localErrName_def new_error_def err_is_def localErrnos_def)

lemma wfail_new_error: "at_error (wfail e out (new_error x) a) = x" "det (wfail e out (new_error x) a) k = det a k"
  by (simp_all add: wfail_def fail_def new_error_not_local) (simp_all add: new_error_def mark_def det_def)

text \<open>When the first datagram of a burst cannot be written, the attempt fails as a cut of the path, whatever the error, an
  error of the host itself included, and neither the attempt's error nor its details show it.\<close>

theorem burst_host_failure_blamed:
  assumes "we_udp e = Inr port" and "we_stop e 0 = None" and "sk_writes (we_sock e) = Some err # ws"
    and "client_envelope (we_client e) (NewNonce e 0) (at_test a) 1 (RandomPayload e 0 (or_default 32 sz)) True = Inr wire"
  shows "\<exists>a'. udpPackets e a n sz = Some a' \<and> at_outcome a' = OutcomePacketsCut \<and> det a' ''local_error'' = det a ''local_error''
    \<and> at_error a' = ''echo stopped after 0 of 0 datagrams (first loss at #-1)''"
proof -
  have "0 < or_default 32 n" by (simp add: or_default_def)
  then have ns: "[0..<or_default 32 n] = 0 # [1..<or_default 32 n]" by (simp add: upt_rec)
  obtain a1 where c: "udpConn e (set_det ''packets_planned'' (utoa (or_default 32 n)) a) = Inr a1" "at_test a1 = at_test a" "det a1 ''local_error'' = det a ''local_error''"
    using assms(1) by (cases port) (simp_all add: udpConn_def wmark_def mark_def det_def set_det_def lookup_str_def)
  define a2 where "a2 = (a1\<lparr>at_nonce := hex_encode (NewNonce e 0)\<rparr>)\<lparr>at_nonces := at_nonces a1 @ [hex_encode (NewNonce e 0)]\<rparr>"
  let ?st = "\<lparr>bs_acked = 0, bs_sent = 0, bs_first_loss = 0, bs_unanswered = 0, bs_err = None\<rparr> :: burst_state"
  have "send_burst e (or_default 32 sz) [0..<or_default 32 n] ?st a1 (we_sock e) = Some (Inr (?st\<lparr>bs_err := Some err\<rparr>, a2))"
    using assms(2-4) c(2) by (simp add: ns send_datagram_def sk_Write_def Let_def a2_def)
  moreover have "det a2 ''local_error'' = det a ''local_error''" using c(3) by (simp add: a2_def det_def)
  moreover have "utoa 0 = ''0''" "itoa (- 1) = ''-1''" by code_simp+
  ultimately show ?thesis using c(1) \<open>0 < or_default 32 n\<close> by (simp add: udpPackets_def burst_verdict_def Let_def wfail_new_error)
qed

theorem burst_host_failure_blamed_witness:
  "\<exists>e a'. udpPackets e demo_attempt 4 3 = Some a' \<and> at_outcome a' = OutcomePacketsCut"
proof -
  define e where "e = (demo_wire [])\<lparr>we_client := (we_client (demo_wire []))\<lparr>cl_cookie := replicate 16 3\<rparr>,
    we_sock := (we_sock (demo_wire []))\<lparr>sk_writes := [Some ((new_error ''network is down'')\<lparr>err_errnos := [ENETDOWN]\<rparr>)]\<rparr>\<rparr>"
  obtain wire where w: "client_envelope (we_client e) (NewNonce e 0) (at_test demo_attempt) 1 (RandomPayload e 0 (or_default 32 3)) True = Inr wire"
    by (simp add: e_def client_envelope_def encode_request_def RandomPayload_def or_default_def demo_wire_def demo_attempt_def Let_def)
  have c: "we_udp e = Inr None" "we_stop e 0 = None" "sk_writes (we_sock e) = Some ((new_error ''network is down'')\<lparr>err_errnos := [ENETDOWN]\<rparr>) # []"
    by (simp_all add: e_def demo_wire_def)
  show ?thesis using burst_host_failure_blamed [OF c w, of 4] by blast
qed

end
