(* ===== verification/Spec2Isabelle.thy ===== *)
theory Spec2Isabelle
  imports Store_Inv Rate_Limit Reservations Merge_Props Rules_Props Classify Vpn_Codecs Udp_Sessions Dest_Props Whatsapp Schedule_Props Probe Echo_Props
begin

text \<open>
  A verification of CensorPulse, a tool that finds out how a network censors. A probe server
  listens on many ports and answers probes of many protocols; a client runs a catalog of attempts
  against it, fetches what the server observed, merges both halves of the evidence and classifies
  the result by comparing each failing cell with a control that passes.

  \<^bold>\<open>Parts and theories.\<close>

  \<^item> Shared ground. \<open>Probe_Prelude\<close> has the Go notions every component uses: byte slices whose
    indexing outside the bounds is \<open>None\<close> (a panic), fixed-width integers as words, strings as char
    lists, decimal and hexadecimal text, maps to strings. \<open>Sha256\<close> and \<open>Crypto\<close> define SHA-256, SHA-1,
    HMAC, AES-256 and GCM; \<open>Codec\<close> is the interface (a locale) of a self-delimiting wire format.
  \<^item> Wire formats. \<open>Envelope\<close> and \<open>Token\<close> are \<open>internal/proto\<close>: the CP1 envelope, session ids, bearer
    tokens and the UDP cookie. \<open>Proxy_Codecs\<close> is \<open>internal/socks5\<close>, \<open>internal/vless\<close>, \<open>internal/stun\<close>;
    \<open>Vpn_Codecs\<close> is \<open>internal/l2tp\<close> and \<open>internal/ike\<close>; \<open>Ovpn\<close>, \<open>Dtls\<close>, \<open>Wg\<close>, \<open>Dnsx\<close> are the packages of those
    names. Every builder and parser of them is a function over byte lists.
  \<^item> The server. \<open>Store\<close> is \<open>internal/server/store.go\<close>: sessions with their observations, reservations,
    rate limits and quotas in one record, one function per method, \<open>store_step\<close> and \<open>store_run\<close> the
    sequences of operations. \<open>Store_Inv\<close>, \<open>Rate_Limit\<close> and \<open>Reservations\<close> hold what every such sequence
    keeps. \<open>Udp_Flow\<close> and \<open>Udp_Serve\<close> are the UDP demultiplexer (\<open>internal/server/udp.go\<close>, \<open>udp_vpn.go\<close>,
    \<open>udp_dtls.go\<close>): the listener's session tables as a record with a heap for the shared sessions, each
    handler as a function of the datagram and the flow so far, \<open>udp_handle\<close> the whole step; between two operations
    of a handler on the store the other goroutines act on it (\<open>dg_others\<close>). Packets for the QUIC endpoint go into
    the listener's queue, from which \<open>demux_ReadFrom\<close> takes them. \<open>Udp_Props\<close>
    states the contract of a handler as the locale \<open>udp_handler\<close> and interprets it for all fifteen
    entries of the dispatch table; \<open>Udp_Safety\<close> draws the properties of the reachable states from it and
    \<open>Udp_Sessions\<close> composes the demultiplexer with the client's WireGuard handshake.
    \<open>Http_Echo\<close>, \<open>Obfs4\<close> and \<open>Tor\<close> are the packages \<open>internal/httpecho\<close>, \<open>internal/obfs4\<close> and \<open>internal/tor\<close> that the
    TCP responder speaks (\<open>internal/server/tcp.go\<close>, \<open>tcp_tor.go\<close>, \<open>bulk.go\<close>). \<open>Tcp_Conn\<close> has the connection as
    a script of reads and writes, \<open>peekConn\<close>, buffered and full reads, the loop combinator \<open>io_loop\<close> and the
    table of connections; \<open>Tcp_Serve\<close> the flow with its environment and the handlers for envelopes, SOCKS5,
    obfs4, unknown bytes, OpenVPN and DNS; \<open>Tcp_Accept\<close> the handlers for HTTP, bulk transfers, Tor and TLS,
    \<open>finish\<close> and the whole \<open>handleTCP\<close>. \<open>Tcp_Props\<close> proves, handler by handler through the locales
    \<open>terminating_loop\<close> and \<open>tcp_handler\<close>, that a flow returns and uses the store only through its operations;
    \<open>Tcp_Safety\<close> says what a peer can get. \<open>Server_Config\<close> is the configuration and life cycle
    (\<open>config.go\<close>, \<open>server.go\<close>), \<open>Control\<close> the control API (\<open>control.go\<close>), \<open>Control_Props\<close> their properties and
    the meeting of the client's bootstrap with the server's answer; \<open>Probe\<close> puts control API, datagrams,
    collections, QUIC reads and the operations of TCP flows into one reachability relation over one store.
  \<^item> The client. \<open>Evidence\<close> has the records of \<open>internal/model\<close> that both halves share, \<open>Attempt\<close> the life of
    an attempt (\<open>internal/client/attempt.go\<close>), \<open>Merge\<close> and \<open>Merge_Props\<close> the merge of the server's
    observations into the attempts (\<open>merge.go\<close>). \<open>Client\<close> is the client's options, bootstrap and requests to
    the control plane (\<open>client.go\<close>, \<open>context.go\<close>); \<open>Plan\<close> the catalog and the profiles (\<open>plan.go\<close>, \<open>profile.go\<close>)
    with \<open>Plan_Props\<close>; \<open>Schedule\<close> the rounds, retries, pools and workers (\<open>run.go\<close>) as one step function
    over all interleavings, with \<open>Schedule_Props\<close>.
  \<^item> Real destinations. \<open>Netip\<close> is what is used of \<open>net/netip\<close>, \<open>Dest\<close> the catalog of destinations, the target
    list parser and the comparison of resolvers, \<open>Doh\<close> the resolver over HTTPS with its budget, \<open>Whatsapp\<close>
    the Noise hello of that probe (\<open>internal/dest\<close>), \<open>Dest_Props\<close> their properties; \<open>Dest_Tests\<close> is the attempts on
    them (\<open>internal/client/tests_dest.go\<close>): both resolvers, the check that settles a disagreement, the cache of
    resolutions, the layers from DNS to HTTP, and \<open>scan_run\<close>, the layers of all sites in any order of their critical
    sections on the cache.
  \<^item> Probes of the server. \<open>Echo_Tests\<close> is the attempts of one exchange (\<open>tests_tcp.go\<close>, \<open>tests_udp.go\<close>,
    \<open>tests_packets.go\<close>), \<open>Echo_Props\<close> what an echo that passes or fails means, and the exchange of the client with
    the responder of \<open>Tcp_Accept\<close>.
  \<^item> The classifier. \<open>Cells\<close> and \<open>Cells_Props\<close> are the aggregation, \<open>Rules\<close> and \<open>Rules_Props\<close> the
    differential rules, \<open>Transient\<close> and \<open>Transient_Props\<close> the outages, \<open>Dest_Classify\<close> the real destinations,
    \<open>Classify\<close> the composition (\<open>internal/classify\<close>).

  \<^bold>\<open>What the theorems show.\<close> Parsers never read outside their input and read back what the builders
  write; an envelope or token that is accepted was made with the session's key; the store stays within
  its bounds and quotas in every execution, day by day where the quota is a daily one, and a reservation is consumed
  at most once. A listener does not panic, itself answers entitled senders only and at most one datagram each, hands
  to the QUIC endpoint only packets of senders that hold a reservation or are remembered, answers and counts at most
  64 packets of a session's data phase, and does answer the probes that follow the protocol. A TCP flow ends,
  replies only to envelopes that were authenticated, granted and paid for,
  tells SOCKS5 strangers that no method is acceptable, downloads exactly the keystream that the quota granted, serves a correct
  client however its stream is cut, and no address holds more connections than the limit. The control API
  keeps sessions apart, a configuration is accepted exactly under the stated conditions, and a client that bootstraps
  on the server's answer can probe with what it got. Every catalog is sound, a scan ends and does what it
  announced, and attempts in flight never share a reservation. An echo passes only on a reply made with the
  session's key, and does pass on the reply of the responder, save when a read ends after its fourth or fifth byte.
  The layers of a real destination work from one list of addresses, blame a resolver exactly on evidence, and blame the
  path only for what was not the host's own failure. The merge attaches an observation only to
  the attempt it belongs to and never blames the server for what it did not see; the classifier reports
  nothing on a clean scan, and whatever it reports rests on a control.

  \<^bold>\<open>Idealisations.\<close> A Go string is a char list, one char per byte. A \<open>float64\<close> is an exact rational. Times
  are integers in nanoseconds; \<open>Time.Sub\<close> saturates as in Go, \<open>Time.Add\<close> does not overflow. The clock,
  random bytes, the day of the year and the outcome of a send are arguments. Iteration over a Go map is
  iteration over an association list; where the order could matter a theorem says that it does not.
  \<open>strings.Fields\<close>, \<open>strings.ToLower\<close> and \<open>strings.TrimSpace\<close> are modelled on ASCII text (a target list is trimmed of ASCII
  white space only), \<open>splitFields\<close> of a target list walks over bytes where the code walks over runes and replaces
  bytes that are not UTF-8, \<open>ParseFloat\<close> is modelled on decimal notation.
  Libraries outside the standard one (BLAKE2s, ChaCha20-Poly1305 and X25519 of golang.org/x/crypto, the
  DNS messages of golang.org/x/net) are parameters with named hypotheses (\<open>lib_ok\<close>, \<open>dns_ok\<close>), which a
  concrete instance is shown to meet. The HTTP client and the JSON codec of the control plane, the
  shuffle of a round and the results of \<open>crypto/tls\<close> and \<open>http.ReadRequest\<close> on a connection are arguments in the
  same way. A goroutine is a step function or a sequence of events; between two events of a TCP flow or of a datagram's
  handler the operations of the others take effect on the store (\<open>te_others\<close>, \<open>dg_others\<close>), and a mutex makes each
  operation one step. The envelope handlers look the session up twice and use the second result unchecked
  (\<open>udp.go:514\<close>, \<open>tcp.go:468\<close>): that a flow or a datagram does not panic is proved under the condition that no collection
  in between is stamped more than a minute after the first lookup (\<open>keeps_listed\<close>), the minute for which the
  collector keeps an expired session.
  A closure is the data it captures. A TCP connection is the list of its coming reads (bytes, and the error
  that comes with them, a deadline included) and of the outcomes of its writes.

  \<^bold>\<open>Bounds and termination.\<close> No definition uses fuel. A loop over a list or a shrinking suffix of its input
  is a total function with a measure on what is left to read. The loops of a TCP flow are \<open>io_loop\<close> over one
  step, where \<open>None\<close> is a panic or a loop that does not end; the locale \<open>terminating_loop\<close> asks for an invariant and
  a measure and is interpreted for each of them, so that every handler is proved to return. The scheduler's steps
  are bounded by a measure on the work left.

  \<^bold>\<open>Not modelled.\<close> Code whose substance is input and output: the sockets and deadlines themselves, the TLS and
  QUIC stacks and the generation of certificates, the bodies of the attempts on TLS, DNS, Tor and the VPN sessions (the other \<open>tests_*.go\<close>), DNS over QUIC and
  HTTP/3 listeners, the command line, the engine's and the gomobile bindings' glue, the report writers, key files
  and the GeoIP databases.
\<close>

end
